(* ===== verification/Py_Prelude.thy ===== *)
theory Py_Prelude
  imports Complex_Main
begin

text \<open>
  Shared vocabulary of the development.  A Python function that can raise is a computation
  \<open>('s, 'a) py\<close>: it takes the state, and returns either the raised exception or the
  result, together with the state reached.  The state survives a raise, as Python's
  mutations do.  \<open>wp\<close> is the weakest-precondition reading of such a computation; its
  equations are collected in \<open>wp_simps\<close>, so that the proofs about a handler walk through
  the handler's own calls.  The second half holds the Python values the sources test with
  \<open>isinstance\<close>, and the generic facts on lists and machines the components share.
\<close>

named_theorems wp_simps \<open>weakest preconditions of the combinators and of component calls\<close>

section \<open>Exceptions\<close>

text \<open>
  The exception classes the modelled sources raise or let through.  \<open>KeyboardInterrupt\<close>
  stands for the \<open>BaseException\<close>s that \<open>except Exception\<close> does not catch.
\<close>

datatype exn_class =
    ValueError | TypeError | RuntimeError | KeyError | BufferError | OverflowError
  | ZeroDivisionError | AssertionError | OSError | TimeoutError
  | HarnessError | SafetyError | WindowIdentityError | FrameError | GeometryError
  | ActionError | UnsupportedInputError | CleanupError
  | NativeError | ExactProtocolError | ExactWorkerError | EOFError | StructError | TimeoutExpired
  | OtherException | KeyboardInterrupt

datatype exn = Exn (exn_class: exn_class) (exn_text: string)

definition is_exception :: "exn \<Rightarrow> bool" where
  "is_exception e \<longleftrightarrow> exn_class e \<noteq> KeyboardInterrupt"

text \<open>The class hierarchy of \<open>harness.py\<close>: \<open>isinstance(error, HarnessError)\<close>.\<close>

definition is_harness_error :: "exn \<Rightarrow> bool" where
  "is_harness_error e \<longleftrightarrow> exn_class e \<in> {HarnessError, SafetyError, WindowIdentityError,
     FrameError, GeometryError, ActionError, UnsupportedInputError, CleanupError}"

text \<open>\<open>NativeError\<close> of \<open>irisu_env/native.py\<close> and its subclasses.\<close>

definition is_native_error :: "exn \<Rightarrow> bool" where
  "is_native_error e \<longleftrightarrow> exn_class e \<in> {NativeError, ExactProtocolError, ExactWorkerError}"

lemma harness_error_is_exception: "is_harness_error e \<Longrightarrow> is_exception e"
  by (auto simp: is_harness_error_def is_exception_def)

lemma is_exception_Exn [simp]: "is_exception (Exn c t) \<longleftrightarrow> c \<noteq> KeyboardInterrupt"
  by (simp add: is_exception_def)

section \<open>Computations\<close>

type_synonym 'a res = "exn + 'a"
type_synonym ('s, 'a) py = "'s \<Rightarrow> (exn + 'a) \<times> 's"

definition pret :: "'a \<Rightarrow> ('s, 'a) py" where
  "pret x = (\<lambda>s. (Inr x, s))"

definition praise :: "exn \<Rightarrow> ('s, 'a) py" where
  "praise e = (\<lambda>s. (Inl e, s))"

definition plift :: "'a res \<Rightarrow> ('s, 'a) py" where
  "plift r = (\<lambda>s. (r, s))"

definition pbind :: "('s, 'a) py \<Rightarrow> ('a \<Rightarrow> ('s, 'b) py) \<Rightarrow> ('s, 'b) py" where
  "pbind m f = (\<lambda>s. case m s of (Inl e, t) \<Rightarrow> (Inl e, t) | (Inr x, t) \<Rightarrow> f x t)"

definition pget :: "('s \<Rightarrow> 'a) \<Rightarrow> ('s, 'a) py" where
  "pget f = (\<lambda>s. (Inr (f s), s))"

definition pmod :: "('s \<Rightarrow> 's) \<Rightarrow> ('s, unit) py" where
  "pmod f = (\<lambda>s. (Inr (), f s))"

text \<open>\<open>if bad: raise e\<close>\<close>

definition pguard :: "bool \<Rightarrow> exn \<Rightarrow> ('s, unit) py" where
  "pguard bad e = (if bad then praise e else pret ())"

definition pwhen :: "bool \<Rightarrow> ('s, unit) py \<Rightarrow> ('s, unit) py" where
  "pwhen b m = (if b then m else pret ())"

text \<open>\<open>try: m  except Exception as exc: h(exc)\<close>\<close>

definition pcatch :: "('s, 'a) py \<Rightarrow> (exn \<Rightarrow> ('s, 'a) py) \<Rightarrow> ('s, 'a) py" where
  "pcatch m h = (\<lambda>s. case m s of
     (Inl e, t) \<Rightarrow> (if is_exception e then h e t else (Inl e, t))
   | (Inr x, t) \<Rightarrow> (Inr x, t))"

text \<open>\<open>try: m  except BaseException as exc: h(exc)\<close>\<close>

definition pcatch_base :: "('s, 'a) py \<Rightarrow> (exn \<Rightarrow> ('s, 'a) py) \<Rightarrow> ('s, 'a) py" where
  "pcatch_base m h = (\<lambda>s. case m s of (Inl e, t) \<Rightarrow> h e t | (Inr x, t) \<Rightarrow> (Inr x, t))"

text \<open>\<open>try: m  finally: f\<close>; an exception of \<open>f\<close> replaces the outcome of \<open>m\<close>.\<close>

definition pfinally :: "('s, 'a) py \<Rightarrow> ('s, unit) py \<Rightarrow> ('s, 'a) py" where
  "pfinally m f = (\<lambda>s. case m s of (r, t) \<Rightarrow>
     (case f t of (Inl e, u) \<Rightarrow> (Inl e, u) | (Inr _, u) \<Rightarrow> (r, u)))"

text \<open>Reifying the outcome, for a \<open>finally\<close> whose body reads how the \<open>try\<close> ended.\<close>

definition pattempt :: "('s, 'a) py \<Rightarrow> ('s, 'a res) py" where
  "pattempt m = (\<lambda>s. case m s of (r, t) \<Rightarrow> (Inr r, t))"

text \<open>A computation on the object, run inside a frame with local variables.\<close>

definition pzoom :: "('s, 'a) py \<Rightarrow> ('s \<times> 'l, 'a) py" where
  "pzoom m = (\<lambda>(s, l). case m s of (r, t) \<Rightarrow> (r, (t, l)))"

definition plocal :: "('l \<Rightarrow> 'l) \<Rightarrow> ('s \<times> 'l, unit) py" where
  "plocal f = (\<lambda>(s, l). (Inr (), (s, f l)))"

text \<open>\<open>try: m  except Exception as exc: h(exc)\<close> where the handler reads local variables the
  body assigned; they start as \<open>l0\<close>.\<close>

definition pframe ::
  "'l \<Rightarrow> ('s \<times> 'l, 'a) py \<Rightarrow> ('l \<Rightarrow> exn \<Rightarrow> ('s, 'a) py) \<Rightarrow> ('s, 'a) py" where
  "pframe l0 m h = (\<lambda>s. case m (s, l0) of
     (Inr x, (t, l)) \<Rightarrow> (Inr x, t)
   | (Inl e, (t, l)) \<Rightarrow> (if is_exception e then h l e t else (Inl e, t)))"

subsection \<open>Weakest preconditions\<close>

definition wp :: "('s, 'a) py \<Rightarrow> ('a \<Rightarrow> 's \<Rightarrow> bool) \<Rightarrow> (exn \<Rightarrow> 's \<Rightarrow> bool) \<Rightarrow> 's \<Rightarrow> bool" where
  "wp m Q E s = (case m s of (Inr x, t) \<Rightarrow> Q x t | (Inl e, t) \<Rightarrow> E e t)"

lemma wp_pret [wp_simps]: "wp (pret x) Q E = Q x"
  by (rule ext) (simp add: wp_def pret_def)

lemma wp_praise [wp_simps]: "wp (praise e) Q E = E e"
  by (rule ext) (simp add: wp_def praise_def)

lemma wp_plift [wp_simps]: "wp (plift r) Q E = (case r of Inl e \<Rightarrow> E e | Inr x \<Rightarrow> Q x)"
  by (rule ext) (simp add: wp_def plift_def split: sum.split)

lemma wp_pbind [wp_simps]: "wp (pbind m f) Q E = wp m (\<lambda>x. wp (f x) Q E) E"
  by (rule ext) (auto simp: wp_def pbind_def split: prod.split sum.split)

lemma wp_pget [wp_simps]: "wp (pget f) Q E = (\<lambda>s. Q (f s) s)"
  by (rule ext) (simp add: wp_def pget_def)

lemma wp_pmod [wp_simps]: "wp (pmod f) Q E = (\<lambda>s. Q () (f s))"
  by (rule ext) (simp add: wp_def pmod_def)

lemma wp_if [wp_simps]: "wp (if b then m else n) Q E = (if b then wp m Q E else wp n Q E)"
  by simp

lemma wp_pguard [wp_simps]: "wp (pguard b e) Q E = (if b then E e else Q ())"
  by (simp add: pguard_def wp_simps)

lemma wp_pwhen [wp_simps]: "wp (pwhen b m) Q E = (if b then wp m Q E else Q ())"
  by (simp add: pwhen_def wp_simps)

lemma wp_pcatch [wp_simps]:
  "wp (pcatch m h) Q E = wp m Q (\<lambda>e. if is_exception e then wp (h e) Q E else E e)"
  by (rule ext) (auto simp: wp_def pcatch_def split: prod.split sum.split)

lemma wp_pcatch_base [wp_simps]: "wp (pcatch_base m h) Q E = wp m Q (\<lambda>e. wp (h e) Q E)"
  by (rule ext) (auto simp: wp_def pcatch_base_def split: prod.split sum.split)

lemma wp_pfinally [wp_simps]:
  "wp (pfinally m f) Q E = wp m (\<lambda>x. wp f (\<lambda>_. Q x) E) (\<lambda>e. wp f (\<lambda>_. E e) E)"
  by (rule ext) (auto simp: wp_def pfinally_def split: prod.split sum.split)

lemma wp_pattempt [wp_simps]:
  "wp (pattempt m) Q E = wp m (\<lambda>x. Q (Inr x)) (\<lambda>e. Q (Inl e))"
  by (rule ext) (auto simp: wp_def pattempt_def split: prod.split sum.split)

lemma wp_pzoom [wp_simps]:
  "wp (pzoom m) Q E = (\<lambda>(s, l). wp m (\<lambda>x t. Q x (t, l)) (\<lambda>e t. E e (t, l)) s)"
  by (rule ext) (auto simp: wp_def pzoom_def split: prod.split sum.split)

lemma wp_plocal [wp_simps]: "wp (plocal f) Q E = (\<lambda>(s, l). Q () (s, f l))"
  by (rule ext) (simp add: wp_def plocal_def split: prod.split)

lemma wp_pframe [wp_simps]:
  "wp (pframe l0 m h) Q E = (\<lambda>s. wp m (\<lambda>x (t, l). Q x t)
     (\<lambda>e (t, l). if is_exception e then wp (h l e) Q E t else E e t) (s, l0))"
  by (rule ext) (auto simp: wp_def pframe_def split: prod.split sum.split)

lemma wp_option [wp_simps]:
  "wp (case x of None \<Rightarrow> m | Some y \<Rightarrow> f y) Q E =
     (case x of None \<Rightarrow> wp m Q E | Some y \<Rightarrow> wp (f y) Q E)"
  by (cases x) simp_all

lemma wp_sum [wp_simps]:
  "wp (case x of Inl a \<Rightarrow> f a | Inr b \<Rightarrow> g b) Q E =
     (case x of Inl a \<Rightarrow> wp (f a) Q E | Inr b \<Rightarrow> wp (g b) Q E)"
  by (cases x) simp_all

lemma wp_prod [wp_simps]:
  "wp (case x of (a, b) \<Rightarrow> f a b) Q E = (case x of (a, b) \<Rightarrow> wp (f a b) Q E)"
  by (cases x) simp

lemma wp_mono:
  assumes "wp m Q E s"
    and "\<And>x t. Q x t \<Longrightarrow> Q' x t" and "\<And>e t. E e t \<Longrightarrow> E' e t"
  shows "wp m Q' E' s"
  using assms by (auto simp: wp_def split: prod.split_asm sum.split_asm prod.split sum.split)

lemma wp_conj: "wp m Q E s \<Longrightarrow> wp m Q' E' s \<Longrightarrow>
    wp m (\<lambda>x t. Q x t \<and> Q' x t) (\<lambda>e t. E e t \<and> E' e t) s"
  by (auto simp: wp_def split: prod.split_asm sum.split_asm prod.split sum.split)

lemma wp_resultD: "wp m Q E s \<Longrightarrow> m s = (Inr x, t) \<Longrightarrow> Q x t"
  by (simp add: wp_def)

lemma wp_raiseD: "wp m Q E s \<Longrightarrow> m s = (Inl e, t) \<Longrightarrow> E e t"
  by (simp add: wp_def)

lemma wpI:
  assumes "\<And>x t. m s = (Inr x, t) \<Longrightarrow> Q x t" and "\<And>e t. m s = (Inl e, t) \<Longrightarrow> E e t"
  shows "wp m Q E s"
  using assms by (cases "m s" rule: prod.exhaust; cases "fst (m s)") (auto simp: wp_def)

lemma wp_True [simp]: "wp m (\<lambda>_ _. True) (\<lambda>_ _. True) s"
  by (rule wpI) simp_all

text \<open>The state a computation leaves behind, whatever its outcome.\<close>

definition final :: "('s, 'a) py \<Rightarrow> 's \<Rightarrow> 's" where
  "final m s = snd (m s)"

lemma wp_final: "wp m (\<lambda>_. P) (\<lambda>_. P) s \<longleftrightarrow> P (final m s)"
  by (auto simp: wp_def final_def split: prod.split sum.split)

subsection \<open>Invariants of computations\<close>

text \<open>
  \<open>keeps I m\<close>: from a state satisfying \<open>I\<close>, the computation reaches one that satisfies it,
  whether it returns or raises.  The rules follow the combinators, so that an invariant of a
  handler reduces to its primitive steps.
\<close>

definition keeps :: "('s \<Rightarrow> bool) \<Rightarrow> ('s, 'a) py \<Rightarrow> bool" where
  "keeps I m \<longleftrightarrow> (\<forall>s. I s \<longrightarrow> I (snd (m s)))"

named_theorems keeps_intros \<open>invariant rules of the combinators and of component calls\<close>

lemma keepsI: "(\<And>s. I s \<Longrightarrow> I (snd (m s))) \<Longrightarrow> keeps I m"
  by (simp add: keeps_def)

lemma keepsD: "keeps I m \<Longrightarrow> I s \<Longrightarrow> m s = (r, t) \<Longrightarrow> I t"
  by (force simp: keeps_def)

lemma keeps_wp: "keeps I m \<Longrightarrow> I s \<Longrightarrow> wp m (\<lambda>_. I) (\<lambda>_. I) s"
  by (rule wpI) (auto dest: keepsD)

lemma keeps_pret [keeps_intros]: "keeps I (pret x)"
  by (simp add: keeps_def pret_def)

lemma keeps_praise [keeps_intros]: "keeps I (praise e)"
  by (simp add: keeps_def praise_def)

lemma keeps_plift [keeps_intros]: "keeps I (plift r)"
  by (simp add: keeps_def plift_def)

lemma keeps_pget [keeps_intros]: "keeps I (pget f)"
  by (simp add: keeps_def pget_def)

lemma keeps_pguard [keeps_intros]: "keeps I (pguard b e)"
  by (simp add: keeps_def pguard_def praise_def pret_def)

lemma keeps_pmod [keeps_intros]: "(\<And>s. I s \<Longrightarrow> I (f s)) \<Longrightarrow> keeps I (pmod f)"
  by (simp add: keeps_def pmod_def)

lemma keeps_pbind [keeps_intros]: "keeps I m \<Longrightarrow> (\<And>x. keeps I (f x)) \<Longrightarrow> keeps I (pbind m f)"
  by (force simp: keeps_def pbind_def split: prod.split sum.split)

lemma keeps_pwhen [keeps_intros]: "keeps I m \<Longrightarrow> keeps I (pwhen b m)"
  by (simp add: pwhen_def keeps_pret)

lemma keeps_pcatch [keeps_intros]: "keeps I m \<Longrightarrow> (\<And>e. keeps I (h e)) \<Longrightarrow> keeps I (pcatch m h)"
  by (force simp: keeps_def pcatch_def split: prod.split sum.split)

lemma keeps_pfinally [keeps_intros]: "keeps I m \<Longrightarrow> keeps I f \<Longrightarrow> keeps I (pfinally m f)"
  by (force simp: keeps_def pfinally_def split: prod.split sum.split)

lemma keeps_pattempt [keeps_intros]: "keeps I m \<Longrightarrow> keeps I (pattempt m)"
  by (force simp: keeps_def pattempt_def split: prod.split)

lemma keeps_pzoom [keeps_intros]: "keeps I m \<Longrightarrow> keeps (\<lambda>(s, l). I s) (pzoom m)"
  by (force simp: keeps_def pzoom_def split: prod.split)

lemma keeps_plocal [keeps_intros]: "keeps (\<lambda>(s, l). I s) (plocal f)"
  by (auto simp: keeps_def plocal_def)

lemma keeps_pframe [keeps_intros]:
  "keeps (\<lambda>(s, l). I s) m \<Longrightarrow> (\<And>l e. keeps I (h l e)) \<Longrightarrow> keeps I (pframe l0 m h)"
proof (rule keepsI)
  fix s assume m: "keeps (\<lambda>(s, l). I s) m" and h: "\<And>l e. keeps I (h l e)" and I: "I s"
  obtain r t l where r: "m (s, l0) = (r, (t, l))" by (metis prod.exhaust)
  have It: "I t" using keepsD [OF m _ r] I by simp
  with h have "I (snd (h l e t))" for e by (simp add: keeps_def)
  with It show "I (snd (pframe l0 m h s))" by (simp add: pframe_def r split: sum.split)
qed

lemma keeps_final: "keeps I m \<Longrightarrow> I s \<Longrightarrow> I (final m s)"
  by (simp add: keeps_def final_def)

lemma keeps_from_wp: "(\<And>s. I s \<Longrightarrow> wp m (\<lambda>_. I) (\<lambda>_. I) s) \<Longrightarrow> keeps I m"
  by (simp add: keeps_def wp_final final_def)

lemma keeps_if [keeps_intros]: "(b \<Longrightarrow> keeps I m) \<Longrightarrow> (\<not> b \<Longrightarrow> keeps I n) \<Longrightarrow> keeps I (if b then m else n)"
  by simp

lemma keeps_option [keeps_intros]:
  "(x = None \<Longrightarrow> keeps I m) \<Longrightarrow> (\<And>y. x = Some y \<Longrightarrow> keeps I (f y)) \<Longrightarrow>
     keeps I (case x of None \<Rightarrow> m | Some y \<Rightarrow> f y)"
  by (cases x) simp_all

lemma keeps_sum [keeps_intros]:
  "(\<And>a. keeps I (f a)) \<Longrightarrow> (\<And>b. keeps I (g b)) \<Longrightarrow>
     keeps I (case x of Inl a \<Rightarrow> f a | Inr b \<Rightarrow> g b)"
  by (cases x) simp_all

lemma keeps_prod [keeps_intros]:
  "(\<And>a b. keeps I (f a b)) \<Longrightarrow> keeps I (case x of (a, b) \<Rightarrow> f a b)"
  by (cases x) simp

lemma keeps_Let [keeps_intros]: "keeps I (f x) \<Longrightarrow> keeps I (let y = x in f y)"
  by simp

lemma keeps_conj: "keeps I m \<Longrightarrow> keeps J m \<Longrightarrow> keeps (\<lambda>s. I s \<and> J s) m"
  by (simp add: keeps_def)

section \<open>Results without state\<close>

definition rbind :: "'a res \<Rightarrow> ('a \<Rightarrow> 'b res) \<Rightarrow> 'b res" where
  "rbind r f = (case r of Inl e \<Rightarrow> Inl e | Inr x \<Rightarrow> f x)"

definition rguard :: "bool \<Rightarrow> exn \<Rightarrow> unit res" where
  "rguard bad e = (if bad then Inl e else Inr ())"

lemma rbind_simps [simp]: "rbind (Inl e) f = Inl e" "rbind (Inr x) f = f x"
  by (simp_all add: rbind_def)

lemma rguard_simps [simp]: "rguard True e = Inl e" "rguard False e = Inr ()"
  by (simp_all add: rguard_def)

lemma rbind_Inr: "rbind r f = Inr y \<longleftrightarrow> (\<exists>x. r = Inr x \<and> f x = Inr y)"
  by (cases r) auto

lemma rbind_Inl: "rbind r f = Inl e \<longleftrightarrow> r = Inl e \<or> (\<exists>x. r = Inr x \<and> f x = Inl e)"
  by (cases r) auto

lemma rguard_Inr [simp]: "rguard b e = Inr u \<longleftrightarrow> \<not> b"
  by (simp add: rguard_def)

lemma rguard_Inl [simp]: "rguard b e = Inl e' \<longleftrightarrow> b \<and> e' = e"
  by (auto simp: rguard_def)

lemmas res_simps = rbind_Inr rbind_Inl

text \<open>Mapping a raising function over a list, left to right, stopping at the first raise.\<close>

fun rmap :: "('a \<Rightarrow> 'b res) \<Rightarrow> 'a list \<Rightarrow> 'b list res" where
  "rmap f [] = Inr []"
| "rmap f (x # xs) = rbind (f x) (\<lambda>y. rbind (rmap f xs) (\<lambda>ys. Inr (y # ys)))"

lemma rmap_Inr: "rmap f xs = Inr ys \<longleftrightarrow> list_all2 (\<lambda>x y. f x = Inr y) xs ys"
  by (induction xs arbitrary: ys) (auto simp: rbind_Inr list_all2_Cons1)

lemma rmap_length: "rmap f xs = Inr ys \<Longrightarrow> length ys = length xs"
  by (simp add: rmap_Inr list_all2_lengthD)

section \<open>Machines driven by operations\<close>

text \<open>
  Several components are objects whose methods are called in an arbitrary order by their
  client.  What the client relies on is stated once: an invariant every call keeps holds
  after any sequence of calls; a rank no call lowers is monotone along the sequence.
\<close>

locale op_machine =
  fixes step :: "'s \<Rightarrow> 'op \<Rightarrow> 's" and inv :: "'s \<Rightarrow> bool"
  assumes inv_step: "inv s \<Longrightarrow> inv (step s x)"
begin

lemma inv_run: "inv s \<Longrightarrow> inv (foldl step s xs)"
  by (induction xs arbitrary: s) (auto intro: inv_step)

lemma inv_prefix: "inv s \<Longrightarrow> inv (foldl step s (take n xs))"
  by (rule inv_run)

end

locale ranked_machine = op_machine step inv for step :: "'s \<Rightarrow> 'op \<Rightarrow> 's" and inv +
  fixes rank :: "'s \<Rightarrow> nat"
  assumes rank_step: "inv s \<Longrightarrow> rank s \<le> rank (step s x)"
begin

lemma rank_run: "inv s \<Longrightarrow> rank s \<le> rank (foldl step s xs)"
proof (induction xs arbitrary: s)
  case Nil
  show ?case by simp
next
  case (Cons x xs)
  have "rank s \<le> rank (step s x)" using Cons.prems by (rule rank_step)
  also have "\<dots> \<le> rank (foldl step (step s x) xs)"
    using Cons.prems by (intro Cons.IH inv_step)
  finally show ?case by simp
qed

end

section \<open>Lists\<close>

lemma length_filter_pos: "0 < length (filter P xs) \<longleftrightarrow> (\<exists>x \<in> set xs. P x)"
  by (induction xs) auto

lemma length_filter_update: "\<not> P y \<Longrightarrow> length (filter P (xs[i := y])) \<le> length (filter P xs)"
  by (induction xs arbitrary: i) (auto split: nat.split intro: le_SucI)

lemma distinct_map_inj_onD: "distinct (map f xs) \<Longrightarrow> inj_on f (set xs)"
  by (simp add: distinct_map)

end
