(* ===== verification/Py_Float.thy ===== *)
theory Py_Float
  imports Py_Prelude
begin

text \<open>
  Python's \<open>float\<close>: IEEE binary64 with round-to-nearest-even, as \<open>rat\<close> values plus the
  infinities and NaN.  Every arithmetic result goes through \<open>fl_round\<close>.  The sign of a
  zero is not represented: no modelled operation can tell the two zeros apart.  Python
  numbers (\<open>int\<close> or \<open>float\<close>) are \<open>pynum\<close>; their mixed comparisons are exact, their
  mixed sums convert the integer first.
\<close>

section \<open>Rounding\<close>

fun bit_len :: "nat \<Rightarrow> nat" where
  "bit_len n = (if n = 0 then 0 else Suc (bit_len (n div 2)))"

declare bit_len.simps [simp del]

definition pow2 :: "int \<Rightarrow> rat" where
  "pow2 e = (if 0 \<le> e then 2 ^ nat e else 1 / 2 ^ nat (- e))"

definition ilog2 :: "rat \<Rightarrow> int" where
  "ilog2 x = (let (n, d) = quotient_of x; e = int (bit_len (nat n)) - int (bit_len (nat d))
              in if pow2 e \<le> x then e else e - 1)"

definition round_even :: "rat \<Rightarrow> int" where
  "round_even x = (let f = \<lfloor>x\<rfloor>; r = x - of_int f in
     if r < 1 / 2 then f else if 1 / 2 < r then f + 1 else if even f then f else f + 1)"

datatype pyfloat = Fin rat | PInf | NInf | NaN

definition fl_round :: "rat \<Rightarrow> pyfloat" where
  "fl_round x = (if x = 0 then Fin 0 else
     let q = pow2 (max (ilog2 \<bar>x\<bar> - 52) (- 1074)); y = of_int (round_even (x / q)) * q
     in if pow2 1024 \<le> \<bar>y\<bar> then (if 0 < x then PInf else NInf) else Fin y)"

lemma pow2_pos [simp]: "0 < pow2 e"
  by (simp add: pow2_def)

lemma pow2_nonneg [simp]: "0 \<le> pow2 e"
  by (rule less_imp_le) simp

lemma round_even_nonneg: "0 \<le> x \<Longrightarrow> 0 \<le> round_even x"
  by (auto simp: round_even_def Let_def)

lemma round_even_nonpos: "x \<le> 0 \<Longrightarrow> round_even x \<le> 0"
proof -
  assume x: "x \<le> 0"
  show ?thesis
  proof (cases "x = 0")
    case True
    then show ?thesis by (simp add: round_even_def)
  next
    case False
    with x have "\<lfloor>x\<rfloor> < 0" by (simp add: floor_less_zero)
    then show ?thesis by (auto simp: round_even_def Let_def)
  qed
qed

lemma round_even_of_int [simp]: "round_even (of_int n) = n"
  by (simp add: round_even_def)

lemma round_even_close: "\<bar>of_int (round_even x) - x\<bar> \<le> 1 / 2"
proof -
  have "of_int \<lfloor>x\<rfloor> \<le> x" "x < of_int \<lfloor>x\<rfloor> + 1" by linarith+
  then show ?thesis by (auto simp: round_even_def Let_def abs_le_iff)
qed

text \<open>Rounding keeps the sign, so a finite sum of nonnegative numbers is nonnegative.\<close>

lemma fl_round_nonneg: "fl_round x = Fin y \<Longrightarrow> 0 \<le> x \<Longrightarrow> 0 \<le> y"
  by (auto simp: fl_round_def Let_def split: if_splits
           intro!: mult_nonneg_nonneg round_even_nonneg divide_nonneg_pos)

section \<open>Float operations\<close>

fun is_finite :: "pyfloat \<Rightarrow> bool" where
  "is_finite (Fin _) = True" | "is_finite _ = False"

text \<open>Comparisons: every comparison with NaN is false.\<close>

fun fl_le :: "pyfloat \<Rightarrow> pyfloat \<Rightarrow> bool" where
  "fl_le NaN _ = False"
| "fl_le _ NaN = False"
| "fl_le NInf _ = True"
| "fl_le _ PInf = True"
| "fl_le (Fin x) (Fin y) = (x \<le> y)"
| "fl_le _ _ = False"

fun fl_lt :: "pyfloat \<Rightarrow> pyfloat \<Rightarrow> bool" where
  "fl_lt NaN _ = False"
| "fl_lt _ NaN = False"
| "fl_lt _ NInf = False"
| "fl_lt PInf _ = False"
| "fl_lt NInf _ = True"
| "fl_lt _ PInf = True"
| "fl_lt (Fin x) (Fin y) = (x < y)"

fun fl_neg :: "pyfloat \<Rightarrow> pyfloat" where
  "fl_neg (Fin x) = Fin (- x)" | "fl_neg PInf = NInf" | "fl_neg NInf = PInf" | "fl_neg NaN = NaN"

fun fl_abs :: "pyfloat \<Rightarrow> pyfloat" where
  "fl_abs (Fin x) = Fin \<bar>x\<bar>" | "fl_abs NaN = NaN" | "fl_abs _ = PInf"

fun fl_add :: "pyfloat \<Rightarrow> pyfloat \<Rightarrow> pyfloat" where
  "fl_add (Fin x) (Fin y) = fl_round (x + y)"
| "fl_add NaN _ = NaN"
| "fl_add _ NaN = NaN"
| "fl_add PInf NInf = NaN"
| "fl_add NInf PInf = NaN"
| "fl_add PInf _ = PInf"
| "fl_add NInf _ = NInf"
| "fl_add _ y = y"

definition fl_sub :: "pyfloat \<Rightarrow> pyfloat \<Rightarrow> pyfloat" where
  "fl_sub x y = fl_add x (fl_neg y)"

fun fl_mul :: "pyfloat \<Rightarrow> pyfloat \<Rightarrow> pyfloat" where
  "fl_mul (Fin x) (Fin y) = fl_round (x * y)"
| "fl_mul NaN _ = NaN"
| "fl_mul _ NaN = NaN"
| "fl_mul (Fin x) y = (if x = 0 then NaN else if 0 < x then y else fl_neg y)"
| "fl_mul x (Fin y) = (if y = 0 then NaN else if 0 < y then x else fl_neg x)"
| "fl_mul x y = (if x = y then PInf else NInf)"

text \<open>Division; Python raises on a zero divisor.\<close>

fun fl_div :: "pyfloat \<Rightarrow> pyfloat \<Rightarrow> pyfloat res" where
  "fl_div x (Fin y) = (if y = 0 then Inl (Exn ZeroDivisionError ''float division by zero'') else
     Inr (case x of Fin z \<Rightarrow> fl_round (z / y) | NaN \<Rightarrow> NaN
        | _ \<Rightarrow> if 0 < y then x else fl_neg x))"
| "fl_div _ NaN = Inr NaN"
| "fl_div (Fin _) _ = Inr (Fin 0)"
| "fl_div _ _ = Inr NaN"

section \<open>Python numbers\<close>

datatype pynum = NInt int | NFlt pyfloat

text \<open>\<open>float(n)\<close>: the nearest double; an integer that rounds past the largest raises.\<close>

definition int_to_float :: "int \<Rightarrow> pyfloat res" where
  "int_to_float n = (case fl_round (of_int n) of
     Fin x \<Rightarrow> Inr (Fin x)
   | _ \<Rightarrow> Inl (Exn OverflowError ''int too large to convert to float''))"

fun num_to_float :: "pynum \<Rightarrow> pyfloat res" where
  "num_to_float (NInt n) = int_to_float n"
| "num_to_float (NFlt f) = Inr f"

text \<open>Comparisons of Python numbers are exact, also between \<open>int\<close> and \<open>float\<close>.\<close>

fun num_val :: "pynum \<Rightarrow> pyfloat" where
  "num_val (NInt n) = Fin (of_int n)"
| "num_val (NFlt f) = f"

definition num_le :: "pynum \<Rightarrow> pynum \<Rightarrow> bool" where
  "num_le x y = fl_le (num_val x) (num_val y)"

definition num_lt :: "pynum \<Rightarrow> pynum \<Rightarrow> bool" where
  "num_lt x y = fl_lt (num_val x) (num_val y)"

fun num_add :: "pynum \<Rightarrow> pynum \<Rightarrow> pynum res" where
  "num_add (NInt a) (NInt b) = Inr (NInt (a + b))"
| "num_add x y = rbind (num_to_float x) (\<lambda>a. rbind (num_to_float y) (\<lambda>b. Inr (NFlt (fl_add a b))))"

fun num_sub :: "pynum \<Rightarrow> pynum \<Rightarrow> pynum res" where
  "num_sub (NInt a) (NInt b) = Inr (NInt (a - b))"
| "num_sub x y = rbind (num_to_float x) (\<lambda>a. rbind (num_to_float y) (\<lambda>b. Inr (NFlt (fl_sub a b))))"

fun num_mul :: "pynum \<Rightarrow> pynum \<Rightarrow> pynum res" where
  "num_mul (NInt a) (NInt b) = Inr (NInt (a * b))"
| "num_mul x y = rbind (num_to_float x) (\<lambda>a. rbind (num_to_float y) (\<lambda>b. Inr (NFlt (fl_mul a b))))"

fun num_abs :: "pynum \<Rightarrow> pynum" where
  "num_abs (NInt a) = NInt \<bar>a\<bar>" | "num_abs (NFlt f) = NFlt (fl_abs f)"

text \<open>\<open>max(a, b)\<close> keeps its first argument unless the second is greater.\<close>

definition num_max :: "pynum \<Rightarrow> pynum \<Rightarrow> pynum" where
  "num_max x y = (if num_lt x y then y else x)"

section \<open>Python values\<close>

text \<open>
  What an argument annotated \<open>object\<close> may be.  \<open>PyOther\<close> is a value of any other type;
  its string is the type's name.
\<close>

datatype pyval =
    PyNone | PyBool bool | PyInt int | PyFloat pyfloat | PyStr string
  | PySeq "pyval list" | PyOther string

text \<open>\<open>type(value) is int\<close> (and \<open>isinstance(value, Integral)\<close> without \<open>bool\<close>).\<close>

fun plain_int :: "pyval \<Rightarrow> int option" where
  "plain_int (PyInt n) = Some n" | "plain_int _ = None"

text \<open>\<open>isinstance(value, Real) and not isinstance(value, bool)\<close>\<close>

fun real_num :: "pyval \<Rightarrow> pynum option" where
  "real_num (PyInt n) = Some (NInt n)"
| "real_num (PyFloat f) = Some (NFlt f)"
| "real_num _ = None"

fun plain_bool :: "pyval \<Rightarrow> bool option" where
  "plain_bool (PyBool b) = Some b" | "plain_bool _ = None"

fun plain_str :: "pyval \<Rightarrow> string option" where
  "plain_str (PyStr s) = Some s" | "plain_str _ = None"

text \<open>\<open>a == b\<close>: numbers (bools included) compare by value across their types.\<close>

fun num_of_val :: "pyval \<Rightarrow> pyfloat option" where
  "num_of_val (PyBool b) = Some (Fin (if b then 1 else 0))"
| "num_of_val (PyInt n) = Some (Fin (of_int n))"
| "num_of_val (PyFloat f) = Some f"
| "num_of_val _ = None"

definition py_eq :: "pyval \<Rightarrow> pyval \<Rightarrow> bool" where
  "py_eq a b = (case (num_of_val a, num_of_val b) of
     (Some x, Some y) \<Rightarrow> x = y \<and> x \<noteq> NaN
   | (None, None) \<Rightarrow> a = b
   | _ \<Rightarrow> False)"

lemma py_eq_int [simp]: "py_eq (PyInt m) (PyInt n) \<longleftrightarrow> m = n"
  by (simp add: py_eq_def)

lemma py_eq_str [simp]: "py_eq (PyStr s) (PyStr t) \<longleftrightarrow> s = t"
  by (simp add: py_eq_def)

lemma plain_int_Some [simp]: "plain_int v = Some n \<longleftrightarrow> v = PyInt n"
  by (cases v) auto

lemma plain_str_Some [simp]: "plain_str v = Some n \<longleftrightarrow> v = PyStr n"
  by (cases v) auto

lemma plain_bool_Some [simp]: "plain_bool v = Some n \<longleftrightarrow> v = PyBool n"
  by (cases v) auto

text \<open>\<open>type(value).__name__\<close>\<close>

fun type_name :: "pyval \<Rightarrow> string" where
  "type_name PyNone = ''NoneType''"
| "type_name (PyBool _) = ''bool''"
| "type_name (PyInt _) = ''int''"
| "type_name (PyFloat _) = ''float''"
| "type_name (PyStr _) = ''str''"
| "type_name (PySeq _) = ''list''"
| "type_name (PyOther t) = t"

lemma is_finite_iff: "is_finite f \<longleftrightarrow> (\<exists>x. f = Fin x)"
  by (cases f) auto

lemma fl_lt_le: "fl_lt x y \<Longrightarrow> fl_le x y"
  by (cases x; cases y) auto

lemma fl_le_trans: "fl_le x y \<Longrightarrow> fl_le y z \<Longrightarrow> fl_le x z"
  by (cases x; cases y; cases z) auto

lemma fl_lt_irrefl [simp]: "\<not> fl_lt x x"
  by (cases x) auto

lemma fl_le_not_lt: "fl_le x y \<Longrightarrow> \<not> fl_lt y x"
  by (cases x; cases y) auto

end
