(* ===== verification/Seeds.thy ===== *)
theory Seeds
  imports Py_Float "HOL-Library.Word" "HOL-Library.Multiset"
begin

text \<open>
  \<open>irisu_rl/seeds.py\<close>: the disjoint uint32 seed splits and the allocator that walks an
  affine permutation of one split.  An allocator is the record \<open>seed_allocator\<close>; its methods
  return the new allocator, or the exception and no new state, since every method mutates
  \<open>_cursor\<close> last.  The locale \<open>schedule\<close> states what a nonrepeating walk needs of an
  index-to-seed map; the allocator interprets it.
\<close>

unbundle bit_operations_syntax

section \<open>Splits\<close>

record seed_split =
  ss_name :: string
  ss_start :: int
  ss_size :: int

definition mk_seed_split :: "string \<Rightarrow> int \<Rightarrow> int \<Rightarrow> seed_split res" where
  "mk_seed_split name start sz =
     (if start < 0 \<or> sz \<le> 0 \<or> 2 ^ 32 < start + sz
      then Inl (Exn ValueError ''seed split must fit uint32'')
      else if sz AND (sz - 1) \<noteq> 0
      then Inl (Exn ValueError ''seed split size must be a power of two'')
      else Inr \<lparr>ss_name = name, ss_start = start, ss_size = sz\<rparr>)"

definition SEED_SPLITS_V1 :: "(string \<times> seed_split) list" where
  "SEED_SPLITS_V1 =
     [(''train'', \<lparr>ss_name = ''train'', ss_start = 0, ss_size = 2 ^ 30\<rparr>),
      (''validation'', \<lparr>ss_name = ''validation'', ss_start = 0x40000000, ss_size = 2 ^ 28\<rparr>),
      (''calibration'', \<lparr>ss_name = ''calibration'', ss_start = 0x50000000, ss_size = 2 ^ 28\<rparr>),
      (''test'', \<lparr>ss_name = ''test'', ss_start = 0x60000000, ss_size = 2 ^ 29\<rparr>)]"

fun adjacent_ok :: "seed_split list \<Rightarrow> bool" where
  "adjacent_ok (l # r # rest) = (ss_start l + ss_size l \<le> ss_start r \<and> adjacent_ok (r # rest))"
| "adjacent_ok _ = True"

definition validate_seed_splits :: "(string \<times> seed_split) list \<Rightarrow> unit res" where
  "validate_seed_splits splits =
     (let ordered = sort_key ss_start (map snd splits) in
      if length (remdups (map ss_name ordered)) \<noteq> length ordered
      then Inl (Exn ValueError ''duplicate seed split name'')
      else if \<not> adjacent_ok ordered then Inl (Exn ValueError ''seed splits overlap'')
      else Inr ())"

definition split_seeds :: "seed_split \<Rightarrow> int set" where
  "split_seeds p = {ss_start p ..< ss_start p + ss_size p}"

definition split_ok :: "seed_split \<Rightarrow> bool" where
  "split_ok p \<longleftrightarrow> 0 \<le> ss_start p \<and> ss_start p + ss_size p \<le> 2 ^ 32 \<and> (\<exists>k. ss_size p = 2 ^ k)"

section \<open>The allocator\<close>

record seed_reservation =
  sr_cursor :: int
  sr_seeds :: "int list"

record seed_allocator =
  sa_split :: seed_split
  sa_key :: int
  sa_multiplier :: int
  sa_offset :: int
  sa_cursor :: int

definition allocator_version :: string where
  "allocator_version = ''seed-allocator-v1''"

text \<open>A state mapping is an association list with distinct keys.\<close>

definition sa_state_dict :: "seed_allocator \<Rightarrow> (string \<times> pyval) list" where
  "sa_state_dict a =
     [(''version'', PyStr allocator_version), (''split'', PyStr (ss_name (sa_split a))),
      (''key'', PyInt (sa_key a)), (''cursor'', PyInt (sa_cursor a))]"

definition sa_load_state_dict ::
  "seed_allocator \<Rightarrow> (string \<times> pyval) list \<Rightarrow> seed_allocator res" where
  "sa_load_state_dict a state =
     (if set (map fst state) \<noteq> {''version'', ''split'', ''key'', ''cursor''}
      then Inl (Exn ValueError ''seed allocator state keys do not match version'')
      else let get = (\<lambda>k. the (map_of state k)) in
      if \<not> py_eq (get ''version'') (PyStr allocator_version)
         \<or> \<not> py_eq (get ''split'') (PyStr (ss_name (sa_split a)))
         \<or> \<not> py_eq (get ''key'') (PyInt (sa_key a))
      then Inl (Exn ValueError ''seed allocator state identity mismatch'')
      else case plain_int (get ''cursor'') of
        None \<Rightarrow> Inl (Exn ValueError ''invalid seed allocator cursor'')
      | Some c \<Rightarrow>
          if \<not> (0 \<le> c \<and> c \<le> ss_size (sa_split a))
          then Inl (Exn ValueError ''invalid seed allocator cursor'')
          else Inr (a\<lparr>sa_cursor := c\<rparr>))"

definition seed_allocator_init :: "string \<Rightarrow> pyval \<Rightarrow> pyval \<Rightarrow> seed_allocator res" where
  "seed_allocator_init split key cursor =
     (case map_of SEED_SPLITS_V1 split of
        None \<Rightarrow> Inl (Exn ValueError (''unknown seed split: '' @ split))
      | Some p \<Rightarrow>
        (case plain_int key of
           None \<Rightarrow> Inl (Exn ValueError ''allocator key must fit uint64'')
         | Some k \<Rightarrow>
           if \<not> (0 \<le> k \<and> k < 2 ^ 64) then Inl (Exn ValueError ''allocator key must fit uint64'')
           else
             let a = \<lparr>sa_split = p, sa_key = k,
                      sa_multiplier = ((k * 0x9E3779B97F4A7C15) OR 1) AND (ss_size p - 1),
                      sa_offset = ((k XOR drop_bit 32 k) * 0x85EBCA6B) AND (ss_size p - 1),
                      sa_cursor = 0\<rparr>
             in sa_load_state_dict a
                  [(''version'', PyStr allocator_version), (''split'', PyStr split),
                   (''key'', PyInt k), (''cursor'', cursor)]))"

definition seed_at :: "seed_allocator \<Rightarrow> int \<Rightarrow> int" where
  "seed_at a i = ss_start (sa_split a) +
     ((sa_multiplier a * i + sa_offset a) AND (ss_size (sa_split a) - 1))"

definition sa_reserve :: "seed_allocator \<Rightarrow> pyval \<Rightarrow> seed_reservation res" where
  "sa_reserve a cnt =
     (case plain_int cnt of
        None \<Rightarrow> Inl (Exn ValueError ''reservation count must be nonnegative'')
      | Some n \<Rightarrow>
        if n < 0 then Inl (Exn ValueError ''reservation count must be nonnegative'')
        else if ss_size (sa_split a) < sa_cursor a + n
        then Inl (Exn RuntimeError ''seed split exhausted'')
        else Inr \<lparr>sr_cursor = sa_cursor a,
                  sr_seeds = map (seed_at a) [sa_cursor a .. sa_cursor a + n - 1]\<rparr>)"

definition sa_commit :: "seed_allocator \<Rightarrow> seed_reservation \<Rightarrow> seed_allocator res" where
  "sa_commit a r =
     (if sr_cursor r \<noteq> sa_cursor a
      then Inl (Exn ValueError ''stale or out-of-order seed reservation'')
      else rbind (sa_reserve a (PyInt (int (length (sr_seeds r))))) (\<lambda>fresh.
        if r \<noteq> fresh then Inl (Exn ValueError ''seed reservation does not match allocator schedule'')
        else Inr (a\<lparr>sa_cursor := sa_cursor a + int (length (sr_seeds r))\<rparr>)))"

definition sa_take :: "seed_allocator \<Rightarrow> pyval \<Rightarrow> (int list \<times> seed_allocator) res" where
  "sa_take a cnt =
     rbind (sa_reserve a cnt) (\<lambda>r. rbind (sa_commit a r) (\<lambda>b. Inr (sr_seeds r, b)))"

text \<open>A client that calls \<open>take\<close> repeatedly; a call that raises issues nothing.\<close>

fun take_all :: "seed_allocator \<Rightarrow> pyval list \<Rightarrow> int list \<times> seed_allocator" where
  "take_all a [] = ([], a)"
| "take_all a (c # cs) =
     (case sa_take a c of
        Inl _ \<Rightarrow> take_all a cs
      | Inr (seeds, b) \<Rightarrow> (let (rest, z) = take_all b cs in (seeds @ rest, z)))"

section \<open>Powers of two\<close>

lemma and_pred_even: "(2 * m) AND (2 * m - 1) = 2 * (m AND (m - 1))" for m :: int
proof -
  have "(2 * m - 1) div 2 = m - 1" by arith
  then show ?thesis by (subst and_int_rec) simp
qed

lemma and_pred_odd: "(2 * m + 1) AND (2 * m) = 2 * m" for m :: int
  by (subst and_int_rec) simp

lemma power_of_two_test:
  fixes n :: int
  assumes "0 < n" and "n AND (n - 1) = 0"
  shows "\<exists>k. n = 2 ^ k"
  using assms
proof (induction "nat n" arbitrary: n rule: less_induct)
  case less
  show ?case
  proof (cases "even n")
    case True
    then obtain m where m: "n = 2 * m" by blast
    with less.prems have "0 < m" "m AND (m - 1) = 0" by (simp_all add: and_pred_even)
    with less.hyps m obtain k where "m = 2 ^ k" by force
    with m show ?thesis by (intro exI [of _ "Suc k"]) simp
  next
    case False
    then obtain m where m: "n = 2 * m + 1" by (blast elim: oddE)
    with less.prems have "m = 0" by (simp add: and_pred_odd)
    with m show ?thesis by (intro exI [of _ 0]) simp
  qed
qed

lemma and_pred_power: "(x :: int) AND (2 ^ k - 1) = x mod 2 ^ k"
  by (simp add: take_bit_eq_mask [symmetric] mask_eq_exp_minus_1 [symmetric] take_bit_eq_mod)

lemma odd_times_inj_mod:
  fixes m :: int
  assumes "odd m" and "0 \<le> i" "i < 2 ^ k" "0 \<le> j" "j < 2 ^ k"
    and "(m * i + c) mod 2 ^ k = (m * j + c) mod 2 ^ k"
  shows "i = j"
proof -
  have "2 ^ k dvd (m * i + c) - (m * j + c)" using assms(6) by (simp add: mod_eq_dvd_iff)
  then have "2 ^ k dvd m * (i - j)" by (simp add: algebra_simps)
  moreover have "coprime (2 ^ k) m" using assms(1) by simp
  ultimately have "2 ^ k dvd i - j" by (simp add: coprime_dvd_mult_right_iff)
  then have "i mod 2 ^ k = j mod 2 ^ k" by (simp add: mod_eq_dvd_iff)
  then show ?thesis using assms(2-5) by simp
qed

section \<open>Well-formed allocators\<close>

definition allocator_ok :: "seed_allocator \<Rightarrow> bool" where
  "allocator_ok a \<longleftrightarrow> split_ok (sa_split a) \<and> odd (sa_multiplier a) \<and>
     0 \<le> sa_cursor a \<and> sa_cursor a \<le> ss_size (sa_split a)"

lemma mk_seed_split_ok: "mk_seed_split name start sz = Inr p \<Longrightarrow> split_ok p"
  by (auto simp: mk_seed_split_def split_ok_def intro: power_of_two_test split: if_splits)

lemma v1_sizes: "\<exists>k. (2::int) ^ k = 1073741824" "\<exists>k. (2::int) ^ k = 268435456"
    "\<exists>k. (2::int) ^ k = 536870912"
  by (rule exI [of _ 30], simp) (rule exI [of _ 28], simp, rule exI [of _ 29], simp)

lemma v1_splits_ok: "map_of SEED_SPLITS_V1 s = Some p \<Longrightarrow> split_ok p \<and> ss_name p = s \<and> 1 < ss_size p"
  by (auto simp: SEED_SPLITS_V1_def split_ok_def v1_sizes eq_commute split: if_splits)

lemma load_cursor:
  "sa_load_state_dict a st = Inr b \<Longrightarrow>
     \<exists>c. b = a\<lparr>sa_cursor := c\<rparr> \<and> 0 \<le> c \<and> c \<le> ss_size (sa_split a)"
  by (auto simp: sa_load_state_dict_def Let_def split: if_splits option.splits)

lemma load_keeps_ok: "allocator_ok a \<Longrightarrow> sa_load_state_dict a st = Inr b \<Longrightarrow> allocator_ok b"
  by (auto dest!: load_cursor simp: allocator_ok_def)

lemma odd_masked_multiplier:
  fixes x :: int
  assumes "even p"
  shows "odd ((x OR 1) AND (p - 1))"
  using assms by (simp add: even_and_iff even_or_iff)

lemma init_ok:
  assumes "seed_allocator_init split key cursor = Inr a"
  shows "allocator_ok a \<and> ss_name (sa_split a) = split"
proof -
  from assms obtain p k where p: "map_of SEED_SPLITS_V1 split = Some p"
    and load: "sa_load_state_dict \<lparr>sa_split = p, sa_key = k,
        sa_multiplier = ((k * 0x9E3779B97F4A7C15) OR 1) AND (ss_size p - 1),
        sa_offset = ((k XOR drop_bit 32 k) * 0x85EBCA6B) AND (ss_size p - 1), sa_cursor = 0\<rparr>
      [(''version'', PyStr allocator_version), (''split'', PyStr split),
       (''key'', PyInt k), (''cursor'', cursor)] = Inr a"
    by (auto simp: seed_allocator_init_def Let_def split: option.splits if_splits)
  from v1_splits_ok [OF p] obtain n where n: "ss_size p = 2 ^ n" and ok: "split_ok p"
    and one: "1 < ss_size p" and name: "ss_name p = split"
    by (auto simp: split_ok_def)
  have "even (ss_size p)" using n one by (cases n) auto
  then show ?thesis using load_cursor [OF load] ok name odd_masked_multiplier
    by (auto simp: allocator_ok_def)
qed

section \<open>The schedule\<close>

text \<open>
  What a nonrepeating walk relies on: the map from indices to seeds is injective on the
  split's index range and stays inside the split.
\<close>

locale schedule =
  fixes ok :: "'a \<Rightarrow> bool" and extent :: "'a \<Rightarrow> int" and visit :: "'a \<Rightarrow> int \<Rightarrow> int"
    and home :: "'a \<Rightarrow> int set"
  assumes visit_inj: "ok a \<Longrightarrow> inj_on (visit a) {0..<extent a}"
    and visit_home: "ok a \<Longrightarrow> 0 \<le> i \<Longrightarrow> i < extent a \<Longrightarrow> visit a i \<in> home a"
begin

lemma window_distinct:
  assumes "ok a" "0 \<le> c" "d < extent a"
  shows "distinct (map (visit a) [c..d])"
proof -
  have "set [c..d] \<subseteq> {0..<extent a}" using assms by auto
  then show ?thesis using inj_on_subset [OF visit_inj [OF assms(1)]] by (simp add: distinct_map)
qed

lemma window_home:
  assumes "ok a" "0 \<le> c" "d < extent a"
  shows "set (map (visit a) [c..d]) \<subseteq> home a"
  using assms by (auto intro: visit_home)

lemma windows_disjoint:
  assumes "ok a" "0 \<le> b" "c \<le> extent a" "0 \<le> d" "c \<le> d" "e < extent a"
  shows "visit a ` {b..<c} \<inter> visit a ` {d..e} = {}"
proof -
  have "inj_on (visit a) ({b..<c} \<union> {d..e})"
    using assms by (intro inj_on_subset [OF visit_inj [OF assms(1)]]) auto
  moreover have "{b..<c} \<inter> {d..e} = {}" using assms(5) by auto
  ultimately show ?thesis by (auto simp: inj_on_def)
qed

end

lemma seed_at_mod:
  "ss_size (sa_split a) = 2 ^ k \<Longrightarrow>
     seed_at a i = ss_start (sa_split a) + (sa_multiplier a * i + sa_offset a) mod 2 ^ k"
  by (simp add: seed_at_def and_pred_power)

interpretation affine: schedule allocator_ok "\<lambda>a. ss_size (sa_split a)" seed_at "\<lambda>a. split_seeds (sa_split a)"
proof unfold_locales
  fix a assume ok: "allocator_ok a"
  then obtain k where k: "ss_size (sa_split a) = 2 ^ k" by (auto simp: allocator_ok_def split_ok_def)
  show "inj_on (seed_at a) {0..<ss_size (sa_split a)}"
    by (rule inj_onI, rule odd_times_inj_mod [where m = "sa_multiplier a" and k = k and c = "sa_offset a"])
      (use ok in \<open>auto simp: k seed_at_mod [OF k] allocator_ok_def\<close>)
next
  fix a i assume ok: "allocator_ok a"
  then obtain k where k: "ss_size (sa_split a) = 2 ^ k" by (auto simp: allocator_ok_def split_ok_def)
  show "seed_at a i \<in> split_seeds (sa_split a)"
    by (simp add: split_seeds_def seed_at_mod [OF k] k)
qed

section \<open>Reservations and commits\<close>

lemma reserve_Inr:
  "sa_reserve a c = Inr r \<longleftrightarrow> (\<exists>n. c = PyInt n \<and> 0 \<le> n \<and> sa_cursor a + n \<le> ss_size (sa_split a) \<and>
     r = \<lparr>sr_cursor = sa_cursor a, sr_seeds = map (seed_at a) [sa_cursor a .. sa_cursor a + n - 1]\<rparr>)"
  by (auto simp: sa_reserve_def split: option.split)

lemma window_length: "0 \<le> n \<Longrightarrow> int (length [c .. c + n - 1]) = n"
  by simp

lemma commit_Inr:
  "sa_commit a r = Inr b \<longleftrightarrow>
     (\<exists>n. 0 \<le> n \<and> sa_cursor a + n \<le> ss_size (sa_split a) \<and>
       r = \<lparr>sr_cursor = sa_cursor a, sr_seeds = map (seed_at a) [sa_cursor a .. sa_cursor a + n - 1]\<rparr> \<and>
       b = a\<lparr>sa_cursor := sa_cursor a + n\<rparr>)" (is "?L \<longleftrightarrow> ?R")
proof
  assume ?L
  then show ?R
    by (auto simp: sa_commit_def rbind_Inr reserve_Inr split: if_splits
             intro!: exI [of _ "int (length (sr_seeds r))"])
next
  assume ?R
  then show ?L by (auto simp: sa_commit_def rbind_Inr reserve_Inr)
qed

lemma take_Inr:
  "sa_take a c = Inr (xs, b) \<longleftrightarrow> (\<exists>n. c = PyInt n \<and> 0 \<le> n \<and> sa_cursor a + n \<le> ss_size (sa_split a) \<and>
     xs = map (seed_at a) [sa_cursor a .. sa_cursor a + n - 1] \<and> b = a\<lparr>sa_cursor := sa_cursor a + n\<rparr>)"
  by (auto simp: sa_take_def rbind_Inr reserve_Inr commit_Inr dest!: map_eq_imp_length_eq)

lemma seed_at_cursor [simp]: "seed_at (a\<lparr>sa_cursor := c\<rparr>) = seed_at a"
  by (rule ext) (simp add: seed_at_def)

lemma ok_advance:
  "allocator_ok a \<Longrightarrow> 0 \<le> c \<Longrightarrow> c \<le> ss_size (sa_split a) \<Longrightarrow> allocator_ok (a\<lparr>sa_cursor := c\<rparr>)"
  by (simp add: allocator_ok_def)

lemma upto_append: "b \<le> c \<Longrightarrow> c \<le> d \<Longrightarrow> [b .. c - 1] @ [c .. d - 1] = [b .. d - (1::int)]"
  using upto_split1 [of b c "d - 1"] by (cases "c = d") auto

text \<open>
  The walk is the abstract one: all the seeds issued by any sequence of calls are the seeds
  of consecutive indices from the cursor on.
\<close>

lemma take_all_window:
  assumes "allocator_ok a" and "take_all a cs = (xs, b)"
  shows "b = a\<lparr>sa_cursor := sa_cursor b\<rparr> \<and> sa_cursor a \<le> sa_cursor b \<and>
     sa_cursor b \<le> ss_size (sa_split a) \<and> xs = map (seed_at a) [sa_cursor a .. sa_cursor b - 1]"
  using assms
proof (induction cs arbitrary: a xs)
  case Nil
  then show ?case by (simp add: allocator_ok_def)
next
  case (Cons c cs)
  show ?case
  proof (cases "sa_take a c")
    case (Inl e)
    with Cons.prems have "take_all a cs = (xs, b)" by simp
    with Cons.IH Cons.prems(1) show ?thesis by blast
  next
    case (Inr r)
    obtain ys a' where r: "r = (ys, a')" by fastforce
    with Inr obtain n where n: "0 \<le> n" "sa_cursor a + n \<le> ss_size (sa_split a)"
      and ys: "ys = map (seed_at a) [sa_cursor a .. sa_cursor a + n - 1]"
      and a': "a' = a\<lparr>sa_cursor := sa_cursor a + n\<rparr>"
      by (auto simp: take_Inr)
    obtain zs where zs: "take_all a' cs = (zs, b)" "xs = ys @ zs"
      using Cons.prems(2) Inr r by (auto split: prod.splits)
    have "allocator_ok a'" using Cons.prems(1) n a' by (auto simp: allocator_ok_def)
    with Cons.IH zs(1) have ih: "b = a'\<lparr>sa_cursor := sa_cursor b\<rparr>" "sa_cursor a' \<le> sa_cursor b"
      "sa_cursor b \<le> ss_size (sa_split a')" "zs = map (seed_at a') [sa_cursor a' .. sa_cursor b - 1]"
      by blast+
    then show ?thesis using zs(2) ys n
      by (simp add: a' upto_append flip: map_append)
  qed
qed

lemma take_all_home:
  assumes "allocator_ok a"
  shows "set (fst (take_all a cs)) \<subseteq> split_seeds (sa_split a)"
proof -
  obtain xs b where t: "take_all a cs = (xs, b)" by fastforce
  have "0 \<le> sa_cursor a" using assms by (simp add: allocator_ok_def)
  with take_all_window [OF assms t] show ?thesis
    using affine.window_home [OF assms, of "sa_cursor a" "sa_cursor b - 1"] t by auto
qed

text \<open>No seed is ever issued twice: whatever sequence of \<open>take\<close> calls a client makes on a
  valid allocator (bad counts and exhausted calls included), the seeds issued are pairwise
  distinct, lie in the allocator's split, and are none of those before the starting cursor.\<close>

theorem takes_never_repeat:
  assumes "allocator_ok a"
  shows "distinct (fst (take_all a cs)) \<and> set (fst (take_all a cs)) \<subseteq> split_seeds (sa_split a) \<and>
    set (fst (take_all a cs)) \<inter> seed_at a ` {0..<sa_cursor a} = {}"
proof -
  obtain xs b where t: "take_all a cs = (xs, b)" by fastforce
  have c: "0 \<le> sa_cursor a" "sa_cursor a \<le> ss_size (sa_split a)"
    using assms by (simp_all add: allocator_ok_def)
  note w = take_all_window [OF assms t]
  have "distinct xs" using affine.window_distinct [OF assms c(1), of "sa_cursor b - 1"] w by auto
  moreover have "seed_at a ` {0..<sa_cursor a} \<inter> seed_at a ` {sa_cursor a..sa_cursor b - 1} = {}"
    using affine.windows_disjoint [OF assms, of 0 "sa_cursor a" "sa_cursor a" "sa_cursor b - 1"] c w by simp
  ultimately show ?thesis using t w take_all_home [OF assms, of cs] by auto
qed

lemma take_all_split [simp]: "allocator_ok a \<Longrightarrow> sa_split (snd (take_all a cs)) = sa_split a"
  using take_all_window [of a cs] by (metis prod.collapse seed_allocator.select_convs(1)
    seed_allocator.surjective seed_allocator.update_convs(5))

lemma v1_disjoint:
  assumes "map_of SEED_SPLITS_V1 s = Some p" "map_of SEED_SPLITS_V1 t = Some q" "s \<noteq> t"
  shows "split_seeds p \<inter> split_seeds q = {}"
  using assms by (auto simp: SEED_SPLITS_V1_def split_seeds_def split: if_splits)

lemma init_split: "seed_allocator_init s k c = Inr a \<Longrightarrow> map_of SEED_SPLITS_V1 s = Some (sa_split a)"
  by (auto simp: seed_allocator_init_def Let_def dest!: load_cursor split: option.splits if_splits)

text \<open>Data of different splits never mix: allocators constructed for two different split
  names (any keys, any cursors) never issue a common seed, so no training seed is ever a
  validation, calibration or test seed.\<close>

theorem splits_never_share_seeds:
  assumes "seed_allocator_init s k c = Inr a" and "seed_allocator_init t l d = Inr b" and "s \<noteq> t"
  shows "set (fst (take_all a cs)) \<inter> set (fst (take_all b ds)) = {}"
proof -
  have "split_seeds (sa_split a) \<inter> split_seeds (sa_split b) = {}"
    using assms by (intro v1_disjoint init_split)
  moreover have "allocator_ok a" "allocator_ok b" using assms init_ok by blast+
  ultimately show ?thesis using take_all_home by blast
qed

text \<open>The walk is complete: taking the whole split issues every seed of it exactly once.\<close>

theorem take_everything:
  assumes "allocator_ok a" and "sa_cursor a = 0"
  shows "\<exists>xs b. sa_take a (PyInt (ss_size (sa_split a))) = Inr (xs, b) \<and> distinct xs \<and>
     set xs = split_seeds (sa_split a) \<and> (\<forall>n. sa_take b (PyInt (1 + int n)) =
       Inl (Exn RuntimeError ''seed split exhausted''))"
proof -
  let ?N = "ss_size (sa_split a)"
  obtain k where k: "?N = 2 ^ k" using assms(1) by (auto simp: allocator_ok_def split_ok_def)
  have t: "sa_take a (PyInt ?N) = Inr (map (seed_at a) [0..?N - 1], a\<lparr>sa_cursor := ?N\<rparr>)"
    using assms(2) k by (simp add: take_Inr)
  have inj: "inj_on (seed_at a) {0..<?N}" by (rule affine.visit_inj [OF assms(1)])
  have sub: "seed_at a ` {0..<?N} \<subseteq> split_seeds (sa_split a)"
    using affine.visit_home [OF assms(1)] by auto
  have "card (split_seeds (sa_split a)) = card (seed_at a ` {0..<?N})"
    using card_image [OF inj] by (simp add: split_seeds_def)
  with sub have "seed_at a ` {0..<?N} = split_seeds (sa_split a)"
    by (intro card_seteq) (simp_all add: split_seeds_def)
  moreover have "{0..?N - 1} = {0..<?N}" by auto
  moreover have "distinct (map (seed_at a) [0..?N - 1])"
    using affine.window_distinct [OF assms(1), of 0 "?N - 1"] by simp
  ultimately show ?thesis using t by (auto simp: sa_take_def sa_reserve_def)
qed

text \<open>\<open>commit\<close> accepts exactly the reservation the allocator itself would make now: anything
  stale, reordered or altered is refused, and a reservation of at least one seed can be
  committed only once.\<close>

theorem commit_exact:
  "(sa_commit a r = Inr b \<longleftrightarrow>
      (\<exists>n. sa_reserve a (PyInt n) = Inr r \<and> b = a\<lparr>sa_cursor := sa_cursor a + n\<rparr>)) \<and>
   (sa_commit a r = Inr b \<and> sr_seeds r \<noteq> [] \<longrightarrow>
      sa_commit b r = Inl (Exn ValueError ''stale or out-of-order seed reservation''))"
proof (intro conjI impI)
  show "sa_commit a r = Inr b \<longleftrightarrow>
      (\<exists>n. sa_reserve a (PyInt n) = Inr r \<and> b = a\<lparr>sa_cursor := sa_cursor a + n\<rparr>)"
    by (auto simp: commit_Inr reserve_Inr)
next
  assume "sa_commit a r = Inr b \<and> sr_seeds r \<noteq> []"
  then have "sr_cursor r \<noteq> sa_cursor b" by (auto simp: commit_Inr)
  then show "sa_commit b r = Inl (Exn ValueError ''stale or out-of-order seed reservation'')"
    by (simp add: sa_commit_def)
qed

lemma load_state_dict_same:
  "sa_split b = sa_split a \<Longrightarrow> sa_key b = sa_key a \<Longrightarrow> allocator_ok a \<Longrightarrow>
     sa_load_state_dict b (sa_state_dict a) = Inr (b\<lparr>sa_cursor := sa_cursor a\<rparr>)"
  by (auto simp: sa_load_state_dict_def sa_state_dict_def Let_def allocator_ok_def)

text \<open>A checkpoint resumes the schedule: after any calls on an allocator \<open>a\<close> built by the
  constructor, loading its state into any other allocator of the same split and key gives back
  the allocator reached, and so does constructing one with the saved key and cursor.\<close>

theorem checkpoint_resumes:
  assumes "seed_allocator_init s (PyInt k) c = Inr a" and "seed_allocator_init s (PyInt k) d = Inr f"
    and "b = snd (take_all a cs)"
  shows "sa_load_state_dict f (sa_state_dict b) = Inr b \<and>
     seed_allocator_init s (PyInt k) (PyInt (sa_cursor b)) = Inr b"
proof -
  obtain p where p: "map_of SEED_SPLITS_V1 s = Some p" using init_split [OF assms(1)] by blast
  let ?f = "\<lambda>z. \<lparr>sa_split = p, sa_key = k,
        sa_multiplier = ((k * 0x9E3779B97F4A7C15) OR 1) AND (ss_size p - 1),
        sa_offset = ((k XOR drop_bit 32 k) * 0x85EBCA6B) AND (ss_size p - 1), sa_cursor = z\<rparr>"
  have init: "seed_allocator_init s (PyInt k) z = Inr x \<Longrightarrow> x = ?f (sa_cursor x)" for z x
    using p by (auto simp: seed_allocator_init_def Let_def dest!: load_cursor split: if_splits)
  have key: "0 \<le> k \<and> k < 2 ^ 64"
    using assms(1) by (auto simp: seed_allocator_init_def split: option.splits if_splits)
  have oka: "allocator_ok a" using init_ok assms(1) by blast
  have b: "b = a\<lparr>sa_cursor := sa_cursor b\<rparr>" "sa_cursor a \<le> sa_cursor b"
    "sa_cursor b \<le> ss_size (sa_split a)"
    using take_all_window [OF oka] assms(3) by (metis prod.collapse)+
  have bf: "b = ?f (sa_cursor b)" using b(1) init [OF assms(1)] by (metis seed_allocator.update_convs(5))
  have okb: "allocator_ok b"
    using b oka by (metis ok_advance allocator_ok_def order_trans)
  have "f = ?f (sa_cursor f)" using init [OF assms(2)] .
  then have "sa_load_state_dict f (sa_state_dict b) = Inr (f\<lparr>sa_cursor := sa_cursor b\<rparr>)"
    using bf okb by (intro load_state_dict_same) (metis seed_allocator.select_convs)+
  moreover have "f\<lparr>sa_cursor := sa_cursor b\<rparr> = b"
    using \<open>f = ?f (sa_cursor f)\<close> bf by (metis seed_allocator.update_convs(5))
  moreover have "sa_load_state_dict (?f 0) (sa_state_dict b) = Inr b"
    using load_state_dict_same [OF _ _ okb, of "?f 0"] bf
    by (metis seed_allocator.select_convs(1,2) seed_allocator.update_convs(5))
  then have "seed_allocator_init s (PyInt k) (PyInt (sa_cursor b)) = Inr b"
    using p key v1_splits_ok [OF p] bf
    by (simp add: seed_allocator_init_def Let_def sa_state_dict_def) (metis seed_allocator.select_convs(1,2))
  ultimately show ?thesis by simp
qed

section \<open>Validation of the split table\<close>

lemma adjacent_ok_disjoint:
  assumes "sorted (map ss_start ps)" and "\<forall>p \<in> set ps. 0 < ss_size p" and "distinct ps"
  shows "adjacent_ok ps \<longleftrightarrow> pairwise (\<lambda>p q. disjnt (split_seeds p) (split_seeds q)) (set ps)"
  using assms
proof (induction ps rule: adjacent_ok.induct)
  case (1 l r rest)
  have ih: "adjacent_ok (r # rest) \<longleftrightarrow>
      pairwise (\<lambda>p q. disjnt (split_seeds p) (split_seeds q)) (set (r # rest))"
    using 1 by simp
  have later: "\<forall>q \<in> set (r # rest). ss_start r \<le> ss_start q" using "1.prems"(1) by auto
  have step: "ss_start l + ss_size l \<le> ss_start r \<longleftrightarrow>
      (\<forall>q \<in> set (r # rest). disjnt (split_seeds l) (split_seeds q))"
  proof
    assume "ss_start l + ss_size l \<le> ss_start r"
    with later show "\<forall>q \<in> set (r # rest). disjnt (split_seeds l) (split_seeds q)"
      by (force simp: disjnt_iff split_seeds_def)
  next
    assume "\<forall>q \<in> set (r # rest). disjnt (split_seeds l) (split_seeds q)"
    then have "ss_start r \<notin> split_seeds l"
      using "1.prems"(2) by (auto simp: disjnt_iff split_seeds_def)
    then show "ss_start l + ss_size l \<le> ss_start r" using "1.prems"(1) by (simp add: split_seeds_def)
  qed
  have "l \<notin> set (r # rest)" using "1.prems"(3) by simp
  moreover have "disjnt (split_seeds q) (split_seeds l) = disjnt (split_seeds l) (split_seeds q)" for q
    by (auto intro: disjnt_sym)
  ultimately have "pairwise (\<lambda>p q. disjnt (split_seeds p) (split_seeds q)) (set (l # r # rest)) \<longleftrightarrow>
      (\<forall>q \<in> set (r # rest). disjnt (split_seeds l) (split_seeds q)) \<and>
      pairwise (\<lambda>p q. disjnt (split_seeds p) (split_seeds q)) (set (r # rest))"
    by (simp only: list.set(2) [of l] pairwise_insert) blast
  with ih step show ?case by (simp only: adjacent_ok.simps)
qed (simp_all add: pairwise_def)

text \<open>\<open>validate_seed_splits\<close> accepts a table of valid splits exactly when the names are
  distinct and every two splits have no seed in common; comparing neighbours after sorting
  is enough.\<close>

theorem validate_seed_splits_iff:
  assumes "\<forall>p \<in> set (map snd splits). split_ok p"
  shows "validate_seed_splits splits = Inr () \<longleftrightarrow>
     distinct (map (ss_name \<circ> snd) splits) \<and>
     pairwise (\<lambda>p q. disjnt (split_seeds p) (split_seeds q)) (set (map snd splits))"
proof -
  let ?o = "sort_key ss_start (map snd splits)"
  have names: "length (remdups (map ss_name ?o)) = length ?o \<longleftrightarrow> distinct (map (ss_name \<circ> snd) splits)"
  proof -
    have "mset (map ss_name ?o) = mset (map (ss_name \<circ> snd) splits)" by (simp add: multiset.map_comp)
    then have "distinct (map ss_name ?o) \<longleftrightarrow> distinct (map (ss_name \<circ> snd) splits)"
      by (rule mset_eq_imp_distinct_iff)
    moreover have "length (remdups (map ss_name ?o)) = length (map ss_name ?o) \<longleftrightarrow>
        distinct (map ss_name ?o)"
      by (metis distinct_remdups_id length_remdups_card_conv distinct_card card_distinct)
    ultimately show ?thesis by simp
  qed
  have "adjacent_ok ?o \<longleftrightarrow> pairwise (\<lambda>p q. disjnt (split_seeds p) (split_seeds q)) (set (map snd splits))"
    if "distinct (map (ss_name \<circ> snd) splits)"
  proof -
    have "distinct ?o" using that names by (metis distinct_map map_map distinct_sort)
    moreover have "\<forall>p \<in> set ?o. 0 < ss_size p" using assms by (auto simp: split_ok_def)
    ultimately show ?thesis using adjacent_ok_disjoint [of ?o] by simp
  qed
  with names show ?thesis by (auto simp: validate_seed_splits_def Let_def)
qed

section \<open>Witnesses\<close>

theorem takes_never_repeat_witness:
  "fst (take_all \<lparr>sa_split = \<lparr>ss_name = ''toy'', ss_start = 16, ss_size = 8\<rparr>, sa_key = 1,
      sa_multiplier = 5, sa_offset = 3, sa_cursor = 2\<rparr> [PyInt 3, PyInt 9, PyNone, PyInt 2])
     = [21, 18, 23, 20, 17] \<and> distinct [21, 18, 23, 20, 17 :: int]"
proof -
  let ?a = "\<lparr>sa_split = \<lparr>ss_name = ''toy'', ss_start = 16, ss_size = 8\<rparr>, sa_key = 1,
      sa_multiplier = 5, sa_offset = 3, sa_cursor = 2\<rparr>"
  have ok: "allocator_ok ?a" by (auto simp: allocator_ok_def split_ok_def intro: exI [of _ 3])
  have run: "fst (take_all ?a [PyInt 3, PyInt 9, PyNone, PyInt 2]) = [21, 18, 23, 20, 17]"
    by code_simp
  show ?thesis using takes_never_repeat [OF ok, of "[PyInt 3, PyInt 9, PyNone, PyInt 2]"]
    by (simp only: run)
qed

theorem splits_never_share_seeds_witness:
  "\<exists>a b. seed_allocator_init ''train'' (PyInt 7) (PyInt 0) = Inr a \<and>
     seed_allocator_init ''test'' (PyInt 7) (PyInt 0) = Inr b \<and>
     set (fst (take_all a [PyInt 2])) \<inter> set (fst (take_all b [PyInt 2])) = {}"
proof -
  obtain a where a: "seed_allocator_init ''train'' (PyInt 7) (PyInt 0) = Inr a"
    by (simp add: seed_allocator_init_def SEED_SPLITS_V1_def sa_load_state_dict_def Let_def)
  obtain b where b: "seed_allocator_init ''test'' (PyInt 7) (PyInt 0) = Inr b"
    by (simp add: seed_allocator_init_def SEED_SPLITS_V1_def sa_load_state_dict_def Let_def)
  show ?thesis using splits_never_share_seeds [OF a b, of "[PyInt 2]" "[PyInt 2]"] a b by blast
qed

theorem take_everything_witness:
  "\<exists>xs b. sa_take \<lparr>sa_split = \<lparr>ss_name = ''toy'', ss_start = 16, ss_size = 8\<rparr>, sa_key = 1,
      sa_multiplier = 5, sa_offset = 3, sa_cursor = 0\<rparr> (PyInt 8) = Inr (xs, b) \<and> set xs = {16..<24}"
proof -
  let ?a = "\<lparr>sa_split = \<lparr>ss_name = ''toy'', ss_start = 16, ss_size = 8\<rparr>, sa_key = 1,
      sa_multiplier = 5, sa_offset = 3, sa_cursor = 0\<rparr>"
  have ok: "allocator_ok ?a" by (auto simp: allocator_ok_def split_ok_def intro: exI [of _ 3])
  show ?thesis using take_everything [OF ok] by (auto simp: split_seeds_def)
qed

theorem commit_exact_witness:
  "\<exists>b. sa_commit \<lparr>sa_split = \<lparr>ss_name = ''toy'', ss_start = 16, ss_size = 8\<rparr>, sa_key = 1,
      sa_multiplier = 5, sa_offset = 3, sa_cursor = 0\<rparr> \<lparr>sr_cursor = 0, sr_seeds = [19, 16]\<rparr> = Inr b \<and>
     sa_commit b \<lparr>sr_cursor = 0, sr_seeds = [19, 16]\<rparr>
       = Inl (Exn ValueError ''stale or out-of-order seed reservation'')"
proof -
  let ?a = "\<lparr>sa_split = \<lparr>ss_name = ''toy'', ss_start = 16, ss_size = 8\<rparr>, sa_key = 1,
      sa_multiplier = 5, sa_offset = 3, sa_cursor = 0\<rparr>"
  let ?r = "\<lparr>sr_cursor = 0, sr_seeds = [19, 16]\<rparr>"
  have "sa_reserve ?a (PyInt 2) = Inr ?r" by code_simp
  then have "sa_commit ?a ?r = Inr (?a\<lparr>sa_cursor := sa_cursor ?a + 2\<rparr>)"
    using commit_exact [of ?a ?r] by blast
  then show ?thesis using commit_exact [of ?a ?r] by (metis list.distinct(1) seed_reservation.select_convs(2))
qed

theorem checkpoint_resumes_witness:
  "\<exists>a. seed_allocator_init ''test'' (PyInt 7) (PyInt 0) = Inr a \<and>
     sa_load_state_dict a (sa_state_dict (snd (take_all a [PyInt 2]))) = Inr (snd (take_all a [PyInt 2]))"
proof -
  obtain a where a: "seed_allocator_init ''test'' (PyInt 7) (PyInt 0) = Inr a"
    by (simp add: seed_allocator_init_def SEED_SPLITS_V1_def sa_load_state_dict_def Let_def)
  show ?thesis using checkpoint_resumes [OF a a refl, of "[PyInt 2]"] a by blast
qed

theorem validate_seed_splits_iff_witness:
  "validate_seed_splits SEED_SPLITS_V1 = Inr () \<and>
   pairwise (\<lambda>p q. disjnt (split_seeds p) (split_seeds q)) (set (map snd SEED_SPLITS_V1))"
proof -
  have ok: "\<forall>p \<in> set (map snd SEED_SPLITS_V1). split_ok p"
    by (auto simp: SEED_SPLITS_V1_def split_ok_def v1_sizes eq_commute)
  have "validate_seed_splits SEED_SPLITS_V1 = Inr ()" by code_simp
  then show ?thesis using validate_seed_splits_iff [OF ok] by simp
qed

end
