(* ===== verification/Harness_Types.thy ===== *)
theory Harness_Types
  imports Py_Float
begin

text \<open>
  The data of \<open>irisu_rl/original_game/harness.py\<close>: the frozen dataclasses as records, their
  \<open>__post_init__\<close> checks as constructors \<open>mk_...\<close> that take the arguments as Python
  values wherever the source tests their type, the enums as datatypes, the bounded frame
  buffer, and the limits.  An argument that must be an instance of another dataclass is an
  \<open>'a obj\<close>: that instance, or a value of some other type.
\<close>

section \<open>Number and text checks\<close>

datatype 'a obj = Obj 'a | Alien

lemma wp_obj [wp_simps]:
  "wp (case x of Obj a \<Rightarrow> f a | Alien \<Rightarrow> m) Q E =
     (case x of Obj a \<Rightarrow> wp (f a) Q E | Alien \<Rightarrow> wp m Q E)"
  by (cases x) simp_all

lemma keeps_obj [keeps_intros]:
  "(\<And>a. x = Obj a \<Longrightarrow> keeps I (f a)) \<Longrightarrow> (x = Alien \<Longrightarrow> keeps I m) \<Longrightarrow>
     keeps I (case x of Obj a \<Rightarrow> f a | Alien \<Rightarrow> m)"
  by (cases x) simp_all

definition h_finite :: "pyval \<Rightarrow> string \<Rightarrow> pyfloat res" where
  "h_finite v name = (case real_num v of
     None \<Rightarrow> Inl (Exn ValueError (name @ '' must be a real number''))
   | Some n \<Rightarrow> rbind (num_to_float n) (\<lambda>f.
       if is_finite f then Inr f else Inl (Exn ValueError (name @ '' must be finite''))))"

text \<open>\<open>float | str | None\<close>: what an audit row says of a rejected number.\<close>

datatype audit = AudNone | AudNum pyfloat | AudRepr string

definition audit_number :: "pyval \<Rightarrow> audit" where
  "audit_number v = (case real_num v of
     None \<Rightarrow> AudNone
   | Some n \<Rightarrow> (case num_to_float n of
       Inl _ \<Rightarrow> AudNone
     | Inr f \<Rightarrow> (case f of Fin _ \<Rightarrow> AudNum f | PInf \<Rightarrow> AudRepr ''inf''
                | NInf \<Rightarrow> AudRepr ''-inf'' | NaN \<Rightarrow> AudRepr ''nan'')))"

definition hex_digits :: "char set" where
  "hex_digits = set ''0123456789abcdef''"

definition h_sha256 :: "pyval \<Rightarrow> string \<Rightarrow> string res" where
  "h_sha256 v name = (case plain_str v of
     None \<Rightarrow> Inl (Exn ValueError (name @ '' must be a nonzero lowercase SHA-256''))
   | Some s \<Rightarrow>
       if length s \<noteq> 64 \<or> (\<exists>c \<in> set s. c \<notin> hex_digits) \<or> s = replicate 64 (CHR ''0'')
       then Inl (Exn ValueError (name @ '' must be a nonzero lowercase SHA-256''))
       else Inr s)"

section \<open>Identities\<close>

record window_identity =
  wi_address :: string
  wi_capture_id :: string

definition mk_window_identity :: "pyval \<Rightarrow> pyval \<Rightarrow> window_identity res" where
  "mk_window_identity address capture_id =
     (case (plain_str address, plain_str capture_id) of
        (Some a, Some c) \<Rightarrow>
          if a = [] \<or> c = []
          then Inl (Exn ValueError ''window address and capture identity must be non-empty'')
          else Inr \<lparr>wi_address = a, wi_capture_id = c\<rparr>
      | _ \<Rightarrow> Inl (Exn ValueError ''window address and capture identity must be non-empty''))"

definition MONOTONIC_CLOCK_DOMAIN :: string where
  "MONOTONIC_CLOCK_DOMAIN = ''linux.clock_monotonic''"

record target_descriptor =
  td_identity :: window_identity
  td_process_id :: int
  td_process_start_ticks :: int
  td_launch_nonce_sha256 :: string
  td_executable_sha256 :: string
  td_runtime_sha256 :: string
  td_wine_executable_sha256 :: string
  td_wine_prefix_sha256 :: string

definition positive_plain_int :: "pyval \<Rightarrow> bool" where
  "positive_plain_int v \<longleftrightarrow> (case plain_int v of None \<Rightarrow> False | Some n \<Rightarrow> 0 < n)"

definition nonneg_plain_int :: "pyval \<Rightarrow> bool" where
  "nonneg_plain_int v \<longleftrightarrow> (case plain_int v of None \<Rightarrow> False | Some n \<Rightarrow> 0 \<le> n)"

text \<open>The integer of a value already tested by one of the two predicates above.\<close>

fun int_of :: "pyval \<Rightarrow> int" where
  "int_of (PyInt n) = n" | "int_of _ = 0"

definition mk_target_descriptor ::
  "window_identity obj \<Rightarrow> pyval \<Rightarrow> pyval \<Rightarrow> pyval \<Rightarrow> pyval \<Rightarrow> pyval \<Rightarrow> pyval \<Rightarrow> pyval
     \<Rightarrow> target_descriptor res" where
  "mk_target_descriptor ident pid ticks nonce exe runtime wine prefix = (case ident of
     Alien \<Rightarrow> Inl (Exn TypeError ''target descriptor identity is invalid'')
   | Obj i \<Rightarrow>
     if \<not> positive_plain_int pid
     then Inl (Exn ValueError ''target descriptor process ID must be positive'')
     else if \<not> positive_plain_int ticks
     then Inl (Exn ValueError ''target descriptor process start time must be positive'')
     else rbind (h_sha256 nonce ''target launch nonce SHA-256'') (\<lambda>n.
       rbind (h_sha256 exe ''target executable SHA-256'') (\<lambda>e.
       rbind (h_sha256 runtime ''target runtime SHA-256'') (\<lambda>r.
       rbind (h_sha256 wine ''target Wine SHA-256'') (\<lambda>w.
       rbind (h_sha256 prefix ''target Wine-prefix SHA-256'') (\<lambda>p.
       Inr \<lparr>td_identity = i, td_process_id = int_of pid, td_process_start_ticks = int_of ticks,
            td_launch_nonce_sha256 = n, td_executable_sha256 = e, td_runtime_sha256 = r,
            td_wine_executable_sha256 = w, td_wine_prefix_sha256 = p\<rparr>))))))"

text \<open>\<open>ClaimToken\<close> wraps a nonempty string and compares by it.\<close>

type_synonym claim_token = string

definition mk_claim_token :: "pyval \<Rightarrow> claim_token res" where
  "mk_claim_token v = (case plain_str v of
     None \<Rightarrow> Inl (Exn ValueError ''claim token must be a non-empty string'')
   | Some s \<Rightarrow> if s = [] then Inl (Exn ValueError ''claim token must be a non-empty string'')
              else Inr s)"

record session_safety =
  sf_exact_background_capture :: bool
  sf_exact_window_claims :: bool
  sf_targeted_input_safe :: bool
  sf_detail :: string

definition mk_session_safety :: "pyval \<Rightarrow> pyval \<Rightarrow> pyval \<Rightarrow> pyval \<Rightarrow> session_safety res" where
  "mk_session_safety capture claims input_safe detail =
     (case (plain_bool capture, plain_bool claims, plain_bool input_safe) of
        (Some a, Some b, Some c) \<Rightarrow>
          (case plain_str detail of
             None \<Rightarrow> Inl (Exn TypeError ''session safety detail must be text'')
           | Some d \<Rightarrow> Inr \<lparr>sf_exact_background_capture = a, sf_exact_window_claims = b,
                            sf_targeted_input_safe = c, sf_detail = d\<rparr>)
      | _ \<Rightarrow> Inl (Exn TypeError ''session safety flags must be booleans''))"

definition safety_ready :: "session_safety \<Rightarrow> bool" where
  "safety_ready s \<longleftrightarrow>
     sf_exact_background_capture s \<and> sf_exact_window_claims s \<and> sf_targeted_input_safe s"

record input_capabilities =
  ic_explicit_button_down :: bool
  ic_explicit_button_up :: bool
  ic_release_all_buttons :: bool
  ic_atomic_click_only :: bool
  ic_automatic_release_deadline :: bool
  ic_neutralizes_on_claim_end_or_expiry :: bool

definition mk_input_capabilities ::
  "pyval \<Rightarrow> pyval \<Rightarrow> pyval \<Rightarrow> pyval \<Rightarrow> pyval \<Rightarrow> pyval \<Rightarrow> input_capabilities res" where
  "mk_input_capabilities down up rel atomic deadline neutral =
     (if (\<exists>v \<in> set [down, up, rel, atomic, deadline, neutral]. plain_bool v = None)
      then Inl (Exn TypeError ''input capability flags must be booleans'')
      else Inr \<lparr>ic_explicit_button_down = (down = PyBool True),
                ic_explicit_button_up = (up = PyBool True),
                ic_release_all_buttons = (rel = PyBool True),
                ic_atomic_click_only = (atomic = PyBool True),
                ic_automatic_release_deadline = (deadline = PyBool True),
                ic_neutralizes_on_claim_end_or_expiry = (neutral = PyBool True)\<rparr>)"

definition supports_safe_shots :: "input_capabilities \<Rightarrow> bool" where
  "supports_safe_shots c \<longleftrightarrow>
     ic_explicit_button_down c \<and> ic_explicit_button_up c \<and> ic_release_all_buttons c \<and>
     \<not> ic_atomic_click_only c \<and> ic_automatic_release_deadline c \<and>
     ic_neutralizes_on_claim_end_or_expiry c"

section \<open>Claim leases\<close>

record claim_lease =
  cl_identity :: window_identity
  cl_token :: claim_token
  cl_expires_ns :: int
  cl_generation :: "int option"
  cl_broker_instance :: "string option"
  cl_target :: "target_descriptor option"

definition bad_broker :: "pyval \<Rightarrow> bool" where
  "bad_broker v \<longleftrightarrow> (case plain_str v of
     None \<Rightarrow> True
   | Some s \<Rightarrow> s = [] \<or> 256 < length s \<or> (\<exists>c \<in> set s. c \<in> {CHR 0x00, CHR 0x0A, CHR 0x0D}))"

definition str_of :: "pyval \<Rightarrow> string" where
  "str_of v = (case plain_str v of None \<Rightarrow> [] | Some s \<Rightarrow> s)"

text \<open>\<open>generation\<close> and \<open>broker_instance\<close> may be None; \<open>target\<close> may be None.\<close>

definition opt_val :: "pyval \<Rightarrow> (pyval \<Rightarrow> 'a) \<Rightarrow> 'a option" where
  "opt_val v f = (if v = PyNone then None else Some (f v))"

definition mk_claim_lease ::
  "window_identity obj \<Rightarrow> claim_token obj \<Rightarrow> pyval \<Rightarrow> pyval \<Rightarrow> pyval
     \<Rightarrow> target_descriptor obj option \<Rightarrow> claim_lease res" where
  "mk_claim_lease ident tok expires generation broker target = (case (ident, tok) of
     (Obj i, Obj t) \<Rightarrow>
       if \<not> positive_plain_int expires
       then Inl (Exn ValueError ''claim expiry must be a positive monotonic timestamp'')
       else if generation \<noteq> PyNone \<and> \<not> positive_plain_int generation
       then Inl (Exn ValueError ''claim generation must be positive'')
       else if broker \<noteq> PyNone \<and> bad_broker broker
       then Inl (Exn ValueError ''broker instance is invalid'')
       else rbind (case target of
           None \<Rightarrow> Inr None
         | Some Alien \<Rightarrow> Inl (Exn TypeError ''claim target descriptor is invalid'')
         | Some (Obj d) \<Rightarrow>
             if td_identity d \<noteq> i
             then Inl (Exn ValueError ''claim target descriptor identity differs'')
             else Inr (Some d)) (\<lambda>tgt.
         Inr \<lparr>cl_identity = i, cl_token = t, cl_expires_ns = int_of expires,
              cl_generation = opt_val generation int_of,
              cl_broker_instance = opt_val broker str_of, cl_target = tgt\<rparr>)
   | _ \<Rightarrow> Inl (Exn TypeError ''claim lease identity/token types are invalid''))"

section \<open>Rectangles and captures\<close>

record hrect =
  hr_x :: pynum
  hr_y :: pynum
  hr_width :: pynum
  hr_height :: pynum

definition num_of :: "pyval \<Rightarrow> pynum" where
  "num_of v = (case real_num v of None \<Rightarrow> NInt 0 | Some n \<Rightarrow> n)"

definition mk_hrect :: "pyval \<Rightarrow> pyval \<Rightarrow> pyval \<Rightarrow> pyval \<Rightarrow> hrect res" where
  "mk_hrect x y w h =
     rbind (h_finite x ''rect.x'') (\<lambda>_. rbind (h_finite y ''rect.y'') (\<lambda>_.
     rbind (h_finite w ''rect.width'') (\<lambda>wf. rbind (h_finite h ''rect.height'') (\<lambda>hf.
     if fl_le wf (Fin 0) \<or> fl_le hf (Fin 0)
     then Inl (Exn ValueError ''rectangle dimensions must be positive'')
     else Inr \<lparr>hr_x = num_of x, hr_y = num_of y, hr_width = num_of w, hr_height = num_of h\<rparr>))))"

definition rect_contains :: "hrect \<Rightarrow> pynum \<Rightarrow> pynum \<Rightarrow> bool res" where
  "rect_contains r x y =
     (if \<not> num_le (hr_x r) x then Inr False else
      rbind (num_add (hr_x r) (hr_width r)) (\<lambda>right.
      if \<not> (num_lt x right \<and> num_le (hr_y r) y) then Inr False else
      rbind (num_add (hr_y r) (hr_height r)) (\<lambda>bottom. Inr (num_lt y bottom))))"

definition edge_drift :: "hrect \<Rightarrow> hrect \<Rightarrow> pynum res" where
  "edge_drift a b =
     rbind (num_sub (hr_x a) (hr_x b)) (\<lambda>dx.
     rbind (num_sub (hr_y a) (hr_y b)) (\<lambda>dy.
     rbind (num_add (hr_x a) (hr_width a)) (\<lambda>ar. rbind (num_add (hr_x b) (hr_width b)) (\<lambda>br.
     rbind (num_sub ar br) (\<lambda>dr.
     rbind (num_add (hr_y a) (hr_height a)) (\<lambda>ab. rbind (num_add (hr_y b) (hr_height b)) (\<lambda>bb.
     rbind (num_sub ab bb) (\<lambda>db.
     Inr (num_max (num_max (num_max (num_abs dx) (num_abs dy)) (num_abs dr)) (num_abs db))))))))))"

record capture_packet =
  cp_pixels :: string
  cp_identity :: window_identity
  cp_window_bounds :: hrect
  cp_pixel_width :: int
  cp_pixel_height :: int
  cp_request_ns :: int
  cp_start_ns :: int
  cp_completion_ns :: int
  cp_presentation_ns :: "int option"
  cp_source_sequence :: "int option"
  cp_color_format :: string
  cp_canonical_pixel_sha256 :: "string option"

text \<open>The pixels are a byte string, or a value of another type.\<close>

definition mk_capture_packet ::
  "string obj \<Rightarrow> window_identity obj \<Rightarrow> hrect obj \<Rightarrow> pyval \<Rightarrow> pyval \<Rightarrow> pyval \<Rightarrow> pyval \<Rightarrow> pyval
     \<Rightarrow> pyval \<Rightarrow> pyval \<Rightarrow> pyval \<Rightarrow> pyval \<Rightarrow> capture_packet res" where
  "mk_capture_packet pixels ident bounds width height request start completion
       presentation source_seq colour canonical = (case (ident, bounds) of
     (Obj i, Obj b) \<Rightarrow> (case pixels of
       Alien \<Rightarrow> Inl (Exn ValueError ''capture pixels must be non-empty bytes'')
     | Obj px \<Rightarrow>
       if px = [] then Inl (Exn ValueError ''capture pixels must be non-empty bytes'')
       else if plain_int width = None \<or> plain_int height = None
       then Inl (Exn ValueError ''pixel dimensions must be integers'')
       else if int_of width \<le> 0 \<or> int_of height \<le> 0
       then Inl (Exn ValueError ''pixel dimensions must be positive'')
       else if (\<exists>v \<in> set [request, start, completion]. \<not> nonneg_plain_int v)
       then Inl (Exn ValueError ''capture timestamps must be nonnegative integers'')
       else if \<not> (int_of request \<le> int_of start \<and> int_of start \<le> int_of completion)
       then Inl (Exn ValueError ''capture timestamps are not ordered'')
       else if presentation \<noteq> PyNone \<and>
         (\<not> nonneg_plain_int presentation \<or> int_of completion < int_of presentation)
       then Inl (Exn ValueError ''presentation timestamp is invalid'')
       else if source_seq \<noteq> PyNone \<and> \<not> nonneg_plain_int source_seq
       then Inl (Exn ValueError ''source sequence must be a nonnegative integer'')
       else if plain_str colour = None \<or> str_of colour = []
       then Inl (Exn ValueError ''capture color format must be non-empty text'')
       else if canonical \<noteq> PyNone \<and> (plain_str canonical = None \<or>
         length (str_of canonical) \<noteq> 64 \<or> (\<exists>c \<in> set (str_of canonical). c \<notin> hex_digits))
       then Inl (Exn ValueError ''canonical pixel SHA-256 is invalid'')
       else Inr \<lparr>cp_pixels = px, cp_identity = i, cp_window_bounds = b,
         cp_pixel_width = int_of width, cp_pixel_height = int_of height,
         cp_request_ns = int_of request, cp_start_ns = int_of start,
         cp_completion_ns = int_of completion, cp_presentation_ns = opt_val presentation int_of,
         cp_source_sequence = opt_val source_seq int_of, cp_color_format = str_of colour,
         cp_canonical_pixel_sha256 = opt_val canonical str_of\<rparr>)
   | _ \<Rightarrow> Inl (Exn TypeError ''capture identity/window bounds types are invalid''))"

text \<open>\<open>CapturePacket.sha256\<close>; the digest function is a parameter.\<close>

definition packet_sha256 :: "(string \<Rightarrow> string) \<Rightarrow> capture_packet \<Rightarrow> string" where
  "packet_sha256 sha p = (case cp_canonical_pixel_sha256 p of
     None \<Rightarrow> sha (cp_pixels p) | Some s \<Rightarrow> if s = [] then sha (cp_pixels p) else s)"

text \<open>\<open>presentation_ns\<close> when there is one, else \<open>completion_ns\<close>.\<close>

definition packet_observed_ns :: "capture_packet \<Rightarrow> int" where
  "packet_observed_ns p = (case cp_presentation_ns p of Some t \<Rightarrow> t | None \<Rightarrow> cp_completion_ns p)"

record geometry_assessment =
  ga_crop :: hrect
  ga_transform_age_ns :: int
  ga_residual_px :: pynum
  ga_confidence :: pynum
  ga_drifted :: bool
  ga_calibration_id :: string

definition mk_geometry_assessment ::
  "hrect obj \<Rightarrow> pyval \<Rightarrow> pyval \<Rightarrow> pyval \<Rightarrow> pyval \<Rightarrow> pyval \<Rightarrow> geometry_assessment res" where
  "mk_geometry_assessment crop age residual confidence drifted calibration = (case crop of
     Alien \<Rightarrow> Inl (Exn TypeError ''geometry crop must be a Rect'')
   | Obj r \<Rightarrow>
     if \<not> nonneg_plain_int age
     then Inl (Exn ValueError ''transform age must be a nonnegative integer'')
     else rbind (h_finite residual ''geometry residual'') (\<lambda>rf.
       rbind (h_finite confidence ''geometry confidence'') (\<lambda>cf.
       if fl_lt rf (Fin 0) \<or> \<not> (fl_le (Fin 0) cf \<and> fl_le cf (Fin 1))
       then Inl (Exn ValueError ''invalid geometry quality'')
       else if plain_bool drifted = None \<or> plain_str calibration = None
       then Inl (Exn TypeError ''invalid geometry drift/calibration fields'')
       else Inr \<lparr>ga_crop = r, ga_transform_age_ns = int_of age, ga_residual_px = num_of residual,
         ga_confidence = num_of confidence, ga_drifted = (drifted = PyBool True),
         ga_calibration_id = str_of calibration\<rparr>)))"

datatype screen_state = GAMEPLAY | MENU | GAME_OVER | UNKNOWN

record screen_classification =
  sc_state :: screen_state
  sc_confidence :: pynum
  sc_detail :: string

definition mk_screen_classification ::
  "screen_state obj \<Rightarrow> pyval \<Rightarrow> pyval \<Rightarrow> screen_classification res" where
  "mk_screen_classification state confidence detail = (case state of
     Alien \<Rightarrow> Inl (Exn TypeError ''screen state must be a ScreenState'')
   | Obj st \<Rightarrow> rbind (h_finite confidence ''screen confidence'') (\<lambda>cf.
       if \<not> (fl_le (Fin 0) cf \<and> fl_le cf (Fin 1))
       then Inl (Exn ValueError ''screen confidence must be in [0, 1]'')
       else if plain_str detail = None
       then Inl (Exn TypeError ''screen classification detail must be text'')
       else Inr \<lparr>sc_state = st, sc_confidence = num_of confidence, sc_detail = str_of detail\<rparr>))"

record cursor_sample =
  cs_x :: pynum
  cs_y :: pynum
  cs_observed_ns :: int

definition mk_cursor_sample :: "pyval \<Rightarrow> pyval \<Rightarrow> pyval \<Rightarrow> cursor_sample res" where
  "mk_cursor_sample x y observed =
     rbind (h_finite x ''cursor x'') (\<lambda>_. rbind (h_finite y ''cursor y'') (\<lambda>_.
     if \<not> nonneg_plain_int observed
     then Inl (Exn ValueError ''cursor timestamp must be nonnegative'')
     else Inr \<lparr>cs_x = num_of x, cs_y = num_of y, cs_observed_ns = int_of observed\<rparr>))"

section \<open>Acknowledgements\<close>

record input_ack =
  ak_injected_ns :: int
  ak_acknowledged_ns :: int
  ak_acknowledged :: bool
  ak_detail :: string
  ak_operation_id :: "int option"
  ak_identity :: "window_identity option"
  ak_claim_generation :: "int option"
  ak_broker_instance :: "string option"
  ak_button :: "string option"
  ak_button_state :: "string option"
  ak_accepted_release_deadline_ns :: "int option"
  ak_clock_domain :: "string option"

definition mk_input_ack ::
  "pyval \<Rightarrow> pyval \<Rightarrow> pyval \<Rightarrow> pyval \<Rightarrow> pyval \<Rightarrow> window_identity obj option \<Rightarrow> pyval \<Rightarrow> pyval
     \<Rightarrow> pyval \<Rightarrow> pyval \<Rightarrow> pyval \<Rightarrow> pyval \<Rightarrow> input_ack res" where
  "mk_input_ack injected acked ok detail operation ident generation broker button bstate
       deadline domain =
     (if plain_int injected = None \<or> plain_int acked = None \<or> int_of injected < 0 \<or>
         int_of acked < int_of injected
      then Inl (Exn ValueError ''input acknowledgment timestamps are invalid'')
      else if plain_bool ok = None \<or> plain_str detail = None
      then Inl (Exn TypeError ''invalid input acknowledgment fields'')
      else if operation \<noteq> PyNone \<and> \<not> positive_plain_int operation
      then Inl (Exn ValueError ''input operation ID must be positive'')
      else if ident = Some Alien
      then Inl (Exn TypeError ''input acknowledgment identity is invalid'')
      else if generation \<noteq> PyNone \<and> \<not> positive_plain_int generation
      then Inl (Exn ValueError ''input acknowledgment claim generation must be positive'')
      else if broker \<noteq> PyNone \<and>
        (plain_str broker = None \<or> str_of broker = [] \<or> 256 < length (str_of broker))
      then Inl (Exn ValueError ''input acknowledgment broker instance is invalid'')
      else if button \<noteq> PyNone \<and> button \<notin> {PyStr ''left'', PyStr ''right'', PyStr ''all''}
      then Inl (Exn ValueError ''input acknowledgment button is invalid'')
      else if bstate \<noteq> PyNone \<and> bstate \<notin> {PyStr ''down'', PyStr ''up'', PyStr ''neutral''}
      then Inl (Exn ValueError ''input acknowledgment button state is invalid'')
      else if deadline \<noteq> PyNone \<and> \<not> positive_plain_int deadline
      then Inl (Exn ValueError ''accepted release deadline must be positive'')
      else if domain \<noteq> PyNone \<and> (plain_str domain = None \<or> str_of domain = [])
      then Inl (Exn ValueError ''input acknowledgment clock domain is invalid'')
      else Inr \<lparr>ak_injected_ns = int_of injected, ak_acknowledged_ns = int_of acked,
        ak_acknowledged = (ok = PyBool True), ak_detail = str_of detail,
        ak_operation_id = opt_val operation int_of,
        ak_identity = (case ident of Some (Obj i) \<Rightarrow> Some i | _ \<Rightarrow> None),
        ak_claim_generation = opt_val generation int_of,
        ak_broker_instance = opt_val broker str_of, ak_button = opt_val button str_of,
        ak_button_state = opt_val bstate str_of,
        ak_accepted_release_deadline_ns = opt_val deadline int_of,
        ak_clock_domain = opt_val domain str_of\<rparr>)"

section \<open>Frames and the bounded buffer\<close>

datatype frame_flag =
    DUPLICATE | DROPPED | STALE | OUT_OF_ORDER | BUFFER_OVERFLOW | GEOMETRY_DRIFT | NON_GAMEPLAY

record frame_record =
  fr_sequence :: int
  fr_capture :: capture_packet
  fr_geometry :: geometry_assessment
  fr_screen :: screen_classification
  fr_flags :: "frame_flag set"
  fr_dropped_count :: int

definition frame_usable :: "frame_record \<Rightarrow> bool" where
  "frame_usable f \<longleftrightarrow> fr_flags f \<inter> {STALE, OUT_OF_ORDER, GEOMETRY_DRIFT, NON_GAMEPLAY} = {}"

record frame_buffer =
  fb_maxlen :: nat
  fb_frames :: "frame_record list"
  fb_overflow_count :: nat

definition mk_frame_buffer :: "pyval \<Rightarrow> frame_buffer res" where
  "mk_frame_buffer capacity =
     (if \<not> positive_plain_int capacity
      then Inl (Exn ValueError ''frame-buffer capacity must be positive'')
      else Inr \<lparr>fb_maxlen = nat (int_of capacity), fb_frames = [], fb_overflow_count = 0\<rparr>)"

definition fb_full :: "frame_buffer \<Rightarrow> bool" where
  "fb_full b \<longleftrightarrow> length (fb_frames b) = fb_maxlen b"

text \<open>\<open>deque(maxlen = n).append\<close> drops from the left when the deque is full.\<close>

definition fb_append :: "frame_buffer \<Rightarrow> frame_record \<Rightarrow> bool \<times> frame_buffer" where
  "fb_append b f =
     (let overflow = fb_full b; frames = fb_frames b @ [f] in
      (overflow,
       b\<lparr>fb_overflow_count := (if overflow then Suc (fb_overflow_count b) else fb_overflow_count b),
         fb_frames := drop (length frames - fb_maxlen b) frames\<rparr>))"

definition fb_latest :: "frame_buffer \<Rightarrow> frame_record option" where
  "fb_latest b = (if fb_frames b = [] then None else Some (last (fb_frames b)))"

section \<open>Actions\<close>

datatype shot_kind = WEAK | STRONG

fun shot_value :: "shot_kind \<Rightarrow> string" where
  "shot_value WEAK = ''weak''" | "shot_value STRONG = ''strong''"

fun shot_button :: "shot_kind \<Rightarrow> string" where
  "shot_button WEAK = ''left''" | "shot_button STRONG = ''right''"

record proposed_action =
  pa_sequence :: int
  pa_kind :: string
  pa_client_x :: audit
  pa_client_y :: audit
  pa_requested_ns :: int

datatype execution_status = EXECUTED | REJECTED | FAILED

datatype effect_status = PENDING | CONFIRMED | MISSED | AMBIGUOUS

record executed_action =
  ea_proposed :: proposed_action
  ea_status :: execution_status
  ea_window_x :: pyval
  ea_window_y :: pyval
  ea_down :: "input_ack obj option"
  ea_up :: "input_ack obj option"
  ea_completed_ns :: "int option"
  ea_detail :: string
  ea_effect_status :: effect_status
  ea_first_visible_ns :: "int option"
  ea_effect_frame_sequence :: "int option"
  ea_effect_detail :: string
  ea_release_deadline_ns :: "int option"

section \<open>Limits\<close>

record limits_args =
  la_lease_seconds :: int
  la_frame_buffer_capacity :: pyval
  la_stale_after_ns :: pyval
  la_max_duplicate_run :: pyval
  la_max_source_drop_gap :: pyval
  la_client_width :: pyval
  la_client_height :: pyval
  la_max_transform_age_ns :: pyval
  la_max_geometry_residual_px :: pyval
  la_min_geometry_confidence :: pyval
  la_min_screen_confidence :: pyval
  la_max_crop_drift_px :: pyval
  la_press_duration_ns :: pyval
  la_max_press_duration_error_ns :: pyval
  la_min_click_interval_ns :: pyval
  la_lease_cleanup_margin_ns :: pyval
  la_cursor_mode :: string
  la_max_cursor_speed_per_second :: pyval

definition default_limits :: limits_args where
  "default_limits = \<lparr>la_lease_seconds = 60, la_frame_buffer_capacity = PyInt 8,
     la_stale_after_ns = PyInt 100000000, la_max_duplicate_run = PyInt 2,
     la_max_source_drop_gap = PyInt 0, la_client_width = PyFloat (Fin 640),
     la_client_height = PyFloat (Fin 480), la_max_transform_age_ns = PyInt 1000000000,
     la_max_geometry_residual_px = PyFloat (Fin 2),
     la_min_geometry_confidence = PyFloat (fl_round (95 / 100)),
     la_min_screen_confidence = PyFloat (fl_round (95 / 100)),
     la_max_crop_drift_px = PyFloat (Fin 1), la_press_duration_ns = PyNone,
     la_max_press_duration_error_ns = PyInt 5000000, la_min_click_interval_ns = PyNone,
     la_lease_cleanup_margin_ns = PyInt 100000000, la_cursor_mode = ''unsupported'',
     la_max_cursor_speed_per_second = PyNone\<rparr>"

record harness_limits =
  hl_lease_seconds :: int
  hl_frame_buffer_capacity :: int
  hl_stale_after_ns :: int
  hl_max_duplicate_run :: int
  hl_max_source_drop_gap :: int
  hl_client_width :: pynum
  hl_client_height :: pynum
  hl_max_transform_age_ns :: int
  hl_max_geometry_residual_px :: pynum
  hl_min_geometry_confidence :: pynum
  hl_min_screen_confidence :: pynum
  hl_max_crop_drift_px :: pynum
  hl_press_duration_ns :: "int option"
  hl_max_press_duration_error_ns :: int
  hl_min_click_interval_ns :: "int option"
  hl_lease_cleanup_margin_ns :: int
  hl_cursor_mode :: string
  hl_max_cursor_speed_per_second :: "pynum option"

text \<open>The loops over field names, as loops over (name, value) pairs in the source's order.\<close>

fun check_fields :: "(string \<times> pyval) list \<Rightarrow> (pyval \<Rightarrow> bool) \<Rightarrow> string \<Rightarrow> unit res" where
  "check_fields [] bad msg = Inr ()"
| "check_fields ((name, v) # rest) bad msg =
     (if bad v then Inl (Exn ValueError (name @ msg)) else check_fields rest bad msg)"

fun check_nonneg_numbers :: "(string \<times> pyval) list \<Rightarrow> unit res" where
  "check_nonneg_numbers [] = Inr ()"
| "check_nonneg_numbers ((name, v) # rest) = rbind (h_finite v name) (\<lambda>f.
     if fl_lt f (Fin 0) then Inl (Exn ValueError (name @ '' must be nonnegative''))
     else check_nonneg_numbers rest)"

definition mk_harness_limits :: "limits_args \<Rightarrow> harness_limits res" where
  "mk_harness_limits a =
     (if \<not> (5 \<le> la_lease_seconds a \<and> la_lease_seconds a \<le> 300)
      then Inl (Exn ValueError ''lease seconds must be in [5, 300]'') else
      rbind (check_fields
        [(''frame_buffer_capacity'', la_frame_buffer_capacity a),
         (''stale_after_ns'', la_stale_after_ns a),
         (''max_transform_age_ns'', la_max_transform_age_ns a),
         (''lease_cleanup_margin_ns'', la_lease_cleanup_margin_ns a),
         (''max_press_duration_error_ns'', la_max_press_duration_error_ns a)]
        (\<lambda>v. \<not> positive_plain_int v) '' must be a positive integer'') (\<lambda>_.
      rbind (check_fields
        [(''max_duplicate_run'', la_max_duplicate_run a),
         (''max_source_drop_gap'', la_max_source_drop_gap a)]
        (\<lambda>v. \<not> nonneg_plain_int v) '' must be a nonnegative integer'') (\<lambda>_.
      rbind (check_nonneg_numbers
        [(''client_width'', la_client_width a), (''client_height'', la_client_height a),
         (''max_geometry_residual_px'', la_max_geometry_residual_px a),
         (''min_geometry_confidence'', la_min_geometry_confidence a),
         (''min_screen_confidence'', la_min_screen_confidence a),
         (''max_crop_drift_px'', la_max_crop_drift_px a)]) (\<lambda>_.
      if num_le (num_of (la_client_width a)) (NInt 0) \<or> num_le (num_of (la_client_height a)) (NInt 0)
      then Inl (Exn ValueError ''client dimensions must be positive'')
      else if \<not> (num_le (NInt 0) (num_of (la_min_geometry_confidence a)) \<and>
          num_le (num_of (la_min_geometry_confidence a)) (NInt 1))
      then Inl (Exn ValueError ''geometry confidence must be in [0, 1]'')
      else if \<not> (num_le (NInt 0) (num_of (la_min_screen_confidence a)) \<and>
          num_le (num_of (la_min_screen_confidence a)) (NInt 1))
      then Inl (Exn ValueError ''screen confidence must be in [0, 1]'')
      else rbind (check_fields
        [(''press_duration_ns'', la_press_duration_ns a),
         (''min_click_interval_ns'', la_min_click_interval_ns a)]
        (\<lambda>v. v \<noteq> PyNone \<and> \<not> positive_plain_int v) '' must be a positive integer or None'') (\<lambda>_.
      if la_cursor_mode a \<notin> {''unsupported'', ''abstract_teleport'', ''bounded_speed''}
      then Inl (Exn ValueError ''invalid cursor mode'')
      else rbind
        (if la_cursor_mode a = ''bounded_speed'' then
           (if la_max_cursor_speed_per_second a = PyNone
            then Inl (Exn ValueError ''bounded-speed cursor mode requires a positive limit'')
            else rbind (h_finite (la_max_cursor_speed_per_second a) ''max cursor speed'') (\<lambda>f.
              if fl_le f (Fin 0)
              then Inl (Exn ValueError ''bounded-speed cursor mode requires a positive limit'')
              else Inr ()))
         else Inr ()) (\<lambda>_.
      Inr \<lparr>hl_lease_seconds = la_lease_seconds a,
        hl_frame_buffer_capacity = int_of (la_frame_buffer_capacity a),
        hl_stale_after_ns = int_of (la_stale_after_ns a),
        hl_max_duplicate_run = int_of (la_max_duplicate_run a),
        hl_max_source_drop_gap = int_of (la_max_source_drop_gap a),
        hl_client_width = num_of (la_client_width a),
        hl_client_height = num_of (la_client_height a),
        hl_max_transform_age_ns = int_of (la_max_transform_age_ns a),
        hl_max_geometry_residual_px = num_of (la_max_geometry_residual_px a),
        hl_min_geometry_confidence = num_of (la_min_geometry_confidence a),
        hl_min_screen_confidence = num_of (la_min_screen_confidence a),
        hl_max_crop_drift_px = num_of (la_max_crop_drift_px a),
        hl_press_duration_ns = opt_val (la_press_duration_ns a) int_of,
        hl_max_press_duration_error_ns = int_of (la_max_press_duration_error_ns a),
        hl_min_click_interval_ns = opt_val (la_min_click_interval_ns a) int_of,
        hl_lease_cleanup_margin_ns = int_of (la_lease_cleanup_margin_ns a),
        hl_cursor_mode = la_cursor_mode a,
        hl_max_cursor_speed_per_second = real_num (la_max_cursor_speed_per_second a)\<rparr>))))))"

text \<open>What every constructed set of limits satisfies.\<close>

definition limits_ok :: "harness_limits \<Rightarrow> bool" where
  "limits_ok l \<longleftrightarrow> 5 \<le> hl_lease_seconds l \<and> hl_lease_seconds l \<le> 300 \<and>
     0 < hl_frame_buffer_capacity l \<and> 0 < hl_stale_after_ns l \<and> 0 < hl_max_transform_age_ns l \<and>
     0 < hl_lease_cleanup_margin_ns l \<and> 0 < hl_max_press_duration_error_ns l \<and>
     0 \<le> hl_max_duplicate_run l \<and> 0 \<le> hl_max_source_drop_gap l \<and>
     (\<forall>n. hl_press_duration_ns l = Some n \<longrightarrow> 0 < n) \<and>
     (\<forall>n. hl_min_click_interval_ns l = Some n \<longrightarrow> 0 < n) \<and>
     hl_cursor_mode l \<in> {''unsupported'', ''abstract_teleport'', ''bounded_speed''} \<and>
     (hl_cursor_mode l = ''bounded_speed'' \<longrightarrow> hl_max_cursor_speed_per_second l \<noteq> None)"

lemma positive_plain_intD: "positive_plain_int v \<Longrightarrow> 0 < int_of v"
  by (cases v) (auto simp: positive_plain_int_def)

lemma nonneg_plain_intD: "nonneg_plain_int v \<Longrightarrow> 0 \<le> int_of v"
  by (cases v) (auto simp: nonneg_plain_int_def)

lemma h_finite_real: "h_finite v name = Inr f \<Longrightarrow> real_num v \<noteq> None \<and> is_finite f"
  by (auto simp: h_finite_def rbind_Inr split: option.splits if_splits)

lemma mk_harness_limits_ok:
  assumes "mk_harness_limits a = Inr l"
  shows "limits_ok l"
  using assms
  by (auto simp: mk_harness_limits_def limits_ok_def rbind_Inr opt_val_def
           intro: positive_plain_intD nonneg_plain_intD dest!: h_finite_real split: if_splits)

end
