(* ===== verification/Harness.thy ===== *)
theory Harness
  imports Harness_Types
begin

text \<open>
  \<open>OriginalGameHarness\<close>: the claim-bound capture and explicit-edge shot executor of
  \<open>irisu_rl/original_game/harness.py\<close>.  The object is the record \<open>harness\<close>; a method is
  a computation on it.  The provider, geometry adapter, classifier, timing observer, runtime
  guard and clock are the \<open>harness_env\<close>: each answers from the whole history of calls, which
  the harness keeps (newest first) in \<open>h_log\<close>; so any answers, errors and timings are
  possible.  The re-entrant lock around each public method has no counterpart: a method is
  one step.
\<close>

section \<open>The outside world\<close>

datatype hcall =
    CClock
  | CSafety
  | CCapabilities
  | CClaim window_identity int
  | CRenew window_identity claim_token int
  | CReleaseClaim window_identity claim_token
  | CCapture window_identity claim_token
  | CCursor window_identity claim_token
  | CButtonDown window_identity claim_token string pyfloat pyfloat int int
  | CButtonUp window_identity claim_token string pyfloat pyfloat
  | CReleaseAll window_identity claim_token
  | CAssess capture_packet int
  | CClientToWindow pyfloat pyfloat geometry_assessment
  | CClassify capture_packet geometry_assessment
  | CObserveFrame frame_record
  | CVerifyRuntime
  | CVerifyInput
  | CVerifyTarget int int
  | CSleep int

record harness_env =
  en_clock :: "hcall list \<Rightarrow> int"
  en_safety :: "hcall list \<Rightarrow> session_safety res"
  en_capabilities :: "hcall list \<Rightarrow> input_capabilities res"
  en_claim :: "hcall list \<Rightarrow> claim_lease obj res"
  en_renew :: "hcall list \<Rightarrow> claim_lease obj res"
  en_release_claim :: "hcall list \<Rightarrow> unit res"
  en_capture :: "hcall list \<Rightarrow> capture_packet res"
  en_cursor :: "hcall list \<Rightarrow> cursor_sample res"
  en_button_down :: "hcall list \<Rightarrow> input_ack obj res"
  en_button_up :: "hcall list \<Rightarrow> input_ack obj res"
  en_release_all :: "hcall list \<Rightarrow> input_ack obj res"
  en_assess :: "hcall list \<Rightarrow> geometry_assessment res"
  en_client_to_window :: "hcall list \<Rightarrow> (pyval \<times> pyval) res"
  en_classify :: "hcall list \<Rightarrow> screen_classification res"
  en_observe_frame :: "hcall list \<Rightarrow> unit res"
  en_verify_runtime :: "hcall list \<Rightarrow> unit res"
  en_verify_input :: "hcall list \<Rightarrow> unit res"
  en_verify_target :: "hcall list \<Rightarrow> unit res"
  en_sleep :: "hcall list \<Rightarrow> unit res"
  en_sha256 :: "string \<Rightarrow> string"
  en_hypot :: "pyfloat \<Rightarrow> pyfloat \<Rightarrow> pyfloat"

record harness_config =
  hc_identity :: window_identity
  hc_limits :: harness_limits
  hc_has_guard :: bool
  hc_has_observer :: bool
  hc_env :: harness_env

section \<open>The object\<close>

record harness =
  h_lease :: "claim_lease option"
  h_target :: "target_descriptor option"
  h_capabilities :: "input_capabilities option"
  h_cursor :: "cursor_sample option"
  h_pending :: bool
  h_buttons_neutral :: bool
  h_stopped :: bool
  h_reasons :: "string list"
  h_cleanup_errors :: "string list"
  h_duplicate_run :: int
  h_dropped_frames :: int
  h_frame_sequence :: int
  h_action_sequence :: int
  h_last_input_operation_id :: int
  h_last_click_ns :: "int option"
  h_proposed :: "proposed_action list"
  h_executed :: "executed_action list"
  h_buffer :: frame_buffer
  h_log :: "hcall list"

definition harness_init :: "harness_config \<Rightarrow> harness res" where
  "harness_init C = rbind (mk_frame_buffer (PyInt (hl_frame_buffer_capacity (hc_limits C)))) (\<lambda>b.
     Inr \<lparr>h_lease = None, h_target = None, h_capabilities = None, h_cursor = None,
       h_pending = False, h_buttons_neutral = True, h_stopped = False, h_reasons = [],
       h_cleanup_errors = [], h_duplicate_run = 0, h_dropped_frames = 0, h_frame_sequence = 0,
       h_action_sequence = 0, h_last_input_operation_id = 0, h_last_click_ns = None,
       h_proposed = [], h_executed = [], h_buffer = b, h_log = []\<rparr>)"

text \<open>One call to the outside: logged first, then answered from the history.\<close>

definition hcall :: "hcall \<Rightarrow> (hcall list \<Rightarrow> 'a res) \<Rightarrow> (harness, 'a) py" where
  "hcall c f = (\<lambda>s. (f (c # h_log s), s\<lparr>h_log := c # h_log s\<rparr>))"

lemma wp_hcall [wp_simps]:
  "wp (hcall c f) Q E = (\<lambda>s. case f (c # h_log s) of
     Inl e \<Rightarrow> E e (s\<lparr>h_log := c # h_log s\<rparr>) | Inr x \<Rightarrow> Q x (s\<lparr>h_log := c # h_log s\<rparr>))"
  by (rule ext) (simp add: wp_def hcall_def split: sum.split)

lemma keeps_hcall [keeps_intros]:
  "(\<And>s. I s \<Longrightarrow> I (s\<lparr>h_log := c # h_log s\<rparr>)) \<Longrightarrow> keeps I (hcall c f)"
  by (simp add: keeps_def hcall_def)

definition hclock :: "harness_config \<Rightarrow> (harness, int) py" where
  "hclock C = hcall CClock (\<lambda>l. Inr (en_clock (hc_env C) l))"

lemma wp_hclock [wp_simps]:
  "wp (hclock C) Q E =
     (\<lambda>s. Q (en_clock (hc_env C) (CClock # h_log s)) (s\<lparr>h_log := CClock # h_log s\<rparr>))"
  by (rule ext) (simp add: hclock_def wp_simps)

lemma keeps_hclock [keeps_intros]:
  "(\<And>s. I s \<Longrightarrow> I (s\<lparr>h_log := CClock # h_log s\<rparr>)) \<Longrightarrow> keeps I (hclock C)"
  by (simp add: hclock_def keeps_hcall)

definition pending_effects :: "harness \<Rightarrow> nat" where
  "pending_effects s =
     length (filter (\<lambda>a. ea_status a = EXECUTED \<and> ea_effect_status a = PENDING) (h_executed s))"

record watchdog_state =
  wd_healthy :: bool
  wd_stopped :: bool
  wd_reasons :: "string list"
  wd_claim_active :: bool
  wd_buttons_neutral :: bool
  wd_pending_actions :: nat
  wd_frames_seen :: int
  wd_duplicate_run :: int
  wd_dropped_frames :: int
  wd_buffer_overflows :: nat
  wd_cleanup_errors :: "string list"

definition watchdog :: "harness \<Rightarrow> watchdog_state" where
  "watchdog s = \<lparr>
     wd_healthy = (h_reasons s = [] \<and> h_cleanup_errors s = [] \<and> \<not> h_stopped s),
     wd_stopped = h_stopped s, wd_reasons = h_reasons s, wd_claim_active = (h_lease s \<noteq> None),
     wd_buttons_neutral = h_buttons_neutral s,
     wd_pending_actions = (if h_pending s then 1 else 0) + pending_effects s,
     wd_frames_seen = h_frame_sequence s, wd_duplicate_run = h_duplicate_run s,
     wd_dropped_frames = h_dropped_frames s,
     wd_buffer_overflows = fb_overflow_count (h_buffer s),
     wd_cleanup_errors = h_cleanup_errors s\<rparr>"

section \<open>Guards\<close>

definition verify_target :: "harness_config \<Rightarrow> (harness, unit) py" where
  "verify_target C = pbind (pget h_target) (\<lambda>t. case t of
     None \<Rightarrow> pret ()
   | Some d \<Rightarrow> hcall (CVerifyTarget (td_process_id d) (td_process_start_ticks d))
                 (en_verify_target (hc_env C)))"

definition verify_runtime_unchanged :: "harness_config \<Rightarrow> (harness, unit) py" where
  "verify_runtime_unchanged C =
     (if \<not> hc_has_guard C
      then praise (Exn SafetyError ''live runtime re-attestation is not configured'')
      else pbind (hcall CVerifyRuntime (en_verify_runtime (hc_env C))) (\<lambda>_. verify_target C))"

definition verify_runtime_if_configured :: "harness_config \<Rightarrow> (harness, unit) py" where
  "verify_runtime_if_configured C = pwhen (hc_has_guard C) (verify_runtime_unchanged C)"

definition verify_input_environment_unchanged :: "harness_config \<Rightarrow> (harness, unit) py" where
  "verify_input_environment_unchanged C =
     (if \<not> hc_has_guard C
      then praise (Exn SafetyError ''live input-environment attestation is not configured'')
      else pbind (hcall CVerifyInput (en_verify_input (hc_env C))) (\<lambda>_. verify_target C))"

definition require_active :: "(harness, claim_lease) py" where
  "require_active = pbind (pget (\<lambda>s. (h_stopped s, h_lease s))) (\<lambda>(stopped, lease).
     case lease of
       Some l \<Rightarrow> if stopped then praise (Exn HarnessError ''harness is not active'') else pret l
     | None \<Rightarrow> praise (Exn HarnessError ''harness is not active''))"

definition add_reason :: "exn \<Rightarrow> (harness, unit) py" where
  "add_reason e = pmod (\<lambda>s. if exn_text e \<in> set (h_reasons s) then s
                            else s\<lparr>h_reasons := h_reasons s @ [exn_text e]\<rparr>)"

definition validate_lease ::
  "harness_config \<Rightarrow> claim_lease obj \<Rightarrow> int \<Rightarrow> claim_lease option \<Rightarrow> claim_lease res" where
  "validate_lease C lease returned_ns previous = (case lease of
     Alien \<Rightarrow> Inl (Exn WindowIdentityError ''provider returned an invalid claim lease'')
   | Obj l \<Rightarrow>
     if cl_identity l \<noteq> hc_identity C
     then Inl (Exn WindowIdentityError ''claim changed window identity'')
     else if cl_generation l = None \<or> cl_broker_instance l = None \<or> cl_target l = None
     then Inl (Exn WindowIdentityError ''claim lacks generation, broker, or target/runtime binding'')
     else if map_option td_identity (cl_target l) \<noteq> Some (hc_identity C)
     then Inl (Exn WindowIdentityError ''claim target descriptor changed window identity'')
     else if cl_expires_ns l \<le> returned_ns
     then Inl (Exn WindowIdentityError ''claim expired before the provider call returned'')
     else (case previous of
       None \<Rightarrow> Inr l
     | Some p \<Rightarrow>
         if cl_token l \<noteq> cl_token p
         then Inl (Exn WindowIdentityError ''claim renewal changed fencing token'')
         else if cl_generation l \<noteq> cl_generation p
         then Inl (Exn WindowIdentityError ''claim renewal changed generation'')
         else if cl_broker_instance l \<noteq> cl_broker_instance p
         then Inl (Exn WindowIdentityError ''claim renewal changed broker instance'')
         else if cl_target l \<noteq> cl_target p
         then Inl (Exn WindowIdentityError ''claim renewal changed target/runtime identity'')
         else if cl_expires_ns l \<le> cl_expires_ns p
         then Inl (Exn WindowIdentityError ''claim renewal did not extend its expiry'')
         else Inr l))"

definition validate_provider_interval ::
  "int \<Rightarrow> int \<Rightarrow> int \<Rightarrow> int \<Rightarrow> string \<Rightarrow> unit res" where
  "validate_provider_interval start end rstart rend operation =
     rguard (\<not> (start \<le> rstart \<and> rstart \<le> rend \<and> rend \<le> end))
       (Exn HarnessError
         (operation @ '' timestamps are outside the local provider-call interval''))"

definition ensure_lease_live :: "claim_lease \<Rightarrow> int \<Rightarrow> string \<Rightarrow> unit res" where
  "ensure_lease_live lease t operation =
     rguard (cl_expires_ns lease \<le> t)
       (Exn WindowIdentityError (''window claim expired during '' @ operation))"

definition validate_ack ::
  "harness_config \<Rightarrow> int \<Rightarrow> input_ack obj \<Rightarrow> string \<Rightarrow> claim_lease \<Rightarrow> string \<Rightarrow> string
     \<Rightarrow> int option \<Rightarrow> int option \<Rightarrow> (harness, int) py" where
  "validate_ack C request_ns ack edge lease button bstate deadline latest = (case ack of
     Alien \<Rightarrow> praise (Exn ActionError (edge @ '' returned an invalid acknowledgment''))
   | Obj a \<Rightarrow>
     if \<not> ak_acknowledged a then praise (Exn ActionError (edge @ '' was not acknowledged''))
     else if ak_injected_ns a < request_ns
     then praise (Exn ActionError (edge @ '' acknowledgment predates its request''))
     else pbind (hclock C) (\<lambda>post_return_ns.
       if post_return_ns < ak_acknowledged_ns a
       then praise (Exn ActionError (edge @ '' acknowledgment is in the future''))
       else pbind (pget h_last_input_operation_id) (\<lambda>last_op.
         case ak_operation_id a of
           None \<Rightarrow> praise (Exn ActionError
             (edge @ '' acknowledgment is not bound to this operation and claim''))
         | Some op \<Rightarrow>
           if \<not> (last_op < op \<and> ak_identity a = Some (hc_identity C) \<and>
                ak_claim_generation a = cl_generation lease \<and>
                ak_broker_instance a = cl_broker_instance lease \<and>
                ak_button a = Some button \<and> ak_button_state a = Some bstate \<and>
                ak_accepted_release_deadline_ns a = deadline \<and>
                ak_clock_domain a = Some MONOTONIC_CLOCK_DOMAIN \<and>
                (case latest of None \<Rightarrow> True | Some t \<Rightarrow> ak_injected_ns a \<le> t))
           then praise (Exn ActionError
             (edge @ '' acknowledgment is not bound to this operation and claim''))
           else pbind (pmod (\<lambda>s. s\<lparr>h_last_input_operation_id := op\<rparr>)) (\<lambda>_.
             pret post_return_ns))))"

section \<open>Cleanup and abort\<close>

definition add_cleanup_error :: "string \<Rightarrow> exn \<Rightarrow> (harness, unit) py" where
  "add_cleanup_error what e =
     pmod (\<lambda>s. s\<lparr>h_cleanup_errors := h_cleanup_errors s @ [what @ exn_text e]\<rparr>)"

text \<open>The \<open>try\<close>/\<open>except\<close> around \<open>release_all_buttons\<close>.\<close>

definition cleanup_buttons :: "harness_config \<Rightarrow> claim_lease \<Rightarrow> (harness, unit) py" where
  "cleanup_buttons C lease = pcatch
     (pbind (hclock C) (\<lambda>request_ns.
      pbind (hcall (CReleaseAll (hc_identity C) (cl_token lease)) (en_release_all (hc_env C))) (\<lambda>ack.
      pbind (validate_ack C request_ns ack ''release-all'' lease ''all'' ''neutral'' None None) (\<lambda>_.
      pmod (\<lambda>s. s\<lparr>h_buttons_neutral := True\<rparr>)))))
     (\<lambda>e. pbind (pmod (\<lambda>s. s\<lparr>h_buttons_neutral := False\<rparr>)) (\<lambda>_.
       add_cleanup_error ''release_all_buttons: '' e))"

text \<open>Its \<open>finally\<close>: end the claim, whatever happened, and forget the lease.\<close>

definition cleanup_claim :: "harness_config \<Rightarrow> claim_lease \<Rightarrow> (harness, unit) py" where
  "cleanup_claim C lease =
     pbind (pattempt (pcatch
       (pbind (hcall (CReleaseClaim (hc_identity C) (cl_token lease)) (en_release_claim (hc_env C)))
         (\<lambda>_. pret True))
       (\<lambda>e. pbind (add_cleanup_error ''release_exact_window_claim: '' e) (\<lambda>_. pret False))))
     (\<lambda>r. pbind (pmod (\<lambda>s.
         if r = Inr True \<and> (case h_capabilities s of None \<Rightarrow> False
                            | Some c \<Rightarrow> ic_neutralizes_on_claim_end_or_expiry c)
         then s\<lparr>h_buttons_neutral := True\<rparr> else s)) (\<lambda>_.
       pbind (pmod (\<lambda>s. s\<lparr>h_lease := None\<rparr>)) (\<lambda>_.
       plift (case r of Inl e \<Rightarrow> Inl e | Inr _ \<Rightarrow> Inr ()))))"

definition cleanup :: "harness_config \<Rightarrow> (harness, unit) py" where
  "cleanup C = pbind (pget h_lease) (\<lambda>lease.
     pbind (pmod (\<lambda>s. s\<lparr>h_stopped := True\<rparr>)) (\<lambda>_. case lease of
       None \<Rightarrow> pret ()
     | Some l \<Rightarrow> pfinally (cleanup_buttons C l) (cleanup_claim C l)))"

definition abort :: "harness_config \<Rightarrow> exn \<Rightarrow> (harness, 'a) py" where
  "abort C e = pbind (add_reason e) (\<lambda>_. pbind (cleanup C) (\<lambda>_. praise e))"

definition harness_close :: "harness_config \<Rightarrow> (harness, unit) py" where
  "harness_close C = pbind (pget h_stopped) (\<lambda>stopped.
     pbind (pwhen (\<not> stopped) (cleanup C)) (\<lambda>_.
     pbind (pget h_cleanup_errors) (\<lambda>errors.
     pguard (errors \<noteq> []) (Exn CleanupError (''cleanup failed: '' @
       concat (case errors of [] \<Rightarrow> [] | x # xs \<Rightarrow> x # map (\<lambda>y. ''; '' @ y) xs))))))"

text \<open>\<open>__exit__\<close>; the flag tells whether the block raised.\<close>

definition harness_exit :: "harness_config \<Rightarrow> bool \<Rightarrow> (harness, unit) py" where
  "harness_exit C raised = pbind (pattempt (harness_close C)) (\<lambda>r. case r of
     Inr _ \<Rightarrow> pret ()
   | Inl e \<Rightarrow> if exn_class e = CleanupError \<and> raised then pret () else praise e)"

end
