(* ===== verification/Harness_Ops.thy ===== *)
theory Harness_Ops
  imports Harness
begin

text \<open>
  The public methods of \<open>OriginalGameHarness\<close>: \<open>open\<close>, \<open>renew\<close>, \<open>capture\<close>, \<open>fire\<close> and
  \<open>record_action_effect\<close>, and the checks they make.  The body of \<open>fire\<close> keeps the local
  variables its \<open>except\<close> clause reads in a frame beside the object.
\<close>

section \<open>Classifying a frame\<close>

definition classify_frame ::
  "harness_config \<Rightarrow> frame_buffer \<Rightarrow> capture_packet \<Rightarrow> geometry_assessment \<Rightarrow>
     screen_classification \<Rightarrow> int \<Rightarrow> (frame_flag set \<times> int) res" where
  "classify_frame C buf packet geometry screen now_ns =
     (let lim = hc_limits C; observed_ns = packet_observed_ns packet;
          base = (if hl_stale_after_ns lim < now_ns - observed_ns then {STALE} else {})
                 \<union> (if now_ns < observed_ns then {OUT_OF_ORDER} else {});
          tail = (if ga_drifted geometry then {GEOMETRY_DRIFT} else {})
                 \<union> (if sc_state screen \<noteq> GAMEPLAY
                       \<or> num_lt (sc_confidence screen) (hl_min_screen_confidence lim)
                    then {NON_GAMEPLAY} else {})
      in case fb_latest buf of
        None \<Rightarrow> Inr (base \<union> tail, 0)
      | Some previous \<Rightarrow>
        (let prior = fr_capture previous;
             same = (if packet_sha256 (en_sha256 (hc_env C)) packet
                        = packet_sha256 (en_sha256 (hc_env C)) prior then {DUPLICATE} else {});
             order = (if observed_ns \<le> packet_observed_ns prior then {OUT_OF_ORDER} else {});
             (seq, dropped) = (case (cp_source_sequence packet, cp_source_sequence prior) of
                 (Some a, Some b) \<Rightarrow>
                   if a \<le> b then ({OUT_OF_ORDER}, 0)
                   else if b + 1 < a then ({DROPPED}, a - b - 1) else ({}, 0)
               | _ \<Rightarrow> ({}, 0))
         in rbind (edge_drift (ga_crop geometry) (ga_crop (fr_geometry previous))) (\<lambda>crop_drift.
            rbind (edge_drift (cp_window_bounds packet) (cp_window_bounds prior)) (\<lambda>win_drift.
            Inr (base \<union> same \<union> order \<union> seq
                 \<union> (if num_lt (hl_max_crop_drift_px lim) crop_drift then {GEOMETRY_DRIFT} else {})
                 \<union> (if num_lt (hl_max_crop_drift_px lim) win_drift then {GEOMETRY_DRIFT} else {})
                 \<union> tail, dropped)))))"

definition validate_geometry ::
  "harness_config \<Rightarrow> geometry_assessment \<Rightarrow> capture_packet \<Rightarrow> unit res" where
  "validate_geometry C g p =
     (let lim = hc_limits C; crop = ga_crop g in
      if hl_max_transform_age_ns lim < ga_transform_age_ns g
      then Inl (Exn GeometryError ''coordinate transform is stale'')
      else if num_lt (hl_max_geometry_residual_px lim) (ga_residual_px g)
      then Inl (Exn GeometryError ''coordinate residual exceeds watchdog limit'')
      else if num_lt (ga_confidence g) (hl_min_geometry_confidence lim)
      then Inl (Exn GeometryError ''coordinate confidence is below watchdog limit'')
      else if num_lt (hr_x crop) (NInt 0) \<or> num_lt (hr_y crop) (NInt 0)
      then Inl (Exn GeometryError ''puzzle crop is outside captured pixels'')
      else rbind (num_add (hr_x crop) (hr_width crop)) (\<lambda>right.
        if num_lt (NInt (cp_pixel_width p)) right
        then Inl (Exn GeometryError ''puzzle crop is outside captured pixels'')
        else rbind (num_add (hr_y crop) (hr_height crop)) (\<lambda>bottom.
          rguard (num_lt (NInt (cp_pixel_height p)) bottom)
            (Exn GeometryError ''puzzle crop is outside captured pixels''))))"

definition safety_detail :: "session_safety \<Rightarrow> string \<Rightarrow> string" where
  "safety_detail s dflt = (if sf_detail s = [] then dflt else sf_detail s)"

text \<open>The steps of \<open>_capture\<close> after the record is built: store it, count, and refuse.\<close>

definition store_frame ::
  "harness_config \<Rightarrow> capture_packet \<Rightarrow> geometry_assessment \<Rightarrow> screen_classification \<Rightarrow>
     frame_flag set \<Rightarrow> int \<Rightarrow> (harness, frame_record) py" where
  "store_frame C packet g screen flags dropped =
     pbind (pmod (\<lambda>s. s\<lparr>h_frame_sequence := h_frame_sequence s + 1\<rparr>)) (\<lambda>_.
     pbind (pget (\<lambda>s. \<lparr>fr_sequence = h_frame_sequence s, fr_capture = packet, fr_geometry = g,
         fr_screen = screen,
         fr_flags = (if fb_full (h_buffer s) then insert BUFFER_OVERFLOW flags else flags),
         fr_dropped_count = dropped\<rparr>)) (\<lambda>record.
     pbind (pmod (\<lambda>s. s\<lparr>h_buffer := snd (fb_append (h_buffer s) record),
         h_duplicate_run := (if DUPLICATE \<in> fr_flags record then h_duplicate_run s + 1 else 0),
         h_dropped_frames := h_dropped_frames s + dropped\<rparr>)) (\<lambda>_.
     pbind (pget h_duplicate_run) (\<lambda>run.
     if OUT_OF_ORDER \<in> fr_flags record
     then praise (Exn FrameError ''capture is out of order'')
     else if STALE \<in> fr_flags record
     then praise (Exn FrameError ''capture is stale'')
     else if GEOMETRY_DRIFT \<in> fr_flags record
     then praise (Exn GeometryError ''capture geometry drifted'')
     else if hl_max_duplicate_run (hc_limits C) < run
     then praise (Exn FrameError ''duplicate-frame limit exceeded'')
     else if hl_max_source_drop_gap (hc_limits C) < dropped
     then praise (Exn FrameError ''source-frame drop limit exceeded'')
     else pbind (pwhen (hc_has_observer C)
         (hcall (CObserveFrame record) (en_observe_frame (hc_env C)))) (\<lambda>_.
       pret record)))))"

definition capture_body :: "harness_config \<Rightarrow> claim_lease \<Rightarrow> (harness, frame_record) py" where
  "capture_body C lease =
     pbind (verify_runtime_if_configured C) (\<lambda>_.
     pbind (hclock C) (\<lambda>t0.
     pbind (pguard (cl_expires_ns lease \<le> t0)
       (Exn WindowIdentityError ''window claim expired before capture'')) (\<lambda>_.
     pbind (hcall CSafety (en_safety (hc_env C))) (\<lambda>safety.
     pbind (pguard (\<not> safety_ready safety)
       (Exn SafetyError (safety_detail safety ''current session became unsafe''))) (\<lambda>_.
     pbind (hclock C) (\<lambda>request_ns.
     pbind (plift (ensure_lease_live lease request_ns ''capture'')) (\<lambda>_.
     pbind (hcall (CCapture (hc_identity C) (cl_token lease)) (en_capture (hc_env C))) (\<lambda>packet.
     pbind (verify_runtime_if_configured C) (\<lambda>_.
     pbind (pguard (cp_identity packet \<noteq> hc_identity C)
       (Exn WindowIdentityError ''capture identity changed'')) (\<lambda>_.
     pbind (hclock C) (\<lambda>now_ns.
     pbind (plift (validate_provider_interval request_ns now_ns (cp_request_ns packet)
       (cp_completion_ns packet) ''capture'')) (\<lambda>_.
     pbind (plift (ensure_lease_live lease now_ns ''capture'')) (\<lambda>_.
     pbind (pget h_capabilities) (\<lambda>caps.
     pbind (pguard ((case caps of None \<Rightarrow> False | Some c \<Rightarrow> supports_safe_shots c) \<and>
         (cp_presentation_ns packet = None \<or> cp_source_sequence packet = None \<or>
          cp_canonical_pixel_sha256 packet = None))
       (Exn FrameError (''live-qualified capture lacks presentation, source sequence, '' @
         ''or canonical pixel identity''))) (\<lambda>_.
     pbind (hcall (CAssess packet now_ns) (en_assess (hc_env C))) (\<lambda>g.
     pbind (plift (validate_geometry C g packet)) (\<lambda>_.
     pbind (hcall (CClassify packet g) (en_classify (hc_env C))) (\<lambda>screen.
     pbind (pget h_buffer) (\<lambda>buf.
     pbind (plift (classify_frame C buf packet g screen now_ns)) (\<lambda>(flags, dropped).
     store_frame C packet g screen flags dropped))))))))))))))))))))"

definition capture :: "harness_config \<Rightarrow> (harness, frame_record) py" where
  "capture C = pbind require_active (\<lambda>lease. pcatch (capture_body C lease) (abort C))"

definition validate_window_point :: "frame_buffer \<Rightarrow> pyval \<Rightarrow> pyval \<Rightarrow> (pyfloat \<times> pyfloat) res" where
  "validate_window_point buf x y =
     rbind (h_finite x ''window x'') (\<lambda>xf. rbind (h_finite y ''window y'') (\<lambda>yf.
     case fb_latest buf of
       None \<Rightarrow> Inr (xf, yf)
     | Some f \<Rightarrow>
         let b = cp_window_bounds (fr_capture f) in
         if \<not> (num_le (NInt 0) (NFlt xf) \<and> num_lt (NFlt xf) (hr_width b) \<and>
              num_le (NInt 0) (NFlt yf) \<and> num_lt (NFlt yf) (hr_height b))
         then Inl (Exn ActionError ''window-local coordinate is out of bounds'')
         else Inr (xf, yf)))"

section \<open>Opening and renewing the claim\<close>

definition py_of_num :: "pynum \<Rightarrow> pyval" where
  "py_of_num n = (case n of NInt i \<Rightarrow> PyInt i | NFlt f \<Rightarrow> PyFloat f)"

text \<open>A lease for another window: fence the token out, give the lease back, refuse.\<close>

definition release_unexpected :: "harness_config \<Rightarrow> claim_lease \<Rightarrow> (harness, unit) py" where
  "release_unexpected C l =
     pbind (pcatch
       (pbind (hcall (CReleaseAll (hc_identity C) (cl_token l)) (en_release_all (hc_env C)))
         (\<lambda>_. pret ()))
       (add_cleanup_error ''release_all_buttons: '')) (\<lambda>_.
     pbind (pcatch
       (hcall (CReleaseClaim (cl_identity l) (cl_token l)) (en_release_claim (hc_env C)))
       (add_cleanup_error ''release_unexpected_window_claim: '')) (\<lambda>_.
     praise (Exn WindowIdentityError ''provider claimed a different window'')))"

text \<open>The end of \<open>_open\<close>: one cursor observation under the new claim.\<close>

definition observe_cursor :: "harness_config \<Rightarrow> (harness, unit) py" where
  "observe_cursor C =
     pbind require_active (\<lambda>lease.
     pbind (hclock C) (\<lambda>request_ns.
     pbind (hcall (CCursor (hc_identity C) (cl_token lease)) (en_cursor (hc_env C))) (\<lambda>cursor.
     pbind (hclock C) (\<lambda>return_ns.
     pbind (plift (validate_provider_interval request_ns return_ns (cs_observed_ns cursor)
         (cs_observed_ns cursor) ''cursor observation'')) (\<lambda>_.
     pbind (plift (ensure_lease_live lease return_ns ''cursor observation'')) (\<lambda>_.
     pbind (pget h_buffer) (\<lambda>buf.
     pbind (plift (validate_window_point buf (py_of_num (cs_x cursor)) (py_of_num (cs_y cursor))))
       (\<lambda>_. pmod (\<lambda>s. s\<lparr>h_cursor := Some cursor\<rparr>)))))))))"

definition open_body :: "harness_config \<Rightarrow> (harness, unit) py" where
  "open_body C =
     pbind (hcall (CClaim (hc_identity C) (hl_lease_seconds (hc_limits C))) (en_claim (hc_env C)))
       (\<lambda>lease.
     pbind (hclock C) (\<lambda>claim_return_ns.
     pbind (case lease of
         Alien \<Rightarrow> praise (Exn WindowIdentityError ''provider returned an invalid claim lease'')
       | Obj l \<Rightarrow> pwhen (cl_identity l \<noteq> hc_identity C) (release_unexpected C l)) (\<lambda>_.
     pbind (plift (validate_lease C lease claim_return_ns None)) (\<lambda>l.
     pbind (pmod (\<lambda>s. s\<lparr>h_lease := Some l, h_target := cl_target l,
         h_last_input_operation_id := 0\<rparr>)) (\<lambda>_.
     pbind (capture C) (\<lambda>_. observe_cursor C))))))"

definition harness_open :: "harness_config \<Rightarrow> (harness, unit) py" where
  "harness_open C =
     pbind (pget (\<lambda>s. h_lease s \<noteq> None \<or> h_stopped s)) (\<lambda>busy.
     pbind (pguard busy (Exn HarnessError ''harness cannot be opened in its current state'')) (\<lambda>_.
     pbind (hcall CSafety (en_safety (hc_env C))) (\<lambda>safety.
     pbind (pguard (\<not> safety_ready safety)
       (Exn SafetyError (safety_detail safety ''current session is unsafe''))) (\<lambda>_.
     pbind (hcall CCapabilities (en_capabilities (hc_env C))) (\<lambda>caps.
     pbind (pmod (\<lambda>s. s\<lparr>h_capabilities := Some caps\<rparr>)) (\<lambda>_.
     pbind (pguard (supports_safe_shots caps \<and> \<not> hc_has_guard C)
       (Exn SafetyError ''safe live input requires runtime and Wine-prefix re-attestation'')) (\<lambda>_.
     pcatch (open_body C) (\<lambda>e. pbind (add_reason e) (\<lambda>_. pbind (cleanup C) (\<lambda>_.
       praise e))))))))))"

definition renew :: "harness_config \<Rightarrow> (harness, unit) py" where
  "renew C = pbind require_active (\<lambda>lease. pcatch
     (pbind (hclock C) (\<lambda>t.
      pbind (pguard (cl_expires_ns lease \<le> t)
        (Exn WindowIdentityError ''window claim expired before renewal'')) (\<lambda>_.
      pbind (hcall (CRenew (hc_identity C) (cl_token lease) (hl_lease_seconds (hc_limits C)))
        (en_renew (hc_env C))) (\<lambda>renewed.
      pbind (hclock C) (\<lambda>returned_ns.
      pbind (plift (validate_lease C renewed returned_ns (Some lease))) (\<lambda>l.
      pmod (\<lambda>s. s\<lparr>h_lease := Some l\<rparr>)))))))
     (abort C))"

section \<open>Firing a shot\<close>

definition parse_shot_kind :: "pyval \<Rightarrow> shot_kind option" where
  "parse_shot_kind k = (if k = PyStr ''weak'' then Some WEAK
                        else if k = PyStr ''strong'' then Some STRONG else None)"

text \<open>\<open>_finite\<close> inside \<open>except (TypeError, ValueError)\<close>: an overflow passes through.\<close>

definition client_finite :: "pyval \<Rightarrow> string \<Rightarrow> pyfloat res" where
  "client_finite v name = (case h_finite v name of
     Inr f \<Rightarrow> Inr f
   | Inl e \<Rightarrow> if exn_class e \<in> {TypeError, ValueError}
             then Inl (Exn ActionError (exn_text e)) else Inl e)"

definition validate_action ::
  "harness_config \<Rightarrow> harness \<Rightarrow> pyval \<Rightarrow> pyval \<Rightarrow> pyval \<Rightarrow> int \<Rightarrow>
     (shot_kind \<times> pyfloat \<times> pyfloat) res" where
  "validate_action C s kind x y now_ns =
     (let lim = hc_limits C in case parse_shot_kind kind of
        None \<Rightarrow> Inl (Exn ActionError ''only legal weak/strong shots are accepted'')
      | Some parsed \<Rightarrow>
        rbind (client_finite x ''client x'') (\<lambda>cx. rbind (client_finite y ''client y'') (\<lambda>cy.
        if \<not> (num_le (NInt 0) (NFlt cx) \<and> num_lt (NFlt cx) (hl_client_width lim) \<and>
             num_le (NInt 0) (NFlt cy) \<and> num_lt (NFlt cy) (hl_client_height lim))
        then Inl (Exn ActionError ''client coordinate is out of bounds'')
        else if h_pending s \<or> pending_effects s \<noteq> 0
        then Inl (Exn ActionError ''maximum pending-action depth is one'')
        else if hl_press_duration_ns lim = None
        then Inl (Exn UnsupportedInputError ''measured press duration is not configured'')
        else if hl_min_click_interval_ns lim = None
        then Inl (Exn UnsupportedInputError ''measured click-rate limit is not configured'')
        else if hl_cursor_mode lim = ''unsupported''
        then Inl (Exn UnsupportedInputError ''cursor fairness contract is not configured'')
        else if (case (h_last_click_ns s, hl_min_click_interval_ns lim) of
            (Some prev, Some gap) \<Rightarrow> now_ns - prev < gap | _ \<Rightarrow> False)
        then Inl (Exn ActionError ''click-rate limit exceeded'')
        else Inr (parsed, cx, cy))))"

definition validate_cursor_travel ::
  "harness_config \<Rightarrow> cursor_sample option \<Rightarrow> pyfloat \<Rightarrow> pyfloat \<Rightarrow> int \<Rightarrow> unit res" where
  "validate_cursor_travel C cursor x y now_ns =
     (if hl_cursor_mode (hc_limits C) \<noteq> ''bounded_speed'' then Inr ()
      else case cursor of
        None \<Rightarrow> Inl (Exn ActionError ''current cursor is unknown'')
      | Some c \<Rightarrow>
        rbind (int_to_float (max 0 (now_ns - cs_observed_ns c))) (\<lambda>e0.
        rbind (fl_div e0 (Fin 1000000000)) (\<lambda>elapsed.
        rbind (num_sub (NFlt x) (cs_x c)) (\<lambda>dx. rbind (num_sub (NFlt y) (cs_y c)) (\<lambda>dy.
        rbind (num_to_float dx) (\<lambda>dxf. rbind (num_to_float dy) (\<lambda>dyf.
        case hl_max_cursor_speed_per_second (hc_limits C) of
          None \<Rightarrow> Inl (Exn AssertionError [])
        | Some speed \<Rightarrow> rbind (num_mul speed (NFlt elapsed)) (\<lambda>reach.
            rguard (num_lt reach (NFlt (en_hypot (hc_env C) dxf dyf)))
              (Exn ActionError ''cursor-speed limit exceeded'')))))))))"

definition lease_for_button_down :: "harness_config \<Rightarrow> claim_lease \<Rightarrow> (harness, claim_lease) py" where
  "lease_for_button_down C lease = (case hl_press_duration_ns (hc_limits C) of
     None \<Rightarrow> praise (Exn UnsupportedInputError ''measured press duration is not configured'')
   | Some press \<Rightarrow>
     let required = press + 2 * hl_lease_cleanup_margin_ns (hc_limits C) in
     pbind (hclock C) (\<lambda>t.
     if required < cl_expires_ns lease - t then pret lease else
     pbind (hcall (CRenew (hc_identity C) (cl_token lease) (hl_lease_seconds (hc_limits C)))
       (en_renew (hc_env C))) (\<lambda>renewed.
     pbind (hclock C) (\<lambda>returned_ns.
     pbind (plift (validate_lease C renewed returned_ns (Some lease))) (\<lambda>l.
     pbind (pguard (cl_expires_ns l - returned_ns \<le> required)
       (Exn WindowIdentityError ''renewed claim lacks button-up cleanup headroom'')) (\<lambda>_.
     pbind (pmod (\<lambda>s. s\<lparr>h_lease := Some l\<rparr>)) (\<lambda>_. pret l)))))))"

text \<open>The local variables of \<open>_fire\<close> that its \<open>except\<close> clause records.\<close>

record fire_locals =
  fl_window_x :: pyval
  fl_window_y :: pyval
  fl_down :: "input_ack obj option"
  fl_up :: "input_ack obj option"
  fl_release_deadline_ns :: "int option"

definition no_locals :: fire_locals where
  "no_locals = \<lparr>fl_window_x = PyNone, fl_window_y = PyNone, fl_down = None, fl_up = None,
     fl_release_deadline_ns = None\<rparr>"

text \<open>First part: session, frame, geometry, cursor and lease checks before any input.  The
  result is the observation time, the window point and the lease to press under.\<close>

definition fire_prepare ::
  "harness_config \<Rightarrow> claim_lease \<Rightarrow> pyfloat \<Rightarrow> pyfloat \<Rightarrow> int \<Rightarrow>
     (harness \<times> fire_locals, int \<times> pyfloat \<times> pyfloat \<times> claim_lease) py" where
  "fire_prepare C lease client_x client_y now_ns =
     pbind (pzoom (hcall CSafety (en_safety (hc_env C)))) (\<lambda>safety.
     pbind (pguard (\<not> safety_ready safety)
       (Exn SafetyError (safety_detail safety ''current session became unsafe''))) (\<lambda>_.
     pbind (pzoom (pget h_buffer)) (\<lambda>buf.
     pbind (case fb_latest buf of
         None \<Rightarrow> praise (Exn FrameError ''no current usable capture'')
       | Some f \<Rightarrow> if frame_usable f then pret f
           else if NON_GAMEPLAY \<in> fr_flags f
           then praise (Exn ActionError ''latest screen is not confidently classified as gameplay'')
           else praise (Exn FrameError ''no current usable capture'')) (\<lambda>frame.
     pbind (pguard (cl_expires_ns lease \<le> now_ns)
       (Exn WindowIdentityError ''window claim expired'')) (\<lambda>_.
     let observed_ns = packet_observed_ns (fr_capture frame) in
     pbind (pguard (hl_stale_after_ns (hc_limits C) < now_ns - observed_ns)
       (Exn FrameError ''latest capture became stale before input'')) (\<lambda>_.
     pbind (plift (validate_geometry C (fr_geometry frame) (fr_capture frame))) (\<lambda>_.
     pbind (pzoom (hcall (CClientToWindow client_x client_y (fr_geometry frame))
       (en_client_to_window (hc_env C)))) (\<lambda>(rx, ry).
     pbind (plocal (\<lambda>l. l\<lparr>fl_window_x := rx, fl_window_y := ry\<rparr>)) (\<lambda>_.
     pbind (plift (validate_window_point buf rx ry)) (\<lambda>(wx, wy).
     pbind (plocal (\<lambda>l. l\<lparr>fl_window_x := PyFloat wx, fl_window_y := PyFloat wy\<rparr>)) (\<lambda>_.
     pbind (pzoom (pget h_cursor)) (\<lambda>cursor.
     pbind (plift (validate_cursor_travel C cursor wx wy now_ns)) (\<lambda>_.
     pbind (pzoom (lease_for_button_down C lease)) (\<lambda>lease2.
     pbind (pzoom (verify_runtime_if_configured C)) (\<lambda>_.
     pbind (pzoom (pwhen (hc_has_guard C) (verify_input_environment_unchanged C))) (\<lambda>_.
     pbind (pzoom (hcall CSafety (en_safety (hc_env C)))) (\<lambda>safety2.
     pbind (pguard (\<not> safety_ready safety2) (Exn SafetyError
       (safety_detail safety2 ''current session became unsafe before button-down''))) (\<lambda>_.
     pret (observed_ns, wx, wy, lease2)))))))))))))))))))"

text \<open>Second part: the button goes down.\<close>

definition fire_down ::
  "harness_config \<Rightarrow> shot_kind \<Rightarrow> int \<Rightarrow> int \<Rightarrow> pyfloat \<Rightarrow> pyfloat \<Rightarrow> claim_lease \<Rightarrow>
     (harness \<times> fire_locals, input_ack \<times> int) py" where
  "fire_down C parsed press observed_ns wx wy lease =
     (let lim = hc_limits C in
     pbind (pzoom (hclock C)) (\<lambda>down_request.
     let latest = min (observed_ns + hl_stale_after_ns lim)
                      (down_request + hl_lease_cleanup_margin_ns lim) in
     pbind (pguard (latest \<le> down_request)
       (Exn FrameError ''latest capture became stale before button-down'')) (\<lambda>_.
     pbind (plift (ensure_lease_live lease down_request ''button-down request'')) (\<lambda>_.
     let deadline = latest + press + hl_lease_cleanup_margin_ns lim in
     pbind (plocal (\<lambda>l. l\<lparr>fl_release_deadline_ns := Some deadline\<rparr>)) (\<lambda>_.
     pbind (pguard (cl_expires_ns lease \<le> deadline)
       (Exn WindowIdentityError ''claim lacks broker release-deadline headroom'')) (\<lambda>_.
     pbind (pzoom (hcall (CButtonDown (hc_identity C) (cl_token lease) (shot_button parsed)
         wx wy deadline latest) (en_button_down (hc_env C)))) (\<lambda>down.
     pbind (plocal (\<lambda>l. l\<lparr>fl_down := Some down\<rparr>)) (\<lambda>_.
     pbind (pzoom (validate_ack C down_request down ''button-down'' lease (shot_button parsed)
         ''down'' (Some deadline) (Some latest))) (\<lambda>down_return_ns.
     pbind (pzoom (pmod (\<lambda>s. s\<lparr>h_buttons_neutral := False\<rparr>))) (\<lambda>_.
     pbind (pguard (deadline \<le> down_return_ns)
       (Exn ActionError ''button-down returned after its automatic release deadline'')) (\<lambda>_.
     pbind (plift (ensure_lease_live lease down_return_ns ''button-down'')) (\<lambda>_.
     case down of
       Alien \<Rightarrow> praise (Exn AssertionError [])
     | Obj d \<Rightarrow>
       pbind (pguard (cl_expires_ns lease - ak_acknowledged_ns d
                        \<le> press + hl_lease_cleanup_margin_ns lim)
         (Exn WindowIdentityError ''button-down acknowledgment consumed lease cleanup headroom''))
       (\<lambda>_. pret (d, deadline))))))))))))))"

text \<open>Third part: wait out the press and release the button.\<close>

definition fire_up ::
  "harness_config \<Rightarrow> shot_kind \<Rightarrow> int \<Rightarrow> pyfloat \<Rightarrow> pyfloat \<Rightarrow> claim_lease \<Rightarrow>
     input_ack \<Rightarrow> int \<Rightarrow> (harness \<times> fire_locals, input_ack obj \<times> int) py" where
  "fire_up C parsed press wx wy lease d deadline =
     pbind (pzoom (hclock C)) (\<lambda>t.
     let remaining = ak_injected_ns d + press - t in
     pbind (pwhen (0 < remaining) (pzoom (hcall (CSleep remaining) (en_sleep (hc_env C))))) (\<lambda>_.
     pbind (pzoom (hclock C)) (\<lambda>up_request.
     pbind (pguard (deadline \<le> up_request)
       (Exn ActionError ''automatic release deadline elapsed before button-up'')) (\<lambda>_.
     pbind (pzoom (hcall (CButtonUp (hc_identity C) (cl_token lease) (shot_button parsed) wx wy)
       (en_button_up (hc_env C)))) (\<lambda>up.
     pbind (plocal (\<lambda>l. l\<lparr>fl_up := Some up\<rparr>)) (\<lambda>_.
     pbind (pzoom (validate_ack C up_request up ''button-up'' lease (shot_button parsed) ''up''
       (Some deadline) None)) (\<lambda>up_return_ns.
     pret (up, up_return_ns))))))))"

text \<open>Fourth part: re-attest, check the timing of the press, and record the executed shot.\<close>

definition fire_finish ::
  "harness_config \<Rightarrow> proposed_action \<Rightarrow> int \<Rightarrow> pyfloat \<Rightarrow> pyfloat \<Rightarrow> claim_lease \<Rightarrow>
     input_ack \<Rightarrow> int \<Rightarrow> input_ack obj \<Rightarrow> int \<Rightarrow> (harness \<times> fire_locals, executed_action) py" where
  "fire_finish C proposed press wx wy lease d deadline up up_return_ns =
     (let lim = hc_limits C in
     pbind (pzoom (verify_runtime_if_configured C)) (\<lambda>_.
     pbind (pzoom (pwhen (hc_has_guard C) (verify_input_environment_unchanged C))) (\<lambda>_.
     case up of
       Alien \<Rightarrow> praise (Exn AssertionError [])
     | Obj u \<Rightarrow>
       pbind (pguard (deadline \<le> ak_acknowledged_ns u \<or> deadline \<le> up_return_ns)
         (Exn ActionError ''button-up returned after its automatic release deadline'')) (\<lambda>_.
       pbind (plift (ensure_lease_live lease up_return_ns ''button-up'')) (\<lambda>_.
       pbind (pguard (hl_max_press_duration_error_ns lim
                        < \<bar>ak_injected_ns u - ak_injected_ns d - press\<bar>)
         (Exn ActionError ''observed press duration exceeds the configured timing error'')) (\<lambda>_.
       pbind (pzoom (pmod (\<lambda>s. s\<lparr>h_buttons_neutral := True\<rparr>))) (\<lambda>_.
       pbind (pguard (up_return_ns < ak_acknowledged_ns u)
         (Exn ActionError ''action completion predates button-up acknowledgment'')) (\<lambda>_.
       let result = \<lparr>ea_proposed = proposed, ea_status = EXECUTED, ea_window_x = PyFloat wx,
         ea_window_y = PyFloat wy, ea_down = Some (Obj d), ea_up = Some (Obj u),
         ea_completed_ns = Some up_return_ns, ea_detail = [], ea_effect_status = PENDING,
         ea_first_visible_ns = None, ea_effect_frame_sequence = None, ea_effect_detail = [],
         ea_release_deadline_ns = Some deadline\<rparr> in
       pbind (pzoom (pmod (\<lambda>s. s\<lparr>h_executed := h_executed s @ [result],
         h_last_click_ns := Some (ak_acknowledged_ns u),
         h_cursor := Some \<lparr>cs_x = NFlt wx, cs_y = NFlt wy, cs_observed_ns = ak_acknowledged_ns u\<rparr>\<rparr>)))
       (\<lambda>_. pret result)))))))))"

definition fire_body ::
  "harness_config \<Rightarrow> shot_kind \<Rightarrow> proposed_action \<Rightarrow> pyfloat \<Rightarrow> pyfloat \<Rightarrow> claim_lease \<Rightarrow> int \<Rightarrow>
     (harness \<times> fire_locals, executed_action) py" where
  "fire_body C parsed proposed client_x client_y lease now_ns =
     pbind (fire_prepare C lease client_x client_y now_ns) (\<lambda>(observed_ns, wx, wy, lease2).
     case hl_press_duration_ns (hc_limits C) of
       None \<Rightarrow> praise (Exn AssertionError [])
     | Some press \<Rightarrow>
       pbind (fire_down C parsed press observed_ns wx wy lease2) (\<lambda>(d, deadline).
       pbind (fire_up C parsed press wx wy lease2 d deadline) (\<lambda>(up, up_return_ns).
       fire_finish C proposed press wx wy lease2 d deadline up up_return_ns)))"

definition refused_action ::
  "proposed_action \<Rightarrow> execution_status \<Rightarrow> fire_locals \<Rightarrow> int option \<Rightarrow> exn \<Rightarrow> executed_action" where
  "refused_action proposed status l completed e = \<lparr>ea_proposed = proposed, ea_status = status,
     ea_window_x = fl_window_x l, ea_window_y = fl_window_y l, ea_down = fl_down l,
     ea_up = fl_up l, ea_completed_ns = completed, ea_detail = exn_text e,
     ea_effect_status = PENDING, ea_first_visible_ns = None, ea_effect_frame_sequence = None,
     ea_effect_detail = [], ea_release_deadline_ns = fl_release_deadline_ns l\<rparr>"

definition append_executed :: "executed_action \<Rightarrow> (harness, unit) py" where
  "append_executed a = pmod (\<lambda>s. s\<lparr>h_executed := h_executed s @ [a]\<rparr>)"

text \<open>The \<open>try\<close> of \<open>_fire\<close>: a frame of locals around the body, the \<open>except\<close> clause that
  records the failure and aborts, and the \<open>finally\<close> that clears the pending flag.\<close>

definition fire_try ::
  "harness_config \<Rightarrow> shot_kind \<Rightarrow> proposed_action \<Rightarrow> pyfloat \<Rightarrow> pyfloat \<Rightarrow> claim_lease \<Rightarrow> int \<Rightarrow>
     (harness, executed_action) py" where
  "fire_try C parsed proposed client_x client_y lease now_ns = pfinally
     (pframe no_locals (fire_body C parsed proposed client_x client_y lease now_ns)
       (\<lambda>l e. pbind (hclock C) (\<lambda>completed.
         pbind (append_executed (refused_action proposed FAILED l (Some completed) e)) (\<lambda>_.
         abort C e))))
     (pmod (\<lambda>s. s\<lparr>h_pending := False\<rparr>))"

definition audit_kind :: "pyval \<Rightarrow> string" where
  "audit_kind k = (case plain_str k of Some s \<Rightarrow> s | None \<Rightarrow> ''<invalid '' @ type_name k @ ''>'')"

definition fire :: "harness_config \<Rightarrow> pyval \<Rightarrow> pyval \<Rightarrow> pyval \<Rightarrow> (harness, executed_action) py" where
  "fire C kind x y =
     pbind require_active (\<lambda>lease.
     pbind (hclock C) (\<lambda>now_ns.
     pbind (pmod (\<lambda>s. s\<lparr>h_action_sequence := h_action_sequence s + 1\<rparr>)) (\<lambda>_.
     pbind (pget (\<lambda>s. (h_action_sequence s, validate_action C s kind x y now_ns))) (\<lambda>(seq, checked).
     case checked of
       Inl e \<Rightarrow>
         let proposed = \<lparr>pa_sequence = seq, pa_kind = audit_kind kind, pa_client_x = audit_number x,
               pa_client_y = audit_number y, pa_requested_ns = now_ns\<rparr> in
         pbind (pmod (\<lambda>s. s\<lparr>h_proposed := h_proposed s @ [proposed]\<rparr>)) (\<lambda>_.
         pbind (append_executed (refused_action proposed REJECTED no_locals None e)) (\<lambda>_.
         abort C e))
     | Inr (parsed, client_x, client_y) \<Rightarrow>
         let proposed = \<lparr>pa_sequence = seq, pa_kind = shot_value parsed,
               pa_client_x = AudNum client_x, pa_client_y = AudNum client_y,
               pa_requested_ns = now_ns\<rparr> in
         pbind (pmod (\<lambda>s. s\<lparr>h_proposed := h_proposed s @ [proposed]\<rparr>)) (\<lambda>_.
         pbind (pget h_capabilities) (\<lambda>caps.
         if \<not> (case caps of None \<Rightarrow> False | Some c \<Rightarrow> supports_safe_shots c) then
           let e = Exn UnsupportedInputError
             (''provider lacks explicit down/up/release-all, broker release '' @
              ''deadlines, or claim-end neutralization; atomic click is unsupported'') in
           pbind (append_executed (refused_action proposed REJECTED no_locals None e)) (\<lambda>_.
           abort C e)
         else
           pbind (pmod (\<lambda>s. s\<lparr>h_pending := True\<rparr>)) (\<lambda>_.
           fire_try C parsed proposed client_x client_y lease now_ns)))))))"

section \<open>Resolving the effect of a shot\<close>

definition parse_effect :: "pyval \<Rightarrow> effect_status option" where
  "parse_effect v = (if v = PyStr ''pending'' then Some PENDING
     else if v = PyStr ''confirmed'' then Some CONFIRMED
     else if v = PyStr ''missed'' then Some MISSED
     else if v = PyStr ''ambiguous'' then Some AMBIGUOUS else None)"

fun find_action :: "int \<Rightarrow> executed_action list \<Rightarrow> nat option" where
  "find_action n [] = None"
| "find_action n (a # as) =
     (if pa_sequence (ea_proposed a) = n then Some 0 else map_option Suc (find_action n as))"

text \<open>The part of \<open>_record_action_effect\<close> that reads the object: the index of the action and
  the frame it refers to.\<close>

definition effect_target ::
  "harness \<Rightarrow> pyval \<Rightarrow> pyval \<Rightarrow> pyval \<Rightarrow> pyval \<Rightarrow> pyval \<Rightarrow>
     (effect_status \<times> nat \<times> executed_action \<times> input_ack \<times> frame_record) res" where
  "effect_target s action_sequence status frame_sequence first_visible detail =
     (if \<not> positive_plain_int action_sequence
      then Inl (Exn ActionError ''action sequence must be a positive integer'')
      else case parse_effect status of
        None \<Rightarrow> Inl (Exn ActionError ''unknown action-effect status'')
      | Some parsed \<Rightarrow>
        if parsed = PENDING
        then Inl (Exn ActionError ''effect resolution cannot remain pending'')
        else if frame_sequence \<noteq> PyNone \<and> \<not> positive_plain_int frame_sequence
        then Inl (Exn ActionError ''effect frame sequence must be a positive integer'')
        else if first_visible \<noteq> PyNone \<and> \<not> nonneg_plain_int first_visible
        then Inl (Exn ActionError ''first-visible timestamp must be a nonnegative integer'')
        else if plain_str detail = None
        then Inl (Exn ActionError ''effect detail must be text'')
        else case find_action (int_of action_sequence) (h_executed s) of
          None \<Rightarrow> Inl (Exn ActionError ''unknown action sequence'')
        | Some i \<Rightarrow>
          let a = h_executed s ! i in
          case ea_up a of
            Some (Obj u) \<Rightarrow>
              if ea_status a \<noteq> EXECUTED
              then Inl (Exn ActionError ''only an executed released shot can have an effect'')
              else if ea_effect_status a \<noteq> PENDING
              then Inl (Exn ActionError ''action effect was already resolved'')
              else if frame_sequence = PyNone
              then Inl (Exn ActionError ''terminal effect status requires a later captured frame'')
              else (case find (\<lambda>f. fr_sequence f = int_of frame_sequence) (fb_frames (h_buffer s)) of
                  None \<Rightarrow> Inl (Exn ActionError ''effect frame is not in the bounded frame buffer'')
                | Some f \<Rightarrow> Inr (parsed, i, a, u, f))
          | _ \<Rightarrow> Inl (Exn ActionError ''only an executed released shot can have an effect''))"

definition effect_visible ::
  "effect_status \<Rightarrow> frame_record \<Rightarrow> pyval \<Rightarrow> int option res" where
  "effect_visible parsed f first_visible =
     (let observed_ns = packet_observed_ns (fr_capture f) in
      if parsed = CONFIRMED then
        (if \<not> frame_usable f
         then Inl (Exn ActionError ''confirmed effect requires a usable gameplay frame'')
         else if first_visible \<noteq> PyNone \<and> int_of first_visible \<noteq> observed_ns
         then Inl (Exn ActionError ''first-visible timestamp does not match its captured frame'')
         else Inr (Some observed_ns))
      else if parsed = MISSED then
        (if first_visible \<noteq> PyNone
         then Inl (Exn ActionError ''missed effect cannot have a first-visible timestamp'')
         else Inr None)
      else if first_visible \<noteq> PyNone then
        (if int_of first_visible \<noteq> observed_ns
         then Inl (Exn ActionError ''first-visible timestamp does not match its captured frame'')
         else Inr (Some observed_ns))
      else Inr None)"

definition record_action_effect ::
  "harness_config \<Rightarrow> pyval \<Rightarrow> pyval \<Rightarrow> pyval \<Rightarrow> pyval \<Rightarrow> pyval \<Rightarrow> (harness, executed_action) py" where
  "record_action_effect C action_sequence status frame_sequence first_visible detail =
     pbind require_active (\<lambda>_. pcatch
       (pbind (pget (\<lambda>s. effect_target s action_sequence status frame_sequence first_visible detail))
         (\<lambda>target. pbind (plift target) (\<lambda>(parsed, i, a, u, f).
       pbind (pguard (packet_observed_ns (fr_capture f) < ak_acknowledged_ns u)
         (Exn ActionError ''effect observation predates button release'')) (\<lambda>_.
       pbind (hclock C) (\<lambda>now_ns.
       pbind (pguard (now_ns < packet_observed_ns (fr_capture f))
         (Exn ActionError ''effect observation is in the future'')) (\<lambda>_.
       pbind (plift (effect_visible parsed f first_visible)) (\<lambda>visible.
       let updated = a\<lparr>ea_effect_status := parsed, ea_first_visible_ns := visible,
             ea_effect_frame_sequence := Some (int_of frame_sequence),
             ea_effect_detail := str_of detail\<rparr> in
       pbind (pmod (\<lambda>s. s\<lparr>h_executed := (h_executed s)[i := updated]\<rparr>)) (\<lambda>_. pret updated))))))))
       (abort C))"

end
