(* ===== verification/Harness_Safety.thy ===== *)
theory Harness_Safety
  imports Harness_Ops
begin

text \<open>
  The harness fails closed.  \<open>ended\<close> is what \<open>_cleanup\<close> does to any state, \<open>live\<close> a harness
  that holds a claim, \<open>shut\<close> one that has given it back after releasing the buttons.  Every
  handler that runs under \<open>except Exception: self._abort\<close> goes from \<open>live\<close> to \<open>live\<close> or to
  \<open>shut\<close>.  The last part keeps \<open>lease_inv\<close>: a stopped harness holds no lease.
\<close>

section \<open>Cleanup\<close>

definition books where
  "books s = (h_executed s, h_proposed s, h_action_sequence s, h_pending s, h_buffer s,
     h_frame_sequence s, h_duplicate_run s, h_dropped_frames s, h_last_click_ns s,
     h_capabilities s, h_target s, h_cursor s)"

definition closing_log :: "harness_config \<Rightarrow> claim_lease \<Rightarrow> hcall list \<Rightarrow> hcall list \<Rightarrow> bool" where
  "closing_log C l old new \<longleftrightarrow> (\<exists>m. set m \<subseteq> {CClock} \<and>
     new = CReleaseClaim (hc_identity C) (cl_token l) # m @
           CReleaseAll (hc_identity C) (cl_token l) # CClock # old)"

lemma closing_logI [simp]:
  "closing_log C l old (CReleaseClaim (hc_identity C) (cl_token l) #
      CReleaseAll (hc_identity C) (cl_token l) # CClock # old)"
  "closing_log C l old (CReleaseClaim (hc_identity C) (cl_token l) # CClock #
      CReleaseAll (hc_identity C) (cl_token l) # CClock # old)"
  by (auto simp: closing_log_def intro: exI [of _ "[]"] exI [of _ "[CClock]"])

definition ended :: "harness_config \<Rightarrow> harness \<Rightarrow> harness \<Rightarrow> bool" where
  "ended C s t \<longleftrightarrow> h_stopped t \<and> h_lease t = None \<and> books t = books s \<and>
     (case h_lease s of None \<Rightarrow> h_log t = h_log s
      | Some l \<Rightarrow> closing_log C l (h_log s) (h_log t))"

lemma cleanup_buttons_wp:
  "wp (cleanup_buttons C l)
     (\<lambda>_ t. books t = books s \<and> h_stopped t = h_stopped s \<and> (\<exists>m. set m \<subseteq> {CClock} \<and>
         h_log t = m @ CReleaseAll (hc_identity C) (cl_token l) # CClock # h_log s) \<and>
         (h_buttons_neutral t \<or> h_cleanup_errors t \<noteq> []))
     (\<lambda>_ t. books t = books s \<and> h_stopped t = h_stopped s \<and> (\<exists>m. set m \<subseteq> {CClock} \<and>
         h_log t = m @ CReleaseAll (hc_identity C) (cl_token l) # CClock # h_log s)) s"
  by (auto simp: cleanup_buttons_def validate_ack_def add_cleanup_error_def wp_simps books_def
    intro: exI [of _ "[]"] exI [of _ "[CClock]"] split: sum.split obj.split option.split)

lemma cleanup_claim_wp:
  "wp (cleanup_claim C l)
     (\<lambda>_ t. books t = books s \<and> h_stopped t = h_stopped s \<and> h_lease t = None \<and>
         h_log t = CReleaseClaim (hc_identity C) (cl_token l) # h_log s \<and>
         (h_buttons_neutral s \<longrightarrow> h_buttons_neutral t) \<and>
         (h_cleanup_errors s \<noteq> [] \<longrightarrow> h_cleanup_errors t \<noteq> []))
     (\<lambda>_ t. books t = books s \<and> h_stopped t = h_stopped s \<and> h_lease t = None \<and>
         h_log t = CReleaseClaim (hc_identity C) (cl_token l) # h_log s) s"
  by (auto simp: cleanup_claim_def add_cleanup_error_def wp_simps books_def
    split: sum.split option.split)

lemma cleanup_wp:
  "wp (cleanup C)
     (\<lambda>_ t. ended C s t \<and> (h_lease s \<noteq> None \<longrightarrow> h_buttons_neutral t \<or> h_cleanup_errors t \<noteq> []))
     (\<lambda>_ t. ended C s t) s"
proof (cases "h_lease s")
  case None
  then show ?thesis by (simp add: cleanup_def wp_simps ended_def books_def)
next
  case (Some l)
  let ?s = "s\<lparr>h_stopped := True\<rparr>"
  show ?thesis
    unfolding cleanup_def wp_simps
    apply (simp add: Some wp_simps)
    apply (rule wp_mono [OF cleanup_buttons_wp [of C l ?s]])
     apply (rule wp_mono [OF cleanup_claim_wp])
      apply (auto simp: ended_def Some books_def closing_log_def)[2]
    apply (rule wp_mono [OF cleanup_claim_wp])
     apply (auto simp: ended_def Some books_def closing_log_def)[2]
    done
qed


lemma add_reason_final: "add_reason e s = (Inr (), if exn_text e \<in> set (h_reasons s) then s
    else s\<lparr>h_reasons := h_reasons s @ [exn_text e]\<rparr>)"
  by (simp add: add_reason_def pmod_def)

lemma abort_wp:
  "wp (abort C e) (\<lambda>_ _. False) (\<lambda>_ t. ended C s t) s"
proof -
  let ?s = "if exn_text e \<in> set (h_reasons s) then s
    else s\<lparr>h_reasons := h_reasons s @ [exn_text e]\<rparr>"
  have e: "ended C ?s t \<longleftrightarrow> ended C s t" for t
    by (simp add: ended_def books_def split: option.split)
  have "wp (cleanup C) (\<lambda>_. ended C s) (\<lambda>_. ended C s) ?s"
    by (rule wp_mono [OF cleanup_wp]) (simp_all only: e)
  then show ?thesis by (simp add: abort_def wp_simps add_reason_def)
qed

text \<open>A live harness: not stopped, holding a claim with the given token; its log extends L.\<close>

definition live :: "claim_token \<Rightarrow> hcall list \<Rightarrow> harness \<Rightarrow> bool" where
  "live tok L s \<longleftrightarrow> \<not> h_stopped s \<and> map_option cl_token (h_lease s) = Some tok \<and>
     (\<exists>pre. h_log s = pre @ L)"

lemma live_log [simp]: "live tok L s \<Longrightarrow> live tok L (s\<lparr>h_log := c # h_log s\<rparr>)"
  by (auto simp: live_def intro: exI [of _ "c # _"])

lemma live_simps [simp]:
  "live tok L (s\<lparr>h_buttons_neutral := b\<rparr>) = live tok L s"
  "live tok L (s\<lparr>h_last_input_operation_id := n\<rparr>) = live tok L s"
  "live tok L (s\<lparr>h_executed := xs\<rparr>) = live tok L s"
  "live tok L (s\<lparr>h_proposed := ps\<rparr>) = live tok L s"
  "live tok L (s\<lparr>h_last_click_ns := k\<rparr>) = live tok L s"
  "live tok L (s\<lparr>h_cursor := u\<rparr>) = live tok L s"
  "live tok L (s\<lparr>h_pending := p\<rparr>) = live tok L s"
  "live tok L (s\<lparr>h_action_sequence := n\<rparr>) = live tok L s"
  "live tok L (s\<lparr>h_frame_sequence := n\<rparr>) = live tok L s"
  "live tok L (s\<lparr>h_buffer := bu\<rparr>) = live tok L s"
  "live tok L (s\<lparr>h_duplicate_run := n\<rparr>) = live tok L s"
  "live tok L (s\<lparr>h_dropped_frames := n\<rparr>) = live tok L s"
  by (simp_all add: live_def)

lemma verify_keeps [keeps_intros]:
  assumes "\<And>c s. I s \<Longrightarrow> I (s\<lparr>h_log := c # h_log s\<rparr>)"
  shows "keeps I (verify_runtime_if_configured C)" "keeps I (verify_input_environment_unchanged C)"
  unfolding verify_runtime_if_configured_def verify_runtime_unchanged_def
    verify_input_environment_unchanged_def verify_target_def
  by (intro keeps_intros assms; assumption)+

lemma validate_ack_keeps [keeps_intros]:
  assumes "\<And>c s. I s \<Longrightarrow> I (s\<lparr>h_log := c # h_log s\<rparr>)"
    "\<And>s n. I s \<Longrightarrow> I (s\<lparr>h_last_input_operation_id := n\<rparr>)"
  shows "keeps I (validate_ack C r ack edge lease b st dl la)"
  unfolding validate_ack_def by (intro keeps_intros assms; assumption)

lemma validate_lease_Inr:
  "validate_lease C x r prev = Inr l \<longleftrightarrow> x = Obj l \<and> cl_identity l = hc_identity C \<and>
     cl_generation l \<noteq> None \<and> cl_broker_instance l \<noteq> None \<and>
     (\<exists>d. cl_target l = Some d \<and> td_identity d = hc_identity C) \<and> r < cl_expires_ns l \<and>
     (\<forall>p. prev = Some p \<longrightarrow> cl_token l = cl_token p \<and> cl_generation l = cl_generation p \<and>
        cl_broker_instance l = cl_broker_instance p \<and> cl_target l = cl_target p \<and>
        cl_expires_ns p < cl_expires_ns l)"
  by (auto simp: validate_lease_def split: obj.splits option.splits if_splits)

lemma lease_for_button_down_wp:
  assumes "live tok L s" "cl_token lease = tok"
  shows "wp (lease_for_button_down C lease)
    (\<lambda>l t. live tok L t \<and> cl_token l = tok) (\<lambda>_ t. live tok L t) s"
proof -
  have k: "live tok L (s\<lparr>h_log := c # h_log s\<rparr>)" for c
    using assms(1) by (auto simp: live_def intro: exI [of _ "c # _"])
  show ?thesis using assms
    by (auto simp: lease_for_button_down_def wp_simps Let_def validate_lease_Inr live_def
             split: option.split sum.split)
qed

lemma lease_for_button_down_live:
  "cl_token lease = tok \<Longrightarrow> keeps (live tok L) (lease_for_button_down C lease)"
  by (rule keeps_from_wp, rule wp_mono [OF lease_for_button_down_wp]) simp_all

lemma fire_prepare_live:
  "cl_token lease = tok \<Longrightarrow> keeps (\<lambda>(s, l). live tok L s) (fire_prepare C lease x y n)"
  unfolding fire_prepare_def by (intro keeps_intros lease_for_button_down_live) simp_all

lemma fire_down_live: "keeps (\<lambda>(s, l). live tok L s) (fire_down C k p obs wx wy lease)"
  unfolding fire_down_def by (intro keeps_intros) simp_all

lemma fire_up_live: "keeps (\<lambda>(s, l). live tok L s) (fire_up C k p wx wy lease d dl)"
  unfolding fire_up_def by (intro keeps_intros) simp_all

lemma fire_finish_live:
  "keeps (\<lambda>(s, l). live tok L s) (fire_finish C pr p wx wy lease d dl up r)"
  unfolding fire_finish_def by (intro keeps_intros) simp_all

lemma fire_body_live:
  "cl_token lease = tok \<Longrightarrow> keeps (\<lambda>(s, l). live tok L s) (fire_body C k pr x y lease n)"
  unfolding fire_body_def by (intro keeps_intros fire_prepare_live fire_down_live fire_up_live
    fire_finish_live)

lemma store_frame_live: "keeps (live tok L) (store_frame C p g sc fl d)"
  unfolding store_frame_def by (intro keeps_intros) simp_all

lemma capture_body_live: "keeps (live tok L) (capture_body C lease)"
  unfolding capture_body_def by (intro keeps_intros store_frame_live) simp_all

definition shut :: "harness_config \<Rightarrow> claim_token \<Rightarrow> hcall list \<Rightarrow> harness \<Rightarrow> bool" where
  "shut C tok L t \<longleftrightarrow> h_stopped t \<and> h_lease t = None \<and>
     (\<exists>pre m. set m \<subseteq> {CClock} \<and> h_log t = CReleaseClaim (hc_identity C) tok # m @
        CReleaseAll (hc_identity C) tok # CClock # pre @ L)"

lemma live_ended: "live tok L s \<Longrightarrow> ended C s t \<Longrightarrow> shut C tok L t"
  by (force simp: live_def ended_def shut_def closing_log_def)

lemma abort_shut:
  "live tok L s \<Longrightarrow> (\<And>e t. shut C tok L t \<Longrightarrow> E e t) \<Longrightarrow> wp (abort C e) Q E s"
  by (rule wp_mono [OF abort_wp]) (auto intro: live_ended)

lemma catch_abort_shut:
  assumes "keeps (live tok L) m" "live tok L s"
  shows "wp (pcatch m (abort C)) (\<lambda>_. live tok L) (\<lambda>e t. is_exception e \<longrightarrow> shut C tok L t) s"
  unfolding wp_pcatch
  by (rule wp_mono [OF keeps_wp [OF assms]]) (auto intro: abort_shut [where tok = tok and L = L])

lemma require_active_keeps [keeps_intros]: "keeps I require_active"
  unfolding require_active_def by (intro keeps_intros)

lemma require_active_wp [wp_simps]:
  "wp require_active Q E = (\<lambda>s. case h_lease s of
     Some l \<Rightarrow> if h_stopped s then E (Exn HarnessError ''harness is not active'') s else Q l s
   | None \<Rightarrow> E (Exn HarnessError ''harness is not active'') s)"
  by (rule ext) (auto simp: require_active_def wp_simps split: option.split)

lemma shut_pending [simp]: "shut C tok L (t\<lparr>h_pending := p\<rparr>) = shut C tok L t"
  by (simp add: shut_def)

lemma fire_try_shut:
  assumes "live tok L s" "cl_token lease = tok"
  shows "wp (fire_try C k pr x y lease n) (\<lambda>_. live tok L) (\<lambda>e t. is_exception e \<longrightarrow> shut C tok L t) s"
  unfolding fire_try_def wp_simps
  by (rule wp_mono [OF keeps_wp [OF fire_body_live [OF assms(2)]]])
    (auto simp: assms(1) append_executed_def wp_simps intro: abort_shut [where tok = tok and L = L])


lemma live_lease: "live tok L s \<Longrightarrow> \<exists>l. h_lease s = Some l \<and> cl_token l = tok \<and> \<not> h_stopped s"
  by (auto simp: live_def)

lemma fire_shut:
  assumes "live tok L s"
  shows "wp (fire C k x y) (\<lambda>_. live tok L) (\<lambda>e t. is_exception e \<longrightarrow> shut C tok L t) s"
proof -
  obtain l where l: "h_lease s = Some l" "cl_token l = tok" "\<not> h_stopped s"
    using live_lease [OF assms] by blast
  show ?thesis
    using l(2) assms
    by (auto simp: fire_def wp_simps l append_executed_def Let_def split: option.split sum.split
        intro!: abort_shut [where tok = tok and L = L] fire_try_shut)
qed

section \<open>A stopped harness holds no lease\<close>

definition lease_inv :: "harness \<Rightarrow> bool" where
  "lease_inv s \<longleftrightarrow> (h_stopped s \<longrightarrow> h_lease s = None)"

lemma cleanup_lease_inv: "wp (cleanup C) (\<lambda>_. lease_inv) (\<lambda>_. lease_inv) s"
  by (rule wp_mono [OF cleanup_wp]) (simp_all add: ended_def lease_inv_def)

lemma abort_lease_inv: "(\<And>t. lease_inv t \<Longrightarrow> E e t) \<Longrightarrow> wp (abort C e') Q (\<lambda>_. lease_inv) s"
  by (rule wp_mono [OF abort_wp]) (simp_all add: ended_def lease_inv_def)

lemma catch_abort_lease_inv:
  assumes "keeps (\<lambda>s. \<not> h_stopped s) m" "\<not> h_stopped s"
  shows "wp (pcatch m (abort C)) (\<lambda>_ t. \<not> h_stopped t) (\<lambda>_. lease_inv) s"
  unfolding wp_pcatch
  by (rule wp_mono [OF keeps_wp [OF assms]])
    (auto intro: wp_mono [OF abort_wp] simp: ended_def lease_inv_def)

lemma active_then_lease_inv:
  assumes "lease_inv s"
    and "\<And>l. h_lease s = Some l \<Longrightarrow> \<not> h_stopped s \<Longrightarrow> wp (m l) (\<lambda>_. lease_inv) (\<lambda>_. lease_inv) s"
  shows "wp (pbind require_active m) (\<lambda>_. lease_inv) (\<lambda>_. lease_inv) s"
  using assms by (auto simp: wp_simps split: option.split)

lemma capture_body_running: "keeps (\<lambda>s. \<not> h_stopped s) (capture_body C lease)"
  unfolding capture_body_def store_frame_def by (intro keeps_intros) simp_all

lemma capture_running:
  assumes "\<not> h_stopped s"
  shows "wp (capture C) (\<lambda>_ t. \<not> h_stopped t) (\<lambda>_. lease_inv) s"
  using assms catch_abort_lease_inv [OF capture_body_running assms]
  by (auto simp: capture_def wp_pbind require_active_wp lease_inv_def split: option.split)

lemma capture_lease_inv: "lease_inv s \<Longrightarrow> wp (capture C) (\<lambda>_. lease_inv) (\<lambda>_. lease_inv) s"
  unfolding capture_def
  by (rule active_then_lease_inv, assumption,
      rule wp_mono [OF catch_abort_lease_inv [OF capture_body_running]])
    (simp_all add: lease_inv_def)

lemma renew_lease_inv: "lease_inv s \<Longrightarrow> wp (renew C) (\<lambda>_. lease_inv) (\<lambda>_. lease_inv) s"
  unfolding renew_def
  by (rule active_then_lease_inv, assumption, rule wp_mono [OF catch_abort_lease_inv])
    ((intro keeps_intros)?, simp_all add: lease_inv_def)

lemma effect_lease_inv:
  "lease_inv s \<Longrightarrow> wp (record_action_effect C n st fs fv d) (\<lambda>_. lease_inv) (\<lambda>_. lease_inv) s"
  unfolding record_action_effect_def
  by (rule active_then_lease_inv, assumption, rule wp_mono [OF catch_abort_lease_inv])
    ((intro keeps_intros)?, simp_all add: lease_inv_def)

lemma fire_body_running: "keeps (\<lambda>(s, l). \<not> h_stopped s) (fire_body C k pr x y lease n)"
  unfolding fire_body_def fire_down_def fire_up_def fire_finish_def fire_prepare_def
    lease_for_button_down_def
  by (intro keeps_intros) simp_all

lemma fire_lease_inv:
  assumes "lease_inv s"
  shows "wp (fire C k x y) (\<lambda>_. lease_inv) (\<lambda>_. lease_inv) s"
proof -
  have pend: "lease_inv (t\<lparr>h_pending := p\<rparr>) = lease_inv t" for t p by (simp add: lease_inv_def)
  have abort: "wp (abort C e) (\<lambda>_. lease_inv) (\<lambda>_. lease_inv) t" for e t
    by (rule wp_mono [OF abort_wp]) (simp_all add: ended_def lease_inv_def)
  have tried: "wp (fire_try C kk p cx cy lease now) (\<lambda>_. lease_inv) (\<lambda>_. lease_inv) t"
    if "\<not> h_stopped t" for kk p cx cy lease now t
    unfolding fire_try_def wp_simps
    by (rule wp_mono [OF keeps_wp [OF fire_body_running]])
      (use that abort in \<open>auto simp: append_executed_def wp_simps pend, auto simp: lease_inv_def\<close>)
  show ?thesis
    unfolding fire_def
    by (rule active_then_lease_inv [OF assms])
      (auto simp: wp_simps Let_def append_executed_def intro!: abort tried split: sum.split)
qed

lemma release_unexpected_keeps:
  "(\<And>s c. I s \<Longrightarrow> I (s\<lparr>h_log := c # h_log s\<rparr>)) \<Longrightarrow> (\<And>s es. I s \<Longrightarrow> I (s\<lparr>h_cleanup_errors := es\<rparr>)) \<Longrightarrow>
     keeps I (release_unexpected C l)"
  unfolding release_unexpected_def add_cleanup_error_def by (intro keeps_intros) simp_all

lemma observe_cursor_keeps:
  "(\<And>s c. I s \<Longrightarrow> I (s\<lparr>h_log := c # h_log s\<rparr>)) \<Longrightarrow> (\<And>s c. I s \<Longrightarrow> I (s\<lparr>h_cursor := c\<rparr>)) \<Longrightarrow>
     keeps I (observe_cursor C)"
  unfolding observe_cursor_def by (intro keeps_intros) simp_all

lemma running_lease_inv: "\<not> h_stopped s \<Longrightarrow> lease_inv s"
  by (simp add: lease_inv_def)

lemma open_body_lease_inv:
  assumes "\<not> h_stopped s"
  shows "wp (open_body C) (\<lambda>_ t. \<not> h_stopped t) (\<lambda>_. lease_inv) s"
proof -
  have run: "wp (release_unexpected C l) Q (\<lambda>_. lease_inv) t" if "\<not> h_stopped t" for l t Q
    using that by (auto simp: release_unexpected_def add_cleanup_error_def wp_simps lease_inv_def split: sum.split)
  have cursor: "wp (observe_cursor C) (\<lambda>_ t. \<not> h_stopped t) (\<lambda>_. lease_inv) t" if "\<not> h_stopped t" for t
    by (rule wp_mono [OF keeps_wp [OF observe_cursor_keeps [where I = "\<lambda>s. \<not> h_stopped s"]]])
      (use that in \<open>simp_all add: lease_inv_def\<close>)
  have cap: "wp (capture C) (\<lambda>_. wp (observe_cursor C) (\<lambda>_ t. \<not> h_stopped t) (\<lambda>_. lease_inv)) (\<lambda>_. lease_inv) t"
    if "\<not> h_stopped t" for t
    by (rule wp_mono [OF capture_running]) (use that cursor in auto)
  show ?thesis
    using assms unfolding open_body_def
    by (auto simp: wp_simps running_lease_inv intro!: run cap split: sum.split obj.split)
qed

lemma open_lease_inv: "lease_inv s \<Longrightarrow> wp (harness_open C) (\<lambda>_. lease_inv) (\<lambda>_. lease_inv) s"
proof -
  assume s: "lease_inv s"
  have body: "wp (pcatch (open_body C) (\<lambda>e. pbind (add_reason e) (\<lambda>_. pbind (cleanup C) (\<lambda>_. praise e))))
      (\<lambda>_. lease_inv) (\<lambda>_. lease_inv) t" if "\<not> h_stopped t" for t
    unfolding wp_pcatch
    by (rule wp_mono [OF open_body_lease_inv [OF that]])
      (auto simp: add_reason_def wp_simps cleanup_lease_inv running_lease_inv)
  show ?thesis
    using s unfolding harness_open_def
    by (auto simp: wp_simps running_lease_inv body simp del: wp_pcatch split: sum.split)
qed

lemma close_lease_inv: "lease_inv s \<Longrightarrow> wp (harness_close C) (\<lambda>_. lease_inv) (\<lambda>_. lease_inv) s"
  unfolding harness_close_def wp_simps
  by (auto simp: wp_simps intro!: wp_mono [OF cleanup_lease_inv])

lemma exit_lease_inv: "lease_inv s \<Longrightarrow> wp (harness_exit C r) (\<lambda>_. lease_inv) (\<lambda>_. lease_inv) s"
  unfolding harness_exit_def wp_simps
  by (rule wp_mono [OF close_lease_inv]) (auto simp: wp_simps)

end
