(* ===== verification/Harness_Books.thy ===== *)
theory Harness_Books
  imports Harness_Safety "HOL-Library.Sublist"
begin

text \<open>
  The books of the harness: the proposed and executed shots, their numbering, and the bounded
  frame buffer.  \<open>view\<close> is that part of the state; most methods leave it alone.  \<open>fire\<close> adds
  one proposal and at most one row (\<open>fired\<close>, \<open>not_fired\<close>), a shot it reports as executed was
  pressed and released within the broker's deadline (\<open>pressed_ok\<close>), and resolving an effect
  changes one row once (\<open>resolved\<close>).  \<open>harness_inv\<close> holds after every sequence of calls.
\<close>

section \<open>The press\<close>

definition ack_bound :: "harness_config \<Rightarrow> claim_lease \<Rightarrow> string \<Rightarrow> string \<Rightarrow> int \<Rightarrow> input_ack \<Rightarrow> bool" where
  "ack_bound C lease b st dl a \<longleftrightarrow> ak_acknowledged a \<and> ak_identity a = Some (hc_identity C) \<and>
     ak_claim_generation a = cl_generation lease \<and> ak_broker_instance a = cl_broker_instance lease \<and>
     ak_button a = Some b \<and> ak_button_state a = Some st \<and>
     ak_accepted_release_deadline_ns a = Some dl \<and> ak_clock_domain a = Some MONOTONIC_CLOCK_DOMAIN"

lemma fire_down_wp:
  "wp (fire_down C k press obs wx wy lease)
     (\<lambda>(d, dl) (t, l). h_executed t = h_executed s \<and> ack_bound C lease (shot_button k) ''down'' dl d \<and>
        ak_operation_id d = Some (h_last_input_operation_id t) \<and>
        h_last_input_operation_id s < h_last_input_operation_id t \<and>
        ak_injected_ns d + press + hl_lease_cleanup_margin_ns (hc_limits C) \<le> dl \<and>
        ak_injected_ns d \<le> obs + hl_stale_after_ns (hc_limits C) \<and>
        dl < cl_expires_ns lease)
     (\<lambda>_ (t, l). h_executed t = h_executed s) (s, l0)"
  unfolding fire_down_def 
  by (auto simp: Let_def wp_simps validate_ack_def ack_bound_def ensure_lease_live_def
     split: sum.split obj.split option.split)

definition pressed_ok :: "harness_config \<Rightarrow> executed_action \<Rightarrow> bool" where
  "pressed_ok C a \<longleftrightarrow> (\<exists>d u dl fin press i j b.
     ea_down a = Some (Obj d) \<and> ea_up a = Some (Obj u) \<and> ea_release_deadline_ns a = Some dl \<and>
     ea_completed_ns a = Some fin \<and> hl_press_duration_ns (hc_limits C) = Some press \<and>
     ak_operation_id d = Some i \<and> ak_operation_id u = Some j \<and> i < j \<and>
     ak_button d = Some b \<and> ak_button u = Some b \<and>
     ak_button_state d = Some ''down'' \<and> ak_button_state u = Some ''up'' \<and>
     ak_identity d = Some (hc_identity C) \<and> ak_identity u = Some (hc_identity C) \<and>
     ak_claim_generation d = ak_claim_generation u \<and>
     ak_accepted_release_deadline_ns d = Some dl \<and> ak_accepted_release_deadline_ns u = Some dl \<and>
     ak_injected_ns d + press + hl_lease_cleanup_margin_ns (hc_limits C) \<le> dl \<and>
     \<bar>ak_injected_ns u - ak_injected_ns d - press\<bar> \<le> hl_max_press_duration_error_ns (hc_limits C) \<and>
     ak_acknowledged_ns u \<le> fin \<and> fin < dl)"

lemma verify_wp:
  assumes "\<And>t. (\<exists>new. t = s\<lparr>h_log := new @ h_log s\<rparr>) \<Longrightarrow> Q () t"
    "\<And>e t. (\<exists>new. t = s\<lparr>h_log := new @ h_log s\<rparr>) \<Longrightarrow> E e t"
  shows "wp (verify_runtime_if_configured C) Q E s"
    "wp (verify_input_environment_unchanged C) Q E s"
proof -
  have nil: "\<exists>new. s = s\<lparr>h_log := new @ h_log s\<rparr>" by (rule exI [of _ "[]"]) simp
  have one: "\<exists>new. s\<lparr>h_log := c # h_log s\<rparr> = s\<lparr>h_log := new @ h_log s\<rparr>" for c
    by (rule exI [of _ "[c]"]) simp
  have two: "\<exists>new. s\<lparr>h_log := c # d # h_log s\<rparr> = s\<lparr>h_log := new @ h_log s\<rparr>" for c d
    by (rule exI [of _ "[c, d]"]) simp
  show "wp (verify_runtime_if_configured C) Q E s"
    "wp (verify_input_environment_unchanged C) Q E s"
    by (auto simp: verify_runtime_if_configured_def verify_runtime_unchanged_def
      verify_input_environment_unchanged_def verify_target_def wp_simps
      intro!: assms nil one two split: option.split sum.split)
qed

lemma fire_up_wp:
  assumes "ak_operation_id d = Some (h_last_input_operation_id s)"
  shows "wp (fire_up C k press wx wy lease d dl)
     (\<lambda>(up, r) (t, l). h_executed t = h_executed s \<and> (\<exists>u j. up = Obj u \<and> ack_bound C lease (shot_button k) ''up'' dl u \<and>
        ak_operation_id u = Some j \<and> h_last_input_operation_id s < j \<and> ak_acknowledged_ns u \<le> r))
     (\<lambda>_ (t, l). h_executed t = h_executed s) (s, l0)"
  unfolding fire_up_def
  by (auto simp: Let_def wp_simps validate_ack_def ack_bound_def split: sum.split obj.split option.split)

lemma attest_wp:
  assumes "\<And>t. (\<exists>new. t = s\<lparr>h_log := new @ h_log s\<rparr>) \<Longrightarrow> wp f Q E (t, l)"
    "\<And>e t. (\<exists>new. t = s\<lparr>h_log := new @ h_log s\<rparr>) \<Longrightarrow> E e (t, l)"
  shows "wp (pbind (pzoom (verify_runtime_if_configured C)) (\<lambda>_.
     pbind (pzoom (pwhen g (verify_input_environment_unchanged C))) (\<lambda>_. f))) Q E (s, l)"
proof -
  have trans: "\<exists>new. u = s\<lparr>h_log := new @ h_log s\<rparr>"
    if "\<exists>new. t = s\<lparr>h_log := new @ h_log s\<rparr>" "\<exists>new. u = t\<lparr>h_log := new @ h_log t\<rparr>" for t u
    using that by (auto intro: exI [of _ "_ @ _"])
  show ?thesis
    unfolding wp_pbind wp_pzoom wp_pwhen prod.case
    by (rule verify_wp) (auto simp: wp_pzoom wp_pwhen intro: assms trans intro!: verify_wp)
qed

lemma fire_finish_wp:
  assumes "ack_bound C lease b ''down'' dl d" "ack_bound C lease b ''up'' dl u" 
    "ak_operation_id d = Some i" "ak_operation_id u = Some j" "i < j" "ak_acknowledged_ns u \<le> r"
    "hl_press_duration_ns (hc_limits C) = Some press"
    "ak_injected_ns d + press + hl_lease_cleanup_margin_ns (hc_limits C) \<le> dl"
  shows "wp (fire_finish C pr press wx wy lease d dl (Obj u) r)
     (\<lambda>a (t, l). h_executed t = h_executed s @ [a] \<and> ea_proposed a = pr \<and> ea_status a = EXECUTED \<and>
        ea_effect_status a = PENDING \<and> pressed_ok C a \<and> ea_up a = Some (Obj u) \<and>
        h_last_click_ns t = Some (ak_acknowledged_ns u))
     (\<lambda>_ (t, l). h_executed t = h_executed s) (s, l0)"
  unfolding fire_finish_def Let_def obj.case
  by (rule attest_wp) (use assms in
    \<open>auto simp: wp_simps pressed_ok_def ack_bound_def ensure_lease_live_def
          split: sum.split\<close>)

section \<open>Frames and the view\<close>

section \<open>Fields a method leaves alone\<close>

definition view where
  "view s = (h_executed s, h_proposed s, h_action_sequence s, h_pending s, h_buffer s, h_frame_sequence s)"

lemma view_simps [simp]:
  "view (s\<lparr>h_log := l\<rparr>) = view s"
  "view (s\<lparr>h_lease := a\<rparr>) = view s"
  "view (s\<lparr>h_target := tg\<rparr>) = view s"
  "view (s\<lparr>h_stopped := b\<rparr>) = view s"
  "view (s\<lparr>h_reasons := rs\<rparr>) = view s"
  "view (s\<lparr>h_cleanup_errors := rs\<rparr>) = view s"
  "view (s\<lparr>h_capabilities := cp\<rparr>) = view s"
  "view (s\<lparr>h_buttons_neutral := b\<rparr>) = view s"
  "view (s\<lparr>h_last_input_operation_id := n\<rparr>) = view s"
  "view (s\<lparr>h_cursor := u\<rparr>) = view s"
  by (simp_all add: view_def)

lemma cleanup_view: "keeps (\<lambda>s. P (view s)) (cleanup C)"
  unfolding cleanup_def cleanup_buttons_def cleanup_claim_def add_cleanup_error_def
  by (intro keeps_intros) simp_all

lemma add_reason_view: "keeps (\<lambda>s. P (view s)) (add_reason e)"
  unfolding add_reason_def by (intro keeps_intros) simp_all

lemma abort_view: "keeps (\<lambda>s. P (view s)) (abort C e)"
  unfolding abort_def by (intro keeps_intros cleanup_view [where P = P] add_reason_view [where P = P])

lemma close_view: "keeps (\<lambda>s. P (view s)) (harness_close C)"
  unfolding harness_close_def by (intro keeps_intros cleanup_view [where P = P])

lemma exit_view: "keeps (\<lambda>s. P (view s)) (harness_exit C r)"
  unfolding harness_exit_def by (intro keeps_intros close_view [where P = P])

lemma renew_view: "keeps (\<lambda>s. P (view s)) (renew C)"
  unfolding renew_def by (intro keeps_intros abort_view [where P = P]) simp_all

lemma lease_for_button_down_view: "keeps (\<lambda>s. P (view s)) (lease_for_button_down C l)"
  unfolding lease_for_button_down_def by (intro keeps_intros) simp_all

lemma fire_prepare_view: "keeps (\<lambda>(s, l). P (view s)) (fire_prepare C lease x y n)"
  unfolding fire_prepare_def by (intro keeps_intros lease_for_button_down_view [where P = P]) simp_all

lemma fire_down_view: "keeps (\<lambda>(s, l). P (view s)) (fire_down C k p obs wx wy lease)"
  unfolding fire_down_def by (intro keeps_intros) simp_all

lemma fire_up_view: "keeps (\<lambda>(s, l). P (view s)) (fire_up C k p wx wy lease d dl)"
  unfolding fire_up_def by (intro keeps_intros) simp_all

definition frame_inv :: "harness \<Rightarrow> bool" where
  "frame_inv s \<longleftrightarrow> (let b = h_buffer s; n = int (length (fb_frames b)) in
     0 < fb_maxlen b \<and> length (fb_frames b) \<le> fb_maxlen b \<and> n \<le> h_frame_sequence s \<and>
     map fr_sequence (fb_frames b) = [h_frame_sequence s - n + 1 .. h_frame_sequence s])"

lemma upto_snoc: "a \<le> b + 1 \<Longrightarrow> [a .. b] @ [b + 1] = [a .. b + (1::int)]"
  by (simp add: upto_rec2)

lemma drop_upto: "drop n [a .. b] = [a + int n .. b :: int]"
  by (rule nth_equalityI) (auto simp: nth_upto algebra_simps)

lemma fb_append_frames:
  "fb_frames (snd (fb_append b f)) = drop (Suc (length (fb_frames b)) - fb_maxlen b) (fb_frames b @ [f])"
  "fb_maxlen (snd (fb_append b f)) = fb_maxlen b"
  by (simp_all add: fb_append_def Let_def)

lemma frame_inv_append:
  assumes "frame_inv s" "fr_sequence f = h_frame_sequence s + 1"
  shows "frame_inv (s\<lparr>h_frame_sequence := h_frame_sequence s + 1, h_buffer := snd (fb_append (h_buffer s) f)\<rparr>)"
proof -
  let ?b = "h_buffer s" and ?m = "h_frame_sequence s"
  let ?n = "length (fb_frames ?b)" and ?k = "Suc (length (fb_frames (h_buffer s))) - fb_maxlen (h_buffer s)"
  have b: "0 < fb_maxlen ?b" "?n \<le> fb_maxlen ?b" "int ?n \<le> ?m"
    "map fr_sequence (fb_frames ?b) = [?m - int ?n + 1 .. ?m]"
    using assms(1) by (simp_all add: frame_inv_def Let_def)
  have "map fr_sequence (fb_frames ?b @ [f]) = [?m - int ?n + 1 .. ?m + 1]"
    using b assms(2) upto_snoc [of "?m - int ?n + 1" ?m] by simp
  then have seq: "map fr_sequence (drop ?k (fb_frames ?b @ [f])) = [?m - int ?n + 1 + int ?k .. ?m + 1]"
    by (simp only: drop_map [symmetric] drop_upto)
  have len: "length (drop ?k (fb_frames ?b @ [f])) = Suc ?n - ?k" by simp
  show ?thesis
    unfolding frame_inv_def Let_def
    using b seq by (auto simp: fb_append_frames of_nat_diff algebra_simps)
qed

lemma store_frame_inv: "keeps frame_inv (store_frame C p g sc fl d)"
proof (rule keeps_from_wp)
  fix s assume s: "frame_inv s"
  have log: "frame_inv (t\<lparr>h_log := l\<rparr>) = frame_inv t" "frame_inv (t\<lparr>h_duplicate_run := n\<rparr>) = frame_inv t"
     "frame_inv (t\<lparr>h_dropped_frames := m\<rparr>) = frame_inv t" for t l n m
    by (simp_all add: frame_inv_def)
  show "wp (store_frame C p g sc fl d) (\<lambda>_. frame_inv) (\<lambda>_. frame_inv) s"
    unfolding store_frame_def
    by (auto simp: wp_simps log frame_inv_append [OF s] split: sum.split)
qed

definition rest where
  "rest s = (h_proposed s, h_action_sequence s, h_pending s, h_buffer s, h_frame_sequence s)"

lemma rest_simps [simp]:
  "rest (s\<lparr>h_log := l\<rparr>) = rest s"
  "rest (s\<lparr>h_buttons_neutral := b\<rparr>) = rest s"
  "rest (s\<lparr>h_executed := xs\<rparr>) = rest s"
  "rest (s\<lparr>h_last_click_ns := k\<rparr>) = rest s"
  "rest (s\<lparr>h_cursor := u\<rparr>) = rest s"
  by (simp_all add: rest_def)

lemma view_rest: "view s = (h_executed s, rest s)"
  by (simp add: view_def rest_def)

lemma fire_finish_rest: "keeps (\<lambda>(s, l). rest s = R) (fire_finish C pr p wx wy lease d dl up r)"
  unfolding fire_finish_def by (intro keeps_intros) simp_all

lemma capture_body_shots:
  "keeps (\<lambda>s. (h_executed s, h_proposed s, h_action_sequence s, h_pending s) = X) (capture_body C lease)"
  unfolding capture_body_def store_frame_def by (intro keeps_intros) simp_all

lemma capture_body_frames: "keeps frame_inv (capture_body C lease)"
  unfolding capture_body_def by (intro keeps_intros store_frame_inv) (simp_all add: frame_inv_def)

lemma frame_inv_view: "frame_inv s = (case view s of (_, _, _, _, b, m) \<Rightarrow>
   (let n = int (length (fb_frames b)) in
     0 < fb_maxlen b \<and> length (fb_frames b) \<le> fb_maxlen b \<and> n \<le> m \<and>
     map fr_sequence (fb_frames b) = [m - n + 1 .. m]))"
  by (simp add: frame_inv_def view_def Let_def)

text \<open>What the body of \<open>fire\<close> does to the books.\<close>

lemma fire_body_wp:
  "wp (fire_body C k pr x y lease n)
     (\<lambda>a (t, l). h_executed t = h_executed s @ [a] \<and> rest t = rest s \<and> ea_proposed a = pr \<and>
        ea_status a = EXECUTED \<and> ea_effect_status a = PENDING \<and> pressed_ok C a)
     (\<lambda>_ (t, l). view t = view s) (s, l0)"
proof -
  let ?E = "\<lambda>(e :: exn) (t, l :: fire_locals). view t = view s"
  have up: "wp (pbind (fire_up C k press wx wy lease d dl) (\<lambda>(up, r). fire_finish C pr press wx wy lease d dl up r))
      (\<lambda>a (t, l). h_executed t = h_executed s @ [a] \<and> rest t = rest s \<and> ea_proposed a = pr \<and>
        ea_status a = EXECUTED \<and> ea_effect_status a = PENDING \<and> pressed_ok C a) ?E (t, l)"
    if t: "view t = view s" "ack_bound C lease (shot_button k) ''down'' dl d"
      "ak_operation_id d = Some (h_last_input_operation_id t)"
      "hl_press_duration_ns (hc_limits C) = Some press"
      "ak_injected_ns d + press + hl_lease_cleanup_margin_ns (hc_limits C) \<le> dl"
    for press wx wy lease d dl t l
    unfolding wp_pbind
  proof (rule wp_mono [OF wp_conj [OF fire_up_wp [OF t(3)]
        keeps_wp [OF fire_up_view [where P = "\<lambda>v. v = view s"]]]], goal_cases)
    case 1
    then show ?case using t(1) by simp
  next
    case (2 ur tl)
    then obtain u j r t' l' where u: "ur = (Obj u, r)" "tl = (t', l')" "ack_bound C lease (shot_button k) ''up'' dl u"
      "ak_operation_id u = Some j" "h_last_input_operation_id t < j" "ak_acknowledged_ns u \<le> r" "view t' = view s"
      by (auto split: prod.splits)
    show ?case unfolding u(1,2) prod.case
      by (rule wp_mono [OF wp_conj [OF fire_finish_wp [OF t(2) u(3) t(3) u(4-6) t(4,5)]
          keeps_wp [OF fire_finish_rest [where R = "rest s"]]]])
        (use u(7) in \<open>auto simp: view_rest\<close>)
  next
    case (3 e tl)
    then show ?case by auto
  qed
  show ?thesis
    unfolding fire_body_def wp_pbind
    apply (rule wp_mono [OF keeps_wp [OF fire_prepare_view [where P = "\<lambda>v. v = view s"]]])
      apply simp
     apply (auto simp: wp_simps split: option.split)
    apply (rule wp_mono [OF wp_conj [OF fire_down_wp keeps_wp [OF fire_down_view [where P = "\<lambda>v. v = view s"]]]])
    apply (auto intro!: up [unfolded wp_pbind wp_prod])
    done
qed

section \<open>What fire does to the books\<close>

text \<open>The books after a \<open>fire\<close> that got past the first guard: one more proposal, and at most
  one more executed row, for that proposal.\<close>

definition one_proposal :: "harness \<Rightarrow> harness \<Rightarrow> proposed_action \<Rightarrow> bool" where
  "one_proposal s t p \<longleftrightarrow> h_proposed t = h_proposed s @ [p] \<and>
     h_action_sequence t = h_action_sequence s + 1 \<and> pa_sequence p = h_action_sequence t \<and>
     \<not> h_pending t \<and> h_buffer t = h_buffer s \<and> h_frame_sequence t = h_frame_sequence s"

definition not_fired :: "harness \<Rightarrow> harness \<Rightarrow> bool" where
  "not_fired s t \<longleftrightarrow> (\<exists>p. one_proposal s t p \<and> (h_executed t = h_executed s \<or>
     (\<exists>a. h_executed t = h_executed s @ [a] \<and> ea_proposed a = p \<and> ea_status a \<noteq> EXECUTED)))"

definition fired :: "harness_config \<Rightarrow> harness \<Rightarrow> harness \<Rightarrow> executed_action \<Rightarrow> bool" where
  "fired C s t a \<longleftrightarrow> (\<exists>p. one_proposal s t p \<and> h_executed t = h_executed s @ [a] \<and>
     ea_proposed a = p \<and> ea_status a = EXECUTED \<and> ea_effect_status a = PENDING \<and> pressed_ok C a \<and>
     \<not> h_pending s \<and> pending_effects s = 0)"

lemma abort_view_wp: "(\<And>t e. view t = view s \<Longrightarrow> E e t) \<Longrightarrow> wp (abort C e) Q E s"
  by (rule wp_mono [OF wp_conj [OF abort_wp keeps_wp [OF abort_view [where P = "\<lambda>v. v = view s"]]]]) auto

lemma fire_try_books:
  assumes "h_proposed s = ps @ [p]" "h_action_sequence s = n" "pa_sequence p = n"
  shows "wp (fire_try C k p x y lease now)
     (\<lambda>a t. h_executed t = h_executed s @ [a] \<and> rest t = rest (s\<lparr>h_pending := False\<rparr>) \<and>
        ea_proposed a = p \<and> ea_status a = EXECUTED \<and> ea_effect_status a = PENDING \<and> pressed_ok C a)
     (\<lambda>_ t. rest t = rest (s\<lparr>h_pending := False\<rparr>) \<and> (h_executed t = h_executed s \<or>
        (\<exists>a. h_executed t = h_executed s @ [a] \<and> ea_proposed a = p \<and> ea_status a \<noteq> EXECUTED))) s"
  unfolding fire_try_def wp_simps
  by (rule wp_mono [OF fire_body_wp])
    (auto simp: append_executed_def wp_simps view_rest rest_def refused_action_def intro!: abort_view_wp)

lemma validate_action_Inr:
  "validate_action C s k x y n = Inr r \<Longrightarrow> \<not> h_pending s \<and> pending_effects s = 0"
  by (auto simp: validate_action_def Let_def rbind_Inr split: option.splits if_splits)

lemma fire_books:
  assumes "\<not> h_pending s"
  shows "wp (fire C k x y) (\<lambda>a t. fired C s t a) (\<lambda>_ t. t = s \<or> not_fired s t) s"
proof (cases "\<exists>l. h_lease s = Some l \<and> \<not> h_stopped s")
  case False
  then show ?thesis by (auto simp: fire_def wp_simps split: option.split)
next
  case True
  then obtain lease where l: "h_lease s = Some lease" "\<not> h_stopped s" by blast
  let ?now = "en_clock (hc_env C) (CClock # h_log s)"
  let ?s1 = "s\<lparr>h_log := CClock # h_log s, h_action_sequence := h_action_sequence s + 1\<rparr>"
  have abort: "wp (abort C e) Q (\<lambda>_ t. t = s \<or> not_fired s t)
      (?s1\<lparr>h_proposed := h_proposed s @ [p], h_executed := h_executed s @ [a]\<rparr>)"
    if "pa_sequence p = h_action_sequence s + 1" "ea_proposed a = p" "ea_status a \<noteq> EXECUTED"
    for p a e and Q :: "executed_action \<Rightarrow> harness \<Rightarrow> bool"
    by (rule abort_view_wp)
      (use that assms in \<open>auto simp: not_fired_def one_proposal_def view_def\<close>)
  have tried: "wp (fire_try C kk p cx cy lease ?now) (\<lambda>a t. fired C s t a) (\<lambda>_ t. t = s \<or> not_fired s t)
      (?s1\<lparr>h_proposed := h_proposed s @ [p], h_pending := True\<rparr>)"
    if "pa_sequence p = h_action_sequence s + 1" "validate_action C ?s1 k x y ?now = Inr r" for p kk cx cy r
  proof (rule wp_mono [OF fire_try_books [where ps = "h_proposed s" and n = "h_action_sequence s + 1"]], goal_cases)
    case (4 a t)
    then show ?case using validate_action_Inr [OF that(2)] that(1)
      by (auto simp: fired_def one_proposal_def rest_def pending_effects_def)
  next
    case (5 e t)
    then show ?case using that(1)
      by (auto simp: not_fired_def one_proposal_def rest_def)
  qed (use that in simp_all)
  show ?thesis
    by (auto simp: fire_def wp_simps l append_executed_def Let_def refused_action_def
      intro!: abort tried split: sum.split)
qed

section \<open>Resolving an effect\<close>

lemma find_action_Some:
  "find_action n xs = Some i \<Longrightarrow> i < length xs \<and> pa_sequence (ea_proposed (xs ! i)) = n"
  by (induction xs arbitrary: i) (auto split: if_splits)

definition resolved :: "harness \<Rightarrow> executed_action \<Rightarrow> executed_action \<Rightarrow> bool" where
  "resolved s a r \<longleftrightarrow> (\<exists>u f. ea_status a = EXECUTED \<and> ea_effect_status a = PENDING \<and>
     ea_effect_status r \<noteq> PENDING \<and> ea_up a = Some (Obj u) \<and> f \<in> set (fb_frames (h_buffer s)) \<and>
     r = a\<lparr>ea_effect_status := ea_effect_status r, ea_first_visible_ns := ea_first_visible_ns r,
           ea_effect_frame_sequence := Some (fr_sequence f), ea_effect_detail := ea_effect_detail r\<rparr> \<and>
     ak_acknowledged_ns u \<le> packet_observed_ns (fr_capture f) \<and>
     (ea_effect_status r = CONFIRMED \<longrightarrow> frame_usable f \<and>
        ea_first_visible_ns r = Some (packet_observed_ns (fr_capture f))) \<and>
     (ea_effect_status r = MISSED \<longrightarrow> ea_first_visible_ns r = None))"

lemma effect_target_Inr:
  assumes "effect_target s n st fs fv d = Inr (parsed, i, a, u, f)"
  shows "i < length (h_executed s) \<and> a = h_executed s ! i \<and> pa_sequence (ea_proposed a) = int_of n \<and>
    ea_up a = Some (Obj u) \<and> ea_status a = EXECUTED \<and> ea_effect_status a = PENDING \<and>
    parsed \<noteq> PENDING \<and> f \<in> set (fb_frames (h_buffer s)) \<and> fr_sequence f = int_of fs"
  using assms
  by (auto simp: effect_target_def Let_def find_Some_iff dest!: find_action_Some
      split: if_splits option.splits obj.splits)

lemma effect_visible_Inr:
  "effect_visible parsed f fv = Inr v \<Longrightarrow>
     (parsed = CONFIRMED \<longrightarrow> frame_usable f \<and> v = Some (packet_observed_ns (fr_capture f))) \<and>
     (parsed = MISSED \<longrightarrow> v = None)"
  by (auto simp: effect_visible_def Let_def split: if_splits)

lemma effect_wp:
  "wp (record_action_effect C n st fs fv d)
     (\<lambda>r t. \<exists>i. i < length (h_executed s) \<and> resolved s (h_executed s ! i) r \<and>
        pa_sequence (ea_proposed r) = int_of n \<and>
        h_executed t = (h_executed s)[i := r] \<and> rest t = rest s)
     (\<lambda>_ t. view t = view s) s"
proof (cases "\<exists>l. h_lease s = Some l \<and> \<not> h_stopped s")
  case False
  then show ?thesis by (auto simp: record_action_effect_def wp_simps split: option.split)
next
  case True
  then obtain lease where l: "h_lease s = Some lease" "\<not> h_stopped s" by blast
  show ?thesis
  proof (cases "effect_target s n st fs fv d")
    case (Inl e)
    then show ?thesis
      by (auto simp: record_action_effect_def wp_simps l intro!: abort_view_wp)
  next
    case (Inr r)
    obtain parsed i a u f where r: "r = (parsed, i, a, u, f)" by (metis prod.exhaust)
    note t = effect_target_Inr [OF Inr [unfolded r]]
    show ?thesis
      using t
      by (auto simp: record_action_effect_def wp_simps l Inr r Let_def resolved_def
          dest!: effect_visible_Inr intro!: abort_view_wp exI [of _ i] exI [of _ f] split: sum.split)
  qed
qed

section \<open>Any sequence of method calls\<close>


datatype harness_op =
    OpOpen | OpRenew | OpCapture | OpFire pyval pyval pyval
  | OpEffect pyval pyval pyval pyval pyval | OpClose | OpExit bool

fun harness_step :: "harness_config \<Rightarrow> harness \<Rightarrow> harness_op \<Rightarrow> harness" where
  "harness_step C s OpOpen = final (harness_open C) s"
| "harness_step C s OpRenew = final (renew C) s"
| "harness_step C s OpCapture = final (capture C) s"
| "harness_step C s (OpFire k x y) = final (fire C k x y) s"
| "harness_step C s (OpEffect n st fs fv d) = final (record_action_effect C n st fs fv d) s"
| "harness_step C s OpClose = final (harness_close C) s"
| "harness_step C s (OpExit raised) = final (harness_exit C raised) s"

definition books_inv :: "harness_config \<Rightarrow> harness \<Rightarrow> bool" where
  "books_inv C s \<longleftrightarrow> \<not> h_pending s \<and> pending_effects s \<le> 1 \<and>
     (\<forall>a \<in> set (h_executed s). ea_status a = EXECUTED \<longrightarrow> pressed_ok C a) \<and>
     0 \<le> h_action_sequence s \<and> map pa_sequence (h_proposed s) = [1 .. h_action_sequence s] \<and>
     subseq (map ea_proposed (h_executed s)) (h_proposed s)"

lemma books_inv_view: "view t = view s \<Longrightarrow> books_inv C t = books_inv C s"
  by (simp add: books_inv_def view_def pending_effects_def)

lemma subseq_snoc: "subseq xs ys \<Longrightarrow> subseq xs (ys @ [y])" "subseq xs ys \<Longrightarrow> subseq (xs @ [y]) (ys @ [y])"
  by (auto intro: subseq_order.trans)

lemma fire_books_inv:
  assumes "books_inv C s"
  shows "wp (fire C k x y) (\<lambda>_. books_inv C) (\<lambda>_. books_inv C) s"
proof -
  have "\<not> h_pending s" using assms by (simp add: books_inv_def)
  then show ?thesis
  proof (rule wp_mono [OF fire_books], goal_cases)
    case (1 a t)
    then show ?case using assms
      by (auto simp: fired_def one_proposal_def books_inv_def pending_effects_def subseq_snoc upto_snoc)
  next
    case (2 e t)
    then show ?case using assms
      by (auto simp: not_fired_def one_proposal_def books_inv_def pending_effects_def subseq_snoc upto_snoc)
  qed
qed

definition shots where
  "shots s = (h_executed s, h_proposed s, h_action_sequence s, h_pending s)"

lemma books_inv_shots: "shots t = shots s \<Longrightarrow> books_inv C t = books_inv C s"
  by (simp add: books_inv_def shots_def pending_effects_def)

lemma cleanup_shots: "keeps (\<lambda>s. shots s = X) (cleanup C)"
  unfolding cleanup_def cleanup_buttons_def cleanup_claim_def add_cleanup_error_def shots_def
  by (intro keeps_intros) simp_all

lemma add_reason_shots: "keeps (\<lambda>s. shots s = X) (add_reason e)"
  unfolding add_reason_def shots_def by (intro keeps_intros) simp_all

lemma abort_shots: "keeps (\<lambda>s. shots s = X) (abort C e)"
  unfolding abort_def by (intro keeps_intros cleanup_shots add_reason_shots)

lemma capture_shots: "keeps (\<lambda>s. shots s = X) (capture C)"
  unfolding capture_def shots_def
  by (intro keeps_intros capture_body_shots abort_shots [unfolded shots_def])

lemma open_shots: "keeps (\<lambda>s. shots s = X) (harness_open C)"
  unfolding harness_open_def open_body_def
  by (intro keeps_intros capture_shots cleanup_shots add_reason_shots observe_cursor_keeps
      release_unexpected_keeps) (simp_all add: shots_def)

lemma cleanup_frames: "keeps frame_inv (cleanup C)"
  unfolding cleanup_def cleanup_buttons_def cleanup_claim_def add_cleanup_error_def
  by (intro keeps_intros) (simp_all add: frame_inv_def)

lemma add_reason_frames: "keeps frame_inv (add_reason e)"
  unfolding add_reason_def by (intro keeps_intros) (simp_all add: frame_inv_def)

lemma capture_frames: "keeps frame_inv (capture C)"
  unfolding capture_def abort_def
  by (intro keeps_intros capture_body_frames cleanup_frames add_reason_frames)

lemma open_frames: "keeps frame_inv (harness_open C)"
  unfolding harness_open_def open_body_def
  by (intro keeps_intros capture_frames cleanup_frames add_reason_frames observe_cursor_keeps
      release_unexpected_keeps) (simp_all add: frame_inv_def)

lemma frame_inv_view_eq: "view t = view s \<Longrightarrow> frame_inv t = frame_inv s"
  by (simp add: frame_inv_view)

lemma frame_inv_rest_eq: "rest t = rest s \<Longrightarrow> frame_inv t = frame_inv s"
  by (simp add: frame_inv_def rest_def)

definition harness_inv :: "harness_config \<Rightarrow> harness \<Rightarrow> bool" where
  "harness_inv C s \<longleftrightarrow> lease_inv s \<and> frame_inv s \<and> books_inv C s"

lemma view_const_inv:
  assumes "\<And>P. keeps (\<lambda>s. P (view s)) m" "harness_inv C s" "wp m (\<lambda>_. lease_inv) (\<lambda>_. lease_inv) s"
  shows "harness_inv C (final m s)"
proof -
  have v: "view (final m s) = view s"
    using keeps_final [OF assms(1) [of "\<lambda>v. v = view s"]] by simp
  show ?thesis
    using assms(2,3) frame_inv_view_eq [OF v] books_inv_view [OF v, of C]
    unfolding harness_inv_def wp_final by blast
qed

lemma shots_frames_inv:
  assumes "\<And>X. keeps (\<lambda>s. shots s = X) m" "keeps frame_inv m" "harness_inv C s"
    "wp m (\<lambda>_. lease_inv) (\<lambda>_. lease_inv) s"
  shows "harness_inv C (final m s)"
proof -
  have v: "shots (final m s) = shots s"
    using keeps_final [OF assms(1) [of "shots s"]] by simp
  show ?thesis
    using assms(3,4) keeps_final [OF assms(2)] books_inv_shots [OF v, of C]
    unfolding harness_inv_def wp_final by blast
qed

lemma wp_not_fired_frames:
  "\<not> h_pending s \<Longrightarrow> frame_inv s \<Longrightarrow> wp (fire C k x y) (\<lambda>_. frame_inv) (\<lambda>_. frame_inv) s"
  by (rule wp_mono [OF fire_books])
    (auto simp: fired_def not_fired_def one_proposal_def frame_inv_def)

lemma resolved_keeps:
  assumes "resolved s a r"
  shows "ea_status r = EXECUTED" "ea_proposed r = ea_proposed a"
    "pressed_ok C r \<longleftrightarrow> pressed_ok C a" "ea_effect_status r \<noteq> PENDING" "ea_status a = EXECUTED"
proof -
  obtain st v n d where r: "r = a\<lparr>ea_effect_status := st, ea_first_visible_ns := v,
      ea_effect_frame_sequence := n, ea_effect_detail := d\<rparr>"
    using assms unfolding resolved_def by metis
  show "ea_status r = EXECUTED" "ea_effect_status r \<noteq> PENDING" "ea_status a = EXECUTED"
    using assms r by (auto simp: resolved_def)
  show "ea_proposed r = ea_proposed a" "pressed_ok C r \<longleftrightarrow> pressed_ok C a"
    by (simp_all add: r pressed_ok_def)
qed

lemma effect_books_inv:
  assumes "books_inv C s"
  shows "wp (record_action_effect C n st fs fv d) (\<lambda>_. books_inv C) (\<lambda>_. books_inv C) s"
proof (rule wp_mono [OF effect_wp], goal_cases)
  case (1 r t)
  then obtain i where i: "i < length (h_executed s)" "resolved s (h_executed s ! i) r"
    "h_executed t = (h_executed s)[i := r]" "rest t = rest s" by blast
  have "map ea_proposed ((h_executed s)[i := r]) = map ea_proposed (h_executed s)"
    using resolved_keeps(2) [OF i(2)] i(1) by (metis list_update_id map_update nth_map)
  moreover have "length (filter (\<lambda>a. ea_status a = EXECUTED \<and> ea_effect_status a = PENDING) ((h_executed s)[i := r]))
      \<le> length (filter (\<lambda>a. ea_status a = EXECUTED \<and> ea_effect_status a = PENDING) (h_executed s))"
    using resolved_keeps [OF i(2)] i(1)
    by (intro length_filter_update) simp
  moreover have "\<forall>a \<in> set ((h_executed s)[i := r]). ea_status a = EXECUTED \<longrightarrow> pressed_ok C a"
    using assms resolved_keeps(5) [OF i(2)] resolved_keeps(3) [OF i(2), of C] i(1) set_update_subset_insert [of "h_executed s" i r]
    unfolding books_inv_def by (metis insert_iff nth_mem subset_iff)
  ultimately show ?case using assms i(3,4)
    by (simp add: books_inv_def pending_effects_def rest_def)
next
  case (2 e t)
  then show ?case using assms books_inv_view [of t s C] by blast
qed


lemma effect_frames: "keeps frame_inv (record_action_effect C n st fs fv d)"
  unfolding record_action_effect_def abort_def
  by (intro keeps_intros cleanup_frames add_reason_frames) (simp_all add: frame_inv_def)

lemma harness_step_inv: "harness_inv C s \<Longrightarrow> harness_inv C (harness_step C s x)"
proof (cases x)
  case OpOpen
  assume "harness_inv C s"
  then show ?thesis unfolding OpOpen harness_step.simps
    by (intro shots_frames_inv open_shots open_frames) (simp_all add: harness_inv_def open_lease_inv)
next
  case OpRenew
  assume "harness_inv C s"
  then show ?thesis unfolding OpRenew harness_step.simps
    by (intro view_const_inv renew_view) (simp_all add: harness_inv_def renew_lease_inv)
next
  case OpCapture
  assume "harness_inv C s"
  then show ?thesis unfolding OpCapture harness_step.simps
    by (intro shots_frames_inv capture_shots capture_frames) (simp_all add: harness_inv_def capture_lease_inv)
next
  case (OpFire k x y)
  assume s: "harness_inv C s"
  then have "\<not> h_pending s" "frame_inv s" "lease_inv s" "books_inv C s"
    by (simp_all add: harness_inv_def books_inv_def)
  then show ?thesis unfolding OpFire harness_step.simps harness_inv_def
    using wp_not_fired_frames fire_lease_inv fire_books_inv by (simp add: wp_final)
next
  case (OpEffect n st fs fv d)
  assume s: "harness_inv C s"
  then show ?thesis unfolding OpEffect harness_step.simps harness_inv_def
    using keeps_final [OF effect_frames] effect_lease_inv effect_books_inv by (simp add: wp_final)
next
  case OpClose
  assume "harness_inv C s"
  then show ?thesis unfolding OpClose harness_step.simps
    by (intro view_const_inv close_view) (simp_all add: harness_inv_def close_lease_inv)
next
  case (OpExit r)
  assume "harness_inv C s"
  then show ?thesis unfolding OpExit harness_step.simps
    by (intro view_const_inv exit_view) (simp_all add: harness_inv_def exit_lease_inv)
qed

interpretation harness_machine: op_machine "harness_step C" "harness_inv C" for C
  by unfold_locales (rule harness_step_inv)

end
