(* ===== verification/Harness_Calls.thy ===== *)
theory Harness_Calls
  imports Harness_Books
begin

text \<open>
  The methods of the harness as calls with an outcome: \<open>harness_call C op\<close>.  The lemmas say what
  a call that returns promises (\<open>renew\<close>, \<open>capture\<close>, \<open>open\<close>, \<open>close\<close>, the click gap of
  \<open>fire\<close>), that every aborting method ends \<open>shut\<close>, that no call ends with a button held
  (\<open>held\<close> reads the newest input edge of the log), and that without the input capabilities no
  button goes down.
\<close>

section \<open>One method call\<close>

definition drop_result :: "('s, 'a) py \<Rightarrow> ('s, unit) py" where
  "drop_result m = pbind m (\<lambda>_. pret ())"

fun harness_call :: "harness_config \<Rightarrow> harness_op \<Rightarrow> (harness, unit) py" where
  "harness_call C OpOpen = harness_open C"
| "harness_call C OpRenew = renew C"
| "harness_call C OpCapture = drop_result (capture C)"
| "harness_call C (OpFire k x y) = drop_result (fire C k x y)"
| "harness_call C (OpEffect n st fs fv d) = drop_result (record_action_effect C n st fs fv d)"
| "harness_call C OpClose = harness_close C"
| "harness_call C (OpExit raised) = harness_exit C raised"

lemma wp_drop_result [wp_simps]: "wp (drop_result m) Q E = wp m (\<lambda>_. Q ()) E"
  by (simp add: drop_result_def wp_simps)

lemma keeps_drop_result [keeps_intros]: "keeps I m \<Longrightarrow> keeps I (drop_result m)"
  unfolding drop_result_def by (intro keeps_intros)

lemma final_drop_result [simp]: "snd (drop_result m s) = snd (m s)"
  by (auto simp: drop_result_def pbind_def pret_def split: prod.split sum.split)

lemma harness_step_call: "harness_step C s x = snd (harness_call C x s)"
  by (cases x) (simp_all add: final_def)

text \<open>The methods that run under \<open>except Exception: self._abort\<close>.\<close>

fun aborting :: "harness_op \<Rightarrow> bool" where
  "aborting OpRenew = True" | "aborting OpCapture = True" | "aborting (OpFire _ _ _) = True"
| "aborting (OpEffect _ _ _ _ _) = True" | "aborting _ = False"

lemma active_then_shut:
  assumes "live tok L s"
    and "\<And>l. h_lease s = Some l \<Longrightarrow> cl_token l = tok \<Longrightarrow>
       wp (m l) (\<lambda>_. live tok L) (\<lambda>e t. is_exception e \<longrightarrow> shut C tok L t) s"
  shows "wp (pbind require_active m) (\<lambda>_. live tok L) (\<lambda>e t. is_exception e \<longrightarrow> shut C tok L t) s"
  using live_lease [OF assms(1)] assms(2) by (auto simp: wp_simps)

lemma renew_shut:
  assumes "live tok L s"
  shows "wp (renew C) (\<lambda>_. live tok L) (\<lambda>e t. is_exception e \<longrightarrow> shut C tok L t) s"
  unfolding renew_def
proof (rule active_then_shut [OF assms], rule catch_abort_shut [OF keeps_from_wp assms], goal_cases)
  case (1 l s)
  then show ?case
    by (auto simp: wp_simps validate_lease_Inr live_def split: sum.split)
qed

lemma aborting_shut:
  assumes "live tok L s" "aborting x"
  shows "wp (harness_call C x) (\<lambda>_. live tok L) (\<lambda>e t. is_exception e \<longrightarrow> shut C tok L t) s"
proof (cases x)
  case OpRenew
  then show ?thesis using renew_shut [OF assms(1)] by simp
next
  case OpCapture
  then show ?thesis unfolding OpCapture harness_call.simps capture_def wp_drop_result
    by (intro active_then_shut [OF assms(1)] catch_abort_shut capture_body_live assms(1))
next
  case (OpFire k a b)
  then show ?thesis using fire_shut [OF assms(1)] by (simp add: wp_simps)
next
  case (OpEffect n st fs fv d)
  then show ?thesis unfolding OpEffect harness_call.simps record_action_effect_def wp_drop_result
    by (intro active_then_shut [OF assms(1)] catch_abort_shut assms(1)) ((intro keeps_intros)?, simp_all)
qed (use assms(2) in simp_all)

section \<open>The last input edge\<close>

fun held :: "hcall list \<Rightarrow> bool" where
  "held [] = False"
| "held (CButtonDown _ _ _ _ _ _ _ # l) = True"
| "held (CButtonUp _ _ _ _ _ # l) = False"
| "held (CReleaseAll _ _ # l) = False"
| "held (_ # l) = held l"

definition free :: "harness \<Rightarrow> bool" where
  "free s \<longleftrightarrow> \<not> held (h_log s)"

lemma free_simps [simp]:
  "free (s\<lparr>h_log := c # h_log s\<rparr>) = (\<not> held (c # h_log s))"
  "free (s\<lparr>h_buttons_neutral := b\<rparr>) = free s"
  "free (s\<lparr>h_last_input_operation_id := n\<rparr>) = free s"
  "free (s\<lparr>h_executed := xs\<rparr>) = free s"
  "free (s\<lparr>h_proposed := ps\<rparr>) = free s"
  "free (s\<lparr>h_last_click_ns := k\<rparr>) = free s"
  "free (s\<lparr>h_cursor := u\<rparr>) = free s"
  "free (s\<lparr>h_pending := p\<rparr>) = free s"
  "free (s\<lparr>h_action_sequence := n\<rparr>) = free s"
  "free (s\<lparr>h_frame_sequence := n\<rparr>) = free s"
  "free (s\<lparr>h_buffer := bu\<rparr>) = free s"
  "free (s\<lparr>h_duplicate_run := n\<rparr>) = free s"
  "free (s\<lparr>h_dropped_frames := n\<rparr>) = free s"
  "free (s\<lparr>h_lease := le\<rparr>) = free s"
  "free (s\<lparr>h_stopped := q\<rparr>) = free s"
  "free (s\<lparr>h_cleanup_errors := ce\<rparr>) = free s"
  "free (s\<lparr>h_reasons := rs\<rparr>) = free s"
  "free (s\<lparr>h_capabilities := ca\<rparr>) = free s"
  "free (s\<lparr>h_lease := le, h_target := ta, h_last_input_operation_id := n\<rparr>) = free s"
  by (simp_all add: free_def)

lemma verify_free [keeps_intros]:
  "keeps free (verify_runtime_if_configured C)" "keeps free (verify_input_environment_unchanged C)"
  unfolding verify_runtime_if_configured_def verify_runtime_unchanged_def
    verify_input_environment_unchanged_def verify_target_def
  by (intro keeps_intros; simp add: free_def)+

lemma validate_ack_free [keeps_intros]: "keeps free (validate_ack C r ack edge lease b st dl la)"
  unfolding validate_ack_def by (intro keeps_intros; simp add: free_def)

lemma cleanup_free: "keeps free (cleanup C)"
  unfolding cleanup_def cleanup_buttons_def cleanup_claim_def add_cleanup_error_def
  by (intro keeps_intros) (simp_all add: free_def)

lemma abort_free: "keeps free (abort C e)"
  unfolding abort_def add_reason_def by (intro keeps_intros cleanup_free) simp_all

lemma capture_free: "keeps free (capture C)"
  unfolding capture_def capture_body_def store_frame_def
  by (intro keeps_intros abort_free) (simp_all add: free_def)

lemma open_free: "keeps free (harness_open C)"
  unfolding harness_open_def open_body_def observe_cursor_def release_unexpected_def
    add_cleanup_error_def add_reason_def
  by (intro keeps_intros capture_free cleanup_free) (simp_all add: free_def)

lemma close_free: "keeps free (harness_close C)"
  unfolding harness_close_def by (intro keeps_intros cleanup_free)

lemma fire_prepare_free: "keeps (\<lambda>(s, l). free s) (fire_prepare C lease x y n)"
  unfolding fire_prepare_def lease_for_button_down_def
  by (intro keeps_intros) (simp_all add: free_def)

lemma fire_finish_free: "keeps (\<lambda>(s, l). free s) (fire_finish C pr p wx wy lease d dl up r)"
  unfolding fire_finish_def by (intro keeps_intros) simp_all

lemma fire_up_free: "wp (fire_up C k p wx wy lease d dl) (\<lambda>_ (t, l). free t) (\<lambda>_ _. True) s"
  unfolding fire_up_def
  by (cases s) (auto simp: wp_simps Let_def validate_ack_def free_def split: sum.split obj.split option.split)

lemma fire_body_free:
  "wp (fire_body C k pr x y lease n) (\<lambda>_ (t, l). free t) (\<lambda>_ _. True) s"
  unfolding fire_body_def wp_simps
  by (rule wp_mono [OF wp_True])
    (auto simp: wp_simps split: option.split
      intro!: wp_mono [OF wp_True [of "fire_down _ _ _ _ _ _ _"]] wp_mono [OF fire_up_free]
        wp_mono [OF keeps_wp [OF fire_finish_free]])

lemma held_clocks: "set m \<subseteq> {CClock} \<Longrightarrow> held (m @ l) = held l"
  by (induction m) auto

lemma shut_free: "shut C tok L t \<Longrightarrow> free t"
  by (auto simp: shut_def free_def held_clocks)

lemma abort_any: "(\<And>e' t. E e' t) \<Longrightarrow> wp (abort C e) Q E s"
  by (rule wp_mono [OF abort_wp]) simp_all

lemma fire_free:
  assumes "free s"
  shows "wp (fire C k x y) (\<lambda>_. free) (\<lambda>e t. is_exception e \<longrightarrow> free t) s"
proof (cases "\<exists>l. h_lease s = Some l \<and> \<not> h_stopped s")
  case False
  then show ?thesis using assms by (auto simp: fire_def wp_simps split: option.split)
next
  case True
  then obtain lease where l: "h_lease s = Some lease" "\<not> h_stopped s" by blast
  then have "live (cl_token lease) (h_log s) s" by (simp add: live_def)
  from fire_shut [OF this]
  have e: "wp (fire C k x y) (\<lambda>_ _. True) (\<lambda>e t. is_exception e \<longrightarrow> free t) s"
    by (rule wp_mono [where Q' = "\<lambda>_ _. True"]) (simp, metis shut_free)
  have tried: "wp (fire_try C kk p cx cy lease now) (\<lambda>_. free) (\<lambda>_ _. True) t" for kk p cx cy now t
    unfolding fire_try_def wp_simps
    by (rule wp_mono [OF fire_body_free])
      (auto simp: append_executed_def wp_simps intro!: abort_any)
  have "wp (fire C k x y) (\<lambda>_. free) (\<lambda>_ _. True) s"
    by (auto simp: fire_def wp_simps l append_executed_def Let_def
       intro!: tried abort_any split: sum.split)
  from wp_conj [OF e this] show ?thesis by (rule wp_mono) auto
qed

lemma renew_free: "keeps free (renew C)"
  unfolding renew_def by (intro keeps_intros abort_free) (simp_all add: free_def)

lemma effect_free: "keeps free (record_action_effect C n st fs fv d)"
  unfolding record_action_effect_def by (intro keeps_intros abort_free) (simp_all add: free_def)

lemma exit_free: "keeps free (harness_exit C r)"
  unfolding harness_exit_def by (intro keeps_intros close_free)

lemma call_free:
  assumes "free s"
  shows "wp (harness_call C x) (\<lambda>_. free) (\<lambda>e t. is_exception e \<longrightarrow> free t) s"
proof (cases "\<exists>k a b. x = OpFire k a b")
  case True
  then show ?thesis using fire_free [OF assms] by (auto simp: wp_simps)
next
  case False
  then have "keeps free (harness_call C x)"
    by (cases x) (auto intro!: keeps_drop_result open_free renew_free capture_free effect_free close_free exit_free)
  from keeps_wp [OF this assms] show ?thesis by (rule wp_mono) auto
qed

section \<open>No button without the capabilities\<close>

fun is_down :: "hcall \<Rightarrow> bool" where
  "is_down (CButtonDown _ _ _ _ _ _ _) = True" | "is_down _ = False"

abbreviation downs :: "harness \<Rightarrow> hcall list" where
  "downs s \<equiv> filter is_down (h_log s)"

lemma cleanup_downs: "keeps (\<lambda>s. downs s = D) (cleanup C)"
  unfolding cleanup_def cleanup_buttons_def cleanup_claim_def add_cleanup_error_def validate_ack_def
  by (intro keeps_intros) simp_all

lemma abort_downs: "downs s = D \<Longrightarrow> wp (abort C e) Q (\<lambda>_ t. downs t = D) s"
proof -
  assume D: "downs s = D"
  have "keeps (\<lambda>s. downs s = D) (abort C e)"
    unfolding abort_def add_reason_def by (intro keeps_intros cleanup_downs) simp_all
  from wp_conj [OF abort_wp keeps_wp [OF this D]] show ?thesis by (rule wp_mono) auto
qed

lemma fire_unsafe:
  assumes "\<And>c. h_capabilities s = Some c \<Longrightarrow> \<not> supports_safe_shots c"
  shows "wp (fire C k x y) (\<lambda>_ _. False) (\<lambda>_ t. downs t = downs s) s"
  using assms
  by (auto simp: fire_def wp_simps Let_def append_executed_def intro!: abort_downs split: option.split sum.split)

section \<open>What a successful call promises\<close>

definition extends :: "claim_lease \<Rightarrow> claim_lease \<Rightarrow> bool" where
  "extends l l' \<longleftrightarrow> cl_identity l' = cl_identity l \<and> cl_token l' = cl_token l \<and>
     cl_generation l' = cl_generation l \<and> cl_broker_instance l' = cl_broker_instance l \<and>
     cl_target l' = cl_target l \<and> cl_expires_ns l < cl_expires_ns l'"

lemma renew_ok_wp:
  "wp (renew C) (\<lambda>_ t. \<exists>l l'. h_lease s = Some l \<and> \<not> h_stopped s \<and> h_lease t = Some l' \<and>
      cl_identity l' = hc_identity C \<and> cl_token l' = cl_token l \<and>
      cl_generation l' = cl_generation l \<and> cl_broker_instance l' = cl_broker_instance l \<and>
      cl_target l' = cl_target l \<and> cl_expires_ns l < cl_expires_ns l' \<and>
      (\<exists>now. now < cl_expires_ns l \<and> h_log t = CClock # CRenew (hc_identity C) (cl_token l) (hl_lease_seconds (hc_limits C)) # CClock # h_log s \<and>
        now = en_clock (hc_env C) (CClock # h_log s)) \<and>
      en_clock (hc_env C) (h_log t) < cl_expires_ns l') (\<lambda>_ _. True) s"
  unfolding renew_def
  by (auto simp: wp_simps validate_lease_Inr intro!: abort_any split: option.split sum.split)

lemma validate_action_gap:
  "validate_action C s k x y n = Inr r \<Longrightarrow> \<forall>gap prev.
     hl_min_click_interval_ns (hc_limits C) = Some gap \<longrightarrow> h_last_click_ns s = Some prev \<longrightarrow>
     gap \<le> n - prev"
  by (auto simp: validate_action_def Let_def rbind_Inr split: option.splits if_splits)

lemma fire_ok_wp:
  "wp (fire C k x y) (\<lambda>a t. 
      (\<forall>gap prev. hl_min_click_interval_ns (hc_limits C) = Some gap \<longrightarrow> h_last_click_ns s = Some prev \<longrightarrow>
        gap \<le> pa_requested_ns (ea_proposed a) - prev)) (\<lambda>_ _. True) s"
proof -
  have tried: "wp (fire_try C kk p cx cy lease now) (\<lambda>a t. pa_requested_ns (ea_proposed a) = pa_requested_ns p) (\<lambda>_ _. True) t"
    for kk p cx cy lease now t
    unfolding fire_try_def wp_simps
    by (rule wp_mono [OF fire_body_wp])
     (auto simp: append_executed_def wp_simps intro!: abort_any)
  show ?thesis
    by (auto simp: fire_def wp_simps append_executed_def Let_def dest!: validate_action_gap
       intro!: wp_mono [OF tried] abort_any split: sum.split option.split)
qed


lemma store_frame_ok:
  "wp (store_frame C p g sc fl d) (\<lambda>r t. fr_capture r = p \<and> STALE \<notin> fl \<and> OUT_OF_ORDER \<notin> fl \<and>
       GEOMETRY_DRIFT \<notin> fl \<and> d \<le> hl_max_source_drop_gap (hc_limits C) \<and>
       fr_sequence r = h_frame_sequence s + 1 \<and> h_frame_sequence t = h_frame_sequence s + 1 \<and>
       h_buffer t = snd (fb_append (h_buffer s) r)) (\<lambda>_ _. True) s"
  by (auto simp: store_frame_def wp_simps split: sum.split)

definition newer :: "harness_config \<Rightarrow> capture_packet \<Rightarrow> capture_packet \<Rightarrow> bool" where
  "newer C old new \<longleftrightarrow> packet_observed_ns old < packet_observed_ns new \<and>
     (\<forall>a b. cp_source_sequence old = Some a \<longrightarrow> cp_source_sequence new = Some b \<longrightarrow>
        a < b \<and> b - a - 1 \<le> hl_max_source_drop_gap (hc_limits C))"

lemma classify_frame_newer:
  assumes "classify_frame C buf p g sc now = Inr (fl, d)" "fb_latest buf = Some prior"
    and "OUT_OF_ORDER \<notin> fl" "d \<le> hl_max_source_drop_gap (hc_limits C)"
    "0 \<le> hl_max_source_drop_gap (hc_limits C)"
  shows "newer C (fr_capture prior) p"
  using assms
  by (auto simp: classify_frame_def newer_def Let_def rbind_Inr split: option.splits if_splits prod.splits)

lemma classify_frame_fresh:
  assumes "classify_frame C buf p g sc now = Inr (fl, d)" "STALE \<notin> fl" "OUT_OF_ORDER \<notin> fl"
    "GEOMETRY_DRIFT \<notin> fl"
  shows "packet_observed_ns p \<le> now \<and> now - packet_observed_ns p \<le> hl_stale_after_ns (hc_limits C) \<and>
    \<not> ga_drifted g"
  using assms
  by (auto simp: classify_frame_def Let_def rbind_Inr split: option.splits if_splits prod.splits)

lemma fb_latest_append: "0 < fb_maxlen b \<Longrightarrow> length (fb_frames b) \<le> fb_maxlen b \<Longrightarrow>
    fb_latest (snd (fb_append b f)) = Some f"
  by (auto simp: fb_latest_def fb_append_frames)

definition captured :: "harness_config \<Rightarrow> harness \<Rightarrow> frame_record \<Rightarrow> harness \<Rightarrow> bool" where
  "captured C s r t \<longleftrightarrow> (let p = fr_capture r in cp_identity p = hc_identity C \<and>
     fr_sequence r = h_frame_sequence s + 1 \<and> h_frame_sequence t = fr_sequence r \<and>
     h_buffer t = snd (fb_append (h_buffer s) r) \<and>
     (\<forall>prior. fb_latest (h_buffer s) = Some prior \<longrightarrow>
        0 \<le> hl_max_source_drop_gap (hc_limits C) \<longrightarrow> newer C (fr_capture prior) p))"

lemma capture_body_ok: "wp (capture_body C lease) (\<lambda>r t. captured C s r t) (\<lambda>_ _. True) s"
  unfolding capture_body_def
  by (auto simp: wp_simps captured_def Let_def intro!: verify_wp(1) wp_mono [OF store_frame_ok]
      intro: classify_frame_newer split: sum.split)

lemma capture_ok: "wp (capture C) (\<lambda>r t. captured C s r t) (\<lambda>_ _. True) s"
  by (auto simp: capture_def wp_simps split: option.split
      intro!: wp_mono [OF capture_body_ok] abort_any)

definition holding :: "claim_lease \<Rightarrow> harness \<Rightarrow> bool" where
  "holding l s \<longleftrightarrow> \<not> h_stopped s \<and> h_lease s = Some l \<and> h_target s = cl_target l \<and> h_capabilities s \<noteq> None"

lemma capture_body_holding: "keeps (holding l) (capture_body C lease)"
  unfolding capture_body_def store_frame_def by (intro keeps_intros) (simp_all add: holding_def)

lemma capture_holding: "holding l s \<Longrightarrow> wp (capture C) (\<lambda>_. holding l) (\<lambda>_ _. True) s"
  by (auto simp: capture_def wp_simps split: option.split
      intro!: wp_mono [OF keeps_wp [OF capture_body_holding]] abort_any)

lemma open_ok:
  "wp (harness_open C) (\<lambda>_ t. \<exists>l. holding l t \<and> cl_identity l = hc_identity C \<and> h_cursor t \<noteq> None \<and>
      cl_generation l \<noteq> None \<and> cl_broker_instance l \<noteq> None) (\<lambda>_ _. True) s"
  by (auto simp: harness_open_def open_body_def wp_simps release_unexpected_def add_cleanup_error_def
      validate_lease_Inr observe_cursor_def holding_def
      split: sum.split obj.split option.split
      intro!: abort_any wp_mono [OF capture_holding] wp_mono [OF wp_True [of "cleanup C"]] wp_mono [OF wp_True [of "add_reason _"]])

lemma close_wp:
  "wp (harness_close C)
     (\<lambda>_ t. h_stopped t \<and> (\<not> h_stopped s \<longrightarrow> h_lease t = None \<and> (h_lease s \<noteq> None \<longrightarrow> h_buttons_neutral t)) \<and>
        h_cleanup_errors t = [])
     (\<lambda>_ t. h_stopped t \<and> (\<not> h_stopped s \<longrightarrow> h_lease t = None)) s"
  by (auto simp: harness_close_def wp_simps intro!: wp_mono [OF cleanup_wp] simp: ended_def)

end
