(* ===== verification/Harness_Properties.thy ===== *)
theory Harness_Properties
  imports Harness_Calls
begin

text \<open>
  The properties of the harness, and a concrete harness on which each of them is applied:
  \<open>demo\<close> has a window, a clock that advances a microsecond per call and by every sleep, and a
  provider that grants every request.
\<close>

section \<open>A concrete provider\<close>

definition demo_window :: window_identity where
  "demo_window = \<lparr>wi_address = ''0x1'', wi_capture_id = ''7''\<rparr>"

definition demo_target :: target_descriptor where
  "demo_target = \<lparr>td_identity = demo_window, td_process_id = 42, td_process_start_ticks = 9,
     td_launch_nonce_sha256 = replicate 64 (CHR ''a''), td_executable_sha256 = replicate 64 (CHR ''b''),
     td_runtime_sha256 = replicate 64 (CHR ''c''), td_wine_executable_sha256 = replicate 64 (CHR ''d''),
     td_wine_prefix_sha256 = replicate 64 (CHR ''e'')\<rparr>"

text \<open>A clock that moves one microsecond per call and by every sleep.\<close>

fun demo_clock :: "hcall list \<Rightarrow> int" where
  "demo_clock [] = 1000"
| "demo_clock (CSleep n # l) = demo_clock l + n"
| "demo_clock (c # l) = demo_clock l + 1000"

definition demo_lease :: "hcall list \<Rightarrow> claim_lease" where
  "demo_lease l = \<lparr>cl_identity = demo_window, cl_token = ''token'',
     cl_expires_ns = demo_clock l + 60000000000, cl_generation = Some 1,
     cl_broker_instance = Some ''broker'', cl_target = Some demo_target\<rparr>"

definition demo_ack :: "hcall list \<Rightarrow> string \<Rightarrow> string \<Rightarrow> int option \<Rightarrow> input_ack" where
  "demo_ack l b st deadline = \<lparr>ak_injected_ns = demo_clock l, ak_acknowledged_ns = demo_clock l,
     ak_acknowledged = True, ak_detail = [], ak_operation_id = Some (int (length l)),
     ak_identity = Some demo_window, ak_claim_generation = Some 1,
     ak_broker_instance = Some ''broker'', ak_button = Some b, ak_button_state = Some st,
     ak_accepted_release_deadline_ns = deadline, ak_clock_domain = Some MONOTONIC_CLOCK_DOMAIN\<rparr>"

fun down_deadline :: "hcall list \<Rightarrow> int option" where
  "down_deadline [] = None"
| "down_deadline (CButtonDown _ _ _ _ _ deadline _ # l) = Some deadline"
| "down_deadline (_ # l) = down_deadline l"

definition demo_rect :: hrect where
  "demo_rect = \<lparr>hr_x = NInt 0, hr_y = NInt 0, hr_width = NInt 640, hr_height = NInt 480\<rparr>"

definition demo_packet :: "hcall list \<Rightarrow> capture_packet" where
  "demo_packet l = \<lparr>cp_pixels = ''px'', cp_identity = demo_window, cp_window_bounds = demo_rect,
     cp_pixel_width = 640, cp_pixel_height = 480, cp_request_ns = demo_clock l,
     cp_start_ns = demo_clock l, cp_completion_ns = demo_clock l,
     cp_presentation_ns = Some (demo_clock l), 
     cp_source_sequence = Some (int (length (filter (\<lambda>c. case c of CCapture _ _ \<Rightarrow> True | _ \<Rightarrow> False) l))),
     cp_color_format = ''BGRA'',
     cp_canonical_pixel_sha256 = Some (take 64 (replicate (length l) (CHR ''a'') @ replicate 64 (CHR ''b'')))\<rparr>"

definition demo_geometry :: geometry_assessment where
  "demo_geometry = \<lparr>ga_crop = demo_rect, ga_transform_age_ns = 0, ga_residual_px = NInt 0,
     ga_confidence = NInt 1, ga_drifted = False, ga_calibration_id = ''cal''\<rparr>"

definition demo_env :: harness_env where
  "demo_env = \<lparr>en_clock = demo_clock,
     en_safety = (\<lambda>_. Inr \<lparr>sf_exact_background_capture = True, sf_exact_window_claims = True,
       sf_targeted_input_safe = True, sf_detail = []\<rparr>),
     en_capabilities = (\<lambda>_. Inr \<lparr>ic_explicit_button_down = True, ic_explicit_button_up = True,
       ic_release_all_buttons = True, ic_atomic_click_only = False,
       ic_automatic_release_deadline = True, ic_neutralizes_on_claim_end_or_expiry = True\<rparr>),
     en_claim = (\<lambda>l. Inr (Obj (demo_lease l))), en_renew = (\<lambda>l. Inr (Obj (demo_lease l))),
     en_release_claim = (\<lambda>_. Inr ()), en_capture = (\<lambda>l. Inr (demo_packet l)),
     en_cursor = (\<lambda>l. Inr \<lparr>cs_x = NInt 1, cs_y = NInt 1, cs_observed_ns = demo_clock l\<rparr>),
     en_button_down = (\<lambda>l. Inr (case l of CButtonDown _ _ b _ _ d _ # _ \<Rightarrow>
        Obj (demo_ack l b ''down'' (Some d)) | _ \<Rightarrow> Alien)),
     en_button_up = (\<lambda>l. Inr (case l of CButtonUp _ _ b _ _ # k \<Rightarrow>
        Obj (demo_ack l b ''up'' (down_deadline k)) | _ \<Rightarrow> Alien)),
     en_release_all = (\<lambda>l. Inr (Obj (demo_ack l ''all'' ''neutral'' None))),
     en_assess = (\<lambda>_. Inr demo_geometry),
     en_client_to_window = (\<lambda>l. case l of CClientToWindow x y _ # _ \<Rightarrow> Inr (PyFloat x, PyFloat y)
        | _ \<Rightarrow> Inl (Exn ValueError [])),
     en_classify = (\<lambda>_. Inr \<lparr>sc_state = GAMEPLAY, sc_confidence = NInt 1, sc_detail = []\<rparr>),
     en_observe_frame = (\<lambda>_. Inr ()), en_verify_runtime = (\<lambda>_. Inr ()),
     en_verify_input = (\<lambda>_. Inr ()), en_verify_target = (\<lambda>_. Inr ()), en_sleep = (\<lambda>_. Inr ()),
     en_sha256 = (\<lambda>s. s), en_hypot = (\<lambda>a b. a)\<rparr>"

definition demo_limits :: harness_limits where
  "demo_limits = \<lparr>hl_lease_seconds = 60, hl_frame_buffer_capacity = 2, hl_stale_after_ns = 100000000,
     hl_max_duplicate_run = 2, hl_max_source_drop_gap = 0, hl_client_width = NInt 640,
     hl_client_height = NInt 480, hl_max_transform_age_ns = 1000000000,
     hl_max_geometry_residual_px = NInt 2, hl_min_geometry_confidence = NFlt (Fin (1 / 2)),
     hl_min_screen_confidence = NFlt (Fin (1 / 2)), hl_max_crop_drift_px = NInt 1,
     hl_press_duration_ns = Some 50000000, hl_max_press_duration_error_ns = 5000000,
     hl_min_click_interval_ns = Some 1000000, hl_lease_cleanup_margin_ns = 100000000,
     hl_cursor_mode = ''abstract_teleport'', hl_max_cursor_speed_per_second = None\<rparr>"

definition demo :: harness_config where
  "demo = \<lparr>hc_identity = demo_window, hc_limits = demo_limits, hc_has_guard = True,
     hc_has_observer = False, hc_env = demo_env\<rparr>"

definition demo_start :: harness where
  "demo_start = (case harness_init demo of Inr s \<Rightarrow> s)"

definition demo_run :: "harness_op list \<Rightarrow> harness" where
  "demo_run = foldl (harness_step demo) demo_start"

section \<open>The properties\<close>

abbreviation demo_shot :: harness_op where
  "demo_shot \<equiv> OpFire (PyStr ''weak'') (PyFloat (Fin 10)) (PyFloat (Fin 20))"

abbreviation demo_open :: harness where
  "demo_open \<equiv> demo_run [OpOpen]"

lemma demo_init: "harness_init demo = Inr demo_start"
  by code_simp

lemma demo_opening: "case harness_call demo OpOpen demo_start of (r, t) \<Rightarrow> r = Inr () \<and>
    \<not> h_stopped t \<and> map_option cl_token (h_lease t) = Some ''token'' \<and> \<not> held (h_log t) \<and>
    \<not> h_pending t \<and> map_option supports_safe_shots (h_capabilities t) = Some True \<and>
    length (fb_frames (h_buffer t)) = 1"
  by code_simp

lemma demo_run_snoc: "demo_run (xs @ [x]) = snd (harness_call demo x (demo_run xs))"
  by (simp add: demo_run_def harness_step_call del: harness_step.simps harness_call.simps)

lemma demo_opened: "harness_call demo OpOpen demo_start = (Inr (), demo_open)" "\<not> h_stopped demo_open"
  "map_option cl_token (h_lease demo_open) = Some ''token''" "\<not> held (h_log demo_open)"
  "\<not> h_pending demo_open" "map_option supports_safe_shots (h_capabilities demo_open) = Some True"
  "length (fb_frames (h_buffer demo_open)) = 1"
  using demo_opening by (simp_all add: demo_run_def harness_step_call del: harness_step.simps harness_call.simps split: prod.splits)

text \<open>C1: whenever \<open>renew\<close>, \<open>capture\<close>, \<open>fire\<close> or \<open>record_action_effect\<close> of a harness that holds a
  claim raises an \<open>Exception\<close>, the harness is stopped and holds no lease, and its last calls to
  the provider are \<open>release_all_buttons\<close> and then \<open>release_exact_window_claim\<close>, both with the
  claim's token; between the two it only read the clock.  This holds for every provider, every
  point of failure and every argument.\<close>

theorem aborting_calls_fail_closed:
  assumes "h_lease s = Some l" "\<not> h_stopped s" "aborting x"
    and "harness_call C x s = (Inl e, t)" "is_exception e"
  shows "h_stopped t \<and> h_lease t = None \<and> (\<exists>pre m. set m \<subseteq> {CClock} \<and>
    h_log t = CReleaseClaim (hc_identity C) (cl_token l) # m @
      CReleaseAll (hc_identity C) (cl_token l) # CClock # pre @ h_log s)"
proof -
  have "live (cl_token l) (h_log s) s" using assms(1,2) by (simp add: live_def)
  from wp_raiseD [OF aborting_shut [OF this assms(3)] assms(4)] assms(5)
  show ?thesis by (simp add: shut_def)
qed

lemma demo_bad_shot: "case harness_call demo (OpFire (PyStr ''both'') PyNone PyNone) demo_open of
    (Inl e, t) \<Rightarrow> is_exception e | _ \<Rightarrow> False"
  by code_simp

theorem aborting_calls_fail_closed_witness:
  "case harness_call demo (OpFire (PyStr ''both'') PyNone PyNone) demo_open of
     (Inl e, t) \<Rightarrow> h_stopped t \<and> h_lease t = None | _ \<Rightarrow> False"
proof -
  obtain l where l: "h_lease demo_open = Some l" using demo_opened(3) by auto
  show ?thesis
    using demo_bad_shot aborting_calls_fail_closed [OF l, of "OpFire (PyStr ''both'') PyNone PyNone" demo]
      demo_opened(2) by (simp split: prod.splits sum.splits)
qed

lemma stopped_calls: 
  "h_stopped s \<Longrightarrow> snd (harness_call C x s) = s"
  "h_stopped s \<Longrightarrow> aborting x \<or> x = OpOpen \<Longrightarrow> case fst (harness_call C x s) of Inl e \<Rightarrow> exn_class e = HarnessError | Inr _ \<Rightarrow> False"
  by (cases x; auto simp: require_active_def pbind_def pget_def praise_def pret_def pguard_def drop_result_def pwhen_def pattempt_def
     renew_def capture_def fire_def record_action_effect_def harness_open_def harness_close_def harness_exit_def split: option.split)+

text \<open>A stopped harness stays as it is: no method changes its state or calls the provider (the
  log is part of the state), and \<open>open\<close> and the methods that act on a claim raise \<open>HarnessError\<close>.\<close>

theorem stopped_is_final:
  assumes "h_stopped s"
  shows "snd (harness_call C x s) = s \<and> (aborting x \<or> x = OpOpen \<longrightarrow>
    (\<exists>e. fst (harness_call C x s) = Inl e \<and> exn_class e = HarnessError))"
  using stopped_calls [OF assms, where C = C and x = x] by (auto split: sum.splits)

lemma demo_closed: "h_stopped (demo_run [OpOpen, OpClose]) = True"
  by code_simp

theorem stopped_is_final_witness:
  "\<exists>e. harness_call demo demo_shot (demo_run [OpOpen, OpClose]) = (Inl e, demo_run [OpOpen, OpClose])"
  using stopped_is_final [of "demo_run [OpOpen, OpClose]" demo demo_shot] demo_closed
  by (metis aborting.simps(3) prod.collapse)

lemma harness_init_inv: "harness_init C = Inr s \<Longrightarrow> harness_inv C s"
  by (auto simp: harness_init_def mk_frame_buffer_def rbind_Inr harness_inv_def lease_inv_def frame_inv_def
     books_inv_def pending_effects_def dest: positive_plain_intD split: if_splits)

lemma run_inv: "harness_init C = Inr s \<Longrightarrow> harness_inv C (foldl (harness_step C) s xs)"
  by (rule harness_machine.inv_run) (rule harness_init_inv)

text \<open>C8: after any sequence of method calls a stopped harness holds no lease, no action is left
  pending, at most one executed shot awaits its effect, proposals are numbered 1, 2, ... without
  a gap, the executed rows are a subsequence of the proposals, and the frame buffer stays within
  its capacity and holds the most recent frames with consecutive numbers.\<close>

theorem harness_books_hold:
  assumes "harness_init C = Inr s0" "s = foldl (harness_step C) s0 calls"
  shows "(h_stopped s \<longrightarrow> h_lease s = None) \<and> \<not> h_pending s \<and> pending_effects s \<le> 1 \<and>
    map pa_sequence (h_proposed s) = [1 .. h_action_sequence s] \<and>
    subseq (map ea_proposed (h_executed s)) (h_proposed s) \<and>
    length (fb_frames (h_buffer s)) \<le> fb_maxlen (h_buffer s) \<and>
    map fr_sequence (fb_frames (h_buffer s)) =
      [h_frame_sequence s - int (length (fb_frames (h_buffer s))) + 1 .. h_frame_sequence s]"
  using run_inv [OF assms(1), of calls] assms(2)
  by (simp add: harness_inv_def lease_inv_def frame_inv_def books_inv_def Let_def)

theorem harness_books_hold_witness:
  "pending_effects (demo_run [OpOpen, demo_shot, demo_shot]) \<le> 1"
  using harness_books_hold [OF demo_init refl, of "[OpOpen, demo_shot, demo_shot]"]
  unfolding demo_run_def by blast

text \<open>C2: every row any sequence of calls reports as EXECUTED has a button-down and a later
  button-up acknowledgement for the same button, window and claim generation, both bound to the
  release deadline the harness asked for; the press lasted the configured time within the
  configured error, and it was over before the deadline at which the broker would have released
  the button by itself.\<close>

theorem executed_shots_were_released:
  assumes "harness_init C = Inr s0"
    and "a \<in> set (h_executed (foldl (harness_step C) s0 calls))" "ea_status a = EXECUTED"
  shows "\<exists>d u dl fin press i j b.
     ea_down a = Some (Obj d) \<and> ea_up a = Some (Obj u) \<and> ea_release_deadline_ns a = Some dl \<and>
     ea_completed_ns a = Some fin \<and> hl_press_duration_ns (hc_limits C) = Some press \<and>
     ak_operation_id d = Some i \<and> ak_operation_id u = Some j \<and> i < j \<and>
     ak_button d = Some b \<and> ak_button u = Some b \<and>
     ak_button_state d = Some ''down'' \<and> ak_button_state u = Some ''up'' \<and>
     ak_identity d = Some (hc_identity C) \<and> ak_identity u = Some (hc_identity C) \<and>
     ak_claim_generation d = ak_claim_generation u \<and>
     ak_accepted_release_deadline_ns d = Some dl \<and> ak_accepted_release_deadline_ns u = Some dl \<and>
     ak_injected_ns d + press + hl_lease_cleanup_margin_ns (hc_limits C) \<le> dl \<and>
     \<bar>ak_injected_ns u - ak_injected_ns d - press\<bar> \<le> hl_max_press_duration_error_ns (hc_limits C) \<and>
     ak_acknowledged_ns u \<le> fin \<and> fin < dl"
  using run_inv [OF assms(1), of calls] assms(2,3)
  by (simp add: harness_inv_def books_inv_def pressed_ok_def)

lemma demo_shot_run: "case harness_call demo demo_shot demo_open of
   (r, t) \<Rightarrow> r = Inr () \<and> map ea_status (h_executed t) = [EXECUTED] \<and> held (h_log t) = False \<and> h_last_click_ns t \<noteq> None"
  by code_simp

lemma demo_shot_executed: "map ea_status (h_executed (demo_run [OpOpen, demo_shot])) = [EXECUTED]"
  using demo_shot_run by (simp add: demo_run_def harness_step_call del: harness_step.simps harness_call.simps split: prod.splits)

theorem executed_shots_were_released_witness:
  "\<exists>a. h_executed (demo_run [OpOpen, demo_shot]) = [a] \<and> ea_down a \<noteq> None \<and> ea_up a \<noteq> None"
proof -
  obtain a where a: "h_executed (demo_run [OpOpen, demo_shot]) = [a]" "ea_status a = EXECUTED"
    using demo_shot_executed by auto
  show ?thesis
    using executed_shots_were_released [OF demo_init, of a "[OpOpen, demo_shot]"] a
    by (auto simp: demo_run_def)
qed

text \<open>C3: a method that returns, or raises an \<open>Exception\<close>, never leaves a button held: if the newest
  input edge sent to the provider was not a button-down before the call, it is not one after.\<close>

theorem no_button_left_held:
  assumes "\<not> held (h_log s)" "harness_call C x s = (r, t)" "\<forall>e. r = Inl e \<longrightarrow> is_exception e"
  shows "\<not> held (h_log t)"
proof -
  have "wp (harness_call C x) (\<lambda>_. free) (\<lambda>e t. is_exception e \<longrightarrow> free t) s"
    using assms(1) by (intro call_free) (simp add: free_def)
  then show ?thesis using assms(2,3) by (cases r) (auto simp: wp_def free_def)
qed

theorem no_button_left_held_witness:
  "\<exists>t. harness_call demo demo_shot demo_open = (Inr (), t) \<and> \<not> held (h_log t)"
proof -
  obtain t where t: "harness_call demo demo_shot demo_open = (Inr (), t)"
    using demo_shot_run by (auto simp del: harness_call.simps split: prod.splits)
  then show ?thesis using no_button_left_held [OF demo_opened(4) t] by auto
qed

text \<open>a provider that does not declare explicit edges, broker deadlines and claim-end
  neutralisation never gets a button-down: \<open>fire\<close> raises and sends none.\<close>

theorem no_press_without_capabilities:
  assumes "\<forall>c. h_capabilities s = Some c \<longrightarrow> \<not> supports_safe_shots c" "fire C k x y s = (r, t)"
  shows "(\<exists>e. r = Inl e) \<and> filter is_down (h_log t) = filter is_down (h_log s)"
  using fire_unsafe [of s C k x y] assms by (cases r) (simp_all add: wp_def)

theorem no_press_without_capabilities_witness:
  "case fire demo (PyStr ''weak'') (PyInt 1) (PyInt 1) (demo_open\<lparr>h_capabilities := None\<rparr>) of
     (r, t) \<Rightarrow> filter is_down (h_log t) = filter is_down (h_log demo_open)"
  using no_press_without_capabilities [of "demo_open\<lparr>h_capabilities := None\<rparr>" demo "PyStr ''weak''" "PyInt 1" "PyInt 1"]
  by (simp split: prod.splits)

text \<open>A successful \<open>renew\<close> was asked for before the lease expired, and the new lease has the
  same window, token, generation, broker and target, a strictly later expiry, and was still
  live when the provider call returned.\<close>

theorem renewal_keeps_the_claim:
  assumes "renew C s = (Inr (), t)"
  shows "\<exists>l l'. h_lease s = Some l \<and> h_lease t = Some l' \<and> cl_identity l' = hc_identity C \<and>
    cl_token l' = cl_token l \<and> cl_generation l' = cl_generation l \<and>
    cl_broker_instance l' = cl_broker_instance l \<and> cl_target l' = cl_target l \<and>
    cl_expires_ns l < cl_expires_ns l' \<and>
    en_clock (hc_env C) (CClock # h_log s) < cl_expires_ns l \<and>
    en_clock (hc_env C) (h_log t) < cl_expires_ns l'"
  using wp_resultD [OF renew_ok_wp assms] by blast

lemma demo_renew: "case harness_call demo OpRenew demo_open of (r, t) \<Rightarrow> r = Inr ()"
  by code_simp

theorem renewal_keeps_the_claim_witness:
  "\<exists>l l'. h_lease demo_open = Some l \<and> h_lease (demo_run [OpOpen, OpRenew]) = Some l' \<and>
     cl_expires_ns l < cl_expires_ns l'"
proof -
  obtain t where t: "renew demo demo_open = (Inr (), t)"
    using demo_renew by (auto split: prod.splits)
  then have "t = demo_run [OpOpen, OpRenew]"
    by (simp add: demo_run_def final_def)
  with renewal_keeps_the_claim [OF t] show ?thesis by blast
qed

text \<open>A captured frame belongs to the harness's window, takes the next sequence number, is the
  newest frame of the buffer, was observed strictly later than the frame before it, and its
  source sequence advances without exceeding the configured gap.\<close>

theorem captures_move_forward:
  assumes "capture C s = (Inr r, t)" "0 \<le> hl_max_source_drop_gap (hc_limits C)"
  shows "cp_identity (fr_capture r) = hc_identity C \<and> fr_sequence r = h_frame_sequence s + 1 \<and>
    h_frame_sequence t = fr_sequence r \<and> h_buffer t = snd (fb_append (h_buffer s) r) \<and>
    (\<forall>prior. fb_latest (h_buffer s) = Some prior \<longrightarrow>
       packet_observed_ns (fr_capture prior) < packet_observed_ns (fr_capture r) \<and>
       (\<forall>a b. cp_source_sequence (fr_capture prior) = Some a \<longrightarrow>
          cp_source_sequence (fr_capture r) = Some b \<longrightarrow>
          a < b \<and> b - a - 1 \<le> hl_max_source_drop_gap (hc_limits C)))"
  using wp_resultD [OF capture_ok assms(1)] assms(2) by (simp add: captured_def newer_def Let_def)

lemma demo_capture: "case capture demo demo_open of (Inr r, t) \<Rightarrow> True | _ \<Rightarrow> False"
  by code_simp

theorem captures_move_forward_witness:
  "case capture demo demo_open of (Inr r, t) \<Rightarrow> fr_sequence r = h_frame_sequence demo_open + 1 | _ \<Rightarrow> False"
  using demo_capture captures_move_forward [of demo demo_open]
  by (auto simp: demo_def demo_limits_def split: prod.splits sum.splits)

text \<open>resolving an effect changes exactly one row, the one asked for; the row was an executed,
  released shot whose effect was pending, and only its effect fields change; the frame it refers
  to is in the buffer and was observed after the button was released; a confirmed effect needs
  a usable frame and takes its time, and a missed effect has no visible time.\<close>

theorem effects_resolve_once:
  assumes "record_action_effect C n st fs fv d s = (Inr r, t)"
  shows "\<exists>i u f. i < length (h_executed s) \<and> h_executed t = (h_executed s)[i := r] \<and>
    pa_sequence (ea_proposed (h_executed s ! i)) = int_of n \<and>
    ea_status (h_executed s ! i) = EXECUTED \<and> ea_effect_status (h_executed s ! i) = PENDING \<and>
    ea_up (h_executed s ! i) = Some (Obj u) \<and> f \<in> set (fb_frames (h_buffer s)) \<and>
    ak_acknowledged_ns u \<le> packet_observed_ns (fr_capture f) \<and>
    r = (h_executed s ! i)\<lparr>ea_effect_status := ea_effect_status r,
           ea_first_visible_ns := ea_first_visible_ns r,
           ea_effect_frame_sequence := Some (fr_sequence f),
           ea_effect_detail := ea_effect_detail r\<rparr> \<and>
    ea_effect_status r \<noteq> PENDING \<and>
    (ea_effect_status r = CONFIRMED \<longrightarrow> frame_usable f \<and>
       ea_first_visible_ns r = Some (packet_observed_ns (fr_capture f))) \<and>
    (ea_effect_status r = MISSED \<longrightarrow> ea_first_visible_ns r = None)"
proof -
  obtain i where i: "i < length (h_executed s)" "resolved s (h_executed s ! i) r"
    "pa_sequence (ea_proposed r) = int_of n" "h_executed t = (h_executed s)[i := r]"
    using wp_resultD [OF effect_wp assms] by blast
  have "pa_sequence (ea_proposed (h_executed s ! i)) = int_of n"
    using i(3) resolved_keeps(2) [OF i(2)] by simp
  with i(1,2,4) show ?thesis unfolding resolved_def by blast
qed

lemma demo_effect: "case harness_call demo (OpEffect (PyInt 1) (PyStr ''confirmed'') (PyInt 2) PyNone (PyStr ''''))
   (demo_run [OpOpen, demo_shot, OpCapture]) of (r, t) \<Rightarrow> r = Inr ()"
  by code_simp

theorem effects_resolve_once_witness:
  "\<exists>r t. record_action_effect demo (PyInt 1) (PyStr ''confirmed'') (PyInt 2) PyNone (PyStr '''')
     (demo_run [OpOpen, demo_shot, OpCapture]) = (Inr r, t) \<and> ea_effect_status r \<noteq> PENDING"
proof -
  obtain r t where t: "record_action_effect demo (PyInt 1) (PyStr ''confirmed'') (PyInt 2) PyNone (PyStr '''')
     (demo_run [OpOpen, demo_shot, OpCapture]) = (Inr r, t)"
    using demo_effect by (auto simp: drop_result_def pbind_def split: prod.splits sum.splits)
  with effects_resolve_once [OF t] show ?thesis by blast
qed

text \<open>C37: a call of \<open>fire\<close> either leaves the harness as it was (it was not active), or records
  exactly one proposal with the next number; when it returns, exactly one executed row for that
  proposal with a pending effect, and the click-rate limit was respected; when it raises, at most
  one row, rejected or failed.\<close>

theorem fire_records_one_shot:
  assumes "\<not> h_pending s" "fire C k x y s = (r, t)"
  shows "t = s \<or> (\<exists>p. h_proposed t = h_proposed s @ [p] \<and>
    pa_sequence p = h_action_sequence s + 1 \<and> h_action_sequence t = h_action_sequence s + 1 \<and>
    \<not> h_pending t \<and> h_buffer t = h_buffer s \<and>
    (case r of
       Inr a \<Rightarrow> h_executed t = h_executed s @ [a] \<and> ea_proposed a = p \<and> ea_status a = EXECUTED \<and>
         ea_effect_status a = PENDING \<and> pending_effects s = 0 \<and>
         (\<forall>gap prev. hl_min_click_interval_ns (hc_limits C) = Some gap \<longrightarrow>
            h_last_click_ns s = Some prev \<longrightarrow> gap \<le> pa_requested_ns p - prev)
     | Inl e \<Rightarrow> h_executed t = h_executed s \<or>
         (\<exists>a. h_executed t = h_executed s @ [a] \<and> ea_proposed a = p \<and> ea_status a \<noteq> EXECUTED)))"
proof (cases r)
  case (Inl e)
  from wp_raiseD [OF fire_books [OF assms(1)] assms(2) [unfolded Inl]] Inl show ?thesis
    by (auto simp: not_fired_def one_proposal_def)
next
  case (Inr a)
  from wp_resultD [OF fire_books [OF assms(1)] assms(2) [unfolded Inr]]
    wp_resultD [OF fire_ok_wp assms(2) [unfolded Inr]] Inr show ?thesis
    by (auto simp: fired_def one_proposal_def)
qed

theorem fire_records_one_shot_witness:
  "case fire demo (PyStr ''weak'') (PyFloat (Fin 10)) (PyFloat (Fin 20)) demo_open of
     (r, t) \<Rightarrow> t = demo_open \<or> h_action_sequence t = h_action_sequence demo_open + 1"
  using fire_records_one_shot [OF demo_opened(5), of demo "PyStr ''weak''" "PyFloat (Fin 10)" "PyFloat (Fin 20)"]
  by (auto split: prod.splits)

text \<open>A successful \<open>open\<close> holds a lease on exactly the configured window, with generation,
  broker and target bound, capabilities read and the cursor observed.\<close>

theorem open_claims_the_window:
  assumes "harness_open C s = (Inr (), t)"
  shows "\<exists>l. h_lease t = Some l \<and> cl_identity l = hc_identity C \<and> cl_generation l \<noteq> None \<and>
    cl_broker_instance l \<noteq> None \<and> h_target t = cl_target l \<and> \<not> h_stopped t \<and>
    h_capabilities t \<noteq> None \<and> h_cursor t \<noteq> None"
  using wp_resultD [OF open_ok assms] by (auto simp: holding_def)

theorem open_claims_the_window_witness:
  "\<exists>l. h_lease demo_open = Some l \<and> cl_identity l = hc_identity demo"
  using open_claims_the_window [of demo demo_start demo_open] demo_opened(1) by auto

text \<open>\<open>close\<close> always leaves the harness stopped; a running one gives up its lease, and when
  \<open>close\<close> returns normally no cleanup step failed and the buttons are known neutral.\<close>

theorem close_releases:
  assumes "harness_close C s = (r, t)"
  shows "h_stopped t \<and> (\<not> h_stopped s \<longrightarrow> h_lease t = None) \<and>
    (r = Inr () \<longrightarrow> h_cleanup_errors t = [] \<and>
       (\<not> h_stopped s \<and> h_lease s \<noteq> None \<longrightarrow> h_buttons_neutral t))"
  using close_wp [of C s] assms by (cases r) (auto simp: wp_def)

theorem close_releases_witness:
  "h_stopped (demo_run [OpOpen, OpClose]) \<and> h_lease (demo_run [OpOpen, OpClose]) = None"
  using close_releases [of demo demo_open] demo_opened(2) demo_run_snoc [of "[OpOpen]" OpClose]
  by (cases "harness_close demo demo_open") simp

text \<open>Limits that construct are within the documented bounds: positive capacity, staleness,
  margin and timing error, a lease of 5 to 300 seconds, positive optional durations, a known
  cursor mode, and a speed whenever the cursor is speed-bounded.\<close>

theorem limits_are_validated:
  assumes "mk_harness_limits a = Inr l"
  shows "5 \<le> hl_lease_seconds l \<and> hl_lease_seconds l \<le> 300 \<and>
     0 < hl_frame_buffer_capacity l \<and> 0 < hl_stale_after_ns l \<and> 0 < hl_max_transform_age_ns l \<and>
     0 < hl_lease_cleanup_margin_ns l \<and> 0 < hl_max_press_duration_error_ns l \<and>
     0 \<le> hl_max_duplicate_run l \<and> 0 \<le> hl_max_source_drop_gap l \<and>
     (\<forall>n. hl_press_duration_ns l = Some n \<longrightarrow> 0 < n) \<and>
     (\<forall>n. hl_min_click_interval_ns l = Some n \<longrightarrow> 0 < n) \<and>
     hl_cursor_mode l \<in> {''unsupported'', ''abstract_teleport'', ''bounded_speed''} \<and>
     (hl_cursor_mode l = ''bounded_speed'' \<longrightarrow> hl_max_cursor_speed_per_second l \<noteq> None)"
  using mk_harness_limits_ok [OF assms] by (simp add: limits_ok_def)

lemma demo_args: "case mk_harness_limits (default_limits\<lparr>la_min_geometry_confidence := PyFloat (Fin 1),
    la_min_screen_confidence := PyFloat (Fin 1)\<rparr>) of Inr l \<Rightarrow> True | _ \<Rightarrow> False"
  by code_simp

theorem limits_are_validated_witness:
  "case mk_harness_limits (default_limits\<lparr>la_min_geometry_confidence := PyFloat (Fin 1),
    la_min_screen_confidence := PyFloat (Fin 1)\<rparr>) of Inr l \<Rightarrow> 0 < hl_stale_after_ns l | _ \<Rightarrow> False"
  using demo_args limits_are_validated by (auto split: sum.splits)

end
