(* ===== verification/Exact_Wire.thy ===== *)
theory Exact_Wire
  imports Py_Float "HOL-Library.Word"
begin

text \<open>
  The wire format of the exact physics worker (\<open>irisu_env/exact_ipc.py\<close>): little-endian
  \<open>struct\<close> layouts, the action encoder, the decoders of observations, transitions and events,
  and the allocation-light validators the vector path uses instead.  A byte is an 8-bit word;
  a double that is only carried (packed, unpacked, compared with nothing) is its 64 bits.
\<close>

section \<open>Little-endian layouts\<close>

type_synonym byte = "8 word"
type_synonym f64 = "64 word"

fun le_enc :: "nat \<Rightarrow> nat \<Rightarrow> byte list" where
  "le_enc 0 v = []"
| "le_enc (Suc n) v = word_of_nat (v mod 256) # le_enc n (v div 256)"

fun le_dec :: "byte list \<Rightarrow> nat" where
  "le_dec [] = 0"
| "le_dec (b # bs) = unat b + 256 * le_dec bs"

text \<open>The fields of a \<open>struct\<close> format: \<open>B H I Q\<close> unsigned, \<open>i q\<close> signed; a \<open>d\<close> is carried as its
  eight bytes.\<close>

datatype field = U nat | S nat

fun field_size :: "field \<Rightarrow> nat" where
  "field_size (U n) = n" | "field_size (S n) = n"

fun field_dec :: "field \<Rightarrow> byte list \<Rightarrow> int" where
  "field_dec (U n) bs = int (le_dec bs)"
| "field_dec (S n) bs = (if 2 * le_dec bs < 256 ^ n then int (le_dec bs)
                         else int (le_dec bs) - 256 ^ n)"

fun field_enc :: "field \<Rightarrow> int \<Rightarrow> byte list" where
  "field_enc (U n) v = le_enc n (nat (v mod 256 ^ n))"
| "field_enc (S n) v = le_enc n (nat (v mod 256 ^ n))"

text \<open>The values \<open>struct.pack\<close> accepts for a field.\<close>

fun field_ok :: "field \<Rightarrow> int \<Rightarrow> bool" where
  "field_ok (U n) v \<longleftrightarrow> 0 \<le> v \<and> v < 256 ^ n"
| "field_ok (S n) v \<longleftrightarrow> - (256 ^ n) \<le> 2 * v \<and> 2 * v < 256 ^ n"

definition fmt_size :: "field list \<Rightarrow> nat" where
  "fmt_size fs = sum_list (map field_size fs)"

fun unpack :: "field list \<Rightarrow> byte list \<Rightarrow> int list" where
  "unpack [] bs = []"
| "unpack (f # fs) bs =
     field_dec f (take (field_size f) bs) # unpack fs (drop (field_size f) bs)"

fun pack :: "field list \<Rightarrow> int list \<Rightarrow> byte list" where
  "pack (f # fs) (v # vs) = field_enc f v @ pack fs vs"
| "pack _ _ = []"

text \<open>\<open>struct.unpack_from(payload, offset)\<close> where the buffer is known to be long enough.\<close>

abbreviation unpack_from :: "field list \<Rightarrow> byte list \<Rightarrow> nat \<Rightarrow> int list" where
  "unpack_from fs payload offset \<equiv> unpack fs (drop offset payload)"

definition HEADER :: "field list" where "HEADER = [U 4, U 2, U 2, U 4, U 4]"
definition STATUS :: "field list" where "STATUS = [S 4]"
definition HELLO_FIXED :: "field list" where "HELLO_FIXED = [U 4, U 4, U 4, U 4, U 8, U 4, U 4]"
definition RESET_REQUEST :: "field list" where "RESET_REQUEST = [U 8]"
definition STEP_REQUEST :: "field list" where "STEP_REQUEST = [U 4, U 8, U 8, U 4, U 4]"
definition OBSERVATION_HEADER :: "field list" where
  "OBSERVATION_HEADER = [U 8, S 8, S 8, S 8, U 8] @ replicate 6 (U 8) @ replicate 5 (U 4) @ replicate 4 (U 1)"
definition BODY :: "field list" where
  "BODY = [U 8, S 8, U 8] @ replicate 7 (U 8) @ [U 4, S 4, U 4, U 4] @ replicate 4 (U 1)"
definition TRANSITION :: "field list" where
  "TRANSITION = [S 8, U 8, U 8, U 8, S 8, U 8, S 8, U 8] @ replicate 4 (U 4) @ replicate 4 (U 1)"
definition EVENT :: "field list" where "EVENT = [U 8, U 8, S 8, U 4, U 4, U 2, U 1, U 1]"
definition CONFIG_COUNT :: "field list" where "CONFIG_COUNT = [U 4]"
definition CONFIG_KEY_SIZE :: "field list" where "CONFIG_KEY_SIZE = [U 2]"
definition CONFIG_HASH :: "field list" where "CONFIG_HASH = [U 8]"
definition EVENT_GENERATION :: "field list" where "EVENT_GENERATION = [U 8]"
definition EVENT_COUNT :: "field list" where "EVENT_COUNT = [U 8]"
definition EXACT_ATTESTATION_FIXED :: "field list" where "EXACT_ATTESTATION_FIXED = [U 4, U 4, U 8]"

definition BODY_CAPACITY :: int where "BODY_CAPACITY = 196"
definition EVENT_DETAIL_CAPACITY :: int where "EVENT_DETAIL_CAPACITY = 96"

lemma fmt_sizes [simp]:
  "fmt_size HEADER = 16" "fmt_size STATUS = 4" "fmt_size HELLO_FIXED = 32"
  "fmt_size RESET_REQUEST = 8" "fmt_size STEP_REQUEST = 28" "fmt_size OBSERVATION_HEADER = 112"
  "fmt_size BODY = 100" "fmt_size TRANSITION = 84" "fmt_size EVENT = 36"
  "fmt_size CONFIG_COUNT = 4" "fmt_size CONFIG_KEY_SIZE = 2" "fmt_size CONFIG_HASH = 8"
  "fmt_size EVENT_GENERATION = 8" "fmt_size EVENT_COUNT = 8" "fmt_size EXACT_ATTESTATION_FIXED = 16"
  by (simp_all add: fmt_size_def HEADER_def STATUS_def HELLO_FIXED_def RESET_REQUEST_def
    STEP_REQUEST_def OBSERVATION_HEADER_def BODY_def TRANSITION_def EVENT_def CONFIG_COUNT_def
    CONFIG_KEY_SIZE_def CONFIG_HASH_def EVENT_GENERATION_def EVENT_COUNT_def
    EXACT_ATTESTATION_FIXED_def numeral_eq_Suc)

subsection \<open>Layout lemmas\<close>

lemma le_enc_length [simp]: "length (le_enc n v) = n"
  by (induction n arbitrary: v) auto

lemma byte_less [simp]: "unat (b :: byte) < 256"
  using unsigned_less [of b, where ?'a = nat] by simp

lemma le_dec_less: "le_dec bs < 256 ^ length bs"
proof (induction bs)
  case (Cons b bs)
  with byte_less [of b] show ?case by (simp del: byte_less)
qed simp

lemma le_dec_enc [simp]: "le_dec (le_enc n v) = v mod 256 ^ n"
  by (induction n arbitrary: v) (simp_all add: unat_of_nat take_bit_eq_mod mod_mult2_eq)

lemma le_enc_dec [simp]: "le_enc (length bs) (le_dec bs) = bs"
proof (induction bs)
  case (Cons b bs)
  with byte_less [of b] show ?case by simp
qed simp

lemma field_enc_length [simp]: "length (field_enc f v) = field_size f"
  by (cases f) simp_all

lemma pow256_nat: "nat (256 ^ n) = 256 ^ n"
  by (simp add: nat_power_eq)

lemma field_dec_enc: "field_ok f v \<Longrightarrow> field_dec f (field_enc f v) = v"
proof (cases f)
  case (U n)
  assume "field_ok f v"
  with U show ?thesis by (simp add: nat_mod_as_int)
next
  case (S n)
  assume ok: "field_ok f v"
  have m: "le_dec (le_enc n (nat (v mod 256 ^ n))) = nat (v mod 256 ^ n)"
    by (simp add: nat_mod_as_int)
  show ?thesis
  proof (cases "0 \<le> v")
    case True
    with ok S have "v mod 256 ^ n = v" by simp
    moreover have "2 * nat v < 256 ^ n \<longleftrightarrow> 2 * v < 256 ^ n"
      using True by (metis nat_int_comparison(2) nat_mult_distrib of_nat_0_le_iff of_nat_numeral pow256_nat nat_less_eq_zless mult_nonneg_nonneg zero_le_numeral nat_numeral)
    ultimately show ?thesis using ok S True m by simp
  next
    case False
    with ok S have "(v + 256 ^ n) mod 256 ^ n = v + 256 ^ n" by (intro mod_pos_pos_trivial) auto
    then have v: "v mod 256 ^ n = v + 256 ^ n" by simp
    have "\<not> 2 * nat (v + 256 ^ n) < 256 ^ n"
    proof
      assume "2 * nat (v + 256 ^ n) < 256 ^ n"
      then have "int (2 * nat (v + 256 ^ n)) < int (256 ^ n)" by (simp only: of_nat_less_iff)
      then show False using ok S by simp
    qed
    with v S m False ok show ?thesis by simp
  qed
qed

lemma pack_length: "length vs = length fs \<Longrightarrow> length (pack fs vs) = fmt_size fs"
  by (induction fs vs rule: list_induct2') (simp_all add: fmt_size_def)

lemma unpack_length [simp]: "length (unpack fs bs) = length fs"
  by (induction fs arbitrary: bs) simp_all

lemma unpack_pack: "list_all2 field_ok fs vs \<Longrightarrow> unpack fs (pack fs vs @ rest) = vs"
  by (induction fs vs rule: list_all2_induct) (simp_all add: field_dec_enc)

lemma field_enc_dec: "length bs = field_size f \<Longrightarrow> field_enc f (field_dec f bs) = bs"
proof -
  assume n: "length bs = field_size f"
  have "le_dec bs < 256 ^ length bs" by (rule le_dec_less)
  then have l: "int (le_dec bs) < 256 ^ length bs" by (metis of_nat_less_iff of_nat_numeral of_nat_power)
  have "nat ((int (le_dec bs) - 256 ^ length bs) mod 256 ^ length bs) = le_dec bs"
    using l by (simp add: minus_mod_self2)
  with l n le_enc_dec [of bs] show ?thesis
    by (cases f) (simp_all add: mod_pos_pos_trivial)
qed

lemma pack_unpack: "length bs = fmt_size fs \<Longrightarrow> pack fs (unpack fs bs) = bs"
  by (induction fs arbitrary: bs) (simp_all add: fmt_size_def field_enc_dec)


section \<open>Text\<close>

text \<open>A Python \<open>str\<close> that crosses the wire is a list of code points.  \<open>utf8_decode\<close> is the strict
  decoder: overlong forms, surrogates and code points above 0x10FFFF are refused.\<close>

type_synonym ustr = "nat list"

definition is_cont :: "byte \<Rightarrow> bool" where
  "is_cont b \<longleftrightarrow> unat b div 64 = 2"

definition utf8_tail :: "byte list \<Rightarrow> nat" where
  "utf8_tail bs = foldl (\<lambda>acc b. acc * 64 + unat b mod 64) 0 bs"

text \<open>How many continuation bytes a lead byte announces, and the code points it may stand for.\<close>

definition utf8_shape :: "nat \<Rightarrow> (nat \<times> nat \<times> nat) option" where
  "utf8_shape b = (if b < 128 then Some (0, 0, 128)
     else if 192 \<le> b \<and> b < 224 then Some (1, 128, 2048)
     else if 224 \<le> b \<and> b < 240 then Some (2, 2048, 65536)
     else if 240 \<le> b \<and> b < 248 then Some (3, 65536, 1114112)
     else None)"

definition utf8_lead_bits :: "nat \<Rightarrow> nat \<Rightarrow> nat" where
  "utf8_lead_bits n b = (if n = 0 then b else b mod 2 ^ (6 - n))"

function utf8_decode :: "byte list \<Rightarrow> ustr option" where
  "utf8_decode [] = Some []"
| "utf8_decode (b # bs) = (case utf8_shape (unat b) of
     None \<Rightarrow> None
   | Some (n, low, high) \<Rightarrow>
     (let c = utf8_lead_bits n (unat b) * 64 ^ n + utf8_tail (take n bs) in
      if length bs < n \<or> \<not> list_all is_cont (take n bs) \<or> c < low \<or> high \<le> c
         \<or> (55296 \<le> c \<and> c < 57344) then None
      else map_option (Cons c) (utf8_decode (drop n bs))))"
  by pat_completeness auto
termination by (relation "measure length") auto

definition scalar :: "nat \<Rightarrow> bool" where
  "scalar c \<longleftrightarrow> c < 1114112 \<and> \<not> (55296 \<le> c \<and> c < 57344)"

definition byte_of :: "nat \<Rightarrow> byte" where
  "byte_of n = word_of_nat n"

definition utf8_char :: "nat \<Rightarrow> byte list" where
  "utf8_char c = (if c < 128 then [byte_of c]
     else if c < 2048 then [byte_of (192 + c div 64), byte_of (128 + c mod 64)]
     else if c < 65536 then [byte_of (224 + c div 4096), byte_of (128 + c div 64 mod 64),
                             byte_of (128 + c mod 64)]
     else [byte_of (240 + c div 262144), byte_of (128 + c div 4096 mod 64),
           byte_of (128 + c div 64 mod 64), byte_of (128 + c mod 64)])"

text \<open>\<open>str.encode("utf-8")\<close> of a string; a surrogate raises \<open>UnicodeEncodeError\<close>.\<close>

definition utf8_encode :: "ustr \<Rightarrow> byte list res" where
  "utf8_encode s = (if list_all scalar s then Inr (concat (map utf8_char s))
                    else Inl (Exn ValueError ''surrogates not allowed''))"

lemma unat_byte [simp]: "n < 256 \<Longrightarrow> unat (byte_of n) = n"
  by (simp add: byte_of_def unat_of_nat take_bit_eq_mod)

lemma cont_byte [simp]:
  "y < 64 \<Longrightarrow> (128 + y) div 64 = (2 :: nat)" "y < 64 \<Longrightarrow> (128 + y) mod 64 = (y :: nat)"
  using div_mult_self3 [of 64 2 y] mod_mult_self3 [of 2 64 y] by simp_all

lemma lead_byte [simp]:
  "x < 32 \<Longrightarrow> (192 + x) mod 32 = (x :: nat)" "x < 16 \<Longrightarrow> (224 + x) mod 16 = (x :: nat)"
  "x < 8 \<Longrightarrow> (240 + x) mod 8 = (x :: nat)"
  using mod_mult_self3 [of 6 32 x] mod_mult_self3 [of 14 16 x] mod_mult_self3 [of 30 8 x] by simp_all

lemma utf8_step:
  assumes "utf8_shape (unat b) = Some (n, low, high)" "length ts = n" "list_all is_cont ts"
    and "utf8_lead_bits n (unat b) * 64 ^ n + utf8_tail ts = c" "low \<le> c" "c < high" "scalar c"
  shows "utf8_decode (b # ts @ rest) = map_option (Cons c) (utf8_decode rest)"
  using assms by (auto simp: Let_def scalar_def)

lemma unat_cont [simp]: "unat (byte_of (128 + x mod 64)) = 128 + x mod 64"
proof -
  have "x mod 64 < 64" by simp
  then show ?thesis by simp
qed

lemma base64: "c = A * 64 + z \<Longrightarrow> A = B * 64 + y \<Longrightarrow> B = D * 64 + x \<Longrightarrow>
    D * 262144 + ((x * 64 + y) * 64 + z) = (c :: nat)"
  by simp

lemma utf8_char_decode:
  assumes c: "scalar c"
  shows "utf8_decode (utf8_char c @ rest) = map_option (Cons c) (utf8_decode rest)"
proof -
  have d: "c = c div 64 * 64 + c mod 64" "c div 64 = c div 64 div 64 * 64 + c div 64 mod 64"
    "c div 64 div 64 = c div 64 div 64 div 64 * 64 + c div 64 div 64 mod 64" by simp_all
  have e: "c div 4096 = c div 64 div 64" "c div 262144 = c div 64 div 64 div 64"
    by (simp_all add: div_mult2_eq [symmetric])
  have b3: "c div 64 div 64 * 4096 + (c div 64 mod 64 * 64 + c mod 64) = c"
    using d(1,2) by linarith
  have b4: "c div 64 div 64 div 64 * 262144 + ((c div 64 div 64 mod 64 * 64 + c div 64 mod 64) * 64
      + c mod 64) = c"
    by (rule base64 [OF d])
  consider "c < 128" | "128 \<le> c" "c < 2048" | "2048 \<le> c" "c < 65536" | "65536 \<le> c" "c < 1114112"
    using c by (fastforce simp: scalar_def)
  then show ?thesis
  proof cases
    case 1
    have "utf8_decode (byte_of c # [] @ rest) = map_option (Cons c) (utf8_decode rest)"
      by (rule utf8_step [where n = 0 and low = 0 and high = 128])
        (use 1 c in \<open>simp_all add: utf8_shape_def utf8_lead_bits_def utf8_tail_def\<close>)
    with 1 show ?thesis by (simp add: utf8_char_def)
  next
    case 2
    then have a: "c div 64 < 32" by auto
    have "utf8_decode (byte_of (192 + c div 64) # [byte_of (128 + c mod 64)] @ rest)
        = map_option (Cons c) (utf8_decode rest)"
      by (rule utf8_step [where n = 1 and low = 128 and high = 2048])
        (use 2 a c d(1) in \<open>simp_all add: utf8_shape_def utf8_lead_bits_def utf8_tail_def is_cont_def\<close>)
    with 2 show ?thesis by (simp add: utf8_char_def)
  next
    case 3
    then have a: "c div 64 div 64 < 16" by (auto simp: div_mult2_eq [symmetric])
    have "utf8_decode (byte_of (224 + c div 4096) #
        [byte_of (128 + c div 64 mod 64), byte_of (128 + c mod 64)] @ rest)
        = map_option (Cons c) (utf8_decode rest)"
      by (rule utf8_step [where n = 2 and low = 2048 and high = 65536])
        (use 3 a c b3 e(1) in \<open>simp_all add: utf8_shape_def utf8_lead_bits_def utf8_tail_def is_cont_def\<close>)
    with 3 show ?thesis by (simp add: utf8_char_def)
  next
    case 4
    then have a: "c div 64 div 64 div 64 < 5" by (auto simp: div_mult2_eq [symmetric])
    have "utf8_decode (byte_of (240 + c div 262144) # [byte_of (128 + c div 4096 mod 64),
        byte_of (128 + c div 64 mod 64), byte_of (128 + c mod 64)] @ rest)
        = map_option (Cons c) (utf8_decode rest)"
      by (rule utf8_step [where n = 3 and low = 65536 and high = 1114112])
        (use 4 a c b4 e in \<open>simp_all add: utf8_shape_def utf8_lead_bits_def utf8_tail_def is_cont_def\<close>)
    with 4 show ?thesis by (simp add: utf8_char_def)
  qed
qed

lemma utf8_roundtrip: "utf8_encode s = Inr bs \<Longrightarrow> utf8_decode bs = Some s"
proof -
  assume "utf8_encode s = Inr bs"
  then have s: "list_all scalar s" "bs = concat (map utf8_char s)"
    by (auto simp: utf8_encode_def split: if_splits)
  have "utf8_decode (concat (map utf8_char s)) = Some s" if "list_all scalar s" for s
    using that by (induction s) (simp_all add: utf8_char_decode)
  with s show ?thesis by simp
qed

end
