(* ===== verification/Exact_Decode.thy ===== *)
theory Exact_Decode
  imports Exact_Wire
begin

text \<open>
  The action encoder and the response decoders of \<open>irisu_env/exact_ipc.py\<close>: the typed
  decoders build a record per body and event; the raw validators accept or refuse the same
  bytes without building anything.  Each function follows the order of the source's checks.
\<close>

abbreviation protocol_error :: "string \<Rightarrow> exn" where
  "protocol_error t \<equiv> Exn ExactProtocolError t"

section \<open>Encoding an action\<close>

text \<open>The IEEE bits of a double, as \<open>struct.pack("<d", x)\<close> writes them.\<close>

fun f64_bits :: "pyfloat \<Rightarrow> f64" where
  "f64_bits (Fin x) = (if x = 0 then 0 else
     let e = max (ilog2 \<bar>x\<bar>) (- 1022);
         m = \<lfloor>\<bar>x\<bar> / pow2 (e - 52)\<rfloor>
     in word_of_int ((if 2 ^ 52 \<le> m then (e + 1023) * 2 ^ 52 + (m - 2 ^ 52) else m)
                     + (if x < 0 then 2 ^ 63 else 0)))"
| "f64_bits PInf = word_of_int (2047 * 2 ^ 52)"
| "f64_bits NInf = word_of_int (2047 * 2 ^ 52 + 2 ^ 63)"
| "f64_bits NaN = word_of_int (2047 * 2 ^ 52 + 2 ^ 51)"

text \<open>An argument of \<open>step\<close>: an \<open>int\<close>, a \<open>float\<close> (its bits), a \<open>bool\<close>, another \<open>Integral\<close> or
  \<open>Real\<close> (such as a numpy scalar), or something else.\<close>

datatype wire_num = NumInt int | NumFloat f64 | NumBool bool | NumIntegral int | NumReal f64 | NumOther

fun integral_of :: "wire_num \<Rightarrow> int option" where
  "integral_of (NumInt n) = Some n" | "integral_of (NumIntegral n) = Some n" | "integral_of _ = None"

text \<open>\<open>float(x)\<close> of a \<open>Real\<close> that is not a \<open>bool\<close>.\<close>

fun real_of :: "wire_num \<Rightarrow> f64 res option" where
  "real_of (NumInt n) = Some (rbind (int_to_float n) (\<lambda>f. Inr (f64_bits f)))"
| "real_of (NumIntegral n) = Some (rbind (int_to_float n) (\<lambda>f. Inr (f64_bits f)))"
| "real_of (NumFloat b) = Some (Inr b)"
| "real_of (NumReal b) = Some (Inr b)"
| "real_of _ = None"

definition UINT32 :: int where "UINT32 = 4294967295"

definition step_bytes :: "int \<Rightarrow> f64 \<Rightarrow> f64 \<Rightarrow> int \<Rightarrow> bool \<Rightarrow> byte list" where
  "step_bytes k x y w suppress =
     pack STEP_REQUEST [k, uint x, uint y, w, if suppress then 1 else 0]"

text \<open>The general path of \<open>_pack_step_request\<close>.\<close>

definition pack_step_slow ::
  "wire_num \<Rightarrow> wire_num \<Rightarrow> wire_num \<Rightarrow> wire_num \<Rightarrow> bool \<Rightarrow> byte list res" where
  "pack_step_slow kind x y wait suppress = (case integral_of kind of
     None \<Rightarrow> Inl (Exn TypeError ''action kind must be an integer'')
   | Some k \<Rightarrow> (case integral_of wait of
     None \<Rightarrow> Inl (Exn TypeError ''wait_ticks must be an integer'')
   | Some w \<Rightarrow> (case real_of x of
     None \<Rightarrow> Inl (Exn TypeError ''x must be a real number'')
   | Some xr \<Rightarrow> (case real_of y of
     None \<Rightarrow> Inl (Exn TypeError ''y must be a real number'')
   | Some yr \<Rightarrow>
     if \<not> (0 \<le> k \<and> k \<le> 3) then Inl (Exn ValueError ''action kind must be in [0, 3]'')
     else if \<not> (0 \<le> w \<and> w \<le> UINT32) then Inl (Exn ValueError ''wait_ticks must fit in uint32'')
     else rbind xr (\<lambda>xb. rbind yr (\<lambda>yb. Inr (step_bytes k xb yb w suppress)))))))"

text \<open>\<open>_pack_step_request\<close>: exact \<open>int\<close>s and \<open>float\<close>s take the short path.\<close>

definition pack_step_request ::
  "wire_num \<Rightarrow> wire_num \<Rightarrow> wire_num \<Rightarrow> wire_num \<Rightarrow> bool \<Rightarrow> byte list res" where
  "pack_step_request kind x y wait suppress = (case (kind, x, y, wait) of
     (NumInt k, NumFloat xb, NumFloat yb, NumInt w) \<Rightarrow>
       if \<not> (0 \<le> k \<and> k \<le> 3) then Inl (Exn ValueError ''action kind must be in [0, 3]'')
       else if \<not> (0 \<le> w \<and> w \<le> UINT32) then Inl (Exn ValueError ''wait_ticks must fit in uint32'')
       else Inr (step_bytes k xb yb w suppress)
   | _ \<Rightarrow> pack_step_slow kind x y wait suppress)"

section \<open>Decoded values\<close>

record exact_body =
  xb_age_ticks :: int
  xb_remaining_lifetime :: int
  xb_rot_timer :: int
  xb_x :: f64
  xb_y :: f64
  xb_vx :: f64
  xb_vy :: f64
  xb_angle :: f64
  xb_angular_velocity :: f64
  xb_size :: f64
  xb_id :: int
  xb_color :: int
  xb_chain_id :: int
  xb_projectile_hits :: int
  xb_kind :: int
  xb_shape :: int
  xb_lifecycle :: int

record exact_observation =
  xo_tick :: int
  xo_score :: int
  xo_gauge :: int
  xo_gauge_max :: int
  xo_qualifying_clear_count :: int
  xo_field_x :: f64
  xo_field_y :: f64
  xo_field_width :: f64
  xo_field_height :: f64
  xo_side_wall_top :: f64
  xo_side_wall_bottom :: f64
  xo_level :: int
  xo_active_colors :: int
  xo_spawn_interval_ticks :: int
  xo_highest_chain :: int
  xo_terminated :: bool
  xo_truncated :: bool
  xo_left_held :: bool
  xo_right_held :: bool
  xo_bodies :: "exact_body list"

record exact_event =
  xe_tick :: int
  xe_sequence :: int
  xe_value :: int
  xe_a :: int
  xe_b :: int
  xe_kind :: int
  xe_detail :: ustr

record exact_transition =
  xt_observation :: exact_observation
  xt_reward :: int
  xt_event_count :: int
  xt_config_hash :: int
  xt_finish_call_count :: int
  xt_recorded_final_score :: int
  xt_recorded_final_clears :: int
  xt_latest_final_score :: int
  xt_latest_final_clears :: int
  xt_recorded_final_highest_chain :: int
  xt_recorded_final_level :: int
  xt_latest_final_highest_chain :: int
  xt_latest_final_level :: int
  xt_terminated :: bool
  xt_truncated :: bool
  xt_terminal_metadata_recorded :: bool
  xt_invalid_action :: bool
  xt_events :: "exact_event list"

abbreviation f64_of :: "int \<Rightarrow> f64" where
  "f64_of v \<equiv> word_of_int v"

definition body_of :: "int list \<Rightarrow> exact_body" where
  "body_of v = \<lparr>xb_age_ticks = v ! 0, xb_remaining_lifetime = v ! 1, xb_rot_timer = v ! 2,
     xb_x = f64_of (v ! 3), xb_y = f64_of (v ! 4), xb_vx = f64_of (v ! 5), xb_vy = f64_of (v ! 6),
     xb_angle = f64_of (v ! 7), xb_angular_velocity = f64_of (v ! 8), xb_size = f64_of (v ! 9),
     xb_id = v ! 10, xb_color = v ! 11, xb_chain_id = v ! 12, xb_projectile_hits = v ! 13,
     xb_kind = v ! 14, xb_shape = v ! 15, xb_lifecycle = v ! 16\<rparr>"

section \<open>The typed decoders\<close>

fun decode_bodies :: "nat \<Rightarrow> byte list \<Rightarrow> nat \<Rightarrow> exact_body list res" where
  "decode_bodies 0 payload offset = Inr []"
| "decode_bodies (Suc n) payload offset =
     (let body = unpack_from BODY payload offset in
      if 2 < body ! 14 \<or> 2 < body ! 15 \<or> 4 < body ! 16 \<or> body ! 17 \<noteq> 0
      then Inl (protocol_error ''exact observation contains invalid body metadata'')
      else rbind (decode_bodies n payload (offset + fmt_size BODY)) (\<lambda>rest.
        Inr (body_of body # rest)))"

definition decode_observation :: "byte list \<Rightarrow> nat \<Rightarrow> (exact_observation \<times> nat) res" where
  "decode_observation payload offset =
     (if length payload - offset < fmt_size OBSERVATION_HEADER
      then Inl (protocol_error ''truncated exact observation header'')
      else let v = unpack_from OBSERVATION_HEADER payload offset;
               offset = offset + fmt_size OBSERVATION_HEADER;
               body_count = v ! 15 in
      if BODY_CAPACITY < body_count
      then Inl (protocol_error ''exact observation body count exceeds capacity'')
      else if length payload - offset < nat body_count * fmt_size BODY
      then Inl (protocol_error ''truncated exact observation bodies'')
      else rbind (decode_bodies (nat body_count) payload offset) (\<lambda>bodies.
        Inr (\<lparr>xo_tick = v ! 0, xo_score = v ! 1, xo_gauge = v ! 2, xo_gauge_max = v ! 3,
          xo_qualifying_clear_count = v ! 4, xo_field_x = f64_of (v ! 5),
          xo_field_y = f64_of (v ! 6), xo_field_width = f64_of (v ! 7),
          xo_field_height = f64_of (v ! 8), xo_side_wall_top = f64_of (v ! 9),
          xo_side_wall_bottom = f64_of (v ! 10), xo_level = v ! 11, xo_active_colors = v ! 12,
          xo_spawn_interval_ticks = v ! 13, xo_highest_chain = v ! 14,
          xo_terminated = (v ! 16 \<noteq> 0), xo_truncated = (v ! 17 \<noteq> 0),
          xo_left_held = (v ! 18 \<noteq> 0), xo_right_held = (v ! 19 \<noteq> 0), xo_bodies = bodies\<rparr>,
          offset + nat body_count * fmt_size BODY)))"

fun decode_events :: "nat \<Rightarrow> byte list \<Rightarrow> nat \<Rightarrow> (exact_event list \<times> nat) res" where
  "decode_events 0 payload offset = Inr ([], offset)"
| "decode_events (Suc n) payload offset =
     (if length payload - offset < fmt_size EVENT
      then Inl (protocol_error ''truncated exact event header'')
      else let e = unpack_from EVENT payload offset; offset = offset + fmt_size EVENT;
               detail_size = nat (e ! 5) in
      if 18 < e ! 6 \<or> e ! 7 \<noteq> 0
      then Inl (protocol_error ''exact event contains invalid metadata'')
      else if length payload - offset < detail_size
      then Inl (protocol_error ''truncated exact event detail'')
      else case utf8_decode (take detail_size (drop offset payload)) of
        None \<Rightarrow> Inl (protocol_error ''exact event detail is not UTF-8'')
      | Some detail \<Rightarrow>
          rbind (decode_events n payload (offset + detail_size)) (\<lambda>(events, final).
            Inr (\<lparr>xe_tick = e ! 0, xe_sequence = e ! 1, xe_value = e ! 2, xe_a = e ! 3, xe_b = e ! 4,
              xe_kind = e ! 6, xe_detail = detail\<rparr> # events, final)))"

definition decode_transition :: "byte list \<Rightarrow> exact_transition res" where
  "decode_transition payload =
     rbind (decode_observation payload 0) (\<lambda>(observation, offset).
     if length payload - offset < fmt_size TRANSITION
     then Inl (protocol_error ''exact transition has a truncated diagnostics suffix'')
     else let v = unpack_from TRANSITION payload offset; offset = offset + fmt_size TRANSITION in
     if (v ! 12 \<noteq> 0) \<noteq> xo_terminated observation
     then Inl (protocol_error ''exact transition termination flags disagree'')
     else if (v ! 13 \<noteq> 0) \<noteq> xo_truncated observation
     then Inl (protocol_error ''exact transition truncation flags disagree'')
     else rbind (decode_events (nat (v ! 1)) payload offset) (\<lambda>(events, offset).
       if offset \<noteq> length payload
       then Inl (protocol_error ''exact transition response has trailing bytes'')
       else Inr \<lparr>xt_observation = observation, xt_reward = v ! 0, xt_event_count = v ! 1,
         xt_config_hash = v ! 2, xt_finish_call_count = v ! 3, xt_recorded_final_score = v ! 4,
         xt_recorded_final_clears = v ! 5, xt_latest_final_score = v ! 6,
         xt_latest_final_clears = v ! 7, xt_recorded_final_highest_chain = v ! 8,
         xt_recorded_final_level = v ! 9, xt_latest_final_highest_chain = v ! 10,
         xt_latest_final_level = v ! 11, xt_terminated = (v ! 12 \<noteq> 0),
         xt_truncated = (v ! 13 \<noteq> 0), xt_terminal_metadata_recorded = (v ! 14 \<noteq> 0),
         xt_invalid_action = (v ! 15 \<noteq> 0), xt_events = events\<rparr>))"

section \<open>The raw validators\<close>

text \<open>\<open>xs[a:b:step]\<close> and \<open>bytes.translate\<close>.\<close>

definition slice_step :: "'a list \<Rightarrow> nat \<Rightarrow> nat \<Rightarrow> nat \<Rightarrow> 'a list" where
  "slice_step xs a b st =
     map ((!) xs) (filter (\<lambda>i. (i - a) mod st = 0) [a ..< min b (length xs)])"

definition translate :: "byte list \<Rightarrow> byte list \<Rightarrow> byte list" where
  "translate table bs = map (\<lambda>b. table ! unat b) bs"

definition invalid_table :: "(nat \<Rightarrow> bool) \<Rightarrow> byte list" where
  "invalid_table bad = map (\<lambda>v. if bad v then 1 else 0) [0 ..< 256]"

definition BODY_KIND_INVALID :: "byte list" where "BODY_KIND_INVALID = invalid_table (\<lambda>v. 2 < v)"
definition BODY_LIFECYCLE_INVALID :: "byte list" where
  "BODY_LIFECYCLE_INVALID = invalid_table (\<lambda>v. 4 < v)"
definition BODY_RESERVED_INVALID :: "byte list" where
  "BODY_RESERVED_INVALID = invalid_table (\<lambda>v. v \<noteq> 0)"

definition validate_raw_observation :: "byte list \<Rightarrow> (int list \<times> nat) res" where
  "validate_raw_observation payload =
     (if length payload < fmt_size OBSERVATION_HEADER
      then Inl (protocol_error ''truncated exact observation header'')
      else let header = unpack_from OBSERVATION_HEADER payload 0; body_count = header ! 15 in
      if BODY_CAPACITY < body_count
      then Inl (protocol_error ''exact observation body count exceeds capacity'')
      else let body_begin = fmt_size OBSERVATION_HEADER;
               body_end = body_begin + nat body_count * fmt_size BODY in
      if length payload - body_begin < nat body_count * fmt_size BODY
      then Inl (protocol_error ''truncated exact observation bodies'')
      else if 1 \<in> set (translate BODY_KIND_INVALID
                 (slice_step payload (body_begin + 96) body_end (fmt_size BODY)))
        \<or> 1 \<in> set (translate BODY_KIND_INVALID
                 (slice_step payload (body_begin + 97) body_end (fmt_size BODY)))
        \<or> 1 \<in> set (translate BODY_LIFECYCLE_INVALID
                 (slice_step payload (body_begin + 98) body_end (fmt_size BODY)))
        \<or> 1 \<in> set (translate BODY_RESERVED_INVALID
                 (slice_step payload (body_begin + 99) body_end (fmt_size BODY)))
      then Inl (protocol_error ''exact observation contains invalid body metadata'')
      else Inr (header, body_end))"

text \<open>The event loop of \<open>_validate_raw_transition\<close> and \<open>_validate_raw_events\<close>.\<close>

fun check_events :: "nat \<Rightarrow> byte list \<Rightarrow> nat \<Rightarrow> nat res" where
  "check_events 0 payload offset = Inr offset"
| "check_events (Suc n) payload offset =
     (if length payload - offset < fmt_size EVENT
      then Inl (protocol_error ''truncated exact event header'')
      else let e = unpack_from EVENT payload offset; offset = offset + fmt_size EVENT;
               detail_size = nat (e ! 5) in
      if 18 < e ! 6 \<or> e ! 7 \<noteq> 0
      then Inl (protocol_error ''exact event contains invalid metadata'')
      else if EVENT_DETAIL_CAPACITY \<le> e ! 5
      then Inl (protocol_error ''exact event detail exceeds padded capacity'')
      else if length payload - offset < detail_size
      then Inl (protocol_error ''truncated exact event detail'')
      else case utf8_decode (take detail_size (drop offset payload)) of
        None \<Rightarrow> Inl (protocol_error ''exact event detail is not UTF-8'')
      | Some _ \<Rightarrow> check_events n payload (offset + detail_size))"

definition validate_raw_transition :: "byte list \<Rightarrow> (nat \<times> int) res" where
  "validate_raw_transition payload =
     rbind (validate_raw_observation payload) (\<lambda>(header, body_end).
     if length payload - body_end < fmt_size TRANSITION
     then Inl (protocol_error ''exact transition has a truncated diagnostics suffix'')
     else let t = unpack_from TRANSITION payload body_end in
     if (t ! 12 \<noteq> 0) \<noteq> (header ! 16 \<noteq> 0)
     then Inl (protocol_error ''exact transition termination flags disagree'')
     else if (t ! 13 \<noteq> 0) \<noteq> (header ! 17 \<noteq> 0)
     then Inl (protocol_error ''exact transition truncation flags disagree'')
     else rbind (check_events (nat (t ! 1)) payload (body_end + fmt_size TRANSITION)) (\<lambda>offset.
       if offset \<noteq> length payload
       then Inl (protocol_error ''exact transition response has trailing bytes'')
       else Inr (body_end, t ! 2)))"

definition validate_raw_padded_transition :: "byte list \<Rightarrow> (nat \<times> int \<times> int) res" where
  "validate_raw_padded_transition payload =
     rbind (validate_raw_observation payload) (\<lambda>(header, body_end).
     if length payload \<noteq> body_end + fmt_size TRANSITION + fmt_size EVENT_GENERATION
     then Inl (protocol_error ''exact padded transition has an invalid size'')
     else let t = unpack_from TRANSITION payload body_end in
     if (t ! 12 \<noteq> 0) \<noteq> (header ! 16 \<noteq> 0)
     then Inl (protocol_error ''exact transition termination flags disagree'')
     else if (t ! 13 \<noteq> 0) \<noteq> (header ! 17 \<noteq> 0)
     then Inl (protocol_error ''exact transition truncation flags disagree'')
     else let generation = unpack_from EVENT_GENERATION payload (body_end + fmt_size TRANSITION) ! 0 in
     if generation = 0
     then Inl (protocol_error ''exact padded event generation must be nonzero'')
     else Inr (body_end, t ! 2, generation))"

definition validate_raw_events :: "byte list \<Rightarrow> int \<Rightarrow> unit res" where
  "validate_raw_events payload expected_count =
     (if length payload < fmt_size EVENT_COUNT
      then Inl (protocol_error ''exact padded events response is truncated'')
      else let n = unpack_from EVENT_COUNT payload 0 ! 0 in
      if n \<noteq> expected_count
      then Inl (protocol_error ''exact padded event count changed'')
      else rbind (check_events (nat n) payload (fmt_size EVENT_COUNT)) (\<lambda>offset.
        rguard (offset \<noteq> length payload)
          (protocol_error ''exact padded events response has trailing bytes'')))"

section \<open>The call-target attestation\<close>

definition ascii_decode :: "byte list \<Rightarrow> ustr option" where
  "ascii_decode bs = (if list_all (\<lambda>b. unat b < 128) bs then Some (map unat bs) else None)"

definition ascii_lower :: "ustr \<Rightarrow> ustr" where
  "ascii_lower s = map (\<lambda>c. if 65 \<le> c \<and> c \<le> 90 then c + 32 else c) s"

fun split_on :: "nat \<Rightarrow> ustr \<Rightarrow> ustr list" where
  "split_on c [] = [[]]"
| "split_on c (x # xs) = (if x = c then [] # split_on c xs
     else case split_on c xs of [] \<Rightarrow> [[x]] | p # ps \<Rightarrow> (x # p) # ps)"

definition hex_code :: "nat \<Rightarrow> bool" where
  "hex_code c \<longleftrightarrow> (48 \<le> c \<and> c \<le> 57) \<or> (97 \<le> c \<and> c \<le> 102)"

definition decode_exact_attestation :: "byte list \<Rightarrow> (int \<times> ustr \<times> int) res" where
  "decode_exact_attestation payload =
     (if length payload < fmt_size EXACT_ATTESTATION_FIXED + 2
      then Inl (protocol_error ''exact call-target attestation is truncated'')
      else let v = unpack_from EXACT_ATTESTATION_FIXED payload 0;
               offset = fmt_size EXACT_ATTESTATION_FIXED;
               device_size = unpack_from [U 2] payload offset ! 0; offset = offset + 2 in
      if int (length payload - offset) \<noteq> device_size
      then Inl (protocol_error ''exact call-target attestation has an invalid size'')
      else case ascii_decode (drop offset payload) of
        None \<Rightarrow> Inl (protocol_error ''exact call-target attestation device is not ASCII'')
      | Some raw \<Rightarrow>
        let device = ascii_lower raw; parts = split_on 58 device in
        if v ! 0 \<noteq> 1 \<or> v ! 1 \<noteq> 15 \<or> v ! 2 \<le> 0 \<or> length parts \<noteq> 2
           \<or> (\<exists>p \<in> set parts. p = [] \<or> \<not> list_all hex_code p)
        then Inl (protocol_error ''exact call-target attestation is invalid'')
        else Inr (v ! 1, device, v ! 2))"

end
