(* ===== verification/Exact_Proc.thy ===== *)
theory Exact_Proc
  imports Exact_Decode "HOL-Library.List_Lexorder" "HOL-Library.Char_ord" "HOL-Library.Product_Lexorder"
begin

text \<open>
  How the client of \<open>irisu_env/exact_ipc.py\<close> identifies its worker: the executable behind
  \<open>/proc/PID/exe\<close>, the one mapped exact library of \<open>/proc/PID/maps\<close>, and the mount it lies on.
  The operating system (files of /proc, stat, the pipes) is a \<open>worker_env\<close> that answers from the
  whole history of calls, newest first; any answers, errors and interleavings are possible.
\<close>

section \<open>The operating system\<close>

type_synonym file_identity = "int \<times> int \<times> int \<times> int \<times> int"

text \<open>One call to the operating system or to the worker's pipes.\<close>

datatype xio =
    XWrite "byte list" | XFlush | XRead nat
  | XPoll | XKill | XWait | XShutdown | XCloseStream | XCloseConnection | XCloseStderr
  | XStatExe | XHashExe | XMaps int | XMountinfo int
  | XOpenLibrary string | XFstatBefore | XReadLibrary | XFstatAfter | XStatLibrary string | XResolve string

record worker_env =
  we_write :: "xio list \<Rightarrow> int option res"
  we_read :: "xio list \<Rightarrow> byte list res"
  we_os :: "xio list \<Rightarrow> unit res"
  we_poll :: "xio list \<Rightarrow> int option"
  we_stat :: "xio list \<Rightarrow> file_identity res"
  we_text :: "xio list \<Rightarrow> string list res"
  we_bytes :: "xio list \<Rightarrow> byte list res"
  we_path :: "xio list \<Rightarrow> string res"
  we_json :: "byte list \<Rightarrow> int option option option"
  we_sha256 :: "byte list \<Rightarrow> string"
  we_own_pid :: int

text \<open>\<open>ExactWorkerInfo\<close>\<close>

record worker_info =
  wi_protocol_version :: int
  wi_pointer_bits :: int
  wi_body_capacity :: int
  wi_pid :: int
  wi_config_hash :: int
  wi_x87_control_word :: int
  wi_process_model :: int
  wi_backend :: ustr
  wi_compiler :: ustr
  wi_exact_library_sha256 :: ustr

record library_provenance =
  lp_path :: string
  lp_bytes :: int
  lp_sha256 :: string
  lp_identity :: file_identity
  lp_mapped_device :: string
  lp_mapped_inode :: int

record exact_client =
  xc_has_process :: bool
  xc_has_connection :: bool
  xc_transport_pid :: int
  xc_request_id :: int
  xc_pending :: "(int \<times> int) option"
  xc_closed :: bool
  xc_last_response_bytes :: int
  xc_info :: "worker_info option"
  xc_config_hash :: int
  xc_entrypoint_count :: int
  xc_target_identity :: "ustr \<times> int"
  xc_executable_sha256 :: string
  xc_executed_identity :: file_identity
  xc_library :: "library_provenance option"
  xc_log :: "xio list"

definition xcall :: "xio \<Rightarrow> (xio list \<Rightarrow> 'a res) \<Rightarrow> (exact_client, 'a) py" where
  "xcall c f = (\<lambda>s. (f (c # xc_log s), s\<lparr>xc_log := c # xc_log s\<rparr>))"

lemma wp_xcall [wp_simps]:
  "wp (xcall c f) Q E = (\<lambda>s. case f (c # xc_log s) of
     Inl e \<Rightarrow> E e (s\<lparr>xc_log := c # xc_log s\<rparr>) | Inr x \<Rightarrow> Q x (s\<lparr>xc_log := c # xc_log s\<rparr>))"
  by (rule ext) (simp add: wp_def xcall_def split: sum.split)

lemma keeps_xcall [keeps_intros]:
  "(\<And>s. I s \<Longrightarrow> I (s\<lparr>xc_log := c # xc_log s\<rparr>)) \<Longrightarrow> keeps I (xcall c f)"
  by (simp add: keeps_def xcall_def)

text \<open>\<open>try: m  except cls as exc: raise new(exc)\<close>\<close>

definition reraise :: "(exn \<Rightarrow> bool) \<Rightarrow> (exn \<Rightarrow> exn) \<Rightarrow> ('s, 'a) py \<Rightarrow> ('s, 'a) py" where
  "reraise caught new m = (\<lambda>s. case m s of
     (Inl e, t) \<Rightarrow> (Inl (if caught e then new e else e), t) | (Inr x, t) \<Rightarrow> (Inr x, t))"

lemma wp_reraise [wp_simps]:
  "wp (reraise caught new m) Q E = wp m Q (\<lambda>e. E (if caught e then new e else e))"
  by (rule ext) (auto simp: wp_def reraise_def split: prod.split sum.split)

lemma keeps_reraise [keeps_intros]: "keeps I m \<Longrightarrow> keeps I (reraise caught new m)"
  by (force simp: keeps_def reraise_def split: prod.split sum.split)

text \<open>\<open>try: m  except BaseException: h; raise\<close>; an exception of \<open>h\<close> replaces the first.\<close>

definition on_any_error :: "('s, 'a) py \<Rightarrow> ('s, unit) py \<Rightarrow> ('s, 'a) py" where
  "on_any_error m h = (\<lambda>s. case m s of
     (Inl e, t) \<Rightarrow> (case h t of (Inl e', u) \<Rightarrow> (Inl e', u) | (Inr _, u) \<Rightarrow> (Inl e, u))
   | (Inr x, t) \<Rightarrow> (Inr x, t))"

lemma wp_on_any_error [wp_simps]:
  "wp (on_any_error m h) Q E = wp m Q (\<lambda>e. wp h (\<lambda>_. E e) E)"
  by (rule ext) (auto simp: wp_def on_any_error_def split: prod.split sum.split)

lemma keeps_on_any_error [keeps_intros]: "keeps I m \<Longrightarrow> keeps I h \<Longrightarrow> keeps I (on_any_error m h)"
  by (force simp: keeps_def on_any_error_def split: prod.split sum.split)

text \<open>\<open>try: m  except cls: pass\<close>\<close>

definition ignoring :: "(exn \<Rightarrow> bool) \<Rightarrow> ('s, unit) py \<Rightarrow> ('s, unit) py" where
  "ignoring caught m = (\<lambda>s. case m s of
     (Inl e, t) \<Rightarrow> (if caught e then Inr () else Inl e, t) | (Inr x, t) \<Rightarrow> (Inr (), t))"

lemma wp_ignoring [wp_simps]:
  "wp (ignoring caught m) Q E = wp m Q (\<lambda>e. if caught e then Q () else E e)"
  by (rule ext) (auto simp: wp_def ignoring_def split: prod.split sum.split)

lemma keeps_ignoring [keeps_intros]: "keeps I m \<Longrightarrow> keeps I (ignoring caught m)"
  by (force simp: keeps_def ignoring_def split: prod.split sum.split)

definition is_os_error :: "exn \<Rightarrow> bool" where
  "is_os_error e \<longleftrightarrow> exn_class e \<in> {OSError, TimeoutError}"

section \<open>Text of /proc\<close>

definition py_space :: "char \<Rightarrow> bool" where
  "py_space c \<longleftrightarrow> (let n = of_char c :: nat in
     (9 \<le> n \<and> n \<le> 13) \<or> (28 \<le> n \<and> n \<le> 32) \<or> n = 133 \<or> n = 160)"

text \<open>\<open>s.split(None, n)\<close>: at most \<open>n\<close> splits at runs of white space; the rest keeps its tail.\<close>

fun split_ws_max :: "nat \<Rightarrow> string \<Rightarrow> string list" where
  "split_ws_max 0 s = (let r = dropWhile py_space s in if r = [] then [] else [r])"
| "split_ws_max (Suc n) s = (let r = dropWhile py_space s in
     if r = [] then [] else
       takeWhile (\<lambda>c. \<not> py_space c) r # split_ws_max n (dropWhile (\<lambda>c. \<not> py_space c) r))"

text \<open>\<open>s.split()\<close>: there are at most \<open>length s\<close> fields.\<close>

definition split_ws :: "string \<Rightarrow> string list" where
  "split_ws s = split_ws_max (length s) s"

definition has_prefix :: "string \<Rightarrow> string \<Rightarrow> bool" where
  "has_prefix p s \<longleftrightarrow> take (length p) s = p"

definition has_suffix :: "string \<Rightarrow> string \<Rightarrow> bool" where
  "has_suffix p s \<longleftrightarrow> length p \<le> length s \<and> drop (length s - length p) s = p"

text \<open>\<open>value.replace(old, new)\<close> for a nonempty \<open>old\<close>: left to right, without overlaps.\<close>

function replace_all :: "string \<Rightarrow> string \<Rightarrow> string \<Rightarrow> string" where
  "replace_all old new s = (if s = [] \<or> old = [] then s
     else if has_prefix old s then new @ replace_all old new (drop (length old) s)
     else hd s # replace_all old new (tl s))"
  by pat_completeness auto
termination by (relation "measure (\<lambda>(_, _, s). length s)") auto

declare replace_all.simps [simp del]

definition proc_path :: "string \<Rightarrow> string" where
  "proc_path v = replace_all (CHR 0x5C # ''134'') [CHR 0x5C]
     (replace_all (CHR 0x5C # ''012'') [CHR 0x0A]
     (replace_all (CHR 0x5C # ''011'') [CHR 0x09]
     (replace_all (CHR 0x5C # ''040'') '' '' v)))"

text \<open>\<open>int(text)\<close>: white space around, a sign, decimal digits with single underscores between.\<close>

fun digits_of :: "bool \<Rightarrow> string \<Rightarrow> nat \<Rightarrow> nat option" where
  "digits_of after [] acc = (if after then Some acc else None)"
| "digits_of after (c # cs) acc =
     (if CHR ''0'' \<le> c \<and> c \<le> CHR ''9'' then digits_of True cs (acc * 10 + (of_char c - 48))
      else if c = CHR ''_'' \<and> after then digits_of False cs acc else None)"

definition strip_ws :: "string \<Rightarrow> string" where
  "strip_ws s = rev (dropWhile py_space (rev (dropWhile py_space s)))"

definition py_int :: "string \<Rightarrow> int option" where
  "py_int s = (let t = strip_ws s in
     case t of
       [] \<Rightarrow> None
     | c # cs \<Rightarrow> if c = CHR ''-'' then map_option (\<lambda>n. - int n) (digits_of False cs 0)
                else if c = CHR ''+'' then map_option int (digits_of False cs 0)
                else map_option int (digits_of False t 0))"

fun hex_digits_of :: "nat \<Rightarrow> string" where
  "hex_digits_of n = (if n < 16 then [''0123456789abcdef'' ! n]
                      else hex_digits_of (n div 16) @ [''0123456789abcdef'' ! (n mod 16)])"

declare hex_digits_of.simps [simp del]

text \<open>\<open>f"{n:02x}"\<close>\<close>

definition hex02 :: "int \<Rightarrow> string" where
  "hex02 n = (let h = hex_digits_of (nat \<bar>n\<bar>) in
     if n < 0 then CHR ''-'' # h else if length h < 2 then CHR ''0'' # h else h)"

text \<open>\<open>device.split(":", 1)\<close>: two parts exactly when there is a colon.\<close>

definition split_colon :: "string \<Rightarrow> (string \<times> string) option" where
  "split_colon s = (if CHR '':'' \<in> set s
     then Some (takeWhile (\<lambda>c. c \<noteq> CHR '':'') s, tl (dropWhile (\<lambda>c. c \<noteq> CHR '':'') s)) else None)"

definition maps_device :: "string \<Rightarrow> string res" where
  "maps_device device =
     (let bad = Inl (protocol_error ''exact worker mountinfo contains an invalid device'') in
      case split_colon device of
        None \<Rightarrow> bad
      | Some (a, b) \<Rightarrow> (case (py_int a, py_int b) of
          (Some m, Some n) \<Rightarrow> Inr (hex02 m @ '':'' @ hex02 n) | _ \<Rightarrow> bad))"

definition rstrip_slash :: "string \<Rightarrow> string" where
  "rstrip_slash s = rev (dropWhile (\<lambda>c. c = CHR ''/'') (rev s))"

text \<open>The loop of \<open>_mount_device\<close> over the lines of mountinfo.\<close>

fun mount_matches :: "string \<Rightarrow> string list \<Rightarrow> (nat \<times> string) list res" where
  "mount_matches path [] = Inr []"
| "mount_matches path (line # rest) =
     (let fields = split_ws line in
      if length fields < 6 then mount_matches path rest
      else let mountpoint = proc_path (fields ! 4) in
      if path = mountpoint \<or> has_prefix (rstrip_slash mountpoint @ ''/'') path
      then rbind (maps_device (fields ! 2)) (\<lambda>d. rbind (mount_matches path rest) (\<lambda>ms.
        Inr ((length mountpoint, d) # ms)))
      else mount_matches path rest)"

definition mount_device_of :: "string list \<Rightarrow> string \<Rightarrow> string res" where
  "mount_device_of lines path = rbind (mount_matches path lines) (\<lambda>ms. case ms of
     [] \<Rightarrow> Inl (protocol_error ''mapped exact library has no worker mount identity'')
   | m # ms \<Rightarrow> Inr (snd (foldl max m ms)))"

definition mount_device :: "worker_env \<Rightarrow> int \<Rightarrow> string \<Rightarrow> (exact_client, string) py" where
  "mount_device W pid path = pbind
     (reraise is_os_error (\<lambda>e. protocol_error (''cannot inspect exact worker mount identity: '' @ exn_text e))
       (xcall (XMountinfo pid) (we_text W)))
     (\<lambda>lines. plift (mount_device_of lines path))"

section \<open>The mapped library\<close>

definition EXACT_LIBRARY_SONAME :: string where
  "EXACT_LIBRARY_SONAME = ''libirisu_box2d_msvc_exact_multiworld.so''"

fun split_char :: "char \<Rightarrow> string \<Rightarrow> string list" where
  "split_char c [] = [[]]"
| "split_char c (x # xs) = (if x = c then [] # split_char c xs
     else case split_char c xs of [] \<Rightarrow> [[x]] | p # ps \<Rightarrow> (x # p) # ps)"

text \<open>\<open>Path(text).name\<close>\<close>

definition path_name :: "string \<Rightarrow> string" where
  "path_name s = (let parts = filter (\<lambda>p. p \<noteq> [] \<and> p \<noteq> ''.'') (split_char (CHR ''/'') s) in
     if parts = [] then [] else last parts)"

type_synonym mapping_key = "string \<times> string \<times> int"

text \<open>\<open>candidates.setdefault(key, []).append(segment)\<close> on a dict in insertion order.\<close>

fun add_segment ::
  "mapping_key \<Rightarrow> string \<times> string \<Rightarrow> (mapping_key \<times> (string \<times> string) list) list
     \<Rightarrow> (mapping_key \<times> (string \<times> string) list) list" where
  "add_segment k seg [] = [(k, [seg])]"
| "add_segment k seg ((k', segs) # rest) =
     (if k = k' then (k', segs @ [seg]) # rest else (k', segs) # add_segment k seg rest)"

fun scan_maps ::
  "string list \<Rightarrow> (mapping_key \<times> (string \<times> string) list) list
     \<Rightarrow> (mapping_key \<times> (string \<times> string) list) list res" where
  "scan_maps [] cands = Inr cands"
| "scan_maps (line # rest) cands =
     (let f = split_ws_max 5 line in
      if length f \<noteq> 6 then scan_maps rest cands
      else let raw = f ! 5; deleted = has_suffix '' (deleted)'' raw;
               path = proc_path (if deleted then take (length raw - 10) raw else raw) in
      if path_name path \<noteq> EXACT_LIBRARY_SONAME then scan_maps rest cands
      else case py_int (f ! 4) of
        None \<Rightarrow> Inl (protocol_error ''exact worker maps contain an invalid library inode'')
      | Some inode \<Rightarrow>
        if deleted then Inl (protocol_error ''mapped exact library was deleted'')
        else scan_maps rest (add_segment (path, f ! 3, inode) (f ! 1, f ! 2) cands))"

definition ascii_lower_char :: "char \<Rightarrow> char" where
  "ascii_lower_char c = (if CHR ''A'' \<le> c \<and> c \<le> CHR ''Z'' then char_of (of_char c + 32 :: nat) else c)"

type_synonym mapped_library = "string \<times> string \<times> int \<times> (string \<times> string) list"

definition mapped_exact_library :: "worker_env \<Rightarrow> int \<Rightarrow> (exact_client, mapped_library) py" where
  "mapped_exact_library W pid = pbind
     (reraise is_os_error (\<lambda>e. protocol_error (''cannot inspect exact worker mapped libraries: '' @ exn_text e))
       (xcall (XMaps pid) (we_text W)))
     (\<lambda>lines. pbind (plift (scan_maps lines [])) (\<lambda>cands. case cands of
        [((path, device, inode), segments)] \<Rightarrow>
          pbind (pguard (\<not> has_prefix ''/'' path \<or> inode \<le> 0)
            (protocol_error ''mapped exact library has an invalid identity'')) (\<lambda>_.
          pbind (mount_device W pid path) (\<lambda>mounted.
          pbind (pguard (map ascii_lower_char device \<noteq> mounted)
            (protocol_error ''mapped exact library device disagrees with the worker mount'')) (\<lambda>_.
          pbind (pguard (\<not> (\<exists>(p, off) \<in> set segments. off = ''00000000'')
                  \<or> \<not> (\<exists>(p, off) \<in> set segments. CHR ''x'' \<in> set p))
            (protocol_error ''mapped exact library has incomplete ELF mappings'')) (\<lambda>_.
          pret (path, device, inode, sort segments)))))
      | _ \<Rightarrow> praise (protocol_error
          ''exact worker must map exactly one identifiable exact physics library'')))"

section \<open>Captured identities\<close>

definition hex_char :: "char \<Rightarrow> bool" where
  "hex_char c \<longleftrightarrow> (CHR ''0'' \<le> c \<and> c \<le> CHR ''9'') \<or> (CHR ''a'' \<le> c \<and> c \<le> CHR ''f'')"

definition normalize_exact_library_sha256 :: "pyval \<Rightarrow> string option" where
  "normalize_exact_library_sha256 v = (case plain_str v of
     None \<Rightarrow> None
   | Some s \<Rightarrow>
     if length s \<noteq> 64 then None
     else let n = map ascii_lower_char s in
       if n = replicate 64 (CHR ''0'') \<or> \<not> list_all hex_char n then None else Some n)"

definition capture_executed_worker :: "worker_env \<Rightarrow> (exact_client, string \<times> file_identity) py" where
  "capture_executed_worker W = pbind
     (reraise is_os_error (\<lambda>e. protocol_error (''cannot capture executed exact worker: '' @ exn_text e))
       (pbind (xcall XStatExe (we_stat W)) (\<lambda>before.
        pbind (xcall XHashExe (we_bytes W)) (\<lambda>contents.
        pbind (xcall XStatExe (we_stat W)) (\<lambda>after.
        pret (before, we_sha256 W contents, after))))))
     (\<lambda>(before, digest, after).
        pbind (pguard (before \<noteq> after)
          (protocol_error ''executed exact worker changed while it was captured'')) (\<lambda>_.
        pret (digest, after)))"

fun fi_inode :: "file_identity \<Rightarrow> int" where "fi_inode (dev, ino, sz, mt, ct) = ino"
fun fi_size :: "file_identity \<Rightarrow> int" where "fi_size (dev, ino, sz, mt, ct) = sz"

text \<open>The reads between the two looks at the mapping: open, fstat, read all, fstat, stat, resolve.\<close>

definition read_library ::
  "worker_env \<Rightarrow> string \<Rightarrow> int
     \<Rightarrow> (exact_client, file_identity \<times> byte list \<times> file_identity \<times> file_identity \<times> string) py" where
  "read_library W path inode =
     reraise is_os_error (\<lambda>e. protocol_error (''cannot capture mapped exact library: '' @ exn_text e))
       (pbind (xcall (XOpenLibrary path) (we_os W)) (\<lambda>_.
        pbind (xcall XFstatBefore (we_stat W)) (\<lambda>before.
        pbind (pguard (fi_inode before \<noteq> inode)
          (protocol_error ''mapped exact library path no longer names the loaded inode'')) (\<lambda>_.
        pbind (xcall XReadLibrary (we_bytes W)) (\<lambda>contents.
        pbind (xcall XFstatAfter (we_stat W)) (\<lambda>after.
        pbind (xcall (XStatLibrary path) (we_stat W)) (\<lambda>current.
        pbind (xcall (XResolve path) (we_path W)) (\<lambda>resolved.
        pret (before, contents, after, current, resolved)))))))))"

definition capture_mapped_exact_library ::
  "worker_env \<Rightarrow> int \<Rightarrow> pyval \<Rightarrow> (exact_client, library_provenance) py" where
  "capture_mapped_exact_library W pid reported =
     (case normalize_exact_library_sha256 reported of
        None \<Rightarrow> praise (protocol_error
          ''exact worker did not report a valid non-placeholder exact-library SHA-256'')
      | Some expected \<Rightarrow>
     pbind (mapped_exact_library W pid) (\<lambda>mapped_before.
     let (path, device, inode, segments) = mapped_before in
     pbind (read_library W path inode) (\<lambda>(before, contents, after, current, resolved).
     pbind (mapped_exact_library W pid) (\<lambda>mapped_after.
     pbind (mount_device W (we_own_pid W) resolved) (\<lambda>parent.
     pbind (pguard (parent \<noteq> map ascii_lower_char device)
       (protocol_error ''mapped exact library device disagrees with the client mount'')) (\<lambda>_.
     pbind (pguard (mapped_after \<noteq> mapped_before \<or> before \<noteq> after \<or> after \<noteq> current
         \<or> int (length contents) \<noteq> fi_size after)
       (protocol_error ''mapped exact library changed while it was captured'')) (\<lambda>_.
     pbind (pguard (we_sha256 W contents \<noteq> expected)
       (protocol_error ''mapped exact library bytes disagree with worker-reported provenance'')) (\<lambda>_.
     pret \<lparr>lp_path = resolved, lp_bytes = int (length contents), lp_sha256 = we_sha256 W contents,
       lp_identity = after, lp_mapped_device = device, lp_mapped_inode = inode\<rparr>))))))))"

end
