(* ===== verification/Exact_Client.thy ===== *)
theory Exact_Client
  imports Exact_Proc
begin

text \<open>
  \<open>ExactWorkerClient\<close> of \<open>irisu_env/exact_ipc.py\<close>: framed requests and responses over the
  worker's pipes, one outstanding request at a time, and a transport that is closed whenever
  the position in the stream is no longer known.  The lock around each method has no
  counterpart: a method is one step.  Texts that embed a formatted value (a status, a worker
  path) are kept without it.
\<close>

section \<open>Constants\<close>

definition MAGIC :: int where "MAGIC = 0x43505249"
definition PROTOCOL_VERSION :: int where "PROTOCOL_VERSION = 1"

definition OP_HELLO :: int where "OP_HELLO = 1"
definition OP_RESET :: int where "OP_RESET = 2"
definition OP_STEP :: int where "OP_STEP = 3"
definition OP_OBSERVE :: int where "OP_OBSERVE = 4"
definition OP_CLOSE :: int where "OP_CLOSE = 5"
definition OP_CONFIGURE :: int where "OP_CONFIGURE = 6"
definition OP_CONFIG_JSON :: int where "OP_CONFIG_JSON = 7"
definition OP_STEP_PADDED :: int where "OP_STEP_PADDED = 8"
definition OP_FETCH_EVENTS :: int where "OP_FETCH_EVENTS = 9"
definition OP_FAST_CHECKPOINT :: int where "OP_FAST_CHECKPOINT = 10"
definition OP_FAST_RELEASE :: int where "OP_FAST_RELEASE = 11"
definition OP_EXACT_ATTESTATION :: int where "OP_EXACT_ATTESTATION = 13"

definition EXACT_BACKEND :: string where "EXACT_BACKEND = ''exact-msvc9-r58-multiworld-forward''"
definition CANONICAL_X87_CONTROL_WORD :: int where "CANONICAL_X87_CONTROL_WORD = 0x027F"

abbreviation worker_error :: "string \<Rightarrow> exn" where
  "worker_error t \<equiv> Exn ExactWorkerError t"

section \<open>The pipes\<close>

text \<open>\<open>_write_all\<close>: the stream may accept any positive part of what is offered.\<close>

function write_all :: "worker_env \<Rightarrow> byte list \<Rightarrow> (exact_client, unit) py" where
  "write_all W data = (if data = [] then xcall XFlush (we_os W) else
     pbind (xcall (XWrite data) (we_write W)) (\<lambda>n.
       if n = None \<or> the n \<le> 0
       then praise (Exn OSError ''worker request stream accepted no bytes'')
       else write_all W (drop (nat (the n)) data)))"
  by pat_completeness auto
termination by (relation "measure (\<lambda>(_, data). length data)") auto

text \<open>\<open>_read_exact\<close>: \<open>stream.read(n)\<close> returns at most \<open>n\<close> bytes, none at the end of the stream.\<close>

function read_exact :: "worker_env \<Rightarrow> nat \<Rightarrow> (exact_client, byte list) py" where
  "read_exact W remaining = (if remaining = 0 then pret [] else
     pbind (xcall (XRead remaining) (we_read W)) (\<lambda>answer.
       let chunk = take remaining answer in
       if chunk = [] then praise (Exn EOFError ''worker response ended early'')
       else pbind (read_exact W (remaining - length chunk)) (\<lambda>rest. pret (chunk @ rest))))"
  by pat_completeness auto
termination by (relation "measure (\<lambda>(_, n). n)") (auto simp: Let_def)

declare write_all.simps [simp del] read_exact.simps [simp del]

section \<open>Closing the transport\<close>

definition xpoll :: "worker_env \<Rightarrow> (exact_client, int option) py" where
  "xpoll W = xcall XPoll (\<lambda>l. Inr (we_poll W l))"

abbreviation is_any_exception :: "exn \<Rightarrow> bool" where
  "is_any_exception \<equiv> is_exception"

definition client_abort :: "worker_env \<Rightarrow> (exact_client, unit) py" where
  "client_abort W =
     pbind (pmod (\<lambda>s. s\<lparr>xc_closed := True\<rparr>)) (\<lambda>_.
     pbind (pget xc_has_connection) (\<lambda>connection.
     pbind (pget xc_has_process) (\<lambda>process.
     pbind (pwhen connection (ignoring is_os_error (xcall XShutdown (we_os W)))) (\<lambda>_.
     pbind (pwhen process
       (pbind (xpoll W) (\<lambda>status.
        pbind (pwhen (status = None) (xcall XKill (we_os W))) (\<lambda>_.
        xcall XWait (we_os W))))) (\<lambda>_.
     pbind (ignoring is_os_error (xcall XCloseStream (we_os W))) (\<lambda>_.
     pbind (ignoring is_os_error (xcall XCloseStream (we_os W))) (\<lambda>_.
     pbind (pwhen connection (xcall XCloseConnection (we_os W))) (\<lambda>_.
     pwhen process (xcall XCloseStderr (we_os W))))))))))"

definition transport_status :: "worker_env \<Rightarrow> (exact_client, unit) py" where
  "transport_status W = pbind (pget xc_has_process) (\<lambda>process.
     pwhen process (pbind (xpoll W) (\<lambda>_. pret ())))"

section \<open>Requests and responses\<close>

definition next_request_id :: "int \<Rightarrow> int" where
  "next_request_id n = (let v = (n + 1) mod 4294967296 in if v = 0 then 1 else v)"

definition frame :: "int \<Rightarrow> int \<Rightarrow> byte list \<Rightarrow> byte list" where
  "frame opcode request_id payload =
     pack HEADER [MAGIC, PROTOCOL_VERSION, opcode, request_id, int (length payload)] @ payload"

definition begin_request :: "worker_env \<Rightarrow> int \<Rightarrow> byte list \<Rightarrow> (exact_client, unit) py" where
  "begin_request W opcode payload =
     pbind (pget xc_closed) (\<lambda>closed.
     pbind (pguard closed (worker_error ''exact worker client is closed'')) (\<lambda>_.
     pbind (pget xc_pending) (\<lambda>pending.
     pbind (pguard (pending \<noteq> None)
       (Exn RuntimeError ''exact worker already has an outstanding request'')) (\<lambda>_.
     pbind (pmod (\<lambda>s. s\<lparr>xc_request_id := next_request_id (xc_request_id s)\<rparr>)) (\<lambda>_.
     pbind (pget xc_request_id) (\<lambda>request_id.
     pbind (pattempt (write_all W (frame opcode request_id payload))) (\<lambda>r. case r of
       Inl e \<Rightarrow>
         if is_os_error e then
           pbind (transport_status W) (\<lambda>_.
           pbind (ignoring is_any_exception (client_abort W)) (\<lambda>_.
           praise (worker_error ''exact worker exited unexpectedly'')))
         else praise e
     | Inr _ \<Rightarrow> pmod (\<lambda>s. s\<lparr>xc_pending := Some (opcode, request_id)\<rparr>))))))))"

text \<open>The part of \<open>_finish_response\<close> under its \<open>try\<close>: one header, checked, then its payload.\<close>

definition read_response ::
  "worker_env \<Rightarrow> int \<Rightarrow> int \<Rightarrow> (exact_client, int \<times> byte list) py" where
  "read_response W opcode request_id =
     pbind (read_exact W (fmt_size HEADER)) (\<lambda>header.
     let v = unpack HEADER header; payload_size = v ! 4 in
     pbind (pguard (v ! 0 \<noteq> MAGIC \<or> v ! 1 \<noteq> PROTOCOL_VERSION)
       (protocol_error ''exact worker returned an invalid frame header'')) (\<lambda>_.
     pbind (pguard (v ! 2 \<noteq> opcode \<or> v ! 3 \<noteq> request_id)
       (protocol_error ''exact worker response does not match request'')) (\<lambda>_.
     pbind (pguard (payload_size < int (fmt_size STATUS) \<or> 4194304 < payload_size)
       (protocol_error ''exact worker returned an invalid payload size'')) (\<lambda>_.
     pbind (read_exact W (nat payload_size)) (\<lambda>response.
     pret (payload_size, response))))))"

definition finish_response :: "worker_env \<Rightarrow> int \<Rightarrow> (exact_client, byte list) py" where
  "finish_response W opcode =
     pbind (pget xc_closed) (\<lambda>closed.
     pbind (pguard closed (worker_error ''exact worker client is closed'')) (\<lambda>_.
     pbind (pget xc_pending) (\<lambda>pending. case pending of
       None \<Rightarrow> praise (Exn RuntimeError ''exact worker has no matching outstanding request'')
     | Some (pending_op, request_id) \<Rightarrow>
       if pending_op \<noteq> opcode
       then praise (Exn RuntimeError ''exact worker has no matching outstanding request'')
       else
       pbind (pfinally
         (pbind (pattempt (read_response W opcode request_id)) (\<lambda>r. case r of
            Inr x \<Rightarrow> pret x
          | Inl e \<Rightarrow>
              if exn_class e = ExactProtocolError then
                pbind (ignoring is_any_exception (client_abort W)) (\<lambda>_. praise e)
              else if exn_class e = EOFError \<or> is_os_error e then
                pbind (transport_status W) (\<lambda>_.
                pbind (ignoring is_any_exception (client_abort W)) (\<lambda>_.
                praise (worker_error ''exact worker exited unexpectedly'')))
              else praise e))
         (pmod (\<lambda>s. s\<lparr>xc_pending := None\<rparr>))) (\<lambda>(payload_size, response).
       pbind (pmod (\<lambda>s. s\<lparr>xc_last_response_bytes := int (fmt_size HEADER) + payload_size\<rparr>)) (\<lambda>_.
       let status = unpack STATUS response ! 0; content = drop (fmt_size STATUS) response in
       if status = 0 then pret content else
       pbind (pwhen (status \<noteq> 1) (ignoring is_any_exception (client_abort W))) (\<lambda>_.
       if status \<noteq> 1 \<and> status \<noteq> 2
       then praise (protocol_error ''exact worker returned unknown status'')
       else praise (worker_error ''exact worker status'')))))))"

definition request :: "worker_env \<Rightarrow> int \<Rightarrow> byte list \<Rightarrow> (exact_client, byte list) py" where
  "request W opcode payload = pbind (begin_request W opcode payload) (\<lambda>_. finish_response W opcode)"

section \<open>The operations\<close>

fun hello_strings :: "nat \<Rightarrow> byte list \<Rightarrow> nat \<Rightarrow> (ustr list \<times> nat) res" where
  "hello_strings 0 payload offset = Inr ([], offset)"
| "hello_strings (Suc n) payload offset =
     (if length payload - offset < 2
      then Inl (protocol_error ''exact worker hello string is truncated'')
      else let sz = nat (unpack_from [U 2] payload offset ! 0); offset = offset + 2 in
      if length payload - offset < sz
      then Inl (protocol_error ''exact worker hello string is truncated'')
      else case utf8_decode (take sz (drop offset payload)) of
        None \<Rightarrow> Inl (protocol_error ''exact worker hello string is not UTF-8'')
      | Some s \<Rightarrow> rbind (hello_strings n payload (offset + sz)) (\<lambda>(ss, end). Inr (s # ss, end)))"

definition decode_hello :: "byte list \<Rightarrow> worker_info res" where
  "decode_hello payload =
     (if length payload < fmt_size HELLO_FIXED
      then Inl (protocol_error ''exact worker hello response is truncated'')
      else let v = unpack_from HELLO_FIXED payload 0 in
      rbind (hello_strings 3 payload (fmt_size HELLO_FIXED)) (\<lambda>(ss, offset).
      if offset \<noteq> length payload
      then Inl (protocol_error ''exact worker hello response has trailing bytes'')
      else Inr \<lparr>wi_protocol_version = v ! 0, wi_pointer_bits = v ! 1, wi_body_capacity = v ! 2,
        wi_pid = v ! 3, wi_config_hash = v ! 4, wi_x87_control_word = v ! 5,
        wi_process_model = v ! 6, wi_backend = ss ! 0, wi_compiler = ss ! 1,
        wi_exact_library_sha256 = ss ! 2\<rparr>))"

definition client_hello :: "worker_env \<Rightarrow> (exact_client, worker_info) py" where
  "client_hello W = pbind (request W OP_HELLO []) (\<lambda>payload. plift (decode_hello payload))"

text \<open>A response that is one observation and nothing else.\<close>

definition whole_observation :: "byte list \<Rightarrow> string \<Rightarrow> exact_observation res" where
  "whole_observation payload text = rbind (decode_observation payload 0) (\<lambda>(obs, offset).
     if offset \<noteq> length payload then Inl (protocol_error text) else Inr obs)"

definition client_reset :: "worker_env \<Rightarrow> wire_num \<Rightarrow> (exact_client, exact_observation) py" where
  "client_reset W seed = (case integral_of seed of
     None \<Rightarrow> praise (Exn TypeError ''seed must be an integer'')
   | Some n \<Rightarrow>
     if \<not> (0 \<le> n \<and> n \<le> UINT32)
     then praise (Exn ValueError ''normal-mode seed must fit in uint32'')
     else pbind (request W OP_RESET (pack RESET_REQUEST [n])) (\<lambda>payload.
       plift (whole_observation payload ''exact reset response has trailing bytes'')))"

definition client_observe :: "worker_env \<Rightarrow> (exact_client, exact_observation) py" where
  "client_observe W = pbind (request W OP_OBSERVE []) (\<lambda>payload.
     plift (whole_observation payload ''exact observation response has trailing bytes''))"

definition client_send_step ::
  "worker_env \<Rightarrow> int \<Rightarrow> wire_num \<Rightarrow> wire_num \<Rightarrow> wire_num \<Rightarrow> wire_num \<Rightarrow> bool \<Rightarrow> (exact_client, unit) py" where
  "client_send_step W opcode kind x y wait suppress =
     pbind (plift (pack_step_request kind x y wait suppress)) (\<lambda>bytes.
     begin_request W opcode bytes)"

definition client_receive_step :: "worker_env \<Rightarrow> (exact_client, exact_transition) py" where
  "client_receive_step W = pbind (finish_response W OP_STEP) (\<lambda>payload.
     plift (decode_transition payload))"

definition client_step ::
  "worker_env \<Rightarrow> wire_num \<Rightarrow> wire_num \<Rightarrow> wire_num \<Rightarrow> wire_num \<Rightarrow> bool
     \<Rightarrow> (exact_client, exact_transition) py" where
  "client_step W kind x y wait suppress =
     pbind (client_send_step W OP_STEP kind x y wait suppress) (\<lambda>_. client_receive_step W)"

definition client_fetch_events :: "worker_env \<Rightarrow> int \<Rightarrow> (exact_client, byte list) py" where
  "client_fetch_events W generation =
     (if \<not> list_all2 field_ok EVENT_GENERATION [generation]
      then praise (Exn StructError ''argument out of range'')
      else request W OP_FETCH_EVENTS (pack EVENT_GENERATION [generation]))"

definition fast_token :: "byte list \<Rightarrow> byte list res" where
  "fast_token token = (if length token \<noteq> 16
     then Inl (Exn ValueError ''fast checkpoint token must contain 16 bytes'') else Inr token)"

definition client_fast_checkpoint :: "worker_env \<Rightarrow> (exact_client, byte list \<times> int) py" where
  "client_fast_checkpoint W = pbind (request W OP_FAST_CHECKPOINT []) (\<lambda>response.
     if length response \<noteq> 20
     then praise (protocol_error ''exact fast-checkpoint response has the wrong size'')
     else let token = take 16 response; keeper = unpack [U 4] (drop 16 response) ! 0 in
     if token = replicate 16 0 \<or> keeper = 0
     then praise (protocol_error ''exact fast-checkpoint metadata is invalid'')
     else pret (token, keeper))"

definition client_release_fast_checkpoint :: "worker_env \<Rightarrow> byte list \<Rightarrow> (exact_client, unit) py" where
  "client_release_fast_checkpoint W token = pbind (plift (fast_token token)) (\<lambda>t.
     pbind (request W OP_FAST_RELEASE t) (\<lambda>response.
     pguard (response \<noteq> []) (protocol_error ''exact fast-release response must be empty'')))"

section \<open>Configuration\<close>

datatype config_key = CKey ustr | CKeyOther
datatype config_value = CNum wire_num | CSeq "wire_num list"

text \<open>\<open>encoded_number\<close> of \<open>native._flatten_config\<close>: an integer must survive the trip to a double.\<close>

definition encoded_number :: "wire_num \<Rightarrow> f64 res" where
  "encoded_number v = (case real_of v of
     None \<Rightarrow> Inl (Exn TypeError ''configuration value must be numeric'')
   | Some r \<Rightarrow> rbind r (\<lambda>bits. case integral_of v of
       None \<Rightarrow> Inr bits
     | Some n \<Rightarrow> if int_to_float n = Inr (Fin (of_int n)) then Inr bits
                else Inl (Exn ValueError ''configuration integer is not exactly representable'')))"

fun dec_digits :: "nat \<Rightarrow> ustr" where
  "dec_digits n = (if n < 10 then [48 + n] else dec_digits (n div 10) @ [48 + n mod 10])"

declare dec_digits.simps [simp del]

fun flatten_items :: "ustr \<Rightarrow> nat \<Rightarrow> wire_num list \<Rightarrow> (ustr \<times> f64) list res" where
  "flatten_items key i [] = Inr []"
| "flatten_items key i (v # vs) = rbind (encoded_number v) (\<lambda>x.
     rbind (flatten_items key (Suc i) vs) (\<lambda>rest.
     Inr ((key @ [91] @ dec_digits i @ [93], x) # rest)))"

fun flatten_entries :: "(config_key \<times> config_value) list \<Rightarrow> (ustr \<times> f64) list res" where
  "flatten_entries [] = Inr []"
| "flatten_entries ((k, v) # rest) = (case k of
     CKeyOther \<Rightarrow> Inl (Exn TypeError ''configuration keys must be non-empty strings'')
   | CKey key \<Rightarrow>
     if key = [] then Inl (Exn TypeError ''configuration keys must be non-empty strings'')
     else if 0 \<in> set key
     then Inl (Exn ValueError ''configuration keys must not contain NUL characters'')
     else rbind (case v of CNum x \<Rightarrow> rbind (encoded_number x) (\<lambda>b. Inr [(key, b)])
                         | CSeq xs \<Rightarrow> flatten_items key 0 xs) (\<lambda>here.
       rbind (flatten_entries rest) (\<lambda>more. Inr (here @ more))))"

definition flatten_config :: "(config_key \<times> config_value) list \<Rightarrow> (ustr \<times> f64) list res" where
  "flatten_config config = rbind (flatten_entries config) (\<lambda>flat. Inr (sort_key fst flat))"

definition encode_override :: "ustr \<times> f64 \<Rightarrow> byte list res" where
  "encode_override kv = rbind (utf8_encode (fst kv)) (\<lambda>encoded.
     if 65535 < length encoded
     then Inl (Exn ValueError ''encoded configuration key exceeds uint16 length'')
     else Inr (pack CONFIG_KEY_SIZE [int (length encoded)] @ encoded @ field_enc (U 8) (uint (snd kv))))"

definition config_payload :: "(config_key \<times> config_value) list \<Rightarrow> byte list res" where
  "config_payload config = rbind (flatten_config config) (\<lambda>flat.
     if 1024 < length flat
     then Inl (Exn ValueError ''configuration override count exceeds worker limit'')
     else rbind (rmap encode_override flat) (\<lambda>parts.
       Inr (pack CONFIG_COUNT [int (length flat)] @ concat parts)))"

definition client_configure ::
  "worker_env \<Rightarrow> (config_key \<times> config_value) list \<Rightarrow> (exact_client, int) py" where
  "client_configure W config = pbind (plift (config_payload config)) (\<lambda>payload.
     pbind (request W OP_CONFIGURE payload) (\<lambda>response.
     if length response \<noteq> fmt_size CONFIG_HASH
     then praise (protocol_error ''exact configure response has the wrong size'')
     else let h = unpack CONFIG_HASH response ! 0 in
     pbind (pmod (\<lambda>s. s\<lparr>xc_config_hash := h\<rparr>)) (\<lambda>_. pret h)))"

text \<open>\<open>config_json\<close>: the JSON parser is a parameter.  It answers None for bytes that do not
  parse, Some None for a value that is not an object, and the object's \<open>config_hash\<close> otherwise.\<close>

definition client_config_json :: "worker_env \<Rightarrow> (exact_client, byte list) py" where
  "client_config_json W = pbind (request W OP_CONFIG_JSON []) (\<lambda>payload.
     case we_json W payload of
       None \<Rightarrow> praise (protocol_error ''exact worker returned invalid config JSON'')
     | Some None \<Rightarrow> praise (protocol_error ''exact worker config JSON is not an object'')
     | Some (Some h) \<Rightarrow> pbind (pget xc_config_hash) (\<lambda>current.
         pbind (pguard (h \<noteq> Some current)
           (protocol_error ''exact worker config JSON hash disagrees'')) (\<lambda>_. pret payload)))"

section \<open>The handshake and the end\<close>

text \<open>A wire string as Python text for the digest check; what is not ASCII is no digit.\<close>

definition text_of :: "ustr \<Rightarrow> string" where
  "text_of s = map (\<lambda>c. if c < 128 then char_of c else CHR 0x00) s"

definition ustr_of :: "string \<Rightarrow> ustr" where
  "ustr_of s = map of_char s"

definition check_info :: "worker_info \<Rightarrow> int \<Rightarrow> worker_info res" where
  "check_info info expected_pid =
     (if wi_pid info \<noteq> expected_pid
      then Inl (protocol_error ''exact worker hello PID disagrees with its transport'')
      else if wi_protocol_version info \<noteq> PROTOCOL_VERSION
      then Inl (protocol_error ''exact worker protocol version is unsupported'')
      else if wi_pointer_bits info \<noteq> 32 \<or> wi_body_capacity info \<noteq> BODY_CAPACITY
        \<or> wi_process_model info \<noteq> 1
      then Inl (protocol_error ''exact worker exposes an incompatible ABI'')
      else if wi_x87_control_word info \<noteq> CANONICAL_X87_CONTROL_WORD
      then Inl (protocol_error ''exact worker does not expose the canonical x87 control word'')
      else if wi_backend info \<noteq> ustr_of EXACT_BACKEND
      then Inl (protocol_error ''exact worker is not the required exact multiworld backend'')
      else case normalize_exact_library_sha256 (PyStr (text_of (wi_exact_library_sha256 info))) of
        None \<Rightarrow> Inl (protocol_error
          ''exact worker did not report a valid non-placeholder exact-library SHA-256'')
      | Some digest \<Rightarrow> Inr (info\<lparr>wi_exact_library_sha256 := ustr_of digest\<rparr>))"

text \<open>The identity of a launched worker is captured, that of a fast branch inherited.\<close>

definition capture_identity ::
  "worker_env \<Rightarrow> int \<Rightarrow> worker_info \<Rightarrow> exact_client option \<Rightarrow> (exact_client, library_provenance) py" where
  "capture_identity W expected_pid info inherited = (case inherited of
     None \<Rightarrow>
       pbind (capture_executed_worker W) (\<lambda>(digest, identity).
       pbind (pmod (\<lambda>s. s\<lparr>xc_executable_sha256 := digest, xc_executed_identity := identity\<rparr>)) (\<lambda>_.
       pbind (capture_mapped_exact_library W expected_pid
         (PyStr (text_of (wi_exact_library_sha256 info)))) (\<lambda>lib.
       pbind (pmod (\<lambda>s. s\<lparr>xc_library := Some lib\<rparr>)) (\<lambda>_. pret lib))))
   | Some parent \<Rightarrow> (case xc_library parent of
       None \<Rightarrow> praise (Exn OtherException ''AttributeError'')
     | Some lib \<Rightarrow>
       pbind (pguard (ustr_of (lp_sha256 lib) \<noteq> wi_exact_library_sha256 info)
         (protocol_error ''exact fast-branch library provenance changed'')) (\<lambda>_.
       pbind (pmod (\<lambda>s. s\<lparr>xc_executable_sha256 := xc_executable_sha256 parent,
         xc_executed_identity := xc_executed_identity parent, xc_library := Some lib\<rparr>)) (\<lambda>_.
       pret lib))))"

definition protocol_body ::
  "worker_env \<Rightarrow> (config_key \<times> config_value) list option \<Rightarrow> int \<Rightarrow> exact_client option
     \<Rightarrow> (exact_client, unit) py" where
  "protocol_body W config expected_pid inherited =
     pbind (client_hello W) (\<lambda>hello.
     pbind (pmod (\<lambda>s. s\<lparr>xc_info := Some hello\<rparr>)) (\<lambda>_.
     pbind (plift (check_info hello expected_pid)) (\<lambda>info.
     pbind (pmod (\<lambda>s. s\<lparr>xc_info := Some info\<rparr>)) (\<lambda>_.
     pbind (reraise (\<lambda>e. exn_class e = ExactWorkerError)
         (\<lambda>_. protocol_error ''exact worker does not expose required call-target attestation'')
         (pbind (request W OP_EXACT_ATTESTATION []) (\<lambda>payload.
          plift (decode_exact_attestation payload)))) (\<lambda>(entrypoints, device, inode).
     pbind (pmod (\<lambda>s. s\<lparr>xc_entrypoint_count := entrypoints, xc_target_identity := (device, inode)\<rparr>)) (\<lambda>_.
     pbind (capture_identity W expected_pid info inherited) (\<lambda>lib.
     pbind (pguard (ustr_of (lp_mapped_device lib) \<noteq> device \<or> lp_mapped_inode lib \<noteq> inode)
       (protocol_error ''exact call targets disagree with the captured library mapping'')) (\<lambda>_.
     pbind (pmod (\<lambda>s. s\<lparr>xc_config_hash := wi_config_hash info\<rparr>)) (\<lambda>_.
     case config of
       None \<Rightarrow> pret ()
     | Some c \<Rightarrow> pbind (client_configure W c) (\<lambda>_. pret ()))))))))))"

definition initialize_protocol ::
  "worker_env \<Rightarrow> (config_key \<times> config_value) list option \<Rightarrow> int \<Rightarrow> exact_client option
     \<Rightarrow> (exact_client, unit) py" where
  "initialize_protocol W config expected_pid inherited =
     pbind (pmod (\<lambda>s. s\<lparr>xc_request_id := 0, xc_pending := None, xc_closed := False,
       xc_last_response_bytes := 0\<rparr>)) (\<lambda>_.
     on_any_error (protocol_body W config expected_pid inherited) (client_abort W))"

text \<open>\<open>close\<close>: drain the outstanding response, say goodbye, then close everything.\<close>

definition is_close_error :: "exn \<Rightarrow> bool" where
  "is_close_error e \<longleftrightarrow> is_native_error e \<or> is_os_error e \<or> exn_class e = RuntimeError"

definition client_goodbye :: "worker_env \<Rightarrow> (exact_client, unit) py" where
  "client_goodbye W =
     pbind (pget xc_pending) (\<lambda>pending.
     pbind (case pending of
         None \<Rightarrow> pret ()
       | Some (opcode, _) \<Rightarrow> pbind (finish_response W opcode) (\<lambda>_. pret ())) (\<lambda>_.
     pbind (pget xc_has_process) (\<lambda>process.
     pbind (if process then pbind (xpoll W) (\<lambda>status. pret (status = None)) else pret True) (\<lambda>alive.
     pwhen alive (pbind (request W OP_CLOSE []) (\<lambda>_. pret ()))))))"

definition close_streams :: "worker_env \<Rightarrow> (exact_client, unit) py" where
  "close_streams W =
     pbind (pget xc_has_connection) (\<lambda>connection.
     pbind (pget xc_has_process) (\<lambda>process.
     pbind (pwhen connection (ignoring is_os_error (xcall XShutdown (we_os W)))) (\<lambda>_.
     pbind (ignoring is_os_error (xcall XCloseStream (we_os W))) (\<lambda>_.
     pbind (ignoring is_os_error (xcall XCloseStream (we_os W))) (\<lambda>_.
     pbind (pwhen connection (xcall XCloseConnection (we_os W))) (\<lambda>_.
     pwhen process
       (pbind (pattempt (xcall XWait (we_os W))) (\<lambda>waited.
        pbind (case waited of
            Inr _ \<Rightarrow> pret ()
          | Inl e \<Rightarrow>
              if exn_class e = TimeoutExpired
              then pbind (xcall XKill (we_os W)) (\<lambda>_. xcall XWait (we_os W))
              else praise e) (\<lambda>_.
        xcall XCloseStderr (we_os W))))))))))"

definition client_close :: "worker_env \<Rightarrow> (exact_client, unit) py" where
  "client_close W = pbind (pget xc_closed) (\<lambda>closed.
     if closed then pret () else
     pbind (ignoring is_close_error (client_goodbye W)) (\<lambda>_.
     pbind (pmod (\<lambda>s. s\<lparr>xc_closed := True\<rparr>)) (\<lambda>_.
     close_streams W)))"

end
