(* ===== verification/Exact_Simulator.thy ===== *)
theory Exact_Simulator
  imports Exact_Client "HOL-Library.AList"
begin

text \<open>
  \<open>ExactSimulator\<close> of \<open>irisu_env/exact_ipc.py\<close>: the owner of one worker at a time.  It keeps the
  reset seed and the log of accepted actions, replaces its worker on a second reset, and restores
  a snapshot by replaying the log on a fresh worker.  The clients it ever launched are kept in the
  order of launch, and \<open>xs_client\<close> names the current one; launching (\<open>find_exact_worker\<close> and
  \<open>Popen\<close>), the worker behind each client and the two hash functions are parameters.
  \<open>ExactFastCheckpoint\<close> is modelled without \<open>branch\<close>, so no branch is ever active.
\<close>

section \<open>State\<close>

record sim_world =
  sw_launch :: "nat \<Rightarrow> int res"
  sw_worker :: "nat \<Rightarrow> worker_env"
  sw_blake2b :: "byte list \<Rightarrow> byte list"
  sw_sha256 :: "byte list \<Rightarrow> byte list"

record fast_ckpt =
  fc_client :: nat
  fc_token :: "byte list"
  fc_keeper_pid :: int
  fc_closed :: bool
  fc_config_hash :: int
  fc_identity :: "byte list"
  fc_seed :: int
  fc_actions :: "byte list list"
  fc_observation :: "exact_observation option"
  fc_raw :: "(byte list \<times> nat) option"
  fc_hasher :: "byte list"

text \<open>A hasher is the bytes it has been fed.  \<open>xs_ckpts\<close> holds every checkpoint object, and
  \<open>xs_checkpoints\<close> the simulator's references to them.\<close>

record exact_sim =
  xs_overrides :: "(ustr \<times> f64) list"
  xs_clients :: "exact_client list"
  xs_client :: "nat option"
  xs_config_hash :: int
  xs_config :: "byte list"
  xs_identity :: "byte list"
  xs_seed :: "int option"
  xs_actions :: "byte list list"
  xs_observation :: "exact_observation option"
  xs_raw :: "(byte list \<times> nat) option"
  xs_hasher :: "byte list option"
  xs_pending :: "byte list option"
  xs_ckpts :: "fast_ckpt list"
  xs_checkpoints :: "nat list"

abbreviation native_error :: "string \<Rightarrow> exn" where
  "native_error t \<equiv> Exn NativeError t"

definition on_client ::
  "sim_world \<Rightarrow> nat \<Rightarrow> (worker_env \<Rightarrow> (exact_client, 'a) py) \<Rightarrow> (exact_sim, 'a) py" where
  "on_client W i m = (\<lambda>s. case m (sw_worker W i) (xs_clients s ! i) of
     (r, c) \<Rightarrow> (r, s\<lparr>xs_clients := (xs_clients s)[i := c]\<rparr>))"

section \<open>Identity and hashes\<close>

definition dec_int :: "int \<Rightarrow> ustr" where
  "dec_int n = (if n < 0 then 45 # dec_digits (nat (- n)) else dec_digits (nat n))"

fun join_nul :: "ustr list \<Rightarrow> ustr" where
  "join_nul [] = []"
| "join_nul [s] = s"
| "join_nul (s # t # ss) = s @ [0] @ join_nul (t # ss)"

definition worker_identity ::
  "sim_world \<Rightarrow> worker_info \<Rightarrow> int \<Rightarrow> string \<Rightarrow> byte list res" where
  "worker_identity W info config_hash executable_sha256 =
     rbind (utf8_encode (join_nul [dec_int (wi_protocol_version info), dec_int (wi_pointer_bits info),
       dec_int (wi_body_capacity info), dec_int config_hash, dec_int (wi_x87_control_word info),
       wi_backend info, wi_compiler info, wi_exact_library_sha256 info, ustr_of executable_sha256]))
     (\<lambda>description. Inr (sw_sha256 W description))"

definition client_identity :: "sim_world \<Rightarrow> exact_client \<Rightarrow> int \<Rightarrow> byte list res" where
  "client_identity W c config_hash = (case xc_info c of
     None \<Rightarrow> Inl (Exn OtherException ''AttributeError'')
   | Some info \<Rightarrow> worker_identity W info config_hash (xc_executable_sha256 c))"

definition new_state_hasher :: "byte list \<Rightarrow> int \<Rightarrow> int \<Rightarrow> byte list" where
  "new_state_hasher identity config_hash seed = identity @ pack [U 8, U 8] [config_hash, seed]"

section \<open>Launching\<close>

definition fresh_client :: "int \<Rightarrow> exact_client" where
  "fresh_client pid = \<lparr>xc_has_process = True, xc_has_connection = False, xc_transport_pid = pid,
     xc_request_id = 0, xc_pending = None, xc_closed = False, xc_last_response_bytes = 0,
     xc_info = None, xc_config_hash = 0, xc_entrypoint_count = 0, xc_target_identity = ([], 0),
     xc_executable_sha256 = '''', xc_executed_identity = (0, 0, 0, 0, 0), xc_library = None,
     xc_log = []\<rparr>"

text \<open>\<open>ExactWorkerClient(path, config=overrides if overrides else None)\<close>; the new client's number.\<close>

definition override_config :: "(ustr \<times> f64) list \<Rightarrow> (config_key \<times> config_value) list option" where
  "override_config ov = (if ov = [] then None
     else Some (map (\<lambda>(k, v). (CKey k, CNum (NumFloat v))) ov))"

definition spawn_client :: "sim_world \<Rightarrow> (exact_sim, nat) py" where
  "spawn_client W =
     pbind (pget (\<lambda>s. length (xs_clients s))) (\<lambda>i.
     pbind (pget xs_overrides) (\<lambda>overrides. case sw_launch W i of
       Inl e \<Rightarrow>
         pbind (pmod (\<lambda>s. s\<lparr>xs_clients := xs_clients s @ [(fresh_client 0)\<lparr>xc_closed := True\<rparr>]\<rparr>)) (\<lambda>_.
         praise (if is_os_error e then worker_error ''failed to launch exact worker'' else e))
     | Inr pid \<Rightarrow>
         pbind (pmod (\<lambda>s. s\<lparr>xs_clients := xs_clients s @ [fresh_client pid]\<rparr>)) (\<lambda>_.
         pbind (on_client W i (\<lambda>V. initialize_protocol V (override_config overrides) pid None)) (\<lambda>_.
         pret i))))"

definition spawn_matching :: "sim_world \<Rightarrow> (exact_sim, nat) py" where
  "spawn_matching W =
     pbind (spawn_client W) (\<lambda>candidate.
     pbind (pget (\<lambda>s. xs_clients s ! candidate)) (\<lambda>c.
     pbind (pget xs_config_hash) (\<lambda>config_hash.
     pbind (pget xs_identity) (\<lambda>identity.
     pbind (if xc_config_hash c \<noteq> config_hash then pret True
            else pbind (plift (client_identity W c config_hash)) (\<lambda>i. pret (i \<noteq> identity))) (\<lambda>changed.
     if changed then
       pbind (on_client W candidate client_close) (\<lambda>_.
       praise (native_error ''fresh exact worker identity changed''))
     else pret candidate)))))"

definition unbuilt_sim :: "(ustr \<times> f64) list \<Rightarrow> exact_sim" where
  "unbuilt_sim overrides = \<lparr>xs_overrides = overrides, xs_clients = [], xs_client = None,
     xs_config_hash = 0, xs_config = [], xs_identity = [], xs_seed = None, xs_actions = [],
     xs_observation = None, xs_raw = None, xs_hasher = None, xs_pending = None, xs_ckpts = [],
     xs_checkpoints = []\<rparr>"

text \<open>\<open>dict(flattened)\<close>: a later entry replaces the value of an earlier one in place.\<close>

definition override_dict :: "(ustr \<times> f64) list \<Rightarrow> (ustr \<times> f64) list" where
  "override_dict flat = foldl (\<lambda>d (k, v). AList.update k v d) [] flat"

definition sim_init_body :: "sim_world \<Rightarrow> (exact_sim, unit) py" where
  "sim_init_body W =
     pbind (spawn_client W) (\<lambda>i.
     pbind (pget (\<lambda>s. xs_clients s ! i)) (\<lambda>c.
     pbind (pmod (\<lambda>s. s\<lparr>xs_client := Some i, xs_config_hash := xc_config_hash c\<rparr>)) (\<lambda>_.
     pbind (on_client W i client_config_json) (\<lambda>config.
     pbind (pmod (\<lambda>s. s\<lparr>xs_config := config\<rparr>)) (\<lambda>_.
     pbind (pget (\<lambda>s. xs_clients s ! i)) (\<lambda>c'.
     pbind (plift (client_identity W c' (xc_config_hash c))) (\<lambda>identity.
     pmod (\<lambda>s. s\<lparr>xs_identity := identity\<rparr>))))))))"

definition sim_init :: "sim_world \<Rightarrow> (config_key \<times> config_value) list \<Rightarrow> exact_sim res" where
  "sim_init W config = rbind (flatten_config config) (\<lambda>flat.
     case sim_init_body W (unbuilt_sim (override_dict flat)) of
       (Inl e, s) \<Rightarrow> Inl e | (Inr _, s) \<Rightarrow> Inr s)"

section \<open>Guards\<close>

definition require_open :: "(exact_sim, nat) py" where
  "require_open = pbind (pget xs_client) (\<lambda>client. case client of
     None \<Rightarrow> praise (native_error ''exact simulator is closed'')
   | Some i \<Rightarrow> pbind (pget (\<lambda>s. xc_closed (xs_clients s ! i))) (\<lambda>closed.
       if closed then praise (native_error ''exact simulator is closed'') else pret i))"

definition ckpt_closed :: "exact_sim \<Rightarrow> nat \<Rightarrow> bool" where
  "ckpt_closed s i \<longleftrightarrow> fc_closed (xs_ckpts s ! i) \<or> xc_closed (xs_clients s ! fc_client (xs_ckpts s ! i))"

definition require_no_checkpoints :: "string \<Rightarrow> (exact_sim, unit) py" where
  "require_no_checkpoints operation =
     pbind (pget (\<lambda>s. filter (\<lambda>i. \<not> ckpt_closed s i) (xs_checkpoints s))) (\<lambda>retained.
     pbind (pmod (\<lambda>s. s\<lparr>xs_checkpoints := retained\<rparr>)) (\<lambda>_.
     pguard (retained \<noteq> [])
       (native_error (''cannot '' @ operation @ '' with an active exact fast checkpoint''))))"

definition require_replacement_safe :: "string \<Rightarrow> (exact_sim, unit) py" where
  "require_replacement_safe operation =
     pbind require_open (\<lambda>_.
     pbind (pget xs_pending) (\<lambda>pending.
     pbind (pguard (pending \<noteq> None)
       (native_error (''cannot '' @ operation @ '' with a pending exact step''))) (\<lambda>_.
     require_no_checkpoints operation)))"

section \<open>Reset\<close>

definition reset_commit :: "nat option \<Rightarrow> int \<Rightarrow> exact_observation \<Rightarrow> exact_sim \<Rightarrow> exact_sim" where
  "reset_commit candidate seed obs s = s\<lparr>
     xs_client := (case candidate of None \<Rightarrow> xs_client s | Some c \<Rightarrow> Some c),
     xs_seed := Some seed, xs_actions := [], xs_observation := Some obs, xs_raw := None,
     xs_pending := None, xs_hasher := Some (new_state_hasher (xs_identity s) (xs_config_hash s) seed)\<rparr>"

definition int_of_num :: "wire_num \<Rightarrow> int" where
  "int_of_num v = (case integral_of v of Some n \<Rightarrow> n | None \<Rightarrow> 0)"

definition reset_typed :: "sim_world \<Rightarrow> wire_num \<Rightarrow> (exact_sim, exact_observation) py" where
  "reset_typed W seed =
     pbind require_open (\<lambda>current.
     pbind (require_no_checkpoints ''reset'') (\<lambda>_.
     pbind (pget xs_seed) (\<lambda>old.
     if old = None then
       pbind (on_client W current (\<lambda>V. client_reset V seed)) (\<lambda>obs.
       pbind (pmod (reset_commit None (int_of_num seed) obs)) (\<lambda>_. pret obs))
     else
       pbind (spawn_matching W) (\<lambda>candidate.
       pbind (on_any_error (on_client W candidate (\<lambda>V. client_reset V seed))
                (on_client W candidate client_close)) (\<lambda>obs.
       pbind (pmod (reset_commit (Some candidate) (int_of_num seed) obs)) (\<lambda>_.
       pbind (on_client W current client_close) (\<lambda>_. pret obs)))))))"

section \<open>Steps\<close>

definition OP_of_step :: "bool \<Rightarrow> int" where
  "OP_of_step padded = (if padded then OP_STEP_PADDED else OP_STEP)"

definition send_step_request ::
  "sim_world \<Rightarrow> bool \<Rightarrow> wire_num \<Rightarrow> wire_num \<Rightarrow> wire_num \<Rightarrow> wire_num \<Rightarrow> (exact_sim, unit) py" where
  "send_step_request W padded kind x y wait =
     pbind (pget (\<lambda>s. xs_seed s = None \<or> xs_hasher s = None)) (\<lambda>unset.
     pbind (pguard unset (native_error ''exact simulator must be reset before step'')) (\<lambda>_.
     pbind (pget xs_pending) (\<lambda>pending.
     pbind (pguard (pending \<noteq> None) (native_error ''exact simulator already has a pending step'')) (\<lambda>_.
     pbind require_open (\<lambda>client.
     pbind (plift (pack_step_request kind x y wait False)) (\<lambda>action.
     pbind (on_client W client (\<lambda>V. begin_request V (OP_of_step padded) action)) (\<lambda>_.
     pmod (\<lambda>s. s\<lparr>xs_pending := Some action\<rparr>))))))))"

text \<open>Once a request was sent, a failed response leaves the remote world's position unknown: the
  worker is killed and the simulator closed.\<close>

definition drop_worker :: "sim_world \<Rightarrow> nat \<Rightarrow> (exact_sim, unit) py" where
  "drop_worker W client =
     pbind (pmod (\<lambda>s. s\<lparr>xs_pending := None, xs_client := None\<rparr>)) (\<lambda>_.
     ignoring is_exception (on_client W client client_abort))"

text \<open>The three receive operations share their frame; they differ in the response they read and
  in what they keep of it.\<close>

definition receive_with ::
  "sim_world \<Rightarrow> (worker_env \<Rightarrow> (exact_client, 'a) py) \<Rightarrow> ('a \<Rightarrow> int)
     \<Rightarrow> ('a \<Rightarrow> exact_sim \<Rightarrow> exact_sim) \<Rightarrow> (exact_sim, 'a) py" where
  "receive_with W read hash_of keep =
     pbind (pget xs_pending) (\<lambda>pending. case pending of
       None \<Rightarrow> praise (native_error ''exact simulator has no pending step'')
     | Some action \<Rightarrow>
       pbind require_open (\<lambda>client.
       pbind (on_any_error
         (pbind (on_client W client read) (\<lambda>r.
          pbind (pget xs_config_hash) (\<lambda>config_hash.
          pbind (pguard (hash_of r \<noteq> config_hash)
            (protocol_error ''exact transition config hash changed'')) (\<lambda>_. pret r))))
         (drop_worker W client)) (\<lambda>r.
       pbind (pmod (\<lambda>s. s\<lparr>xs_pending := None, xs_actions := xs_actions s @ [action],
         xs_hasher := map_option (\<lambda>h. h @ action) (xs_hasher s)\<rparr>)) (\<lambda>_.
       pbind (pmod (keep r)) (\<lambda>_. pret r)))))"

definition receive_step_typed :: "sim_world \<Rightarrow> (exact_sim, exact_transition) py" where
  "receive_step_typed W = receive_with W client_receive_step xt_config_hash
     (\<lambda>t s. s\<lparr>xs_observation := Some (xt_observation t), xs_raw := None\<rparr>)"

definition receive_step_raw :: "sim_world \<Rightarrow> (exact_sim, byte list) py" where
  "receive_step_raw W = pbind (receive_with W
     (\<lambda>V. pbind (finish_response V OP_STEP) (\<lambda>payload.
       pbind (plift (validate_raw_transition payload)) (\<lambda>(e, h). pret (payload, e, h))))
     (\<lambda>(payload, e, h). h)
     (\<lambda>(payload, e, h) s. s\<lparr>xs_observation := None, xs_raw := Some (payload, e)\<rparr>))
     (\<lambda>(payload, e, h). pret payload)"

definition receive_step_padded_raw :: "sim_world \<Rightarrow> (exact_sim, byte list \<times> int) py" where
  "receive_step_padded_raw W = pbind (receive_with W
     (\<lambda>V. pbind (finish_response V OP_STEP_PADDED) (\<lambda>payload.
       pbind (plift (validate_raw_padded_transition payload)) (\<lambda>(e, h, g). pret (payload, e, h, g))))
     (\<lambda>(payload, e, h, g). h)
     (\<lambda>(payload, e, h, g) s. s\<lparr>xs_observation := None, xs_raw := Some (payload, e)\<rparr>))
     (\<lambda>(payload, e, h, g). pret (payload, g))"

definition step_typed ::
  "sim_world \<Rightarrow> wire_num \<Rightarrow> wire_num \<Rightarrow> wire_num \<Rightarrow> wire_num \<Rightarrow> (exact_sim, exact_transition) py" where
  "step_typed W kind x y wait =
     pbind (send_step_request W False kind x y wait) (\<lambda>_. receive_step_typed W)"

definition fetch_padded_events_raw ::
  "sim_world \<Rightarrow> wire_num \<Rightarrow> wire_num \<Rightarrow> (exact_sim, byte list) py" where
  "fetch_padded_events_raw W generation expected_count = (case integral_of generation of
     None \<Rightarrow> praise (Exn TypeError ''event generation must be an integer'')
   | Some g \<Rightarrow> (case integral_of expected_count of
     None \<Rightarrow> praise (Exn TypeError ''expected event count must be an integer'')
   | Some n \<Rightarrow>
     pbind (pguard (\<not> (0 < g \<and> g \<le> 0xFFFFFFFFFFFFFFFF))
       (Exn ValueError ''event generation must fit in nonzero uint64'')) (\<lambda>_.
     pbind (pguard (\<not> (0 \<le> n \<and> n \<le> 0xFFFFFFFFFFFFFFFF))
       (Exn ValueError ''expected event count must fit in uint64'')) (\<lambda>_.
     pbind require_open (\<lambda>client.
     pbind (on_client W client (\<lambda>V. client_fetch_events V g)) (\<lambda>payload.
     pbind (plift (validate_raw_events payload n)) (\<lambda>_. pret payload)))))))"

section \<open>Reading the state\<close>

definition observation_typed :: "(exact_sim, exact_observation) py" where
  "observation_typed =
     pbind require_open (\<lambda>_.
     pbind (pget xs_observation) (\<lambda>cached. case cached of
       Some obs \<Rightarrow> pret obs
     | None \<Rightarrow> pbind (pget xs_raw) (\<lambda>raw. case raw of
         None \<Rightarrow> praise (native_error ''exact simulator must be reset before observation'')
       | Some (payload, observation_end) \<Rightarrow>
         pbind (plift (decode_observation payload 0)) (\<lambda>(obs, offset).
         pbind (pguard (offset \<noteq> observation_end)
           (protocol_error ''cached exact observation size changed'')) (\<lambda>_.
         pbind (pmod (\<lambda>s. s\<lparr>xs_observation := Some obs\<rparr>)) (\<lambda>_. pret obs))))))"

definition state_hash :: "sim_world \<Rightarrow> (exact_sim, int) py" where
  "state_hash W =
     pbind require_open (\<lambda>_.
     pbind (pget xs_hasher) (\<lambda>hasher. case hasher of
       None \<Rightarrow> praise (native_error ''exact simulator must be reset before state_hash'')
     | Some h \<Rightarrow> pret (int (le_dec (sw_blake2b W h)))))"

definition sim_config_hash :: "(exact_sim, int) py" where
  "sim_config_hash = pbind require_open (\<lambda>_. pget xs_config_hash)"

definition library_provenance_now :: "sim_world \<Rightarrow> (exact_sim, library_provenance) py" where
  "library_provenance_now W =
     pbind require_open (\<lambda>client.
     pbind (pget (\<lambda>s. xs_clients s ! client)) (\<lambda>c. case xc_info c of
       None \<Rightarrow> praise (Exn OtherException ''AttributeError'')
     | Some info \<Rightarrow>
       pbind (on_client W client (\<lambda>V. capture_mapped_exact_library V (wi_pid info)
         (PyStr (text_of (wi_exact_library_sha256 info))))) (\<lambda>captured.
       pbind (pguard (Some captured \<noteq> xc_library c)
         (protocol_error ''mapped exact library changed since worker launch'')) (\<lambda>_.
       pret captured))))"

section \<open>Snapshots\<close>

definition SNAPSHOT_MAGIC :: int where "SNAPSHOT_MAGIC = 0x49524953"
definition SNAPSHOT_SCHEMA :: int where "SNAPSHOT_SCHEMA = 0x45580001"
definition SNAPSHOT_PREFIX :: "field list" where
  "SNAPSHOT_PREFIX = [U 4, U 4, U 8, U 4, U 4, U 8, U 8]"

text \<open>The prefix ends with 32 raw bytes (\<open>32s\<close>), the identity.\<close>

definition SNAPSHOT_PREFIX_SIZE :: nat where "SNAPSHOT_PREFIX_SIZE = 72"
definition SNAPSHOT_CHECKSUM_SIZE :: nat where "SNAPSHOT_CHECKSUM_SIZE = 32"
definition STEP_SIZE :: nat where "STEP_SIZE = 28"

definition snapshot_bytes ::
  "sim_world \<Rightarrow> int \<Rightarrow> byte list \<Rightarrow> int \<Rightarrow> byte list list \<Rightarrow> byte list" where
  "snapshot_bytes W config_hash identity seed actions =
     (let payload = pack SNAPSHOT_PREFIX [SNAPSHOT_MAGIC, SNAPSHOT_SCHEMA, config_hash,
            PROTOCOL_VERSION, 0, seed, int (length actions)] @ identity @ concat actions
      in payload @ sw_sha256 W payload)"

definition clone_state :: "sim_world \<Rightarrow> (exact_sim, byte list) py" where
  "clone_state W =
     pbind require_open (\<lambda>_.
     pbind (pget xs_seed) (\<lambda>seed. case seed of
       None \<Rightarrow> praise (native_error ''exact simulator must be reset before clone_state'')
     | Some n \<Rightarrow>
       pbind (pget xs_pending) (\<lambda>pending.
       pbind (pguard (pending \<noteq> None)
         (native_error ''cannot clone state with a pending exact step'')) (\<lambda>_.
       pget (\<lambda>s. snapshot_bytes W (xs_config_hash s) (xs_identity s) n (xs_actions s))))))"

fun decode_actions :: "nat \<Rightarrow> byte list \<Rightarrow> nat \<Rightarrow> byte list list res" where
  "decode_actions 0 payload offset = Inr []"
| "decode_actions (Suc n) payload offset =
     (let action = take STEP_SIZE (drop offset payload); v = unpack STEP_REQUEST action in
      if 3 < v ! 0 \<or> 0xFFFFFFFF < v ! 3 \<or> v ! 4 \<noteq> 0
      then Inl (native_error ''exact snapshot contains an invalid action'')
      else rbind (decode_actions n payload (offset + STEP_SIZE)) (\<lambda>rest. Inr (action # rest)))"

definition decode_snapshot :: "sim_world \<Rightarrow> byte list \<Rightarrow> (exact_sim, int \<times> byte list list) py" where
  "decode_snapshot W snapshot =
     pbind (pguard (length snapshot < SNAPSHOT_PREFIX_SIZE + SNAPSHOT_CHECKSUM_SIZE)
       (native_error ''exact snapshot is shorter than its versioned header'')) (\<lambda>_.
     let n = length snapshot - SNAPSHOT_CHECKSUM_SIZE; payload = take n snapshot;
         checksum = drop n snapshot in
     pbind (pguard (sw_sha256 W payload \<noteq> checksum)
       (native_error ''exact snapshot checksum mismatch'')) (\<lambda>_.
     let v = unpack_from SNAPSHOT_PREFIX payload 0; identity = take 32 (drop 40 payload) in
     pbind (pguard (v ! 0 \<noteq> SNAPSHOT_MAGIC) (native_error ''exact snapshot magic mismatch'')) (\<lambda>_.
     pbind (pguard (v ! 1 \<noteq> SNAPSHOT_SCHEMA) (native_error ''unsupported exact snapshot schema'')) (\<lambda>_.
     pbind (pguard (v ! 3 \<noteq> PROTOCOL_VERSION \<or> v ! 4 \<noteq> 0)
       (native_error ''exact snapshot protocol metadata is incompatible'')) (\<lambda>_.
     pbind require_open (\<lambda>_.
     pbind (pget (\<lambda>s. v ! 2 \<noteq> xs_config_hash s \<or> identity \<noteq> xs_identity s)) (\<lambda>other.
     pbind (pguard other (native_error ''exact snapshot backend/config identity mismatch'')) (\<lambda>_.
     pbind (pguard (0xFFFFFFFF < v ! 5) (native_error ''exact snapshot seed exceeds uint32'')) (\<lambda>_.
     pbind (pguard (int SNAPSHOT_PREFIX_SIZE + v ! 6 * int STEP_SIZE \<noteq> int (length payload))
       (native_error ''exact snapshot action log length mismatch'')) (\<lambda>_.
     pbind (plift (decode_actions (nat (v ! 6)) payload SNAPSHOT_PREFIX_SIZE)) (\<lambda>actions.
     pret (v ! 5, actions))))))))))))"

text \<open>The replay loop of \<open>restore_state_typed\<close>.\<close>

fun replay ::
  "sim_world \<Rightarrow> nat \<Rightarrow> byte list list \<Rightarrow> exact_observation \<Rightarrow> (exact_sim, exact_observation) py" where
  "replay W candidate [] obs = pret obs"
| "replay W candidate (action # rest) obs =
     (let v = unpack STEP_REQUEST action in
      pbind (on_client W candidate (\<lambda>V. client_step V (NumInt (v ! 0)) (NumFloat (f64_of (v ! 1)))
        (NumFloat (f64_of (v ! 2))) (NumInt (v ! 3)) (v ! 4 \<noteq> 0))) (\<lambda>t.
      replay W candidate rest (xt_observation t)))"

definition restore_commit ::
  "nat \<Rightarrow> int \<Rightarrow> byte list list \<Rightarrow> exact_observation \<Rightarrow> exact_sim \<Rightarrow> exact_sim" where
  "restore_commit candidate seed actions obs s = s\<lparr>xs_client := Some candidate,
     xs_seed := Some seed, xs_actions := actions, xs_observation := Some obs, xs_raw := None,
     xs_pending := None,
     xs_hasher := Some (foldl (@) (new_state_hasher (xs_identity s) (xs_config_hash s) seed) actions)\<rparr>"

definition restore_state_typed :: "sim_world \<Rightarrow> byte list \<Rightarrow> (exact_sim, exact_observation) py" where
  "restore_state_typed W snapshot =
     pbind (decode_snapshot W snapshot) (\<lambda>(seed, actions).
     pbind (require_no_checkpoints ''restore state'') (\<lambda>_.
     pbind (spawn_matching W) (\<lambda>candidate.
     pbind (on_any_error
       (pbind (on_client W candidate (\<lambda>V. client_reset V (NumInt seed))) (\<lambda>obs.
        replay W candidate actions obs))
       (on_client W candidate client_close)) (\<lambda>obs.
     pbind require_open (\<lambda>previous.
     pbind (pmod (restore_commit candidate seed actions obs)) (\<lambda>_.
     pbind (on_client W previous client_close) (\<lambda>_. pret obs)))))))"

section \<open>Fast checkpoints and the end\<close>

definition fast_checkpoint :: "sim_world \<Rightarrow> (exact_sim, nat) py" where
  "fast_checkpoint W =
     pbind require_open (\<lambda>client.
     pbind (pget xs_seed) (\<lambda>seed.
     pbind (pget xs_hasher) (\<lambda>hasher. case (seed, hasher) of
       (Some n, Some h) \<Rightarrow>
         pbind (pget xs_pending) (\<lambda>pending.
         pbind (pguard (pending \<noteq> None)
           (native_error ''cannot checkpoint with a pending exact step'')) (\<lambda>_.
         pbind (on_client W client client_fast_checkpoint) (\<lambda>(token, keeper_pid).
         pbind (pget (\<lambda>s. \<lparr>fc_client = client, fc_token = token, fc_keeper_pid = keeper_pid,
           fc_closed = False, fc_config_hash = xs_config_hash s, fc_identity = xs_identity s,
           fc_seed = n, fc_actions = xs_actions s, fc_observation = xs_observation s,
           fc_raw = xs_raw s, fc_hasher = h\<rparr>)) (\<lambda>k.
         pbind (pget (\<lambda>s. length (xs_ckpts s))) (\<lambda>i.
         pbind (pmod (\<lambda>s. s\<lparr>xs_ckpts := xs_ckpts s @ [k], xs_checkpoints := xs_checkpoints s @ [i]\<rparr>)) (\<lambda>_.
         pret i))))))
     | _ \<Rightarrow> praise (native_error ''exact simulator must be reset before fast_checkpoint''))))"

definition close_ckpt_at :: "nat \<Rightarrow> (exact_sim, unit) py" where
  "close_ckpt_at i = pmod (\<lambda>s. s\<lparr>xs_ckpts :=
     (xs_ckpts s)[i := (xs_ckpts s ! i)\<lparr>fc_closed := True\<rparr>]\<rparr>)"

text \<open>\<open>ExactFastCheckpoint.close\<close>, no branch being active.\<close>

definition checkpoint_close :: "sim_world \<Rightarrow> nat \<Rightarrow> (exact_sim, unit) py" where
  "checkpoint_close W i =
     pbind (pget (\<lambda>s. xs_ckpts s ! i)) (\<lambda>k.
     if fc_closed k then pret () else
     pbind (pget (\<lambda>s. xc_closed (xs_clients s ! fc_client k))) (\<lambda>gone.
     if gone then close_ckpt_at i else
     pbind (on_client W (fc_client k) (\<lambda>V. client_release_fast_checkpoint V (fc_token k))) (\<lambda>_.
     close_ckpt_at i)))"

definition sim_close :: "sim_world \<Rightarrow> (exact_sim, unit) py" where
  "sim_close W =
     pbind (pget xs_client) (\<lambda>client.
     pbind (pmod (\<lambda>s. s\<lparr>xs_client := None\<rparr>)) (\<lambda>_.
     pbind (case client of None \<Rightarrow> pret () | Some i \<Rightarrow> on_client W i client_close) (\<lambda>_.
     pmod (\<lambda>s. s\<lparr>xs_observation := None, xs_raw := None, xs_hasher := None, xs_pending := None,
       xs_checkpoints := []\<rparr>))))"

end
