(* ===== verification/Exact_Decode_Props.thy ===== *)
theory Exact_Decode_Props
  imports Exact_Decode
begin

text \<open>
  The raw validators agree with the typed decoders: same acceptance, same error, same offset.
  The strided byte checks of \<open>_validate_raw_observation\<close> are related to the body loop through
  \<open>body_bad\<close>, the metadata test of one body.
\<close>

section \<open>UTF-8 both ways\<close>

lemma byte_of_unat [simp]: "byte_of (unat b) = b"
  by (simp add: byte_of_def)

lemma cont_form: "is_cont t \<Longrightarrow> t = byte_of (128 + unat t mod 64)"
proof -
  assume "is_cont t"
  then have "unat t = 128 + unat t mod 64"
    using div_mult_mod_eq [of "unat t" 64] by (simp add: is_cont_def)
  then show ?thesis by (metis byte_of_unat)
qed

lemma div_mod_64: "z < 64 \<Longrightarrow> (A * 64 + z) div 64 = (A :: nat)" "z < 64 \<Longrightarrow> (A * 64 + z) mod 64 = (z :: nat)"
  by simp_all

lemma base64_parts:
  assumes "c = D * 262144 + ((x * 64 + y) * 64 + z)" "x < 64" "y < 64" "z < (64 :: nat)"
  shows "c mod 64 = z" "c div 64 mod 64 = y" "c div 4096 mod 64 = x" "c div 262144 = D"
    "c div 4096 = D * 64 + x" "c div 64 = (D * 64 + x) * 64 + y"
proof -
  have c: "c = ((D * 64 + x) * 64 + y) * 64 + z" using assms(1) by simp
  have e: "c div 4096 = c div 64 div 64" "c div 262144 = c div 4096 div 64"
    by (simp_all add: div_mult2_eq [symmetric])
  show 1: "c div 64 = (D * 64 + x) * 64 + y" unfolding c by (rule div_mod_64 [OF assms(4)])
  show "c mod 64 = z" unfolding c by (rule div_mod_64 [OF assms(4)])
  show "c div 64 mod 64 = y" unfolding 1 by (rule div_mod_64 [OF assms(3)])
  show 2: "c div 4096 = D * 64 + x" unfolding e 1 by (rule div_mod_64 [OF assms(3)])
  show "c div 4096 mod 64 = x" unfolding 2 by (rule div_mod_64 [OF assms(2)])
  show "c div 262144 = D" unfolding e(2) 2 by (rule div_mod_64 [OF assms(2)])
qed

lemma utf8_step_inverse:
  assumes "utf8_shape (unat b) = Some (n, low, high)" "length ts = n" "list_all is_cont ts"
    and "c = utf8_lead_bits n (unat b) * 64 ^ n + utf8_tail ts" "low \<le> c" "c < high"
  shows "utf8_char c = b # ts"
proof -
  let ?b = "unat b"
  have lt: "?b < 256" by simp
  consider (0) "n = 0" "?b < 128" "low = 0" "high = 128"
    | (1) "n = 1" "192 \<le> ?b" "?b < 224" "low = 128" "high = 2048"
    | (2) "n = 2" "224 \<le> ?b" "?b < 240" "low = 2048" "high = 65536"
    | (3) "n = 3" "240 \<le> ?b" "?b < 248" "low = 65536" "high = 1114112"
    using assms(1) by (auto simp: utf8_shape_def split: if_splits)
  then show ?thesis
  proof cases
    case 0
    have "c = ?b" "ts = []" using assms(2,4) 0 by (simp_all add: utf8_lead_bits_def utf8_tail_def)
    then show ?thesis using 0(2) by (simp add: utf8_char_def)
  next
    case 1
    then obtain t where t: "ts = [t]" using assms(2) by (auto simp: length_Suc_conv)
    obtain k where k: "?b = 192 + k" "k < 32"
      by (rule that [of "?b - 192"]) (use 1 in auto)
    have c: "c = 0 * 262144 + ((0 * 64 + k) * 64 + unat t mod 64)"
      using assms(4) 1 t k by (simp add: utf8_lead_bits_def utf8_tail_def)
    have b: "byte_of (192 + k) = b" using k by (metis byte_of_unat)
    have d: "c div 64 = k" "c mod 64 = unat t mod 64" using base64_parts [OF c] k(2) by simp_all
    have t': "byte_of (128 + unat t mod 64) = t" using assms(3) t cont_form by simp
    have "utf8_char c = [byte_of (192 + c div 64), byte_of (128 + c mod 64)]"
      using assms(5,6) 1 by (simp add: utf8_char_def)
    then show ?thesis unfolding d t' b t .
  next
    case 2
    have "length ts = Suc (Suc 0)" using assms(2) 2(1) by simp
    then obtain t u where t: "ts = [t, u]" by (auto simp: length_Suc_conv)
    obtain k where k: "?b = 224 + k" "k < 16"
      by (rule that [of "?b - 224"]) (use 2 in auto)
    have c: "c = 0 * 262144 + ((k * 64 + unat t mod 64) * 64 + unat u mod 64)"
      using assms(4) 2 t k by (simp add: utf8_lead_bits_def utf8_tail_def)
    have b: "byte_of (224 + k) = b" using k by (metis byte_of_unat)
    have d: "c div 4096 = k" "c div 64 mod 64 = unat t mod 64" "c mod 64 = unat u mod 64"
      using base64_parts [OF c] k(2) by simp_all
    have t': "byte_of (128 + unat t mod 64) = t" "byte_of (128 + unat u mod 64) = u"
      using assms(3) t cont_form by simp_all
    have "utf8_char c = [byte_of (224 + c div 4096), byte_of (128 + c div 64 mod 64), byte_of (128 + c mod 64)]"
      using assms(5,6) 2 by (simp add: utf8_char_def)
    then show ?thesis unfolding d t' b t .
  next
    case 3
    have "length ts = Suc (Suc (Suc 0))" using assms(2) 3(1) by simp
    then obtain t u v where t: "ts = [t, u, v]" by (auto simp: length_Suc_conv)
    obtain k where k: "?b = 240 + k" "k < 8"
      by (rule that [of "?b - 240"]) (use 3 in auto)
    have c: "c = k * 262144 + ((unat t mod 64 * 64 + unat u mod 64) * 64 + unat v mod 64)"
      using assms(4) 3 t k by (simp add: utf8_lead_bits_def utf8_tail_def)
    have b: "byte_of (240 + k) = b" using k by (metis byte_of_unat)
    have d: "c div 262144 = k" "c div 4096 mod 64 = unat t mod 64" "c div 64 mod 64 = unat u mod 64"
      "c mod 64 = unat v mod 64"
      using base64_parts [OF c] k(2) by simp_all
    have t': "byte_of (128 + unat t mod 64) = t" "byte_of (128 + unat u mod 64) = u"
      "byte_of (128 + unat v mod 64) = v"
      using assms(3) t cont_form by simp_all
    have "utf8_char c = [byte_of (240 + c div 262144), byte_of (128 + c div 4096 mod 64),
        byte_of (128 + c div 64 mod 64), byte_of (128 + c mod 64)]"
      using assms(5,6) 3 by (simp add: utf8_char_def)
    then show ?thesis unfolding d t' b t .
  qed
qed

lemma utf8_decode_encode: "utf8_decode bs = Some s \<Longrightarrow> concat (map utf8_char s) = bs"
proof (induction "length bs" arbitrary: bs s rule: less_induct)
  case less
  show ?case
  proof (cases bs)
    case Nil
    with less.prems show ?thesis by simp
  next
    case (Cons b bs')
    with less.prems obtain n low high c r where u: "utf8_shape (unat b) = Some (n, low, high)"
      "c = utf8_lead_bits n (unat b) * 64 ^ n + utf8_tail (take n bs')" "\<not> length bs' < n"
      "list_all is_cont (take n bs')" "low \<le> c" "c < high" "utf8_decode (drop n bs') = Some r" "s = c # r"
      by (auto simp: Let_def split: option.splits if_splits)
    have "utf8_char c = b # take n bs'"
      by (rule utf8_step_inverse [OF u(1) _ u(4) u(2) u(5,6)]) (use u(3) in simp)
    moreover have "concat (map utf8_char r) = drop n bs'"
      by (rule less.hyps [OF _ u(7)]) (simp add: Cons)
    ultimately show ?thesis using u(8) Cons by simp
  qed
qed

section \<open>Body metadata\<close>

definition body_bad :: "byte list \<Rightarrow> nat \<Rightarrow> bool" where
  "body_bad p i \<longleftrightarrow> 2 < unat (p ! (i + 96)) \<or> 2 < unat (p ! (i + 97)) \<or> 4 < unat (p ! (i + 98))
     \<or> unat (p ! (i + 99)) \<noteq> 0"

lemma unpack_nth:
  "k < length fs \<Longrightarrow> unpack fs bs ! k =
     field_dec (fs ! k) (take (field_size (fs ! k)) (drop (fmt_size (take k fs)) bs))"
  by (induction fs arbitrary: bs k) (auto simp: nth_Cons fmt_size_def add.commute split: nat.split)

lemma unpack_byte:
  assumes "k < length fs" "fs ! k = U 1" "fmt_size (take k fs) = j" "i + j < length p"
  shows "unpack_from fs p i ! k = int (unat (p ! (i + j)))"
proof -
  have "take (Suc 0) (drop (i + j) p) = [p ! (i + j)]"
    using assms(4) by (simp add: take_Suc_conv_app_nth)
  with unpack_nth [OF assms(1), of "drop i p"] assms(2,3) show ?thesis
    by (simp add: add.commute)
qed

lemma body_metadata:
  assumes "i + 100 \<le> length p"
  shows "unpack_from BODY p i ! 14 = int (unat (p ! (i + 96)))"
    "unpack_from BODY p i ! 15 = int (unat (p ! (i + 97)))"
    "unpack_from BODY p i ! 16 = int (unat (p ! (i + 98)))"
    "unpack_from BODY p i ! 17 = int (unat (p ! (i + 99)))"
  by (rule unpack_byte; use assms in \<open>simp add: BODY_def fmt_size_def numeral_eq_Suc\<close>)+


section \<open>The strided checks\<close>

lemma set_slice_step:
  assumes "b = base + n * st" "r < st" "b \<le> length xs" "a = base + r"
  shows "set (slice_step xs a b st) = (\<lambda>k. xs ! (base + k * st + r)) ` {..< n}"
proof -
  have "{i. a \<le> i \<and> i < b \<and> (i - a) mod st = 0} = (\<lambda>k. base + k * st + r) ` {..< n}"
  proof (intro equalityI subsetI)
    fix i assume "i \<in> {i. a \<le> i \<and> i < b \<and> (i - a) mod st = 0}"
    then have i: "a \<le> i" "i < b" "(i - a) mod st = 0" by auto
    define k where "k = (i - a) div st"
    have k: "i = base + k * st + r" using i assms(4) by (auto simp: k_def)
    with i(2) assms(1) have "k * st < n * st" by linarith
    then have "k < n" by simp
    with k show "i \<in> (\<lambda>k. base + k * st + r) ` {..< n}" by blast
  next
    fix i assume "i \<in> (\<lambda>k. base + k * st + r) ` {..< n}"
    then obtain k where k: "k < n" "i = base + k * st + r" by blast
    from k(1) have "Suc k * st \<le> n * st" by (intro mult_le_mono1) simp
    with k assms show "i \<in> {i. a \<le> i \<and> i < b \<and> (i - a) mod st = 0}" by simp
  qed
  moreover have "set (slice_step xs a b st) = (!) xs ` {i. a \<le> i \<and> i < b \<and> (i - a) mod st = 0}"
    using assms(3) by (auto simp: slice_step_def)
  ultimately show ?thesis by (simp add: image_image)
qed

lemma translate_invalid:
  "1 \<in> set (translate (invalid_table bad) bs) \<longleftrightarrow> (\<exists>b \<in> set bs. bad (unat b))"
proof -
  have "invalid_table bad ! unat b = (if bad (unat b) then 1 else 0)" for b :: byte
    by (simp add: invalid_table_def)
  then show ?thesis by (auto simp: translate_def)
qed

lemma strided_metadata:
  assumes "112 + n * 100 \<le> length p"
  shows "(1 \<in> set (translate BODY_KIND_INVALID (slice_step p (112 + 96) (112 + n * 100) 100))
      \<or> 1 \<in> set (translate BODY_KIND_INVALID (slice_step p (112 + 97) (112 + n * 100) 100))
      \<or> 1 \<in> set (translate BODY_LIFECYCLE_INVALID (slice_step p (112 + 98) (112 + n * 100) 100))
      \<or> 1 \<in> set (translate BODY_RESERVED_INVALID (slice_step p (112 + 99) (112 + n * 100) 100)))
    \<longleftrightarrow> (\<exists>k < n. body_bad p (112 + k * 100))"
proof -
  have sl: "set (slice_step p (112 + r) (112 + n * 100) 100) = (\<lambda>k. p ! (112 + k * 100 + r)) ` {..< n}"
    if "r < 100" for r
    by (rule set_slice_step) (use that assms in simp_all)
  have "(96 :: nat) < 100" "(97 :: nat) < 100" "(98 :: nat) < 100" "(99 :: nat) < 100" by simp_all
  note sls = this [THEN sl]
  show ?thesis
    unfolding BODY_KIND_INVALID_def BODY_LIFECYCLE_INVALID_def BODY_RESERVED_INVALID_def
      translate_invalid sls body_bad_def by blast
qed

lemma decode_bodies_result:
  assumes "i + n * 100 \<le> length p"
  shows "decode_bodies n p i = (if \<exists>k < n. body_bad p (i + k * 100)
      then Inl (protocol_error ''exact observation contains invalid body metadata'')
      else Inr (map (\<lambda>k. body_of (unpack_from BODY p (i + k * 100))) [0 ..< n]))"
  using assms
proof (induction n arbitrary: i)
  case (Suc n)
  from Suc.prems have le: "i + 100 \<le> length p" by simp
  have bad: "(2 < unpack_from BODY p i ! 14 \<or> 2 < unpack_from BODY p i ! 15 \<or>
      4 < unpack_from BODY p i ! 16 \<or> unpack_from BODY p i ! 17 \<noteq> 0) \<longleftrightarrow> body_bad p i"
    unfolding body_metadata [OF le] body_bad_def by presburger
  have ex: "(\<exists>k < Suc n. body_bad p (i + k * 100)) \<longleftrightarrow>
      body_bad p i \<or> (\<exists>k < n. body_bad p (i + 100 + k * 100))"
    unfolding Ex_less_Suc2 by (simp add: ac_simps)
  have mp: "map (\<lambda>k. body_of (unpack_from BODY p (i + k * 100))) [0 ..< Suc n] =
      body_of (unpack_from BODY p i) # map (\<lambda>k. body_of (unpack_from BODY p (i + 100 + k * 100))) [0 ..< n]"
    by (simp add: upt_conv_Cons map_Suc_upt [symmetric] ac_simps del: upt_Suc)
  show ?case
    using Suc.IH [of "i + 100"] Suc.prems
    unfolding decode_bodies.simps Let_def bad ex mp by simp
qed simp

lemma header_field: "unpack_from OBSERVATION_HEADER p 0 = unpack OBSERVATION_HEADER p"
  by simp

text \<open>Same acceptance, same error and same end of the observation.\<close>

lemma raw_observation_agrees:
  "validate_raw_observation p =
     rbind (decode_observation p 0) (\<lambda>(obs, end). Inr (unpack OBSERVATION_HEADER p, end))"
proof -
  let ?n = "nat (unpack OBSERVATION_HEADER p ! 15)"
  show ?thesis
  proof (cases "112 \<le> length p \<and> 112 + ?n * 100 \<le> length p")
    case False
    then show ?thesis
      by (auto simp: validate_raw_observation_def decode_observation_def Let_def)
  next
    case True
    then show ?thesis
      using strided_metadata [of ?n p] decode_bodies_result [of 112 ?n p]
      by (auto simp: validate_raw_observation_def decode_observation_def Let_def)
  qed
qed

lemma decode_observation_flags:
  "decode_observation p 0 = Inr (obs, end) \<Longrightarrow>
     xo_terminated obs = (unpack OBSERVATION_HEADER p ! 16 \<noteq> 0) \<and>
     xo_truncated obs = (unpack OBSERVATION_HEADER p ! 17 \<noteq> 0)"
  by (auto simp: decode_observation_def Let_def rbind_Inr split: if_splits)

definition detail_short :: "exact_event \<Rightarrow> bool" where
  "detail_short e \<longleftrightarrow> int (length (concat (map utf8_char (xe_detail e)))) < EVENT_DETAIL_CAPACITY"

lemma check_events_agrees:
  "check_events n p i = Inr j \<longleftrightarrow>
     (\<exists>es. decode_events n p i = Inr (es, j) \<and> list_all detail_short es)"
proof (induction n arbitrary: i)
  case (Suc n)
  let ?e = "unpack_from EVENT p i"
  let ?d = "take (nat (?e ! 5)) (drop (i + 36) p)"
  have short: "detail_short \<lparr>xe_tick = a, xe_sequence = b, xe_value = c, xe_a = d, xe_b = e,
      xe_kind = f, xe_detail = s\<rparr> \<longleftrightarrow> ?e ! 5 < EVENT_DETAIL_CAPACITY"
    if "utf8_decode ?d = Some s" "nat (?e ! 5) \<le> length p - (i + 36)" for a b c d e f s
    using utf8_decode_encode [OF that(1)] that(2)
    by (auto simp: detail_short_def EVENT_DETAIL_CAPACITY_def)
  show ?case
    using short
    by (auto simp: Let_def rbind_Inr Suc.IH not_less split: option.split)
qed auto


section \<open>Agreement on transitions\<close>

lemma step_bytes_unpack:
  assumes "0 \<le> k" "k \<le> 3" "0 \<le> w" "w \<le> UINT32"
  shows "unpack STEP_REQUEST (step_bytes k x y w b) = [k, uint x, uint y, w, if b then 1 else 0]"
    "length (step_bytes k x y w b) = 28"
proof -
  have "uint x < 256 ^ 8" "uint y < 256 ^ 8"
    using unsigned_less [of x, where ?'a = int] unsigned_less [of y, where ?'a = int] by simp_all
  then have ok: "list_all2 field_ok STEP_REQUEST [k, uint x, uint y, w, if b then 1 else 0]"
    using assms by (simp add: STEP_REQUEST_def UINT32_def)
  show "unpack STEP_REQUEST (step_bytes k x y w b) = [k, uint x, uint y, w, if b then 1 else 0]"
    using unpack_pack [OF ok, of "[]"] by (simp add: step_bytes_def)
  show "length (step_bytes k x y w b) = 28"
    unfolding step_bytes_def by (subst pack_length) (simp_all add: STEP_REQUEST_def fmt_size_def)
qed

lemma pack_paths: "pack_step_request kind x y wait suppress = pack_step_slow kind x y wait suppress"
  by (cases kind; cases x; cases y; cases wait)
    (simp_all add: pack_step_request_def pack_step_slow_def)

definition transition_framed :: "byte list \<Rightarrow> exact_observation \<Rightarrow> nat \<Rightarrow> bool" where
  "transition_framed p obs j \<longleftrightarrow> 84 \<le> length p - j \<and>
     (unpack_from TRANSITION p j ! 12 \<noteq> 0) = xo_terminated obs \<and>
     (unpack_from TRANSITION p j ! 13 \<noteq> 0) = xo_truncated obs"

definition transition_of :: "exact_observation \<Rightarrow> int list \<Rightarrow> exact_event list \<Rightarrow> exact_transition" where
  "transition_of obs v es = \<lparr>xt_observation = obs, xt_reward = v ! 0, xt_event_count = v ! 1,
     xt_config_hash = v ! 2, xt_finish_call_count = v ! 3, xt_recorded_final_score = v ! 4,
     xt_recorded_final_clears = v ! 5, xt_latest_final_score = v ! 6,
     xt_latest_final_clears = v ! 7, xt_recorded_final_highest_chain = v ! 8,
     xt_recorded_final_level = v ! 9, xt_latest_final_highest_chain = v ! 10,
     xt_latest_final_level = v ! 11, xt_terminated = (v ! 12 \<noteq> 0),
     xt_truncated = (v ! 13 \<noteq> 0), xt_terminal_metadata_recorded = (v ! 14 \<noteq> 0),
     xt_invalid_action = (v ! 15 \<noteq> 0), xt_events = es\<rparr>"

lemma transition_of_simps [simp]:
  "xt_observation (transition_of obs v es) = obs" "xt_config_hash (transition_of obs v es) = v ! 2"
  "xt_events (transition_of obs v es) = es"
  by (simp_all add: transition_of_def)

lemma raw_transition_agrees:
  "validate_raw_transition p = Inr (end, h) \<longleftrightarrow>
     (\<exists>t. decode_transition p = Inr t \<and> decode_observation p 0 = Inr (xt_observation t, end) \<and>
        xt_config_hash t = h \<and> list_all detail_short (xt_events t))"
proof (cases "decode_observation p 0")
  case (Inl e)
  then show ?thesis by (simp add: validate_raw_transition_def decode_transition_def raw_observation_agrees)
next
  case (Inr r)
  obtain obs j where r: "decode_observation p 0 = Inr (obs, j)" using Inr by (cases r) simp
  let ?v = "unpack_from TRANSITION p j"
  have raw: "validate_raw_transition p = Inr (end, h) \<longleftrightarrow> transition_framed p obs j \<and>
      check_events (nat (?v ! 1)) p (j + 84) = Inr (length p) \<and> end = j \<and> h = ?v ! 2"
    using decode_observation_flags [OF r]
    by (auto simp: validate_raw_transition_def raw_observation_agrees r rbind_Inr Let_def transition_framed_def)
  have typed: "decode_transition p = Inr t \<longleftrightarrow> transition_framed p obs j \<and>
      (\<exists>es. decode_events (nat (?v ! 1)) p (j + 84) = Inr (es, length p) \<and>
         t = transition_of obs ?v es)" for t
    by (auto simp: decode_transition_def r rbind_Inr Let_def transition_framed_def transition_of_def)
  show ?thesis
    unfolding raw typed check_events_agrees
    by (auto simp: r) (metis transition_of_simps(3), metis transition_of_simps(2) One_nat_def)
qed

text \<open>C27: the raw validator of the padded vector path and the typed decoder agree: the strided
  byte checks accept a response exactly when the decoder does and every event detail fits the
  padded buffer, and then they report the same end of the observation and the same
  configuration hash.\<close>

theorem raw_validation_is_decoding:
  "validate_raw_transition p = Inr (end, h) \<longleftrightarrow>
     (\<exists>t. decode_transition p = Inr t \<and> decode_observation p 0 = Inr (xt_observation t, end) \<and>
        xt_config_hash t = h \<and> list_all detail_short (xt_events t))"
  by (rule raw_transition_agrees)

text \<open>An encoded action is 28 bytes that decode to the action: its kind, the bits of its two
  coordinates, its wait and its flag; an out-of-range kind or wait is never encoded.\<close>

theorem packed_actions_decode:
  assumes "pack_step_request kind x y wait suppress = Inr bytes"
  shows "length bytes = 28 \<and> (\<exists>k w xb yb. integral_of kind = Some k \<and> integral_of wait = Some w \<and>
    real_of x = Some (Inr xb) \<and> real_of y = Some (Inr yb) \<and> k \<in> {0..3} \<and> w \<in> {0..UINT32} \<and>
    unpack STEP_REQUEST bytes = [k, uint xb, uint yb, w, if suppress then 1 else 0])"
proof -
  have "pack_step_slow kind x y wait suppress = Inr bytes"
    using assms by (simp add: pack_paths)
  then obtain k w xb yb where "integral_of kind = Some k" "integral_of wait = Some w"
    "real_of x = Some (Inr xb)" "real_of y = Some (Inr yb)" "0 \<le> k" "k \<le> 3" "0 \<le> w" "w \<le> UINT32"
    "bytes = step_bytes k xb yb w suppress"
    by (auto simp: pack_step_slow_def rbind_Inr split: option.splits if_splits)
  with step_bytes_unpack [of k w xb yb suppress] show ?thesis by auto
qed

theorem packed_actions_decode_witness:
  "\<exists>bytes. pack_step_request (NumInt 2) (NumFloat 5) (NumFloat 7) (NumInt 3) False = Inr bytes \<and>
     length bytes = 28"
proof -
  have "case pack_step_request (NumInt 2) (NumFloat 5) (NumFloat 7) (NumInt 3) False of
      Inr bytes \<Rightarrow> True | Inl e \<Rightarrow> False"
    by code_simp
  then obtain bytes where "pack_step_request (NumInt 2) (NumFloat 5) (NumFloat 7) (NumInt 3) False = Inr bytes"
    by (auto split: sum.splits)
  with packed_actions_decode [OF this] show ?thesis by blast
qed

end
