(* ===== verification/Exact_Stream.thy ===== *)
theory Exact_Stream
  imports Exact_Client Exact_Decode_Props
begin

text \<open>
  What the client's operations do to its two streams.  \<open>sent\<close> and \<open>received\<close> are the bytes that
  went over the pipes, read off the log of calls; every rule states how an operation extends them.
  \<open>in_sync\<close> is the invariant of the client: closed, or the streams are a list of whole
  exchanges and at most one request outstanding.  The last part shows that a worker that answers
  is understood, however its stream is cut into chunks.
\<close>

section \<open>What went over the pipes\<close>

fun sent :: "worker_env \<Rightarrow> xio list \<Rightarrow> byte list" where
  "sent W [] = []"
| "sent W (XWrite d # l) = sent W l @ (case we_write W (XWrite d # l) of
     Inr (Some n) \<Rightarrow> if 0 < n then take (nat n) d else [] | _ \<Rightarrow> [])"
| "sent W (_ # l) = sent W l"

fun received :: "worker_env \<Rightarrow> xio list \<Rightarrow> byte list" where
  "received W [] = []"
| "received W (XRead n # l) = received W l @ (case we_read W (XRead n # l) of
     Inr bs \<Rightarrow> take n bs | Inl _ \<Rightarrow> [])"
| "received W (_ # l) = received W l"

definition log_only :: "exact_client \<Rightarrow> exact_client \<Rightarrow> bool" where
  "log_only s t \<longleftrightarrow> (\<exists>l. t = s\<lparr>xc_log := l\<rparr>)"

lemma log_only_refl [simp]: "log_only s s"
  unfolding log_only_def by (rule exI [of _ "xc_log s"]) simp

lemma log_only_log [simp]: "log_only s (s\<lparr>xc_log := l\<rparr>)"
  by (auto simp: log_only_def)

lemma log_only_upd: "log_only (s\<lparr>xc_log := l\<rparr>) t \<Longrightarrow> log_only s t"
  by (auto simp: log_only_def)

lemma log_onlyD:
  "log_only s t \<Longrightarrow> xc_closed t = xc_closed s \<and> xc_pending t = xc_pending s \<and>
     xc_request_id t = xc_request_id s \<and> xc_info t = xc_info s \<and> xc_config_hash t = xc_config_hash s \<and>
     xc_has_process t = xc_has_process s \<and> xc_has_connection t = xc_has_connection s \<and>
     xc_executable_sha256 t = xc_executable_sha256 s"
  by (auto simp: log_only_def)

text \<open>The faults of a pipe are operating-system errors.\<close>

definition pipe_faults :: "worker_env \<Rightarrow> bool" where
  "pipe_faults W \<longleftrightarrow> (\<forall>l e. (we_write W l = Inl e \<or> we_read W l = Inl e \<or> we_os W l = Inl e) \<longrightarrow> is_os_error e)"

lemma write_all_wp:
  "wp (write_all W d)
     (\<lambda>_ t. log_only s t \<and> sent W (xc_log t) = sent W (xc_log s) @ d \<and>
        received W (xc_log t) = received W (xc_log s))
     (\<lambda>e t. log_only s t \<and> received W (xc_log t) = received W (xc_log s) \<and>
        (pipe_faults W \<longrightarrow> is_os_error e)) s"
proof (induction W d arbitrary: s rule: write_all.induct)
  case (1 W d)
  show ?case
  proof (cases "d = []")
    case True
    then show ?thesis
      by (auto simp: write_all.simps wp_simps pipe_faults_def split: sum.split)
  next
    case False
    have "wp (write_all W (drop (nat (the n)) d))
        (\<lambda>_ t. log_only s t \<and> sent W (xc_log t) = sent W (xc_log s) @ d \<and>
          received W (xc_log t) = received W (xc_log s))
        (\<lambda>e t. log_only s t \<and> received W (xc_log t) = received W (xc_log s) \<and>
          (pipe_faults W \<longrightarrow> is_os_error e)) (s\<lparr>xc_log := XWrite d # xc_log s\<rparr>)"
      if n: "we_write W (XWrite d # xc_log s) = Inr n" "\<not> (n = None \<or> the n \<le> 0)" for n
      by (rule wp_mono [OF 1 [OF False n(2)]])
        (use n in \<open>auto dest: log_only_upd\<close>)
    with False show ?thesis
      by (subst write_all.simps) (auto simp: wp_simps pipe_faults_def is_os_error_def split: sum.split)
  qed
qed

lemma read_exact_wp:
  "wp (read_exact W n)
     (\<lambda>bs t. log_only s t \<and> length bs = n \<and> sent W (xc_log t) = sent W (xc_log s) \<and>
        received W (xc_log t) = received W (xc_log s) @ bs)
     (\<lambda>e t. log_only s t \<and> sent W (xc_log t) = sent W (xc_log s) \<and>
        (pipe_faults W \<longrightarrow> exn_class e = EOFError \<or> is_os_error e)) s"
proof (induction W n arbitrary: s rule: read_exact.induct)
  case (1 W n)
  show ?case
  proof (cases "n = 0")
    case True
    then show ?thesis by (simp add: read_exact.simps wp_simps)
  next
    case False
    have "wp (read_exact W (n - length (take n answer)))
        (\<lambda>bs t. log_only s t \<and> length (take n answer @ bs) = n \<and> sent W (xc_log t) = sent W (xc_log s) \<and>
          received W (xc_log t) = received W (xc_log s) @ take n answer @ bs)
        (\<lambda>e t. log_only s t \<and> sent W (xc_log t) = sent W (xc_log s) \<and>
          (pipe_faults W \<longrightarrow> exn_class e = EOFError \<or> is_os_error e)) (s\<lparr>xc_log := XRead n # xc_log s\<rparr>)"
      if a: "we_read W (XRead n # xc_log s) = Inr answer" "take n answer \<noteq> []" for answer
      by (rule wp_mono [OF 1 [OF False refl a(2)]])
        (use a in \<open>auto dest: log_only_upd\<close>)
    with False show ?thesis
      by (subst read_exact.simps) (auto simp: wp_simps Let_def pipe_faults_def split: sum.split)
  qed
qed

section \<open>Aborting\<close>

definition quiet :: "worker_env \<Rightarrow> exact_client \<Rightarrow> exact_client \<Rightarrow> bool" where
  "quiet W s t \<longleftrightarrow> xc_closed t \<and> xc_pending t = xc_pending s \<and> xc_request_id t = xc_request_id s \<and>
     xc_info t = xc_info s \<and> xc_config_hash t = xc_config_hash s \<and>
     sent W (xc_log t) = sent W (xc_log s) \<and> received W (xc_log t) = received W (xc_log s)"

lemma quiet_calls [simp]:
  "quiet W s (t\<lparr>xc_log := c # xc_log t\<rparr>) = quiet W s t" if "c \<in> {XPoll, XKill, XWait, XShutdown, XCloseStream, XCloseConnection, XCloseStderr}"
  using that by (auto simp: quiet_def)

lemma abort_quiet: "wp (client_abort W) (\<lambda>_. quiet W s) (\<lambda>_. quiet W s) s"
proof -
  have "wp (pmod (\<lambda>s. s\<lparr>xc_closed := True\<rparr>)) (\<lambda>_. quiet W s) (\<lambda>_. quiet W s) s"
    by (simp add: wp_simps quiet_def)
  then show ?thesis
    unfolding client_abort_def xpoll_def
    by (subst wp_pbind) (erule wp_mono, rule keeps_wp, (intro keeps_intros)?, simp_all)
qed

lemma transport_status_wp:
  "(\<And>t. log_only s t \<Longrightarrow> sent W (xc_log t) = sent W (xc_log s) \<Longrightarrow>
      received W (xc_log t) = received W (xc_log s) \<Longrightarrow> Q () t) \<Longrightarrow> wp (transport_status W) Q E s"
  by (auto simp: transport_status_def xpoll_def wp_simps)

section \<open>Framing\<close>

lemma header_values:
  assumes "length h = fmt_size HEADER" "unpack HEADER h ! 0 = a" "unpack HEADER h ! 1 = b"
    "unpack HEADER h ! 2 = c" "unpack HEADER h ! 3 = d" "unpack HEADER h ! 4 = e"
  shows "h = pack HEADER [a, b, c, d, e]"
proof -
  have "unpack HEADER h = [a, b, c, d, e]"
    using assms by (auto simp: HEADER_def)
  then show ?thesis using pack_unpack [OF assms(1)] by simp
qed

lemma read_payload_wp:
  assumes u: "log_only s u" "length h = 16" "sent W (xc_log u) = sent W (xc_log s)"
    "received W (xc_log u) = received W (xc_log s) @ h" "unpack HEADER h ! 0 = MAGIC"
    "unpack HEADER h ! 1 = PROTOCOL_VERSION" "4 \<le> unpack HEADER h ! 4"
  shows "wp (read_exact W (nat (unpack HEADER h ! 4)))
      (\<lambda>resp t. log_only s t \<and> unpack HEADER h ! 4 = int (length resp) \<and> 4 \<le> length resp \<and>
        sent W (xc_log t) = sent W (xc_log s) \<and>
        received W (xc_log t) =
          received W (xc_log s) @ frame (unpack HEADER h ! 2) (unpack HEADER h ! 3) resp)
      (\<lambda>e t. log_only s t \<and> sent W (xc_log t) = sent W (xc_log s) \<and>
        (pipe_faults W \<longrightarrow> exn_class e \<in> {ExactProtocolError, EOFError} \<or> is_os_error e)) u"
proof -
  have h: "h = pack HEADER [MAGIC, PROTOCOL_VERSION, unpack HEADER h ! 2, unpack HEADER h ! 3,
      unpack HEADER h ! 4]"
    by (rule header_values) (use u in simp_all)
  have f: "h @ resp = frame (unpack HEADER h ! 2) (unpack HEADER h ! 3) resp"
    if "unpack HEADER h ! 4 = int (length resp)" for resp
    using h that by (simp add: frame_def)
  show ?thesis
    by (rule wp_mono [OF read_exact_wp]) (use u f in \<open>auto simp: log_only_def\<close>)
qed

lemma read_response_wp:
  "wp (read_response W opcode rid)
     (\<lambda>(n, resp) t. log_only s t \<and> n = int (length resp) \<and> 4 \<le> length resp \<and>
        sent W (xc_log t) = sent W (xc_log s) \<and>
        received W (xc_log t) = received W (xc_log s) @ frame opcode rid resp)
     (\<lambda>e t. log_only s t \<and> sent W (xc_log t) = sent W (xc_log s) \<and>
        (pipe_faults W \<longrightarrow> exn_class e \<in> {ExactProtocolError, EOFError} \<or> is_os_error e)) s"
  unfolding read_response_def wp_pbind [of "read_exact W (fmt_size HEADER)"]
proof (rule wp_mono [OF read_exact_wp], goal_cases)
  case (1 h t)
  show ?case
  proof (cases "unpack HEADER h ! 0 = MAGIC \<and> unpack HEADER h ! 1 = PROTOCOL_VERSION \<and>
      4 \<le> unpack HEADER h ! 4 \<and> unpack HEADER h ! 2 = opcode \<and> unpack HEADER h ! 3 = rid")
    case True
    with 1 show ?thesis
      using read_payload_wp [of s t h W] by (auto simp: wp_simps Let_def elim!: wp_mono)
  next
    case False
    with 1 show ?thesis by (auto simp: wp_simps Let_def)
  qed
next
  case (2 e t)
  then show ?case by auto
qed

lemma begin_request_wp:
  "wp (begin_request W opcode payload)
     (\<lambda>_ t. \<not> xc_closed s \<and> xc_pending s = None \<and> \<not> xc_closed t \<and>
        xc_request_id t = next_request_id (xc_request_id s) \<and>
        xc_pending t = Some (opcode, xc_request_id t) \<and> xc_info t = xc_info s \<and>
        xc_config_hash t = xc_config_hash s \<and>
        sent W (xc_log t) = sent W (xc_log s) @ frame opcode (xc_request_id t) payload \<and>
        received W (xc_log t) = received W (xc_log s))
     (\<lambda>e t. t = s \<and> (xc_closed s \<or> xc_pending s \<noteq> None) \<or>
        (pipe_faults W \<longrightarrow> xc_closed t \<and> xc_pending t = None)) s"
proof (cases "xc_closed s \<or> xc_pending s \<noteq> None")
  case True
  then show ?thesis by (auto simp: begin_request_def wp_simps)
next
  case False
  then have p: "xc_pending s = None" "\<not> xc_closed s" by blast+
  let ?s = "s\<lparr>xc_request_id := next_request_id (xc_request_id s)\<rparr>"
  have ab: "wp (ignoring is_exception (client_abort W)) (\<lambda>_ t. xc_closed t \<and> xc_pending t = None)
      (\<lambda>_ t. xc_closed t \<and> xc_pending t = None) t" if "log_only ?s t" for t
    unfolding wp_ignoring
    by (rule wp_mono [OF abort_quiet]) (use log_onlyD [OF that] p in \<open>simp_all add: quiet_def\<close>)
  have wrote: "wp (pattempt (write_all W (frame opcode (next_request_id (xc_request_id s)) payload)))
     (\<lambda>r t. log_only ?s t \<and> (case r of
        Inr _ \<Rightarrow> sent W (xc_log t) = sent W (xc_log s) @ frame opcode (next_request_id (xc_request_id s)) payload \<and>
          received W (xc_log t) = received W (xc_log s)
      | Inl e \<Rightarrow> pipe_faults W \<longrightarrow> is_os_error e)) (\<lambda>_ _. False) ?s"
    unfolding wp_pattempt by (rule wp_mono [OF write_all_wp]) auto
  have fault: "wp (transport_status W) (\<lambda>_. wp (ignoring is_exception (client_abort W))
      (\<lambda>_ t. pipe_faults W \<longrightarrow> xc_closed t \<and> xc_pending t = None)
      (\<lambda>_ t. pipe_faults W \<longrightarrow> xc_closed t \<and> xc_pending t = None)) E t"
    if "log_only ?s t" for t E
    by (rule transport_status_wp, rule wp_mono [OF ab]) (use that in \<open>auto simp: log_only_def\<close>)
  show ?thesis
    unfolding begin_request_def
    by (simp only: wp_pbind wp_pget wp_pguard wp_pmod, simp add: p, rule wp_mono [OF wrote])
      (use p fault in \<open>auto simp: wp_simps log_only_def simp del: wp_ignoring split: sum.split_asm\<close>)
qed

lemma fault_then_closed:
  assumes "log_only s t"
  shows "wp (transport_status W) (\<lambda>_. wp (ignoring is_exception (client_abort W))
      (\<lambda>_ t. xc_closed t \<and> xc_pending t = xc_pending s) (\<lambda>_ t. xc_closed t \<and> xc_pending t = xc_pending s)) E t"
  by (rule transport_status_wp, unfold wp_ignoring, rule wp_mono [OF abort_quiet])
    (use assms in \<open>auto simp: log_only_def quiet_def\<close>)

lemma abort_then_closed:
  assumes "log_only s t"
  shows "wp (ignoring is_exception (client_abort W))
      (\<lambda>_ t. xc_closed t \<and> xc_pending t = xc_pending s) (\<lambda>_ t. xc_closed t \<and> xc_pending t = xc_pending s) t"
  unfolding wp_ignoring
  by (rule wp_mono [OF abort_quiet]) (use assms in \<open>auto simp: log_only_def quiet_def\<close>)

lemma abort_wpI:
  assumes "\<And>u. xc_closed u \<Longrightarrow> xc_pending u = xc_pending t \<Longrightarrow> Q () u"
    and "\<And>e u. xc_closed u \<Longrightarrow> xc_pending u = xc_pending t \<Longrightarrow> E e u"
  shows "wp (ignoring is_exception (client_abort W)) Q E t"
  by (rule wp_mono [OF abort_then_closed [OF log_only_refl]]) (use assms in auto)

definition got_frame :: "worker_env \<Rightarrow> int \<Rightarrow> int \<Rightarrow> exact_client \<Rightarrow> exact_client \<Rightarrow> byte list \<Rightarrow> bool" where
  "got_frame W opcode rid s t resp \<longleftrightarrow> 4 \<le> length resp \<and> sent W (xc_log t) = sent W (xc_log s) \<and>
     received W (xc_log t) = received W (xc_log s) @ frame opcode rid resp \<and>
     xc_request_id t = xc_request_id s \<and> xc_pending t = None"

lemma read_or_close_wp:
  assumes "xc_closed s = False"
  shows "wp (pfinally
         (pbind (pattempt (read_response W opcode rid)) (\<lambda>r. case r of
            Inr x \<Rightarrow> pret x
          | Inl e \<Rightarrow>
              if exn_class e = ExactProtocolError then
                pbind (ignoring is_any_exception (client_abort W)) (\<lambda>_. praise e)
              else if exn_class e = EOFError \<or> is_os_error e then
                pbind (transport_status W) (\<lambda>_.
                pbind (ignoring is_any_exception (client_abort W)) (\<lambda>_.
                praise (worker_error ''exact worker exited unexpectedly'')))
              else praise e))
         (pmod (\<lambda>s. s\<lparr>xc_pending := None\<rparr>)))
     (\<lambda>(n, resp) t. n = int (length resp) \<and> got_frame W opcode rid s t resp \<and> \<not> xc_closed t)
     (\<lambda>e t. pipe_faults W \<longrightarrow> xc_closed t \<and> xc_pending t = None) s"
  unfolding wp_pfinally wp_pbind wp_pattempt
proof (rule wp_mono [OF read_response_wp], goal_cases)
  case (1 x t)
  then show ?case
    using assms by (auto simp: wp_simps got_frame_def log_only_def split: prod.splits)
next
  case (2 e t)
  then have l: "log_only s t" by simp
  have closed: "wp (ignoring is_exception (client_abort W))
      (\<lambda>_ t. pipe_faults W \<longrightarrow> xc_closed t) (\<lambda>_ t. pipe_faults W \<longrightarrow> xc_closed t) t"
    by (rule wp_mono [OF abort_then_closed [OF l]]) auto
  have status: "wp (transport_status W) (\<lambda>_. wp (ignoring is_exception (client_abort W))
      (\<lambda>_ t. pipe_faults W \<longrightarrow> xc_closed t) (\<lambda>_ t. pipe_faults W \<longrightarrow> xc_closed t))
      (\<lambda>_ t. pipe_faults W \<longrightarrow> xc_closed t) t"
    by (rule wp_mono [OF fault_then_closed [OF l, where E = "\<lambda>_ t. xc_closed t"]])
      (auto elim!: wp_mono simp del: wp_ignoring)
  show ?case
    using 2 closed status
    by (auto simp: wp_simps is_os_error_def simp del: wp_ignoring)
qed

definition fin_ok where
  "fin_ok W opcode s content t \<longleftrightarrow> (\<exists>rid. xc_pending s = Some (opcode, rid) \<and> \<not> xc_closed s \<and> \<not> xc_closed t \<and>
     got_frame W opcode rid s t (field_enc (S 4) 0 @ content))"

definition fin_bad :: "worker_env \<Rightarrow> int \<Rightarrow> exact_client \<Rightarrow> exn \<Rightarrow> exact_client \<Rightarrow> bool" where
  "fin_bad W opcode s e t \<longleftrightarrow> t = s \<and> (xc_closed s \<or> \<not> (\<exists>rid. xc_pending s = Some (opcode, rid))) \<or>
     (pipe_faults W \<longrightarrow> xc_pending t = None \<and> (xc_closed t \<or>
        exn_class e = ExactWorkerError \<and> \<not> xc_closed s \<and>
          (\<exists>rid resp. xc_pending s = Some (opcode, rid) \<and> got_frame W opcode rid s t resp)))"

lemma status_zero:
  assumes "4 \<le> length resp" "unpack STATUS resp ! 0 = 0"
  shows "resp = field_enc (S 4) 0 @ drop 4 resp"
proof -
  have "field_enc (S 4) (field_dec (S 4) (take 4 resp)) = take 4 resp"
    using assms(1) by (intro field_enc_dec) simp
  moreover have "field_dec (S 4) (take 4 resp) = 0"
    using assms(2) by (simp add: STATUS_def)
  ultimately have "take 4 resp = field_enc (S 4) 0" by simp
  then show ?thesis by (metis append_take_drop_id)
qed

lemma status_zero_frame:
  "4 \<le> length resp \<Longrightarrow> unpack STATUS resp ! 0 = 0 \<Longrightarrow>
     frame opcode rid (le_enc 4 0 @ drop 4 resp) = frame opcode rid resp"
  using status_zero [of resp] by simp

lemma finish_response_wp:
  "wp (finish_response W opcode) (fin_ok W opcode s) (fin_bad W opcode s) s"
proof (cases "xc_closed s \<or> \<not> (\<exists>rid. xc_pending s = Some (opcode, rid))")
  case True
  then show ?thesis
    by (auto simp: finish_response_def wp_simps fin_bad_def split: option.split)
next
  case False
  then obtain rid where p: "xc_pending s = Some (opcode, rid)" "xc_closed s = False" by auto
  show ?thesis
    unfolding finish_response_def
    apply (simp only: wp_pbind [of "pget _"] wp_pget wp_pguard wp_pbind [of "pguard _ _"])
    apply (simp add: p)
    apply (subst wp_pbind)
    apply (rule wp_mono [OF read_or_close_wp [OF p(2)]])
    subgoal for x t
      apply (cases "unpack STATUS (snd x) ! 0 = 0")
      apply (auto simp: wp_simps Let_def fin_ok_def p got_frame_def status_zero_frame simp del: wp_ignoring)[1]
      apply (clarsimp simp: wp_simps Let_def p got_frame_def simp del: wp_ignoring split: prod.splits)
      apply (intro conjI impI abort_wpI)
      apply (auto simp: fin_bad_def p got_frame_def)
      done
    subgoal for e t
      by (auto simp: fin_bad_def p)
    done
qed

lemma request_wp:
  "wp (request W opcode payload)
     (\<lambda>content t. \<not> xc_closed s \<and> xc_pending s = None \<and> \<not> xc_closed t \<and> xc_pending t = None \<and>
        xc_request_id t = next_request_id (xc_request_id s) \<and>
        sent W (xc_log t) = sent W (xc_log s) @ frame opcode (xc_request_id t) payload \<and>
        received W (xc_log t) = received W (xc_log s) @
          frame opcode (xc_request_id t) (field_enc (S 4) 0 @ content))
     (\<lambda>e t. t = s \<and> (xc_closed s \<or> xc_pending s \<noteq> None) \<or>
        (pipe_faults W \<longrightarrow> xc_pending t = None \<and> (xc_closed t \<or>
           exn_class e = ExactWorkerError \<and> xc_request_id t = next_request_id (xc_request_id s) \<and>
           sent W (xc_log t) = sent W (xc_log s) @ frame opcode (xc_request_id t) payload \<and>
           (\<exists>resp. 4 \<le> length resp \<and> received W (xc_log t) =
              received W (xc_log s) @ frame opcode (xc_request_id t) resp)))) s"
  unfolding request_def wp_pbind [of "begin_request W opcode payload"]
proof (rule wp_mono [OF begin_request_wp], goal_cases)
  case (1 u t)
  show ?case
    by (rule wp_mono [OF finish_response_wp])
      (use 1 in \<open>auto simp: fin_ok_def fin_bad_def got_frame_def\<close>)
next
  case (2 e t)
  then show ?case by blast
qed

section \<open>The session as a list of exchanges\<close>

text \<open>An exchange: the operation, the request identifier, the request and response payloads.\<close>

type_synonym exchange = "int \<times> int \<times> byte list \<times> byte list"

definition request_bytes :: "exchange \<Rightarrow> byte list" where
  "request_bytes = (\<lambda>(opcode, rid, payload, resp). frame opcode rid payload)"

definition response_bytes :: "exchange \<Rightarrow> byte list" where
  "response_bytes = (\<lambda>(opcode, rid, payload, resp). frame opcode rid resp)"

text \<open>
  The pipes are in step: every complete request has had its one response, in order and under the
  same operation and identifier, and the only request without one is the outstanding one.
\<close>

definition in_step :: "worker_env \<Rightarrow> exact_client \<Rightarrow> bool" where
  "in_step W s \<longleftrightarrow> (\<exists>xs out. sent W (xc_log s) = concat (map request_bytes xs) @ out \<and>
     received W (xc_log s) = concat (map response_bytes xs) \<and>
     (case xc_pending s of None \<Rightarrow> out = []
      | Some (opcode, rid) \<Rightarrow> \<exists>payload. out = frame opcode rid payload))"

definition in_sync :: "worker_env \<Rightarrow> exact_client \<Rightarrow> bool" where
  "in_sync W s \<longleftrightarrow> xc_closed s \<or> in_step W s"

lemma in_step_idle:
  "xc_pending s = None \<Longrightarrow> in_step W s \<longleftrightarrow> (\<exists>xs. sent W (xc_log s) = concat (map request_bytes xs) \<and>
     received W (xc_log s) = concat (map response_bytes xs))"
  by (auto simp: in_step_def)

lemma in_step_busy:
  "xc_pending s = Some (opcode, rid) \<Longrightarrow> in_step W s \<longleftrightarrow> (\<exists>xs payload.
     sent W (xc_log s) = concat (map request_bytes xs) @ frame opcode rid payload \<and>
     received W (xc_log s) = concat (map response_bytes xs))"
  by (auto simp: in_step_def)

lemma in_step_answered:
  assumes "in_step W s" "xc_pending s = Some (opcode, rid)" "xc_pending t = None"
    "sent W (xc_log t) = sent W (xc_log s)"
    "received W (xc_log t) = received W (xc_log s) @ frame opcode rid resp"
  shows "in_step W t"
proof -
  obtain xs payload where "sent W (xc_log s) = concat (map request_bytes xs) @ frame opcode rid payload"
    "received W (xc_log s) = concat (map response_bytes xs)"
    using assms(1) by (auto simp: in_step_busy [OF assms(2)])
  then have "sent W (xc_log t) = concat (map request_bytes (xs @ [(opcode, rid, payload, resp)])) \<and>
      received W (xc_log t) = concat (map response_bytes (xs @ [(opcode, rid, payload, resp)]))"
    using assms(4,5) by (simp add: request_bytes_def response_bytes_def)
  then show ?thesis unfolding in_step_idle [OF assms(3)] by blast
qed

lemma begin_request_sync:
  assumes "pipe_faults W"
  shows "keeps (in_sync W) (begin_request W opcode payload)"
proof (rule keeps_from_wp)
  fix s assume "in_sync W s"
  then show "wp (begin_request W opcode payload) (\<lambda>_. in_sync W) (\<lambda>_. in_sync W) s"
    by (intro wp_mono [OF begin_request_wp])
      (use assms in \<open>auto simp: in_sync_def in_step_idle in_step_busy\<close>)
qed

lemma finish_response_sync:
  assumes "pipe_faults W"
  shows "keeps (in_sync W) (finish_response W opcode)"
proof (rule keeps_from_wp)
  fix s assume "in_sync W s"
  then show "wp (finish_response W opcode) (\<lambda>_. in_sync W) (\<lambda>_. in_sync W) s"
    by (intro wp_mono [OF finish_response_wp])
      (use assms in \<open>auto simp: in_sync_def fin_ok_def fin_bad_def got_frame_def dest: in_step_answered\<close>)
qed

lemma abort_sync: "keeps (in_sync W) (client_abort W)"
  by (rule keeps_from_wp, rule wp_mono [OF abort_quiet]) (auto simp: in_sync_def quiet_def)

lemma in_sync_frame:
  "xc_log t = xc_log s \<Longrightarrow> xc_pending t = xc_pending s \<Longrightarrow> xc_closed t = xc_closed s \<Longrightarrow>
     in_sync W t = in_sync W s"
  by (simp add: in_sync_def in_step_def)

lemma in_sync_call:
  "c \<in> {XPoll, XKill, XWait, XShutdown, XCloseStream, XCloseConnection, XCloseStderr} \<Longrightarrow> in_sync W s \<Longrightarrow>
     in_sync W (s\<lparr>xc_log := c # xc_log s\<rparr>)"
  by (auto simp: in_sync_def in_step_def)


section \<open>Any sequence of calls\<close>

datatype client_op =
    CoHello | CoReset wire_num | CoObserve
  | CoSendStep wire_num wire_num wire_num wire_num bool | CoReceiveStep
  | CoStep wire_num wire_num wire_num wire_num bool
  | CoFetchEvents int | CoFastCheckpoint | CoReleaseFast "byte list"
  | CoConfigure "(config_key \<times> config_value) list" | CoConfigJson | CoClose

fun client_do :: "worker_env \<Rightarrow> exact_client \<Rightarrow> client_op \<Rightarrow> exact_client" where
  "client_do W s CoHello = final (client_hello W) s"
| "client_do W s (CoReset seed) = final (client_reset W seed) s"
| "client_do W s CoObserve = final (client_observe W) s"
| "client_do W s (CoSendStep k x y w b) = final (client_send_step W OP_STEP k x y w b) s"
| "client_do W s CoReceiveStep = final (client_receive_step W) s"
| "client_do W s (CoStep k x y w b) = final (client_step W k x y w b) s"
| "client_do W s (CoFetchEvents g) = final (client_fetch_events W g) s"
| "client_do W s CoFastCheckpoint = final (client_fast_checkpoint W) s"
| "client_do W s (CoReleaseFast tok) = final (client_release_fast_checkpoint W tok) s"
| "client_do W s (CoConfigure c) = final (client_configure W c) s"
| "client_do W s CoConfigJson = final (client_config_json W) s"
| "client_do W s CoClose = final (client_close W) s"

text \<open>What an invariant of the client needs: the two halves of a request, the abort, the
  remaining calls of \<open>close\<close>, and the fields no exchange depends on.\<close>

lemma client_do_keeps:
  assumes "\<And>opcode payload. keeps I (begin_request W opcode payload)"
    and "\<And>opcode. keeps I (finish_response W opcode)"
    and "\<And>s h. I s \<Longrightarrow> I (s\<lparr>xc_config_hash := h\<rparr>)"
    and "\<And>s. I s \<Longrightarrow> I (s\<lparr>xc_closed := True\<rparr>)"
    and "\<And>s c. c \<in> {XPoll, XKill, XWait, XShutdown, XCloseStream, XCloseConnection, XCloseStderr} \<Longrightarrow>
           I s \<Longrightarrow> I (s\<lparr>xc_log := c # xc_log s\<rparr>)"
  shows "I s \<Longrightarrow> I (client_do W s op)"
proof -
  have r: "keeps I (request W opcode payload)" for opcode payload
    unfolding request_def by (intro keeps_intros assms)
  note unfolds = client_hello_def client_reset_def client_observe_def client_send_step_def
    client_receive_step_def client_step_def client_fetch_events_def client_fast_checkpoint_def
    client_release_fast_checkpoint_def client_configure_def client_config_json_def client_close_def
    client_goodbye_def close_streams_def xpoll_def Let_def
  show "I s \<Longrightarrow> I (client_do W s op)"
    by (cases op; simp only: client_do.simps unfolds;
        erule keeps_final [rotated];
        (intro keeps_intros r assms conjI impI | simp add: assms)+)
qed

section \<open>A worker that answers\<close>

text \<open>The stream accepts something of every write; the read end delivers \<open>script\<close>, in chunks of
  any positive size.\<close>

definition takes_writes :: "worker_env \<Rightarrow> bool" where
  "takes_writes W \<longleftrightarrow> (\<forall>d l. d \<noteq> [] \<longrightarrow> (\<exists>n > 0. we_write W (XWrite d # l) = Inr (Some n))) \<and>
     (\<forall>l. we_os W (XFlush # l) = Inr ())"

definition serves :: "worker_env \<Rightarrow> byte list \<Rightarrow> bool" where
  "serves W script \<longleftrightarrow> (\<forall>l n. 0 < n \<and> length (received W l) < length script \<longrightarrow>
     (\<exists>b r. we_read W (XRead n # l) = Inr b \<and> take n b \<noteq> [] \<and>
        drop (length (received W l)) script = take n b @ r))"

lemma write_all_ok: "takes_writes W \<Longrightarrow> wp (write_all W d) (\<lambda>_ _. True) (\<lambda>_ _. False) s"
proof (induction W d arbitrary: s rule: write_all.induct)
  case (1 W d s)
  show ?case
  proof (cases "d = []")
    case True
    with 1(2) show ?thesis by (simp add: write_all.simps wp_simps takes_writes_def)
  next
    case False
    then obtain n where n: "we_write W (XWrite d # xc_log s) = Inr (Some n)" "0 < n"
      using 1(2) unfolding takes_writes_def by meson
    have "wp (write_all W (drop (nat (the (Some n))) d)) (\<lambda>_ _. True) (\<lambda>_ _. False)
        (s\<lparr>xc_log := XWrite d # xc_log s\<rparr>)"
      using n by (intro 1(1) [OF False] 1(2)) simp
    then show ?thesis unfolding write_all.simps [of W d] using False n by (simp add: wp_pbind wp_xcall)
  qed
qed

lemma read_exact_ok:
  assumes "serves W script"
  shows "script = received W (xc_log s) @ bs @ rest \<Longrightarrow> length bs = n \<Longrightarrow>
    wp (read_exact W n) (\<lambda>x _. x = bs) (\<lambda>_ _. False) s"
  using assms
proof (induction W n arbitrary: s bs rule: read_exact.induct)
  case (1 W n s bs)
  show ?case
  proof (cases "n = 0")
    case True
    with 1(3) show ?thesis by (simp add: read_exact.simps wp_simps)
  next
    case False
    with 1(2,3,4) obtain b r where b: "we_read W (XRead n # xc_log s) = Inr b" "take n b \<noteq> []"
      "bs @ rest = take n b @ r"
      unfolding serves_def by (metis append_eq_conv_conj gr0I length_0_conv length_append
          length_greater_0_conv less_add_same_cancel1 append_is_Nil_conv)
    have bs: "bs = take n b @ drop (length (take n b)) bs"
    proof -
      have "take (length (take n b)) (bs @ rest) = take n b"
        unfolding b(3) by (simp add: min_def)
      moreover have "length (take n b) \<le> length bs" using 1(3) by simp
      ultimately have "take (length (take n b)) bs = take n b" by (simp del: length_take)
      then show ?thesis by (metis append_take_drop_id)
    qed
    let ?s = "s\<lparr>xc_log := XRead n # xc_log s\<rparr>"
    have rc: "received W (xc_log ?s) = received W (xc_log s) @ take n b"
      using b(1) by simp
    have sc: "script = received W (xc_log ?s) @ drop (length (take n b)) bs @ rest"
      by (subst 1(2), subst bs) (simp only: rc append_assoc)
    have ln: "length (drop (length (take n b)) bs) = n - length (take n b)"
      by (simp only: length_drop 1(3))
    have "wp (read_exact W (n - length (take n b))) (\<lambda>x _. x = drop (length (take n b)) bs)
        (\<lambda>_ _. False) ?s"
      by (rule 1(1) [OF False refl b(2) sc ln 1(4)])
    then have "wp (read_exact W (n - length (take n b))) (\<lambda>x _. take n b @ x = bs) (\<lambda>_ _. False) ?s"
      by (rule wp_mono) (use bs in auto)
    with False b show ?thesis
      by (subst read_exact.simps) (simp add: wp_simps Let_def)
  qed
qed


lemma serves_drop_payload:
  assumes "received W l = old @ h" "script = old @ (h @ resp) @ rest"
  shows "script = received W l @ resp @ rest"
  using assms by simp

lemma header_unpack:
  assumes "0 \<le> opcode" "opcode < 65536" "0 \<le> rid" "rid < 4294967296" "length resp \<le> 4194304"
  shows "unpack HEADER (pack HEADER [MAGIC, PROTOCOL_VERSION, opcode, rid, int (length resp)]) =
    [MAGIC, PROTOCOL_VERSION, opcode, rid, int (length resp)]"
    "length (pack HEADER [MAGIC, PROTOCOL_VERSION, opcode, rid, int (length resp)]) = 16"
proof -
  let ?v = "[MAGIC, PROTOCOL_VERSION, opcode, rid, int (length resp)]"
  have "list_all2 field_ok HEADER ?v"
    using assms by (simp add: HEADER_def MAGIC_def PROTOCOL_VERSION_def)
  from unpack_pack [OF this, of "[]"] show "unpack HEADER (pack HEADER ?v) = ?v" by simp
  show "length (pack HEADER ?v) = 16" by (subst pack_length) (simp_all add: HEADER_def fmt_size_def)
qed

lemma read_response_ok:
  assumes W: "serves W script" "script = received W (xc_log s) @ frame opcode rid resp @ rest"
    and r: "0 \<le> opcode" "opcode < 65536" "0 \<le> rid" "rid < 4294967296" "4 \<le> length resp" "length resp \<le> 4194304"
  shows "wp (read_response W opcode rid) (\<lambda>x _. x = (int (length resp), resp)) (\<lambda>_ _. False) s"
proof -
  let ?h = "pack HEADER [MAGIC, PROTOCOL_VERSION, opcode, rid, int (length resp)]"
  note h = header_unpack [OF r(1-4,6)]
  have hd: "wp (read_exact W (fmt_size HEADER))
      (\<lambda>x t. x = ?h \<and> received W (xc_log t) = received W (xc_log s) @ ?h) (\<lambda>_ _. False) s"
    by (rule wp_mono [OF wp_conj [OF read_exact_ok [OF W(1), of s ?h "resp @ rest"] read_exact_wp]])
      (use W(2) h in \<open>auto simp: frame_def\<close>)
  have pl: "wp (read_exact W (length resp)) (\<lambda>x _. x = resp) (\<lambda>_ _. False) t"
    if "received W (xc_log t) = received W (xc_log s) @ ?h" for t
    by (rule read_exact_ok [OF W(1) _ refl, of _ _ rest]) (use that W(2) in \<open>simp add: frame_def\<close>)
  show ?thesis
    unfolding read_response_def wp_pbind [of "read_exact W (fmt_size HEADER)"]
    by (rule wp_mono [OF hd]) (use h r in \<open>auto simp: wp_simps Let_def elim: wp_mono [OF pl]\<close>)
qed


lemma finish_response_ok:
  assumes W: "serves W script" "script = received W (xc_log s) @ frame opcode rid (field_enc (S 4) 0 @ content) @ rest"
    and r: "0 \<le> opcode" "opcode < 65536" "0 \<le> rid" "rid < 4294967296" "length content \<le> 4194300"
    and s: "xc_pending s = Some (opcode, rid)" "\<not> xc_closed s"
  shows "wp (finish_response W opcode) (\<lambda>x _. x = content) (\<lambda>_ _. False) s"
proof -
  let ?resp = "field_enc (S 4) 0 @ content"
  have st: "unpack STATUS ?resp ! 0 = 0" "drop 4 ?resp = content"
    by (simp_all add: STATUS_def field_dec_enc del: field_enc.simps field_dec.simps)
  have read: "wp (read_response W opcode rid) (\<lambda>x _. x = (int (length ?resp), ?resp)) (\<lambda>_ _. False) s"
    by (rule read_response_ok [OF W]) (use r in simp_all)
  have read': "wp (pattempt (read_response W opcode rid)) (\<lambda>x _. x = Inr (int (length ?resp), ?resp))
      (\<lambda>_ _. False) s"
    unfolding wp_pattempt by (rule wp_mono [OF read]) auto
  show ?thesis
    unfolding finish_response_def
    apply (simp only: wp_pbind [of "pget _"] wp_pget wp_pguard wp_pbind [of "pguard _ _"] s option.case
        if_False prod.case simp_thms not_True_eq_False)
    apply (simp only: wp_pbind wp_pfinally)
    apply (rule wp_mono [OF read'])
    using st by (auto simp: wp_simps Let_def simp del: field_enc.simps)
qed

lemma next_request_id_range: "0 < next_request_id n" "next_request_id n < 4294967296"
proof -
  have "0 \<le> (n + 1) mod 4294967296" by (rule pos_mod_sign) simp
  moreover have "(n + 1) mod 4294967296 < 4294967296" by (rule pos_mod_bound) simp
  ultimately show "0 < next_request_id n" "next_request_id n < 4294967296"
    unfolding next_request_id_def Let_def by auto
qed

lemma begin_request_ok:
  assumes "takes_writes W" "xc_pending s = None" "\<not> xc_closed s"
  shows "wp (begin_request W opcode payload) (\<lambda>_ _. True) (\<lambda>_ _. False) s"
proof -
  have "wp (pattempt (write_all W (frame opcode (next_request_id (xc_request_id s)) payload)))
      (\<lambda>r _. \<exists>u. r = Inr u) (\<lambda>_ _. False) (s\<lparr>xc_request_id := next_request_id (xc_request_id s)\<rparr>)"
    unfolding wp_pattempt by (rule wp_mono [OF write_all_ok [OF assms(1)]]) auto
  then show ?thesis
    unfolding begin_request_def using assms(2,3)
    by (simp only: wp_pbind wp_pget wp_pguard wp_pmod) (auto simp: wp_simps elim: wp_mono)
qed

lemma request_ok:
  assumes W: "takes_writes W" "serves W script"
      "script = received W (xc_log s) @
         frame opcode (next_request_id (xc_request_id s)) (field_enc (S 4) 0 @ content) @ rest"
    and r: "0 \<le> opcode" "opcode < 65536" "length content \<le> 4194300"
    and s: "xc_pending s = None" "\<not> xc_closed s"
  shows "wp (request W opcode payload) (\<lambda>x _. x = content) (\<lambda>_ _. False) s"
  unfolding request_def wp_pbind [of "begin_request W opcode payload"]
proof (rule wp_mono [OF wp_conj [OF begin_request_ok [OF W(1) s] begin_request_wp]], goal_cases)
  case (1 u t)
  show ?case
    by (rule finish_response_ok [OF W(2)])
      (use 1 W(3) r next_request_id_range [of "xc_request_id s"] in \<open>auto simp del: field_enc.simps\<close>)
qed simp

end
