(* ===== verification/Exact_Client_Props.thy ===== *)
theory Exact_Client_Props
  imports Exact_Stream
begin

text \<open>
  The properties of the exact worker's client: one request is one exchange, a request against an
  answering worker returns, failures close the transport, sessions stay in step, closed clients are
  silent, and a completed handshake has identified the worker.
\<close>

lemma client_do_sync:
  assumes f: "pipe_faults W" and "in_sync W s"
  shows "in_sync W (client_do W s x)"
proof (rule client_do_keeps [OF begin_request_sync [OF f] finish_response_sync [OF f] _ _ in_sync_call])
  show "in_sync W (s\<lparr>xc_config_hash := h\<rparr>)" if "in_sync W s" for s h
    using that by (subst in_sync_frame) simp_all
  show "in_sync W (s\<lparr>xc_closed := True\<rparr>)" for s by (simp add: in_sync_def)
qed (use assms in simp_all)

text \<open>A closed client starts no exchange, and stays closed.\<close>

definition ended :: "worker_env \<Rightarrow> byte list \<Rightarrow> byte list \<Rightarrow> exact_client \<Rightarrow> bool" where
  "ended W out in' s \<longleftrightarrow> xc_closed s \<and> sent W (xc_log s) = out \<and> received W (xc_log s) = in'"

lemma client_do_ended: "ended W out in' s \<Longrightarrow> ended W out in' (client_do W s x)"
  by (erule client_do_keeps [rotated -1], unfold ended_def)
    (auto intro!: keepsI simp: begin_request_def finish_response_def pbind_def pget_def pguard_def praise_def)

interpretation client: ranked_machine "client_do W" "\<lambda>s. pipe_faults W \<longrightarrow> in_sync W s"
    "\<lambda>s. if xc_closed s then 1 else 0" for W
  by unfold_locales (auto simp: client_do_sync dest: client_do_ended [unfolded ended_def, OF conjI])

interpretation closed_client: op_machine "client_do W" "ended W out in'" for W out in'
  by unfold_locales (rule client_do_ended)

section \<open>The properties\<close>

text \<open>
  A worker for the witnesses: it takes at most nine bytes of what it is offered, and serves a
  fixed script in chunks of at most eleven.  Its library is one empty file, mapped once.
\<close>

fun served :: "xio list \<Rightarrow> nat" where
  "served [] = 0"
| "served (XRead n # l) = served l + min n 11"
| "served (_ # l) = served l"

definition demo_digest :: string where
  "demo_digest = replicate 64 (CHR ''a'')"

definition demo_path :: string where
  "demo_path = ''/'' @ EXACT_LIBRARY_SONAME"

definition demo_maps_line :: string where
  "demo_maps_line = ''0-1 r-xp 00000000 08:01 9 '' @ demo_path"

definition demo_worker :: "byte list \<Rightarrow> worker_env" where
  "demo_worker script = \<lparr>
     we_write = (\<lambda>l. case l of XWrite d # _ \<Rightarrow> Inr (Some (int (min 9 (length d)))) | _ \<Rightarrow> Inr None),
     we_read = (\<lambda>l. case l of XRead n # l' \<Rightarrow> Inr (take (min n 11) (drop (served l') script)) | _ \<Rightarrow> Inr []),
     we_os = (\<lambda>_. Inr ()), we_poll = (\<lambda>_. None), we_stat = (\<lambda>_. Inr (1, 9, 0, 4, 5)),
     we_text = (\<lambda>l. case l of XMaps _ # _ \<Rightarrow> Inr [demo_maps_line] | _ \<Rightarrow> Inr [''1 0 8:1 / / rw'']),
     we_bytes = (\<lambda>_. Inr []), we_path = (\<lambda>_. Inr demo_path),
     we_json = (\<lambda>_. Some (Some (Some 5))), we_sha256 = (\<lambda>_. demo_digest), we_own_pid = 1\<rparr>"

lemma demo_worker_faults [simp]: "pipe_faults (demo_worker script)"
  by (auto simp: pipe_faults_def demo_worker_def split: list.splits xio.splits)

definition demo_client :: exact_client where
  "demo_client = \<lparr>xc_has_process = True, xc_has_connection = False, xc_transport_pid = 7,
     xc_request_id = 0, xc_pending = None, xc_closed = False, xc_last_response_bytes = 0,
     xc_info = None, xc_config_hash = 0, xc_entrypoint_count = 0, xc_target_identity = ([], 0),
     xc_executable_sha256 = '''', xc_executed_identity = (0, 0, 0, 0, 0), xc_library = None, xc_log = []\<rparr>"

lemma demo_client_simps [simp]:
  "xc_request_id demo_client = 0" "xc_pending demo_client = None" "xc_closed demo_client = False"
  "xc_log demo_client = []" "xc_info demo_client = None"
  by (simp_all add: demo_client_def)

definition demo_answer :: "int \<Rightarrow> int \<Rightarrow> byte list \<Rightarrow> byte list" where
  "demo_answer opcode rid content = frame opcode rid (field_enc (S 4) 0 @ content)"

definition demo_script :: "byte list" where
  "demo_script = demo_answer OP_OBSERVE 1 [1, 2, 3]"

lemma demo_received: "received (demo_worker script) l = take (served l) script"
proof (induction l)
  case (Cons c l)
  then show ?case by (cases c) (simp_all add: demo_worker_def take_add min.commute)
qed simp

lemma frame_nonempty [simp]: "frame opcode rid payload \<noteq> []"
proof -
  have "le_enc 4 n \<noteq> []" for n by (metis le_enc_length list.size(3) zero_neq_numeral)
  then show ?thesis by (simp add: frame_def HEADER_def)
qed

lemma frame_nonempty' [simp]: "[] \<noteq> frame opcode rid payload"
  using frame_nonempty [of opcode rid payload] by (metis)

lemma demo_no_bytes: "received (demo_worker []) l = []"
  by (simp add: demo_received)

lemma demo_takes: "takes_writes (demo_worker script)"
  by (auto simp: takes_writes_def demo_worker_def)

lemma demo_serves: "serves (demo_worker script) script"
proof -
  have "\<exists>b r. we_read (demo_worker script) (XRead n # l) = Inr b \<and> take n b \<noteq> [] \<and>
      drop (length (received (demo_worker script) l)) script = take n b @ r"
    if "0 < n" "length (received (demo_worker script) l) < length script" for l n
  proof -
    have l: "length (received (demo_worker script) l) = served l" "served l < length script"
      using that by (auto simp: demo_received)
    have r: "we_read (demo_worker script) (XRead n # l) = Inr (take (min n 11) (drop (served l) script))"
      by (simp add: demo_worker_def)
    show ?thesis
      unfolding r l(1)
      by (rule exI [of _ "take (min n 11) (drop (served l) script)"],
          rule exI [of _ "drop (min n 11) (drop (served l) script)"]) (use that(1) l(2) in \<open>simp del: drop_drop\<close>)
  qed
  then show ?thesis by (simp add: serves_def)
qed

lemma demo_request_wp:
  "wp (request (demo_worker demo_script) OP_OBSERVE []) (\<lambda>x _. x = [1, 2, 3]) (\<lambda>_ _. False) demo_client"
  by (rule request_ok [OF demo_takes demo_serves, where rest = "[]"])
    (simp_all add: demo_script_def demo_answer_def OP_OBSERVE_def next_request_id_def del: field_enc.simps)

lemma demo_request: "\<exists>content t. request (demo_worker demo_script) OP_OBSERVE [] demo_client = (Inr content, t)"
  using demo_request_wp by (auto simp: wp_def split: prod.split_asm sum.split_asm)

text \<open>a request that returns wrote exactly one frame, under a fresh nonzero identifier,
  however the stream split it, and consumed exactly one response frame with the same operation
  and identifier whose status is zero and whose remainder is the result; the client is idle and
  open.\<close>

theorem request_is_one_exchange:
  assumes "request W opcode payload s = (Inr content, t)"
  shows "xc_request_id t = next_request_id (xc_request_id s) \<and> xc_request_id t \<noteq> 0 \<and>
    sent W (xc_log t) = sent W (xc_log s) @ frame opcode (xc_request_id t) payload \<and>
    received W (xc_log t) = received W (xc_log s) @
      frame opcode (xc_request_id t) (field_enc (S 4) 0 @ content) \<and>
    xc_pending t = None \<and> \<not> xc_closed t"
  using wp_resultD [OF request_wp assms] by (auto simp: next_request_id_def Let_def)

theorem request_is_one_exchange_witness:
  "\<exists>content t. request (demo_worker demo_script) OP_OBSERVE [] demo_client = (Inr content, t) \<and>
     xc_request_id t = 1 \<and> length (sent (demo_worker demo_script) (xc_log t)) = 16"
proof -
  obtain content t where r: "request (demo_worker demo_script) OP_OBSERVE [] demo_client = (Inr content, t)"
    using demo_request by blast
  from request_is_one_exchange [OF r] show ?thesis
    by (intro exI [of _ content] exI [of _ t])
      (auto simp: r next_request_id_def frame_def HEADER_def)
qed

text \<open>C33: against a worker that accepts writes and whose stream holds the matching response, in
  chunks of any size, a request of an idle client returns that response's content: the loops over
  partial reads and writes end, whatever the chunking.\<close>

theorem request_is_answered:
  assumes "takes_writes W" "serves W script"
    and "script = received W (xc_log s) @
      frame opcode (next_request_id (xc_request_id s)) (field_enc (S 4) 0 @ content) @ rest"
    and "0 \<le> opcode" "opcode < 65536" "length content \<le> 4194300"
    and "xc_pending s = None" "\<not> xc_closed s"
  shows "\<exists>t. request W opcode payload s = (Inr content, t)"
proof -
  have "wp (request W opcode payload) (\<lambda>x _. x = content) (\<lambda>_ _. False) s"
    by (rule request_ok) (use assms in simp_all)
  then show ?thesis by (auto simp: wp_def split: prod.split_asm sum.split_asm)
qed

theorem request_is_answered_witness:
  "\<exists>t. request (demo_worker demo_script) OP_OBSERVE [] demo_client = (Inr [1, 2, 3], t)"
  by (rule request_is_answered [where rest = "[]" and script = demo_script])
    (simp_all add: demo_takes demo_serves demo_script_def demo_answer_def OP_OBSERVE_def
      next_request_id_def del: field_enc.simps)

text \<open>C34: when the pipes only fail with operating-system errors, a request that raises either
  changed nothing, because the client was closed or busy; or closed the client; or is the worker's
  own refusal (status one), and then one whole exchange took place and the client stays usable.\<close>

theorem request_fails_closed:
  assumes "pipe_faults W" and "request W opcode payload s = (Inl e, t)"
  shows "t = s \<and> (xc_closed s \<or> xc_pending s \<noteq> None) \<or>
    xc_pending t = None \<and> (xc_closed t \<or>
      exn_class e = ExactWorkerError \<and> (\<exists>resp.
        sent W (xc_log t) = sent W (xc_log s) @ frame opcode (xc_request_id t) payload \<and>
        received W (xc_log t) = received W (xc_log s) @ frame opcode (xc_request_id t) resp))"
  using wp_raiseD [OF request_wp assms(2)] assms(1) by blast

theorem request_fails_closed_witness:
  "\<exists>e t. request (demo_worker []) OP_OBSERVE [] demo_client = (Inl e, t) \<and> xc_closed t"
proof -
  obtain e t where e: "request (demo_worker []) OP_OBSERVE [] demo_client = (Inl e, t)"
  proof (cases "request (demo_worker []) OP_OBSERVE [] demo_client")
    case (Pair res t)
    show ?thesis
    proof (cases res)
      case (Inr content)
      from wp_resultD [OF request_wp Pair [unfolded Inr]]
      show ?thesis by (simp add: demo_no_bytes)
    qed (use Pair that in blast)
  qed
  from request_fails_closed [OF demo_worker_faults e] show ?thesis
    by (auto simp: e demo_no_bytes)
qed

text \<open>C19: after any sequence of public calls on a fresh client, over pipes that only fail with
  operating-system errors, the client is closed or the two streams are a list of whole exchanges
  in order, each response under its request's operation and identifier, followed by at most one
  request still outstanding, the recorded one.\<close>

theorem session_stays_in_step:
  assumes "pipe_faults W" "xc_log s = []" "xc_pending s = None"
    and "t = foldl (client_do W) s ops" "\<not> xc_closed t"
  shows "\<exists>exchanges out. sent W (xc_log t) = concat (map request_bytes exchanges) @ out \<and>
    received W (xc_log t) = concat (map response_bytes exchanges) \<and>
    (case xc_pending t of None \<Rightarrow> out = []
     | Some (opcode, rid) \<Rightarrow> \<exists>payload. out = frame opcode rid payload)"
proof -
  have "in_step W s" unfolding in_step_idle [OF assms(3)]
    by (rule exI [of _ "[]"]) (simp add: assms(2))
  then have "in_sync W s" by (simp add: in_sync_def)
  then have "in_sync W t"
    using client.inv_run [of W s ops] assms(1,4) by simp
  with assms(5) show ?thesis by (simp add: in_sync_def in_step_def)
qed

theorem session_stays_in_step_witness:
  "\<exists>exchanges t. t = foldl (client_do (demo_worker demo_script)) demo_client [CoObserve] \<and>
     sent (demo_worker demo_script) (xc_log t) = concat (map request_bytes exchanges)"
proof -
  let ?W = "demo_worker demo_script"
  have "wp (client_observe ?W) (\<lambda>_ t. \<not> xc_closed t \<and> xc_pending t = None)
      (\<lambda>_ t. \<not> xc_closed t \<and> xc_pending t = None) demo_client"
    unfolding client_observe_def wp_pbind [of "request ?W OP_OBSERVE []"]
    by (rule wp_mono [OF wp_conj [OF request_wp demo_request_wp]]) (auto simp: wp_simps split: sum.split)
  then have o: "\<not> xc_closed (final (client_observe ?W) demo_client)"
    "xc_pending (final (client_observe ?W) demo_client) = None"
    by (simp_all add: wp_final)
  show ?thesis
    using session_stays_in_step [where W = ?W and s = demo_client and ops = "[CoObserve]",
        OF demo_worker_faults _ _ refl] o by auto
qed

text \<open>A closed client stays closed and never touches a stream again, whatever is called.\<close>

theorem closed_client_is_silent:
  assumes "xc_closed s"
  shows "xc_closed (foldl (client_do W) s ops) \<and>
    sent W (xc_log (foldl (client_do W) s ops)) = sent W (xc_log s) \<and>
    received W (xc_log (foldl (client_do W) s ops)) = received W (xc_log s)"
  using closed_client.inv_run [of W "sent W (xc_log s)" "received W (xc_log s)" s ops] assms
  by (simp add: ended_def)

theorem closed_client_is_silent_witness:
  "xc_closed (foldl (client_do (demo_worker demo_script)) (demo_client\<lparr>xc_closed := True\<rparr>)
     [CoObserve, CoClose, CoFastCheckpoint])"
  using closed_client_is_silent [of "demo_client\<lparr>xc_closed := True\<rparr>" "demo_worker demo_script"
      "[CoObserve, CoClose, CoFastCheckpoint]"] by simp

text \<open>A handshake that fails for any reason, an interrupt included, leaves the client closed.\<close>

theorem failed_handshake_is_closed:
  assumes "initialize_protocol W config pid inherited s = (Inl e, t)"
  shows "xc_closed t"
proof -
  have "wp (initialize_protocol W config pid inherited) (\<lambda>_ _. True) (\<lambda>_ t. xc_closed t) s"
    unfolding initialize_protocol_def
    apply (simp only: wp_pbind wp_pmod wp_on_any_error)
    apply (rule wp_mono [OF wp_True])
     apply simp
    subgoal for e t
      by (rule wp_mono [OF abort_quiet [of W t]]) (simp_all add: quiet_def)
    done
  then show ?thesis using assms by (rule wp_raiseD)
qed


theorem failed_handshake_is_closed_witness:
  "\<exists>e t. initialize_protocol (demo_worker []) None 7 None demo_client = (Inl e, t) \<and> xc_closed t"
proof -
  let ?W = "demo_worker []"
  have req: "wp (request ?W OP_HELLO []) (\<lambda>_ _. False) (\<lambda>_ _. True) s" if "received ?W (xc_log s) = []" for s
    by (rule wp_mono [OF request_wp]) (simp_all add: demo_no_bytes)
  have "wp (initialize_protocol ?W None 7 None) (\<lambda>_ _. False) (\<lambda>_ _. True) demo_client"
    unfolding initialize_protocol_def
    apply (simp only: wp_pbind [of "pmod _"] wp_pmod wp_on_any_error)
    apply (unfold protocol_body_def client_hello_def)
    apply (simp only: wp_pbind)
    apply (rule wp_mono [OF req])
      apply (simp_all add: demo_no_bytes)
    done
  then obtain e t where i: "initialize_protocol ?W None 7 None demo_client = (Inl e, t)"
    by (auto simp: wp_def split: prod.split_asm sum.split_asm)
  from failed_handshake_is_closed [OF i] i show ?thesis by blast
qed

section \<open>A completed handshake\<close>

text \<open>What the handshake establishes, in fields that requests and system calls leave alone.\<close>

definition identified :: "int \<Rightarrow> exact_client \<Rightarrow> bool" where
  "identified pid t \<longleftrightarrow> (\<exists>info lib digest. xc_info t = Some info \<and> xc_library t = Some lib \<and>
     wi_pid info = pid \<and> wi_protocol_version info = PROTOCOL_VERSION \<and> wi_pointer_bits info = 32 \<and>
     wi_body_capacity info = BODY_CAPACITY \<and> wi_x87_control_word info = CANONICAL_X87_CONTROL_WORD \<and>
     wi_backend info = ustr_of EXACT_BACKEND \<and>
     wi_exact_library_sha256 info = ustr_of digest \<and> length digest = 64 \<and> list_all hex_char digest \<and>
     wi_exact_library_sha256 info = ustr_of (lp_sha256 lib) \<and>
     xc_target_identity t = (ustr_of (lp_mapped_device lib), lp_mapped_inode lib))"

lemma begin_keeps_fields:
  assumes I: "\<And>s l. I (s\<lparr>xc_log := l\<rparr>) = I s" "\<And>s n. I (s\<lparr>xc_request_id := n\<rparr>) = I s"
    "\<And>s p. I (s\<lparr>xc_pending := p\<rparr>) = I s" "\<And>s. I (s\<lparr>xc_closed := True\<rparr>) = I s"
    "\<And>s n. I (s\<lparr>xc_last_response_bytes := n\<rparr>) = I s"
  shows "keeps I (request W opcode payload)"
proof -
  have w: "keeps I (write_all W d)" for d
    by (rule keeps_from_wp, rule wp_mono [OF write_all_wp]) (auto simp: log_only_def I)
  have r: "keeps I (read_exact W n)" for n
    by (rule keeps_from_wp, rule wp_mono [OF read_exact_wp]) (auto simp: log_only_def I)
  show ?thesis
    unfolding request_def begin_request_def finish_response_def read_response_def transport_status_def
      client_abort_def xpoll_def Let_def
    by (intro keeps_intros w r) (simp_all add: I)
qed

lemma capture_keeps:
  assumes I: "\<And>s l. I (s\<lparr>xc_log := l\<rparr>) = I s"
  shows "keeps I (capture_executed_worker W)" "keeps I (capture_mapped_exact_library W pid r)"
    "keeps I (mapped_exact_library W pid)" "keeps I (mount_device W pid p)"
proof -
  show mo: "keeps I (mount_device W pid p)" for pid p
    unfolding mount_device_def by (intro keeps_intros) (simp add: I)
  show me: "keeps I (mapped_exact_library W pid)" for pid
    unfolding mapped_exact_library_def
    by (intro keeps_intros mo; (simp add: I; fail)?) (auto split: list.split prod.split intro!: keeps_intros mo)
  show "keeps I (capture_executed_worker W)"
    unfolding capture_executed_worker_def by (intro keeps_intros) (simp_all add: I)
  show "keeps I (capture_mapped_exact_library W pid r)"
    unfolding capture_mapped_exact_library_def read_library_def Let_def
    by (intro keeps_intros mo me) (simp_all add: I)
qed

lemma captured_digest:
  "wp (capture_mapped_exact_library W pid r)
     (\<lambda>lib _. normalize_exact_library_sha256 r = Some (lp_sha256 lib)) (\<lambda>_ _. True) s"
  unfolding capture_mapped_exact_library_def Let_def
  by (auto simp: wp_simps case_prod_unfold split: option.split intro!: wp_mono [OF wp_True])


lemma request_fields:
  "wp (request W opcode payload)
     (\<lambda>_ t. \<not> xc_closed t \<and> xc_pending t = None \<and> xc_info t = xc_info s \<and>
        xc_library t = xc_library s \<and> xc_target_identity t = xc_target_identity s) (\<lambda>_ _. True) s"
proof -
  have "keeps (\<lambda>t. xc_info t = xc_info s \<and> xc_library t = xc_library s \<and>
      xc_target_identity t = xc_target_identity s) (request W opcode payload)"
    by (rule begin_keeps_fields) simp_all
  from wp_conj [OF request_wp keeps_wp [OF this]] show ?thesis by (rule wp_mono) auto
qed

lemma hex_char_ascii: "hex_char c \<Longrightarrow> ascii_lower_char c = c \<and> (of_char c :: nat) < 128"
  by (auto simp: hex_char_def ascii_lower_char_def less_char_def less_eq_char_def)

lemma normalized_digest:
  assumes "normalize_exact_library_sha256 v = Some d"
  shows "length d = 64" "list_all hex_char d"
  using assms by (auto simp: normalize_exact_library_sha256_def Let_def split: option.splits if_splits)

lemma hex_text: "list_all hex_char d \<Longrightarrow> text_of (ustr_of d) = d \<and> map ascii_lower_char d = d"
proof (induction d)
  case (Cons c d)
  then show ?case using hex_char_ascii [of c] by (auto simp: text_of_def ustr_of_def)
qed (simp add: text_of_def ustr_of_def)

lemma normalize_again:
  assumes "normalize_exact_library_sha256 v = Some d"
    and "normalize_exact_library_sha256 (PyStr (text_of (ustr_of d))) = Some d'"
  shows "d' = d"
  using assms(2) hex_text [OF normalized_digest(2) [OF assms(1)]]
  by (auto simp: normalize_exact_library_sha256_def Let_def split: option.splits if_splits)

lemma check_info_ok:
  assumes "check_info info pid = Inr info'"
  shows "\<exists>v digest. normalize_exact_library_sha256 v = Some digest \<and>
    info' = info\<lparr>wi_exact_library_sha256 := ustr_of digest\<rparr> \<and> wi_pid info = pid \<and>
    wi_protocol_version info = PROTOCOL_VERSION \<and> wi_pointer_bits info = 32 \<and>
    wi_body_capacity info = BODY_CAPACITY \<and> wi_x87_control_word info = CANONICAL_X87_CONTROL_WORD \<and>
    wi_backend info = ustr_of EXACT_BACKEND"
  using assms by (auto simp: check_info_def split: if_splits option.splits)

lemma capture_identity_wp:
  assumes "normalize_exact_library_sha256 v = Some digest" "wi_exact_library_sha256 info = ustr_of digest"
  shows "wp (capture_identity W pid info inherited)
    (\<lambda>lib t. xc_library t = Some lib \<and> wi_exact_library_sha256 info = ustr_of (lp_sha256 lib) \<and>
       xc_info t = xc_info s \<and> xc_closed t = xc_closed s \<and> xc_pending t = xc_pending s \<and>
       xc_target_identity t = xc_target_identity s) (\<lambda>_ _. True) s"
proof (cases inherited)
  case None
  let ?I = "\<lambda>t. xc_info t = xc_info s \<and> xc_closed t = xc_closed s \<and> xc_pending t = xc_pending s \<and>
       xc_target_identity t = xc_target_identity s"
  have c: "wp (capture_mapped_exact_library W pid (PyStr (text_of (wi_exact_library_sha256 info))))
      (\<lambda>lib t. lp_sha256 lib = digest \<and> ?I t) (\<lambda>_ _. True) t" if "?I t" for t
  proof (rule wp_mono [OF wp_conj [OF captured_digest keeps_wp [OF capture_keeps(2)]]])
    fix lib u assume "normalize_exact_library_sha256 (PyStr (text_of (wi_exact_library_sha256 info))) =
      Some (lp_sha256 lib) \<and> ?I u"
    with normalize_again [OF assms(1)] assms(2) show "lp_sha256 lib = digest \<and> ?I u" by auto
  qed (use that in auto)
  have e: "wp (capture_executed_worker W) (\<lambda>_. ?I) (\<lambda>_. ?I) s"
    by (rule keeps_wp [OF capture_keeps(1)]) simp_all
  show ?thesis
    unfolding capture_identity_def None option.case wp_pbind [of "capture_executed_worker W"]
    by (rule wp_mono [OF e])
      (auto simp: wp_simps assms(2) intro!: c [unfolded assms(2), THEN wp_mono])
next
  case (Some parent)
  then show ?thesis
    by (auto simp: capture_identity_def wp_simps split: option.split)
qed


lemma protocol_body_wp:
  assumes "\<not> xc_closed s"
  shows "wp (protocol_body W config pid inherited)
    (\<lambda>_ t. \<not> xc_closed t \<and> xc_pending t = None \<and> identified pid t) (\<lambda>_ _. True) s"
proof -
  have hello: "wp (client_hello W) (\<lambda>_ t. \<not> xc_closed t \<and> xc_pending t = None) (\<lambda>_ _. True) s"
    unfolding client_hello_def wp_pbind [of "request W OP_HELLO []"]
    by (rule wp_mono [OF request_fields]) (auto simp: wp_simps split: sum.split)
  have attest: "wp (reraise p n (pbind (request W OP_EXACT_ATTESTATION []) (\<lambda>payload.
        plift (decode_exact_attestation payload))))
      (\<lambda>_ t. \<not> xc_closed t \<and> xc_pending t = None \<and> xc_info t = xc_info u) (\<lambda>_ _. True) u" for u p n
    unfolding wp_reraise wp_pbind [of "request W OP_EXACT_ATTESTATION []"]
    by (rule wp_mono [OF request_fields]) (auto simp: wp_simps split: sum.split)
  have conf: "wp (client_configure W c) (\<lambda>_ t. \<not> xc_closed t \<and> xc_pending t = None \<and> identified pid t)
      (\<lambda>_ _. True) u" if "identified pid u" for c u
    unfolding client_configure_def
    apply (simp only: wp_pbind wp_plift)
    apply (simp split: sum.split)
    apply (intro allI impI)
    apply (rule wp_mono [OF request_fields])
    using that by (auto simp: wp_simps Let_def identified_def)
  have rest: "wp (pbind (capture_identity W pid info inherited) (\<lambda>lib.
     pbind (pguard (ustr_of (lp_mapped_device lib) \<noteq> device \<or> lp_mapped_inode lib \<noteq> inode)
       (protocol_error ''exact call targets disagree with the captured library mapping'')) (\<lambda>_.
     pbind (pmod (\<lambda>s. s\<lparr>xc_config_hash := wi_config_hash info\<rparr>)) (\<lambda>_.
     case config of
       None \<Rightarrow> pret ()
     | Some c \<Rightarrow> pbind (client_configure W c) (\<lambda>_. pret ())))))
      (\<lambda>_ t. \<not> xc_closed t \<and> xc_pending t = None \<and> identified pid t) (\<lambda>_ _. True) u"
    if u: "check_info info0 pid = Inr info" "xc_info u = Some info" "\<not> xc_closed u" "xc_pending u = None"
      "xc_target_identity u = (device, inode)" for info0 info device inode u
  proof -
    obtain v digest where d: "normalize_exact_library_sha256 v = Some digest"
      "info = info0\<lparr>wi_exact_library_sha256 := ustr_of digest\<rparr>" and chk: "wi_pid info0 = pid"
      "wi_protocol_version info0 = PROTOCOL_VERSION" "wi_pointer_bits info0 = 32"
      "wi_body_capacity info0 = BODY_CAPACITY" "wi_x87_control_word info0 = CANONICAL_X87_CONTROL_WORD"
      "wi_backend info0 = ustr_of EXACT_BACKEND"
      using check_info_ok [OF u(1)] by blast
    have w: "wi_exact_library_sha256 info = ustr_of digest" by (simp add: d(2))
    show ?thesis
      unfolding wp_pbind [of "capture_identity W pid info inherited"]
    proof (rule wp_mono [OF capture_identity_wp [OF d(1) w]], goal_cases)
      case (1 lib t)
      have "identified pid (t\<lparr>xc_config_hash := h\<rparr>)"
        if "ustr_of (lp_mapped_device lib) = device" "lp_mapped_inode lib = inode" for h
        unfolding identified_def
        by (rule exI [of _ info], rule exI [of _ lib], rule exI [of _ digest])
          (use 1 that u d(2) chk normalized_digest [OF d(1)] w in auto)
      with 1 u show ?case
        by (auto simp: wp_simps split: option.split intro!: wp_mono [OF conf])
    qed simp
  qed
  show ?thesis
    unfolding protocol_body_def wp_pbind [of "client_hello W"]
    apply (rule wp_mono [OF hello])
     apply (simp only: wp_pbind [of "pmod _"] wp_pmod wp_pbind [of "plift _"] wp_plift)
     apply (simp only: split: sum.split)
     apply (intro allI impI conjI TrueI)
     apply (subst wp_pbind)
     apply (rule wp_mono [OF attest])
     apply (simp only: wp_prod split: prod.split)
     apply (intro allI impI)
     apply (elim conjE)
     apply (simp only: wp_pbind [of "pmod _"] wp_pmod)
      apply (rule rest)
    by simp_all
qed

text \<open>The handshake as the worker encodes it.\<close>

definition utf8_bytes :: "ustr \<Rightarrow> byte list" where
  "utf8_bytes s = concat (map utf8_char s)"

definition hello_string :: "ustr \<Rightarrow> byte list" where
  "hello_string s = pack [U 2] [int (length (utf8_bytes s))] @ utf8_bytes s"

definition hello_bytes :: "worker_info \<Rightarrow> byte list" where
  "hello_bytes i = pack HELLO_FIXED [wi_protocol_version i, wi_pointer_bits i, wi_body_capacity i,
     wi_pid i, wi_config_hash i, wi_x87_control_word i, wi_process_model i] @
     hello_string (wi_backend i) @ hello_string (wi_compiler i) @ hello_string (wi_exact_library_sha256 i)"

definition hello_text :: "ustr \<Rightarrow> bool" where
  "hello_text s \<longleftrightarrow> list_all scalar s \<and> length (utf8_bytes s) < 65536"

lemma hello_text_decode: "hello_text s \<Longrightarrow> utf8_decode (utf8_bytes s) = Some s"
  by (rule utf8_roundtrip) (simp add: utf8_encode_def hello_text_def utf8_bytes_def)

lemma hello_strings_step:
  assumes "hello_text s" "drop offset payload = hello_string s @ rest" "offset \<le> length payload"
  shows "hello_strings (Suc n) payload offset =
    rbind (hello_strings n payload (offset + length (hello_string s))) (\<lambda>(ss, end). Inr (s # ss, end))"
proof -
  let ?b = "utf8_bytes s"
  have u: "unpack [U 2] (drop offset payload) = [int (length ?b)]"
    unfolding assms(2) hello_string_def append_assoc
    by (rule unpack_pack) (use assms(1) in \<open>simp add: hello_text_def\<close>)
  have l: "length (pack [U 2] [int (length ?b)]) = 2"
    by (subst pack_length) (simp_all add: fmt_size_def)
  have n: "length payload - offset = 2 + length ?b + length rest"
    using arg_cong [OF assms(2), of length] l assms(3) by (simp add: hello_string_def)
  have n': "length payload - Suc (Suc offset) = length ?b + length rest" using n by simp
  have d: "drop (offset + 2) payload = ?b @ rest"
    using arg_cong [OF assms(2), of "drop 2"] l by (simp add: hello_string_def add.commute)
  show ?thesis
    using u n n' d hello_text_decode [OF assms(1)] l assms(3)
    by (simp add: hello_string_def add.assoc Let_def)
qed

lemma hello_roundtrip:
  assumes i: "hello_text (wi_backend i)" "hello_text (wi_compiler i)" "hello_text (wi_exact_library_sha256 i)"
    and f: "list_all2 field_ok HELLO_FIXED [wi_protocol_version i, wi_pointer_bits i, wi_body_capacity i,
     wi_pid i, wi_config_hash i, wi_x87_control_word i, wi_process_model i]"
  shows "decode_hello (hello_bytes i) = Inr i"
proof -
  let ?v = "[wi_protocol_version i, wi_pointer_bits i, wi_body_capacity i,
     wi_pid i, wi_config_hash i, wi_x87_control_word i, wi_process_model i]"
  let ?p = "hello_bytes i"
  have v: "unpack HELLO_FIXED ?p = ?v"
    unfolding hello_bytes_def by (rule unpack_pack [OF f])
  have l: "length (pack HELLO_FIXED ?v) = 32"
    by (subst pack_length) (simp_all add: HELLO_FIXED_def fmt_size_def)
  let ?n1 = "32 + length (hello_string (wi_backend i))"
  let ?n2 = "?n1 + length (hello_string (wi_compiler i))"
  have n: "length ?p = ?n2 + length (hello_string (wi_exact_library_sha256 i))"
    using l by (simp add: hello_bytes_def)
  have d: "drop 32 ?p = hello_string (wi_backend i) @ hello_string (wi_compiler i) @ hello_string (wi_exact_library_sha256 i)"
    "drop ?n1 ?p = hello_string (wi_compiler i) @ hello_string (wi_exact_library_sha256 i)"
    "drop ?n2 ?p = hello_string (wi_exact_library_sha256 i) @ []"
    using l by (simp_all add: hello_bytes_def)
  have s: "hello_strings 3 ?p 32 =
      Inr ([wi_backend i, wi_compiler i, wi_exact_library_sha256 i], length ?p)"
    unfolding numeral_3_eq_3
    by (subst hello_strings_step [OF i(1) d(1)], simp add: n,
        subst hello_strings_step [OF i(2) d(2)], simp add: n,
        subst hello_strings_step [OF i(3) d(3)], simp add: n, simp add: n)
  show ?thesis
    using s n v by (simp add: decode_hello_def)
qed

definition demo_info :: worker_info where
  "demo_info = \<lparr>wi_protocol_version = 1, wi_pointer_bits = 32, wi_body_capacity = BODY_CAPACITY,
     wi_pid = 7, wi_config_hash = 5, wi_x87_control_word = CANONICAL_X87_CONTROL_WORD,
     wi_process_model = 1, wi_backend = ustr_of EXACT_BACKEND, wi_compiler = [],
     wi_exact_library_sha256 = ustr_of demo_digest\<rparr>"

definition demo_attestation :: "byte list" where
  "demo_attestation = pack EXACT_ATTESTATION_FIXED [1, 15, 9] @ pack [U 2] [5] @ utf8_bytes (ustr_of ''08:01'')"

definition demo_parent :: exact_client where
  "demo_parent = demo_client\<lparr>xc_library := Some \<lparr>lp_path = ''/x'', lp_bytes = 1, lp_sha256 = demo_digest,
     lp_identity = (1, 9, 1, 1, 1), lp_mapped_device = ''08:01'', lp_mapped_inode = 9\<rparr>\<rparr>"

lemma hello_text_ustr: "length s < 100 \<Longrightarrow> hello_text (ustr_of s)"
proof -
  assume "length s < 100"
  have c: "length (utf8_char x) \<le> 4" for x by (simp add: utf8_char_def)
  have "length (utf8_bytes x) \<le> 4 * length x" for x
    unfolding utf8_bytes_def by (induction x) (use c in \<open>auto intro: add_mono\<close>)
  from this [of "ustr_of s"] \<open>length s < 100\<close> have "length (utf8_bytes (ustr_of s)) < 65536"
    by (simp add: ustr_of_def)
  moreover have "list_all scalar (ustr_of s)"
  proof -
    have "scalar (of_char c)" for c
    proof -
      have "of_char c < (256 :: nat)" by simp
      then show ?thesis unfolding scalar_def by linarith
    qed
    then show ?thesis by (simp add: list_all_iff ustr_of_def)
  qed
  ultimately show ?thesis by (simp add: hello_text_def)
qed


lemma demo_hello_ok: "decode_hello (hello_bytes demo_info) = Inr demo_info"
  by (rule hello_roundtrip)
    (simp_all add: demo_info_def demo_digest_def EXACT_BACKEND_def HELLO_FIXED_def BODY_CAPACITY_def
      CANONICAL_X87_CONTROL_WORD_def hello_text_ustr hello_text_ustr [of "[]", simplified ustr_of_def list.map])

lemma demo_digest_ok: "normalize_exact_library_sha256 (PyStr demo_digest) = Some demo_digest"
    "list_all hex_char demo_digest"
  by (simp_all add: normalize_exact_library_sha256_def demo_digest_def ascii_lower_char_def hex_char_def
      less_eq_char_def less_char_def list_all_iff)

lemma demo_check_ok: "check_info demo_info 7 = Inr demo_info"
  using hex_text [OF demo_digest_ok(2)] demo_digest_ok(1)
  by (simp add: check_info_def demo_info_def PROTOCOL_VERSION_def)

lemma demo_attestation_ok:
  "decode_exact_attestation demo_attestation = Inr (15, ustr_of ''08:01'', 9)"
  by code_simp


definition handshake_script :: "byte list" where
  "handshake_script = demo_answer OP_HELLO 1 (hello_bytes demo_info) @
     demo_answer OP_EXACT_ATTESTATION 2 demo_attestation"

lemma demo_lengths: "length (hello_bytes demo_info) \<le> 4194300" "length demo_attestation \<le> 4194300"
proof -
  have c: "length (hello_string (ustr_of s)) \<le> 65540" if "length s < 100" for s
    using hello_text_ustr [OF that] pack_length [of "[x]" "[U 2]" for x]
    by (simp add: hello_text_def hello_string_def fmt_size_def)
  have "length (hello_bytes demo_info) \<le> 32 + 65540 + 65540 + 65540"
    using c [of EXACT_BACKEND] c [of "[]"] c [of demo_digest]
    by (simp add: hello_bytes_def demo_info_def demo_digest_def EXACT_BACKEND_def pack_length fmt_size_def
        HELLO_FIXED_def ustr_of_def)
  then show "length (hello_bytes demo_info) \<le> 4194300" by simp
  show "length demo_attestation \<le> 4194300"
    by (simp add: demo_attestation_def EXACT_ATTESTATION_FIXED_def utf8_bytes_def ustr_of_def utf8_char_def)
qed

lemma demo_handshake:
  "\<exists>t. initialize_protocol (demo_worker handshake_script) None 7 (Some demo_parent) demo_client = (Inr (), t)"
proof -
  let ?W = "demo_worker handshake_script"
  have hello: "wp (request ?W OP_HELLO []) (\<lambda>x t. x = hello_bytes demo_info \<and> \<not> xc_closed t \<and>
      xc_pending t = None \<and> xc_request_id t = 1 \<and>
      received ?W (xc_log t) = demo_answer OP_HELLO 1 (hello_bytes demo_info)) (\<lambda>_ _. False) s"
    if "xc_request_id s = 0" "xc_pending s = None" "\<not> xc_closed s" "xc_log s = []" for s
    by (rule wp_mono [OF wp_conj [OF request_ok [OF demo_takes demo_serves] request_wp]])
      (use that demo_lengths in \<open>auto simp: handshake_script_def demo_answer_def next_request_id_def
        OP_HELLO_def simp del: field_enc.simps\<close>)
  have attest: "wp (request ?W OP_EXACT_ATTESTATION []) (\<lambda>x t. x = demo_attestation) (\<lambda>_ _. False) s"
    if "xc_request_id s = 1" "xc_pending s = None" "\<not> xc_closed s"
      "received ?W (xc_log s) = demo_answer OP_HELLO 1 (hello_bytes demo_info)" for s
    by (rule request_ok [OF demo_takes demo_serves, where rest = "[]"])
      (use that demo_lengths in \<open>auto simp: handshake_script_def demo_answer_def next_request_id_def
        OP_EXACT_ATTESTATION_def simp del: field_enc.simps\<close>)
  have "wp (initialize_protocol ?W None 7 (Some demo_parent)) (\<lambda>_ _. True) (\<lambda>_ _. False) demo_client"
    unfolding initialize_protocol_def protocol_body_def client_hello_def capture_identity_def option.case
    apply (simp only: wp_pbind wp_pmod wp_on_any_error wp_reraise wp_plift)
    apply (rule wp_mono [OF hello])
         apply (simp_all add: demo_hello_ok demo_check_ok)
    apply (rule wp_mono [OF attest])
         apply (simp_all add: demo_attestation_ok)
    by (simp add: demo_parent_def wp_simps demo_info_def)
  then show ?thesis
    by (auto simp: wp_def split: prod.split_asm sum.split_asm)
qed

text \<open>C36: a handshake that returns leaves an open, idle client whose worker reported the expected
  process, the protocol, the 32-bit ABI, the canonical x87 control word and the exact backend,
  whose library digest is a 64-digit hexadecimal digest equal to that of the captured library
  bytes, and whose call targets lie in the mapping the library was captured from.\<close>

theorem handshake_identifies_worker:
  assumes "initialize_protocol W config pid inherited s = (Inr (), t)"
  shows "\<not> xc_closed t \<and> xc_pending t = None \<and> identified pid t"
proof -
  have "wp (initialize_protocol W config pid inherited)
      (\<lambda>_ t. \<not> xc_closed t \<and> xc_pending t = None \<and> identified pid t) (\<lambda>_ _. True) s"
    unfolding initialize_protocol_def wp_pbind [of "pmod _"] wp_pmod wp_on_any_error
    by (rule wp_mono [OF protocol_body_wp]) simp_all
  then show ?thesis using assms by (rule wp_resultD)
qed

theorem handshake_identifies_worker_witness:
  "\<exists>t. initialize_protocol (demo_worker handshake_script) None 7 (Some demo_parent) demo_client = (Inr (), t) \<and>
     identified 7 t"
proof -
  obtain t where i: "initialize_protocol (demo_worker handshake_script) None 7 (Some demo_parent) demo_client =
      (Inr (), t)"
    using demo_handshake by blast
  from handshake_identifies_worker [OF i] i show ?thesis by blast
qed

end
