(* ===== verification/Exact_Sim_Inv.thy ===== *)
theory Exact_Sim_Inv
  imports Exact_Simulator Exact_Client_Props
begin

text \<open>
  The invariant of \<open>ExactSimulator\<close>: the state hasher has been fed the worker identity, the
  configuration, the seed and exactly the action log, whose entries are well-formed requests.
  Every operation keeps it, whatever the workers answer.  The second half shows that snapshot
  bytes and (configuration, identity, seed, log) determine each other.
\<close>

lemma wp_keeps: "I s \<Longrightarrow> keeps I m \<Longrightarrow> wp m (\<lambda>_. I) (\<lambda>_. I) s"
  by (rule keeps_wp)

lemma wp_on_client:
  "wp (on_client W i m) Q E = (\<lambda>s. wp (m (sw_worker W i))
     (\<lambda>x c. Q x (s\<lparr>xs_clients := (xs_clients s)[i := c]\<rparr>))
     (\<lambda>e c. E e (s\<lparr>xs_clients := (xs_clients s)[i := c]\<rparr>)) (xs_clients s ! i))"
  by (rule ext) (auto simp: wp_def on_client_def split: prod.split sum.split)

text \<open>Properties of the simulator's own fields hold across a client call whatever it does.\<close>

lemma on_client_any:
  assumes "\<And>x cs. Q x (s\<lparr>xs_clients := cs\<rparr>)" "\<And>e cs. E e (s\<lparr>xs_clients := cs\<rparr>)"
  shows "wp (on_client W i m) Q E s"
  unfolding wp_on_client by (rule wpI) (simp_all add: assms)

lemma keeps_on_client [keeps_intros]:
  "(\<And>s cs. I s \<Longrightarrow> I (s\<lparr>xs_clients := cs\<rparr>)) \<Longrightarrow> keeps I (on_client W i m)"
  by (auto simp: keeps_def on_client_def split: prod.split)

section \<open>The fields an owner sees\<close>

definition same_world :: "exact_sim \<Rightarrow> exact_sim \<Rightarrow> bool" where
  "same_world s t \<longleftrightarrow> xs_client t = xs_client s \<and> xs_seed t = xs_seed s \<and> xs_actions t = xs_actions s \<and>
     xs_observation t = xs_observation s \<and> xs_raw t = xs_raw s \<and> xs_hasher t = xs_hasher s \<and>
     xs_pending t = xs_pending s \<and> xs_identity t = xs_identity s \<and> xs_config_hash t = xs_config_hash s \<and>
     xs_overrides t = xs_overrides s \<and> xs_config t = xs_config s"

lemma same_world_refl [simp]: "same_world s s" by (simp add: same_world_def)

lemma same_world_clients [simp]:
  "same_world s (t\<lparr>xs_clients := cs\<rparr>) = same_world s t"
  "same_world s (t\<lparr>xs_checkpoints := ks\<rparr>) = same_world s t"
  "same_world s (t\<lparr>xs_ckpts := cks\<rparr>) = same_world s t"
  by (simp_all add: same_world_def)

lemma wp_require_open [wp_simps]:
  "wp require_open Q E = (\<lambda>s. case xs_client s of
     None \<Rightarrow> E (native_error ''exact simulator is closed'') s
   | Some i \<Rightarrow> if xc_closed (xs_clients s ! i) then E (native_error ''exact simulator is closed'') s
              else Q i s)"
  by (rule ext) (simp add: require_open_def wp_simps split: option.split)

lemma require_open_keeps [keeps_intros]: "keeps I require_open"
  by (rule keeps_from_wp) (simp add: wp_simps split: option.split)

lemma require_no_checkpoints_keeps [keeps_intros]:
  "(\<And>s ks. I s \<Longrightarrow> I (s\<lparr>xs_checkpoints := ks\<rparr>)) \<Longrightarrow> keeps I (require_no_checkpoints op)"
  unfolding require_no_checkpoints_def by (intro keeps_intros) simp

lemma spawn_client_keeps [keeps_intros]:
  "(\<And>s cs. I s \<Longrightarrow> I (s\<lparr>xs_clients := cs\<rparr>)) \<Longrightarrow> keeps I (spawn_client W)"
  unfolding spawn_client_def by (intro keeps_intros) simp_all

lemma spawn_matching_keeps [keeps_intros]:
  "(\<And>s cs. I s \<Longrightarrow> I (s\<lparr>xs_clients := cs\<rparr>)) \<Longrightarrow> keeps I (spawn_matching W)"
  unfolding spawn_matching_def by (intro keeps_intros) simp_all

lemma replay_keeps [keeps_intros]:
  "(\<And>s cs. I s \<Longrightarrow> I (s\<lparr>xs_clients := cs\<rparr>)) \<Longrightarrow> keeps I (replay W c as obs)"
proof (induction "as" arbitrary: obs)
  case Nil
  show ?case by (simp add: keeps_intros)
next
  case (Cons a rest)
  show ?case unfolding replay.simps Let_def by (intro keeps_intros Cons)
qed

lemma wp_same: "keeps (same_world s) m \<Longrightarrow> wp m (\<lambda>_. same_world s) (\<lambda>_. same_world s) s"
  by (rule keeps_wp) simp_all

section \<open>The action log\<close>

definition valid_action :: "byte list \<Rightarrow> bool" where
  "valid_action a \<longleftrightarrow> length a = STEP_SIZE \<and> unpack STEP_REQUEST a ! 0 \<le> 3 \<and>
     unpack STEP_REQUEST a ! 3 \<le> 0xFFFFFFFF \<and> unpack STEP_REQUEST a ! 4 = 0"

text \<open>
  The invariant of the owner: its seed is a 32-bit number and its log holds encoded actions; the
  state hasher has been fed the identity, the configuration hash, the seed and exactly the log.
\<close>

definition sim_inv :: "exact_sim \<Rightarrow> bool" where
  "sim_inv s \<longleftrightarrow> list_all valid_action (xs_actions s) \<and>
     (\<forall>a. xs_pending s = Some a \<longrightarrow> valid_action a) \<and>
     (case xs_seed s of
        None \<Rightarrow> xs_hasher s = None \<and> xs_actions s = [] \<and> xs_pending s = None
      | Some n \<Rightarrow> 0 \<le> n \<and> n \<le> UINT32 \<and> (\<forall>h. xs_hasher s = Some h \<longrightarrow>
          h = new_state_hasher (xs_identity s) (xs_config_hash s) n @ concat (xs_actions s)))"

lemma sim_inv_world: "same_world s t \<Longrightarrow> sim_inv t = sim_inv s"
  by (simp add: sim_inv_def same_world_def split: option.split)

lemma sim_inv_frame [simp]:
  "sim_inv (s\<lparr>xs_clients := cs\<rparr>) = sim_inv s" "sim_inv (s\<lparr>xs_checkpoints := ks\<rparr>) = sim_inv s"
  "sim_inv (s\<lparr>xs_ckpts := cks\<rparr>) = sim_inv s" "sim_inv (s\<lparr>xs_observation := obs\<rparr>) = sim_inv s"
  "sim_inv (s\<lparr>xs_raw := raw\<rparr>) = sim_inv s"
  by (simp_all add: sim_inv_def split: option.split)

lemma pack_valid:
  assumes "pack_step_request kind x y wait False = Inr a"
  shows "valid_action a"
proof -
  have "pack_step_slow kind x y wait False = Inr a"
    using assms by (simp add: pack_paths)
  then obtain k w xb yb where "0 \<le> k" "k \<le> 3" "0 \<le> w" "w \<le> UINT32" "a = step_bytes k xb yb w False"
    by (auto simp: pack_step_slow_def rbind_Inr split: option.splits if_splits)
  with step_bytes_unpack [of k w xb yb False] show ?thesis
    by (auto simp: valid_action_def STEP_SIZE_def UINT32_def)
qed

section \<open>Every operation keeps the invariant\<close>

lemma client_reset_seed:
  "wp (client_reset V seed) (\<lambda>_ _. \<exists>n. integral_of seed = Some n \<and> 0 \<le> n \<and> n \<le> UINT32) (\<lambda>_ _. True) c"
proof (cases "integral_of seed")
  case (Some n)
  then show ?thesis
    by (cases "0 \<le> n \<and> n \<le> UINT32")
      (auto simp: client_reset_def wp_simps intro!: wp_mono [OF wp_True] split: sum.split)
qed (simp add: client_reset_def wp_simps)

lemma sim_inv_reset_commit:
  assumes "sim_inv s" "integral_of seed = Some n" "0 \<le> n" "n \<le> UINT32"
  shows "sim_inv (reset_commit c (int_of_num seed) obs s)"
  using assms by (simp add: sim_inv_def reset_commit_def int_of_num_def)

lemma reset_inv: "keeps sim_inv (reset_typed W seed)"
proof (rule keeps_from_wp)
  fix s assume s: "sim_inv s"
  have first: "wp (on_client W i (\<lambda>V. client_reset V seed))
      (\<lambda>obs t. sim_inv t \<and> (\<exists>n. integral_of seed = Some n \<and> 0 \<le> n \<and> n \<le> UINT32)) (\<lambda>_. sim_inv) t"
    if "sim_inv t" for i t
    unfolding wp_on_client by (rule wp_mono [OF client_reset_seed]) (use that in auto)
  have second: "wp (on_any_error (on_client W i (\<lambda>V. client_reset V seed)) (on_client W i client_close))
      (\<lambda>obs t. sim_inv t \<and> (\<exists>n. integral_of seed = Some n \<and> 0 \<le> n \<and> n \<le> UINT32)) (\<lambda>_. sim_inv) t"
    if "sim_inv t" for i t
    unfolding wp_on_any_error
    by (rule wp_mono [OF first [OF that]]) (auto intro!: on_client_any)
  have nock: "wp (require_no_checkpoints ''reset'') (\<lambda>_. sim_inv) (\<lambda>_. sim_inv) s"
    by (rule wp_keeps [of sim_inv, OF s]) (intro keeps_intros, simp)
  have spawn: "wp (spawn_matching W) (\<lambda>_. sim_inv) (\<lambda>_. sim_inv) t" if "sim_inv t" for t
    by (rule wp_keeps [of sim_inv, OF that]) (intro keeps_intros, simp)
  have commit: "wp (pbind (on_client W j client_close) (\<lambda>_. pret obs)) (\<lambda>_. sim_inv) (\<lambda>_. sim_inv) t"
    if "sim_inv t" for j obs t
    by (rule wp_keeps [of sim_inv, OF that]) (intro keeps_intros, simp)
  show "wp (reset_typed W seed) (\<lambda>_. sim_inv) (\<lambda>_. sim_inv) s"
    unfolding reset_typed_def wp_pbind [of require_open] wp_require_open
    by (auto simp: s wp_pbind [of "require_no_checkpoints _"] wp_pbind [of "pget _"] wp_pget wp_if
        wp_pbind [of "on_client _ _ (\<lambda>V. client_reset V seed)"] wp_pbind [of "spawn_matching _"]
        wp_pbind [of "on_any_error _ _"] wp_pbind [of "pmod _"] wp_pmod wp_pret
        intro!: wp_mono [OF nock] wp_mono [OF first] wp_mono [OF spawn] wp_mono [OF second] commit
        sim_inv_reset_commit split: option.split)
qed

lemma keeps_post: "keeps I m \<Longrightarrow> I s \<Longrightarrow> (\<And>x t. I t \<Longrightarrow> Q x t) \<Longrightarrow> (\<And>e t. I t \<Longrightarrow> E e t) \<Longrightarrow> wp m Q E s"
  by (rule wp_mono [OF keeps_wp])

lemma send_inv: "keeps sim_inv (send_step_request W padded kind x y wait)"
proof (rule keeps_from_wp)
  fix s assume s: "sim_inv s"
  show "wp (send_step_request W padded kind x y wait) (\<lambda>_. sim_inv) (\<lambda>_. sim_inv) s"
    using s
    by (auto simp: send_step_request_def wp_pbind wp_pget wp_pguard wp_require_open wp_plift wp_pmod
        intro!: on_client_any split: option.split sum.split)
      (auto simp: sim_inv_def pack_valid split: option.splits)
qed

lemma drop_worker_inv:
  assumes "sim_inv s"
  shows "wp (drop_worker W i) (\<lambda>_. sim_inv) (\<lambda>_. sim_inv) s"
    and "wp (drop_worker W i) (\<lambda>_ t. xs_client t = None \<and> xs_pending t = None)
      (\<lambda>_ t. xs_client t = None \<and> xs_pending t = None) s"
  unfolding drop_worker_def wp_pbind wp_pmod wp_ignoring
  by (rule on_client_any; use assms in \<open>auto simp: sim_inv_def split: option.splits\<close>)+

lemma accept_inv:
  assumes "sim_inv s" "xs_pending s = Some action"
  shows "sim_inv (s\<lparr>xs_pending := None, xs_actions := xs_actions s @ [action],
    xs_hasher := map_option (\<lambda>h. h @ action) (xs_hasher s)\<rparr>)"
  using assms by (auto simp: sim_inv_def split: option.splits)

lemma receive_inv:
  assumes keep: "\<And>r t. sim_inv t \<Longrightarrow> sim_inv (keep r t)"
  shows "keeps sim_inv (receive_with W read hash_of keep)"
proof (rule keeps_from_wp)
  fix s assume s: "sim_inv s"
  show "wp (receive_with W read hash_of keep) (\<lambda>_. sim_inv) (\<lambda>_. sim_inv) s"
  proof (cases "xs_pending s")
    case None
    then show ?thesis by (simp add: receive_with_def wp_simps s)
  next
    case (Some action)
    have body: "wp (on_any_error
         (pbind (on_client W i read) (\<lambda>r.
          pbind (pget xs_config_hash) (\<lambda>config_hash.
          pbind (pguard (hash_of r \<noteq> config_hash)
            (protocol_error ''exact transition config hash changed'')) (\<lambda>_. pret r))))
         (drop_worker W i)) (\<lambda>r t. sim_inv t \<and> xs_pending t = Some action) (\<lambda>_. sim_inv) s" for i
      unfolding wp_on_any_error wp_pbind wp_pget wp_pguard wp_pret
      by (rule on_client_any) (use s Some in \<open>auto intro!: drop_worker_inv\<close>)
    show ?thesis
      unfolding receive_with_def wp_pbind [of "pget _"] wp_pget Some option.case
        wp_pbind [of require_open] wp_require_open wp_pbind [of "on_any_error _ _"]
        wp_pbind [of "pmod _"] wp_pmod wp_pret
      by (auto simp: s split: option.split intro!: wp_mono [OF body] keep accept_inv)
  qed
qed

lemma decoded_actions:
  "decode_actions n payload offset = Inr as \<Longrightarrow> offset + STEP_SIZE * n \<le> length payload \<Longrightarrow>
     list_all valid_action as \<and> length as = n \<and> concat as = take (STEP_SIZE * n) (drop offset payload)"
proof (induction n payload offset arbitrary: "as" rule: decode_actions.induct)
  case (2 n payload offset)
  let ?a = "take STEP_SIZE (drop offset payload)"
  obtain rest where r: "decode_actions n payload (offset + STEP_SIZE) = Inr rest" "as = ?a # rest"
    and ok: "\<not> (3 < unpack STEP_REQUEST ?a ! 0 \<or> 0xFFFFFFFF < unpack STEP_REQUEST ?a ! 3 \<or>
        unpack STEP_REQUEST ?a ! 4 \<noteq> 0)"
    using 2(2) by (auto simp: Let_def rbind_Inr split: if_splits)
  have l: "offset + STEP_SIZE + STEP_SIZE * n \<le> length payload" using 2(3) by simp
  have ih: "list_all valid_action rest" "length rest = n"
    "concat rest = take (STEP_SIZE * n) (drop (offset + STEP_SIZE) payload)"
    using 2(1) [OF refl refl ok r(1) l] by simp_all
  have "valid_action ?a" using ok l by (auto simp: valid_action_def)
  with r(2) ih show ?case by (simp add: take_add drop_drop [symmetric] add.commute del: drop_drop)
qed simp

lemma unpack_U8_nonneg: "0 \<le> unpack SNAPSHOT_PREFIX bs ! 5" "0 \<le> unpack SNAPSHOT_PREFIX bs ! 6"
  by (simp_all add: SNAPSHOT_PREFIX_def)

lemma decode_snapshot_wp:
  "wp (decode_snapshot W snapshot)
     (\<lambda>(seed, actions) t. t = s \<and> 0 \<le> seed \<and> seed \<le> UINT32 \<and> list_all valid_action actions)
     (\<lambda>_ t. t = s) s"
proof -
  let ?n = "length snapshot - SNAPSHOT_CHECKSUM_SIZE"
  let ?p = "take ?n snapshot"
  let ?v = "unpack SNAPSHOT_PREFIX ?p"
  have "list_all valid_action as"
    if "decode_actions (nat (?v ! 6)) ?p SNAPSHOT_PREFIX_SIZE = Inr as"
      "int SNAPSHOT_PREFIX_SIZE + ?v ! 6 * int STEP_SIZE = int (length ?p)" for as
  proof -
    have "int (SNAPSHOT_PREFIX_SIZE + STEP_SIZE * nat (?v ! 6)) = int (length ?p)"
      using that(2) unpack_U8_nonneg(2) [of ?p] by (simp add: mult.commute)
    then have "SNAPSHOT_PREFIX_SIZE + STEP_SIZE * nat (?v ! 6) \<le> length ?p" by linarith
    with decoded_actions [OF that(1)] show ?thesis by blast
  qed
  then show ?thesis
    using unpack_U8_nonneg(1) [of ?p]
    by (auto simp: decode_snapshot_def wp_simps Let_def UINT32_def split: option.split sum.split)
qed

lemma foldl_append: "foldl (@) h xs = h @ concat xs"
  by (induction xs arbitrary: h) simp_all

lemma restore_inv: "keeps sim_inv (restore_state_typed W snapshot)"
proof (rule keeps_from_wp)
  fix s assume s: "sim_inv s"
  have nock: "keeps sim_inv (require_no_checkpoints op)" for op by (intro keeps_intros) simp
  have spawn: "keeps sim_inv (spawn_matching W)" by (intro keeps_intros) simp
  have run: "keeps sim_inv (on_any_error
       (pbind (on_client W candidate (\<lambda>V. client_reset V (NumInt seed))) (\<lambda>obs.
        replay W candidate actions obs)) (on_client W candidate client_close))" for candidate seed actions
    by (intro keeps_intros) simp_all
  have fin: "keeps sim_inv (pbind (on_client W previous client_close) (\<lambda>_. pret (obs :: exact_observation)))"
    for previous obs by (intro keeps_intros) simp
  have commit: "sim_inv (restore_commit candidate seed actions obs t)"
    if "0 \<le> seed" "seed \<le> UINT32" "list_all valid_action actions" for candidate seed actions obs t
    using that by (simp add: sim_inv_def restore_commit_def foldl_append)
  show "wp (restore_state_typed W snapshot) (\<lambda>_. sim_inv) (\<lambda>_. sim_inv) s"
    unfolding restore_state_typed_def wp_pbind [of "decode_snapshot W snapshot"]
    apply (rule wp_mono [OF decode_snapshot_wp])
     apply (clarsimp simp only: prod.case split: prod.splits)
     apply (subst wp_pbind, rule keeps_post [OF nock], rule s)
      apply (subst wp_pbind, rule keeps_post [OF spawn], assumption)
       apply (subst wp_pbind, rule keeps_post [OF run], assumption)
        apply (auto simp: wp_pbind [of require_open] wp_require_open wp_pbind [of "pmod _"] wp_pmod s
          intro!: keeps_wp [OF fin] commit split: option.split)
    done
qed

lemma receive_ops_inv:
  "keeps sim_inv (receive_step_typed W)" "keeps sim_inv (receive_step_raw W)"
  "keeps sim_inv (receive_step_padded_raw W)"
  unfolding receive_step_typed_def receive_step_raw_def receive_step_padded_raw_def
  by (intro receive_inv keeps_pbind keeps_prod keeps_pret; simp split: prod.split)+

lemma other_ops_inv:
  "keeps sim_inv (fetch_padded_events_raw W g n)" "keeps sim_inv observation_typed"
  "keeps sim_inv (state_hash W)" "keeps sim_inv (clone_state W)" "keeps sim_inv (fast_checkpoint W)"
  "keeps sim_inv (checkpoint_close W i)" "keeps sim_inv (library_provenance_now W)"
  unfolding fetch_padded_events_raw_def observation_typed_def state_hash_def clone_state_def
    fast_checkpoint_def checkpoint_close_def close_ckpt_at_def library_provenance_now_def
  by (intro keeps_intros; simp)+

lemma sim_close_inv: "keeps sim_inv (sim_close W)"
  unfolding sim_close_def
  by (intro keeps_intros) (auto simp: sim_inv_def split: option.splits)

section \<open>Any sequence of calls\<close>

datatype sim_op =
    SoReset wire_num | SoSend bool wire_num wire_num wire_num wire_num
  | SoReceiveTyped | SoReceiveRaw | SoReceivePadded | SoFetch wire_num wire_num
  | SoObserve | SoHash | SoClone | SoRestore "byte list" | SoCheckpoint | SoCheckpointClose nat
  | SoProvenance | SoClose

fun sim_do :: "sim_world \<Rightarrow> exact_sim \<Rightarrow> sim_op \<Rightarrow> exact_sim" where
  "sim_do W s (SoReset seed) = final (reset_typed W seed) s"
| "sim_do W s (SoSend padded k x y w) = final (send_step_request W padded k x y w) s"
| "sim_do W s SoReceiveTyped = final (receive_step_typed W) s"
| "sim_do W s SoReceiveRaw = final (receive_step_raw W) s"
| "sim_do W s SoReceivePadded = final (receive_step_padded_raw W) s"
| "sim_do W s (SoFetch g n) = final (fetch_padded_events_raw W g n) s"
| "sim_do W s SoObserve = final observation_typed s"
| "sim_do W s SoHash = final (state_hash W) s"
| "sim_do W s SoClone = final (clone_state W) s"
| "sim_do W s (SoRestore snapshot) = final (restore_state_typed W snapshot) s"
| "sim_do W s SoCheckpoint = final (fast_checkpoint W) s"
| "sim_do W s (SoCheckpointClose i) = final (checkpoint_close W i) s"
| "sim_do W s SoProvenance = final (library_provenance_now W) s"
| "sim_do W s SoClose = final (sim_close W) s"

lemma sim_do_inv: "sim_inv s \<Longrightarrow> sim_inv (sim_do W s op)"
  by (cases op)
    (auto intro!: keeps_final reset_inv send_inv receive_ops_inv other_ops_inv restore_inv sim_close_inv)

interpretation simulator: op_machine "sim_do W" sim_inv for W
  by unfold_locales (rule sim_do_inv)

section \<open>Snapshot bytes\<close>

definition snapshot_prefix :: "int \<Rightarrow> int \<Rightarrow> nat \<Rightarrow> byte list" where
  "snapshot_prefix h seed n = pack SNAPSHOT_PREFIX [SNAPSHOT_MAGIC, SNAPSHOT_SCHEMA, h, PROTOCOL_VERSION, 0, seed, int n]"

lemma snapshot_prefix_length [simp]: "length (snapshot_prefix h seed n) = 40"
  unfolding snapshot_prefix_def by (subst pack_length) (simp_all add: SNAPSHOT_PREFIX_def fmt_size_def)

lemma snapshot_prefix_unpack:
  assumes "0 \<le> h" "h < 18446744073709551616" "0 \<le> seed" "seed \<le> UINT32" "n < 18446744073709551616"
  shows "unpack SNAPSHOT_PREFIX (snapshot_prefix h seed n @ rest) =
    [SNAPSHOT_MAGIC, SNAPSHOT_SCHEMA, h, PROTOCOL_VERSION, 0, seed, int n]"
  unfolding snapshot_prefix_def
proof (rule unpack_pack)
  show "list_all2 field_ok SNAPSHOT_PREFIX [SNAPSHOT_MAGIC, SNAPSHOT_SCHEMA, h, PROTOCOL_VERSION, 0, seed, int n]"
    using assms by (simp add: SNAPSHOT_PREFIX_def SNAPSHOT_MAGIC_def SNAPSHOT_SCHEMA_def PROTOCOL_VERSION_def UINT32_def)
qed

lemma snapshot_bytes_alt:
  "snapshot_bytes W h identity seed actions =
     (let p = snapshot_prefix h seed (length actions) @ identity @ concat actions in p @ sw_sha256 W p)"
  by (simp add: snapshot_bytes_def snapshot_prefix_def)

lemma concat_length: "list_all valid_action xs \<Longrightarrow> length (concat xs) = STEP_SIZE * length xs"
  by (induction xs) (simp_all add: valid_action_def)

lemma decode_concat:
  "list_all valid_action xs \<Longrightarrow> drop offset payload = concat xs @ rest \<Longrightarrow>
     decode_actions (length xs) payload offset = Inr xs"
proof (induction xs arbitrary: offset)
  case (Cons a xs)
  then have a: "valid_action a" and t: "take STEP_SIZE (drop offset payload) = a"
    by (simp_all add: valid_action_def)
  have d: "drop (offset + STEP_SIZE) payload = concat xs @ rest"
    using arg_cong [OF Cons.prems(2), of "drop STEP_SIZE"] a
    by (simp add: valid_action_def add.commute)
  show ?case using Cons.IH [OF _ d] Cons.prems(1) a by (simp add: t valid_action_def Let_def)
qed simp

text \<open>The digest has the length the format reserves for it.\<close>

definition digest_32 :: "sim_world \<Rightarrow> bool" where
  "digest_32 W \<longleftrightarrow> (\<forall>b. length (sw_sha256 W b) = 32)"

definition sim_open :: "exact_sim \<Rightarrow> bool" where
  "sim_open s \<longleftrightarrow> (\<exists>i. xs_client s = Some i \<and> \<not> xc_closed (xs_clients s ! i))"

definition uint64 :: "int \<Rightarrow> bool" where
  "uint64 n \<longleftrightarrow> 0 \<le> n \<and> n < 18446744073709551616"

lemma decode_snapshot_bytes:
  assumes w: "digest_32 W" and i: "length (xs_identity s) = 32" and o: "sim_open s"
    and h: "uint64 (xs_config_hash s)" and seed: "0 \<le> seed" "seed \<le> UINT32"
    and a: "list_all valid_action actions" "uint64 (int (length actions))"
  shows "decode_snapshot W (snapshot_bytes W (xs_config_hash s) (xs_identity s) seed actions) s =
    (Inr (seed, actions), s)"
proof -
  let ?p = "snapshot_prefix (xs_config_hash s) seed (length actions) @ xs_identity s @ concat actions"
  have len: "length (sw_sha256 W ?p) = 32" using w by (simp add: digest_32_def)
  have v: "unpack SNAPSHOT_PREFIX ?p =
      [SNAPSHOT_MAGIC, SNAPSHOT_SCHEMA, xs_config_hash s, PROTOCOL_VERSION, 0, seed, int (length actions)]"
    by (rule snapshot_prefix_unpack) (use h seed a in \<open>simp_all add: uint64_def\<close>)
  have pl: "length ?p = 72 + STEP_SIZE * length actions"
    using i concat_length [OF a(1)] by simp
  have acts: "decode_actions (length actions) ?p 72 = Inr actions"
    by (rule decode_concat [OF a(1), of _ _ "[]"]) (use i in simp)
  obtain c where c: "xs_client s = Some c" "\<not> xc_closed (xs_clients s ! c)"
    using o by (auto simp: sim_open_def)
  have r: "require_open s = (Inr c, s)"
    by (simp add: require_open_def pbind_def pget_def c pret_def)
  show ?thesis
    unfolding snapshot_bytes_alt Let_def decode_snapshot_def
    using len v pl acts i seed c
    by (simp add: pbind_def pguard_def pret_def pget_def plift_def SNAPSHOT_CHECKSUM_SIZE_def
        SNAPSHOT_PREFIX_SIZE_def r UINT32_def)
qed

lemma snapshot_prefix_values:
  assumes "40 \<le> length p" "unpack SNAPSHOT_PREFIX p ! 0 = SNAPSHOT_MAGIC"
    "unpack SNAPSHOT_PREFIX p ! 1 = SNAPSHOT_SCHEMA" "unpack SNAPSHOT_PREFIX p ! 2 = h"
    "unpack SNAPSHOT_PREFIX p ! 3 = PROTOCOL_VERSION" "unpack SNAPSHOT_PREFIX p ! 4 = 0"
    "unpack SNAPSHOT_PREFIX p ! 5 = seed" "unpack SNAPSHOT_PREFIX p ! 6 = int n"
  shows "take 40 p = snapshot_prefix h seed n"
proof -
  have "unpack SNAPSHOT_PREFIX (take 40 p) = unpack SNAPSHOT_PREFIX p"
    by (simp add: SNAPSHOT_PREFIX_def drop_take)
  moreover have "unpack SNAPSHOT_PREFIX p = [SNAPSHOT_MAGIC, SNAPSHOT_SCHEMA, h, PROTOCOL_VERSION, 0, seed, int n]"
    using assms(2-8) by (auto simp: SNAPSHOT_PREFIX_def)
  moreover have "pack SNAPSHOT_PREFIX (unpack SNAPSHOT_PREFIX (take 40 p)) = take 40 p"
    by (rule pack_unpack) (use assms(1) in \<open>simp add: SNAPSHOT_PREFIX_def fmt_size_def\<close>)
  ultimately show ?thesis by (simp add: snapshot_prefix_def)
qed

lemma unpack_uint64:
  "uint64 (unpack SNAPSHOT_PREFIX bs ! 2)" "uint64 (unpack SNAPSHOT_PREFIX bs ! 6)"
proof -
  have "le_dec (take 8 xs) < 18446744073709551616" for xs
  proof -
    have "le_dec (take 8 xs) < 256 ^ length (take 8 xs)" by (rule le_dec_less)
    also have "\<dots> \<le> 256 ^ 8" by (rule power_increasing) simp_all
    finally show ?thesis by simp
  qed
  then show "uint64 (unpack SNAPSHOT_PREFIX bs ! 2)" "uint64 (unpack SNAPSHOT_PREFIX bs ! 6)"
    by (simp_all add: SNAPSHOT_PREFIX_def uint64_def)
qed

lemma split_72: "xs = take 40 xs @ take 32 (drop 40 xs) @ drop 72 xs"
proof -
  have "drop 40 xs = take 32 (drop 40 xs) @ drop 32 (drop 40 xs)"
    by (rule append_take_drop_id [symmetric])
  then have "drop 40 xs = take 32 (drop 40 xs) @ drop 72 xs" by (simp only: drop_drop) simp
  then show ?thesis by (metis append_take_drop_id)
qed

text \<open>Decoding loses nothing: what it accepts is the encoding of what it returns.\<close>

lemma decoded_snapshot:
  assumes "decode_snapshot W snapshot s = (Inr (seed, actions), t)"
  shows "snapshot = snapshot_bytes W (xs_config_hash s) (xs_identity s) seed actions \<and> t = s \<and>
    0 \<le> seed \<and> seed \<le> UINT32 \<and> list_all valid_action actions \<and>
    uint64 (xs_config_hash s) \<and> uint64 (int (length actions)) \<and> length (xs_identity s) = 32"
proof -
  let ?n = "length snapshot - SNAPSHOT_CHECKSUM_SIZE"
  let ?p = "take ?n snapshot"
  let ?v = "unpack SNAPSHOT_PREFIX ?p"
  have "wp (decode_snapshot W snapshot)
     (\<lambda>(sd, as) u. u = s \<and> 72 + 32 \<le> length snapshot \<and> sw_sha256 W ?p = drop ?n snapshot \<and>
        ?v ! 0 = SNAPSHOT_MAGIC \<and> ?v ! 1 = SNAPSHOT_SCHEMA \<and> ?v ! 2 = xs_config_hash s \<and>
        ?v ! 3 = PROTOCOL_VERSION \<and> ?v ! 4 = 0 \<and> ?v ! 5 = sd \<and> sd \<le> UINT32 \<and>
        take 32 (drop 40 ?p) = xs_identity s \<and> 72 + ?v ! 6 * int STEP_SIZE = int (length ?p) \<and>
        decode_actions (nat (?v ! 6)) ?p 72 = Inr as) (\<lambda>_ _. True) s"
    by (auto simp: decode_snapshot_def wp_simps Let_def UINT32_def SNAPSHOT_PREFIX_SIZE_def
        SNAPSHOT_CHECKSUM_SIZE_def split: option.split sum.split)
  from wp_resultD [OF this assms] have t: "t = s" and l: "72 + 32 \<le> length snapshot"
    and sha: "sw_sha256 W ?p = drop ?n snapshot" and v0: "?v ! 0 = SNAPSHOT_MAGIC"
    and v1: "?v ! 1 = SNAPSHOT_SCHEMA" and v2: "?v ! 2 = xs_config_hash s"
    and v3: "?v ! 3 = PROTOCOL_VERSION" and v4: "?v ! 4 = 0" and v5: "?v ! 5 = seed"
    and sd: "seed \<le> UINT32" and ident: "take 32 (drop 40 ?p) = xs_identity s"
    and count: "72 + ?v ! 6 * int STEP_SIZE = int (length ?p)"
    and acts: "decode_actions (nat (?v ! 6)) ?p 72 = Inr actions"
    by simp_all
  let ?k = "nat (?v ! 6)"
  have k: "?v ! 6 = int ?k" using unpack_U8_nonneg(2) [of ?p] by simp
  have "int (72 + STEP_SIZE * ?k) = int (length ?p)"
    using count k by (simp add: mult.commute)
  then have pl: "length ?p = 72 + STEP_SIZE * ?k" by linarith
  have d: "list_all valid_action actions" "length actions = ?k" "concat actions = drop 72 ?p"
    using decoded_actions [OF acts] pl by auto
  have pre: "take 40 ?p = snapshot_prefix (xs_config_hash s) seed (length actions)"
    by (rule snapshot_prefix_values) (use pl v0 v1 v2 v3 v4 v5 k d(2) in simp_all)
  have "?p = take 40 ?p @ take 32 (drop 40 ?p) @ drop 72 ?p"
    by (rule split_72)
  with pre ident d(3) have p: "?p = snapshot_prefix (xs_config_hash s) seed (length actions) @ xs_identity s @ concat actions"
    by simp
  have "snapshot = ?p @ sw_sha256 W ?p" using sha by simp
  then have "snapshot = snapshot_bytes W (xs_config_hash s) (xs_identity s) seed actions"
    unfolding snapshot_bytes_alt Let_def p [symmetric] .
  moreover have "0 \<le> seed" using unpack_U8_nonneg(1) [of ?p] v5 by simp
  moreover have "uint64 (xs_config_hash s)" "uint64 (int (length actions))"
    using unpack_uint64 [of ?p] v2 k d(2) by simp_all
  moreover have "length (xs_identity s) = 32"
    using arg_cong [OF ident, of length] pl by simp
  ultimately show ?thesis using t sd d(1) by simp
qed

lemma snapshot_bytes_inject:
  assumes e: "snapshot_bytes W h1 id1 sd1 as1 = snapshot_bytes W h2 id2 sd2 as2"
    and w: "digest_32 W"
    and r1: "uint64 h1" "0 \<le> sd1" "sd1 \<le> UINT32" "uint64 (int (length as1))" "length id1 = 32" "list_all valid_action as1"
    and r2: "uint64 h2" "0 \<le> sd2" "sd2 \<le> UINT32" "uint64 (int (length as2))" "length id2 = 32" "list_all valid_action as2"
  shows "h1 = h2 \<and> id1 = id2 \<and> sd1 = sd2 \<and> as1 = as2"
proof -
  let ?p = "\<lambda>h i sd as. snapshot_prefix h sd (length as) @ i @ concat as"
  have "?p h1 id1 sd1 as1 = ?p h2 id2 sd2 as2"
    using e w unfolding snapshot_bytes_alt Let_def digest_32_def
    by (subst (asm) append_eq_append_conv) (simp, elim conjE)
  note same = this
  have u1: "unpack SNAPSHOT_PREFIX (?p h1 id1 sd1 as1) =
      [SNAPSHOT_MAGIC, SNAPSHOT_SCHEMA, h1, PROTOCOL_VERSION, 0, sd1, int (length as1)]"
    by (rule snapshot_prefix_unpack) (use r1 in \<open>simp_all add: uint64_def\<close>)
  have u2: "unpack SNAPSHOT_PREFIX (?p h2 id2 sd2 as2) =
      [SNAPSHOT_MAGIC, SNAPSHOT_SCHEMA, h2, PROTOCOL_VERSION, 0, sd2, int (length as2)]"
    by (rule snapshot_prefix_unpack) (use r2 in \<open>simp_all add: uint64_def\<close>)
  have h: "h1 = h2" "sd1 = sd2" "length as1 = length as2"
    using u1 [unfolded same] unfolding u2 by simp_all
  have p: "id1 @ concat as1 = id2 @ concat as2"
    using same [unfolded h] unfolding same_append_eq .
  from p r1(5) r2(5) have i: "id1 = id2" and c: "concat as1 = concat as2" by simp_all
  moreover have "as1 = as2"
  proof -
    have d1: "decode_actions (length as1) (concat as1) 0 = Inr as1"
      by (rule decode_concat [OF r1(6), of _ _ "[]"]) simp
    have d2: "decode_actions (length as2) (concat as2) 0 = Inr as2"
      by (rule decode_concat [OF r2(6), of _ _ "[]"]) simp
    have "Inr as1 = (Inr as2 :: byte list list res)"
      using d1 unfolding h(3) c d2 by (rule sym)
    then show ?thesis by simp
  qed
  ultimately show ?thesis using h by simp
qed

end
