(* ===== verification/Exact_Sim_Trans.thy ===== *)
theory Exact_Sim_Trans
  imports Exact_Sim_Inv
begin

text \<open>
  What a failing operation of the simulator leaves behind: reset and restore are transactions on
  the fields the owner sees, a simulator that lost its worker never gets one back, and the raw
  and typed receives accept the same responses.
\<close>

section \<open>Transactions\<close>

text \<open>Nothing the owner sees has changed, and no worker it had before was called.\<close>

definition untouched :: "exact_sim \<Rightarrow> exact_sim \<Rightarrow> bool" where
  "untouched s t \<longleftrightarrow> same_world s t \<and> length (xs_clients s) \<le> length (xs_clients t) \<and>
     take (length (xs_clients s)) (xs_clients t) = xs_clients s"

lemma untouched_refl [simp]: "untouched s s" by (simp add: untouched_def)

lemma untouched_frame [simp]:
  "untouched s (t\<lparr>xs_checkpoints := ks\<rparr>) = untouched s t"
  "untouched s t \<Longrightarrow> untouched s (t\<lparr>xs_clients := xs_clients t @ cs\<rparr>)"
  by (auto simp: untouched_def)

lemma untouched_world: "untouched s t \<Longrightarrow> same_world s t" by (simp add: untouched_def)

lemma fresh_client_keeps:
  "length (xs_clients s) \<le> i \<Longrightarrow> keeps (untouched s) (on_client W i m)"
  by (auto simp: keeps_def on_client_def untouched_def split: prod.split)

lemma spawn_client_wp:
  "wp (spawn_client W) (\<lambda>i t. i = length (xs_clients s) \<and> untouched s t) (\<lambda>_. untouched s) s"
proof (cases "sw_launch W (length (xs_clients s))")
  case (Inl e)
  then show ?thesis by (simp add: spawn_client_def wp_simps)
next
  case (Inr pid)
  show ?thesis
    unfolding spawn_client_def wp_pbind [of "pget _"] wp_pget Inr sum.case wp_pbind [of "pmod _"] wp_pmod
      wp_pbind [of "on_client _ _ _"] wp_pret
    by (rule keeps_post [OF fresh_client_keeps]) simp_all
qed

lemma spawn_matching_wp:
  "wp (spawn_matching W) (\<lambda>i t. i = length (xs_clients s) \<and> untouched s t) (\<lambda>_. untouched s) s"
  unfolding spawn_matching_def wp_pbind [of "spawn_client W"]
proof (rule wp_mono [OF spawn_client_wp], goal_cases)
  case (1 i t)
  have c: "wp (on_client W i m) (\<lambda>_. untouched s) (\<lambda>_. untouched s) t" for m :: "worker_env \<Rightarrow> (exact_client, unit) py"
    by (rule wp_keeps [OF _ fresh_client_keeps]) (use 1 in auto)
  have c': "wp (pbind (on_client W i client_close) (\<lambda>_. praise e)) Q (\<lambda>_. untouched s) t" for e Q
    unfolding wp_pbind wp_praise by (rule wp_mono [OF c]) simp_all
  show ?case
    using 1 c'
    by (auto simp: wp_pbind [of "pget _"] wp_pget wp_pbind [of "if _ then _ else _"] wp_if wp_pret wp_pbind [of "plift _"]
        wp_plift split: sum.split)
qed

text \<open>A reset or a restore that raises has changed nothing, unless the exception came from
  closing the replaced worker, after the new world was taken.\<close>

lemma reset_failure:
  "wp (reset_typed W seed) (\<lambda>_ _. True) (\<lambda>_ t. same_world s t \<and> (xs_seed s \<noteq> None \<longrightarrow> untouched s t) \<or>
     xs_seed s \<noteq> None \<and> (\<exists>obs. same_world (reset_commit (Some (length (xs_clients s))) (int_of_num seed) obs s) t)) s"
proof -
  let ?E = "\<lambda>t. same_world s t \<and> (xs_seed s \<noteq> None \<longrightarrow> untouched s t) \<or>
     xs_seed s \<noteq> None \<and> (\<exists>obs. same_world (reset_commit (Some (length (xs_clients s))) (int_of_num seed) obs s) t)"
  let ?u = "\<lambda>t. untouched s t \<and> length (xs_clients t) = length (xs_clients s)"
  have nock: "wp (require_no_checkpoints ''reset'') (\<lambda>_. ?u) (\<lambda>_. ?u) s"
    by (simp add: require_no_checkpoints_def wp_simps)
  have first: "wp (pbind (on_client W i (\<lambda>V. client_reset V seed)) (\<lambda>obs.
       pbind (pmod (reset_commit None (int_of_num seed) obs)) (\<lambda>_. pret obs))) (\<lambda>_ _. True) (\<lambda>_. ?E) t"
    if "same_world s t" "xs_seed s = None" for i t
    unfolding wp_pbind wp_pmod wp_pret by (rule on_client_any) (use that in auto)
  have commit: "same_world (reset_commit c n obs s) (reset_commit c n obs t)" if "untouched s t" for c n obs t
    using that by (simp add: untouched_def same_world_def reset_commit_def split: option.split)
  have second: "wp (pbind (spawn_matching W) (\<lambda>candidate.
       pbind (on_any_error (on_client W candidate (\<lambda>V. client_reset V seed))
                (on_client W candidate client_close)) (\<lambda>obs.
       pbind (pmod (reset_commit (Some candidate) (int_of_num seed) obs)) (\<lambda>_.
       pbind (on_client W i client_close) (\<lambda>_. pret obs))))) (\<lambda>_ _. True) (\<lambda>_. ?E) t"
    if t: "?u t" and old: "xs_seed s \<noteq> None" for i t
    unfolding wp_pbind [of "spawn_matching W"]
  proof (rule wp_mono [OF spawn_matching_wp], goal_cases)
    case (1 c v)
    then have c: "c = length (xs_clients s)" and v: "untouched s v"
      using t by (auto simp: untouched_def same_world_def)
    have k: "keeps (untouched s) (on_any_error (on_client W c (\<lambda>V. client_reset V seed)) (on_client W c client_close))"
      by (intro keeps_intros fresh_client_keeps) (simp_all add: c)
    show ?case
      unfolding wp_pbind [of "on_any_error _ _"]
    proof (rule keeps_post [OF k v], goal_cases)
      case (1 obs w)
      have "same_world (reset_commit (Some (length (xs_clients s))) (int_of_num seed) obs s)
          (reset_commit (Some c) (int_of_num seed) obs w)"
        using commit [OF 1] c by simp
      then show ?case
        unfolding wp_pbind [of "pmod _"] wp_pmod wp_pbind [of "on_client _ _ _"] wp_pret
        by (intro on_client_any) (use old in auto)
    next
      case (2 e w)
      then show ?case by (auto dest: untouched_world)
    qed
  next
    case (2 e v)
    then have "untouched s v" using t by (auto simp: untouched_def same_world_def)
    then show ?case by (auto dest: untouched_world)
  qed
  show ?thesis
  proof (cases "xs_seed s")
    case None
    then show ?thesis
      unfolding reset_typed_def wp_pbind [of require_open] wp_require_open
      by (auto simp: wp_pbind [of "require_no_checkpoints _"] wp_pbind [of "pget _"] wp_pget wp_if untouched_def
          same_world_def [of s, symmetric] split: option.split
          intro!: wp_mono [OF nock] wp_mono [OF first])
        (auto simp: same_world_def)
  next
    case (Some n)
    have "xs_seed t = Some n" if "untouched s t" for t using that Some by (simp add: untouched_def same_world_def)
    with Some show ?thesis
      unfolding reset_typed_def wp_pbind [of require_open] wp_require_open
      by (auto simp: wp_pbind [of "require_no_checkpoints _"] wp_pbind [of "pget _"] wp_pget wp_if
          split: option.split intro!: wp_mono [OF nock] wp_mono [OF second] dest: untouched_world)
  qed
qed

lemma decode_snapshot_state: "wp (decode_snapshot W snapshot) (\<lambda>x t. t = s \<and> decode_snapshot W snapshot s = (Inr x, s)) (\<lambda>_ t. t = s) s"
proof (rule wpI)
  fix x t assume "decode_snapshot W snapshot s = (Inr x, t)"
  with wp_resultD [OF decode_snapshot_wp this] show "t = s \<and> decode_snapshot W snapshot s = (Inr x, s)"
    by (auto split: prod.splits)
next
  fix e t assume "decode_snapshot W snapshot s = (Inl e, t)"
  then show "t = s" by (rule wp_raiseD [OF decode_snapshot_wp])
qed

definition restored :: "sim_world \<Rightarrow> byte list \<Rightarrow> exact_sim \<Rightarrow> exact_sim \<Rightarrow> bool" where
  "restored W snapshot s t \<longleftrightarrow> (\<exists>seed actions obs. decode_snapshot W snapshot s = (Inr (seed, actions), s) \<and>
     same_world (restore_commit (length (xs_clients s)) seed actions obs s) t)"

lemma restore_wp:
  "wp (restore_state_typed W snapshot) (\<lambda>_. restored W snapshot s)
     (\<lambda>_ t. untouched s t \<or> restored W snapshot s t) s"
proof -
  let ?u = "\<lambda>t. untouched s t \<and> length (xs_clients t) = length (xs_clients s)"
  have nock: "wp (require_no_checkpoints op) (\<lambda>_. ?u) (\<lambda>_. ?u) s" for op
    by (simp add: require_no_checkpoints_def wp_simps)
  have commit: "same_world (restore_commit c n as obs s) (restore_commit c n as obs t)"
    if "untouched s t" for c n "as" obs t
    using that by (simp add: untouched_def same_world_def restore_commit_def)
  have main: "wp (pbind (spawn_matching W) (\<lambda>candidate.
     pbind (on_any_error
       (pbind (on_client W candidate (\<lambda>V. client_reset V (NumInt seed))) (\<lambda>obs.
        replay W candidate actions obs))
       (on_client W candidate client_close)) (\<lambda>obs.
     pbind require_open (\<lambda>previous.
     pbind (pmod (restore_commit candidate seed actions obs)) (\<lambda>_.
     pbind (on_client W previous client_close) (\<lambda>_. pret obs))))))
     (\<lambda>_. restored W snapshot s) (\<lambda>_ t. untouched s t \<or> restored W snapshot s t) t"
    if t: "?u t" and d: "decode_snapshot W snapshot s = (Inr (seed, actions), s)" for seed actions t
    unfolding wp_pbind [of "spawn_matching W"]
  proof (rule wp_mono [OF spawn_matching_wp], goal_cases)
    case (1 c v)
    then have c: "c = length (xs_clients s)" and v: "untouched s v"
      using t by (auto simp: untouched_def same_world_def)
    have r: "keeps (untouched s) (replay W c as obs)" for "as" obs
      by (induction "as" arbitrary: obs)
        (auto simp: Let_def c intro!: keeps_pret keeps_pbind fresh_client_keeps)
    have k: "keeps (untouched s) (on_any_error
       (pbind (on_client W c (\<lambda>V. client_reset V (NumInt seed))) (\<lambda>obs. replay W c actions obs))
       (on_client W c client_close))"
      by (intro keeps_on_any_error keeps_pbind fresh_client_keeps r) (simp_all add: c)
    show ?case
      unfolding wp_pbind [of "on_any_error _ _"]
    proof (rule keeps_post [OF k v], goal_cases)
      case (1 obs w)
      have "restored W snapshot s (restore_commit c seed actions obs w)"
        unfolding restored_def using commit [OF 1] d c by blast
      then have "restored W snapshot s ((restore_commit c seed actions obs w)\<lparr>xs_clients := cs\<rparr>)" for cs
        by (simp add: restored_def)
      then show ?case
        unfolding wp_pbind [of require_open] wp_require_open wp_pbind [of "pmod _"] wp_pmod
          wp_pbind [of "on_client _ _ _"] wp_pret
        using 1 by (auto split: option.split intro!: on_client_any)
    qed simp
  next
    case (2 e v)
    then show ?case using t by (auto simp: untouched_def same_world_def)
  qed
  show ?thesis
    unfolding restore_state_typed_def wp_pbind [of "decode_snapshot W snapshot"]
    apply (rule wp_mono [OF decode_snapshot_state])
     apply (clarsimp simp only: split: prod.splits)
     apply (subst wp_pbind, rule wp_mono [OF nock])
      apply (rule main)
       apply (auto)
    done
qed

text \<open>A simulator without a worker stays without one, and keeps its seed and its log.\<close>

definition workerless :: "int option \<Rightarrow> byte list list \<Rightarrow> exact_sim \<Rightarrow> bool" where
  "workerless seed actions s \<longleftrightarrow> xs_client s = None \<and> xs_seed s = seed \<and> xs_actions s = actions"

lemma workerless_frame [simp]:
  "workerless n a (s\<lparr>xs_clients := cs\<rparr>) = workerless n a s" "workerless n a (s\<lparr>xs_ckpts := ks\<rparr>) = workerless n a s"
  by (simp_all add: workerless_def)

lemma wp_no_worker: "xs_client s = None \<Longrightarrow> wp require_open Q E s = E (native_error ''exact simulator is closed'') s"
  by (simp add: wp_require_open)

lemma receive_workerless:
  "workerless n a s \<Longrightarrow> wp (receive_with W read h k) (\<lambda>_ _. False) (\<lambda>_. workerless n a) s"
  by (auto simp: receive_with_def wp_pbind wp_pget wp_no_worker workerless_def wp_praise split: option.split)

lemma sim_do_workerless: "workerless n a s \<Longrightarrow> workerless n a (sim_do W s op)"
proof -
  assume w: "workerless n a s"
  then have c: "xs_client s = None" by (simp add: workerless_def)
  note r = receive_workerless [OF w]
  have ck: "workerless n a (final (checkpoint_close W i) s)" for i
    by (rule keeps_final [of "workerless n a", OF _ w], unfold checkpoint_close_def close_ckpt_at_def, intro keeps_intros) simp_all
  show ?thesis
    using w ck
    by (cases op; simp add: wp_final [symmetric] reset_typed_def send_step_request_def receive_step_typed_def
        receive_step_raw_def receive_step_padded_raw_def fetch_padded_events_raw_def observation_typed_def
        state_hash_def clone_state_def restore_state_typed_def decode_snapshot_def fast_checkpoint_def
        library_provenance_now_def sim_close_def wp_pbind wp_pget wp_pguard wp_plift wp_pmod wp_praise wp_pret
        wp_no_worker [OF c] c Let_def wp_option wp_mono [OF r] split: option.split)
      (simp_all add: workerless_def)
qed

section \<open>The raw and the typed receive\<close>

lemma on_any_error_Inr: "on_any_error m h s = (Inr x, t) \<longleftrightarrow> m s = (Inr x, t)"
  by (auto simp: on_any_error_def split: prod.splits sum.splits)

lemma receive_with_ok:
  "receive_with W read hash_of keep s = (Inr r, t) \<longleftrightarrow> (\<exists>action i c. xs_pending s = Some action \<and>
     xs_client s = Some i \<and> \<not> xc_closed (xs_clients s ! i) \<and>
     read (sw_worker W i) (xs_clients s ! i) = (Inr r, c) \<and> hash_of r = xs_config_hash s \<and>
     t = keep r (s\<lparr>xs_clients := (xs_clients s)[i := c], xs_pending := None,
       xs_actions := xs_actions s @ [action], xs_hasher := map_option (\<lambda>h. h @ action) (xs_hasher s)\<rparr>))"
  by (auto simp: receive_with_def pbind_def pget_def praise_def require_open_def pret_def pguard_def pmod_def
      on_client_def on_any_error_def split: option.splits prod.splits sum.splits if_splits)

lemma finish_stays_open: "finish_response V opcode c = (Inr p, c') \<Longrightarrow> \<not> xc_closed c'"
  using wp_resultD [OF finish_response_wp] by (fastforce simp: fin_ok_def)

lemma open_after:
  "\<not> xc_closed c \<Longrightarrow> \<not> xc_closed (cs ! i) \<Longrightarrow> \<not> xc_closed (cs[i := c] ! i)"
  by (cases "i < length cs") (simp_all add: list_update_beyond)

end
