(* ===== verification/Exact_Sim_Demo.thy ===== *)
theory Exact_Sim_Demo
  imports Exact_Sim_Trans
begin

text \<open>
  Concrete workers and simulators for the witnesses: a worker that completes the handshake with
  its library captured from /proc, answers a reset with an empty world and a step with a
  transition, and a simulator with one logged action and its snapshot.
\<close>

section \<open>A worker for the witnesses\<close>

definition standing :: "worker_env \<Rightarrow> int \<Rightarrow> byte list \<Rightarrow> exact_client \<Rightarrow> bool" where
  "standing V k pre c \<longleftrightarrow> xc_request_id c = k \<and> xc_pending c = None \<and> \<not> xc_closed c \<and>
     received V (xc_log c) = pre"

definition facts :: "exact_client \<Rightarrow> worker_info option \<times> int \<times> string \<times> library_provenance option" where
  "facts c = (xc_info c, xc_config_hash c, xc_executable_sha256 c, xc_library c)"

lemma demo_exchange:
  assumes "script = pre @ demo_answer opcode (k + 1) content @ rest" "0 \<le> k" "k < 1000"
    "0 \<le> opcode" "opcode < 65536" "length content \<le> 4194300" "standing (demo_worker script) k pre c"
  shows "wp (request (demo_worker script) opcode p) (\<lambda>x t. x = content \<and>
    standing (demo_worker script) (k + 1) (pre @ demo_answer opcode (k + 1) content) t \<and> facts t = facts c)
    (\<lambda>_ _. False) c"
proof -
  have n: "next_request_id k = k + 1" using assms(2,3) by (simp add: next_request_id_def)
  have "keeps (\<lambda>t. facts t = facts c) (request (demo_worker script) opcode p)"
    by (rule begin_keeps_fields) (simp_all add: facts_def)
  then have f: "wp (request (demo_worker script) opcode p) (\<lambda>_ t. facts t = facts c) (\<lambda>_ t. facts t = facts c) c"
    by (rule keeps_wp) simp
  have ok: "wp (request (demo_worker script) opcode p) (\<lambda>x _. x = content) (\<lambda>_ _. False) c"
    by (rule request_ok [OF demo_takes demo_serves])
      (use assms n in \<open>simp_all add: standing_def demo_answer_def del: field_enc.simps\<close>)
  show ?thesis
    by (rule wp_mono [OF wp_conj [OF wp_conj [OF ok f] request_wp]])
      (use assms(7) n in \<open>auto simp: standing_def demo_answer_def\<close>)
qed

lemma demo_scan: "scan_maps [demo_maps_line] [] =
    Inr [((demo_path, ''08:01'', 9), [(''r-xp'', ''00000000'')])]"
  by code_simp

lemma demo_mount: "mount_device_of [''1 0 8:1 / / rw''] demo_path = Inr ''08:01''"
  by code_simp

lemma demo_lower: "map ascii_lower_char ''08:01'' = ''08:01''"
  by code_simp


definition demo_library :: library_provenance where
  "demo_library = \<lparr>lp_path = demo_path, lp_bytes = 0, lp_sha256 = demo_digest,
     lp_identity = (1, 9, 0, 4, 5), lp_mapped_device = ''08:01'', lp_mapped_inode = 9\<rparr>"

lemma demo_env [simp]:
  "we_text (demo_worker script) (XMaps pid # l) = Inr [demo_maps_line]"
  "we_text (demo_worker script) (XMountinfo pid # l) = Inr [''1 0 8:1 / / rw'']"
  "we_stat (demo_worker script) l = Inr (1, 9, 0, 4, 5)" "we_bytes (demo_worker script) l = Inr []"
  "we_path (demo_worker script) l = Inr demo_path" "we_os (demo_worker script) l = Inr ()"
  "we_sha256 (demo_worker script) b = demo_digest" "we_poll (demo_worker script) l = None"
  "we_json (demo_worker script) b = Some (Some (Some 5))"
  by (simp_all add: demo_worker_def)

lemma standing_calls [simp]:
  "standing V k pre (c\<lparr>xc_log := x # xc_log c\<rparr>) = standing V k pre c" if
    "x \<in> {XStatExe, XHashExe, XMaps p, XMountinfo p, XOpenLibrary q, XFstatBefore, XReadLibrary, XFstatAfter,
       XStatLibrary q, XResolve q, XPoll, XWait, XKill, XShutdown, XCloseStream, XCloseConnection, XCloseStderr}"
  using that by (auto simp: standing_def)

lemma standing_fields [simp]:
  "standing V k pre (c\<lparr>xc_info := i\<rparr>) = standing V k pre c"
  "standing V k pre (c\<lparr>xc_config_hash := h\<rparr>) = standing V k pre c"
  "standing V k pre (c\<lparr>xc_library := lib\<rparr>) = standing V k pre c"
  "standing V k pre (c\<lparr>xc_executable_sha256 := d\<rparr>) = standing V k pre c"
  "standing V k pre (c\<lparr>xc_executed_identity := fi\<rparr>) = standing V k pre c"
  "standing V k pre (c\<lparr>xc_entrypoint_count := n\<rparr>) = standing V k pre c"
  "standing V k pre (c\<lparr>xc_target_identity := ti\<rparr>) = standing V k pre c"
  by (simp_all add: standing_def)

lemma demo_mapped:
  "wp (mapped_exact_library (demo_worker script) pid)
     (\<lambda>x t. x = (demo_path, ''08:01'', 9, [(''r-xp'', ''00000000'')]) \<and>
        t = c\<lparr>xc_log := XMountinfo pid # XMaps pid # xc_log c\<rparr>) (\<lambda>_ _. False) c"
  unfolding mapped_exact_library_def mount_device_def
  by (simp add: wp_simps demo_scan demo_mount demo_lower del: scan_maps.simps list.map)
    (simp add: demo_path_def has_prefix_def)

lemma demo_captured:
  assumes "standing (demo_worker script) k pre c"
  shows "wp (capture_mapped_exact_library (demo_worker script) pid (PyStr demo_digest))
     (\<lambda>x t. x = demo_library \<and> standing (demo_worker script) k pre t \<and> xc_info t = xc_info c \<and>
        xc_config_hash t = xc_config_hash c \<and> xc_executable_sha256 t = xc_executable_sha256 c) (\<lambda>_ _. False) c"
proof -
  have m: "wp (mapped_exact_library (demo_worker script) pid) Q E t" if
    "Q (demo_path, ''08:01'', 9, [(''r-xp'', ''00000000'')]) (t\<lparr>xc_log := XMountinfo pid # XMaps pid # xc_log t\<rparr>)" for Q E t
    by (rule wp_mono [OF demo_mapped]) (use that in auto)
  show ?thesis
    unfolding capture_mapped_exact_library_def demo_digest_ok option.case
    apply (subst wp_pbind)
    apply (rule m)
    apply (simp add: wp_simps read_library_def)
    apply (rule m)
    apply (simp add: wp_simps mount_device_def demo_mount demo_lower demo_library_def del: list.map)
    using assms by (simp add: standing_def ascii_lower_char_def less_eq_char_def)
qed


definition hello_pre :: "byte list" where
  "hello_pre = demo_answer OP_HELLO 1 (hello_bytes demo_info) @ demo_answer OP_EXACT_ATTESTATION 2 demo_attestation"

lemma demo_initialize:
  assumes script: "script = hello_pre @ rest" and log: "xc_log c = []"
  shows "wp (initialize_protocol (demo_worker script) None 7 None)
     (\<lambda>_ t. standing (demo_worker script) 2 hello_pre t \<and>
        facts t = (Some demo_info, 5, demo_digest, Some demo_library)) (\<lambda>_ _. False) c"
proof -
  let ?V = "demo_worker script"
  let ?c0 = "c\<lparr>xc_request_id := 0, xc_pending := None, xc_closed := False, xc_last_response_bytes := 0\<rparr>"
  let ?h = "demo_answer OP_HELLO 1 (hello_bytes demo_info)"
  have c0: "standing ?V 0 [] ?c0" by (simp add: standing_def log)
  have hello: "wp (request ?V OP_HELLO []) (\<lambda>x t. x = hello_bytes demo_info \<and> standing ?V 1 ?h t)
      (\<lambda>_ _. False) ?c0"
    by (rule wp_mono [OF demo_exchange [OF _ _ _ _ _ _ c0, where content = "hello_bytes demo_info"
          and rest = "demo_answer OP_EXACT_ATTESTATION 2 demo_attestation @ rest"]])
      (use demo_lengths in \<open>auto simp: script hello_pre_def OP_HELLO_def\<close>)
  have attest: "wp (request ?V OP_EXACT_ATTESTATION []) (\<lambda>x t. x = demo_attestation \<and>
      standing ?V 2 hello_pre t \<and> facts t = facts d) (\<lambda>_ _. False) d" if "standing ?V 1 ?h d" for d
    by (rule wp_mono [OF demo_exchange [OF _ _ _ _ _ _ that, where content = demo_attestation and rest = rest]])
      (use demo_lengths in \<open>auto simp: script hello_pre_def OP_EXACT_ATTESTATION_def\<close>)
  have digest: "text_of (wi_exact_library_sha256 demo_info) = demo_digest"
    using hex_text [OF demo_digest_ok(2)] by (simp add: demo_info_def)
  have exe: "wp (capture_executed_worker ?V) (\<lambda>x t. fst x = demo_digest \<and> standing ?V 2 hello_pre t \<and>
      xc_info t = xc_info d) (\<lambda>_ _. False) d" if "standing ?V 2 hello_pre d" for d
    using that by (simp add: capture_executed_worker_def wp_simps standing_def)
  show ?thesis
    unfolding initialize_protocol_def protocol_body_def client_hello_def capture_identity_def option.case
    apply (simp only: wp_pbind wp_pmod wp_on_any_error wp_reraise wp_plift wp_pguard wp_pret wp_option)
    apply (rule wp_mono [OF hello])
     apply (simp_all add: demo_hello_ok demo_check_ok)
    apply (rule wp_mono [OF attest])
      apply (simp_all add: demo_attestation_ok)
    apply (simp only: wp_pbind wp_pmod wp_pguard wp_pret case_prod_unfold)
    apply (rule wp_mono [OF exe])
      apply (simp_all add: digest)
    apply (rule wp_mono [OF demo_captured])
      apply (simp_all)
    by (auto simp: facts_def demo_library_def demo_info_def)
qed

definition demo_obs_bytes :: "byte list" where
  "demo_obs_bytes = pack OBSERVATION_HEADER (replicate 20 0)"

definition demo_observation :: exact_observation where
  "demo_observation = \<lparr>xo_tick = 0, xo_score = 0, xo_gauge = 0, xo_gauge_max = 0,
     xo_qualifying_clear_count = 0, xo_field_x = 0, xo_field_y = 0, xo_field_width = 0,
     xo_field_height = 0, xo_side_wall_top = 0, xo_side_wall_bottom = 0, xo_level = 0,
     xo_active_colors = 0, xo_spawn_interval_ticks = 0, xo_highest_chain = 0, xo_terminated = False,
     xo_truncated = False, xo_left_held = False, xo_right_held = False, xo_bodies = []\<rparr>"

lemma demo_obs: "decode_observation (demo_obs_bytes @ rest) 0 = Inr (demo_observation, 112)"
  "decode_observation demo_obs_bytes 0 = Inr (demo_observation, 112)" "length demo_obs_bytes = 112"
proof -
  have u: "unpack OBSERVATION_HEADER (demo_obs_bytes @ rest) = replicate 20 0" for rest
    unfolding demo_obs_bytes_def
    by (rule unpack_pack) (simp add: OBSERVATION_HEADER_def numeral_eq_Suc)
  show l: "length demo_obs_bytes = 112"
    unfolding demo_obs_bytes_def by (subst pack_length) (simp_all add: OBSERVATION_HEADER_def fmt_size_def sum_list_replicate)
  have f: "fmt_size OBSERVATION_HEADER = 112" by (simp add: OBSERVATION_HEADER_def fmt_size_def sum_list_replicate)
  have "decode_observation (demo_obs_bytes @ rest) 0 = Inr (demo_observation, 112)" for rest
    using u [of rest] l f
    by (simp add: decode_observation_def demo_observation_def BODY_CAPACITY_def)
  from this [of rest] this [of "[]"] show "decode_observation (demo_obs_bytes @ rest) 0 = Inr (demo_observation, 112)"
    "decode_observation demo_obs_bytes 0 = Inr (demo_observation, 112)" by simp_all
qed

definition demo_trans_values :: "int list" where
  "demo_trans_values = [0, 0, 5, 0, 0, 0, 0, 0, 0, 0, 0, 0, 0, 0, 0, 0]"

definition demo_trans_bytes :: "byte list" where
  "demo_trans_bytes = demo_obs_bytes @ pack TRANSITION demo_trans_values"

lemma demo_observation_flags: "xo_terminated demo_observation = False" "xo_truncated demo_observation = False"
  by (simp_all add: demo_observation_def)

lemma demo_trans_values_unpack: "unpack TRANSITION (pack TRANSITION demo_trans_values) = demo_trans_values"
proof -
  have t: "TRANSITION = [S 8, U 8, U 8, U 8, S 8, U 8, S 8, U 8, U 4, U 4, U 4, U 4, U 1, U 1, U 1, U 1]"
    by (simp add: TRANSITION_def numeral_eq_Suc)
  have "list_all2 field_ok TRANSITION demo_trans_values"
    unfolding t by (simp add: demo_trans_values_def)
  from unpack_pack [OF this, of "[]"]
  show ?thesis by simp
qed

lemma demo_transition: "\<exists>t. decode_transition demo_trans_bytes = Inr t \<and> xt_config_hash t = 5 \<and>
    length demo_trans_bytes = 196 \<and> xt_observation t = demo_observation \<and> xt_events t = []"
proof -
  note u = demo_trans_values_unpack
  have l: "length (pack TRANSITION demo_trans_values) = 84"
    by (subst pack_length) (simp_all add: TRANSITION_def fmt_size_def sum_list_replicate demo_trans_values_def)
  have f: "fmt_size TRANSITION = 84" by (simp add: TRANSITION_def fmt_size_def sum_list_replicate)
  show ?thesis
    using u l f demo_obs demo_observation_flags
    by (simp add: demo_trans_bytes_def decode_transition_def demo_trans_values_def)
qed

lemma demo_reset:
  assumes "script = pre @ demo_answer OP_RESET (k + 1) demo_obs_bytes @ rest" "0 \<le> k" "k < 1000"
    "standing (demo_worker script) k pre c" "0 \<le> n" "n \<le> UINT32"
  shows "wp (client_reset (demo_worker script) (NumInt n)) (\<lambda>x t. x = demo_observation \<and>
    standing (demo_worker script) (k + 1) (pre @ demo_answer OP_RESET (k + 1) demo_obs_bytes) t \<and>
    facts t = facts c) (\<lambda>_ _. False) c"
proof -
  have o: "whole_observation demo_obs_bytes t = Inr demo_observation" for t
    using demo_obs(2,3) by (simp add: whole_observation_def)
  have "wp (client_reset (demo_worker script) (NumInt n)) Q E c =
      wp (request (demo_worker script) OP_RESET (pack RESET_REQUEST [n]))
        (\<lambda>p. wp (plift (whole_observation p ''exact reset response has trailing bytes'')) Q E) E c" for Q E
    using assms(5,6) by (simp add: client_reset_def wp_pbind)
  then show ?thesis
    using demo_exchange [OF assms(1-3) _ _ _ assms(4), of "pack RESET_REQUEST [n]"]
    by (auto simp: OP_RESET_def demo_obs(3) wp_plift o elim!: wp_mono)
qed

lemma client_step_request:
  "pack_step_request kind x y wait b = Inr a \<Longrightarrow> client_step V kind x y wait b =
     pbind (request V OP_STEP a) (\<lambda>payload. plift (decode_transition payload))"
  by (rule ext) (simp add: client_step_def client_send_step_def client_receive_step_def request_def pbind_def plift_def
      split: prod.split sum.split)

lemma demo_step:
  assumes "script = pre @ demo_answer OP_STEP (k + 1) demo_trans_bytes @ rest" "0 \<le> k" "k < 1000"
    "standing (demo_worker script) k pre c" "pack_step_request kind x y wait b = Inr a"
  shows "wp (client_step (demo_worker script) kind x y wait b) (\<lambda>tr t. xt_config_hash tr = 5 \<and>
    standing (demo_worker script) (k + 1) (pre @ demo_answer OP_STEP (k + 1) demo_trans_bytes) t \<and>
    facts t = facts c) (\<lambda>_ _. False) c"
  unfolding client_step_request [OF assms(5)] wp_pbind
  using demo_exchange [OF assms(1-3) _ _ _ assms(4), of a] demo_transition
  by (auto simp: OP_STEP_def wp_plift elim!: wp_mono)

section \<open>Simulators for the witnesses\<close>

definition demo_world :: "(nat \<Rightarrow> byte list) \<Rightarrow> sim_world" where
  "demo_world scripts = \<lparr>sw_launch = (\<lambda>_. Inr 7), sw_worker = (\<lambda>i. demo_worker (scripts i)),
     sw_blake2b = (\<lambda>b. take 8 (rev b)), sw_sha256 = (\<lambda>b. replicate 32 2)\<rparr>"

lemma demo_world_simps [simp]:
  "sw_launch (demo_world scripts) i = Inr 7" "sw_worker (demo_world scripts) i = demo_worker (scripts i)"
  "sw_sha256 (demo_world scripts) b = replicate 32 2" "digest_32 (demo_world scripts)"
  by (simp_all add: demo_world_def digest_32_def)

definition demo_action :: "byte list" where
  "demo_action = step_bytes 2 0 0 1 False"

lemma demo_action: "pack_step_request (NumInt 2) (NumFloat 0) (NumFloat 0) (NumInt 1) False = Inr demo_action"
    "unpack STEP_REQUEST demo_action = [2, 0, 0, 1, 0]" "valid_action demo_action"
proof -
  show p: "pack_step_request (NumInt 2) (NumFloat 0) (NumFloat 0) (NumInt 1) False = Inr demo_action"
    by (simp add: pack_step_request_def demo_action_def UINT32_def)
  show "unpack STEP_REQUEST demo_action = [2, 0, 0, 1, 0]"
    using step_bytes_unpack [of 2 1 0 0 False] by (simp add: demo_action_def UINT32_def)
  show "valid_action demo_action" by (rule pack_valid [OF p])
qed

definition demo_sim :: exact_sim where
  "demo_sim = (unbuilt_sim [])\<lparr>xs_clients := [demo_client], xs_client := Some 0, xs_config_hash := 5,
     xs_identity := replicate 32 2, xs_seed := Some 3, xs_actions := [demo_action],
     xs_hasher := Some (new_state_hasher (replicate 32 2) 5 3 @ demo_action)\<rparr>"

lemma demo_sim_inv: "sim_inv demo_sim"
  by (simp add: sim_inv_def demo_sim_def unbuilt_sim_def demo_action UINT32_def)

definition demo_snapshot :: "byte list" where
  "demo_snapshot = snapshot_bytes (demo_world (\<lambda>_. [])) 5 (replicate 32 2) 3 [demo_action]"

lemma demo_snapshot_world: "snapshot_bytes (demo_world f) h i n as = snapshot_bytes (demo_world g) h i n as"
  by (simp add: snapshot_bytes_def)

lemma demo_clone: "clone_state (demo_world f) demo_sim = (Inr demo_snapshot, demo_sim)"
  using demo_snapshot_world [of f 5 "replicate 32 2" 3 "[demo_action]" "\<lambda>_. []"]
  by (simp add: clone_state_def require_open_def pbind_def pget_def pret_def pguard_def demo_sim_def unbuilt_sim_def
      demo_snapshot_def)

lemma demo_decode: "decode_snapshot (demo_world f) demo_snapshot demo_sim = (Inr (3, [demo_action]), demo_sim)"
proof -
  have "decode_snapshot (demo_world f) (snapshot_bytes (demo_world f) (xs_config_hash demo_sim) (xs_identity demo_sim)
      3 [demo_action]) demo_sim = (Inr (3, [demo_action]), demo_sim)"
    by (rule decode_snapshot_bytes)
      (simp_all add: demo_sim_def unbuilt_sim_def sim_open_def uint64_def UINT32_def demo_action)
  moreover have "snapshot_bytes (demo_world f) 5 (replicate 32 2) 3 [demo_action] = demo_snapshot"
    unfolding demo_snapshot_def by (rule demo_snapshot_world)
  ultimately show ?thesis by (simp add: demo_sim_def unbuilt_sim_def)
qed

text \<open>Worker 0 answers the goodbye, worker 1 a handshake, a reset and a step.\<close>

definition spare_script :: "byte list" where
  "spare_script = (hello_pre @ demo_answer OP_RESET 3 demo_obs_bytes) @ demo_answer OP_STEP 4 demo_trans_bytes"

fun demo_scripts :: "nat \<Rightarrow> byte list" where
  "demo_scripts 0 = demo_answer OP_CLOSE 1 []"
| "demo_scripts (Suc n) = spare_script"

lemma ustr_of_scalar: "list_all scalar (ustr_of s)"
proof -
  have "scalar (of_char c)" for c
  proof -
    have "of_char c < (256 :: nat)" by simp
    then show ?thesis unfolding scalar_def by linarith
  qed
  then show ?thesis by (simp add: list_all_iff ustr_of_def)
qed

lemma dec_digits_scalar: "list_all scalar (dec_digits n)"
proof (induction n rule: dec_digits.induct)
  case (1 n)
  have d: "m < 10 \<Longrightarrow> scalar (48 + m)" for m by (simp add: scalar_def)
  show ?case
    by (subst dec_digits.simps) (simp add: 1 d del: scalar_def)
qed

lemma dec_int_scalar: "list_all scalar (dec_int n)"
  by (simp add: dec_int_def dec_digits_scalar scalar_def)

lemma join_scalar: "list_all (list_all scalar) ss \<Longrightarrow> list_all scalar (join_nul ss)"
  by (induction ss rule: join_nul.induct) (simp_all add: scalar_def)

lemma demo_identity:
  "facts c = (Some demo_info, 5, demo_digest, Some demo_library) \<Longrightarrow>
     client_identity (demo_world f) c 5 = Inr (replicate 32 2)"
  by (simp add: facts_def client_identity_def worker_identity_def utf8_encode_def demo_info_def
      join_scalar ustr_of_scalar dec_int_scalar del: join_nul.simps)


lemma demo_close: "wp (client_close (demo_worker (demo_scripts 0))) (\<lambda>_ _. True) (\<lambda>_ _. False) demo_client"
proof -
  let ?V = "demo_worker (demo_scripts 0)"
  have st: "standing ?V 0 [] (demo_client\<lparr>xc_log := [XPoll]\<rparr>)" by (simp add: standing_def)
  have bye: "wp (request ?V OP_CLOSE []) (\<lambda>_ t. True) (\<lambda>_ _. False) (demo_client\<lparr>xc_log := [XPoll]\<rparr>)"
    by (rule wp_mono [OF demo_exchange [OF _ _ _ _ _ _ st, where rest = "[]" and content = "[]"]])
      (simp_all add: OP_CLOSE_def)
  have c: "wp (close_streams ?V) (\<lambda>_ _. True) (\<lambda>_ _. False) t" for t
    by (simp add: close_streams_def wp_simps)
  show ?thesis
    unfolding client_close_def client_goodbye_def xpoll_def
    by (simp add: wp_simps c demo_client_def [symmetric] c del: demo_scripts.simps) (use bye c in \<open>auto elim!: wp_mono simp: demo_client_def\<close>)
qed

text \<open>The state while worker 1 is being prepared.\<close>

definition spare_at :: "int \<Rightarrow> byte list \<Rightarrow> exact_sim \<Rightarrow> bool" where
  "spare_at k pre s \<longleftrightarrow> (\<exists>c. s = demo_sim\<lparr>xs_clients := [demo_client, c]\<rparr> \<and>
     standing (demo_worker spare_script) k pre c \<and>
     facts c = (Some demo_info, 5, demo_digest, Some demo_library))"

lemma demo_spawn:
  "wp (spawn_matching (demo_world demo_scripts)) (\<lambda>i t. i = Suc 0 \<and> spare_at 2 hello_pre t) (\<lambda>_ _. False) demo_sim"
proof -
  let ?f = "\<lambda>c. facts c = (Some demo_info, 5, demo_digest, Some demo_library)"
  have n: "xs_clients demo_sim = [demo_client]" "xs_overrides demo_sim = []" "xs_config_hash demo_sim = 5"
    "xs_identity demo_sim = replicate 32 2" by (simp_all add: demo_sim_def unbuilt_sim_def)
  have init: "wp (initialize_protocol (demo_worker spare_script) None 7 None)
     (\<lambda>_ t. standing (demo_worker spare_script) 2 hello_pre t \<and> ?f t) (\<lambda>_ _. False) (fresh_client 7)"
    by (rule demo_initialize) (simp_all add: spare_script_def fresh_client_def)
  have sc: "wp (spawn_client (demo_world demo_scripts)) (\<lambda>i t. i = Suc 0 \<and> spare_at 2 hello_pre t) (\<lambda>_ _. False) demo_sim"
    unfolding spawn_client_def
    by (simp add: wp_simps wp_on_client n override_config_def nth_append)
      (rule wp_mono [OF init], auto simp: spare_at_def n)
  have ident: "client_identity (demo_world demo_scripts) c 5 = Inr (replicate 32 2)" "xc_config_hash c = 5"
    if "?f c" for c using demo_identity [OF that] that by (simp_all add: facts_def)
  show ?thesis
    unfolding spawn_matching_def wp_pbind [of "spawn_client _"]
    by (rule wp_mono [OF sc]) (auto simp: wp_simps spare_at_def n ident)
qed

lemma demo_restore:
  "wp (restore_state_typed (demo_world demo_scripts) demo_snapshot) (\<lambda>_ t. sim_open t) (\<lambda>_ _. False) demo_sim"
proof -
  have nock: "wp (require_no_checkpoints op) (\<lambda>_ t. t = demo_sim) (\<lambda>_ _. False) demo_sim" for op
    by (simp add: require_no_checkpoints_def wp_simps demo_sim_def unbuilt_sim_def)
  have reset: "wp (on_client (demo_world demo_scripts) (Suc 0) (\<lambda>V. client_reset V (NumInt 3)))
      (\<lambda>_ t. spare_at 3 (hello_pre @ demo_answer OP_RESET 3 demo_obs_bytes) t) (\<lambda>_ _. False) t"
    if t: "spare_at 2 hello_pre t" for t
  proof -
    obtain c where c: "t = demo_sim\<lparr>xs_clients := [demo_client, c]\<rparr>" "standing (demo_worker spare_script) 2 hello_pre c"
      "facts c = (Some demo_info, 5, demo_digest, Some demo_library)" using t by (auto simp: spare_at_def)
    show ?thesis
      unfolding wp_on_client
      by (simp add: c(1), rule wp_mono [OF demo_reset [OF _ _ _ c(2), where rest = "demo_answer OP_STEP 4 demo_trans_bytes" and n = 3]])
        (use c(3) in \<open>auto simp: spare_script_def spare_at_def UINT32_def\<close>)
  qed
  have step: "wp (on_client (demo_world demo_scripts) (Suc 0) (\<lambda>V. client_step V (NumInt 2) (NumFloat 0) (NumFloat 0) (NumInt 1) False))
      (\<lambda>_ t. \<exists>pre. spare_at 4 pre t) (\<lambda>_ _. False) t"
    if t: "spare_at 3 (hello_pre @ demo_answer OP_RESET 3 demo_obs_bytes) t" for t
  proof -
    obtain c where c: "t = demo_sim\<lparr>xs_clients := [demo_client, c]\<rparr>"
      "standing (demo_worker spare_script) 3 (hello_pre @ demo_answer OP_RESET 3 demo_obs_bytes) c"
      "facts c = (Some demo_info, 5, demo_digest, Some demo_library)" using t by (auto simp: spare_at_def)
    show ?thesis
      unfolding wp_on_client
      by (simp add: c(1), rule wp_mono [OF demo_step [OF _ _ _ c(2) demo_action(1), where rest = "[]"]])
        (use c(3) in \<open>auto simp: spare_script_def spare_at_def\<close>)
  qed
  have fin: "wp (on_client (demo_world demo_scripts) 0 client_close) (\<lambda>_ t. sim_open t) (\<lambda>_ _. False)
      (restore_commit (Suc 0) 3 [demo_action] obs t)" if sp: "spare_at 4 pre t" for t pre obs
  proof -
    obtain c where c: "t = demo_sim\<lparr>xs_clients := [demo_client, c]\<rparr>" "\<not> xc_closed c"
      using sp unfolding spare_at_def standing_def by blast
    show ?thesis
      unfolding wp_on_client
      by (simp add: c(1) restore_commit_def del: demo_scripts.simps, rule wp_mono [OF demo_close])
        (use c(2) in \<open>auto simp: sim_open_def\<close>)
  qed
  have op: "xs_client t = Some 0 \<and> \<not> xc_closed (xs_clients t ! 0)" if "spare_at 4 pre t" for t pre
    using that by (auto simp: spare_at_def demo_sim_def unbuilt_sim_def)
  have dec: "wp (decode_snapshot (demo_world demo_scripts) demo_snapshot)
      (\<lambda>x t. x = (3, [demo_action]) \<and> t = demo_sim) (\<lambda>_ _. False) demo_sim"
    by (simp add: wp_def demo_decode)
  show ?thesis
    unfolding restore_state_typed_def wp_pbind [of "decode_snapshot _ _"]
    apply (rule wp_mono [OF dec])
     apply (simp_all del: demo_scripts.simps)
    apply (subst wp_pbind, rule wp_mono [OF nock])
     apply (simp_all del: demo_scripts.simps)
    apply (subst wp_pbind, rule wp_mono [OF demo_spawn])
     apply (simp_all del: demo_scripts.simps)
    apply (simp only: wp_pbind wp_on_any_error)
    apply (rule wp_mono [OF reset])
      apply (simp_all del: demo_scripts.simps add: demo_action wp_pbind)
    apply (rule wp_mono [OF step])
      apply (simp_all del: demo_scripts.simps add: wp_pret)
    by (auto simp: wp_require_open wp_pmod op fin split: option.split simp del: demo_scripts.simps
        dest: op intro!: wp_mono [OF fin])
qed

definition boot_script :: "byte list" where
  "boot_script = (hello_pre @ demo_answer OP_CONFIG_JSON 3 [123, 125]) @ demo_answer OP_RESET 4 demo_obs_bytes"

definition boot_world :: sim_world where "boot_world = demo_world (\<lambda>_. boot_script)"

definition booted :: "exact_sim \<Rightarrow> bool" where
  "booted s \<longleftrightarrow> (\<exists>c. s = (unbuilt_sim [])\<lparr>xs_clients := [c], xs_client := Some 0, xs_config_hash := 5,
     xs_config := [123, 125], xs_identity := replicate 32 2\<rparr> \<and>
     standing (demo_worker boot_script) 3 (hello_pre @ demo_answer OP_CONFIG_JSON 3 [123, 125]) c)"

lemma demo_boot: "\<exists>s. sim_init boot_world [] = Inr s \<and> booted s"
proof -
  let ?f = "\<lambda>c. facts c = (Some demo_info, 5, demo_digest, Some demo_library)"
  let ?V = "demo_worker boot_script"
  have u: "xs_clients (unbuilt_sim []) = []" "xs_overrides (unbuilt_sim []) = []"
    by (simp_all add: unbuilt_sim_def)
  have init: "wp (initialize_protocol ?V None 7 None) (\<lambda>_ t. standing ?V 2 hello_pre t \<and> ?f t) (\<lambda>_ _. False) (fresh_client 7)"
    by (rule demo_initialize) (simp_all add: boot_script_def fresh_client_def)
  have json: "wp (client_config_json ?V) (\<lambda>x t. x = [123, 125] \<and> ?f t \<and>
      standing ?V 3 (hello_pre @ demo_answer OP_CONFIG_JSON 3 [123, 125]) t) (\<lambda>_ _. False) c"
    if "standing ?V 2 hello_pre c" "?f c" for c
    unfolding client_config_json_def wp_pbind [of "request _ _ _"]
    by (rule wp_mono [OF demo_exchange [OF _ _ _ _ _ _ that(1), where content = "[123, 125]"
          and rest = "demo_answer OP_RESET 4 demo_obs_bytes"]])
      (use that(2) in \<open>auto simp: boot_script_def OP_CONFIG_JSON_def wp_simps facts_def\<close>)
  have h: "xc_config_hash c = 5" if "?f c" for c using that by (simp add: facts_def)
  have sc: "wp (spawn_client boot_world) (\<lambda>i t. i = 0 \<and> (\<exists>c. t = (unbuilt_sim [])\<lparr>xs_clients := [c]\<rparr> \<and>
      standing ?V 2 hello_pre c \<and> ?f c)) (\<lambda>_ _. False) (unbuilt_sim [])"
    unfolding spawn_client_def boot_world_def
    by (simp add: wp_simps wp_on_client u override_config_def) (rule wp_mono [OF init], auto)
  have "wp (sim_init_body boot_world) (\<lambda>_. booted) (\<lambda>_ _. False) (unbuilt_sim [])"
    unfolding sim_init_body_def wp_pbind [of "spawn_client _"]
    by (rule wp_mono [OF sc])
      (auto simp: wp_simps wp_on_client h boot_world_def demo_identity booted_def unbuilt_sim_def
        intro!: wp_mono [OF json])
  then show ?thesis
    by (auto simp: sim_init_def flatten_config_def override_dict_def wp_def split: prod.splits sum.splits)
qed

lemma booted_reset:
  assumes "booted s"
  shows "wp (reset_typed boot_world (NumInt 5)) (\<lambda>_ t. sim_open t \<and> xs_hasher t \<noteq> None) (\<lambda>_ _. False) s"
proof -
  obtain c where c: "s = (unbuilt_sim [])\<lparr>xs_clients := [c], xs_client := Some 0, xs_config_hash := 5,
     xs_config := [123, 125], xs_identity := replicate 32 2\<rparr>"
    and st: "standing (demo_worker boot_script) 3 (hello_pre @ demo_answer OP_CONFIG_JSON 3 [123, 125]) c"
    using assms by (auto simp: booted_def)
  have r: "wp (client_reset (demo_worker boot_script) (NumInt 5)) (\<lambda>x t. \<not> xc_closed t) (\<lambda>_ _. False) c"
    by (rule wp_mono [OF demo_reset [OF _ _ _ st, where rest = "[]" and n = 5]])
      (auto simp: boot_script_def UINT32_def standing_def)
  have o: "\<not> xc_closed c" using st by (simp add: standing_def)
  show ?thesis
    unfolding reset_typed_def c
    by (simp add: wp_simps unbuilt_sim_def require_no_checkpoints_def o wp_on_client boot_world_def)
      (rule wp_mono [OF r], auto simp: reset_commit_def sim_open_def)
qed

lemma open_hash:
  "sim_open s \<Longrightarrow> xs_hasher s = Some x \<Longrightarrow> state_hash W s = (Inr (int (le_dec (sw_blake2b W x))), s)"
  by (auto simp: sim_open_def state_hash_def require_open_def pbind_def pget_def pret_def)

end
