(* ===== verification/Exact_Sim_Props.thy ===== *)
theory Exact_Sim_Props
  imports Exact_Sim_Demo
begin

text \<open>
  The properties of the exact simulator.
\<close>

section \<open>The properties\<close>

text \<open>C15: whatever calls are made on a constructed simulator, when it reports a state hash then it
  has been reset with a 32-bit seed, its log holds well-formed 28-byte actions, and the hash is the
  BLAKE2b digest of the worker identity, the configuration hash, the seed and exactly the logged
  actions in order.\<close>

theorem state_hash_is_the_log:
  assumes "sim_init W config = Inr s0" "t = foldl (sim_do W) s0 ops" "state_hash W t = (Inr h, u)"
  shows "\<exists>seed. xs_seed t = Some seed \<and> 0 \<le> seed \<and> seed \<le> UINT32 \<and>
    list_all valid_action (xs_actions t) \<and>
    h = int (le_dec (sw_blake2b W (xs_identity t @ pack [U 8, U 8] [xs_config_hash t, seed] @
      concat (xs_actions t))))"
proof -
  have i: "keeps (\<lambda>s. sim_inv s \<and> xs_seed s = None) (sim_init_body W)"
    unfolding sim_init_body_def by (intro keeps_intros) (auto simp: sim_inv_def)
  have "sim_inv (unbuilt_sim ov) \<and> xs_seed (unbuilt_sim ov) = None" for ov
    by (simp add: sim_inv_def unbuilt_sim_def)
  note ov = this
  obtain flat where f: "(case sim_init_body W (unbuilt_sim (override_dict flat)) of
      (Inl e, s) \<Rightarrow> Inl e | (Inr _, s) \<Rightarrow> Inr s) = Inr s0"
    using assms(1) unfolding sim_init_def rbind_Inr by blast
  obtain r s where b: "sim_init_body W (unbuilt_sim (override_dict flat)) = (r, s)" by fastforce
  with f have "s = s0" by (cases r) simp_all
  with keepsD [OF i ov b] have "sim_inv s0" by simp
  then have t: "sim_inv t" unfolding assms(2) by (rule simulator.inv_run)
  have "wp (state_hash W) (\<lambda>h u. \<exists>x. xs_hasher t = Some x \<and> h = int (le_dec (sw_blake2b W x))) (\<lambda>_ _. True) t"
    by (auto simp: state_hash_def wp_simps split: option.split)
  from wp_resultD [OF this assms(3)] t show ?thesis
    by (auto simp: sim_inv_def new_state_hasher_def split: option.splits)
qed

theorem state_hash_is_the_log_witness:
  "\<exists>s0 t h. sim_init boot_world [] = Inr s0 \<and> t = foldl (sim_do boot_world) s0 [SoReset (NumInt 5)] \<and>
     state_hash boot_world t = (Inr h, t) \<and> xs_seed t \<noteq> None"
proof -
  obtain s0 where s: "sim_init boot_world [] = Inr s0" "booted s0" using demo_boot by blast
  define t where "t = foldl (sim_do boot_world) s0 [SoReset (NumInt 5)]"
  have "wp (reset_typed boot_world (NumInt 5)) (\<lambda>_ t. sim_open t \<and> xs_hasher t \<noteq> None)
      (\<lambda>_ t. sim_open t \<and> xs_hasher t \<noteq> None) s0"
    by (rule wp_mono [OF booted_reset [OF s(2)]]) auto
  then have "sim_open t \<and> xs_hasher t \<noteq> None" by (simp add: t_def wp_final)
  then obtain x where "sim_open t" "xs_hasher t = Some x" by auto
  note h = open_hash [OF this, where W = boot_world]
  from state_hash_is_the_log [OF s(1) t_def h] h show ?thesis using s(1) t_def by blast
qed

text \<open>A snapshot decodes to the seed and the log it was taken from, in any open simulator of the
  same configuration and worker identity, and decoding changes nothing.\<close>

theorem snapshots_decode:
  assumes "sim_inv s" "clone_state W s = (Inr snapshot, t)" "digest_32 W"
    and "length (xs_identity s) = 32" "uint64 (xs_config_hash s)" "uint64 (int (length (xs_actions s)))"
    and "sim_open s'" "xs_identity s' = xs_identity s" "xs_config_hash s' = xs_config_hash s"
  shows "\<exists>seed. xs_seed s = Some seed \<and> t = s \<and>
    decode_snapshot W snapshot s' = (Inr (seed, xs_actions s), s')"
proof -
  have "wp (clone_state W) (\<lambda>b t. t = s \<and> (\<exists>n. xs_seed s = Some n \<and>
      b = snapshot_bytes W (xs_config_hash s) (xs_identity s) n (xs_actions s))) (\<lambda>_ _. True) s"
    by (auto simp: clone_state_def wp_simps split: option.split)
  from wp_resultD [OF this assms(2)] obtain n where n: "t = s" "xs_seed s = Some n"
    "snapshot = snapshot_bytes W (xs_config_hash s) (xs_identity s) n (xs_actions s)" by blast
  have "0 \<le> n" "n \<le> UINT32" "list_all valid_action (xs_actions s)"
    using assms(1) n(2) by (auto simp: sim_inv_def)
  with decode_snapshot_bytes [of W s' n "xs_actions s"] assms n show ?thesis by simp
qed

theorem snapshots_decode_witness:
  "decode_snapshot (demo_world demo_scripts) demo_snapshot demo_sim = (Inr (3, [demo_action]), demo_sim)"
  using snapshots_decode [OF demo_sim_inv demo_clone, of demo_scripts demo_sim]
  by (simp add: demo_sim_def unbuilt_sim_def sim_open_def uint64_def)

text \<open>After a restore that returns, the simulator holds a seed and a log whose snapshot, under its
  unchanged identity and configuration, is byte for byte the one it was given; its state hash is
  that of this log, and no step is outstanding.\<close>

theorem restore_then_clone:
  assumes "restore_state_typed W snapshot s = (Inr obs, t)"
  shows "\<exists>seed. xs_seed t = Some seed \<and>
    snapshot = snapshot_bytes W (xs_config_hash t) (xs_identity t) seed (xs_actions t) \<and>
    xs_hasher t = Some (new_state_hasher (xs_identity t) (xs_config_hash t) seed @ concat (xs_actions t)) \<and>
    xs_pending t = None \<and> xs_identity t = xs_identity s \<and> xs_config_hash t = xs_config_hash s"
proof -
  obtain seed actions obs' where d: "decode_snapshot W snapshot s = (Inr (seed, actions), s)"
    and t: "same_world (restore_commit (length (xs_clients s)) seed actions obs' s) t"
    using wp_resultD [OF restore_wp assms] by (auto simp: restored_def)
  from t decoded_snapshot [OF d] show ?thesis
    by (simp add: same_world_def restore_commit_def foldl_append)
qed

lemma demo_restore_ok: "\<exists>obs t. restore_state_typed (demo_world demo_scripts) demo_snapshot demo_sim = (Inr obs, t) \<and> sim_open t"
  using demo_restore by (auto simp: wp_def split: prod.split_asm sum.split_asm)

theorem restore_then_clone_witness:
  "\<exists>obs t. restore_state_typed (demo_world demo_scripts) demo_snapshot demo_sim = (Inr obs, t) \<and> xs_pending t = None"
proof -
  obtain obs t where r: "restore_state_typed (demo_world demo_scripts) demo_snapshot demo_sim = (Inr obs, t)"
    using demo_restore_ok by blast
  from restore_then_clone [OF r] r show ?thesis by blast
qed

text \<open>receiving a step as validated raw bytes and then looking at the observation shows what
  receiving it decoded shows: the typed receive of the same simulator accepts the same response,
  logs the same action, feeds the same state hash, and holds the observation that the raw path
  decodes on demand.\<close>

theorem raw_and_typed_receive_agree:
  assumes "receive_step_raw W s = (Inr payload, t)"
  shows "\<exists>tr u. receive_step_typed W s = (Inr tr, u) \<and> decode_transition payload = Inr tr \<and>
    xs_actions u = xs_actions t \<and> xs_hasher u = xs_hasher t \<and> xs_seed u = xs_seed t \<and>
    fst (observation_typed u) = Inr (xt_observation tr) \<and>
    fst (observation_typed t) = Inr (xt_observation tr)"
proof -
  obtain action i c j h where p: "xs_pending s = Some action" "xs_client s = Some i"
    and o: "\<not> xc_closed (xs_clients s ! i)"
    and f: "finish_response (sw_worker W i) OP_STEP (xs_clients s ! i) = (Inr payload, c)"
    and v: "validate_raw_transition payload = Inr (j, h)" and h: "h = xs_config_hash s"
    and t: "t = s\<lparr>xs_clients := (xs_clients s)[i := c], xs_pending := None,
       xs_actions := xs_actions s @ [action], xs_hasher := map_option (\<lambda>x. x @ action) (xs_hasher s),
       xs_observation := None, xs_raw := Some (payload, j)\<rparr>"
    using assms
    by (auto simp: receive_step_raw_def pbind_def [of "receive_with _ _ _ _"] receive_with_ok pret_def
        split: prod.splits sum.splits)
      (auto simp: pbind_def plift_def pret_def split: prod.splits sum.splits)
  obtain tr where tr: "decode_transition payload = Inr tr" "decode_observation payload 0 = Inr (xt_observation tr, j)"
    "xt_config_hash tr = h"
    using v raw_transition_agrees by blast
  have c: "\<not> xc_closed ((xs_clients s)[i := c] ! i)"
    by (rule open_after [OF finish_stays_open [OF f] o])
  let ?u = "s\<lparr>xs_clients := (xs_clients s)[i := c], xs_pending := None,
       xs_actions := xs_actions s @ [action], xs_hasher := map_option (\<lambda>x. x @ action) (xs_hasher s),
       xs_observation := Some (xt_observation tr), xs_raw := None\<rparr>"
  have "client_receive_step (sw_worker W i) (xs_clients s ! i) = (Inr tr, c)"
    by (simp add: client_receive_step_def pbind_def f plift_def tr)
  then have "receive_step_typed W s = (Inr tr, ?u)"
    unfolding receive_step_typed_def receive_with_ok using p o h tr(3) by auto
  moreover have "fst (observation_typed ?u) = Inr (xt_observation tr)"
    using p c by (simp add: observation_typed_def require_open_def pbind_def pget_def pret_def)
  moreover have "fst (observation_typed t) = Inr (xt_observation tr)"
    using p c tr by (simp add: t observation_typed_def require_open_def pbind_def pget_def pret_def plift_def
        pguard_def pmod_def)
  ultimately show ?thesis using tr t by auto
qed

text \<open>C20: restoring a snapshot reproduces the state hash of the simulator it was taken from, whatever
  simulator restores it and whatever its workers answer.\<close>

theorem restored_state_hash:
  assumes inv: "sim_inv s1" and snap: "clone_state W s1 = (Inr snapshot, u1)"
    and hash: "state_hash W s1 = (Inr h, u2)"
    and restore: "restore_state_typed W snapshot s2 = (Inr obs, t)" and hash': "state_hash W t = (Inr h', u3)"
    and ranges: "digest_32 W" "length (xs_identity s1) = 32" "uint64 (xs_config_hash s1)"
      "uint64 (int (length (xs_actions s1)))"
  shows "h' = h"
proof -
  have hw: "wp (state_hash W) (\<lambda>h _. \<exists>x. xs_hasher s = Some x \<and> h = int (le_dec (sw_blake2b W x))) (\<lambda>_ _. True) s" for s
    by (auto simp: state_hash_def wp_simps split: option.split)
  have "wp (clone_state W) (\<lambda>b _. \<exists>n. xs_seed s1 = Some n \<and>
      b = snapshot_bytes W (xs_config_hash s1) (xs_identity s1) n (xs_actions s1)) (\<lambda>_ _. True) s1"
    by (auto simp: clone_state_def wp_simps split: option.split)
  from wp_resultD [OF this snap] obtain n where n: "xs_seed s1 = Some n"
    "snapshot = snapshot_bytes W (xs_config_hash s1) (xs_identity s1) n (xs_actions s1)" by blast
  have s1: "0 \<le> n" "n \<le> UINT32" "list_all valid_action (xs_actions s1)"
    "\<And>x. xs_hasher s1 = Some x \<Longrightarrow>
       x = new_state_hasher (xs_identity s1) (xs_config_hash s1) n @ concat (xs_actions s1)"
    using inv n(1) by (auto simp: sim_inv_def)
  obtain seed actions obs' where d: "decode_snapshot W snapshot s2 = (Inr (seed, actions), s2)"
    and t: "same_world (restore_commit (length (xs_clients s2)) seed actions obs' s2) t"
    using wp_resultD [OF restore_wp restore] by (auto simp: restored_def)
  note d' = decoded_snapshot [OF d]
  have "xs_config_hash s1 = xs_config_hash s2 \<and> xs_identity s1 = xs_identity s2 \<and> n = seed \<and> xs_actions s1 = actions"
    by (rule snapshot_bytes_inject [of W]) (use n(2) d' ranges s1 in auto)
  with t s1(4) wp_resultD [OF hw hash] wp_resultD [OF hw hash'] show ?thesis
    by (auto simp: same_world_def restore_commit_def foldl_append)
qed

theorem restored_state_hash_witness:
  "\<exists>obs t h. restore_state_typed (demo_world demo_scripts) demo_snapshot demo_sim = (Inr obs, t) \<and>
     state_hash (demo_world demo_scripts) demo_sim = (Inr h, demo_sim) \<and>
     state_hash (demo_world demo_scripts) t = (Inr h, t)"
proof -
  let ?W = "demo_world demo_scripts"
  obtain obs t where r: "restore_state_typed ?W demo_snapshot demo_sim = (Inr obs, t)" "sim_open t"
    using demo_restore_ok by blast
  from wp_resultD [OF restore_wp r(1)] obtain x where x: "xs_hasher t = Some x"
    by (auto simp: restored_def same_world_def restore_commit_def)
  have o: "sim_open demo_sim" by (simp add: sim_open_def demo_sim_def unbuilt_sim_def)
  obtain y where y: "xs_hasher demo_sim = Some y" by (simp add: demo_sim_def)
  note h1 = open_hash [OF o y, where W = ?W] and h2 = open_hash [OF r(2) x, where W = ?W]
  have "int (le_dec (sw_blake2b ?W x)) = int (le_dec (sw_blake2b ?W y))"
    by (rule restored_state_hash [OF demo_sim_inv demo_clone h1 r(1) h2])
      (simp_all add: demo_sim_def unbuilt_sim_def uint64_def)
  with r(1) h1 h2 show ?thesis by metis
qed

text \<open>C35: a restore that raises has changed nothing the owner sees and called none of the workers it
  had, unless the snapshot was fully replayed and only closing the replaced worker failed.\<close>

theorem failed_restore_changes_nothing:
  assumes "restore_state_typed W snapshot s = (Inl e, t)"
  shows "untouched s t \<or> (\<exists>seed actions obs. decode_snapshot W snapshot s = (Inr (seed, actions), s) \<and>
    same_world (restore_commit (length (xs_clients s)) seed actions obs s) t)"
  using wp_raiseD [OF restore_wp assms] by (simp add: restored_def)

theorem failed_restore_changes_nothing_witness:
  "\<exists>e t. restore_state_typed (demo_world demo_scripts) [] demo_sim = (Inl e, t) \<and> same_world demo_sim t"
proof -
  have r: "restore_state_typed (demo_world demo_scripts) [] demo_sim =
      (Inl (native_error ''exact snapshot is shorter than its versioned header''), demo_sim)"
    by (simp add: restore_state_typed_def decode_snapshot_def pbind_def pguard_def praise_def
        SNAPSHOT_PREFIX_SIZE_def)
  from failed_restore_changes_nothing [OF r] r show ?thesis by (auto simp: untouched_world)
qed

text \<open>A reset that raises leaves seed, log, observation and state hash as they were; when a world
  was running, its worker has not been called either.  The one exception is a failure to close the
  replaced worker, after the new world was taken.\<close>

theorem failed_reset_changes_nothing:
  assumes "reset_typed W seed s = (Inl e, t)"
  shows "same_world s t \<and> (xs_seed s \<noteq> None \<longrightarrow> untouched s t) \<or>
    xs_seed s \<noteq> None \<and>
      (\<exists>obs. same_world (reset_commit (Some (length (xs_clients s))) (int_of_num seed) obs s) t)"
  using wp_raiseD [OF reset_failure assms] .

lemma idle_rejects_seed:
  "reset_typed W NumOther (demo_sim\<lparr>xs_seed := None\<rparr>) =
     (Inl (Exn TypeError ''seed must be an integer''), demo_sim\<lparr>xs_seed := None\<rparr>)"
  by (simp add: reset_typed_def require_no_checkpoints_def require_open_def pbind_def pget_def pret_def pmod_def
      pguard_def on_client_def client_reset_def praise_def demo_sim_def unbuilt_sim_def)

theorem failed_reset_changes_nothing_witness:
  "\<exists>e t. reset_typed (demo_world demo_scripts) NumOther (demo_sim\<lparr>xs_seed := None\<rparr>) = (Inl e, t) \<and>
     same_world (demo_sim\<lparr>xs_seed := None\<rparr>) t"
  using failed_reset_changes_nothing [OF idle_rejects_seed [of "demo_world demo_scripts"]]
    idle_rejects_seed [of "demo_world demo_scripts"] by auto

lemma failed_receive:
  assumes "xs_pending s = Some a" "xs_client s = Some i" "\<not> xc_closed (xs_clients s ! i)"
  shows "wp (receive_with W read h keep) (\<lambda>_ _. True) (\<lambda>_. workerless (xs_seed s) (xs_actions s)) s"
proof -
  have drop: "wp (drop_worker W i) (\<lambda>_. workerless (xs_seed s) (xs_actions s)) (\<lambda>_. workerless (xs_seed s) (xs_actions s)) t"
    if "xs_seed t = xs_seed s" "xs_actions t = xs_actions s" for t
    unfolding drop_worker_def wp_pbind wp_pmod wp_ignoring
    by (rule on_client_any) (use that in \<open>auto simp: workerless_def\<close>)
  have body: "wp (on_any_error
         (pbind (on_client W i read) (\<lambda>r.
          pbind (pget xs_config_hash) (\<lambda>config_hash.
          pbind (pguard (h r \<noteq> config_hash)
            (protocol_error ''exact transition config hash changed'')) (\<lambda>_. pret r))))
         (drop_worker W i)) (\<lambda>_ _. True) (\<lambda>_. workerless (xs_seed s) (xs_actions s)) s"
    unfolding wp_on_any_error wp_pbind wp_pget wp_pguard wp_pret
    by (rule on_client_any) (auto intro!: drop)
  show ?thesis
    unfolding receive_with_def wp_pbind [of "pget _"] wp_pget assms(1) option.case
      wp_pbind [of require_open] wp_require_open assms(2) wp_pbind [of "on_any_error _ _"]
    by (simp only: assms(3) option.case if_False)
      (rule wp_mono [OF body]; simp add: wp_pbind wp_pmod wp_pret)
qed

interpretation workerless_simulator: op_machine "sim_do W" "workerless n a" for W n a
  by unfold_locales (rule sim_do_workerless)

text \<open>When the response to a started step cannot be had or does not check, for whatever reason,
  the simulator has lost its worker, its seed and log are those before the step, and no later call
  brings a worker back or changes them.\<close>

theorem failed_receive_is_final:
  assumes "receive_step_typed W s = (Inl e, t)"
    and "xs_pending s = Some a" "xs_client s = Some i" "\<not> xc_closed (xs_clients s ! i)"
  shows "xs_client t = None \<and> (\<forall>ops. xs_client (foldl (sim_do W) t ops) = None \<and>
    xs_seed (foldl (sim_do W) t ops) = xs_seed s \<and> xs_actions (foldl (sim_do W) t ops) = xs_actions s)"
proof -
  have t: "workerless (xs_seed s) (xs_actions s) t"
    using wp_raiseD [OF failed_receive [OF assms(2-4)] assms(1) [unfolded receive_step_typed_def]] .
  with workerless_simulator.inv_run [OF t] show ?thesis by (simp add: workerless_def)
qed

definition waiting_sim :: exact_sim where
  "waiting_sim = demo_sim\<lparr>xs_pending := Some demo_action\<rparr>"

lemma waiting_fails: "receive_step_typed (demo_world (\<lambda>_. [])) waiting_sim =
    (Inl (Exn RuntimeError ''exact worker has no matching outstanding request''),
     final (drop_worker (demo_world (\<lambda>_. [])) 0) waiting_sim)"
  by (simp add: receive_step_typed_def receive_with_def client_receive_step_def finish_response_def
      waiting_sim_def demo_sim_def unbuilt_sim_def pbind_def pget_def pret_def pguard_def praise_def
      require_open_def on_client_def on_any_error_def drop_worker_def pmod_def ignoring_def final_def
      client_abort_def xpoll_def xcall_def pwhen_def demo_client_def
      split: prod.split sum.split)

theorem failed_receive_is_final_witness:
  "xs_client (foldl (sim_do (demo_world (\<lambda>_. []))) (final (drop_worker (demo_world (\<lambda>_. [])) 0) waiting_sim)
     [SoReset (NumInt 1), SoClone]) = None"
proof -
  have w: "xs_pending waiting_sim = Some demo_action" "xs_client waiting_sim = Some 0"
    "\<not> xc_closed (xs_clients waiting_sim ! 0)"
    by (simp_all add: waiting_sim_def demo_sim_def unbuilt_sim_def)
  show ?thesis using failed_receive_is_final [OF waiting_fails w] by blast
qed

definition answered_world :: sim_world where
  "answered_world = demo_world (\<lambda>_. demo_answer OP_STEP 1 demo_trans_bytes)"

definition answered_sim :: exact_sim where
  "answered_sim = demo_sim\<lparr>xs_pending := Some demo_action,
     xs_clients := [demo_client\<lparr>xc_pending := Some (OP_STEP, 1), xc_request_id := 1\<rparr>]\<rparr>"

lemma answered_raw: "\<exists>t. receive_step_raw answered_world answered_sim = (Inr demo_trans_bytes, t)"
proof -
  let ?V = "demo_worker (demo_answer OP_STEP 1 demo_trans_bytes)"
  let ?c = "demo_client\<lparr>xc_pending := Some (OP_STEP, 1), xc_request_id := 1\<rparr>"
  obtain tr where tr: "decode_transition demo_trans_bytes = Inr tr" "xt_config_hash tr = 5"
    "length demo_trans_bytes = 196" "xt_observation tr = demo_observation" and ev: "xt_events tr = []" using demo_transition by blast
  have v: "validate_raw_transition demo_trans_bytes = Inr (112, 5)"
    unfolding raw_transition_agrees using tr ev demo_obs(1) by (simp add: demo_trans_bytes_def)
  have "wp (finish_response ?V OP_STEP) (\<lambda>x _. x = demo_trans_bytes) (\<lambda>_ _. False) ?c"
    by (rule finish_response_ok [OF demo_serves, where rest = "[]" and rid = 1])
      (simp_all add: demo_answer_def OP_STEP_def tr(3) del: field_enc.simps)
  then obtain c where f: "finish_response ?V OP_STEP ?c = (Inr demo_trans_bytes, c)"
    by (auto simp: wp_def split: prod.split_asm sum.split_asm)
  have "receive_with answered_world
     (\<lambda>V. pbind (finish_response V OP_STEP) (\<lambda>payload.
       pbind (plift (validate_raw_transition payload)) (\<lambda>(e, h). pret (payload, e, h))))
     (\<lambda>(payload, e, h). h) (\<lambda>(payload, e, h) s. s\<lparr>xs_observation := None, xs_raw := Some (payload, e)\<rparr>)
     answered_sim = (Inr (demo_trans_bytes, 112, 5),
       answered_sim\<lparr>xs_clients := [c], xs_pending := None, xs_actions := xs_actions answered_sim @ [demo_action],
         xs_hasher := map_option (\<lambda>h. h @ demo_action) (xs_hasher answered_sim),
         xs_observation := None, xs_raw := Some (demo_trans_bytes, 112)\<rparr>)"
    unfolding receive_with_ok
    by (rule exI [of _ demo_action], rule exI [of _ 0], rule exI [of _ c])
      (simp add: answered_sim_def demo_sim_def unbuilt_sim_def answered_world_def pbind_def f plift_def v pret_def)
  then show ?thesis by (simp add: receive_step_raw_def pbind_def pret_def)
qed

theorem raw_and_typed_receive_agree_witness:
  "\<exists>tr u. receive_step_typed answered_world answered_sim = (Inr tr, u) \<and>
     decode_transition demo_trans_bytes = Inr tr"
proof -
  obtain t where r: "receive_step_raw answered_world answered_sim = (Inr demo_trans_bytes, t)"
    using answered_raw by blast
  from raw_and_typed_receive_agree [OF r] show ?thesis by blast
qed

end
