(* ===== verification/Py_Json.thy ===== *)
theory Py_Json
  imports Py_Float
begin

text \<open>
  JSON values, as the sources write them into checkpoints and digests.  \<open>_canonical_sha256\<close>
  serialises with sorted keys, so the digest does not depend on the order of an object's members;
  the digest itself is a parameter of every component that uses it.  A SHA-256 value in text is
  64 lower-case hexadecimal digits.
\<close>

datatype jval = JNull | JInt int | JFloat pyfloat | JStr string | JBool bool | JList "jval list"
  | JObj "(string \<times> jval) list"

abbreviation value_error :: "string \<Rightarrow> exn" where
  "value_error t \<equiv> Exn ValueError t"

definition ZERO_SHA256 :: string where
  "ZERO_SHA256 = replicate 64 (CHR ''0'')"

definition hex_lower :: "char \<Rightarrow> bool" where
  "hex_lower c \<longleftrightarrow> c \<in> set ''0123456789abcdef''"

definition sha_text :: "string \<Rightarrow> bool" where
  "sha_text s \<longleftrightarrow> length s = 64 \<and> list_all hex_lower s"

text \<open>\<open>_is_sha256\<close>, which several modules define in the same words.\<close>

definition is_sha256 :: "pyval \<Rightarrow> bool" where
  "is_sha256 v = (case plain_str v of None \<Rightarrow> False | Some s \<Rightarrow> sha_text s)"

lemma is_sha256_str [simp]: "is_sha256 (PyStr s) = sha_text s"
  by (simp add: is_sha256_def)

lemma zero_sha_text [simp]: "sha_text ZERO_SHA256"
  by (simp add: sha_text_def ZERO_SHA256_def hex_lower_def list_all_iff)

lemma sha_text_replicate [simp]: "hex_lower c \<Longrightarrow> sha_text (replicate 64 c)"
  by (simp add: sha_text_def list_all_iff)

text \<open>A JSON value as the Python object a reader gets.\<close>

fun py_of_json :: "jval \<Rightarrow> pyval" where
  "py_of_json JNull = PyNone"
| "py_of_json (JInt n) = PyInt n"
| "py_of_json (JFloat f) = PyFloat f"
| "py_of_json (JStr s) = PyStr s"
| "py_of_json (JBool b) = PyBool b"
| "py_of_json (JList xs) = PySeq (map py_of_json xs)"
| "py_of_json (JObj _) = PyOther ''dict''"

fun json_list :: "jval \<Rightarrow> jval list option" where
  "json_list (JList xs) = Some xs" | "json_list _ = None"

fun json_obj :: "jval \<Rightarrow> (string \<times> jval) list option" where
  "json_obj (JObj d) = Some d" | "json_obj _ = None"

abbreviation json_ints :: "int list \<Rightarrow> jval" where
  "json_ints ns \<equiv> JList (map JInt ns)"

abbreviation json_strs :: "string list \<Rightarrow> jval" where
  "json_strs xs \<equiv> JList (map JStr xs)"

text \<open>\<open>json.dumps(..., allow_nan=False)\<close> raises on a float that is not finite.\<close>

fun json_finite :: "jval \<Rightarrow> bool" where
  "json_finite (JFloat f) = is_finite f"
| "json_finite (JList xs) = list_all json_finite xs"
| "json_finite (JObj d) = list_all (\<lambda>(k, v). json_finite v) d"
| "json_finite _ = True"

text \<open>\<open>==\<close> of JSON values: numbers by value, objects as mappings.\<close>

fun json_eq :: "jval \<Rightarrow> jval \<Rightarrow> bool" where
  "json_eq (JList xs) v = (case v of JList ys \<Rightarrow> list_all2 json_eq xs ys | _ \<Rightarrow> False)"
| "json_eq (JObj d) v = (case v of
     JObj d' \<Rightarrow> set (map fst d) = set (map fst d') \<and>
       list_all (\<lambda>(k, x). case map_of d' k of None \<Rightarrow> False | Some y \<Rightarrow> json_eq x y) d
   | _ \<Rightarrow> False)"
| "json_eq u v = py_eq (py_of_json u) (py_of_json v)"

end
