(* ===== verification/Tail.thy ===== *)
theory Tail
  imports Py_Json
begin

text \<open>
  \<open>ScoreOnlyTailController\<close> of \<open>irisu_rl/r3b_tail.py\<close>: the life cycle of a training run, from the
  sweep of shaped updates through a drain without updates to a bounded number of updates on the
  raw score alone, with a hash chain over everything it recorded.  An audit is whatever object the
  trainer hands in, so its attributes are arbitrary Python values.  Tensor arithmetic (torch) and
  the canonical JSON digest are parameters.  Texts that embed a value are kept without it; a
  float's sign of zero is not represented, in the digest neither.
\<close>

section \<open>Parameters and small validators\<close>

text \<open>\<open>te_scaled n scale\<close> is \<open>tensor(n, int64).to(float32).div(scale)\<close>; \<open>te_compose\<close> the float32
  composition of scaled rewards, shaping rewards and weights; \<open>te_sum\<close> the float32 sum.\<close>

record tail_env =
  te_scaled :: "int \<Rightarrow> pyfloat \<Rightarrow> pyfloat res"
  te_compose :: "pyfloat list \<Rightarrow> pyfloat list \<Rightarrow> int list \<Rightarrow> pyfloat list res"
  te_sum :: "pyfloat list \<Rightarrow> pyfloat"
  te_digest :: "jval \<Rightarrow> string"

definition canonical_nonnegative :: "pyval \<Rightarrow> string \<Rightarrow> int res" where
  "canonical_nonnegative v label = (case plain_int v of
     Some n \<Rightarrow> if n < 0 then Inl (value_error (label @ '' must be a nonnegative integer'')) else Inr n
   | None \<Rightarrow> Inl (value_error (label @ '' must be a nonnegative integer'')))"

text \<open>\<open>isinstance(value, Sequence)\<close> and not text.\<close>

fun seq_items :: "pyval \<Rightarrow> pyval list option" where
  "seq_items (PySeq xs) = Some xs" | "seq_items _ = None"

definition finite_item :: "string \<Rightarrow> pyval \<Rightarrow> pyfloat res" where
  "finite_item label v = (case real_num v of
     None \<Rightarrow> Inl (value_error (''decision audit '' @ label @ '' must be numeric''))
   | Some x \<Rightarrow> rbind (num_to_float x) (\<lambda>f.
       if is_finite f then Inr f
       else Inl (value_error (''decision audit '' @ label @ '' contains a nonfinite value''))))"

definition finite_rows :: "pyval \<Rightarrow> nat \<Rightarrow> string \<Rightarrow> pyfloat list res" where
  "finite_rows v width label = (case seq_items v of
     None \<Rightarrow> Inl (value_error (''decision audit is missing '' @ label))
   | Some xs \<Rightarrow>
     if length xs \<noteq> width then Inl (value_error (''decision audit '' @ label @ '' width mismatch''))
     else rmap (finite_item label) xs)"

definition integer_rows :: "pyval \<Rightarrow> nat \<Rightarrow> string \<Rightarrow> int list res" where
  "integer_rows v width label = (case seq_items v of
     None \<Rightarrow> Inl (value_error (''decision audit is missing '' @ label))
   | Some xs \<Rightarrow>
     if length xs \<noteq> width \<or> (\<exists>x \<in> set xs. plain_int x = None)
     then Inl (value_error (''decision audit '' @ label @ '' must contain integers''))
     else Inr (map (\<lambda>x. the (plain_int x)) xs))"

text \<open>A weight argument: a tensor, with whether it is a nonempty detached CPU int64 vector, or
  another Python value.\<close>

datatype weights_arg = WTensor bool "int list" | WValue pyval

definition ppm_item :: "string \<Rightarrow> pyval \<Rightarrow> int res" where
  "ppm_item label v = (case plain_int v of
     Some n \<Rightarrow> if 0 \<le> n \<and> n \<le> 1000000 then Inr n
               else Inl (value_error (label @ '' must contain canonical ppm integers''))
   | None \<Rightarrow> Inl (value_error (label @ '' must contain canonical ppm integers'')))"

definition weights_of :: "weights_arg \<Rightarrow> string \<Rightarrow> int list res" where
  "weights_of w label =
     rbind (case w of
         WTensor ok ns \<Rightarrow>
           if \<not> ok then Inl (value_error (label @ '' must be detached CPU int64 [B]''))
           else Inr (map PyInt ns)
       | WValue v \<Rightarrow> (case seq_items v of
           None \<Rightarrow> Inl (value_error (label @ '' must be a nonempty integer sequence''))
         | Some xs \<Rightarrow> Inr xs)) (\<lambda>supplied.
     if supplied = [] then Inl (value_error (label @ '' must be a nonempty integer sequence''))
     else rmap (ppm_item label) supplied)"

section \<open>Auditing a collection\<close>

record tail_decision =
  td_shaping_weight_ppm :: weights_arg
  td_raw_rewards :: pyval
  td_scaled_raw_rewards :: pyval
  td_shaping_rewards :: pyval
  td_optimizer_rewards :: pyval

text \<open>\<open>ta_decisions\<close> is None when the attribute is missing, text or not a sequence.\<close>

record tail_audit =
  ta_decision_rows :: pyval
  ta_transitions :: pyval
  ta_decisions :: "tail_decision list option"
  ta_reward_sha256 :: pyval
  ta_optimizer_reward :: pyval
  ta_raw_reward :: pyval
  ta_invalid_actions :: pyval

record audit_row =
  ar_raw_rewards :: "int list"
  ar_shaping_weight_ppm :: "int list"
  ar_scaled_raw_rewards :: "pyfloat list"
  ar_shaping_rewards :: "pyfloat list"
  ar_optimizer_rewards :: "pyfloat list"

record audit_manifest =
  am_decision_rows :: int
  am_transitions :: int
  am_raw_reward :: int
  am_optimizer_reward :: pyfloat
  am_reward_sha256 :: string
  am_decisions :: "audit_row list"

definition fl_eq :: "pyfloat \<Rightarrow> pyfloat \<Rightarrow> bool" where
  "fl_eq x y \<longleftrightarrow> x = y \<and> x \<noteq> NaN"

text \<open>The loop over \<open>zip(weights, shaping, scaled, optimizer)\<close>.\<close>

fun zero_weight_impure :: "int list \<Rightarrow> pyfloat list \<Rightarrow> pyfloat list \<Rightarrow> pyfloat list \<Rightarrow> bool" where
  "zero_weight_impure (w # ws) (sh # shs) (r # rs) (x # xs) =
     (w = 0 \<and> (\<not> fl_eq sh (Fin 0) \<or> \<not> fl_eq x r) \<or> zero_weight_impure ws shs rs xs)"
| "zero_weight_impure _ _ _ _ = False"

definition audit_decision ::
  "tail_env \<Rightarrow> pyfloat \<Rightarrow> nat option \<Rightarrow> tail_decision \<Rightarrow> audit_row res" where
  "audit_decision E scale lane_width d =
     rbind (weights_of (td_shaping_weight_ppm d) ''decision shaping weights'') (\<lambda>weights.
     let width = length weights in
     rbind (rguard (lane_width \<noteq> None \<and> lane_width \<noteq> Some width)
       (value_error ''decision audit lane width changed within a collection'')) (\<lambda>_.
     rbind (integer_rows (td_raw_rewards d) width ''raw_rewards'') (\<lambda>raw.
     rbind (finite_rows (td_scaled_raw_rewards d) width ''scaled_raw_rewards'') (\<lambda>scaled.
     rbind (finite_rows (td_shaping_rewards d) width ''shaping_rewards'') (\<lambda>shaping.
     rbind (finite_rows (td_optimizer_rewards d) width ''optimizer_rewards'') (\<lambda>optimizer.
     rbind (rmap (\<lambda>n. te_scaled E n scale) raw) (\<lambda>expected_scaled.
     rbind (te_compose E expected_scaled shaping weights) (\<lambda>expected_optimizer.
     rbind (rguard (\<not> list_all2 fl_eq scaled expected_scaled)
       (value_error ''scaled raw reward does not match raw reward and scale'')) (\<lambda>_.
     rbind (rguard (\<not> list_all2 fl_eq optimizer expected_optimizer)
       (value_error ''optimizer reward does not match declared composition'')) (\<lambda>_.
     rbind (rguard (zero_weight_impure weights shaping scaled optimizer)
       (value_error ''zero-weight decision reward is not exactly score-only'')) (\<lambda>_.
     Inr \<lparr>ar_raw_rewards = raw, ar_shaping_weight_ppm = weights, ar_scaled_raw_rewards = scaled,
       ar_shaping_rewards = shaping, ar_optimizer_rewards = optimizer\<rparr>)))))))))))"

text \<open>The decisions in order; the first fixes the lane width.\<close>

fun audit_decisions ::
  "tail_env \<Rightarrow> pyfloat \<Rightarrow> nat option \<Rightarrow> tail_decision list \<Rightarrow> audit_row list res" where
  "audit_decisions E scale lane_width [] = Inr []"
| "audit_decisions E scale lane_width (d # ds) =
     rbind (audit_decision E scale lane_width d) (\<lambda>row.
     rbind (audit_decisions E scale (Some (length (ar_shaping_weight_ppm row))) ds) (\<lambda>rows.
     Inr (row # rows)))"

definition lane_width_of :: "audit_row list \<Rightarrow> nat" where
  "lane_width_of rows = (case rows of [] \<Rightarrow> 0 | row # _ \<Rightarrow> length (ar_shaping_weight_ppm row))"

definition raw_total :: "audit_row list \<Rightarrow> int" where
  "raw_total rows = sum_list (map (\<lambda>row. sum_list (ar_raw_rewards row)) rows)"

definition optimizer_total :: "tail_env \<Rightarrow> audit_row list \<Rightarrow> pyfloat" where
  "optimizer_total E rows = foldl (\<lambda>acc row. fl_add acc (te_sum E (ar_optimizer_rewards row))) (Fin 0) rows"

definition audit_manifest_of ::
  "tail_env \<Rightarrow> tail_audit option \<Rightarrow> pyfloat \<Rightarrow> string \<Rightarrow> audit_manifest res" where
  "audit_manifest_of E audit scale reward_sha256 = (case audit of
     None \<Rightarrow> Inl (value_error ''collection audit is required'')
   | Some a \<Rightarrow>
     rbind (canonical_nonnegative (ta_decision_rows a) ''audit decision_rows'') (\<lambda>decision_rows.
     rbind (canonical_nonnegative (ta_transitions a) ''audit transitions'') (\<lambda>transitions.
     if decision_rows = 0 \<or> transitions = 0
     then Inl (value_error ''collection audit must contain decisions and transitions'')
     else case ta_decisions a of
       None \<Rightarrow> Inl (value_error ''collection audit is missing decision audits'')
     | Some decisions \<Rightarrow>
     rbind (rguard (int (length decisions) \<noteq> decision_rows)
       (value_error ''collection decision-row count mismatch'')) (\<lambda>_.
     rbind (rguard (\<not> py_eq (ta_reward_sha256 a) (PyStr reward_sha256))
       (value_error ''collection reward identity mismatch'')) (\<lambda>_.
     rbind (case real_num (ta_optimizer_reward a) of
         None \<Rightarrow> Inl (value_error ''collection optimizer reward must be finite'')
       | Some x \<Rightarrow> rbind (num_to_float x) (\<lambda>f. if is_finite f then Inr f
           else Inl (value_error ''collection optimizer reward must be finite''))) (\<lambda>optimizer_reward.
     case plain_int (ta_raw_reward a) of
       None \<Rightarrow> Inl (value_error ''collection raw reward must be an integer'')
     | Some raw_reward \<Rightarrow>
     rbind (case plain_int (ta_invalid_actions a) of
         None \<Rightarrow> Inl (value_error ''collection invalid-action count is malformed'')
       | Some n \<Rightarrow> if n < 0 then Inl (value_error ''collection invalid-action count is malformed'')
           else if n \<noteq> 0 then Inl (value_error ''collection contains invalid actions'') else Inr n) (\<lambda>_.
     rbind (audit_decisions E scale None decisions) (\<lambda>rows.
     rbind (rguard (transitions \<noteq> decision_rows * int (lane_width_of rows))
       (value_error ''collection transition count does not match decision audits'')) (\<lambda>_.
     rbind (rguard (raw_reward \<noteq> raw_total rows)
       (value_error ''collection raw reward does not match decision rows'')) (\<lambda>_.
     rbind (rguard (\<not> fl_eq optimizer_reward (optimizer_total E rows))
       (value_error ''collection optimizer reward does not match decision rows'')) (\<lambda>_.
     Inr \<lparr>am_decision_rows = decision_rows, am_transitions = transitions, am_raw_reward = raw_reward,
       am_optimizer_reward = optimizer_reward, am_reward_sha256 = reward_sha256,
       am_decisions = rows\<rparr>)))))))))))"

definition json_row :: "audit_row \<Rightarrow> jval" where
  "json_row row = JObj [(''raw_rewards'', json_ints (ar_raw_rewards row)),
     (''shaping_weight_ppm'', json_ints (ar_shaping_weight_ppm row)),
     (''scaled_raw_rewards'', JList (map JFloat (ar_scaled_raw_rewards row))),
     (''shaping_rewards'', JList (map JFloat (ar_shaping_rewards row))),
     (''optimizer_rewards'', JList (map JFloat (ar_optimizer_rewards row)))]"

definition json_manifest :: "audit_manifest \<Rightarrow> jval" where
  "json_manifest man = JObj [(''decision_rows'', JInt (am_decision_rows man)),
     (''transitions'', JInt (am_transitions man)), (''raw_reward'', JInt (am_raw_reward man)),
     (''optimizer_reward'', JFloat (am_optimizer_reward man)), (''invalid_actions'', JInt 0),
     (''reward_sha256'', JStr (am_reward_sha256 man)),
     (''decisions'', JList (map json_row (am_decisions man)))]"

definition any_shaping :: "audit_manifest \<Rightarrow> bool" where
  "any_shaping man \<longleftrightarrow> (\<exists>row \<in> set (am_decisions man). \<exists>w \<in> set (ar_shaping_weight_ppm row). w \<noteq> 0)"

section \<open>The controller\<close>

datatype tail_phase = Sweep | Draining | ScoreOnly | Complete

fun phase_name :: "tail_phase \<Rightarrow> string" where
  "phase_name Sweep = ''sweep''" | "phase_name Draining = ''draining''"
| "phase_name ScoreOnly = ''score_only''" | "phase_name Complete = ''complete''"

record tail =
  tl_sweep_updates :: int
  tl_reward_scale :: pyfloat
  tl_reward_sha256 :: string
  tl_minimum :: int
  tl_phase :: tail_phase
  tl_completed_updates :: int
  tl_drain_collections :: int
  tl_score_only_updates :: int
  tl_event_count :: int
  tl_event_head :: string
  tl_pending :: "(int \<times> string) option"

definition tail_init :: "pyval \<Rightarrow> pyval \<Rightarrow> pyval \<Rightarrow> pyval \<Rightarrow> tail res" where
  "tail_init sweep_updates reward_scale reward_sha256 minimum =
     (case plain_int sweep_updates of
        None \<Rightarrow> Inl (value_error ''sweep update count must be a positive integer'')
      | Some n \<Rightarrow>
        if n \<le> 0 then Inl (value_error ''sweep update count must be a positive integer'')
        else case plain_int minimum of
          None \<Rightarrow> Inl (value_error ''score-only tail must contain at least 400 updates'')
        | Some k \<Rightarrow>
          if k < 400 then Inl (value_error ''score-only tail must contain at least 400 updates'')
          else case real_num reward_scale of
            None \<Rightarrow> Inl (value_error ''tail reward scale and identity are invalid'')
          | Some x \<Rightarrow> rbind (num_to_float x) (\<lambda>scale.
            case plain_str reward_sha256 of
              None \<Rightarrow> Inl (value_error ''tail reward scale and identity are invalid'')
            | Some sha \<Rightarrow>
              if \<not> is_finite scale \<or> num_le x (NInt 0) \<or> \<not> is_sha256 reward_sha256 \<or> sha = ZERO_SHA256
              then Inl (value_error ''tail reward scale and identity are invalid'')
              else Inr \<lparr>tl_sweep_updates = n, tl_reward_scale = scale, tl_reward_sha256 = sha,
                tl_minimum = k, tl_phase = Sweep, tl_completed_updates = 0, tl_drain_collections = 0,
                tl_score_only_updates = 0, tl_event_count = 0, tl_event_head = ZERO_SHA256,
                tl_pending = None\<rparr>))"

definition TAIL_VERSION :: string where
  "TAIL_VERSION = ''score-only-tail-controller-v3''"

definition tail_manifest :: "tail \<Rightarrow> jval" where
  "tail_manifest t = JObj [(''version'', JStr TAIL_VERSION), (''sweep_updates'', JInt (tl_sweep_updates t)),
     (''minimum_score_only_updates'', JInt (tl_minimum t)), (''reward_scale'', JFloat (tl_reward_scale t)),
     (''reward_sha256'', JStr (tl_reward_sha256 t)), (''score_only_weight_ppm'', JInt 0),
     (''drain_advances_optimizer_clock'', JBool False)]"

definition tail_sha256 :: "tail_env \<Rightarrow> tail \<Rightarrow> string" where
  "tail_sha256 E t = te_digest E (tail_manifest t)"

definition tail_clock :: "pyval \<Rightarrow> (tail, int) py" where
  "tail_clock completed_updates =
     pbind (plift (canonical_nonnegative completed_updates ''completed update clock'')) (\<lambda>v.
     pbind (pget tl_completed_updates) (\<lambda>current.
     pbind (pguard (v \<noteq> current)
       (value_error ''tail and optimizer update clocks are discontinuous'')) (\<lambda>_. pret v)))"

definition append_event :: "tail_env \<Rightarrow> string \<Rightarrow> (string \<times> jval) list \<Rightarrow> (tail, unit) py" where
  "append_event E kind payload = pmod (\<lambda>t. t\<lparr>
     tl_event_head := te_digest E (JObj [(''previous'', JStr (tl_event_head t)),
       (''event_count'', JInt (tl_event_count t + 1)), (''kind'', JStr kind),
       (''completed_updates'', JInt (tl_completed_updates t)), (''payload'', JObj payload)]),
     tl_event_count := tl_event_count t + 1\<rparr>)"

datatype collection_kind = Train | Drain | Closed

definition collection_mode :: "tail_env \<Rightarrow> pyval \<Rightarrow> weights_arg \<Rightarrow> (tail, collection_kind) py" where
  "collection_mode E completed_updates lane_weights =
     pbind (pget tl_pending) (\<lambda>pending.
     pbind (pguard (pending \<noteq> None) (Exn RuntimeError ''an optimizer update is awaiting completion'')) (\<lambda>_.
     pbind (tail_clock completed_updates) (\<lambda>_.
     pbind (plift (weights_of lane_weights ''lane shaping weights'')) (\<lambda>weights.
     let all_zero = list_all (\<lambda>w. w = 0) weights in
     pbind (pget tl_phase) (\<lambda>phase.
     pbind (pget (\<lambda>t. tl_completed_updates t < tl_sweep_updates t)) (\<lambda>sweeping.
     if phase = Complete then
       pbind (pguard (\<not> all_zero) (value_error ''shaping weight became nonzero after tail completion'')) (\<lambda>_.
       pret Closed)
     else if phase = Sweep \<and> sweeping then pret Train
     else
       pbind (pwhen (phase = Sweep)
         (pbind (pmod (\<lambda>t. t\<lparr>tl_phase := Draining\<rparr>)) (\<lambda>_.
          append_event E ''tail_drain_started'' [(''lane_shaping_weight_ppm'', json_ints weights)]))) (\<lambda>_.
       pbind (pget tl_phase) (\<lambda>phase.
       pbind (if phase = Draining \<and> all_zero then
            pbind (pmod (\<lambda>t. t\<lparr>tl_phase := ScoreOnly\<rparr>)) (\<lambda>_.
            append_event E ''score_only_started'' [(''lane_shaping_weight_ppm'', json_ints weights)])
          else pguard (phase = ScoreOnly \<and> \<not> all_zero)
            (value_error ''shaping weight became nonzero during the score-only tail'')) (\<lambda>_.
       pget (\<lambda>t. if tl_phase t = Draining then Drain else Train))))))))))"

definition audit_now :: "tail_env \<Rightarrow> tail_audit option \<Rightarrow> (tail, audit_manifest) py" where
  "audit_now E audit = pbind (pget (\<lambda>t. audit_manifest_of E audit (tl_reward_scale t) (tl_reward_sha256 t))) plift"

definition record_drain :: "tail_env \<Rightarrow> tail_audit option \<Rightarrow> pyval \<Rightarrow> (tail, string) py" where
  "record_drain E audit completed_updates =
     pbind (pget tl_pending) (\<lambda>pending.
     pbind (pguard (pending \<noteq> None) (Exn RuntimeError ''an optimizer update is awaiting completion'')) (\<lambda>_.
     pbind (tail_clock completed_updates) (\<lambda>_.
     pbind (pget tl_phase) (\<lambda>phase.
     pbind (pguard (phase \<noteq> Draining)
       (Exn RuntimeError ''drain evidence is only valid during tail draining'')) (\<lambda>_.
     pbind (audit_now E audit) (\<lambda>man.
     pbind (pguard (\<not> any_shaping man)
       (value_error ''an all-zero collection must not be recorded as a drain'')) (\<lambda>_.
     let audit_sha256 = te_digest E (json_manifest man) in
     pbind (pmod (\<lambda>t. t\<lparr>tl_drain_collections := tl_drain_collections t + 1\<rparr>)) (\<lambda>_.
     pbind (pget tl_drain_collections) (\<lambda>n.
     pbind (append_event E ''drain_collection''
       [(''audit_sha256'', JStr audit_sha256), (''drain_collections'', JInt n)]) (\<lambda>_.
     pret audit_sha256))))))))))"

definition validate_optimizer_update ::
  "tail_env \<Rightarrow> tail_audit option \<Rightarrow> pyval \<Rightarrow> (tail, string) py" where
  "validate_optimizer_update E audit completed_updates =
     pbind (pget tl_pending) (\<lambda>pending.
     pbind (pguard (pending \<noteq> None)
       (Exn RuntimeError ''an optimizer update is already awaiting completion'')) (\<lambda>_.
     pbind (tail_clock completed_updates) (\<lambda>before.
     pbind (pget tl_phase) (\<lambda>phase.
     pbind (pguard (phase = Draining \<or> phase = Complete)
       (Exn RuntimeError (''optimizer updates are forbidden during '' @ phase_name phase))) (\<lambda>_.
     pbind (pget (\<lambda>t. phase = Sweep \<and> tl_sweep_updates t \<le> before)) (\<lambda>unresolved.
     pbind (pguard unresolved
       (Exn RuntimeError ''tail collection mode must be resolved after the sweep'')) (\<lambda>_.
     pbind (audit_now E audit) (\<lambda>man.
     pbind (pguard (phase = ScoreOnly \<and> any_shaping man)
       (value_error ''score-only optimizer audit contains nonzero shaping'')) (\<lambda>_.
     let audit_sha256 = te_digest E (json_manifest man) in
     pbind (pmod (\<lambda>t. t\<lparr>tl_pending := Some (before, audit_sha256)\<rparr>)) (\<lambda>_.
     pret audit_sha256))))))))))"

definition record_optimizer_update ::
  "tail_env \<Rightarrow> tail_audit option \<Rightarrow> pyval \<Rightarrow> (tail, string) py" where
  "record_optimizer_update E audit completed_updates =
     pbind (pget tl_pending) (\<lambda>pending. case pending of
       None \<Rightarrow> praise (Exn RuntimeError ''optimizer update was not validated before mutation'')
     | Some (before, validated) \<Rightarrow>
     pbind (plift (canonical_nonnegative completed_updates ''completed update clock'')) (\<lambda>after.
     pbind (pget tl_completed_updates) (\<lambda>current.
     pbind (pguard (after \<noteq> before + 1 \<or> before \<noteq> current)
       (value_error ''optimizer update clock did not advance by exactly one'')) (\<lambda>_.
     pbind (audit_now E audit) (\<lambda>man.
     let audit_sha256 = te_digest E (json_manifest man) in
     pbind (pguard (audit_sha256 \<noteq> validated)
       (value_error ''optimizer update audit changed after validation'')) (\<lambda>_.
     pbind (pmod (\<lambda>t. t\<lparr>tl_pending := None, tl_completed_updates := after,
       tl_score_only_updates := tl_score_only_updates t + (if tl_phase t = ScoreOnly then 1 else 0)\<rparr>)) (\<lambda>_.
     pbind (pget tl_phase) (\<lambda>phase.
     pbind (pget tl_score_only_updates) (\<lambda>n.
     pbind (append_event E ''optimizer_update'' [(''audit_sha256'', JStr audit_sha256),
       (''phase'', JStr (phase_name phase)), (''score_only_updates'', JInt n)]) (\<lambda>_.
     pbind (pget (\<lambda>t. phase = ScoreOnly \<and> tl_minimum t \<le> n)) (\<lambda>finished.
     pbind (pwhen finished
       (pbind (pmod (\<lambda>t. t\<lparr>tl_phase := Complete\<rparr>)) (\<lambda>_.
        append_event E ''score_only_complete'' [(''score_only_updates'', JInt n)]))) (\<lambda>_.
     pret audit_sha256))))))))))))"

section \<open>Checkpoints\<close>

text \<open>The fields a checkpoint carries, as Python values: \<open>load_state_dict\<close> assigns them before
  they are validated.\<close>

record tail_fields =
  tf_phase :: pyval
  tf_completed_updates :: pyval
  tf_drain_collections :: pyval
  tf_score_only_updates :: pyval
  tf_event_count :: pyval
  tf_event_head :: pyval

definition phase_of_name :: "string \<Rightarrow> tail_phase option" where
  "phase_of_name s = (if s = ''sweep'' then Some Sweep else if s = ''draining'' then Some Draining
     else if s = ''score_only'' then Some ScoreOnly else if s = ''complete'' then Some Complete else None)"

definition nonneg_int :: "pyval \<Rightarrow> int option" where
  "nonneg_int v = (case plain_int v of Some n \<Rightarrow> if n < 0 then None else Some n | None \<Rightarrow> None)"

definition expected_events :: "tail_phase \<Rightarrow> int \<Rightarrow> int \<Rightarrow> int" where
  "expected_events phase completed drains = completed + drains + (if phase \<noteq> Sweep then 1 else 0)
     + (if phase = ScoreOnly \<or> phase = Complete then 1 else 0) + (if phase = Complete then 1 else 0)"

type_synonym tail_counts = "tail_phase \<times> int \<times> int \<times> int \<times> int \<times> string"

text \<open>The checks on the values, in order.  A list is not hashable, so looking it up in the set of
  phases raises; \<open>PyOther\<close> stands for hashable values here.\<close>

definition check_counts :: "tail \<Rightarrow> tail_counts \<Rightarrow> tail_counts res" where
  "check_counts t = (\<lambda>(phase, completed, drains, score_only, events, head).
     if tl_sweep_updates t + tl_minimum t < completed
     then Inl (value_error ''tail checkpoint exceeds its optimizer budget'')
     else if score_only \<noteq> max (completed - tl_sweep_updates t) 0
     then Inl (value_error ''tail score-only and optimizer clocks disagree'')
     else if events \<noteq> expected_events phase completed drains
     then Inl (value_error ''tail event count disagrees with checkpoint state'')
     else if (events = 0) \<noteq> (head = ZERO_SHA256)
     then Inl (value_error ''tail event-chain head disagrees with event count'')
     else if phase = Sweep \<and> (tl_sweep_updates t < completed \<or> drains \<noteq> 0 \<or> score_only \<noteq> 0)
     then Inl (value_error ''sweep checkpoint state is inconsistent'')
     else if phase = Draining \<and> (completed \<noteq> tl_sweep_updates t \<or> score_only \<noteq> 0)
     then Inl (value_error ''draining checkpoint state is inconsistent'')
     else if phase = ScoreOnly \<and> \<not> (tl_sweep_updates t \<le> completed \<and>
       completed < tl_sweep_updates t + tl_minimum t)
     then Inl (value_error ''score-only checkpoint state is inconsistent'')
     else if phase = Complete \<and> (score_only < tl_minimum t \<or> completed \<noteq> tl_sweep_updates t + score_only)
     then Inl (value_error ''complete tail checkpoint state is inconsistent'')
     else Inr (phase, completed, drains, score_only, events, head))"

definition validate_fields :: "tail \<Rightarrow> tail_fields \<Rightarrow> tail_counts res" where
  "validate_fields t f = (case tf_phase f of
     PySeq _ \<Rightarrow> Inl (Exn TypeError ''unhashable type'')
   | v \<Rightarrow> (case plain_str v of
       None \<Rightarrow> Inl (value_error ''tail checkpoint phase is invalid'')
     | Some s \<Rightarrow> (case phase_of_name s of
         None \<Rightarrow> Inl (value_error ''tail checkpoint phase is invalid'')
       | Some phase \<Rightarrow>
         if \<not> is_sha256 (tf_event_head f) then Inl (value_error ''tail event-chain head is malformed'')
         else case (nonneg_int (tf_completed_updates f), nonneg_int (tf_drain_collections f),
             nonneg_int (tf_score_only_updates f), nonneg_int (tf_event_count f), plain_str (tf_event_head f)) of
           (Some c, Some d, Some k, Some n, Some h) \<Rightarrow> check_counts t (phase, c, d, k, n, h)
         | _ \<Rightarrow> Inl (value_error ''tail checkpoint counters are malformed''))))"

definition own_fields :: "tail \<Rightarrow> tail_fields" where
  "own_fields t = \<lparr>tf_phase = PyStr (phase_name (tl_phase t)),
     tf_completed_updates = PyInt (tl_completed_updates t),
     tf_drain_collections = PyInt (tl_drain_collections t),
     tf_score_only_updates = PyInt (tl_score_only_updates t),
     tf_event_count = PyInt (tl_event_count t), tf_event_head = PyStr (tl_event_head t)\<rparr>"

definition tail_state_dict :: "tail_env \<Rightarrow> (tail, (string \<times> pyval) list) py" where
  "tail_state_dict E =
     pbind (pget tl_pending) (\<lambda>pending.
     pbind (pguard (pending \<noteq> None) (Exn RuntimeError ''cannot checkpoint inside an optimizer transaction'')) (\<lambda>_.
     pbind (pget (\<lambda>t. validate_fields t (own_fields t))) (\<lambda>checked.
     pbind (plift checked) (\<lambda>_.
     pget (\<lambda>t. [(''version'', PyStr TAIL_VERSION), (''identity_sha256'', PyStr (tail_sha256 E t)),
       (''phase'', PyStr (phase_name (tl_phase t))),
       (''completed_updates'', PyInt (tl_completed_updates t)),
       (''drain_collections'', PyInt (tl_drain_collections t)),
       (''score_only_updates'', PyInt (tl_score_only_updates t)),
       (''event_count'', PyInt (tl_event_count t)), (''event_head'', PyStr (tl_event_head t))])))))"

definition STATE_KEYS :: "string list" where
  "STATE_KEYS = [''version'', ''identity_sha256'', ''phase'', ''completed_updates'',
     ''drain_collections'', ''score_only_updates'', ''event_count'', ''event_head'']"

definition fields_of :: "(string \<times> pyval) list \<Rightarrow> tail_fields" where
  "fields_of d = (let g = (\<lambda>k. the (map_of d k)) in \<lparr>tf_phase = g ''phase'',
     tf_completed_updates = g ''completed_updates'', tf_drain_collections = g ''drain_collections'',
     tf_score_only_updates = g ''score_only_updates'', tf_event_count = g ''event_count'',
     tf_event_head = g ''event_head''\<rparr>)"

text \<open>The assignments are undone when validation raises, so the state only changes on success.\<close>

definition tail_load_state_dict :: "tail_env \<Rightarrow> (string \<times> pyval) list \<Rightarrow> (tail, unit) py" where
  "tail_load_state_dict E d =
     pbind (pguard (set (map fst d) \<noteq> set STATE_KEYS \<or> \<not> py_eq (the (map_of d ''version'')) (PyStr TAIL_VERSION))
       (value_error ''tail checkpoint keys or version do not match'')) (\<lambda>_.
     pbind (pget (\<lambda>t. \<not> py_eq (the (map_of d ''identity_sha256'')) (PyStr (tail_sha256 E t)))) (\<lambda>other.
     pbind (pguard other (value_error ''tail checkpoint identity mismatch'')) (\<lambda>_.
     pbind (pget tl_pending) (\<lambda>pending.
     pbind (pguard (pending \<noteq> None) (Exn RuntimeError ''cannot restore inside an optimizer transaction'')) (\<lambda>_.
     pbind (pget (\<lambda>t. validate_fields t (fields_of d))) (\<lambda>checked.
     pbind (plift checked) (\<lambda>(phase, completed, drains, score_only, events, head).
     pmod (\<lambda>t. t\<lparr>tl_phase := phase, tl_completed_updates := completed, tl_drain_collections := drains,
       tl_score_only_updates := score_only, tl_event_count := events, tl_event_head := head\<rparr>))))))))"

end
