(* ===== verification/Tail_Props.thy ===== *)
theory Tail_Props
  imports Tail
begin

text \<open>
  The score-only tail controller is correct: the invariant of its state, what every call does to it
  (as rules in weakest-precondition style), the abstract life cycle it refines, checkpoints, and
  the content of an audited score-only update.
\<close>

text \<open>The digests are SHA-256 values in lower-case hexadecimal, none of them all zeros.\<close>

definition digests_ok :: "tail_env \<Rightarrow> bool" where
  "digests_ok E \<longleftrightarrow> (\<forall>v. is_sha256 (PyStr (te_digest E v)) \<and> te_digest E v \<noteq> ZERO_SHA256)"

definition counts_of :: "tail \<Rightarrow> tail_counts" where
  "counts_of t = (tl_phase t, tl_completed_updates t, tl_drain_collections t, tl_score_only_updates t,
     tl_event_count t, tl_event_head t)"

text \<open>
  The invariant: the clocks and counters agree with the phase, the event count is the number of
  recorded events, the chain head is the zero digest exactly when nothing was recorded, and an
  outstanding update was validated at the current clock in a phase that trains.
\<close>

definition tail_inv :: "tail \<Rightarrow> bool" where
  "tail_inv t \<longleftrightarrow> 0 < tl_sweep_updates t \<and> 0 < tl_minimum t \<and>
     0 \<le> tl_completed_updates t \<and> 0 \<le> tl_drain_collections t \<and> is_sha256 (PyStr (tl_event_head t)) \<and>
     tl_completed_updates t \<le> tl_sweep_updates t + tl_minimum t \<and>
     tl_score_only_updates t = max (tl_completed_updates t - tl_sweep_updates t) 0 \<and>
     tl_event_count t = expected_events (tl_phase t) (tl_completed_updates t) (tl_drain_collections t) \<and>
     (tl_event_count t = 0 \<longleftrightarrow> tl_event_head t = ZERO_SHA256) \<and>
     (tl_phase t = Sweep \<longrightarrow> tl_completed_updates t \<le> tl_sweep_updates t \<and> tl_drain_collections t = 0) \<and>
     (tl_phase t = Draining \<longrightarrow> tl_completed_updates t = tl_sweep_updates t) \<and>
     (tl_phase t = ScoreOnly \<longrightarrow> tl_sweep_updates t \<le> tl_completed_updates t \<and>
        tl_completed_updates t < tl_sweep_updates t + tl_minimum t) \<and>
     (tl_phase t = Complete \<longrightarrow> tl_completed_updates t = tl_sweep_updates t + tl_minimum t) \<and>
     (\<forall>before sha. tl_pending t = Some (before, sha) \<longrightarrow> before = tl_completed_updates t \<and>
        (tl_phase t = Sweep \<and> before < tl_sweep_updates t \<or> tl_phase t = ScoreOnly))"

lemma check_counts_Inr:
  "check_counts t (p, c, d, k, n, h) = Inr r \<longleftrightarrow> r = (p, c, d, k, n, h) \<and>
     c \<le> tl_sweep_updates t + tl_minimum t \<and> k = max (c - tl_sweep_updates t) 0 \<and>
     n = expected_events p c d \<and> (n = 0 \<longleftrightarrow> h = ZERO_SHA256) \<and>
     (p = Sweep \<longrightarrow> c \<le> tl_sweep_updates t \<and> d = 0 \<and> k = 0) \<and>
     (p = Draining \<longrightarrow> c = tl_sweep_updates t \<and> k = 0) \<and>
     (p = ScoreOnly \<longrightarrow> tl_sweep_updates t \<le> c \<and> c < tl_sweep_updates t + tl_minimum t) \<and>
     (p = Complete \<longrightarrow> tl_minimum t \<le> k \<and> c = tl_sweep_updates t + k)"
  by (auto simp: check_counts_def split: if_splits)

lemma check_counts_config:
  assumes "tl_sweep_updates t' = tl_sweep_updates t" "tl_minimum t' = tl_minimum t"
  shows "check_counts t' = check_counts t"
  unfolding check_counts_def assms by (rule refl)

lemma tail_inv_checks: "tail_inv t \<Longrightarrow> check_counts t (counts_of t) = Inr (counts_of t)"
  unfolding counts_of_def check_counts_Inr tail_inv_def
  by (elim conjE, intro conjI refl) auto

section \<open>The life cycle\<close>

type_synonym life_state = "tail_phase \<times> int \<times> int"

text \<open>The abstract life cycle for \<open>n\<close> sweep updates and \<open>k\<close> score-only updates: the phase, the
  optimizer updates so far and the drain collections so far.\<close>

inductive life :: "int \<Rightarrow> int \<Rightarrow> life_state \<Rightarrow> life_state \<Rightarrow> bool" for n k where
  sweep_update: "c < n \<Longrightarrow> life n k (Sweep, c, d) (Sweep, c + 1, d)"
| start_drain: "life n k (Sweep, n, d) (Draining, n, d)"
| drain: "life n k (Draining, n, d) (Draining, n, d + 1)"
| start_score_only: "life n k (Draining, n, d) (ScoreOnly, n, d)"
| score_only_update: "c + 1 < n + k \<Longrightarrow> life n k (ScoreOnly, c, d) (ScoreOnly, c + 1, d)"
| finish: "c + 1 = n + k \<Longrightarrow> life n k (ScoreOnly, c, d) (Complete, c + 1, d)"

inductive_cases life_from_complete: "life n k (Complete, c, d) s"
inductive_simps life_from_draining: "life n k (Draining, c, d) s"

definition life_of :: "tail \<Rightarrow> life_state" where
  "life_of t = (tl_phase t, tl_completed_updates t, tl_drain_collections t)"

definition advances :: "tail \<Rightarrow> tail \<Rightarrow> bool" where
  "advances s t \<longleftrightarrow> tail_inv t \<and> tl_sweep_updates t = tl_sweep_updates s \<and> tl_minimum t = tl_minimum s \<and>
     tl_reward_scale t = tl_reward_scale s \<and> tl_reward_sha256 t = tl_reward_sha256 s \<and>
     (life (tl_sweep_updates s) (tl_minimum s))\<^sup>*\<^sup>* (life_of s) (life_of t)"

lemma advances_refl: "tail_inv s \<Longrightarrow> advances s s"
  by (simp add: advances_def)

lemma advances_trans: "advances s t \<Longrightarrow> advances t u \<Longrightarrow> advances s u"
  by (auto simp: advances_def intro: rtranclp_trans)

lemma tail_clock_wp:
  "wp (tail_clock v) (\<lambda>c t. t = s \<and> c = tl_completed_updates s) (\<lambda>_ t. t = s) s"
  by (auto simp: tail_clock_def wp_simps split: sum.split)

lemma wp_append_event [wp_simps]:
  "wp (append_event E kind p) Q X = (\<lambda>t. Q () (t\<lparr>
     tl_event_head := te_digest E (JObj [(''previous'', JStr (tl_event_head t)),
       (''event_count'', JInt (tl_event_count t + 1)), (''kind'', JStr kind),
       (''completed_updates'', JInt (tl_completed_updates t)), (''payload'', JObj p)]),
     tl_event_count := tl_event_count t + 1\<rparr>))"
  by (simp add: append_event_def wp_simps)

lemma wp_audit_now [wp_simps]:
  "wp (audit_now E a) Q X = (\<lambda>t. case audit_manifest_of E a (tl_reward_scale t) (tl_reward_sha256 t) of
     Inl e \<Rightarrow> X e t | Inr man \<Rightarrow> Q man t)"
  by (rule ext) (simp add: audit_now_def wp_simps split: sum.split)

lemma digest_head: "digests_ok E \<Longrightarrow> is_sha256 (PyStr (te_digest E v))" "digests_ok E \<Longrightarrow> te_digest E v \<noteq> ZERO_SHA256"
  by (simp_all add: digests_ok_def)

lemma expected_pos: "0 \<le> c \<Longrightarrow> 0 \<le> d \<Longrightarrow> p \<noteq> Sweep \<Longrightarrow> 0 < expected_events p c d"
  by (cases p) (auto simp: expected_events_def)

lemma expected_simps [simp]:
  "expected_events Sweep c d = c + d" "expected_events Draining c d = c + d + 1"
  "expected_events ScoreOnly c d = c + d + 2" "expected_events Complete c d = c + d + 3"
  by (simp_all add: expected_events_def)

lemma mode_advances:
  assumes E: "digests_ok E" and s: "tail_inv s"
  shows "wp (collection_mode E v w) (\<lambda>_. advances s) (\<lambda>_ t. t = s) s"
proof (cases "tl_pending s")
  case (Some x)
  then show ?thesis by (simp add: collection_mode_def wp_simps)
next
  case None
  have clock: "wp (tail_clock v) (\<lambda>_ t. t = s) (\<lambda>_ t. t = s) s"
    by (rule wp_mono [OF tail_clock_wp]) auto
  have rest: "wp (pbind (plift (weights_of w ''lane shaping weights'')) (\<lambda>weights.
     let all_zero = list_all (\<lambda>w. w = 0) weights in
     pbind (pget tl_phase) (\<lambda>phase.
     pbind (pget (\<lambda>t. tl_completed_updates t < tl_sweep_updates t)) (\<lambda>sweeping.
     if phase = Complete then
       pbind (pguard (\<not> all_zero) (value_error ''shaping weight became nonzero after tail completion'')) (\<lambda>_.
       pret Closed)
     else if phase = Sweep \<and> sweeping then pret Train
     else
       pbind (pwhen (phase = Sweep)
         (pbind (pmod (\<lambda>t. t\<lparr>tl_phase := Draining\<rparr>)) (\<lambda>_.
          append_event E ''tail_drain_started'' [(''lane_shaping_weight_ppm'', json_ints weights)]))) (\<lambda>_.
       pbind (pget tl_phase) (\<lambda>phase.
       pbind (if phase = Draining \<and> all_zero then
            pbind (pmod (\<lambda>t. t\<lparr>tl_phase := ScoreOnly\<rparr>)) (\<lambda>_.
            append_event E ''score_only_started'' [(''lane_shaping_weight_ppm'', json_ints weights)])
          else pguard (phase = ScoreOnly \<and> \<not> all_zero)
            (value_error ''shaping weight became nonzero during the score-only tail'')) (\<lambda>_.
       pget (\<lambda>t. if tl_phase t = Draining then Drain else Train)))))))) (\<lambda>_. advances s) (\<lambda>_ t. t = s) s"
  proof (cases "tl_phase s")
    case Sweep
    show ?thesis
    proof (cases "tl_completed_updates s < tl_sweep_updates s")
      case True
      with Sweep show ?thesis by (simp add: wp_simps Let_def advances_refl [OF s] split: sum.split)
    next
      case False
      then have n: "tl_completed_updates s = tl_sweep_updates s" "tl_drain_collections s = 0"
        using s Sweep by (auto simp: tail_inv_def)
      have l: "life (tl_sweep_updates s) (tl_minimum s) (Sweep, tl_sweep_updates s, 0) (Draining, tl_sweep_updates s, 0)"
        "life (tl_sweep_updates s) (tl_minimum s) (Draining, tl_sweep_updates s, 0) (ScoreOnly, tl_sweep_updates s, 0)"
        by (rule start_drain, rule start_score_only)
      from l have l2: "(life (tl_sweep_updates s) (tl_minimum s))\<^sup>*\<^sup>* (Sweep, tl_sweep_updates s, 0) (ScoreOnly, tl_sweep_updates s, 0)"
        by (meson r_into_rtranclp rtranclp_trans)
      have l1: "(life (tl_sweep_updates s) (tl_minimum s))\<^sup>*\<^sup>* (Sweep, tl_sweep_updates s, 0) (Draining, tl_sweep_updates s, 0)"
        using l(1) by blast
      show ?thesis
        using s Sweep n l1 l2 digest_head [OF E]
        by (simp add: wp_simps Let_def advances_def tail_inv_def life_of_def None split: sum.split)
    qed
  next
    case Draining
    have n: "tl_completed_updates s = tl_sweep_updates s" using s Draining by (auto simp: tail_inv_def)
    have l: "(life (tl_sweep_updates s) (tl_minimum s))\<^sup>*\<^sup>* (Draining, tl_sweep_updates s, tl_drain_collections s)
        (ScoreOnly, tl_sweep_updates s, tl_drain_collections s)"
      by (rule r_into_rtranclp, rule start_score_only)
    show ?thesis
      using s Draining n l digest_head [OF E] advances_refl [OF s]
      by (auto simp: wp_simps Let_def advances_def tail_inv_def life_of_def None split: sum.split)
  next
    case ScoreOnly
    then show ?thesis
      using advances_refl [OF s] by (auto simp: wp_simps Let_def split: sum.split)
  next
    case Complete
    then show ?thesis
      using advances_refl [OF s] by (auto simp: wp_simps Let_def split: sum.split)
  qed
  show ?thesis
    unfolding collection_mode_def wp_pbind [of "pget tl_pending"] wp_pget None
    by (simp only: wp_pbind [of "pguard _ _"] wp_pguard simp_thms if_False wp_pbind [of "tail_clock _"])
      (rule wp_mono [OF clock], use rest in auto)
qed

lemma drain_advances:
  assumes E: "digests_ok E" and s: "tail_inv s"
  shows "wp (record_drain E a v) (\<lambda>_. advances s) (\<lambda>_ t. t = s) s"
proof -
  have clock: "wp (tail_clock v) (\<lambda>_ t. t = s) (\<lambda>_ t. t = s) s"
    by (rule wp_mono [OF tail_clock_wp]) auto
  have drain: "(life (tl_sweep_updates s) (tl_minimum s))\<^sup>*\<^sup>* (Draining, tl_sweep_updates s, tl_drain_collections s)
      (Draining, tl_sweep_updates s, tl_drain_collections s + 1)"
    by (rule r_into_rtranclp, rule life.drain)
  show ?thesis
    unfolding record_drain_def wp_pbind [of "pget tl_pending"] wp_pget wp_pbind [of "pguard _ _"] wp_pguard
      wp_pbind [of "tail_clock _"]
    by (auto intro!: wp_mono [OF clock] simp: wp_simps Let_def split: sum.split)
      (use s drain digest_head [OF E] in \<open>auto simp: advances_def tail_inv_def life_of_def\<close>)
qed

lemma validate_wp:
  assumes s: "tail_inv s"
  shows "wp (validate_optimizer_update E a v) (\<lambda>sha t. advances s t \<and> (\<exists>man.
      audit_manifest_of E a (tl_reward_scale s) (tl_reward_sha256 s) = Inr man \<and> sha = te_digest E (json_manifest man) \<and>
      t = s\<lparr>tl_pending := Some (tl_completed_updates s, sha)\<rparr> \<and>
      (tl_phase s = ScoreOnly \<longrightarrow> \<not> any_shaping man))) (\<lambda>_ t. t = s) s"
proof -
  have clock: "wp (tail_clock v) (\<lambda>c t. t = s \<and> c = tl_completed_updates s) (\<lambda>_ t. t = s) s"
    by (rule tail_clock_wp)
  show ?thesis
    unfolding validate_optimizer_update_def wp_pbind [of "pget tl_pending"] wp_pget wp_pbind [of "pguard _ _"] wp_pguard
      wp_pbind [of "tail_clock _"]
    by (auto intro!: wp_mono [OF clock] simp: wp_simps Let_def split: sum.split)
      (use s in \<open>cases "tl_phase s"; auto simp: advances_def tail_inv_def life_of_def\<close>)+
qed

lemma record_wp:
  assumes E: "digests_ok E" and s: "tail_inv s"
  shows "wp (record_optimizer_update E a v) (\<lambda>_. advances s) (\<lambda>_ t. t = s) s"
proof (cases "tl_pending s")
  case None
  then show ?thesis by (simp add: record_optimizer_update_def wp_simps)
next
  case (Some p)
  obtain before sha where p: "tl_pending s = Some (before, sha)" using Some by (cases p) simp
  then have b: "before = tl_completed_updates s"
    and ph: "tl_phase s = Sweep \<and> tl_completed_updates s < tl_sweep_updates s \<or> tl_phase s = ScoreOnly"
    using s by (auto simp: tail_inv_def)
  let ?n = "tl_sweep_updates s" and ?k = "tl_minimum s" and ?c = "tl_completed_updates s" and ?d = "tl_drain_collections s"
  have l: "?c < ?n \<Longrightarrow> (life ?n ?k)\<^sup>*\<^sup>* (Sweep, ?c, ?d) (Sweep, ?c + 1, ?d)"
    "?c + 1 < ?n + ?k \<Longrightarrow> (life ?n ?k)\<^sup>*\<^sup>* (ScoreOnly, ?c, ?d) (ScoreOnly, ?c + 1, ?d)"
    "?c + 1 = ?n + ?k \<Longrightarrow> (life ?n ?k)\<^sup>*\<^sup>* (ScoreOnly, ?c, ?d) (Complete, ?c + 1, ?d)"
    by (rule r_into_rtranclp, erule life.intros)+
  show ?thesis
  proof (cases "tl_phase s")
    case Sweep
    with p b ph s l digest_head [OF E] show ?thesis
      by (auto simp: record_optimizer_update_def wp_simps Let_def advances_def tail_inv_def life_of_def
          split: sum.split)
  next
    case ScoreOnly
    then have so: "?n \<le> ?c" "?c < ?n + ?k" "tl_score_only_updates s = ?c - ?n" "0 < ?n" "0 < ?k" "0 \<le> ?d"
      using s by (auto simp: tail_inv_def)
    show ?thesis
    proof (cases "?c + 1 = ?n + ?k")
      case True
      with ScoreOnly p b s l(3) so digest_head [OF E] show ?thesis
        by (auto simp: record_optimizer_update_def wp_simps Let_def advances_def tail_inv_def life_of_def
            split: sum.split)
    next
      case False
      with ScoreOnly p b s l(2) so digest_head [OF E] show ?thesis
        by (auto simp: record_optimizer_update_def wp_simps Let_def advances_def tail_inv_def life_of_def
            split: sum.split)
    qed
  qed (use ph in auto)
qed

section \<open>Checkpoints\<close>

lemma phase_roundtrip [simp]: "phase_of_name (phase_name p) = Some p"
  by (cases p) (simp_all add: phase_of_name_def)

lemma own_fields_validate:
  assumes "tail_inv t" and "tl_sweep_updates t' = tl_sweep_updates t" "tl_minimum t' = tl_minimum t"
  shows "validate_fields t' (own_fields t) = Inr (counts_of t)"
proof -
  have "0 \<le> tl_score_only_updates t" "0 \<le> tl_event_count t"
    using assms(1) by (auto simp: tail_inv_def expected_events_def)
  moreover have "is_sha256 (PyStr (tl_event_head t))" "0 \<le> tl_completed_updates t" "0 \<le> tl_drain_collections t"
    using assms(1) by (auto simp: tail_inv_def)
  ultimately have "validate_fields t' (own_fields t) = check_counts t' (counts_of t)"
    by (simp add: validate_fields_def own_fields_def nonneg_int_def counts_of_def)
  with check_counts_config [OF assms(2,3)] tail_inv_checks [OF assms(1)] show ?thesis by simp
qed

lemma validated_fields:
  assumes "validate_fields t f = Inr (p, c, d, k, n, h)"
  shows "0 \<le> c \<and> 0 \<le> d \<and> 0 \<le> k \<and> is_sha256 (PyStr h) \<and> check_counts t (p, c, d, k, n, h) = Inr (p, c, d, k, n, h)"
proof -
  obtain p' c' d' k' n' h' where v: "is_sha256 (tf_event_head f)" "nonneg_int (tf_completed_updates f) = Some c'"
    "nonneg_int (tf_drain_collections f) = Some d'" "nonneg_int (tf_score_only_updates f) = Some k'"
    "tf_event_head f = PyStr h'" and ch: "check_counts t (p', c', d', k', n', h') = Inr (p, c, d, k, n, h)"
    using assms by (auto simp: validate_fields_def split: pyval.splits option.splits if_splits)
  have "(p', c', d', k', n', h') = (p, c, d, k, n, h)" using ch check_counts_Inr by metis
  with v ch show ?thesis by (auto simp: nonneg_int_def split: option.splits if_splits)
qed

lemma state_dict_wp:
  assumes "tail_inv s"
  shows "wp (tail_state_dict E) (\<lambda>d t. t = s \<and> fields_of d = own_fields s \<and> tl_pending s = None \<and>
      set (map fst d) = set STATE_KEYS \<and> map_of d ''version'' = Some (PyStr TAIL_VERSION) \<and>
      map_of d ''identity_sha256'' = Some (PyStr (tail_sha256 E s))) (\<lambda>_ t. t = s \<and> tl_pending s \<noteq> None) s"
  using own_fields_validate [OF assms refl refl]
  by (cases "tl_pending s") (simp_all add: tail_state_dict_def wp_simps fields_of_def own_fields_def STATE_KEYS_def)

lemma inv_of_counts:
  assumes "0 < tl_sweep_updates t" "0 < tl_minimum t" "0 \<le> tl_completed_updates t"
    "0 \<le> tl_drain_collections t" "is_sha256 (PyStr (tl_event_head t))" "tl_pending t = None"
    and c: "check_counts t (counts_of t) = Inr r"
  shows "tail_inv t"
proof -
  note v = c [unfolded counts_of_def check_counts_Inr]
  have "tl_phase t = Complete \<longrightarrow> tl_completed_updates t = tl_sweep_updates t + tl_minimum t"
    using v by linarith
  with v assms(1-5) show ?thesis
    unfolding tail_inv_def assms(6) by (elim conjE, intro conjI) (blast | simp)+
qed

lemma load_wp:
  assumes s: "tail_inv s"
  shows "wp (tail_load_state_dict E d) (\<lambda>_ t. tail_inv t \<and> tl_sweep_updates t = tl_sweep_updates s \<and>
      tl_minimum t = tl_minimum s \<and> tl_reward_scale t = tl_reward_scale s \<and> tl_reward_sha256 t = tl_reward_sha256 s)
    (\<lambda>_ t. t = s) s"
proof -
  have sm: "0 < tl_sweep_updates s" "0 < tl_minimum s" using s by (auto simp: tail_inv_def)
  have i: "tail_inv (s\<lparr>tl_phase := p, tl_completed_updates := c, tl_drain_collections := dr,
       tl_score_only_updates := k, tl_event_count := n, tl_event_head := h\<rparr>)"
    if "validate_fields s f = Inr (p, c, dr, k, n, h)" "tl_pending s = None" for f p c dr k n h
  proof -
    let ?t = "s\<lparr>tl_phase := p, tl_completed_updates := c, tl_drain_collections := dr,
       tl_score_only_updates := k, tl_event_count := n, tl_event_head := h\<rparr>"
    note v = validated_fields [OF that(1)]
    have "check_counts ?t (counts_of ?t) = Inr (p, c, dr, k, n, h)"
      using v check_counts_config [of ?t s] by (simp add: counts_of_def)
    then show ?thesis by (rule inv_of_counts [rotated -1]) (use v sm that(2) in simp_all)
  qed
  show ?thesis
    by (cases "tl_pending s")
      (auto simp: tail_load_state_dict_def wp_simps split: sum.split prod.split intro: i)
qed

section \<open>Any sequence of calls\<close>

datatype tail_op =
    ToMode pyval weights_arg | ToDrain "tail_audit option" pyval
  | ToValidate "tail_audit option" pyval | ToRecord "tail_audit option" pyval
  | ToSave | ToLoad "(string \<times> pyval) list"

fun tail_do :: "tail_env \<Rightarrow> tail \<Rightarrow> tail_op \<Rightarrow> tail" where
  "tail_do E t (ToMode v w) = final (collection_mode E v w) t"
| "tail_do E t (ToDrain a v) = final (record_drain E a v) t"
| "tail_do E t (ToValidate a v) = final (validate_optimizer_update E a v) t"
| "tail_do E t (ToRecord a v) = final (record_optimizer_update E a v) t"
| "tail_do E t ToSave = final (tail_state_dict E) t"
| "tail_do E t (ToLoad d) = final (tail_load_state_dict E d) t"

fun is_load :: "tail_op \<Rightarrow> bool" where
  "is_load (ToLoad _) = True" | "is_load _ = False"

lemma tail_do_advances:
  assumes E: "digests_ok E" and s: "tail_inv s" and "\<not> is_load x"
  shows "advances s (tail_do E s x)"
proof -
  note r = advances_refl [OF s]
  have "wp (validate_optimizer_update E a v) (\<lambda>_. advances s) (\<lambda>_. advances s) s" for a v
    by (rule wp_mono [OF validate_wp [OF s]]) (auto simp: r)
  moreover have "wp (collection_mode E v w) (\<lambda>_. advances s) (\<lambda>_. advances s) s" for v w
    by (rule wp_mono [OF mode_advances [OF E s]]) (auto simp: r)
  moreover have "wp (record_drain E a v) (\<lambda>_. advances s) (\<lambda>_. advances s) s" for a v
    by (rule wp_mono [OF drain_advances [OF E s]]) (auto simp: r)
  moreover have "wp (record_optimizer_update E a v) (\<lambda>_. advances s) (\<lambda>_. advances s) s" for a v
    by (rule wp_mono [OF record_wp [OF E s]]) (auto simp: r)
  moreover have "wp (tail_state_dict E) (\<lambda>_. advances s) (\<lambda>_. advances s) s"
    by (rule wp_mono [OF state_dict_wp [OF s]]) (auto simp: r)
  ultimately show ?thesis using assms(3) by (cases x) (simp_all add: wp_final)
qed

lemma tail_do_inv:
  assumes E: "digests_ok E" and s: "tail_inv s"
  shows "tail_inv (tail_do E s x)"
proof (cases "is_load x")
  case False
  with tail_do_advances [OF E s] show ?thesis by (simp add: advances_def)
next
  case True
  have "wp (tail_load_state_dict E d) (\<lambda>_. tail_inv) (\<lambda>_. tail_inv) s" for d
    by (rule wp_mono [OF load_wp [OF s]]) (auto simp: s)
  with True show ?thesis by (cases x) (simp_all add: wp_final)
qed

text \<open>The controller as a machine; its rank is the number of optimizer updates it has recorded,
  which only a restore can lower.\<close>

interpretation tail_machine: op_machine "tail_do E" "\<lambda>t. digests_ok E \<longrightarrow> tail_inv t" for E
  by unfold_locales (simp add: tail_do_inv)

definition tail_run :: "tail_env \<Rightarrow> tail \<Rightarrow> tail_op \<Rightarrow> tail" where
  "tail_run E t x = (if is_load x then t else tail_do E t x)"

lemma life_updates: "life n k a b \<Longrightarrow> fst (snd a) \<le> fst (snd b)"
  by (induction rule: life.induct) simp_all

lemma life_updates_star: "(life n k)\<^sup>*\<^sup>* a b \<Longrightarrow> fst (snd a) \<le> fst (snd b)"
  by (induction rule: rtranclp_induct) (auto dest: life_updates)

interpretation tail_life: ranked_machine "tail_run E" "\<lambda>t. digests_ok E \<and> tail_inv t"
    "\<lambda>t. nat (tl_completed_updates t)" for E
proof unfold_locales
  fix s x assume s: "digests_ok E \<and> tail_inv s"
  then show "digests_ok E \<and> tail_inv (tail_run E s x)" by (simp add: tail_run_def tail_do_inv)
  have "advances s (tail_run E s x)"
    using s by (simp add: tail_run_def tail_do_advances advances_refl)
  then show "nat (tl_completed_updates s) \<le> nat (tl_completed_updates (tail_run E s x))"
    by (auto simp: advances_def life_of_def dest: life_updates_star)
qed

section \<open>Score-only rows\<close>

definition score_only_row :: "audit_row \<Rightarrow> bool" where
  "score_only_row row \<longleftrightarrow> (\<forall>w \<in> set (ar_shaping_weight_ppm row). w = 0) \<and>
     (\<forall>x \<in> set (ar_shaping_rewards row). x = Fin 0) \<and>
     ar_optimizer_rewards row = ar_scaled_raw_rewards row"

lemma zero_weights_pure:
  "\<not> zero_weight_impure ws shs rs xs \<Longrightarrow> \<forall>w \<in> set ws. w = 0 \<Longrightarrow> length shs = length ws \<Longrightarrow>
     length rs = length ws \<Longrightarrow> length xs = length ws \<Longrightarrow> (\<forall>x \<in> set shs. x = Fin 0) \<and> xs = rs"
  by (induction ws shs rs xs rule: zero_weight_impure.induct) (auto simp: fl_eq_def)

lemma finite_rows_length: "finite_rows v n l = Inr xs \<Longrightarrow> length xs = n"
  by (auto simp: finite_rows_def dest: rmap_length split: option.splits if_splits)

lemma audited_row_pure:
  assumes "audit_decision E scale lw d = Inr row" "\<forall>w \<in> set (ar_shaping_weight_ppm row). w = 0"
  shows "score_only_row row"
  using assms
  by (auto simp: audit_decision_def rbind_Inr Let_def score_only_row_def
      dest!: finite_rows_length intro: zero_weights_pure [THEN conjunct2] dest: zero_weights_pure [THEN conjunct1])

lemma audited_rows_pure:
  "audit_decisions E scale lw ds = Inr rows \<Longrightarrow> row \<in> set rows \<Longrightarrow>
     \<forall>w \<in> set (ar_shaping_weight_ppm row). w = 0 \<Longrightarrow> score_only_row row"
  by (induction E scale lw ds arbitrary: rows rule: audit_decisions.induct)
    (auto simp: rbind_Inr dest: audited_row_pure)

lemma audited_manifest:
  assumes "audit_manifest_of E a scale sha = Inr man"
  shows "\<exists>decisions. audit_decisions E scale None decisions = Inr (am_decisions man)"
    and "am_raw_reward man = raw_total (am_decisions man)"
  using assms by (auto simp: audit_manifest_of_def rbind_Inr split: option.splits if_splits)

lemma tail_init_inv:
  assumes "tail_init a b c d = Inr t"
  shows "tail_inv t" "tl_pending t = None" "tl_phase t = Sweep" "tl_completed_updates t = 0" "tl_drain_collections t = 0"
proof -
  have z: "is_sha256 (PyStr ZERO_SHA256)" by (simp add: is_sha256_def ZERO_SHA256_def hex_lower_def list_all_iff)
  obtain n scale sha k where "0 < n" "400 \<le> k" "t = \<lparr>tl_sweep_updates = n, tl_reward_scale = scale,
      tl_reward_sha256 = sha, tl_minimum = k, tl_phase = Sweep, tl_completed_updates = 0,
      tl_drain_collections = 0, tl_score_only_updates = 0, tl_event_count = 0,
      tl_event_head = ZERO_SHA256, tl_pending = None\<rparr>"
    using assms by (auto simp: tail_init_def rbind_Inr split: option.split_asm if_split_asm)
  then show "tail_inv t" "tl_pending t = None" "tl_phase t = Sweep" "tl_completed_updates t = 0" "tl_drain_collections t = 0"
    by (simp_all add: tail_inv_def z)
qed

section \<open>A concrete run\<close>

definition demo_tail_env :: tail_env where
  "demo_tail_env = \<lparr>te_scaled = (\<lambda>n scale. Inr (Fin (of_int n))), te_compose = (\<lambda>scaled shaping weights. Inr scaled),
     te_sum = (\<lambda>xs. foldl fl_add (Fin 0) xs), te_digest = (\<lambda>v. replicate 64 (CHR ''a''))\<rparr>"

lemma demo_digests: "digests_ok demo_tail_env"
  by (simp add: digests_ok_def demo_tail_env_def is_sha256_def hex_lower_def ZERO_SHA256_def list_all_iff)

definition demo_tail :: tail where
  "demo_tail = \<lparr>tl_sweep_updates = 1, tl_reward_scale = Fin 1, tl_reward_sha256 = replicate 64 (CHR ''b''),
     tl_minimum = 400, tl_phase = Sweep, tl_completed_updates = 0, tl_drain_collections = 0,
     tl_score_only_updates = 0, tl_event_count = 0, tl_event_head = ZERO_SHA256, tl_pending = None\<rparr>"

lemma demo_tail_init:
  "tail_init (PyInt 1) (PyFloat (Fin 1)) (PyStr (replicate 64 (CHR ''b''))) (PyInt 400) = Inr demo_tail"
  by (simp add: tail_init_def demo_tail_def num_le_def is_sha256_def hex_lower_def ZERO_SHA256_def list_all_iff)

definition demo_audit :: "tail_audit option" where
  "demo_audit = Some \<lparr>ta_decision_rows = PyInt 1, ta_transitions = PyInt 1,
     ta_decisions = Some [\<lparr>td_shaping_weight_ppm = WValue (PySeq [PyInt 0]), td_raw_rewards = PySeq [PyInt 0],
       td_scaled_raw_rewards = PySeq [PyFloat (Fin 0)], td_shaping_rewards = PySeq [PyFloat (Fin 0)],
       td_optimizer_rewards = PySeq [PyFloat (Fin 0)]\<rparr>],
     ta_reward_sha256 = PyStr (replicate 64 (CHR ''b'')), ta_optimizer_reward = PyFloat (Fin 0),
     ta_raw_reward = PyInt 0, ta_invalid_actions = PyInt 0\<rparr>"

lemma demo_manifest: "\<exists>man. audit_manifest_of demo_tail_env demo_audit (Fin 1) (replicate 64 (CHR ''b'')) = Inr man \<and>
    \<not> any_shaping man"
proof -
  have z: "fl_round 0 = Fin 0" by code_simp
  show ?thesis
    by (simp add: audit_manifest_of_def demo_audit_def canonical_nonnegative_def audit_decision_def weights_of_def
        ppm_item_def integer_rows_def finite_rows_def finite_item_def demo_tail_env_def Let_def fl_eq_def
        lane_width_of_def raw_total_def optimizer_total_def any_shaping_def z)
qed

text \<open>One sweep update, then the end of the sweep resolved with all weights zero.\<close>

definition demo_ops :: "tail_op list" where
  "demo_ops = [ToValidate demo_audit (PyInt 0), ToRecord demo_audit (PyInt 1),
     ToMode (PyInt 1) (WValue (PySeq [PyInt 0]))]"

lemma demo_tail_run: "\<exists>head. foldl (tail_do demo_tail_env) demo_tail demo_ops = demo_tail\<lparr>tl_phase := ScoreOnly,
    tl_completed_updates := 1, tl_event_count := 3, tl_event_head := head\<rparr>"
proof -
  obtain man where m: "audit_manifest_of demo_tail_env demo_audit (Fin 1) (replicate 64 (CHR ''b'')) = Inr man"
    using demo_manifest by blast
  show ?thesis
    by (simp add: demo_ops_def final_def validate_optimizer_update_def record_optimizer_update_def collection_mode_def
        pbind_def pget_def pguard_def pret_def pmod_def plift_def pwhen_def tail_clock_def canonical_nonnegative_def
        audit_now_def append_event_def weights_of_def ppm_item_def Let_def m demo_tail_def)
qed

lemma demo_tail_run_steps: "foldl (tail_run E) t demo_ops = foldl (tail_do E) t demo_ops"
  by (simp add: demo_ops_def tail_run_def)

lemma demo_tail_inv: "tail_inv (foldl (tail_do demo_tail_env) demo_tail demo_ops)"
  using tail_machine.inv_run [of demo_tail_env demo_tail demo_ops] demo_digests
    tail_init_inv(1) [OF demo_tail_init] by simp

lemma demo_tail_saves: "\<exists>state. tail_state_dict demo_tail_env (foldl (tail_do demo_tail_env) demo_tail demo_ops) =
    (Inr state, foldl (tail_do demo_tail_env) demo_tail demo_ops)"
proof -
  let ?t = "foldl (tail_do demo_tail_env) demo_tail demo_ops"
  have n: "tl_pending ?t = None" using demo_tail_run by (auto simp: demo_tail_def)
  have "wp (tail_state_dict demo_tail_env) (\<lambda>_ u. u = ?t) (\<lambda>_ _. False) ?t"
    by (rule wp_mono [OF state_dict_wp [OF demo_tail_inv]]) (use n in auto)
  then show ?thesis by (auto simp: wp_def split: prod.split_asm sum.split_asm)
qed

section \<open>The properties\<close>

text \<open>C38: whatever calls are made on a constructed controller, restores included, it can be
  checkpointed whenever no optimizer update is outstanding: the consistency checks of \<open>state_dict\<close>
  never refuse a state the controller reached, and the clocks satisfy the optimizer budget.\<close>

theorem tail_always_checkpoints:
  assumes "digests_ok E" "tail_init a b c d = Inr t0" "t = foldl (tail_do E) t0 ops" "tl_pending t = None"
  shows "\<exists>state. tail_state_dict E t = (Inr state, t) \<and>
    tl_completed_updates t \<le> tl_sweep_updates t + tl_minimum t \<and>
    tl_score_only_updates t = max (tl_completed_updates t - tl_sweep_updates t) 0"
proof -
  have t: "tail_inv t"
    using tail_machine.inv_run [of E t0 ops] tail_init_inv(1) [OF assms(2)] assms(1,3) by simp
  have "wp (tail_state_dict E) (\<lambda>_ u. u = t) (\<lambda>_ _. False) t"
    by (rule wp_mono [OF state_dict_wp [OF t]]) (use assms(4) in auto)
  then have "\<exists>state. tail_state_dict E t = (Inr state, t)"
    by (auto simp: wp_def split: prod.split_asm sum.split_asm)
  with t show ?thesis by (simp add: tail_inv_def)
qed

theorem tail_always_checkpoints_witness:
  "\<exists>state. tail_state_dict demo_tail_env (foldl (tail_do demo_tail_env) demo_tail demo_ops) =
    (Inr state, foldl (tail_do demo_tail_env) demo_tail demo_ops)"
proof -
  have "tl_pending (foldl (tail_do demo_tail_env) demo_tail demo_ops) = None"
    using demo_tail_run by (auto simp: demo_tail_def)
  then show ?thesis
    using tail_always_checkpoints [OF demo_digests demo_tail_init refl] by blast
qed

text \<open>Loading the checkpoint of any reached state into a newly constructed controller with the
  same arguments gives exactly that state.\<close>

theorem tail_restore_resumes:
  assumes "digests_ok E" "tail_init a b c d = Inr t0"
    and "s = foldl (tail_run E) t0 ops" "tail_state_dict E s = (Inr state, s')"
  shows "tail_load_state_dict E state t0 = (Inr (), s)"
proof -
  have i0: "digests_ok E \<and> tail_inv t0" using assms(1) tail_init_inv(1) [OF assms(2)] by simp
  have "advances t0 (foldl (tail_run E) t0 xs) \<and> tail_inv (foldl (tail_run E) t0 xs)" for xs
  proof (induction xs rule: rev_induct)
    case (snoc x xs)
    then have i: "tail_inv (foldl (tail_run E) t0 xs)" by simp
    have "advances (foldl (tail_run E) t0 xs) (foldl (tail_run E) t0 (xs @ [x]))"
      using tail_do_advances [OF assms(1) i] advances_refl [OF i] by (simp add: tail_run_def)
    with snoc show ?case by (auto intro: advances_trans simp: advances_def)
  qed (use i0 advances_refl in simp)
  then have adv: "advances t0 s" and s: "tail_inv s" by (simp_all add: assms(3))
  have cfg: "tl_sweep_updates t0 = tl_sweep_updates s" "tl_minimum t0 = tl_minimum s"
    "tl_reward_scale t0 = tl_reward_scale s" "tl_reward_sha256 t0 = tl_reward_sha256 s"
    using adv by (simp_all add: advances_def)
  from wp_resultD [OF state_dict_wp [OF s] assms(4)] have d: "fields_of state = own_fields s" "tl_pending s = None"
    "set (map fst state) = set STATE_KEYS" "map_of state ''version'' = Some (PyStr TAIL_VERSION)"
    "map_of state ''identity_sha256'' = Some (PyStr (tail_sha256 E s))" by simp_all
  have sha: "tail_sha256 E t0 = tail_sha256 E s" by (simp add: tail_sha256_def tail_manifest_def cfg)
  have v: "validate_fields t0 (own_fields s) = Inr (counts_of s)"
    by (rule own_fields_validate [OF s]) (simp_all add: cfg)
  have "tl_pending t0 = None" by (rule tail_init_inv(2) [OF assms(2)])
  then have "t0\<lparr>tl_phase := tl_phase s, tl_completed_updates := tl_completed_updates s,
      tl_drain_collections := tl_drain_collections s, tl_score_only_updates := tl_score_only_updates s,
      tl_event_count := tl_event_count s, tl_event_head := tl_event_head s\<rparr> = s"
    using cfg d(2) by (cases t0; cases s) simp
  then show ?thesis
    using d v sha \<open>tl_pending t0 = None\<close>
    by (simp add: tail_load_state_dict_def pbind_def pguard_def pget_def plift_def pmod_def pret_def counts_of_def)
qed

theorem tail_restore_resumes_witness:
  "\<exists>state head. tail_load_state_dict demo_tail_env state demo_tail = (Inr (), demo_tail\<lparr>tl_phase := ScoreOnly,
    tl_completed_updates := 1, tl_event_count := 3, tl_event_head := head\<rparr>)"
proof -
  obtain state where "tail_state_dict demo_tail_env (foldl (tail_do demo_tail_env) demo_tail demo_ops) =
    (Inr state, foldl (tail_do demo_tail_env) demo_tail demo_ops)" using demo_tail_saves by blast
  then have "tail_load_state_dict demo_tail_env state demo_tail =
      (Inr (), foldl (tail_do demo_tail_env) demo_tail demo_ops)"
    by (rule tail_restore_resumes [OF demo_digests demo_tail_init demo_tail_run_steps [symmetric]])
  then show ?thesis using demo_tail_run by metis
qed

text \<open>C30: between restores the controller refines the abstract life cycle: a number of updates up to the
  sweep length, then a drain of any length without an update, then exactly the budgeted number of
  score-only updates, then nothing more.\<close>

theorem tail_follows_life_cycle:
  assumes "digests_ok E" "tail_init a b c d = Inr t0"
    and "\<forall>x \<in> set ops. \<not> is_load x" "t = foldl (tail_do E) t0 ops"
  shows "(life (tl_sweep_updates t0) (tl_minimum t0))\<^sup>*\<^sup>* (Sweep, 0, 0) (life_of t) \<and>
    (tl_phase t = Complete \<longrightarrow> tl_completed_updates t = tl_sweep_updates t0 + tl_minimum t0)"
proof -
  have "advances t0 (foldl (tail_do E) t0 ops)" using assms(3)
  proof (induction ops rule: rev_induct)
    case Nil
    show ?case by (simp add: advances_refl tail_init_inv(1) [OF assms(2)])
  next
    case (snoc x xs)
    then have a: "advances t0 (foldl (tail_do E) t0 xs)" by simp
    then have "advances (foldl (tail_do E) t0 xs) (tail_do E (foldl (tail_do E) t0 xs) x)"
      by (intro tail_do_advances assms(1)) (use snoc.prems in \<open>auto simp: advances_def\<close>)
    with a show ?case by (auto intro: advances_trans)
  qed
  then have "advances t0 t" by (simp add: assms(4))
  then show ?thesis using tail_init_inv [OF assms(2)] by (auto simp: advances_def life_of_def tail_inv_def)
qed

theorem tail_follows_life_cycle_witness:
  "(life 1 400)\<^sup>*\<^sup>* (Sweep, 0, 0) (ScoreOnly, 1, 0)"
proof -
  have nl: "\<forall>x \<in> set demo_ops. \<not> is_load x" by (simp add: demo_ops_def)
  obtain head where r: "foldl (tail_do demo_tail_env) demo_tail demo_ops = demo_tail\<lparr>tl_phase := ScoreOnly,
    tl_completed_updates := 1, tl_event_count := 3, tl_event_head := head\<rparr>" using demo_tail_run by blast
  show ?thesis
    using tail_follows_life_cycle [OF demo_digests demo_tail_init nl refl, unfolded r]
    by (simp add: life_of_def demo_tail_def)
qed

text \<open>C39: an optimizer update that is allowed during the score-only phase trains on the raw score alone:
  in every lane of every audited decision the shaping weight is zero, the shaping reward is zero and
  the optimizer reward is the scaled raw reward.\<close>

theorem score_only_updates_are_pure:
  assumes "validate_optimizer_update E audit clock t = (Inr sha, t')" "tl_phase t = ScoreOnly" "tail_inv t"
  shows "\<exists>man. audit_manifest_of E audit (tl_reward_scale t) (tl_reward_sha256 t) = Inr man \<and>
    sha = te_digest E (json_manifest man) \<and> (\<forall>row \<in> set (am_decisions man). score_only_row row)"
proof -
  from wp_resultD [OF validate_wp [OF assms(3)] assms(1)] assms(2) obtain man where
    m: "audit_manifest_of E audit (tl_reward_scale t) (tl_reward_sha256 t) = Inr man"
    "sha = te_digest E (json_manifest man)" "\<not> any_shaping man" by auto
  obtain ds where "audit_decisions E (tl_reward_scale t) None ds = Inr (am_decisions man)"
    using audited_manifest(1) [OF m(1)] by blast
  with m show ?thesis by (auto simp: any_shaping_def intro: audited_rows_pure)
qed

theorem score_only_updates_are_pure_witness:
  "\<exists>t sha t' man. validate_optimizer_update demo_tail_env demo_audit (PyInt 1) t = (Inr sha, t') \<and>
     tl_phase t = ScoreOnly \<and> audit_manifest_of demo_tail_env demo_audit (tl_reward_scale t) (tl_reward_sha256 t) = Inr man \<and>
     (\<forall>row \<in> set (am_decisions man). score_only_row row)"
proof -
  obtain head where r: "foldl (tail_do demo_tail_env) demo_tail demo_ops = demo_tail\<lparr>tl_phase := ScoreOnly,
    tl_completed_updates := 1, tl_event_count := 3, tl_event_head := head\<rparr>" (is "?f = ?t") using demo_tail_run by blast
  have i: "tail_inv ?t" using demo_tail_inv r by simp
  have p: "tl_phase ?t = ScoreOnly" by simp
  obtain man where m: "audit_manifest_of demo_tail_env demo_audit (Fin 1) (replicate 64 (CHR ''b'')) = Inr man"
    "\<not> any_shaping man" using demo_manifest by blast
  have "\<exists>sha t'. validate_optimizer_update demo_tail_env demo_audit (PyInt 1) ?t = (Inr sha, t')"
    by (simp add: validate_optimizer_update_def pbind_def pget_def pguard_def pret_def pmod_def plift_def pwhen_def
        tail_clock_def canonical_nonnegative_def audit_now_def m Let_def demo_tail_def)
  then obtain sha t' where v: "validate_optimizer_update demo_tail_env demo_audit (PyInt 1) ?t = (Inr sha, t')" by blast
  show ?thesis using score_only_updates_are_pure [OF v p i] v p by metis
qed

end
