(* ===== verification/Actions.thy ===== *)
theory Actions
  imports Exact_Decode Py_Json
begin

text \<open>
  \<open>irisu_rl/actions.py\<close>: the semantic actions a policy chooses, their validation, their lowering
  to primitive actions of the environment and their 21-byte serialisation.  Coordinates are
  doubles as values (\<open>pyfloat\<close>); \<open>f64_value\<close> reads the eight bytes of a double.  The
  sign of zero is not represented, so a serialised coordinate is never the negative zero.
\<close>

section \<open>Reading a double\<close>

definition f64_value :: "f64 \<Rightarrow> pyfloat" where
  "f64_value b = (let n = uint b; neg = 2 ^ 63 \<le> n; e = n div 2 ^ 52 mod 2048; m = n mod 2 ^ 52 in
     if e = 2047 then (if m \<noteq> 0 then NaN else if neg then NInf else PInf)
     else let x = (if e = 0 then of_int m * pow2 (- 1074) else of_int (2 ^ 52 + m) * pow2 (e - 1075))
       in Fin (if neg then - x else x))"

section \<open>Semantic actions\<close>

datatype action_kind = WAIT | FIRE_WEAK | FIRE_STRONG

fun kind_code :: "action_kind \<Rightarrow> int" where
  "kind_code WAIT = 0" | "kind_code FIRE_WEAK = 1" | "kind_code FIRE_STRONG = 2"

text \<open>\<open>SemanticActionKind(value)\<close> looks a member up by equality of its value.\<close>

definition kind_of :: "pyval \<Rightarrow> action_kind option" where
  "kind_of v = find (\<lambda>k. py_eq v (PyInt (kind_code k))) [WAIT, FIRE_WEAK, FIRE_STRONG]"

text \<open>An action as a caller may build it, and one \<open>validate\<close> returned.\<close>

record semantic_action =
  ac_kind :: pyval
  ac_wait_ticks :: pyval
  ac_x_norm :: pyval
  ac_y_norm :: pyval

record valid_action =
  va_kind :: action_kind
  va_wait_ticks :: int
  va_x_norm :: pyfloat
  va_y_norm :: pyfloat

definition action_wait :: "pyval \<Rightarrow> semantic_action" where
  "action_wait ticks = \<lparr>ac_kind = PyInt (kind_code WAIT), ac_wait_ticks = ticks,
     ac_x_norm = PyFloat (Fin 0), ac_y_norm = PyFloat (Fin 0)\<rparr>"

definition action_weak :: "pyval \<Rightarrow> pyval \<Rightarrow> semantic_action" where
  "action_weak x y = \<lparr>ac_kind = PyInt (kind_code FIRE_WEAK), ac_wait_ticks = PyInt 1,
     ac_x_norm = x, ac_y_norm = y\<rparr>"

definition action_strong :: "pyval \<Rightarrow> pyval \<Rightarrow> semantic_action" where
  "action_strong x y = \<lparr>ac_kind = PyInt (kind_code FIRE_STRONG), ac_wait_ticks = PyInt 1,
     ac_x_norm = x, ac_y_norm = y\<rparr>"

section \<open>The specification\<close>

record action_spec =
  as_version :: string
  as_wait_choices :: "int list"
  as_client_width :: pyval
  as_client_height :: pyval
  as_press_ticks :: int
  as_release_ticks :: int
  as_timing_status :: string
  as_allow_both :: bool
  as_epsilon :: pyfloat
  as_quantization :: string

definition ACTION_COORDINATE_EPSILON :: pyfloat where
  "ACTION_COORDINATE_EPSILON = fl_round (1 / 1000000)"

definition CLIENT_PIXEL_QUANTIZATION :: string where
  "CLIENT_PIXEL_QUANTIZATION = ''floor(normalized * extent), clamped to [0, extent - 1]''"

definition default_action_spec :: action_spec where
  "default_action_spec = \<lparr>as_version = ''deployment-v1'', as_wait_choices = [1..100],
     as_client_width = PyFloat (Fin 640), as_client_height = PyFloat (Fin 480), as_press_ticks = 1,
     as_release_ticks = 1, as_timing_status = ''provisional'', as_allow_both = False,
     as_epsilon = ACTION_COORDINATE_EPSILON, as_quantization = CLIENT_PIXEL_QUANTIZATION\<rparr>"

definition is_integer :: "pyfloat \<Rightarrow> bool" where
  "is_integer f = (case f of Fin x \<Rightarrow> of_int \<lfloor>x\<rfloor> = x | _ \<Rightarrow> False)"

text \<open>One client extent: \<open>float(extent)\<close> may overflow, which leaves the check by an exception.\<close>

definition check_extent :: "pyval \<Rightarrow> unit res" where
  "check_extent v = (case real_num v of
     None \<Rightarrow> Inl (value_error ''client dimensions must be finite positive pixel extents'')
   | Some n \<Rightarrow> rbind (num_to_float n) (\<lambda>f.
       rguard (\<not> is_finite f \<or> fl_le f (Fin 0) \<or> \<not> is_integer f)
         (value_error ''client dimensions must be finite positive pixel extents'')))"

definition mk_action_spec :: "action_spec \<Rightarrow> action_spec res" where
  "mk_action_spec a =
     (if as_wait_choices a = [] \<or> sort (remdups (as_wait_choices a)) \<noteq> as_wait_choices a
      then Inl (value_error ''wait choices must be unique and strictly increasing'')
      else if hd (as_wait_choices a) < 1 \<or> 100000 < last (as_wait_choices a)
      then Inl (value_error ''wait choices must fit the native legal range'')
      else if as_press_ticks a \<noteq> 1 \<or> as_release_ticks a < 1
      then Inl (value_error ''R1 supports one-tick press and positive release'')
      else if 100000 < as_release_ticks a
      then Inl (value_error ''release duration exceeds native wait limit'')
      else rbind (check_extent (as_client_width a)) (\<lambda>_.
        rbind (check_extent (as_client_height a)) (\<lambda>_.
        if as_timing_status a \<noteq> ''provisional'' \<and> as_timing_status a \<noteq> ''measured''
        then Inl (value_error ''invalid timing status'')
        else if as_allow_both a
        then Inl (value_error ''simultaneous shots are outside deployment-v1'')
        else if \<not> is_finite (as_epsilon a) \<or>
          \<not> (fl_lt (Fin 0) (as_epsilon a) \<and> fl_lt (as_epsilon a) (Fin (1 / 2)))
        then Inl (value_error ''coordinate likelihood epsilon must be in (0, 0.5)'')
        else if as_quantization a \<noteq> CLIENT_PIXEL_QUANTIZATION
        then Inl (value_error ''unsupported client-pixel quantization'')
        else Inr a)))"

definition json_num :: "pyval \<Rightarrow> jval" where
  "json_num v = (case v of PyInt n \<Rightarrow> JInt n | PyFloat f \<Rightarrow> JFloat f | _ \<Rightarrow> JNull)"

definition action_manifest :: "action_spec \<Rightarrow> jval" where
  "action_manifest a = JObj [(''version'', JStr (as_version a)),
     (''wait_choices'', json_ints (as_wait_choices a)),
     (''client_width'', json_num (as_client_width a)),
     (''client_height'', json_num (as_client_height a)),
     (''press_ticks'', JInt (as_press_ticks a)), (''release_ticks'', JInt (as_release_ticks a)),
     (''timing_status'', JStr (as_timing_status a)), (''allow_both'', JBool (as_allow_both a)),
     (''coordinate_log_prob_epsilon'', JFloat (as_epsilon a)),
     (''coordinate_quantization'', JStr (as_quantization a))]"

section \<open>Validation\<close>

definition unit_float :: "pyval \<Rightarrow> pynum res" where
  "unit_float v = (case real_num v of
     None \<Rightarrow> Inl (Exn TypeError ''shot coordinates must be real numbers'') | Some n \<Rightarrow> Inr n)"

definition in_unit :: "pyfloat \<Rightarrow> bool" where
  "in_unit f \<longleftrightarrow> fl_le (Fin 0) f \<and> fl_le f (Fin 1)"

definition validate_semantic :: "action_spec \<Rightarrow> semantic_action \<Rightarrow> valid_action res" where
  "validate_semantic A a = (case kind_of (ac_kind a) of
     None \<Rightarrow> Inl (value_error ''unknown semantic action kind'')
   | Some WAIT \<Rightarrow> (case (plain_bool (ac_wait_ticks a),
         find (\<lambda>c. py_eq (ac_wait_ticks a) (PyInt c)) (as_wait_choices A)) of
       (None, Some c) \<Rightarrow> Inr \<lparr>va_kind = WAIT, va_wait_ticks = c, va_x_norm = Fin 0, va_y_norm = Fin 0\<rparr>
     | _ \<Rightarrow> Inl (value_error ''wait duration is not in the declared choices''))
   | Some k \<Rightarrow>
     rbind (unit_float (ac_x_norm a)) (\<lambda>xn. rbind (unit_float (ac_y_norm a)) (\<lambda>yn.
     rbind (num_to_float xn) (\<lambda>x. rbind (num_to_float yn) (\<lambda>y.
     if \<not> is_finite x \<or> \<not> is_finite y then Inl (value_error ''shot coordinates must be finite'')
     else if \<not> in_unit x \<or> \<not> in_unit y
     then Inl (value_error ''shot coordinates must be normalized to [0, 1]'')
     else Inr \<lparr>va_kind = k, va_wait_ticks = 1, va_x_norm = x, va_y_norm = y\<rparr>)))))"

section \<open>Lowering\<close>

text \<open>The primitive actions of \<open>irisu_env/env.py\<close>.\<close>

datatype primitive = PrimWait int | PrimWeak int int | PrimStrong int int

text \<open>\<open>int(extent)\<close>, and \<open>math.floor(normalized * pixels)\<close> clamped to the last pixel.\<close>

definition pixels_of :: "pyval \<Rightarrow> int" where
  "pixels_of v = (case real_num v of
     Some (NInt n) \<Rightarrow> n | Some (NFlt (Fin x)) \<Rightarrow> (if 0 \<le> x then \<lfloor>x\<rfloor> else \<lceil>x\<rceil>) | _ \<Rightarrow> 0)"

definition floor_float :: "pyfloat \<Rightarrow> int res" where
  "floor_float f = (case f of Fin x \<Rightarrow> Inr \<lfloor>x\<rfloor>
     | NaN \<Rightarrow> Inl (value_error ''cannot convert float NaN to integer'')
     | _ \<Rightarrow> Inl (Exn OverflowError ''cannot convert float infinity to integer''))"

definition quantize :: "pyfloat \<Rightarrow> pyval \<Rightarrow> int res" where
  "quantize normalized extent =
     rbind (int_to_float (pixels_of extent)) (\<lambda>p.
     rbind (floor_float (fl_mul normalized p)) (\<lambda>n. Inr (min n (pixels_of extent - 1))))"

definition valid_as_action :: "valid_action \<Rightarrow> semantic_action" where
  "valid_as_action v = \<lparr>ac_kind = PyInt (kind_code (va_kind v)), ac_wait_ticks = PyInt (va_wait_ticks v),
     ac_x_norm = PyFloat (va_x_norm v), ac_y_norm = PyFloat (va_y_norm v)\<rparr>"

definition client_point :: "action_spec \<Rightarrow> semantic_action \<Rightarrow> (int \<times> int) res" where
  "client_point A a = rbind (validate_semantic A a) (\<lambda>v.
     if va_kind v = WAIT then Inl (value_error ''wait actions do not have client coordinates'')
     else rbind (quantize (va_x_norm v) (as_client_width A)) (\<lambda>x.
       rbind (quantize (va_y_norm v) (as_client_height A)) (\<lambda>y. Inr (x, y))))"

definition press :: "action_spec \<Rightarrow> semantic_action \<Rightarrow> primitive res" where
  "press A a = rbind (validate_semantic A a) (\<lambda>v.
     if va_kind v = WAIT then Inr (PrimWait (va_wait_ticks v))
     else rbind (client_point A (valid_as_action v)) (\<lambda>(x, y).
       Inr (if va_kind v = FIRE_WEAK then PrimWeak x y else PrimStrong x y)))"

definition release :: "action_spec \<Rightarrow> primitive" where
  "release A = PrimWait (as_release_ticks A)"

section \<open>Serialisation\<close>

fun list_index :: "int list \<Rightarrow> int \<Rightarrow> nat" where
  "list_index [] x = 0"
| "list_index (c # cs) x = (if c = x then 0 else Suc (list_index cs x))"

definition encode_action :: "action_spec \<Rightarrow> semantic_action \<Rightarrow> (int \<times> nat \<times> pyfloat \<times> pyfloat) res" where
  "encode_action A a = rbind (validate_semantic A a) (\<lambda>v.
     Inr (kind_code (va_kind v),
       if va_kind v = WAIT then list_index (as_wait_choices A) (va_wait_ticks v) else 0,
       va_x_norm v, va_y_norm v))"

definition decode_action :: "action_spec \<Rightarrow> int \<Rightarrow> int \<Rightarrow> pyfloat \<Rightarrow> pyfloat \<Rightarrow> valid_action res" where
  "decode_action A k wait_index x y = (case kind_of (PyInt k) of
     None \<Rightarrow> Inl (value_error ''not a valid SemanticActionKind'')
   | Some WAIT \<Rightarrow>
     if \<not> (0 \<le> wait_index \<and> wait_index < int (length (as_wait_choices A)))
     then Inl (value_error ''wait index out of range'')
     else validate_semantic A (action_wait (PyInt (as_wait_choices A ! nat wait_index)))
   | Some FIRE_WEAK \<Rightarrow> validate_semantic A (action_weak (PyFloat x) (PyFloat y))
   | Some FIRE_STRONG \<Rightarrow> validate_semantic A (action_strong (PyFloat x) (PyFloat y)))"

definition ACTION_FORMAT :: "field list" where "ACTION_FORMAT = [U 1, U 4, U 8, U 8]"

definition serialize_action :: "action_spec \<Rightarrow> semantic_action \<Rightarrow> byte list res" where
  "serialize_action A a = rbind (encode_action A a) (\<lambda>(k, i, x, y).
     if 2 ^ 32 \<le> i then Inl (Exn StructError ''argument out of range'')
     else Inr (pack ACTION_FORMAT [k, int i, uint (f64_bits x), uint (f64_bits y)]))"

definition deserialize_action :: "action_spec \<Rightarrow> byte list \<Rightarrow> valid_action res" where
  "deserialize_action A payload =
     (if length payload \<noteq> fmt_size ACTION_FORMAT
      then Inl (value_error ''invalid serialized semantic action size'')
      else let v = unpack ACTION_FORMAT payload in
        decode_action A (v ! 0) (v ! 1) (f64_value (word_of_int (v ! 2))) (f64_value (word_of_int (v ! 3))))"

section \<open>Hexadecimal text\<close>

definition hex_value :: "char \<Rightarrow> nat option" where
  "hex_value c = (let n = (of_char c :: nat) in
     if 48 \<le> n \<and> n \<le> 57 then Some (n - 48)
     else if 97 \<le> n \<and> n \<le> 102 then Some (n - 87)
     else if 65 \<le> n \<and> n \<le> 70 then Some (n - 55) else None)"

definition hex_space :: "char \<Rightarrow> bool" where
  "hex_space c \<longleftrightarrow> (of_char c :: nat) \<in> {9, 10, 11, 12, 13, 32}"

text \<open>\<open>bytes.fromhex\<close>: white space is skipped between the pairs, not inside one.\<close>

fun from_hex :: "string \<Rightarrow> byte list res" where
  "from_hex [] = Inr []"
| "from_hex [c] = (if hex_space c then Inr [] else Inl (value_error ''non-hexadecimal number found''))"
| "from_hex (c # d # s) = (if hex_space c then from_hex (d # s)
     else case (hex_value c, hex_value d) of
       (Some h, Some l) \<Rightarrow> rbind (from_hex s) (\<lambda>bs. Inr (word_of_nat (16 * h + l) # bs))
     | _ \<Rightarrow> Inl (value_error ''non-hexadecimal number found''))"

end
