(* ===== verification/Py_Double.thy ===== *)
theory Py_Double
  imports Py_Float
begin

text \<open>
  The doubles among the rationals: the bounds of \<open>ilog2\<close>, and the significand and exponent
  of a positive double.
\<close>

section \<open>Doubles\<close>

lemma pow2_powi: "pow2 e = 2 powi e"
  by (cases "0 \<le> e") (simp_all add: pow2_def power_int_def inverse_eq_divide power_one_over)

lemma pow2_add: "pow2 (a + b) = pow2 a * pow2 b"
  by (simp add: pow2_powi power_int_add)

lemma pow2_mono: "a \<le> b \<Longrightarrow> pow2 a \<le> pow2 b"
  by (simp add: pow2_powi power_int_increasing)

lemma pow2_less: "pow2 a < pow2 b \<Longrightarrow> a < b"
  using pow2_mono [of b a] by (meson not_le)

lemma pow2_of_nat: "pow2 (int n) = 2 ^ n"
  by (simp add: pow2_def)

lemma bit_len_bounds: "0 < n \<Longrightarrow> 2 ^ bit_len n \<le> 2 * n \<and> n < 2 ^ bit_len n"
proof (induction n rule: bit_len.induct)
  case (1 n)
  show ?case
  proof (cases "n div 2 = 0")
    case True
    with 1(2) have "n = 1" by (simp add: div_eq_0_iff)
    then show ?thesis by (simp add: bit_len.simps)
  next
    case False
    then have "2 ^ bit_len (n div 2) \<le> 2 * (n div 2)" "n div 2 < 2 ^ bit_len (n div 2)" using 1 by auto
    then show ?thesis using 1(2) by (subst (1 2) bit_len.simps) auto
  qed
qed

lemma ilog2_bounds:
  assumes "0 < x"
  shows "pow2 (ilog2 x) \<le> x" "x < pow2 (ilog2 x + 1)"
proof -
  obtain n d where q: "quotient_of x = (n, d)" by (cases "quotient_of x")
  then have x: "x = of_int n / of_int d" and d: "0 < d" by (auto simp: quotient_of_div quotient_of_denom_pos)
  then have n: "0 < n" using assms by (simp add: zero_less_divide_iff)
  define a b where "a = int (bit_len (nat n))" and "b = int (bit_len (nat d))"
  have bl: "pow2 a \<le> 2 * of_int m \<and> of_int m < pow2 a" if "a = int (bit_len (nat m))" "0 < m" for a m
  proof -
    have "2 ^ bit_len (nat m) \<le> 2 * nat m" "nat m < 2 ^ bit_len (nat m)" using bit_len_bounds [of "nat m"] that by simp_all
    then have "int (2 ^ bit_len (nat m)) \<le> 2 * m" "m < int (2 ^ bit_len (nat m))" using that(2) by linarith+
    then have "of_int (2 ^ bit_len (nat m)) \<le> (of_int (2 * m) :: rat)" "of_int m < (of_int (2 ^ bit_len (nat m)) :: rat)"
      by (simp_all only: of_int_le_iff of_int_less_iff of_nat_power of_nat_numeral)
    then show ?thesis by (simp add: that(1) pow2_of_nat)
  qed
  have na: "pow2 a \<le> 2 * of_int n" "of_int n < pow2 a" and db: "pow2 b \<le> 2 * of_int d" "of_int d < pow2 b"
    using bl [OF a_def n] bl [OF b_def d] by simp_all
  have dpos: "0 < (of_int d :: rat)" using d by simp
  have ab: "pow2 (a - b) * pow2 b = pow2 a" by (simp add: pow2_add [symmetric])
  have half: "2 * pow2 (a - b - 1) = pow2 (a - b)" using pow2_add [of 1 "a - b - 1"] by (simp add: pow2_def)
  have dbl: "pow2 (a - b + 1) = 2 * pow2 (a - b)" using pow2_add [of 1 "a - b"] by (simp add: pow2_def add.commute)
  have up: "x < pow2 (a - b + 1)"
  proof -
    have "of_int n < pow2 (a - b) * pow2 b" using na ab by simp
    also have "\<dots> \<le> pow2 (a - b) * (2 * of_int d)" using db by (intro mult_left_mono) simp_all
    finally have "of_int n < pow2 (a - b + 1) * of_int d" by (simp only: dbl mult.assoc mult.left_commute)
    then show ?thesis using dpos by (simp add: x pos_divide_less_eq)
  qed
  have low: "pow2 (a - b - 1) \<le> x"
  proof -
    have "pow2 (a - b - 1) * of_int d \<le> pow2 (a - b - 1) * pow2 b" using db by (intro mult_left_mono) simp_all
    also have "2 * \<dots> = pow2 a" using half ab by (simp add: ac_simps)
    finally have "pow2 (a - b - 1) * of_int d \<le> of_int n" using na by linarith
    then show ?thesis using dpos by (simp add: x pos_le_divide_eq)
  qed
  have "ilog2 x = (if pow2 (a - b) \<le> x then a - b else a - b - 1)"
    by (simp add: ilog2_def q a_def b_def Let_def)
  with up low show "pow2 (ilog2 x) \<le> x" "x < pow2 (ilog2 x + 1)" by (auto split: if_splits)
qed

lemma fl_round_nonpos: "fl_round x = Fin y \<Longrightarrow> x \<le> 0 \<Longrightarrow> y \<le> 0"
  by (auto simp: fl_round_def Let_def split: if_splits
           intro!: mult_nonpos_nonneg round_even_nonpos divide_nonpos_pos)

text \<open>A rational that is a finite double.\<close>

definition is_double :: "rat \<Rightarrow> bool" where
  "is_double x \<longleftrightarrow> fl_round x = Fin x"

lemma pow2_nonzero [simp]: "pow2 e \<noteq> 0"
  by (metis pow2_pos less_irrefl)

lemma double_scaled:
  assumes "is_double x" "0 < x"
  obtains k e where "e = max (ilog2 x) (- 1022)" "x = of_int k * pow2 (e - 52)" "0 < k" "k < 2 ^ 53"
    "x < pow2 1024" "ilog2 x < - 1022 \<longrightarrow> k < 2 ^ 52" "- 1022 \<le> ilog2 x \<longrightarrow> 2 ^ 52 \<le> k"
proof -
  define e where "e = max (ilog2 x) (- 1022)"
  define q where "q = pow2 (e - 52)"
  define k where "k = round_even (x / q)"
  have m: "max (ilog2 x - 52) (- 1074) = e - 52" by (simp add: e_def)
  have q: "0 < q" by (simp add: q_def)
  from assms have r: "of_int k * q = x" "x < pow2 1024"
    by (auto simp: is_double_def fl_round_def Let_def m k_def q_def split: if_splits)
  have k: "of_int k = x / q" using r(1) q by (simp add: field_simps)
  have scale: "pow2 (e - 52) * pow2 n = pow2 (e - 52 + n)" for n by (simp add: pow2_add)
  have pos: "0 < k"
  proof -
    have "0 < (of_int k :: rat)" using k assms(2) q by simp
    then show ?thesis by simp
  qed
  have up: "k < 2 ^ n" if "x < pow2 (e - 52 + int n)" for n
  proof -
    have "of_int k * q < 2 ^ n * q" using that r(1) unfolding q_def scale [symmetric] pow2_of_nat by (simp add: mult.commute)
    then have "of_int k < (of_int (2 ^ n) :: rat)" using q by simp
    then show ?thesis by (simp only: of_int_less_iff)
  qed
  have "x < pow2 (e - 52 + int 53)"
    using ilog2_bounds(2) [OF assms(2)] pow2_mono [of "ilog2 x + 1" "e + 1"] by (simp add: e_def add.commute)
  from up [OF this] have b: "k < 2 ^ 53" .
  have s: "k < 2 ^ 52" if "ilog2 x < - 1022"
  proof (rule up)
    have "pow2 (ilog2 x + 1) \<le> pow2 (e - 52 + int 52)" by (rule pow2_mono) (use that in \<open>simp add: e_def\<close>)
    with ilog2_bounds(2) [OF assms(2)] show "x < pow2 (e - 52 + int 52)" by linarith
  qed
  have n: "2 ^ 52 \<le> k" if "- 1022 \<le> ilog2 x"
  proof -
    have "pow2 (e - 52) * pow2 (int 52) \<le> x"
      unfolding scale using ilog2_bounds(1) [OF assms(2)] that by (simp add: e_def)
    then have "2 ^ 52 * q \<le> of_int k * q" using r(1) unfolding q_def pow2_of_nat by (simp only: mult.commute)
    then have "(of_int (2 ^ 52) :: rat) \<le> of_int k" using q by simp
    then show ?thesis by (simp only: of_int_le_iff)
  qed
  show ?thesis by (rule that [of e k]) (use e_def r pos b s n in \<open>simp_all add: q_def\<close>)
qed

end
