(* ===== verification/Actions_Props.thy ===== *)
theory Actions_Props
  imports Actions Py_Double
begin

text \<open>
  Semantic actions: what \<open>validate\<close> returns is valid and validates to itself, the bytes of a
  serialised action decode to it, and a shot is lowered to a pixel inside the client area.
\<close>

section \<open>Reading doubles\<close>

lemma f64_value_bits_pos:
  assumes "is_double x" "0 < x"
  shows "f64_value (f64_bits (Fin x)) = Fin x"
proof -
  from double_scaled [OF assms] obtain k e where d: "e = max (ilog2 x) (- 1022)"
    "x = of_int k * pow2 (e - 52)" "0 < k" "k < 2 ^ 53" "x < pow2 1024"
    "ilog2 x < - 1022 \<longrightarrow> k < 2 ^ 52" "- 1022 \<le> ilog2 x \<longrightarrow> 2 ^ 52 \<le> k" .
  have f: "\<lfloor>x / pow2 (e - 52)\<rfloor> = k" using d(2) pow2_nonzero [of "e - 52"] by simp
  have bits: "f64_bits (Fin x) = word_of_int (if 2 ^ 52 \<le> k then (e + 1023) * 2 ^ 52 + (k - 2 ^ 52) else k)"
    unfolding f64_bits.simps Let_def abs_of_pos [OF assms(2)] d(1) [symmetric] f using assms(2) by simp
  have u: "uint (word_of_int n :: f64) = n" if "0 \<le> n" "n < 2 ^ 63" for n
    using that by (simp add: uint_word_of_int)
  show ?thesis
  proof (cases "- 1022 \<le> ilog2 x")
    case True
    with d have k: "2 ^ 52 \<le> k" and e: "e = ilog2 x" "- 1022 \<le> e" by simp_all
    have "pow2 e < pow2 1024" using ilog2_bounds(1) [OF assms(2)] d(5) e by simp
    then have e2: "e < 1024" by (rule pow2_less)
    define n where "n = (e + 1023) * 2 ^ 52 + (k - 2 ^ 52)"
    have r: "(k - 2 ^ 52) div 2 ^ 52 = 0" "(k - 2 ^ 52) mod 2 ^ 52 = k - 2 ^ 52"
      using k d(4) by (intro div_pos_pos_trivial mod_pos_pos_trivial; simp)+
    have "n = (k - 2 ^ 52) + (e + 1023) * 2 ^ 52" by (simp add: n_def)
    then have dm: "n div 2 ^ 52 = e + 1023" "n mod 2 ^ 52 = k - 2 ^ 52"
      using div_mult_self1 [of "2 ^ 52" "k - 2 ^ 52" "e + 1023"] mod_mult_self1 [of "k - 2 ^ 52" "e + 1023" "2 ^ 52"] r
      by (simp_all only: mult.commute) simp_all
    have n: "0 \<le> n" "n < 2 ^ 63" using k d(4) e e2 by (simp_all add: n_def)
    have "f64_value (word_of_int n) = Fin x"
    proof -
      have mm: "(e + 1023) mod 2048 = e + 1023" using e e2 by (intro mod_pos_pos_trivial) simp_all
      have v: "of_int (2 ^ 52 + (k - 2 ^ 52)) * pow2 (e + 1023 - 1075) = x" by (simp add: d(2))
      show ?thesis
        unfolding f64_value_def u [OF n] Let_def dm mm v using n(2) e e2 by simp
    qed
    with bits k show ?thesis by (simp add: n_def)
  next
    case False
    with d have k: "k < 2 ^ 52" and e: "e = - 1022" by simp_all
    have n: "0 \<le> k" "k < 2 ^ 63" using k d(3) by simp_all
    have "f64_value (word_of_int k) = Fin x"
      using k n by (simp add: f64_value_def u Let_def d(2) e div_pos_pos_trivial mod_pos_pos_trivial)
    with bits k show ?thesis by simp
  qed
qed

lemma f64_value_bits: "is_double x \<Longrightarrow> 0 \<le> x \<Longrightarrow> f64_value (f64_bits (Fin x)) = Fin x"
  by (cases "x = 0") (simp_all add: f64_value_bits_pos del: f64_bits.simps, simp add: f64_value_def)

section \<open>Validation\<close>

text \<open>Every Python float is a double.\<close>

definition is_float64 :: "pyfloat \<Rightarrow> bool" where
  "is_float64 f \<longleftrightarrow> (case f of Fin x \<Rightarrow> is_double x | _ \<Rightarrow> True)"

lemma kind_of_code [simp]: "kind_of (PyInt (kind_code k)) = Some k"
  by (cases k) (simp_all add: kind_of_def)

lemma kind_of_codes [simp]:
  "kind_of (PyInt 0) = Some WAIT" "kind_of (PyInt 1) = Some FIRE_WEAK" "kind_of (PyInt 2) = Some FIRE_STRONG"
  by (simp_all add: kind_of_def)

lemma kind_of_int: "kind_of (PyInt n) = Some k \<Longrightarrow> n = kind_code k"
  by (auto simp: kind_of_def split: if_splits)

lemma find_int: "c \<in> set cs \<Longrightarrow> find (\<lambda>d. c = d) cs = Some (c :: int)"
  by (induction cs) auto

text \<open>What \<open>validate\<close> returns is a wait of a declared duration at the origin, or a shot of one
  tick inside the unit square.\<close>

definition valid_ok :: "action_spec \<Rightarrow> valid_action \<Rightarrow> bool" where
  "valid_ok A v \<longleftrightarrow> (if va_kind v = WAIT
     then va_wait_ticks v \<in> set (as_wait_choices A) \<and> va_x_norm v = Fin 0 \<and> va_y_norm v = Fin 0
     else va_wait_ticks v = 1 \<and> (\<exists>x y. va_x_norm v = Fin x \<and> va_y_norm v = Fin y \<and>
       0 \<le> x \<and> x \<le> 1 \<and> 0 \<le> y \<and> y \<le> 1))"

lemma in_unit_Fin [simp]: "in_unit (Fin x) \<longleftrightarrow> 0 \<le> x \<and> x \<le> 1"
  by (simp add: in_unit_def)

lemma validated_ok: "validate_semantic A a = Inr v \<Longrightarrow> valid_ok A v"
  by (auto simp: validate_semantic_def valid_ok_def rbind_Inr is_finite_iff find_Some_iff
      split: option.splits action_kind.splits if_splits)

lemma validate_again: "valid_ok A v \<Longrightarrow> validate_semantic A (valid_as_action v) = Inr v"
  by (cases v; cases "va_kind v")
    (auto simp: validate_semantic_def valid_ok_def valid_as_action_def find_int unit_float_def)

lemma validate_wait: "c \<in> set (as_wait_choices A) \<Longrightarrow> validate_semantic A (action_wait (PyInt c)) =
    Inr \<lparr>va_kind = WAIT, va_wait_ticks = c, va_x_norm = Fin 0, va_y_norm = Fin 0\<rparr>"
  by (simp add: validate_semantic_def action_wait_def find_int)

lemma validate_shots: "0 \<le> x \<Longrightarrow> x \<le> 1 \<Longrightarrow> 0 \<le> y \<Longrightarrow> y \<le> 1 \<Longrightarrow>
    validate_semantic A (action_weak (PyFloat (Fin x)) (PyFloat (Fin y))) =
      Inr \<lparr>va_kind = FIRE_WEAK, va_wait_ticks = 1, va_x_norm = Fin x, va_y_norm = Fin y\<rparr> \<and>
    validate_semantic A (action_strong (PyFloat (Fin x)) (PyFloat (Fin y))) =
      Inr \<lparr>va_kind = FIRE_STRONG, va_wait_ticks = 1, va_x_norm = Fin x, va_y_norm = Fin y\<rparr>"
  by (simp add: validate_semantic_def action_weak_def action_strong_def unit_float_def)

lemma list_index_nth: "c \<in> set cs \<Longrightarrow> list_index cs c < length cs \<and> cs ! list_index cs c = c"
  by (induction cs) auto

text \<open>Decoding what \<open>encode\<close> computes from a valid action gives the action back.\<close>

lemma decode_encoded:
  assumes "valid_ok A v"
  shows "decode_action A (kind_code (va_kind v))
    (int (if va_kind v = WAIT then list_index (as_wait_choices A) (va_wait_ticks v) else 0))
    (va_x_norm v) (va_y_norm v) = Inr v"
  using assms list_index_nth [of "va_wait_ticks v" "as_wait_choices A"]
  by (cases v; cases "va_kind v")
    (auto simp: decode_action_def valid_ok_def validate_wait validate_shots)

lemma action_format_size [simp]: "fmt_size ACTION_FORMAT = 21"
  by (simp add: fmt_size_def ACTION_FORMAT_def)

lemma action_bytes:
  assumes "i < 2 ^ 32"
  shows "unpack ACTION_FORMAT (pack ACTION_FORMAT [kind_code k, int i, uint (x :: f64), uint (y :: f64)]) =
    [kind_code k, int i, uint x, uint y]"
proof -
  have "list_all2 field_ok ACTION_FORMAT [kind_code k, int i, uint x, uint y]"
    using assms uint_lt2p [of x] uint_lt2p [of y] by (cases k) (simp_all add: ACTION_FORMAT_def)
  from unpack_pack [OF this, of "[]"] show ?thesis by simp
qed

lemma valid_floats:
  assumes "valid_ok A v" "is_float64 (va_x_norm v)" "is_float64 (va_y_norm v)"
  shows "f64_value (f64_bits (va_x_norm v)) = va_x_norm v" "f64_value (f64_bits (va_y_norm v)) = va_y_norm v"
  using assms f64_value_bits
  by (auto simp: valid_ok_def is_float64_def simp del: f64_bits.simps split: if_splits)

lemma serialized_decodes:
  assumes v: "validate_semantic A a = Inr v" and s: "serialize_action A a = Inr bs"
    and d: "is_float64 (va_x_norm v)" "is_float64 (va_y_norm v)"
  shows "length bs = 21 \<and> deserialize_action A bs = Inr v"
proof -
  note ok = validated_ok [OF v]
  define i where "i = (if va_kind v = WAIT then list_index (as_wait_choices A) (va_wait_ticks v) else 0)"
  from s v have i: "i < 2 ^ 32" and bs: "bs = pack ACTION_FORMAT
      [kind_code (va_kind v), int i, uint (f64_bits (va_x_norm v)), uint (f64_bits (va_y_norm v))]"
    by (auto simp: serialize_action_def encode_action_def i_def Let_def split: if_splits)
  have l: "length bs = 21" unfolding bs by (subst pack_length) (simp_all add: ACTION_FORMAT_def fmt_size_def)
  then show ?thesis
    using decode_encoded [OF ok, folded i_def] valid_floats [OF ok d]
    by (simp add: deserialize_action_def bs action_bytes [OF i] Let_def word_of_int_uint)
qed

section \<open>Lowering\<close>

lemma quantize_bounds:
  assumes "quantize (Fin f) extent = Inr n" "0 \<le> f" "1 \<le> pixels_of extent"
  shows "0 \<le> n \<and> n < pixels_of extent"
proof -
  obtain p where p: "int_to_float (pixels_of extent) = Inr (Fin p)"
    using assms(1) by (auto simp: quantize_def rbind_Inr int_to_float_def split: pyfloat.splits)
  then have "0 \<le> p"
    using assms(3) fl_round_nonneg [of "of_int (pixels_of extent)" p] by (auto simp: int_to_float_def split: pyfloat.splits)
  with assms p obtain y where y: "fl_round (f * p) = Fin y" "n = min \<lfloor>y\<rfloor> (pixels_of extent - 1)"
    by (auto simp: quantize_def rbind_Inr floor_float_def split: pyfloat.splits)
  then have "0 \<le> y" using fl_round_nonneg [OF y(1)] \<open>0 \<le> p\<close> assms(2) by simp
  with y(2) assms(3) show ?thesis by auto
qed

lemma choices_range:
  assumes "sort (remdups cs) = cs" "t \<in> set cs"
  shows "hd cs \<le> t \<and> t \<le> (last cs :: int)"
proof -
  have "sorted cs" using assms(1) by (metis sorted_sort)
  then have "hd cs \<le> t" using assms(2) by (cases cs) auto
  moreover have "t \<le> last cs" using \<open>sorted cs\<close> assms(2) by (cases cs rule: rev_cases) (auto simp: sorted_append)
  ultimately show ?thesis ..
qed

lemma checked_extent: "check_extent v = Inr () \<Longrightarrow> 1 \<le> pixels_of v"
proof -
  assume "check_extent v = Inr ()"
  then obtain n f where n: "real_num v = Some n" "num_to_float n = Inr f" "is_finite f" "\<not> fl_le f (Fin 0)" "is_integer f"
    by (auto simp: check_extent_def rbind_Inr split: option.splits)
  then obtain x where f: "f = Fin x" "0 < x" "of_int \<lfloor>x\<rfloor> = x" by (auto simp: is_finite_iff is_integer_def)
  show ?thesis
  proof (cases n)
    case (NInt m)
    then have "fl_round (of_int m) = Fin x" using n(2) f by (auto simp: int_to_float_def split: pyfloat.splits)
    then have "\<not> (of_int m :: rat) \<le> 0" using fl_round_nonpos f(2) by force
    then have "0 < m" by simp
    with NInt n(1) show ?thesis by (simp add: pixels_of_def)
  next
    case (NFlt g)
    with n f show ?thesis by (auto simp: pixels_of_def)
  qed
qed

section \<open>The properties\<close>

text \<open>the 21 bytes of a serialised action decode to the action \<open>validate\<close> makes of it.\<close>

theorem serialized_actions_decode:
  assumes "validate_semantic A a = Inr v" "is_float64 (va_x_norm v)" "is_float64 (va_y_norm v)"
    and "serialize_action A a = Inr bs"
  shows "length bs = 21 \<and> deserialize_action A bs = Inr v"
  using serialized_decodes [OF assms(1,4,2,3)] .

definition demo_shot_action :: semantic_action where
  "demo_shot_action = action_weak (PyFloat (Fin (1 / 4))) (PyFloat (Fin (1 / 2)))"

lemma demo_shot_valid: "validate_semantic default_action_spec demo_shot_action =
    Inr \<lparr>va_kind = FIRE_WEAK, va_wait_ticks = 1, va_x_norm = Fin (1 / 4), va_y_norm = Fin (1 / 2)\<rparr>"
  by (simp add: demo_shot_action_def validate_shots)

lemma demo_doubles: "fl_round (1 / 4) = Fin (1 / 4)" "fl_round (1 / 2) = Fin (1 / 2)"
  by code_simp+

theorem serialized_actions_decode_witness:
  "\<exists>bs. serialize_action default_action_spec demo_shot_action = Inr bs \<and> length bs = 21 \<and>
    deserialize_action default_action_spec bs =
      Inr \<lparr>va_kind = FIRE_WEAK, va_wait_ticks = 1, va_x_norm = Fin (1 / 4), va_y_norm = Fin (1 / 2)\<rparr>"
proof -
  have "\<exists>bs. serialize_action default_action_spec demo_shot_action = Inr bs"
    by (simp add: serialize_action_def encode_action_def demo_shot_valid)
  then show ?thesis
    using serialized_actions_decode [OF demo_shot_valid] demo_doubles
    by (auto simp: is_float64_def is_double_def)
qed

text \<open>C40: a shot is lowered to a pixel of the client area: whatever coordinates \<open>validate\<close> accepts, the
  pixel is within the extents, and a wait is lowered to one of the declared durations.\<close>

theorem pressed_actions_are_legal:
  assumes "mk_action_spec A = Inr A" "press A a = Inr p"
  shows "case p of PrimWait t \<Rightarrow> t \<in> set (as_wait_choices A) \<and> 1 \<le> t \<and> t \<le> 100000
    | PrimWeak x y \<Rightarrow> 0 \<le> x \<and> x < pixels_of (as_client_width A) \<and> 0 \<le> y \<and> y < pixels_of (as_client_height A)
    | PrimStrong x y \<Rightarrow> 0 \<le> x \<and> x < pixels_of (as_client_width A) \<and> 0 \<le> y \<and> y < pixels_of (as_client_height A)"
proof -
  have w: "1 \<le> t \<and> t \<le> 100000" if "t \<in> set (as_wait_choices A)" for t
    using assms(1) that choices_range [of "as_wait_choices A" t] by (auto simp: mk_action_spec_def split: if_splits)
  have e: "1 \<le> pixels_of (as_client_width A)" "1 \<le> pixels_of (as_client_height A)"
    using assms(1) checked_extent by (auto simp: mk_action_spec_def rbind_Inr split: if_splits)
  obtain v where v: "validate_semantic A a = Inr v" using assms(2) by (auto simp: press_def rbind_Inr)
  note ok = validated_ok [OF v] and again = validate_again [OF validated_ok [OF v]]
  show ?thesis
  proof (cases "va_kind v = WAIT")
    case True
    with assms(2) v ok w show ?thesis by (auto simp: press_def valid_ok_def)
  next
    case False
    with ok obtain fx fy where f: "va_x_norm v = Fin fx" "va_y_norm v = Fin fy" "0 \<le> fx" "0 \<le> fy"
      by (auto simp: valid_ok_def)
    from False assms(2) v again obtain x y where
      "quantize (Fin fx) (as_client_width A) = Inr x" "quantize (Fin fy) (as_client_height A) = Inr y"
      and p: "p = (if va_kind v = FIRE_WEAK then PrimWeak x y else PrimStrong x y)"
      by (auto simp: press_def client_point_def rbind_Inr f)
    then have "0 \<le> x \<and> x < pixels_of (as_client_width A)" "0 \<le> y \<and> y < pixels_of (as_client_height A)"
      using quantize_bounds f e by blast+
    with p show ?thesis by simp
  qed
qed

definition demo_action_spec :: action_spec where
  "demo_action_spec = \<lparr>as_version = ''demo'', as_wait_choices = [1, 2, 30], as_client_width = PyFloat (Fin 640),
     as_client_height = PyInt 480, as_press_ticks = 1, as_release_ticks = 1, as_timing_status = ''measured'',
     as_allow_both = False, as_epsilon = Fin (1 / 4), as_quantization = CLIENT_PIXEL_QUANTIZATION\<rparr>"

lemma demo_spec: "mk_action_spec demo_action_spec = Inr demo_action_spec"
  by code_simp

theorem pressed_actions_are_legal_witness:
  "press demo_action_spec demo_shot_action = Inr (PrimWeak 160 240) \<and> (160 :: int) < 640 \<and> (240 :: int) < 480"
proof -
  have p: "press demo_action_spec demo_shot_action = Inr (PrimWeak 160 240)" by code_simp
  show ?thesis using pressed_actions_are_legal [OF demo_spec p] p by (simp add: pixels_of_def demo_action_spec_def)
qed

end
