(* ===== verification/Curriculum_Spec.thy ===== *)
theory Curriculum_Spec
  imports Actions "HOL-Library.List_Lexorder" "HOL-Library.Char_ord"
begin

text \<open>
  The specifications of \<open>irisu_rl/curriculum.py\<close> and the reward schedule of
  \<open>irisu_rl/rewards.py\<close>: snapshot recipes and their library, stages, and the curriculum, each
  with the validation of its constructor.  Where a constructor tests the type of an argument the
  argument is a \<open>pyval\<close>; other arguments have the annotated type.  SHA-256 is a parameter,
  of canonical JSON (\<open>ce_digest\<close>), of bytes (\<open>ce_blob\<close>, both as hexadecimal text), and of text
  as a number (\<open>ce_sha256\<close>).
\<close>

record cur_env =
  ce_digest :: "jval \<Rightarrow> string"
  ce_blob :: "byte list \<Rightarrow> string"
  ce_sha256 :: "string \<Rightarrow> nat"

definition is_ascii :: "string \<Rightarrow> bool" where
  "is_ascii s \<longleftrightarrow> list_all (\<lambda>c. (of_char c :: nat) < 128) s"

section \<open>Reward schedules\<close>

record reward_knot =
  rk_update :: int
  rk_weight :: int

definition mk_reward_knot :: "pyval \<Rightarrow> pyval \<Rightarrow> reward_knot res" where
  "mk_reward_knot update weight = (case plain_int update of
     None \<Rightarrow> Inl (value_error ''reward-knot update must be a nonnegative integer'')
   | Some u \<Rightarrow>
     if u < 0 then Inl (value_error ''reward-knot update must be a nonnegative integer'')
     else case plain_int weight of
       None \<Rightarrow> Inl (value_error ''shaping weight must be within [0, 1_000_000] ppm'')
     | Some w \<Rightarrow>
       if \<not> (0 \<le> w \<and> w \<le> 1000000) then Inl (value_error ''shaping weight must be within [0, 1_000_000] ppm'')
       else Inr \<lparr>rk_update = u, rk_weight = w\<rparr>)"

record reward_schedule =
  rs_id :: string
  rs_knots :: "reward_knot list"

text \<open>\<open>any(right > left for left, right in zip(weights, weights[1:]))\<close>\<close>

fun rises :: "int list \<Rightarrow> bool" where
  "rises (l # r # ws) = (l < r \<or> rises (r # ws))" | "rises _ = False"

definition mk_reward_schedule :: "string \<Rightarrow> reward_knot list \<Rightarrow> reward_schedule res" where
  "mk_reward_schedule sid knots =
     (if sid = [] \<or> \<not> is_ascii sid
      then Inl (value_error ''reward schedule id must be nonempty ASCII'')
      else if knots = [] \<or> rk_update (hd knots) \<noteq> 0
      then Inl (value_error ''reward schedule must begin at update zero'')
      else let updates = map rk_update knots; weights = map rk_weight knots in
      if updates \<noteq> sort (remdups updates)
      then Inl (value_error ''reward-knot updates must be strictly increasing'')
      else if rises weights
      then Inl (value_error ''shaping schedule must be monotone nonincreasing'')
      else Inr \<lparr>rs_id = sid, rs_knots = knots\<rparr>)"

definition schedule_manifest :: "reward_schedule \<Rightarrow> jval" where
  "schedule_manifest s = JObj [(''version'', JStr ''reward-schedule-v1''), (''schedule_id'', JStr (rs_id s)),
     (''knots'', JList (map (\<lambda>k. JObj [(''completed_update'', JInt (rk_update k)),
       (''shaping_weight_ppm'', JInt (rk_weight k))]) (rs_knots s)))]"

fun interval_weight :: "reward_knot list \<Rightarrow> int \<Rightarrow> int res" where
  "interval_weight (l # r # rest) update =
     (if rk_update l \<le> update \<and> update \<le> rk_update r
      then let offset = update - rk_update l; span = rk_update r - rk_update l;
               delta = rk_weight r - rk_weight l
           in Inr (rk_weight l + delta * offset div span)
      else interval_weight (r # rest) update)"
| "interval_weight _ update = Inl (Exn AssertionError ''reward schedule interval lookup failed'')"

definition weight_ppm :: "reward_schedule \<Rightarrow> int \<Rightarrow> int res" where
  "weight_ppm s update =
     (if update < 0 then Inl (value_error ''completed update must be a nonnegative integer'')
      else if rk_update (last (rs_knots s)) \<le> update then Inr (rk_weight (last (rs_knots s)))
      else interval_weight (rs_knots s) update)"

section \<open>Snapshot recipes\<close>

definition safe_char :: "char \<Rightarrow> bool" where
  "safe_char c \<longleftrightarrow> (let n = (of_char c :: nat) in
     48 \<le> n \<and> n \<le> 57 \<or> 65 \<le> n \<and> n \<le> 90 \<or> 97 \<le> n \<and> n \<le> 122)"

definition safe_identifier :: "string \<Rightarrow> bool" where
  "safe_identifier s \<longleftrightarrow> s \<noteq> [] \<and> safe_char (hd s) \<and> list_all (\<lambda>c. safe_char c \<or> c \<in> set ''_.-'') s"

record snapshot_recipe =
  rc_snapshot_id :: string
  rc_stage_id :: string
  rc_split :: string
  rc_scenario_family :: string
  rc_environment_pool :: string
  rc_config_sha256 :: string
  rc_config_hash :: int
  rc_reset_seed :: int
  rc_action_spec_sha256 :: string
  rc_actions_hex :: "string list"
  rc_expected_tick :: int
  rc_expected_score :: int
  rc_expected_state_hash :: int
  rc_snapshot_sha256 :: string
  rc_runtime_sha256 :: string
  rc_generator_version :: string

definition RECIPE_VERSION :: string where "RECIPE_VERSION = ''curriculum-snapshot-recipe-v1''"

definition SPLITS :: "string list" where
  "SPLITS = [''calibration'', ''test'', ''train'', ''validation'']"

text \<open>One hexadecimal action of a trace: a \<open>ValueError\<close> or \<open>TypeError\<close> becomes the recipe's.\<close>

definition check_trace_item :: "string \<Rightarrow> unit res" where
  "check_trace_item h = (case rbind (from_hex h) (deserialize_action default_action_spec) of
     Inr _ \<Rightarrow> Inr ()
   | Inl e \<Rightarrow> Inl (if exn_class e \<in> {ValueError, TypeError}
       then value_error ''recipe contains a malformed semantic action'' else e))"

definition str_ok :: "(string \<Rightarrow> bool) \<Rightarrow> pyval \<Rightarrow> bool" where
  "str_ok P v = (case plain_str v of None \<Rightarrow> False | Some s \<Rightarrow> P s)"

fun hashable :: "pyval \<Rightarrow> bool" where
  "hashable (PySeq _) = False" | "hashable (PyOther t) = (t \<noteq> ''dict'' \<and> t \<noteq> ''list'')" | "hashable _ = True"

text \<open>\<open>SnapshotRecipe(**arguments)\<close>, the arguments by keyword; the trace is a tuple of strings.\<close>

definition mk_snapshot_recipe ::
  "cur_env \<Rightarrow> (string \<Rightarrow> pyval) \<Rightarrow> string list \<Rightarrow> snapshot_recipe res" where
  "mk_snapshot_recipe E arg trace = (let s = (\<lambda>k. the (plain_str (arg k))); n = (\<lambda>k. the (plain_int (arg k))) in
     if \<not> list_all (\<lambda>k. str_ok (\<lambda>v. is_ascii v \<and> safe_identifier v) (arg k))
         [''snapshot_id'', ''stage_id'', ''scenario_family'', ''environment_pool'', ''generator_version'']
     then Inl (value_error ''recipe identifiers must be safe nonempty ASCII'')
     else if arg ''version'' \<noteq> PyStr RECIPE_VERSION
     then Inl (value_error ''unknown curriculum recipe split'')
     else if \<not> hashable (arg ''split'') then Inl (Exn TypeError ''unhashable type'')
     else if \<not> str_ok (\<lambda>v. v \<in> set SPLITS) (arg ''split'')
     then Inl (value_error ''unknown curriculum recipe split'')
     else if \<not> list_all (\<lambda>k. is_sha256 (arg k) \<and> s k \<noteq> ZERO_SHA256)
         [''config_sha256'', ''action_spec_sha256'', ''snapshot_sha256'', ''runtime_identity_sha256'']
     then Inl (value_error ''recipe identities must be nonzero lowercase SHA-256 values'')
     else if \<not> list_all (\<lambda>k. plain_int (arg k) \<noteq> None)
         [''config_hash'', ''reset_seed'', ''expected_tick'', ''expected_score'', ''expected_state_hash'']
     then Inl (Exn TypeError ''recipe numeric identity fields must be integers'')
     else if \<not> (0 \<le> n ''config_hash'' \<and> n ''config_hash'' < 2 ^ 64) \<or>
         \<not> (0 \<le> n ''expected_state_hash'' \<and> n ''expected_state_hash'' < 2 ^ 64)
     then Inl (value_error ''recipe state/config hashes must fit uint64'')
     else if \<not> (0 \<le> n ''reset_seed'' \<and> n ''reset_seed'' < 2 ^ 32) \<or> n ''expected_tick'' < 0
     then Inl (value_error ''recipe reset seed or tick is invalid'')
     else if s ''action_spec_sha256'' \<noteq> ce_digest E (action_manifest default_action_spec)
     then Inl (value_error ''snapshot recipe uses an unsupported action schema'')
     else rbind (rmap check_trace_item trace) (\<lambda>_.
       Inr \<lparr>rc_snapshot_id = s ''snapshot_id'', rc_stage_id = s ''stage_id'', rc_split = s ''split'',
         rc_scenario_family = s ''scenario_family'', rc_environment_pool = s ''environment_pool'',
         rc_config_sha256 = s ''config_sha256'', rc_config_hash = n ''config_hash'',
         rc_reset_seed = n ''reset_seed'', rc_action_spec_sha256 = s ''action_spec_sha256'',
         rc_actions_hex = trace, rc_expected_tick = n ''expected_tick'',
         rc_expected_score = n ''expected_score'', rc_expected_state_hash = n ''expected_state_hash'',
         rc_snapshot_sha256 = s ''snapshot_sha256'', rc_runtime_sha256 = s ''runtime_identity_sha256'',
         rc_generator_version = s ''generator_version''\<rparr>))"

definition recipe_manifest :: "snapshot_recipe \<Rightarrow> jval" where
  "recipe_manifest r = JObj [(''snapshot_id'', JStr (rc_snapshot_id r)), (''stage_id'', JStr (rc_stage_id r)),
     (''split'', JStr (rc_split r)), (''scenario_family'', JStr (rc_scenario_family r)),
     (''environment_pool'', JStr (rc_environment_pool r)), (''config_sha256'', JStr (rc_config_sha256 r)),
     (''config_hash'', JInt (rc_config_hash r)), (''reset_seed'', JInt (rc_reset_seed r)),
     (''action_spec_sha256'', JStr (rc_action_spec_sha256 r)),
     (''semantic_actions_hex'', json_strs (rc_actions_hex r)),
     (''expected_tick'', JInt (rc_expected_tick r)), (''expected_score'', JInt (rc_expected_score r)),
     (''expected_state_hash'', JInt (rc_expected_state_hash r)),
     (''snapshot_sha256'', JStr (rc_snapshot_sha256 r)),
     (''runtime_identity_sha256'', JStr (rc_runtime_sha256 r)),
     (''generator_version'', JStr (rc_generator_version r)), (''version'', JStr RECIPE_VERSION)]"

definition RECIPE_KEYS :: "string list" where
  "RECIPE_KEYS = [''snapshot_id'', ''stage_id'', ''split'', ''scenario_family'', ''environment_pool'',
     ''config_sha256'', ''config_hash'', ''reset_seed'', ''action_spec_sha256'', ''semantic_actions_hex'',
     ''expected_tick'', ''expected_score'', ''expected_state_hash'', ''snapshot_sha256'',
     ''runtime_identity_sha256'', ''generator_version'', ''version'']"

definition json_texts :: "jval \<Rightarrow> string list option" where
  "json_texts v = (case json_list v of None \<Rightarrow> None
     | Some xs \<Rightarrow> those (map (\<lambda>x. plain_str (py_of_json x)) xs))"

definition recipe_from_manifest :: "cur_env \<Rightarrow> (string \<times> jval) list \<Rightarrow> snapshot_recipe res" where
  "recipe_from_manifest E d =
     (if set (map fst d) \<noteq> set RECIPE_KEYS then Inl (value_error ''snapshot recipe manifest keys differ'')
      else case json_texts (the (map_of d ''semantic_actions_hex'')) of
        None \<Rightarrow> Inl (value_error ''snapshot recipe trace must be a string array'')
      | Some trace \<Rightarrow> (case mk_snapshot_recipe E (\<lambda>k. py_of_json (the (map_of d k))) trace of
          Inr r \<Rightarrow> Inr r
        | Inl e \<Rightarrow> Inl (if exn_class e = TypeError
            then value_error ''snapshot recipe manifest types are malformed'' else e)))"

section \<open>The snapshot library\<close>

text \<open>The recipes, ordered by identifier.\<close>

type_synonym snapshot_library = "snapshot_recipe list"

definition LIBRARY_VERSION :: string where "LIBRARY_VERSION = ''curriculum-snapshot-library-v1''"

definition pool_identity :: "snapshot_recipe \<Rightarrow> string \<times> int \<times> string" where
  "pool_identity r = (rc_config_sha256 r, rc_config_hash r, rc_runtime_sha256 r)"

definition construction_identity :: "snapshot_recipe \<Rightarrow> string \<times> int \<times> int \<times> string \<times> string list" where
  "construction_identity r =
     (rc_config_sha256 r, rc_config_hash r, rc_reset_seed r, rc_action_spec_sha256 r, rc_actions_hex r)"

definition state_identity :: "snapshot_recipe \<Rightarrow> string \<times> int \<times> int \<times> int \<times> int" where
  "state_identity r = (rc_config_sha256 r, rc_config_hash r, rc_expected_tick r, rc_expected_score r,
     rc_expected_state_hash r)"

text \<open>\<open>setdefault\<close> keeps the identity of a pool's first recipe.\<close>

fun pools_consistent :: "(string \<times> string \<times> int \<times> string) list \<Rightarrow> snapshot_recipe list \<Rightarrow> bool" where
  "pools_consistent seen [] = True"
| "pools_consistent seen (r # rs) = (case map_of seen (rc_environment_pool r) of
     None \<Rightarrow> pools_consistent ((rc_environment_pool r, pool_identity r) # seen) rs
   | Some previous \<Rightarrow> previous = pool_identity r \<and> pools_consistent seen rs)"

definition shares :: "('a \<Rightarrow> 'b) \<Rightarrow> 'a list \<Rightarrow> 'a list \<Rightarrow> bool" where
  "shares f xs ys \<longleftrightarrow> list_ex (\<lambda>x. f x \<in> set (map f ys)) xs"

definition split_recipes :: "snapshot_recipe list \<Rightarrow> string \<Rightarrow> snapshot_recipe list" where
  "split_recipes rs split = filter (\<lambda>r. rc_split r = split) rs"

definition check_split_pair :: "snapshot_recipe list \<Rightarrow> string \<times> string \<Rightarrow> unit res" where
  "check_split_pair rs = (\<lambda>(left, right). let ls = split_recipes rs left; rt = split_recipes rs right in
     if shares rc_scenario_family ls rt
     then Inl (value_error (left @ '' and '' @ right @ '' scenario families overlap''))
     else if shares construction_identity ls rt
     then Inl (value_error (left @ '' and '' @ right @ '' construction provenance overlaps''))
     else if shares state_identity ls rt
     then Inl (value_error (left @ '' and '' @ right @ '' reachable state identities overlap''))
     else Inr ())"

fun later_pairs :: "'a list \<Rightarrow> ('a \<times> 'a) list" where
  "later_pairs [] = []" | "later_pairs (x # xs) = map (Pair x) xs @ later_pairs xs"

definition mk_snapshot_library :: "snapshot_recipe list \<Rightarrow> snapshot_library res" where
  "mk_snapshot_library recipes =
     (if recipes = [] then Inl (value_error ''snapshot library cannot be empty'')
      else let ordered = sort_key rc_snapshot_id recipes in
      if \<not> distinct (map rc_snapshot_id ordered) then Inl (value_error ''snapshot ids must be unique'')
      else if \<not> distinct (map rc_snapshot_sha256 ordered)
      then Inl (value_error ''snapshot blobs must not be duplicated under new ids'')
      else if \<not> pools_consistent [] ordered
      then Inl (value_error ''one environment pool cannot mix mechanics or runtime identities'')
      else let populated = filter (\<lambda>s. split_recipes ordered s \<noteq> []) SPLITS in
        rbind (rmap (check_split_pair ordered) (later_pairs populated)) (\<lambda>_. Inr ordered))"

definition library_get :: "snapshot_library \<Rightarrow> string \<Rightarrow> snapshot_recipe res" where
  "library_get lib k = (case find (\<lambda>r. rc_snapshot_id r = k) lib of
     None \<Rightarrow> Inl (Exn KeyError (''unknown curriculum snapshot: '' @ k)) | Some r \<Rightarrow> Inr r)"

definition library_manifest :: "snapshot_library \<Rightarrow> jval" where
  "library_manifest lib = JObj [(''version'', JStr LIBRARY_VERSION),
     (''recipes'', JList (map recipe_manifest lib))]"

definition library_sha256 :: "cur_env \<Rightarrow> snapshot_library \<Rightarrow> string" where
  "library_sha256 E lib = ce_digest E (library_manifest lib)"

definition library_from_manifest :: "cur_env \<Rightarrow> (string \<times> jval) list \<Rightarrow> snapshot_library res" where
  "library_from_manifest E d =
     (if set (map fst d) \<noteq> {''version'', ''recipes''} \<or> the (map_of d ''version'') \<noteq> JStr LIBRARY_VERSION
      then Inl (value_error ''snapshot library manifest identity or keys differ'')
      else case json_list (the (map_of d ''recipes'')) of
        None \<Rightarrow> Inl (value_error ''snapshot library recipes must be an array of tables'')
      | Some xs \<Rightarrow> (case those (map json_obj xs) of
          None \<Rightarrow> Inl (value_error ''snapshot library recipes must be an array of tables'')
        | Some tables \<Rightarrow>
          rbind (rmap (recipe_from_manifest E) tables) (\<lambda>recipes.
          rbind (mk_snapshot_library recipes) (\<lambda>lib.
          if \<not> json_eq (library_manifest lib) (JObj d)
          then Inl (value_error ''snapshot library manifest is not canonical'') else Inr lib))))"

definition verify_snapshot_blob :: "cur_env \<Rightarrow> snapshot_library \<Rightarrow> string \<Rightarrow> byte list \<Rightarrow> unit res" where
  "verify_snapshot_blob E lib k payload = rbind (library_get lib k) (\<lambda>r.
     rguard (ce_blob E payload \<noteq> rc_snapshot_sha256 r) (value_error ''curriculum snapshot blob hash mismatch''))"

section \<open>The blob store\<close>

record blob_store =
  bs_library :: snapshot_library
  bs_blobs :: "(string \<times> byte list) list"

text \<open>A supplied blob is None when it is not \<open>bytes\<close>.\<close>

definition take_blob ::
  "cur_env \<Rightarrow> snapshot_library \<Rightarrow> (string \<times> byte list option) list \<Rightarrow> snapshot_recipe \<Rightarrow> (string \<times> byte list) res" where
  "take_blob E lib blobs r = (case the (map_of blobs (rc_snapshot_id r)) of
     None \<Rightarrow> Inl (Exn TypeError ''snapshot blobs must be owned bytes'')
   | Some payload \<Rightarrow> rbind (verify_snapshot_blob E lib (rc_snapshot_id r) payload) (\<lambda>_.
       Inr (rc_snapshot_id r, payload)))"

definition mk_blob_store ::
  "cur_env \<Rightarrow> snapshot_library \<Rightarrow> (string \<times> byte list option) list \<Rightarrow> blob_store res" where
  "mk_blob_store E lib blobs =
     (if set (map fst blobs) \<noteq> set (map rc_snapshot_id lib)
      then Inl (value_error ''snapshot blob set does not match the library'')
      else rbind (rmap (take_blob E lib blobs) lib) (\<lambda>owned.
        Inr \<lparr>bs_library = lib, bs_blobs = owned\<rparr>))"

definition blob_get :: "blob_store \<Rightarrow> string \<Rightarrow> byte list res" where
  "blob_get store k = (case map_of (bs_blobs store) k of
     None \<Rightarrow> Inl (Exn KeyError (''unknown curriculum snapshot: '' @ k)) | Some b \<Rightarrow> Inr b)"

section \<open>Stages\<close>

record stage_spec =
  st_id :: string
  st_rank :: int
  st_pool :: string
  st_train :: "string list"
  st_validation :: "string list"
  st_kinds :: "int list"
  st_waits :: "int list"
  st_promotion_successes :: int
  st_promotion_trials :: int
  st_regression_successes :: int
  st_regression_trials :: int
  st_passes :: int
  st_max_updates :: int
  st_schedule :: reward_schedule

definition plain_ints :: "pyval list \<Rightarrow> int list option" where
  "plain_ints vs = those (map plain_int vs)"

definition positive_int :: "pyval \<Rightarrow> bool" where
  "positive_int v = (case plain_int v of None \<Rightarrow> False | Some n \<Rightarrow> 0 < n)"

text \<open>The last part of the validation, on the values.\<close>

definition check_stage :: "stage_spec \<Rightarrow> stage_spec res" where
  "check_stage s =
     (if st_promotion_trials s < st_promotion_successes s \<or> st_regression_trials s < st_regression_successes s
      then Inl (value_error ''stage success requirements cannot exceed trial counts'')
      else if min (st_promotion_trials s) (st_regression_trials s) < int (length (st_validation s))
      then Inl (value_error ''validation trials must cover every declared snapshot recipe'')
      else Inr s)"

definition mk_stage_spec ::
  "pyval \<Rightarrow> pyval \<Rightarrow> string \<Rightarrow> string list \<Rightarrow> string list \<Rightarrow> pyval list \<Rightarrow> pyval list \<Rightarrow> pyval list
     \<Rightarrow> reward_schedule \<Rightarrow> stage_spec res" where
  "mk_stage_spec sid rank pool train validation kinds waits counts schedule =
     (if \<not> str_ok (\<lambda>s. s \<noteq> [] \<and> is_ascii s) sid \<or> pool = []
      then Inl (value_error ''stage identity must be nonempty'')
      else case plain_int rank of
        None \<Rightarrow> Inl (value_error ''stage rank must be a nonnegative integer'')
      | Some n \<Rightarrow>
      if n < 0 then Inl (value_error ''stage rank must be a nonnegative integer'')
      else if train = [] \<or> validation = []
      then Inl (value_error ''stage requires training and validation snapshots'')
      else if \<not> distinct train \<or> \<not> distinct validation
      then Inl (value_error ''stage snapshot ids must be unique'')
      else case plain_ints kinds of
        None \<Rightarrow> Inl (Exn TypeError ''enabled action kinds must be integers'')
      | Some ks \<Rightarrow>
      if sort (remdups ks) \<noteq> ks \<or> ks = [] \<or> \<not> list_all (\<lambda>k. 0 \<le> k \<and> k \<le> 2) ks
      then Inl (value_error ''enabled action kinds must be sorted unique values in [0, 2]'')
      else case plain_ints waits of
        None \<Rightarrow> Inl (Exn TypeError ''enabled wait durations must be integers'')
      | Some ws \<Rightarrow>
      if sort (remdups ws) \<noteq> ws \<or> 0 \<in> set ks \<and> ws = []
      then Inl (value_error ''WAIT-enabled stages require sorted unique wait durations'')
      else if \<not> list_all (\<lambda>w. w \<in> set (as_wait_choices default_action_spec)) ws
      then Inl (value_error ''stage wait duration is absent from the action schema'')
      else if length counts \<noteq> 6 \<or> \<not> list_all positive_int counts
      then Inl (value_error ''stage gates and budgets must be positive integers'')
      else let c = (\<lambda>i. the (plain_int (counts ! i))) in
        check_stage \<lparr>st_id = the (plain_str sid), st_rank = n, st_pool = pool, st_train = train,
          st_validation = validation, st_kinds = ks, st_waits = ws, st_promotion_successes = c 0,
          st_promotion_trials = c 1, st_regression_successes = c 2, st_regression_trials = c 3,
          st_passes = c 4, st_max_updates = c 5, st_schedule = schedule\<rparr>)"

definition stage_manifest :: "stage_spec \<Rightarrow> jval" where
  "stage_manifest s = JObj [(''version'', JStr ''curriculum-stage-v1''), (''stage_id'', JStr (st_id s)),
     (''rank'', JInt (st_rank s)), (''environment_pool'', JStr (st_pool s)),
     (''train_snapshot_ids'', json_strs (st_train s)),
     (''validation_snapshot_ids'', json_strs (st_validation s)),
     (''enabled_action_kinds'', json_ints (st_kinds s)), (''enabled_wait_ticks'', json_ints (st_waits s)),
     (''promotion_successes'', JInt (st_promotion_successes s)),
     (''promotion_trials'', JInt (st_promotion_trials s)),
     (''regression_successes'', JInt (st_regression_successes s)),
     (''regression_trials'', JInt (st_regression_trials s)),
     (''required_consecutive_passes'', JInt (st_passes s)), (''max_updates'', JInt (st_max_updates s)),
     (''reward_schedule'', schedule_manifest (st_schedule s))]"

section \<open>The curriculum\<close>

record curriculum_spec =
  cs_id :: string
  cs_library :: snapshot_library
  cs_stages :: "stage_spec list"
  cs_evaluation_seed :: int
  cs_prior_mix :: int

definition check_snapshot_of :: "snapshot_library \<Rightarrow> stage_spec \<Rightarrow> string \<Rightarrow> string \<Rightarrow> string \<Rightarrow> unit res" where
  "check_snapshot_of lib stage split mismatch k = rbind (library_get lib k) (\<lambda>r.
     if rc_stage_id r \<noteq> st_id stage \<or> rc_split r \<noteq> split then Inl (value_error mismatch)
     else rguard (rc_environment_pool r \<noteq> st_pool stage)
       (value_error ''stage snapshot belongs to a different environment pool''))"

definition check_stage_snapshots :: "snapshot_library \<Rightarrow> stage_spec \<Rightarrow> unit res" where
  "check_stage_snapshots lib stage =
     rbind (rmap (check_snapshot_of lib stage ''train'' ''stage training snapshot identity mismatch'')
       (st_train stage)) (\<lambda>_.
     rbind (rmap (check_snapshot_of lib stage ''validation'' ''stage validation snapshot identity mismatch'')
       (st_validation stage)) (\<lambda>_. Inr ()))"

definition mk_curriculum_spec ::
  "string \<Rightarrow> snapshot_library \<Rightarrow> stage_spec list \<Rightarrow> pyval \<Rightarrow> pyval \<Rightarrow> curriculum_spec res" where
  "mk_curriculum_spec cid lib stages seed mix =
     (if cid = [] \<or> \<not> is_ascii cid \<or> stages = []
      then Inl (value_error ''curriculum identity and stages are required'')
      else if map st_rank stages \<noteq> map int [0..<length stages]
      then Inl (value_error ''curriculum stage ranks must be contiguous and ordered'')
      else if \<not> distinct (map st_id stages)
      then Inl (value_error ''curriculum stage ids must be unique'')
      else case plain_int seed of
        None \<Rightarrow> Inl (value_error ''curriculum evaluation seed must fit uint64'')
      | Some ev \<Rightarrow>
      if \<not> (0 \<le> ev \<and> ev < 2 ^ 64) then Inl (value_error ''curriculum evaluation seed must fit uint64'')
      else case plain_int mix of
        None \<Rightarrow> Inl (Exn TypeError ''prior-stage mix must be an integer ppm value'')
      | Some m \<Rightarrow>
      if \<not> (0 \<le> m \<and> m \<le> 1000000)
      then Inl (value_error ''prior-stage mix must be within [0, 1_000_000] ppm'')
      else rbind (rmap (check_stage_snapshots lib) stages) (\<lambda>_.
        Inr \<lparr>cs_id = cid, cs_library = lib, cs_stages = stages, cs_evaluation_seed = ev, cs_prior_mix = m\<rparr>))"

definition assignment_manifest :: "cur_env \<Rightarrow> curriculum_spec \<Rightarrow> jval" where
  "assignment_manifest E c = JObj [(''version'', JStr ''curriculum-assignment-v1''),
     (''curriculum_id'', JStr (cs_id c)), (''library_sha256'', JStr (library_sha256 E (cs_library c))),
     (''prior_stage_mix_ppm'', JInt (cs_prior_mix c)),
     (''stages'', JList (map (\<lambda>s. JObj [(''rank'', JInt (st_rank s)), (''stage_id'', JStr (st_id s)),
       (''environment_pool'', JStr (st_pool s)), (''train_snapshot_ids'', json_strs (st_train s))])
       (cs_stages c)))]"

definition assignment_sha256 :: "cur_env \<Rightarrow> curriculum_spec \<Rightarrow> string" where
  "assignment_sha256 E c = ce_digest E (assignment_manifest E c)"

definition curriculum_manifest :: "cur_env \<Rightarrow> curriculum_spec \<Rightarrow> jval" where
  "curriculum_manifest E c = JObj [(''version'', JStr ''curriculum-v1''), (''curriculum_id'', JStr (cs_id c)),
     (''library_sha256'', JStr (library_sha256 E (cs_library c))),
     (''evaluation_seed'', JInt (cs_evaluation_seed c)), (''prior_stage_mix_ppm'', JInt (cs_prior_mix c)),
     (''stages'', JList (map stage_manifest (cs_stages c))),
     (''assignment_sha256'', JStr (assignment_sha256 E c))]"

definition curriculum_sha256 :: "cur_env \<Rightarrow> curriculum_spec \<Rightarrow> string" where
  "curriculum_sha256 E c = ce_digest E (curriculum_manifest E c)"

end
