(* ===== verification/Curriculum.thy ===== *)
theory Curriculum
  imports Curriculum_Spec
begin

text \<open>
  \<open>CurriculumCoordinator\<close> of \<open>irisu_rl/curriculum.py\<close>: it samples the episodes of the lanes from
  the unlocked stages in two phases (reserve, then commit or roll back), asks for a validation of a
  policy, and promotes on the evidence of a report.  Stage indices are natural numbers.  A method is
  a computation on the record \<open>coordinator\<close>; \<open>reserve_assignments\<close> draws by rejection from a stream
  of digests and may not return, so its result is an option.
\<close>

section \<open>Text of a number\<close>

fun nat_text :: "nat \<Rightarrow> string" where
  "nat_text n = (if n < 10 then [char_of (48 + n)] else nat_text (n div 10) @ [char_of (48 + n mod 10)])"

declare nat_text.simps [simp del]

definition int_text :: "int \<Rightarrow> string" where
  "int_text n = (if n < 0 then ''-'' @ nat_text (nat (- n)) else nat_text (nat n))"

section \<open>Requests and reports\<close>

record validation_outcome =
  vo_snapshot_id :: string
  vo_repetition :: int
  vo_policy_seed :: int
  vo_success :: bool

definition nonempty_str :: "pyval \<Rightarrow> bool" where
  "nonempty_str v = str_ok (\<lambda>s. s \<noteq> []) v"

definition int_ok :: "(int \<Rightarrow> bool) \<Rightarrow> pyval \<Rightarrow> bool" where
  "int_ok P v = (case plain_int v of None \<Rightarrow> False | Some n \<Rightarrow> P n)"

definition uint64 :: "int \<Rightarrow> bool" where
  "uint64 n \<longleftrightarrow> 0 \<le> n \<and> n < 2 ^ 64"

definition mk_validation_outcome :: "pyval \<Rightarrow> pyval \<Rightarrow> pyval \<Rightarrow> pyval \<Rightarrow> validation_outcome res" where
  "mk_validation_outcome sid rep seed success =
     (if \<not> nonempty_str sid \<or> \<not> int_ok (\<lambda>n. 0 \<le> n) rep \<or> \<not> int_ok uint64 seed \<or> plain_bool success = None
      then Inl (value_error ''validation episode outcome is malformed'')
      else Inr \<lparr>vo_snapshot_id = the (plain_str sid), vo_repetition = the (plain_int rep),
        vo_policy_seed = the (plain_int seed), vo_success = the (plain_bool success)\<rparr>)"

record validation_result =
  vr_stage_id :: string
  vr_successes :: int
  vr_episodes :: int
  vr_snapshot_ids :: "string list"
  vr_outcomes :: "validation_outcome list"

definition mk_validation_result ::
  "pyval \<Rightarrow> pyval \<Rightarrow> pyval \<Rightarrow> pyval list \<Rightarrow> validation_outcome list \<Rightarrow> validation_result res" where
  "mk_validation_result sid successes episodes ids outcomes =
     (if \<not> nonempty_str sid \<or> plain_int successes = None \<or> \<not> int_ok (\<lambda>n. 0 < n) episodes \<or>
         \<not> int_ok (\<lambda>n. 0 \<le> n \<and> n \<le> the (plain_int episodes)) successes
      then Inl (value_error ''validation result is malformed'')
      else if \<not> list_all hashable ids then Inl (Exn TypeError ''unhashable type'')
      else if \<not> distinct ids \<or> \<not> list_all nonempty_str ids \<or>
         outcomes \<noteq> [] \<and> int (length outcomes) \<noteq> the (plain_int episodes) \<or>
         outcomes \<noteq> [] \<and> int (length (filter vo_success outcomes)) \<noteq> the (plain_int successes)
      then Inl (value_error ''validation result is malformed'')
      else Inr \<lparr>vr_stage_id = the (plain_str sid), vr_successes = the (plain_int successes),
        vr_episodes = the (plain_int episodes), vr_snapshot_ids = map (\<lambda>v. the (plain_str v)) ids,
        vr_outcomes = outcomes\<rparr>)"

record stage_request =
  vs_stage_id :: string
  vs_snapshot_ids :: "string list"
  vs_episodes :: int

definition mk_stage_request :: "pyval \<Rightarrow> pyval list \<Rightarrow> pyval \<Rightarrow> stage_request res" where
  "mk_stage_request sid ids episodes =
     (if \<not> nonempty_str sid \<or> ids = [] \<or> \<not> list_all nonempty_str ids \<or> \<not> distinct ids \<or>
         \<not> int_ok (\<lambda>n. 0 < n) episodes
      then Inl (value_error ''validation stage request is malformed'')
      else Inr \<lparr>vs_stage_id = the (plain_str sid), vs_snapshot_ids = map (\<lambda>v. the (plain_str v)) ids,
        vs_episodes = the (plain_int episodes)\<rparr>)"

definition stage_request_manifest :: "stage_request \<Rightarrow> jval" where
  "stage_request_manifest r = JObj [(''stage_id'', JStr (vs_stage_id r)),
     (''snapshot_ids'', json_strs (vs_snapshot_ids r)), (''episodes'', JInt (vs_episodes r))]"

record validation_request =
  vq_curriculum_sha256 :: string
  vq_gate_ordinal :: int
  vq_completed_update :: int
  vq_evaluation_seed :: int
  vq_policy_sha256 :: string
  vq_evaluator_sha256 :: string
  vq_stages :: "stage_request list"

definition mk_validation_request ::
  "pyval \<Rightarrow> pyval \<Rightarrow> pyval \<Rightarrow> pyval \<Rightarrow> pyval \<Rightarrow> pyval \<Rightarrow> stage_request list \<Rightarrow> validation_request res" where
  "mk_validation_request curriculum gate update seed policy evaluator stages =
     (if \<not> is_sha256 curriculum \<or> \<not> is_sha256 policy \<or> \<not> is_sha256 evaluator \<or>
         \<not> int_ok (\<lambda>n. 0 \<le> n) gate \<or> \<not> int_ok (\<lambda>n. 0 \<le> n) update \<or> \<not> int_ok uint64 seed \<or>
         stages = [] \<or> \<not> distinct (map vs_stage_id stages)
      then Inl (value_error ''validation request identity is malformed'')
      else Inr \<lparr>vq_curriculum_sha256 = the (plain_str curriculum), vq_gate_ordinal = the (plain_int gate),
        vq_completed_update = the (plain_int update), vq_evaluation_seed = the (plain_int seed),
        vq_policy_sha256 = the (plain_str policy), vq_evaluator_sha256 = the (plain_str evaluator),
        vq_stages = stages\<rparr>)"

definition REQUEST_VERSION :: string where "REQUEST_VERSION = ''curriculum-validation-request-v1''"

definition request_manifest :: "validation_request \<Rightarrow> (string \<times> jval) list" where
  "request_manifest r = [(''version'', JStr REQUEST_VERSION),
     (''curriculum_sha256'', JStr (vq_curriculum_sha256 r)), (''gate_ordinal'', JInt (vq_gate_ordinal r)),
     (''completed_update'', JInt (vq_completed_update r)), (''evaluation_seed'', JInt (vq_evaluation_seed r)),
     (''policy_sha256'', JStr (vq_policy_sha256 r)),
     (''evaluator_identity_sha256'', JStr (vq_evaluator_sha256 r)),
     (''stages'', JList (map stage_request_manifest (vq_stages r)))]"

definition request_id :: "cur_env \<Rightarrow> validation_request \<Rightarrow> string" where
  "request_id E r = ce_digest E (JObj (request_manifest r))"

text \<open>The first eight bytes of a 256-bit digest.\<close>

definition episode_seed :: "cur_env \<Rightarrow> validation_request \<Rightarrow> string \<Rightarrow> string \<Rightarrow> int \<Rightarrow> int res" where
  "episode_seed E r stage snapshot repetition =
     (if stage = [] \<or> snapshot = [] \<or> repetition < 0
      then Inl (value_error ''validation episode seed coordinates are malformed'')
      else Inr (int (ce_sha256 E (vq_curriculum_sha256 r @ '':'' @ int_text (vq_evaluation_seed r) @ '':'' @
        stage @ '':'' @ snapshot @ '':'' @ int_text repetition) div 2 ^ 192)))"

text \<open>One stage of a stored request.\<close>

definition parse_stage_request :: "jval \<Rightarrow> stage_request res" where
  "parse_stage_request v = (case json_obj v of
     None \<Rightarrow> Inl (value_error ''validation stage request is malformed'')
   | Some d \<Rightarrow>
     if set (map fst d) \<noteq> {''stage_id'', ''snapshot_ids'', ''episodes''}
     then Inl (value_error ''validation stage request is malformed'')
     else case json_list (the (map_of d ''snapshot_ids'')) of
       None \<Rightarrow> Inl (value_error ''validation stage snapshot ids are malformed'')
     | Some ids \<Rightarrow> mk_stage_request (py_of_json (the (map_of d ''stage_id''))) (map py_of_json ids)
         (py_of_json (the (map_of d ''episodes''))))"

definition REQUEST_KEYS :: "string list" where
  "REQUEST_KEYS = [''version'', ''curriculum_sha256'', ''gate_ordinal'', ''completed_update'',
     ''evaluation_seed'', ''policy_sha256'', ''evaluator_identity_sha256'', ''stages'']"

definition request_from_manifest :: "(string \<times> jval) list \<Rightarrow> validation_request res" where
  "request_from_manifest d = (let g = (\<lambda>k. py_of_json (the (map_of d k))) in
     if set (map fst d) \<noteq> set REQUEST_KEYS \<or> the (map_of d ''version'') \<noteq> JStr REQUEST_VERSION
     then Inl (value_error ''validation request checkpoint identity mismatch'')
     else case json_list (the (map_of d ''stages'')) of
       None \<Rightarrow> Inl (value_error ''validation request stages are malformed'')
     | Some stages \<Rightarrow> rbind (rmap parse_stage_request stages) (\<lambda>parsed.
         mk_validation_request (g ''curriculum_sha256'') (g ''gate_ordinal'') (g ''completed_update'')
           (g ''evaluation_seed'') (g ''policy_sha256'') (g ''evaluator_identity_sha256'') parsed))"

record validation_report =
  vp_request_id :: string
  vp_policy_sha256 :: string
  vp_evaluator_sha256 :: string
  vp_results :: "validation_result list"

definition mk_validation_report ::
  "pyval \<Rightarrow> pyval \<Rightarrow> pyval \<Rightarrow> validation_result list \<Rightarrow> validation_report res" where
  "mk_validation_report request policy evaluator results =
     (if \<not> is_sha256 request \<or> \<not> is_sha256 policy \<or> \<not> is_sha256 evaluator \<or> results = []
      then Inl (value_error ''validation report identity is malformed'')
      else if \<not> distinct (map vr_stage_id results)
      then Inl (value_error ''validation report repeats a stage'')
      else Inr \<lparr>vp_request_id = the (plain_str request), vp_policy_sha256 = the (plain_str policy),
        vp_evaluator_sha256 = the (plain_str evaluator), vp_results = results\<rparr>)"

definition json_outcome :: "validation_outcome \<Rightarrow> jval" where
  "json_outcome r = JObj [(''snapshot_id'', JStr (vo_snapshot_id r)), (''repetition'', JInt (vo_repetition r)),
     (''policy_seed'', JInt (vo_policy_seed r)), (''success'', JBool (vo_success r))]"

definition json_result :: "validation_result \<Rightarrow> jval" where
  "json_result r = JObj [(''stage_id'', JStr (vr_stage_id r)), (''successes'', JInt (vr_successes r)),
     (''episodes'', JInt (vr_episodes r)), (''snapshot_ids'', json_strs (vr_snapshot_ids r)),
     (''outcomes'', JList (map json_outcome (vr_outcomes r)))]"

definition report_sha256 :: "cur_env \<Rightarrow> validation_report \<Rightarrow> string" where
  "report_sha256 E p = ce_digest E (JObj [(''request_id'', JStr (vp_request_id p)),
     (''policy_sha256'', JStr (vp_policy_sha256 p)),
     (''evaluator_identity_sha256'', JStr (vp_evaluator_sha256 p)),
     (''results'', JList (map json_result (sort_key vr_stage_id (vp_results p))))])"

section \<open>The coordinator\<close>

datatype cur_phase = Normal | Remediation | Activation | BudgetValidation | Complete | BudgetExhausted

fun cur_phase_name :: "cur_phase \<Rightarrow> string" where
  "cur_phase_name Normal = ''normal''" | "cur_phase_name Remediation = ''remediation''"
| "cur_phase_name Activation = ''activation''" | "cur_phase_name BudgetValidation = ''budget_validation''"
| "cur_phase_name Complete = ''complete''" | "cur_phase_name BudgetExhausted = ''budget_exhausted''"

definition cur_phase_of :: "string \<Rightarrow> cur_phase option" where
  "cur_phase_of s = find (\<lambda>p. cur_phase_name p = s)
     [Normal, Remediation, Activation, BudgetValidation, Complete, BudgetExhausted]"

record episode_assignment =
  ea_lane :: nat
  ea_ordinal :: int
  ea_stage_id :: string
  ea_snapshot_id :: string

record assignment_reservation =
  rv_assignments :: "episode_assignment list"
  rv_state_hash :: string

record gate_decision =
  gd_phase :: cur_phase
  gd_highest :: string
  gd_focus :: string
  gd_promoted :: bool
  gd_remediation :: "string option"
  gd_reason :: string

record coordinator =
  cc_spec :: curriculum_spec
  cc_lanes :: nat
  cc_learner_seed :: int
  cc_highest :: nat
  cc_focus :: nat
  cc_phase :: cur_phase
  cc_completed :: int
  cc_unlocks :: "int list"
  cc_streak :: int
  cc_lane_stage :: "nat list"
  cc_lane_snapshot :: "string list"
  cc_lane_weight :: "int list"
  cc_ordinals :: "int list"
  cc_outstanding :: "assignment_reservation option"
  cc_reports :: "(string \<times> string) list"
  cc_policies :: "string set"
  cc_evaluations :: int
  cc_pending :: "validation_request option"
  cc_event_head :: string

definition stages_of :: "coordinator \<Rightarrow> stage_spec list" where
  "stages_of s = cs_stages (cc_spec s)"

definition coordinator_init :: "curriculum_spec \<Rightarrow> pyval \<Rightarrow> pyval \<Rightarrow> coordinator res" where
  "coordinator_init spec lanes seed =
     (if \<not> int_ok (\<lambda>n. 0 < n) lanes
      then Inl (value_error ''curriculum lane count must be a positive integer'')
      else if \<not> int_ok uint64 seed then Inl (value_error ''curriculum learner seed must fit uint64'')
      else let n = nat (the (plain_int lanes)) in
      rbind (weight_ppm (st_schedule (cs_stages spec ! 0)) 0) (\<lambda>w.
      Inr \<lparr>cc_spec = spec, cc_lanes = n, cc_learner_seed = the (plain_int seed), cc_highest = 0,
        cc_focus = 0, cc_phase = Normal, cc_completed = 0,
        cc_unlocks = 0 # replicate (length (cs_stages spec) - 1) (- 1), cc_streak = 0,
        cc_lane_stage = replicate n 0, cc_lane_snapshot = replicate n [], cc_lane_weight = replicate n w,
        cc_ordinals = replicate n 0, cc_outstanding = None, cc_reports = [], cc_policies = {},
        cc_evaluations = 0, cc_pending = None, cc_event_head = ZERO_SHA256\<rparr>))"

definition append_cur_event :: "cur_env \<Rightarrow> string \<Rightarrow> (string \<times> jval) list \<Rightarrow> (coordinator, unit) py" where
  "append_cur_event E kind payload = pmod (\<lambda>s. s\<lparr>cc_event_head := ce_digest E (JObj
     [(''previous'', JStr (cc_event_head s)), (''kind'', JStr kind),
      (''completed_updates'', JInt (cc_completed s)), (''payload'', JObj payload)])\<rparr>)"

section \<open>Sampling and reserving\<close>

text \<open>The rejection loop of \<open>_sample_index\<close>, on the digests of the prefix with a counter.\<close>

partial_function (option) sample_from :: "cur_env \<Rightarrow> string \<Rightarrow> nat \<Rightarrow> nat \<Rightarrow> nat option" where
  "sample_from E prefix k counter =
     (let value = ce_sha256 E (prefix @ nat_text counter) in
      if value < 2 ^ 256 - 2 ^ 256 mod k then Some (value mod k) else sample_from E prefix k (Suc counter))"

definition sample_prefix :: "cur_env \<Rightarrow> coordinator \<Rightarrow> nat \<Rightarrow> int \<Rightarrow> string" where
  "sample_prefix E s lane ordinal = assignment_sha256 E (cc_spec s) @ '':'' @
     int_text (cc_learner_seed s) @ '':'' @ nat_text lane @ '':'' @ int_text ordinal @ '':''"

definition sample_index :: "cur_env \<Rightarrow> coordinator \<Rightarrow> nat \<Rightarrow> int \<Rightarrow> nat \<Rightarrow> nat option" where
  "sample_index E s lane ordinal k = sample_from E (sample_prefix E s lane ordinal) k 0"

text \<open>The stage of a lane's next episode: a fraction of the earlier stages after a promotion.\<close>

definition draw_stage :: "cur_env \<Rightarrow> coordinator \<Rightarrow> nat \<Rightarrow> nat option" where
  "draw_stage E s lane = (let ordinal = cc_ordinals s ! lane in
     if cc_phase s = Normal \<and> 0 < cc_highest s then
       Option.bind (sample_index E s lane ordinal 1000000) (\<lambda>selector.
         if int selector < cs_prior_mix (cc_spec s)
         then sample_index E s lane (ordinal + 1) (cc_highest s) else Some (cc_focus s))
     else Some (cc_focus s))"

definition draw_assignment :: "cur_env \<Rightarrow> coordinator \<Rightarrow> nat \<Rightarrow> episode_assignment option" where
  "draw_assignment E s lane = (let ordinal = cc_ordinals s ! lane in
     Option.bind (draw_stage E s lane) (\<lambda>i. let stage = stages_of s ! i in
     Option.bind (sample_index E s lane (ordinal + 2) (length (st_train stage))) (\<lambda>k.
       Some \<lparr>ea_lane = lane, ea_ordinal = ordinal, ea_stage_id = st_id stage,
         ea_snapshot_id = st_train stage ! k\<rparr>)))"

definition json_assignment :: "episode_assignment \<Rightarrow> jval" where
  "json_assignment a = JObj [(''lane_id'', JInt (int (ea_lane a))), (''episode_ordinal'', JInt (ea_ordinal a)),
     (''stage_id'', JStr (ea_stage_id a)), (''snapshot_id'', JStr (ea_snapshot_id a))]"

text \<open>None when a draw does not end.  The checks raise before any draw.\<close>

definition reserve_assignments ::
  "cur_env \<Rightarrow> pyval list \<Rightarrow> coordinator \<Rightarrow> (assignment_reservation res \<times> coordinator) option" where
  "reserve_assignments E lane_ids s =
     (if cc_outstanding s \<noteq> None
      then Some (Inl (Exn RuntimeError ''an assignment reservation is already outstanding''), s)
      else case plain_ints lane_ids of
        None \<Rightarrow> Some (Inl (Exn TypeError ''assignment lanes must be canonical integers''), s)
      | Some lanes \<Rightarrow>
        if \<not> distinct lanes \<or> \<not> list_all (\<lambda>n. 0 \<le> n \<and> n < int (cc_lanes s)) lanes
        then Some (Inl (value_error ''assignment lanes must be unique and in range''), s)
        else Option.bind (those (map (\<lambda>n. draw_assignment E s (nat n)) lanes)) (\<lambda>assignments.
          let r = \<lparr>rv_assignments = assignments, rv_state_hash = ce_digest E (JObj
                [(''assignment'', JStr (assignment_sha256 E (cc_spec s))),
                 (''assignments'', JList (map json_assignment assignments))])\<rparr>
          in Some (Inr r, s\<lparr>cc_outstanding := Some r\<rparr>)))"

section \<open>Committing\<close>

definition stage_index :: "coordinator \<Rightarrow> string \<Rightarrow> nat option" where
  "stage_index s k = find (\<lambda>i. st_id (stages_of s ! i) = k) [0..<length (stages_of s)]"

definition stage_weight :: "coordinator \<Rightarrow> nat \<Rightarrow> int res" where
  "stage_weight s i = (let unlocked = cc_unlocks s ! i;
       age = (if unlocked < 0 then 0 else cc_completed s - unlocked)
     in weight_ppm (st_schedule (stages_of s ! i)) age)"

text \<open>The new per-lane lists, prepared on the side.\<close>

definition prepare_assignment :: "coordinator \<Rightarrow> episode_assignment \<Rightarrow> coordinator res" where
  "prepare_assignment s a = (case stage_index s (ea_stage_id a) of
     None \<Rightarrow> Inl (value_error ''assignment names an unknown stage'')
   | Some i \<Rightarrow> rbind (library_get (cs_library (cc_spec s)) (ea_snapshot_id a)) (\<lambda>recipe.
       let stage = stages_of s ! i in
       if rc_stage_id recipe \<noteq> st_id stage \<or> rc_split recipe \<noteq> ''train'' \<or>
         rc_environment_pool recipe \<noteq> st_pool stage
       then Inl (value_error ''assignment snapshot disagrees with its stage'')
       else rbind (stage_weight s i) (\<lambda>w. let lane = ea_lane a in
         Inr (s\<lparr>cc_lane_stage := (cc_lane_stage s)[lane := i],
           cc_lane_snapshot := (cc_lane_snapshot s)[lane := ea_snapshot_id a],
           cc_lane_weight := (cc_lane_weight s)[lane := w],
           cc_ordinals := (cc_ordinals s)[lane := cc_ordinals s ! lane + 1]\<rparr>))))"

fun prepare_assignments :: "coordinator \<Rightarrow> episode_assignment list \<Rightarrow> coordinator res" where
  "prepare_assignments s [] = Inr s"
| "prepare_assignments s (a # as) = rbind (prepare_assignment s a) (\<lambda>t. prepare_assignments t as)"

definition complete_activation :: "cur_env \<Rightarrow> (coordinator, unit) py" where
  "complete_activation E = pbind (pget (\<lambda>s. cc_phase s = Activation \<and> cc_unlocks s ! cc_highest s < 0 \<and>
       list_all (\<lambda>i. i = cc_highest s) (cc_lane_stage s))) (\<lambda>ready.
     pwhen ready
       (pbind (pmod (\<lambda>s. s\<lparr>cc_unlocks := (cc_unlocks s)[cc_highest s := cc_completed s], cc_phase := Normal\<rparr>)) (\<lambda>_.
        pbind (pget (\<lambda>s. [(''stage'', JStr (st_id (stages_of s ! cc_highest s))),
          (''activation_update'', JInt (cc_completed s))])) (append_cur_event E ''activated''))))"

definition commit_assignments :: "cur_env \<Rightarrow> assignment_reservation \<Rightarrow> (coordinator, unit) py" where
  "commit_assignments E r =
     pbind (pget cc_outstanding) (\<lambda>outstanding.
     pbind (pguard (outstanding \<noteq> Some r) (value_error ''stale or foreign assignment reservation'')) (\<lambda>_.
     pbind (pget (\<lambda>s. list_all (\<lambda>a. ea_ordinal a = cc_ordinals s ! ea_lane a) (rv_assignments r))) (\<lambda>current.
     pbind (pguard (\<not> current) (value_error ''assignment episode ordinal changed before commit'')) (\<lambda>_.
     pbind (pget (\<lambda>s. prepare_assignments s (rv_assignments r))) (\<lambda>prepared.
     pbind (plift prepared) (\<lambda>t.
     pbind (pmod (\<lambda>s. s\<lparr>cc_lane_stage := cc_lane_stage t, cc_lane_snapshot := cc_lane_snapshot t,
       cc_lane_weight := cc_lane_weight t, cc_ordinals := cc_ordinals t, cc_outstanding := None\<rparr>)) (\<lambda>_.
     complete_activation E)))))))"

definition rollback_assignments :: "assignment_reservation \<Rightarrow> (coordinator, unit) py" where
  "rollback_assignments r =
     pbind (pget cc_outstanding) (\<lambda>outstanding.
     pbind (pguard (outstanding \<noteq> Some r) (value_error ''stale or foreign assignment reservation'')) (\<lambda>_.
     pmod (\<lambda>s. s\<lparr>cc_outstanding := None\<rparr>)))"

section \<open>Masks, episodes without snapshots, the update clock\<close>

definition mask_row :: "nat \<Rightarrow> nat list \<Rightarrow> bool list" where
  "mask_row n is = map (\<lambda>i. i \<in> set is) [0..<n]"

text \<open>One lane's masks: the kinds, and the positions of the stage's waits in the action schema.\<close>

definition lane_masks :: "action_spec \<Rightarrow> stage_spec \<Rightarrow> (bool list \<times> bool list) res" where
  "lane_masks A stage =
     (if list_all (\<lambda>w. w \<in> set (as_wait_choices A)) (st_waits stage)
      then Inr (mask_row 3 (map nat (st_kinds stage)),
        mask_row (length (as_wait_choices A)) (map (list_index (as_wait_choices A)) (st_waits stage)))
      else Inl (value_error ''curriculum wait is absent from the action schema''))"

definition action_masks :: "action_spec \<Rightarrow> coordinator \<Rightarrow> (bool list \<times> bool list) list res" where
  "action_masks A s = rmap (\<lambda>i. lane_masks A (stages_of s ! i)) (cc_lane_stage s)"

fun activate_lanes :: "nat list \<Rightarrow> (coordinator, unit) py" where
  "activate_lanes [] = pret ()"
| "activate_lanes (lane # lanes) =
     pbind (pmod (\<lambda>s. s\<lparr>cc_lane_stage := (cc_lane_stage s)[lane := cc_focus s]\<rparr>)) (\<lambda>_.
     pbind (pget (\<lambda>s. stage_weight s (cc_focus s))) (\<lambda>weight.
     pbind (plift weight) (\<lambda>w.
     pbind (pmod (\<lambda>s. s\<lparr>cc_lane_weight := (cc_lane_weight s)[lane := w]\<rparr>)) (\<lambda>_.
     activate_lanes lanes))))"

text \<open>The reset mask is None when it is not boolean.\<close>

definition activate_focus :: "cur_env \<Rightarrow> bool list option \<Rightarrow> (coordinator, unit) py" where
  "activate_focus E reset = pbind (pget cc_lanes) (\<lambda>lanes. case reset of
     None \<Rightarrow> praise (value_error ''curriculum reset mask must be boolean [B]'')
   | Some bs \<Rightarrow>
     if length bs \<noteq> lanes then praise (value_error ''curriculum reset mask must be boolean [B]'')
     else pbind (activate_lanes (filter (\<lambda>i. bs ! i) [0..<lanes])) (\<lambda>_. complete_activation E))"

definition advance_update :: "cur_env \<Rightarrow> (coordinator, unit) py" where
  "advance_update E =
     pbind (pget cc_pending) (\<lambda>pending.
     pbind (pguard (pending \<noteq> None)
       (Exn RuntimeError ''curriculum cannot train while validation is pending'')) (\<lambda>_.
     pbind (pget cc_phase) (\<lambda>phase.
     pbind (pguard (phase \<in> {BudgetValidation, Complete, BudgetExhausted})
       (Exn RuntimeError ''closed curriculum cannot advance its update clock'')) (\<lambda>_.
     pbind (pmod (\<lambda>s. s\<lparr>cc_completed := cc_completed s + 1\<rparr>)) (\<lambda>_.
     pbind (pget (\<lambda>s. let unlock = cc_unlocks s ! cc_highest s; stage = stages_of s ! cc_highest s in
       0 \<le> unlock \<and> st_max_updates stage \<le> cc_completed s - unlock)) (\<lambda>closed.
     pwhen closed
       (pbind (pmod (\<lambda>s. s\<lparr>cc_phase := BudgetValidation\<rparr>)) (\<lambda>_.
        pbind (pget (\<lambda>s. [(''stage'', JStr (st_id (stages_of s ! cc_highest s)))]))
          (append_cur_event E ''budget_closed'')))))))))"

section \<open>Validation gates\<close>

definition stage_request_of :: "nat \<Rightarrow> nat \<times> stage_spec \<Rightarrow> stage_request res" where
  "stage_request_of highest = (\<lambda>(i, stage). mk_stage_request (PyStr (st_id stage))
     (map PyStr (st_validation stage))
     (PyInt (if i = highest then st_promotion_trials stage else st_regression_trials stage)))"

definition expected_stages :: "coordinator \<Rightarrow> nat \<Rightarrow> stage_request list res" where
  "expected_stages s highest = (let stages = take (Suc highest) (stages_of s) in
     rmap (stage_request_of highest) (zip [0..<length stages] stages))"

definition request_validation :: "cur_env \<Rightarrow> pyval \<Rightarrow> pyval \<Rightarrow> (coordinator, validation_request) py" where
  "request_validation E policy evaluator =
     pbind (pget cc_phase) (\<lambda>phase.
     pbind (pguard (phase = Activation)
       (Exn RuntimeError ''curriculum stage must activate before validation'')) (\<lambda>_.
     pbind (pguard (phase = Complete \<or> phase = BudgetExhausted)
       (Exn RuntimeError ''terminal curriculum cannot request validation'')) (\<lambda>_.
     pbind (pget cc_pending) (\<lambda>pending.
     pbind (pguard (pending \<noteq> None) (Exn RuntimeError ''a validation request is already pending'')) (\<lambda>_.
     pbind (pguard (\<not> is_sha256 policy \<or> \<not> is_sha256 evaluator)
       (value_error ''validation policy/evaluator identity is malformed'')) (\<lambda>_.
     pbind (pget (\<lambda>s. the (plain_str policy) \<in> cc_policies s)) (\<lambda>seen.
     pbind (pguard seen (value_error ''one policy checkpoint cannot satisfy multiple gates'')) (\<lambda>_.
     pbind (pget (\<lambda>s. rbind (expected_stages s (cc_highest s)) (\<lambda>stages.
       mk_validation_request (PyStr (curriculum_sha256 E (cc_spec s))) (PyInt (cc_evaluations s))
         (PyInt (cc_completed s)) (PyInt (cs_evaluation_seed (cc_spec s))) policy evaluator stages))) (\<lambda>made.
     pbind (plift made) (\<lambda>request.
     pbind (pmod (\<lambda>s. s\<lparr>cc_evaluations := cc_evaluations s + 1, cc_pending := Some request\<rparr>)) (\<lambda>_.
     pret request)))))))))))"

definition gate_passes :: "validation_result \<Rightarrow> int \<Rightarrow> int \<Rightarrow> bool" where
  "gate_passes r required trials \<longleftrightarrow>
     trials \<le> vr_episodes r \<and> required * vr_episodes r \<le> vr_successes r * trials"

definition result_for :: "validation_report \<Rightarrow> string \<Rightarrow> validation_result" where
  "result_for p k = the (find (\<lambda>r. vr_stage_id r = k) (vp_results p))"

text \<open>The outcomes a request asks for: recipes in turn, each repetition with its derived seed.\<close>

definition expected_outcome ::
  "cur_env \<Rightarrow> validation_request \<Rightarrow> stage_request \<Rightarrow> nat \<Rightarrow> (string \<times> int \<times> int) res" where
  "expected_outcome E q sr i = (let n = length (vs_snapshot_ids sr); snapshot = vs_snapshot_ids sr ! (i mod n);
       repetition = int (i div n) in
     rbind (episode_seed E q (vs_stage_id sr) snapshot repetition) (\<lambda>seed. Inr (snapshot, repetition, seed)))"

definition check_result :: "cur_env \<Rightarrow> validation_request \<Rightarrow> validation_report \<Rightarrow> string \<Rightarrow> unit res" where
  "check_result E q p k = (case find (\<lambda>sr. vs_stage_id sr = k) (vq_stages q) of
     None \<Rightarrow> Inl (Exn KeyError k)
   | Some sr \<Rightarrow>
     rbind (rmap (expected_outcome E q sr) [0..<nat (vs_episodes sr)]) (\<lambda>expected. let r = result_for p k in
     rguard (vr_episodes r \<noteq> vs_episodes sr \<or> vr_snapshot_ids r \<noteq> vs_snapshot_ids sr \<or>
         map (\<lambda>o'. (vo_snapshot_id o', vo_repetition o', vo_policy_seed o')) (vr_outcomes r) \<noteq> expected)
       (value_error ''validation report recipe outcomes or trial count differ from its request'')))"

definition required_ids :: "coordinator \<Rightarrow> string list" where
  "required_ids s = map st_id (take (Suc (cc_highest s)) (stages_of s))"

definition check_report :: "cur_env \<Rightarrow> validation_report \<Rightarrow> coordinator \<Rightarrow> unit res" where
  "check_report E p s = (case cc_pending s of
     None \<Rightarrow> Inl (value_error ''validation report does not match a pending request'')
   | Some q \<Rightarrow>
     if vp_request_id p \<noteq> request_id E q
     then Inl (value_error ''validation report does not match a pending request'')
     else if vp_policy_sha256 p \<noteq> vq_policy_sha256 q \<or> vp_evaluator_sha256 p \<noteq> vq_evaluator_sha256 q \<or>
       vq_completed_update q \<noteq> cc_completed s
     then Inl (value_error ''validation report policy/evaluator/update identity mismatch'')
     else if set (map vr_stage_id (vp_results p)) \<noteq> set (required_ids s)
     then Inl (value_error ''validation report must cover every unlocked stage exactly'')
     else rbind (rmap (check_result E q p) (required_ids s)) (\<lambda>_. Inr ()))"

definition make_decision :: "bool \<Rightarrow> string option \<Rightarrow> string \<Rightarrow> (coordinator, gate_decision) py" where
  "make_decision promoted remediation reason = pget (\<lambda>s. \<lparr>gd_phase = cc_phase s,
     gd_highest = st_id (stages_of s ! cc_highest s), gd_focus = st_id (stages_of s ! cc_focus s),
     gd_promoted = promoted, gd_remediation = remediation, gd_reason = reason\<rparr>)"

text \<open>An event that names the stage with the given index and the report.\<close>

definition report_event :: "cur_env \<Rightarrow> string \<Rightarrow> validation_report \<Rightarrow> (coordinator \<Rightarrow> nat) \<Rightarrow> (coordinator, unit) py" where
  "report_event E kind p i = pbind (pget (\<lambda>s. [(''stage'', JStr (st_id (stages_of s ! i s))),
     (''report'', JStr (report_sha256 E p))])) (append_cur_event E kind)"

definition exhaust :: "cur_env \<Rightarrow> validation_report \<Rightarrow> (coordinator, unit) py" where
  "exhaust E p = pbind (pmod (\<lambda>s. s\<lparr>cc_phase := BudgetExhausted\<rparr>)) (\<lambda>_.
     report_event E ''budget_exhausted'' p cc_highest)"

text \<open>The first earlier stage whose regression floor fails.\<close>

definition failing_prior :: "validation_report \<Rightarrow> coordinator \<Rightarrow> nat option" where
  "failing_prior p s = find (\<lambda>i. let stage = stages_of s ! i in
     \<not> gate_passes (result_for p (st_id stage)) (st_regression_successes stage) (st_regression_trials stage))
     [0..<cc_highest s]"

definition floor_failed ::
  "cur_env \<Rightarrow> validation_report \<Rightarrow> bool \<Rightarrow> nat \<Rightarrow> (coordinator, gate_decision) py" where
  "floor_failed E p closing i =
     (if closing then
        pbind (pmod (\<lambda>s. s\<lparr>cc_phase := BudgetExhausted, cc_streak := 0\<rparr>)) (\<lambda>_.
        pbind (report_event E ''budget_exhausted'' p cc_highest) (\<lambda>_.
        make_decision False None ''final-budget prior-stage regression floor failed''))
      else
        pbind (pmod (\<lambda>s. s\<lparr>cc_phase := Remediation, cc_focus := i, cc_streak := 0\<rparr>)) (\<lambda>_.
        pbind (report_event E ''remediation'' p (\<lambda>_. i)) (\<lambda>_.
        pbind (pget (\<lambda>s. st_id (stages_of s ! i))) (\<lambda>k.
        make_decision False (Some k) ''prior-stage regression floor failed''))))"

definition clear_remediation :: "cur_env \<Rightarrow> validation_report \<Rightarrow> bool \<Rightarrow> (coordinator, unit) py" where
  "clear_remediation E p closing =
     pbind (pget cc_phase) (\<lambda>phase.
     pbind (pget (\<lambda>s. cc_focus s \<noteq> cc_highest s)) (\<lambda>stale.
     let event = append_cur_event E ''remediation_cleared'' [(''report'', JStr (report_sha256 E p))] in
     if phase = Remediation then
       pbind (pmod (\<lambda>s. s\<lparr>cc_phase := Normal, cc_focus := cc_highest s\<rparr>)) (\<lambda>_. event)
     else pwhen (closing \<and> stale) (pbind (pmod (\<lambda>s. s\<lparr>cc_focus := cc_highest s\<rparr>)) (\<lambda>_. event))))"

text \<open>The last stage: complete only when no shaping is left.\<close>

definition final_gate :: "cur_env \<Rightarrow> validation_report \<Rightarrow> bool \<Rightarrow> (coordinator, gate_decision) py" where
  "final_gate E p closing =
     pbind (pget (\<lambda>s. weight_ppm (st_schedule (stages_of s ! cc_highest s))
       (cc_completed s - cc_unlocks s ! cc_highest s))) (\<lambda>scheduled.
     pbind (plift scheduled) (\<lambda>weight.
     pbind (pget (\<lambda>s. weight \<noteq> 0 \<or> list_ex (\<lambda>w. w \<noteq> 0) (cc_lane_weight s))) (\<lambda>shaped.
     if shaped then
       pbind (pwhen closing (exhaust E p)) (\<lambda>_.
       make_decision False None ''final performance gate passed but shaping is not exactly zero'')
     else
       pbind (pmod (\<lambda>s. s\<lparr>cc_phase := Complete\<rparr>)) (\<lambda>_.
       pbind (report_event E ''complete'' p cc_highest) (\<lambda>_.
       make_decision False None ''final stage passed'')))))"

definition promote :: "cur_env \<Rightarrow> validation_report \<Rightarrow> (coordinator, gate_decision) py" where
  "promote E p =
     pbind (pmod (\<lambda>s. let h = Suc (cc_highest s) in
       s\<lparr>cc_highest := h, cc_focus := h, cc_phase := Activation, cc_unlocks := (cc_unlocks s)[h := - 1]\<rparr>)) (\<lambda>_.
     pbind (report_event E ''promote'' p cc_highest) (\<lambda>_.
     make_decision True None ''promotion gate passed''))"

definition promotion_gate :: "cur_env \<Rightarrow> validation_report \<Rightarrow> bool \<Rightarrow> (coordinator, gate_decision) py" where
  "promotion_gate E p closing =
     pbind (pget (\<lambda>s. stages_of s ! cc_highest s)) (\<lambda>current.
     let passed = gate_passes (result_for p (st_id current)) (st_promotion_successes current)
           (st_promotion_trials current) in
     pbind (pmod (\<lambda>s. s\<lparr>cc_streak := (if passed then cc_streak s + 1 else 0)\<rparr>)) (\<lambda>_.
     pbind (pget (\<lambda>s. cc_streak s < st_passes current)) (\<lambda>short.
     if short then
       pbind (pwhen closing (exhaust E p)) (\<lambda>_. make_decision False None ''promotion evidence is insufficient'')
     else
       pbind (pmod (\<lambda>s. s\<lparr>cc_streak := 0\<rparr>)) (\<lambda>_.
       pbind (pget (\<lambda>s. Suc (cc_highest s) = length (stages_of s))) (\<lambda>last.
       if last then final_gate E p closing else promote E p)))))"

definition decide_gate :: "cur_env \<Rightarrow> validation_report \<Rightarrow> bool \<Rightarrow> (coordinator, gate_decision) py" where
  "decide_gate E p closing = pbind (pget (failing_prior p)) (\<lambda>failing. case failing of
     Some i \<Rightarrow> floor_failed E p closing i
   | None \<Rightarrow> pbind (clear_remediation E p closing) (\<lambda>_. promotion_gate E p closing))"

definition record_validation :: "cur_env \<Rightarrow> validation_report \<Rightarrow> (coordinator, gate_decision) py" where
  "record_validation E p =
     pbind (pget (\<lambda>s. map_of (cc_reports s) (vp_request_id p))) (\<lambda>prior. case prior of
       Some h \<Rightarrow>
         if h \<noteq> report_sha256 E p
         then praise (value_error ''conflicting validation report reuses a request id'')
         else make_decision False None ''idempotent replay''
     | None \<Rightarrow>
     pbind (pget cc_phase) (\<lambda>phase.
     pbind (pguard (phase = BudgetExhausted)
       (Exn RuntimeError ''budget-exhausted curriculum cannot accept a new gate'')) (\<lambda>_.
     pbind (pget (check_report E p)) (\<lambda>checked.
     pbind (plift checked) (\<lambda>_.
     pbind (pmod (\<lambda>s. s\<lparr>cc_reports := cc_reports s @ [(vp_request_id p, report_sha256 E p)],
       cc_policies := insert (vp_policy_sha256 p) (cc_policies s), cc_pending := None\<rparr>)) (\<lambda>_.
     decide_gate E p (phase = BudgetValidation)))))))"

section \<open>Checkpoints\<close>

definition COORDINATOR_VERSION :: string where "COORDINATOR_VERSION = ''curriculum-coordinator-v2''"

definition coordinator_core :: "cur_env \<Rightarrow> coordinator \<Rightarrow> (string \<times> jval) list" where
  "coordinator_core E s = [(''version'', JStr COORDINATOR_VERSION),
     (''spec_sha256'', JStr (curriculum_sha256 E (cc_spec s))), (''lanes'', JInt (int (cc_lanes s))),
     (''learner_seed'', JInt (cc_learner_seed s)), (''highest_unlocked'', JInt (int (cc_highest s))),
     (''focus'', JInt (int (cc_focus s))), (''phase'', JStr (cur_phase_name (cc_phase s))),
     (''completed_updates'', JInt (cc_completed s)), (''unlock_updates'', json_ints (cc_unlocks s)),
     (''promotion_streak'', JInt (cc_streak s)), (''lane_stage'', json_ints (map int (cc_lane_stage s))),
     (''lane_snapshot_id'', json_strs (cc_lane_snapshot s)),
     (''lane_shaping_weight_ppm'', json_ints (cc_lane_weight s)),
     (''episode_ordinals'', json_ints (cc_ordinals s)),
     (''submitted_reports'', JObj (map (\<lambda>(k, h). (k, JStr h)) (cc_reports s))),
     (''evaluated_policies'', json_strs (sorted_list_of_set (cc_policies s))),
     (''evaluation_ordinal'', JInt (cc_evaluations s)),
     (''pending_validation'', (case cc_pending s of None \<Rightarrow> JNull | Some q \<Rightarrow> JObj (request_manifest q))),
     (''event_head'', JStr (cc_event_head s))]"

definition coordinator_state_dict :: "cur_env \<Rightarrow> (coordinator, (string \<times> jval) list) py" where
  "coordinator_state_dict E =
     pbind (pget cc_outstanding) (\<lambda>outstanding.
     pbind (pguard (outstanding \<noteq> None)
       (Exn RuntimeError ''checkpoint cannot capture an uncommitted assignment'')) (\<lambda>_.
     pbind (pget (\<lambda>s. cc_completed s < cc_unlocks s ! cc_highest s)) (\<lambda>future.
     pbind (pguard future
       (Exn RuntimeError ''checkpoint cannot capture a pending activation boundary'')) (\<lambda>_.
     pget (\<lambda>s. let core = coordinator_core E s in
       core @ [(''state_sha256'', JStr (ce_digest E (JObj core)))])))))"

text \<open>The values of a stored state.  \<open>isinstance(value, int)\<close> also holds of a \<open>bool\<close>, which is read
  as the integer it equals.\<close>

definition json_int :: "jval \<Rightarrow> int option" where
  "json_int v = plain_int (py_of_json v)"

fun int_like :: "jval \<Rightarrow> int option" where
  "int_like (JInt n) = Some n" | "int_like (JBool b) = Some (if b then 1 else 0)" | "int_like _ = None"

definition list_of :: "(jval \<Rightarrow> 'a option) \<Rightarrow> jval \<Rightarrow> 'a list option" where
  "list_of f v = Option.bind (json_list v) (\<lambda>xs. those (map f xs))"

definition json_sha :: "jval \<Rightarrow> string option" where
  "json_sha v = (case v of JStr s \<Rightarrow> if sha_text s then Some s else None | _ \<Rightarrow> None)"

definition json_str :: "jval \<Rightarrow> string option" where
  "json_str v = plain_str (py_of_json v)"

definition report_table :: "jval \<Rightarrow> (string \<times> string) list option" where
  "report_table v = Option.bind (json_obj v) (\<lambda>d.
     those (map (\<lambda>(k, x). map_option (Pair k) (json_sha x)) d))"

definition state_malformed :: exn where
  "state_malformed = value_error ''curriculum checkpoint state is malformed''"

text \<open>The well-formedness test, giving the state it describes; the pending request follows.\<close>

definition parse_state :: "coordinator \<Rightarrow> (string \<Rightarrow> jval) \<Rightarrow> coordinator res" where
  "parse_state s g =
     (case (json_int (g ''highest_unlocked''), json_int (g ''focus''), json_int (g ''completed_updates''),
         json_int (g ''promotion_streak'')) of
       (Some h, Some f, Some c, Some k) \<Rightarrow>
         if \<not> (0 \<le> h \<and> h < int (length (stages_of s))) \<or> \<not> (0 \<le> f \<and> f \<le> h) \<or> c < 0 \<or> k < 0
         then Inl state_malformed
         else if \<not> hashable (py_of_json (g ''phase'')) then Inl (Exn TypeError ''unhashable type'')
         else (case (Option.bind (json_str (g ''phase'')) cur_phase_of, list_of json_int (g ''unlock_updates''),
             list_of int_like (g ''lane_stage''), list_of json_str (g ''lane_snapshot_id''),
             list_of json_int (g ''lane_shaping_weight_ppm''), list_of int_like (g ''episode_ordinals''),
             report_table (g ''submitted_reports''), json_sha (g ''event_head'')) of
           (Some ph, Some us, Some ls, Some sn, Some ws, Some os, Some rt, Some eh) \<Rightarrow>
             if length us \<noteq> length (stages_of s) \<or> length ls \<noteq> cc_lanes s \<or> length sn \<noteq> cc_lanes s \<or>
               length ws \<noteq> cc_lanes s \<or> length os \<noteq> cc_lanes s \<or> \<not> list_all (\<lambda>n. 0 \<le> n) os \<or>
               \<not> list_all (\<lambda>n. 0 \<le> n \<and> n \<le> h) ls \<or> \<not> list_all (\<lambda>n. 0 \<le> n \<and> n \<le> 1000000) ws
             then Inl state_malformed
             else (case json_list (g ''evaluated_policies'') of
               None \<Rightarrow> Inl state_malformed
             | Some vs \<Rightarrow>
               if \<not> list_all (\<lambda>v. hashable (py_of_json v)) vs then Inl (Exn TypeError ''unhashable type'')
               else (case (those (map json_sha vs), json_int (g ''evaluation_ordinal'')) of
                 (Some ps, Some n) \<Rightarrow>
                   if \<not> distinct ps \<or> n < 0 then Inl state_malformed
                   else Inr (s\<lparr>cc_highest := nat h, cc_focus := nat f, cc_phase := ph, cc_completed := c,
                     cc_unlocks := us, cc_streak := k, cc_lane_stage := map nat ls, cc_lane_snapshot := sn,
                     cc_lane_weight := ws, cc_ordinals := os, cc_reports := rt, cc_policies := set ps,
                     cc_evaluations := n, cc_event_head := eh, cc_outstanding := None\<rparr>)
               | _ \<Rightarrow> Inl state_malformed))
         | _ \<Rightarrow> Inl state_malformed)
     | _ \<Rightarrow> Inl state_malformed)"

definition check_active :: "coordinator \<Rightarrow> nat \<Rightarrow> unit res" where
  "check_active t lane = (let k = cc_lane_snapshot t ! lane in
     if cc_ordinals t ! lane = 0 then
       rguard (k \<noteq> []) (value_error ''uninitialized curriculum lane names an active snapshot'')
     else case library_get (cs_library (cc_spec t)) k of
       Inl _ \<Rightarrow> Inl (value_error ''curriculum checkpoint names an unknown active snapshot'')
     | Inr recipe \<Rightarrow> let stage = stages_of t ! (cc_lane_stage t ! lane) in
         rguard (rc_split recipe \<noteq> ''train'' \<or> rc_stage_id recipe \<noteq> st_id stage \<or>
             rc_environment_pool recipe \<noteq> st_pool stage)
           (value_error ''active snapshot disagrees with curriculum lane assignment''))"

definition parse_pending :: "cur_env \<Rightarrow> coordinator \<Rightarrow> jval \<Rightarrow> validation_request option res" where
  "parse_pending E t v = (case v of
     JNull \<Rightarrow> Inr None
   | JObj d \<Rightarrow> rbind (request_from_manifest d) (\<lambda>q.
       rbind (expected_stages t (cc_highest t)) (\<lambda>stages.
       if vq_curriculum_sha256 q \<noteq> curriculum_sha256 E (cc_spec t) \<or>
         vq_evaluation_seed q \<noteq> cs_evaluation_seed (cc_spec t) \<or>
         vq_gate_ordinal q + 1 \<noteq> cc_evaluations t \<or> vq_completed_update q \<noteq> cc_completed t \<or>
         vq_policy_sha256 q \<in> cc_policies t \<or> vq_stages q \<noteq> stages
       then Inl (value_error ''pending validation request disagrees with coordinator state'')
       else Inr (Some q)))
   | _ \<Rightarrow> Inl (value_error ''pending validation request is malformed''))"

definition unlocks_ok :: "coordinator \<Rightarrow> bool" where
  "unlocks_ok t \<longleftrightarrow> (let us = cc_unlocks t; h = cc_highest t; current = us ! h in
     us ! 0 = 0 \<and> list_all (\<lambda>n. 0 \<le> n \<and> n \<le> cc_completed t) (take h us) \<and>
     (cc_phase t = Activation \<longrightarrow> current = - 1) \<and>
     (cc_phase t \<noteq> Activation \<longrightarrow> 0 \<le> current \<and> current \<le> cc_completed t) \<and>
     list_all (\<lambda>n. n = - 1) (drop (Suc h) us))"

definition phase_ok :: "coordinator \<Rightarrow> bool" where
  "phase_ok t \<longleftrightarrow> (let h = cc_highest t; current = cc_unlocks t ! h; phase = cc_phase t;
       elapsed = (if current < 0 then 0 else cc_completed t - current);
       budget = st_max_updates (stages_of t ! h); pending = (cc_pending t \<noteq> None) in
     0 \<le> elapsed \<and> (phase \<in> {Normal, Remediation} \<longrightarrow> elapsed < budget) \<and>
     (phase \<in> {BudgetValidation, BudgetExhausted} \<longrightarrow> elapsed = budget) \<and>
     (phase \<in> {Complete, BudgetExhausted} \<longrightarrow> \<not> pending) \<and>
     (phase = Complete \<longrightarrow> Suc h = length (stages_of t)) \<and>
     (phase \<in> {Complete, Normal, Activation} \<longrightarrow> cc_focus t = h) \<and>
     (phase = Activation \<longrightarrow> \<not> pending))"

definition COORDINATOR_KEYS :: "string list" where
  "COORDINATOR_KEYS = [''version'', ''spec_sha256'', ''lanes'', ''learner_seed'', ''highest_unlocked'',
     ''focus'', ''phase'', ''completed_updates'', ''unlock_updates'', ''promotion_streak'', ''lane_stage'',
     ''lane_snapshot_id'', ''lane_shaping_weight_ppm'', ''episode_ordinals'', ''submitted_reports'',
     ''evaluated_policies'', ''evaluation_ordinal'', ''pending_validation'', ''event_head'']"

definition load_state :: "cur_env \<Rightarrow> (string \<times> jval) list \<Rightarrow> coordinator \<Rightarrow> coordinator res" where
  "load_state E d s = (let g = (\<lambda>k. the (map_of d k)); core = JObj (map (\<lambda>k. (k, g k)) COORDINATOR_KEYS) in
     if set (map fst d) \<noteq> insert ''state_sha256'' (set COORDINATOR_KEYS)
     then Inl (value_error ''curriculum checkpoint keys do not match the version'')
     else if \<not> json_finite core then Inl (value_error ''Out of range float values are not JSON compliant'')
     else if g ''state_sha256'' \<noteq> JStr (ce_digest E core)
     then Inl (value_error ''curriculum checkpoint state hash mismatch'')
     else if g ''version'' \<noteq> JStr COORDINATOR_VERSION \<or>
       g ''spec_sha256'' \<noteq> JStr (curriculum_sha256 E (cc_spec s)) \<or>
       \<not> json_eq (g ''lanes'') (JInt (int (cc_lanes s))) \<or>
       \<not> json_eq (g ''learner_seed'') (JInt (cc_learner_seed s))
     then Inl (value_error ''curriculum checkpoint identity mismatch'')
     else rbind (parse_state s g) (\<lambda>t.
       rbind (rmap (check_active t) [0..<cc_lanes s]) (\<lambda>_.
       rbind (parse_pending E t (g ''pending_validation'')) (\<lambda>pending.
       let u = t\<lparr>cc_pending := pending\<rparr> in
       if \<not> unlocks_ok u then Inl (value_error ''curriculum unlock schedule is malformed'')
       else if \<not> phase_ok u then Inl (value_error ''curriculum checkpoint phase semantics are malformed'')
       else Inr u))))"

text \<open>The object changes only when every check has passed.\<close>

definition coordinator_load :: "cur_env \<Rightarrow> (string \<times> jval) list \<Rightarrow> (coordinator, unit) py" where
  "coordinator_load E d = pbind (pget (load_state E d)) (\<lambda>r. pbind (plift r) (\<lambda>t. pmod (\<lambda>_. t)))"

end
