(* ===== verification/Curriculum_Init.thy ===== *)
theory Curriculum_Init
  imports Curriculum
begin

text \<open>
  \<open>CurriculumSnapshotInitializer\<close> of \<open>irisu_rl/curriculum.py\<close>: it restores the snapshots of
  reserved episodes into the lanes of an environment before the reservation is committed.  The
  environment is a parameter, a record of the calls the initializer makes.
\<close>

section \<open>Environments\<close>

text \<open>
  What the initializer calls on an environment of its caller; \<open>'w\<close> is the state of the
  environment's lanes.  \<open>attest_simulator_runtime\<close> (of \<open>runtime_identity.py\<close>) is one of its
  answers, as the digest of the attestation.
\<close>

record snapshot_obs =
  ob_tick :: pyval
  ob_score :: pyval
  ob_gauge_max :: pyval
  ob_over :: bool

record 'w lane_env =
  le_runtime :: "('w, string) py"
  le_config_hash_many :: "nat list \<Rightarrow> ('w, int list) py"
  le_clone_state_many :: "nat list \<Rightarrow> ('w, byte list list) py"
  le_restore_many :: "nat list \<Rightarrow> byte list list \<Rightarrow> ('w, snapshot_obs list) py"
  le_state_hash_many :: "nat list \<Rightarrow> ('w, int list) py"

text \<open>A frame that catches every exception, with the local variables the body has assigned.\<close>

definition pframe_base ::
  "'l \<Rightarrow> ('s \<times> 'l, 'a) py \<Rightarrow> ('l \<Rightarrow> exn \<Rightarrow> ('s, 'a) py) \<Rightarrow> ('s, 'a) py" where
  "pframe_base l0 m h = (\<lambda>s. case m (s, l0) of (Inr x, (t, l)) \<Rightarrow> (Inr x, t) | (Inl e, (t, l)) \<Rightarrow> h l e t)"

lemma wp_pframe_base [wp_simps]:
  "wp (pframe_base l0 m h) Q E = (\<lambda>s. wp m (\<lambda>x (t, l). Q x t) (\<lambda>e (t, l). wp (h l e) Q E t) (s, l0))"
  by (rule ext) (auto simp: wp_def pframe_base_def split: prod.split sum.split)

section \<open>The initializer\<close>

record 'w initializer =
  in_coord :: coordinator
  in_world :: 'w
  in_store :: blob_store
  in_pool :: string
  in_runtime :: string
  in_config_hash :: int
  in_pending :: "assignment_reservation option"
  in_backups :: "byte list list"
  in_attested :: "nat set"

text \<open>The state of the coordinator the object holds, and of the environment it is called with, are
  part of the record.  \<open>same\<close> says that the store's library is the curriculum's own object, and
  \<open>runtime\<close> is None when it is not an attestation.\<close>

definition train_ids :: "coordinator \<Rightarrow> string list" where
  "train_ids c = remdups (concat (map st_train (stages_of c)))"

definition initializer_init ::
  "bool \<Rightarrow> coordinator \<Rightarrow> 'w \<Rightarrow> blob_store \<Rightarrow> string \<Rightarrow> string option \<Rightarrow> 'w initializer res" where
  "initializer_init same c w store pool runtime =
     (if \<not> same then Inl (value_error ''snapshot store and curriculum library must be identical'')
      else if \<not> safe_identifier pool then Inl (value_error ''environment pool identity is invalid'')
      else case runtime of
        None \<Rightarrow> Inl (Exn TypeError ''runtime attestation must be measured from the simulator'')
      | Some sha \<Rightarrow>
      if set (map st_pool (stages_of c)) \<noteq> {pool}
      then Inl (value_error ''one snapshot initializer requires one homogeneous environment pool'')
      else rbind (rmap (library_get (bs_library store)) (train_ids c)) (\<lambda>recipes.
        if list_ex (\<lambda>r. rc_runtime_sha256 r \<noteq> sha) recipes
        then Inl (value_error ''curriculum snapshot runtime identity mismatch'')
        else let expected = rc_config_hash (hd recipes) in
        if list_ex (\<lambda>r. rc_config_hash r \<noteq> expected) recipes
        then Inl (value_error ''environment pool mixes simulator config hashes'')
        else Inr \<lparr>in_coord = c, in_world = w, in_store = store, in_pool = pool, in_runtime = sha,
          in_config_hash = expected, in_pending = None, in_backups = [], in_attested = {}\<rparr>))"

definition observation_identity :: "snapshot_obs \<Rightarrow> (int \<times> int) res" where
  "observation_identity o' = (case (plain_int (ob_tick o'), plain_int (ob_score o')) of
     (Some tick, Some score) \<Rightarrow>
       if \<not> int_ok (\<lambda>n. 0 < n) (ob_gauge_max o') \<or> ob_over o'
       then Inl (value_error ''snapshot is not a live policy decision boundary'') else Inr (tick, score)
   | _ \<Rightarrow> Inl (Exn TypeError ''restored snapshot observation identity is malformed''))"

record episode_init =
  ei_lanes :: "nat list"
  ei_observations :: "snapshot_obs list"
  ei_seeds :: "int list"
  ei_labels :: "string list"

text \<open>Calls on the environment and on the coordinator.\<close>

definition on_world :: "('w, 'a) py \<Rightarrow> ('w initializer, 'a) py" where
  "on_world m = (\<lambda>s. case m (in_world s) of (r, w) \<Rightarrow> (r, s\<lparr>in_world := w\<rparr>))"

definition on_coord :: "(coordinator, 'a) py \<Rightarrow> ('w initializer, 'a) py" where
  "on_coord m = (\<lambda>s. case m (in_coord s) of (r, c) \<Rightarrow> (r, s\<lparr>in_coord := c\<rparr>))"

lemma wp_on_world [wp_simps]: "wp (on_world m) Q E = (\<lambda>s. wp m (\<lambda>x w. Q x (s\<lparr>in_world := w\<rparr>))
     (\<lambda>e w. E e (s\<lparr>in_world := w\<rparr>)) (in_world s))"
  by (rule ext) (auto simp: wp_def on_world_def split: prod.split sum.split)

lemma wp_on_coord [wp_simps]: "wp (on_coord m) Q E = (\<lambda>s. wp m (\<lambda>x c. Q x (s\<lparr>in_coord := c\<rparr>))
     (\<lambda>e c. E e (s\<lparr>in_coord := c\<rparr>)) (in_coord s))"
  by (rule ext) (auto simp: wp_def on_coord_def split: prod.split sum.split)

text \<open>The locals of \<open>initialize\<close>: whether the lanes were restored, and what they held before.\<close>

type_synonym 'w framed = "'w initializer \<times> bool \<times> byte list list"

text \<open>The identity of one restored lane.\<close>

definition check_restored :: "snapshot_recipe \<times> snapshot_obs \<times> int \<Rightarrow> unit res" where
  "check_restored = (\<lambda>(r, o', h). rbind (observation_identity o') (\<lambda>(tick, score).
     rguard (tick \<noteq> rc_expected_tick r \<or> score \<noteq> rc_expected_score r \<or> h \<noteq> rc_expected_state_hash r)
       (value_error ''restored curriculum snapshot identity mismatch'')))"

text \<open>After the restore: every lane's identity, then the commit, or its deferral.\<close>

definition settle_episodes ::
  "cur_env \<Rightarrow> 'w lane_env \<Rightarrow> bool \<Rightarrow> assignment_reservation \<Rightarrow> nat list \<Rightarrow> snapshot_recipe list
     \<Rightarrow> snapshot_obs list \<Rightarrow> ('w framed, episode_init) py" where
  "settle_episodes E V defer r lanes recipes observations =
     pbind (plocal (\<lambda>(_, b). (True, b))) (\<lambda>_.
     pbind (pzoom (on_world (le_state_hash_many V lanes))) (\<lambda>state_hashes.
     pbind (pguard (length observations \<noteq> length lanes \<or> length state_hashes \<noteq> length lanes)
       (value_error ''snapshot restore returned a malformed subset'')) (\<lambda>_.
     pbind (plift (rmap check_restored (zip recipes (zip observations state_hashes)))) (\<lambda>_.
     let result = \<lparr>ei_lanes = lanes, ei_observations = observations, ei_seeds = map rc_reset_seed recipes,
       ei_labels = map rc_snapshot_id recipes\<rparr> in
     pbind (if defer then pbind (pget snd) (\<lambda>(_, b). pzoom (pmod (\<lambda>s. s\<lparr>in_pending := Some r, in_backups := b\<rparr>)))
       else pzoom (on_coord (commit_assignments E r))) (\<lambda>_. pret result)))))"

definition restore_episodes ::
  "cur_env \<Rightarrow> 'w lane_env \<Rightarrow> bool \<Rightarrow> assignment_reservation \<Rightarrow> nat list \<Rightarrow> snapshot_recipe list
     \<Rightarrow> byte list list \<Rightarrow> ('w framed, episode_init) py" where
  "restore_episodes E V defer r lanes recipes snapshots =
     pbind (pget (\<lambda>(s, _). list_ex (\<lambda>x. rc_environment_pool x \<noteq> in_pool s \<or> rc_runtime_sha256 x \<noteq> in_runtime s \<or>
       rc_config_hash x \<noteq> in_config_hash s) recipes)) (\<lambda>foreign.
     pbind (pguard foreign (value_error ''reserved snapshot disagrees with initializer identity'')) (\<lambda>_.
     pbind (pzoom (on_world (le_config_hash_many V lanes))) (\<lambda>hashes.
     pbind (pget (\<lambda>(s, _). hashes \<noteq> replicate (length lanes) (in_config_hash s))) (\<lambda>mixed.
     pbind (pguard mixed (value_error ''vector lanes do not match the curriculum pool'')) (\<lambda>_.
     pbind (pzoom (on_world (le_clone_state_many V lanes))) (\<lambda>backups.
     pbind (plocal (\<lambda>(mutated, _). (mutated, backups))) (\<lambda>_.
     pbind (pzoom (on_world (le_restore_many V lanes snapshots))) (\<lambda>observations.
     settle_episodes E V defer r lanes recipes observations))))))))"

text \<open>The \<open>except BaseException\<close> block.\<close>

definition undo_episodes ::
  "'w lane_env \<Rightarrow> assignment_reservation \<Rightarrow> nat list \<Rightarrow> bool \<times> byte list list \<Rightarrow> exn
     \<Rightarrow> ('w initializer, episode_init) py" where
  "undo_episodes V r lanes = (\<lambda>(mutated, backups) e.
     pbind (if mutated then pattempt (pbind (on_world (le_restore_many V lanes backups)) (\<lambda>_. pret ()))
       else pret (Inr ())) (\<lambda>restored.
     pbind (pattempt (on_coord (rollback_assignments r))) (\<lambda>rolled.
     if restored \<noteq> Inr () \<or> rolled \<noteq> Inr ()
     then praise (Exn RuntimeError ''curriculum snapshot initialization rollback failed'')
     else praise e)))"

text \<open>The attestation of an environment, once for each.\<close>

definition attest :: "'w lane_env \<Rightarrow> nat \<Rightarrow> ('w initializer, unit) py" where
  "attest V env_id = pbind (pget (\<lambda>s. env_id \<notin> in_attested s)) (\<lambda>fresh. pwhen fresh
     (pbind (on_world (le_runtime V)) (\<lambda>actual.
      pbind (pget (\<lambda>s. actual \<noteq> in_runtime s)) (\<lambda>foreign.
      pbind (pguard foreign (Exn RuntimeError ''curriculum environment runtime attestation mismatch'')) (\<lambda>_.
      pmod (\<lambda>s. s\<lparr>in_attested := insert env_id (in_attested s)\<rparr>))))))"

definition begin_initialize ::
  "'w lane_env \<Rightarrow> nat \<Rightarrow> bool option \<Rightarrow> ('w initializer, unit) py" where
  "begin_initialize V env_id defer =
     pbind (pguard (defer = None) (Exn TypeError ''deferred commit flag must be boolean'')) (\<lambda>_.
     pbind (pget in_pending) (\<lambda>pending.
     pbind (pguard (pending \<noteq> None) (Exn RuntimeError ''a snapshot assignment commit is already pending'')) (\<lambda>_.
     attest V env_id)))"

text \<open>Looking up the reserved recipes and their blobs is outside the \<open>try\<close>.\<close>

definition place_episodes ::
  "cur_env \<Rightarrow> 'w lane_env \<Rightarrow> bool \<Rightarrow> assignment_reservation \<Rightarrow> ('w initializer, episode_init) py" where
  "place_episodes E V defer r = (let lanes = map ea_lane (rv_assignments r) in
     pbind (pget (\<lambda>s. rmap (\<lambda>a. library_get (bs_library (in_store s)) (ea_snapshot_id a)) (rv_assignments r))) (\<lambda>found.
     pbind (plift found) (\<lambda>recipes.
     pbind (pget (\<lambda>s. rmap (\<lambda>x. blob_get (in_store s) (rc_snapshot_id x)) recipes)) (\<lambda>stored.
     pbind (plift stored) (\<lambda>snapshots.
     pframe_base (False, []) (restore_episodes E V defer r lanes recipes snapshots) (undo_episodes V r lanes))))))"

text \<open>None when a draw of the reservation does not end.\<close>

definition initialize ::
  "cur_env \<Rightarrow> 'w lane_env \<Rightarrow> nat \<Rightarrow> pyval list \<Rightarrow> bool option \<Rightarrow> 'w initializer
     \<Rightarrow> (episode_init res \<times> 'w initializer) option" where
  "initialize E V env_id lane_ids defer s = (case begin_initialize V env_id defer s of
     (Inl e, t) \<Rightarrow> Some (Inl e, t)
   | (Inr _, t) \<Rightarrow> Option.bind (reserve_assignments E lane_ids (in_coord t)) (\<lambda>(x, c).
       case x of Inl e \<Rightarrow> Some (Inl e, t\<lparr>in_coord := c\<rparr>)
       | Inr r \<Rightarrow> Some (place_episodes E V (the defer) r (t\<lparr>in_coord := c\<rparr>))))"

definition commit_pending :: "cur_env \<Rightarrow> int list \<Rightarrow> ('w initializer, unit) py" where
  "commit_pending E lane_ids = pbind (pget in_pending) (\<lambda>pending. case pending of
     None \<Rightarrow> pguard (lane_ids \<noteq> []) (Exn RuntimeError ''completed lanes have no pending snapshot assignment'')
   | Some r \<Rightarrow>
     pbind (pguard (lane_ids \<noteq> map (int \<circ> ea_lane) (rv_assignments r))
       (value_error ''pending snapshot lanes disagree with completed lanes'')) (\<lambda>_.
     pbind (on_coord (commit_assignments E r)) (\<lambda>_.
     pmod (\<lambda>s. s\<lparr>in_pending := None, in_backups := []\<rparr>))))"

definition rollback_pending :: "'w lane_env \<Rightarrow> int list \<Rightarrow> ('w initializer, unit) py" where
  "rollback_pending V lane_ids = pbind (pget in_pending) (\<lambda>pending. case pending of
     None \<Rightarrow> praise (Exn RuntimeError ''there is no pending snapshot assignment to roll back'')
   | Some r \<Rightarrow> let lanes = map ea_lane (rv_assignments r) in
     pbind (pguard (lane_ids \<noteq> map int lanes)
       (value_error ''pending snapshot lanes disagree with rollback lanes'')) (\<lambda>_.
     pbind (pget in_backups) (\<lambda>backups.
     pbind (pattempt (on_world (le_restore_many V lanes backups))) (\<lambda>restored. case restored of
       Inl _ \<Rightarrow> praise (Exn RuntimeError ''deferred curriculum snapshot rollback failed'')
     | Inr _ \<Rightarrow>
       pbind (on_coord (rollback_assignments r)) (\<lambda>_.
       pmod (\<lambda>s. s\<lparr>in_pending := None, in_backups := []\<rparr>))))))"

definition validate_active :: "string list \<Rightarrow> ('w initializer, unit) py" where
  "validate_active labels =
     pbind (pget in_pending) (\<lambda>pending.
     pbind (pguard (pending \<noteq> None) (Exn RuntimeError ''active snapshot validation requires a clean boundary'')) (\<lambda>_.
     pbind (pget (\<lambda>s. labels \<noteq> cc_lane_snapshot (in_coord s) \<or> list_ex (\<lambda>k. k = []) labels)) (\<lambda>foreign.
     pguard foreign (value_error ''adapter and curriculum active snapshots disagree''))))"

end
