(* ===== verification/Curriculum_Inv.thy ===== *)
theory Curriculum_Inv
  imports Curriculum
begin

text \<open>
  The invariant of the coordinator.  First what the constructors of \<open>curriculum.py\<close> and
  \<open>rewards.py\<close> guarantee about the values they accept; then \<open>cur_inv\<close>, in five parts (lists,
  gate, evidence, lanes, reservations), each with the fields it does not depend on; and the
  preparation of reserved episodes, which cannot fail under it.
\<close>

section \<open>What the constructors guarantee\<close>

definition schedule_made :: "reward_schedule \<Rightarrow> bool" where
  "schedule_made r \<longleftrightarrow> (\<exists>k knots. mk_reward_schedule k knots = Inr r \<and>
     (\<forall>x \<in> set knots. \<exists>u w. mk_reward_knot u w = Inr x))"

definition stage_made :: "stage_spec \<Rightarrow> bool" where
  "stage_made s \<longleftrightarrow> schedule_made (st_schedule s) \<and> (\<exists>sid rank pool train validation kinds waits counts.
     mk_stage_spec sid rank pool train validation kinds waits counts (st_schedule s) = Inr s)"

definition library_made :: "cur_env \<Rightarrow> snapshot_library \<Rightarrow> bool" where
  "library_made E lib \<longleftrightarrow> (\<exists>recipes. mk_snapshot_library recipes = Inr lib \<and>
     (\<forall>r \<in> set recipes. \<exists>arg trace. mk_snapshot_recipe E arg trace = Inr r))"

definition curriculum_made :: "cur_env \<Rightarrow> curriculum_spec \<Rightarrow> bool" where
  "curriculum_made E c \<longleftrightarrow> library_made E (cs_library c) \<and> (\<forall>s \<in> set (cs_stages c). stage_made s) \<and>
     (\<exists>cid seed mix. mk_curriculum_spec cid (cs_library c) (cs_stages c) seed mix = Inr c)"

subsection \<open>Schedules\<close>

lemma made_knot: "mk_reward_knot u w = Inr k \<Longrightarrow> 0 \<le> rk_weight k \<and> rk_weight k \<le> 1000000"
  by (auto simp: mk_reward_knot_def split: option.splits if_splits)

lemma rises_sorted: "\<not> rises ws \<longleftrightarrow> sorted_wrt (\<ge>) ws"
  by (induction ws rule: rises.induct) (auto intro: order_trans)

text \<open>Strictly increasing updates from zero, weights nonincreasing within the range of a ppm.\<close>

definition knots_ok :: "reward_knot list \<Rightarrow> bool" where
  "knots_ok ks \<longleftrightarrow> ks \<noteq> [] \<and> sorted_wrt (<) (map rk_update ks) \<and> sorted_wrt (\<ge>) (map rk_weight ks) \<and>
     (\<forall>k \<in> set ks. 0 \<le> rk_weight k \<and> rk_weight k \<le> 1000000)"

lemma schedule_knots: "schedule_made r \<Longrightarrow> knots_ok (rs_knots r) \<and> rk_update (hd (rs_knots r)) = 0"
proof -
  assume "schedule_made r"
  then obtain k ks where m: "mk_reward_schedule k ks = Inr r" "\<forall>x \<in> set ks. \<exists>u w. mk_reward_knot u w = Inr x"
    by (auto simp: schedule_made_def)
  then have ks: "rs_knots r = ks" "ks \<noteq> []" "rk_update (hd ks) = 0" "map rk_update ks = sort (remdups (map rk_update ks))"
    "\<not> rises (map rk_weight ks)" by (auto simp: mk_reward_schedule_def Let_def split: if_splits)
  have "sorted (map rk_update ks)" "distinct (map rk_update ks)"
    by (subst ks(4), simp)+
  then have "sorted_wrt (<) (map rk_update ks)" by (simp add: strict_sorted_iff)
  with ks m(2) show ?thesis by (auto simp: knots_ok_def rises_sorted dest: made_knot)
qed

lemma interval_weight_between:
  assumes "interval_weight ks u = Inr w" "knots_ok ks"
  shows "rk_weight (last ks) \<le> w \<and> w \<le> rk_weight (hd ks)"
  using assms
proof (induction ks u rule: interval_weight.induct)
  case (1 l r rest u)
  from 1(3) have k: "knots_ok (r # rest)" and lr: "rk_update l < rk_update r" "rk_weight r \<le> rk_weight l"
    by (auto simp: knots_ok_def)
  have last: "rk_weight (last (r # rest)) \<le> rk_weight r"
    using 1(3) by (auto simp: knots_ok_def)
  show ?case
  proof (cases "rk_update l \<le> u \<and> u \<le> rk_update r")
    case True
    define d s x where "d = rk_weight r - rk_weight l" and "s = rk_update r - rk_update l" and "x = u - rk_update l"
    have w: "w = rk_weight l + d * x div s" using 1(2) True by (simp add: d_def s_def x_def Let_def)
    have b: "d \<le> 0" "0 < s" "0 \<le> x" "x \<le> s" using lr True by (simp_all add: d_def s_def x_def)
    have "d * x \<le> 0" using b by (simp add: mult_nonpos_nonneg)
    then have "d * x div s \<le> 0" using b(2) by (simp add: div_nonpos_pos_le0)
    moreover have "d \<le> d * x div s"
    proof -
      have "d * s \<le> d * x" using b by (simp add: mult_left_mono_neg)
      then have "d * s div s \<le> d * x div s" using b(2) by (intro zdiv_mono1) simp_all
      then show ?thesis using b(2) by simp
    qed
    ultimately show ?thesis using w last by (simp add: d_def)
  next
    case False
    with 1(1) [OF False] 1(2) k lr show ?thesis by (simp split: if_splits)
  qed
qed simp_all

lemma interval_weight_total:
  assumes "knots_ok ks" "rk_update (hd ks) \<le> u" "u < rk_update (last ks)"
  shows "\<exists>w. interval_weight ks u = Inr w"
  using assms
proof (induction ks u rule: interval_weight.induct)
  case (1 l r rest u)
  show ?case
  proof (cases "rk_update l \<le> u \<and> u \<le> rk_update r")
    case True
    then show ?thesis by (simp add: Let_def)
  next
    case False
    moreover have "knots_ok (r # rest)" using 1(2) by (auto simp: knots_ok_def)
    ultimately show ?thesis using 1 by auto
  qed
qed (auto simp: knots_ok_def)

lemma weight_ppm_ok:
  assumes "schedule_made r" "0 \<le> u"
  shows "\<exists>w. weight_ppm r u = Inr w \<and> 0 \<le> w \<and> w \<le> 1000000"
proof -
  from schedule_knots [OF assms(1)] have k: "knots_ok (rs_knots r)" "rk_update (hd (rs_knots r)) = 0"
    "rs_knots r \<noteq> []" by (auto simp: knots_ok_def)
  have b: "0 \<le> rk_weight (last (rs_knots r))" "rk_weight (last (rs_knots r)) \<le> 1000000"
    "rk_weight (hd (rs_knots r)) \<le> 1000000" using k by (auto simp: knots_ok_def)
  show ?thesis
  proof (cases "rk_update (last (rs_knots r)) \<le> u")
    case True
    with b assms(2) show ?thesis by (simp add: weight_ppm_def)
  next
    case False
    then have "\<exists>w. interval_weight (rs_knots r) u = Inr w"
      using interval_weight_total [OF k(1)] k(2) assms(2) by simp
    then obtain w where "interval_weight (rs_knots r) u = Inr w" by blast
    with interval_weight_between [OF this k(1)] b False assms(2) show ?thesis by (simp add: weight_ppm_def)
  qed
qed

subsection \<open>Stages and snapshots\<close>

lemma made_stage:
  assumes m: "mk_stage_spec sid rank pool train validation kinds waits counts schedule = Inr s"
  shows "st_id s \<noteq> []" "st_train s \<noteq> []" "st_validation s \<noteq> []" "distinct (st_validation s)"
    "0 < st_promotion_trials s" "0 < st_regression_trials s" "0 < st_passes s" "0 < st_max_updates s"
proof -
  have f: "str_ok (\<lambda>v. v \<noteq> [] \<and> is_ascii v) sid \<and> train \<noteq> [] \<and> validation \<noteq> [] \<and> distinct validation \<and>
      length counts = 6 \<and> list_all positive_int counts \<and> st_id s = the (plain_str sid) \<and> st_train s = train \<and>
      st_validation s = validation \<and> st_promotion_trials s = the (plain_int (counts ! 1)) \<and>
      st_regression_trials s = the (plain_int (counts ! 3)) \<and> st_passes s = the (plain_int (counts ! 4)) \<and>
      st_max_updates s = the (plain_int (counts ! 5))"
    using m unfolding mk_stage_spec_def check_stage_def Let_def
    by (simp split: option.split_asm if_split_asm) (clarify, simp)
  have c: "0 < the (plain_int (counts ! i))" if "i < 6" for i
  proof -
    have "positive_int (counts ! i)" using that f by (simp add: list_all_length)
    then show ?thesis by (auto simp: positive_int_def split: option.splits)
  qed
  show "st_id s \<noteq> []" using f by (auto simp: str_ok_def split: option.splits)
  show "st_train s \<noteq> []" "st_validation s \<noteq> []" "distinct (st_validation s)"
    "0 < st_promotion_trials s" "0 < st_regression_trials s" "0 < st_passes s" "0 < st_max_updates s"
    using f c [of 1] c [of 3] c [of 4] c [of 5] by simp_all
qed

lemma stage_made_facts:
  assumes "stage_made s"
  shows "st_id s \<noteq> []" "st_train s \<noteq> []" "st_validation s \<noteq> []" "distinct (st_validation s)"
    "0 < st_promotion_trials s" "0 < st_regression_trials s" "0 < st_passes s" "0 < st_max_updates s"
    "schedule_made (st_schedule s)"
proof -
  obtain sid rank pool train validation kinds waits counts where
    m: "mk_stage_spec sid rank pool train validation kinds waits counts (st_schedule s) = Inr s"
    and sch: "schedule_made (st_schedule s)" using assms by (auto simp: stage_made_def)
  show "st_id s \<noteq> []" "st_train s \<noteq> []" "st_validation s \<noteq> []" "distinct (st_validation s)"
    "0 < st_promotion_trials s" "0 < st_regression_trials s" "0 < st_passes s" "0 < st_max_updates s"
    by (rule made_stage [OF m])+
  show "schedule_made (st_schedule s)" by (rule sch)
qed

lemma recipe_id_nonempty: "mk_snapshot_recipe E arg trace = Inr r \<Longrightarrow> rc_snapshot_id r \<noteq> []"
  by (auto simp: mk_snapshot_recipe_def rbind_Inr str_ok_def safe_identifier_def Let_def
      split: option.splits if_splits)

lemma library_ids_nonempty:
  assumes "library_made E lib" "library_get lib k = Inr r"
  shows "k \<noteq> []"
proof -
  obtain recipes where m: "mk_snapshot_library recipes = Inr lib"
    "\<forall>r \<in> set recipes. \<exists>arg trace. mk_snapshot_recipe E arg trace = Inr r" using assms(1) by (auto simp: library_made_def)
  then have "set lib = set recipes"
    by (auto simp: mk_snapshot_library_def rbind_Inr Let_def split: if_splits)
  moreover have "r \<in> set lib" "rc_snapshot_id r = k"
    using assms(2) by (auto simp: library_get_def find_Some_iff split: option.splits)
  ultimately show ?thesis using m(2) recipe_id_nonempty by blast
qed

lemma check_snapshot_ofD:
  assumes "check_snapshot_of lib stage split m k = Inr u"
  obtains r where "library_get lib k = Inr r" "rc_stage_id r = st_id stage" "rc_split r = split"
    "rc_environment_pool r = st_pool stage"
  using assms by (auto simp: check_snapshot_of_def rbind_Inr split: if_splits)

lemma rmap_Inr_ex: "(\<exists>ys. rmap f xs = Inr ys) \<longleftrightarrow> (\<forall>x \<in> set xs. \<exists>y. f x = Inr y)"
proof (induction xs)
  case (Cons a xs)
  then show ?case by (auto simp: rbind_Inr)
qed simp

text \<open>The facts about a curriculum that its coordinator relies on.\<close>

definition train_recipe :: "curriculum_spec \<Rightarrow> stage_spec \<Rightarrow> string \<Rightarrow> bool" where
  "train_recipe c stage k \<longleftrightarrow> (\<exists>r. library_get (cs_library c) k = Inr r \<and> rc_stage_id r = st_id stage \<and>
     rc_split r = ''train'' \<and> rc_environment_pool r = st_pool stage)"

lemma curriculum_made_facts:
  assumes "curriculum_made E c"
  shows "cs_stages c \<noteq> []" "distinct (map st_id (cs_stages c))"
    "s \<in> set (cs_stages c) \<Longrightarrow> stage_made s"
    "s \<in> set (cs_stages c) \<Longrightarrow> k \<in> set (st_train s) \<Longrightarrow> train_recipe c s k"
    "s \<in> set (cs_stages c) \<Longrightarrow> k \<in> set (st_validation s) \<Longrightarrow> k \<noteq> []"
    "uint64 (cs_evaluation_seed c)" "0 \<le> cs_prior_mix c"
proof -
  obtain cid seed mix where m: "mk_curriculum_spec cid (cs_library c) (cs_stages c) seed mix = Inr c"
    and lib: "library_made E (cs_library c)" and st: "\<forall>s \<in> set (cs_stages c). stage_made s"
    using assms by (auto simp: curriculum_made_def)
  then obtain us where u: "rmap (check_stage_snapshots (cs_library c)) (cs_stages c) = Inr us"
    and b: "cs_stages c \<noteq> []" "distinct (map st_id (cs_stages c))"
    by (auto simp: mk_curriculum_spec_def rbind_Inr split: option.splits if_splits)
  from m have "\<exists>ev x. 0 \<le> ev \<and> ev < 2 ^ 64 \<and> 0 \<le> x \<and> \<lparr>cs_id = cid, cs_library = cs_library c,
      cs_stages = cs_stages c, cs_evaluation_seed = ev, cs_prior_mix = x\<rparr> = c"
    by (auto simp: mk_curriculum_spec_def rbind_Inr split: option.splits if_splits)
  then obtain ev x where e: "0 \<le> ev" "ev < 2 ^ 64" "0 \<le> x" "cs_evaluation_seed c = ev" "cs_prior_mix c = x"
    by (metis curriculum_spec.select_convs(4,5))
  have ck: "\<exists>y. check_stage_snapshots (cs_library c) s = Inr y" if "s \<in> set (cs_stages c)" for s
    using u that rmap_Inr_ex [of "check_stage_snapshots (cs_library c)" "cs_stages c"] by blast
  have tv: "(\<exists>y. check_snapshot_of (cs_library c) s ''train'' ''stage training snapshot identity mismatch'' k = Inr y)"
    if "s \<in> set (cs_stages c)" "k \<in> set (st_train s)" for s k
    using ck [OF that(1)] that(2) rmap_Inr_ex [of "check_snapshot_of (cs_library c) s ''train'' ''stage training snapshot identity mismatch''" "st_train s"]
    by (auto simp: check_stage_snapshots_def rbind_Inr)
  have vv: "(\<exists>y. check_snapshot_of (cs_library c) s ''validation'' ''stage validation snapshot identity mismatch'' k = Inr y)"
    if "s \<in> set (cs_stages c)" "k \<in> set (st_validation s)" for s k
    using ck [OF that(1)] that(2) rmap_Inr_ex [of "check_snapshot_of (cs_library c) s ''validation'' ''stage validation snapshot identity mismatch''" "st_validation s"]
    by (auto simp: check_stage_snapshots_def rbind_Inr)
  show "cs_stages c \<noteq> []" "distinct (map st_id (cs_stages c))" using b by simp_all
  show "s \<in> set (cs_stages c) \<Longrightarrow> stage_made s" using st by blast
  show "s \<in> set (cs_stages c) \<Longrightarrow> k \<in> set (st_train s) \<Longrightarrow> train_recipe c s k"
    using tv by (meson check_snapshot_ofD train_recipe_def)
  show "s \<in> set (cs_stages c) \<Longrightarrow> k \<in> set (st_validation s) \<Longrightarrow> k \<noteq> []"
    using vv by (meson check_snapshot_ofD library_ids_nonempty [OF lib])
  show "uint64 (cs_evaluation_seed c)" "0 \<le> cs_prior_mix c" using e by (simp_all add: uint64_def)
qed

section \<open>The invariant\<close>

definition hash_ok :: "cur_env \<Rightarrow> bool" where
  "hash_ok E \<longleftrightarrow> (\<forall>v. sha_text (ce_digest E v))"

text \<open>The per-lane lists fit the lanes, and name unlocked stages and legal weights.\<close>

definition lists_ok :: "coordinator \<Rightarrow> bool" where
  "lists_ok s \<longleftrightarrow> length (cc_unlocks s) = length (stages_of s) \<and> length (cc_lane_stage s) = cc_lanes s \<and>
     length (cc_lane_snapshot s) = cc_lanes s \<and> length (cc_lane_weight s) = cc_lanes s \<and>
     length (cc_ordinals s) = cc_lanes s \<and> (\<forall>n \<in> set (cc_ordinals s). 0 \<le> n) \<and>
     (\<forall>i \<in> set (cc_lane_stage s). i \<le> cc_highest s) \<and>
     (\<forall>w \<in> set (cc_lane_weight s). 0 \<le> w \<and> w \<le> 1000000)"

text \<open>The clocks agree with the phase.\<close>

definition gate_ok :: "coordinator \<Rightarrow> bool" where
  "gate_ok s \<longleftrightarrow> cc_highest s < length (stages_of s) \<and> cc_focus s \<le> cc_highest s \<and> 0 \<le> cc_completed s \<and>
     0 \<le> cc_streak s \<and> unlocks_ok s \<and> phase_ok s"

definition pending_ok :: "cur_env \<Rightarrow> coordinator \<Rightarrow> validation_request \<Rightarrow> bool" where
  "pending_ok E s q \<longleftrightarrow> vq_curriculum_sha256 q = curriculum_sha256 E (cc_spec s) \<and>
     vq_evaluation_seed q = cs_evaluation_seed (cc_spec s) \<and> vq_gate_ordinal q + 1 = cc_evaluations s \<and>
     0 \<le> vq_gate_ordinal q \<and> vq_completed_update q = cc_completed s \<and>
     sha_text (vq_policy_sha256 q) \<and> vq_policy_sha256 q \<notin> cc_policies s \<and> sha_text (vq_evaluator_sha256 q) \<and>
     expected_stages s (cc_highest s) = Inr (vq_stages q)"

definition evidence_ok :: "cur_env \<Rightarrow> coordinator \<Rightarrow> bool" where
  "evidence_ok E s \<longleftrightarrow> sha_text (cc_event_head s) \<and> (\<forall>(k, h) \<in> set (cc_reports s). sha_text h) \<and>
     finite (cc_policies s) \<and> (\<forall>p \<in> cc_policies s. sha_text p) \<and> 0 \<le> cc_evaluations s \<and>
     (\<forall>q. cc_pending s = Some q \<longrightarrow> pending_ok E s q)"

text \<open>Every lane of the set that has started an episode holds a training snapshot of its stage.  A call
  of \<open>activate_focus_for_new_episodes\<close> moves lanes to another stage and leaves their snapshots, so this
  is kept for the lanes that are only activated before they hold one.\<close>

definition lanes_ok :: "nat set \<Rightarrow> coordinator \<Rightarrow> bool" where
  "lanes_ok L s \<longleftrightarrow> (\<forall>lane < cc_lanes s. lane \<in> L \<longrightarrow> check_active s lane = Inr ())"

text \<open>An outstanding reservation names lanes in range and training snapshots of unlocked stages.\<close>

definition assignment_ok :: "coordinator \<Rightarrow> episode_assignment \<Rightarrow> bool" where
  "assignment_ok s a \<longleftrightarrow> ea_lane a < cc_lanes s \<and> (\<exists>i \<le> cc_highest s.
     ea_stage_id a = st_id (stages_of s ! i) \<and> ea_snapshot_id a \<in> set (st_train (stages_of s ! i)))"

definition reserved_ok :: "coordinator \<Rightarrow> bool" where
  "reserved_ok s \<longleftrightarrow> (\<forall>r. cc_outstanding s = Some r \<longrightarrow> (\<forall>a \<in> set (rv_assignments r). assignment_ok s a))"

text \<open>The invariant, with the lanes whose snapshots are of their stages; \<open>cur_inv\<close> when they all are.\<close>

definition inv_on :: "cur_env \<Rightarrow> nat set \<Rightarrow> coordinator \<Rightarrow> bool" where
  "inv_on E L s \<longleftrightarrow> curriculum_made E (cc_spec s) \<and> 0 < cc_lanes s \<and> lists_ok s \<and> gate_ok s \<and>
     evidence_ok E s \<and> lanes_ok L s \<and> reserved_ok s"

abbreviation cur_inv :: "cur_env \<Rightarrow> coordinator \<Rightarrow> bool" where
  "cur_inv E s \<equiv> inv_on E UNIV s"

lemmas inv_defs = inv_on_def lists_ok_def gate_ok_def evidence_ok_def lanes_ok_def reserved_ok_def
  assignment_ok_def

text \<open>What the parts do not depend on.\<close>

lemma stages_of_update [simp]:
  "stages_of (s\<lparr>cc_event_head := h\<rparr>) = stages_of s" "stages_of (s\<lparr>cc_phase := p\<rparr>) = stages_of s"
  "stages_of (s\<lparr>cc_highest := n\<rparr>) = stages_of s" "stages_of (s\<lparr>cc_focus := n\<rparr>) = stages_of s"
  "stages_of (s\<lparr>cc_completed := c\<rparr>) = stages_of s" "stages_of (s\<lparr>cc_unlocks := u\<rparr>) = stages_of s"
  "stages_of (s\<lparr>cc_streak := c\<rparr>) = stages_of s" "stages_of (s\<lparr>cc_lane_stage := ls\<rparr>) = stages_of s"
  "stages_of (s\<lparr>cc_lane_snapshot := sn\<rparr>) = stages_of s" "stages_of (s\<lparr>cc_lane_weight := w\<rparr>) = stages_of s"
  "stages_of (s\<lparr>cc_ordinals := os\<rparr>) = stages_of s" "stages_of (s\<lparr>cc_outstanding := r\<rparr>) = stages_of s"
  "stages_of (s\<lparr>cc_reports := rt\<rparr>) = stages_of s" "stages_of (s\<lparr>cc_policies := ps\<rparr>) = stages_of s"
  "stages_of (s\<lparr>cc_evaluations := n'\<rparr>) = stages_of s" "stages_of (s\<lparr>cc_pending := q\<rparr>) = stages_of s"
  by (simp_all add: stages_of_def)

lemma expected_stages_cong: "stages_of t = stages_of s \<Longrightarrow> expected_stages t = expected_stages s"
  by (rule ext) (simp add: expected_stages_def)

lemma unlocks_ok_cong: "cc_unlocks t = cc_unlocks s \<Longrightarrow> cc_highest t = cc_highest s \<Longrightarrow>
    cc_completed t = cc_completed s \<Longrightarrow> (cc_phase t = Activation \<longleftrightarrow> cc_phase s = Activation) \<Longrightarrow>
    unlocks_ok t = unlocks_ok s"
  by (simp add: unlocks_ok_def)

lemma gate_ok_cong:
  assumes "stages_of t = stages_of s" "cc_unlocks t = cc_unlocks s" "cc_highest t = cc_highest s"
    "cc_completed t = cc_completed s" "cc_phase t = cc_phase s" "cc_focus t = cc_focus s"
    "cc_streak t = cc_streak s" "(cc_pending t = None) = (cc_pending s = None)"
  shows "gate_ok t = gate_ok s"
  using assms unfolding gate_ok_def unlocks_ok_def phase_ok_def by simp

lemma check_active_cong: "cc_lane_snapshot t = cc_lane_snapshot s \<Longrightarrow> cc_ordinals t = cc_ordinals s \<Longrightarrow>
    cc_lane_stage t = cc_lane_stage s \<Longrightarrow> cc_spec t = cc_spec s \<Longrightarrow> check_active t = check_active s"
  by (rule ext) (simp add: check_active_def stages_of_def Let_def cong: sum.case_cong)

lemma inv_event [simp]: "hash_ok E \<Longrightarrow> inv_on E L s \<Longrightarrow> inv_on E L (s\<lparr>cc_event_head := ce_digest E v\<rparr>)"
proof -
  assume h: "hash_ok E" and s: "inv_on E L s"
  let ?t = "s\<lparr>cc_event_head := ce_digest E v\<rparr>"
  have "check_active ?t = check_active s" by (rule check_active_cong) simp_all
  moreover have "gate_ok ?t = gate_ok s" by (rule gate_ok_cong) simp_all
  moreover have "pending_ok E ?t q = pending_ok E s q" for q
    using expected_stages_cong [of ?t s] by (simp add: pending_ok_def)
  ultimately show ?thesis using h s
    by (auto simp: inv_on_def lists_ok_def evidence_ok_def lanes_ok_def reserved_ok_def assignment_ok_def hash_ok_def)
qed

lemma stage_in: "i < length (stages_of s) \<Longrightarrow> stages_of s ! i \<in> set (cs_stages (cc_spec s))"
  by (simp add: stages_of_def)

text \<open>A stage's shaping weight is defined and legal.\<close>

lemma stage_weight_ok:
  assumes s: "inv_on E L s" and i: "i < length (stages_of s)"
  shows "\<exists>w. stage_weight s i = Inr w \<and> 0 \<le> w \<and> w \<le> 1000000"
proof -
  have made: "schedule_made (st_schedule (stages_of s ! i))"
    using s i stage_made_facts(9) curriculum_made_facts(3) stage_in [OF i] unfolding inv_on_def by blast
  have len: "length (cc_unlocks s) = length (stages_of s)" and u: "unlocks_ok s" and c: "0 \<le> cc_completed s"
    using s by (simp_all add: inv_defs)
  have "cc_unlocks s ! i < 0 \<or> cc_unlocks s ! i \<le> cc_completed s"
  proof -
    consider "i < cc_highest s" | "i = cc_highest s" | "cc_highest s < i" by linarith
    then show ?thesis
    proof cases
      case 1
      then have "cc_unlocks s ! i = take (cc_highest s) (cc_unlocks s) ! i" "i < length (take (cc_highest s) (cc_unlocks s))"
        using i len by simp_all
      then show ?thesis using u unfolding unlocks_ok_def Let_def list_all_length by auto
    next
      case 2
      with u c show ?thesis by (auto simp: unlocks_ok_def Let_def)
    next
      case 3
      then have "cc_unlocks s ! i = drop (Suc (cc_highest s)) (cc_unlocks s) ! (i - Suc (cc_highest s))"
        "i - Suc (cc_highest s) < length (drop (Suc (cc_highest s)) (cc_unlocks s))"
        using i len by simp_all
      then show ?thesis using u unfolding unlocks_ok_def Let_def list_all_length by auto
    qed
  qed
  then show ?thesis using weight_ppm_ok [OF made] by (auto simp: stage_weight_def Let_def)
qed

section \<open>Committing and activating\<close>

lemma stage_index_ok:
  assumes "inv_on E L s" "i < length (stages_of s)"
  shows "stage_index s (st_id (stages_of s ! i)) = Some i"
proof -
  have d: "distinct (map st_id (stages_of s))"
    using assms(1) curriculum_made_facts(2) by (auto simp: inv_on_def stages_of_def)
  have "j = i" if "j < length (stages_of s)" "st_id (stages_of s ! j) = st_id (stages_of s ! i)" for j
    using d that assms(2) by (metis length_map nth_eq_iff_index_eq nth_map)
  then have "st_id (stages_of s ! j) \<noteq> st_id (stages_of s ! i)" if "j < i" for j
    using that assms(2) by (metis less_irrefl less_trans)
  with assms(2) show ?thesis unfolding stage_index_def find_Some_iff by (intro exI [of _ i]) auto
qed

text \<open>The same state but for the lanes.\<close>

definition same_gate :: "coordinator \<Rightarrow> coordinator \<Rightarrow> bool" where
  "same_gate s t \<longleftrightarrow> (\<exists>ls sn ws os. t = s\<lparr>cc_lane_stage := ls, cc_lane_snapshot := sn, cc_lane_weight := ws,
     cc_ordinals := os\<rparr>)"

lemma prepare_ok:
  assumes s: "inv_on E L s" and a: "assignment_ok s a"
  shows "\<exists>t. prepare_assignment s a = Inr t \<and> same_gate s t \<and> inv_on E L t \<and>
    cc_ordinals t = (cc_ordinals s)[ea_lane a := cc_ordinals s ! ea_lane a + 1]"
proof -
  obtain i where i: "i \<le> cc_highest s" "ea_stage_id a = st_id (stages_of s ! i)"
    "ea_snapshot_id a \<in> set (st_train (stages_of s ! i))" and lane: "ea_lane a < cc_lanes s"
    using a by (auto simp: assignment_ok_def)
  have n: "i < length (stages_of s)" using i(1) s by (simp add: inv_defs)
  have "train_recipe (cc_spec s) (stages_of s ! i) (ea_snapshot_id a)"
    using s curriculum_made_facts(4) stage_in [OF n] i(3) by (auto simp: inv_on_def)
  then obtain r where r: "library_get (cs_library (cc_spec s)) (ea_snapshot_id a) = Inr r"
    "rc_stage_id r = st_id (stages_of s ! i)" "rc_split r = ''train''" "rc_environment_pool r = st_pool (stages_of s ! i)"
    by (auto simp: train_recipe_def)
  obtain w where w: "stage_weight s i = Inr w" "0 \<le> w" "w \<le> 1000000" using stage_weight_ok [OF s n] by blast
  define t where "t = s\<lparr>cc_lane_stage := (cc_lane_stage s)[ea_lane a := i],
      cc_lane_snapshot := (cc_lane_snapshot s)[ea_lane a := ea_snapshot_id a],
      cc_lane_weight := (cc_lane_weight s)[ea_lane a := w],
      cc_ordinals := (cc_ordinals s)[ea_lane a := cc_ordinals s ! ea_lane a + 1]\<rparr>"
  have st: "stages_of t = stages_of s" by (simp add: t_def stages_of_def)
  have act: "check_active t lane = Inr ()" if "lane < cc_lanes s" "lane \<in> L" for lane
  proof (cases "lane = ea_lane a")
    case True
    have "0 \<le> cc_ordinals s ! ea_lane a" using s lane by (auto simp: inv_defs)
    then have "cc_ordinals s ! ea_lane a + 1 \<noteq> 0" by linarith
    moreover have "lists_ok s" using s by (simp add: inv_on_def)
    ultimately show ?thesis using True lane r
      by (simp add: check_active_def t_def lists_ok_def stages_of_def Let_def)
  next
    case False
    with that s have "check_active t lane = check_active s lane"
      by (simp add: check_active_def t_def stages_of_def Let_def cong: sum.case_cong)
    with that s show ?thesis by (simp add: inv_defs)
  qed
  have o: "0 \<le> cc_ordinals s ! ea_lane a" using s lane by (auto simp: inv_defs)
  have "lists_ok t" using s lane i(1) w o
    by (auto simp: lists_ok_def inv_on_def t_def dest!: set_update_subset_insert [THEN subsetD])
  moreover have "gate_ok t"
    using s gate_ok_cong [OF st] by (simp add: inv_on_def t_def)
  moreover have "evidence_ok E t"
    using s expected_stages_cong [OF st] by (auto simp: inv_defs pending_ok_def t_def)
  moreover have "lanes_ok L t" using act by (simp add: lanes_ok_def t_def)
  moreover have "reserved_ok t" using s st by (auto simp: inv_defs t_def)
  moreover have "curriculum_made E (cc_spec t)" "0 < cc_lanes t" using s by (simp_all add: inv_on_def t_def)
  ultimately have "inv_on E L t" by (simp add: inv_on_def)
  moreover have "prepare_assignment s a = Inr t"
    using r w i(2) stage_index_ok [OF s n] by (simp add: prepare_assignment_def Let_def t_def)
  moreover have "same_gate s t" by (auto simp: same_gate_def t_def)
  ultimately show ?thesis by (auto simp: t_def)
qed

lemma same_gate_refl: "same_gate s s"
  unfolding same_gate_def
  by (intro exI [of _ "cc_lane_stage s"] exI [of _ "cc_lane_snapshot s"] exI [of _ "cc_lane_weight s"]
      exI [of _ "cc_ordinals s"]) simp

lemma same_gate_trans: "same_gate s t \<Longrightarrow> same_gate t u \<Longrightarrow> same_gate s u"
  by (force simp: same_gate_def)

lemma same_gate_assignment: "same_gate s t \<Longrightarrow> assignment_ok t a = assignment_ok s a"
  by (auto simp: same_gate_def assignment_ok_def stages_of_def)

lemma prepare_all_ok:
  "inv_on E L s \<Longrightarrow> \<forall>a \<in> set as. assignment_ok s a \<Longrightarrow>
     \<exists>t. prepare_assignments s as = Inr t \<and> same_gate s t \<and> inv_on E L t"
proof (induction as arbitrary: s)
  case Nil
  then show ?case by (simp add: same_gate_refl)
next
  case (Cons a as)
  obtain t where t: "prepare_assignment s a = Inr t" "same_gate s t" "inv_on E L t"
    using prepare_ok [OF Cons.prems(1), of a] Cons.prems(2) by auto
  have "\<forall>x \<in> set as. assignment_ok t x" using Cons.prems(2) same_gate_assignment [OF t(2)] by simp
  with Cons.IH [OF t(3)] obtain u where "prepare_assignments t as = Inr u" "same_gate t u" "inv_on E L u" by blast
  with t show ?case by (auto intro: same_gate_trans)
qed

end
