(* ===== verification/Curriculum_Gates.thy ===== *)
theory Curriculum_Gates
  imports Curriculum_Inv
begin

text \<open>
  The coordinator against its abstract specification, the ladder of stages and phases: each
  operation keeps the invariant and the configuration and takes steps of the ladder (\<open>next_on\<close>),
  or raises with the state unchanged.
\<close>

section \<open>The abstract ladder\<close>

text \<open>
  What the coordinator promises about promotion, without clocks or evidence: the highest unlocked
  stage and the phase.  A stage is added one at a time, from a normal or budget-closing gate, and
  must activate before anything else; the last stage completes; an exhausted budget is final.
\<close>

inductive ladder :: "nat \<Rightarrow> nat \<times> cur_phase \<Rightarrow> nat \<times> cur_phase \<Rightarrow> bool" for n where
  regress: "0 < h \<Longrightarrow> ladder n (h, Normal) (h, Remediation)"
| recover: "ladder n (h, Remediation) (h, Normal)"
| close_budget: "p = Normal \<or> p = Remediation \<Longrightarrow> ladder n (h, p) (h, BudgetValidation)"
| promoted: "p = Normal \<or> p = BudgetValidation \<Longrightarrow> Suc h < n \<Longrightarrow> ladder n (h, p) (Suc h, Activation)"
| activated: "ladder n (h, Activation) (h, Normal)"
| completed: "p = Normal \<or> p = BudgetValidation \<Longrightarrow> Suc h = n \<Longrightarrow> ladder n (h, p) (h, Complete)"
| exhausted: "ladder n (h, BudgetValidation) (h, BudgetExhausted)"

inductive_cases ladder_from_complete: "ladder n (h, Complete) x"
inductive_cases ladder_from_exhausted: "ladder n (h, BudgetExhausted) x"

definition place :: "coordinator \<Rightarrow> nat \<times> cur_phase" where
  "place s = (cc_highest s, cc_phase s)"

definition same_config :: "coordinator \<Rightarrow> coordinator \<Rightarrow> bool" where
  "same_config s t \<longleftrightarrow> cc_spec t = cc_spec s \<and> cc_lanes t = cc_lanes s \<and> cc_learner_seed t = cc_learner_seed s"

definition next_on :: "cur_env \<Rightarrow> nat set \<Rightarrow> coordinator \<Rightarrow> coordinator \<Rightarrow> bool" where
  "next_on E L s t \<longleftrightarrow> inv_on E L t \<and> same_config s t \<and> (ladder (length (stages_of s)))\<^sup>*\<^sup>* (place s) (place t)"

abbreviation cur_next :: "cur_env \<Rightarrow> coordinator \<Rightarrow> coordinator \<Rightarrow> bool" where
  "cur_next E s t \<equiv> next_on E UNIV s t"

lemma cur_next_refl: "inv_on E L s \<Longrightarrow> next_on E L s s"
  by (simp add: next_on_def same_config_def)

lemma cur_next_trans: "next_on E L s t \<Longrightarrow> next_on E L t u \<Longrightarrow> next_on E L s u"
  by (auto simp: next_on_def same_config_def stages_of_def)

lemma cur_next_ladder:
  "inv_on E L t \<Longrightarrow> same_config s t \<Longrightarrow> ladder (length (stages_of s)) (place s) (place t) \<Longrightarrow> next_on E L s t"
  by (simp add: next_on_def r_into_rtranclp)

lemma cur_next_event:
  "hash_ok E \<Longrightarrow> next_on E L s t \<Longrightarrow> next_on E L s (t\<lparr>cc_event_head := ce_digest E v\<rparr>)"
  by (simp add: next_on_def same_config_def place_def)

lemma wp_cur_event:
  "wp (append_cur_event E kind payload) (\<lambda>_. Q) R s \<longleftrightarrow> Q (s\<lparr>cc_event_head := ce_digest E (JObj
     [(''previous'', JStr (cc_event_head s)), (''kind'', JStr kind),
      (''completed_updates'', JInt (cc_completed s)), (''payload'', JObj payload)])\<rparr>)"
  by (simp add: append_cur_event_def wp_simps)

section \<open>Activation\<close>

lemma stage_facts:
  assumes "inv_on E L s" "i < length (stages_of s)"
  shows "0 < st_max_updates (stages_of s ! i)" "0 < st_passes (stages_of s ! i)"
    "0 < st_promotion_trials (stages_of s ! i)" "0 < st_regression_trials (stages_of s ! i)"
    "st_train (stages_of s ! i) \<noteq> []" "st_validation (stages_of s ! i) \<noteq> []" "st_id (stages_of s ! i) \<noteq> []"
    "distinct (st_validation (stages_of s ! i))" "\<forall>k \<in> set (st_validation (stages_of s ! i)). k \<noteq> []"
proof -
  note i = stage_in [OF assms(2)]
  have c: "curriculum_made E (cc_spec s)" using assms(1) by (simp add: inv_on_def)
  note m = curriculum_made_facts(3) [OF c i]
  show "0 < st_max_updates (stages_of s ! i)" "0 < st_passes (stages_of s ! i)"
    "0 < st_promotion_trials (stages_of s ! i)" "0 < st_regression_trials (stages_of s ! i)"
    "st_train (stages_of s ! i) \<noteq> []" "st_validation (stages_of s ! i) \<noteq> []" "st_id (stages_of s ! i) \<noteq> []"
    "distinct (st_validation (stages_of s ! i))"
    using stage_made_facts [OF m] by simp_all
  show "\<forall>k \<in> set (st_validation (stages_of s ! i)). k \<noteq> []"
    using curriculum_made_facts(5) [OF c i] by blast
qed

lemma activation_next:
  assumes E: "hash_ok E" and s: "inv_on E L s"
  shows "wp (complete_activation E) (\<lambda>_. next_on E L s) (\<lambda>_ _. False) s"
proof (cases "cc_phase s = Activation \<and> cc_unlocks s ! cc_highest s < 0 \<and>
    list_all (\<lambda>i. i = cc_highest s) (cc_lane_stage s)")
  case False
  then show ?thesis
    unfolding complete_activation_def wp_simps by (simp only: if_False cur_next_refl [OF s])
next
  case True
  let ?h = "cc_highest s"
  define t where "t = s\<lparr>cc_unlocks := (cc_unlocks s)[?h := cc_completed s], cc_phase := Normal\<rparr>"
  have g: "gate_ok s" and l: "lists_ok s" using s by (simp_all add: inv_on_def)
  have h: "?h < length (cc_unlocks s)" "?h < length (stages_of s)" using g l by (simp_all add: gate_ok_def lists_ok_def)
  have st: "stages_of t = stages_of s" by (simp add: t_def)
  have h0: "?h \<noteq> 0"
  proof
    assume "?h = 0"
    with True g show False by (auto simp: gate_ok_def unlocks_ok_def Let_def)
  qed
  have "unlocks_ok t"
    using g h h0 True by (simp add: gate_ok_def unlocks_ok_def t_def Let_def take_update_cancel drop_update_cancel)
  moreover have "phase_ok t"
    using g h True stage_facts(1) [OF s h(2)] by (simp add: gate_ok_def phase_ok_def t_def Let_def)
  ultimately have "gate_ok t" using g by (simp add: gate_ok_def t_def)
  moreover have "pending_ok E t q = pending_ok E s q" for q
    using expected_stages_cong [OF st] by (simp add: pending_ok_def t_def)
  moreover have "check_active t = check_active s" by (rule check_active_cong) (simp_all add: t_def)
  ultimately have "inv_on E L t"
    using s by (auto simp: inv_on_def lists_ok_def evidence_ok_def lanes_ok_def reserved_ok_def assignment_ok_def t_def)
  moreover have "ladder (length (stages_of s)) (place s) (place t)"
    using True ladder.activated by (simp add: place_def t_def)
  ultimately have "next_on E L s t" by (intro cur_next_ladder) (simp_all add: same_config_def t_def)
  with True E show ?thesis
    by (simp add: complete_activation_def wp_simps wp_cur_event cur_next_event t_def)
qed

lemma commit_next:
  assumes E: "hash_ok E" and s: "inv_on E L s"
  shows "wp (commit_assignments E r) (\<lambda>_. next_on E L s) (\<lambda>_ t. t = s) s"
proof (cases "cc_outstanding s = Some r \<and> list_all (\<lambda>a. ea_ordinal a = cc_ordinals s ! ea_lane a) (rv_assignments r)")
  case False
  then show ?thesis by (auto simp: commit_assignments_def wp_simps)
next
  case True
  with s have "\<forall>a \<in> set (rv_assignments r). assignment_ok s a" by (auto simp: inv_on_def reserved_ok_def)
  with prepare_all_ok [OF s] obtain t where t: "prepare_assignments s (rv_assignments r) = Inr t" "same_gate s t" "inv_on E L t"
    by blast
  define u where "u = s\<lparr>cc_lane_stage := cc_lane_stage t, cc_lane_snapshot := cc_lane_snapshot t,
      cc_lane_weight := cc_lane_weight t, cc_ordinals := cc_ordinals t, cc_outstanding := None\<rparr>"
  have ut: "u = t\<lparr>cc_outstanding := None\<rparr>" using t(2) by (auto simp: same_gate_def u_def)
  have st: "stages_of u = stages_of t" by (simp add: ut)
  have "check_active u = check_active t" by (rule check_active_cong) (simp_all add: ut)
  moreover have "gate_ok u = gate_ok t" by (rule gate_ok_cong) (simp_all add: ut)
  moreover have "pending_ok E u q = pending_ok E t q" for q
    using expected_stages_cong [OF st] by (simp add: pending_ok_def ut)
  ultimately have u: "inv_on E L u"
    using t(3) by (auto simp: inv_on_def lists_ok_def evidence_ok_def lanes_ok_def reserved_ok_def ut)
  have "next_on E L s u" using u by (simp add: next_on_def same_config_def place_def u_def)
  then have "wp (complete_activation E) (\<lambda>_. next_on E L s) (\<lambda>_ _. False) u"
    by (intro wp_mono [OF activation_next [OF E u]]) (auto intro: cur_next_trans)
  then have "wp (complete_activation E) (\<lambda>_. next_on E L s) (\<lambda>_ t. t = s) u" by (rule wp_mono) auto
  with True t(1) show ?thesis by (simp add: commit_assignments_def wp_simps u_def)
qed

lemma outstanding_next:
  assumes "inv_on E L s" "\<forall>r. x = Some r \<longrightarrow> (\<forall>a \<in> set (rv_assignments r). assignment_ok s a)"
  shows "next_on E L s (s\<lparr>cc_outstanding := x\<rparr>)"
proof -
  let ?t = "s\<lparr>cc_outstanding := x\<rparr>"
  have "check_active ?t = check_active s" by (rule check_active_cong) simp_all
  moreover have "gate_ok ?t = gate_ok s" by (rule gate_ok_cong) simp_all
  moreover have "pending_ok E ?t q = pending_ok E s q" for q
    using expected_stages_cong [of ?t s] by (simp add: pending_ok_def)
  ultimately have "inv_on E L ?t"
    using assms by (auto simp: inv_on_def lists_ok_def evidence_ok_def lanes_ok_def reserved_ok_def assignment_ok_def)
  then show ?thesis by (simp add: next_on_def same_config_def place_def)
qed

lemma rollback_next:
  assumes "inv_on E L s"
  shows "wp (rollback_assignments r) (\<lambda>_. next_on E L s) (\<lambda>_ t. t = s) s"
  using outstanding_next [OF assms, of None] by (simp add: rollback_assignments_def wp_simps)

section \<open>Sampling\<close>

lemma sample_from_less: "sample_from E prefix k c = Some i \<Longrightarrow> 0 < k \<Longrightarrow> i < k"
proof -
  assume ret: "sample_from E prefix k c = Some i" and k: "0 < k"
  have "0 < k \<longrightarrow> i < k"
  proof (rule sample_from.raw_induct [where P = "\<lambda>E prefix k c i. 0 < k \<longrightarrow> i < k", OF _ ret])
    fix f E prefix k c i
    assume "\<And>E prefix k c i. f E prefix k c = Some i \<Longrightarrow> 0 < k \<longrightarrow> i < k"
      and "(let value = ce_sha256 E (prefix @ nat_text c) in
        if value < 2 ^ 256 - 2 ^ 256 mod k then Some (value mod k) else f E prefix k (Suc c)) = Some i"
    then show "0 < k \<longrightarrow> i < k" by (auto simp: Let_def split: if_splits)
  qed
  with k show ?thesis by simp
qed

lemma drawn_ok:
  assumes s: "inv_on E L s" and d: "draw_assignment E s lane = Some a" and lane: "lane < cc_lanes s"
  shows "assignment_ok s a"
proof -
  obtain i k where i: "draw_stage E s lane = Some i"
    and k: "sample_index E s lane (cc_ordinals s ! lane + 2) (length (st_train (stages_of s ! i))) = Some k"
    and a: "a = \<lparr>ea_lane = lane, ea_ordinal = cc_ordinals s ! lane, ea_stage_id = st_id (stages_of s ! i),
      ea_snapshot_id = st_train (stages_of s ! i) ! k\<rparr>"
    using d by (auto simp: draw_assignment_def Let_def bind_eq_Some_conv)
  have h: "cc_highest s < length (stages_of s)" "cc_focus s \<le> cc_highest s" using s by (simp_all add: inv_defs)
  have ih: "i \<le> cc_highest s"
    using i h(2) sample_from_less [of E _ "cc_highest s" 0 i]
    by (auto simp: draw_stage_def sample_index_def Let_def bind_eq_Some_conv split: if_splits intro: less_imp_le)
  then have n: "i < length (stages_of s)" using h(1) by simp
  have "k < length (st_train (stages_of s ! i))"
    using sample_from_less [OF k [unfolded sample_index_def]] stage_facts(5) [OF s n] by simp
  with ih lane a show ?thesis by (auto simp: assignment_ok_def)
qed

lemma those_Some_in: "those xs = Some ys \<Longrightarrow> y \<in> set ys \<Longrightarrow> Some y \<in> set xs"
  by (induction xs arbitrary: ys) (auto split: option.splits)

lemma reserve_next:
  assumes s: "inv_on E L s" and r: "reserve_assignments E ls s = Some (x, t)"
  shows "next_on E L s t"
proof (cases x)
  case (Inl e)
  then have "t = s" using r by (auto simp: reserve_assignments_def Let_def bind_eq_Some_conv split: if_splits option.splits)
  then show ?thesis using s by (simp add: cur_next_refl)
next
  case (Inr v)
  then obtain lanes as where v: "list_all (\<lambda>n. 0 \<le> n \<and> n < int (cc_lanes s)) lanes"
    "those (map (\<lambda>n. draw_assignment E s (nat n)) lanes) = Some as" "rv_assignments v = as"
    "t = s\<lparr>cc_outstanding := Some v\<rparr>"
    using r by (auto simp: reserve_assignments_def Let_def bind_eq_Some_conv split: if_splits option.splits)
  have "assignment_ok s a" if "a \<in> set as" for a
  proof -
    from those_Some_in [OF v(2) that] obtain n where n: "n \<in> set lanes" "draw_assignment E s (nat n) = Some a" by auto
    with v(1) have "nat n < cc_lanes s" by (auto simp: list_all_iff)
    with n show ?thesis by (intro drawn_ok [OF s])
  qed
  then show ?thesis using v outstanding_next [OF s, of "Some v"] by simp
qed

section \<open>The update clock\<close>

lemma phase_facts:
  assumes "inv_on E L s"
  shows "cc_phase s = Activation \<Longrightarrow> cc_pending s = None"
    "cc_phase s = Complete \<Longrightarrow> cc_pending s = None" "cc_phase s = BudgetExhausted \<Longrightarrow> cc_pending s = None"
    "cc_phase s = Normal \<Longrightarrow> cc_focus s = cc_highest s"
    "cc_phase s = Activation \<Longrightarrow> cc_unlocks s ! cc_highest s = - 1"
    "cc_phase s \<noteq> Activation \<Longrightarrow> 0 \<le> cc_unlocks s ! cc_highest s \<and> cc_unlocks s ! cc_highest s \<le> cc_completed s"
    "cc_highest s < length (stages_of s)" "cc_focus s \<le> cc_highest s" "length (cc_unlocks s) = length (stages_of s)"
  using assms by (simp_all add: inv_on_def lists_ok_def gate_ok_def phase_ok_def unlocks_ok_def Let_def)

text \<open>Changing the gate while no request is pending.\<close>

lemma gate_changeI:
  assumes s: "inv_on E L s" "cc_pending s = None"
    and t: "t = s\<lparr>cc_highest := cc_highest t, cc_focus := cc_focus t, cc_phase := cc_phase t,
      cc_unlocks := cc_unlocks t, cc_streak := cc_streak t, cc_completed := cc_completed t\<rparr>"
    and le: "cc_highest s \<le> cc_highest t" "length (cc_unlocks t) = length (stages_of s)" and g: "gate_ok t"
  shows "inv_on E L t"
proof -
  have same: "cc_spec t = cc_spec s" "cc_lanes t = cc_lanes s" "cc_lane_stage t = cc_lane_stage s"
    "cc_lane_snapshot t = cc_lane_snapshot s" "cc_lane_weight t = cc_lane_weight s" "cc_ordinals t = cc_ordinals s"
    "cc_outstanding t = cc_outstanding s" "cc_reports t = cc_reports s" "cc_policies t = cc_policies s"
    "cc_evaluations t = cc_evaluations s" "cc_pending t = None" "cc_event_head t = cc_event_head s"
    using s(2) by (subst t, simp)+
  have st: "stages_of t = stages_of s" by (simp add: same stages_of_def)
  have "check_active t = check_active s" by (rule check_active_cong) (simp_all add: same)
  then have "lanes_ok L t" using s by (simp add: inv_on_def lanes_ok_def same)
  moreover have "assignment_ok s a \<Longrightarrow> assignment_ok t a" for a
  proof -
    assume "assignment_ok s a"
    then obtain i where "i \<le> cc_highest s" "ea_stage_id a = st_id (stages_of s ! i)"
      "ea_snapshot_id a \<in> set (st_train (stages_of s ! i))" "ea_lane a < cc_lanes s" by (auto simp: assignment_ok_def)
    with le(1) st same(2) show ?thesis unfolding assignment_ok_def by (metis order_trans)
  qed
  then have "reserved_ok t" using s by (simp add: inv_on_def reserved_ok_def same)
  moreover have "lists_ok t" using s le st by (auto simp: inv_on_def lists_ok_def same intro: order_trans)
  moreover have "evidence_ok E t" using s by (simp add: inv_on_def evidence_ok_def same)
  moreover have "curriculum_made E (cc_spec t)" "0 < cc_lanes t" using s by (simp_all add: inv_on_def same)
  ultimately show ?thesis using g by (simp add: inv_on_def)
qed

lemma advance_next:
  assumes E: "hash_ok E" and s: "inv_on E L s"
  shows "wp (advance_update E) (\<lambda>_. next_on E L s) (\<lambda>_ t. t = s) s"
proof (cases "cc_pending s = None \<and> cc_phase s \<in> {Normal, Remediation, Activation}")
  case False
  then show ?thesis by (cases "cc_phase s") (simp_all add: advance_update_def wp_simps)
next
  case True
  define t where "t = s\<lparr>cc_completed := cc_completed s + 1\<rparr>"
  define u where "u = t\<lparr>cc_phase := BudgetValidation\<rparr>"
  have b: "0 < st_max_updates (stages_of s ! cc_highest s)"
    by (rule stage_facts(1) [OF s phase_facts(7) [OF s]])
  have g: "gate_ok s" using s by (simp add: inv_on_def)
  define closed where "closed \<longleftrightarrow> 0 \<le> cc_unlocks s ! cc_highest s \<and>
    st_max_updates (stages_of s ! cc_highest s) \<le> cc_completed s + 1 - cc_unlocks s ! cc_highest s"
  have un: "unlocks_ok t"
    using g by (auto simp: gate_ok_def unlocks_ok_def t_def Let_def list_all_iff)
  have "gate_ok t" if "\<not> closed"
  proof -
    have "phase_ok s" using g by (simp add: gate_ok_def)
    then have "phase_ok t" using that True b phase_facts(5,6) [OF s] unfolding phase_ok_def Let_def closed_def
      by (cases "cc_phase s") (simp_all add: t_def)
    with un g show ?thesis by (simp add: gate_ok_def t_def)
  qed
  moreover have "gate_ok u" if "closed"
  proof -
    have ph: "cc_phase s \<noteq> Activation" using g that by (auto simp: gate_ok_def unlocks_ok_def closed_def Let_def)
    have "unlocks_ok u" using un ph by (simp add: unlocks_ok_def u_def t_def Let_def)
    moreover have "phase_ok u" using g that True ph
      by (auto simp: gate_ok_def phase_ok_def closed_def u_def t_def Let_def)
    ultimately show ?thesis using g by (simp add: gate_ok_def u_def t_def)
  qed
  ultimately have inv: "\<not> closed \<Longrightarrow> inv_on E L t" "closed \<Longrightarrow> inv_on E L u"
    using True phase_facts(9) [OF s] by (auto intro!: gate_changeI [OF s] simp: t_def u_def)
  have nt: "next_on E L s t" if "\<not> closed"
    using inv(1) [OF that] by (simp add: next_on_def same_config_def place_def t_def)
  have nu: "next_on E L s u" if "closed"
  proof -
    have "cc_phase s \<noteq> Activation" using g that by (auto simp: gate_ok_def unlocks_ok_def closed_def Let_def)
    with True have "ladder (length (stages_of s)) (place s) (place u)"
      by (auto simp: place_def u_def t_def intro!: ladder.close_budget)
    then show ?thesis using inv(2) [OF that] by (intro cur_next_ladder) (simp_all add: same_config_def u_def t_def)
  qed
  show ?thesis
  proof (cases closed)
    case False
    with True nt show ?thesis by (auto simp: advance_update_def wp_simps closed_def t_def Let_def)
  next
    case c: True
    note e = cur_next_event [OF E nu [OF c], unfolded u_def t_def]
    from c True e show ?thesis
      by (auto simp: advance_update_def wp_simps wp_cur_event closed_def u_def t_def Let_def)
  qed
qed

section \<open>Requesting a validation\<close>

lemma expected_stages_made:
  assumes s: "inv_on E L s"
  obtains qs where "expected_stages s (cc_highest s) = Inr qs"
    "map vs_stage_id qs = map st_id (take (Suc (cc_highest s)) (stages_of s))"
proof -
  let ?st = "take (Suc (cc_highest s)) (stages_of s)"
  have one: "stage_request_of (cc_highest s) (i, stages_of s ! i) = Inr \<lparr>vs_stage_id = st_id (stages_of s ! i),
      vs_snapshot_ids = st_validation (stages_of s ! i), vs_episodes = (if i = cc_highest s
        then st_promotion_trials (stages_of s ! i) else st_regression_trials (stages_of s ! i))\<rparr>"
    if "i < length (stages_of s)" for i
    using stage_facts [OF s that]
    by (auto simp: stage_request_of_def mk_stage_request_def nonempty_str_def str_ok_def int_ok_def list_all_iff
        distinct_map inj_on_def comp_def)
  have "list_all2 (\<lambda>x y. stage_request_of (cc_highest s) x = Inr y) (zip [0..<length ?st] ?st)
      (map (\<lambda>(i, stage). \<lparr>vs_stage_id = st_id stage, vs_snapshot_ids = st_validation stage,
        vs_episodes = (if i = cc_highest s then st_promotion_trials stage else st_regression_trials stage)\<rparr>)
        (zip [0..<length ?st] ?st))"
    unfolding list_all2_conv_all_nth using one by simp
  then have r: "expected_stages s (cc_highest s) = Inr (map (\<lambda>(i, stage). \<lparr>vs_stage_id = st_id stage,
      vs_snapshot_ids = st_validation stage, vs_episodes = (if i = cc_highest s then st_promotion_trials stage
        else st_regression_trials stage)\<rparr>) (zip [0..<length ?st] ?st))"
    by (simp only: expected_stages_def Let_def rmap_Inr)
  show thesis
    by (rule that [OF r]) (simp add: list_eq_iff_nth_eq)
qed

lemma request_next:
  assumes E: "hash_ok E" and s: "inv_on E L s"
  shows "wp (request_validation E policy evaluator) (\<lambda>_. next_on E L s) (\<lambda>_ t. t = s) s"
proof (cases "cc_phase s \<in> {Normal, Remediation, BudgetValidation} \<and> cc_pending s = None \<and>
    is_sha256 policy \<and> is_sha256 evaluator \<and> the (plain_str policy) \<notin> cc_policies s")
  case False
  then show ?thesis
    by (cases "cc_phase s"; cases "cc_pending s = None"; cases "is_sha256 policy"; cases "is_sha256 evaluator")
      (simp_all add: request_validation_def wp_simps)
next
  case True
  obtain qs where qs: "expected_stages s (cc_highest s) = Inr qs"
    "map vs_stage_id qs = map st_id (take (Suc (cc_highest s)) (stages_of s))" using expected_stages_made [OF s] .
  have n: "0 \<le> cc_evaluations s" "0 \<le> cc_completed s" using s by (simp_all add: inv_on_def evidence_ok_def gate_ok_def)
  have cs: "curriculum_made E (cc_spec s)" using s by (simp add: inv_on_def)
  obtain p e where pe: "policy = PyStr p" "sha_text p" "evaluator = PyStr e" "sha_text e"
    using True by (auto simp: is_sha256_def split: option.splits elim!: plain_str.elims)
  have sh: "is_sha256 (PyStr (curriculum_sha256 E (cc_spec s)))"
    using E by (simp add: is_sha256_def curriculum_sha256_def hash_ok_def)
  have d: "distinct (map vs_stage_id qs)" "qs \<noteq> []"
    using qs(2) curriculum_made_facts(2) [OF cs] s phase_facts(7) [OF s]
    by (auto simp: take_map [symmetric] stages_of_def)
  let ?q = "\<lparr>vq_curriculum_sha256 = curriculum_sha256 E (cc_spec s), vq_gate_ordinal = cc_evaluations s,
    vq_completed_update = cc_completed s, vq_evaluation_seed = cs_evaluation_seed (cc_spec s),
    vq_policy_sha256 = p, vq_evaluator_sha256 = e, vq_stages = qs\<rparr>"
  have mk: "mk_validation_request (PyStr (curriculum_sha256 E (cc_spec s))) (PyInt (cc_evaluations s))
      (PyInt (cc_completed s)) (PyInt (cs_evaluation_seed (cc_spec s))) policy evaluator qs = Inr ?q"
    using n d sh True pe curriculum_made_facts(6) [OF cs] by (simp add: mk_validation_request_def int_ok_def)
  define t where "t = s\<lparr>cc_evaluations := cc_evaluations s + 1, cc_pending := Some ?q\<rparr>"
  have st: "stages_of t = stages_of s" by (simp add: t_def stages_of_def)
  have "check_active t = check_active s" by (rule check_active_cong) (simp_all add: t_def)
  moreover have "gate_ok t"
  proof -
    have "unlocks_ok t = unlocks_ok s" by (rule unlocks_ok_cong) (simp_all add: t_def)
    moreover have "phase_ok s" using s by (simp add: inv_on_def gate_ok_def)
    then have "phase_ok t" using True st unfolding phase_ok_def Let_def
      by (cases "cc_phase s") (simp_all add: t_def split: if_splits)
    ultimately show ?thesis using s st by (simp add: inv_on_def gate_ok_def t_def)
  qed
  moreover have "pending_ok E t ?q"
    using True n pe expected_stages_cong [OF st] qs(1) by (simp add: pending_ok_def t_def)
  ultimately have "inv_on E L t"
    using s by (auto simp: inv_on_def lists_ok_def evidence_ok_def lanes_ok_def reserved_ok_def
        assignment_ok_def stages_of_def t_def)
  then have "next_on E L s t" by (simp add: next_on_def same_config_def place_def t_def)
  note nt = this [unfolded t_def]
  have g: "(cc_phase s = Activation) = False" "(cc_phase s = Complete \<or> cc_phase s = BudgetExhausted) = False"
    "(cc_pending s \<noteq> None) = False" "(\<not> is_sha256 policy \<or> \<not> is_sha256 evaluator) = False"
    "(the (plain_str policy) \<in> cc_policies s) = False" using True by auto
  show ?thesis
    unfolding request_validation_def wp_simps g if_False qs(1) rbind_simps mk sum.case by (rule nt)
qed

section \<open>Validation gates\<close>

lemma wp_make_decision: "wp (make_decision promoted remediation reason) (\<lambda>_. Q) R = Q"
  by (simp add: make_decision_def wp_simps)

lemma wp_report_event:
  "wp (report_event E kind p i) (\<lambda>_. Q) R s \<longleftrightarrow> Q (s\<lparr>cc_event_head := ce_digest E (JObj
     [(''previous'', JStr (cc_event_head s)), (''kind'', JStr kind),
      (''completed_updates'', JInt (cc_completed s)), (''payload'', JObj
        [(''stage'', JStr (st_id (stages_of s ! i s))), (''report'', JStr (report_sha256 E p))])])\<rparr>)"
  by (simp add: report_event_def wp_simps wp_cur_event)

lemmas gate_wp = wp_simps wp_make_decision wp_report_event wp_cur_event

text \<open>The states a gate is decided in, and those it moves to.\<close>

definition open_gate :: "cur_env \<Rightarrow> nat set \<Rightarrow> bool \<Rightarrow> coordinator \<Rightarrow> bool" where
  "open_gate E L closing s \<longleftrightarrow> inv_on E L s \<and> cc_pending s = None \<and> cc_focus s = cc_highest s \<and>
     cc_phase s = (if closing then BudgetValidation else Normal)"

lemma open_gate_facts:
  assumes "open_gate E L closing s"
  shows "inv_on E L s" "cc_pending s = None" "gate_ok s" "cc_highest s < length (stages_of s)"
    "cc_focus s = cc_highest s" "length (cc_unlocks s) = length (stages_of s)"
    "0 \<le> cc_unlocks s ! cc_highest s" "cc_unlocks s ! cc_highest s \<le> cc_completed s"
  using assms phase_facts(6) [of E L s] by (auto simp: open_gate_def inv_on_def gate_ok_def lists_ok_def)

lemma gate_nextI:
  assumes s: "inv_on E L s" "cc_pending s = None"
    and t: "t = s\<lparr>cc_highest := cc_highest t, cc_focus := cc_focus t, cc_phase := cc_phase t,
      cc_unlocks := cc_unlocks t, cc_streak := cc_streak t, cc_completed := cc_completed t\<rparr>"
    and le: "cc_highest s \<le> cc_highest t" "length (cc_unlocks t) = length (stages_of s)" and g: "gate_ok t"
    and l: "(ladder (length (stages_of s)))\<^sup>*\<^sup>* (place s) (place t)"
  shows "next_on E L s t"
proof -
  have "same_config s t" unfolding same_config_def by (subst (1 2 3) t) simp
  with gate_changeI [OF s t le g] l show ?thesis by (simp add: next_on_def)
qed

lemma gate_ok_streak: "gate_ok s \<Longrightarrow> 0 \<le> k \<Longrightarrow> gate_ok (s\<lparr>cc_streak := k\<rparr>)"
proof -
  have "unlocks_ok (s\<lparr>cc_streak := k\<rparr>) = unlocks_ok s" by (rule unlocks_ok_cong) simp_all
  moreover have "phase_ok (s\<lparr>cc_streak := k\<rparr>) = phase_ok s" unfolding phase_ok_def by simp
  ultimately show "gate_ok s \<Longrightarrow> 0 \<le> k \<Longrightarrow> gate_ok (s\<lparr>cc_streak := k\<rparr>)" by (simp add: gate_ok_def)
qed

lemma streak_next:
  assumes "inv_on E L s" "cc_pending s = None" "0 \<le> k"
  shows "next_on E L s (s\<lparr>cc_streak := k\<rparr>)"
  by (rule gate_nextI [OF assms(1,2)])
    (use assms in \<open>simp_all add: gate_ok_streak inv_on_def lists_ok_def place_def\<close>)

lemma open_streak: "open_gate E L closing s \<Longrightarrow> 0 \<le> k \<Longrightarrow> open_gate E L closing (s\<lparr>cc_streak := k\<rparr>)"
  using streak_next [of E L s k] by (simp add: open_gate_def next_on_def)

text \<open>A closed budget.\<close>

lemma gate_ok_exhausted:
  assumes "gate_ok s" "cc_pending s = None" "cc_phase s = BudgetValidation" "0 \<le> k"
  shows "gate_ok (s\<lparr>cc_phase := BudgetExhausted, cc_streak := k\<rparr>)"
  using assms unfolding gate_ok_def unlocks_ok_def phase_ok_def Let_def by (simp split: if_splits)

lemma exhausted_next:
  assumes "inv_on E L s" "cc_pending s = None" "cc_phase s = BudgetValidation" "0 \<le> k"
  shows "next_on E L s (s\<lparr>cc_phase := BudgetExhausted, cc_streak := k\<rparr>)"
proof -
  have "gate_ok s" using assms(1) by (simp add: inv_on_def)
  then have "gate_ok (s\<lparr>cc_phase := BudgetExhausted, cc_streak := k\<rparr>)" using assms by (intro gate_ok_exhausted)
  then show ?thesis
    by (intro gate_nextI [OF assms(1,2)])
      (use assms ladder.exhausted in \<open>auto simp: place_def phase_facts(9) [OF assms(1)]\<close>)
qed

lemma exhaust_next:
  assumes E: "hash_ok E" and s: "inv_on E L s" "cc_pending s = None" "cc_phase s = BudgetValidation"
  shows "wp (exhaust E p) (\<lambda>_. next_on E L s) R s"
proof -
  have "0 \<le> cc_streak s" using s(1) by (simp add: inv_on_def gate_ok_def)
  from cur_next_event [OF E exhausted_next [OF s this]] show ?thesis by (simp add: exhaust_def gate_wp)
qed

text \<open>The last stage.\<close>

lemma complete_next:
  assumes s: "open_gate E L closing s" and n: "Suc (cc_highest s) = length (stages_of s)"
  shows "next_on E L s (s\<lparr>cc_phase := Complete\<rparr>)"
proof (rule gate_nextI)
  note f = open_gate_facts [OF s]
  show "inv_on E L s" "cc_pending s = None" by (fact f)+
  show "gate_ok (s\<lparr>cc_phase := Complete\<rparr>)"
    using f n unfolding gate_ok_def unlocks_ok_def phase_ok_def Let_def by simp
  show "(ladder (length (stages_of s)))\<^sup>*\<^sup>* (place s) (place (s\<lparr>cc_phase := Complete\<rparr>))"
    using s n ladder.completed by (intro r_into_rtranclp) (auto simp: open_gate_def place_def)
qed (use open_gate_facts [OF s] in simp_all)

lemma scheduled_ok:
  assumes "open_gate E L closing s"
  shows "\<exists>w. weight_ppm (st_schedule (stages_of s ! cc_highest s)) (cc_completed s - cc_unlocks s ! cc_highest s) = Inr w"
proof -
  note f = open_gate_facts [OF assms]
  have "curriculum_made E (cc_spec s)" using f(1) by (simp add: inv_on_def)
  from stage_made_facts(9) [OF curriculum_made_facts(3) [OF this stage_in [OF f(4)]]]
  have "schedule_made (st_schedule (stages_of s ! cc_highest s))" .
  from weight_ppm_ok [OF this, of "cc_completed s - cc_unlocks s ! cc_highest s"] f(8) show ?thesis by auto
qed

lemma exhaust_when_closing:
  assumes "hash_ok E" "open_gate E L closing s" "next_on E L r s"
  shows "wp (pwhen closing (exhaust E p)) (\<lambda>_. next_on E L r) R s"
proof (cases closing)
  case True
  with assms(2) have s: "inv_on E L s" "cc_pending s = None" "cc_phase s = BudgetValidation" by (simp_all add: open_gate_def)
  have "wp (exhaust E p) (\<lambda>_. next_on E L r) R s"
    by (rule wp_mono [OF exhaust_next [OF assms(1) s, where R = R]]) (auto intro: cur_next_trans [OF assms(3)])
  with True show ?thesis by (simp add: gate_wp)
next
  case False
  with assms(3) show ?thesis by (simp add: gate_wp)
qed

lemma final_next:
  assumes E: "hash_ok E" and s: "open_gate E L closing s" and n: "Suc (cc_highest s) = length (stages_of s)"
    and r: "next_on E L r s"
  shows "wp (final_gate E p closing) (\<lambda>_. next_on E L r) R s"
proof -
  obtain w where w: "weight_ppm (st_schedule (stages_of s ! cc_highest s))
      (cc_completed s - cc_unlocks s ! cc_highest s) = Inr w" using scheduled_ok [OF s] by blast
  have c: "next_on E L r (s\<lparr>cc_phase := Complete, cc_event_head := ce_digest E v\<rparr>)" for v
    using cur_next_event [OF E cur_next_trans [OF r complete_next [OF s n]]] by simp
  show ?thesis
    unfolding final_gate_def wp_pbind wp_pget w wp_plift sum.case wp_if wp_make_decision wp_pmod wp_report_event
    by (simp add: c exhaust_when_closing [OF E s r])
qed

text \<open>A promotion.\<close>

lemma promoted_next:
  assumes s: "open_gate E L closing s" and n: "Suc (cc_highest s) < length (stages_of s)"
  shows "next_on E L s (s\<lparr>cc_highest := Suc (cc_highest s), cc_focus := Suc (cc_highest s),
    cc_phase := Activation, cc_unlocks := (cc_unlocks s)[Suc (cc_highest s) := - 1]\<rparr>)" (is "next_on E L s ?t")
proof (rule gate_nextI)
  note f = open_gate_facts [OF s]
  show "inv_on E L s" "cc_pending s = None" by (fact f)+
  have l: "Suc (cc_highest s) < length (cc_unlocks s)" using n f(6) by simp
  have ph: "cc_phase s \<noteq> Activation" using s by (simp add: open_gate_def split: if_splits)
  have u: "unlocks_ok s" using f(3) by (simp add: gate_ok_def)
  have "set (drop (Suc (Suc (cc_highest s))) (cc_unlocks s)) \<subseteq> set (drop (Suc (cc_highest s)) (cc_unlocks s))"
    by (rule set_drop_subset_set_drop) simp
  then have "unlocks_ok ?t"
    using u l ph f(7,8) by (auto simp: unlocks_ok_def Let_def take_Suc_conv_app_nth list_all_iff)
  moreover have "phase_ok ?t" using l f(2) by (simp add: phase_ok_def Let_def)
  ultimately show "gate_ok ?t" using f n by (simp add: gate_ok_def)
  show "(ladder (length (stages_of s)))\<^sup>*\<^sup>* (place s) (place ?t)"
    using s n ladder.promoted by (intro r_into_rtranclp) (auto simp: open_gate_def place_def)
qed (use open_gate_facts [OF s] in simp_all)

lemma promote_next:
  assumes E: "hash_ok E" and s: "open_gate E L closing s" and n: "Suc (cc_highest s) < length (stages_of s)"
    and r: "next_on E L r s"
  shows "wp (promote E p) (\<lambda>_. next_on E L r) R s"
  using cur_next_event [OF E cur_next_trans [OF r promoted_next [OF s n]]]
  by (simp add: promote_def gate_wp Let_def)

lemma promotion_gate_next:
  assumes E: "hash_ok E" and s: "open_gate E L closing s" and r: "next_on E L r s"
  shows "wp (promotion_gate E p closing) (\<lambda>_. next_on E L r) R s"
proof -
  let ?st = "stages_of s ! cc_highest s"
  let ?k = "if gate_passes (result_for p (st_id ?st)) (st_promotion_successes ?st) (st_promotion_trials ?st)
    then cc_streak s + 1 else 0"
  note f = open_gate_facts [OF s]
  have k: "0 \<le> ?k" using f(3) by (simp add: gate_ok_def)
  have t: "open_gate E L closing (s\<lparr>cc_streak := ?k\<rparr>)" "next_on E L r (s\<lparr>cc_streak := ?k\<rparr>)"
    using open_streak [OF s k] cur_next_trans [OF r streak_next [OF f(1,2) k]] by simp_all
  have u: "open_gate E L closing (s\<lparr>cc_streak := 0\<rparr>)" "next_on E L r (s\<lparr>cc_streak := 0\<rparr>)"
    using open_streak [OF s, of 0] cur_next_trans [OF r streak_next [OF f(1,2), of 0]] by simp_all
  have fin: "wp (if Suc (cc_highest s) = length (stages_of s) then final_gate E p closing else promote E p)
      (\<lambda>_. next_on E L r) R (s\<lparr>cc_streak := 0\<rparr>)"
    using f(4) final_next [OF E u(1) _ u(2), of p R] promote_next [OF E u(1) _ u(2), of p R] by simp
  show ?thesis
    unfolding promotion_gate_def Let_def wp_pbind wp_pget wp_pmod
    using fin exhaust_when_closing [OF E t, of p R]
    by (simp add: wp_if wp_pbind wp_pget wp_pmod wp_make_decision stages_of_def del: if_split cong: if_cong)
qed

text \<open>The regression floors and the remediation.\<close>

lemma remediation_next:
  assumes s: "inv_on E L s" "cc_pending s = None" "cc_phase s = Normal \<or> cc_phase s = Remediation" and i: "i < cc_highest s"
  shows "next_on E L s (s\<lparr>cc_phase := Remediation, cc_focus := i, cc_streak := 0\<rparr>)" (is "next_on E L s ?t")
proof (rule gate_nextI [OF s(1,2)])
  have g: "gate_ok s" using s(1) by (simp add: inv_on_def)
  have "unlocks_ok ?t = unlocks_ok s" using s(3) by (intro unlocks_ok_cong) auto
  moreover have "phase_ok s" using g by (simp add: gate_ok_def)
  then have "phase_ok ?t" using s(3) unfolding phase_ok_def Let_def
    by (cases "cc_phase s") (simp_all split: if_splits)
  ultimately show "gate_ok ?t" using g i by (simp add: gate_ok_def)
  show "(ladder (length (stages_of s)))\<^sup>*\<^sup>* (place s) (place ?t)"
    using s(3) i ladder.regress [of "cc_highest s"] by (auto simp: place_def)
qed (use phase_facts(9) [OF s(1)] in simp_all)

definition gate_open :: "bool \<Rightarrow> coordinator \<Rightarrow> bool" where
  "gate_open closing s \<longleftrightarrow> cc_pending s = None \<and> (if closing then cc_phase s = BudgetValidation
     else cc_phase s = Normal \<or> cc_phase s = Remediation)"

lemma floor_failed_next:
  assumes E: "hash_ok E" and s: "inv_on E L s" "gate_open closing s" and i: "i < cc_highest s"
  shows "wp (floor_failed E p closing i) (\<lambda>_. next_on E L s) R s"
proof (cases closing)
  case True
  with s have "next_on E L s (s\<lparr>cc_phase := BudgetExhausted, cc_streak := 0\<rparr>)"
    by (intro exhausted_next) (simp_all add: gate_open_def)
  from cur_next_event [OF E this] True show ?thesis by (simp add: floor_failed_def gate_wp)
next
  case False
  with s i have "next_on E L s (s\<lparr>cc_phase := Remediation, cc_focus := i, cc_streak := 0\<rparr>)"
    by (intro remediation_next) (simp_all add: gate_open_def)
  from cur_next_event [OF E this] False show ?thesis by (simp add: floor_failed_def gate_wp)
qed

lemma cleared_next:
  assumes s: "inv_on E L s" "gate_open closing s"
  defines "t \<equiv> s\<lparr>cc_phase := (if closing then BudgetValidation else Normal), cc_focus := cc_highest s\<rparr>"
  shows "next_on E L s t \<and> open_gate E L closing t"
proof -
  have g: "gate_ok s" "cc_pending s = None" using s by (simp_all add: inv_on_def gate_open_def)
  have "unlocks_ok t = unlocks_ok s"
    using s(2) unfolding t_def by (intro unlocks_ok_cong) (auto simp: gate_open_def split: if_splits)
  moreover have "phase_ok t" using g s(2) unfolding gate_ok_def phase_ok_def Let_def gate_open_def t_def
    by (auto split: if_splits)
  ultimately have "gate_ok t" using g by (simp add: gate_ok_def t_def)
  moreover have "(ladder (length (stages_of s)))\<^sup>*\<^sup>* (place s) (place t)"
    using s(2) ladder.recover [of "length (stages_of s)" "cc_highest s"]
    by (auto simp: gate_open_def place_def t_def split: if_splits)
  ultimately have "next_on E L s t"
    by (intro gate_nextI [OF s(1) g(2)]) (use phase_facts(9) [OF s(1)] in \<open>simp_all add: t_def\<close>)
  then show ?thesis using g(2) by (simp add: next_on_def open_gate_def t_def)
qed

lemma open_gate_event:
  "hash_ok E \<Longrightarrow> open_gate E L closing s \<Longrightarrow> open_gate E L closing (s\<lparr>cc_event_head := ce_digest E v\<rparr>)"
  by (simp add: open_gate_def)

lemma clear_next:
  assumes E: "hash_ok E" and s: "inv_on E L s" "gate_open closing s"
  shows "wp (clear_remediation E p closing) (\<lambda>_ t. next_on E L s t \<and> open_gate E L closing t) R s"
proof -
  note c = cleared_next [OF s]
  have e: "next_on E L s (s\<lparr>cc_phase := (if closing then BudgetValidation else Normal), cc_focus := cc_highest s,
      cc_event_head := ce_digest E v\<rparr>) \<and> open_gate E L closing (s\<lparr>cc_phase := (if closing then BudgetValidation
      else Normal), cc_focus := cc_highest s, cc_event_head := ce_digest E v\<rparr>)" for v
    using c cur_next_event [OF E] open_gate_event [OF E] by simp
  show ?thesis
  proof (cases "cc_phase s = Remediation")
    case True
    with s(2) e show ?thesis by (auto simp: clear_remediation_def gate_wp Let_def gate_open_def split: if_splits)
  next
    case False
    show ?thesis
    proof (cases "closing \<and> cc_focus s \<noteq> cc_highest s")
      case True
      with False s(2) have ph: "s\<lparr>cc_phase := (if closing then BudgetValidation else Normal)\<rparr> = s"
        by (simp add: gate_open_def)
      have "s\<lparr>cc_focus := cc_highest s, cc_event_head := h\<rparr> = s\<lparr>cc_phase := (if closing then BudgetValidation
          else Normal), cc_focus := cc_highest s, cc_event_head := h\<rparr>" for h
        by (subst ph) simp
      with e True False show ?thesis by (simp add: clear_remediation_def gate_wp Let_def)
    next
      case f: False
      with False s have "open_gate E L closing s"
        using phase_facts(4) [OF s(1)] by (auto simp: gate_open_def open_gate_def split: if_splits)
      moreover have "(closing \<and> cc_focus s \<noteq> cc_highest s) = False" using f by simp
      ultimately show ?thesis using False cur_next_refl [OF s(1)]
        by (simp only: clear_remediation_def gate_wp Let_def if_False simp_thms)
    qed
  qed
qed

lemma decide_next:
  assumes E: "hash_ok E" and s: "inv_on E L s" "gate_open closing s"
  shows "wp (decide_gate E p closing) (\<lambda>_. next_on E L s) R s"
proof (cases "failing_prior p s")
  case None
  have "wp (clear_remediation E p closing) (\<lambda>_. wp (promotion_gate E p closing) (\<lambda>_. next_on E L s) R) R s"
    by (rule wp_mono [OF clear_next [OF E s, where R = R]]) (auto intro: promotion_gate_next [OF E])
  with None show ?thesis by (simp add: decide_gate_def wp_simps)
next
  case (Some i)
  then have "i < cc_highest s" by (auto simp: failing_prior_def find_Some_iff)
  with Some floor_failed_next [OF E s] show ?thesis by (simp add: decide_gate_def wp_simps)
qed

lemma record_next:
  assumes E: "hash_ok E" and s: "inv_on E L s"
  shows "wp (record_validation E p) (\<lambda>_. next_on E L s) (\<lambda>_ t. t = s) s"
proof (cases "map_of (cc_reports s) (vp_request_id p) = None \<and> cc_phase s \<noteq> BudgetExhausted \<and>
    check_report E p s = Inr ()")
  case False
  then show ?thesis
    using s by (auto simp: record_validation_def gate_wp cur_next_refl split: option.split sum.split)
next
  case True
  define t where "t = s\<lparr>cc_reports := cc_reports s @ [(vp_request_id p, report_sha256 E p)],
    cc_policies := insert (vp_policy_sha256 p) (cc_policies s), cc_pending := None\<rparr>"
  obtain q where q: "cc_pending s = Some q" "vp_policy_sha256 p = vq_policy_sha256 q"
    using True by (auto simp: check_report_def split: option.splits if_splits)
  have sha: "sha_text (vp_policy_sha256 p)" "sha_text (report_sha256 E p)"
    using s q E by (simp_all add: inv_on_def evidence_ok_def pending_ok_def report_sha256_def hash_ok_def)
  have st: "stages_of t = stages_of s" by (simp add: t_def stages_of_def)
  have "unlocks_ok t = unlocks_ok s" by (rule unlocks_ok_cong) (simp_all add: t_def)
  moreover have "phase_ok s" using s by (simp add: inv_on_def gate_ok_def)
  then have "phase_ok t" using st unfolding phase_ok_def Let_def
    by (cases "cc_phase s") (simp_all add: t_def split: if_splits)
  ultimately have "gate_ok t" using s st by (simp add: inv_on_def gate_ok_def t_def)
  moreover have "check_active t = check_active s" by (rule check_active_cong) (simp_all add: t_def)
  ultimately have inv: "inv_on E L t"
    using s sha st by (auto simp: inv_on_def lists_ok_def evidence_ok_def lanes_ok_def reserved_ok_def
        assignment_ok_def t_def)
  then have n: "next_on E L s t" by (simp add: next_on_def same_config_def place_def t_def)
  have "cc_phase s = Normal \<or> cc_phase s = Remediation \<or> cc_phase s = BudgetValidation"
    using phase_facts(1-3) [OF s] q(1) by (cases "cc_phase s") auto
  then have "gate_open (cc_phase s = BudgetValidation) t" by (auto simp: gate_open_def t_def)
  from decide_next [OF E inv this, of p]
  have "wp (decide_gate E p (cc_phase s = BudgetValidation)) (\<lambda>_. next_on E L s) (\<lambda>_ t. t = s) t"
    by (rule wp_mono) (auto intro: cur_next_trans [OF n])
  with True show ?thesis unfolding t_def by (simp add: record_validation_def wp_simps)
qed

end
