(* ===== verification/Curriculum_Runs.thy ===== *)
theory Curriculum_Runs
  imports Curriculum_Gates
begin

text \<open>
  The remaining operations, construction and loading, and the coordinator as a transition
  system: one labelled step per call, runs of steps, and the two invariants of the runs.
\<close>

section \<open>Episodes without snapshots\<close>

lemma stage_weight_cong: "cc_unlocks t = cc_unlocks s \<Longrightarrow> cc_completed t = cc_completed s \<Longrightarrow>
    cc_spec t = cc_spec s \<Longrightarrow> stage_weight t i = stage_weight s i"
  by (simp add: stage_weight_def stages_of_def Let_def)

lemma lane_to_focus:
  assumes s: "inv_on E L s" and lane: "lane < cc_lanes s" "lane \<in> L \<Longrightarrow> cc_ordinals s ! lane = 0"
    and w: "0 \<le> w" "w \<le> 1000000"
  shows "inv_on E L (s\<lparr>cc_lane_stage := (cc_lane_stage s)[lane := cc_focus s], cc_lane_weight := (cc_lane_weight s)[lane := w]\<rparr>)"
    (is "inv_on E L ?t")
proof -
  have st: "stages_of ?t = stages_of s" by simp
  have "check_active ?t l = Inr ()" if "l < cc_lanes s" "l \<in> L" for l
  proof (cases "l = lane")
    case True
    have "check_active s lane = Inr ()" using s lane(1) that True by (simp add: inv_on_def lanes_ok_def)
    with True lane(2) that show ?thesis by (simp add: check_active_def Let_def)
  next
    case False
    then have "check_active ?t l = check_active s l"
      by (simp add: check_active_def stages_of_def Let_def cong: sum.case_cong)
    with that s show ?thesis by (simp add: inv_on_def lanes_ok_def)
  qed
  then have "lanes_ok L ?t" by (simp add: lanes_ok_def)
  moreover have "gate_ok ?t = gate_ok s" by (rule gate_ok_cong) simp_all
  moreover have "pending_ok E ?t q = pending_ok E s q" for q
    using expected_stages_cong [OF st] by (simp add: pending_ok_def)
  moreover have "lists_ok ?t" using s w phase_facts(8) [OF s]
    by (auto simp: inv_on_def lists_ok_def dest!: set_update_subset_insert [THEN subsetD])
  ultimately show ?thesis using s
    by (auto simp: inv_on_def evidence_ok_def reserved_ok_def assignment_ok_def)
qed

lemma activate_lanes_next:
  assumes "inv_on E L s" "\<forall>l \<in> set lanes. l < cc_lanes s \<and> (l \<in> L \<longrightarrow> cc_ordinals s ! l = 0)"
  shows "wp (activate_lanes lanes) (\<lambda>_. next_on E L s) (\<lambda>_ _. False) s"
  using assms
proof (induction lanes arbitrary: s)
  case Nil
  then show ?case by (simp add: wp_simps cur_next_refl)
next
  case (Cons l lanes)
  obtain w where w: "stage_weight s (cc_focus s) = Inr w" "0 \<le> w" "w \<le> 1000000"
    using stage_weight_ok [OF Cons.prems(1), of "cc_focus s"] phase_facts(7,8) [OF Cons.prems(1)] by auto
  define t where "t = s\<lparr>cc_lane_stage := (cc_lane_stage s)[l := cc_focus s], cc_lane_weight := (cc_lane_weight s)[l := w]\<rparr>"
  have t: "inv_on E L t" unfolding t_def using Cons.prems w by (intro lane_to_focus) simp_all
  then have n: "next_on E L s t" by (simp add: next_on_def same_config_def place_def t_def)
  have "\<forall>k \<in> set lanes. k < cc_lanes t \<and> (k \<in> L \<longrightarrow> cc_ordinals t ! k = 0)" using Cons.prems(2) by (simp add: t_def)
  from Cons.IH [OF t this] have "wp (activate_lanes lanes) (\<lambda>_. next_on E L s) (\<lambda>_ _. False) t"
    by (rule wp_mono) (auto intro: cur_next_trans [OF n])
  moreover have "stage_weight (s\<lparr>cc_lane_stage := ls\<rparr>) (cc_focus s) = Inr w" for ls
    using w(1) stage_weight_cong [of "s\<lparr>cc_lane_stage := ls\<rparr>" s] by simp
  ultimately show ?case by (simp add: wp_simps t_def)
qed

lemma activate_next:
  assumes E: "hash_ok E" and s: "inv_on E L s"
    and fresh: "\<forall>bs i. reset = Some bs \<and> i < length bs \<and> bs ! i \<and> i \<in> L \<longrightarrow> cc_ordinals s ! i = 0"
  shows "wp (activate_focus E reset) (\<lambda>_. next_on E L s) (\<lambda>_ t. t = s) s"
proof (cases "\<exists>bs. reset = Some bs \<and> length bs = cc_lanes s")
  case False
  then show ?thesis by (auto simp: activate_focus_def wp_simps split: option.split)
next
  case True
  then obtain bs where bs: "reset = Some bs" "length bs = cc_lanes s" by blast
  with fresh have l: "\<forall>l \<in> set (filter (\<lambda>i. bs ! i) [0..<cc_lanes s]). l < cc_lanes s \<and> (l \<in> L \<longrightarrow> cc_ordinals s ! l = 0)" by auto
  have c: "wp (complete_activation E) (\<lambda>_. next_on E L s) (\<lambda>_ t. t = s) t" if "next_on E L s t" for t
  proof -
    have t: "inv_on E L t" using that by (simp add: next_on_def)
    show ?thesis by (rule wp_mono [OF activation_next [OF E t]]) (auto intro: cur_next_trans [OF that])
  qed
  have "wp (activate_lanes (filter (\<lambda>i. bs ! i) [0..<cc_lanes s]))
      (\<lambda>_. wp (complete_activation E) (\<lambda>_. next_on E L s) (\<lambda>_ t. t = s)) (\<lambda>_ t. t = s) s"
    by (rule wp_mono [OF activate_lanes_next [OF s l]]) (auto intro: c)
  with bs show ?thesis by (simp add: activate_focus_def wp_simps)
qed

section \<open>Construction and loading\<close>

lemma init_inv:
  assumes E: "curriculum_made E c" and i: "coordinator_init c lanes seed = Inr s"
  shows "inv_on E L s \<and> cc_spec s = c \<and> place s = (0, Normal)"
proof -
  obtain w where w: "weight_ppm (st_schedule (cs_stages c ! 0)) 0 = Inr w"
    and s: "s = \<lparr>cc_spec = c, cc_lanes = nat (the (plain_int lanes)), cc_learner_seed = the (plain_int seed), cc_highest = 0,
        cc_focus = 0, cc_phase = Normal, cc_completed = 0,
        cc_unlocks = 0 # replicate (length (cs_stages c) - 1) (- 1), cc_streak = 0,
        cc_lane_stage = replicate (nat (the (plain_int lanes))) 0, cc_lane_snapshot = replicate (nat (the (plain_int lanes))) [],
        cc_lane_weight = replicate (nat (the (plain_int lanes))) w,
        cc_ordinals = replicate (nat (the (plain_int lanes))) 0, cc_outstanding = None, cc_reports = [], cc_policies = {},
        cc_evaluations = 0, cc_pending = None, cc_event_head = ZERO_SHA256\<rparr>"
    and n: "int_ok (\<lambda>n. 0 < n) lanes"
    using i by (auto simp: coordinator_init_def rbind_Inr Let_def split: if_splits)
  have ne: "0 < length (cs_stages c)" using curriculum_made_facts(1) [OF E] by simp
  have z: "cs_stages c ! 0 \<in> set (cs_stages c)" using ne by (rule nth_mem)
  note sm = curriculum_made_facts(3) [OF E z]
  have w0: "0 \<le> w" "w \<le> 1000000" using weight_ppm_ok [OF stage_made_facts(9) [OF sm], of 0] w by auto
  have st: "stages_of s = cs_stages c" by (simp add: s stages_of_def)
  have k: "0 < cc_lanes s" using n by (auto simp: s int_ok_def split: option.splits)
  have "lists_ok s" using ne w0 by (simp add: lists_ok_def s stages_of_def)
  moreover have "unlocks_ok s" by (simp add: unlocks_ok_def s Let_def list_all_iff)
  moreover have "phase_ok s" using stage_made_facts(8) [OF sm] unfolding phase_ok_def st by (simp add: s Let_def)
  moreover have "cc_highest s < length (stages_of s)" "cc_focus s \<le> cc_highest s" "0 \<le> cc_completed s" "0 \<le> cc_streak s"
    using ne unfolding st by (simp_all add: s)
  ultimately have "lists_ok s \<and> gate_ok s" by (simp add: gate_ok_def)
  moreover have "evidence_ok E s" by (simp add: evidence_ok_def s ZERO_SHA256_def sha_text_def list_all_iff hex_lower_def)
  moreover have "lanes_ok L s" by (simp add: lanes_ok_def check_active_def s)
  moreover have "reserved_ok s" by (simp add: reserved_ok_def s)
  ultimately show ?thesis using E k by (simp add: inv_on_def s place_def)
qed

lemma those_all2: "those xs = Some ys \<longleftrightarrow> list_all2 (\<lambda>x y. x = Some y) xs ys"
  by (induction xs arbitrary: ys) (auto split: option.split simp: list_all2_Cons1)

lemma those_length: "those xs = Some ys \<Longrightarrow> length ys = length xs"
  by (simp add: those_all2 list_all2_lengthD)

lemma those_all: "those (map f xs) = Some ys \<Longrightarrow> (\<And>x y. f x = Some y \<Longrightarrow> P y) \<Longrightarrow> \<forall>y \<in> set ys. P y"
  by (induction xs arbitrary: ys) (auto split: option.splits)

lemma json_sha_ok: "json_sha v = Some h \<Longrightarrow> sha_text h"
  by (auto simp: json_sha_def split: jval.splits if_splits)

lemma report_table_ok: "report_table v = Some rt \<Longrightarrow> \<forall>(k, h) \<in> set rt. sha_text h"
  unfolding report_table_def
  by (auto simp: bind_eq_Some_conv dest!: those_all [where P = "\<lambda>(k, h). sha_text h"] split: prod.splits intro: json_sha_ok)

text \<open>What a parsed state satisfies.\<close>

lemma parse_state_ok:
  assumes "parse_state s g = Inr t"
  shows "cc_spec t = cc_spec s" "cc_lanes t = cc_lanes s" "cc_learner_seed t = cc_learner_seed s"
    "lists_ok t" "cc_highest t < length (stages_of t)" "cc_focus t \<le> cc_highest t" "0 \<le> cc_completed t"
    "0 \<le> cc_streak t" "sha_text (cc_event_head t)" "\<forall>(k, h) \<in> set (cc_reports t). sha_text h" "finite (cc_policies t)"
    "\<forall>p \<in> cc_policies t. sha_text p" "0 \<le> cc_evaluations t" "cc_outstanding t = None" "cc_pending t = cc_pending s"
proof -
  have raw: "\<And>u. parse_state s g = Inr u \<Longrightarrow> cc_spec u = cc_spec s \<and> cc_lanes u = cc_lanes s \<and> cc_learner_seed u = cc_learner_seed s \<and>
      cc_outstanding u = None \<and> cc_pending u = cc_pending s \<and> cc_highest u < length (stages_of s) \<and>
      cc_focus u \<le> cc_highest u \<and> 0 \<le> cc_completed u \<and> 0 \<le> cc_streak u \<and> 0 \<le> cc_evaluations u \<and>
      length (cc_unlocks u) = length (stages_of s) \<and> length (cc_lane_stage u) = cc_lanes s \<and>
      length (cc_lane_snapshot u) = cc_lanes s \<and> length (cc_lane_weight u) = cc_lanes s \<and>
      length (cc_ordinals u) = cc_lanes s \<and> (\<forall>n \<in> set (cc_ordinals u). 0 \<le> n) \<and>
      (\<forall>i \<in> set (cc_lane_stage u). i \<le> cc_highest u) \<and>
      (\<forall>w \<in> set (cc_lane_weight u). 0 \<le> w \<and> w \<le> 1000000) \<and>
      json_sha (g ''event_head'') = Some (cc_event_head u) \<and>
      report_table (g ''submitted_reports'') = Some (cc_reports u) \<and>
      (\<exists>vs ps. those (map json_sha vs) = Some ps \<and> cc_policies u = set ps)"
    unfolding parse_state_def
    by (simp split: option.split_asm if_split_asm prod.split_asm) (clarify, auto simp: list_all_iff nat_less_iff nat_mono)
  note raw = raw [OF assms]
  then have st: "stages_of t = stages_of s" by (simp add: stages_of_def)
  obtain vs ps where ps: "those (map json_sha vs) = Some ps" "cc_policies t = set ps" using raw by blast
  show "cc_spec t = cc_spec s" "cc_lanes t = cc_lanes s" "cc_learner_seed t = cc_learner_seed s"
    "cc_outstanding t = None" "cc_pending t = cc_pending s" using raw by simp_all
  show "lists_ok t" using raw st by (simp add: lists_ok_def)
  show "cc_highest t < length (stages_of t)" "cc_focus t \<le> cc_highest t" "0 \<le> cc_completed t"
    "0 \<le> cc_streak t" "0 \<le> cc_evaluations t" using raw st by simp_all
  show "finite (cc_policies t)" by (simp add: ps)
  show "sha_text (cc_event_head t)" "\<forall>(k, h) \<in> set (cc_reports t). sha_text h"
    using raw json_sha_ok report_table_ok by blast+
  show "\<forall>p \<in> cc_policies t. sha_text p" using those_all [OF ps(1), of sha_text] json_sha_ok ps(2) by auto
qed

lemma parse_pending_ok:
  assumes "parse_pending E t v = Inr (Some q)"
  shows "vq_curriculum_sha256 q = curriculum_sha256 E (cc_spec t)" "vq_evaluation_seed q = cs_evaluation_seed (cc_spec t)"
    "vq_gate_ordinal q + 1 = cc_evaluations t" "0 \<le> vq_gate_ordinal q" "vq_completed_update q = cc_completed t"
    "sha_text (vq_policy_sha256 q)" "vq_policy_sha256 q \<notin> cc_policies t" "sha_text (vq_evaluator_sha256 q)"
    "expected_stages t (cc_highest t) = Inr (vq_stages q)"
proof -
  obtain d where d: "request_from_manifest d = Inr q" using assms
    by (auto simp: parse_pending_def rbind_Inr split: jval.splits if_splits)
  then have "\<exists>p e. plain_str p = Some (vq_policy_sha256 q) \<and> is_sha256 p \<and> plain_str e = Some (vq_evaluator_sha256 q) \<and>
      is_sha256 e \<and> 0 \<le> vq_gate_ordinal q"
    by (auto simp: request_from_manifest_def mk_validation_request_def rbind_Inr Let_def is_sha256_def int_ok_def
        split: if_splits option.splits)
  then show "sha_text (vq_policy_sha256 q)" "sha_text (vq_evaluator_sha256 q)" "0 \<le> vq_gate_ordinal q"
    by (auto simp: is_sha256_def)
  show "vq_curriculum_sha256 q = curriculum_sha256 E (cc_spec t)" "vq_evaluation_seed q = cs_evaluation_seed (cc_spec t)"
    "vq_gate_ordinal q + 1 = cc_evaluations t" "vq_completed_update q = cc_completed t"
    "vq_policy_sha256 q \<notin> cc_policies t" "expected_stages t (cc_highest t) = Inr (vq_stages q)"
    using assms by (auto simp: parse_pending_def rbind_Inr split: jval.splits if_splits)
qed

lemma load_inv:
  assumes c: "curriculum_made E (cc_spec s)" "0 < cc_lanes s" and l: "load_state E d s = Inr u"
  shows "inv_on E L u \<and> same_config s u"
proof -
  obtain g t pending us where t: "parse_state s g = Inr t" "rmap (check_active t) [0..<cc_lanes s] = Inr us"
    "parse_pending E t (g ''pending_validation'') = Inr pending" and u: "u = t\<lparr>cc_pending := pending\<rparr>"
    "unlocks_ok u" "phase_ok u"
    using l unfolding load_state_def Let_def by (auto simp: rbind_Inr split: if_split_asm)
  note p = parse_state_ok [OF t(1)]
  have st: "stages_of u = stages_of t" by (simp add: u(1))
  have "check_active t i = Inr ()" if "i < cc_lanes s" for i
    using t(2) that rmap_Inr_ex [of "check_active t" "[0..<cc_lanes s]"] by auto
  moreover have "check_active u = check_active t" by (rule check_active_cong) (simp_all add: u(1))
  ultimately have "lanes_ok L u" using p(2) by (simp add: lanes_ok_def u(1))
  moreover have "evidence_ok E u"
    using p parse_pending_ok t(3) expected_stages_cong [OF st] by (auto simp: evidence_ok_def pending_ok_def u(1))
  moreover have "lists_ok u" using p(4) st by (simp add: lists_ok_def u(1))
  moreover have "gate_ok u" using p u(2,3) st by (simp add: gate_ok_def u(1))
  moreover have "reserved_ok u" using p(14) by (simp add: reserved_ok_def u(1))
  ultimately have "inv_on E L u" using c p(1,2) by (simp add: inv_on_def u(1))
  then show ?thesis using p(1-3) by (simp add: same_config_def u(1))
qed

lemma load_next:
  assumes "inv_on E L s"
  shows "wp (coordinator_load E d) (\<lambda>_ t. cur_inv E t \<and> same_config s t) (\<lambda>_ t. t = s) s"
  using assms load_inv [of E s d, where L = UNIV] by (auto simp: coordinator_load_def wp_simps inv_on_def split: sum.split)

section \<open>The coordinator as a transition system\<close>

text \<open>
  One call of an operation: the exception it raises, or None when it returns.  The set of lanes is a
  promise of the client about \<open>activate_focus_for_new_episodes\<close>: a lane of the set is activated only
  while it holds no snapshot.  The code has no such check.  With the empty set every call is a step;
  with all lanes the calls are those of the collector, which activates lanes only when it has no
  episode initializer, so that no lane ever holds a snapshot.
\<close>

definition raised :: "'a res \<Rightarrow> exn option" where
  "raised r = (case r of Inl e \<Rightarrow> Some e | Inr _ \<Rightarrow> None)"

inductive cur_step :: "cur_env \<Rightarrow> nat set \<Rightarrow> coordinator \<Rightarrow> exn option \<Rightarrow> coordinator \<Rightarrow> bool" for E L where
  reserve: "reserve_assignments E ls s = Some (x, t) \<Longrightarrow> cur_step E L s (raised x) t"
| commit: "commit_assignments E r s = (x, t) \<Longrightarrow> cur_step E L s (raised x) t"
| rollback: "rollback_assignments r s = (x, t) \<Longrightarrow> cur_step E L s (raised x) t"
| activate: "\<forall>bs i. reset = Some bs \<and> i < length bs \<and> bs ! i \<and> i \<in> L \<longrightarrow> cc_ordinals s ! i = 0 \<Longrightarrow>
    activate_focus E reset s = (x, t) \<Longrightarrow> cur_step E L s (raised x) t"
| advance: "advance_update E s = (x, t) \<Longrightarrow> cur_step E L s (raised x) t"
| request: "request_validation E p e s = (y, t) \<Longrightarrow> cur_step E L s (raised y) t"
| judge: "record_validation E report s = (z, t) \<Longrightarrow> cur_step E L s (raised z) t"

text \<open>Any call: a step, or the loading of a checkpoint, which replaces the state.\<close>

inductive cur_call :: "cur_env \<Rightarrow> nat set \<Rightarrow> coordinator \<Rightarrow> exn option \<Rightarrow> coordinator \<Rightarrow> bool" for E L where
  call_step: "cur_step E L s x t \<Longrightarrow> cur_call E L s x t"
| call_load: "coordinator_load E d s = (y, t) \<Longrightarrow> cur_call E L s (raised y) t"

lemma every_activation: "activate_focus E reset s = (x, t) \<Longrightarrow> cur_step E {} s (raised x) t"
  by (rule cur_step.activate) simp_all

inductive_cases cur_step_cases: "cur_step E L s x t"

text \<open>What the client may rely on: an operation leads along the ladder, or raises and changes nothing.\<close>

lemma by_wp:
  assumes "wp m (\<lambda>_. next_on E L s) (\<lambda>_ t. t = s) s" "m s = (x, t)" "inv_on E L s"
  shows "next_on E L s t \<and> (raised x \<noteq> None \<longrightarrow> t = s)"
  using assms by (auto simp: wp_def raised_def cur_next_refl split: sum.splits)

lemma step_next:
  assumes E: "hash_ok E" and s: "inv_on E L s" and st: "cur_step E L s x t"
  shows "next_on E L s t \<and> (x \<noteq> None \<longrightarrow> t = s)"
  using st
proof cases
  case (reserve ls y)
  have "raised y \<noteq> None \<longrightarrow> t = s" using reserve(2)
    by (auto simp: reserve_assignments_def Let_def bind_eq_Some_conv raised_def split: if_splits option.splits)
  then show ?thesis using reserve reserve_next [OF s reserve(2)] by simp
next
  case (commit r y)
  from by_wp [OF commit_next [OF E s] commit(2) s] commit(1) show ?thesis by simp
next
  case (rollback r y)
  from by_wp [OF rollback_next [OF s] rollback(2) s] rollback(1) show ?thesis by simp
next
  case (activate reset y)
  from by_wp [OF activate_next [OF E s activate(2)] activate(3) s] activate(1) show ?thesis by simp
next
  case (advance y)
  from by_wp [OF advance_next [OF E s] advance(2) s] advance(1) show ?thesis by simp
next
  case (request p e y)
  from by_wp [OF request_next [OF E s] request(2) s] request(1) show ?thesis by simp
next
  case (judge report z)
  from by_wp [OF record_next [OF E s] judge(2) s] judge(1) show ?thesis by simp
qed

text \<open>Runs of steps, and runs of any calls.\<close>

definition cur_runs :: "cur_env \<Rightarrow> nat set \<Rightarrow> coordinator \<Rightarrow> coordinator \<Rightarrow> bool" where
  "cur_runs E L = (\<lambda>s t. \<exists>x. cur_step E L s x t)\<^sup>*\<^sup>*"

definition cur_calls :: "cur_env \<Rightarrow> nat set \<Rightarrow> coordinator \<Rightarrow> coordinator \<Rightarrow> bool" where
  "cur_calls E L = (\<lambda>s t. \<exists>x. cur_call E L s x t)\<^sup>*\<^sup>*"

lemma runs_next: "cur_runs E L s t \<Longrightarrow> hash_ok E \<Longrightarrow> inv_on E L s \<Longrightarrow> next_on E L s t"
  unfolding cur_runs_def
proof (induction rule: rtranclp_induct)
  case base
  then show ?case by (intro cur_next_refl)
next
  case (step t u)
  then have t: "next_on E L s t" "inv_on E L t" by (simp_all add: next_on_def)
  obtain x where "cur_step E L t x u" using step.hyps(2) by blast
  with step_next [OF step.prems(1) t(2)] have "next_on E L t u" by blast
  with t(1) show ?case by (rule cur_next_trans)
qed

lemma runs_step: "cur_runs E L s t \<Longrightarrow> cur_step E L t x u \<Longrightarrow> cur_runs E L s u"
  unfolding cur_runs_def by (auto intro: rtranclp.rtrancl_into_rtrancl)

lemma calls_call: "cur_calls E L s t \<Longrightarrow> cur_call E L t x u \<Longrightarrow> cur_calls E L s u"
  unfolding cur_calls_def by (auto intro: rtranclp.rtrancl_into_rtrancl)

lemma fewer_lanes: "inv_on E M s \<Longrightarrow> L \<subseteq> M \<Longrightarrow> inv_on E L s"
  by (auto simp: inv_on_def lanes_ok_def)

lemma call_sound:
  assumes "hash_ok E" "inv_on E L s" "cur_call E L s x t"
  shows "inv_on E L t \<and> same_config s t \<and> (x \<noteq> None \<longrightarrow> t = s)"
  using assms(3)
proof cases
  case call_step
  with step_next [OF assms(1,2)] show ?thesis by (auto simp: next_on_def)
next
  case (call_load d y)
  show ?thesis
  proof (cases y)
    case (Inl e)
    with load_next [OF assms(2), of d] call_load(2) have "t = s" by (simp add: wp_def)
    then show ?thesis using assms(2) by (simp add: same_config_def)
  next
    case (Inr u)
    with load_next [OF assms(2), of d] call_load(2) have "cur_inv E t" "same_config s t" by (simp_all add: wp_def)
    then show ?thesis using fewer_lanes [of E UNIV t L] call_load(1) Inr by (simp add: raised_def)
  qed
qed

lemma calls_sound: "cur_calls E L s t \<Longrightarrow> hash_ok E \<Longrightarrow> inv_on E L s \<Longrightarrow> inv_on E L t \<and> same_config s t"
  unfolding cur_calls_def
proof (induction rule: rtranclp_induct)
  case base
  then show ?case by (simp add: same_config_def)
next
  case (step t u)
  then have t: "inv_on E L t" "same_config s t" by simp_all
  obtain x where "cur_call E L t x u" using step.hyps(2) by blast
  from call_sound [OF step.prems(1) t(1) this] t(2) show ?case by (simp add: same_config_def)
qed

section \<open>Each pass needs a policy of its own\<close>

definition streak_ok :: "coordinator \<Rightarrow> bool" where
  "streak_ok s \<longleftrightarrow> cc_streak s \<le> int (card (cc_policies s))"

text \<open>Only a recorded report changes the streak or the policies.\<close>

definition same_evidence :: "coordinator \<Rightarrow> coordinator \<Rightarrow> bool" where
  "same_evidence s t \<longleftrightarrow> cc_streak t = cc_streak s \<and> cc_policies t = cc_policies s"

lemma same_evidence_simps [simp]: "same_evidence s s"
  by (simp add: same_evidence_def)

lemma prepare_one_keeps: "prepare_assignment s a = Inr u \<Longrightarrow> same_evidence s u"
  unfolding prepare_assignment_def Let_def
  by (simp add: rbind_Inr split: option.split_asm if_split_asm) (auto simp: same_evidence_def)

lemma prepare_keeps: "prepare_assignments s as = Inr t \<Longrightarrow> same_evidence s t"
proof (induction as arbitrary: s)
  case (Cons a as)
  then obtain u where u: "prepare_assignment s a = Inr u" "same_evidence u t" by (auto simp: rbind_Inr)
  with prepare_one_keeps [OF u(1)] show ?case by (simp add: same_evidence_def)
qed simp

lemma activate_lanes_keeps: "keeps (same_evidence s) (activate_lanes lanes)"
proof (induction lanes)
  case Nil
  show ?case by (simp add: keeps_intros)
next
  case (Cons l lanes)
  show ?case unfolding activate_lanes.simps
    by (intro keeps_intros Cons.IH) (simp_all add: same_evidence_def)
qed

lemma complete_keeps: "keeps (same_evidence s) (complete_activation E)"
  unfolding complete_activation_def append_cur_event_def
  by (intro keeps_intros) (simp_all add: same_evidence_def)

lemma commit_keeps: "keeps (same_evidence s) (commit_assignments E r)"
  unfolding commit_assignments_def
  by (intro keeps_intros complete_keeps) (simp_all add: same_evidence_def)

lemma activate_keeps: "keeps (same_evidence s) (activate_focus E reset)"
  unfolding activate_focus_def
  by (intro keeps_intros complete_keeps activate_lanes_keeps)

lemma advance_keeps: "keeps (same_evidence s) (advance_update E)"
  unfolding advance_update_def append_cur_event_def
  by (intro keeps_intros) (simp_all add: same_evidence_def)

lemma request_keeps: "keeps (same_evidence s) (request_validation E p e)"
  unfolding request_validation_def
  by (intro keeps_intros) (auto simp: same_evidence_def)

text \<open>A decision adds at most one pass.\<close>

definition one_pass :: "coordinator \<Rightarrow> coordinator \<Rightarrow> bool" where
  "one_pass s t \<longleftrightarrow> cc_streak t \<in> {cc_streak s, cc_streak s + 1, 0} \<and> cc_policies t = cc_policies s"

lemma report_event_wp: "wp (report_event E kind p i) Q R = (\<lambda>s. Q () (s\<lparr>cc_event_head := ce_digest E (JObj
     [(''previous'', JStr (cc_event_head s)), (''kind'', JStr kind),
      (''completed_updates'', JInt (cc_completed s)), (''payload'', JObj
        [(''stage'', JStr (st_id (stages_of s ! i s))), (''report'', JStr (report_sha256 E p))])])\<rparr>))"
  by (rule ext) (simp add: report_event_def append_cur_event_def wp_simps)

lemma decision_wp: "wp (make_decision a b c) Q R = (\<lambda>s. Q \<lparr>gd_phase = cc_phase s,
     gd_highest = st_id (stages_of s ! cc_highest s), gd_focus = st_id (stages_of s ! cc_focus s),
     gd_promoted = a, gd_remediation = b, gd_reason = c\<rparr> s)"
  by (rule ext) (simp add: make_decision_def wp_simps)

lemma decide_one_pass: "wp (decide_gate E p closing) (\<lambda>_. one_pass s) (\<lambda>_. one_pass s) s"
proof (cases "failing_prior p s")
  case (Some i)
  then show ?thesis
    by (simp add: decide_gate_def floor_failed_def wp_simps report_event_wp decision_wp one_pass_def)
next
  case None
  have k: "wp (promotion_gate E p closing) (\<lambda>_. one_pass s) (\<lambda>_. one_pass s) t" if "same_evidence s t" for t
    using that
    by (simp add: promotion_gate_def final_gate_def promote_def exhaust_def wp_simps report_event_wp decision_wp
        one_pass_def same_evidence_def Let_def split: sum.split)
  have c: "keeps (same_evidence s) (clear_remediation E p closing)"
    unfolding clear_remediation_def append_cur_event_def Let_def
    by (intro keeps_intros) (auto simp: same_evidence_def)
  have "wp (clear_remediation E p closing) (\<lambda>_. wp (promotion_gate E p closing) (\<lambda>_. one_pass s) (\<lambda>_. one_pass s))
      (\<lambda>_. one_pass s) s"
    by (rule wp_mono [OF keeps_wp [OF c]]) (auto intro: k simp: one_pass_def same_evidence_def)
  with None show ?thesis by (simp add: decide_gate_def wp_simps)
qed

lemma record_streak:
  assumes s: "inv_on E L s" "streak_ok s"
  shows "wp (record_validation E p) (\<lambda>_. streak_ok) (\<lambda>_. streak_ok) s"
proof (cases "map_of (cc_reports s) (vp_request_id p) = None \<and> cc_phase s \<noteq> BudgetExhausted \<and>
    check_report E p s = Inr ()")
  case False
  then show ?thesis
    using s by (auto simp: record_validation_def gate_wp decision_wp split: option.split sum.split)
next
  case True
  define t where "t = s\<lparr>cc_reports := cc_reports s @ [(vp_request_id p, report_sha256 E p)],
    cc_policies := insert (vp_policy_sha256 p) (cc_policies s), cc_pending := None\<rparr>"
  have "vp_policy_sha256 p \<notin> cc_policies s" "finite (cc_policies s)" "0 \<le> cc_streak s"
    using True s by (auto simp: check_report_def inv_on_def evidence_ok_def pending_ok_def gate_ok_def split: option.splits if_splits)
  then have "one_pass t u \<Longrightarrow> streak_ok u" for u
    using s(2) by (auto simp: one_pass_def streak_ok_def t_def)
  then have "wp (decide_gate E p (cc_phase s = BudgetValidation)) (\<lambda>_. streak_ok) (\<lambda>_. streak_ok) t"
    by (intro wp_mono [OF decide_one_pass [where s = t]])
  with True show ?thesis unfolding t_def by (simp add: record_validation_def wp_simps)
qed

lemma same_streak: "same_evidence s t \<Longrightarrow> streak_ok s \<Longrightarrow> streak_ok t"
  by (simp add: same_evidence_def streak_ok_def)

lemma step_streak:
  assumes s: "inv_on E L s" "streak_ok s" and st: "cur_step E L s x t"
  shows "streak_ok t"
  using st
proof cases
  case (reserve ls y)
  then have "same_evidence s t"
    by (auto simp: reserve_assignments_def same_evidence_def Let_def bind_eq_Some_conv split: if_splits option.splits)
  then show ?thesis using s(2) by (rule same_streak)
next
  case (commit r y)
  then show ?thesis using keepsD [OF commit_keeps] same_streak s(2) same_evidence_simps by blast
next
  case (rollback r y)
  then show ?thesis using s(2)
    by (auto simp: rollback_assignments_def pbind_def pget_def pmod_def pguard_def praise_def pret_def streak_ok_def split: if_splits)
next
  case (activate reset y)
  then show ?thesis using keepsD [OF activate_keeps] same_streak s(2) same_evidence_simps by blast
next
  case (advance y)
  then show ?thesis using keepsD [OF advance_keeps] same_streak s(2) same_evidence_simps by blast
next
  case (request p e y)
  then show ?thesis using keepsD [OF request_keeps] same_streak s(2) same_evidence_simps by blast
next
  case (judge report z)
  then show ?thesis using record_streak [OF s, of report] by (auto simp: wp_def split: sum.splits)
qed

lemma runs_streak: "cur_runs E L s t \<Longrightarrow> hash_ok E \<Longrightarrow> inv_on E L s \<Longrightarrow> streak_ok s \<Longrightarrow> streak_ok t"
  unfolding cur_runs_def
proof (induction rule: rtranclp_induct)
  case (step t u)
  have "inv_on E L t" using runs_next [of E L s t] step by (simp add: cur_runs_def next_on_def)
  with step step_streak show ?case by blast
qed simp

end
