(* ===== verification/Curriculum_Evidence.thy ===== *)
theory Curriculum_Evidence
  imports Curriculum_Runs
begin

text \<open>
  What a promotion rests on, how a training budget closes, and the checkpoint of a coordinator
  read back.
\<close>

section \<open>The evidence behind a promotion\<close>

definition evidence_for :: "cur_env \<Rightarrow> validation_report \<Rightarrow> coordinator \<Rightarrow> bool" where
  "evidence_for E p s \<longleftrightarrow> (\<exists>q. cc_pending s = Some q \<and> vp_request_id p = request_id E q \<and>
     vp_policy_sha256 p = vq_policy_sha256 q \<and> vp_policy_sha256 p \<notin> cc_policies s \<and>
     vq_completed_update q = cc_completed s \<and> (\<forall>k \<in> set (required_ids s). check_result E q p k = Inr ()))"

definition floors_hold :: "validation_report \<Rightarrow> coordinator \<Rightarrow> bool" where
  "floors_hold p s \<longleftrightarrow> (\<forall>i < cc_highest s. gate_passes (result_for p (st_id (stages_of s ! i)))
     (st_regression_successes (stages_of s ! i)) (st_regression_trials (stages_of s ! i)))"

definition top_passes :: "validation_report \<Rightarrow> coordinator \<Rightarrow> bool" where
  "top_passes p s \<longleftrightarrow> (let stage = stages_of s ! cc_highest s in st_passes stage \<le> cc_streak s + 1 \<and>
     gate_passes (result_for p (st_id stage)) (st_promotion_successes stage) (st_promotion_trials stage))"

lemma check_report_evidence:
  assumes "check_report E p s = Inr ()" "inv_on E L s"
  shows "evidence_for E p s"
proof -
  obtain q where q: "cc_pending s = Some q" "vp_request_id p = request_id E q"
      "vp_policy_sha256 p = vq_policy_sha256 q" "vq_completed_update q = cc_completed s"
      "\<exists>us. rmap (check_result E q p) (required_ids s) = Inr us"
    using assms(1) by (auto simp: check_report_def rbind_Inr split: option.splits if_splits)
  have "pending_ok E s q" using assms(2) q(1) by (simp add: inv_on_def evidence_ok_def)
  then have "vp_policy_sha256 p \<notin> cc_policies s" using q(3) by (simp add: pending_ok_def)
  moreover have "\<forall>k \<in> set (required_ids s). check_result E q p k = Inr ()"
    using q(5) rmap_Inr_ex [of "check_result E q p" "required_ids s"] by auto
  ultimately show ?thesis using q by (auto simp: evidence_for_def)
qed

lemma no_failing_floor: "failing_prior p s = None \<longleftrightarrow> floors_hold p s"
  by (auto simp: failing_prior_def floors_hold_def find_None_iff Let_def)

definition same_top :: "coordinator \<Rightarrow> coordinator \<Rightarrow> bool" where
  "same_top s t \<longleftrightarrow> cc_spec t = cc_spec s \<and> cc_highest t = cc_highest s \<and> cc_streak t = cc_streak s"

lemma clear_keeps_top:
  "cc_phase s \<noteq> Complete \<Longrightarrow> wp (clear_remediation E p closing) (\<lambda>_ t. same_top s t \<and> cc_phase t \<noteq> Complete) (\<lambda>_ _. True) s"
  by (simp add: clear_remediation_def append_cur_event_def wp_simps same_top_def Let_def)

lemma promotion_gate_evidence:
  assumes "cc_phase t \<noteq> Complete" "0 < st_passes (stages_of t ! cc_highest t)"
  shows "wp (promotion_gate E p closing) (\<lambda>d u. gd_promoted d \<or> cc_phase u = Complete \<longrightarrow> top_passes p t) (\<lambda>_ _. True) t"
  using assms
  by (simp add: promotion_gate_def final_gate_def promote_def exhaust_def wp_simps report_event_wp decision_wp
      top_passes_def Let_def stages_of_def split: sum.split)

lemma decide_evidence:
  assumes "cc_phase s \<noteq> Complete" "0 < st_passes (stages_of s ! cc_highest s)"
  shows "wp (decide_gate E p closing)
    (\<lambda>d u. gd_promoted d \<or> cc_phase u = Complete \<longrightarrow> top_passes p s \<and> floors_hold p s) (\<lambda>_ _. True) s"
proof (cases "failing_prior p s")
  case (Some i)
  then show ?thesis using assms
    by (simp add: decide_gate_def floor_failed_def wp_simps report_event_wp decision_wp)
next
  case None
  let ?Q = "\<lambda>d u. gd_promoted d \<or> cc_phase u = Complete \<longrightarrow> top_passes p s \<and> floors_hold p s"
  have k: "wp (promotion_gate E p closing) ?Q (\<lambda>_ _. True) t" if t: "same_top s t \<and> cc_phase t \<noteq> Complete" for t
  proof -
    have "top_passes p t = top_passes p s" "stages_of t ! cc_highest t = stages_of s ! cc_highest s"
      using t by (simp_all add: same_top_def top_passes_def stages_of_def)
    then show ?thesis using assms(2) t None no_failing_floor
      by (intro wp_mono [OF promotion_gate_evidence]) auto
  qed
  have "wp (clear_remediation E p closing) (\<lambda>_. wp (promotion_gate E p closing) ?Q (\<lambda>_ _. True)) (\<lambda>_ _. True) s"
    by (rule wp_mono [OF clear_keeps_top [OF assms(1)]]) (rule k, assumption, simp)
  with None show ?thesis by (simp add: decide_gate_def wp_simps)
qed

lemma record_evidence:
  assumes s: "inv_on E L s" "cc_phase s \<noteq> Complete"
  shows "wp (record_validation E p) (\<lambda>d u. gd_promoted d \<or> cc_phase u = Complete \<longrightarrow>
    evidence_for E p s \<and> top_passes p s \<and> floors_hold p s) (\<lambda>_ _. True) s"
proof (cases "map_of (cc_reports s) (vp_request_id p) = None \<and> cc_phase s \<noteq> BudgetExhausted \<and>
    check_report E p s = Inr ()")
  case False
  then show ?thesis
    using s by (auto simp: record_validation_def gate_wp decision_wp split: option.split sum.split)
next
  case True
  define t where "t = s\<lparr>cc_reports := cc_reports s @ [(vp_request_id p, report_sha256 E p)],
    cc_policies := insert (vp_policy_sha256 p) (cc_policies s), cc_pending := None\<rparr>"
  have st: "top_passes p t = top_passes p s" "floors_hold p t = floors_hold p s" "stages_of t = stages_of s"
    "cc_highest t = cc_highest s" "cc_phase t \<noteq> Complete"
    using s(2) by (simp_all add: t_def top_passes_def floors_hold_def stages_of_def)
  have e: "evidence_for E p s" using True s(1) by (intro check_report_evidence) auto
  have "0 < st_passes (stages_of t ! cc_highest t)"
    unfolding st(3,4) by (rule stage_facts(2) [OF s(1) phase_facts(7) [OF s(1)]])
  from wp_mono [OF decide_evidence [OF st(5) this, of E p "cc_phase s = BudgetValidation"]]
  have "wp (decide_gate E p (cc_phase s = BudgetValidation)) (\<lambda>d u. gd_promoted d \<or> cc_phase u = Complete \<longrightarrow>
    evidence_for E p s \<and> top_passes p s \<and> floors_hold p s) (\<lambda>_ _. True) t"
    using st(1,2) e by auto
  with True show ?thesis unfolding t_def by (simp add: record_validation_def wp_simps)
qed

section \<open>Closing the budget\<close>

text \<open>Updates without a pending request, until the stage's budget is used up.\<close>

definition left :: "coordinator \<Rightarrow> nat" where
  "left s = nat (st_max_updates (stages_of s ! cc_highest s) - (cc_completed s - cc_unlocks s ! cc_highest s))"

lemma within_budget:
  assumes s: "inv_on E L s" "cc_phase s = Normal \<or> cc_phase s = Remediation"
  shows "cc_completed s - cc_unlocks s ! cc_highest s < st_max_updates (stages_of s ! cc_highest s)"
proof -
  have "0 \<le> cc_unlocks s ! cc_highest s" using phase_facts(6) [OF s(1)] s(2) by auto
  with s show ?thesis by (auto simp: inv_on_def gate_ok_def phase_ok_def Let_def split: if_splits)
qed

lemma left_pos: "inv_on E L s \<Longrightarrow> cc_phase s = Normal \<or> cc_phase s = Remediation \<Longrightarrow> 0 < left s"
  using within_budget [of E L s] by (simp add: left_def)

lemma advance_once:
  assumes E: "hash_ok E" and s: "inv_on E L s" "cc_phase s = Normal \<or> cc_phase s = Remediation" "cc_pending s = None"
  shows "\<exists>t. advance_update E s = (Inr (), t) \<and> inv_on E L t \<and> cc_pending t = None \<and>
    (if left s = 1 then cc_phase t = BudgetValidation
     else (cc_phase t = Normal \<or> cc_phase t = Remediation) \<and> Suc (left t) = left s)"
proof -
  have u: "0 \<le> cc_unlocks s ! cc_highest s" "cc_unlocks s ! cc_highest s \<le> cc_completed s"
    using phase_facts(6) [OF s(1)] s(2) by auto
  have b: "cc_completed s - cc_unlocks s ! cc_highest s < st_max_updates (stages_of s ! cc_highest s)"
    by (rule within_budget [OF s(1,2)])
  have ph: "cc_phase s \<notin> {BudgetValidation, Complete, BudgetExhausted}" using s(2) by auto
  obtain y t where a: "advance_update E s = (y, t)" by fastforce
  have n: "next_on E L s t \<or> t = s" using advance_next [OF E s(1)] a by (auto simp: wp_def split: sum.splits)
  then have inv: "inv_on E L t" using s(1) by (auto simp: next_on_def)
  define closed where "closed \<longleftrightarrow> st_max_updates (stages_of s ! cc_highest s) \<le> cc_completed s + 1 - cc_unlocks s ! cc_highest s"
  have l: "left s = 1 \<longleftrightarrow> closed" using u b unfolding left_def closed_def by linarith
  have l': "Suc (left (s\<lparr>cc_completed := cc_completed s + 1\<rparr>)) = left s" if "\<not> closed"
    using u b that unfolding left_def closed_def by simp
  have w: "wp (advance_update E) (\<lambda>_ t. cc_pending t = None \<and> (if closed then cc_phase t = BudgetValidation
     else (cc_phase t = Normal \<or> cc_phase t = Remediation) \<and> Suc (left t) = left s)) (\<lambda>_ _. False) s"
  proof (cases closed)
    case True
    then show ?thesis using s(2,3) u(1) ph unfolding closed_def
      by (simp add: advance_update_def append_cur_event_def wp_simps stages_of_def Let_def)
  next
    case False
    then show ?thesis using s(2,3) u(1) ph l' [OF False] unfolding closed_def
      by (simp add: advance_update_def append_cur_event_def wp_simps Let_def)
  qed
  with a have "y = Inr ()" by (cases y) (auto simp: wp_def)
  with a w inv l show ?thesis by (auto simp: wp_def)
qed

text \<open>As many updates as asked for, stopping at a raise.\<close>

fun updates :: "cur_env \<Rightarrow> nat \<Rightarrow> (coordinator, unit) py" where
  "updates E 0 = pret ()" | "updates E (Suc n) = pbind (advance_update E) (\<lambda>_. updates E n)"

lemma updates_close:
  assumes E: "hash_ok E" and "inv_on E L s" "cc_phase s = Normal \<or> cc_phase s = Remediation" "cc_pending s = None"
  shows "wp (updates E (left s)) (\<lambda>_ t. cc_phase t = BudgetValidation \<and> cc_pending t = None) (\<lambda>_ _. False) s"
  using assms(2-)
proof (induction "left s" arbitrary: s)
  case 0
  then show ?case using left_pos [of E L s] by simp
next
  case (Suc n)
  from advance_once [OF E Suc.prems(1,2,3)] obtain t where t: "advance_update E s = (Inr (), t)" "inv_on E L t"
    "cc_pending t = None" "if left s = 1 then cc_phase t = BudgetValidation
       else (cc_phase t = Normal \<or> cc_phase t = Remediation) \<and> Suc (left t) = left s" by blast
  have "wp (updates E n) (\<lambda>_ t. cc_phase t = BudgetValidation \<and> cc_pending t = None) (\<lambda>_ _. False) t"
  proof (cases "n = 0")
    case True
    with Suc.hyps(2) t(3,4) show ?thesis by (simp add: wp_simps)
  next
    case False
    with Suc.hyps(2) t(4) have l: "n = left t" "cc_phase t = Normal \<or> cc_phase t = Remediation" by auto
    from Suc.hyps(1) [OF l(1) t(2) l(2) t(3)] l(1) show ?thesis by simp
  qed
  with t(1) show ?case by (simp add: Suc.hyps(2) [symmetric] wp_pbind) (simp add: wp_def)
qed

section \<open>Checkpoints round trip\<close>

lemma those_map_Some: "(\<And>x. x \<in> set xs \<Longrightarrow> f x = Some (g x)) \<Longrightarrow> those (map f xs) = Some (map g xs)"
  by (induction xs) auto

lemma list_of_json [simp]:
  "list_of json_int (json_ints ns) = Some ns" "list_of int_like (json_ints ns) = Some ns"
  "list_of json_str (json_strs xs) = Some xs"
  by (simp_all add: list_of_def json_int_def json_str_def comp_def those_map_Some [where g = id, simplified] those_map_Some)

lemma report_table_json:
  "\<forall>(k, h) \<in> set rt. sha_text h \<Longrightarrow> report_table (JObj (map (\<lambda>(k, h). (k, JStr h)) rt)) = Some rt"
proof -
  assume "\<forall>(k, h) \<in> set rt. sha_text h"
  then have "those (map ((\<lambda>(k, x). map_option (Pair k) (json_sha x)) \<circ> (\<lambda>(k, h). (k, JStr h))) rt) = Some (map id rt)"
    by (intro those_map_Some) (auto simp: json_sha_def)
  then show ?thesis by (simp add: report_table_def)
qed

lemma json_shas: "\<forall>h \<in> set hs. sha_text h \<Longrightarrow> those (map json_sha (map JStr hs)) = Some hs"
  using those_map_Some [of hs "json_sha \<circ> JStr" id] by (simp add: json_sha_def)

lemma json_finite_lists [simp]: "json_finite (json_ints ns)" "json_finite (json_strs xs)"
  by (simp_all add: list_all_iff)

lemma phase_of_name [simp]: "cur_phase_of (cur_phase_name p) = Some p"
  by (cases p) (simp_all add: cur_phase_of_def)

text \<open>A well-formed request is read back from its manifest.\<close>

definition stage_request_ok :: "stage_request \<Rightarrow> bool" where
  "stage_request_ok r \<longleftrightarrow> vs_stage_id r \<noteq> [] \<and> vs_snapshot_ids r \<noteq> [] \<and> (\<forall>k \<in> set (vs_snapshot_ids r). k \<noteq> []) \<and>
     distinct (vs_snapshot_ids r) \<and> 0 < vs_episodes r"

lemma made_stage_request: "mk_stage_request sid (map PyStr ks) n = Inr r \<Longrightarrow> stage_request_ok r"
  by (auto simp: mk_stage_request_def stage_request_ok_def nonempty_str_def str_ok_def int_ok_def list_all_iff
      distinct_map comp_def split: if_splits option.splits)

lemma stage_request_roundtrip: "stage_request_ok r \<Longrightarrow> parse_stage_request (stage_request_manifest r) = Inr r"
  by (simp add: parse_stage_request_def stage_request_manifest_def mk_stage_request_def nonempty_str_def str_ok_def
      int_ok_def stage_request_ok_def list_all_iff comp_def distinct_map inj_on_def)

lemma rmap_map_Inr: "(\<And>x. x \<in> set xs \<Longrightarrow> f (g x) = Inr x) \<Longrightarrow> rmap f (map g xs) = Inr xs"
  by (induction xs) auto

lemma all2_in: "list_all2 P xs ys \<Longrightarrow> y \<in> set ys \<Longrightarrow> \<exists>x \<in> set xs. P x y"
  by (induction rule: list_all2_induct) auto

lemma request_roundtrip:
  assumes "hash_ok E" "cur_inv E s" "cc_pending s = Some q"
  shows "request_from_manifest (request_manifest q) = Inr q"
proof -
  have p: "pending_ok E s q" and cs: "curriculum_made E (cc_spec s)" and c: "0 \<le> cc_completed s"
    using assms by (simp_all add: inv_on_def evidence_ok_def gate_ok_def)
  obtain qs where qs: "expected_stages s (cc_highest s) = Inr qs"
    "map vs_stage_id qs = map st_id (take (Suc (cc_highest s)) (stages_of s))" using expected_stages_made [OF assms(2)] .
  with p have st: "vq_stages q = qs" by (simp add: pending_ok_def)
  have ok: "\<forall>r \<in> set qs. stage_request_ok r"
  proof
    fix r assume r: "r \<in> set qs"
    have "list_all2 (\<lambda>x y. stage_request_of (cc_highest s) x = Inr y)
        (zip [0..<length (take (Suc (cc_highest s)) (stages_of s))] (take (Suc (cc_highest s)) (stages_of s))) qs"
      using qs(1) by (simp only: expected_stages_def Let_def rmap_Inr)
    from all2_in [OF this r] obtain x where "stage_request_of (cc_highest s) x = Inr r" by (elim bexE)
    then show "stage_request_ok r" unfolding stage_request_of_def
      by (cases x) (simp only: prod.case made_stage_request)
  qed
  have "distinct (map st_id (stages_of s))" using curriculum_made_facts(2) [OF cs] by (simp add: stages_of_def)
  then have d: "distinct (map vs_stage_id qs)" unfolding qs(2) by (simp add: distinct_take flip: take_map)
  have "map vs_stage_id qs \<noteq> []" unfolding qs(2) using phase_facts(7) [OF assms(2)] by auto
  then have d2: "qs \<noteq> []" by simp
  have sh: "sha_text (curriculum_sha256 E (cc_spec s))" using assms(1) by (simp add: curriculum_sha256_def hash_ok_def)
  have r: "rmap parse_stage_request (map stage_request_manifest qs) = Inr qs"
    using ok stage_request_roundtrip by (intro rmap_map_Inr) auto
  show ?thesis
    using p c d d2 sh r st curriculum_made_facts(6) [OF cs]
    by (simp add: request_from_manifest_def request_manifest_def mk_validation_request_def pending_ok_def int_ok_def
        REQUEST_KEYS_def Let_def insert_commute)
qed

lemma pending_roundtrip:
  assumes "hash_ok E" "cur_inv E s" "stages_of t = stages_of s" "cc_spec t = cc_spec s" "cc_highest t = cc_highest s"
    "cc_evaluations t = cc_evaluations s" "cc_completed t = cc_completed s" "cc_policies t = cc_policies s"
  shows "parse_pending E t (case cc_pending s of None \<Rightarrow> JNull | Some q \<Rightarrow> JObj (request_manifest q)) = Inr (cc_pending s)"
proof (cases "cc_pending s")
  case (Some q)
  then have "pending_ok E s q" using assms(2) by (simp add: inv_on_def evidence_ok_def)
  with Some assms request_roundtrip [OF assms(1,2) Some] expected_stages_cong [OF assms(3)] show ?thesis
    by (simp add: parse_pending_def pending_ok_def)
qed (simp add: parse_pending_def)

lemma core_keys: "map fst (coordinator_core E s) = COORDINATOR_KEYS"
  by (simp add: coordinator_core_def COORDINATOR_KEYS_def)

lemma map_of_core: "map (\<lambda>k. (k, the (map_of (coordinator_core E s @ [(''state_sha256'', h)]) k))) COORDINATOR_KEYS =
    coordinator_core E s"
  by (simp add: coordinator_core_def COORDINATOR_KEYS_def)

lemma core_finite: "json_finite (JObj (coordinator_core E s))"
  by (simp add: coordinator_core_def request_manifest_def stage_request_manifest_def list_all_iff split: option.split prod.split)

text \<open>The fields of a stored state.\<close>

definition stored :: "cur_env \<Rightarrow> coordinator \<Rightarrow> jval \<Rightarrow> string \<Rightarrow> jval" where
  "stored E s h k = the (map_of (coordinator_core E s @ [(''state_sha256'', h)]) k)"

lemma stored_simps:
  "stored E s h ''highest_unlocked'' = JInt (int (cc_highest s))" "stored E s h ''focus'' = JInt (int (cc_focus s))"
  "stored E s h ''completed_updates'' = JInt (cc_completed s)" "stored E s h ''promotion_streak'' = JInt (cc_streak s)"
  "stored E s h ''phase'' = JStr (cur_phase_name (cc_phase s))" "stored E s h ''unlock_updates'' = json_ints (cc_unlocks s)"
  "stored E s h ''lane_stage'' = json_ints (map int (cc_lane_stage s))"
  "stored E s h ''lane_snapshot_id'' = json_strs (cc_lane_snapshot s)"
  "stored E s h ''lane_shaping_weight_ppm'' = json_ints (cc_lane_weight s)"
  "stored E s h ''episode_ordinals'' = json_ints (cc_ordinals s)"
  "stored E s h ''submitted_reports'' = JObj (map (\<lambda>(k, h). (k, JStr h)) (cc_reports s))"
  "stored E s h ''evaluated_policies'' = json_strs (sorted_list_of_set (cc_policies s))"
  "stored E s h ''evaluation_ordinal'' = JInt (cc_evaluations s)" "stored E s h ''event_head'' = JStr (cc_event_head s)"
  "stored E s h ''pending_validation'' = (case cc_pending s of None \<Rightarrow> JNull | Some q \<Rightarrow> JObj (request_manifest q))"
  "stored E s h ''state_sha256'' = h" "stored E s h ''version'' = JStr COORDINATOR_VERSION"
  "stored E s h ''spec_sha256'' = JStr (curriculum_sha256 E (cc_spec s))"
  "stored E s h ''lanes'' = JInt (int (cc_lanes s))" "stored E s h ''learner_seed'' = JInt (cc_learner_seed s)"
  by (simp_all add: stored_def coordinator_core_def)

lemma stored_core: "map (\<lambda>k. (k, stored E s h k)) COORDINATOR_KEYS = coordinator_core E s"
  unfolding stored_def by (rule map_of_core)

lemma json_int_simp [simp]: "json_int (JInt n) = Some n" "json_str (JStr k) = Some k"
  by (simp_all add: json_int_def json_str_def)

lemma parse_stored:
  assumes s: "cur_inv E s" "cc_outstanding s = None" and c: "same_config s s0"
  shows "parse_state s0 (stored E s h) = Inr (s\<lparr>cc_pending := cc_pending s0\<rparr>)"
proof -
  have l: "lists_ok s" and e: "evidence_ok E s" and g: "gate_ok s" using s(1) by (simp_all add: inv_on_def)
  have st: "stages_of s0 = stages_of s" using c by (simp add: same_config_def stages_of_def)
  have rt: "report_table (JObj (map (\<lambda>(k, h). (k, JStr h)) (cc_reports s))) = Some (cc_reports s)"
    using e by (intro report_table_json) (simp add: evidence_ok_def)
  have eh: "json_sha (JStr (cc_event_head s)) = Some (cc_event_head s)" using e by (simp add: evidence_ok_def json_sha_def)
  have ps: "those (map json_sha (map JStr (sorted_list_of_set (cc_policies s)))) = Some (sorted_list_of_set (cc_policies s))"
    using e by (intro json_shas) (simp add: evidence_ok_def)
  have hash: "list_all (\<lambda>v. hashable (py_of_json v)) (map JStr (sorted_list_of_set (cc_policies s)))" by (simp add: list_all_iff)
  have a: "\<not> (\<not> (0 \<le> int (cc_highest s) \<and> int (cc_highest s) < int (length (stages_of s0))) \<or>
      \<not> (0 \<le> int (cc_focus s) \<and> int (cc_focus s) \<le> int (cc_highest s)) \<or> cc_completed s < 0 \<or> cc_streak s < 0)"
    using g st by (simp add: gate_ok_def)
  have b: "\<not> (length (cc_unlocks s) \<noteq> length (stages_of s0) \<or> length (map int (cc_lane_stage s)) \<noteq> cc_lanes s0 \<or>
      length (cc_lane_snapshot s) \<noteq> cc_lanes s0 \<or> length (cc_lane_weight s) \<noteq> cc_lanes s0 \<or>
      length (cc_ordinals s) \<noteq> cc_lanes s0 \<or> \<not> list_all (\<lambda>n. 0 \<le> n) (cc_ordinals s) \<or>
      \<not> list_all (\<lambda>n. 0 \<le> n \<and> n \<le> int (cc_highest s)) (map int (cc_lane_stage s)) \<or>
      \<not> list_all (\<lambda>n. 0 \<le> n \<and> n \<le> 1000000) (cc_lane_weight s))"
    using l st c by (simp add: lists_ok_def list_all_iff same_config_def)
  have d: "\<not> (\<not> distinct (sorted_list_of_set (cc_policies s)) \<or> cc_evaluations s < 0)" using e by (simp add: evidence_ok_def)
  have hp: "\<not> \<not> hashable (py_of_json (JStr (cur_phase_name (cc_phase s))))" by simp
  have ph: "Option.bind (json_str (JStr (cur_phase_name (cc_phase s)))) cur_phase_of = Some (cc_phase s)" by simp
  have "s0\<lparr>cc_highest := nat (int (cc_highest s)), cc_focus := nat (int (cc_focus s)), cc_phase := cc_phase s,
      cc_completed := cc_completed s, cc_unlocks := cc_unlocks s, cc_streak := cc_streak s,
      cc_lane_stage := map nat (map int (cc_lane_stage s)), cc_lane_snapshot := cc_lane_snapshot s,
      cc_lane_weight := cc_lane_weight s, cc_ordinals := cc_ordinals s, cc_reports := cc_reports s,
      cc_policies := set (sorted_list_of_set (cc_policies s)), cc_evaluations := cc_evaluations s,
      cc_event_head := cc_event_head s, cc_outstanding := None\<rparr> = s\<lparr>cc_pending := cc_pending s0\<rparr>"
    using c e s(2) by (intro coordinator.equality) (simp_all add: same_config_def evidence_ok_def comp_def)
  then show ?thesis
    unfolding parse_state_def stored_simps list_of_json json_int_simp rt eh ph json_list.simps ps prod.case option.case
      if_not_P [OF a] if_not_P [OF b] if_not_P [OF d] if_not_P [OF hp]
    using hash by simp
qed

text \<open>What a checkpoint restores.\<close>

lemma load_stored:
  assumes E: "hash_ok E" and s: "cur_inv E s" "cc_outstanding s = None" and c: "same_config s s0"
  shows "load_state E (coordinator_core E s @ [(''state_sha256'', JStr (ce_digest E (JObj (coordinator_core E s))))]) s0 = Inr s"
proof -
  let ?h = "JStr (ce_digest E (JObj (coordinator_core E s)))"
  let ?d = "coordinator_core E s @ [(''state_sha256'', ?h)]"
  let ?t = "s\<lparr>cc_pending := cc_pending s0\<rparr>"
  have keys: "set (map fst ?d) = insert ''state_sha256'' (set COORDINATOR_KEYS)"
    unfolding core_keys [of E s, symmetric] by simp
  have g: "(\<lambda>k. the (map_of ?d k)) = stored E s ?h" by (rule ext) (simp add: stored_def)
  have active: "rmap (check_active ?t) [0..<cc_lanes s0] = Inr (replicate (cc_lanes s0) ())"
  proof -
    have "check_active ?t = check_active s" by (rule check_active_cong) simp_all
    then have "\<forall>i < cc_lanes s0. check_active ?t i = Inr ()" using s(1) c by (simp add: inv_on_def lanes_ok_def same_config_def)
    then show ?thesis by (simp add: rmap_Inr list_all2_conv_all_nth)
  qed
  have p: "parse_pending E ?t (stored E s ?h ''pending_validation'') = Inr (cc_pending s)"
    unfolding stored_simps by (rule pending_roundtrip [OF E s(1)]) simp_all
  have ok: "unlocks_ok s" "phase_ok s" using s(1) by (simp_all add: inv_on_def gate_ok_def)
  have id: "\<not> (JStr COORDINATOR_VERSION \<noteq> JStr COORDINATOR_VERSION \<or>
       JStr (curriculum_sha256 E (cc_spec s)) \<noteq> JStr (curriculum_sha256 E (cc_spec s0)) \<or>
       \<not> json_eq (JInt (int (cc_lanes s))) (JInt (int (cc_lanes s0))) \<or>
       \<not> json_eq (JInt (cc_learner_seed s)) (JInt (cc_learner_seed s0)))"
    using c by (simp add: same_config_def)
  show ?thesis
    unfolding load_state_def Let_def g stored_core stored_simps(16-)
    using keys core_finite [of E s] id ok
    by (simp add: parse_stored [OF s c] active p [unfolded stored_simps] stored_simps(15))
qed

end
