(* ===== verification/Curriculum_Draws.thy ===== *)
theory Curriculum_Draws
  imports Curriculum_Evidence
begin

text \<open>
  Reward weights, action masks and data splits; draws that end; and a reservation that is
  committed or rolled back.
\<close>

section \<open>Reward weights\<close>

lemma interval_step:
  assumes "knots_ok (l # r # rest)" "rk_update l \<le> u" "u \<le> v" "v \<le> rk_update r"
  shows "rk_weight l + (rk_weight r - rk_weight l) * (v - rk_update l) div (rk_update r - rk_update l)
    \<le> rk_weight l + (rk_weight r - rk_weight l) * (u - rk_update l) div (rk_update r - rk_update l)"
proof -
  have lr: "rk_update l < rk_update r" "rk_weight r \<le> rk_weight l" using assms(1) by (simp_all add: knots_ok_def)
  have "(rk_weight r - rk_weight l) * (v - rk_update l) \<le> (rk_weight r - rk_weight l) * (u - rk_update l)"
    using lr assms(3) by (intro mult_left_mono_neg) simp_all
  then show ?thesis using lr by (simp add: zdiv_mono1)
qed

lemma interval_mono:
  assumes "interval_weight ks u = Inr w" "interval_weight ks v = Inr x" "u \<le> v" "knots_ok ks" "rk_update (hd ks) \<le> u"
  shows "x \<le> w"
  using assms
proof (induction ks u rule: interval_weight.induct)
  case (1 l r rest u)
  have k: "knots_ok (r # rest)" and lr: "rk_update l < rk_update r" using 1(5) by (auto simp: knots_ok_def)
  show ?case
  proof (cases "v \<le> rk_update r")
    case True
    with 1 interval_step [OF 1(5), of u v] show ?thesis by (simp add: Let_def)
  next
    case v: False
    then have x: "interval_weight (r # rest) v = Inr x" using 1(3) by simp
    show ?thesis
    proof (cases "u \<le> rk_update r")
      case True
      have "rk_weight r \<le> w"
        using interval_step [OF 1(5), of u "rk_update r"] 1(2,6) True lr by (simp add: Let_def)
      with interval_weight_between [OF x k] show ?thesis by simp
    next
      case False
      with 1 x k show ?thesis by simp
    qed
  qed
qed simp_all

text \<open>The scheduled weight only falls, from the first knot's to the last.\<close>

lemma weight_falls:
  assumes r: "schedule_made r" and u: "0 \<le> u" "u \<le> v" "weight_ppm r u = Inr w" "weight_ppm r v = Inr x"
  shows "x \<le> w \<and> rk_weight (last (rs_knots r)) \<le> x \<and> w \<le> rk_weight (hd (rs_knots r))"
proof -
  from schedule_knots [OF r] have k: "knots_ok (rs_knots r)" "rk_update (hd (rs_knots r)) = 0" by simp_all
  then have ne: "rs_knots r \<noteq> []" by (simp add: knots_ok_def)
  have top: "rk_weight (last (rs_knots r)) \<le> rk_weight (hd (rs_knots r))"
    using k(1) ne by (cases "rs_knots r") (auto simp: knots_ok_def)
  have b: "rk_weight (last (rs_knots r)) \<le> y \<and> y \<le> rk_weight (hd (rs_knots r))" if "weight_ppm r t = Inr y" "0 \<le> t" for t y
    using that interval_weight_between [OF _ k(1)] top by (auto simp: weight_ppm_def split: if_splits)
  have "x \<le> w"
  proof (cases "rk_update (last (rs_knots r)) \<le> v")
    case True
    then have "x = rk_weight (last (rs_knots r))" using u by (simp add: weight_ppm_def)
    with b [OF u(3,1)] show ?thesis by simp
  next
    case False
    with u have "interval_weight (rs_knots r) u = Inr w" "interval_weight (rs_knots r) v = Inr x"
      by (simp_all add: weight_ppm_def)
    from interval_mono [OF this u(2) k(1)] k(2) u(1) show ?thesis by simp
  qed
  with b [OF u(3,1)] b [OF u(4)] u(1,2) show ?thesis by simp
qed

section \<open>Masks\<close>

lemma stage_kinds:
  assumes m: "mk_stage_spec sid rank pool train validation kinds waits counts schedule = Inr s"
  shows "st_kinds s \<noteq> [] \<and> (\<forall>k \<in> set (st_kinds s). 0 \<le> k \<and> k \<le> 2) \<and> (0 \<in> set (st_kinds s) \<longrightarrow> st_waits s \<noteq> []) \<and>
    (\<forall>w \<in> set (st_waits s). w \<in> set (as_wait_choices default_action_spec))"
  using m unfolding mk_stage_spec_def check_stage_def Let_def list_all_iff
  by (simp split: option.split_asm if_split_asm) (clarify, simp)

lemma mask_row_shape: "length (mask_row n is) = n" "i < n \<Longrightarrow> mask_row n is ! i \<longleftrightarrow> i \<in> set is"
  by (simp_all add: mask_row_def)

lemma list_index_less: "x \<in> set xs \<Longrightarrow> list_index xs x < length xs"
  by (induction xs) auto

definition mask_ok :: "action_spec \<Rightarrow> bool list \<times> bool list \<Rightarrow> bool" where
  "mask_ok A = (\<lambda>(k, w). length k = 3 \<and> length w = length (as_wait_choices A) \<and> (\<exists>i < 3. k ! i) \<and>
     (k ! 0 \<longrightarrow> (\<exists>j < length w. w ! j)))"

lemma stage_masks:
  assumes "stage_made st"
  shows "\<exists>m. lane_masks default_action_spec st = Inr m \<and> mask_ok default_action_spec m"
proof -
  define A where "A = default_action_spec"
  have k: "st_kinds st \<noteq> []" "\<forall>k \<in> set (st_kinds st). 0 \<le> k \<and> k \<le> 2" "0 \<in> set (st_kinds st) \<longrightarrow> st_waits st \<noteq> []"
    "\<forall>w \<in> set (st_waits st). w \<in> set (as_wait_choices A)"
    using assms stage_kinds unfolding A_def stage_made_def by blast+
  obtain n where n: "n \<in> set (st_kinds st)" using k(1) by (cases "st_kinds st") auto
  then have "nat n < 3" "mask_row 3 (map nat (st_kinds st)) ! nat n" using k(2) by (auto simp: mask_row_shape)
  moreover have "\<exists>j < length (as_wait_choices A). mask_row (length (as_wait_choices A))
      (map (list_index (as_wait_choices A)) (st_waits st)) ! j" if z: "mask_row 3 (map nat (st_kinds st)) ! 0"
  proof -
    from z obtain m where "m \<in> set (st_kinds st)" "nat m = 0" by (auto simp: mask_row_shape)
    with k(2,3) obtain w where w: "w \<in> set (st_waits st)" by (metis last_in_set nat_eq_iff2 nat_0_iff order_antisym)
    with k(4) have "list_index (as_wait_choices A) w < length (as_wait_choices A)" by (intro list_index_less) auto
    with w show ?thesis by (auto simp: mask_row_shape)
  qed
  ultimately have "mask_ok A (mask_row 3 (map nat (st_kinds st)), mask_row (length (as_wait_choices A))
      (map (list_index (as_wait_choices A)) (st_waits st)))"
    by (auto simp: mask_ok_def mask_row_shape(1))
  then show ?thesis using k(4) unfolding A_def [symmetric] by (simp add: lane_masks_def list_all_iff)
qed

lemma masks_shape:
  assumes s: "inv_on E L s"
  shows "\<exists>ms. action_masks default_action_spec s = Inr ms \<and> length ms = cc_lanes s \<and>
    (\<forall>m \<in> set ms. mask_ok default_action_spec m)"
proof -
  have cs: "curriculum_made E (cc_spec s)" and l: "lists_ok s" using s by (simp_all add: inv_on_def)
  have one: "\<exists>m. lane_masks default_action_spec (stages_of s ! i) = Inr m \<and> mask_ok default_action_spec m"
    if "i \<in> set (cc_lane_stage s)" for i
  proof -
    have "i < length (stages_of s)" using that l phase_facts(7) [OF s] by (auto simp: lists_ok_def)
    then show ?thesis by (intro stage_masks curriculum_made_facts(3) [OF cs] stage_in)
  qed
  then obtain ms where ms: "action_masks default_action_spec s = Inr ms"
    unfolding action_masks_def using rmap_Inr_ex [of "\<lambda>i. lane_masks default_action_spec (stages_of s ! i)" "cc_lane_stage s"]
    by blast
  then have r: "list_all2 (\<lambda>i m. lane_masks default_action_spec (stages_of s ! i) = Inr m) (cc_lane_stage s) ms"
    by (simp only: action_masks_def rmap_Inr)
  have "mask_ok default_action_spec m" if "m \<in> set ms" for m
  proof -
    from all2_in [OF r that] obtain i where i: "i \<in> set (cc_lane_stage s)"
      "lane_masks default_action_spec (stages_of s ! i) = Inr m" by (elim bexE)
    from one [OF i(1)] i(2) show ?thesis by (elim exE conjE) simp
  qed
  moreover have "length ms = cc_lanes s" using list_all2_lengthD [OF r] l by (simp add: lists_ok_def)
  ultimately show ?thesis using ms by blast
qed

section \<open>Data splits\<close>

lemma later_pairs_cover:
  "x \<in> set xs \<Longrightarrow> y \<in> set xs \<Longrightarrow> x \<noteq> y \<Longrightarrow> (x, y) \<in> set (later_pairs xs) \<or> (y, x) \<in> set (later_pairs xs)"
  by (induction xs) auto

lemma split_pair_disjoint:
  assumes "check_split_pair rs (a, b) = Inr u" "r \<in> set rs" "rc_split r = a" "r' \<in> set rs" "rc_split r' = b"
  shows "rc_scenario_family r \<noteq> rc_scenario_family r' \<and> construction_identity r \<noteq> construction_identity r' \<and>
    state_identity r \<noteq> state_identity r'"
  using assms
  by (auto simp: check_split_pair_def shares_def split_recipes_def Let_def list_ex_iff split: if_splits)

lemma library_splits:
  assumes m: "mk_snapshot_library recipes = Inr lib"
    and r: "r \<in> set lib" "r' \<in> set lib" "rc_split r \<noteq> rc_split r'" "rc_split r \<in> set SPLITS" "rc_split r' \<in> set SPLITS"
  shows "rc_scenario_family r \<noteq> rc_scenario_family r' \<and> construction_identity r \<noteq> construction_identity r' \<and>
    state_identity r \<noteq> state_identity r'"
proof -
  let ?pop = "filter (\<lambda>s. split_recipes lib s \<noteq> []) SPLITS"
  obtain us where us: "rmap (check_split_pair lib) (later_pairs ?pop) = Inr us"
    using m by (auto simp: mk_snapshot_library_def rbind_Inr Let_def split: if_splits)
  have "rc_split r \<in> set ?pop" "rc_split r' \<in> set ?pop"
    using r by (auto simp: split_recipes_def filter_empty_conv)
  then have "(rc_split r, rc_split r') \<in> set (later_pairs ?pop) \<or> (rc_split r', rc_split r) \<in> set (later_pairs ?pop)"
    using r(3) by (rule later_pairs_cover)
  note cover = this
  have ck: "\<exists>u. check_split_pair lib p = Inr u" if "p \<in> set (later_pairs ?pop)" for p
    using us that rmap_Inr_ex [of "check_split_pair lib" "later_pairs ?pop"] by blast
  from cover show ?thesis
  proof
    assume "(rc_split r, rc_split r') \<in> set (later_pairs ?pop)"
    from ck [OF this] split_pair_disjoint [OF _ r(1) refl r(2) refl] show ?thesis by blast
  next
    assume "(rc_split r', rc_split r) \<in> set (later_pairs ?pop)"
    from ck [OF this] split_pair_disjoint [OF _ r(2) refl r(1) refl] show ?thesis by metis
  qed
qed

section \<open>Draws end\<close>

text \<open>Some digest of every stream is below the largest multiple of the bound, for bounds a digest can
  draw from at all.\<close>

definition accepting :: "cur_env \<Rightarrow> bool" where
  "accepting E \<longleftrightarrow> (\<forall>prefix k. 0 < k \<and> k < 2 ^ 256 \<longrightarrow>
     (\<exists>c. ce_sha256 E (prefix @ nat_text c) < 2 ^ 256 - 2 ^ 256 mod k))"

definition drawable :: "curriculum_spec \<Rightarrow> bool" where
  "drawable c \<longleftrightarrow> length (cs_stages c) < 2 ^ 256 \<and> (\<forall>s \<in> set (cs_stages c). length (st_train s) < 2 ^ 256)"

lemma sample_from_ends:
  "ce_sha256 E (prefix @ nat_text (c + d)) < 2 ^ 256 - 2 ^ 256 mod k \<Longrightarrow> \<exists>i. sample_from E prefix k c = Some i"
proof (induction d arbitrary: c)
  case 0
  then show ?case by (subst sample_from.simps) (simp add: Let_def del: power_numeral)
next
  case (Suc d)
  from Suc.IH [of "Suc c"] Suc.prems have "\<exists>i. sample_from E prefix k (Suc c) = Some i" by simp
  then show ?case by (subst sample_from.simps) (simp add: Let_def del: power_numeral)
qed

lemma sample_index_ends: "accepting E \<Longrightarrow> 0 < k \<Longrightarrow> k < 2 ^ 256 \<Longrightarrow> \<exists>i. sample_index E s lane n k = Some i"
proof -
  assume "accepting E" "0 < k" "k < 2 ^ 256"
  then obtain c where "ce_sha256 E (sample_prefix E s lane n @ nat_text c) < 2 ^ 256 - 2 ^ 256 mod k"
    unfolding accepting_def by blast
  then have "ce_sha256 E (sample_prefix E s lane n @ nat_text (0 + c)) < 2 ^ 256 - 2 ^ 256 mod k" by (simp only: add_0)
  from sample_from_ends [OF this] show ?thesis by (simp only: sample_index_def)
qed

lemma draw_ends:
  assumes "accepting E" "inv_on E L s" "lane < cc_lanes s" and small: "drawable (cc_spec s)"
  shows "\<exists>a. draw_assignment E s lane = Some a"
proof -
  have "\<exists>i. draw_stage E s lane = Some i"
  proof (cases "cc_phase s = Normal \<and> 0 < cc_highest s")
    case True
    have "(1000000::nat) < 2 ^ 256" by simp
    then obtain i where i: "sample_index E s lane (cc_ordinals s ! lane) 1000000 = Some i"
      using sample_index_ends [OF assms(1)] by (metis zero_less_numeral)
    have "cc_highest s < 2 ^ 256"
      using phase_facts(7) [OF assms(2)] small unfolding drawable_def stages_of_def by (elim conjE) (rule less_trans)
    with True obtain j where "sample_index E s lane (cc_ordinals s ! lane + 1) (cc_highest s) = Some j"
      using sample_index_ends [OF assms(1)] by blast
    with True i show ?thesis by (simp add: draw_stage_def Let_def)
  qed (auto simp: draw_stage_def Let_def)
  then obtain i where i: "draw_stage E s lane = Some i" ..
  have "i \<le> cc_highest s"
    using i phase_facts(8) [OF assms(2)] sample_from_less [of E _ "cc_highest s" 0 i]
    by (auto simp: draw_stage_def sample_index_def Let_def bind_eq_Some_conv split: if_splits intro: less_imp_le)
  then have n: "i < length (stages_of s)" using phase_facts(7) [OF assms(2)] by simp
  then have "0 < length (st_train (stages_of s ! i))" "length (st_train (stages_of s ! i)) < 2 ^ 256"
    using stage_facts(5) [OF assms(2)] small stage_in [OF n] by (simp, unfold drawable_def, blast)
  then obtain k where "sample_index E s lane (cc_ordinals s ! lane + 2) (length (st_train (stages_of s ! i))) = Some k"
    using sample_index_ends [OF assms(1)] by blast
  with i show ?thesis by (simp add: draw_assignment_def Let_def)
qed

lemma reserve_ends:
  assumes "accepting E" "inv_on E L s" "drawable (cc_spec s)"
  shows "\<exists>x t. reserve_assignments E ls s = Some (x, t)"
proof -
  have "\<exists>as. those (map (\<lambda>n. draw_assignment E s (nat n)) lanes) = Some as"
    if "list_all (\<lambda>n. 0 \<le> n \<and> n < int (cc_lanes s)) lanes" for lanes
    using that
  proof (induction lanes)
    case (Cons n lanes)
    then have "nat n < cc_lanes s" by auto
    from draw_ends [OF assms(1,2) this assms(3)] Cons show ?case by auto
  qed simp
  then show ?thesis by (auto simp: reserve_assignments_def Let_def bind_eq_Some_conv split: option.split)
qed

section \<open>Reservations\<close>

lemma those_map_eq: "those (map f xs) = Some ys \<Longrightarrow> (\<And>x y. f x = Some y \<Longrightarrow> g y = h x) \<Longrightarrow> map g ys = map h xs"
  by (induction xs arbitrary: ys) (auto split: option.splits)

lemma drawn_lane: "draw_assignment E s l = Some a \<Longrightarrow> ea_lane a = l \<and> ea_ordinal a = cc_ordinals s ! l"
  by (auto simp: draw_assignment_def Let_def bind_eq_Some_conv)

lemma reserved_facts:
  assumes "reserve_assignments E ls s = Some (Inr r, t)"
  shows "cc_outstanding s = None" "t = s\<lparr>cc_outstanding := Some r\<rparr>"
    "\<exists>lanes. plain_ints ls = Some lanes \<and> map (int \<circ> ea_lane) (rv_assignments r) = lanes"
    "distinct (map ea_lane (rv_assignments r))" "\<forall>a \<in> set (rv_assignments r). ea_lane a < cc_lanes s"
    "\<forall>a \<in> set (rv_assignments r). ea_ordinal a = cc_ordinals s ! ea_lane a"
proof -
  obtain lanes where l: "plain_ints ls = Some lanes" "distinct lanes" "list_all (\<lambda>n. 0 \<le> n \<and> n < int (cc_lanes s)) lanes"
      "those (map (\<lambda>n. draw_assignment E s (nat n)) lanes) = Some (rv_assignments r)"
    and t: "cc_outstanding s = None" "t = s\<lparr>cc_outstanding := Some r\<rparr>"
    using assms by (auto simp: reserve_assignments_def Let_def bind_eq_Some_conv split: if_splits option.splits)
  show "cc_outstanding s = None" "t = s\<lparr>cc_outstanding := Some r\<rparr>" by (fact t)+
  have m: "map ea_lane (rv_assignments r) = map nat lanes"
    by (rule those_map_eq [OF l(4)]) (simp add: drawn_lane)
  have "map nat lanes = map nat lanes \<and> map int (map nat lanes) = lanes"
    using l(3) by (induction lanes) auto
  with m l(1) show "\<exists>lanes. plain_ints ls = Some lanes \<and> map (int \<circ> ea_lane) (rv_assignments r) = lanes"
    by (metis map_map)
  have "inj_on nat (set lanes)" using l(3) by (auto simp: inj_on_def list_all_iff nat_eq_iff)
  then show "distinct (map ea_lane (rv_assignments r))" using l(2) m by (simp add: distinct_map)
  have "\<forall>l \<in> set (map ea_lane (rv_assignments r)). l < cc_lanes s" unfolding m using l(3) by (auto simp: list_all_iff)
  then show "\<forall>a \<in> set (rv_assignments r). ea_lane a < cc_lanes s" by simp
  have "\<forall>a \<in> set (rv_assignments r). ea_ordinal a = cc_ordinals s ! ea_lane a"
    by (rule those_all [OF l(4)]) (auto dest: drawn_lane)
  then show "\<forall>a \<in> set (rv_assignments r). ea_ordinal a = cc_ordinals s ! ea_lane a" .
qed

text \<open>What a commit writes.\<close>

definition holds :: "coordinator \<Rightarrow> coordinator \<Rightarrow> episode_assignment \<Rightarrow> bool" where
  "holds s t a \<longleftrightarrow> cc_lane_snapshot t ! ea_lane a = ea_snapshot_id a \<and>
     cc_ordinals t ! ea_lane a = cc_ordinals s ! ea_lane a + 1 \<and>
     st_id (stages_of t ! (cc_lane_stage t ! ea_lane a)) = ea_stage_id a"

definition lane_same :: "coordinator \<Rightarrow> coordinator \<Rightarrow> nat \<Rightarrow> bool" where
  "lane_same s t l \<longleftrightarrow> cc_lane_snapshot t ! l = cc_lane_snapshot s ! l \<and> cc_ordinals t ! l = cc_ordinals s ! l \<and>
     cc_lane_stage t ! l = cc_lane_stage s ! l \<and> cc_lane_weight t ! l = cc_lane_weight s ! l"

lemma prepared_one:
  assumes "prepare_assignment s a = Inr t" "lists_ok s" "ea_lane a < cc_lanes s"
  shows "holds s t a" "l \<noteq> ea_lane a \<Longrightarrow> lane_same s t l" "lists_ok s \<Longrightarrow> stages_of t = stages_of s"
proof -
  obtain i w where i: "stage_index s (ea_stage_id a) = Some i"
    and t: "t = s\<lparr>cc_lane_stage := (cc_lane_stage s)[ea_lane a := i],
      cc_lane_snapshot := (cc_lane_snapshot s)[ea_lane a := ea_snapshot_id a],
      cc_lane_weight := (cc_lane_weight s)[ea_lane a := w],
      cc_ordinals := (cc_ordinals s)[ea_lane a := cc_ordinals s ! ea_lane a + 1]\<rparr>"
    using assms(1) unfolding prepare_assignment_def Let_def by (auto simp: rbind_Inr split: option.splits if_splits)
  have "st_id (stages_of s ! i) = ea_stage_id a" using i by (auto simp: stage_index_def find_Some_iff)
  then show "holds s t a" using assms(2,3) by (simp add: t holds_def lists_ok_def)
  show "l \<noteq> ea_lane a \<Longrightarrow> lane_same s t l" by (simp add: t lane_same_def)
  show "stages_of t = stages_of s" by (simp add: t)
qed

lemma prepared_all:
  "inv_on E L s \<Longrightarrow> \<forall>a \<in> set as. assignment_ok s a \<Longrightarrow> distinct (map ea_lane as) \<Longrightarrow>
     prepare_assignments s as = Inr t \<Longrightarrow>
     (\<forall>a \<in> set as. holds s t a) \<and> (\<forall>l. l \<notin> ea_lane ` set as \<longrightarrow> lane_same s t l)"
proof (induction as arbitrary: s)
  case Nil
  then show ?case by (simp add: lane_same_def)
next
  case (Cons a as)
  obtain u where u: "prepare_assignment s a = Inr u" "same_gate s u" "inv_on E L u"
    using prepare_ok [OF Cons.prems(1), of a] Cons.prems(2) by auto
  have t: "prepare_assignments u as = Inr t" using Cons.prems(4) u(1) by simp
  have ok: "\<forall>x \<in> set as. assignment_ok u x" using Cons.prems(2) same_gate_assignment [OF u(2)] by simp
  have l: "lists_ok s" "ea_lane a < cc_lanes s" using Cons.prems(1,2) by (auto simp: inv_on_def assignment_ok_def)
  from Cons.IH [OF u(3) ok _ t] Cons.prems(3) have ih: "\<forall>x \<in> set as. holds u t x"
    "\<forall>l. l \<notin> ea_lane ` set as \<longrightarrow> lane_same u t l" by auto
  note one = prepared_one [OF u(1) l]
  have st: "stages_of t = stages_of u"
    using prepare_all_ok [OF u(3) ok] t by (auto simp: same_gate_def)
  have na: "ea_lane a \<notin> ea_lane ` set as" using Cons.prems(3) by auto
  then have "lane_same u t (ea_lane a)" using ih(2) by blast
  with one(1) st have "holds s t a" by (simp add: holds_def lane_same_def)
  moreover have "holds s t x" if "x \<in> set as" for x
  proof -
    have "ea_lane x \<noteq> ea_lane a" using that na by (metis image_eqI)
    from one(2) [OF this] ih(1) that show ?thesis by (auto simp: holds_def lane_same_def)
  qed
  moreover have "lane_same s t k" if "k \<notin> ea_lane ` set (a # as)" for k
    using that ih(2) one(2) [of k] by (auto simp: lane_same_def)
  ultimately show ?case by auto
qed

definition same_lanes :: "coordinator \<Rightarrow> coordinator \<Rightarrow> bool" where
  "same_lanes s t \<longleftrightarrow> cc_lane_snapshot t = cc_lane_snapshot s \<and> cc_ordinals t = cc_ordinals s \<and>
     cc_lane_stage t = cc_lane_stage s \<and> cc_lane_weight t = cc_lane_weight s \<and> cc_spec t = cc_spec s \<and>
     cc_outstanding t = cc_outstanding s"

lemma complete_same_lanes: "wp (complete_activation E) (\<lambda>_ t. same_lanes s t) (\<lambda>_ _. False) s"
  unfolding complete_activation_def append_cur_event_def wp_simps by (simp add: same_lanes_def)

lemma commit_effect:
  assumes s: "inv_on E L s" and r: "reserve_assignments E ls s = Some (Inr r, t)" "inv_on E L t"
  shows "\<exists>u. commit_assignments E r t = (Inr (), u) \<and> cc_outstanding u = None \<and>
    (\<forall>a \<in> set (rv_assignments r). holds s u a) \<and> (\<forall>l. l \<notin> ea_lane ` set (rv_assignments r) \<longrightarrow> lane_same s u l)"
proof -
  note f = reserved_facts [OF r(1)]
  have ok: "\<forall>a \<in> set (rv_assignments r). assignment_ok t a" using r(2) f(2) by (simp add: inv_on_def reserved_ok_def)
  from prepare_all_ok [OF r(2) ok] obtain v where v: "prepare_assignments t (rv_assignments r) = Inr v" "same_gate t v" by blast
  from prepared_all [OF r(2) ok f(4) v(1)] have h: "\<forall>a \<in> set (rv_assignments r). holds t v a"
    "\<forall>l. l \<notin> ea_lane ` set (rv_assignments r) \<longrightarrow> lane_same t v l" by simp_all
  define x where "x = t\<lparr>cc_lane_stage := cc_lane_stage v, cc_lane_snapshot := cc_lane_snapshot v,
       cc_lane_weight := cc_lane_weight v, cc_ordinals := cc_ordinals v, cc_outstanding := None\<rparr>"
  have g: "cc_outstanding t = Some r" "list_all (\<lambda>a. ea_ordinal a = cc_ordinals t ! ea_lane a) (rv_assignments r)"
    using f(2,6) by (simp_all add: list_all_iff)
  obtain y u where u: "complete_activation E x = (y, u)" by fastforce
  with complete_same_lanes [of E x] have "y = Inr ()" "same_lanes x u" by (auto simp: wp_def split: sum.splits)
  have "commit_assignments E r t = complete_activation E x"
    using g v(1) by (simp add: commit_assignments_def pbind_def pget_def pguard_def pret_def plift_def pmod_def x_def)
  then have "commit_assignments E r t = (Inr (), u)" using u \<open>y = Inr ()\<close> by simp
  moreover have "cc_outstanding u = None" using \<open>same_lanes x u\<close> by (simp add: same_lanes_def x_def)
  moreover have st: "stages_of u = stages_of v" using \<open>same_lanes x u\<close> v(2)
    by (auto simp: same_lanes_def x_def stages_of_def same_gate_def)
  have "holds s u a" if "a \<in> set (rv_assignments r)" for a
    using h(1) that \<open>same_lanes x u\<close> st f(2) by (simp add: holds_def same_lanes_def x_def)
  moreover have "lane_same s u l" if "l \<notin> ea_lane ` set (rv_assignments r)" for l
    using h(2) that \<open>same_lanes x u\<close> f(2) by (simp add: lane_same_def same_lanes_def x_def)
  ultimately show ?thesis by blast
qed

lemma rollback_effect:
  "reserve_assignments E ls s = Some (Inr r, t) \<Longrightarrow> rollback_assignments r t = (Inr (), s)"
proof -
  assume a: "reserve_assignments E ls s = Some (Inr r, t)"
  have "s\<lparr>cc_outstanding := None\<rparr> = s" using reserved_facts(1) [OF a] by (intro coordinator.equality) simp_all
  then show ?thesis using reserved_facts(2) [OF a]
    by (simp add: rollback_assignments_def pbind_def pget_def pguard_def pret_def pmod_def)
qed

end
