(* ===== verification/Curriculum_Props.thy ===== *)
theory Curriculum_Props
  imports Curriculum_Draws
begin

text \<open>
  The properties of the curriculum coordinator, and the small curriculum their witnesses run:
  two stages of one training and one validation snapshot each, two lanes, constant digests.
\<close>

section \<open>A small curriculum\<close>

text \<open>Two stages, each with a training and a validation snapshot, on constant digests.\<close>

definition demo_sha :: string where "demo_sha = replicate 64 (CHR ''a'')"

definition demo_cur_env :: cur_env where
  "demo_cur_env = \<lparr>ce_digest = \<lambda>_. demo_sha, ce_blob = \<lambda>_. demo_sha, ce_sha256 = \<lambda>_. 0\<rparr>"

lemma demo_digest [simp]: "ce_digest demo_cur_env v = demo_sha" "ce_sha256 demo_cur_env t = 0" "ce_blob demo_cur_env b = demo_sha"
  by (simp_all add: demo_cur_env_def)

lemma demo_sha_ok [simp]: "sha_text demo_sha" "demo_sha \<noteq> ZERO_SHA256" "demo_sha \<noteq> []"
  by (simp_all add: sha_text_def demo_sha_def hex_lower_def list_all_iff ZERO_SHA256_def)

lemma demo_hash_ok [simp]: "hash_ok demo_cur_env"
  by (simp add: hash_ok_def)

lemma demo_accepting [simp]: "accepting demo_cur_env"
proof -
  have "2 ^ 256 mod k < 2 ^ 256" if "0 < k" "k < 2 ^ 256" for k :: nat
    using mod_less_divisor [OF that(1)] that(2) by (rule less_trans)
  then show ?thesis by (simp add: accepting_def del: power_numeral)
qed

definition demo_recipe :: "char \<Rightarrow> char \<Rightarrow> string \<Rightarrow> snapshot_recipe" where
  "demo_recipe k stage split = \<lparr>rc_snapshot_id = [k], rc_stage_id = [stage], rc_split = split,
     rc_scenario_family = [k], rc_environment_pool = ''p'', rc_config_sha256 = demo_sha, rc_config_hash = 1,
     rc_reset_seed = (of_char k :: int), rc_action_spec_sha256 = demo_sha, rc_actions_hex = [],
     rc_expected_tick = (of_char k :: int), rc_expected_score = 0, rc_expected_state_hash = 0,
     rc_snapshot_sha256 = replicate 64 k, rc_runtime_sha256 = demo_sha, rc_generator_version = ''g''\<rparr>"

definition demo_args :: "snapshot_recipe \<Rightarrow> string \<Rightarrow> pyval" where
  "demo_args r k = py_of_json (the (map_of (the (json_obj (recipe_manifest r))) k))"

lemma demo_args_simps:
  "demo_args r ''snapshot_id'' = PyStr (rc_snapshot_id r)" "demo_args r ''stage_id'' = PyStr (rc_stage_id r)"
  "demo_args r ''split'' = PyStr (rc_split r)" "demo_args r ''scenario_family'' = PyStr (rc_scenario_family r)"
  "demo_args r ''environment_pool'' = PyStr (rc_environment_pool r)" "demo_args r ''config_sha256'' = PyStr (rc_config_sha256 r)"
  "demo_args r ''config_hash'' = PyInt (rc_config_hash r)" "demo_args r ''reset_seed'' = PyInt (rc_reset_seed r)"
  "demo_args r ''action_spec_sha256'' = PyStr (rc_action_spec_sha256 r)" "demo_args r ''expected_tick'' = PyInt (rc_expected_tick r)"
  "demo_args r ''expected_score'' = PyInt (rc_expected_score r)" "demo_args r ''expected_state_hash'' = PyInt (rc_expected_state_hash r)"
  "demo_args r ''snapshot_sha256'' = PyStr (rc_snapshot_sha256 r)" "demo_args r ''runtime_identity_sha256'' = PyStr (rc_runtime_sha256 r)"
  "demo_args r ''generator_version'' = PyStr (rc_generator_version r)" "demo_args r ''version'' = PyStr RECIPE_VERSION"
  by (simp_all add: demo_args_def recipe_manifest_def)

lemma demo_recipe_made:
  assumes "safe_char k" "(of_char k :: nat) < 128" "safe_char stage" "(of_char stage :: nat) < 128" "hex_lower k"
    "k \<noteq> CHR ''0''" "split \<in> set SPLITS"
  shows "mk_snapshot_recipe demo_cur_env (demo_args (demo_recipe k stage split)) [] = Inr (demo_recipe k stage split)"
proof -
  have g: "safe_identifier ''g'' \<and> is_ascii ''g'' \<and> safe_identifier ''p'' \<and> is_ascii ''p''"
    by (simp add: safe_identifier_def is_ascii_def safe_char_def Let_def)
  have i: "safe_identifier [k] \<and> is_ascii [k] \<and> safe_identifier [stage] \<and> is_ascii [stage]"
    using assms by (simp add: safe_identifier_def is_ascii_def)
  have z: "replicate 64 k \<noteq> ZERO_SHA256" using assms(6) by (simp add: ZERO_SHA256_def replicate_eq_replicate)
  have n: "0 \<le> (of_char k :: int) \<and> (of_char k :: int) < 2 ^ 32"
  proof -
    have "(of_char k :: int) = int (of_char k)" by (simp add: of_char_def)
    then show ?thesis using assms(2) by simp
  qed
  show ?thesis
    using g i z n assms(5,7)
    by (simp add: mk_snapshot_recipe_def demo_args_simps demo_recipe_def Let_def str_ok_def)
qed

definition demo_library :: snapshot_library where
  "demo_library = [demo_recipe (CHR ''a'') (CHR ''1'') ''train'', demo_recipe (CHR ''b'') (CHR ''1'') ''validation'',
     demo_recipe (CHR ''c'') (CHR ''2'') ''train'', demo_recipe (CHR ''d'') (CHR ''2'') ''validation'']"

lemma demo_library_made: "mk_snapshot_library demo_library = Inr demo_library"
proof -
  have "sort_key rc_snapshot_id demo_library = demo_library"
    by (rule sort_key_id_if_sorted) (simp add: demo_library_def demo_recipe_def less_eq_char_def)
  then show ?thesis
    by (simp add: mk_snapshot_library_def Let_def)
      (simp add: demo_library_def demo_recipe_def pool_identity_def SPLITS_def split_recipes_def check_split_pair_def
        shares_def construction_identity_def state_identity_def)
qed

lemma demo_library_ok: "library_made demo_cur_env demo_library"
proof -
  have "\<forall>r \<in> set demo_library. mk_snapshot_recipe demo_cur_env (demo_args r) [] = Inr r"
    by (simp add: demo_library_def demo_recipe_made safe_char_def hex_lower_def SPLITS_def)
  with demo_library_made show ?thesis unfolding library_made_def by blast
qed

definition demo_schedule :: reward_schedule where
  "demo_schedule = \<lparr>rs_id = ''r'', rs_knots = [\<lparr>rk_update = 0, rk_weight = 1000\<rparr>, \<lparr>rk_update = 10, rk_weight = 0\<rparr>]\<rparr>"

lemma demo_schedule_made: "schedule_made demo_schedule"
  unfolding schedule_made_def
proof (intro exI conjI)
  show "mk_reward_schedule ''r'' (rs_knots demo_schedule) = Inr demo_schedule"
    by (simp add: mk_reward_schedule_def demo_schedule_def is_ascii_def)
  have "\<forall>x \<in> set (rs_knots demo_schedule). mk_reward_knot (PyInt (rk_update x)) (PyInt (rk_weight x)) = Inr x"
    by (simp add: demo_schedule_def mk_reward_knot_def)
  then show "\<forall>x \<in> set (rs_knots demo_schedule). \<exists>u w. mk_reward_knot u w = Inr x" by blast
qed

definition demo_stage :: "char \<Rightarrow> int \<Rightarrow> char \<Rightarrow> char \<Rightarrow> stage_spec" where
  "demo_stage k rank train valid = \<lparr>st_id = [k], st_rank = rank, st_pool = ''p'', st_train = [[train]],
     st_validation = [[valid]], st_kinds = [1], st_waits = [], st_promotion_successes = 1, st_promotion_trials = 1,
     st_regression_successes = 1, st_regression_trials = 1, st_passes = 1, st_max_updates = 2,
     st_schedule = demo_schedule\<rparr>"

lemma demo_stage_made: "k \<in> set ''12'' \<Longrightarrow> 0 \<le> rank \<Longrightarrow> stage_made (demo_stage k rank train valid)"
proof -
  assume k: "k \<in> set ''12''" "0 \<le> rank"
  have "mk_stage_spec (PyStr [k]) (PyInt rank) ''p'' [[train]] [[valid]] [PyInt 1] [] [PyInt 1, PyInt 1, PyInt 1, PyInt 1, PyInt 1, PyInt 2]
      demo_schedule = Inr (demo_stage k rank train valid)"
    using k by (auto simp: mk_stage_spec_def check_stage_def demo_stage_def str_ok_def is_ascii_def plain_ints_def
        positive_int_def)
  moreover have "st_schedule (demo_stage k rank train valid) = demo_schedule" by (simp add: demo_stage_def)
  ultimately show ?thesis using demo_schedule_made unfolding stage_made_def by metis
qed

definition demo_curriculum :: curriculum_spec where
  "demo_curriculum = \<lparr>cs_id = ''c'', cs_library = demo_library,
     cs_stages = [demo_stage (CHR ''1'') 0 (CHR ''a'') (CHR ''b''), demo_stage (CHR ''2'') 1 (CHR ''c'') (CHR ''d'')],
     cs_evaluation_seed = 7, cs_prior_mix = 200000\<rparr>"

lemma demo_curriculum_made: "curriculum_made demo_cur_env demo_curriculum"
proof -
  have "mk_curriculum_spec ''c'' demo_library (cs_stages demo_curriculum) (PyInt 7) (PyInt 200000) = Inr demo_curriculum"
    by (simp add: mk_curriculum_spec_def demo_curriculum_def is_ascii_def demo_stage_def check_stage_snapshots_def
        check_snapshot_of_def library_get_def demo_library_def demo_recipe_def)
  moreover have "\<forall>s \<in> set (cs_stages demo_curriculum). stage_made s"
    by (simp add: demo_curriculum_def demo_stage_made)
  ultimately show ?thesis unfolding curriculum_made_def using demo_library_ok
    by (auto simp: demo_curriculum_def)
qed

text \<open>A coordinator of two lanes.\<close>

definition demo_cur :: coordinator where
  "demo_cur = \<lparr>cc_spec = demo_curriculum, cc_lanes = 2, cc_learner_seed = 5, cc_highest = 0, cc_focus = 0,
     cc_phase = Normal, cc_completed = 0, cc_unlocks = [0, - 1], cc_streak = 0, cc_lane_stage = [0, 0],
     cc_lane_snapshot = [[], []], cc_lane_weight = [1000, 1000], cc_ordinals = [0, 0], cc_outstanding = None,
     cc_reports = [], cc_policies = {}, cc_evaluations = 0, cc_pending = None, cc_event_head = ZERO_SHA256\<rparr>"

lemma demo_cur_init: "coordinator_init demo_curriculum (PyInt 2) (PyInt 5) = Inr demo_cur"
  by (simp add: coordinator_init_def int_ok_def uint64_def demo_curriculum_def demo_stage_def demo_schedule_def
      weight_ppm_def demo_cur_def Let_def numeral_2_eq_2)

lemma demo_inv: "cur_inv demo_cur_env demo_cur"
  using init_inv [OF demo_curriculum_made demo_cur_init] by simp

text \<open>A request for the first gate, the report that passes it, and what follows.\<close>

definition demo_policy :: string where "demo_policy = replicate 64 (CHR ''b'')"

lemma demo_policy_ok [simp]: "sha_text demo_policy"
  by (simp add: demo_policy_def hex_lower_def)

definition demo_request :: validation_request where
  "demo_request = \<lparr>vq_curriculum_sha256 = demo_sha, vq_gate_ordinal = 0, vq_completed_update = 0,
     vq_evaluation_seed = 7, vq_policy_sha256 = demo_policy, vq_evaluator_sha256 = demo_sha,
     vq_stages = [\<lparr>vs_stage_id = ''1'', vs_snapshot_ids = [''b''], vs_episodes = 1\<rparr>]\<rparr>"

definition demo_asked :: coordinator where
  "demo_asked = demo_cur\<lparr>cc_evaluations := 1, cc_pending := Some demo_request\<rparr>"

lemma demo_stages: "stages_of demo_cur = cs_stages demo_curriculum" "stages_of demo_asked = cs_stages demo_curriculum"
  by (simp_all add: stages_of_def demo_cur_def demo_asked_def)

lemma demo_shas [simp]: "curriculum_sha256 demo_cur_env c = demo_sha" "report_sha256 demo_cur_env p = demo_sha"
  "request_id demo_cur_env q = demo_sha" "assignment_sha256 demo_cur_env c = demo_sha"
  by (simp_all add: curriculum_sha256_def report_sha256_def request_id_def assignment_sha256_def)

lemma demo_asks: "request_validation demo_cur_env (PyStr demo_policy) (PyStr demo_sha) demo_cur = (Inr demo_request, demo_asked)"
proof -
  have "expected_stages demo_cur 0 = Inr (vq_stages demo_request)"
    by (simp add: expected_stages_def demo_stages demo_curriculum_def demo_stage_def stage_request_of_def
        mk_stage_request_def nonempty_str_def str_ok_def int_ok_def demo_request_def)
  then show ?thesis
    by (simp add: request_validation_def pbind_def pget_def pguard_def pret_def plift_def pmod_def demo_cur_def
        mk_validation_request_def int_ok_def uint64_def demo_request_def demo_asked_def demo_curriculum_def)
qed

lemma demo_asked_inv: "cur_inv demo_cur_env demo_asked"
  using request_next [OF demo_hash_ok demo_inv, of "PyStr demo_policy" "PyStr demo_sha"] demo_asks
  by (simp add: wp_def next_on_def)

definition demo_report :: validation_report where
  "demo_report = \<lparr>vp_request_id = demo_sha, vp_policy_sha256 = demo_policy, vp_evaluator_sha256 = demo_sha,
     vp_results = [\<lparr>vr_stage_id = ''1'', vr_successes = 1, vr_episodes = 1, vr_snapshot_ids = [''b''],
       vr_outcomes = [\<lparr>vo_snapshot_id = ''b'', vo_repetition = 0, vo_policy_seed = 0, vo_success = True\<rparr>]\<rparr>]\<rparr>"

definition demo_promoted :: coordinator where
  "demo_promoted = demo_asked\<lparr>cc_reports := [(demo_sha, demo_sha)], cc_policies := {demo_policy}, cc_pending := None,
     cc_highest := 1, cc_focus := 1, cc_phase := Activation, cc_event_head := demo_sha\<rparr>"

definition demo_decision :: gate_decision where
  "demo_decision = \<lparr>gd_phase = Activation, gd_highest = ''2'', gd_focus = ''2'', gd_promoted = True,
     gd_remediation = None, gd_reason = ''promotion gate passed''\<rparr>"

lemma demo_checked: "check_report demo_cur_env demo_report demo_asked = Inr ()"
  by (simp add: check_report_def demo_report_def demo_asked_def demo_request_def required_ids_def demo_cur_def
      stages_of_def demo_curriculum_def demo_stage_def check_result_def expected_outcome_def episode_seed_def result_for_def)

lemma demo_promotes: "record_validation demo_cur_env demo_report demo_asked = (Inr demo_decision, demo_promoted)"
proof -
  have "failing_prior demo_report (demo_asked\<lparr>cc_reports := x, cc_policies := y, cc_pending := None\<rparr>) = None" for x y
    by (simp add: failing_prior_def demo_asked_def demo_cur_def)
  moreover have "cc_reports demo_asked = []" "cc_phase demo_asked = Normal"
    by (simp_all add: demo_asked_def demo_cur_def)
  ultimately show ?thesis
    using demo_checked
    by (simp add: record_validation_def decide_gate_def clear_remediation_def promotion_gate_def promote_def
        pbind_def pget_def pguard_def pwhen_def pret_def plift_def pmod_def make_decision_def report_event_def append_cur_event_def Let_def)
     (simp add: demo_report_def demo_asked_def demo_cur_def stages_of_def demo_curriculum_def demo_stage_def
        gate_passes_def result_for_def demo_promoted_def demo_decision_def)
qed

lemma demo_promoted_inv: "cur_inv demo_cur_env demo_promoted"
  using record_next [OF demo_hash_ok demo_asked_inv, of demo_report] demo_promotes
  by (simp add: wp_def next_on_def)

definition demo_reservation :: assignment_reservation where
  "demo_reservation = \<lparr>rv_assignments = [\<lparr>ea_lane = 1, ea_ordinal = 0, ea_stage_id = ''1'', ea_snapshot_id = ''a''\<rparr>,
     \<lparr>ea_lane = 0, ea_ordinal = 0, ea_stage_id = ''1'', ea_snapshot_id = ''a''\<rparr>], rv_state_hash = demo_sha\<rparr>"

lemma demo_reserves: "reserve_assignments demo_cur_env [PyInt 1, PyInt 0] demo_cur =
    Some (Inr demo_reservation, demo_cur\<lparr>cc_outstanding := Some demo_reservation\<rparr>)"
proof -
  have "draw_assignment demo_cur_env demo_cur l = Some \<lparr>ea_lane = l, ea_ordinal = 0, ea_stage_id = ''1'', ea_snapshot_id = ''a''\<rparr>"
    if "l < 2" for l
  proof -
    have "sample_index demo_cur_env demo_cur l n 1 = Some 0" for n
      unfolding sample_index_def by (subst sample_from.simps) simp
    then show ?thesis using that
      by (auto simp: draw_assignment_def draw_stage_def demo_cur_def stages_of_def demo_curriculum_def demo_stage_def
          less_Suc_eq numeral_2_eq_2)
  qed
  then show ?thesis
    by (simp add: reserve_assignments_def plain_ints_def demo_reservation_def Let_def)
      (simp add: demo_cur_def)
qed

lemma demo_reserved_inv: "cur_inv demo_cur_env (demo_cur\<lparr>cc_outstanding := Some demo_reservation\<rparr>)"
  using reserve_next [OF demo_inv demo_reserves] by (simp add: next_on_def)

section \<open>Properties\<close>

lemma demo_steps: "cur_step demo_cur_env L demo_cur None demo_asked" "cur_step demo_cur_env L demo_asked None demo_promoted"
  using cur_step.request [OF demo_asks] cur_step.judge [OF demo_promotes] by (simp_all add: raised_def)

lemma demo_runs: "cur_runs demo_cur_env L demo_cur demo_promoted"
  using runs_step [OF runs_step [OF _ demo_steps(1)] demo_steps(2)] by (simp add: cur_runs_def)

lemma demo_calls: "cur_calls demo_cur_env L demo_cur demo_promoted"
  using calls_call [OF calls_call [OF _ call_step [OF demo_steps(1)]] call_step [OF demo_steps(2)]] by (simp add: cur_calls_def)



lemma ladder_stuck: "(ladder n)\<^sup>*\<^sup>* x y \<Longrightarrow> snd x = Complete \<or> snd x = BudgetExhausted \<Longrightarrow> y = x"
  by (induction rule: rtranclp_induct) (auto elim: ladder_from_complete ladder_from_exhausted)

text \<open>C11: The coordinator refines the ladder of stages: whatever a call does, an activation of any lanes
  included, the stage and the phase it leaves follow by steps of the ladder from those it found, and a
  completed or exhausted curriculum keeps both; the one exception is a call that loads an accepted
  checkpoint, which may leave any state that satisfies the invariant.  The curriculum, the lanes and
  the learner seed never change.\<close>

theorem coordinator_climbs_the_ladder:
  assumes "hash_ok E" "inv_on E L s" "cur_call E L s x t"
  shows "inv_on E L t \<and> same_config s t \<and>
    (cur_step E L s x t \<longrightarrow> (ladder (length (stages_of s)))\<^sup>*\<^sup>* (place s) (place t) \<and>
       (cc_phase s = Complete \<or> cc_phase s = BudgetExhausted \<longrightarrow> place t = place s)) \<and>
    (cur_step E L s x t \<or> (\<exists>d y. coordinator_load E d s = (y, t) \<and> x = raised y))"
proof -
  have "(ladder (length (stages_of s)))\<^sup>*\<^sup>* (place s) (place t) \<and>
       (cc_phase s = Complete \<or> cc_phase s = BudgetExhausted \<longrightarrow> place t = place s)" if "cur_step E L s x t"
  proof -
    have n: "next_on E L s t" using step_next [OF assms(1,2) that] by blast
    then have l: "(ladder (length (stages_of s)))\<^sup>*\<^sup>* (place s) (place t)" by (simp add: next_on_def)
    with ladder_stuck [OF l] show ?thesis by (auto simp: place_def)
  qed
  moreover have "cur_step E L s x t \<or> (\<exists>d y. coordinator_load E d s = (y, t) \<and> x = raised y)"
    using assms(3) by cases auto
  ultimately show ?thesis using call_sound [OF assms] by blast
qed

theorem coordinator_climbs_the_ladder_witness:
  "(ladder 2)\<^sup>*\<^sup>* (0, Normal) (1, Activation)"
proof -
  have "length (stages_of demo_asked) = 2" unfolding demo_stages by (simp add: demo_curriculum_def)
  moreover have "place demo_asked = (0, Normal)" "place demo_promoted = (1, Activation)"
    by (simp_all add: place_def demo_promoted_def demo_asked_def demo_cur_def)
  moreover note coordinator_climbs_the_ladder [OF demo_hash_ok demo_asked_inv call_step [OF demo_steps(2)]] demo_steps(2) [of UNIV]
  ultimately show ?thesis by metis
qed

text \<open>C4: A stage is unlocked, or the curriculum completed, only on fresh evidence: the report answers the
  pending request for the present update with a policy never evaluated before, covers every unlocked
  stage with exactly the requested outcomes, meets every earlier stage's regression floor, and is the
  last pass the stage's streak needs.\<close>

theorem promotion_needs_evidence:
  assumes "inv_on E L s" "cc_phase s \<noteq> Complete" "record_validation E p s = (Inr d, t)"
    and "gd_promoted d \<or> cc_phase t = Complete"
  shows "evidence_for E p s \<and> top_passes p s \<and> floors_hold p s"
  using record_evidence [OF assms(1,2), of p] assms(3,4) by (auto simp: wp_def)

theorem promotion_needs_evidence_witness: "evidence_for demo_cur_env demo_report demo_asked \<and>
    top_passes demo_report demo_asked \<and> floors_hold demo_report demo_asked"
  by (rule promotion_needs_evidence [OF demo_asked_inv _ demo_promotes])
    (simp_all add: demo_asked_def demo_cur_def demo_decision_def)

text \<open>C31: A call that raises, an activation of any lanes and a rejected checkpoint included, leaves the coordinator as it was.\<close>

theorem raising_calls_change_nothing:
  assumes "hash_ok E" "inv_on E L s" "cur_call E L s (Some e) t"
  shows "t = s"
  using call_sound [OF assms] by simp

lemma demo_blocked: "cur_call demo_cur_env L demo_asked
    (Some (Exn RuntimeError ''curriculum cannot train while validation is pending'')) demo_asked"
proof -
  have "advance_update demo_cur_env demo_asked =
      (Inl (Exn RuntimeError ''curriculum cannot train while validation is pending''), demo_asked)"
    by (simp add: advance_update_def pbind_def pget_def pguard_def praise_def demo_asked_def)
  from call_step [OF cur_step.advance [OF this], of L] show ?thesis by (simp add: raised_def)
qed

theorem raising_calls_change_nothing_witness: "\<exists>e t. cur_call demo_cur_env {} demo_asked (Some e) t \<and> t = demo_asked"
  using raising_calls_change_nothing [OF demo_hash_ok fewer_lanes [OF demo_asked_inv] demo_blocked, of "{}"] demo_blocked [of "{}"]
  by blast


lemma demo_cur_captured: "\<exists>d. coordinator_state_dict demo_cur_env demo_asked = (Inr d, demo_asked)"
  by (simp add: coordinator_state_dict_def pbind_def pget_def pguard_def pret_def Let_def demo_asked_def demo_cur_def)


text \<open>C22: Whatever a checkpoint holds, if it is accepted then the coordinator loaded from it satisfies the
  invariant, for the curriculum, the lanes and the learner seed it had.\<close>

theorem accepted_checkpoints_are_sound:
  assumes "curriculum_made E (cc_spec s)" "0 < cc_lanes s" "coordinator_load E d s = (Inr (), t)"
  shows "cur_inv E t \<and> same_config s t"
proof -
  have "load_state E d s = Inr t" using assms(3)
    by (cases "load_state E d s") (auto simp: coordinator_load_def pbind_def pget_def plift_def pmod_def)
  then show ?thesis by (rule load_inv [OF assms(1,2)])
qed

theorem accepted_checkpoints_are_sound_witness: "cur_inv demo_cur_env demo_asked \<and> same_config demo_cur demo_asked"
proof (rule accepted_checkpoints_are_sound)
  show "curriculum_made demo_cur_env (cc_spec demo_cur)" using demo_curriculum_made by (simp add: demo_cur_def)
  show "0 < cc_lanes demo_cur" by (simp add: demo_cur_def)
  have "cc_outstanding demo_asked = None" "same_config demo_asked demo_cur"
    by (simp_all add: demo_asked_def demo_cur_def same_config_def)
  from load_stored [OF demo_hash_ok demo_asked_inv this]
  show "coordinator_load demo_cur_env (coordinator_core demo_cur_env demo_asked @ [(''state_sha256'',
      JStr (ce_digest demo_cur_env (JObj (coordinator_core demo_cur_env demo_asked))))]) demo_cur = (Inr (), demo_asked)"
    by (simp add: coordinator_load_def pbind_def pget_def plift_def pmod_def)
qed

text \<open>C23: A reservation is a transaction: rolling it back restores the coordinator, no other can be taken or
  settled meanwhile, and committing it starts exactly the reserved lanes on their snapshots, each with
  its ordinal advanced by one, and leaves every other lane alone.\<close>

theorem reservations_are_transactions:
  assumes "inv_on E L s" "reserve_assignments E ls s = Some (Inr r, t)" "q \<noteq> r"
  shows "rollback_assignments r t = (Inr (), s) \<and> fst (commit_assignments E q t) \<noteq> Inr () \<and>
    (\<exists>e. reserve_assignments E ls' t = Some (Inl e, t)) \<and>
    (\<exists>u. commit_assignments E r t = (Inr (), u) \<and> cc_outstanding u = None \<and>
      (\<forall>a \<in> set (rv_assignments r). holds s u a) \<and> (\<forall>l. l \<notin> ea_lane ` set (rv_assignments r) \<longrightarrow> lane_same s u l))"
proof -
  have "inv_on E L t" using reserve_next [OF assms(1,2)] by (simp add: next_on_def)
  note commit_effect [OF assms(1,2) this]
  moreover have "cc_outstanding t = Some r" using reserved_facts(2) [OF assms(2)] by simp
  then have "fst (commit_assignments E q t) \<noteq> Inr () \<and> (\<exists>e. reserve_assignments E ls' t = Some (Inl e, t))"
    using assms(3) by (simp add: commit_assignments_def reserve_assignments_def pbind_def pget_def pguard_def praise_def)
  ultimately show ?thesis using rollback_effect [OF assms(2)] by blast
qed

theorem reservations_are_transactions_witness:
  "\<exists>u. commit_assignments demo_cur_env demo_reservation (demo_cur\<lparr>cc_outstanding := Some demo_reservation\<rparr>) = (Inr (), u) \<and>
     cc_outstanding u = None \<and> (\<forall>a \<in> set (rv_assignments demo_reservation). holds demo_cur u a)"
proof -
  have "demo_reservation\<lparr>rv_state_hash := []\<rparr> \<noteq> demo_reservation"
    using demo_sha_ok(3) [symmetric] by (simp add: demo_reservation_def)
  from reservations_are_transactions [OF demo_inv demo_reserves this] show ?thesis by blast
qed

text \<open>C24: Training ends: from an open gate with no request pending, exactly the updates left in the stage's
  budget all succeed and close it for the final validation.\<close>

theorem training_budget_closes:
  assumes "hash_ok E" "inv_on E L s" "cc_phase s = Normal \<or> cc_phase s = Remediation" "cc_pending s = None"
  shows "0 < left s \<and> (\<exists>t. updates E (left s) s = (Inr (), t) \<and> cc_phase t = BudgetValidation)"
proof -
  obtain x t where u: "updates E (left s) s = (x, t)" by fastforce
  with updates_close [OF assms] have "x = Inr ()" "cc_phase t = BudgetValidation" by (auto simp: wp_def split: sum.splits)
  with u left_pos [OF assms(2,3)] show ?thesis by blast
qed

theorem training_budget_closes_witness:
  "\<exists>t. updates demo_cur_env 2 demo_cur = (Inr (), t) \<and> cc_phase t = BudgetValidation"
proof -
  have "left demo_cur = 2" by (simp add: left_def demo_cur_def stages_of_def demo_curriculum_def demo_stage_def)
  with training_budget_closes [OF demo_hash_ok demo_inv] show ?thesis by (simp add: demo_cur_def)
qed

text \<open>The masks a policy samples under have the declared shape: one per lane, three action kinds, one
  entry per wait of the schema, with some kind enabled, and some wait when waiting is.\<close>

theorem action_masks_fit_the_policy:
  assumes "inv_on E L s"
  shows "\<exists>ms. action_masks default_action_spec s = Inr ms \<and> length ms = cc_lanes s \<and>
    (\<forall>m \<in> set ms. mask_ok default_action_spec m)"
  by (rule masks_shape [OF assms])

theorem action_masks_fit_the_policy_witness: "\<exists>ms. action_masks default_action_spec demo_cur = Inr ms \<and> length ms = 2"
  using action_masks_fit_the_policy [OF demo_inv] by (auto simp: demo_cur_def)

text \<open>C32: Data splits do not leak: two recipes of one library in different splits share neither scenario
  family, nor construction, nor reachable state.\<close>

theorem data_splits_do_not_leak:
  assumes "mk_snapshot_library recipes = Inr lib" "r \<in> set lib" "r' \<in> set lib" "rc_split r \<noteq> rc_split r'"
    and "rc_split r \<in> set SPLITS" "rc_split r' \<in> set SPLITS"
  shows "rc_scenario_family r \<noteq> rc_scenario_family r' \<and> construction_identity r \<noteq> construction_identity r' \<and>
    state_identity r \<noteq> state_identity r'"
  by (rule library_splits [OF assms])

theorem data_splits_do_not_leak_witness:
  "state_identity (demo_recipe (CHR ''a'') (CHR ''1'') ''train'') \<noteq> state_identity (demo_recipe (CHR ''b'') (CHR ''1'') ''validation'')"
proof -
  let ?r = "demo_recipe (CHR ''a'') (CHR ''1'') ''train''" and ?r' = "demo_recipe (CHR ''b'') (CHR ''1'') ''validation''"
  have "?r \<in> set demo_library" "?r' \<in> set demo_library" by (simp_all add: demo_library_def)
  moreover have "rc_split ?r \<noteq> rc_split ?r'" "rc_split ?r \<in> set SPLITS" "rc_split ?r' \<in> set SPLITS"
    by (simp_all add: demo_recipe_def SPLITS_def)
  ultimately show ?thesis using data_splits_do_not_leak [OF demo_library_made] by blast
qed

text \<open>The shaping weight of a schedule is defined at every update and only falls, from the first
  knot's weight to the last's, within the range of a ppm.\<close>

theorem shaping_only_falls:
  assumes "schedule_made r" "0 \<le> u" "u \<le> v"
  shows "\<exists>w x. weight_ppm r u = Inr w \<and> weight_ppm r v = Inr x \<and> 0 \<le> x \<and> x \<le> w \<and> w \<le> 1000000 \<and>
    rk_weight (last (rs_knots r)) \<le> x \<and> w \<le> rk_weight (hd (rs_knots r))"
proof -
  have "0 \<le> v" using assms(2,3) by simp
  obtain w where w: "weight_ppm r u = Inr w" "w \<le> 1000000" using weight_ppm_ok [OF assms(1,2)] by blast
  obtain x where x: "weight_ppm r v = Inr x" "0 \<le> x" using weight_ppm_ok [OF assms(1) \<open>0 \<le> v\<close>] by blast
  from weight_falls [OF assms w(1) x(1)] w x show ?thesis by blast
qed

theorem shaping_only_falls_witness: "weight_ppm demo_schedule 3 = Inr 700 \<and> weight_ppm demo_schedule 11 = Inr 0"
  using shaping_only_falls [OF demo_schedule_made, of 3 11] by (simp add: weight_ppm_def demo_schedule_def)

text \<open>Reserving episodes returns, whatever lanes are asked for, when every stream of digests has a value
  below the largest multiple of the bound drawn from.\<close>

theorem reservations_return:
  assumes "accepting E" "inv_on E L s" "drawable (cc_spec s)"
  shows "\<exists>x t. reserve_assignments E ls s = Some (x, t)"
  by (rule reserve_ends [OF assms])

theorem reservations_return_witness: "\<exists>x t. reserve_assignments demo_cur_env [PyInt 0] demo_cur = Some (x, t)"
  by (rule reservations_return [OF demo_accepting demo_inv])
    (simp add: drawable_def demo_cur_def demo_curriculum_def demo_stage_def)

end
