(* ===== verification/Curriculum_Init_Props.thy ===== *)
theory Curriculum_Init_Props
  imports Curriculum_Init Curriculum_Props
begin

text \<open>
  The initializer as a transaction between the coordinator and the environment, under the contract of a
  vector environment, which \<open>PaddedVectorEnv\<close> meets (\<open>Curriculum_Padded\<close>).
\<close>

section \<open>What the environment promises\<close>

definition reads_at :: "('w, 'a) py \<Rightarrow> 'w \<Rightarrow> bool" where
  "reads_at m w \<longleftrightarrow> snd (m w) = w"

text \<open>What a vector environment promises.  \<open>ok\<close> are the well-formed worlds, \<open>held\<close> is what the lanes of a
  world hold, and \<open>bad\<close> are the worlds of an environment that has failed closed.  On well-formed worlds
  the queries change nothing; a restore that raises leaves the lanes holding what they held, or its own
  rollback failed and the environment has failed closed; a restore that returns leaves a well-formed
  world; and lanes that were cloned, overwritten and then restored from the clone hold what they held.\<close>

definition env_contract :: "('w \<Rightarrow> bool) \<Rightarrow> ('w \<Rightarrow> 'l) \<Rightarrow> ('w \<Rightarrow> bool) \<Rightarrow> 'w lane_env \<Rightarrow> bool" where
  "env_contract ok held bad V \<longleftrightarrow> (\<forall>w. ok w \<longrightarrow>
     reads_at (le_runtime V) w \<and> (\<forall>ls. reads_at (le_config_hash_many V ls) w) \<and>
     (\<forall>ls. reads_at (le_clone_state_many V ls) w) \<and> (\<forall>ls. reads_at (le_state_hash_many V ls) w) \<and>
     (\<forall>ls bs e w'. le_restore_many V ls bs w = (Inl e, w') \<longrightarrow> held w' = held w \<or> bad w') \<and>
     (\<forall>ls bs obs w'. le_restore_many V ls bs w = (Inr obs, w') \<longrightarrow> ok w') \<and>
     (\<forall>ls bs snaps obs w' obs' w''. le_clone_state_many V ls w = (Inr bs, w) \<longrightarrow>
        le_restore_many V ls snaps w = (Inr obs, w') \<longrightarrow> le_restore_many V ls bs w' = (Inr obs', w'') \<longrightarrow>
        held w'' = held w))"

lemma reads_wp: "reads_at m w \<Longrightarrow> wp m Q E w = (case fst (m w) of Inl e \<Rightarrow> E e w | Inr x \<Rightarrow> Q x w)"
proof -
  assume "reads_at m w"
  then have "m w = (fst (m w), w)" unfolding reads_at_def by (metis prod.collapse)
  then show ?thesis unfolding wp_def by (metis (no_types, lifting) case_prod_conv)
qed

lemma contract_facts:
  assumes "env_contract ok held bad V" "ok w"
  shows "reads_at (le_runtime V) w" "reads_at (le_config_hash_many V ls) w" "reads_at (le_clone_state_many V ls) w"
    "reads_at (le_state_hash_many V ls) w"
    "le_restore_many V ls bs w = (Inl e, w') \<Longrightarrow> held w' = held w \<or> bad w'"
    "le_restore_many V ls bs w = (Inr obs, w') \<Longrightarrow> ok w'"
    "le_clone_state_many V ls w = (Inr bs, w) \<Longrightarrow> le_restore_many V ls snaps w = (Inr obs, w') \<Longrightarrow>
       le_restore_many V ls bs w' = (Inr obs', w'') \<Longrightarrow> held w'' = held w"
  using assms unfolding env_contract_def by blast+

text \<open>A lane subset was cloned, and then overwritten or not.\<close>

definition overwritten :: "'w lane_env \<Rightarrow> nat list \<Rightarrow> 'w \<Rightarrow> byte list list \<Rightarrow> 'w \<Rightarrow> bool" where
  "overwritten V ls w b w' \<longleftrightarrow> le_clone_state_many V ls w = (Inr b, w) \<and>
     (\<exists>snaps obs. le_restore_many V ls snaps w = (Inr obs, w'))"

lemma overwritten_back:
  assumes V: "env_contract ok held bad V" and w: "ok w" and o: "overwritten V ls w b w'"
    and x: "le_restore_many V ls b w' = (x, w'')"
  shows "case x of Inl _ \<Rightarrow> held w'' = held w' \<or> bad w'' | Inr _ \<Rightarrow> held w'' = held w"
proof -
  obtain snaps obs where r: "le_clone_state_many V ls w = (Inr b, w)" "le_restore_many V ls snaps w = (Inr obs, w')"
    using o by (auto simp: overwritten_def)
  note w' = contract_facts(6) [OF V w r(2)]
  show ?thesis
  proof (cases x)
    case (Inl e)
    with contract_facts(5) [OF V w', of ls b e w''] x show ?thesis by simp
  next
    case (Inr obs')
    with contract_facts(7) [OF V w r] x show ?thesis by simp
  qed
qed

lemma commit_raises: "wp (commit_assignments E r) (\<lambda>_ _. True) (\<lambda>_ t. t = s) s"
proof -
  have "wp (complete_activation E) (\<lambda>_ _. True) (\<lambda>_ u. u = s) t" for t
    by (rule wp_mono [OF complete_same_lanes]) auto
  then show ?thesis unfolding commit_assignments_def wp_simps by (auto split: sum.split)
qed

section \<open>Restoring the reserved episodes\<close>

definition same_owner :: "'w initializer \<Rightarrow> 'w initializer \<Rightarrow> bool" where
  "same_owner s t \<longleftrightarrow> in_store t = in_store s \<and> in_pool t = in_pool s \<and> in_runtime t = in_runtime s \<and>
     in_config_hash t = in_config_hash s"

text \<open>The lanes hold what they held, or the environment has failed closed.\<close>

definition kept_lanes :: "('w \<Rightarrow> 'l) \<Rightarrow> ('w \<Rightarrow> bool) \<Rightarrow> 'w initializer \<Rightarrow> 'w initializer \<Rightarrow> bool" where
  "kept_lanes held bad s t \<longleftrightarrow> held (in_world t) = held (in_world s) \<or> bad (in_world t)"

definition undone :: "('w \<Rightarrow> 'l) \<Rightarrow> ('w \<Rightarrow> bool) \<Rightarrow> 'w lane_env \<Rightarrow> nat list \<Rightarrow> 'w initializer
    \<Rightarrow> 'w initializer \<times> bool \<times> byte list list \<Rightarrow> bool" where
  "undone held bad V ls s = (\<lambda>(t, m, b). in_coord t = in_coord s \<and> in_pending t = in_pending s \<and> in_backups t = in_backups s \<and>
     same_owner s t \<and> (if m then overwritten V ls (in_world s) b (in_world t) else kept_lanes held bad s t))"

text \<open>What a restored episode is: a live decision boundary with the recipe's identity.\<close>

definition restored_ok :: "snapshot_recipe \<Rightarrow> snapshot_obs \<Rightarrow> bool" where
  "restored_ok r o' \<longleftrightarrow> observation_identity o' = Inr (rc_expected_tick r, rc_expected_score r)"

lemma checked_identities:
  "rmap check_restored (zip rs (zip os hs)) = Inr us \<Longrightarrow> length os = length rs \<Longrightarrow> length hs = length rs \<Longrightarrow>
     list_all2 restored_ok rs os \<and> hs = map rc_expected_state_hash rs"
proof (induction rs arbitrary: os hs us)
  case (Cons r rs)
  then obtain o' os' h hs' where "os = o' # os'" "hs = h # hs'" by (metis length_Suc_conv)
  with Cons show ?case by (auto simp: check_restored_def rbind_Inr restored_ok_def)
qed simp

definition placed :: "'w lane_env \<Rightarrow> bool \<Rightarrow> assignment_reservation \<Rightarrow> snapshot_recipe list \<Rightarrow> 'w initializer
    \<Rightarrow> episode_init \<Rightarrow> 'w initializer \<Rightarrow> bool" where
  "placed V defer r recipes s i t \<longleftrightarrow> ei_lanes i = map ea_lane (rv_assignments r) \<and>
     ei_labels i = map rc_snapshot_id recipes \<and> ei_seeds i = map rc_reset_seed recipes \<and>
     list_all2 restored_ok recipes (ei_observations i) \<and> same_owner s t \<and>
     (if defer then in_coord t = in_coord s \<and> in_pending t = Some r \<and>
        overwritten V (ei_lanes i) (in_world s) (in_backups t) (in_world t)
      else in_pending t = in_pending s)"

lemma restore_episodes_wp:
  assumes V: "env_contract ok held bad V" and w0: "ok (in_world s)" and n: "length recipes = length (rv_assignments r)"
  shows "wp (restore_episodes E V defer r (map ea_lane (rv_assignments r)) recipes snapshots)
    (\<lambda>i (t, _). placed V defer r recipes s i t)
    (\<lambda>_. undone held bad V (map ea_lane (rv_assignments r)) s) (s, False, [])"
proof -
  let ?ls = "map ea_lane (rv_assignments r)"
  note c = contract_facts [OF V w0]
  have last: "wp ((if defer then pbind (pget snd) (\<lambda>(_, b). pzoom (pmod (\<lambda>s. s\<lparr>in_pending := Some r, in_backups := b\<rparr>)))
       else pzoom (on_coord (commit_assignments E r)))) (\<lambda>_ (t, _). placed V defer r recipes s i t) (\<lambda>_. undone held bad V ?ls s)
       (s\<lparr>in_world := w\<rparr>, True, b)"
    if o: "overwritten V ?ls (in_world s) b w" and i: "i = \<lparr>ei_lanes = ?ls, ei_observations = os,
       ei_seeds = map rc_reset_seed recipes, ei_labels = map rc_snapshot_id recipes\<rparr>"
      and os: "list_all2 restored_ok recipes os" for w b i os
  proof (cases "defer")
    case True
    with o os show ?thesis by (simp add: wp_simps placed_def same_owner_def i)
  next
    case False
    have "wp (commit_assignments E r) (\<lambda>_ c. placed V False r recipes s i (s\<lparr>in_world := w, in_coord := c\<rparr>))
        (\<lambda>_ c. undone held bad V ?ls s (s\<lparr>in_world := w, in_coord := c\<rparr>, True, b)) (in_coord s)"
      by (rule wp_mono [OF commit_raises]) (use o os in \<open>auto simp: placed_def same_owner_def i undone_def\<close>)
    with False show ?thesis by (simp add: wp_simps)
  qed
  have unmoved: "undone held bad V ?ls s (s, False, b)" for b by (simp add: undone_def same_owner_def kept_lanes_def)
  have moved: "undone held bad V ?ls s (s\<lparr>in_world := w\<rparr>, True, b)" if "overwritten V ?ls (in_world s) b w" for w b
    using that by (simp add: undone_def same_owner_def kept_lanes_def)
  have idem: "s\<lparr>in_world := in_world s\<rparr> = s" by simp
  have clone: "le_clone_state_many V ?ls (in_world s) = (Inr b, in_world s)"
    if "fst (le_clone_state_many V ?ls (in_world s)) = Inr b" for b
    using that c(3) by (metis prod.collapse reads_at_def)
  have after: "wp (settle_episodes E V defer r ?ls recipes os)
      (\<lambda>i (t, _). placed V defer r recipes s i t) (\<lambda>_. undone held bad V ?ls s) (s\<lparr>in_world := w\<rparr>, False, b)"
    if o: "overwritten V ?ls (in_world s) b w" for os w b
  proof -
    from o c(6) have okw: "ok w" by (auto simp: overwritten_def)
    note h = reads_wp [OF contract_facts(4) [OF V okw]]
    show ?thesis
  proof (cases "fst (le_state_hash_many V ?ls w)")
    case (Inl e)
    with moved [OF o] show ?thesis by (simp add: settle_episodes_def wp_pbind wp_plocal wp_pzoom wp_on_world h)
  next
    case (Inr hs)
    show ?thesis
    proof (cases "length os = length ?ls \<and> length hs = length ?ls")
      case False
      with Inr moved [OF o] show ?thesis
        by (auto simp: settle_episodes_def wp_pbind wp_plocal wp_pzoom wp_on_world h wp_pguard)
    next
      case True
      show ?thesis
      proof (cases "rmap check_restored (zip recipes (zip os hs))")
        case (Inl e)
        with Inr True moved [OF o] show ?thesis
          by (simp add: settle_episodes_def wp_pbind wp_plocal wp_pzoom wp_on_world h wp_pguard wp_plift)
      next
        case ok: (Inr us)
        from checked_identities [OF ok] True n have "list_all2 restored_ok recipes os" by simp
        from last [OF o refl this] Inr True ok show ?thesis
          by (simp add: settle_episodes_def wp_pbind wp_plocal wp_pzoom wp_on_world h wp_pguard wp_plift wp_pret Let_def
              del: wp_if if_split)
      qed
    qed
  qed
  qed
  have mid: "wp (le_restore_many V ?ls snapshots) (\<lambda>os w. wp (settle_episodes E V defer r ?ls recipes os)
      (\<lambda>i (t, _). placed V defer r recipes s i t) (\<lambda>_. undone held bad V ?ls s) (s\<lparr>in_world := w\<rparr>, False, b))
      (\<lambda>_ w. undone held bad V ?ls s (s\<lparr>in_world := w\<rparr>, False, b)) (in_world s)"
    if "fst (le_clone_state_many V ?ls (in_world s)) = Inr b" for b
  proof (cases "le_restore_many V ?ls snapshots (in_world s)")
    case (Pair x w)
    show ?thesis
    proof (cases x)
      case (Inl e)
      with Pair c(5) have "held w = held (in_world s) \<or> bad w" by simp
      with Pair Inl show ?thesis by (simp add: wp_def undone_def same_owner_def kept_lanes_def)
    next
      case (Inr os)
      with Pair clone [OF that] have "overwritten V ?ls (in_world s) b w" by (auto simp: overwritten_def)
      from after [OF this] Pair Inr show ?thesis by (simp add: wp_def)
    qed
  qed
  show ?thesis
    unfolding restore_episodes_def
    using mid unmoved
    by (simp add: wp_pbind wp_pget wp_pguard wp_pzoom wp_on_world reads_wp [OF c(2)] reads_wp [OF c(3)] wp_plocal
        split: sum.split)
qed

section \<open>Initialization as a transaction\<close>

definition rollback_failed :: exn where
  "rollback_failed = Exn RuntimeError ''curriculum snapshot initialization rollback failed''"

text \<open>The store holds the blobs of the coordinator's own library.\<close>

definition ini_ok :: "cur_env \<Rightarrow> 'w initializer \<Rightarrow> bool" where
  "ini_ok E s \<longleftrightarrow> inv_on E {} (in_coord s) \<and> bs_library (in_store s) = cs_library (cc_spec (in_coord s)) \<and>
     set (map fst (bs_blobs (in_store s))) = set (map rc_snapshot_id (bs_library (in_store s)))"

text \<open>The coordinator and the fields of the object are as before.\<close>

definition as_before :: "'w initializer \<Rightarrow> 'w initializer \<Rightarrow> bool" where
  "as_before s t \<longleftrightarrow> in_coord t = in_coord s \<and> in_pending t = in_pending s \<and> in_backups t = in_backups s \<and>
     same_owner s t"

lemma same_owner_refl [simp]: "same_owner s s"
  by (simp add: same_owner_def)

lemma rolled_back:
  "cc_outstanding c = Some r \<Longrightarrow> rollback_assignments r c = (Inr (), c\<lparr>cc_outstanding := None\<rparr>)"
  by (simp add: rollback_assignments_def pbind_def pget_def pguard_def pret_def pmod_def)

lemma undo_wp:
  assumes V: "env_contract ok held bad V" and w0: "ok (in_world s)" and u: "undone held bad V ls s (t, l)" and r: "cc_outstanding (in_coord s) = Some r"
  shows "wp (undo_episodes V r ls l e) (\<lambda>_ _. False) (\<lambda>e' v. as_before (s\<lparr>in_coord := (in_coord s)\<lparr>cc_outstanding := None\<rparr>\<rparr>) v \<and>
    (e' = rollback_failed \<or> kept_lanes held bad s v)) t"
proof -
  obtain m b where l: "l = (m, b)" by fastforce
  have c: "in_coord t = in_coord s" "in_pending t = in_pending s" "in_backups t = in_backups s" "same_owner s t"
    and w: "if m then overwritten V ls (in_world s) b (in_world t) else kept_lanes held bad s t"
    using u by (simp_all add: undone_def l)
  have roll: "wp (rollback_assignments r) Q E' (in_coord s) = Q () ((in_coord s)\<lparr>cc_outstanding := None\<rparr>)" for Q E'
    using rolled_back [OF r] by (simp add: wp_def)
  show ?thesis
  proof (cases m)
    case False
    with c w show ?thesis
      by (simp add: undo_episodes_def l wp_simps roll as_before_def same_owner_def kept_lanes_def)
  next
    case True
    obtain x w' where x: "le_restore_many V ls b (in_world t) = (x, w')" by fastforce
    from overwritten_back [OF V w0 _ x] w True have
      "case x of Inl _ \<Rightarrow> held w' = held (in_world t) \<or> bad w' | Inr _ \<Rightarrow> held w' = held (in_world s)" by simp
    then show ?thesis using c True x
      by (cases x) (simp_all add: undo_episodes_def l wp_simps roll as_before_def same_owner_def kept_lanes_def rollback_failed_def
          wp_def [of "le_restore_many V ls b"])
  qed
qed

text \<open>The recipes and the blobs of a reservation are found.\<close>

lemma found:
  assumes s: "ini_ok E s" and a: "\<forall>a \<in> set as. assignment_ok (in_coord s) a"
  shows "\<exists>recipes snapshots. rmap (\<lambda>a. library_get (bs_library (in_store s)) (ea_snapshot_id a)) as = Inr recipes \<and>
    rmap (\<lambda>x. blob_get (in_store s) (rc_snapshot_id x)) recipes = Inr snapshots \<and>
    map rc_snapshot_id recipes = map ea_snapshot_id as"
proof -
  have inv: "inv_on E {} (in_coord s)" and lib: "bs_library (in_store s) = cs_library (cc_spec (in_coord s))"
    and cover: "set (map fst (bs_blobs (in_store s))) = set (map rc_snapshot_id (bs_library (in_store s)))"
    using s by (simp_all add: ini_ok_def)
  have one: "\<exists>x y. library_get (bs_library (in_store s)) (ea_snapshot_id a) = Inr x \<and> rc_snapshot_id x = ea_snapshot_id a \<and>
      blob_get (in_store s) (rc_snapshot_id x) = Inr y" if "a \<in> set as" for a
  proof -
    from assms(2) that obtain i where i: "i \<le> cc_highest (in_coord s)"
      "ea_snapshot_id a \<in> set (st_train (stages_of (in_coord s) ! i))" by (auto simp: assignment_ok_def)
    then have "i < length (stages_of (in_coord s))" using phase_facts(7) [OF inv] by simp
    from curriculum_made_facts(4) [OF _ stage_in [OF this] i(2)] inv obtain x where
      x: "library_get (bs_library (in_store s)) (ea_snapshot_id a) = Inr x"
      by (auto simp: inv_on_def train_recipe_def lib)
    then have "x \<in> set (bs_library (in_store s))" "rc_snapshot_id x = ea_snapshot_id a"
      by (auto simp: library_get_def find_Some_iff split: option.splits)
    moreover from this cover have "rc_snapshot_id x \<in> fst ` set (bs_blobs (in_store s))"
      by (metis imageI list.set_map)
    then obtain y where "map_of (bs_blobs (in_store s)) (rc_snapshot_id x) = Some y"
      by (metis map_of_eq_None_iff not_None_eq)
    ultimately show ?thesis using x by (auto simp: blob_get_def)
  qed
  show ?thesis using one
  proof (induction as)
    case (Cons a as)
    then show ?case by fastforce
  qed simp
qed

lemma place_wp:
  assumes V: "env_contract ok held bad V" and w0: "ok (in_world s)" and s: "ini_ok E s" and r: "cc_outstanding (in_coord s) = Some r"
  shows "wp (place_episodes E V defer r)
    (\<lambda>i t. \<exists>recipes. map rc_snapshot_id recipes = map ea_snapshot_id (rv_assignments r) \<and> placed V defer r recipes s i t)
    (\<lambda>e t. as_before (s\<lparr>in_coord := (in_coord s)\<lparr>cc_outstanding := None\<rparr>\<rparr>) t \<and>
      (e = rollback_failed \<or> kept_lanes held bad s t)) s"
proof -
  have "\<forall>a \<in> set (rv_assignments r). assignment_ok (in_coord s) a" using s r by (simp add: ini_ok_def inv_on_def reserved_ok_def)
  from found [OF s this] obtain recipes snapshots where f:
    "rmap (\<lambda>a. library_get (bs_library (in_store s)) (ea_snapshot_id a)) (rv_assignments r) = Inr recipes"
    "rmap (\<lambda>x. blob_get (in_store s) (rc_snapshot_id x)) recipes = Inr snapshots"
    "map rc_snapshot_id recipes = map ea_snapshot_id (rv_assignments r)" by blast
  have n: "length recipes = length (rv_assignments r)" using f(1) by (rule rmap_length)
  have "wp (restore_episodes E V defer r (map ea_lane (rv_assignments r)) recipes snapshots)
    (\<lambda>i (t, _). placed V defer r recipes s i t)
    (\<lambda>e (t, l). wp (undo_episodes V r (map ea_lane (rv_assignments r)) l e)
      (\<lambda>i t. \<exists>recipes. map rc_snapshot_id recipes = map ea_snapshot_id (rv_assignments r) \<and> placed V defer r recipes s i t)
      (\<lambda>e t. as_before (s\<lparr>in_coord := (in_coord s)\<lparr>cc_outstanding := None\<rparr>\<rparr>) t \<and>
      (e = rollback_failed \<or> kept_lanes held bad s t)) t) (s, False, [])"
    by (rule wp_mono [OF restore_episodes_wp [OF V w0 n]]) (auto intro!: wp_mono [OF undo_wp [OF V w0 _ r]])
  then have "wp (pframe_base (False, []) (restore_episodes E V defer r (map ea_lane (rv_assignments r)) recipes snapshots)
      (undo_episodes V r (map ea_lane (rv_assignments r))))
    (\<lambda>i t. \<exists>recipes. map rc_snapshot_id recipes = map ea_snapshot_id (rv_assignments r) \<and> placed V defer r recipes s i t)
    (\<lambda>e t. as_before (s\<lparr>in_coord := (in_coord s)\<lparr>cc_outstanding := None\<rparr>\<rparr>) t \<and>
      (e = rollback_failed \<or> kept_lanes held bad s t)) s"
    unfolding wp_pframe_base by (rule wp_mono) (use f(3) in \<open>auto split: prod.splits\<close>)
  with f(1,2) show ?thesis unfolding place_episodes_def Let_def wp_pbind wp_pget wp_plift by simp
qed

text \<open>The start of a call moves nothing but the set of attested environments.\<close>

definition begun :: "'w initializer \<Rightarrow> 'w initializer \<Rightarrow> bool" where
  "begun s t \<longleftrightarrow> as_before s t \<and> in_world t = in_world s"

lemma begin_wp:
  assumes V: "env_contract ok held bad V" and w0: "ok (in_world s)"
  shows "wp (begin_initialize V k d) (\<lambda>_ t. begun s t \<and> in_pending s = None \<and> d \<noteq> None) (\<lambda>_. begun s) s"
  unfolding begin_initialize_def attest_def
  by (simp add: wp_simps reads_wp [OF contract_facts(1) [OF V w0]] begun_def as_before_def same_owner_def split: sum.split)

lemma initialize_cases:
  assumes V: "env_contract ok held bad V" and w0: "ok (in_world s)" and s: "ini_ok E s" and i: "initialize E V k ls d s = Some (x, t)"
  obtains e where "x = Inl e" "as_before s t" "e = rollback_failed \<or> kept_lanes held bad s t"
  | y b r c recipes where "x = Inr y" "d = Some b" "reserve_assignments E ls (in_coord s) = Some (Inr r, c)"
      "inv_on E {} c" "in_pending s = None" "map rc_snapshot_id recipes = map ea_snapshot_id (rv_assignments r)"
      "placed V b r recipes (s\<lparr>in_coord := c\<rparr>) y t"
proof -
  obtain b0 u where b: "begin_initialize V k d s = (b0, u)" by fastforce
  show thesis
  proof (cases b0)
    case (Inl e)
    with b i begin_wp [OF V w0, of k d] have "x = Inl e" "begun s t" by (simp_all add: initialize_def wp_def)
    then show thesis using that(1) [of e] by (simp add: begun_def kept_lanes_def)
  next
    case (Inr _)
    with b begin_wp [OF V w0, of k d] have u: "as_before s u" "in_pending s = None" "d \<noteq> None"
      and wu: "in_world u = in_world s" by (simp_all add: wp_def begun_def)
    then obtain dv where d: "d = Some dv" by blast
    have cu: "in_coord u = in_coord s" using u(1) by (simp add: as_before_def)
    from i b Inr obtain y c where rs: "reserve_assignments E ls (in_coord s) = Some (y, c)"
      and rest: "(case y of Inl e \<Rightarrow> Some (Inl e, u\<lparr>in_coord := c\<rparr>)
        | Inr r \<Rightarrow> Some (place_episodes E V (the d) r (u\<lparr>in_coord := c\<rparr>))) = Some (x, t)"
      by (auto simp: initialize_def bind_eq_Some_conv cu)
    have inv: "inv_on E {} (in_coord s)" using s by (simp add: ini_ok_def)
    show thesis
    proof (cases y)
      case (Inl e)
      then have "c = in_coord s" using rs
        by (auto simp: reserve_assignments_def Let_def bind_eq_Some_conv split: if_splits option.splits)
      then show thesis
        using that(1) [of e] rest Inl u(1) wu by (auto simp: as_before_def same_owner_def kept_lanes_def)
    next
      case (Inr r)
      note rf = reserved_facts [OF rs [unfolded Inr]]
      have c: "next_on E {} (in_coord s) c" by (rule reserve_next [OF inv rs])
      then have ci: "inv_on E {} c" by (simp add: next_on_def)
      have sp: "cc_spec c = cc_spec (in_coord s)" by (simp add: rf(2))
      have ok: "ini_ok E (u\<lparr>in_coord := c\<rparr>)" using s u(1) ci sp by (simp add: ini_ok_def as_before_def same_owner_def)
      have out: "cc_outstanding (in_coord (u\<lparr>in_coord := c\<rparr>)) = Some r" by (simp add: rf(2))
      have okw: "ok (in_world (u\<lparr>in_coord := c\<rparr>))" using w0 wu by simp
      have "c\<lparr>cc_outstanding := None\<rparr> = in_coord s" using rf(1,2) by (intro coordinator.equality) simp_all
      then have undo: "as_before (u\<lparr>in_coord := c\<lparr>cc_outstanding := None\<rparr>\<rparr>) v \<Longrightarrow> as_before s v" for v
        using u(1) by (simp add: as_before_def same_owner_def)
      from rest Inr d have p: "place_episodes E V dv r (u\<lparr>in_coord := c\<rparr>) = (x, t)" by simp
      show thesis
      proof (cases x)
        case (Inl e)
        with p place_wp [OF V okw ok out, of dv] have "as_before s t" "e = rollback_failed \<or> kept_lanes held bad s t"
          using undo wu by (auto simp: wp_def kept_lanes_def)
        with Inl that(1) show thesis by blast
      next
        case y: (Inr z)
        with p place_wp [OF V okw ok out, of dv] obtain recipes where
          "map rc_snapshot_id recipes = map ea_snapshot_id (rv_assignments r)"
          "placed V dv r recipes (u\<lparr>in_coord := c\<rparr>) z t" by (auto simp: wp_def)
        moreover from this(2) u(1) wu have "placed V dv r recipes (s\<lparr>in_coord := c\<rparr>) z t"
          by (auto simp: placed_def as_before_def same_owner_def)
        ultimately show thesis using that(2) [OF y d rs [unfolded Inr] ci u(2)] by blast
      qed
    qed
  qed
qed

section \<open>Properties\<close>

text \<open>A blob store made for the curriculum's library, and an initializer made with it, fit each other.\<close>

lemma made_initializer:
  assumes "inv_on E {} c" "mk_blob_store E (cs_library (cc_spec c)) blobs = Inr st"
    "initializer_init True c w st pool runtime = Inr s"
  shows "ini_ok E s \<and> in_pending s = None"
proof -
  obtain owned where st: "st = \<lparr>bs_library = cs_library (cc_spec c), bs_blobs = owned\<rparr>"
    "rmap (take_blob E (cs_library (cc_spec c)) blobs) (cs_library (cc_spec c)) = Inr owned"
    using assms(2) by (auto simp: mk_blob_store_def rbind_Inr split: if_splits)
  have "map fst owned = map rc_snapshot_id (cs_library (cc_spec c))"
    using st(2) unfolding rmap_Inr
    by (induction rule: list_all2_induct) (auto simp: take_blob_def rbind_Inr split: option.splits)
  then have "set (map fst owned) = set (map rc_snapshot_id (cs_library (cc_spec c)))" by simp
  moreover have "in_coord s = c" "in_store s = st" "in_pending s = None"
    using assms(3) by (auto simp: initializer_init_def rbind_Inr Let_def split: if_splits option.splits)
  ultimately show ?thesis using assms(1) by (simp add: ini_ok_def st(1))
qed


lemma same_owner_trans: "same_owner s t \<Longrightarrow> same_owner t u \<Longrightarrow> same_owner s u"
  by (simp add: same_owner_def)


text \<open>An environment of lanes that hold bytes; the gauge it reports says whether a state is live.\<close>

definition demo_lanes :: "int \<Rightarrow> (nat \<Rightarrow> byte list) lane_env" where
  "demo_lanes g = \<lparr>le_runtime = \<lambda>w. (Inr demo_sha, w),
     le_config_hash_many = \<lambda>ls w. (Inr (replicate (length ls) 1), w),
     le_clone_state_many = \<lambda>ls w. (Inr (map w ls), w),
     le_restore_many = \<lambda>ls bs w. (Inr (map (\<lambda>_. \<lparr>ob_tick = PyInt 97, ob_score = PyInt 0, ob_gauge_max = PyInt g,
       ob_over = False\<rparr>) ls), \<lambda>k. case map_of (zip ls bs) k of None \<Rightarrow> w k | Some b \<Rightarrow> b),
     le_state_hash_many = \<lambda>ls w. (Inr (replicate (length ls) 0), w)\<rparr>"

lemma demo_contract: "env_contract (\<lambda>_. True) (\<lambda>w. w) (\<lambda>_. False) (demo_lanes g)"
proof -
  have undo: "(case map_of (zip ls (map w ls)) k of None \<Rightarrow> (case map_of (zip ls snaps) k of None \<Rightarrow> w k | Some b \<Rightarrow> b)
      | Some b \<Rightarrow> b) = w k" for ls snaps k and w :: "nat \<Rightarrow> byte list"
  proof (cases "k \<in> set ls")
    case False
    then have "map_of (zip ls snaps) k = None" by (auto simp: map_of_eq_None_iff dest: set_zip_leftD)
    with False show ?thesis by (simp add: map_of_zip_map)
  qed (simp add: map_of_zip_map)
  then show ?thesis by (auto simp: env_contract_def reads_at_def demo_lanes_def)
qed

definition demo_initializer :: "(nat \<Rightarrow> byte list) initializer" where
  "demo_initializer = \<lparr>in_coord = demo_cur, in_world = (\<lambda>_. []),
     in_store = \<lparr>bs_library = demo_library, bs_blobs = map (\<lambda>r. (rc_snapshot_id r, [])) demo_library\<rparr>,
     in_pool = ''p'', in_runtime = demo_sha, in_config_hash = 1, in_pending = None, in_backups = [], in_attested = {}\<rparr>"

lemma demo_ini_ok: "ini_ok demo_cur_env demo_initializer"
  using fewer_lanes [OF demo_inv, of "{}"] by (simp add: ini_ok_def demo_initializer_def demo_cur_def demo_curriculum_def)

lemma demo_found: "library_get demo_library ''a'' = Inr (demo_recipe (CHR ''a'') (CHR ''1'') ''train'')"
  by (simp add: library_get_def demo_library_def demo_recipe_def)

lemma demo_begins: "begin_initialize (demo_lanes g) 3 (Some d) demo_initializer = (Inr (), demo_initializer\<lparr>in_attested := {3}\<rparr>)"
  by (simp add: begin_initialize_def attest_def pbind_def pget_def pguard_def pret_def pwhen_def pmod_def on_world_def
      demo_lanes_def demo_initializer_def)

text \<open>Both outcomes of placing the episodes of the two lanes.\<close>

lemma demo_place: "initialize demo_cur_env (demo_lanes g) 3 [PyInt 1, PyInt 0] (Some d) demo_initializer =
    Some (place_episodes demo_cur_env (demo_lanes g) d demo_reservation
      (demo_initializer\<lparr>in_attested := {3}, in_coord := demo_cur\<lparr>cc_outstanding := Some demo_reservation\<rparr>\<rparr>))"
proof -
  have coord: "in_coord (demo_initializer\<lparr>in_attested := {3}\<rparr>) = demo_cur" by (simp add: demo_initializer_def)
  show ?thesis unfolding initialize_def demo_begins prod.case sum.case coord demo_reserves by simp
qed

lemma demo_found_blob: "map_of (map (\<lambda>r. (rc_snapshot_id r, [])) demo_library) ''a'' = Some []"
  by (simp add: demo_library_def demo_recipe_def)

lemmas demo_place_defs = place_episodes_def pbind_def pget_def plift_def demo_reservation_def demo_initializer_def
  demo_found demo_found_blob blob_get_def pframe_base_def restore_episodes_def settle_episodes_def pguard_def pret_def
  pzoom_def on_world_def plocal_def demo_lanes_def demo_recipe_def check_restored_def observation_identity_def int_ok_def pmod_def Let_def

lemma demo_placed:
  "\<exists>i t. initialize demo_cur_env (demo_lanes 5) 3 [PyInt 1, PyInt 0] (Some True) demo_initializer = Some (Inr i, t)"
  unfolding demo_place by (simp add: demo_place_defs)

lemma demo_not_placed:
  "\<exists>t. initialize demo_cur_env (demo_lanes 0) 3 [PyInt 1, PyInt 0] (Some False) demo_initializer =
     Some (Inl (value_error ''snapshot is not a live policy decision boundary''), t)"
  unfolding demo_place by (simp add: demo_place_defs undo_episodes_def pattempt_def praise_def on_coord_def rollback_assignments_def)



end
