(* ===== verification/Padded_Memory.thy ===== *)
theory Padded_Memory
  imports Exact_Decode_Props
begin

text \<open>
  The packed buffers of \<open>irisu_env/padded.py\<close>: \<open>ExactPaddedObservation\<close> and
  \<open>ExactPaddedTransition\<close> are ctypes structures over reused memory, so a buffer is the bytes it
  holds, what an earlier step left in the slots behind the live bodies included.  The typed fields
  of \<open>native.py\<close>'s views are read from these bytes.
\<close>

section \<open>Layout\<close>

definition OBSERVATION_BYTES :: nat where "OBSERVATION_BYTES = 112 + 196 * 100"
definition TRANSITION_BYTES :: nat where "TRANSITION_BYTES = OBSERVATION_BYTES + 84"

definition poke :: "byte list \<Rightarrow> nat \<Rightarrow> byte list \<Rightarrow> byte list" where
  "poke mem i bs = take i mem @ bs @ drop (i + length bs) mem"

text \<open>A structure that ctypes has just created.\<close>

definition blank_observation :: "byte list" where
  "blank_observation = replicate OBSERVATION_BYTES 0"

definition blank_transition :: "byte list" where
  "blank_transition = replicate TRANSITION_BYTES 0"

section \<open>Writing\<close>

definition header_fields :: "exact_observation \<Rightarrow> int list" where
  "header_fields o' = [xo_tick o', xo_score o', xo_gauge o', xo_gauge_max o', xo_qualifying_clear_count o',
     uint (xo_field_x o'), uint (xo_field_y o'), uint (xo_field_width o'), uint (xo_field_height o'),
     uint (xo_side_wall_top o'), uint (xo_side_wall_bottom o'), xo_level o', xo_active_colors o',
     xo_spawn_interval_ticks o', xo_highest_chain o', int (length (xo_bodies o')),
     of_bool (xo_terminated o'), of_bool (xo_truncated o'), of_bool (xo_left_held o'),
     of_bool (xo_right_held o')]"

definition body_fields :: "exact_body \<Rightarrow> int list" where
  "body_fields b = [xb_age_ticks b, xb_remaining_lifetime b, xb_rot_timer b, uint (xb_x b), uint (xb_y b),
     uint (xb_vx b), uint (xb_vy b), uint (xb_angle b), uint (xb_angular_velocity b), uint (xb_size b),
     xb_id b, xb_color b, xb_chain_id b, xb_projectile_hits b, xb_kind b, xb_shape b, xb_lifecycle b, 0]"

text \<open>\<open>_copy_exact_observation\<close>; setting an integer field keeps its low bytes, as \<open>field_enc\<close> does.\<close>

definition copy_exact_observation :: "exact_observation \<Rightarrow> byte list \<Rightarrow> byte list res" where
  "copy_exact_observation source destination =
     (if int (length (xo_bodies source)) > BODY_CAPACITY
      then Inl (Exn NativeError ''exact observation exceeds padded body capacity'')
      else Inr (poke destination 0 (pack OBSERVATION_HEADER (header_fields source) @
        concat (map (\<lambda>b. pack BODY (body_fields b)) (xo_bodies source)))))"

text \<open>\<open>_decode_exact_transition\<close>: two \<open>memmove\<close>s of a payload whose lengths were validated.\<close>

definition decode_exact_transition :: "byte list \<Rightarrow> byte list \<Rightarrow> byte list \<times> int" where
  "decode_exact_transition payload destination =
     (let body_count = unpack_from OBSERVATION_HEADER payload 0 ! 15;
          body_end = fmt_size OBSERVATION_HEADER + nat body_count * fmt_size BODY;
          observed = poke destination 0 (take body_end payload)
      in (poke observed OBSERVATION_BYTES (take (fmt_size TRANSITION) (drop body_end payload)),
          unpack_from EVENT_GENERATION payload (body_end + fmt_size TRANSITION) ! 0))"

section \<open>Reading\<close>

definition body_mask :: "byte list \<Rightarrow> int \<Rightarrow> bool res" where
  "body_mask mem i =
     (if \<not> (0 \<le> i \<and> i < BODY_CAPACITY) then Inl (Exn OtherException ''IndexError'')
      else Inr (i < unpack OBSERVATION_HEADER mem ! 15))"

text \<open>The values \<open>to_dict\<close> reads: the header and the bodies below \<open>body_count\<close>.\<close>

definition observation_of :: "int list \<Rightarrow> exact_body list \<Rightarrow> exact_observation" where
  "observation_of v bodies =
     \<lparr>xo_tick = v ! 0, xo_score = v ! 1, xo_gauge = v ! 2, xo_gauge_max = v ! 3,
      xo_qualifying_clear_count = v ! 4, xo_field_x = f64_of (v ! 5), xo_field_y = f64_of (v ! 6),
      xo_field_width = f64_of (v ! 7), xo_field_height = f64_of (v ! 8),
      xo_side_wall_top = f64_of (v ! 9), xo_side_wall_bottom = f64_of (v ! 10), xo_level = v ! 11,
      xo_active_colors = v ! 12, xo_spawn_interval_ticks = v ! 13, xo_highest_chain = v ! 14,
      xo_terminated = (v ! 16 \<noteq> 0), xo_truncated = (v ! 17 \<noteq> 0), xo_left_held = (v ! 18 \<noteq> 0),
      xo_right_held = (v ! 19 \<noteq> 0), xo_bodies = bodies\<rparr>"

definition observation_view :: "byte list \<Rightarrow> exact_observation" where
  "observation_view mem = (let v = unpack OBSERVATION_HEADER mem in
     observation_of v (map (\<lambda>k. body_of (unpack_from BODY mem (fmt_size OBSERVATION_HEADER + k * fmt_size BODY)))
       [0 ..< nat (v ! 15)]))"

text \<open>The fields of a transition behind its observation, in the order of \<open>_fields_\<close>.\<close>

definition diagnostics_view :: "byte list \<Rightarrow> int list" where
  "diagnostics_view mem = unpack_from TRANSITION mem OBSERVATION_BYTES"

record padded_event =
  pe_tick :: int
  pe_sequence :: int
  pe_value :: int
  pe_a :: int
  pe_b :: int
  pe_detail_size :: int
  pe_kind :: int
  pe_detail :: "byte list"

text \<open>\<open>_decode_exact_events\<close>; a \<open>c_char\<close> array is read up to its first NUL.\<close>

fun decode_exact_events :: "nat \<Rightarrow> byte list \<Rightarrow> nat \<Rightarrow> padded_event list" where
  "decode_exact_events 0 payload offset = []"
| "decode_exact_events (Suc n) payload offset =
     (let e = unpack_from EVENT payload offset; offset = offset + fmt_size EVENT;
          detail_size = nat (e ! 5)
      in \<lparr>pe_tick = e ! 0, pe_sequence = e ! 1, pe_value = e ! 2, pe_a = e ! 3, pe_b = e ! 4,
          pe_detail_size = e ! 5, pe_kind = e ! 6,
          pe_detail = takeWhile (\<lambda>b. b \<noteq> 0) (take detail_size (drop offset payload))\<rparr>
         # decode_exact_events n payload (offset + detail_size))"

definition detail_text :: "padded_event \<Rightarrow> ustr option" where
  "detail_text e = utf8_decode (take (nat (pe_detail_size e)) (pe_detail e))"

section \<open>Buffer facts\<close>

lemma poke_length [simp]: "i + length bs \<le> length mem \<Longrightarrow> length (poke mem i bs) = length mem"
  by (simp add: poke_def)

lemma poke_at: "i \<le> length mem \<Longrightarrow> drop i (poke mem i bs) = bs @ drop (i + length bs) mem"
  by (simp add: poke_def)

lemma poke_before: "k \<le> i \<Longrightarrow> i \<le> length mem \<Longrightarrow> take k (poke mem i bs) = take k mem"
  by (simp add: poke_def min_def)

lemma unpack_append: "fmt_size fs \<le> length bs \<Longrightarrow> unpack fs (bs @ cs) = unpack fs bs"
  by (induction fs arbitrary: bs) (auto simp: fmt_size_def)

text \<open>Fields within the first \<open>n\<close> bytes only depend on them.\<close>

lemma unpack_prefix:
  assumes "take n a = take n b" "k + fmt_size fs \<le> n" "n \<le> length a" "n \<le> length b"
  shows "unpack_from fs a k = unpack_from fs b k"
proof -
  have cut: "unpack_from fs c k = unpack fs (drop k (take n c))" if "n \<le> length c" for c
  proof -
    have "drop k c = drop k (take n c) @ drop (n - k) (drop k c)"
      using assms(2) by (metis append_take_drop_id drop_take)
    moreover have "fmt_size fs \<le> length (drop k (take n c))" using assms(2) that by simp
    ultimately show ?thesis using unpack_append by metis
  qed
  show ?thesis using cut assms by metis
qed

lemma observation_view_prefix:
  assumes t: "take n a = take n b" and n: "112 + nat (unpack OBSERVATION_HEADER b ! 15) * 100 \<le> n"
    and l: "n \<le> length a" "n \<le> length b"
  shows "observation_view a = observation_view b"
proof -
  have h: "unpack OBSERVATION_HEADER a = unpack OBSERVATION_HEADER b"
    using unpack_prefix [OF t, of 0 OBSERVATION_HEADER] n l by simp
  have "unpack_from BODY a (112 + k * 100) = unpack_from BODY b (112 + k * 100)"
    if "k < nat (unpack OBSERVATION_HEADER b ! 15)" for k
    by (rule unpack_prefix [OF t]) (use that n l in simp_all)
  then have "map (\<lambda>k. body_of (unpack_from BODY a (112 + k * 100))) [0 ..< nat (unpack OBSERVATION_HEADER b ! 15)] =
      map (\<lambda>k. body_of (unpack_from BODY b (112 + k * 100))) [0 ..< nat (unpack OBSERVATION_HEADER b ! 15)]"
    by simp
  then show ?thesis unfolding observation_view_def Let_def h fmt_sizes by (rule arg_cong)
qed

text \<open>Where the strict decoder succeeds, the view of the same bytes is what it returned.\<close>

lemma decode_observation_view:
  assumes "decode_observation p 0 = Inr (obs, e)"
  shows "obs = observation_view p" "e = 112 + nat (unpack OBSERVATION_HEADER p ! 15) * 100"
    "e \<le> length p" "unpack OBSERVATION_HEADER p ! 15 \<le> 196" "length (xo_bodies obs) = nat (unpack OBSERVATION_HEADER p ! 15)"
proof -
  let ?n = "nat (unpack OBSERVATION_HEADER p ! 15)"
  have l: "112 \<le> length p" "112 + ?n * 100 \<le> length p" "unpack OBSERVATION_HEADER p ! 15 \<le> 196"
    and e: "e = 112 + ?n * 100"
    using assms by (auto simp: decode_observation_def Let_def rbind_Inr BODY_CAPACITY_def split: if_splits)
  note b = decode_bodies_result [OF l(2)]
  show "obs = observation_view p"
    using assms l by (auto simp: decode_observation_def Let_def rbind_Inr b observation_view_def observation_of_def split: if_splits)
  then show "length (xo_bodies obs) = ?n" by (simp add: observation_view_def observation_of_def Let_def)
  show "e = 112 + ?n * 100" "e \<le> length p" "unpack OBSERVATION_HEADER p ! 15 \<le> 196" using e l by simp_all
qed

section \<open>The transition buffer\<close>

lemma padded_transition_view:
  assumes v: "validate_raw_padded_transition p = Inr (e, h, g)" and m: "length mem = TRANSITION_BYTES"
    and d: "decode_exact_transition p mem = (t, g')"
  shows "length t = TRANSITION_BYTES \<and> g' = g \<and> decode_observation p 0 = Inr (observation_view t, e) \<and>
    diagnostics_view t = unpack_from TRANSITION p e \<and> h = diagnostics_view t ! 2"
proof -
  obtain obs where o': "decode_observation p 0 = Inr (obs, e)"
    and l: "length p = e + 84 + 8" and h: "h = unpack_from TRANSITION p e ! 2"
    and g: "g = unpack_from EVENT_GENERATION p (e + 84) ! 0"
    using v by (auto simp: validate_raw_padded_transition_def raw_observation_agrees rbind_Inr Let_def
        split: if_splits)
  note f = decode_observation_view [OF o']
  have e: "e \<le> OBSERVATION_BYTES" using f(2,4) by (simp add: OBSERVATION_BYTES_def)
  let ?a = "poke mem 0 (take e p)"
  let ?d = "take 84 (drop e p)"
  have la: "length ?a = TRANSITION_BYTES" using e m l by (simp add: TRANSITION_BYTES_def)
  have t: "t = poke ?a OBSERVATION_BYTES ?d" "g' = g"
    using d g f(2) by (auto simp: decode_exact_transition_def Let_def)
  have dl: "length ?d = 84" using l by simp
  have tl: "length t = TRANSITION_BYTES" unfolding t(1) using la dl by (simp add: TRANSITION_BYTES_def)
  have "take e t = take e ?a"
    unfolding t(1) by (rule poke_before) (use e la in \<open>simp_all add: TRANSITION_BYTES_def\<close>)
  moreover have "take e ?a = take e p" using l by (simp add: poke_def)
  ultimately have tk: "take e t = take e p" by simp
  have "observation_view t = observation_view p"
    by (rule observation_view_prefix [OF tk]) (use f l e tl in \<open>simp_all add: TRANSITION_BYTES_def\<close>)
  moreover have "drop OBSERVATION_BYTES t = ?d @ drop (OBSERVATION_BYTES + length ?d) ?a"
    unfolding t(1) by (rule poke_at) (simp add: la TRANSITION_BYTES_def)
  then have "diagnostics_view t = unpack TRANSITION ?d"
    using unpack_append [of TRANSITION ?d] dl by (simp add: diagnostics_view_def)
  moreover have "unpack_from TRANSITION p e = unpack TRANSITION ?d"
    using unpack_append [of TRANSITION ?d "drop 84 (drop e p)"] dl by (metis append_take_drop_id fmt_sizes(8) order_refl)
  ultimately show ?thesis using o' f(1) h tl t(2) by simp
qed

section \<open>Copied observations\<close>

lemma field_dec_ok: "length bs = field_size f \<Longrightarrow> field_ok f (field_dec f bs)"
proof -
  assume n: "length bs = field_size f"
  have "le_dec bs < 256 ^ length bs" by (rule le_dec_less)
  then have "int (le_dec bs) < 256 ^ length bs" by (metis of_nat_less_iff of_nat_numeral of_nat_power)
  moreover have "2 * le_dec bs < 256 ^ length bs \<longleftrightarrow> 2 * int (le_dec bs) < 256 ^ length bs"
    by (metis of_nat_less_iff of_nat_mult of_nat_numeral of_nat_power)
  moreover have "- (256 ^ length bs :: int) \<le> 0" by simp
  moreover have "0 \<le> int (le_dec bs)" by simp
  ultimately have "0 \<le> int (le_dec bs) \<and> int (le_dec bs) < 256 ^ length bs \<and>
      (\<not> 2 * le_dec bs < 256 ^ length bs \<longrightarrow> 256 ^ length bs \<le> 2 * int (le_dec bs)) \<and>
      (2 * le_dec bs < 256 ^ length bs \<longrightarrow> 2 * int (le_dec bs) < 256 ^ length bs)" by linarith
  moreover have "field_ok (S k) (if P then x else x - 256 ^ k)"
    if "0 \<le> x \<and> x < 256 ^ k \<and> (\<not> P \<longrightarrow> 256 ^ k \<le> 2 * x) \<and> (P \<longrightarrow> 2 * x < 256 ^ k)" for x :: int and k P
    using that by simp
  ultimately show ?thesis using n by (cases f) (simp_all del: field_ok.simps(2))
qed

lemma unpack_ok: "fmt_size fs \<le> length bs \<Longrightarrow> list_all2 field_ok fs (unpack fs bs)"
  by (induction fs arbitrary: bs) (auto simp: fmt_size_def intro!: field_dec_ok)

lemma body_of_fields:
  assumes "list_all2 field_ok BODY v" "v ! 17 = 0"
  shows "body_fields (body_of v) = v"
proof -
  have l: "length v = 18" using list_all2_lengthD [OF assms(1)] by (simp add: BODY_def)
  have u: "0 \<le> v ! k \<and> v ! k < 256 ^ 8" if "k \<in> {3..9}" for k
  proof -
    have "k < length BODY" "BODY ! k = U 8"
      using that by (auto simp: BODY_def nth_append nth_Cons' eval_nat_numeral le_Suc_eq)
    with list_all2_nthD [OF assms(1), of k] show ?thesis by simp
  qed
  have w: "uint (f64_of (v ! k)) = v ! k" if "k \<in> {3..9}" for k
    using u [OF that] by (simp add: uint_word_of_int)
  have "v = [v!0, v!1, v!2, v!3, v!4, v!5, v!6, v!7, v!8, v!9, v!10, v!11, v!12, v!13, v!14, v!15, v!16, v!17]"
    using l by (simp add: list_eq_iff_nth_eq nth_Cons' eval_nat_numeral less_Suc_eq)
  then show ?thesis using w assms(2) by (simp add: body_fields_def body_of_def)
qed

text \<open>Writing decoded values back gives the bytes' values: fields of the live bodies round-trip.\<close>

lemma pack_fields: "list_all2 field_ok fs vs \<Longrightarrow> fmt_size fs = n \<Longrightarrow> length (pack fs vs) = n"
  using pack_length list_all2_lengthD by metis

lemma list20: "length v = 20 \<Longrightarrow> \<exists>a b c d i j k l m n q r t u w x y z g h.
    v = [a, b, c, d, i, j, k, l, m, n, q, r, t, u, w, x, y, z, g, h]"
  by (auto simp: numeral_eq_Suc length_Suc_conv)

lemma header_list: "OBSERVATION_HEADER = [U 8, S 8, S 8, S 8, U 8, U 8, U 8, U 8, U 8, U 8, U 8,
    U 4, U 4, U 4, U 4, U 4, U 1, U 1, U 1, U 1]"
  by (simp add: OBSERVATION_HEADER_def numeral_eq_Suc)

lemma header_round:
  assumes "list_all2 field_ok OBSERVATION_HEADER v" "int (length bs) = v ! 15"
  shows "list_all2 field_ok OBSERVATION_HEADER (header_fields (observation_of v bs))"
    "observation_of (header_fields (observation_of v bs)) bs = observation_of v bs"
proof -
  have "length v = 20" using list_all2_lengthD [OF assms(1)] by (simp add: header_list)
  from list20 [OF this] obtain a b c d i j k l m n q r t u w x y z g h
    where v: "v = [a, b, c, d, i, j, k, l, m, n, q, r, t, u, w, x, y, z, g, h]" by metis
  have u8: "uint x < 256 ^ 8" for x :: f64
    using unsigned_less [of x, where ?'a = int] by simp
  show "list_all2 field_ok OBSERVATION_HEADER (header_fields (observation_of v bs))"
    using assms u8 unfolding v by (simp add: header_fields_def observation_of_def header_list)
  show "observation_of (header_fields (observation_of v bs)) bs = observation_of v bs"
    using assms(2) unfolding v by (simp add: header_fields_def observation_of_def)
qed

text \<open>Bodies written one after another are read back one by one.\<close>

lemma bodies_view:
  assumes "list_all (\<lambda>b. list_all2 field_ok BODY (body_fields b)) bs" "k < length bs"
  shows "unpack BODY (drop (k * 100) (concat (map (\<lambda>b. pack BODY (body_fields b)) bs) @ rest)) = body_fields (bs ! k)"
  using assms
proof (induction bs arbitrary: k)
  case (Cons b bs)
  have l: "length (pack BODY (body_fields b)) = 100"
    by (subst pack_length) (simp_all add: body_fields_def BODY_def fmt_size_def numeral_eq_Suc)
  show ?case
  proof (cases k)
    case 0
    then show ?thesis using Cons.prems unpack_pack by simp
  next
    case (Suc i)
    then show ?thesis using Cons.IH [of i] Cons.prems l by simp
  qed
qed simp

lemma body_of_body_fields: "body_of (body_fields b) = b"
  by (simp add: body_of_def body_fields_def)

lemma copied_observation_view:
  assumes d: "decode_observation p 0 = Inr (obs, e)" and m: "OBSERVATION_BYTES \<le> length mem"
  obtains t where "copy_exact_observation obs mem = Inr t" "length t = length mem" "observation_view t = obs"
proof -
  note f = decode_observation_view [OF d]
  let ?v = "unpack OBSERVATION_HEADER p" and ?bs = "xo_bodies obs"
  have hv: "list_all2 field_ok OBSERVATION_HEADER ?v" by (rule unpack_ok) (use f(2,3) in simp)
  have nn: "0 \<le> ?v ! 15" using list_all2_nthD [OF hv, of 15] by (simp add: header_list)
  have o': "obs = observation_of ?v ?bs" unfolding f(1) by (simp add: observation_view_def observation_of_def Let_def)
  note h = header_round [OF hv, of ?bs, folded o']
  have n: "int (length ?bs) = ?v ! 15" using f(5) nn by simp
  have "decode_bodies (nat (?v ! 15)) p 112 = Inr ?bs"
    using d by (auto simp: decode_observation_def Let_def rbind_Inr split: if_splits)
  then have b: "?bs = map (\<lambda>k. body_of (unpack_from BODY p (112 + k * 100))) [0 ..< nat (?v ! 15)]"
    and good: "\<not> (\<exists>k < nat (?v ! 15). body_bad p (112 + k * 100))"
    using decode_bodies_result [of 112 "nat (?v ! 15)" p] f(2,3) by (auto split: if_splits)
  have "list_all2 field_ok BODY (body_fields (?bs ! k))" if "k < length ?bs" for k
  proof -
    have k: "k < nat (?v ! 15)" using that f(5) by simp
    then have le: "112 + k * 100 + 100 \<le> length p" using f(2,3) by linarith
    have "list_all2 field_ok BODY (unpack_from BODY p (112 + k * 100))"
      by (rule unpack_ok) (use le in simp)
    moreover have "unpack_from BODY p (112 + k * 100) ! 17 = 0"
      using good k body_metadata(4) [OF le] by (auto simp: body_bad_def)
    ultimately show ?thesis using body_of_fields b k by simp
  qed
  then have ok: "list_all (\<lambda>b. list_all2 field_ok BODY (body_fields b)) ?bs" by (simp add: list_all_length)
  let ?hd = "pack OBSERVATION_HEADER (header_fields obs)"
  let ?bd = "concat (map (\<lambda>b. pack BODY (body_fields b)) ?bs)"
  let ?t = "poke mem 0 (?hd @ ?bd)"
  have "length (header_fields obs) = length OBSERVATION_HEADER" by (simp add: header_fields_def header_list)
  then have lh: "length ?hd = 112" by (simp add: pack_length)
  have "length (body_fields b) = length BODY" for b by (simp add: body_fields_def BODY_def)
  then have "length (pack BODY (body_fields b)) = 100" for b by (simp add: pack_length)
  then have lb: "length ?bd = length ?bs * 100" by (simp add: length_concat comp_def sum_list_triv)
  have t: "?t = ?hd @ ?bd @ drop (112 + length ?bs * 100) mem" by (simp add: poke_def lh lb)
  have c: "copy_exact_observation obs mem = Inr ?t"
    using f(4,5) by (simp add: copy_exact_observation_def BODY_CAPACITY_def)
  have l: "length ?t = length mem"
    by (rule poke_length) (use m lh lb f(4,5) in \<open>simp add: OBSERVATION_BYTES_def\<close>)
  have u: "unpack OBSERVATION_HEADER ?t = header_fields obs"
    unfolding t by (rule unpack_pack) (rule h(1) [OF n])
  have d112: "drop 112 ?t = ?bd @ drop (112 + length ?bs * 100) mem" unfolding t using lh by simp
  have "drop (112 + k * 100) ?t = drop (k * 100) (drop 112 ?t)" for k
    by (subst drop_drop) (simp only: add.commute)
  then have dk: "drop (112 + k * 100) ?t = drop (k * 100) (?bd @ drop (112 + length ?bs * 100) mem)" for k
    unfolding d112 .
  have "body_of (unpack_from BODY ?t (112 + k * 100)) = ?bs ! k" if "k < length ?bs" for k
    unfolding dk bodies_view [OF ok that] by (rule body_of_body_fields)
  then have "map (\<lambda>k. body_of (unpack_from BODY ?t (112 + k * 100))) [0 ..< length ?bs] = ?bs"
    by (intro nth_equalityI) (simp_all only: length_map length_upt nth_map_upt diff_zero plus_nat.add_0)
  moreover have "nat (header_fields obs ! 15) = length ?bs" by (simp add: header_fields_def)
  ultimately have "observation_view ?t = observation_of (header_fields obs) ?bs"
    by (simp add: observation_view_def u)
  then have "observation_view ?t = obs" using h(2) [OF n] by simp
  with c l show thesis by (rule that)
qed

section \<open>Events\<close>

text \<open>A padded event shows the typed event; its text is cut at a NUL byte.\<close>

definition shows_event :: "padded_event \<Rightarrow> exact_event \<Rightarrow> bool" where
  "shows_event p e \<longleftrightarrow> pe_tick p = xe_tick e \<and> pe_sequence p = xe_sequence e \<and> pe_value p = xe_value e \<and>
     pe_a p = xe_a e \<and> pe_b p = xe_b e \<and> pe_kind p = xe_kind e \<and>
     (0 \<notin> set (concat (map utf8_char (xe_detail e))) \<longrightarrow> detail_text p = Some (xe_detail e))"

lemma padded_events_show:
  "check_events n p i = Inr j \<Longrightarrow>
     \<exists>es. decode_events n p i = Inr (es, j) \<and> list_all2 shows_event (decode_exact_events n p i) es"
proof (induction n arbitrary: i)
  case (Suc n)
  let ?e = "unpack_from EVENT p i" and ?d = "take (nat (unpack_from EVENT p i ! 5)) (drop (i + 36) p)"
  from Suc.prems obtain s where c: "\<not> length p - i < 36" "\<not> (18 < ?e ! 6 \<or> ?e ! 7 \<noteq> 0)"
    "\<not> length p - (i + 36) < nat (?e ! 5)" "utf8_decode ?d = Some s"
    and r: "check_events n p (i + 36 + nat (?e ! 5)) = Inr j"
    by (auto simp: Let_def split: if_splits option.splits)
  from Suc.IH [OF r] obtain es where es: "decode_events n p (i + 36 + nat (?e ! 5)) = Inr (es, j)"
    "list_all2 shows_event (decode_exact_events n p (i + 36 + nat (?e ! 5))) es" by blast
  have tw: "takeWhile (\<lambda>b. b \<noteq> 0) ?d = ?d" if "\<forall>x \<in> set s. 0 \<notin> set (utf8_char x)"
  proof -
    have "set ?d = set (concat (map utf8_char s))" using utf8_decode_encode [OF c(4)] by simp
    with that have "0 \<notin> set ?d" by auto
    then show ?thesis by (metis (mono_tags, lifting) takeWhile_eq_all_conv)
  qed
  have dt: "utf8_decode (take (nat (?e ! 5)) (takeWhile (\<lambda>b. b \<noteq> 0) ?d)) = Some s"
    if "\<forall>x \<in> set s. 0 \<notin> set (utf8_char x)"
    by (simp only: tw [OF that] take_take min.idem c(4))
  have "shows_event (hd (decode_exact_events (Suc n) p i)) \<lparr>xe_tick = ?e ! 0, xe_sequence = ?e ! 1,
      xe_value = ?e ! 2, xe_a = ?e ! 3, xe_b = ?e ! 4, xe_kind = ?e ! 6, xe_detail = s\<rparr>"
    using dt by (simp add: shows_event_def detail_text_def Let_def)
  with c es show ?case by (simp add: Let_def)
qed simp

end
