(* ===== verification/Padded_Lanes.thy ===== *)
theory Padded_Lanes
  imports Padded_Memory Exact_Simulator Py_Json
begin

text \<open>
  The lanes of a padded vector environment: \<open>NativeSimulator\<close> (\<open>irisu_env/native.py\<close>), whose C library
  is a parameter that answers from the state behind a handle, and the dispatch between it and the exact
  simulator.  Texts of \<open>irisu_last_error\<close> are dropped from exceptions.  The library answers a call with
  its success and the state it left, and a JSON query with the text, None for a null pointer; the parser
  of JSON texts is a parameter too, None for bytes that do not decode or parse.
\<close>

section \<open>The C library\<close>

text \<open>A \<open>PaddedTransition\<close> that the library has filled in; \<open>'o\<close> is its observation.\<close>

record 'o native_transition =
  nt_observation :: 'o
  nt_reward :: int
  nt_event_count :: int
  nt_config_hash :: int
  nt_terminated :: bool
  nt_truncated :: bool
  nt_invalid_action :: bool

type_synonym encoded_action = "int \<times> f64 \<times> f64 \<times> int"

record ('c, 'o) native_library =
  nl_blank :: "'o native_transition"
  nl_padded_reset :: "'c \<Rightarrow> int \<Rightarrow> bool \<times> 'o \<times> 'c"
  nl_padded_step :: "'c \<Rightarrow> encoded_action \<Rightarrow> bool \<times> 'o native_transition \<times> 'c"
  nl_padded_step_batch :: "'c list \<Rightarrow> encoded_action list \<Rightarrow> 'o native_transition list \<Rightarrow> nat
    \<Rightarrow> bool \<times> bool list \<times> 'o native_transition list \<times> 'c list"
  nl_padded_events :: "'c \<Rightarrow> int \<Rightarrow> bool \<times> padded_event list \<times> 'c"
  nl_padded_observation :: "'c \<Rightarrow> bool \<times> 'o \<times> 'c"
  nl_snapshot_size :: "'c \<Rightarrow> int"
  nl_snapshot_write :: "'c \<Rightarrow> bool \<times> byte list"
  nl_snapshot_restore :: "'c \<Rightarrow> byte list \<Rightarrow> bool \<times> 'c"
  nl_state_hash :: "'c \<Rightarrow> int"
  nl_config_hash :: "'c \<Rightarrow> int"
  nl_configure :: "'c \<Rightarrow> (byte list \<times> f64) list \<Rightarrow> bool \<times> 'c"
  nl_reset :: "'c \<Rightarrow> int \<Rightarrow> bool \<times> 'c"
  nl_step :: "'c \<Rightarrow> encoded_action \<Rightarrow> bool \<times> 'c"
  nl_observation_json :: "'c \<Rightarrow> byte list option \<times> 'c"
  nl_step_json :: "'c \<Rightarrow> byte list option \<times> 'c"
  nl_config_json :: "'c \<Rightarrow> byte list option \<times> 'c"
  nl_build_info :: "byte list option"
  nl_json :: "byte list \<Rightarrow> jval option"

section \<open>NativeSimulator\<close>

text \<open>\<open>ns_handle\<close> is the state behind the handle, None once it is destroyed; \<open>ns_library\<close> is the
  identity of the loaded library object.\<close>

record 'c native_sim =
  ns_handle :: "'c option"
  ns_generation :: nat
  ns_library :: nat

abbreviation native_failed :: "string \<Rightarrow> exn" where
  "native_failed t \<equiv> Exn NativeError t"

definition bounded_integer :: "wire_num \<Rightarrow> string \<Rightarrow> int \<Rightarrow> int res" where
  "bounded_integer v label maximum = (case integral_of v of
     None \<Rightarrow> Inl (Exn TypeError (label @ '' must be an integer''))
   | Some n \<Rightarrow> if \<not> (0 \<le> n \<and> n \<le> maximum) then Inl (Exn ValueError (label @ '' is out of range'')) else Inr n)"

definition native_action :: "wire_num \<Rightarrow> wire_num \<Rightarrow> wire_num \<Rightarrow> wire_num \<Rightarrow> encoded_action res" where
  "native_action kind x y wait =
     rbind (bounded_integer kind ''action_kind'' 3) (\<lambda>k. case real_of x of
       None \<Rightarrow> Inl (Exn TypeError ''x must be a real number'')
     | Some xr \<Rightarrow> (case real_of y of
       None \<Rightarrow> Inl (Exn TypeError ''y must be a real number'')
     | Some yr \<Rightarrow> rbind (bounded_integer wait ''wait_ticks'' UINT32) (\<lambda>w.
         rbind xr (\<lambda>xb. rbind yr (\<lambda>yb. Inr (k, xb, yb, w))))))"

definition native_open :: "('c native_sim, 'c) py" where
  "native_open = pbind (pget ns_handle) (\<lambda>h. case h of
     None \<Rightarrow> praise (native_failed ''native simulator is closed'') | Some c \<Rightarrow> pret c)"

definition native_advance :: "('c native_sim, unit) py" where
  "native_advance = pmod (\<lambda>s. s\<lparr>ns_generation := Suc (ns_generation s)\<rparr>)"

text \<open>A call into the library: the state behind the handle becomes what the call made of it, and
  \<open>_check\<close> raises when it returned 0.\<close>

definition native_call :: "string \<Rightarrow> ('c \<Rightarrow> bool \<times> 'a \<times> 'c) \<Rightarrow> ('c native_sim, 'a) py" where
  "native_call operation f = pbind native_open (\<lambda>c. case f c of (ok, x, c') \<Rightarrow>
     pbind (pmod (\<lambda>s. s\<lparr>ns_handle := Some c'\<rparr>)) (\<lambda>_.
     pbind (pguard (\<not> ok) (native_failed (operation @ '' failed''))) (\<lambda>_. pret x)))"

definition native_reset_padded :: "('c, 'o) native_library \<Rightarrow> wire_num \<Rightarrow> ('c native_sim, 'o) py" where
  "native_reset_padded L seed =
     pbind (plift (bounded_integer seed ''seed'' UINT32)) (\<lambda>n.
     pbind (native_call ''padded reset'' (\<lambda>c. nl_padded_reset L c n)) (\<lambda>x.
     pbind native_advance (\<lambda>_. pret x)))"

text \<open>A lazy event view of a native simulator: its count and generation.\<close>

type_synonym native_events = "int \<times> nat"

definition native_step_padded :: "('c, 'o) native_library \<Rightarrow> wire_num \<Rightarrow> wire_num \<Rightarrow> wire_num \<Rightarrow> wire_num
    \<Rightarrow> ('c native_sim, 'o native_transition \<times> native_events) py" where
  "native_step_padded L kind x y wait =
     pbind (plift (native_action kind x y wait)) (\<lambda>action.
     pbind (native_call ''padded step'' (\<lambda>c. nl_padded_step L c action)) (\<lambda>transition.
     pbind native_advance (\<lambda>_.
     pbind (pget ns_generation) (\<lambda>g. pret (transition, (nt_event_count transition, g))))))"

definition read_padded_events :: "('c, 'o) native_library \<Rightarrow> native_events
    \<Rightarrow> ('c native_sim, padded_event list) py" where
  "read_padded_events L view = (case view of (count, generation) \<Rightarrow>
     pbind (pget ns_generation) (\<lambda>current.
     pbind (pguard (generation \<noteq> current) (native_failed
       ''lazy padded events expired; materialize them before the next step or reset'')) (\<lambda>_.
     native_call ''padded events'' (\<lambda>c. nl_padded_events L c count))))"

definition observation_padded :: "('c, 'o) native_library \<Rightarrow> ('c native_sim, 'o) py" where
  "observation_padded L = native_call ''padded observation'' (nl_padded_observation L)"

definition native_state_hash :: "('c, 'o) native_library \<Rightarrow> ('c native_sim, int) py" where
  "native_state_hash L = pbind native_open (\<lambda>c. pret (nl_state_hash L c))"

definition native_config_hash :: "('c, 'o) native_library \<Rightarrow> ('c native_sim, int) py" where
  "native_config_hash L = pbind native_open (\<lambda>c. pret (nl_config_hash L c))"

definition native_clone_state :: "('c, 'o) native_library \<Rightarrow> ('c native_sim, byte list) py" where
  "native_clone_state L =
     pbind native_open (\<lambda>c.
     pbind (pguard (nl_snapshot_size L c \<le> 0) (native_failed ''snapshot size failed'')) (\<lambda>_.
     case nl_snapshot_write L c of (ok, bytes) \<Rightarrow>
     pbind (pguard (\<not> ok) (native_failed ''snapshot write failed'')) (\<lambda>_. pret bytes)))"

definition native_restore_padded :: "('c, 'o) native_library \<Rightarrow> byte list \<Rightarrow> ('c native_sim, 'o) py" where
  "native_restore_padded L snapshot =
     pbind (pguard (snapshot = []) (native_failed ''snapshot must not be empty'')) (\<lambda>_.
     pbind (native_call ''snapshot restore'' (\<lambda>c. case nl_snapshot_restore L c snapshot of (ok, c') \<Rightarrow> (ok, (), c'))) (\<lambda>_.
     pbind native_advance (\<lambda>_. observation_padded L)))"

definition native_close :: "('c native_sim, unit) py" where
  "native_close = pbind (pget ns_handle) (\<lambda>h.
     pwhen (h \<noteq> None) (pmod (\<lambda>s. s\<lparr>ns_handle := None, ns_generation := Suc (ns_generation s)\<rparr>)))"

text \<open>\<open>PaddedEvents._values\<close>: a view together with its cache.\<close>

type_synonym read_view = "native_events \<times> padded_event list option"

definition native_event_values :: "('c, 'o) native_library \<Rightarrow> read_view
    \<Rightarrow> ('c native_sim, padded_event list \<times> read_view) py" where
  "native_event_values L = (\<lambda>(view, cache). case cache of
     Some xs \<Rightarrow> pret (xs, (view, Some xs))
   | None \<Rightarrow> pbind (read_padded_events L view) (\<lambda>xs. pret (xs, (view, Some xs))))"

subsection \<open>Dictionaries\<close>

text \<open>\<open>_json\<close>, on the text that the library returned.\<close>

definition native_json :: "('c, 'o) native_library \<Rightarrow> string \<Rightarrow> byte list option
    \<Rightarrow> ('c native_sim, (string \<times> jval) list) py" where
  "native_json L operation pointer = (case pointer of
     None \<Rightarrow> praise (native_failed (operation @ '' failed''))
   | Some bytes \<Rightarrow> (case nl_json L bytes of
     None \<Rightarrow> praise (native_failed (operation @ '' returned invalid JSON''))
   | Some value \<Rightarrow> (case json_obj value of
     None \<Rightarrow> praise (native_failed (operation @ '' returned a non-object JSON value''))
   | Some d \<Rightarrow> pret d)))"

definition native_query :: "('c, 'o) native_library \<Rightarrow> string \<Rightarrow> ('c \<Rightarrow> byte list option \<times> 'c)
    \<Rightarrow> ('c native_sim, (string \<times> jval) list) py" where
  "native_query L operation f = pbind native_open (\<lambda>c. case f c of (pointer, c') \<Rightarrow>
     pbind (pmod (\<lambda>s. s\<lparr>ns_handle := Some c'\<rparr>)) (\<lambda>_. native_json L operation pointer))"

definition native_observation :: "('c, 'o) native_library \<Rightarrow> ('c native_sim, (string \<times> jval) list) py" where
  "native_observation L = native_query L ''observation'' (nl_observation_json L)"

definition native_config :: "('c, 'o) native_library \<Rightarrow> ('c native_sim, (string \<times> jval) list) py" where
  "native_config L = native_query L ''config'' (nl_config_json L)"

definition native_build_info :: "('c, 'o) native_library \<Rightarrow> ('c native_sim, (string \<times> jval) list) py" where
  "native_build_info L = native_json L ''build info'' (nl_build_info L)"

text \<open>A call that answers with its success only.\<close>

definition native_do_call :: "string \<Rightarrow> ('c \<Rightarrow> bool \<times> 'c) \<Rightarrow> ('c native_sim, unit) py" where
  "native_do_call operation f = native_call operation (\<lambda>c. case f c of (ok, c') \<Rightarrow> (ok, (), c'))"

definition native_reset :: "('c, 'o) native_library \<Rightarrow> wire_num \<Rightarrow> ('c native_sim, (string \<times> jval) list) py" where
  "native_reset L seed =
     pbind (plift (bounded_integer seed ''seed'' UINT32)) (\<lambda>n.
     pbind (native_do_call ''reset'' (\<lambda>c. nl_reset L c n)) (\<lambda>_.
     pbind native_advance (\<lambda>_. native_observation L)))"

text \<open>The overrides of \<open>configure\<close>; the configuration is None when it is not a mapping.\<close>

definition native_overrides :: "(config_key \<times> config_value) list option \<Rightarrow> (byte list \<times> f64) list res" where
  "native_overrides config = (case config of
     None \<Rightarrow> Inl (Exn TypeError ''config must be a mapping'')
   | Some items \<Rightarrow> rbind (flatten_config items) (\<lambda>flattened.
       rmap (\<lambda>(key, value). rbind (utf8_encode key) (\<lambda>encoded. Inr (encoded, value))) flattened))"

definition native_configure :: "('c, 'o) native_library \<Rightarrow> (config_key \<times> config_value) list option
    \<Rightarrow> ('c native_sim, (string \<times> jval) list) py" where
  "native_configure L config =
     pbind (plift (native_overrides config)) (\<lambda>overrides.
     pbind (native_do_call ''configure'' (\<lambda>c. nl_configure L c overrides)) (\<lambda>_.
     pbind native_advance (\<lambda>_. native_config L)))"

definition native_step :: "('c, 'o) native_library \<Rightarrow> wire_num \<Rightarrow> wire_num \<Rightarrow> wire_num \<Rightarrow> wire_num
    \<Rightarrow> ('c native_sim, (string \<times> jval) list) py" where
  "native_step L kind x y wait =
     pbind (plift (native_action kind x y wait)) (\<lambda>action.
     pbind (native_do_call ''step'' (\<lambda>c. nl_step L c action)) (\<lambda>_.
     pbind native_advance (\<lambda>_. native_query L ''step result'' (nl_step_json L))))"

definition native_restore_state :: "('c, 'o) native_library \<Rightarrow> byte list
    \<Rightarrow> ('c native_sim, (string \<times> jval) list) py" where
  "native_restore_state L snapshot =
     pbind (pguard (snapshot = []) (native_failed ''snapshot must not be empty'')) (\<lambda>_.
     pbind (native_do_call ''snapshot restore'' (\<lambda>c. nl_snapshot_restore L c snapshot)) (\<lambda>_.
     pbind native_advance (\<lambda>_. native_observation L)))"

subsection \<open>Batches\<close>

record 'o batch_buffers =
  bb_count :: nat
  bb_slot :: nat
  bb_transitions :: "'o native_transition list list"

definition fresh_buffers :: "('c, 'o) native_library \<Rightarrow> nat \<Rightarrow> 'o batch_buffers" where
  "fresh_buffers L count = \<lparr>bb_count = count, bb_slot = 0,
     bb_transitions = replicate 2 (replicate count (nl_blank L))\<rparr>"

definition valid_buffers :: "nat \<Rightarrow> 'o batch_buffers \<Rightarrow> bool" where
  "valid_buffers count b \<longleftrightarrow> bb_count b = count \<and> length (bb_transitions b) = 2 \<and>
     list_all (\<lambda>v. length v = count) (bb_transitions b) \<and> bb_slot b \<in> {0, 1}"

text \<open>The loop over the statuses: every lane that stepped advances, the first that did not is the
  failure.\<close>

fun batch_statuses :: "'c native_sim list \<Rightarrow> bool list \<Rightarrow> exn option \<times> 'c native_sim list" where
  "batch_statuses (s # ss) (ok # oks) = (case batch_statuses ss oks of (failure, rest) \<Rightarrow>
     if ok then (failure, s\<lparr>ns_generation := Suc (ns_generation s)\<rparr> # rest)
     else (Some (native_failed ''padded batch lane failed''), s # rest))"
| "batch_statuses ss _ = (None, ss)"

text \<open>\<open>_step_padded_batch_prevalidated\<close>.  The buffers are mutated in place even when the call
  raises, unless they were made for it; the last component is what the caller's reference names.\<close>

definition step_padded_batch :: "('c, 'o) native_library \<Rightarrow> 'c native_sim list \<Rightarrow> encoded_action list
    \<Rightarrow> 'o batch_buffers option \<Rightarrow> nat
    \<Rightarrow> ('o native_transition \<times> native_events) list res \<times> 'c native_sim list \<times> 'o batch_buffers option" where
  "step_padded_batch L sims actions buffers workers =
     (if list_ex (\<lambda>s. ns_handle s = None) sims
      then (Inl (native_failed ''native simulator is closed''), sims, buffers)
      else let handles = map (\<lambda>s. the (ns_handle s)) sims; count = length sims;
             valid = (case buffers of None \<Rightarrow> False | Some b \<Rightarrow> valid_buffers count b);
             used = (if valid then the buffers else fresh_buffers L count);
             slot = 1 - bb_slot used;
             kept = (\<lambda>b. if valid then Some b else buffers)
        in case nl_padded_step_batch L handles actions (bb_transitions used ! slot) workers of
          (ok, statuses, transitions, handles') \<Rightarrow>
            let stepped = map (\<lambda>(s, c). s\<lparr>ns_handle := Some c\<rparr>) (zip sims handles');
                after = used\<lparr>bb_slot := slot, bb_transitions := (bb_transitions used)[slot := transitions]\<rparr>
            in if \<not> ok then (Inl (native_failed ''native padded batch invocation failed''), stepped, kept after)
            else case batch_statuses stepped statuses of
              (Some e, sims') \<Rightarrow> (Inl e, sims', kept after)
            | (None, sims') \<Rightarrow> (Inr (map (\<lambda>(t, s). (t, (nt_event_count t, ns_generation s))) (zip transitions sims')),
                sims', Some after))"

section \<open>Lanes\<close>

datatype 'c lane = ExactLane exact_sim | NativeLane "'c native_sim"

text \<open>Dispatch on \<open>isinstance(env, ExactSimulator)\<close>; \<open>W\<close> is the worker world of the lane.\<close>

definition on_lane :: "(exact_sim, 'a) py \<Rightarrow> ('c native_sim, 'a) py \<Rightarrow> ('c lane, 'a) py" where
  "on_lane e n = (\<lambda>l. case l of
     ExactLane s \<Rightarrow> (case e s of (r, t) \<Rightarrow> (r, ExactLane t))
   | NativeLane s \<Rightarrow> (case n s of (r, t) \<Rightarrow> (r, NativeLane t)))"

definition lane_clone :: "sim_world \<Rightarrow> ('c, 'o) native_library \<Rightarrow> ('c lane, byte list) py" where
  "lane_clone W L = on_lane (clone_state W) (native_clone_state L)"

definition lane_state_hash :: "sim_world \<Rightarrow> ('c, 'o) native_library \<Rightarrow> ('c lane, int) py" where
  "lane_state_hash W L = on_lane (state_hash W) (native_state_hash L)"

definition lane_config_hash :: "('c, 'o) native_library \<Rightarrow> ('c lane, int) py" where
  "lane_config_hash L = on_lane sim_config_hash (native_config_hash L)"

definition lane_close :: "sim_world \<Rightarrow> ('c lane, unit) py" where
  "lane_close W = on_lane (sim_close W) native_close"

text \<open>Observations as the simulators return them.\<close>

datatype 'o lane_obs = TypedObs exact_observation | NativeObs 'o

text \<open>\<open>restore_one\<close> of \<open>restore_many\<close>.\<close>

definition restore_one :: "sim_world \<Rightarrow> ('c, 'o) native_library \<Rightarrow> byte list \<Rightarrow> ('c lane, 'o lane_obs) py" where
  "restore_one W L snapshot = on_lane
     (pbind (restore_state_typed W snapshot) (\<lambda>x. pret (TypedObs x)))
     (pbind (native_restore_padded L snapshot) (\<lambda>x. pret (NativeObs x)))"

text \<open>An observation that a caller owns.\<close>

datatype 'o owned_obs = OwnedExact "byte list" | OwnedNative 'o

text \<open>\<open>reset_one\<close> of \<open>reset_many\<close>, and the body of \<open>reset_at\<close>.\<close>

definition reset_one :: "sim_world \<Rightarrow> ('c, 'o) native_library \<Rightarrow> int \<Rightarrow> ('c lane, 'o owned_obs) py" where
  "reset_one W L seed = on_lane
     (pbind (reset_typed W (NumInt seed)) (\<lambda>x.
      pbind (plift (copy_exact_observation x blank_observation)) (\<lambda>m. pret (OwnedExact m))))
     (pbind (native_reset_padded L (NumInt seed)) (\<lambda>x. pret (OwnedNative x)))"

text \<open>\<open>ExactPaddedEvents\<close> of a lane's simulator; \<open>ev_client\<close> is the worker it was made for.\<close>

record exact_events =
  ev_client :: "nat option"
  ev_count :: int
  ev_generation :: int
  ev_cache :: "padded_event list option"

definition exact_events_of :: "exact_sim \<Rightarrow> int \<Rightarrow> int \<Rightarrow> exact_events" where
  "exact_events_of s count generation =
     \<lparr>ev_client = xs_client s, ev_count = count, ev_generation = generation, ev_cache = None\<rparr>"

definition exact_event_values :: "sim_world \<Rightarrow> exact_events \<Rightarrow> (exact_sim, padded_event list \<times> exact_events) py" where
  "exact_event_values W view = (case ev_cache view of Some xs \<Rightarrow> pret (xs, view) | None \<Rightarrow>
     pbind (pget (\<lambda>s. xs_client s \<noteq> ev_client view)) (\<lambda>moved.
     pbind (pguard moved (native_failed ''lazy padded events expired'')) (\<lambda>_.
     pbind (fetch_padded_events_raw W (NumInt (ev_generation view)) (NumInt (ev_count view))) (\<lambda>payload.
     let values = decode_exact_events (nat (ev_count view)) payload (fmt_size EVENT_COUNT) in
     pret (values, view\<lparr>ev_cache := Some values\<rparr>)))))"

datatype events_view = ExactEvents exact_events | NativeEvents native_events

text \<open>A transition that a caller owns, and \<open>step_one\<close> of \<open>step_many\<close>.\<close>

datatype 'o owned_transition = OwnedExactTransition "byte list" | OwnedNativeTransition "'o native_transition"

definition send_step_padded :: "sim_world \<Rightarrow> encoded_action \<Rightarrow> (exact_sim, unit) py" where
  "send_step_padded W a = (case a of (kind, x, y, wait) \<Rightarrow>
     send_step_request W True (NumInt kind) (NumFloat x) (NumFloat y) (NumInt wait))"

text \<open>Receiving a padded step into a transition buffer: the buffer's new content is kept when the
  generations disagree.\<close>

definition receive_into :: "sim_world \<Rightarrow> byte list \<Rightarrow> (exact_sim, byte list \<times> exact_events res) py" where
  "receive_into W buffer =
     pbind (receive_step_padded_raw W) (\<lambda>(payload, generation).
     case decode_exact_transition payload buffer of (mem, decoded) \<Rightarrow>
     if decoded \<noteq> generation
     then pret (mem, Inl (native_failed ''exact padded event generation changed''))
     else pbind (pget (\<lambda>s. exact_events_of s (diagnostics_view mem ! 1) generation)) (\<lambda>view.
       pret (mem, Inr view)))"

definition step_one :: "sim_world \<Rightarrow> ('c, 'o) native_library \<Rightarrow> encoded_action
    \<Rightarrow> ('c lane, 'o owned_transition \<times> events_view) py" where
  "step_one W L a = on_lane
     (pbind (send_step_padded W a) (\<lambda>_.
      pbind (receive_into W blank_transition) (\<lambda>(mem, r).
      pbind (plift r) (\<lambda>view. pret (OwnedExactTransition mem, ExactEvents view)))))
     (case a of (kind, x, y, wait) \<Rightarrow>
      pbind (native_step_padded L (NumInt kind) (NumFloat x) (NumFloat y) (NumInt wait)) (\<lambda>(t, view).
      pret (OwnedNativeTransition t, NativeEvents view)))"

end
