(* ===== verification/Padded_Env.thy ===== *)
theory Padded_Env
  imports Padded_Lanes Py_Json
begin

text \<open>
  \<open>PaddedVectorEnv\<close> of \<open>irisu_env/padded.py\<close> and the action parsing of \<open>env.py\<close>.  A job
  submitted to the executor runs on one lane; the order in which the jobs of a call complete is a
  parameter, and so are the answers of \<open>select.poll\<close>.  A computation on the environment is a step
  of its state; the lock around each method has no counterpart.
\<close>

section \<open>Actions\<close>

text \<open>ASCII forms of \<open>strip\<close>, \<open>lower\<close> and \<open>replace\<close>.\<close>

definition is_space :: "char \<Rightarrow> bool" where
  "is_space c \<longleftrightarrow> of_char c \<in> {9..13 :: nat} \<or> of_char c \<in> {28..32 :: nat}"

definition py_strip :: "string \<Rightarrow> string" where
  "py_strip s = rev (dropWhile is_space (rev (dropWhile is_space s)))"

definition py_lower :: "string \<Rightarrow> string" where
  "py_lower s = map (\<lambda>c. if of_char c \<in> {65..90 :: nat} then char_of (of_char c + 32 :: nat) else c) s"

definition py_replace :: "char \<Rightarrow> char \<Rightarrow> string \<Rightarrow> string" where
  "py_replace a b s = map (\<lambda>c. if c = a then b else c) s"

definition KIND_ALIASES :: "(string \<times> int) list" where
  "KIND_ALIASES = [(''wait'', 0), (''weak'', 1), (''weak_shot'', 1), (''strong'', 2), (''strong_shot'', 2),
     (''both'', 3), (''both_shots'', 3)]"

text \<open>A kind is a member of the enumeration or any other value.\<close>

datatype kind_arg = KindMember int | KindValue pyval

definition parse_kind :: "kind_arg \<Rightarrow> int res" where
  "parse_kind k = (case k of
     KindMember n \<Rightarrow> Inr n
   | KindValue (PyStr s) \<Rightarrow>
       (case map_of KIND_ALIASES (py_replace (CHR ''-'') (CHR ''_'') (py_lower (py_strip s))) of
          Some n \<Rightarrow> Inr n | None \<Rightarrow> Inl (value_error ''unknown action kind''))
   | KindValue (PyInt n) \<Rightarrow> if 0 \<le> n \<and> n \<le> 3 then Inr n else Inl (value_error ''unknown action kind'')
   | KindValue _ \<Rightarrow> Inl (Exn TypeError ''action kind must be an ActionKind, integer, or string''))"

text \<open>An \<open>Action\<close>, a mapping, or something else.\<close>

datatype action_arg =
    ActionObject kind_arg pyval pyval pyval
  | ActionMapping "kind_arg option" "pyval option" "pyval option" "pyval option"
  | ActionOther

type_synonym parsed_action = "int \<times> pyfloat \<times> pyfloat \<times> int"

definition check_action :: "int res \<Rightarrow> pyval \<Rightarrow> pyval \<Rightarrow> pyval \<Rightarrow> parsed_action res" where
  "check_action kind x y wait = rbind kind (\<lambda>k. case real_num x of
     None \<Rightarrow> Inl (Exn TypeError ''cursor_x must be a real number'')
   | Some xn \<Rightarrow> (case real_num y of
     None \<Rightarrow> Inl (Exn TypeError ''cursor_y must be a real number'')
   | Some yn \<Rightarrow> (case plain_int wait of
     None \<Rightarrow> Inl (Exn TypeError ''wait_ticks must be an integer'')
   | Some w \<Rightarrow> if \<not> (0 \<le> w \<and> w \<le> UINT32) then Inl (value_error ''wait_ticks must fit in uint32'')
     else rbind (num_to_float xn) (\<lambda>xf. rbind (num_to_float yn) (\<lambda>yf. Inr (k, xf, yf, w))))))"

text \<open>\<open>_action\<close>, with its short path for an \<open>Action\<close> of canonical types.\<close>

definition parse_action :: "action_arg \<Rightarrow> parsed_action res" where
  "parse_action a = (case a of
     ActionObject k x y wait \<Rightarrow>
       (case (k, real_num x, real_num y, plain_int wait) of
          (KindMember n, Some xn, Some yn, Some w) \<Rightarrow>
            if \<not> (0 \<le> w \<and> w \<le> UINT32) then Inl (value_error ''wait_ticks must fit in uint32'')
            else rbind (num_to_float xn) (\<lambda>xf. rbind (num_to_float yn) (\<lambda>yf. Inr (n, xf, yf, w)))
        | _ \<Rightarrow> check_action (parse_kind k) x y wait)
   | ActionMapping k x y wait \<Rightarrow>
       (case k of None \<Rightarrow> Inl (value_error ''action mapping requires kind'')
        | Some kind \<Rightarrow> check_action (parse_kind kind)
            (case x of None \<Rightarrow> PyFloat (Fin 0) | Some v \<Rightarrow> v) (case y of None \<Rightarrow> PyFloat (Fin 0) | Some v \<Rightarrow> v)
            (case wait of None \<Rightarrow> PyInt 1 | Some v \<Rightarrow> v))
   | ActionOther \<Rightarrow> Inl (Exn TypeError ''action must be an Action or mapping''))"

definition encode_floats :: "parsed_action \<Rightarrow> encoded_action" where
  "encode_floats a = (case a of (k, x, y, w) \<Rightarrow> (k, f64_bits x, f64_bits y, w))"

definition cursor_finite :: "parsed_action \<Rightarrow> bool" where
  "cursor_finite a = (case a of (_, x, y, _) \<Rightarrow> is_finite x \<and> is_finite y)"

section \<open>State\<close>

record ('c, 'o) padded_world =
  pw_sim :: "nat \<Rightarrow> sim_world"
  pw_library :: "('c, 'o) native_library"
  pw_create :: "nat \<Rightarrow> 'c native_sim res"
  pw_executor :: "exn option"
  pw_cpus :: int
  pw_order :: "'c lane list \<Rightarrow> nat \<Rightarrow> nat list"
  pw_poller :: "'c lane list \<Rightarrow> exn option"
  pw_fileno :: "nat \<Rightarrow> exact_sim \<Rightarrow> int res"
  pw_register :: "'c lane list \<Rightarrow> int \<Rightarrow> exn option"
  pw_poll :: "'c lane list \<Rightarrow> int list \<Rightarrow> int list res"
  pw_unregister :: "'c lane list \<Rightarrow> int \<Rightarrow> exn option"

record ('c, 'o) padded_env =
  pv_exact :: bool
  pv_num_envs :: nat
  pv_workers :: nat
  pv_executor :: bool
  pv_poisoned :: bool
  pv_lanes :: "'c lane list"
  pv_has_reset :: "bool list"
  pv_config_hashes :: "int list"
  pv_transition_buffers :: "byte list list list"
  pv_transition_slot :: nat
  pv_observation_buffers :: "byte list list list"
  pv_observation_slot :: nat
  pv_batch_buffers :: "'o batch_buffers option"

text \<open>What a method returns refers to a slot of a double buffer, or is owned by the caller.\<close>

datatype 'o transition_ref =
    TransitionView nat nat
  | BatchView nat nat
  | OwnTransition "'o owned_transition"

datatype 'o observation_ref =
    ObservationView nat nat
  | ObservationOf "'o transition_ref"
  | OwnObservation "'o owned_obs"

record 'o padded_info =
  pi_events :: events_view
  pi_invalid_action :: bool
  pi_config_hash :: int
  pi_diagnostics :: "'o transition_ref"

type_synonym 'o padded_step =
  "'o observation_ref list \<times> int list \<times> bool list \<times> bool list \<times> 'o padded_info list"

section \<open>Construction\<close>

definition BACKEND_ALIASES :: "(string \<times> bool) list" where
  "BACKEND_ALIASES = [(''portable'', False), (''exact'', True), (''exact-msvc'', True), (''exact-msvc9'', True)]"

definition default_exact_workers :: "int \<Rightarrow> int \<Rightarrow> int" where
  "default_exact_workers cpus num_envs = min num_envs (4 * cpus)"

text \<open>The checks of \<open>__init__\<close>: the number of lanes, whether the backend is exact, and the workers.\<close>

definition init_checks :: "int \<Rightarrow> pyval \<Rightarrow> pyval \<Rightarrow> pyval \<Rightarrow> bool \<Rightarrow> bool \<Rightarrow> (int \<times> bool \<times> int) res" where
  "init_checks cpus num_envs workers physics_backend library_path worker_path =
     (case plain_int num_envs of None \<Rightarrow> Inl (value_error ''num_envs must be a positive integer'')
      | Some n \<Rightarrow> if n \<le> 0 then Inl (value_error ''num_envs must be a positive integer'')
      else if workers \<noteq> PyNone \<and> (case plain_int workers of None \<Rightarrow> True | Some k \<Rightarrow> k \<le> 0)
      then Inl (value_error ''workers must be a positive integer or None'')
      else case plain_str physics_backend of None \<Rightarrow> Inl (Exn TypeError ''physics_backend must be a string'')
      | Some text \<Rightarrow>
      (case map_of BACKEND_ALIASES (py_replace (CHR ''_'') (CHR ''-'') (py_lower (py_strip text))) of
         None \<Rightarrow> Inl (value_error ''physics_backend must be portable or exact'')
       | Some exact \<Rightarrow>
         if \<not> exact \<and> worker_path then Inl (value_error ''worker_path is only valid for the exact backend'')
         else if exact \<and> library_path
         then Inl (value_error ''library_path is only valid for the portable backend'')
         else let requested = (case plain_int workers of Some k \<Rightarrow> k
                | None \<Rightarrow> if exact then default_exact_workers cpus n else n);
              ceiling = (if exact then n else 8)
         in Inr (n, exact, min n (min ceiling requested))))"

text \<open>One simulator after another; those made before a failure are closed, and an exception of a
  \<open>close\<close> replaces it.\<close>

fun create_lanes :: "('c, 'o) padded_world \<Rightarrow> bool \<Rightarrow> (config_key \<times> config_value) list \<Rightarrow> nat list
    \<Rightarrow> 'c lane list \<Rightarrow> exn option \<times> 'c lane list" where
  "create_lanes W exact config [] created = (None, created)"
| "create_lanes W exact config (i # rest) created =
     (case (if exact then rbind (sim_init (pw_sim W i) config) (\<lambda>s. Inr (ExactLane s))
            else rbind (pw_create W i) (\<lambda>s. Inr (NativeLane s))) of
        Inl e \<Rightarrow> (Some e, created) | Inr l \<Rightarrow> create_lanes W exact config rest (created @ [l]))"

fun close_lanes :: "('c, 'o) padded_world \<Rightarrow> nat \<Rightarrow> 'c lane list \<Rightarrow> unit res \<times> 'c lane list" where
  "close_lanes W i [] = (Inr (), [])"
| "close_lanes W i (l # ls) = (case lane_close (pw_sim W i) l of
     (Inl e, l') \<Rightarrow> (Inl e, l' # ls)
   | (Inr _, l') \<Rightarrow> (case close_lanes W (Suc i) ls of (r, ls') \<Rightarrow> (r, l' # ls')))"

fun lane_hashes :: "('c, 'o) padded_world \<Rightarrow> 'c lane list \<Rightarrow> int list res" where
  "lane_hashes W [] = Inr []"
| "lane_hashes W (l # ls) = rbind (fst (lane_config_hash (pw_library W) l)) (\<lambda>h.
     rbind (lane_hashes W ls) (\<lambda>hs. Inr (h # hs)))"

definition one_library :: "'c lane list \<Rightarrow> bool" where
  "one_library ls \<longleftrightarrow> (\<forall>a \<in> set ls. \<forall>b \<in> set ls. case (a, b) of
     (NativeLane x, NativeLane y) \<Rightarrow> ns_library x = ns_library y | _ \<Rightarrow> True)"

text \<open>The body under \<open>try\<close>; its exception, with the simulators created so far.\<close>

definition built :: "('c, 'o) padded_world \<Rightarrow> bool \<Rightarrow> (config_key \<times> config_value) list \<Rightarrow> nat
    \<Rightarrow> int list res \<times> 'c lane list" where
  "built W exact config n = (case create_lanes W exact config [0 ..< n] [] of
     (Some e, created) \<Rightarrow> (Inl e, created)
   | (None, created) \<Rightarrow> (rbind (lane_hashes W created) (\<lambda>hs.
       if \<not> exact \<and> \<not> one_library created
       then Inl (value_error ''batch simulators must use one native library'')
       else case pw_executor W of Some e \<Rightarrow> Inl e | None \<Rightarrow> Inr hs), created))"

definition padded_init :: "('c, 'o) padded_world \<Rightarrow> pyval \<Rightarrow> pyval \<Rightarrow> pyval \<Rightarrow> bool \<Rightarrow> bool
    \<Rightarrow> (config_key \<times> config_value) list \<Rightarrow> ('c, 'o) padded_env res" where
  "padded_init W num_envs workers physics_backend library_path worker_path config =
     rbind (init_checks (pw_cpus W) num_envs workers physics_backend library_path worker_path) (\<lambda>(k, exact, w).
     let n = nat k in
     case built W exact config n of
       (Inl e, created) \<Rightarrow>
         (if is_exception e then (case close_lanes W 0 created of (Inl e', _) \<Rightarrow> Inl e' | (Inr _, _) \<Rightarrow> Inl e)
          else Inl e)
     | (Inr hashes, created) \<Rightarrow> Inr \<lparr>pv_exact = exact, pv_num_envs = n, pv_workers = nat w,
         pv_executor = True, pv_poisoned = False, pv_lanes = created, pv_has_reset = replicate n False,
         pv_config_hashes = hashes,
         pv_transition_buffers = (if exact then replicate 2 (replicate n blank_transition) else []),
         pv_transition_slot = 0,
         pv_observation_buffers = (if exact then replicate 2 (replicate n blank_observation) else []),
         pv_observation_slot = 0, pv_batch_buffers = None\<rparr>)"

end
