(* ===== verification/Padded_Ops.thy ===== *)
theory Padded_Ops
  imports Padded_Env
begin

text \<open>The methods of \<open>PaddedVectorEnv\<close>.\<close>

section \<open>Guards and arguments\<close>

definition pv_require_open :: "(('c, 'o) padded_env, unit) py" where
  "pv_require_open =
     pbind (pget pv_poisoned) (\<lambda>poisoned.
     pbind (pguard poisoned (Exn RuntimeError ''padded vector environment is poisoned'')) (\<lambda>_.
     pbind (pget pv_executor) (\<lambda>executor.
     pguard (\<not> executor) (Exn RuntimeError ''padded vector environment is closed''))))"

text \<open>\<open>_items\<close>: None is not a sequence, or it is a text.\<close>

definition pv_items :: "'a list option \<Rightarrow> string \<Rightarrow> (('c, 'o) padded_env, 'a list) py" where
  "pv_items values label = pbind (pget pv_num_envs) (\<lambda>n. case values of
     None \<Rightarrow> praise (value_error (label @ '' must contain exactly one item per lane''))
   | Some xs \<Rightarrow> if length xs \<noteq> n then praise (value_error (label @ '' must contain exactly one item per lane''))
     else pret xs)"

definition subset_indices :: "nat \<Rightarrow> pyval list option \<Rightarrow> nat list res" where
  "subset_indices num_envs indices = (case indices of
     None \<Rightarrow> Inl (Exn TypeError ''lane indices must be a sequence'')
   | Some lanes \<Rightarrow>
     if list_ex (\<lambda>v. plain_int v = None) lanes then Inl (Exn TypeError ''lane indices must be integers'')
     else let normalized = map (\<lambda>v. the (plain_int v)) lanes in
     if \<not> distinct normalized then Inl (value_error ''lane indices must be unique'')
     else if list_ex (\<lambda>i. \<not> (0 \<le> i \<and> i < int num_envs)) normalized
     then Inl (Exn OtherException ''IndexError: lane index out of range'')
     else Inr (map nat normalized))"

definition pv_seed :: "pyval \<Rightarrow> int res" where
  "pv_seed v = (let resolved = (if v = PyNone then PyInt 0 else v) in case plain_int resolved of
     None \<Rightarrow> Inl (Exn TypeError ''seed must be an integer or None'')
   | Some n \<Rightarrow> if \<not> (0 \<le> n \<and> n \<le> UINT32) then Inl (value_error ''normal-mode seed must fit in uint32'') else Inr n)"

text \<open>Elements that \<open>set(...)\<close> counts as one are equal; a list cannot be put in a set.\<close>

fun py_distinct :: "pyval list \<Rightarrow> bool" where
  "py_distinct [] = True"
| "py_distinct (v # vs) \<longleftrightarrow> \<not> list_ex (py_eq v) vs \<and> py_distinct vs"

fun set_element :: "pyval \<Rightarrow> bool" where
  "set_element (PySeq _) = False" | "set_element _ = True"

text \<open>The index checks that \<open>reset_many\<close> and \<open>step_many\<close> share; \<open>operation\<close> starts their texts.\<close>

definition lane_indices :: "nat \<Rightarrow> string \<Rightarrow> pyval list \<Rightarrow> nat list res" where
  "lane_indices num_envs operation indices =
     (if \<not> list_all set_element indices then Inl (Exn TypeError ''unhashable type'')
      else if \<not> py_distinct indices then Inl (value_error (operation @ '' indices must be unique''))
      else if list_ex (\<lambda>v. plain_int v = None) indices
      then Inl (Exn TypeError (operation @ '' indices must be integers''))
      else let lanes = map (\<lambda>v. the (plain_int v)) indices in
      if list_ex (\<lambda>i. \<not> (0 \<le> i \<and> i < int num_envs)) lanes
      then Inl (Exn OtherException (''IndexError: '' @ operation @ '' lane index out of range''))
      else Inr (map nat lanes))"

section \<open>Jobs on lanes\<close>

definition run_job :: "nat \<times> ('c lane, 'a) py \<Rightarrow> 'c lane list \<Rightarrow> 'a res \<times> 'c lane list" where
  "run_job job ls = (case job of (i, m) \<Rightarrow> (case m (ls ! i) of (r, l) \<Rightarrow> (r, ls[i := l])))"

fun run_jobs :: "nat list \<Rightarrow> (nat \<times> ('c lane, 'a) py) list \<Rightarrow> 'c lane list
    \<Rightarrow> (nat \<times> 'a res) list \<times> 'c lane list" where
  "run_jobs [] jobs ls = ([], ls)"
| "run_jobs (k # ks) jobs ls = (case run_job (jobs ! k) ls of (r, ls') \<Rightarrow>
     (case run_jobs ks jobs ls' of (rs, ls'') \<Rightarrow> ((k, r) # rs, ls'')))"

text \<open>\<open>_drain\<close>: every future is awaited, then the first failure in submission order is raised.\<close>

fun drain :: "'a res list \<Rightarrow> 'a list \<Rightarrow> exn option \<Rightarrow> 'a list res" where
  "drain [] results failure = (case failure of None \<Rightarrow> Inr results | Some e \<Rightarrow> Inl e)"
| "drain (Inr x # rs) results failure = drain rs (results @ [x]) failure"
| "drain (Inl e # rs) results failure =
     drain rs results (case failure of None \<Rightarrow> Some e | Some e0 \<Rightarrow> Some e0)"

definition in_pool :: "('c, 'o) padded_world \<Rightarrow> (nat \<times> ('c lane, 'a) py) list
    \<Rightarrow> (('c, 'o) padded_env, 'a list) py" where
  "in_pool W jobs = (\<lambda>s. case run_jobs (pw_order W (pv_lanes s) (length jobs)) jobs (pv_lanes s) of
     (rs, ls) \<Rightarrow> (drain (map (\<lambda>k. the (map_of rs k)) [0 ..< length jobs]) [] None, s\<lparr>pv_lanes := ls\<rparr>))"

text \<open>A call on one lane, in the caller's thread; a tuple of such calls.\<close>

definition at_lane :: "nat \<Rightarrow> ('c lane, 'a) py \<Rightarrow> (('c, 'o) padded_env, 'a) py" where
  "at_lane i m = (\<lambda>s. case m (pv_lanes s ! i) of (r, l) \<Rightarrow> (r, s\<lparr>pv_lanes := (pv_lanes s)[i := l]\<rparr>))"

fun at_lanes :: "(nat \<Rightarrow> ('c lane, 'a) py) \<Rightarrow> nat list \<Rightarrow> (('c, 'o) padded_env, 'a list) py" where
  "at_lanes m [] = pret []"
| "at_lanes m (i # is) = pbind (at_lane i (m i)) (\<lambda>x. pbind (at_lanes m is) (\<lambda>xs. pret (x # xs)))"

definition mark_reset :: "nat list \<Rightarrow> bool list \<Rightarrow> bool list" where
  "mark_reset lanes bs = foldl (\<lambda>bs i. bs[i := True]) bs lanes"

section \<open>Reset\<close>

text \<open>\<open>_pack_exact_observations\<close>: the other buffer of the pair is filled lane by lane.\<close>

fun pack_from :: "exact_observation list \<Rightarrow> byte list list \<Rightarrow> unit res \<times> byte list list" where
  "pack_from (v # vs) (m # ms) = (case copy_exact_observation v m of
     Inl e \<Rightarrow> (Inl e, m # ms) | Inr m' \<Rightarrow> (case pack_from vs ms of (r, ms') \<Rightarrow> (r, m' # ms')))"
| "pack_from _ ms = (Inr (), ms)"

definition pack_exact_observations :: "exact_observation list
    \<Rightarrow> (('c, 'o) padded_env, 'o observation_ref list) py" where
  "pack_exact_observations values = (\<lambda>s.
     let slot = 1 - pv_observation_slot s in
     case pack_from values (pv_observation_buffers s ! slot) of (r, buffer) \<Rightarrow>
       (rbind r (\<lambda>_. Inr (map (ObservationView slot) [0 ..< pv_num_envs s])),
        s\<lparr>pv_observation_slot := slot, pv_observation_buffers := (pv_observation_buffers s)[slot := buffer]\<rparr>))"

text \<open>The seeds of a full reset; \<open>seed\<close> is None, an integer or a sequence.\<close>

definition full_seeds :: "pyval \<Rightarrow> (('c, 'o) padded_env, pyval list) py" where
  "full_seeds seed = pbind (pget pv_num_envs) (\<lambda>n. case seed of
     PyNone \<Rightarrow> pret (replicate n PyNone)
   | PyInt k \<Rightarrow> pret (map (\<lambda>i. PyInt (k + int i)) [0 ..< n])
   | PySeq xs \<Rightarrow> pv_items (Some xs) ''seed''
   | _ \<Rightarrow> pv_items None ''seed'')"

definition typed_reset :: "sim_world \<Rightarrow> int \<Rightarrow> ('c lane, exact_observation) py" where
  "typed_reset V seed = on_lane (reset_typed V (NumInt seed)) (praise (Exn AssertionError ''exact lane''))"

definition pv_reset :: "('c, 'o) padded_world \<Rightarrow> pyval
    \<Rightarrow> (('c, 'o) padded_env, 'o observation_ref list \<times> (int \<times> int) list) py" where
  "pv_reset W seed =
     pbind pv_require_open (\<lambda>_.
     pbind (full_seeds seed) (\<lambda>seeds.
     pbind (plift (rmap pv_seed seeds)) (\<lambda>resolved.
     pbind (pget pv_exact) (\<lambda>exact.
     pbind (if exact
       then pbind (in_pool W (map (\<lambda>(i, n). (i, typed_reset (pw_sim W i) n)) (zip [0 ..< length resolved] resolved)))
              pack_exact_observations
       else pbind (in_pool W (map (\<lambda>(i, n). (i, reset_one (pw_sim W i) (pw_library W) n))
                (zip [0 ..< length resolved] resolved))) (\<lambda>xs. pret (map OwnObservation xs))) (\<lambda>observations.
     pbind (pmod (\<lambda>s. s\<lparr>pv_has_reset := replicate (pv_num_envs s) True\<rparr>)) (\<lambda>_.
     pbind (pget (\<lambda>s. zip resolved (pv_config_hashes s))) (\<lambda>infos. pret (observations, infos))))))))"

definition pv_reset_at :: "('c, 'o) padded_world \<Rightarrow> int \<Rightarrow> pyval
    \<Rightarrow> (('c, 'o) padded_env, 'o observation_ref) py" where
  "pv_reset_at W index seed =
     pbind pv_require_open (\<lambda>_.
     pbind (pget (\<lambda>s. \<not> (0 \<le> index \<and> index < int (pv_num_envs s)))) (\<lambda>outside.
     pbind (pguard outside (Exn OtherException ''IndexError'')) (\<lambda>_.
     let i = nat index in
     pbind (plift (pv_seed seed)) (\<lambda>n.
     pbind (at_lane i (reset_one (pw_sim W i) (pw_library W) n)) (\<lambda>x.
     pbind (pmod (\<lambda>s. s\<lparr>pv_has_reset := (pv_has_reset s)[i := True]\<rparr>)) (\<lambda>_.
     pret (OwnObservation x)))))))"

definition reset_many :: "('c, 'o) padded_world \<Rightarrow> pyval list \<Rightarrow> pyval list
    \<Rightarrow> (('c, 'o) padded_env, 'o observation_ref list) py" where
  "reset_many W indices seeds =
     pbind pv_require_open (\<lambda>_.
     pbind (pguard (length indices \<noteq> length seeds) (value_error ''indices and seeds must have equal length'')) (\<lambda>_.
     pbind (pget pv_num_envs) (\<lambda>n.
     pbind (plift (lane_indices n ''reset'' indices)) (\<lambda>lanes.
     pbind (plift (rmap pv_seed seeds)) (\<lambda>resolved.
     pbind (in_pool W (map (\<lambda>(i, seed). (i, reset_one (pw_sim W i) (pw_library W) seed)) (zip lanes resolved))) (\<lambda>xs.
     pbind (pmod (\<lambda>s. s\<lparr>pv_has_reset := mark_reset lanes (pv_has_reset s)\<rparr>)) (\<lambda>_.
     pret (map OwnObservation xs))))))))"

section \<open>Snapshots\<close>

definition pv_clone_state :: "('c, 'o) padded_world \<Rightarrow> (('c, 'o) padded_env, byte list list) py" where
  "pv_clone_state W =
     pbind pv_require_open (\<lambda>_.
     pbind (pget (\<lambda>s. list_all id (pv_has_reset s))) (\<lambda>all_reset.
     pbind (pguard (\<not> all_reset) (Exn RuntimeError ''reset must be called before clone_state'')) (\<lambda>_.
     pbind (pget (\<lambda>s. length (pv_lanes s))) (\<lambda>n.
     at_lanes (\<lambda>i. lane_clone (pw_sim W i) (pw_library W)) [0 ..< n]))))"

definition reset_lanes :: "string \<Rightarrow> nat list \<Rightarrow> (('c, 'o) padded_env, unit) py" where
  "reset_lanes operation lanes = pbind (pget (\<lambda>s. list_ex (\<lambda>i. \<not> pv_has_reset s ! i) lanes)) (\<lambda>unset.
     pguard unset (Exn RuntimeError (''reset must be called before '' @ operation)))"

definition clone_state_many :: "('c, 'o) padded_world \<Rightarrow> pyval list option
    \<Rightarrow> (('c, 'o) padded_env, byte list list) py" where
  "clone_state_many W indices =
     pbind pv_require_open (\<lambda>_.
     pbind (pget (\<lambda>s. subset_indices (pv_num_envs s) indices)) (\<lambda>r.
     pbind (plift r) (\<lambda>lanes.
     pbind (reset_lanes ''clone_state'' lanes) (\<lambda>_.
     at_lanes (\<lambda>i. lane_clone (pw_sim W i) (pw_library W)) lanes))))"

text \<open>What a restore hands out: an exact lane's observation is copied into memory of its own.\<close>

definition hand_out :: "'o lane_obs \<Rightarrow> 'o observation_ref res" where
  "hand_out x = (case x of
     TypedObs obs \<Rightarrow> rbind (copy_exact_observation obs blank_observation) (\<lambda>m. Inr (OwnObservation (OwnedExact m)))
   | NativeObs v \<Rightarrow> Inr (OwnObservation (OwnedNative v)))"

text \<open>A snapshot is None when it is not \<open>bytes\<close>, the argument None when it is not a sequence.\<close>

definition restore_jobs :: "('c, 'o) padded_world \<Rightarrow> nat list \<Rightarrow> byte list list
    \<Rightarrow> (nat \<times> ('c lane, 'o lane_obs) py) list" where
  "restore_jobs W lanes snapshots =
     map (\<lambda>(i, b). (i, restore_one (pw_sim W i) (pw_library W) b)) (zip lanes snapshots)"

definition roll_back :: "('c, 'o) padded_world \<Rightarrow> nat list \<Rightarrow> byte list list \<Rightarrow> bool list \<Rightarrow> exn
    \<Rightarrow> (('c, 'o) padded_env, 'a) py" where
  "roll_back W lanes backups prior e =
     pbind (pcatch_base (in_pool W (restore_jobs W lanes backups))
       (\<lambda>_. pbind (pmod (\<lambda>s. s\<lparr>pv_poisoned := True\<rparr>)) (\<lambda>_.
        praise (Exn RuntimeError ''padded vector subset snapshot rollback failed'')))) (\<lambda>_.
     pbind (pmod (\<lambda>s. s\<lparr>pv_has_reset := foldl (\<lambda>bs (i, b). bs[i := b]) (pv_has_reset s) (zip lanes prior)\<rparr>)) (\<lambda>_.
     praise e))"

definition restore_many :: "('c, 'o) padded_world \<Rightarrow> pyval list option \<Rightarrow> byte list option list option
    \<Rightarrow> (('c, 'o) padded_env, 'o observation_ref list) py" where
  "restore_many W indices snapshots =
     pbind pv_require_open (\<lambda>_.
     pbind (pget (\<lambda>s. subset_indices (pv_num_envs s) indices)) (\<lambda>r.
     pbind (plift r) (\<lambda>lanes. case snapshots of
       None \<Rightarrow> praise (Exn TypeError ''snapshots must be a sequence'')
     | Some supplied \<Rightarrow>
       pbind (pguard (length supplied \<noteq> length lanes)
         (value_error ''indices and snapshots must have equal length'')) (\<lambda>_.
       pbind (pguard (None \<in> set supplied) (Exn TypeError ''snapshots must be owned bytes'')) (\<lambda>_.
       if lanes = [] then pret [] else
       pbind (at_lanes (\<lambda>i. lane_clone (pw_sim W i) (pw_library W)) lanes) (\<lambda>backups.
       pbind (pget (\<lambda>s. map (\<lambda>i. pv_has_reset s ! i) lanes)) (\<lambda>prior.
       pbind (pcatch_base (in_pool W (restore_jobs W lanes (map the supplied)))
         (roll_back W lanes backups prior)) (\<lambda>observations.
       pbind (pmod (\<lambda>s. s\<lparr>pv_has_reset := mark_reset lanes (pv_has_reset s)\<rparr>)) (\<lambda>_.
       plift (rmap hand_out observations)))))))))) "

definition pv_restore_state :: "('c, 'o) padded_world \<Rightarrow> byte list option list option
    \<Rightarrow> (('c, 'o) padded_env, 'o observation_ref list) py" where
  "pv_restore_state W snapshots =
     pbind (pv_items snapshots ''snapshots'') (\<lambda>supplied.
     pbind (pget pv_num_envs) (\<lambda>n.
     restore_many W (Some (map (\<lambda>i. PyInt (int i)) [0 ..< n])) (Some supplied)))"

section \<open>Hashes and the end\<close>

definition pv_state_hash :: "('c, 'o) padded_world \<Rightarrow> (('c, 'o) padded_env, int list) py" where
  "pv_state_hash W =
     pbind pv_require_open (\<lambda>_.
     pbind (pget (\<lambda>s. list_all id (pv_has_reset s))) (\<lambda>all_reset.
     pbind (pguard (\<not> all_reset) (Exn RuntimeError ''reset must be called before state_hash'')) (\<lambda>_.
     pbind (pget (\<lambda>s. length (pv_lanes s))) (\<lambda>n.
     at_lanes (\<lambda>i. lane_state_hash (pw_sim W i) (pw_library W)) [0 ..< n]))))"

definition state_hash_many :: "('c, 'o) padded_world \<Rightarrow> pyval list option
    \<Rightarrow> (('c, 'o) padded_env, int list) py" where
  "state_hash_many W indices =
     pbind pv_require_open (\<lambda>_.
     pbind (pget (\<lambda>s. subset_indices (pv_num_envs s) indices)) (\<lambda>r.
     pbind (plift r) (\<lambda>lanes.
     pbind (reset_lanes ''state_hash'' lanes) (\<lambda>_.
     at_lanes (\<lambda>i. lane_state_hash (pw_sim W i) (pw_library W)) lanes))))"

definition config_hash_many :: "pyval list option \<Rightarrow> (('c, 'o) padded_env, int list) py" where
  "config_hash_many indices =
     pbind pv_require_open (\<lambda>_.
     pbind (pget (\<lambda>s. subset_indices (pv_num_envs s) indices)) (\<lambda>r.
     pbind (plift r) (\<lambda>lanes. pget (\<lambda>s. map (\<lambda>i. pv_config_hashes s ! i) lanes))))"

definition pv_close :: "('c, 'o) padded_world \<Rightarrow> (('c, 'o) padded_env, unit) py" where
  "pv_close W =
     pbind (pget pv_executor) (\<lambda>executor.
     pwhen executor
       (pbind (pmod (\<lambda>s. s\<lparr>pv_executor := False\<rparr>)) (\<lambda>_.
        pbind (\<lambda>s. case close_lanes W 0 (pv_lanes s) of (r, ls) \<Rightarrow> (r, s\<lparr>pv_lanes := ls\<rparr>)) (\<lambda>_.
        pmod (\<lambda>s. s\<lparr>pv_has_reset := replicate (pv_num_envs s) False\<rparr>)))))"

end
