(* ===== verification/Padded_Step.thy ===== *)
theory Padded_Step
  imports Padded_Ops
begin

text \<open>
  \<open>step\<close> and \<open>step_many\<close> of \<open>PaddedVectorEnv\<close>.  The exact step sends a wave of requests, polls the
  workers' pipes and receives from a lane when its descriptor is ready.  The poll loop is a partial
  function: it ends when every answer of \<open>poll\<close> names a registered descriptor.
\<close>

section \<open>The exact step\<close>

text \<open>The locals of \<open>_step_exact\<close>: the events of the lanes received so far (their transitions are the
  buffer's), and the failures in the order they were recorded.\<close>

record exact_frame =
  ef_events :: "exact_events option list"
  ef_failures :: "(nat \<times> exn) list"

type_synonym ('c, 'o) framed_env = "('c, 'o) padded_env \<times> exact_frame"

definition record_failure :: "nat \<Rightarrow> exn \<Rightarrow> ('c, 'o) framed_env \<Rightarrow> ('c, 'o) framed_env" where
  "record_failure i e = (\<lambda>(s, f). (s, if i \<in> fst ` set (ef_failures f) then f
     else f\<lparr>ef_failures := ef_failures f @ [(i, e)]\<rparr>))"

text \<open>A call on an exact lane; the assertion of its class holds, since an exact environment has only
  exact lanes.\<close>

definition on_exact :: "nat \<Rightarrow> (exact_sim, 'a) py \<Rightarrow> (('c, 'o) padded_env, 'a) py" where
  "on_exact i m = at_lane i (on_lane m (praise (Exn AssertionError ''exact lane'')))"

text \<open>\<open>receive\<close>; every exception is a failure of the lane.\<close>

definition receive_lane :: "('c, 'o) padded_world \<Rightarrow> nat \<Rightarrow> nat \<Rightarrow> ('c, 'o) framed_env \<Rightarrow> ('c, 'o) framed_env" where
  "receive_lane W slot i st = (case st of (s, f) \<Rightarrow>
     (case on_exact i (receive_into (pw_sim W i) (pv_transition_buffers s ! slot ! i)) s of
        (Inl e, s') \<Rightarrow> record_failure i e (s', f)
      | (Inr (mem, r), s') \<Rightarrow>
          let s'' = s'\<lparr>pv_transition_buffers := (pv_transition_buffers s')
                [slot := (pv_transition_buffers s' ! slot)[i := mem]]\<rparr>
          in case r of Inl e \<Rightarrow> record_failure i e (s'', f)
             | Inr view \<Rightarrow> (s'', f\<lparr>ef_events := (ef_events f)[i := Some view]\<rparr>)))"

definition receive_all :: "('c, 'o) padded_world \<Rightarrow> nat \<Rightarrow> nat list \<Rightarrow> ('c, 'o) framed_env \<Rightarrow> ('c, 'o) framed_env" where
  "receive_all W slot lanes st = foldl (\<lambda>st i. receive_lane W slot i st) st lanes"

text \<open>The requests of a wave; the lanes whose request was sent.\<close>

fun send_wave :: "('c, 'o) padded_world \<Rightarrow> encoded_action list \<Rightarrow> nat list \<Rightarrow> ('c, 'o) framed_env
    \<Rightarrow> nat list \<times> ('c, 'o) framed_env" where
  "send_wave W encoded [] st = ([], st)"
| "send_wave W encoded (i # is) st = (case st of (s, f) \<Rightarrow>
     (case on_exact i (send_step_padded (pw_sim W i) (encoded ! i)) s of
        (Inl e, s') \<Rightarrow> send_wave W encoded is (record_failure i e (s', f))
      | (Inr _, s') \<Rightarrow> (case send_wave W encoded is (s', f) of (sent, st') \<Rightarrow> (i # sent, st'))))"

text \<open>\<open>_pending_response_fd\<close>.\<close>

definition pending_response_fd :: "('c, 'o) padded_world \<Rightarrow> nat \<Rightarrow> (exact_sim, int) py" where
  "pending_response_fd W i =
     pbind (pget xs_pending) (\<lambda>pending.
     pbind (pguard (pending = None) (native_failed ''exact simulator has no pending step'')) (\<lambda>_.
     pbind require_open (\<lambda>_. \<lambda>s. (pw_fileno W i s, s))))"

text \<open>\<open>pending\<close> maps descriptors to lanes in the order they were registered.  The first failure ends
  the loop; then the setup has failed.\<close>

fun register_wave :: "('c, 'o) padded_world \<Rightarrow> nat list \<Rightarrow> (int \<times> nat) list \<Rightarrow> ('c, 'o) framed_env
    \<Rightarrow> bool \<times> (int \<times> nat) list \<times> ('c, 'o) framed_env" where
  "register_wave W [] pending st = (False, pending, st)"
| "register_wave W (i # is) pending st = (case st of (s, f) \<Rightarrow>
     (case on_exact i (pending_response_fd W i) s of
        (Inl e, s') \<Rightarrow> (True, pending, record_failure i e (s', f))
      | (Inr d, s') \<Rightarrow>
          if d \<in> fst ` set pending
          then (True, pending, record_failure i
            (native_failed ''exact padded workers share a response descriptor'') (s', f))
          else case pw_register W (pv_lanes s') d of
            Some e \<Rightarrow> (True, pending, record_failure i e (s', f))
          | None \<Rightarrow> register_wave W is (pending @ [(d, i)]) (s', f)))"

text \<open>The loop over one answer of \<open>poll\<close>; the flag is \<open>poll_aborted\<close>.\<close>

fun serve_ready :: "('c, 'o) padded_world \<Rightarrow> nat \<Rightarrow> int list \<Rightarrow> (int \<times> nat) list \<Rightarrow> ('c, 'o) framed_env
    \<Rightarrow> bool \<times> (int \<times> nat) list \<times> ('c, 'o) framed_env" where
  "serve_ready W slot [] pending st = (False, pending, st)"
| "serve_ready W slot (d # ds) pending st = (case map_of pending d of
     None \<Rightarrow> serve_ready W slot ds pending st
   | Some lane \<Rightarrow>
       let rest = filter (\<lambda>(d', _). d' \<noteq> d) pending in
       (case pw_unregister W (pv_lanes (fst st)) d of
          Some e \<Rightarrow> (True, [], receive_all W slot (map snd rest)
            (receive_lane W slot lane (record_failure lane e st)))
        | None \<Rightarrow> serve_ready W slot ds rest (receive_lane W slot lane st)))"

text \<open>An exception of \<open>poll\<close>, or an empty answer, is a failure of the lowest pending lane, and every
  pending lane is received from.\<close>

definition poll_failed :: "('c, 'o) padded_world \<Rightarrow> nat \<Rightarrow> (int \<times> nat) list \<Rightarrow> exn \<Rightarrow> ('c, 'o) framed_env
    \<Rightarrow> ('c, 'o) framed_env" where
  "poll_failed W slot pending e st =
     receive_all W slot (map snd pending) (record_failure (Min (snd ` set pending)) e st)"

partial_function (option) poll_loop :: "('c, 'o) padded_world \<Rightarrow> nat \<Rightarrow> (int \<times> nat) list \<Rightarrow> ('c, 'o) framed_env
    \<Rightarrow> ('c, 'o) framed_env option" where
  "poll_loop W slot pending st =
     (if pending = [] then Some st
      else case pw_poll W (pv_lanes (fst st)) (map fst pending) of
        Inl e \<Rightarrow> Some (poll_failed W slot pending e st)
      | Inr ready \<Rightarrow>
          if ready = []
          then Some (poll_failed W slot pending (native_failed ''exact padded response poll returned no ready lanes'') st)
          else (case serve_ready W slot ready pending st of (aborted, rest, st') \<Rightarrow>
            if aborted then Some st' else poll_loop W slot rest st'))"

text \<open>One wave: None when the poll loop does not end, an exception when the poll set cannot be made.\<close>

definition exact_wave :: "('c, 'o) padded_world \<Rightarrow> nat \<Rightarrow> encoded_action list \<Rightarrow> nat list
    \<Rightarrow> ('c, 'o) framed_env \<Rightarrow> (unit res \<times> ('c, 'o) framed_env) option" where
  "exact_wave W slot encoded wave st = (case pw_poller W (pv_lanes (fst st)) of
     Some e \<Rightarrow> Some (Inl e, st)
   | None \<Rightarrow> (case send_wave W encoded wave st of (sent, st1) \<Rightarrow>
       (case register_wave W sent [] st1 of (setup_failed, pending, st2) \<Rightarrow>
         if setup_failed then Some (Inr (), receive_all W slot sent st2)
         else map_option (Pair (Inr ())) (poll_loop W slot pending st2))))"

fun exact_waves :: "('c, 'o) padded_world \<Rightarrow> nat \<Rightarrow> encoded_action list \<Rightarrow> nat list list
    \<Rightarrow> ('c, 'o) framed_env \<Rightarrow> (unit res \<times> ('c, 'o) framed_env) option" where
  "exact_waves W slot encoded [] st = Some (Inr (), st)"
| "exact_waves W slot encoded (wave # waves) st =
     Option.bind (exact_wave W slot encoded wave st) (\<lambda>(r, st'). case r of
       Inl e \<Rightarrow> Some (Inl e, st') | Inr _ \<Rightarrow> exact_waves W slot encoded waves st')"

text \<open>\<open>range(0, num_envs, workers)\<close>\<close>

function wave_bounds :: "nat \<Rightarrow> nat \<Rightarrow> nat \<Rightarrow> nat list list" where
  "wave_bounds start n workers = (if n \<le> start \<or> workers = 0 then []
     else [start ..< min (start + workers) n] # wave_bounds (start + workers) n workers)"
  by pat_completeness auto
termination by (relation "measure (\<lambda>(start, n, workers). n - start)") auto

declare wave_bounds.simps [simp del]

definition first_failure :: "(nat \<times> exn) list \<Rightarrow> exn" where
  "first_failure failures = the (map_of failures (Min (fst ` set failures)))"

definition step_exact :: "('c, 'o) padded_world \<Rightarrow> encoded_action list \<Rightarrow> ('c, 'o) padded_env
    \<Rightarrow> ((('o transition_ref \<times> events_view) list) res \<times> ('c, 'o) padded_env) option" where
  "step_exact W encoded s =
     (let n = pv_num_envs s; slot = 1 - pv_transition_slot s in
      map_option (\<lambda>(r, (t, f)). (rbind r (\<lambda>_.
          if ef_failures f \<noteq> [] then Inl (first_failure (ef_failures f))
          else Inr (map (\<lambda>i. (TransitionView slot i, ExactEvents (the (ef_events f ! i)))) [0 ..< n])), t))
        (exact_waves W slot encoded (wave_bounds 0 n (pv_workers s))
          (s\<lparr>pv_transition_slot := slot\<rparr>, \<lparr>ef_events = replicate n None, ef_failures = []\<rparr>)))"

section \<open>What a transition holds\<close>

text \<open>The fields \<open>reward\<close>, \<open>config_hash\<close>, \<open>terminated\<close>, \<open>truncated\<close> and \<open>invalid_action\<close>.\<close>

record transition_values =
  tv_reward :: int
  tv_config_hash :: int
  tv_terminated :: bool
  tv_truncated :: bool
  tv_invalid_action :: bool

definition packed_values :: "byte list \<Rightarrow> transition_values" where
  "packed_values mem = (let v = diagnostics_view mem in \<lparr>tv_reward = v ! 0, tv_config_hash = v ! 2,
     tv_terminated = (v ! 12 \<noteq> 0), tv_truncated = (v ! 13 \<noteq> 0), tv_invalid_action = (v ! 15 \<noteq> 0)\<rparr>)"

definition native_values :: "'o native_transition \<Rightarrow> transition_values" where
  "native_values t = \<lparr>tv_reward = nt_reward t, tv_config_hash = nt_config_hash t,
     tv_terminated = nt_terminated t, tv_truncated = nt_truncated t, tv_invalid_action = nt_invalid_action t\<rparr>"

definition transition_at :: "('c, 'o) padded_env \<Rightarrow> 'o transition_ref \<Rightarrow> transition_values" where
  "transition_at s r = (case r of
     TransitionView slot i \<Rightarrow> packed_values (pv_transition_buffers s ! slot ! i)
   | BatchView slot i \<Rightarrow> native_values (bb_transitions (the (pv_batch_buffers s)) ! slot ! i)
   | OwnTransition (OwnedExactTransition mem) \<Rightarrow> packed_values mem
   | OwnTransition (OwnedNativeTransition t) \<Rightarrow> native_values t)"

text \<open>The lists a step returns, read from the lanes' transitions.\<close>

definition padded_result :: "('c, 'o) padded_env \<Rightarrow> ('o transition_ref \<times> events_view) list \<Rightarrow> 'o padded_step" where
  "padded_result s rs =
     (map (\<lambda>(r, _). ObservationOf r) rs,
      map (\<lambda>(r, _). tv_reward (transition_at s r)) rs,
      map (\<lambda>(r, _). tv_terminated (transition_at s r)) rs,
      map (\<lambda>(r, _). tv_truncated (transition_at s r)) rs,
      map (\<lambda>(r, view). \<lparr>pi_events = view, pi_invalid_action = tv_invalid_action (transition_at s r),
        pi_config_hash = tv_config_hash (transition_at s r), pi_diagnostics = r\<rparr>) rs)"

section \<open>Step\<close>

definition native_sims :: "'c lane list \<Rightarrow> 'c native_sim list" where
  "native_sims ls = concat (map (\<lambda>l. case l of NativeLane s \<Rightarrow> [s] | ExactLane _ \<Rightarrow> []) ls)"

definition step_batch :: "('c, 'o) padded_world \<Rightarrow> encoded_action list
    \<Rightarrow> (('c, 'o) padded_env, ('o transition_ref \<times> events_view) list) py" where
  "step_batch W encoded = (\<lambda>s.
     case step_padded_batch (pw_library W) (native_sims (pv_lanes s)) encoded (pv_batch_buffers s) (pv_workers s) of
       (r, sims, buffers) \<Rightarrow>
         (rbind r (\<lambda>rs. Inr (map (\<lambda>(i, (_, view)). (BatchView (bb_slot (the buffers)) i, NativeEvents view))
            (zip [0 ..< length rs] rs))),
          s\<lparr>pv_lanes := map NativeLane sims, pv_batch_buffers := buffers\<rparr>))"

text \<open>The checks of a step before any lane is called.\<close>

definition step_checks :: "action_arg list option
    \<Rightarrow> (('c, 'o) padded_env, encoded_action list) py" where
  "step_checks actions =
     pbind pv_require_open (\<lambda>_.
     pbind (pget (\<lambda>s. list_all id (pv_has_reset s))) (\<lambda>all_reset.
     pbind (pguard (\<not> all_reset) (Exn RuntimeError ''reset must be called before step'')) (\<lambda>_.
     pbind (pv_items actions ''actions'') (\<lambda>xs.
     pbind (plift (rmap parse_action xs)) (\<lambda>parsed.
     pbind (pguard (\<not> list_all cursor_finite parsed) (value_error ''cursor coordinates must be finite'')) (\<lambda>_.
     pret (map encode_floats parsed)))))))"

definition pv_step :: "('c, 'o) padded_world \<Rightarrow> action_arg list option \<Rightarrow> ('c, 'o) padded_env
    \<Rightarrow> ('o padded_step res \<times> ('c, 'o) padded_env) option" where
  "pv_step W actions s = (case step_checks actions s of
     (Inl e, t) \<Rightarrow> Some (Inl e, t)
   | (Inr encoded, t) \<Rightarrow>
       map_option (\<lambda>(r, u). (rbind r (\<lambda>rs. Inr (padded_result u rs)), u))
         (if pv_exact t then step_exact W encoded t else Some (step_batch W encoded t)))"

definition step_many :: "('c, 'o) padded_world \<Rightarrow> pyval list \<Rightarrow> action_arg list
    \<Rightarrow> (('c, 'o) padded_env, 'o padded_step) py" where
  "step_many W indices actions =
     pbind pv_require_open (\<lambda>_.
     pbind (pguard (length indices \<noteq> length actions) (value_error ''indices and actions must have equal length'')) (\<lambda>_.
     pbind (pget pv_num_envs) (\<lambda>n.
     pbind (plift (lane_indices n ''step'' indices)) (\<lambda>lanes.
     pbind (reset_lanes ''step'' lanes) (\<lambda>_.
     pbind (plift (rmap parse_action actions)) (\<lambda>parsed.
     pbind (pguard (\<not> list_all cursor_finite parsed) (value_error ''cursor coordinates must be finite'')) (\<lambda>_.
     pbind (in_pool W (map (\<lambda>(i, a). (i, step_one (pw_sim W i) (pw_library W) (encode_floats a))) (zip lanes parsed)))
       (\<lambda>results.
     pget (\<lambda>s. padded_result s (map (\<lambda>(t, view). (OwnTransition t, view)) results))))))))))"

end
