(* ===== verification/Padded_Facts.thy ===== *)
theory Padded_Facts
  imports Padded_Step
begin

text \<open>
  What the pool, the poll loop and the waves of a padded vector environment do, lane by lane:
  the result of a call does not depend on the order in which its lanes are served.
\<close>

section \<open>The pool\<close>

text \<open>An executor runs every submitted job exactly once.\<close>

definition fair_pool :: "('c, 'o) padded_world \<Rightarrow> bool" where
  "fair_pool W \<longleftrightarrow> (\<forall>ls n. distinct (pw_order W ls n) \<and> set (pw_order W ls n) = {..<n})"

definition job_results :: "(nat \<times> ('c lane, 'a) py) list \<Rightarrow> 'c lane list \<Rightarrow> 'a res list" where
  "job_results jobs ls = map (\<lambda>(i, m). fst (m (ls ! i))) jobs"

definition job_lane :: "(nat \<times> ('c lane, 'a) py) list \<Rightarrow> 'c lane list \<Rightarrow> nat \<Rightarrow> 'c lane" where
  "job_lane jobs ls i = (case map_of jobs i of None \<Rightarrow> ls ! i | Some m \<Rightarrow> snd (m (ls ! i)))"

lemma run_jobs_spec:
  assumes "distinct (map fst jobs)" "\<forall>i \<in> fst ` set jobs. i < length ls"
    and "distinct ks" "set ks \<subseteq> {..<length jobs}" "run_jobs ks jobs ls = (rs, ls')"
  shows "length ls' = length ls \<and>
    (\<forall>k \<in> set ks. map_of rs k = Some (fst (snd (jobs ! k) (ls ! fst (jobs ! k)))) \<and>
       ls' ! fst (jobs ! k) = snd (snd (jobs ! k) (ls ! fst (jobs ! k)))) \<and>
    (\<forall>i. i \<notin> (\<lambda>k. fst (jobs ! k)) ` set ks \<longrightarrow> ls' ! i = ls ! i)"
  using assms(2-)
proof (induction ks arbitrary: ls rs)
  case (Cons k ks)
  obtain i m where j: "jobs ! k = (i, m)" by fastforce
  obtain r l where m: "m (ls ! i) = (r, l)" by fastforce
  obtain rs' where r: "run_jobs ks jobs (ls[i := l]) = (rs', ls')" "rs = (k, r) # rs'"
    using Cons.prems(4) by (auto simp: run_job_def j m split: prod.splits)
  have k: "k < length jobs" and i: "i < length ls"
    using Cons.prems(1,3) j nth_mem [of k jobs] by (force simp: image_iff)+
  have other: "fst (jobs ! k') \<noteq> i" if "k' \<in> set ks" for k'
  proof
    assume "fst (jobs ! k') = i"
    moreover have "k' < length jobs" using that Cons.prems(3) by auto
    ultimately have "k' = k" using nth_eq_iff_index_eq [OF assms(1), of k' k] k j by simp
    then show False using that Cons.prems(2) by simp
  qed
  have IH: "length ls' = length ls \<and>
    (\<forall>k \<in> set ks. map_of rs' k = Some (fst (snd (jobs ! k) (ls[i := l] ! fst (jobs ! k)))) \<and>
       ls' ! fst (jobs ! k) = snd (snd (jobs ! k) (ls[i := l] ! fst (jobs ! k)))) \<and>
    (\<forall>i'. i' \<notin> (\<lambda>k. fst (jobs ! k)) ` set ks \<longrightarrow> ls' ! i' = ls[i := l] ! i')"
    using Cons.IH [OF _ _ _ r(1)] Cons.prems by simp
  have "i \<notin> (\<lambda>k. fst (jobs ! k)) ` set ks" using other by blast
  then have "ls' ! i = l" using IH i by simp
  moreover have eq: "ls[i := l] ! fst (jobs ! k') = ls ! fst (jobs ! k')" if "k' \<in> set ks" for k'
    using other [OF that] by (metis nth_list_update_neq)
  ultimately show ?case
    using IH other i j m r(2) Cons.prems(2) by (auto simp: eq)
qed simp

lemma drain_Some: "drain rs xs (Some e) = Inl e"
  by (induction rs xs "Some e" rule: drain.induct) simp_all

lemma drain_rmap: "drain rs xs None = rbind (rmap (\<lambda>r. r) rs) (\<lambda>ys. Inr (xs @ ys))"
proof (induction rs arbitrary: xs)
  case (Cons r rs)
  then show ?case by (cases r; cases "rmap (\<lambda>r. r) rs") (simp_all add: drain_Some)
qed simp

lemma rbind_pure [simp]: "rbind r Inr = r"
  by (cases r) simp_all

lemma in_pool_spec:
  assumes W: "fair_pool W" and d: "distinct (map fst jobs)"
    and i: "\<forall>i \<in> fst ` set jobs. i < length (pv_lanes s)"
  shows "in_pool W jobs s = (rmap (\<lambda>r. r) (job_results jobs (pv_lanes s)),
    s\<lparr>pv_lanes := map (job_lane jobs (pv_lanes s)) [0 ..< length (pv_lanes s)]\<rparr>)"
proof -
  let ?ks = "pw_order W (pv_lanes s) (length jobs)"
  obtain rs ls where r: "run_jobs ?ks jobs (pv_lanes s) = (rs, ls)" by fastforce
  have ks: "distinct ?ks" "set ?ks = {..<length jobs}" using W by (simp_all add: fair_pool_def)
  note sp = run_jobs_spec [OF d i ks(1) eq_refl [OF ks(2)] r]
  have "map (\<lambda>k. the (map_of rs k)) [0 ..< length jobs] = job_results jobs (pv_lanes s)"
    using sp ks(2) by (intro nth_equalityI) (simp_all add: job_results_def case_prod_unfold)
  moreover have "ls = map (job_lane jobs (pv_lanes s)) [0 ..< length (pv_lanes s)]"
  proof (rule nth_equalityI)
    show "length ls = length (map (job_lane jobs (pv_lanes s)) [0 ..< length (pv_lanes s)])" using sp by simp
    fix j assume j: "j < length ls"
    show "ls ! j = map (job_lane jobs (pv_lanes s)) [0 ..< length (pv_lanes s)] ! j"
    proof (cases "map_of jobs j")
      case None
      then have "j \<notin> (\<lambda>k. fst (jobs ! k)) ` set ?ks"
        unfolding ks(2) by (auto simp: map_of_eq_None_iff image_iff)
      then show ?thesis using sp None j by (simp add: job_lane_def)
    next
      case (Some m)
      then have "(j, m) \<in> set jobs" by (rule map_of_SomeD)
      then obtain k where "k < length jobs" "jobs ! k = (j, m)" by (auto simp: in_set_conv_nth)
      then show ?thesis using sp ks(2) Some j by (force simp: job_lane_def)
    qed
  qed
  ultimately show ?thesis by (simp add: in_pool_def r drain_rmap)
qed

lemma job_lane_untouched [simp]: "i \<notin> fst ` set jobs \<Longrightarrow> job_lane jobs ls i = ls ! i"
  by (simp add: job_lane_def map_of_eq_None_iff [THEN iffD2])

lemma job_lane_run: "distinct (map fst jobs) \<Longrightarrow> (i, m) \<in> set jobs \<Longrightarrow> job_lane jobs ls i = snd (m (ls ! i))"
  by (simp add: job_lane_def)

text \<open>The exception of the first failing job, in the order of submission.\<close>

lemma rmap_id_Inl: "rmap (\<lambda>r. r) rs = Inl e \<longleftrightarrow> (\<exists>k < length rs. rs ! k = Inl e \<and> (\<forall>j < k. \<exists>x. rs ! j = Inr x))"
proof (induction rs)
  case (Cons r rs)
  show ?case
  proof (cases r)
    case (Inl e')
    then show ?thesis by (auto intro: exI [of _ 0] elim: allE [of _ 0])
  next
    case (Inr x)
    have "(\<exists>k < length (r # rs). (r # rs) ! k = Inl e \<and> (\<forall>j < k. \<exists>x. (r # rs) ! j = Inr x)) \<longleftrightarrow>
        (\<exists>k < length rs. rs ! k = Inl e \<and> (\<forall>j < k. \<exists>x. rs ! j = Inr x))"
      unfolding length_Cons Ex_less_Suc2 using Inr by (auto simp: All_less_Suc2)
    then show ?thesis using Cons Inr by (auto simp: rbind_Inl)
  qed
qed simp

lemma rmap_id_Inr: "rmap (\<lambda>r. r) rs = Inr xs \<longleftrightarrow> rs = map Inr xs"
  by (induction rs arbitrary: xs) (auto simp: rbind_Inr)

end
