(* ===== verification/Padded_Waves.thy ===== *)
theory Padded_Waves
  imports Padded_Facts Exact_Sim_Inv
begin

text \<open>
  The exact step of a padded environment, lane by lane.  A lane's cell is its simulator, its slot of
  the transition buffer and its events; whatever \<open>poll\<close> answers, a wave applies to the cell of every
  lane one exchange, a request and, when it was sent, one receive.
\<close>

section \<open>Cells\<close>

type_synonym 'c cell = "'c lane \<times> byte list \<times> exact_events option"

definition cell :: "nat \<Rightarrow> ('c, 'o) framed_env \<Rightarrow> nat \<Rightarrow> 'c cell" where
  "cell slot st i = (case st of (s, f) \<Rightarrow>
     (pv_lanes s ! i, pv_transition_buffers s ! slot ! i, ef_events f ! i))"

definition set_cell :: "nat \<Rightarrow> nat \<Rightarrow> 'c cell \<Rightarrow> ('c, 'o) framed_env \<Rightarrow> ('c, 'o) framed_env" where
  "set_cell slot i c st = (case (c, st) of ((l, b, v), (s, f)) \<Rightarrow>
     (s\<lparr>pv_lanes := (pv_lanes s)[i := l],
        pv_transition_buffers := (pv_transition_buffers s)[slot := (pv_transition_buffers s ! slot)[i := b]]\<rparr>,
      f\<lparr>ef_events := (ef_events f)[i := v]\<rparr>))"

definition shaped :: "nat \<Rightarrow> nat \<Rightarrow> ('c, 'o) framed_env \<Rightarrow> bool" where
  "shaped slot n st \<longleftrightarrow> length (pv_lanes (fst st)) = n \<and> slot < length (pv_transition_buffers (fst st)) \<and>
     length (pv_transition_buffers (fst st) ! slot) = n \<and> length (ef_events (snd st)) = n"

definition same_rest :: "nat \<Rightarrow> ('c, 'o) framed_env \<Rightarrow> ('c, 'o) framed_env \<Rightarrow> bool" where
  "same_rest slot st st' \<longleftrightarrow>
     (fst st')\<lparr>pv_lanes := [], pv_transition_buffers := []\<rparr> = (fst st)\<lparr>pv_lanes := [], pv_transition_buffers := []\<rparr> \<and>
     length (pv_transition_buffers (fst st')) = length (pv_transition_buffers (fst st)) \<and>
     (\<forall>k. k \<noteq> slot \<longrightarrow> pv_transition_buffers (fst st') ! k = pv_transition_buffers (fst st) ! k)"

definition fail_of :: "('c, 'o) framed_env \<Rightarrow> nat \<Rightarrow> exn option" where
  "fail_of st i = map_of (ef_failures (snd st)) i"

definition note_failure :: "nat \<Rightarrow> exn option \<Rightarrow> ('c, 'o) framed_env \<Rightarrow> ('c, 'o) framed_env" where
  "note_failure i r st = (case r of None \<Rightarrow> st | Some e \<Rightarrow> record_failure i e st)"

lemma fail_of_record [simp]:
  "fail_of (record_failure i e st) j = (if j = i \<and> fail_of st i = None then Some e else fail_of st j)"
proof (cases st)
  case (Pair s f)
  have "i \<in> fst ` set (ef_failures f) \<longleftrightarrow> map_of (ef_failures f) i \<noteq> None" by (simp add: map_of_eq_None_iff)
  then show ?thesis by (simp add: Pair fail_of_def record_failure_def map_add_def split: option.split)
qed

lemma cell_record [simp]:
  "cell slot (record_failure i e st) = cell slot st" "shaped slot n (record_failure i e st) = shaped slot n st"
  "fst (record_failure i e st) = fst st"
  by (cases st; simp add: record_failure_def cell_def shaped_def fun_eq_iff)+

lemma same_rest_record [simp]:
  "same_rest slot st (record_failure i e st') = same_rest slot st st'"
  "same_rest slot (record_failure i e st) st' = same_rest slot st st'"
  by (simp_all add: same_rest_def)

lemma same_rest_refl [simp]: "same_rest slot st st" by (simp add: same_rest_def)

lemma same_rest_trans: "same_rest slot a b \<Longrightarrow> same_rest slot b c \<Longrightarrow> same_rest slot a c"
  by (simp add: same_rest_def)

lemma fail_of_note: "fail_of (note_failure i r st) j = (if j = i \<and> fail_of st i = None then r else fail_of st j)"
  by (cases r) (auto simp: note_failure_def)

lemma note_simps [simp]:
  "cell slot (note_failure i r st) = cell slot st" "shaped slot n (note_failure i r st) = shaped slot n st"
  "same_rest slot st0 (note_failure i r st) = same_rest slot st0 st"
  by (cases r; simp add: note_failure_def)+

lemma set_cell_simps:
  assumes "shaped slot n st" "i < n"
  shows "cell slot (set_cell slot i c st) j = (if j = i then c else cell slot st j)"
    "shaped slot n (set_cell slot i c st)" "same_rest slot st (set_cell slot i c st)"
    "fail_of (set_cell slot i c st) = fail_of st"
  using assms
  by (cases st; cases c; auto simp: cell_def set_cell_def shaped_def same_rest_def fail_of_def fun_eq_iff)+

section \<open>Serving lanes\<close>

text \<open>\<open>lane_steps q F slot n D st t\<close>: the lanes in \<open>D\<close> have each been given the step \<open>F\<close> once and no other
  has been touched; no failure is lost, and with \<open>q\<close> only the lanes' own failures are recorded.\<close>

definition lane_steps :: "bool \<Rightarrow> (nat \<Rightarrow> 'c cell \<Rightarrow> exn option \<times> 'c cell) \<Rightarrow> nat \<Rightarrow> nat \<Rightarrow> nat set
    \<Rightarrow> ('c, 'o) framed_env \<Rightarrow> ('c, 'o) framed_env \<Rightarrow> bool" where
  "lane_steps q F slot n D st t \<longleftrightarrow> shaped slot n t \<and> same_rest slot st t \<and>
     (\<forall>i < n. cell slot t i = (if i \<in> D then snd (F i (cell slot st i)) else cell slot st i)) \<and>
     (\<forall>i e. fail_of st i = Some e \<longrightarrow> fail_of t i = Some e) \<and> (\<forall>i. i \<notin> D \<longrightarrow> fail_of t i = fail_of st i) \<and>
     (\<forall>i \<in> D. fail_of st i = None \<longrightarrow> (fst (F i (cell slot st i)) \<noteq> None \<longrightarrow> fail_of t i \<noteq> None) \<and>
        (q \<longrightarrow> fail_of t i = fst (F i (cell slot st i))))"

lemma stepsD:
  assumes "lane_steps q F slot n D st t"
  shows "shaped slot n t" "same_rest slot st t"
    "i < n \<Longrightarrow> cell slot t i = (if i \<in> D then snd (F i (cell slot st i)) else cell slot st i)"
    "fail_of st i = Some e \<Longrightarrow> fail_of t i = Some e" "i \<notin> D \<Longrightarrow> fail_of t i = fail_of st i"
    "i \<in> D \<Longrightarrow> fail_of st i = None \<Longrightarrow> fst (F i (cell slot st i)) \<noteq> None \<Longrightarrow> fail_of t i \<noteq> None"
    "i \<in> D \<Longrightarrow> fail_of st i = None \<Longrightarrow> q \<Longrightarrow> fail_of t i = fst (F i (cell slot st i))"
proof -
  note c = assms [unfolded lane_steps_def]
  show "shaped slot n t" "same_rest slot st t" using c by simp_all
  show "cell slot t i = (if i \<in> D then snd (F i (cell slot st i)) else cell slot st i)" if "i < n"
    using c that by simp
  show "fail_of t i = Some e" if "fail_of st i = Some e" using c that by simp
  show "fail_of t i = fail_of st i" if "i \<notin> D" using c that by simp
  show "fail_of t i \<noteq> None" if "i \<in> D" "fail_of st i = None" "fst (F i (cell slot st i)) \<noteq> None"
    using c that by blast
  show "fail_of t i = fst (F i (cell slot st i))" if "i \<in> D" "fail_of st i = None" q using c that by blast
qed

lemma served_refl: "shaped slot n st \<Longrightarrow> lane_steps q F slot n {} st st"
  by (simp add: lane_steps_def)

lemma served_one:
  assumes "shaped slot n st" "i < n" "F i (cell slot st i) = (r, c)"
  shows "lane_steps q F slot n {i} st (note_failure i r (set_cell slot i c st))"
  using assms set_cell_simps [OF assms(1,2)] by (auto simp: lane_steps_def fail_of_note)

lemma served_trans:
  assumes "lane_steps q F slot n D st t" "lane_steps q F slot n E t u" "D \<inter> E = {}" "D \<union> E \<subseteq> {..<n}"
  shows "lane_steps q F slot n (D \<union> E) st u"
proof -
  have d: "i \<notin> E" if "i \<in> D" for i using assms(3) that by blast
  have e: "i \<notin> D" if "i \<in> E" for i using assms(3) that by blast
  have D: "i < n" if "i \<in> D" for i using assms(4) that by blast
  have E: "i < n" if "i \<in> E" for i using assms(4) that by blast
  show ?thesis unfolding lane_steps_def
  proof (intro conjI allI impI ballI)
    show "shaped slot n u" using assms(2) by (simp add: lane_steps_def)
    show "same_rest slot st u" using assms(1,2) same_rest_trans [of slot st t u] by (simp add: lane_steps_def)
    fix i show "cell slot u i = (if i \<in> D \<union> E then snd (F i (cell slot st i)) else cell slot st i)" if "i < n"
      using assms(1,2) that d e by (auto simp: lane_steps_def)
    show "fail_of u i = Some x" if "fail_of st i = Some x" for x using assms(1,2) that by (simp add: lane_steps_def)
    show "fail_of u i = fail_of st i" if "i \<notin> D \<union> E" using assms(1,2) that by (simp add: lane_steps_def)
    assume i: "i \<in> D \<union> E" and f: "fail_of st i = None"
    show "fail_of u i \<noteq> None" if "fst (F i (cell slot st i)) \<noteq> None"
    proof (cases "i \<in> D")
      case True
      then have "fail_of t i \<noteq> None" using assms(1) f that by (auto simp: lane_steps_def)
      then show ?thesis using assms(2) by (auto simp: lane_steps_def)
    next
      case False
      then have "fail_of t i = None" "cell slot t i = cell slot st i" using assms(1) f i E by (auto simp: lane_steps_def)
      then show ?thesis using assms(2) i False that by (auto simp: lane_steps_def)
    qed
    show "fail_of u i = fst (F i (cell slot st i))" if q
    proof (cases "i \<in> D")
      case True
      then show ?thesis using assms(1,2) f d [OF True] that by (auto simp: lane_steps_def)
    next
      case False
      then have "fail_of t i = None" "cell slot t i = cell slot st i" using assms(1) f i E by (auto simp: lane_steps_def)
      then show ?thesis using assms(2) i False that by (auto simp: lane_steps_def)
    qed
  qed
qed

text \<open>A failure recorded for a lane that is then served anyway.\<close>

lemma served_noise:
  assumes "i \<in> D" "lane_steps False F slot n D (record_failure i e st) t"
  shows "lane_steps False F slot n D st t"
proof -
  have keep: "fail_of (record_failure i e st) j = Some x" if "fail_of st j = Some x" for j x using that by auto
  have other: "fail_of (record_failure i e st) j = fail_of st j" if "j \<notin> D" for j using that assms(1) by auto
  have noted: "fail_of t j \<noteq> None"
    if "j \<in> D" "fail_of st j = None" "fst (F j (cell slot st j)) \<noteq> None" for j
  proof (cases "j = i")
    case True
    then have "fail_of (record_failure i e st) j = Some e" using that by simp
    then have "fail_of t j = Some e" using assms(2) unfolding lane_steps_def by blast
    then show ?thesis by simp
  next
    case False
    then have "fail_of (record_failure i e st) j = None" using that by simp
    then show ?thesis using assms(2) that unfolding lane_steps_def cell_record(1) by blast
  qed
  note facts = assms(2) [unfolded lane_steps_def cell_record(1) same_rest_record(2)]
  show ?thesis unfolding lane_steps_def
  proof (intro conjI allI impI ballI)
    show "fail_of t j = Some x" if "fail_of st j = Some x" for j x using keep [OF that] facts by blast
    show "fail_of t j = fail_of st j" if "j \<notin> D" for j using other [OF that] facts that by metis
    show "shaped slot n t" "same_rest slot st t" using facts by blast+
    show "cell slot t j = (if j \<in> D then snd (F j (cell slot st j)) else cell slot st j)" if "j < n" for j
      using conjunct1 [OF conjunct2 [OF conjunct2 [OF facts]]] that by simp
    show "fail_of t j \<noteq> None" if "j \<in> D" "fail_of st j = None" "fst (F j (cell slot st j)) \<noteq> None" for j
      by (rule noted [OF that])
  qed simp
qed

lemma served_quiet: "lane_steps True F slot n D st t \<Longrightarrow> lane_steps q F slot n D st t"
  by (auto simp: lane_steps_def)

section \<open>The steps of one lane\<close>

definition on_exact_lane :: "(exact_sim, 'a) py \<Rightarrow> ('c lane, 'a) py" where
  "on_exact_lane m = on_lane m (praise (Exn AssertionError ''exact lane''))"

definition own_send :: "('c, 'o) padded_world \<Rightarrow> encoded_action list \<Rightarrow> nat \<Rightarrow> 'c cell \<Rightarrow> exn option \<times> 'c cell" where
  "own_send W encoded i = (\<lambda>(l, b, v). case on_exact_lane (send_step_padded (pw_sim W i) (encoded ! i)) l of
     (Inl e, l') \<Rightarrow> (Some e, (l', b, v)) | (Inr _, l') \<Rightarrow> (None, (l', b, v)))"

definition own_receive :: "('c, 'o) padded_world \<Rightarrow> nat \<Rightarrow> 'c cell \<Rightarrow> exn option \<times> 'c cell" where
  "own_receive W i = (\<lambda>(l, b, v). case on_exact_lane (receive_into (pw_sim W i) b) l of
     (Inl e, l') \<Rightarrow> (Some e, (l', b, v))
   | (Inr (mem, Inl e), l') \<Rightarrow> (Some e, (l', mem, v))
   | (Inr (mem, Inr view), l') \<Rightarrow> (None, (l', mem, Some view)))"

text \<open>A lane's exchange: its request, then its response unless the request was not sent.\<close>

definition exchange :: "('c, 'o) padded_world \<Rightarrow> encoded_action list \<Rightarrow> nat \<Rightarrow> 'c cell \<Rightarrow> exn option \<times> 'c cell" where
  "exchange W encoded i c = (case own_send W encoded i c of
     (Some e, c') \<Rightarrow> (Some e, c') | (None, c') \<Rightarrow> own_receive W i c')"

lemma on_exact_cell: "on_exact i m s = (case on_exact_lane m (pv_lanes s ! i) of (r, l) \<Rightarrow>
    (r, s\<lparr>pv_lanes := (pv_lanes s)[i := l]\<rparr>))"
  by (simp add: on_exact_def at_lane_def on_exact_lane_def)

lemma set_cell_same: "cell slot st i = (l', b, v) \<Longrightarrow>
    set_cell slot i (l, b, v) st = ((fst st)\<lparr>pv_lanes := (pv_lanes (fst st))[i := l]\<rparr>, snd st)"
  by (cases st) (auto simp: set_cell_def cell_def)

lemma send_served:
  assumes "shaped slot n st" "distinct lanes" "set lanes \<subseteq> {..<n}" "send_wave W encoded lanes st = (posted, t)"
  shows "lane_steps q (own_send W encoded) slot n (set lanes) st t \<and>
    posted = filter (\<lambda>i. fst (own_send W encoded i (cell slot st i)) = None) lanes"
  using assms
proof (induction lanes arbitrary: st posted)
  case Nil
  then show ?case by (simp add: served_refl)
next
  case (Cons i lanes)
  obtain s f where st: "st = (s, f)" by fastforce
  obtain l b v where c: "cell slot st i = (l, b, v)" by (metis prod.exhaust)
  obtain r l' where m: "on_exact_lane (send_step_padded (pw_sim W i) (encoded ! i)) l = (r, l')" by fastforce
  have l: "pv_lanes s ! i = l" using c st by (simp add: cell_def)
  let ?o = "case r of Inl e \<Rightarrow> Some e | Inr _ \<Rightarrow> None"
  let ?st = "note_failure i ?o (set_cell slot i (l', b, v) st)"
  have o': "own_send W encoded i (cell slot st i) = (?o, (l', b, v))"
    by (simp add: own_send_def c m split: sum.split)
  have one: "lane_steps q (own_send W encoded) slot n {i} st ?st"
    by (rule served_one [where F = "own_send W encoded", OF Cons.prems(1) _ o']) (use Cons.prems(3) in simp)
  obtain posted' where w: "send_wave W encoded lanes ?st = (posted', t)" "posted = (if ?o = None then i # posted' else posted')"
    using Cons.prems(4)
    by (auto simp: st on_exact_cell l m set_cell_same [OF c, unfolded st] note_failure_def split: sum.splits prod.splits)
  have "shaped slot n ?st" using one by (simp add: lane_steps_def)
  from Cons.IH [OF this _ _ w(1)] Cons.prems(2,3)
  have two: "lane_steps q (own_send W encoded) slot n (set lanes) ?st t"
    and posted': "posted' = filter (\<lambda>i. fst (own_send W encoded i (cell slot ?st i)) = None) lanes" by simp_all
  have "cell slot ?st j = cell slot st j" if "j \<in> set lanes" for j
    using one Cons.prems(2,3) that by (auto simp: lane_steps_def)
  then have "posted' = filter (\<lambda>i. fst (own_send W encoded i (cell slot st i)) = None) lanes"
    unfolding posted' by (intro filter_cong) simp_all
  moreover have "lane_steps q (own_send W encoded) slot n ({i} \<union> set lanes) st t"
    by (rule served_trans [OF one two]) (use Cons.prems(2,3) in auto)
  ultimately show ?case using w(2) o' by (simp split: sum.splits)
qed

lemma receive_served:
  assumes "shaped slot n st" "i < n"
  shows "lane_steps q (own_receive W) slot n {i} st (receive_lane W slot i st)"
proof -
  obtain s f where st: "st = (s, f)" by fastforce
  obtain l b v where c: "cell slot st i = (l, b, v)" by (metis prod.exhaust)
  have l: "pv_lanes s ! i = l" "pv_transition_buffers s ! slot ! i = b" using c st by (simp_all add: cell_def)
  obtain r d where o': "own_receive W i (cell slot st i) = (r, d)" by (cases "own_receive W i (cell slot st i)")
  have "receive_lane W slot i st = note_failure i r (set_cell slot i d st)"
  proof (cases "on_exact_lane (receive_into (pw_sim W i) b) l")
    case (Pair x l')
    show ?thesis
    proof (cases x)
      case (Inl e)
      then have "r = Some e" "d = (l', b, v)" using o' Pair by (simp_all add: own_receive_def c)
      then show ?thesis using Pair Inl set_cell_same [OF c]
        by (simp add: receive_lane_def st on_exact_cell l note_failure_def)
    next
      case (Inr y)
      obtain mem z where y: "y = (mem, z)" by fastforce
      have v': "ef_events f ! i = v" using c st by (simp add: cell_def)
      show ?thesis
      proof (cases z)
        case (Inl e)
        then have "r = Some e" "d = (l', mem, v)" using o' Pair Inr y by (simp_all add: own_receive_def c)
        moreover have "(ef_events f)[i := v] = ef_events f" using v' by (metis list_update_id)
        ultimately show ?thesis using Pair Inr y Inl l
          by (simp add: receive_lane_def st on_exact_cell note_failure_def set_cell_def Let_def)
      next
        case (Inr view)
        then have "r = None" "d = (l', mem, Some view)" using o' Pair \<open>x = Inr y\<close> y by (simp_all add: own_receive_def c)
        then show ?thesis using Pair \<open>x = Inr y\<close> y Inr l
          by (simp add: receive_lane_def st on_exact_cell note_failure_def set_cell_def Let_def)
      qed
    qed
  qed
  then show ?thesis using served_one [where F = "own_receive W", OF assms o'] by metis
qed

lemma receive_all_served:
  assumes "shaped slot n st" "distinct lanes" "set lanes \<subseteq> {..<n}"
  shows "lane_steps q (own_receive W) slot n (set lanes) st (receive_all W slot lanes st)"
  using assms
proof (induction lanes arbitrary: st)
  case Nil
  then show ?case by (simp add: receive_all_def served_refl)
next
  case (Cons i lanes)
  have one: "lane_steps q (own_receive W) slot n {i} st (receive_lane W slot i st)"
    by (rule receive_served [OF Cons.prems(1)]) (use Cons.prems(3) in simp)
  then have "shaped slot n (receive_lane W slot i st)" by (simp add: lane_steps_def)
  from Cons.IH [OF this] Cons.prems
  have two: "lane_steps q (own_receive W) slot n (set lanes) (receive_lane W slot i st) (receive_all W slot (i # lanes) st)"
    by (simp add: receive_all_def)
  have "lane_steps q (own_receive W) slot n ({i} \<union> set lanes) st (receive_all W slot (i # lanes) st)"
    by (rule served_trans [OF one two]) (use Cons.prems(2,3) in auto)
  then show ?case by simp
qed

section \<open>The poll loop\<close>

text \<open>\<open>polls_end\<close>: an answer of \<open>poll\<close> that is not empty names a registered descriptor.
  \<open>polling_works\<close>: no call on the poll set fails, no answer is empty, and open pipes have
  different descriptors.\<close>

definition polls_end :: "('c, 'o) padded_world \<Rightarrow> bool" where
  "polls_end W \<longleftrightarrow> (\<forall>ls fds ready. pw_poll W ls fds = Inr ready \<and> ready \<noteq> [] \<longrightarrow> set ready \<inter> set fds \<noteq> {})"

definition polling_works :: "('c, 'o) padded_world \<Rightarrow> bool" where
  "polling_works W \<longleftrightarrow> (\<forall>ls. pw_poller W ls = None) \<and> (\<forall>ls d. pw_register W ls d = None) \<and>
     (\<forall>ls d. pw_unregister W ls d = None) \<and>
     (\<forall>ls fds. fds \<noteq> [] \<longrightarrow> (\<exists>ready. pw_poll W ls fds = Inr ready \<and> ready \<noteq> [])) \<and>
     (\<forall>i x. \<exists>d. pw_fileno W i x = Inr d) \<and> (\<forall>i j x y d. pw_fileno W i x = Inr d \<and> pw_fileno W j y = Inr d \<longrightarrow> i = j)"

lemma polling_answers: "polling_works W \<Longrightarrow> fds \<noteq> [] \<Longrightarrow> \<exists>ready. pw_poll W ls fds = Inr ready \<and> ready \<noteq> []"
  by (simp add: polling_works_def)

definition waiting :: "nat \<Rightarrow> (int \<times> nat) list \<Rightarrow> bool" where
  "waiting n pending \<longleftrightarrow> distinct (map fst pending) \<and> distinct (map snd pending) \<and> snd ` set pending \<subseteq> {..<n}"

lemma waiting_filter: "waiting n pending \<Longrightarrow> waiting n (filter P pending)"
  by (auto simp: waiting_def distinct_map intro: inj_on_subset)

lemma waiting_split:
  assumes "waiting n pending" "map_of pending d = Some i"
  defines "rest \<equiv> filter (\<lambda>(d', _). d' \<noteq> d) pending"
  shows "snd ` set pending = {i} \<union> snd ` set rest" "i \<notin> snd ` set rest" "i < n"
proof -
  have m: "(d, i) \<in> set pending" using assms(2) by (rule map_of_SomeD)
  have eq: "y = (d, i)" if "y \<in> set pending" "fst y = d \<or> snd y = i" for y
    using assms(1) m that unfolding waiting_def by (metis distinct_map fst_conv inj_on_def snd_conv)
  show "snd ` set pending = {i} \<union> snd ` set rest"
  proof (intro equalityI subsetI)
    fix x assume "x \<in> snd ` set pending"
    then obtain y where y: "y \<in> set pending" "x = snd y" by blast
    show "x \<in> {i} \<union> snd ` set rest"
    proof (cases "fst y = d")
      case True
      then show ?thesis using eq [OF y(1)] y(2) by simp
    next
      case False
      then have "y \<in> set rest" using y(1) by (auto simp: rest_def)
      then show ?thesis using y(2) by blast
    qed
  qed (use m in \<open>force simp: rest_def\<close>)
  show "i \<notin> snd ` set rest"
  proof
    assume "i \<in> snd ` set rest"
    then obtain y where "y \<in> set pending" "fst y \<noteq> d" "snd y = i" by (auto simp: rest_def)
    with eq [of y] show False by simp
  qed
  show "i < n" using assms(1) m by (force simp: waiting_def)
qed

lemma serve_ready_steps:
  assumes "shaped slot n st" "waiting n pending" "serve_ready W slot ds pending st = (aborted, rest, t)"
    and "q \<Longrightarrow> polling_works W"
  shows "(aborted \<longrightarrow> lane_steps q (own_receive W) slot n (snd ` set pending) st t) \<and>
    (\<not> aborted \<longrightarrow> rest = filter (\<lambda>(d, _). d \<notin> set ds) pending \<and>
       lane_steps q (own_receive W) slot n (snd ` set pending - snd ` set rest) st t)"
  using assms(1-3)
proof (induction ds arbitrary: pending st)
  case Nil
  then have "rest = pending" "t = st" "\<not> aborted" by simp_all
  then show ?case using served_refl [OF Nil(1)] by simp
next
  case (Cons d ds)
  show ?case
  proof (cases "map_of pending d")
    case None
    then have nd: "d \<notin> fst ` set pending" by (simp add: map_of_eq_None_iff)
    have "filter (\<lambda>(d', _). d' \<notin> set (d # ds)) pending = filter (\<lambda>(d', _). d' \<notin> set ds) pending"
      by (rule filter_cong) (use nd in force)+
    moreover have "serve_ready W slot ds pending st = (aborted, rest, t)" using Cons.prems(3) None by simp
    ultimately show ?thesis using Cons.IH [OF Cons.prems(1,2)] by metis
  next
    case (Some i)
    define left where "left = filter (\<lambda>(d', _). d' \<noteq> d) pending"
    note sp = waiting_split [OF Cons.prems(2) Some, folded left_def]
    have left: "waiting n left" unfolding left_def by (rule waiting_filter [OF Cons.prems(2)])
    then have w: "distinct (map snd left)" "set (map snd left) \<subseteq> {..<n}" by (auto simp: waiting_def)
    show ?thesis
    proof (cases "pw_unregister W (pv_lanes (fst st)) d")
      case None
      have r: "serve_ready W slot ds left (receive_lane W slot i st) = (aborted, rest, t)"
        using Cons.prems(3) Some None by (simp add: left_def)
      have one: "lane_steps q (own_receive W) slot n {i} st (receive_lane W slot i st)"
        by (rule receive_served [OF Cons.prems(1) sp(3)])
      then have "shaped slot n (receive_lane W slot i st)" by (simp add: lane_steps_def)
      note IH = Cons.IH [OF this left r]
      show ?thesis
      proof (intro conjI impI)
        assume aborted
        with IH have "lane_steps q (own_receive W) slot n (snd ` set left) (receive_lane W slot i st) t" by simp
        from served_trans [OF one this] show "lane_steps q (own_receive W) slot n (snd ` set pending) st t"
          using sp w by auto
      next
        assume na: "\<not> aborted"
        with IH have rest: "rest = filter (\<lambda>(d, _). d \<notin> set ds) left"
          and two: "lane_steps q (own_receive W) slot n (snd ` set left - snd ` set rest) (receive_lane W slot i st) t"
          by blast+
        show "rest = filter (\<lambda>(d', _). d' \<notin> set (d # ds)) pending"
          unfolding rest left_def filter_filter by (rule filter_cong) auto
        have sub: "snd ` set rest \<subseteq> snd ` set left" unfolding rest by auto
        then have "snd ` set pending - snd ` set rest = {i} \<union> (snd ` set left - snd ` set rest)"
          using sp by auto
        moreover have "lane_steps q (own_receive W) slot n ({i} \<union> (snd ` set left - snd ` set rest)) st t"
          by (rule served_trans [OF one two]) (use sp w in auto)
        ultimately show "lane_steps q (own_receive W) slot n (snd ` set pending - snd ` set rest) st t" by simp
      qed
    next
      case (Some e)
      then have nq: "\<not> q" using assms(4) by (auto simp: polling_works_def)
      have t: "t = receive_all W slot (map snd left) (receive_lane W slot i (record_failure i e st))" and a: aborted
        using Cons.prems(3) Some \<open>map_of pending d = Some i\<close> by (simp_all add: left_def)
      have sh: "shaped slot n (record_failure i e st)" using Cons.prems(1) by simp
      have one: "lane_steps False (own_receive W) slot n {i} (record_failure i e st) (receive_lane W slot i (record_failure i e st))"
        by (rule receive_served [OF sh sp(3)])
      then have "shaped slot n (receive_lane W slot i (record_failure i e st))" by (simp add: lane_steps_def)
      from receive_all_served [OF this w]
      have "lane_steps False (own_receive W) slot n (set (map snd left)) (receive_lane W slot i (record_failure i e st)) t"
        unfolding t .
      then have "lane_steps False (own_receive W) slot n ({i} \<union> set (map snd left)) (record_failure i e st) t"
        by (rule served_trans [OF one]) (use sp w in auto)
      then have "lane_steps False (own_receive W) slot n ({i} \<union> snd ` set left) (record_failure i e st) t" by simp
      then have "lane_steps False (own_receive W) slot n (snd ` set pending) st t"
        unfolding sp(1) by (rule served_noise [rotated]) simp
      then show ?thesis using a nq by simp
    qed
  qed
qed

lemma poll_loop_steps:
  assumes "polls_end W" "shaped slot n st" "waiting n pending" "q \<Longrightarrow> polling_works W"
  shows "\<exists>t. poll_loop W slot pending st = Some t \<and> lane_steps q (own_receive W) slot n (snd ` set pending) st t"
  using assms(2,3)
proof (induction "length pending" arbitrary: pending st rule: less_induct)
  case less
  show ?case
  proof (cases "pending = []")
    case True
    then show ?thesis using served_refl [OF less.prems(1)] by (subst poll_loop.simps) simp
  next
    case False
    have failed: "\<exists>t. poll_loop W slot pending st = Some t \<and> lane_steps q (own_receive W) slot n (snd ` set pending) st t"
      if p: "poll_loop W slot pending st = Some (poll_failed W slot pending e st)" and nq: "\<not> q" for e
    proof -
      have "Min (snd ` set pending) \<in> snd ` set pending" using False by (intro Min_in) auto
      moreover have "lane_steps False (own_receive W) slot n (set (map snd pending))
          (record_failure (Min (snd ` set pending)) e st) (poll_failed W slot pending e st)"
        unfolding poll_failed_def by (rule receive_all_served) (use less.prems in \<open>auto simp: waiting_def\<close>)
      ultimately have "lane_steps False (own_receive W) slot n (snd ` set pending) st (poll_failed W slot pending e st)"
        unfolding set_map by (rule served_noise)
      then show ?thesis using p nq by simp
    qed
    show ?thesis
    proof (cases "pw_poll W (pv_lanes (fst st)) (map fst pending)")
      case (Inl e)
      have "\<not> q" using polling_answers [OF assms(4), of "map fst pending" "pv_lanes (fst st)"] Inl False by auto
      moreover have "poll_loop W slot pending st = Some (poll_failed W slot pending e st)"
        by (subst poll_loop.simps) (simp add: False Inl)
      ultimately show ?thesis by (intro failed)
    next
      case (Inr ready)
      show ?thesis
      proof (cases "ready = []")
        case True
        then have "\<not> q" using polling_answers [OF assms(4), of "map fst pending" "pv_lanes (fst st)"] Inr False by auto
        moreover have "poll_loop W slot pending st =
            Some (poll_failed W slot pending (native_failed ''exact padded response poll returned no ready lanes'') st)"
          by (subst poll_loop.simps) (simp add: False Inr True)
        ultimately show ?thesis by (intro failed)
      next
        case ne: False
        obtain aborted rest t where r: "serve_ready W slot ready pending st = (aborted, rest, t)" by (metis prod.exhaust)
        have sr: "(aborted \<longrightarrow> lane_steps q (own_receive W) slot n (snd ` set pending) st t) \<and>
            (\<not> aborted \<longrightarrow> rest = filter (\<lambda>(d, _). d \<notin> set ready) pending \<and>
             lane_steps q (own_receive W) slot n (snd ` set pending - snd ` set rest) st t)"
          by (rule serve_ready_steps [OF less.prems r]) (rule assms(4))
        have p: "poll_loop W slot pending st = (if aborted then Some t else poll_loop W slot rest t)"
          using False Inr ne r by (subst poll_loop.simps) simp
        show ?thesis
        proof (cases aborted)
          case True
          then show ?thesis using p sr by simp
        next
          case na: False
          then have rest: "rest = filter (\<lambda>(d, _). d \<notin> set ready) pending"
            and one: "lane_steps q (own_receive W) slot n (snd ` set pending - snd ` set rest) st t" using sr by blast+
          have "set ready \<inter> set (map fst pending) \<noteq> {}" using assms(1) Inr ne unfolding polls_end_def by blast
          then obtain y where "y \<in> set pending" "fst y \<in> set ready" by auto
          then have len: "length rest < length pending" unfolding rest by (intro length_filter_less [of y]) auto
          have w: "waiting n rest" unfolding rest by (rule waiting_filter [OF less.prems(2)])
          have "shaped slot n t" using one by (simp add: lane_steps_def)
          from less.hyps [OF len this w] obtain u where u: "poll_loop W slot rest t = Some u"
            "lane_steps q (own_receive W) slot n (snd ` set rest) t u" by blast
          have sub: "snd ` set rest \<subseteq> snd ` set pending" unfolding rest by auto
          have pn: "snd ` set pending \<subseteq> {..<n}" using less.prems(2) by (simp add: waiting_def)
          have "(snd ` set pending - snd ` set rest) \<union> snd ` set rest = snd ` set pending" using sub by blast
          moreover have "lane_steps q (own_receive W) slot n ((snd ` set pending - snd ` set rest) \<union> snd ` set rest) st u"
            by (rule served_trans [OF one u(2)]) (use sub pn in blast)+
          ultimately have "lane_steps q (own_receive W) slot n (snd ` set pending) st u" by metis
          then show ?thesis using p na u(1) by simp
        qed
      qed
    qed
  qed
qed

end
