(* ===== verification/Padded_Exchange.thy ===== *)
theory Padded_Exchange
  imports Padded_Waves
begin

text \<open>
  Waves and whole steps: every lane of an exact environment gets one exchange, in whatever waves and
  order, and the failure that is raised is that of the lowest lane.
\<close>

section \<open>Registration\<close>

lemma pending_fd_reads: "on_exact_lane (pending_response_fd W i) l = (r, l') \<Longrightarrow> l' = l"
  by (auto simp: on_exact_lane_def on_lane_def pending_response_fd_def pbind_def pget_def pguard_def praise_def
      pret_def require_open_def split: lane.splits option.splits if_splits sum.splits prod.splits)

lemma pending_fd_fileno: "on_exact_lane (pending_response_fd W i) l = (Inr d, l') \<Longrightarrow> \<exists>x. pw_fileno W i x = Inr d"
  by (auto simp: on_exact_lane_def on_lane_def pending_response_fd_def pbind_def pget_def pguard_def praise_def
      pret_def require_open_def split: lane.splits option.splits if_splits sum.splits prod.splits)

definition has_fd :: "('c, 'o) padded_world \<Rightarrow> ('c, 'o) framed_env \<Rightarrow> nat \<Rightarrow> bool" where
  "has_fd W st i \<longleftrightarrow> (\<exists>d l. on_exact_lane (pending_response_fd W i) (pv_lanes (fst st) ! i) = (Inr d, l))"

lemma register_wave_steps:
  assumes "register_wave W lanes pending st = (failed, pending', t)"
    and "distinct (map snd pending @ lanes)" "distinct (map fst pending)"
    and "\<forall>(d, j) \<in> set pending. \<exists>x. pw_fileno W j x = Inr d"
    and "q \<Longrightarrow> polling_works W \<and> (\<forall>i \<in> set lanes. has_fd W st i)"
  shows "(failed \<longrightarrow> \<not> q \<and> (\<exists>i e. i \<in> set lanes \<and> t = record_failure i e st)) \<and>
    (\<not> failed \<longrightarrow> t = st \<and> map snd pending' = map snd pending @ lanes \<and> distinct (map fst pending'))"
  using assms
proof (induction lanes arbitrary: pending)
  case (Cons i lanes)
  obtain s f where st: "st = (s, f)" by fastforce
  obtain r l where m: "on_exact_lane (pending_response_fd W i) (pv_lanes s ! i) = (r, l)" by fastforce
  have s: "s\<lparr>pv_lanes := (pv_lanes s)[i := l]\<rparr> = s"
    using pending_fd_reads [OF m] by simp
  show ?case
  proof (cases r)
    case (Inl e)
    then have "\<not> q" using Cons.prems(5) m by (auto simp: has_fd_def st)
    then show ?thesis using Cons.prems(1) Inl m s by (auto simp: st on_exact_cell)
  next
    case (Inr d)
    from pending_fd_fileno m Inr obtain x where x: "pw_fileno W i x = Inr d" by blast
    show ?thesis
    proof (cases "d \<in> fst ` set pending \<or> pw_register W (pv_lanes s) d \<noteq> None")
      case True
      have "\<not> q"
      proof
        assume q
        then have w: "polling_works W" using Cons.prems(5) by blast
        then have "d \<in> fst ` set pending" using True by (simp add: polling_works_def)
        then obtain j where j: "(d, j) \<in> set pending" by auto
        then obtain y where "pw_fileno W j y = Inr d" using Cons.prems(4) by blast
        with x w have "i = j" unfolding polling_works_def by blast
        then show False using j Cons.prems(2) by (force simp: image_iff)
      qed
      then show ?thesis using Cons.prems(1) True Inr m s by (auto simp: st on_exact_cell split: if_splits option.splits)
    next
      case False
      then have r: "register_wave W lanes (pending @ [(d, i)]) st = (failed, pending', t)"
        using Cons.prems(1) Inr m s by (simp add: st on_exact_cell)
      have f: "\<forall>(d, j) \<in> set (pending @ [(d, i)]). \<exists>x. pw_fileno W j x = Inr d" using Cons.prems(4) x by auto
      have dd: "distinct (map snd (pending @ [(d, i)]) @ lanes)" "distinct (map fst (pending @ [(d, i)]))"
        using Cons.prems(2,3) False by auto
      from Cons.IH [OF r dd f] Cons.prems(5) show ?thesis by auto
    qed
  qed
qed auto

section \<open>Waves\<close>

text \<open>After its request was sent, a lane waits for its response on an open pipe.\<close>

lemma begun_open: "begin_request V opcode payload c = (Inr u, c') \<Longrightarrow> \<not> xc_closed c'"
  using wp_resultD [OF begin_request_wp] by blast

lemma send_step_wp:
  "wp (send_step_request V padded kind x y wait)
     (\<lambda>_ t. xs_pending t \<noteq> None \<and> (\<exists>i. xs_client t = Some i \<and> \<not> xc_closed (xs_clients t ! i)))
     (\<lambda>_ t. xs_pending t = xs_pending s) s"
proof -
  have "wp (on_client V i (\<lambda>W. begin_request W b action))
      (\<lambda>_ t. xs_client t = Some i \<and> \<not> xc_closed (xs_clients t ! i)) (\<lambda>_ t. xs_pending t = None) s"
    if "xs_pending s = None" "xs_client s = Some i" "\<not> xc_closed (xs_clients s ! i)" for i b action
    unfolding wp_on_client
  proof (rule wp_mono [OF begin_request_wp], goal_cases)
    case (1 u c)
    with that show ?case by (cases "i < length (xs_clients s)") (simp_all add: list_update_beyond)
  qed (use that in simp)
  note begun = this
  show ?thesis
    by (auto simp: send_step_request_def wp_pbind wp_pget wp_pguard wp_require_open wp_plift wp_pmod
        split: option.split sum.split intro!: wp_mono [OF begun])
qed

lemma sent_waits:
  assumes "send_step_padded V a x = (Inr u, y)"
  shows "xs_pending y \<noteq> None \<and> (\<exists>i. require_open y = (Inr i, y))"
proof -
  obtain k cx cy w where a: "a = (k, cx, cy, w)" by (metis prod.exhaust)
  from assms have "send_step_request V True (NumInt k) (NumFloat cx) (NumFloat cy) (NumInt w) x = (Inr u, y)"
    by (simp add: send_step_padded_def a)
  from wp_resultD [OF send_step_wp this] show ?thesis
    by (auto simp: require_open_def pbind_def pget_def pret_def)
qed

lemma sent_has_fd:
  assumes "polling_works W" "own_send W encoded i (l, b, v) = (None, (l', b', v'))"
  shows "\<exists>d k. on_exact_lane (pending_response_fd W i) l' = (Inr d, k)"
proof -
  obtain x y u where l': "l' = ExactLane y" and s: "send_step_padded (pw_sim W i) (encoded ! i) x = (Inr u, y)"
    using assms(2)
    by (auto simp: own_send_def on_exact_lane_def on_lane_def praise_def split: lane.splits prod.splits sum.splits)
  obtain d where "pw_fileno W i y = Inr d" using assms(1) unfolding polling_works_def by blast
  with sent_waits [OF s] show ?thesis
    by (auto simp: l' on_exact_lane_def on_lane_def pending_response_fd_def pbind_def pget_def pguard_def pret_def)
qed

lemma exchange_steps:
  assumes send: "lane_steps q (own_send W encoded) slot n D st st1"
    and recv: "lane_steps q (own_receive W) slot n {i \<in> D. fst (own_send W encoded i (cell slot st i)) = None} st1 t"
    and n: "D \<subseteq> {..<n}"
  shows "lane_steps q (exchange W encoded) slot n D st t"
proof -
  let ?S = "\<lambda>i. own_send W encoded i (cell slot st i)"
  have ex: "exchange W encoded i (cell slot st i) =
      (case fst (?S i) of Some e \<Rightarrow> (Some e, snd (?S i)) | None \<Rightarrow> own_receive W i (snd (?S i)))" for i
    by (simp add: exchange_def split: prod.split option.split)
  note s = stepsD [OF send] and r = stepsD [OF recv]
  show ?thesis unfolding lane_steps_def
  proof (intro conjI allI impI ballI)
    show "shaped slot n t" by (rule r(1))
    show "same_rest slot st t" by (rule same_rest_trans [OF s(2) r(2)])
    fix i
    show "cell slot t i = (if i \<in> D then snd (exchange W encoded i (cell slot st i)) else cell slot st i)" if "i < n"
      using s(3) [OF that] r(3) [OF that] by (auto simp: ex split: option.split)
    show "fail_of t i = Some x" if "fail_of st i = Some x" for x by (rule r(4) [OF s(4) [OF that]])
    show "fail_of t i = fail_of st i" if "i \<notin> D" using s(5) [OF that] r(5) [of i] that by simp
    assume i: "i \<in> D" and f: "fail_of st i = None"
    then have i': "i < n" using n by blast
    then have c: "cell slot st1 i = snd (?S i)" using s(3) [OF i'] i by simp
    show "fail_of t i \<noteq> None" if x: "fst (exchange W encoded i (cell slot st i)) \<noteq> None"
    proof (cases "fail_of st1 i")
      case (Some e)
      then show ?thesis using r(4) by simp
    next
      case None
      then have ok: "fst (?S i) = None" using s(6) [OF i f] by blast
      with x have "fst (own_receive W i (cell slot st1 i)) \<noteq> None" by (simp add: ex c)
      then show ?thesis using r(6) [OF _ None] i ok by simp
    qed
    show "fail_of t i = fst (exchange W encoded i (cell slot st i))" if q
    proof (cases "fst (?S i)")
      case (Some e)
      then have "fail_of st1 i = Some e" using s(7) [OF i f that] by simp
      from r(4) [OF this] show ?thesis using Some by (simp add: ex)
    next
      case None
      then have "fail_of st1 i = None" using s(7) [OF i f that] by simp
      from r(7) [OF _ this that] show ?thesis using None i by (simp add: ex c)
    qed
  qed
qed

lemma exact_wave_steps:
  assumes W: "polls_end W" and sh: "shaped slot n st" and wave: "distinct wave" "set wave \<subseteq> {..<n}"
    and q: "q \<Longrightarrow> polling_works W"
  shows "\<exists>r t. exact_wave W slot encoded wave st = Some (r, t) \<and>
    (case r of Inl e \<Rightarrow> \<not> q \<and> t = st | Inr _ \<Rightarrow> lane_steps q (exchange W encoded) slot n (set wave) st t)"
proof (cases "pw_poller W (pv_lanes (fst st))")
  case (Some e)
  then show ?thesis using q by (auto simp: exact_wave_def polling_works_def)
next
  case None
  obtain posted st1 where w: "send_wave W encoded wave st = (posted, st1)"
    by (cases "send_wave W encoded wave st")
  have send: "lane_steps q (own_send W encoded) slot n (set wave) st st1"
    and posted: "posted = filter (\<lambda>i. fst (own_send W encoded i (cell slot st i)) = None) wave"
    using send_served [OF sh wave w] by blast+
  have D: "set posted = {i \<in> set wave. fst (own_send W encoded i (cell slot st i)) = None}" by (auto simp: posted)
  have sh1: "shaped slot n st1" by (rule stepsD [OF send])
  have p: "distinct posted" "set posted \<subseteq> {..<n}" using wave by (auto simp: posted)
  have fd: "has_fd W st1 i" if "i \<in> set posted" q for i
  proof -
    have ip: "i \<in> set posted" by (rule that(1))
    obtain l b v where c: "cell slot st i = (l, b, v)" by (metis prod.exhaust)
    obtain l' b' v' where o': "own_send W encoded i (l, b, v) = (None, (l', b', v'))"
      using ip c by (cases "own_send W encoded i (l, b, v)") (auto simp: D)
    have "i < n" "i \<in> set wave" using that(1) D wave(2) by auto
    then have "cell slot st1 i = (l', b', v')" using stepsD(3) [OF send] c o' by simp
    then have "pv_lanes (fst st1) ! i = l'" by (cases st1) (simp add: cell_def)
    with sent_has_fd [OF q [OF that(2)] o'] show ?thesis by (simp add: has_fd_def)
  qed
  obtain failed pending st2 where r: "register_wave W posted [] st1 = (failed, pending, st2)" by (metis prod.exhaust)
  have reg: "(failed \<longrightarrow> \<not> q \<and> (\<exists>i e. i \<in> set posted \<and> st2 = record_failure i e st1)) \<and>
      (\<not> failed \<longrightarrow> st2 = st1 \<and> map snd pending = map snd ([] :: (int \<times> nat) list) @ posted \<and> distinct (map fst pending))"
    by (rule register_wave_steps [OF r]) (use p q fd in auto)
  show ?thesis
  proof (cases failed)
    case True
    with reg obtain i e where nq: "\<not> q" and i: "i \<in> set posted" and st2: "st2 = record_failure i e st1" by blast
    have "shaped slot n st2" using sh1 by (simp add: st2)
    from receive_all_served [OF this p]
    have "lane_steps False (own_receive W) slot n (set posted) st2 (receive_all W slot posted st2)" .
    then have "lane_steps False (own_receive W) slot n (set posted) st1 (receive_all W slot posted st2)"
      unfolding st2 by (rule served_noise [OF i])
    then have "lane_steps q (own_receive W) slot n {i \<in> set wave. fst (own_send W encoded i (cell slot st i)) = None}
        st1 (receive_all W slot posted st2)"
      using nq D by simp
    from exchange_steps [OF send this wave(2)] show ?thesis using None w r True by (simp add: exact_wave_def)
  next
    case False
    with reg have st2: "st2 = st1" and ps: "map snd pending = posted" "distinct (map fst pending)" by simp_all
    have pd: "snd ` set pending = set posted" using ps(1) by force
    have "waiting n pending" using ps p pd by (simp add: waiting_def)
    from poll_loop_steps [OF W sh1 this q] obtain t where t: "poll_loop W slot pending st1 = Some t"
      "lane_steps q (own_receive W) slot n (set posted) st1 t" unfolding pd by blast
    from exchange_steps [OF send t(2) [unfolded D] wave(2)] show ?thesis using None w r False t(1) st2
      by (simp add: exact_wave_def)
  qed
qed

section \<open>Whole steps\<close>

lemma wave_bounds_concat: "start \<le> n \<Longrightarrow> 0 < workers \<Longrightarrow> concat (wave_bounds start n workers) = [start ..< n]"
proof (induction start n workers rule: wave_bounds.induct)
  case (1 start n workers)
  show ?case
  proof (cases "start = n")
    case True
    then show ?thesis by (simp add: wave_bounds.simps)
  next
    case False
    then have l: "start < n" using 1(2) by simp
    show ?thesis
    proof (cases "start + workers \<le> n")
      case True
      then have "concat (wave_bounds (start + workers) n workers) = [start + workers ..< n]"
        using 1(1) l 1(3) by simp
      then show ?thesis using l True 1(3) upt_add_eq_append [of start "start + workers" "n - (start + workers)"]
        by (subst wave_bounds.simps) simp
    next
      case False
      then have "wave_bounds (start + workers) n workers = []" by (simp add: wave_bounds.simps)
      then show ?thesis using l False 1(3) by (subst wave_bounds.simps) simp
    qed
  qed
qed

lemma exact_waves_steps:
  assumes W: "polls_end W" and q: "q \<Longrightarrow> polling_works W"
    and "shaped slot n st" "distinct (concat waves)" "set (concat waves) \<subseteq> {..<n}"
  shows "\<exists>r t D. exact_waves W slot encoded waves st = Some (r, t) \<and> D \<subseteq> set (concat waves) \<and>
    lane_steps q (exchange W encoded) slot n D st t \<and>
    (case r of Inl e \<Rightarrow> \<not> q | Inr _ \<Rightarrow> D = set (concat waves))"
  using assms(3-)
proof (induction waves arbitrary: st)
  case Nil
  then show ?case using served_refl [OF Nil(1)] by auto
next
  case (Cons wave waves)
  have w: "distinct wave" "set wave \<subseteq> {..<n}" and ws: "distinct (concat waves)" "set (concat waves) \<subseteq> {..<n}"
    and dj: "set wave \<inter> set (concat waves) = {}" using Cons.prems(2,3) by auto
  obtain r t where e: "exact_wave W slot encoded wave st = Some (r, t)"
    and p: "case r of Inl e \<Rightarrow> \<not> q \<and> t = st | Inr _ \<Rightarrow> lane_steps q (exchange W encoded) slot n (set wave) st t"
    using exact_wave_steps [OF W Cons.prems(1) w q] by blast
  show ?case
  proof (cases r)
    case (Inl x)
    then show ?thesis using e p served_refl [OF Cons.prems(1)] by force
  next
    case (Inr u)
    with p have one: "lane_steps q (exchange W encoded) slot n (set wave) st t" by simp
    from Cons.IH [OF stepsD(1) [OF one] ws] obtain r' v D
      where v: "exact_waves W slot encoded waves t = Some (r', v)" and D: "D \<subseteq> set (concat waves)"
        and two: "lane_steps q (exchange W encoded) slot n D t v"
        and c: "case r' of Inl e \<Rightarrow> \<not> q | Inr _ \<Rightarrow> D = set (concat waves)" by blast
    have "lane_steps q (exchange W encoded) slot n (set wave \<union> D) st v"
      by (rule served_trans [OF one two]) (use dj D w ws in blast)+
    moreover have "exact_waves W slot encoded (wave # waves) st = Some (r', v)" using e Inr v by simp
    moreover have "set wave \<union> D \<subseteq> set (concat (wave # waves))" using D by auto
    moreover have "case r' of Inl e \<Rightarrow> \<not> q | Inr _ \<Rightarrow> set wave \<union> D = set (concat (wave # waves))"
      using c by (auto split: sum.splits)
    ultimately show ?thesis by blast
  qed
qed

text \<open>An exact environment: as many lanes, buffers and workers as it says.\<close>

definition exact_shape :: "('c, 'o) padded_env \<Rightarrow> bool" where
  "exact_shape s \<longleftrightarrow> pv_exact s \<and> 0 < pv_workers s \<and> length (pv_lanes s) = pv_num_envs s \<and>
     pv_transition_slot s < 2 \<and> length (pv_transition_buffers s) = 2 \<and>
     list_all (\<lambda>b. length b = pv_num_envs s) (pv_transition_buffers s)"

text \<open>What one lane's exchange does to its simulator and its slot of the buffer about to be filled.\<close>

definition lane_exchange :: "('c, 'o) padded_world \<Rightarrow> encoded_action list \<Rightarrow> ('c, 'o) padded_env \<Rightarrow> nat
    \<Rightarrow> exn option \<times> 'c cell" where
  "lane_exchange W encoded s i =
     exchange W encoded i (pv_lanes s ! i, pv_transition_buffers s ! (1 - pv_transition_slot s) ! i, None)"

lemma step_exact_steps:
  assumes W: "polls_end W" and q: "q \<Longrightarrow> polling_works W" and s: "exact_shape s"
  shows "\<exists>r t f D. step_exact W encoded s = Some (r, t) \<and> D \<subseteq> {..<pv_num_envs s} \<and>
    lane_steps q (exchange W encoded) (1 - pv_transition_slot s) (pv_num_envs s) D
      (s\<lparr>pv_transition_slot := 1 - pv_transition_slot s\<rparr>, \<lparr>ef_events = replicate (pv_num_envs s) None, ef_failures = []\<rparr>) (t, f) \<and>
    (q \<longrightarrow> D = {..<pv_num_envs s} \<and> r = (if ef_failures f \<noteq> [] then Inl (first_failure (ef_failures f))
       else Inr (map (\<lambda>i. (TransitionView (1 - pv_transition_slot s) i, ExactEvents (the (ef_events f ! i)))) [0 ..< pv_num_envs s])))"
proof -
  let ?n = "pv_num_envs s" and ?slot = "1 - pv_transition_slot s"
  let ?st = "(s\<lparr>pv_transition_slot := ?slot\<rparr>, \<lparr>ef_events = replicate ?n None, ef_failures = []\<rparr>)"
  have sh: "shaped ?slot ?n ?st" using s by (auto simp: shaped_def exact_shape_def list_all_length)
  have c: "concat (wave_bounds 0 ?n (pv_workers s)) = [0 ..< ?n]"
    using s by (intro wave_bounds_concat) (simp_all add: exact_shape_def)
  have "\<exists>r t D. exact_waves W ?slot encoded (wave_bounds 0 ?n (pv_workers s)) ?st = Some (r, t) \<and>
      D \<subseteq> set (concat (wave_bounds 0 ?n (pv_workers s))) \<and> lane_steps q (exchange W encoded) ?slot ?n D ?st t \<and>
      (case r of Inl e \<Rightarrow> \<not> q | Inr _ \<Rightarrow> D = set (concat (wave_bounds 0 ?n (pv_workers s))))"
    by (rule exact_waves_steps [OF W q sh]) (simp_all add: c atLeast0LessThan)
  then obtain r t D where e: "exact_waves W ?slot encoded (wave_bounds 0 ?n (pv_workers s)) ?st = Some (r, t)"
    and D: "D \<subseteq> {..<?n}" and l: "lane_steps q (exchange W encoded) ?slot ?n D ?st t"
    and x: "case r of Inl e \<Rightarrow> \<not> q | Inr _ \<Rightarrow> D = {..<?n}"
    unfolding c set_upt atLeast0LessThan by blast
  obtain u f where t: "t = (u, f)" by fastforce
  show ?thesis using e D l x by (auto simp: step_exact_def Let_def t split: sum.splits)
qed

end
