(* ===== verification/Padded_Results.thy ===== *)
theory Padded_Results
  imports Padded_Exchange Exact_Sim_Trans
begin

text \<open>
  What the methods of a padded environment return and leave behind, in the terms of its lanes: an
  exchange leaves no request outstanding, a restored lane holds the snapshot, and a restored
  observation fits the padded buffer.
\<close>

section \<open>The failure that is raised\<close>

lemma first_failure_lowest:
  assumes "fs \<noteq> []"
  shows "\<exists>i. map_of fs i = Some (first_failure fs) \<and> (\<forall>j < i. map_of fs j = None)"
proof -
  let ?i = "Min (fst ` set fs)"
  have "?i \<in> fst ` set fs" using assms by (intro Min_in) auto
  then have "map_of fs ?i \<noteq> None" by (simp add: map_of_eq_None_iff)
  moreover have "map_of fs j = None" if "j < ?i" for j
    unfolding map_of_eq_None_iff using that by (meson List.finite_set Min_le finite_imageI not_le)
  ultimately show ?thesis by (auto simp: first_failure_def)
qed

section \<open>An exchange leaves no request outstanding\<close>

lemma send_step_log: "wp (send_step_request V padded kind x y wait)
    (\<lambda>_ t. xs_actions t = xs_actions s) (\<lambda>_ t. xs_actions t = xs_actions s) s"
  by (auto simp: send_step_request_def wp_pbind wp_pget wp_pguard wp_require_open wp_plift wp_pmod
      split: option.split sum.split intro!: on_client_any)

definition settled :: "exact_sim \<Rightarrow> exact_sim \<Rightarrow> bool" where
  "settled s t \<longleftrightarrow> xs_pending t = None \<and> (xs_actions t = xs_actions s \<or> (\<exists>a. xs_actions t = xs_actions s @ [a]))"

lemma receive_settles:
  assumes "xs_pending s = Some a" "xs_client s = Some i" "\<not> xc_closed (xs_clients s ! i)"
  shows "wp (receive_step_padded_raw W) (\<lambda>_. settled s) (\<lambda>_. settled s) s"
proof -
  have keep: "settled s ((g s')\<lparr>xs_clients := cs\<rparr>) = settled s (g s')" for g s' cs by (simp add: settled_def)
  let ?n = "\<lambda>t. xs_actions t = xs_actions s \<and> xs_pending t = None"
  have drop: "wp (drop_worker W i) (\<lambda>_. ?n) (\<lambda>_. ?n) t" if "xs_actions t = xs_actions s" for t
    unfolding drop_worker_def wp_pbind wp_pmod wp_ignoring by (rule on_client_any) (use that in auto)
  have body: "wp (on_any_error
         (pbind (on_client W i read) (\<lambda>r.
          pbind (pget xs_config_hash) (\<lambda>config_hash.
          pbind (pguard (h r \<noteq> config_hash)
            (protocol_error ''exact transition config hash changed'')) (\<lambda>_. pret r))))
         (drop_worker W i)) (\<lambda>_ t. xs_actions t = xs_actions s) (\<lambda>_. ?n) s"
    for read :: "worker_env \<Rightarrow> (exact_client, 'x) py" and h
    unfolding wp_on_any_error wp_pbind wp_pget wp_pguard wp_pret
    by (rule on_client_any) (auto intro!: wp_mono [OF drop])
  show ?thesis
    unfolding receive_step_padded_raw_def
    unfolding receive_with_def wp_pbind [of "pget _"] wp_pget assms(1) option.case wp_pbind [of require_open]
      wp_require_open assms(2)
    by (simp only: wp_pbind [of "pbind _ _"] wp_pbind [of "pget _"] wp_pget assms option.case wp_require_open
        wp_pbind [of require_open] wp_pbind [of "on_any_error _ _"] if_False, rule wp_mono [OF body])
      (auto simp: wp_pbind wp_pmod wp_pret settled_def)
qed

lemma receive_into_settles:
  assumes "xs_pending s = Some a" "xs_client s = Some i" "\<not> xc_closed (xs_clients s ! i)"
  shows "wp (receive_into W b) (\<lambda>_. settled s) (\<lambda>_. settled s) s"
  unfolding receive_into_def wp_pbind [of "receive_step_padded_raw W"]
  by (rule wp_mono [OF receive_settles [OF assms]])
    (auto simp: wp_prod wp_if wp_pret wp_pbind wp_pget split: prod.split)

definition idle_lane :: "'c lane \<Rightarrow> bool" where
  "idle_lane l \<longleftrightarrow> (\<exists>x. l = ExactLane x \<and> xs_pending x = None)"

definition settled_lane :: "'c lane \<Rightarrow> 'c lane \<Rightarrow> bool" where
  "settled_lane l l' \<longleftrightarrow> (\<exists>x y. l = ExactLane x \<and> l' = ExactLane y \<and> settled x y)"

lemma settled_lane_refl: "idle_lane l \<Longrightarrow> settled_lane l l"
  by (auto simp: idle_lane_def settled_lane_def settled_def)

lemma exchange_settles:
  assumes "idle_lane l" "exchange W encoded i (l, b, v) = (r, (l', b', v'))"
  shows "settled_lane l l'"
proof -
  obtain x where l: "l = ExactLane x" and x: "xs_pending x = None" using assms(1) by (auto simp: idle_lane_def)
  obtain k cx cy w where a: "encoded ! i = (k, cx, cy, w)" by (metis prod.exhaust)
  let ?m = "send_step_request (pw_sim W i) True (NumInt k) (NumFloat cx) (NumFloat cy) (NumInt w)"
  obtain sr y where s: "?m x = (sr, y)" by fastforce
  note w = wp_conj [OF send_step_wp send_step_log, of "pw_sim W i" True "NumInt k" "NumFloat cx" "NumFloat cy" "NumInt w" x]
  show ?thesis
  proof (cases sr)
    case (Inl e)
    then have "settled x y" using wp_raiseD [OF w] s x by (auto simp: settled_def)
    moreover have "l' = ExactLane y"
      using assms(2) s Inl by (auto simp: exchange_def own_send_def on_exact_lane_def on_lane_def l send_step_padded_def a)
    ultimately show ?thesis by (auto simp: settled_lane_def l)
  next
    case (Inr u)
    with wp_resultD [OF w] s obtain p j where p: "xs_pending y = Some p" "xs_client y = Some j"
      "\<not> xc_closed (xs_clients y ! j)" and log: "xs_actions y = xs_actions x" by blast
    obtain rr z where z: "receive_into (pw_sim W i) b y = (rr, z)" by fastforce
    have "settled y z"
      using wp_resultD [OF receive_into_settles [OF p]] wp_raiseD [OF receive_into_settles [OF p]] z by (cases rr) auto
    then have "settled x z" using log by (simp add: settled_def)
    moreover have "l' = ExactLane z"
      using assms(2) s Inr z
      by (auto simp: exchange_def own_send_def own_receive_def on_exact_lane_def on_lane_def l send_step_padded_def a
          split: sum.splits prod.splits)
    ultimately show ?thesis by (auto simp: settled_lane_def l)
  qed
qed

end
