(* ===== verification/Padded_Subsets.thy ===== *)
theory Padded_Subsets
  imports Padded_Results
begin

text \<open>
  \<open>restore_many\<close> and \<open>step_many\<close>.  On exact lanes cloning reads only, a restored observation was decoded
  from a response and so can be copied out, and a lane restored from the backup of its earlier self
  holds that seed and log again; a call on a subset gives each of its lanes one job.
\<close>

section \<open>Restored observations\<close>

definition decoded_observation :: "exact_observation \<Rightarrow> bool" where
  "decoded_observation obs \<longleftrightarrow> (\<exists>p e. decode_observation p 0 = Inr (obs, e))"

lemma wp_any: "(\<And>x t. Q x t) \<Longrightarrow> (\<And>e t. E e t) \<Longrightarrow> wp m Q E s"
  by (rule wpI) auto

lemma client_reset_decodes: "wp (client_reset V seed) (\<lambda>obs _. decoded_observation obs) (\<lambda>_ _. True) c"
proof -
  have w: "decoded_observation obs" if "whole_observation p x = Inr obs" for p x obs
    using that by (auto simp: whole_observation_def decoded_observation_def rbind_Inr split: if_splits)
  show ?thesis
    by (auto simp: client_reset_def wp_praise wp_pbind wp_plift wp_True dest: w split: option.split sum.split
        intro!: wp_any)
qed

lemma client_step_decodes:
  "wp (client_step V k x y w q) (\<lambda>tr _. decoded_observation (xt_observation tr)) (\<lambda>_ _. True) c"
proof -
  have d: "decoded_observation (xt_observation tr)" if p: "decode_transition p = Inr tr" for p tr
  proof -
    from p obtain a b where "decode_observation p 0 = Inr (a, b)" "xt_observation tr = a"
      by (auto simp: decode_transition_def rbind_Inr Let_def split: if_splits)
    then show ?thesis unfolding decoded_observation_def by blast
  qed
  show ?thesis
    unfolding client_step_def client_receive_step_def wp_pbind wp_plift
    by (auto dest: d split: sum.split intro!: wp_any)
qed

lemma replay_decodes:
  "decoded_observation obs \<Longrightarrow> wp (replay W c acts obs) (\<lambda>obs _. decoded_observation obs) (\<lambda>_ _. True) s"
proof (induction acts arbitrary: obs s)
  case Nil
  then show ?case by (simp add: wp_pret)
next
  case (Cons a acts)
  show ?case
    unfolding replay.simps Let_def wp_pbind wp_on_client
    by (rule wp_mono [OF client_step_decodes]) (use Cons.IH in auto)
qed

lemma restore_decodes:
  "wp (restore_state_typed W b) (\<lambda>obs _. decoded_observation obs) (\<lambda>_ _. True) s"
proof -
  have r: "wp (pbind (on_client W i (\<lambda>V. client_reset V n)) (\<lambda>obs. replay W i acts obs))
      (\<lambda>obs _. decoded_observation obs) (\<lambda>_ _. True) t" for i n acts t
    unfolding wp_pbind wp_on_client by (rule wp_mono [OF client_reset_decodes]) (auto intro: replay_decodes)
  have e: "wp (on_any_error m h) Q (\<lambda>_ _. True) t" if "wp m Q (\<lambda>_ _. True) t" for m :: "(exact_sim, 'x) py" and h Q t
    unfolding wp_on_any_error by (rule wp_mono [OF that]) simp_all
  have tail: "wp (pbind require_open (\<lambda>previous.
     pbind (pmod (restore_commit c n acts obs)) (\<lambda>_.
     pbind (on_client W previous client_close) (\<lambda>_. pret obs)))) (\<lambda>obs _. decoded_observation obs) (\<lambda>_ _. True) t"
    if "decoded_observation obs" for c n acts obs t
    unfolding wp_pbind wp_pret by (rule wp_any) (use that in \<open>auto simp: wp_pmod intro!: wp_any\<close>)
  have rest: "wp (pbind (on_any_error
       (pbind (on_client W c (\<lambda>V. client_reset V (NumInt n))) (\<lambda>obs. replay W c acts obs))
       (on_client W c client_close)) (\<lambda>obs. pbind require_open (\<lambda>previous.
     pbind (pmod (restore_commit c n acts obs)) (\<lambda>_.
     pbind (on_client W previous client_close) (\<lambda>_. pret obs))))) (\<lambda>obs _. decoded_observation obs) (\<lambda>_ _. True) t"
    for c n acts t
    by (subst wp_pbind, rule wp_mono [OF e [OF r]]) (auto intro: tail)
  show ?thesis
    unfolding restore_state_typed_def wp_pbind [of "decode_snapshot W b"] wp_prod
      wp_pbind [of "require_no_checkpoints _"] wp_pbind [of "spawn_matching W"]
    by (rule wp_any) (auto intro!: wp_any rest)
qed

section \<open>Restoring a lane's earlier self\<close>

text \<open>What a lane must satisfy for its snapshot to name it: the invariant of its simulator, and the
  widths of the snapshot's fields.\<close>

definition sound_lane :: "'c lane \<Rightarrow> bool" where
  "sound_lane l \<longleftrightarrow> (\<exists>x. l = ExactLane x \<and> sim_inv x \<and> length (xs_identity x) = 32 \<and>
     uint64 (xs_config_hash x) \<and> uint64 (int (length (xs_actions x))))"

definition same_log :: "exact_sim \<Rightarrow> exact_sim \<Rightarrow> bool" where
  "same_log x y \<longleftrightarrow> xs_seed y = xs_seed x \<and> xs_actions y = xs_actions x \<and> xs_identity y = xs_identity x \<and>
     xs_config_hash y = xs_config_hash x \<and> xs_pending y = None"

definition same_log_lane :: "'c lane \<Rightarrow> 'c lane \<Rightarrow> bool" where
  "same_log_lane l l' \<longleftrightarrow> (\<exists>x y. l = ExactLane x \<and> l' = ExactLane y \<and> same_log x y)"

lemma clone_wp: "wp (clone_state W) (\<lambda>b t. t = s \<and> xs_pending s = None \<and> (\<exists>n. xs_seed s = Some n \<and>
    b = snapshot_bytes W (xs_config_hash s) (xs_identity s) n (xs_actions s))) (\<lambda>_ t. t = s) s"
  by (auto simp: clone_state_def wp_simps split: option.split)

lemma restored_backup:
  assumes "digest_32 W" "sound_lane (ExactLane x)" "clone_state W x = (Inr b, u)"
    and "xs_identity y = xs_identity x" "xs_config_hash y = xs_config_hash x" "restored W b y z"
  shows "same_log x z"
proof -
  obtain n where n: "xs_seed x = Some n" "b = snapshot_bytes W (xs_config_hash x) (xs_identity x) n (xs_actions x)"
    using wp_resultD [OF clone_wp assms(3)] by blast
  obtain seed acts obs where d: "decode_snapshot W b y = (Inr (seed, acts), y)"
    and z: "same_world (restore_commit (length (xs_clients y)) seed acts obs y) z"
    using assms(6) unfolding restored_def by blast
  note d' = decoded_snapshot [OF d]
  have i: "0 \<le> n \<and> n \<le> UINT32 \<and> list_all valid_action (xs_actions x)" "length (xs_identity x) = 32"
    "uint64 (xs_config_hash x)" "uint64 (int (length (xs_actions x)))"
    using assms(2) n(1) by (auto simp: sound_lane_def sim_inv_def)
  have "xs_config_hash x = xs_config_hash y \<and> xs_identity x = xs_identity y \<and> n = seed \<and> xs_actions x = acts"
    by (rule snapshot_bytes_inject [of W]) (use n(2) d' i assms(1) in auto)
  with z n(1) show ?thesis by (simp add: same_log_def same_world_def restore_commit_def)
qed

text \<open>Whatever a restore does, the lane's identity and configuration stay.\<close>

lemma restore_keeps_identity:
  assumes "restore_state_typed W b x = (r, y)"
  shows "xs_identity y = xs_identity x \<and> xs_config_hash y = xs_config_hash x"
proof (cases r)
  case (Inl e)
  with wp_raiseD [OF restore_wp] assms show ?thesis
    by (force simp: untouched_def restored_def same_world_def restore_commit_def)
next
  case (Inr obs)
  with wp_resultD [OF restore_wp] assms show ?thesis
    by (force simp: restored_def same_world_def restore_commit_def)
qed

lemma rolled_back_lane:
  assumes "digest_32 W" "sound_lane l" "lane_clone W L l = (Inr b, l)"
    and "restore_one W L b' l = (r, m)" "restore_one W L b m = (Inr v, k)"
  shows "same_log_lane l k"
proof -
  obtain x where l: "l = ExactLane x" using assms(2) by (auto simp: sound_lane_def)
  obtain u where c: "clone_state W x = (Inr b, u)"
    using assms(3) by (auto simp: lane_clone_def on_lane_def l split: prod.splits)
  obtain r' y where f: "restore_state_typed W b' x = (r', y)" by (cases "restore_state_typed W b' x")
  then have m: "m = ExactLane y"
    using assms(4) by (auto simp: restore_one_def on_lane_def l pbind_def pret_def split: sum.splits)
  obtain obs z where g: "restore_state_typed W b y = (Inr obs, z)" "k = ExactLane z"
    using assms(5) by (auto simp: restore_one_def on_lane_def m pbind_def pret_def split: sum.splits prod.splits)
  have "same_log x z"
    by (rule restored_backup [OF assms(1) assms(2) [unfolded l] c])
      (use restore_keeps_identity [OF f] wp_resultD [OF restore_wp g(1)] in auto)
  then show ?thesis by (simp add: same_log_lane_def l g(2))
qed

lemma restored_hand_out:
  assumes "restore_one W L b (ExactLane x) = (Inr v, k)"
  shows "\<exists>o'. hand_out v = Inr o'"
proof -
  obtain obs z where g: "restore_state_typed W b x = (Inr obs, z)" "v = TypedObs obs"
    using assms by (auto simp: restore_one_def on_lane_def pbind_def pret_def split: sum.splits prod.splits)
  from wp_resultD [OF restore_decodes g(1)] obtain p e where d: "decode_observation p 0 = Inr (obs, e)"
    unfolding decoded_observation_def by blast
  have "OBSERVATION_BYTES \<le> length blank_observation" by (simp add: blank_observation_def)
  from copied_observation_view [OF d this] obtain t where "copy_exact_observation obs blank_observation = Inr t" .
  then show ?thesis by (simp add: hand_out_def g(2))
qed

section \<open>All lanes of a call\<close>

lemma clone_reads: "sound_lane l \<Longrightarrow> lane_clone W L l = (r, l') \<Longrightarrow> l' = l"
proof -
  assume l: "sound_lane l" and c: "lane_clone W L l = (r, l')"
  from l obtain x where x: "l = ExactLane x" by (auto simp: sound_lane_def)
  obtain r' y where y: "clone_state W x = (r', y)" by fastforce
  have "y = x" using wp_resultD [OF clone_wp] wp_raiseD [OF clone_wp] y by (cases r') blast+
  then show ?thesis using c y by (simp add: lane_clone_def on_lane_def x)
qed

lemma at_lanes_clone:
  assumes "\<forall>i \<in> set lanes. sound_lane (pv_lanes s ! i)"
    and "at_lanes (\<lambda>i. lane_clone (pw_sim W i) (pw_library W)) lanes s = (r, t)"
  shows "t = s \<and> (\<forall>bs. r = Inr bs \<longrightarrow> length bs = length lanes \<and> (\<forall>k < length lanes.
    lane_clone (pw_sim W (lanes ! k)) (pw_library W) (pv_lanes s ! (lanes ! k)) = (Inr (bs ! k), pv_lanes s ! (lanes ! k))))"
  using assms
proof (induction lanes arbitrary: r t)
  case Nil
  then show ?case by (auto simp: pret_def)
next
  case (Cons i lanes)
  let ?m = "\<lambda>i. lane_clone (pw_sim W i) (pw_library W)"
  obtain c l' where c: "?m i (pv_lanes s ! i) = (c, l')" by fastforce
  have "l' = pv_lanes s ! i" by (rule clone_reads [OF _ c]) (use Cons.prems(1) in simp)
  then have a: "at_lane i (?m i) s = (c, s)" by (simp add: at_lane_def c)
  obtain r' t' where b: "at_lanes ?m lanes s = (r', t')" by fastforce
  note IH = Cons.IH [OF _ b]
  show ?case
  proof (cases c)
    case (Inl e)
    then show ?thesis using Cons.prems(2) a by (auto simp: pbind_def)
  next
    case (Inr x)
    then have t: "t = s" "r = rbind r' (\<lambda>xs. Inr (x # xs))"
      using Cons.prems a b IH by (auto simp: pbind_def pret_def split: sum.splits)
    show ?thesis
    proof (intro conjI allI impI)
      show "t = s" by (rule t(1))
      fix bs assume "r = Inr bs"
      then obtain xs where xs: "r' = Inr xs" "bs = x # xs" using t(2) by (auto simp: rbind_Inr)
      then show "length bs = length (i # lanes)" using IH Cons.prems(1) by simp
      fix k assume "k < length (i # lanes)"
      then show "?m ((i # lanes) ! k) (pv_lanes s ! ((i # lanes) ! k)) = (Inr (bs ! k), pv_lanes s ! ((i # lanes) ! k))"
        using IH Cons.prems(1) xs c Inr \<open>l' = pv_lanes s ! i\<close> by (cases k) auto
    qed
  qed
qed

lemma nat_lanes:
  "distinct ns \<Longrightarrow> \<not> list_ex (\<lambda>i. \<not> (0 \<le> i \<and> i < int n)) ns \<Longrightarrow>
     distinct (map nat ns) \<and> (\<forall>i \<in> set (map nat ns). i < n)"
  by (auto simp: distinct_map inj_on_def list_ex_iff) (metis eq_nat_nat_iff)

lemma subset_lanes: "subset_indices n indices = Inr lanes \<Longrightarrow> distinct lanes \<and> (\<forall>i \<in> set lanes. i < n)"
  using nat_lanes [of "map (\<lambda>v. the (plain_int v)) (the indices)" n]
  by (auto simp: subset_indices_def Let_def simp del: map_map split: option.splits if_splits)

text \<open>A call of jobs on the lanes \<open>lanes\<close>, in pairs.\<close>

lemma restore_jobs_fst: "length bs = length lanes \<Longrightarrow> map fst (restore_jobs W lanes bs) = lanes"
  by (simp add: restore_jobs_def case_prod_unfold comp_def flip: map_map) (simp add: comp_def)

lemma restore_jobs_nth:
  "length bs = length lanes \<Longrightarrow> k < length lanes \<Longrightarrow>
     restore_jobs W lanes bs ! k = (lanes ! k, restore_one (pw_sim W (lanes ! k)) (pw_library W) (bs ! k))"
  by (simp add: restore_jobs_def)

lemma restore_pool:
  assumes W: "fair_pool W" and b: "length bs = length lanes" and d: "distinct lanes"
    and n: "\<forall>i \<in> set lanes. i < length (pv_lanes s)" and r: "in_pool W (restore_jobs W lanes bs) s = (r, t)"
  shows "t = s\<lparr>pv_lanes := pv_lanes t\<rparr> \<and> length (pv_lanes t) = length (pv_lanes s) \<and>
    (\<forall>i < length (pv_lanes s). i \<notin> set lanes \<longrightarrow> pv_lanes t ! i = pv_lanes s ! i) \<and>
    (\<forall>k < length lanes. pv_lanes t ! (lanes ! k) =
       snd (restore_one (pw_sim W (lanes ! k)) (pw_library W) (bs ! k) (pv_lanes s ! (lanes ! k)))) \<and>
    (\<forall>xs. r = Inr xs \<longrightarrow> length xs = length lanes \<and> (\<forall>k < length lanes.
       fst (restore_one (pw_sim W (lanes ! k)) (pw_library W) (bs ! k) (pv_lanes s ! (lanes ! k))) = Inr (xs ! k)))"
proof -
  let ?jobs = "restore_jobs W lanes bs"
  note f = restore_jobs_fst [OF b, of W] and nth = restore_jobs_nth [OF b, of _ W]
  have fs: "fst ` set ?jobs = set lanes" using f by (metis set_map)
  have l: "length ?jobs = length lanes" by (metis f length_map)
  have "in_pool W ?jobs s = (rmap (\<lambda>r. r) (job_results ?jobs (pv_lanes s)),
      s\<lparr>pv_lanes := map (job_lane ?jobs (pv_lanes s)) [0 ..< length (pv_lanes s)]\<rparr>)"
    by (rule in_pool_spec [OF W]) (use d n f fs in simp_all)
  with r have r': "r = rmap (\<lambda>r. r) (job_results ?jobs (pv_lanes s))"
    and t: "t = s\<lparr>pv_lanes := map (job_lane ?jobs (pv_lanes s)) [0 ..< length (pv_lanes s)]\<rparr>" by simp_all
  have run: "job_lane ?jobs (pv_lanes s) (lanes ! k) =
      snd (restore_one (pw_sim W (lanes ! k)) (pw_library W) (bs ! k) (pv_lanes s ! (lanes ! k)))"
    if "k < length lanes" for k
    by (rule job_lane_run) (use d f nth [OF that] that l nth_mem [of k ?jobs] in auto)
  have res: "length xs = length lanes \<and> (\<forall>k < length lanes.
       fst (restore_one (pw_sim W (lanes ! k)) (pw_library W) (bs ! k) (pv_lanes s ! (lanes ! k))) = Inr (xs ! k))"
    if "r = Inr xs" for xs
  proof -
    have j: "job_results ?jobs (pv_lanes s) = map Inr xs" using that r' by (simp add: rmap_id_Inr)
    have len: "length xs = length lanes" using arg_cong [OF j, of length] l by (simp add: job_results_def)
    moreover have "fst (restore_one (pw_sim W (lanes ! k)) (pw_library W) (bs ! k) (pv_lanes s ! (lanes ! k))) = Inr (xs ! k)"
      if "k < length lanes" for k
    proof -
      have "job_results ?jobs (pv_lanes s) ! k = Inr (xs ! k)" using j len that by simp
      then show ?thesis using nth [OF that] that l by (simp add: job_results_def)
    qed
    ultimately show ?thesis by blast
  qed
  show ?thesis using t run res n fs by auto
qed

lemma rmap_total: "(\<And>x. x \<in> set xs \<Longrightarrow> \<exists>y. f x = Inr y) \<Longrightarrow> \<exists>ys. rmap f xs = Inr ys"
proof (induction xs)
  case (Cons x xs)
  from Cons.prems [of x] obtain y where y: "f x = Inr y" by auto
  from Cons obtain ys where "rmap f xs = Inr ys" by auto
  with y show ?case by simp
qed simp

lemma prior_resets: "foldl (\<lambda>bs (i, b). bs[i := b]) bs (zip lanes (map ((!) bs) lanes)) = bs"
  by (induction lanes) simp_all

section \<open>Failing restores\<close>

text \<open>What a failing \<open>restore_many\<close> leaves: lanes that are not addressed are as they were, and unless the
  environment is poisoned every addressed lane holds its earlier seed and log, and no flag changed.\<close>

definition rolled_back :: "nat list \<Rightarrow> ('c, 'o) padded_env \<Rightarrow> ('c, 'o) padded_env \<Rightarrow> bool" where
  "rolled_back lanes s t \<longleftrightarrow> length (pv_lanes t) = length (pv_lanes s) \<and>
     (\<forall>i < length (pv_lanes s). i \<notin> set lanes \<longrightarrow> pv_lanes t ! i = pv_lanes s ! i) \<and>
     (t = s\<lparr>pv_lanes := pv_lanes t, pv_poisoned := True\<rparr> \<or>
      t = s\<lparr>pv_lanes := pv_lanes t\<rparr> \<and> (\<forall>i \<in> set lanes. same_log_lane (pv_lanes s ! i) (pv_lanes t ! i)))"

lemma roll_back_wp:
  assumes W: "fair_pool W" "\<forall>i. digest_32 (pw_sim W i)" and d: "distinct lanes" "\<forall>i \<in> set lanes. i < length (pv_lanes s)"
    and l: "\<forall>i \<in> set lanes. sound_lane (pv_lanes s ! i)"
    and b: "length backups = length lanes" "\<forall>k < length lanes.
      lane_clone (pw_sim W (lanes ! k)) (pw_library W) (pv_lanes s ! (lanes ! k)) = (Inr (backups ! k), pv_lanes s ! (lanes ! k))"
    and p: "length bs = length lanes" "in_pool W (restore_jobs W lanes bs) s = (r, u)"
  shows "wp (roll_back W lanes backups (map ((!) (pv_has_reset s)) lanes) e) (\<lambda>_ _. False) (\<lambda>_. rolled_back lanes s) u"
proof -
  note one = restore_pool [OF W(1) p(1) d p(2)]
  have du: "\<forall>i \<in> set lanes. i < length (pv_lanes u)" using d(2) one by simp
  obtain r' v where v: "in_pool W (restore_jobs W lanes backups) u = (r', v)" by fastforce
  note two = restore_pool [OF W(1) b(1) d(1) du v]
  have lanes: "length (pv_lanes v) = length (pv_lanes s)"
    "\<forall>i < length (pv_lanes s). i \<notin> set lanes \<longrightarrow> pv_lanes v ! i = pv_lanes s ! i" using one two by simp_all
  have v': "v = s\<lparr>pv_lanes := pv_lanes v\<rparr>"
  proof -
    have "u = s\<lparr>pv_lanes := pv_lanes u\<rparr>" "v = u\<lparr>pv_lanes := pv_lanes v\<rparr>" using one two by blast+
    then show ?thesis by (metis padded_env.update_convs(6) padded_env.surjective)
  qed
  show ?thesis
  proof (cases r')
    case (Inl x)
    have "rolled_back lanes s (v\<lparr>pv_poisoned := True\<rparr>)"
      unfolding rolled_back_def using lanes by (subst (2) v') simp
    then show ?thesis
      by (simp add: roll_back_def wp_pbind wp_pcatch_base wp_pmod wp_praise) (simp add: wp_def v Inl)
  next
    case (Inr xs)
    have "same_log_lane (pv_lanes s ! i) (pv_lanes v ! i)" if "i \<in> set lanes" for i
    proof -
      from that obtain k where k: "k < length lanes" "i = lanes ! k" by (auto simp: in_set_conv_nth)
      let ?r = "restore_one (pw_sim W i) (pw_library W)"
      obtain r1 m where m: "?r (bs ! k) (pv_lanes s ! i) = (r1, m)" by fastforce
      then have um: "pv_lanes u ! i = m" using one k by simp
      have "\<forall>k < length lanes. fst (restore_one (pw_sim W (lanes ! k)) (pw_library W) (backups ! k)
          (pv_lanes u ! (lanes ! k))) = Inr (xs ! k)" using two Inr by blast
      then have f: "fst (?r (backups ! k) m) = Inr (xs ! k)" using k um by blast
      have "\<forall>k < length lanes. pv_lanes v ! (lanes ! k) = snd (restore_one (pw_sim W (lanes ! k)) (pw_library W)
          (backups ! k) (pv_lanes u ! (lanes ! k)))" using two by blast
      then have g: "pv_lanes v ! i = snd (?r (backups ! k) m)" using k um by blast
      have n: "?r (backups ! k) m = (Inr (xs ! k), pv_lanes v ! i)" using f g by (metis prod.collapse)
      show ?thesis by (rule rolled_back_lane [OF _ _ _ m n]) (use W(2) l b(2) k in simp_all)
    qed
    then have "rolled_back lanes s v" unfolding rolled_back_def using lanes v' by blast
    moreover have "v\<lparr>pv_has_reset := foldl (\<lambda>bs (i, b). bs[i := b]) (pv_has_reset v)
        (zip lanes (map ((!) (pv_has_reset s)) lanes))\<rparr> = v"
    proof -
      have "pv_has_reset v = pv_has_reset s" by (subst v') simp
      then show ?thesis by (simp add: prior_resets flip: \<open>pv_has_reset v = pv_has_reset s\<close>)
    qed
    ultimately show ?thesis
      by (simp add: roll_back_def wp_pbind wp_pcatch_base wp_pmod wp_praise) (simp add: wp_def v Inr)
  qed
qed

lemma restore_many_wp:
  assumes W: "fair_pool W" "\<forall>i. digest_32 (pw_sim W i)"
    and s: "length (pv_lanes s) = pv_num_envs s" "list_all sound_lane (pv_lanes s)"
  shows "wp (restore_many W indices snapshots) (\<lambda>_ _. True) (\<lambda>_ t. t = s \<or>
    (\<exists>lanes. subset_indices (pv_num_envs s) indices = Inr lanes \<and> rolled_back lanes s t)) s"
proof -
  let ?E = "\<lambda>t. t = s \<or> (\<exists>lanes. subset_indices (pv_num_envs s) indices = Inr lanes \<and> rolled_back lanes s t)"
  have main: "wp (pbind (at_lanes (\<lambda>i. lane_clone (pw_sim W i) (pw_library W)) lanes) (\<lambda>backups.
       pbind (pget (\<lambda>s. map (\<lambda>i. pv_has_reset s ! i) lanes)) (\<lambda>prior.
       pbind (pcatch_base (in_pool W (restore_jobs W lanes bs)) (roll_back W lanes backups prior)) (\<lambda>observations.
       pbind (pmod (\<lambda>s. s\<lparr>pv_has_reset := mark_reset lanes (pv_has_reset s)\<rparr>)) (\<lambda>_.
       plift (rmap hand_out observations)))))) (\<lambda>_ _. True) (\<lambda>_. ?E) s"
    if i: "subset_indices (pv_num_envs s) indices = Inr lanes" and b: "length bs = length lanes" for lanes bs
  proof -
    note d = subset_lanes [OF i]
    have n: "\<forall>i \<in> set lanes. i < length (pv_lanes s)" using d s(1) by simp
    then have l: "\<forall>i \<in> set lanes. sound_lane (pv_lanes s ! i)" using s(2) by (simp add: list_all_length)
    obtain r u where c: "at_lanes (\<lambda>i. lane_clone (pw_sim W i) (pw_library W)) lanes s = (r, u)" by fastforce
    note c' = at_lanes_clone [OF l c]
    show ?thesis
    proof (cases r)
      case (Inl e)
      then show ?thesis using c c' by (simp add: wp_def pbind_def)
    next
      case (Inr backups)
      obtain q v where p: "in_pool W (restore_jobs W lanes bs) s = (q, v)" by fastforce
      have backs: "length backups = length lanes" "\<forall>k < length lanes.
        lane_clone (pw_sim W (lanes ! k)) (pw_library W) (pv_lanes s ! (lanes ! k)) = (Inr (backups ! k), pv_lanes s ! (lanes ! k))"
        using c' Inr by blast+
      show ?thesis
      proof (cases q)
        case (Inl e)
        note rb = roll_back_wp [OF W conjunct1 [OF d] n l backs b p, of e]
        have "wp (roll_back W lanes backups (map ((!) (pv_has_reset s)) lanes) e) Q (\<lambda>_. ?E) v" for Q
          by (rule wp_mono [OF rb]) (use i in auto)
        then have "wp (pcatch_base (in_pool W (restore_jobs W lanes bs))
            (roll_back W lanes backups (map ((!) (pv_has_reset s)) lanes))) Q (\<lambda>_. ?E) s" for Q
          by (simp add: wp_pcatch_base) (simp add: wp_def p Inl)
        then show ?thesis
          unfolding wp_pbind [of "at_lanes _ _"] wp_pbind [of "pget _"] wp_pget
          by (subst wp_def) (use c c' Inr in \<open>simp add: wp_pbind\<close>)
      next
        case (Inr obs)
        note one = restore_pool [OF W(1) b conjunct1 [OF d] n p]
        have "\<exists>o'. hand_out x = Inr o'" if "x \<in> set obs" for x
        proof -
          have len: "length obs = length lanes" and f: "\<forall>k < length lanes. fst (restore_one (pw_sim W (lanes ! k))
            (pw_library W) (bs ! k) (pv_lanes s ! (lanes ! k))) = Inr (obs ! k)" using one Inr by blast+
          from that len obtain k where k: "k < length lanes" "x = obs ! k" by (auto simp: in_set_conv_nth)
          obtain y where y: "pv_lanes s ! (lanes ! k) = ExactLane y"
            using bspec [OF l nth_mem [OF k(1)]] unfolding sound_lane_def by blast
          obtain z where "restore_one (pw_sim W (lanes ! k)) (pw_library W) (bs ! k) (ExactLane y) = (Inr x, z)"
            using f k y by (metis prod.collapse)
          then show ?thesis by (rule restored_hand_out)
        qed
        then obtain os where os: "rmap hand_out obs = Inr os" using rmap_total [of obs hand_out] by blast
        have "wp (pcatch_base (in_pool W (restore_jobs W lanes bs)) h) (\<lambda>x t. x = obs) (\<lambda>_. ?E) s" for h
          by (simp add: wp_pcatch_base) (simp add: wp_def p Inr)
        note pc = wp_mono [OF this]
        have "wp (pbind (pcatch_base (in_pool W (restore_jobs W lanes bs)) h) (\<lambda>observations.
            pbind (pmod (\<lambda>s. s\<lparr>pv_has_reset := mark_reset lanes (pv_has_reset s)\<rparr>)) (\<lambda>_.
            plift (rmap hand_out observations)))) (\<lambda>_ _. True) (\<lambda>_. ?E) s" for h
          unfolding wp_pbind [of "pcatch_base _ _"] by (rule pc) (simp_all add: wp_pbind wp_pmod wp_plift os)
        then show ?thesis
          unfolding wp_pbind [of "at_lanes _ _"] wp_pbind [of "pget _"] wp_pget
          by (subst wp_def) (use c c' \<open>r = Inr backups\<close> in simp)
      qed
    qed
  qed
  have guards: "wp pv_require_open (\<lambda>_ t. t = s) (\<lambda>_ t. t = s) s"
    by (simp add: pv_require_open_def wp_pbind wp_pget wp_pguard)
  show ?thesis
    unfolding restore_many_def wp_pbind [of pv_require_open]
  proof (rule wp_mono [OF guards], goal_cases)
    case (1 x t)
    then show ?case
      using main by (auto simp: wp_pbind [of "pget _"] wp_pget wp_pbind [of "plift _"] wp_plift wp_pbind [of "pguard _ _"]
          wp_pguard wp_praise wp_if wp_pret split: sum.split option.split)
  qed simp
qed

section \<open>Steps of subsets\<close>

lemma equal_ints: "py_distinct vs \<Longrightarrow> \<not> list_ex (\<lambda>v. plain_int v = None) vs \<Longrightarrow> distinct (map (\<lambda>v. the (plain_int v)) vs)"
proof (induction vs)
  case (Cons v vs)
  obtain n where v: "v = PyInt n" using Cons.prems(2) by (cases v) simp_all
  have "the (plain_int w) \<noteq> n" if "w \<in> set vs" for w
  proof -
    have "plain_int w \<noteq> None" using Cons.prems(2) that unfolding list_ex_iff by auto
    then obtain k where "w = PyInt k" by (cases w) simp_all
    moreover have "\<not> py_eq v w" using Cons.prems(1) that by (auto simp: list_ex_iff)
    ultimately show ?thesis using v by auto
  qed
  then show ?case using Cons v by auto
qed simp

lemma lane_indices_distinct: "lane_indices n op indices = Inr lanes \<Longrightarrow> distinct lanes \<and> (\<forall>i \<in> set lanes. i < n)"
  using nat_lanes [of "map (\<lambda>v. the (plain_int v)) indices" n] equal_ints [of indices]
  by (auto simp: lane_indices_def Let_def simp del: map_map split: if_splits)

text \<open>\<open>step_one\<close> on lane \<open>i\<close> of an environment, and what a call that steps \<open>lanes\<close> gives and leaves.\<close>

definition lane_step :: "('c, 'o) padded_world \<Rightarrow> ('c, 'o) padded_env \<Rightarrow> nat \<Rightarrow> parsed_action
    \<Rightarrow> ('o owned_transition \<times> events_view) res \<times> 'c lane" where
  "lane_step W s i a = step_one (pw_sim W i) (pw_library W) (encode_floats a) (pv_lanes s ! i)"

definition lanes_stepped :: "('c, 'o) padded_world \<Rightarrow> nat list \<Rightarrow> parsed_action list \<Rightarrow> ('c, 'o) padded_env
    \<Rightarrow> ('c, 'o) padded_env \<Rightarrow> bool" where
  "lanes_stepped W lanes parsed s t \<longleftrightarrow> distinct lanes \<and> length parsed = length lanes \<and>
     t = s\<lparr>pv_lanes := pv_lanes t\<rparr> \<and>
     (\<forall>i < pv_num_envs s. pv_lanes t ! i = (case map_of (zip lanes parsed) i of
        None \<Rightarrow> pv_lanes s ! i | Some a \<Rightarrow> snd (lane_step W s i a)))"

definition steps_gave :: "('c, 'o) padded_world \<Rightarrow> nat list \<Rightarrow> parsed_action list \<Rightarrow> ('c, 'o) padded_env
    \<Rightarrow> 'o padded_step res \<Rightarrow> ('c, 'o) padded_env \<Rightarrow> bool" where
  "steps_gave W lanes parsed s r t \<longleftrightarrow> (case r of
     Inl e \<Rightarrow> \<exists>k < length lanes. fst (lane_step W s (lanes ! k) (parsed ! k)) = Inl e \<and>
       (\<forall>j < k. \<exists>x. fst (lane_step W s (lanes ! j) (parsed ! j)) = Inr x)
   | Inr out \<Rightarrow> \<exists>xs. map (\<lambda>(i, a). fst (lane_step W s i a)) (zip lanes parsed) = map Inr xs \<and>
       out = padded_result t (map (\<lambda>(tr, view). (OwnTransition tr, view)) xs))"

definition step_jobs :: "('c, 'o) padded_world \<Rightarrow> nat list \<Rightarrow> parsed_action list
    \<Rightarrow> (nat \<times> ('c lane, 'o owned_transition \<times> events_view) py) list" where
  "step_jobs W lanes parsed =
     map (\<lambda>(i, a). (i, step_one (pw_sim W i) (pw_library W) (encode_floats a))) (zip lanes parsed)"

lemma step_jobs_pool:
  assumes W: "fair_pool W" and n: "length (pv_lanes s) = pv_num_envs s" and l: "length parsed = length lanes"
    and d: "distinct lanes" "\<forall>i \<in> set lanes. i < pv_num_envs s"
  shows "wp (in_pool W (step_jobs W lanes parsed)) (\<lambda>xs t. lanes_stepped W lanes parsed s t \<and>
      map (\<lambda>(i, a). fst (lane_step W s i a)) (zip lanes parsed) = map Inr xs)
    (\<lambda>e t. lanes_stepped W lanes parsed s t \<and> (\<exists>k < length lanes. fst (lane_step W s (lanes ! k) (parsed ! k)) = Inl e \<and>
       (\<forall>j < k. \<exists>x. fst (lane_step W s (lanes ! j) (parsed ! j)) = Inr x))) s"
proof -
  let ?jobs = "step_jobs W lanes parsed"
  have f: "map fst ?jobs = lanes" using l by (simp add: step_jobs_def comp_def case_prod_unfold)
  have jn: "\<forall>i \<in> fst ` set ?jobs. i < length (pv_lanes s)" unfolding set_map [symmetric] f using d n by simp
  have dj: "distinct (map fst ?jobs)" unfolding f using d by simp
  note sp = in_pool_spec [OF W dj jn]
  have res: "job_results ?jobs (pv_lanes s) = map (\<lambda>(i, a). fst (lane_step W s i a)) (zip lanes parsed)"
    by (simp add: job_results_def step_jobs_def lane_step_def case_prod_unfold)
  have "job_lane ?jobs (pv_lanes s) i = (case map_of (zip lanes parsed) i of
        None \<Rightarrow> pv_lanes s ! i | Some a \<Rightarrow> snd (lane_step W s i a))" for i
  proof (cases "map_of (zip lanes parsed) i")
    case None
    then have "i \<notin> fst ` set ?jobs" unfolding set_map [symmetric] f using l by (simp add: map_of_zip_is_None)
    then show ?thesis using None by simp
  next
    case (Some a)
    then have "(i, step_one (pw_sim W i) (pw_library W) (encode_floats a)) \<in> set ?jobs"
      by (auto simp: step_jobs_def dest: map_of_SomeD)
    from job_lane_run [OF dj this] show ?thesis using Some by (simp add: lane_step_def)
  qed
  then have st: "lanes_stepped W lanes parsed s (s\<lparr>pv_lanes := map (job_lane ?jobs (pv_lanes s)) [0 ..< length (pv_lanes s)]\<rparr>)"
    using d l n by (simp add: lanes_stepped_def)
  show ?thesis
  proof (cases "rmap (\<lambda>r. r) (job_results ?jobs (pv_lanes s))")
    case (Inl e)
    then obtain k where k: "k < length lanes" "fst (lane_step W s (lanes ! k) (parsed ! k)) = Inl e"
      "\<forall>j < k. \<exists>x. fst (lane_step W s (lanes ! j) (parsed ! j)) = Inr x"
      unfolding res rmap_id_Inl using l by auto
    then show ?thesis unfolding wp_def sp Inl using st by auto
  next
    case (Inr xs)
    then have "map (\<lambda>(i, a). fst (lane_step W s i a)) (zip lanes parsed) = map Inr xs"
      unfolding res rmap_id_Inr by simp
    then show ?thesis unfolding wp_def sp Inr using st by auto
  qed
qed

lemma lane_indices_length: "lane_indices n op indices = Inr lanes \<Longrightarrow> length lanes = length indices"
  by (auto simp: lane_indices_def Let_def split: if_splits)

lemma step_many_wp:
  assumes W: "fair_pool W" and n: "length (pv_lanes s) = pv_num_envs s"
    and Q: "\<And>lanes parsed r t. lane_indices (pv_num_envs s) ''step'' indices = Inr lanes \<Longrightarrow>
      rmap parse_action actions = Inr parsed \<Longrightarrow> lanes_stepped W lanes parsed s t \<Longrightarrow>
      steps_gave W lanes parsed s r t \<Longrightarrow> (case r of Inl e \<Rightarrow> E e t | Inr x \<Rightarrow> Q x t)"
    and E: "\<And>e. E e s"
  shows "wp (step_many W indices actions) Q E s"
proof -
  have main: "wp (pbind (in_pool W (step_jobs W lanes parsed))
       (\<lambda>results. pget (\<lambda>s. padded_result s (map (\<lambda>(t, view). (OwnTransition t, view)) results)))) Q E s"
    if i: "lane_indices (pv_num_envs s) ''step'' indices = Inr lanes" and p: "rmap parse_action actions = Inr parsed"
      and l: "length indices = length actions" for lanes parsed
  proof -
    have l': "length parsed = length lanes" using rmap_length [OF p] lane_indices_length [OF i] l by simp
    note d = lane_indices_distinct [OF i]
    show ?thesis
      unfolding wp_pbind wp_pget
    proof (rule wp_mono [OF step_jobs_pool [OF W n l' conjunct1 [OF d] conjunct2 [OF d]]], goal_cases)
      case (1 xs t)
      then show ?case using Q [OF i p, of t "Inr (padded_result t (map (\<lambda>(tr, view). (OwnTransition tr, view)) xs))"]
        unfolding steps_gave_def sum.case by blast
    next
      case (2 e t)
      then show ?case using Q [OF i p, of t "Inl e"] unfolding steps_gave_def sum.case by blast
    qed
  qed
  have o': "wp pv_require_open (\<lambda>_ t. t = s) (\<lambda>_ t. t = s) s"
    by (simp add: pv_require_open_def wp_pbind wp_pget wp_pguard)
  have r: "wp (reset_lanes op ls) (\<lambda>_ t. t = s) (\<lambda>_ t. t = s) s" for op ls
    by (simp add: reset_lanes_def wp_pbind wp_pget wp_pguard)
  show ?thesis
    unfolding step_many_def step_jobs_def [symmetric] wp_pbind [of pv_require_open]
  proof (rule wp_mono [OF o'], goal_cases)
    case (1 x u)
    have "wp (pbind (reset_lanes ''step'' lanes) (\<lambda>_. pbind (plift (rmap parse_action actions)) (\<lambda>parsed.
      pbind (pguard (\<not> list_all cursor_finite parsed) (value_error ''cursor coordinates must be finite'')) (\<lambda>_.
      pbind (in_pool W (step_jobs W lanes parsed))
       (\<lambda>results. pget (\<lambda>s. padded_result s (map (\<lambda>(t, view). (OwnTransition t, view)) results))))))) Q E s"
      if "lane_indices (pv_num_envs s) ''step'' indices = Inr lanes" "length indices = length actions" for lanes
      unfolding wp_pbind [of "reset_lanes _ _"]
      by (rule wp_mono [OF r]; cases "rmap parse_action actions")
        (use main [OF that(1) _ that(2)] E in \<open>simp_all add: wp_pbind [of "plift _"] wp_plift wp_pbind [of "pguard _ _"] wp_pguard\<close>)
    then show ?case
      using E 1 by (cases "lane_indices (pv_num_envs s) ''step'' indices")
        (simp_all add: wp_pbind [of "pguard (length _ \<noteq> _) _"] wp_pguard wp_pbind [of "pget pv_num_envs"] wp_pget
          wp_pbind [of "plift (lane_indices _ _ _)"] wp_plift)
  qed (simp add: E)
qed

end
