(* ===== verification/Padded_Demo.thy ===== *)
theory Padded_Demo
  imports Padded_Subsets Exact_Sim_Demo
begin

text \<open>
  Concrete worlds for the witnesses: a C library that counts its steps, a padded environment of two exact
  lanes whose pool runs its jobs backwards, and a validated response to a padded step.
\<close>

section \<open>A world for the witnesses\<close>

definition demo_native :: "(nat, unit) native_library" where
  "demo_native = \<lparr>nl_blank = \<lparr>nt_observation = (), nt_reward = 0, nt_event_count = 0, nt_config_hash = 5,
       nt_terminated = False, nt_truncated = False, nt_invalid_action = False\<rparr>,
     nl_padded_reset = (\<lambda>c n. (True, (), nat n)),
     nl_padded_step = (\<lambda>c a. (True, \<lparr>nt_observation = (), nt_reward = int c, nt_event_count = 1, nt_config_hash = 5,
       nt_terminated = False, nt_truncated = False, nt_invalid_action = False\<rparr>, Suc c)),
     nl_padded_step_batch = (\<lambda>cs as ts w. (False, [], ts, cs)),
     nl_padded_events = (\<lambda>c n. (True, [], c)), nl_padded_observation = (\<lambda>c. (True, (), c)),
     nl_snapshot_size = (\<lambda>c. 1), nl_snapshot_write = (\<lambda>c. (True, [0])), nl_snapshot_restore = (\<lambda>c b. (True, c)),
     nl_state_hash = int, nl_config_hash = (\<lambda>c. 5), nl_configure = (\<lambda>c vs. (True, 0)), nl_reset = (\<lambda>c n. (True, nat n)),
     nl_step = (\<lambda>c a. (True, Suc c)), nl_observation_json = (\<lambda>c. (Some [], c)), nl_step_json = (\<lambda>c. (Some [], c)),
     nl_config_json = (\<lambda>c. (None, c)), nl_build_info = Some [], nl_json = (\<lambda>b. Some (JObj []))\<rparr>"

definition demo_padded :: "(nat, unit) padded_world" where
  "demo_padded = \<lparr>pw_sim = (\<lambda>_. demo_world demo_scripts), pw_library = demo_native,
     pw_create = (\<lambda>i. Inr \<lparr>ns_handle = Some 0, ns_generation = 0, ns_library = 0\<rparr>), pw_executor = None, pw_cpus = 4,
     pw_order = (\<lambda>ls n. rev [0 ..< n]), pw_poller = (\<lambda>ls. None), pw_fileno = (\<lambda>i x. Inr (int i)),
     pw_register = (\<lambda>ls d. None), pw_poll = (\<lambda>ls fds. Inr fds), pw_unregister = (\<lambda>ls d. None)\<rparr>"

definition demo_lanes :: "(nat, unit) padded_env" where
  "demo_lanes = \<lparr>pv_exact = True, pv_num_envs = 2, pv_workers = 1, pv_executor = True, pv_poisoned = False,
     pv_lanes = [ExactLane demo_sim, ExactLane demo_sim], pv_has_reset = [True, True], pv_config_hashes = [5, 5],
     pv_transition_buffers = replicate 2 (replicate 2 blank_transition), pv_transition_slot = 0,
     pv_observation_buffers = replicate 2 (replicate 2 blank_observation), pv_observation_slot = 0,
     pv_batch_buffers = None\<rparr>"

definition demo_actions :: "action_arg list" where
  "demo_actions = replicate 2 (ActionMapping (Some (KindMember 2)) None None None)"

lemma demo_polling: "fair_pool demo_padded" "polls_end demo_padded" "polling_works demo_padded"
  by (auto simp: fair_pool_def polls_end_def polling_works_def demo_padded_def)

lemma demo_shape: "exact_shape demo_lanes" "length (pv_lanes demo_lanes) = 2" "pv_num_envs demo_lanes = 2"
  by (simp_all add: exact_shape_def demo_lanes_def list_all_iff)

lemma demo_checks: "step_checks (Some demo_actions) demo_lanes = (Inr (replicate 2 (2, 0, 0, 1)), demo_lanes)"
  by (simp add: step_checks_def pv_require_open_def pv_items_def pbind_def pget_def pguard_def pret_def plift_def
      demo_lanes_def demo_actions_def numeral_2_eq_2 parse_action_def check_action_def parse_kind_def
      cursor_finite_def encode_floats_def UINT32_def)

lemma demo_rejected: "restore_state_typed (demo_world f) [] demo_sim =
    (Inl (native_error ''exact snapshot is shorter than its versioned header''), demo_sim)"
  by (simp add: restore_state_typed_def decode_snapshot_def pbind_def pguard_def praise_def SNAPSHOT_PREFIX_SIZE_def)

section \<open>A padded response\<close>

definition demo_padded_bytes :: "byte list" where
  "demo_padded_bytes = demo_obs_bytes @ pack TRANSITION demo_trans_values @ pack EVENT_GENERATION [7]"

lemma demo_validated: "validate_raw_padded_transition demo_padded_bytes = Inr (112, 5, 7)"
proof -
  have l: "length (pack TRANSITION demo_trans_values) = 84"
    by (subst pack_length) (simp_all add: TRANSITION_def fmt_size_def sum_list_replicate demo_trans_values_def)
  have f: "fmt_size TRANSITION = 84" "fmt_size EVENT_GENERATION = 8"
    by (simp_all add: TRANSITION_def EVENT_GENERATION_def fmt_size_def sum_list_replicate)
  have g: "unpack EVENT_GENERATION (pack EVENT_GENERATION [7] @ []) = [7]"
    by (rule unpack_pack) (simp add: EVENT_GENERATION_def)
  have gl: "length (pack EVENT_GENERATION [7]) = 8"
    by (subst pack_length) (simp_all add: EVENT_GENERATION_def fmt_size_def)
  have u: "unpack OBSERVATION_HEADER demo_padded_bytes = replicate 20 0"
    unfolding demo_padded_bytes_def demo_obs_bytes_def
    by (rule unpack_pack) (simp add: OBSERVATION_HEADER_def numeral_eq_Suc)
  have "drop 112 demo_padded_bytes = pack TRANSITION demo_trans_values @ pack EVENT_GENERATION [7]"
    unfolding demo_padded_bytes_def using demo_obs(3) by simp
  moreover have "unpack TRANSITION (pack TRANSITION demo_trans_values @ pack EVENT_GENERATION [7]) = demo_trans_values"
    using unpack_append [of TRANSITION "pack TRANSITION demo_trans_values"] l f(1) demo_trans_values_unpack by simp
  ultimately have t: "unpack_from TRANSITION demo_padded_bytes 112 = demo_trans_values" by simp
  have "drop 196 demo_padded_bytes = pack EVENT_GENERATION [7] @ []"
    unfolding demo_padded_bytes_def using demo_obs(3) l by simp
  with g have e: "unpack_from EVENT_GENERATION demo_padded_bytes 196 = [7]" by (simp only:)
  have n: "length demo_padded_bytes = 204" unfolding demo_padded_bytes_def using demo_obs(3) l gl by simp
  have d: "decode_observation demo_padded_bytes 0 = Inr (demo_observation, 112)"
    unfolding demo_padded_bytes_def by (rule demo_obs(1))
  have hd: "replicate 20 (0 :: int) ! 16 = 0" "replicate 20 (0 :: int) ! 17 = 0" by (subst nth_replicate; simp)+
  have tv: "demo_trans_values ! 12 = 0" "demo_trans_values ! 13 = 0" "demo_trans_values ! 2 = 5"
    by (simp_all add: demo_trans_values_def)
  have a: "112 + 84 = (196 :: nat)" "196 + 8 = (204 :: nat)" by simp_all
  show ?thesis
    unfolding validate_raw_padded_transition_def raw_observation_agrees d
    by (simp only: rbind_simps prod.case u t f n a e hd tv Let_def) simp
qed

end
