(* ===== verification/Curriculum_Padded.thy ===== *)
theory Curriculum_Padded
  imports Curriculum_Init_Props Padded_Demo
begin

text \<open>
  The vector environment the initializer is used with: \<open>PaddedVectorEnv\<close> on the exact backend meets the
  contract under which the initializer was shown to be a transaction.
\<close>

section \<open>PaddedVectorEnv as an environment\<close>

text \<open>What \<open>_observation_identity\<close> reads of an observation that \<open>restore_many\<close> returned; \<open>native\<close> reads one
  of the portable simulator.\<close>

definition observed :: "('o \<Rightarrow> snapshot_obs) \<Rightarrow> 'o observation_ref \<Rightarrow> snapshot_obs" where
  "observed native r = (case r of
     OwnObservation (OwnedExact m) \<Rightarrow> (let x = observation_view m in
       \<lparr>ob_tick = PyInt (xo_tick x), ob_score = PyInt (xo_score x), ob_gauge_max = PyInt (xo_gauge_max x),
        ob_over = (xo_terminated x \<or> xo_truncated x)\<rparr>)
   | OwnObservation (OwnedNative v) \<Rightarrow> native v
   | _ \<Rightarrow> \<lparr>ob_tick = PyNone, ob_score = PyNone, ob_gauge_max = PyNone, ob_over = False\<rparr>)"

definition lane_args :: "nat list \<Rightarrow> pyval list option" where
  "lane_args ls = Some (map (\<lambda>i. PyInt (int i)) ls)"

text \<open>\<open>runtime\<close> is the digest that \<open>attest_simulator_runtime\<close> measures.\<close>

definition padded_lane_env :: "('c, 'o) padded_world \<Rightarrow> (('c, 'o) padded_env \<Rightarrow> string res) \<Rightarrow> ('o \<Rightarrow> snapshot_obs)
    \<Rightarrow> ('c, 'o) padded_env lane_env" where
  "padded_lane_env W runtime native = \<lparr>le_runtime = (\<lambda>w. (runtime w, w)),
     le_config_hash_many = (\<lambda>ls. config_hash_many (lane_args ls)),
     le_clone_state_many = (\<lambda>ls. clone_state_many W (lane_args ls)),
     le_restore_many = (\<lambda>ls bs. pbind (restore_many W (lane_args ls) (Some (map Some bs))) (\<lambda>xs.
       pret (map (observed native) xs))),
     le_state_hash_many = (\<lambda>ls. state_hash_many W (lane_args ls))\<rparr>"

section \<open>What its lanes hold\<close>

definition padded_ok :: "('c, 'o) padded_env \<Rightarrow> bool" where
  "padded_ok s \<longleftrightarrow> length (pv_lanes s) = pv_num_envs s \<and> list_all sound_lane (pv_lanes s)"

text \<open>An exact lane holds a seed and a log of actions, for one configuration of one worker build.\<close>

definition lane_log :: "'c lane \<Rightarrow> (int option \<times> byte list list \<times> byte list \<times> int) option" where
  "lane_log l = (case l of
     ExactLane x \<Rightarrow> Some (xs_seed x, xs_actions x, xs_identity x, xs_config_hash x) | NativeLane _ \<Rightarrow> None)"

definition padded_held where
  "padded_held s = (pv_has_reset s, map lane_log (pv_lanes s))"

lemma same_log_held: "same_log_lane l l' \<Longrightarrow> lane_log l' = lane_log l"
  by (auto simp: same_log_lane_def same_log_def lane_log_def)

lemma mark_reset_marked: "\<forall>i \<in> set lanes. bs ! i \<Longrightarrow> mark_reset lanes bs = bs"
proof (induction lanes arbitrary: bs)
  case (Cons i lanes)
  then have "bs[i := True] = bs" by (metis list.set_intros(1) list_update_id)
  with Cons show ?case by (simp add: mark_reset_def)
qed (simp add: mark_reset_def)

section \<open>A restore that returns\<close>

definition lanes_restored :: "('c, 'o) padded_world \<Rightarrow> nat list \<Rightarrow> byte list list \<Rightarrow> ('c, 'o) padded_env
    \<Rightarrow> ('c, 'o) padded_env \<Rightarrow> bool" where
  "lanes_restored W lanes bs s t \<longleftrightarrow> length bs = length lanes \<and>
     t = s\<lparr>pv_lanes := pv_lanes t, pv_has_reset := mark_reset lanes (pv_has_reset s)\<rparr> \<and>
     length (pv_lanes t) = length (pv_lanes s) \<and>
     (\<forall>i < length (pv_lanes s). i \<notin> set lanes \<longrightarrow> pv_lanes t ! i = pv_lanes s ! i) \<and>
     (\<forall>k < length lanes. \<exists>v. restore_one (pw_sim W (lanes ! k)) (pw_library W) (bs ! k) (pv_lanes s ! (lanes ! k)) =
        (Inr v, pv_lanes t ! (lanes ! k)))"

lemma pool_restored:
  assumes W: "fair_pool W" and b: "length bs = length lanes" and d: "distinct lanes"
    and n: "\<forall>i \<in> set lanes. i < length (pv_lanes s)" and r: "in_pool W (restore_jobs W lanes bs) s = (Inr xs, t)"
  shows "lanes_restored W lanes bs s (t\<lparr>pv_has_reset := mark_reset lanes (pv_has_reset t)\<rparr>)"
proof -
  note f = restore_pool [OF W b d n r]
  have t: "t = s\<lparr>pv_lanes := pv_lanes t\<rparr>" using f by blast
  have h: "pv_has_reset t = pv_has_reset s" by (subst t) simp
  have one: "\<exists>v. restore_one (pw_sim W (lanes ! k)) (pw_library W) (bs ! k) (pv_lanes s ! (lanes ! k)) =
      (Inr v, pv_lanes t ! (lanes ! k))" if "k < length lanes" for k
    using f that by (metis prod.collapse)
  have "t\<lparr>pv_has_reset := mark_reset lanes (pv_has_reset t)\<rparr> =
      s\<lparr>pv_lanes := pv_lanes t, pv_has_reset := mark_reset lanes (pv_has_reset s)\<rparr>"
    unfolding h by (subst t) simp
  with f one b show ?thesis by (simp add: lanes_restored_def)
qed

lemma restore_many_returns:
  assumes W: "fair_pool W" and s: "padded_ok s"
  shows "wp (restore_many W indices snapshots) (\<lambda>_ t. \<exists>lanes bs. subset_indices (pv_num_envs s) indices = Inr lanes \<and>
    snapshots = Some (map Some bs) \<and> lanes_restored W lanes bs s t) (\<lambda>_ _. True) s"
proof -
  let ?Q = "\<lambda>t. \<exists>lanes bs. subset_indices (pv_num_envs s) indices = Inr lanes \<and>
    snapshots = Some (map Some bs) \<and> lanes_restored W lanes bs s t"
  have main: "wp (pbind (at_lanes (\<lambda>i. lane_clone (pw_sim W i) (pw_library W)) lanes) (\<lambda>backups.
       pbind (pget (\<lambda>s. map (\<lambda>i. pv_has_reset s ! i) lanes)) (\<lambda>prior.
       pbind (pcatch_base (in_pool W (restore_jobs W lanes bs)) (roll_back W lanes backups prior)) (\<lambda>observations.
       pbind (pmod (\<lambda>s. s\<lparr>pv_has_reset := mark_reset lanes (pv_has_reset s)\<rparr>)) (\<lambda>_.
       plift (rmap hand_out observations)))))) (\<lambda>_. ?Q) (\<lambda>_ _. True) s"
    if i: "subset_indices (pv_num_envs s) indices = Inr lanes" and b: "length bs = length lanes"
      and sn: "snapshots = Some (map Some bs)" for lanes bs
  proof -
    note d = subset_lanes [OF i]
    have n: "\<forall>i \<in> set lanes. i < length (pv_lanes s)" using d s by (simp add: padded_ok_def)
    then have l: "\<forall>i \<in> set lanes. sound_lane (pv_lanes s ! i)" using s by (simp add: padded_ok_def list_all_length)
    have cl: "wp (at_lanes (\<lambda>i. lane_clone (pw_sim W i) (pw_library W)) lanes) (\<lambda>_ u. u = s) (\<lambda>_ _. True) s"
    proof (rule wpI)
      fix x t assume "at_lanes (\<lambda>i. lane_clone (pw_sim W i) (pw_library W)) lanes s = (Inr x, t)"
      from at_lanes_clone [OF l this] show "t = s" by blast
    qed simp
    have rb: "wp (roll_back W lanes backups prior e) (\<lambda>_ _. False) (\<lambda>_ _. True) u" for backups prior e u
      by (auto simp: roll_back_def wp_pbind wp_pcatch_base wp_pmod wp_praise intro!: wp_any)
    have pool: "wp (pcatch_base (in_pool W (restore_jobs W lanes bs)) (roll_back W lanes backups prior))
        (\<lambda>_ u. ?Q (u\<lparr>pv_has_reset := mark_reset lanes (pv_has_reset u)\<rparr>)) (\<lambda>_ _. True) s" for backups prior
      unfolding wp_pcatch_base
    proof (rule wpI, goal_cases)
      case (1 x t)
      from pool_restored [OF W b conjunct1 [OF d] n 1] i sn show ?case by blast
    next
      case (2 e t)
      show ?case by (rule wp_mono [OF rb]) auto
    qed
    show ?thesis
      unfolding wp_pbind [of "at_lanes _ _"]
    proof (rule wp_mono [OF cl], goal_cases)
      case (1 backups u)
      show ?case
        unfolding wp_pbind [of "pget _"] wp_pget wp_pbind [of "pcatch_base _ _"] \<open>u = s\<close>
        by (rule wp_mono [OF pool]) (auto simp: wp_pbind wp_pmod wp_plift split: sum.split)
    qed simp
  qed
  have none: "?Q s" if "subset_indices (pv_num_envs s) indices = Inr []" "snapshots = Some []"
    using that by (intro exI [of _ "[]"]) (simp add: lanes_restored_def mark_reset_def)
  have guards: "wp pv_require_open (\<lambda>_ t. t = s) (\<lambda>_ t. t = s) s"
    by (simp add: pv_require_open_def wp_pbind wp_pget wp_pguard)
  have all: "\<exists>bs. sn = map Some bs" if no: "None \<notin> set sn" for sn :: "byte list option list"
  proof -
    have "Some (the x) = x" if "x \<in> set sn" for x using that no by (metis option.collapse)
    then have "map Some (map the sn) = sn" by (simp add: comp_def map_idI)
    then show ?thesis by metis
  qed
  have the_some: "map the (map Some bs) = bs" for bs :: "byte list list" by (simp add: comp_def)
  show ?thesis
    unfolding restore_many_def wp_pbind [of pv_require_open]
  proof (rule wp_mono [OF guards], goal_cases)
    case (1 x t)
    have "wp (if lanes = [] then pret [] else
       pbind (at_lanes (\<lambda>i. lane_clone (pw_sim W i) (pw_library W)) lanes) (\<lambda>backups.
       pbind (pget (\<lambda>s. map (\<lambda>i. pv_has_reset s ! i) lanes)) (\<lambda>prior.
       pbind (pcatch_base (in_pool W (restore_jobs W lanes (map the sn))) (roll_back W lanes backups prior)) (\<lambda>observations.
       pbind (pmod (\<lambda>s. s\<lparr>pv_has_reset := mark_reset lanes (pv_has_reset s)\<rparr>)) (\<lambda>_.
       plift (rmap hand_out observations)))))) (\<lambda>_. ?Q) (\<lambda>_ _. True) s"
      if i: "subset_indices (pv_num_envs s) indices = Inr lanes" and l: "length sn = length lanes"
        and no: "None \<notin> set sn" and sn: "snapshots = Some sn" for lanes sn
    proof (cases "lanes = []")
      case True
      then show ?thesis using none i l sn by (simp add: wp_pret)
    next
      case False
      obtain bs where bs: "sn = map Some bs" using all [OF no] by blast
      have "length bs = length lanes" using l bs by simp
      from main [OF i this] sn bs False show ?thesis by (simp only: the_some if_False)
    qed
    then show ?case using 1
      by (auto simp: wp_pbind [of "pget _"] wp_pget wp_pbind [of "plift _"] wp_plift wp_pbind [of "pguard _ _"]
          wp_pguard wp_praise split: sum.split option.split simp del: wp_if if_split)
  qed simp
qed

text \<open>A restored lane is sound again, whatever the snapshot.\<close>

lemma restored_sound:
  assumes "sound_lane l" "restore_one W L b l = (Inr v, l')"
  shows "sound_lane l'"
proof -
  obtain x where x: "l = ExactLane x" "sim_inv x" "length (xs_identity x) = 32" "uint64 (xs_config_hash x)"
    using assms(1) by (auto simp: sound_lane_def)
  obtain obs y where y: "restore_state_typed W b x = (Inr obs, y)" "l' = ExactLane y"
    using assms(2) by (auto simp: restore_one_def on_lane_def x pbind_def pret_def split: sum.splits prod.splits)
  have "sim_inv y" using restore_inv [of W b] x(2) y(1) unfolding keeps_def by (metis snd_conv)
  moreover have "xs_identity y = xs_identity x" "xs_config_hash y = xs_config_hash x"
    using restore_keeps_identity [OF y(1)] by simp_all
  moreover have "uint64 (int (length (xs_actions y)))"
  proof -
    obtain seed acts obs' where d: "decode_snapshot W b x = (Inr (seed, acts), x)"
      "same_world (restore_commit (length (xs_clients x)) seed acts obs' x) y"
      using wp_resultD [OF restore_wp y(1)] unfolding restored_def by blast
    then have "xs_actions y = acts" by (simp add: same_world_def restore_commit_def)
    with decoded_snapshot [OF d(1)] show ?thesis by simp
  qed
  ultimately show ?thesis using x y(2) by (simp add: sound_lane_def)
qed

lemma restored_ok_env:
  assumes "padded_ok s" "lanes_restored W lanes bs s t" "\<forall>i \<in> set lanes. i < pv_num_envs s"
  shows "padded_ok t \<and> pv_num_envs t = pv_num_envs s"
proof -
  have t: "t = s\<lparr>pv_lanes := pv_lanes t, pv_has_reset := mark_reset lanes (pv_has_reset s)\<rparr>"
    using assms(2) by (simp add: lanes_restored_def)
  have n: "pv_num_envs t = pv_num_envs s" by (subst t) simp
  have "sound_lane (pv_lanes t ! i)" if i: "i < length (pv_lanes s)" for i
  proof (cases "i \<in> set lanes")
    case True
    then obtain k where k: "k < length lanes" "i = lanes ! k" by (auto simp: in_set_conv_nth)
    with assms(2) obtain v where "restore_one (pw_sim W i) (pw_library W) (bs ! k) (pv_lanes s ! i) = (Inr v, pv_lanes t ! i)"
      unfolding lanes_restored_def by blast
    with assms(1) i show ?thesis by (auto simp: padded_ok_def list_all_length intro: restored_sound)
  next
    case False
    with assms(1,2) i show ?thesis by (simp add: lanes_restored_def padded_ok_def list_all_length)
  qed
  with assms(1,2) n show ?thesis by (simp add: padded_ok_def lanes_restored_def list_all_length)
qed

section \<open>The contract\<close>

lemma sound_lane_hash:
  assumes "sound_lane l" shows "snd (lane_state_hash W L l) = l"
proof -
  obtain x where x: "l = ExactLane x" using assms by (auto simp: sound_lane_def)
  have "wp (state_hash W) (\<lambda>_ t. t = x) (\<lambda>_ t. t = x) x"
    unfolding state_hash_def wp_pbind wp_require_open wp_pget
    by (auto simp: wp_praise wp_pret split: option.split)
  then have "snd (state_hash W x) = x" by (auto simp: wp_def split: prod.splits sum.splits)
  then show ?thesis by (auto simp: lane_state_hash_def on_lane_def x split: prod.split)
qed

lemma at_lanes_reads:
  assumes "\<forall>i \<in> set lanes. snd (m i (pv_lanes s ! i)) = pv_lanes s ! i"
  shows "snd (at_lanes m lanes s) = s"
  using assms
proof (induction lanes)
  case (Cons i lanes)
  then have "snd (at_lane i (m i) s) = s" by (auto simp: at_lane_def split: prod.split)
  with Cons show ?case by (auto simp: pbind_def pret_def split: sum.splits prod.splits)
qed (simp add: pret_def)

lemma clone_many_wp:
  assumes s: "padded_ok s"
  shows "wp (clone_state_many W indices) (\<lambda>bs t. t = s \<and> (\<exists>lanes. subset_indices (pv_num_envs s) indices = Inr lanes \<and>
      length bs = length lanes \<and> (\<forall>i \<in> set lanes. pv_has_reset s ! i) \<and> (\<forall>k < length lanes.
        lane_clone (pw_sim W (lanes ! k)) (pw_library W) (pv_lanes s ! (lanes ! k)) = (Inr (bs ! k), pv_lanes s ! (lanes ! k)))))
    (\<lambda>_ t. t = s) s"
proof -
  have cl: "wp (at_lanes (\<lambda>i. lane_clone (pw_sim W i) (pw_library W)) lanes) (\<lambda>bs t. t = s \<and> length bs = length lanes \<and>
      (\<forall>k < length lanes. lane_clone (pw_sim W (lanes ! k)) (pw_library W) (pv_lanes s ! (lanes ! k)) =
        (Inr (bs ! k), pv_lanes s ! (lanes ! k)))) (\<lambda>_ t. t = s) s"
    if i: "subset_indices (pv_num_envs s) indices = Inr lanes" for lanes
  proof -
    have l: "\<forall>i \<in> set lanes. sound_lane (pv_lanes s ! i)"
      using subset_lanes [OF i] s by (simp add: padded_ok_def list_all_length)
    show ?thesis by (rule wpI) (use at_lanes_clone [OF l] in blast)+
  qed
  show ?thesis
    by (auto simp: clone_state_many_def pv_require_open_def reset_lanes_def wp_pbind wp_pget wp_pguard wp_plift list_ex_iff
        split: sum.split intro!: wp_mono [OF cl])
qed

lemma hash_many_reads: "padded_ok s \<Longrightarrow> reads_at (state_hash_many W indices) s"
proof -
  assume s: "padded_ok s"
  have h: "wp (at_lanes (\<lambda>i. lane_state_hash (pw_sim W i) (pw_library W)) lanes) (\<lambda>_ t. t = s) (\<lambda>_ t. t = s) s"
    if i: "subset_indices (pv_num_envs s) indices = Inr lanes" for lanes
  proof -
    have "\<forall>i \<in> set lanes. sound_lane (pv_lanes s ! i)"
      using subset_lanes [OF i] s by (simp add: padded_ok_def list_all_length)
    then have "snd (at_lanes (\<lambda>i. lane_state_hash (pw_sim W i) (pw_library W)) lanes s) = s"
      by (intro at_lanes_reads) (simp add: sound_lane_hash)
    then show ?thesis by (auto simp: wp_def split: prod.splits sum.splits)
  qed
  have "wp (state_hash_many W indices) (\<lambda>_ t. t = s) (\<lambda>_ t. t = s) s"
    by (auto simp: state_hash_many_def pv_require_open_def reset_lanes_def wp_pbind wp_pget wp_pguard wp_plift
        split: sum.split intro!: h)
  then show ?thesis unfolding reads_at_def wp_def by (auto split: prod.splits sum.splits)
qed

lemma config_many_reads: "reads_at (config_hash_many indices) s"
proof -
  have "wp (config_hash_many indices) (\<lambda>_ t. t = s) (\<lambda>_ t. t = s) s"
    by (auto simp: config_hash_many_def pv_require_open_def wp_pbind wp_pget wp_pguard wp_plift split: sum.split)
  then show ?thesis unfolding reads_at_def wp_def by (auto split: prod.splits sum.splits)
qed

text \<open>A restore that raised.\<close>

lemma rolled_back_held: "rolled_back lanes s t \<Longrightarrow> padded_held t = padded_held s \<or> pv_poisoned t"
proof -
  assume r: "rolled_back lanes s t"
  show ?thesis
  proof (cases "pv_poisoned t")
    case False
    then have t: "t = s\<lparr>pv_lanes := pv_lanes t\<rparr>"
      and l: "\<forall>i \<in> set lanes. same_log_lane (pv_lanes s ! i) (pv_lanes t ! i)"
      using r unfolding rolled_back_def by (metis padded_env.select_convs(5) padded_env.surjective padded_env.update_convs(5))+
    have "lane_log (pv_lanes t ! i) = lane_log (pv_lanes s ! i)" if "i < length (pv_lanes s)" for i
      using r l that by (cases "i \<in> set lanes") (simp_all add: rolled_back_def same_log_held)
    then have "map lane_log (pv_lanes t) = map lane_log (pv_lanes s)"
      using r by (simp add: rolled_back_def list_eq_iff_nth_eq)
    moreover have "pv_has_reset t = pv_has_reset s" by (subst t) simp
    ultimately show ?thesis by (simp add: padded_held_def)
  qed simp
qed

text \<open>Cloned, overwritten, and restored from the clone.\<close>

lemma restored_back_held:
  assumes W: "\<forall>i. digest_32 (pw_sim W i)" and s: "padded_ok s"
    and i: "distinct lanes" "\<forall>i \<in> set lanes. i < pv_num_envs s" "\<forall>i \<in> set lanes. pv_has_reset s ! i"
    and c: "\<forall>k < length lanes. lane_clone (pw_sim W (lanes ! k)) (pw_library W) (pv_lanes s ! (lanes ! k)) =
      (Inr (bs ! k), pv_lanes s ! (lanes ! k))"
    and one: "lanes_restored W lanes snaps s t" and two: "lanes_restored W lanes bs t u"
  shows "padded_held u = padded_held s"
proof -
  have l: "length (pv_lanes u) = length (pv_lanes s)" using one two by (simp add: lanes_restored_def)
  have "lane_log (pv_lanes u ! i) = lane_log (pv_lanes s ! i)" if n: "i < length (pv_lanes s)" for i
  proof (cases "i \<in> set lanes")
    case True
    then obtain k where k: "k < length lanes" "i = lanes ! k" by (auto simp: in_set_conv_nth)
    let ?r = "restore_one (pw_sim W i) (pw_library W)"
    obtain v where v: "?r (snaps ! k) (pv_lanes s ! i) = (Inr v, pv_lanes t ! i)"
      using one k unfolding lanes_restored_def by blast
    obtain v' where v': "?r (bs ! k) (pv_lanes t ! i) = (Inr v', pv_lanes u ! i)"
      using two k unfolding lanes_restored_def by blast
    have "same_log_lane (pv_lanes s ! i) (pv_lanes u ! i)"
      by (rule rolled_back_lane [OF _ _ _ v v']) (use W s c k n in \<open>simp_all add: padded_ok_def list_all_length\<close>)
    then show ?thesis by (rule same_log_held)
  next
    case False
    with one two n show ?thesis by (simp add: lanes_restored_def)
  qed
  then have "map lane_log (pv_lanes u) = map lane_log (pv_lanes s)" using l by (simp add: list_eq_iff_nth_eq)
  moreover have "pv_has_reset u = pv_has_reset s"
  proof -
    have t: "t = s\<lparr>pv_lanes := pv_lanes t, pv_has_reset := mark_reset lanes (pv_has_reset s)\<rparr>"
      and u: "u = t\<lparr>pv_lanes := pv_lanes u, pv_has_reset := mark_reset lanes (pv_has_reset t)\<rparr>"
      using one two by (simp_all add: lanes_restored_def)
    have "pv_has_reset t = pv_has_reset s" by (subst t) (simp add: mark_reset_marked i(3))
    then show ?thesis by (subst u) (simp add: mark_reset_marked i(3))
  qed
  ultimately show ?thesis by (simp add: padded_held_def)
qed

text \<open>The contract, for exact lanes: whatever order the pool runs the lanes in and whatever the workers
  answer.  What the lanes hold is their flags, seeds, logs, builds and configurations; the environment
  fails closed by poisoning itself.\<close>

theorem padded_contract:
  assumes W: "fair_pool W" "\<forall>i. digest_32 (pw_sim W i)"
  shows "env_contract padded_ok padded_held pv_poisoned (padded_lane_env W runtime native)"
proof -
  let ?V = "padded_lane_env W runtime native"
  have returned: "\<exists>lanes. subset_indices (pv_num_envs w) (lane_args ls) = Inr lanes \<and> lanes_restored W lanes bs w w'"
    if r: "le_restore_many ?V ls bs w = (Inr obs, w')" and w: "padded_ok w" for ls bs w obs w'
  proof -
    obtain os where os: "restore_many W (lane_args ls) (Some (map Some bs)) w = (Inr os, w')"
      using r by (auto simp: padded_lane_env_def pbind_def pret_def split: sum.splits prod.splits)
    obtain lanes bs' where "subset_indices (pv_num_envs w) (lane_args ls) = Inr lanes"
      "Some (map Some bs) = Some (map Some bs')" "lanes_restored W lanes bs' w w'"
      using wp_resultD [OF restore_many_returns [OF W(1) w] os] by blast
    moreover from this(2) have "bs' = bs" by (simp add: inj_map_eq_map)
    ultimately show ?thesis by blast
  qed
  have raised: "padded_held w' = padded_held w \<or> pv_poisoned w'"
    if r: "le_restore_many ?V ls bs w = (Inl e, w')" and w: "padded_ok w" for ls bs w e w'
  proof -
    have "restore_many W (lane_args ls) (Some (map Some bs)) w = (Inl e, w')"
      using r by (auto simp: padded_lane_env_def pbind_def pret_def split: sum.splits prod.splits)
    from wp_raiseD [OF restore_many_wp [OF W] this] w show ?thesis
      using rolled_back_held by (auto simp: padded_ok_def)
  qed
  have queries: "reads_at (le_runtime ?V) w" "reads_at (le_config_hash_many ?V ls) w" "reads_at (le_clone_state_many ?V ls) w"
    "reads_at (le_state_hash_many ?V ls) w" if w: "padded_ok w" for w ls
  proof -
    show "reads_at (le_clone_state_many ?V ls) w"
      using wp_resultD [OF clone_many_wp [OF w, of W "lane_args ls"]] wp_raiseD [OF clone_many_wp [OF w, of W "lane_args ls"]]
      unfolding reads_at_def padded_lane_env_def
      by (cases "clone_state_many W (lane_args ls) w"; cases "fst (clone_state_many W (lane_args ls) w)") fastforce+
  qed (use w hash_many_reads config_many_reads in \<open>simp_all add: padded_lane_env_def reads_at_def\<close>)
  have ok: "padded_ok w'" if "le_restore_many ?V ls bs w = (Inr obs, w')" "padded_ok w" for ls bs w obs w'
    using returned [OF that] restored_ok_env [OF that(2)] subset_lanes by blast
  have undo: "padded_held w'' = padded_held w"
    if w: "padded_ok w" and c: "le_clone_state_many ?V ls w = (Inr bs, w)"
      and r: "le_restore_many ?V ls snaps w = (Inr obs, w')" and r': "le_restore_many ?V ls bs w' = (Inr obs', w'')"
    for ls bs snaps w obs w' obs' w''
  proof -
    obtain lanes where i: "subset_indices (pv_num_envs w) (lane_args ls) = Inr lanes" and one: "lanes_restored W lanes snaps w w'"
      using returned [OF r w] by blast
    note d = subset_lanes [OF i]
    note o' = restored_ok_env [OF w one conjunct2 [OF d]]
    obtain lanes' where "subset_indices (pv_num_envs w') (lane_args ls) = Inr lanes'" "lanes_restored W lanes' bs w' w''"
      using returned [OF r' conjunct1 [OF o']] by blast
    with o' i have two: "lanes_restored W lanes bs w' w''" by simp
    have "clone_state_many W (lane_args ls) w = (Inr bs, w)" using c by (simp add: padded_lane_env_def)
    from wp_resultD [OF clone_many_wp [OF w] this] i have
      "\<forall>i \<in> set lanes. pv_has_reset w ! i" "\<forall>k < length lanes. lane_clone (pw_sim W (lanes ! k)) (pw_library W)
        (pv_lanes w ! (lanes ! k)) = (Inr (bs ! k), pv_lanes w ! (lanes ! k))" by auto
    from restored_back_held [OF W(2) w _ _ this one two] d show ?thesis by blast
  qed
  show ?thesis
    unfolding env_contract_def
    by (intro allI impI conjI) (rule queries raised ok undo; assumption)+
qed

text \<open>So an initialization of a padded environment that raises has changed nothing, or says so.\<close>

lemma padded_initialization_raises:
  assumes "fair_pool W" "\<forall>i. digest_32 (pw_sim W i)" "padded_ok (in_world s)" "ini_ok E s"
    and "initialize E (padded_lane_env W runtime native) k ls d s = Some (Inl e, t)"
  shows "as_before s t \<and> (e = rollback_failed \<or> padded_held (in_world t) = padded_held (in_world s) \<or> pv_poisoned (in_world t))"
  by (rule initialize_cases [OF padded_contract [OF assms(1,2)] assms(3-5)]) (auto simp: kept_lanes_def)

section \<open>A run\<close>

text \<open>Two exact lanes whose curriculum snapshots no worker accepts: the restore raises and rolls itself back,
  and the reservation is given up.\<close>

abbreviation demo_vector :: "(nat, unit) padded_env lane_env" where
  "demo_vector \<equiv> padded_lane_env demo_padded (\<lambda>_. Inr demo_sha)
     (\<lambda>_. \<lparr>ob_tick = PyNone, ob_score = PyNone, ob_gauge_max = PyNone, ob_over = False\<rparr>)"

definition pool_initializer :: "(nat, unit) padded_env initializer" where
  "pool_initializer = \<lparr>in_coord = demo_cur, in_world = Padded_Demo.demo_lanes\<lparr>pv_config_hashes := [1, 1]\<rparr>,
     in_store = in_store demo_initializer, in_pool = ''p'', in_runtime = demo_sha, in_config_hash = 1,
     in_pending = None, in_backups = [], in_attested = {}\<rparr>"

lemma pool_ok: "padded_ok (in_world pool_initializer)" "ini_ok demo_cur_env pool_initializer"
proof -
  show "padded_ok (in_world pool_initializer)"
    using demo_sim_inv by (simp add: pool_initializer_def padded_ok_def Padded_Demo.demo_lanes_def sound_lane_def
        demo_sim_def unbuilt_sim_def uint64_def)
  show "ini_ok demo_cur_env pool_initializer"
    using demo_ini_ok by (simp add: ini_ok_def pool_initializer_def demo_initializer_def)
qed

lemma pool_restore:
  assumes s: "s = Padded_Demo.demo_lanes\<lparr>pv_config_hashes := [1, 1]\<rparr>"
  shows "\<exists>e t. restore_many demo_padded (lane_args [1, 0]) (Some [Some [], Some []]) s = (Inl e, t) \<and> e \<noteq> rollback_failed"
proof -
  have i: "subset_indices (pv_num_envs s) (lane_args [1, 0]) = Inr [1, 0]"
    by (simp add: subset_indices_def lane_args_def s Padded_Demo.demo_lanes_def)
  have c: "at_lanes (\<lambda>i. lane_clone (pw_sim demo_padded i) (pw_library demo_padded)) [1, 0] s =
      (Inr [demo_snapshot, demo_snapshot], s)"
    by (simp add: at_lane_def s Padded_Demo.demo_lanes_def lane_clone_def on_lane_def demo_padded_def demo_clone
        pbind_def pret_def)
  obtain x where p: "in_pool demo_padded (restore_jobs demo_padded [1, 0] [[], []]) s = (Inl x, s)" "x \<noteq> rollback_failed"
    by (simp add: in_pool_def restore_jobs_def demo_padded_def s Padded_Demo.demo_lanes_def run_job_def restore_one_def
        on_lane_def pbind_def demo_rejected rollback_failed_def upt_rec numeral_2_eq_2)
  have b: "\<exists>e t. (roll_back demo_padded [1, 0] [demo_snapshot, demo_snapshot] [True, True] x ::
      ((nat, unit) padded_env, unit lane_obs list) py) s = (Inl e, t) \<and> e \<noteq> rollback_failed"
    using p(2) by (cases "in_pool demo_padded (restore_jobs demo_padded [1, 0] [demo_snapshot, demo_snapshot]) s")
      (auto simp: roll_back_def pbind_def pcatch_base_def pmod_def praise_def rollback_failed_def split: sum.split)
  have f: "\<not> pv_poisoned s" "pv_executor s" "pv_has_reset s = [True, True]" by (simp_all add: s Padded_Demo.demo_lanes_def)
  show ?thesis
    using i c p b f by (auto simp: restore_many_def pbind_def pget_def plift_def pguard_def pret_def pcatch_base_def
          pv_require_open_def simp del: at_lanes.simps)
qed

lemma pool_begins: "begin_initialize demo_vector 3 (Some d) pool_initializer = (Inr (), pool_initializer\<lparr>in_attested := {3}\<rparr>)"
  by (simp add: begin_initialize_def attest_def pbind_def pget_def pguard_def pret_def pwhen_def pmod_def on_world_def
      padded_lane_env_def pool_initializer_def)

lemma pool_place: "initialize demo_cur_env demo_vector 3 [PyInt 1, PyInt 0] (Some d) pool_initializer =
    Some (place_episodes demo_cur_env demo_vector d demo_reservation
      (pool_initializer\<lparr>in_attested := {3}, in_coord := demo_cur\<lparr>cc_outstanding := Some demo_reservation\<rparr>\<rparr>))"
proof -
  have coord: "in_coord (pool_initializer\<lparr>in_attested := {3}\<rparr>) = demo_cur" by (simp add: pool_initializer_def)
  show ?thesis unfolding initialize_def pool_begins prod.case sum.case coord demo_reserves by simp
qed

lemma pool_queries:
  assumes "s = Padded_Demo.demo_lanes\<lparr>pv_config_hashes := [1, 1]\<rparr>"
  shows "config_hash_many (lane_args [1, 0]) s = (Inr [1, 1], s)"
    "clone_state_many demo_padded (lane_args [1, 0]) s = (Inr [demo_snapshot, demo_snapshot], s)"
  by (simp_all add: assms config_hash_many_def clone_state_many_def reset_lanes_def pv_require_open_def subset_indices_def
      lane_args_def Padded_Demo.demo_lanes_def at_lane_def lane_clone_def on_lane_def demo_padded_def demo_clone
      pbind_def pget_def pret_def pguard_def plift_def)

lemma padded_run:
  "\<exists>e t. initialize demo_cur_env demo_vector 3 [PyInt 1, PyInt 0] (Some False) pool_initializer = Some (Inl e, t) \<and>
     as_before pool_initializer t \<and>
     (padded_held (in_world t) = padded_held (in_world pool_initializer) \<or> pv_poisoned (in_world t))"
proof -
  let ?s = "Padded_Demo.demo_lanes\<lparr>pv_config_hashes := [1, 1]\<rparr>"
  obtain e w where r: "restore_many demo_padded (lane_args [1, 0]) (Some [Some [], Some []]) ?s = (Inl e, w)"
    and e: "e \<noteq> rollback_failed" using pool_restore [OF refl] by blast
  have "\<exists>t. initialize demo_cur_env demo_vector 3 [PyInt 1, PyInt 0] (Some False) pool_initializer = Some (Inl e, t)"
    unfolding pool_place
    by (simp add: demo_place_defs pool_initializer_def padded_lane_env_def pool_queries [OF refl, unfolded One_nat_def] r [unfolded One_nat_def] undo_episodes_def
        pattempt_def praise_def on_coord_def rollback_assignments_def del: at_lanes.simps)
  then obtain t where t: "initialize demo_cur_env demo_vector 3 [PyInt 1, PyInt 0] (Some False) pool_initializer = Some (Inl e, t)"
    by blast
  have w: "fair_pool demo_padded" "\<forall>i. digest_32 (pw_sim demo_padded i)"
    by (rule demo_polling(1)) (simp add: demo_padded_def)
  from padded_initialization_raises [OF w pool_ok t] t e show ?thesis by blast
qed

end
