(* ===== verification/Vector_Backend.thy ===== *)
theory Vector_Backend
  imports Actions Seeds Py_Json
begin

text \<open>
  The data of \<open>MacroVectorAdapter\<close> (\<open>irisu_rl/vector_adapter.py\<close>): the tensor schemas and encoded
  batches of \<open>schema.py\<close> and \<open>encoding.py\<close>, what a vector environment returns, and the adapter's
  own fields, the record \<open>adapter\<close>.  The environment, the encoder, the observation transform and the
  episode initializer are parameters, the record \<open>backend\<close> of the calls the adapter makes; the
  state they all keep is the adapter's world.
\<close>

section \<open>Schemas and encoded batches\<close>

text \<open>\<open>TensorSchema\<close> of \<open>schema.py\<close>.\<close>

definition SCHEMA_BODY_CAPACITY :: int where "SCHEMA_BODY_CAPACITY = 196"

record tensor_schema =
  ts_version :: string
  ts_source :: string
  ts_global_features :: "string list"
  ts_body_features :: "string list"
  ts_preprocessing :: "string list"
  ts_capacity :: int

definition mk_tensor_schema :: "tensor_schema \<Rightarrow> tensor_schema res" where
  "mk_tensor_schema s =
     (if ts_source s \<noteq> ''actor_tracks'' \<and> ts_source s \<noteq> ''teacher_state''
      then Inl (value_error ''schema source must be actor_tracks or teacher_state'')
      else if ts_capacity s \<noteq> SCHEMA_BODY_CAPACITY then Inl (value_error ''schema capacity must be 196'')
      else if \<not> distinct (ts_global_features s) then Inl (value_error ''duplicate global feature'')
      else if \<not> distinct (ts_body_features s) then Inl (value_error ''duplicate body feature'')
      else Inr s)"

definition schema_manifest :: "tensor_schema \<Rightarrow> jval" where
  "schema_manifest s = JObj [(''version'', JStr (ts_version s)), (''source'', JStr (ts_source s)),
     (''capacity'', JInt (ts_capacity s)), (''global_features'', json_strs (ts_global_features s)),
     (''body_features'', json_strs (ts_body_features s)),
     (''preprocessing'', json_strs (ts_preprocessing s))]"

text \<open>\<open>EncodedBatch\<close> of \<open>encoding.py\<close>; the first axis of every array is the batch.  The types hold
  what \<open>validate\<close> checks of ranks and dtypes, the definition holds the shapes.\<close>

record encoded_batch =
  eb_global_features :: "pyfloat list list"
  eb_body_features :: "pyfloat list list list"
  eb_body_mask :: "bool list list"
  eb_source_tick :: "64 word list"
  eb_health_flags :: "32 word list"
  eb_schema :: tensor_schema

definition batch_size :: "encoded_batch \<Rightarrow> nat" where
  "batch_size b = length (eb_global_features b)"

definition validate_batch :: "encoded_batch \<Rightarrow> unit res" where
  "validate_batch b = (let batch = batch_size b; s = eb_schema b; cap = ts_capacity s in
     if \<not> list_all (\<lambda>r. length r = length (ts_global_features s)) (eb_global_features b)
     then Inl (value_error ''invalid global feature shape'')
     else if length (eb_body_features b) \<noteq> batch \<or>
       \<not> list_all (\<lambda>r. int (length r) = cap \<and> list_all (\<lambda>f. length f = length (ts_body_features s)) r)
         (eb_body_features b)
     then Inl (value_error ''invalid body feature shape'')
     else if length (eb_body_mask b) \<noteq> batch \<or> \<not> list_all (\<lambda>r. int (length r) = cap) (eb_body_mask b)
     then Inl (value_error ''invalid body mask shape'')
     else if length (eb_source_tick b) \<noteq> batch then Inl (value_error ''invalid source tick shape'')
     else if length (eb_health_flags b) \<noteq> batch then Inl (value_error ''invalid health flag shape'')
     else Inr ())"

text \<open>\<open>row\<close>: the slice \<open>[index : index + 1]\<close> of every array.\<close>

definition batch_row :: "encoded_batch \<Rightarrow> nat \<Rightarrow> encoded_batch" where
  "batch_row b i = b\<lparr>eb_global_features := take 1 (drop i (eb_global_features b)),
     eb_body_features := take 1 (drop i (eb_body_features b)),
     eb_body_mask := take 1 (drop i (eb_body_mask b)),
     eb_source_tick := take 1 (drop i (eb_source_tick b)),
     eb_health_flags := take 1 (drop i (eb_health_flags b))\<rparr>"

text \<open>The in-place assignment of lane \<open>i\<close> from a batch of one.\<close>

definition assign_row :: "encoded_batch \<Rightarrow> nat \<Rightarrow> encoded_batch \<Rightarrow> encoded_batch" where
  "assign_row b i r = b\<lparr>eb_global_features := (eb_global_features b)[i := hd (eb_global_features r)],
     eb_body_features := (eb_body_features b)[i := hd (eb_body_features r)],
     eb_body_mask := (eb_body_mask b)[i := hd (eb_body_mask r)],
     eb_source_tick := (eb_source_tick b)[i := hd (eb_source_tick r)],
     eb_health_flags := (eb_health_flags b)[i := hd (eb_health_flags r)]\<rparr>"

text \<open>\<open>np.array_equal\<close> of two float arrays: a NaN equals nothing.\<close>

definition float_eq :: "pyfloat \<Rightarrow> pyfloat \<Rightarrow> bool" where
  "float_eq x y \<longleftrightarrow> x = y \<and> x \<noteq> NaN"

definition same_tensors :: "encoded_batch \<Rightarrow> encoded_batch \<Rightarrow> bool" where
  "same_tensors a b \<longleftrightarrow> list_all2 (list_all2 float_eq) (eb_global_features a) (eb_global_features b) \<and>
     list_all2 (list_all2 (list_all2 float_eq)) (eb_body_features a) (eb_body_features b) \<and>
     eb_body_mask a = eb_body_mask b \<and> eb_source_tick a = eb_source_tick b \<and>
     eb_health_flags a = eb_health_flags b"

section \<open>What the backend returns\<close>

text \<open>
  An observation holds the values of \<open>int(getattr(value, "tick", 0))\<close> and of the score, which may
  raise, and the gauge fields, whose types the adapter checks itself; \<open>ro_rest\<close> is what only the
  encoder reads.  An info is \<open>None\<close> when it is not a dictionary.
\<close>

record 'o raw_obs =
  ro_tick :: "int res"
  ro_score :: "int res"
  ro_gauge :: pyval
  ro_gauge_max :: pyval
  ro_rest :: 'o

record raw_event =
  re_tick :: "int res"
  re_sequence :: "int res"
  re_kind :: "int res"
  re_a :: "int res"
  re_b :: "int res"
  re_value :: "int res"
  re_detail :: string
  re_detail_text :: string

record backend_info =
  bi_seed :: "int res option"
  bi_events :: "raw_event list"
  bi_invalid_action :: bool
  bi_config_hash :: "int res"

record owned_event =
  oe_tick :: int
  oe_sequence :: int
  oe_kind :: int
  oe_a :: int
  oe_b :: int
  oe_value :: int
  oe_detail :: string
  oe_primitive_phase :: string

record 'o observation_input =
  oi_lane_id :: nat
  oi_phase :: string
  oi_raw_observation :: "'o raw_obs"
  oi_semantic_action :: "valid_action option"
  oi_episode_reset :: bool

type_synonym 'o step_result =
  "'o raw_obs list \<times> int res list \<times> bool list \<times> bool list \<times> backend_info option list"

record 'o episode_initialization =
  en_lane_ids :: "nat list"
  en_observations :: "'o raw_obs list"
  en_seeds :: "int list"
  en_labels :: "string list"

section \<open>The parameters of an adapter\<close>

text \<open>\<open>EpisodeInitializer\<close>; \<open>initialize\<close> is always called with \<open>defer_commit=True\<close>.\<close>

record ('w, 'o) episode_initializer =
  ep_sha256 :: string
  ep_has_pending :: "'w \<Rightarrow> bool"
  ep_initialize :: "nat list \<Rightarrow> ('w, 'o episode_initialization) py"
  ep_commit_pending :: "nat list \<Rightarrow> ('w, unit) py"
  ep_rollback_pending :: "nat list \<Rightarrow> ('w, unit) py"
  ep_validate_active :: "string list \<Rightarrow> ('w, unit) py"

record ('w, 'o) backend =
  vb_num_envs :: nat
  vb_reset :: "int list \<Rightarrow> ('w, 'o raw_obs list \<times> backend_info option list) py"
  vb_step :: "primitive list \<Rightarrow> ('w, 'o step_result) py"
  vb_step_many :: "nat list \<Rightarrow> primitive list \<Rightarrow> ('w, 'o step_result) py"
  vb_reset_many :: "nat list \<Rightarrow> int list \<Rightarrow> ('w, 'o raw_obs list) py"
  vb_clone_state :: "('w, byte list list) py"
  vb_state_hash :: "('w, int list) py"
  vb_restore_state :: "byte list option list \<Rightarrow> ('w, 'o raw_obs list) py"
  vb_encode :: "'o raw_obs list \<Rightarrow> ('w, encoded_batch) py"
  vb_lane_independent :: bool
  vb_transform :: "('o observation_input list \<Rightarrow> ('w, 'o raw_obs list) py) option"
  vb_initializer :: "('w, 'o) episode_initializer option"
  vb_action_spec :: action_spec
  vb_capture_events :: bool
  vb_digest :: "jval \<Rightarrow> string"

section \<open>The adapter\<close>

record 'w adapter =
  av_world :: 'w
  av_seed_allocator :: seed_allocator
  av_poisoned :: bool
  av_initialized :: bool
  av_current :: "encoded_batch option"
  av_schema :: "tensor_schema option"
  av_raw_ticks :: "int list"
  av_raw_scores :: "int list"
  av_raw_gauges :: "int list"
  av_raw_gauge_maxes :: "int list"
  av_seeds :: "int list"
  av_episode_ids :: "int list"
  av_episode_labels :: "string list"
  av_mutation_generation :: int

definition adapter_init :: "('w, 'o) backend \<Rightarrow> 'w \<Rightarrow> seed_allocator \<Rightarrow> 'w adapter" where
  "adapter_init B w a = (let n = vb_num_envs B in
     \<lparr>av_world = w, av_seed_allocator = a, av_poisoned = False, av_initialized = False,
      av_current = None, av_schema = None, av_raw_ticks = replicate n 0,
      av_raw_scores = replicate n 0, av_raw_gauges = replicate n 0,
      av_raw_gauge_maxes = replicate n 0, av_seeds = replicate n 0,
      av_episode_ids = replicate n 0, av_episode_labels = replicate n [],
      av_mutation_generation = 0\<rparr>)"

definition on_backend :: "('w, 'a) py \<Rightarrow> ('w adapter, 'a) py" where
  "on_backend m = (\<lambda>s. case m (av_world s) of (r, w) \<Rightarrow> (r, s\<lparr>av_world := w\<rparr>))"

lemma wp_on_backend [wp_simps]: "wp (on_backend m) Q E = (\<lambda>s. wp m (\<lambda>x w. Q x (s\<lparr>av_world := w\<rparr>))
     (\<lambda>e w. E e (s\<lparr>av_world := w\<rparr>)) (av_world s))"
  by (rule ext) (auto simp: wp_def on_backend_def split: prod.split sum.split)

definition runtime_error :: "string \<Rightarrow> exn" where
  "runtime_error t = Exn RuntimeError t"

definition POISONED :: string where
  "POISONED = ''vector coordinator is poisoned after a possibly partial backend operation''"

text \<open>\<open>self._poisoned = True; raise RuntimeError(...)\<close>\<close>

definition poison :: "string \<Rightarrow> ('w adapter, 'a) py" where
  "poison t = pbind (pmod (\<lambda>s. s\<lparr>av_poisoned := True\<rparr>)) (\<lambda>_. praise (runtime_error t))"

definition fail_closed :: "exn \<Rightarrow> ('w adapter, 'a) py" where
  "fail_closed e = poison POISONED"

text \<open>\<open>try: m  except BaseException as exc: self._fail_closed(exc)\<close>\<close>

definition closed :: "('w adapter, 'a) py \<Rightarrow> ('w adapter, 'a) py" where
  "closed m = pcatch_base m fail_closed"

definition current_observation :: "('w adapter, encoded_batch) py" where
  "current_observation = pbind (pget (\<lambda>s. if av_initialized s then av_current s else None)) (\<lambda>cur. case cur of
     None \<Rightarrow> praise (runtime_error ''adapter must be reset first'') | Some b \<Rightarrow> pret b)"

subsection \<open>Reading backend values\<close>

definition require_lengths :: "nat \<Rightarrow> nat list \<Rightarrow> ('w adapter, unit) py" where
  "require_lengths n lens = pguard (list_ex (\<lambda>k. k \<noteq> n) lens)
     (value_error ''backend returned a malformed lane batch'')"

definition encode_obs :: "('w, 'o) backend \<Rightarrow> 'o raw_obs list \<Rightarrow> nat list \<Rightarrow> string
    \<Rightarrow> valid_action list option \<Rightarrow> ('w adapter, encoded_batch) py" where
  "encode_obs B observations lane_ids phase actions =
     pbind (pguard (length observations \<noteq> length lane_ids)
       (value_error ''observation and lane-id counts differ'')) (\<lambda>_.
     let semantic = (case actions of None \<Rightarrow> replicate (length observations) None | Some xs \<Rightarrow> map Some xs) in
     pbind (pguard (length semantic \<noteq> length observations)
       (value_error ''observation and action counts differ'')) (\<lambda>_.
     let inputs = map (\<lambda>(lane, o', a). \<lparr>oi_lane_id = lane, oi_phase = phase, oi_raw_observation = o',
       oi_semantic_action = a, oi_episode_reset = (phase = ''reset'')\<rparr>)
       (zip lane_ids (zip observations semantic)) in
     pbind (case vb_transform B of None \<Rightarrow> pret observations | Some f \<Rightarrow> on_backend (f inputs)) (\<lambda>values.
     pbind (pguard (length values \<noteq> length observations)
       (value_error ''observation transform changed batch length'')) (\<lambda>_.
     pbind (on_backend (vb_encode B values)) (\<lambda>encoded.
     pbind (plift (validate_batch encoded)) (\<lambda>_.
     pbind (pguard (batch_size encoded \<noteq> length observations)
       (value_error ''encoder changed batch length'')) (\<lambda>_.
     pbind (pget av_schema) (\<lambda>schema.
     pbind (pguard (schema \<noteq> None \<and> schema \<noteq> Some (eb_schema encoded))
       (value_error ''encoder changed schema during a rollout'')) (\<lambda>_. pret encoded)))))))))"

definition attribute_error :: exn where
  "attribute_error = Exn OtherException ''object has no attribute get''"

definition info_get :: "(backend_info \<Rightarrow> 'a) \<Rightarrow> backend_info option \<Rightarrow> 'a res" where
  "info_get f info = (case info of None \<Rightarrow> Inl attribute_error | Some i \<Rightarrow> Inr (f i))"

definition own_event :: "string \<Rightarrow> raw_event \<Rightarrow> owned_event res" where
  "own_event phase e =
     rbind (re_tick e) (\<lambda>t. rbind (re_sequence e) (\<lambda>q. rbind (re_kind e) (\<lambda>k.
     rbind (re_a e) (\<lambda>a. rbind (re_b e) (\<lambda>b. rbind (re_value e) (\<lambda>v.
     Inr \<lparr>oe_tick = t, oe_sequence = q, oe_kind = k, oe_a = a, oe_b = b, oe_value = v,
       oe_detail = (if re_detail e = [] then re_detail_text e else re_detail e),
       oe_primitive_phase = phase\<rparr>))))))"

definition own_events :: "backend_info option \<Rightarrow> string \<Rightarrow> owned_event list res" where
  "own_events info phase = (case info of
     None \<Rightarrow> Inl (Exn TypeError ''backend info must be a dictionary'')
   | Some i \<Rightarrow> rmap (own_event phase) (bi_events i))"

definition gauge_fields :: "'o raw_obs \<Rightarrow> (int \<times> int) res" where
  "gauge_fields o' = (case (plain_int (ro_gauge o'), plain_int (ro_gauge_max o')) of
     (Some g, Some m) \<Rightarrow> Inr (g, m)
   | _ \<Rightarrow> Inl (Exn TypeError ''backend gauge fields must be canonical integers''))"

record reading =
  rd_tick :: int
  rd_score :: int
  rd_gauge :: int
  rd_gauge_max :: int

definition read_obs :: "'o raw_obs \<Rightarrow> reading res" where
  "read_obs o' = rbind (ro_tick o') (\<lambda>t. rbind (ro_score o') (\<lambda>sc. rbind (gauge_fields o') (\<lambda>(g, m).
     Inr \<lparr>rd_tick = t, rd_score = sc, rd_gauge = g, rd_gauge_max = m\<rparr>)))"

end
