(* ===== verification/Vector_Adapter.thy ===== *)
theory Vector_Adapter
  imports Vector_Backend
begin

text \<open>
  The methods of \<open>MacroVectorAdapter\<close>: reset, one semantic macro per lane, checkpoint and restore.
  Every method is a computation on the adapter; the parallel per-lane lists of \<open>step\<close> are one list
  of records.
\<close>

section \<open>Reset\<close>

definition pending :: "('w, 'o) backend \<Rightarrow> 'w adapter \<Rightarrow> bool" where
  "pending B s = (case vb_initializer B of None \<Rightarrow> False | Some p \<Rightarrow> ep_has_pending p (av_world s))"

text \<open>The initializer a reset uses: none for a disposable one.\<close>

definition active_initializer :: "('w, 'o) backend \<Rightarrow> bool \<Rightarrow> ('w, 'o) episode_initializer option" where
  "active_initializer B disposable = (if disposable then None else vb_initializer B)"

definition honours_seed :: "backend_info option \<times> int \<Rightarrow> bool res" where
  "honours_seed = (\<lambda>(info, seed). rbind (info_get bi_seed info) (\<lambda>v. case v of
     None \<Rightarrow> Inr True | Some r \<Rightarrow> rbind r (\<lambda>n. Inr (n = seed))))"

text \<open>The episodes of a set of lanes, restored by the initializer.\<close>

definition initialized_episodes :: "('w, 'o) episode_initializer \<Rightarrow> nat list \<Rightarrow> string
    \<Rightarrow> ('w adapter, 'o episode_initialization) py" where
  "initialized_episodes p lanes complaint =
     pbind (on_backend (ep_initialize p lanes)) (\<lambda>i.
     pbind (pguard (en_lane_ids i \<noteq> lanes) (runtime_error complaint)) (\<lambda>_. pret i))"

definition reset_body :: "('w, 'o) backend \<Rightarrow> bool \<Rightarrow> int list
    \<Rightarrow> ('w adapter, encoded_batch \<times> reading list \<times> 'o episode_initialization) py" where
  "reset_body B disposable seeds = (let n = vb_num_envs B; lanes = [0..<n] in
     pbind (on_backend (vb_reset B seeds)) (\<lambda>(observations, infos).
     pbind (require_lengths n [length observations, length infos]) (\<lambda>_.
     pbind (case active_initializer B disposable of
         None \<Rightarrow> pret \<lparr>en_lane_ids = lanes, en_observations = observations, en_seeds = seeds,
           en_labels = replicate n []\<rparr>
       | Some p \<Rightarrow> initialized_episodes p lanes ''episode initializer changed full reset lane order'') (\<lambda>i.
     pbind (encode_obs B (en_observations i) lanes ''reset'' None) (\<lambda>encoded.
     pbind (case active_initializer B disposable of
         None \<Rightarrow> pbind (plift (rmap honours_seed (zip infos seeds))) (\<lambda>oks.
           pguard (list_ex Not oks) (runtime_error ''backend reset did not honor explicit seeds''))
       | Some _ \<Rightarrow> pret ()) (\<lambda>_.
     pbind (plift (rmap read_obs (en_observations i))) (\<lambda>readings.
     pbind (pguard (list_ex (\<lambda>r. rd_gauge_max r \<le> 0) readings)
       (runtime_error ''backend reset returned a nonpositive gauge maximum'')) (\<lambda>_.
     pbind (case active_initializer B disposable of
         None \<Rightarrow> pret () | Some p \<Rightarrow> on_backend (ep_commit_pending p lanes)) (\<lambda>_.
     pret (encoded, readings, i))))))))))"

text \<open>The \<open>except\<close> block of an operation that may leave an assignment pending.\<close>

definition undo_pending :: "('w, 'o) backend \<Rightarrow> nat list \<Rightarrow> exn \<Rightarrow> ('w adapter, 'a) py" where
  "undo_pending B lanes e =
     pbind (pget (pending B)) (\<lambda>left.
     pbind (case vb_initializer B of None \<Rightarrow> pret ()
       | Some p \<Rightarrow> pwhen left (closed (on_backend (ep_rollback_pending p lanes)))) (\<lambda>_.
     fail_closed e))"

definition adopt_reset :: "nat \<Rightarrow> encoded_batch \<Rightarrow> reading list \<Rightarrow> 'o episode_initialization
    \<Rightarrow> 'w adapter \<Rightarrow> 'w adapter" where
  "adopt_reset n encoded readings i s = s\<lparr>
     av_schema := (case av_schema s of None \<Rightarrow> Some (eb_schema encoded) | Some c \<Rightarrow> Some c),
     av_current := Some encoded,
     av_raw_ticks := map rd_tick readings, av_raw_scores := map rd_score readings,
     av_raw_gauges := map rd_gauge readings, av_raw_gauge_maxes := map rd_gauge_max readings,
     av_seeds := en_seeds i, av_episode_ids := replicate n 0, av_episode_labels := en_labels i,
     av_initialized := True, av_mutation_generation := av_mutation_generation s + 1\<rparr>"

definition commit_seeds :: "seed_reservation \<Rightarrow> ('w adapter, unit) py" where
  "commit_seeds r = pbind (pget (\<lambda>s. sa_commit (av_seed_allocator s) r)) (\<lambda>res.
     pbind (plift res) (\<lambda>a. pmod (\<lambda>s. s\<lparr>av_seed_allocator := a\<rparr>)))"

definition reserve_seeds :: "nat \<Rightarrow> ('w adapter, seed_reservation) py" where
  "reserve_seeds n = pbind (pget (\<lambda>s. sa_reserve (av_seed_allocator s) (PyInt (int n)))) plift"

definition adapter_reset :: "('w, 'o) backend \<Rightarrow> bool option \<Rightarrow> ('w adapter, encoded_batch) py" where
  "adapter_reset B disposable = (let n = vb_num_envs B in
     pbind (pget av_poisoned) (\<lambda>dead.
     pbind (pguard dead (runtime_error ''poisoned adapter must be recreated'')) (\<lambda>_.
     pbind (pguard (disposable = None) (Exn TypeError ''disposable reset flag must be boolean'')) (\<lambda>_.
     pbind (pget (pending B)) (\<lambda>left.
     pbind (pguard left (runtime_error ''cannot reset with an uncommitted episode assignment'')) (\<lambda>_.
     pbind (reserve_seeds n) (\<lambda>reservation.
     pbind (pcatch_base (reset_body B (the disposable) (sr_seeds reservation)) (undo_pending B [0..<n]))
       (\<lambda>(encoded, readings, i).
     pbind (commit_seeds reservation) (\<lambda>_.
     pbind (pmod (adopt_reset n encoded readings i)) (\<lambda>_. pret encoded))))))))))"

section \<open>One macro\<close>

text \<open>The parallel per-lane lists of \<open>step\<close>, as one record per lane.\<close>

record macro =
  mc_encoded :: "encoded_batch option"
  mc_end :: reading
  mc_reward :: int
  mc_events :: "owned_event list"
  mc_event_count :: int
  mc_invalid :: bool
  mc_config_hash :: int
  mc_terminated :: bool
  mc_truncated :: bool
  mc_trace :: "string list"

definition is_wait :: "valid_action \<Rightarrow> bool" where
  "is_wait a \<longleftrightarrow> va_kind a = WAIT"

definition first_phase :: "valid_action \<Rightarrow> string" where
  "first_phase a = (if is_wait a then ''wait'' else ''press'')"

definition captured_events :: "('w, 'o) backend \<Rightarrow> backend_info option \<Rightarrow> string \<Rightarrow> owned_event list res" where
  "captured_events B info phase = (if vb_capture_events B then own_events info phase else Inr [])"

text \<open>A lane's results of the full-width primitive.\<close>

definition read_first :: "('w, 'o) backend \<Rightarrow>
    valid_action \<times> encoded_batch option \<times> 'o raw_obs \<times> int res \<times> bool \<times> bool \<times> backend_info option \<Rightarrow> macro res" where
  "read_first B = (\<lambda>(a, row, o', reward, te, tr, info).
     rbind (read_obs o') (\<lambda>end_reading. rbind reward (\<lambda>w.
     rbind (info_get (\<lambda>i. int (length (bi_events i))) info) (\<lambda>count.
     rbind (captured_events B info (first_phase a)) (\<lambda>events.
     rbind (info_get bi_invalid_action info) (\<lambda>bad.
     rbind (info_get bi_config_hash info) (\<lambda>hr. rbind hr (\<lambda>h.
     Inr \<lparr>mc_encoded = row, mc_end = end_reading, mc_reward = w, mc_events = events,
       mc_event_count = count, mc_invalid = bad, mc_config_hash = h, mc_terminated = te,
       mc_truncated = tr, mc_trace = [first_phase a]\<rparr>))))))))"

text \<open>What the \<open>try\<close> of the release reads of a lane.\<close>

record release_reading =
  rl_end :: reading
  rl_events :: "owned_event list"
  rl_event_count :: int
  rl_invalid :: bool
  rl_config_hash :: int

definition read_release :: "('w, 'o) backend \<Rightarrow> 'o raw_obs \<times> backend_info option \<Rightarrow> release_reading res" where
  "read_release B = (\<lambda>(o', info).
     rbind (read_obs o') (\<lambda>end_reading.
     rbind (info_get (\<lambda>i. int (length (bi_events i))) info) (\<lambda>count.
     rbind (captured_events B info ''release'') (\<lambda>events.
     rbind (info_get bi_invalid_action info) (\<lambda>bad.
     rbind (info_get bi_config_hash info) (\<lambda>hr. rbind hr (\<lambda>h.
     Inr \<lparr>rl_end = end_reading, rl_events = events, rl_event_count = count, rl_invalid = bad,
       rl_config_hash = h\<rparr>)))))))"

text \<open>The merge of a lane's release; it converts the reward after the \<open>try\<close>.\<close>

definition merge_release ::
  "macro \<Rightarrow> encoded_batch \<times> release_reading \<times> int res \<times> bool \<times> bool \<Rightarrow> macro res" where
  "merge_release m = (\<lambda>(row, r, reward, te, tr). rbind reward (\<lambda>w.
     Inr (m\<lparr>mc_encoded := Some row, mc_end := rl_end r, mc_reward := mc_reward m + w,
       mc_events := mc_events m @ rl_events r, mc_event_count := mc_event_count m + rl_event_count r,
       mc_invalid := mc_invalid m \<or> rl_invalid r, mc_config_hash := rl_config_hash r,
       mc_terminated := te, mc_truncated := tr, mc_trace := mc_trace m @ [''release'']\<rparr>)))"

text \<open>\<open>for offset, lane in enumerate(lanes): xs[lane] = ys[offset]\<close>, for distinct lanes.\<close>

definition assign_lanes :: "nat list \<Rightarrow> 'a list \<Rightarrow> 'a list \<Rightarrow> 'a list" where
  "assign_lanes lanes ys xs = map (\<lambda>i. case map_of (zip lanes ys) i of Some y \<Rightarrow> y | None \<Rightarrow> xs ! i)
     [0..<length xs]"

definition mc_done :: "macro \<Rightarrow> bool" where
  "mc_done m \<longleftrightarrow> mc_terminated m \<or> mc_truncated m"

text \<open>The full-width primitive, with the encoding of its observations where the encoder is not
  lane-independent.\<close>

definition lane_independent :: "('w, 'o) backend \<Rightarrow> bool" where
  "lane_independent B \<longleftrightarrow> vb_transform B = None \<and> vb_lane_independent B"

definition run_first :: "('w, 'o) backend \<Rightarrow> valid_action list \<Rightarrow> primitive list
    \<Rightarrow> ('w adapter, encoded_batch option \<times> 'o step_result) py" where
  "run_first B validated primitives = (let n = vb_num_envs B in
     closed (pbind (on_backend (vb_step B primitives)) (\<lambda>(obs, rewards, te, tr, infos).
       pbind (require_lengths n [length obs, length rewards, length te, length tr, length infos]) (\<lambda>_.
       pbind (if lane_independent B then pret None
         else pbind (encode_obs B obs [0..<n] ''macro_first'' (Some validated)) (\<lambda>b. pret (Some b))) (\<lambda>first.
       pret (first, obs, rewards, te, tr, infos))))))"

definition first_rows :: "nat \<Rightarrow> encoded_batch option \<Rightarrow> encoded_batch option list" where
  "first_rows n first = (case first of None \<Rightarrow> replicate n None | Some b \<Rightarrow> map (\<lambda>i. Some (batch_row b i)) [0..<n])"

definition read_all :: "('w, 'o) backend \<Rightarrow> valid_action list \<Rightarrow> encoded_batch option \<times> 'o step_result
    \<Rightarrow> ('w adapter, macro list) py" where
  "read_all B validated = (\<lambda>(first, obs, rewards, te, tr, infos).
     closed (plift (rmap (read_first B)
       (zip validated (zip (first_rows (vb_num_envs B) first)
         (zip obs (zip rewards (zip te (zip tr infos)))))))))"

definition release_lanes :: "valid_action list \<Rightarrow> macro list \<Rightarrow> nat list" where
  "release_lanes validated ms =
     filter (\<lambda>i. \<not> is_wait (validated ! i) \<and> \<not> mc_done (ms ! i)) [0..<length validated]"

text \<open>A lane-independent encoder encodes each lane once: here those that are not released.\<close>

definition encode_stable :: "('w, 'o) backend \<Rightarrow> valid_action list \<Rightarrow> 'o raw_obs list \<Rightarrow> nat list
    \<Rightarrow> macro list \<Rightarrow> ('w adapter, macro list) py" where
  "encode_stable B validated obs released ms = (let n = vb_num_envs B;
       stable = filter (\<lambda>i. i \<notin> set released) [0..<n] in
     if \<not> lane_independent B \<or> stable = [] then pret ms
     else closed (pbind (encode_obs B (map ((!) obs) stable) stable ''macro_final''
         (Some (map ((!) validated) stable))) (\<lambda>b.
       pret (assign_lanes stable
         (map (\<lambda>k. (ms ! (stable ! k))\<lparr>mc_encoded := Some (batch_row b k)\<rparr>) [0..<length stable]) ms))))"

text \<open>The neutral release of the lanes that fired and are still alive.\<close>

definition run_release :: "('w, 'o) backend \<Rightarrow> valid_action list \<Rightarrow> nat list
    \<Rightarrow> ('w adapter, (encoded_batch \<times> release_reading \<times> int res \<times> bool \<times> bool) list) py" where
  "run_release B validated released = (let k = length released in
     closed (pbind (on_backend (vb_step_many B released
         (replicate k (release (vb_action_spec B))))) (\<lambda>(obs, rewards, te, tr, infos).
       pbind (require_lengths k [length obs, length rewards, length te, length tr, length infos]) (\<lambda>_.
       pbind (encode_obs B obs released (if lane_independent B then ''macro_final'' else ''release'')
         (Some (map ((!) validated) released))) (\<lambda>b.
       pbind (plift (rmap (read_release B) (zip obs infos))) (\<lambda>readings.
       pret (zip (map (batch_row b) [0..<k]) (zip readings (zip rewards (zip te tr))))))))))"

definition release_all :: "('w, 'o) backend \<Rightarrow> valid_action list \<Rightarrow> nat list \<Rightarrow> macro list
    \<Rightarrow> ('w adapter, macro list) py" where
  "release_all B validated released ms =
     (if released = [] then pret ms
      else pbind (run_release B validated released) (\<lambda>results.
        pbind (plift (rmap (\<lambda>(lane, r). merge_release (ms ! lane) r) (zip released results))) (\<lambda>merged.
        pret (assign_lanes released merged ms))))"

text \<open>The checks of the completed macros.\<close>

definition elapsed :: "int list \<Rightarrow> macro list \<Rightarrow> int list" where
  "elapsed start_ticks ms = map (\<lambda>(start, m). rd_tick (mc_end m) - start) (zip start_ticks ms)"

definition check_macros :: "'w adapter \<Rightarrow> macro list \<Rightarrow> ('w adapter, unit) py" where
  "check_macros s0 ms =
     pbind (if list_ex mc_invalid ms
       then poison ''validated semantic action produced a native invalid action'' else pret ()) (\<lambda>_.
     pbind (if list_ex (\<lambda>m. mc_encoded m = None) ms
       then fail_closed (runtime_error ''completed macro encoding is incomplete'') else pret ()) (\<lambda>_.
     pbind (if list_ex (\<lambda>k. k \<le> 0) (elapsed (av_raw_ticks s0) ms)
       then poison ''semantic macro did not advance a positive number of ticks'' else pret ()) (\<lambda>_.
     pbind (if list_ex (\<lambda>(start, m). mc_reward m \<noteq> rd_score (mc_end m) - start) (zip (av_raw_scores s0) ms)
       then poison ''macro reward does not equal raw score delta'' else pret ()) (\<lambda>_.
     if list_ex (\<lambda>m. rd_gauge_max (mc_end m) \<le> 0) ms \<or>
       list_ex (\<lambda>(start, m). start \<noteq> rd_gauge_max (mc_end m)) (zip (av_raw_gauge_maxes s0) ms)
     then poison ''gauge maximum changed within an episode'' else pret ()))))"

subsection \<open>Autoreset\<close>

record lane_reset =
  lr_encoded :: encoded_batch
  lr_seed :: int
  lr_label :: string
  lr_start :: reading

definition index_error :: exn where
  "index_error = Exn OtherException ''index out of range''"

definition reset_episodes :: "('w, 'o) backend \<Rightarrow> nat list
    \<Rightarrow> ('w adapter, seed_reservation option \<times> 'o episode_initialization) py" where
  "reset_episodes B done = (case vb_initializer B of
     None \<Rightarrow> pbind (reserve_seeds (length done)) (\<lambda>r.
       pbind (on_backend (vb_reset_many B done (sr_seeds r))) (\<lambda>obs.
       pret (Some r, \<lparr>en_lane_ids = done, en_observations = obs, en_seeds = sr_seeds r,
         en_labels = replicate (length done) []\<rparr>)))
   | Some p \<Rightarrow> pbind (initialized_episodes p done ''episode initializer changed autoreset lane order'') (\<lambda>i.
       pret (None, i)))"

definition read_reset :: "encoded_batch \<Rightarrow> 'o episode_initialization \<Rightarrow> nat \<Rightarrow> lane_reset res" where
  "read_reset b i k =
     (if length (en_seeds i) \<le> k \<or> length (en_labels i) \<le> k then Inl index_error
      else rbind (read_obs (en_observations i ! k)) (\<lambda>r.
        if rd_gauge_max r \<le> 0
        then Inl (runtime_error ''backend reset returned a nonpositive gauge maximum'')
        else Inr \<lparr>lr_encoded = batch_row b k, lr_seed = en_seeds i ! k, lr_label = en_labels i ! k,
          lr_start = r\<rparr>))"

definition autoreset_body :: "('w, 'o) backend \<Rightarrow> nat list
    \<Rightarrow> ('w adapter, seed_reservation option \<times> lane_reset list) py" where
  "autoreset_body B done =
     pbind (reset_episodes B done) (\<lambda>(reservation, i).
     pbind (require_lengths (length done) [length (en_observations i)]) (\<lambda>_.
     pbind (encode_obs B (en_observations i) done ''reset'' None) (\<lambda>b.
     pbind (plift (rmap (read_reset b i) [0..<length done])) (\<lambda>resets.
     pret (reservation, resets)))))"

definition autoreset :: "('w, 'o) backend \<Rightarrow> nat list \<Rightarrow> ('w adapter, lane_reset list) py" where
  "autoreset B done =
     (if done = [] then pret []
      else pbind (pcatch_base (autoreset_body B done) (undo_pending B done)) (\<lambda>(reservation, resets).
        pbind (case reservation of None \<Rightarrow> pret () | Some r \<Rightarrow> commit_seeds r) (\<lambda>_. pret resets)))"

subsection \<open>Transitions\<close>

record macro_transition =
  mt_lane_id :: nat
  mt_episode_id :: int
  mt_seed :: int
  mt_observation :: encoded_batch
  mt_action :: valid_action
  mt_primitive_trace :: "string list"
  mt_raw_reward :: int
  mt_start_gauge :: int
  mt_end_gauge :: int
  mt_gauge_max :: int
  mt_elapsed_ticks :: int
  mt_start_tick :: int
  mt_end_tick :: int
  mt_terminated :: bool
  mt_truncated :: bool
  mt_macro_interrupted :: bool
  mt_transition_next_observation :: encoded_batch
  mt_final_observation :: "encoded_batch option"
  mt_next_policy_observation :: encoded_batch
  mt_bootstrap_mask :: bool
  mt_trace_mask :: bool
  mt_config_hash :: int
  mt_invalid_action :: bool
  mt_event_count :: int
  mt_events :: "owned_event list"
  mt_episode_label :: string

definition interrupted :: "valid_action \<Rightarrow> int \<Rightarrow> macro \<Rightarrow> bool" where
  "interrupted a ticks m = (mc_done m \<and>
     (if is_wait a then ticks < va_wait_ticks a else ''release'' \<notin> set (mc_trace m)))"

text \<open>The transition of one lane; \<open>s0\<close> is the adapter the step began with.\<close>

definition make_transition :: "'w adapter \<Rightarrow> encoded_batch \<Rightarrow> (nat \<Rightarrow> lane_reset option) \<Rightarrow> nat
    \<Rightarrow> valid_action \<Rightarrow> macro \<Rightarrow> macro_transition res" where
  "make_transition s0 cur resets lane a m =
     (let start_tick = av_raw_ticks s0 ! lane; ticks = rd_tick (mc_end m) - start_tick;
        final = the (mc_encoded m); cut = interrupted a ticks m in
      if length (av_seeds s0) \<le> lane \<or> length (av_episode_labels s0) \<le> lane then Inl index_error
      else Inr \<lparr>mt_lane_id = lane, mt_episode_id = av_episode_ids s0 ! lane,
        mt_seed = av_seeds s0 ! lane, mt_observation = batch_row cur lane, mt_action = a,
        mt_primitive_trace = mc_trace m, mt_raw_reward = mc_reward m,
        mt_start_gauge = av_raw_gauges s0 ! lane, mt_end_gauge = rd_gauge (mc_end m),
        mt_gauge_max = av_raw_gauge_maxes s0 ! lane, mt_elapsed_ticks = ticks,
        mt_start_tick = start_tick, mt_end_tick = rd_tick (mc_end m),
        mt_terminated = mc_terminated m, mt_truncated = mc_truncated m, mt_macro_interrupted = cut,
        mt_transition_next_observation = final,
        mt_final_observation = (if mc_done m then Some final else None),
        mt_next_policy_observation = (case resets lane of Some r \<Rightarrow> lr_encoded r | None \<Rightarrow> final),
        mt_bootstrap_mask = (\<not> mc_terminated m \<and> (\<not> cut \<or> is_wait a)),
        mt_trace_mask = (\<not> mc_done m), mt_config_hash = mc_config_hash m,
        mt_invalid_action = mc_invalid m, mt_event_count = mc_event_count m, mt_events = mc_events m,
        mt_episode_label = av_episode_labels s0 ! lane\<rparr>)"

text \<open>The per-lane update of the adapter's fields.\<close>

definition next_field :: "(nat \<Rightarrow> lane_reset option) \<Rightarrow> macro list \<Rightarrow> (lane_reset \<Rightarrow> 'a)
    \<Rightarrow> (nat \<Rightarrow> 'a) \<Rightarrow> 'a list" where
  "next_field resets ms fresh kept =
     map (\<lambda>i. if mc_done (ms ! i) then fresh (the (resets i)) else kept i) [0..<length ms]"

definition assign_rows :: "encoded_batch list \<Rightarrow> encoded_batch \<Rightarrow> encoded_batch" where
  "assign_rows rows cur = fold (\<lambda>i b. assign_row b i (rows ! i)) [0..<length rows] cur"

definition adopt_step :: "(nat \<Rightarrow> lane_reset option) \<Rightarrow> macro list \<Rightarrow> macro_transition list
    \<Rightarrow> 'w adapter \<Rightarrow> 'w adapter" where
  "adopt_step resets ms ts s = s\<lparr>
     av_current := map_option (assign_rows (map mt_next_policy_observation ts)) (av_current s),
     av_seeds := next_field resets ms lr_seed ((!) (av_seeds s)) @ drop (length ms) (av_seeds s),
     av_episode_labels := next_field resets ms lr_label ((!) (av_episode_labels s)) @
       drop (length ms) (av_episode_labels s),
     av_episode_ids := map (\<lambda>i. av_episode_ids s ! i + (if mc_done (ms ! i) then 1 else 0)) [0..<length ms],
     av_raw_ticks := next_field resets ms (rd_tick \<circ> lr_start) (\<lambda>i. rd_tick (mc_end (ms ! i))),
     av_raw_scores := next_field resets ms (rd_score \<circ> lr_start) (\<lambda>i. rd_score (mc_end (ms ! i))),
     av_raw_gauges := next_field resets ms (rd_gauge \<circ> lr_start) (\<lambda>i. rd_gauge (mc_end (ms ! i))),
     av_raw_gauge_maxes := next_field resets ms (rd_gauge_max \<circ> lr_start) (\<lambda>i. rd_gauge_max (mc_end (ms ! i))),
     av_mutation_generation := av_mutation_generation s + 1\<rparr>"

section \<open>Step\<close>

text \<open>Everything from the first backend call on; \<open>s0\<close> is the adapter the step began with.\<close>

definition macro_body :: "('w, 'o) backend \<Rightarrow> 'w adapter \<Rightarrow> encoded_batch \<Rightarrow> valid_action list
    \<Rightarrow> primitive list \<Rightarrow> ('w adapter, macro_transition list) py" where
  "macro_body B s0 cur validated primitives = (let n = vb_num_envs B in
     pbind (run_first B validated primitives) (\<lambda>first.
     pbind (read_all B validated first) (\<lambda>ms0.
     let released = release_lanes validated ms0 in
     pbind (encode_stable B validated (fst (snd first)) released ms0) (\<lambda>ms1.
     pbind (release_all B validated released ms1) (\<lambda>ms.
     pbind (check_macros s0 ms) (\<lambda>_.
     let done = filter (\<lambda>i. mc_done (ms ! i)) [0..<n] in
     pbind (autoreset B done) (\<lambda>fresh.
     let resets = map_of (zip done fresh) in
     pbind (closed (plift (rmap (\<lambda>i. make_transition s0 cur resets i (validated ! i) (ms ! i)) [0..<n]))) (\<lambda>ts.
     pbind (pmod (adopt_step resets ms ts)) (\<lambda>_. pret ts)))))))))"

text \<open>\<open>actions\<close> have been validated as a whole before the environment is touched.\<close>

definition lower_actions :: "action_spec \<Rightarrow> semantic_action list \<Rightarrow> (valid_action list \<times> primitive list) res" where
  "lower_actions A actions = rbind (rmap (validate_semantic A) actions) (\<lambda>vs.
     rbind (rmap (\<lambda>v. press A (valid_as_action v)) vs) (\<lambda>ps. Inr (vs, ps)))"

definition adapter_step :: "('w, 'o) backend \<Rightarrow> semantic_action list \<Rightarrow> ('w adapter, macro_transition list) py" where
  "adapter_step B actions =
     pbind (pget av_poisoned) (\<lambda>dead.
     pbind (pguard dead (runtime_error ''poisoned adapter must be recreated'')) (\<lambda>_.
     pbind current_observation (\<lambda>cur.
     pbind (pget (pending B)) (\<lambda>left.
     pbind (pguard left (runtime_error ''previous episode assignments have not been committed'')) (\<lambda>_.
     pbind (pguard (length actions \<noteq> vb_num_envs B) (value_error ''actions must contain exactly one item for each lane'')) (\<lambda>_.
     pbind (plift (lower_actions (vb_action_spec B) actions)) (\<lambda>(validated, primitives).
     pbind (pget (\<lambda>s. s)) (\<lambda>s0.
     macro_body B s0 cur validated primitives))))))))"

section \<open>Checkpoints\<close>

text \<open>The members of a checkpoint that \<open>restore_checkpoint\<close> tests with \<open>isinstance\<close> are Python
  values; a snapshot is None when it is not \<open>bytes\<close>.\<close>

record adapter_checkpoint =
  ck_version :: string
  ck_schema_sha256 :: string
  ck_action_sha256 :: string
  ck_num_envs :: nat
  ck_capture_events :: bool
  ck_current :: encoded_batch
  ck_raw_ticks :: "pyval list"
  ck_raw_scores :: "pyval list"
  ck_seeds :: "pyval list"
  ck_episode_ids :: "pyval list"
  ck_episode_initializer_sha256 :: "string option"
  ck_episode_labels :: "pyval list"
  ck_seed_allocator :: "(string \<times> pyval) list"
  ck_snapshots :: "byte list option list"
  ck_state_hashes :: "pyval list"

definition ADAPTER_CHECKPOINT_VERSION :: string where
  "ADAPTER_CHECKPOINT_VERSION = ''macro-vector-adapter-checkpoint-v3''"

definition initializer_sha256 :: "('w, 'o) backend \<Rightarrow> string option" where
  "initializer_sha256 B = map_option ep_sha256 (vb_initializer B)"

definition validate_episodes :: "('w, 'o) backend \<Rightarrow> string \<Rightarrow> string list \<Rightarrow> ('w adapter, unit) py" where
  "validate_episodes B complaint labels = (case vb_initializer B of
     None \<Rightarrow> pret ()
   | Some p \<Rightarrow> pbind (pget (pending B)) (\<lambda>left.
       pbind (pguard left (runtime_error complaint)) (\<lambda>_. on_backend (ep_validate_active p labels))))"

definition take_checkpoint :: "('w, 'o) backend \<Rightarrow> ('w adapter, adapter_checkpoint) py" where
  "take_checkpoint B =
     pbind (pget av_poisoned) (\<lambda>dead.
     pbind (pguard dead (runtime_error ''cannot checkpoint a poisoned adapter'')) (\<lambda>_.
     pbind (pget (\<lambda>s. if av_initialized s then (case (av_current s, av_schema s) of
         (Some b, Some c) \<Rightarrow> Some (b, c) | _ \<Rightarrow> None) else None)) (\<lambda>held. case held of
       None \<Rightarrow> praise (runtime_error ''adapter must be reset before checkpointing'')
     | Some (cur, schema) \<Rightarrow>
     pbind (pguard (vb_transform B \<noteq> None)
       (runtime_error ''stateful observation transforms need an explicit checkpoint contract'')) (\<lambda>_.
     pbind (pget av_episode_labels) (\<lambda>labels.
     pbind (validate_episodes B ''cannot checkpoint an uncommitted episode assignment'' labels) (\<lambda>_.
     pbind (on_backend (vb_clone_state B)) (\<lambda>snapshots.
     pbind (on_backend (vb_state_hash B)) (\<lambda>hashes.
     pbind (require_lengths (vb_num_envs B) [length snapshots, length hashes]) (\<lambda>_.
     pget (\<lambda>s. \<lparr>ck_version = ADAPTER_CHECKPOINT_VERSION,
       ck_schema_sha256 = vb_digest B (schema_manifest schema),
       ck_action_sha256 = vb_digest B (action_manifest (vb_action_spec B)),
       ck_num_envs = vb_num_envs B, ck_capture_events = vb_capture_events B, ck_current = cur,
       ck_raw_ticks = map PyInt (av_raw_ticks s), ck_raw_scores = map PyInt (av_raw_scores s),
       ck_seeds = map PyInt (av_seeds s), ck_episode_ids = map PyInt (av_episode_ids s),
       ck_episode_initializer_sha256 = initializer_sha256 B,
       ck_episode_labels = map PyStr (av_episode_labels s),
       ck_seed_allocator = sa_state_dict (av_seed_allocator s), ck_snapshots = map Some snapshots,
       ck_state_hashes = map PyInt hashes\<rparr>))))))))))"

text \<open>The comparison of \<open>source_tick\<close>, a uint64 array, with the raw ticks as int64.\<close>

definition ticks_disagree :: "64 word list \<Rightarrow> int list \<Rightarrow> bool res" where
  "ticks_disagree source ticks =
     (if list_ex (\<lambda>t. t < - (2 ^ 63) \<or> 2 ^ 63 \<le> t) ticks
      then Inl (Exn OverflowError ''Python int too large to convert to C long'')
      else Inr (map uint source \<noteq> ticks))"

definition canonical_ints :: "pyval list \<Rightarrow> int list res" where
  "canonical_ints = rmap (\<lambda>v. case plain_int v of Some n \<Rightarrow> Inr n
     | None \<Rightarrow> Inl (Exn TypeError ''adapter checkpoint metadata must contain canonical integers''))"

definition owned_labels :: "pyval list \<Rightarrow> string list res" where
  "owned_labels = rmap (\<lambda>v. case plain_str v of Some t \<Rightarrow> Inr t
     | None \<Rightarrow> Inl (Exn TypeError ''adapter checkpoint episode labels must be strings''))"

record checkpoint_fields =
  cf_ticks :: "int list"
  cf_scores :: "int list"
  cf_seeds :: "int list"
  cf_episode_ids :: "int list"
  cf_hashes :: "int list"
  cf_labels :: "string list"

text \<open>The checks that precede the environment, in the order of the code.\<close>

definition checkpoint_identity :: "('w, 'o) backend \<Rightarrow> tensor_schema option \<Rightarrow> adapter_checkpoint \<Rightarrow> unit res" where
  "checkpoint_identity B schema k = (let n = vb_num_envs B in
     if ck_version k \<noteq> ADAPTER_CHECKPOINT_VERSION then Inl (value_error ''adapter checkpoint version mismatch'')
     else if ck_num_envs k \<noteq> n then Inl (value_error ''adapter checkpoint lane count mismatch'')
     else if ck_capture_events k \<noteq> vb_capture_events B
     then Inl (value_error ''adapter checkpoint event-capture mode mismatch'')
     else if ck_action_sha256 k \<noteq> vb_digest B (action_manifest (vb_action_spec B))
     then Inl (value_error ''adapter checkpoint action identity mismatch'')
     else rbind (validate_batch (ck_current k)) (\<lambda>_.
     if vb_digest B (schema_manifest (eb_schema (ck_current k))) \<noteq> ck_schema_sha256 k
     then Inl (value_error ''adapter checkpoint schema identity mismatch'')
     else if schema = None \<or> ck_schema_sha256 k \<noteq> vb_digest B (schema_manifest (the schema))
     then Inl (value_error ''adapter checkpoint does not match the fresh encoder schema'')
     else rguard (list_ex (\<lambda>l. l \<noteq> n) [length (ck_raw_ticks k), length (ck_raw_scores k),
         length (ck_seeds k), length (ck_episode_ids k), length (ck_episode_labels k),
         length (ck_snapshots k), length (ck_state_hashes k)])
       (value_error ''backend returned a malformed lane batch'')))"

definition checkpoint_values :: "('w, 'o) backend \<Rightarrow> adapter_checkpoint \<Rightarrow> checkpoint_fields res" where
  "checkpoint_values B k =
     rbind (canonical_ints (ck_raw_ticks k)) (\<lambda>ticks. rbind (canonical_ints (ck_raw_scores k)) (\<lambda>scores.
     rbind (canonical_ints (ck_seeds k)) (\<lambda>seeds. rbind (canonical_ints (ck_episode_ids k)) (\<lambda>ids.
     rbind (canonical_ints (ck_state_hashes k)) (\<lambda>hashes.
     if list_ex (\<lambda>b. b = None) (ck_snapshots k)
     then Inl (Exn TypeError ''adapter checkpoint snapshots must be owned bytes'')
     else if ck_episode_initializer_sha256 k \<noteq> initializer_sha256 B
     then Inl (value_error ''adapter checkpoint episode initializer mismatch'')
     else rbind (owned_labels (ck_episode_labels k)) (\<lambda>labels.
     Inr \<lparr>cf_ticks = ticks, cf_scores = scores, cf_seeds = seeds, cf_episode_ids = ids,
       cf_hashes = hashes, cf_labels = labels\<rparr>))))))"

text \<open>Restoring the environment and comparing it with the checkpoint.\<close>

definition restore_body :: "('w, 'o) backend \<Rightarrow> adapter_checkpoint \<Rightarrow> checkpoint_fields
    \<Rightarrow> ('w adapter, encoded_batch \<times> reading list) py" where
  "restore_body B k f = (let n = vb_num_envs B in
     pbind (on_backend (vb_restore_state B (ck_snapshots k))) (\<lambda>obs.
     pbind (require_lengths n [length obs]) (\<lambda>_.
     pbind (plift (rmap read_obs obs)) (\<lambda>readings.
     pbind (pguard (map rd_tick readings \<noteq> cf_ticks f)
       (value_error ''restored raw ticks do not match checkpoint bookkeeping'')) (\<lambda>_.
     pbind (pguard (map rd_score readings \<noteq> cf_scores f)
       (value_error ''restored raw scores do not match checkpoint bookkeeping'')) (\<lambda>_.
     pbind (pguard (list_ex (\<lambda>r. rd_gauge_max r \<le> 0) readings)
       (value_error ''restored gauge maximum must be positive'')) (\<lambda>_.
     pbind (encode_obs B obs [0..<n] ''restore'' None) (\<lambda>encoded.
     pbind (pguard (\<not> same_tensors encoded (ck_current k))
       (value_error ''restored observation does not match checkpoint'')) (\<lambda>_.
     pbind (on_backend (vb_state_hash B)) (\<lambda>hashes.
     pbind (pguard (hashes \<noteq> cf_hashes f)
       (value_error ''restored environment state hash mismatch'')) (\<lambda>_.
     pret (encoded, readings))))))))))))"

definition adopt_restore :: "seed_allocator \<Rightarrow> checkpoint_fields \<Rightarrow> encoded_batch \<Rightarrow> reading list
    \<Rightarrow> 'w adapter \<Rightarrow> 'w adapter" where
  "adopt_restore a f encoded readings s = s\<lparr>av_seed_allocator := a, av_current := Some encoded,
     av_raw_ticks := cf_ticks f, av_raw_scores := cf_scores f,
     av_raw_gauges := map rd_gauge readings, av_raw_gauge_maxes := map rd_gauge_max readings,
     av_seeds := cf_seeds f, av_episode_ids := cf_episode_ids f, av_episode_labels := cf_labels f,
     av_initialized := True, av_mutation_generation := av_mutation_generation s + 1\<rparr>"

text \<open>\<open>SeedAllocator(split.name, key=key)\<close> has the split, key, multiplier and offset of the
  adapter's own allocator, and the cursor zero.\<close>

definition fresh_allocator :: "seed_allocator \<Rightarrow> seed_allocator res" where
  "fresh_allocator a = seed_allocator_init (ss_name (sa_split a)) (PyInt (sa_key a)) (PyInt 0)"

definition load_seeds :: "(string \<times> pyval) list \<Rightarrow> seed_allocator \<Rightarrow> seed_allocator res" where
  "load_seeds st a = rbind (fresh_allocator a) (\<lambda>b. rbind (sa_load_state_dict b st) (\<lambda>_. Inr a))"

definition adapter_restore :: "('w, 'o) backend \<Rightarrow> adapter_checkpoint \<Rightarrow> ('w adapter, encoded_batch) py" where
  "adapter_restore B k =
     pbind (pget av_poisoned) (\<lambda>dead.
     pbind (pguard dead (runtime_error ''cannot restore a poisoned adapter'')) (\<lambda>_.
     pbind (pget av_initialized) (\<lambda>ready.
     pbind (pguard (\<not> ready) (runtime_error ''reset the fresh backend once before checkpoint restore'')) (\<lambda>_.
     pbind (pget av_schema) (\<lambda>schema.
     pbind (plift (checkpoint_identity B schema k)) (\<lambda>_.
     pbind (plift (checkpoint_values B k)) (\<lambda>f.
     pbind (validate_episodes B ''cannot restore with a pending episode assignment'' (cf_labels f)) (\<lambda>_.
     pbind (plift (ticks_disagree (eb_source_tick (ck_current k)) (cf_ticks f))) (\<lambda>differ.
     pbind (pguard differ (value_error ''checkpoint raw ticks disagree with encoded observations'')) (\<lambda>_.
     pbind (pget av_seed_allocator) (\<lambda>a.
     pbind (plift (load_seeds (ck_seed_allocator k) a)) (\<lambda>_.
     pbind (closed (restore_body B k f)) (\<lambda>(encoded, readings).
     pbind (plift (sa_load_state_dict a (ck_seed_allocator k))) (\<lambda>b.
     pbind (pmod (adopt_restore b f encoded readings)) (\<lambda>_. pret encoded)))))))))))))))"

end
