(* ===== verification/Vector_Lanes.thy ===== *)
theory Vector_Lanes
  imports Vector_Adapter
begin

text \<open>
  The pieces of a step: what every call keeps of the adapter's books, the batches the encoder
  returns, the first primitive, the release, the checks and the autoreset.
\<close>

section \<open>The books of an adapter\<close>

text \<open>Everything but the world the parameters keep.\<close>

definition books :: "'w adapter \<Rightarrow> 'w adapter \<Rightarrow> bool" where
  "books s t \<longleftrightarrow> t = s\<lparr>av_world := av_world t\<rparr>"

lemma books_refl [simp, intro]: "books s s"
  by (simp add: books_def)

lemma books_world [simp]: "books s (u\<lparr>av_world := w\<rparr>) \<longleftrightarrow> books s u"
  by (cases s; cases u) (auto simp: books_def)

lemma books_trans: "books s t \<Longrightarrow> books t u \<Longrightarrow> books s u"
  by (cases s; cases t; cases u) (auto simp: books_def)

lemma books_fields:
  assumes "books s t"
  shows "av_seed_allocator t = av_seed_allocator s" "av_poisoned t = av_poisoned s"
    "av_initialized t = av_initialized s" "av_current t = av_current s" "av_schema t = av_schema s"
    "av_raw_ticks t = av_raw_ticks s" "av_raw_scores t = av_raw_scores s"
    "av_raw_gauges t = av_raw_gauges s" "av_raw_gauge_maxes t = av_raw_gauge_maxes s"
    "av_seeds t = av_seeds s" "av_episode_ids t = av_episode_ids s"
    "av_episode_labels t = av_episode_labels s"
    "av_mutation_generation t = av_mutation_generation s"
  by (subst assms [unfolded books_def], simp)+

lemma wp_backend: "books s0 s \<Longrightarrow> (\<And>x t. books s0 t \<Longrightarrow> Q x t) \<Longrightarrow> (\<And>e t. books s0 t \<Longrightarrow> E e t) \<Longrightarrow>
    wp (on_backend m) Q E s"
  by (auto simp: wp_on_backend intro!: wpI)

lemma wp_backend_eq: "books s0 s \<Longrightarrow> (\<And>x t. books s0 t \<Longrightarrow> m (av_world s) = (Inr x, av_world t) \<Longrightarrow> Q x t) \<Longrightarrow>
    (\<And>e t. books s0 t \<Longrightarrow> E e t) \<Longrightarrow> wp (on_backend m) Q E s"
  by (auto simp: wp_on_backend intro!: wpI)

lemma keeps_on_backend [keeps_intros]: "keeps (books s0) (on_backend m)"
  by (rule keeps_from_wp) (auto intro: wp_backend)

lemma keeps_require [keeps_intros]: "keeps (books s0) (require_lengths n ls)"
  unfolding require_lengths_def by (rule keeps_pguard)

lemma keeps_encode [keeps_intros]: "keeps (books s0) (encode_obs B obs lanes ph acts)"
  unfolding encode_obs_def Let_def by (intro keeps_intros)

lemma keeps_initialized [keeps_intros]: "keeps (books s0) (initialized_episodes p lanes c)"
  unfolding initialized_episodes_def by (intro keeps_intros)

lemma keeps_current [keeps_intros]: "keeps I current_observation"
  unfolding current_observation_def by (intro keeps_intros)

lemma keeps_reserve [keeps_intros]: "keeps I (reserve_seeds n)"
  unfolding reserve_seeds_def by (intro keeps_intros)

lemma keeps_validate_episodes [keeps_intros]: "keeps (books s0) (validate_episodes B c labels)"
  unfolding validate_episodes_def by (intro keeps_intros)

section \<open>Failing closed\<close>

lemma wp_poison [wp_simps]: "wp (poison c) Q E = (\<lambda>s. E (runtime_error c) (s\<lparr>av_poisoned := True\<rparr>))"
  by (rule ext) (simp add: poison_def wp_simps)

lemma wp_fail_closed [wp_simps]: "wp (fail_closed e) Q E = (\<lambda>s. E (runtime_error POISONED) (s\<lparr>av_poisoned := True\<rparr>))"
  by (rule ext) (simp add: fail_closed_def wp_simps)

lemma wp_closed: "wp m Q (\<lambda>_ t. E (runtime_error POISONED) (t\<lparr>av_poisoned := True\<rparr>)) s \<Longrightarrow> wp (closed m) Q E s"
  by (simp add: closed_def wp_simps)

lemma wp_shut: "wp m Q (\<lambda>_ _. True) s \<Longrightarrow> wp (closed m) Q (\<lambda>_. av_poisoned) s"
  by (rule wp_closed) simp

lemma wp_kept: "keeps I m \<Longrightarrow> I s \<Longrightarrow> (\<And>x t. I t \<Longrightarrow> Q x t) \<Longrightarrow> (\<And>e t. I t \<Longrightarrow> E e t) \<Longrightarrow> wp m Q E s"
  by (rule wpI) (auto dest: keepsD)

section \<open>Encoded batches\<close>

definition good_batch :: "nat \<Rightarrow> encoded_batch \<Rightarrow> bool" where
  "good_batch n b \<longleftrightarrow> validate_batch b = Inr () \<and> batch_size b = n"

lemma good_batch_lengths:
  "good_batch n b \<Longrightarrow> length (eb_global_features b) = n \<and> length (eb_body_features b) = n \<and>
     length (eb_body_mask b) = n \<and> length (eb_source_tick b) = n \<and> length (eb_health_flags b) = n"
  by (auto simp: good_batch_def validate_batch_def Let_def batch_size_def split: if_splits)

lemma list_all_row: "list_all P xs \<Longrightarrow> list_all P (take (Suc 0) (drop i xs))"
  by (auto simp: list_all_iff dest: in_set_takeD in_set_dropD)

lemma row_length: "i < n \<Longrightarrow> length xs = n \<Longrightarrow> length (take (Suc 0) (drop i xs)) = 1"
  by simp

lemma good_row: "good_batch n b \<Longrightarrow> i < n \<Longrightarrow> good_batch 1 (batch_row b i)"
  by (frule good_batch_lengths)
    (auto simp: good_batch_def validate_batch_def Let_def batch_size_def batch_row_def
      list_all_row split: if_splits)

lemma row_schema [simp]: "eb_schema (batch_row b i) = eb_schema b"
  by (simp add: batch_row_def)

lemma assign_schema [simp]: "eb_schema (assign_row b i r) = eb_schema b"
  by (simp add: assign_row_def)

lemma list_all_update: "list_all P xs \<Longrightarrow> P x \<Longrightarrow> list_all P (xs[i := x])"
  by (cases "i < length xs") (auto simp: list_all_length nth_list_update)

lemma good_assign:
  assumes "good_batch n b" "good_batch 1 r" "eb_schema r = eb_schema b"
  shows "good_batch n (assign_row b i r)"
proof -
  obtain g f m t h where r: "eb_global_features r = [g]" "eb_body_features r = [f]" "eb_body_mask r = [m]"
      "eb_source_tick r = [t]" "eb_health_flags r = [h]"
    using good_batch_lengths [OF assms(2)] by (auto simp: length_Suc_conv)
  show ?thesis using assms r
    by (auto simp: good_batch_def validate_batch_def Let_def batch_size_def assign_row_def list_all_update
      split: if_splits)
qed

lemma row_one: "length xs = Suc 0 \<Longrightarrow> [hd xs] = xs"
  by (cases xs) auto

lemma take_one: "i < length xs \<Longrightarrow> take (Suc 0) (drop i xs) = [xs ! i]"
  by (simp add: take_Suc_conv_app_nth)

lemma row_assign_same:
  assumes "good_batch n b" "good_batch 1 r" "eb_schema r = eb_schema b" "i < n"
  shows "batch_row (assign_row b i r) i = r"
  using good_batch_lengths [OF assms(1)] good_batch_lengths [OF assms(2)] assms(3,4)
  by (cases r) (auto simp: batch_row_def assign_row_def take_one row_one)

lemma take_other: "i \<noteq> j \<Longrightarrow> take (Suc 0) (drop j (xs[i := x])) = take (Suc 0) (drop j xs)"
  by (cases "j < length xs") (auto simp: take_one)

lemma row_assign_other: "i \<noteq> j \<Longrightarrow> batch_row (assign_row b i r) j = batch_row b j"
  by (simp add: batch_row_def assign_row_def take_other)

lemma assign_rows_upto:
  assumes "good_batch n b" "k \<le> n" "length rows = n"
    and rows: "\<And>i. i < n \<Longrightarrow> good_batch 1 (rows ! i) \<and> eb_schema (rows ! i) = eb_schema b"
  shows "good_batch n (fold (\<lambda>i b. assign_row b i (rows ! i)) [0..<k] b) \<and>
    eb_schema (fold (\<lambda>i b. assign_row b i (rows ! i)) [0..<k] b) = eb_schema b \<and>
    (\<forall>i<n. batch_row (fold (\<lambda>i b. assign_row b i (rows ! i)) [0..<k] b) i =
       (if i < k then rows ! i else batch_row b i))"
  using assms(2)
proof (induction k)
  case (Suc k)
  let ?c = "fold (\<lambda>i b. assign_row b i (rows ! i)) [0..<k] b"
  have IH: "good_batch n ?c" "eb_schema ?c = eb_schema b"
      "\<And>i. i < n \<Longrightarrow> batch_row ?c i = (if i < k then rows ! i else batch_row b i)"
    using Suc by simp_all
  have k: "good_batch 1 (rows ! k)" "eb_schema (rows ! k) = eb_schema ?c" using rows [of k] Suc.prems IH(2) by auto
  show ?case
    using good_assign [OF IH(1) k] IH row_assign_same [OF IH(1) k, of k] row_assign_other [of k _ ?c "rows ! k"] Suc.prems
    by (auto simp: less_Suc_eq)
qed (use assms(1) in simp)

lemma assign_rows_ok:
  assumes "good_batch n b" "length rows = n"
    and "\<And>i. i < n \<Longrightarrow> good_batch 1 (rows ! i) \<and> eb_schema (rows ! i) = eb_schema b"
  shows "good_batch n (assign_rows rows b)" "eb_schema (assign_rows rows b) = eb_schema b"
    "\<And>i. i < n \<Longrightarrow> batch_row (assign_rows rows b) i = rows ! i"
  using assign_rows_upto [OF assms(1) order.refl assms(2,3)] by (simp_all add: assign_rows_def assms(2))

text \<open>The worlds a call can reach by running the transform and the encoder.\<close>

inductive observes :: "('w, 'o) backend \<Rightarrow> 'w \<Rightarrow> 'w \<Rightarrow> bool" for B w where
  observes_refl [intro, simp]: "observes B w w"
| observes_encode: "observes B w v \<Longrightarrow> vb_encode B vs v = (r, v') \<Longrightarrow> observes B w v'"
| observes_transform: "observes B w v \<Longrightarrow> vb_transform B = Some f \<Longrightarrow> f xs v = (r, v') \<Longrightarrow> observes B w v'"

lemma observes_trans: "observes B v u \<Longrightarrow> observes B w v \<Longrightarrow> observes B w u"
  by (induction rule: observes.induct) (blast intro: observes_encode observes_transform)+

text \<open>The encoder returned the batch for these observations, transformed where there is a transform.\<close>

definition encodes :: "('w, 'o) backend \<Rightarrow> 'o raw_obs list \<Rightarrow> encoded_batch \<Rightarrow> bool" where
  "encodes B obs b \<longleftrightarrow> (\<exists>vs w w'. vb_encode B vs w = (Inr b, w') \<and> length vs = length obs \<and>
     (vb_transform B = None \<longrightarrow> vs = obs))"

text \<open>The batch of one the encoder returned for an observation.\<close>

definition row_of :: "('w, 'o) backend \<Rightarrow> 'o raw_obs \<Rightarrow> encoded_batch \<Rightarrow> bool" where
  "row_of B o' row \<longleftrightarrow> (\<exists>obs b k. encodes B obs b \<and> k < length obs \<and> obs ! k = o' \<and> row = batch_row b k)"

lemma row_ofI: "encodes B obs b \<Longrightarrow> k < length obs \<Longrightarrow> row_of B (obs ! k) (batch_row b k)"
  by (auto simp: row_of_def)

text \<open>What \<open>_encode\<close> returns.\<close>

definition fits :: "'w adapter \<Rightarrow> nat \<Rightarrow> encoded_batch \<Rightarrow> bool" where
  "fits s n b \<longleftrightarrow> good_batch n b \<and> (av_schema s = None \<or> av_schema s = Some (eb_schema b))"

lemma encode_wp:
  assumes "books s0 s" and Q: "\<And>b t. books s0 t \<Longrightarrow> fits s0 (length obs) b \<Longrightarrow> length obs = length lanes \<Longrightarrow>
      encodes B obs b \<Longrightarrow> observes B (av_world s) (av_world t) \<Longrightarrow> Q b t"
    and E: "\<And>e t. books s0 t \<Longrightarrow> E e t"
  shows "wp (encode_obs B obs lanes ph acts) Q E s"
proof -
  have tail: "wp (pbind (plift (validate_batch b)) (\<lambda>_.
     pbind (pguard (batch_size b \<noteq> length obs) (value_error ''encoder changed batch length'')) (\<lambda>_.
     pbind (pget av_schema) (\<lambda>schema.
     pbind (pguard (schema \<noteq> None \<and> schema \<noteq> Some (eb_schema b))
       (value_error ''encoder changed schema during a rollout'')) (\<lambda>_. pret b))))) Q E t"
    if t: "books s0 t" "length obs = length lanes" "encodes B obs b" "observes B (av_world s) (av_world t)" for b t
    using E [OF t(1)] Q [OF t(1) _ t(2-4)] books_fields(5) [OF t(1)]
    by (auto simp: wp_simps fits_def good_batch_def split: sum.splits)
  have encode: "wp (pbind (on_backend (vb_encode B vs)) (\<lambda>b. pbind (plift (validate_batch b)) (\<lambda>_.
     pbind (pguard (batch_size b \<noteq> length obs) (value_error ''encoder changed batch length'')) (\<lambda>_.
     pbind (pget av_schema) (\<lambda>schema.
     pbind (pguard (schema \<noteq> None \<and> schema \<noteq> Some (eb_schema b))
       (value_error ''encoder changed schema during a rollout'')) (\<lambda>_. pret b)))))) Q E t"
    if t: "books s0 t" "length obs = length lanes" "length vs = length obs" "vb_transform B = None \<longrightarrow> vs = obs"
      "observes B (av_world s) (av_world t)" for vs t
    unfolding wp_pbind
  proof (rule wp_backend_eq [OF t(1)], goal_cases)
    case (1 b t')
    have "encodes B obs b" unfolding encodes_def using 1(2) t(3,4) by (intro exI [of _ vs] exI [of _ "av_world t"] exI [of _ "av_world t'"]) simp
    from tail [OF 1(1) t(2) this observes_encode [OF t(5) 1(2)]] show ?case by (simp add: wp_pbind)
  qed (use E in simp)
  show ?thesis
  proof (cases "vb_transform B")
    case None
    then show ?thesis unfolding encode_obs_def Let_def
      using assms(1) E encode [of s obs] by (simp add: wp_pbind wp_pguard wp_pret)
  next
    case (Some f)
    have "wp (pbind (on_backend (f xs)) (\<lambda>vs. pbind (pguard (length vs \<noteq> length obs)
        (value_error ''observation transform changed batch length'')) (\<lambda>_.
     pbind (on_backend (vb_encode B vs)) (\<lambda>b. pbind (plift (validate_batch b)) (\<lambda>_.
     pbind (pguard (batch_size b \<noteq> length obs) (value_error ''encoder changed batch length'')) (\<lambda>_.
     pbind (pget av_schema) (\<lambda>schema.
     pbind (pguard (schema \<noteq> None \<and> schema \<noteq> Some (eb_schema b))
       (value_error ''encoder changed schema during a rollout'')) (\<lambda>_. pret b))))))))  Q E s"
      if "length obs = length lanes" for xs
      unfolding wp_pbind [of "on_backend (f xs)"]
      by (rule wp_backend_eq [OF assms(1)], unfold wp_pbind [of "pguard _ _"] wp_pguard)
        (use E encode that Some observes_transform [OF observes_refl Some] in auto)
    then show ?thesis unfolding encode_obs_def Let_def Some option.case
      using assms(1) E by (cases "length obs = length lanes") (simp_all add: wp_pbind wp_pguard wp_pret)
  qed
qed

section \<open>Lists of lanes\<close>

lemma assign_lanes_length [simp]: "length (assign_lanes lanes ys xs) = length xs"
  by (simp add: assign_lanes_def)

lemma assign_lanes_other: "i < length xs \<Longrightarrow> i \<notin> set lanes \<Longrightarrow> assign_lanes lanes ys xs ! i = xs ! i"
  by (auto simp: assign_lanes_def split: option.split dest!: map_of_SomeD dest: set_zip_leftD)

lemma map_of_zip_nth: "distinct lanes \<Longrightarrow> length ys = length lanes \<Longrightarrow> k < length lanes \<Longrightarrow>
    map_of (zip lanes ys) (lanes ! k) = Some (ys ! k)"
  by (rule map_of_is_SomeI) (auto simp: in_set_zip)

lemma assign_lanes_nth: "distinct lanes \<Longrightarrow> length ys = length lanes \<Longrightarrow> k < length lanes \<Longrightarrow>
    lanes ! k < length xs \<Longrightarrow> assign_lanes lanes ys xs ! (lanes ! k) = ys ! k"
  by (simp add: assign_lanes_def map_of_zip_nth)

lemma rmap_nth: "rmap f xs = Inr ys \<Longrightarrow> i < length xs \<Longrightarrow> f (xs ! i) = Inr (ys ! i)"
  by (auto simp: rmap_Inr dest: list_all2_nthD)

lemma wp_rmap: "(\<And>ys. rmap f xs = Inr ys \<Longrightarrow> length ys = length xs \<Longrightarrow> Q ys s) \<Longrightarrow> (\<And>e. rmap f xs = Inl e \<Longrightarrow> E e s) \<Longrightarrow>
    wp (plift (rmap f xs)) Q E s"
  by (auto simp: wp_plift rmap_length split: sum.split)

lemma wp_require: "(list_all (\<lambda>k. k = n) ls \<Longrightarrow> Q () s) \<Longrightarrow> (\<And>e. E e s) \<Longrightarrow> wp (require_lengths n ls) Q E s"
  by (auto simp: require_lengths_def wp_simps list_ex_iff list_all_iff)

section \<open>The full-width primitive\<close>

text \<open>What the code knows of a result of the environment: one entry for each lane.\<close>

fun lanes_of :: "nat \<Rightarrow> 'o step_result \<Rightarrow> bool" where
  "lanes_of n (obs, rewards, te, tr, infos) \<longleftrightarrow>
     length obs = n \<and> length rewards = n \<and> length te = n \<and> length tr = n \<and> length infos = n"

text \<open>The entries of lane \<open>i\<close> in such a result.\<close>

fun lane_said :: "'o step_result \<Rightarrow> nat \<Rightarrow> 'o raw_obs \<Rightarrow> int \<Rightarrow> bool \<Rightarrow> bool \<Rightarrow> bool" where
  "lane_said (obs, rewards, te, tr, infos) i o' reward terminated truncated \<longleftrightarrow> i < length obs \<and> obs ! i = o' \<and>
     rewards ! i = Inr reward \<and> te ! i = terminated \<and> tr ! i = truncated"

text \<open>What the environment reported of lane \<open>i\<close> over a macro that began in world \<open>w\<close>: the entries of the
  full-width primitive, or, when the lane fired and was alive, those of its release with the sum of
  the two rewards.\<close>

inductive reported :: "('w, 'o) backend \<Rightarrow> 'w \<Rightarrow> primitive list \<Rightarrow> nat \<Rightarrow> string list \<Rightarrow> 'o raw_obs \<Rightarrow> int \<Rightarrow>
    bool \<Rightarrow> bool \<Rightarrow> bool" for B w ps i where
  reported_first: "vb_step B ps w = (Inr res, w1) \<Longrightarrow> lane_said res i o' reward te tr \<Longrightarrow>
     reported B w ps i [phase] o' reward te tr"
| reported_release: "vb_step B ps w = (Inr res, w1) \<Longrightarrow> lane_said res i o1 reward1 False False \<Longrightarrow>
     observes B w1 w2 \<Longrightarrow>
     vb_step_many B lanes (replicate (length lanes) (release (vb_action_spec B))) w2 = (Inr res2, w3) \<Longrightarrow>
     k < length lanes \<Longrightarrow> lanes ! k = i \<Longrightarrow> lane_said res2 k o' reward te tr \<Longrightarrow>
     reported B w ps i [phase, ''release''] o' (reward1 + reward) te tr"

lemma run_first_wp:
  assumes "books s0 s"
  shows "wp (run_first B vs ps) (\<lambda>(first, res) t. books s0 t \<and> lanes_of (vb_num_envs B) res \<and>
     (\<forall>b. first = Some b \<longrightarrow> fits s0 (vb_num_envs B) b \<and> encodes B (fst res) b) \<and>
     (\<exists>w. vb_step B ps (av_world s) = (Inr res, w) \<and> observes B w (av_world t))) (\<lambda>_. av_poisoned) s"
  unfolding run_first_def Let_def
proof (rule wp_shut, unfold wp_pbind, rule wp_backend_eq [OF assms], goal_cases)
  case (1 x t)
  obtain obs rewards te tr infos where x: "x = (obs, rewards, te, tr, infos)" by (cases x)
  show ?case unfolding x prod.case wp_pbind
    by (rule wp_require, simp add: wp_simps, intro conjI impI)
      (use 1 x in \<open>auto simp: wp_simps intro!: encode_wp [of s0]\<close>)
qed simp

definition row_fits :: "'w adapter \<Rightarrow> macro \<Rightarrow> bool" where
  "row_fits s m \<longleftrightarrow> (\<forall>b. mc_encoded m = Some b \<longrightarrow> fits s 1 b)"

lemma fits_row: "fits s n b \<Longrightarrow> i < n \<Longrightarrow> fits s 1 (batch_row b i)"
  using good_row by (auto simp: fits_def)

text \<open>A lane's record holds the entries of a result.\<close>

definition holds :: "('w, 'o) backend \<Rightarrow> 'o step_result \<Rightarrow> nat \<Rightarrow> macro \<Rightarrow> bool" where
  "holds B res i m \<longleftrightarrow> lane_said res i (fst res ! i) (mc_reward m) (mc_terminated m) (mc_truncated m) \<and>
     read_obs (fst res ! i) = Inr (mc_end m) \<and> (\<forall>b. mc_encoded m = Some b \<longrightarrow> row_of B (fst res ! i) b)"

lemma read_first_Inr: "read_first B (a, row, o', reward, te, tr, info) = Inr m \<Longrightarrow> mc_encoded m = row \<and>
    mc_trace m = [first_phase a] \<and> reward = Inr (mc_reward m) \<and> read_obs o' = Inr (mc_end m) \<and>
    mc_terminated m = te \<and> mc_truncated m = tr"
  by (auto simp: read_first_def rbind_Inr)

lemma first_rows_length [simp]: "length (first_rows n first) = n"
  by (simp add: first_rows_def split: option.split)

lemma first_rows_fit: "(\<And>b. first = Some b \<Longrightarrow> fits s n b) \<Longrightarrow> i < n \<Longrightarrow> first_rows n first ! i = Some r \<Longrightarrow> fits s 1 r"
  using fits_row by (auto simp: first_rows_def split: option.splits)

lemma first_rows_of: "(\<And>b. first = Some b \<Longrightarrow> encodes B obs b) \<Longrightarrow> length obs = n \<Longrightarrow> i < n \<Longrightarrow>
    first_rows n first ! i = Some r \<Longrightarrow> row_of B (obs ! i) r"
  by (auto simp: first_rows_def row_ofI split: option.splits)

lemma read_all_wp:
  assumes s: "books s0 s" "length vs = vb_num_envs B" "lanes_of (vb_num_envs B) res"
    and f: "\<And>b. first = Some b \<Longrightarrow> fits s0 (vb_num_envs B) b \<and> encodes B (fst res) b"
  shows "wp (read_all B vs (first, res)) (\<lambda>ms t. t = s \<and> length ms = vb_num_envs B \<and>
     (\<forall>i<vb_num_envs B. row_fits s0 (ms ! i) \<and> mc_trace (ms ! i) = [first_phase (vs ! i)] \<and> holds B res i (ms ! i)))
     (\<lambda>_. av_poisoned) s"
proof -
  obtain obs rewards te tr infos where r: "res = (obs, rewards, te, tr, infos)" by (cases res)
  show ?thesis
    unfolding r read_all_def prod.case
  proof (rule wp_shut, rule wp_rmap, goal_cases)
    case (1 ms)
    have len: "length ms = vb_num_envs B" using 1(2) s r by simp
    have "row_fits s0 (ms ! i) \<and> mc_trace (ms ! i) = [first_phase (vs ! i)] \<and> holds B res i (ms ! i)"
      if i: "i < vb_num_envs B" for i
    proof -
      have "read_first B (vs ! i, first_rows (vb_num_envs B) first ! i, obs ! i, rewards ! i, te ! i, tr ! i, infos ! i) = Inr (ms ! i)"
        using rmap_nth [OF 1(1), of i] s r i by simp
      from read_first_Inr [OF this] first_rows_fit [of first s0 "vb_num_envs B" i] first_rows_of [of first B obs "vb_num_envs B" i] f i s(3)
      show ?thesis by (auto simp: row_fits_def holds_def r)
    qed
    with len s r show ?case by simp
  qed simp
qed

section \<open>The release\<close>

lemma stable_wp:
  assumes s: "books s0 s" "length ms = vb_num_envs B" and r: "\<And>i. i < length ms \<Longrightarrow> row_fits s0 (ms ! i) \<and> holds B res i (ms ! i)"
  shows "wp (encode_stable B vs (fst res) released ms) (\<lambda>ms' t. books s0 t \<and> length ms' = length ms \<and>
     observes B (av_world s) (av_world t) \<and>
     (\<forall>i<length ms. row_fits s0 (ms' ! i) \<and> holds B res i (ms' ! i) \<and> (\<exists>e. ms' ! i = (ms ! i)\<lparr>mc_encoded := e\<rparr>)))
     (\<lambda>_. av_poisoned) s"
proof -
  define stable where "stable = filter (\<lambda>i. i \<notin> set released) [0..<vb_num_envs B]"
  have same: "\<exists>e. m = m\<lparr>mc_encoded := e\<rparr>" for m :: macro by (rule exI [of _ "mc_encoded m"]) simp
  define put where "put b = assign_lanes stable
    (map (\<lambda>k. (ms ! (stable ! k))\<lparr>mc_encoded := Some (batch_row b k)\<rparr>) [0..<length stable]) ms" for b
  have enc: "row_fits s0 (put b ! i) \<and> holds B res i (put b ! i) \<and> (\<exists>e. put b ! i = (ms ! i)\<lparr>mc_encoded := e\<rparr>)"
    if b: "fits s0 (length stable) b" "encodes B (map ((!) (fst res)) stable) b" and i: "i < length ms" for b i
  proof (cases "i \<in> set stable")
    case False
    then show ?thesis using r [OF i] same by (simp add: put_def assign_lanes_other i)
  next
    case True
    then obtain k where k: "k < length stable" "i = stable ! k" by (auto simp: in_set_conv_nth)
    have "distinct stable" by (simp add: stable_def)
    then have "put b ! i = (ms ! i)\<lparr>mc_encoded := Some (batch_row b k)\<rparr>"
      unfolding put_def k(2) by (subst assign_lanes_nth) (use k i in auto)
    then show ?thesis using fits_row [OF b(1) k(1)] row_ofI [OF b(2), of k] r [OF i] k
      by (auto simp: row_fits_def holds_def)
  qed
  show ?thesis
  proof (cases "\<not> lane_independent B \<or> stable = []")
    case True
    then show ?thesis using s r same by (simp add: encode_stable_def Let_def wp_simps flip: stable_def)
  next
    case False
    then show ?thesis
      unfolding encode_stable_def Let_def stable_def [symmetric] put_def [symmetric] if_not_P [OF False]
      by (intro wp_shut, unfold wp_pbind, intro encode_wp [OF s(1)]) (use enc in \<open>auto simp: wp_simps put_def\<close>)
  qed
qed

text \<open>The world after a release whose reward \<open>int()\<close> does not accept.\<close>

definition unreadable_release :: "('w, 'o) backend \<Rightarrow> 'w \<Rightarrow> bool" where
  "unreadable_release B v \<longleftrightarrow> (\<exists>lanes w obs rewards te tr infos w' e.
     vb_step_many B lanes (replicate (length lanes) (release (vb_action_spec B))) w = (Inr (obs, rewards, te, tr, infos), w') \<and>
     observes B w' v \<and> Inl e \<in> set rewards)"

text \<open>The results of a release: those the environment returned in world \<open>w\<close>, read and encoded.\<close>

definition release_said :: "('w, 'o) backend \<Rightarrow> 'w adapter \<Rightarrow> nat list \<Rightarrow> 'w \<Rightarrow> 'w \<Rightarrow>
    (encoded_batch \<times> release_reading \<times> int res \<times> bool \<times> bool) list \<Rightarrow> bool" where
  "release_said B s lanes w v rs \<longleftrightarrow> length rs = length lanes \<and> (\<exists>obs rewards te tr infos w'.
     vb_step_many B lanes (replicate (length lanes) (release (vb_action_spec B))) w = (Inr (obs, rewards, te, tr, infos), w') \<and>
     observes B w' v \<and> length obs = length lanes \<and> length rewards = length lanes \<and>
     (\<forall>k<length lanes. \<exists>row r. rs ! k = (row, r, rewards ! k, te ! k, tr ! k) \<and> fits s 1 row \<and>
       row_of B (obs ! k) row \<and> read_obs (obs ! k) = Inr (rl_end r)))"

lemma read_release_Inr: "read_release B (o', info) = Inr r \<Longrightarrow> read_obs o' = Inr (rl_end r)"
  by (auto simp: read_release_def rbind_Inr)

lemma run_release_wp:
  assumes s: "books s0 s"
  shows "wp (run_release B vs released) (\<lambda>rs t. books s0 t \<and> release_said B s0 released (av_world s) (av_world t) rs)
     (\<lambda>_. av_poisoned) s"
  unfolding run_release_def Let_def
proof (rule wp_shut, unfold wp_pbind, rule wp_backend_eq [OF s], goal_cases)
  case (1 x t)
  obtain obs rewards te tr infos where x: "x = (obs, rewards, te, tr, infos)" by (cases x)
  show ?case unfolding x prod.case wp_pbind
  proof (rule wp_require, rule encode_wp [OF 1(1)], rule wp_rmap)
    fix b t' and ys :: "release_reading list"
    assume l: "list_all (\<lambda>k. k = length released) [length obs, length rewards, length te, length tr, length infos]"
      and b: "books s0 t'" "fits s0 (length obs) b" "encodes B obs b" "observes B (av_world t) (av_world t')"
      and ys: "length ys = length (zip obs infos)" "rmap (read_release B) (zip obs infos) = Inr ys"
    let ?rs = "zip (map (batch_row b) [0..<length released]) (zip ys (zip rewards (zip te tr)))"
    have "?rs ! k = (batch_row b k, ys ! k, rewards ! k, te ! k, tr ! k) \<and> fits s0 1 (batch_row b k) \<and>
        row_of B (obs ! k) (batch_row b k) \<and> read_obs (obs ! k) = Inr (rl_end (ys ! k))" if k: "k < length released" for k
      using l ys(1) k fits_row [OF b(2), of k] row_ofI [OF b(3), of k]
        read_release_Inr [of B "obs ! k" "infos ! k" "ys ! k"] rmap_nth [OF ys(2), of k] by simp
    moreover have "length ?rs = length released" using l ys(1) by simp
    ultimately have "release_said B s0 released (av_world s) (av_world t') ?rs"
      unfolding release_said_def using 1(2) l b(4) unfolding x by auto
    then show "wp (pret ?rs) (\<lambda>rs t. books s0 t \<and> release_said B s0 released (av_world s) (av_world t) rs) (\<lambda>_ _. True) t'"
      using b by (simp add: wp_simps)
  qed simp_all
qed simp

text \<open>A released lane's record: the results of the release, its reward added.\<close>

definition released_from :: "('w, 'o) backend \<Rightarrow> 'w adapter \<Rightarrow> nat list \<Rightarrow> 'w \<Rightarrow> nat \<Rightarrow> macro \<Rightarrow> macro \<Rightarrow> bool" where
  "released_from B s lanes w i m m' \<longleftrightarrow> row_fits s m' \<and> mc_trace m' = mc_trace m @ [''release''] \<and>
     (\<exists>res w' k o' reward. vb_step_many B lanes (replicate (length lanes) (release (vb_action_spec B))) w = (Inr res, w') \<and>
       k < length lanes \<and> lanes ! k = i \<and> lane_said res k o' reward (mc_terminated m') (mc_truncated m') \<and>
       mc_reward m' = mc_reward m + reward \<and> read_obs o' = Inr (mc_end m') \<and>
       (\<forall>b. mc_encoded m' = Some b \<longrightarrow> row_of B o' b))"

lemma merge_Inr: "merge_release m (row, r, reward, te, tr) = Inr m' \<Longrightarrow> \<exists>n. reward = Inr n \<and> mc_encoded m' = Some row \<and>
    mc_end m' = rl_end r \<and> mc_reward m' = mc_reward m + n \<and> mc_terminated m' = te \<and> mc_truncated m' = tr \<and>
    mc_trace m' = mc_trace m @ [''release'']"
  by (auto simp: merge_release_def rbind_Inr)

lemma merge_released:
  assumes "release_said B s lanes w v rs" "k < length lanes" "merge_release m (rs ! k) = Inr m'"
  shows "released_from B s lanes w (lanes ! k) m m'"
proof -
  obtain obs rewards te tr infos w' row r where
    run: "vb_step_many B lanes (replicate (length lanes) (release (vb_action_spec B))) w = (Inr (obs, rewards, te, tr, infos), w')"
    and k: "length obs = length lanes" "rs ! k = (row, r, rewards ! k, te ! k, tr ! k)" "fits s 1 row" "row_of B (obs ! k) row"
      "read_obs (obs ! k) = Inr (rl_end r)"
    using assms(1,2) unfolding release_said_def by metis
  from merge_Inr [OF assms(3) [unfolded k(2)]] obtain n where n: "rewards ! k = Inr n" "mc_encoded m' = Some row"
    "mc_end m' = rl_end r" "mc_reward m' = mc_reward m + n" "mc_terminated m' = te ! k" "mc_truncated m' = tr ! k"
    "mc_trace m' = mc_trace m @ [''release'']" by blast
  then have "lane_said (obs, rewards, te, tr, infos) k (obs ! k) n (mc_terminated m') (mc_truncated m')"
    using assms(2) k(1) by simp
  with run show ?thesis unfolding released_from_def row_fits_def using assms(2) k n by (metis option.inject)
qed

lemma merge_raises:
  assumes "release_said B s lanes w v rs" "k < length lanes" "merge_release m (rs ! k) = Inl e"
  shows "unreadable_release B v"
proof -
  obtain obs rewards te tr infos w' row r where
    run: "vb_step_many B lanes (replicate (length lanes) (release (vb_action_spec B))) w = (Inr (obs, rewards, te, tr, infos), w')"
    and k: "observes B w' v" "length rewards = length lanes" "rs ! k = (row, r, rewards ! k, te ! k, tr ! k)"
    using assms(1,2) unfolding release_said_def by metis
  have "rewards ! k = Inl e" using assms(3) unfolding k(3) by (simp add: merge_release_def rbind_Inl)
  then have "Inl e \<in> set rewards" using k(2) assms(2) nth_mem [of k rewards] by simp
  then show ?thesis unfolding unreadable_release_def using run k(1) by blast
qed

lemma rmap_raises: "rmap f xs = Inl e \<Longrightarrow> \<exists>x \<in> set xs. f x = Inl e"
  by (induction xs) (auto simp: rbind_Inl)

text \<open>The state behind an exception of a step: closed, or with an unreadable release reward.\<close>

definition failed :: "('w, 'o) backend \<Rightarrow> 'w adapter \<Rightarrow> 'w adapter \<Rightarrow> bool" where
  "failed B s t \<longleftrightarrow> av_poisoned t \<or> books s t \<and> unreadable_release B (av_world t)"

lemma release_wp:
  assumes s: "books s0 s" and d: "distinct released" "\<And>i. i \<in> set released \<Longrightarrow> i < length ms"
  shows "wp (release_all B vs released ms) (\<lambda>ms' t. books s0 t \<and> length ms' = length ms \<and>
     (\<forall>i<length ms. if i \<in> set released then released_from B s0 released (av_world s) i (ms ! i) (ms' ! i) else ms' ! i = ms ! i))
     (\<lambda>_. failed B s0) s"
proof (cases "released = []")
  case False
  show ?thesis unfolding release_all_def if_not_P [OF False] wp_pbind
  proof (rule wp_mono [OF run_release_wp [OF s]], goal_cases)
    case (1 rs t)
    then have rs: "books s0 t" "release_said B s0 released (av_world s) (av_world t) rs" "length rs = length released"
      by (auto simp: release_said_def)
    show ?case
    proof (rule wp_rmap, goal_cases)
      case (1 merged)
      note m = 1
      have len: "length merged = length released" using m rs by simp
      have "released_from B s0 released (av_world s) i (ms ! i) (assign_lanes released merged ms ! i)" if i: "i \<in> set released" for i
      proof -
        obtain k where k: "k < length released" "i = released ! k" using i by (auto simp: in_set_conv_nth)
        have "merge_release (ms ! i) (rs ! k) = Inr (merged ! k)"
          using rmap_nth [OF m(1), of k] k rs by simp
        moreover have "assign_lanes released merged ms ! i = merged ! k"
          unfolding k(2) by (rule assign_lanes_nth) (use d len k in auto)
        ultimately show ?thesis using merge_released [OF rs(2) k(1)] k(2) by simp
      qed
      then show ?case using rs by (auto simp: wp_simps assign_lanes_other)
    next
      case (2 e)
      from rmap_raises [OF this] obtain k where "k < length released" "merge_release (ms ! (released ! k)) (rs ! k) = Inl e"
        using rs(3) by (auto simp: in_set_zip)
      with merge_raises [OF rs(2)] rs(1) show ?case by (auto simp: failed_def)
    qed
  qed (simp add: failed_def)
qed (simp add: release_all_def wp_simps s)

section \<open>The checks\<close>

definition checked :: "'w adapter \<Rightarrow> nat \<Rightarrow> macro \<Rightarrow> bool" where
  "checked s i m \<longleftrightarrow> \<not> mc_invalid m \<and> mc_encoded m \<noteq> None \<and> av_raw_ticks s ! i < rd_tick (mc_end m) \<and>
     mc_reward m = rd_score (mc_end m) - av_raw_scores s ! i \<and> 0 < rd_gauge_max (mc_end m) \<and>
     rd_gauge_max (mc_end m) = av_raw_gauge_maxes s ! i"

lemma not_ex_zip: "\<not> list_ex (\<lambda>(x, y). P x y) (zip xs ys) \<Longrightarrow> length xs = length ys \<Longrightarrow> i < length ys \<Longrightarrow> \<not> P (xs ! i) (ys ! i)"
  by (auto simp: list_ex_iff in_set_zip)

lemma check_wp:
  assumes s: "books s0 s" and l: "length (av_raw_ticks s0) = length ms" "length (av_raw_scores s0) = length ms"
    "length (av_raw_gauge_maxes s0) = length ms"
  shows "wp (check_macros s0 ms) (\<lambda>_ t. books s0 t \<and> (\<forall>i<length ms. checked s0 i (ms ! i))) (\<lambda>_. av_poisoned) s"
proof -
  have "checked s0 i (ms ! i)" if "i < length ms" "\<not> list_ex mc_invalid ms" "\<not> list_ex (\<lambda>m. mc_encoded m = None) ms"
    "\<not> list_ex (\<lambda>k. k \<le> 0) (elapsed (av_raw_ticks s0) ms)"
    "\<not> list_ex (\<lambda>(start, m). mc_reward m \<noteq> rd_score (mc_end m) - start) (zip (av_raw_scores s0) ms)"
    "\<not> list_ex (\<lambda>m. rd_gauge_max (mc_end m) \<le> 0) ms"
    "\<not> list_ex (\<lambda>(start, m). start \<noteq> rd_gauge_max (mc_end m)) (zip (av_raw_gauge_maxes s0) ms)" for i
  proof -
    have "\<not> list_ex (\<lambda>(start, m). rd_tick (mc_end m) - start \<le> 0) (zip (av_raw_ticks s0) ms)"
      using that(4) by (auto simp: elapsed_def list_ex_iff)
    then have "\<not> rd_tick (mc_end (ms ! i)) - av_raw_ticks s0 ! i \<le> 0"
      by (rule not_ex_zip [OF _ l(1) that(1)])
    moreover have "ms ! i \<in> set ms" using that(1) by simp
    ultimately show ?thesis
      using that(2,3,6) not_ex_zip [OF that(5) l(2) that(1)] not_ex_zip [OF that(7) l(3) that(1)]
      by (auto simp: checked_def list_ex_iff)
  qed
  then show ?thesis using s by (auto simp: check_macros_def wp_simps)
qed

section \<open>Autoreset\<close>

text \<open>The episode seeds an allocator hands to a batch of lanes.\<close>

definition next_seeds :: "seed_allocator \<Rightarrow> nat \<Rightarrow> int list" where
  "next_seeds a n = map (seed_at a) [sa_cursor a .. sa_cursor a + int n - 1]"

definition advanced :: "seed_allocator \<Rightarrow> nat \<Rightarrow> seed_allocator" where
  "advanced a n = a\<lparr>sa_cursor := sa_cursor a + int n\<rparr>"

lemma next_seeds_length [simp]: "length (next_seeds a n) = n"
  by (simp add: next_seeds_def)

lemma reserved_next: "sa_reserve a (PyInt (int n)) = Inr r \<Longrightarrow>
    sr_seeds r = next_seeds a n \<and> sa_commit a r = Inr (advanced a n) \<and> sa_cursor a + int n \<le> ss_size (sa_split a)"
  by (auto simp: reserve_Inr commit_Inr next_seeds_def advanced_def intro!: exI [of _ "int n"])

definition with_seeds :: "seed_allocator \<Rightarrow> 'w adapter \<Rightarrow> 'w adapter" where
  "with_seeds a s = s\<lparr>av_seed_allocator := a\<rparr>"

lemma with_seeds_same [simp]: "with_seeds (av_seed_allocator s) s = s"
  by (simp add: with_seeds_def)

lemma books_commit: "books s0 s \<Longrightarrow> books (with_seeds a s0) (s\<lparr>av_seed_allocator := a\<rparr>)"
  by (cases s; cases s0) (simp add: books_def with_seeds_def)

definition reset_ok :: "'w adapter \<Rightarrow> lane_reset \<Rightarrow> bool" where
  "reset_ok s r \<longleftrightarrow> fits s 1 (lr_encoded r) \<and> 0 < rd_gauge_max (lr_start r)"

definition window_ok :: "seed_allocator \<Rightarrow> nat \<Rightarrow> bool" where
  "window_ok a n \<longleftrightarrow> sa_cursor a + int n \<le> ss_size (sa_split a)"

text \<open>The initialization the environment, or the initializer, returned for these lanes.\<close>

definition initialized_by :: "('w, 'o) backend \<Rightarrow> nat list \<Rightarrow> 'o episode_initialization \<Rightarrow> bool" where
  "initialized_by B lanes i \<longleftrightarrow> en_lane_ids i = lanes \<and> (\<exists>w w'. case vb_initializer B of
       None \<Rightarrow> vb_reset_many B lanes (en_seeds i) w = (Inr (en_observations i), w') \<and>
         en_labels i = replicate (length lanes) []
     | Some p \<Rightarrow> ep_initialize p lanes w = (Inr i, w'))"

text \<open>The reset of the \<open>k\<close>-th of the lanes: the first observation, encoded, the seed and the label of
  that initialization.\<close>

definition started :: "('w, 'o) backend \<Rightarrow> nat list \<Rightarrow> nat \<Rightarrow> lane_reset \<Rightarrow> bool" where
  "started B lanes k r \<longleftrightarrow> (\<exists>i. initialized_by B lanes i \<and> lr_seed r = en_seeds i ! k \<and>
     lr_label r = en_labels i ! k \<and> read_obs (en_observations i ! k) = Inr (lr_start r) \<and>
     row_of B (en_observations i ! k) (lr_encoded r))"

text \<open>What an autoreset of these lanes leaves: the allocator advanced when no initializer chooses the
  episodes, and the resets.\<close>

definition reset_result :: "('w, 'o) backend \<Rightarrow> 'w adapter \<Rightarrow> nat list \<Rightarrow> lane_reset list \<Rightarrow> 'w adapter \<Rightarrow> bool" where
  "reset_result B s lanes rs t \<longleftrightarrow> (let k = length lanes in length rs = k \<and>
     (\<forall>j<k. reset_ok s (rs ! j) \<and> started B lanes j (rs ! j)) \<and>
     (if vb_initializer B = None \<and> k \<noteq> 0 then books (with_seeds (advanced (av_seed_allocator s) k) s) t \<and>
        map lr_seed rs = next_seeds (av_seed_allocator s) k \<and> window_ok (av_seed_allocator s) k
      else books s t))"

lemma read_reset_Inr: "read_reset b i k = Inr r \<Longrightarrow> lr_encoded r = batch_row b k \<and> lr_seed r = en_seeds i ! k \<and>
    lr_label r = en_labels i ! k \<and> read_obs (en_observations i ! k) = Inr (lr_start r) \<and> 0 < rd_gauge_max (lr_start r)"
  by (auto simp: read_reset_def rbind_Inr split: if_splits)

definition reserved_for :: "('w, 'o) backend \<Rightarrow> seed_allocator \<Rightarrow> nat \<Rightarrow> seed_reservation option
    \<Rightarrow> 'o episode_initialization \<Rightarrow> bool" where
  "reserved_for B a n r i \<longleftrightarrow> (case r of
     None \<Rightarrow> vb_initializer B \<noteq> None
   | Some x \<Rightarrow> vb_initializer B = None \<and> sa_reserve a (PyInt (int n)) = Inr x \<and> en_seeds i = sr_seeds x)"

lemma initialized_wp:
  assumes "books s0 s"
  shows "wp (initialized_episodes p lanes c) (\<lambda>i t. books s0 t \<and> en_lane_ids i = lanes \<and>
     (\<exists>w w'. ep_initialize p lanes w = (Inr i, w'))) (\<lambda>_. books s0) s"
  unfolding initialized_episodes_def wp_pbind
  by (rule wp_backend_eq [OF assms]) (auto simp: wp_simps)

lemma reset_episodes_wp:
  assumes "books s0 s"
  shows "wp (reset_episodes B lanes) (\<lambda>(r, i) t. books s0 t \<and> reserved_for B (av_seed_allocator s0) (length lanes) r i \<and>
     initialized_by B lanes i) (\<lambda>_. books s0) s"
proof (cases "vb_initializer B")
  case None
  have "wp (pbind (on_backend (vb_reset_many B lanes (sr_seeds x))) (\<lambda>obs. pret (Some x,
       \<lparr>en_lane_ids = lanes, en_observations = obs, en_seeds = sr_seeds x, en_labels = replicate (length lanes) []\<rparr>)))
     (\<lambda>(r, i) t. books s0 t \<and> reserved_for B (av_seed_allocator s0) (length lanes) r i \<and> initialized_by B lanes i)
     (\<lambda>_. books s0) s" if "sa_reserve (av_seed_allocator s0) (PyInt (int (length lanes))) = Inr x" for x
    unfolding wp_pbind
    by (rule wp_backend_eq [OF assms]) (use that None in \<open>auto simp: wp_simps reserved_for_def initialized_by_def\<close>)
  then show ?thesis using None assms
    by (auto simp: reset_episodes_def reserve_seeds_def wp_pbind wp_pget wp_plift books_fields(1) [OF assms]
        split: sum.split)
next
  case (Some p)
  show ?thesis unfolding reset_episodes_def Some option.case wp_pbind
    by (rule wp_mono [OF initialized_wp [OF assms]]) (auto simp: wp_simps reserved_for_def initialized_by_def Some)
qed

lemma autoreset_body_wp:
  assumes "books s0 s"
  shows "wp (autoreset_body B lanes) (\<lambda>(r, rs) t. books s0 t \<and> length rs = length lanes \<and>
     (\<forall>j<length lanes. reset_ok s0 (rs ! j) \<and> started B lanes j (rs ! j)) \<and>
     (\<exists>i. reserved_for B (av_seed_allocator s0) (length lanes) r i \<and> map lr_seed rs = map ((!) (en_seeds i)) [0..<length lanes]))
    (\<lambda>_ _. True) s"
  unfolding autoreset_body_def wp_pbind
proof (rule wp_mono [OF reset_episodes_wp [OF assms]], goal_cases)
  case (1 x t)
  obtain r i where x: "x = (r, i)" by (cases x)
  have got: "books s0 t" "reserved_for B (av_seed_allocator s0) (length lanes) r i" "initialized_by B lanes i" using 1 x by auto
  show ?case unfolding x prod.case wp_pbind
  proof (rule wp_require, rule encode_wp [OF got(1)], rule wp_rmap)
    fix b t' and rs :: "lane_reset list"
    assume l: "list_all (\<lambda>k. k = length lanes) [length (en_observations i)]"
      and b: "books s0 t'" "fits s0 (length (en_observations i)) b" "encodes B (en_observations i) b"
      and rs: "rmap (read_reset b i) [0..<length lanes] = Inr rs" "length rs = length [0..<length lanes]"
    have row: "lr_encoded (rs ! k) = batch_row b k \<and> lr_seed (rs ! k) = en_seeds i ! k \<and> lr_label (rs ! k) = en_labels i ! k \<and>
        read_obs (en_observations i ! k) = Inr (lr_start (rs ! k)) \<and> 0 < rd_gauge_max (lr_start (rs ! k))"
      if "k < length lanes" for k using read_reset_Inr [of b i k "rs ! k"] rmap_nth [OF rs(1), of k] that by simp
    then have "reset_ok s0 (rs ! k) \<and> started B lanes k (rs ! k)" if "k < length lanes" for k
      using that fits_row [OF b(2), of k] row_ofI [OF b(3), of k] got(3) l
      by (auto simp: reset_ok_def started_def intro!: exI [of _ i])
    moreover have "map lr_seed rs = map ((!) (en_seeds i)) [0..<length lanes]"
      using row rs(2) by (intro nth_equalityI) auto
    ultimately show "wp (pret (r, rs)) (\<lambda>(r, rs) t. books s0 t \<and> length rs = length lanes \<and>
     (\<forall>j<length lanes. reset_ok s0 (rs ! j) \<and> started B lanes j (rs ! j)) \<and>
     (\<exists>i. reserved_for B (av_seed_allocator s0) (length lanes) r i \<and> map lr_seed rs = map ((!) (en_seeds i)) [0..<length lanes]))
     (\<lambda>_ _. True) t'"
      using b(1) rs(2) got(2) by (auto simp: wp_simps)
  qed simp_all
qed simp

lemma undo_shuts: "wp (undo_pending B lanes e) (\<lambda>_ _. False) (\<lambda>_. av_poisoned) s"
proof -
  have "wp m (\<lambda>_ _. True) (\<lambda>_ _. True) s" for m :: "('w adapter, unit) py" and s by simp
  then show ?thesis
    by (auto simp: undo_pending_def wp_simps closed_def split: option.split intro!: wpI)
qed

lemma autoreset_wp:
  assumes "books s0 s"
  shows "wp (autoreset B lanes) (\<lambda>rs. reset_result B s0 lanes rs) (\<lambda>_. av_poisoned) s"
proof (cases "lanes = []")
  case False
  show ?thesis unfolding autoreset_def if_not_P [OF False] wp_pbind wp_pcatch_base
  proof (rule wp_mono [OF autoreset_body_wp [OF assms]], goal_cases)
    case (1 x t)
    obtain r rs where x: "x = (r, rs)" by (cases x)
    obtain i where i: "reserved_for B (av_seed_allocator s0) (length lanes) r i"
      "map lr_seed rs = map ((!) (en_seeds i)) [0..<length lanes]" using 1 x by auto
    show ?case
    proof (cases r)
      case None
      then show ?thesis using 1 i False x by (auto simp: wp_simps reset_result_def Let_def reserved_for_def)
    next
      case (Some y)
      note y = reserved_next [of "av_seed_allocator s0" "length lanes" y]
      have "map ((!) (next_seeds a n)) [0..<n] = next_seeds a n" for a n
        by (rule nth_equalityI) simp_all
      then show ?thesis using 1 i False x Some y books_fields(1) [of s0 t] books_commit [of s0 t]
        by (auto simp: wp_simps reset_result_def Let_def reserved_for_def commit_seeds_def window_ok_def)
    qed
  next
    case (2 e t)
    show ?case by (rule wp_mono [OF undo_shuts]) auto
  qed
qed (simp add: autoreset_def wp_simps assms reset_result_def)

end
