(* ===== verification/Vector_Step.thy ===== *)
theory Vector_Step
  imports Vector_Lanes
begin

text \<open>
  The step as a whole: the well-formed adapter, the account a transition gives of its lane, and the
  proof that a step that returns accounts for every lane and one that raises fails closed.
\<close>

section \<open>What a step does\<close>

text \<open>Every initialization the initializer returns has one seed and one label for each lane; the code
  does not check their number.  Without an initializer there is nothing to require.\<close>

definition full_episodes :: "('w, 'o) backend \<Rightarrow> bool" where
  "full_episodes B \<longleftrightarrow> (\<forall>p lanes w i w'. vb_initializer B = Some p \<longrightarrow> ep_initialize p lanes w = (Inr i, w') \<longrightarrow>
     length (en_seeds i) = length lanes \<and> length (en_labels i) = length lanes)"

text \<open>A well-formed adapter: once initialized it holds one value of every field for each lane; of the
  seeds and the labels where the initializer returns one for each lane.\<close>

definition adapter_ok :: "('w, 'o) backend \<Rightarrow> 'w adapter \<Rightarrow> bool" where
  "adapter_ok B s \<longleftrightarrow> allocator_ok (av_seed_allocator s) \<and> (av_initialized s \<longrightarrow> (let n = vb_num_envs B in
     (\<exists>b. av_current s = Some b \<and> good_batch n b \<and> av_schema s = Some (eb_schema b)) \<and>
     length (av_raw_ticks s) = n \<and> length (av_raw_scores s) = n \<and> length (av_raw_gauges s) = n \<and>
     length (av_raw_gauge_maxes s) = n \<and> length (av_episode_ids s) = n \<and>
     (\<forall>m \<in> set (av_raw_gauge_maxes s). 0 < m) \<and>
     (full_episodes B \<longrightarrow> length (av_seeds s) = n \<and> length (av_episode_labels s) = n)))"

lemma full_episodes_none [simp]: "vb_initializer B = None \<Longrightarrow> full_episodes B"
  by (simp add: full_episodes_def)

definition mt_done :: "macro_transition \<Rightarrow> bool" where
  "mt_done x \<longleftrightarrow> mt_terminated x \<or> mt_truncated x"

text \<open>The primitives a lane ran: a wait is one primitive; a shot is a press, then a release unless
  the episode ended with the press.\<close>

definition primitives_ok :: "macro_transition \<Rightarrow> bool" where
  "primitives_ok x \<longleftrightarrow> (if is_wait (mt_action x) then mt_primitive_trace x = [''wait'']
     else mt_primitive_trace x = [''press'', ''release''] \<or> mt_primitive_trace x = [''press''] \<and> mt_done x)"

text \<open>What the environment reported of lane \<open>i\<close> over the macro: the transition's flags and reward are
  the reported ones, its end is the observation reported last, and so is its next observation; the
  reward is the change of the lane's score, whether or not the episode ended.\<close>

definition reports :: "('w, 'o) backend \<Rightarrow> 'w adapter \<Rightarrow> primitive list \<Rightarrow> nat \<Rightarrow> macro_transition \<Rightarrow> bool" where
  "reports B s ps i x \<longleftrightarrow> (\<exists>o' r. reported B (av_world s) ps i (mt_primitive_trace x) o' (mt_raw_reward x)
       (mt_terminated x) (mt_truncated x) \<and> read_obs o' = Inr r \<and> row_of B o' (mt_transition_next_observation x) \<and>
     rd_tick r = mt_end_tick x \<and> rd_gauge r = mt_end_gauge x \<and> rd_gauge_max r = mt_gauge_max x \<and>
     mt_raw_reward x = rd_score r - av_raw_scores s ! i)"

text \<open>The transition of lane \<open>i\<close>, read off the adapter before the step and the environment's report.\<close>

definition accounts :: "('w, 'o) backend \<Rightarrow> 'w adapter \<Rightarrow> encoded_batch \<Rightarrow> valid_action list \<Rightarrow> primitive list \<Rightarrow> nat
    \<Rightarrow> macro_transition \<Rightarrow> bool" where
  "accounts B s cur vs ps i x \<longleftrightarrow> reports B s ps i x \<and> mt_lane_id x = i \<and> mt_action x = vs ! i \<and> mt_observation x = batch_row cur i \<and>
     mt_episode_id x = av_episode_ids s ! i \<and> mt_seed x = av_seeds s ! i \<and>
     mt_episode_label x = av_episode_labels s ! i \<and> mt_start_tick x = av_raw_ticks s ! i \<and>
     0 < mt_elapsed_ticks x \<and> mt_end_tick x = mt_start_tick x + mt_elapsed_ticks x \<and>
     mt_start_gauge x = av_raw_gauges s ! i \<and> mt_gauge_max x = av_raw_gauge_maxes s ! i \<and>
     \<not> mt_invalid_action x \<and> primitives_ok x \<and>
     mt_macro_interrupted x = (mt_done x \<and> (if is_wait (mt_action x)
       then mt_elapsed_ticks x < va_wait_ticks (mt_action x) else mt_primitive_trace x = [''press''])) \<and>
     mt_bootstrap_mask x = (\<not> mt_terminated x \<and> (\<not> mt_macro_interrupted x \<or> is_wait (mt_action x))) \<and>
     mt_trace_mask x = (\<not> mt_done x) \<and>
     mt_final_observation x = (if mt_done x then Some (mt_transition_next_observation x) else None)"

text \<open>Lane \<open>i\<close> of the adapter after the step: it stands at the end of the transition, or at the start
  of the episode the environment or the initializer began.\<close>

definition moves :: "('w, 'o) backend \<Rightarrow> 'w adapter \<Rightarrow> nat \<Rightarrow> macro_transition \<Rightarrow> 'w adapter \<Rightarrow> bool" where
  "moves B s i x t \<longleftrightarrow> batch_row (the (av_current t)) i = mt_next_policy_observation x \<and>
     (if mt_done x
      then av_episode_ids t ! i = av_episode_ids s ! i + 1 \<and> 0 < av_raw_gauge_maxes t ! i \<and>
        (\<exists>lanes k r. k < length lanes \<and> lanes ! k = i \<and> started B lanes k r \<and>
           mt_next_policy_observation x = lr_encoded r \<and> av_seeds t ! i = lr_seed r \<and>
           av_episode_labels t ! i = lr_label r \<and> av_raw_ticks t ! i = rd_tick (lr_start r) \<and>
           av_raw_scores t ! i = rd_score (lr_start r) \<and> av_raw_gauges t ! i = rd_gauge (lr_start r) \<and>
           av_raw_gauge_maxes t ! i = rd_gauge_max (lr_start r))
      else av_episode_ids t ! i = av_episode_ids s ! i \<and> av_seeds t ! i = av_seeds s ! i \<and>
        av_episode_labels t ! i = av_episode_labels s ! i \<and> av_raw_ticks t ! i = mt_end_tick x \<and>
        av_raw_scores t ! i = av_raw_scores s ! i + mt_raw_reward x \<and> av_raw_gauges t ! i = mt_end_gauge x \<and>
        av_raw_gauge_maxes t ! i = av_raw_gauge_maxes s ! i \<and>
        mt_next_policy_observation x = mt_transition_next_observation x)"

definition done_lanes :: "macro_transition list \<Rightarrow> nat list" where
  "done_lanes ts = filter (\<lambda>i. mt_done (ts ! i)) [0..<length ts]"

text \<open>The seeds of the episodes a step starts.\<close>

definition reseeds :: "('w, 'o) backend \<Rightarrow> 'w adapter \<Rightarrow> nat list \<Rightarrow> 'w adapter \<Rightarrow> bool" where
  "reseeds B s lanes t \<longleftrightarrow> (if vb_initializer B = None \<and> lanes \<noteq> []
     then av_seed_allocator t = advanced (av_seed_allocator s) (length lanes) \<and>
       map ((!) (av_seeds t)) lanes = next_seeds (av_seed_allocator s) (length lanes) \<and>
       window_ok (av_seed_allocator s) (length lanes)
     else av_seed_allocator t = av_seed_allocator s)"

definition stepped :: "('w, 'o) backend \<Rightarrow> 'w adapter \<Rightarrow> encoded_batch \<Rightarrow> valid_action list
    \<Rightarrow> primitive list \<Rightarrow> macro_transition list \<Rightarrow> 'w adapter \<Rightarrow> bool" where
  "stepped B s cur vs ps ts t \<longleftrightarrow> length ts = vb_num_envs B \<and>
     (\<forall>i<vb_num_envs B. accounts B s cur vs ps i (ts ! i) \<and> moves B s i (ts ! i) t) \<and>
     reseeds B s (done_lanes ts) t \<and> av_poisoned t = av_poisoned s \<and> av_initialized t = av_initialized s \<and>
     av_schema t = av_schema s \<and> length (av_seeds t) = length (av_seeds s) \<and>
     av_mutation_generation t = av_mutation_generation s + 1 \<and> adapter_ok B t"

lemmas stepped_simps = accounts_def moves_def mt_done_def primitives_ok_def

section \<open>Putting the step together\<close>

text \<open>A completed lane, before the autoreset.\<close>

definition said :: "('w, 'o) backend \<Rightarrow> 'w adapter \<Rightarrow> primitive list \<Rightarrow> nat \<Rightarrow> macro \<Rightarrow> bool" where
  "said B s ps i m \<longleftrightarrow> (\<exists>o'. reported B (av_world s) ps i (mc_trace m) o' (mc_reward m) (mc_terminated m) (mc_truncated m) \<and>
     read_obs o' = Inr (mc_end m) \<and> (\<forall>b. mc_encoded m = Some b \<longrightarrow> row_of B o' b))"

definition completed :: "('w, 'o) backend \<Rightarrow> 'w adapter \<Rightarrow> valid_action list \<Rightarrow> primitive list \<Rightarrow> nat \<Rightarrow> macro \<Rightarrow> bool" where
  "completed B s vs ps i m \<longleftrightarrow> row_fits s m \<and> checked s i m \<and> said B s ps i m \<and>
     (if is_wait (vs ! i) then mc_trace m = [''wait'']
      else mc_trace m = [''press'', ''release''] \<or> mc_trace m = [''press''] \<and> mc_done m)"

text \<open>The lane as the full-width primitive and the encoding of the stable lanes left it.\<close>

definition begun :: "('w, 'o) backend \<Rightarrow> 'w adapter \<Rightarrow> 'o step_result \<Rightarrow> nat \<Rightarrow> valid_action \<Rightarrow> macro \<Rightarrow> bool" where
  "begun B s res i a m \<longleftrightarrow> row_fits s m \<and> mc_trace m = [first_phase a] \<and> holds B res i m"

lemma said_first:
  assumes "vb_step B ps (av_world s) = (Inr res, w1)" "begun B s res i a m"
  shows "said B s ps i m"
  using assms reported_first [of B ps "av_world s" res w1 i]
  by (auto simp: said_def begun_def holds_def intro!: exI [of _ "fst res ! i"])

lemma said_release:
  assumes "vb_step B ps (av_world s) = (Inr res, w1)" "begun B s res i a m" "\<not> mc_done m" "observes B w1 w2"
    and "released_from B s lanes w2 i m m'"
  shows "said B s ps i m'"
proof -
  obtain res2 w' k o' reward where r:
    "vb_step_many B lanes (replicate (length lanes) (release (vb_action_spec B))) w2 = (Inr res2, w')"
    "k < length lanes" "lanes ! k = i" "lane_said res2 k o' reward (mc_terminated m') (mc_truncated m')"
    "mc_reward m' = mc_reward m + reward" "read_obs o' = Inr (mc_end m')" "\<forall>b. mc_encoded m' = Some b \<longrightarrow> row_of B o' b"
    using assms(5) unfolding released_from_def by blast
  have "lane_said res i (fst res ! i) (mc_reward m) False False" "mc_trace m' = [first_phase a, ''release'']"
    using assms(2,3,5) by (auto simp: begun_def holds_def mc_done_def released_from_def)
  with reported_release [OF assms(1) this(1) assms(4) r(1-4)] r(5-7) show ?thesis
    by (auto simp: said_def)
qed

lemma shape_after_release:
  assumes "length ms0 = n" "length vs = n" "i < n" "mc_trace (ms0 ! i) = [first_phase (vs ! i)]"
    and "\<exists>e. ms1 ! i = (ms0 ! i)\<lparr>mc_encoded := e\<rparr>" "begun B s res i (vs ! i) (ms1 ! i)"
    and "if i \<in> set (release_lanes vs ms0) then released_from B s (release_lanes vs ms0) w2 i (ms1 ! i) m else m = ms1 ! i"
    and "checked s i m" and w: "vb_step B ps (av_world s) = (Inr res, w1)" "observes B w1 w2"
  shows "completed B s vs ps i m"
proof -
  have r: "i \<in> set (release_lanes vs ms0) \<longleftrightarrow> \<not> is_wait (vs ! i) \<and> \<not> mc_done (ms0 ! i)"
    using assms(1-3) by (auto simp: release_lanes_def)
  have d: "mc_done (ms1 ! i) = mc_done (ms0 ! i)" using assms(5) by (auto simp: mc_done_def)
  have "said B s ps i m"
  proof (cases "i \<in> set (release_lanes vs ms0)")
    case True
    then show ?thesis using said_release [OF w(1) assms(6) _ w(2)] r d assms(7) by auto
  next
    case False
    then show ?thesis using said_first [OF w(1) assms(6)] assms(7) by simp
  qed
  then show ?thesis using r assms(4-8)
    by (auto simp: completed_def begun_def released_from_def first_phase_def mc_done_def split: if_splits)
qed

lemma map_of_lanes:
  assumes "length rs = length (filter P [0..<n])" "i < n"
  shows "P i \<Longrightarrow> \<exists>k<length rs. filter P [0..<n] ! k = i \<and> map_of (zip (filter P [0..<n]) rs) i = Some (rs ! k)"
    and "\<not> P i \<Longrightarrow> map_of (zip (filter P [0..<n]) rs) i = None"
proof -
  assume "P i"
  then obtain k where k: "k < length (filter P [0..<n])" "i = filter P [0..<n] ! k"
    using assms(2) in_set_conv_nth [of i "filter P [0..<n]"] by auto
  have "map_of (zip (filter P [0..<n]) rs) (filter P [0..<n] ! k) = Some (rs ! k)"
    by (rule map_of_zip_nth) (use assms k in auto)
  then show "\<exists>k<length rs. filter P [0..<n] ! k = i \<and> map_of (zip (filter P [0..<n]) rs) i = Some (rs ! k)"
    using k assms(1) by auto
next
  assume "\<not> P i"
  then show "map_of (zip (filter P [0..<n]) rs) i = None" using assms(1) by (simp add: map_of_zip_is_None)
qed

lemma transition_fields:
  assumes "make_transition s cur resets i a m = Inr x"
  shows "mt_lane_id x = i" "mt_episode_id x = av_episode_ids s ! i" "mt_seed x = av_seeds s ! i"
    "mt_observation x = batch_row cur i" "mt_action x = a" "mt_primitive_trace x = mc_trace m"
    "mt_raw_reward x = mc_reward m" "mt_start_gauge x = av_raw_gauges s ! i"
    "mt_end_gauge x = rd_gauge (mc_end m)" "mt_gauge_max x = av_raw_gauge_maxes s ! i"
    "mt_elapsed_ticks x = rd_tick (mc_end m) - av_raw_ticks s ! i" "mt_start_tick x = av_raw_ticks s ! i"
    "mt_end_tick x = rd_tick (mc_end m)" "mt_terminated x = mc_terminated m"
    "mt_truncated x = mc_truncated m"
    "mt_macro_interrupted x = interrupted a (rd_tick (mc_end m) - av_raw_ticks s ! i) m"
    "mt_transition_next_observation x = the (mc_encoded m)"
    "mt_final_observation x = (if mc_done m then Some (the (mc_encoded m)) else None)"
    "mt_next_policy_observation x = (case resets i of Some r \<Rightarrow> lr_encoded r | None \<Rightarrow> the (mc_encoded m))"
    "mt_bootstrap_mask x = (\<not> mc_terminated m \<and> (\<not> mt_macro_interrupted x \<or> is_wait a))"
    "mt_trace_mask x = (\<not> mc_done m)" "mt_invalid_action x = mc_invalid m"
    "mt_episode_label x = av_episode_labels s ! i"
    "i < length (av_seeds s)" "i < length (av_episode_labels s)"
proof -
  from assms have l: "i < length (av_seeds s)" "i < length (av_episode_labels s)"
    by (auto simp: make_transition_def Let_def split: if_splits)
  then show "i < length (av_seeds s)" "i < length (av_episode_labels s)" by auto
  from l have "\<not> (length (av_seeds s) \<le> i \<or> length (av_episode_labels s) \<le> i)" by simp
  note x = assms [unfolded make_transition_def Let_def if_not_P [OF this] sum.inject, symmetric]
  show "mt_lane_id x = i" "mt_episode_id x = av_episode_ids s ! i" "mt_seed x = av_seeds s ! i"
    "mt_observation x = batch_row cur i" "mt_action x = a" "mt_primitive_trace x = mc_trace m"
    "mt_raw_reward x = mc_reward m" "mt_start_gauge x = av_raw_gauges s ! i"
    "mt_end_gauge x = rd_gauge (mc_end m)" "mt_gauge_max x = av_raw_gauge_maxes s ! i"
    "mt_elapsed_ticks x = rd_tick (mc_end m) - av_raw_ticks s ! i" "mt_start_tick x = av_raw_ticks s ! i"
    "mt_end_tick x = rd_tick (mc_end m)" "mt_terminated x = mc_terminated m"
    "mt_truncated x = mc_truncated m"
    "mt_macro_interrupted x = interrupted a (rd_tick (mc_end m) - av_raw_ticks s ! i) m"
    "mt_transition_next_observation x = the (mc_encoded m)"
    "mt_final_observation x = (if mc_done m then Some (the (mc_encoded m)) else None)"
    "mt_next_policy_observation x = (case resets i of Some r \<Rightarrow> lr_encoded r | None \<Rightarrow> the (mc_encoded m))"
    "mt_bootstrap_mask x = (\<not> mc_terminated m \<and> (\<not> mt_macro_interrupted x \<or> is_wait a))"
    "mt_trace_mask x = (\<not> mc_done m)" "mt_invalid_action x = mc_invalid m"
    "mt_episode_label x = av_episode_labels s ! i"
    by (simp_all add: x)
qed

lemma transition_accounts:
  assumes f: "make_transition s cur resets i (vs ! i) m = Inr x" and c: "completed B s vs ps i m"
  shows "accounts B s cur vs ps i x" "av_raw_scores s ! i + mt_raw_reward x = rd_score (mc_end m)"
    "mt_done x = mc_done m"
proof -
  note fields = transition_fields [OF f]
  from c have k: "\<not> mc_invalid m" "av_raw_ticks s ! i < rd_tick (mc_end m)"
    "mc_reward m = rd_score (mc_end m) - av_raw_scores s ! i" "rd_gauge_max (mc_end m) = av_raw_gauge_maxes s ! i"
    and e: "mc_encoded m = Some (the (mc_encoded m))" and sd: "said B s ps i m"
    and shape: "if is_wait (vs ! i) then mc_trace m = [''wait'']
      else mc_trace m = [''press'', ''release''] \<or> mc_trace m = [''press''] \<and> mc_done m"
    by (simp_all add: completed_def checked_def)
  show d: "mt_done x = mc_done m" by (simp add: mt_done_def mc_done_def fields)
  show "av_raw_scores s ! i + mt_raw_reward x = rd_score (mc_end m)" using k by (simp add: fields)
  have p: "primitives_ok x" using shape by (simp add: primitives_ok_def d fields split: if_splits)
  have cut: "mt_macro_interrupted x = (mt_done x \<and> (if is_wait (mt_action x)
       then mt_elapsed_ticks x < va_wait_ticks (mt_action x) else mt_primitive_trace x = [''press'']))"
    using shape by (auto simp: interrupted_def d fields split: if_splits)
  have r: "reports B s ps i x" unfolding reports_def fields(6,7,9,10,13-15,17)
    using sd e k(3,4) unfolding said_def by metis
  show "accounts B s cur vs ps i x"
    unfolding accounts_def cut [symmetric] d using p k d cut r by (simp add: fields)
qed

lemma next_field_length [simp]: "length (next_field resets ms f k) = length ms"
  by (simp add: next_field_def)

lemma next_field_nth [simp]: "i < length ms \<Longrightarrow>
    next_field resets ms f k ! i = (if mc_done (ms ! i) then f (the (resets i)) else k i)"
  by (simp add: next_field_def)

text \<open>The results of the completed lanes and of the autoreset, and the update they make.\<close>

definition ready :: "('w, 'o) backend \<Rightarrow> 'w adapter \<Rightarrow> encoded_batch \<Rightarrow> valid_action list \<Rightarrow> primitive list \<Rightarrow> macro list
    \<Rightarrow> (nat \<Rightarrow> lane_reset option) \<Rightarrow> lane_reset list \<Rightarrow> macro_transition list \<Rightarrow> bool" where
  "ready B s cur vs ps ms resets fresh ts \<longleftrightarrow> (let n = vb_num_envs B; lanes = filter (\<lambda>i. mc_done (ms ! i)) [0..<n] in
     length ms = n \<and> length ts = n \<and> length fresh = length lanes \<and> resets = map_of (zip lanes fresh) \<and>
     (\<forall>i<n. completed B s vs ps i (ms ! i) \<and> make_transition s cur resets i (vs ! i) (ms ! i) = Inr (ts ! i)) \<and>
     (\<forall>k<length lanes. reset_ok s (fresh ! k) \<and> started B lanes k (fresh ! k)))"

lemma ready_lane:
  assumes "ready B s cur vs ps ms resets fresh ts" "i < vb_num_envs B"
  shows "completed B s vs ps i (ms ! i)" "make_transition s cur resets i (vs ! i) (ms ! i) = Inr (ts ! i)"
    "mc_done (ms ! i) \<Longrightarrow> \<exists>lanes k r. k < length lanes \<and> lanes ! k = i \<and> resets i = Some r \<and> reset_ok s r \<and> started B lanes k r"
    "\<not> mc_done (ms ! i) \<Longrightarrow> resets i = None"
proof -
  let ?l = "filter (\<lambda>i. mc_done (ms ! i)) [0..<vb_num_envs B]"
  note m = map_of_lanes [of fresh "\<lambda>i. mc_done (ms ! i)" "vb_num_envs B" i]
  show "completed B s vs ps i (ms ! i)" "make_transition s cur resets i (vs ! i) (ms ! i) = Inr (ts ! i)"
    "\<not> mc_done (ms ! i) \<Longrightarrow> resets i = None" using assms m(2) by (auto simp: ready_def Let_def)
  assume "mc_done (ms ! i)"
  with m(1) assms obtain k where "k < length fresh" "?l ! k = i" "resets i = Some (fresh ! k)"
    by (auto simp: ready_def Let_def)
  then show "\<exists>lanes k r. k < length lanes \<and> lanes ! k = i \<and> resets i = Some r \<and> reset_ok s r \<and> started B lanes k r"
    using assms(1) by (intro exI [of _ ?l] exI [of _ k] exI [of _ "fresh ! k"]) (simp add: ready_def Let_def)
qed

lemma adopt_fields [simp]:
  "av_poisoned (adopt_step resets ms ts t) = av_poisoned t" "av_initialized (adopt_step resets ms ts t) = av_initialized t"
  "av_schema (adopt_step resets ms ts t) = av_schema t" "av_seed_allocator (adopt_step resets ms ts t) = av_seed_allocator t"
  "av_mutation_generation (adopt_step resets ms ts t) = av_mutation_generation t + 1"
  "av_current (adopt_step resets ms ts t) = map_option (assign_rows (map mt_next_policy_observation ts)) (av_current t)"
  "av_seeds (adopt_step resets ms ts t) = next_field resets ms lr_seed ((!) (av_seeds t)) @ drop (length ms) (av_seeds t)"
  "av_episode_labels (adopt_step resets ms ts t) = next_field resets ms lr_label ((!) (av_episode_labels t)) @ drop (length ms) (av_episode_labels t)"
  "av_episode_ids (adopt_step resets ms ts t) = map (\<lambda>i. av_episode_ids t ! i + (if mc_done (ms ! i) then 1 else 0)) [0..<length ms]"
  "av_raw_ticks (adopt_step resets ms ts t) = next_field resets ms (rd_tick \<circ> lr_start) (\<lambda>i. rd_tick (mc_end (ms ! i)))"
  "av_raw_scores (adopt_step resets ms ts t) = next_field resets ms (rd_score \<circ> lr_start) (\<lambda>i. rd_score (mc_end (ms ! i)))"
  "av_raw_gauges (adopt_step resets ms ts t) = next_field resets ms (rd_gauge \<circ> lr_start) (\<lambda>i. rd_gauge (mc_end (ms ! i)))"
  "av_raw_gauge_maxes (adopt_step resets ms ts t) = next_field resets ms (rd_gauge_max \<circ> lr_start) (\<lambda>i. rd_gauge_max (mc_end (ms ! i)))"
  by (simp_all add: adopt_step_def)

lemma ready_rows:
  assumes r: "ready B s cur vs ps ms resets fresh ts" and b: "good_batch (vb_num_envs B) b" "av_schema s = Some (eb_schema b)"
    and i: "i < vb_num_envs B"
  shows "good_batch 1 (map mt_next_policy_observation ts ! i) \<and>
    eb_schema (map mt_next_policy_observation ts ! i) = eb_schema b"
proof -
  have l: "length ts = vb_num_envs B" using r by (simp add: ready_def Let_def)
  note f = transition_fields(19) [OF ready_lane(2) [OF r i]]
  have c: "fits s 1 (the (mc_encoded (ms ! i)))"
    using ready_lane(1) [OF r i] by (auto simp: completed_def checked_def row_fits_def)
  show ?thesis
  proof (cases "mc_done (ms ! i)")
    case True
    then show ?thesis using ready_lane(3) [OF r i] f b(2) l i by (auto simp: reset_ok_def fits_def)
  next
    case False
    then show ?thesis using ready_lane(4) [OF r i] f c b(2) l i by (auto simp: fits_def)
  qed
qed

lemma adopt_moves:
  assumes r: "ready B s cur vs ps ms resets fresh ts" and ok: "adapter_ok B s" "av_initialized s" "av_current s = Some cur"
    and t: "books (with_seeds a s) t" and i: "i < vb_num_envs B"
  shows "moves B s i (ts ! i) (adopt_step resets ms ts t)"
proof -
  have l: "length ts = vb_num_envs B" "length ms = vb_num_envs B" using r by (simp_all add: ready_def Let_def)
  note bf = books_fields [OF t, unfolded with_seeds_def, simplified]
  note f = transition_fields [OF ready_lane(2) [OF r i]]
  note a = transition_accounts [OF ready_lane(2,1) [OF r i]]
  have b: "good_batch (vb_num_envs B) cur" "av_schema s = Some (eb_schema cur)"
    using ok by (auto simp: adapter_ok_def Let_def)
  have c: "checked s i (ms ! i)" using ready_lane(1) [OF r i] by (simp add: completed_def)
  have cur: "batch_row (assign_rows (map mt_next_policy_observation ts) cur) i = mt_next_policy_observation (ts ! i)"
    using assign_rows_ok(3) [OF b(1) _ ready_rows [OF r b]] l i by simp
  show ?thesis
  proof (cases "mc_done (ms ! i)")
    case True
    obtain lanes k z where z: "k < length lanes" "lanes ! k = i" "resets i = Some z" "reset_ok s z" "started B lanes k z"
      using ready_lane(3) [OF r i True] by blast
    have "\<exists>lanes k r. k < length lanes \<and> lanes ! k = i \<and> started B lanes k r \<and> z = r" using z by blast
    then show ?thesis using cur z(3,4) True i l f a ok(3)
      by (auto simp: moves_def bf reset_ok_def nth_append)
  next
    case False
    then show ?thesis using cur ready_lane(4) [OF r i] i l f a ok(3) c
      by (auto simp: moves_def bf nth_append checked_def)
  qed
qed

lemma adopt_ok:
  assumes r: "ready B s cur vs ps ms resets fresh ts" and ok: "adapter_ok B s" "av_initialized s" "av_current s = Some cur"
    and t: "books (with_seeds a s) t" and a: "allocator_ok a"
  shows "adapter_ok B (adopt_step resets ms ts t)"
proof -
  have l: "length ts = vb_num_envs B" "length ms = vb_num_envs B" using r by (simp_all add: ready_def Let_def)
  note bf = books_fields [OF t, unfolded with_seeds_def, simplified]
  have b: "good_batch (vb_num_envs B) cur" "av_schema s = Some (eb_schema cur)"
    using ok by (auto simp: adapter_ok_def Let_def)
  have g: "0 < next_field resets ms (rd_gauge_max \<circ> lr_start) (\<lambda>i. rd_gauge_max (mc_end (ms ! i))) ! i"
    if "i < vb_num_envs B" for i
    using ready_lane(1,3) [OF r that] l that by (auto simp: completed_def checked_def reset_ok_def)
  have "full_episodes B \<Longrightarrow> length (av_seeds s) = vb_num_envs B \<and> length (av_episode_labels s) = vb_num_envs B"
    using ok(1,2) by (simp add: adapter_ok_def Let_def)
  with assign_rows_ok(1,2) [OF b(1) _ ready_rows [OF r b]] show ?thesis
    using l g a ok(3) b(2)
    by (auto simp: adapter_ok_def Let_def bf all_set_conv_all_nth)
qed

lemma ready_done: "ready B s cur vs ps ms resets fresh ts \<Longrightarrow>
    done_lanes ts = filter (\<lambda>i. mc_done (ms ! i)) [0..<vb_num_envs B]"
proof -
  assume r: "ready B s cur vs ps ms resets fresh ts"
  then have "length ts = vb_num_envs B" by (simp add: ready_def Let_def)
  then show ?thesis unfolding done_lanes_def
    by (auto intro!: filter_cong transition_accounts(3) [OF ready_lane(2,1) [OF r]])
qed

lemma adopt_reseeds:
  assumes r: "ready B s cur vs ps ms resets fresh ts" and t: "reset_result B s (done_lanes ts) fresh t"
  shows "reseeds B s (done_lanes ts) (adopt_step resets ms ts t)"
proof -
  let ?d = "done_lanes ts"
  have l: "length ms = vb_num_envs B" "length fresh = length ?d" "resets = map_of (zip ?d fresh)"
    using r ready_done [OF r] by (simp_all add: ready_def Let_def)
  have "next_field resets ms lr_seed ((!) (av_seeds t)) ! (?d ! k) = lr_seed (fresh ! k)" if k: "k < length ?d" for k
  proof -
    have d: "?d ! k < vb_num_envs B" "mc_done (ms ! (?d ! k))"
      using nth_mem [OF k] ready_done [OF r] by auto
    have "distinct ?d" by (simp add: ready_done [OF r])
    from map_of_zip_nth [OF this l(2) k] show ?thesis using d l by simp
  qed
  moreover have "?d ! k < length ms" if "k < length ?d" for k using nth_mem [OF that] ready_done [OF r] l by auto
  ultimately have "map ((!) (av_seeds (adopt_step resets ms ts t))) ?d = map lr_seed fresh"
    using l(2) by (intro nth_equalityI) (auto simp: nth_append)
  then show ?thesis using t books_fields(1) [of s t] books_fields(1) [of _ t]
    by (auto simp: reseeds_def reset_result_def Let_def with_seeds_def split: if_splits)
qed

lemma adopt_stepped:
  assumes r: "ready B s cur vs ps ms resets fresh ts" and ok: "adapter_ok B s" "av_initialized s" "av_current s = Some cur"
    and t: "reset_result B s (done_lanes ts) fresh t"
  shows "stepped B s cur vs ps ts (adopt_step resets ms ts t)"
proof -
  obtain a where a: "books (with_seeds a s) t" "allocator_ok a"
  proof (cases "vb_initializer B = None \<and> length (done_lanes ts) \<noteq> 0")
    case True
    then show ?thesis using t ok(1) that [of "advanced (av_seed_allocator s) (length (done_lanes ts))"]
      by (auto simp: reset_result_def Let_def adapter_ok_def window_ok_def advanced_def allocator_ok_def)
  next
    case False
    then show ?thesis using t ok(1) that [of "av_seed_allocator s"] by (auto simp: reset_result_def Let_def adapter_ok_def)
  qed
  note bf = books_fields [OF a(1), unfolded with_seeds_def, simplified]
  have l: "length ts = vb_num_envs B" "length ms = vb_num_envs B" using r by (simp_all add: ready_def Let_def)
  have "vb_num_envs B \<le> length (av_seeds s)"
    using transition_fields(24) [OF ready_lane(2) [OF r]] by (metis not_le_imp_less less_irrefl)
  then show ?thesis
    unfolding stepped_def
    using l adopt_moves [OF r ok a(1)] adopt_ok [OF r ok a] adopt_reseeds [OF r t]
      transition_accounts(1) [OF ready_lane(2,1) [OF r]]
    by (auto simp: bf)
qed

lemma completed_lanes:
  assumes "length vs = n" "length ms0 = n" "length ms1 = n" "length ms = n" "i < n"
    and "\<forall>i<n. row_fits s (ms0 ! i) \<and> mc_trace (ms0 ! i) = [first_phase (vs ! i)] \<and> holds B res i (ms0 ! i)"
    and "\<forall>i<n. row_fits s (ms1 ! i) \<and> holds B res i (ms1 ! i) \<and> (\<exists>e. ms1 ! i = (ms0 ! i)\<lparr>mc_encoded := e\<rparr>)"
    and "\<forall>i<n. if i \<in> set (release_lanes vs ms0) then released_from B s (release_lanes vs ms0) w2 i (ms1 ! i) (ms ! i)
      else ms ! i = ms1 ! i"
    and "\<forall>i<n. checked s i (ms ! i)" "vb_step B ps (av_world s) = (Inr res, w1)" "observes B w1 w2"
  shows "completed B s vs ps i (ms ! i)"
proof -
  have "begun B s res i (vs ! i) (ms1 ! i)" using assms(5-7) by (fastforce simp: begun_def)
  then show ?thesis using shape_after_release [of ms0 n vs i ms1 B s res w2 "ms ! i" ps w1] assms by simp
qed

lemma finish_wp:
  assumes ok: "adapter_ok B s0" "av_initialized s0" "av_current s0 = Some cur"
    and ms: "length ms = vb_num_envs B" "\<And>i. i < vb_num_envs B \<Longrightarrow> completed B s0 vs ps i (ms ! i)"
    and t: "reset_result B s0 lanes fresh t" "lanes = filter (\<lambda>i. mc_done (ms ! i)) [0..<vb_num_envs B]"
  shows "wp (pbind (closed (plift (rmap (\<lambda>i. make_transition s0 cur (map_of (zip lanes fresh)) i (vs ! i) (ms ! i)) [0..<vb_num_envs B])))
     (\<lambda>ts. pbind (pmod (adopt_step (map_of (zip lanes fresh)) ms ts)) (\<lambda>_. pret ts)))
     (stepped B s0 cur vs ps) (\<lambda>_. av_poisoned) t"
  unfolding wp_pbind
proof (rule wp_shut, rule wp_rmap, goal_cases)
  case (1 ts)
  have len: "length ts = vb_num_envs B" using 1 by simp
  have mk: "make_transition s0 cur (map_of (zip lanes fresh)) i (vs ! i) (ms ! i) = Inr (ts ! i)"
    if "i < vb_num_envs B" for i using rmap_nth [OF 1(1), of i] that by simp
  have ready: "ready B s0 cur vs ps ms (map_of (zip lanes fresh)) fresh ts"
    using ms len mk t by (auto simp: ready_def Let_def reset_result_def)
  have "done_lanes ts = lanes" using ready_done [OF ready] t(2) by simp
  with adopt_stepped [OF ready ok] t(1) show ?case by (simp add: wp_simps)
qed simp

text \<open>The step as a whole: a returned batch of transitions is accounted for lane by lane, and an
  exception leaves the adapter poisoned, unless the environment returned a release reward that
  is not a number.\<close>

lemma macro_wp:
  assumes ok: "adapter_ok B s0" "av_initialized s0" "av_current s0 = Some cur" and vs: "length vs = vb_num_envs B"
  shows "wp (macro_body B s0 cur vs ps) (stepped B s0 cur vs ps) (\<lambda>_. failed B s0) s0"
  unfolding macro_body_def Let_def wp_pbind
proof (rule wp_mono [OF run_first_wp [OF books_refl]], goal_cases)
  case (1 x t)
  obtain first res where x: "x = (first, res)" by (cases x)
  obtain w1 where f: "books s0 t" "lanes_of (vb_num_envs B) res"
    "\<And>b. first = Some b \<Longrightarrow> fits s0 (vb_num_envs B) b \<and> encodes B (fst res) b"
    "vb_step B ps (av_world s0) = (Inr res, w1)" "observes B w1 (av_world t)"
    using 1 x by auto
  have f4: "wp (read_all B vs x) (\<lambda>ms u. u = t \<and> length ms = vb_num_envs B \<and>
     (\<forall>i<vb_num_envs B. row_fits s0 (ms ! i) \<and> mc_trace (ms ! i) = [first_phase (vs ! i)] \<and> holds B res i (ms ! i)))
     (\<lambda>_. av_poisoned) t" unfolding x by (rule read_all_wp [OF f(1) vs f(2)]) (rule f(3))
  have fst: "fst (snd x) = fst res" by (simp add: x)
  show ?case
  proof (rule wp_mono [OF f4], goal_cases)
    case (1 ms0 t1)
    note r0 = 1
    have b0: "books s0 t1" "length ms0 = vb_num_envs B" using r0 f(1) by auto
    have rows: "\<And>i. i < length ms0 \<Longrightarrow> row_fits s0 (ms0 ! i) \<and> holds B res i (ms0 ! i)" using r0 by simp
    show ?case unfolding fst
    proof (rule wp_mono [OF stable_wp [OF b0 rows]], goal_cases)
      case (2 ms1 t2)
      note r1 = 2
      have b2: "books s0 t2" using r1 by simp
      have w2: "observes B w1 (av_world t2)" using r0 r1 f(5) observes_trans [of B "av_world t" "av_world t2" w1] by simp
      have d: "distinct (release_lanes vs ms0)" "\<And>i. i \<in> set (release_lanes vs ms0) \<Longrightarrow> i < length ms1"
        using r0 r1 vs by (auto simp: release_lanes_def)
      show ?case
      proof (rule wp_mono [OF release_wp [OF b2 d]], goal_cases)
        case (2 ms t3)
        note r2 = 2
        have l: "length ms = vb_num_envs B" using r0 r1 r2 by simp
        have b3: "books s0 t3" "length (av_raw_ticks s0) = length ms" "length (av_raw_scores s0) = length ms"
          "length (av_raw_gauge_maxes s0) = length ms" using r2 ok l by (auto simp: adapter_ok_def Let_def)
        show ?case
        proof (rule wp_mono [OF check_wp [OF b3]], goal_cases)
          case (1 u t4)
          note r3 = 1
          have c: "completed B s0 vs ps i (ms ! i)" if "i < vb_num_envs B" for i
            by (rule completed_lanes [OF vs, of ms0 ms1, OF _ _ _ _ _ _ _ _ f(4) w2]) (use r0 r1 r2 r3 l that in auto)
          have b4: "books s0 t4" using r3 by simp
          show ?case
          proof (rule wp_mono [OF autoreset_wp [OF b4]], goal_cases)
            case (1 fresh t5)
            show ?case
              by (rule wp_mono [OF finish_wp [unfolded wp_pbind, OF ok l c 1 refl]]) (simp_all add: failed_def wp_simps)
          qed (simp_all add: failed_def)
        qed (simp_all add: failed_def)
      qed (simp_all add: failed_def)
    qed (simp_all add: failed_def)
  qed (simp_all add: failed_def)
qed (simp_all add: failed_def)

lemma lower_length: "lower_actions A actions = Inr (vs, ps) \<Longrightarrow> length vs = length actions \<and> length ps = length actions"
  by (auto simp: lower_actions_def rbind_Inr dest!: rmap_length)

lemma step_wp:
  assumes ok: "adapter_ok B s"
  shows "wp (adapter_step B actions) (\<lambda>ts t. \<exists>cur vs ps. lower_actions (vb_action_spec B) actions = Inr (vs, ps) \<and>
       av_current s = Some cur \<and> av_initialized s \<and> \<not> av_poisoned s \<and> \<not> pending B s \<and> stepped B s cur vs ps ts t)
     (\<lambda>_ t. t = s \<or> failed B s t) s"
proof (cases "av_initialized s \<and> \<not> av_poisoned s \<and> \<not> pending B s \<and> length actions = vb_num_envs B")
  case True
  then obtain cur where cur: "av_current s = Some cur" using ok by (auto simp: adapter_ok_def Let_def)
  show ?thesis
  proof (cases "lower_actions (vb_action_spec B) actions")
    case (Inl e)
    then show ?thesis using True cur by (auto simp: adapter_step_def current_observation_def wp_simps)
  next
    case (Inr p)
    obtain vs ps where p: "p = (vs, ps)" by (cases p)
    have l: "length vs = vb_num_envs B" using lower_length Inr p True by auto
    have "wp (macro_body B s cur vs ps) (\<lambda>ts t. \<exists>cur vs ps. p = (vs, ps) \<and>
       av_current s = Some cur \<and> av_initialized s \<and> \<not> av_poisoned s \<and> \<not> pending B s \<and> stepped B s cur vs ps ts t)
     (\<lambda>_ t. t = s \<or> failed B s t) s"
      by (rule wp_mono [OF macro_wp [OF ok _ cur l]]) (use True cur p in auto)
    then show ?thesis using True cur Inr p
      by (simp add: adapter_step_def current_observation_def wp_simps)
  qed
next
  case False
  then show ?thesis using ok
    by (auto simp: adapter_step_def current_observation_def wp_simps adapter_ok_def Let_def split: option.split)
qed

section \<open>Reset\<close>

definition fresh_adapter :: "('w, 'o) backend \<Rightarrow> 'w adapter \<Rightarrow> encoded_batch \<Rightarrow> 'w adapter \<Rightarrow> bool" where
  "fresh_adapter B s b t \<longleftrightarrow> av_initialized t \<and> av_current t = Some b \<and> adapter_ok B t \<and> \<not> av_poisoned t \<and>
     av_episode_ids t = replicate (vb_num_envs B) 0 \<and>
     av_seed_allocator t = advanced (av_seed_allocator s) (vb_num_envs B) \<and>
     window_ok (av_seed_allocator s) (vb_num_envs B) \<and>
     av_mutation_generation t = av_mutation_generation s + 1"

lemma episodes_wp:
  assumes "books s0 s" and z: "z = active_initializer B d"
  shows "wp (case z of None \<Rightarrow> pret i0 | Some p \<Rightarrow> initialized_episodes p lanes c)
    (\<lambda>i t. books s0 t \<and> (z = None \<longrightarrow> i = i0) \<and>
      (z \<noteq> None \<longrightarrow> full_episodes B \<longrightarrow> length (en_seeds i) = length lanes \<and> length (en_labels i) = length lanes))
    (\<lambda>_ _. True) s"
proof (cases z)
  case (Some p)
  then have p: "vb_initializer B = Some p" using z by (auto simp: active_initializer_def split: if_splits)
  show ?thesis unfolding Some option.case
    by (rule wp_mono [OF initialized_wp [OF assms(1)]]) (use p in \<open>auto simp: full_episodes_def\<close>)
qed (simp add: wp_simps assms)

lemma reset_body_wp:
  assumes "books s0 s"
  shows "wp (reset_body B d seeds) (\<lambda>(b, rs, i) t. books s0 t \<and> fits s0 (vb_num_envs B) b \<and> length rs = vb_num_envs B \<and>
     (\<forall>r \<in> set rs. 0 < rd_gauge_max r) \<and> (active_initializer B d = None \<longrightarrow> en_seeds i = seeds) \<and>
     (full_episodes B \<and> length seeds = vb_num_envs B \<longrightarrow> length (en_seeds i) = vb_num_envs B \<and> length (en_labels i) = vb_num_envs B)) (\<lambda>_ _. True) s"
  unfolding reset_body_def Let_def wp_pbind
proof (rule wp_backend [OF assms], goal_cases)
  case (1 x t)
  obtain obs infos where x: "x = (obs, infos)" by (cases x)
  show ?case unfolding x prod.case wp_pbind
  proof (rule wp_require, rule wp_mono [OF episodes_wp [OF 1 refl]], goal_cases)
    case (1 i u)
    note i = 1
    show ?case
    proof (rule encode_wp [of s0], goal_cases)
      case (2 b u')
      note b = 2
      show ?case
      proof (rule wp_kept [where I = "books s0"], goal_cases)
        case 1
        show ?case by (intro keeps_intros)
      next
        case (3 y u'')
        show ?case
        proof (rule wp_rmap, goal_cases)
          case (1 rs)
          show ?case using 1 b i 3
            by (cases "active_initializer B d")
              (auto simp: wp_simps fits_def list_ex_iff not_le intro!: wp_backend [of s0])
        qed simp
      qed (use b in simp_all)
    qed (use i in simp_all)
  qed simp_all
qed simp

end
