(* ===== verification/Vector_Runs.thy ===== *)
theory Vector_Runs
  imports Vector_Step
begin

text \<open>
  Reset, checkpoint and restore; the adapter as a machine its client drives, the seeds of the
  episodes it starts, and the rollouts of consecutive steps.
\<close>

lemma wp_reserve: "wp (reserve_seeds n) Q E s = (case sa_reserve (av_seed_allocator s) (PyInt (int n)) of
     Inl e \<Rightarrow> E e s | Inr r \<Rightarrow> Q r s)"
  by (simp add: reserve_seeds_def wp_simps split: sum.split)

lemma ok_advanced: "allocator_ok a \<Longrightarrow> window_ok a n \<Longrightarrow> allocator_ok (advanced a n)"
  by (simp add: allocator_ok_def window_ok_def advanced_def)

lemma adopt_reset_fields [simp]:
  "av_initialized (adopt_reset n b rs i t)" "av_current (adopt_reset n b rs i t) = Some b"
  "av_poisoned (adopt_reset n b rs i t) = av_poisoned t" "av_episode_ids (adopt_reset n b rs i t) = replicate n 0"
  "av_seed_allocator (adopt_reset n b rs i t) = av_seed_allocator t" "av_seeds (adopt_reset n b rs i t) = en_seeds i"
  "av_mutation_generation (adopt_reset n b rs i t) = av_mutation_generation t + 1"
  "av_schema (adopt_reset n b rs i t) = (case av_schema t of None \<Rightarrow> Some (eb_schema b) | Some c \<Rightarrow> Some c)"
  "av_raw_ticks (adopt_reset n b rs i t) = map rd_tick rs" "av_raw_scores (adopt_reset n b rs i t) = map rd_score rs"
  "av_raw_gauges (adopt_reset n b rs i t) = map rd_gauge rs"
  "av_raw_gauge_maxes (adopt_reset n b rs i t) = map rd_gauge_max rs"
  "av_episode_labels (adopt_reset n b rs i t) = en_labels i"
  by (simp_all add: adopt_reset_def)

lemma reset_wp:
  assumes ok: "adapter_ok B s"
  shows "wp (adapter_reset B d) (\<lambda>b t. \<not> av_poisoned s \<and> \<not> pending B s \<and> fresh_adapter B s b t \<and>
       (vb_initializer B = None \<longrightarrow> av_seeds t = next_seeds (av_seed_allocator s) (vb_num_envs B)))
     (\<lambda>_ t. t = s \<or> av_poisoned t) s"
proof (cases "av_poisoned s \<or> d = None \<or> pending B s")
  case True
  then show ?thesis by (auto simp: adapter_reset_def Let_def wp_simps)
next
  case False
  show ?thesis
  proof (cases "sa_reserve (av_seed_allocator s) (PyInt (int (vb_num_envs B)))")
    case (Inl e)
    then show ?thesis using False by (simp add: adapter_reset_def Let_def wp_simps wp_reserve)
  next
    case (Inr r)
    note r = reserved_next [OF Inr]
    have "wp (pcatch_base (reset_body B (the d) (sr_seeds r)) (undo_pending B [0..<vb_num_envs B]))
      (\<lambda>(b, rs, i) t. books s t \<and> fits s (vb_num_envs B) b \<and> length rs = vb_num_envs B \<and>
       (\<forall>x \<in> set rs. 0 < rd_gauge_max x) \<and> (active_initializer B (the d) = None \<longrightarrow> en_seeds i = sr_seeds r) \<and>
       (full_episodes B \<and> length (sr_seeds r) = vb_num_envs B \<longrightarrow>
          length (en_seeds i) = vb_num_envs B \<and> length (en_labels i) = vb_num_envs B))
      (\<lambda>_. av_poisoned) s"
      unfolding wp_pcatch_base
      by (rule wp_mono [OF reset_body_wp [OF books_refl]]) (auto intro: wp_mono [OF undo_shuts])
    note body = this
    show ?thesis using False Inr
      unfolding adapter_reset_def Let_def wp_pbind wp_pget wp_pguard
    proof (simp add: wp_reserve, intro wp_mono [OF body], goal_cases)
      case (1 x t)
      obtain b rs i where x: "x = (b, rs, i)" by (cases x)
      have c: "active_initializer B (the d) = None \<longrightarrow> en_seeds i = sr_seeds r" "books s t"
        "full_episodes B \<longrightarrow> length (en_seeds i) = vb_num_envs B \<and> length (en_labels i) = vb_num_envs B"
        using 1 x r by auto
      then have "vb_initializer B = None \<longrightarrow> en_seeds i = next_seeds (av_seed_allocator s) (vb_num_envs B)"
        using r by (auto simp: active_initializer_def)
      then show ?case using 1 r c(3) books_fields [OF c(2)] ok_advanced [of "av_seed_allocator s" "vb_num_envs B"] ok
        by (auto simp: x commit_seeds_def wp_simps fresh_adapter_def window_ok_def adapter_ok_def Let_def fits_def
            split: option.split)
    qed simp
  qed
qed

section \<open>Checkpoints\<close>

lemma checkpoint_wp:
  "wp (take_checkpoint B) (\<lambda>k t. books s t \<and> \<not> av_poisoned s \<and> av_initialized s \<and>
     (\<exists>cur schema. av_current s = Some cur \<and> av_schema s = Some schema \<and> ck_current k = cur \<and>
       ck_version k = ADAPTER_CHECKPOINT_VERSION \<and> ck_schema_sha256 k = vb_digest B (schema_manifest schema) \<and>
       ck_action_sha256 k = vb_digest B (action_manifest (vb_action_spec B)) \<and> ck_num_envs k = vb_num_envs B \<and>
       ck_capture_events k = vb_capture_events B \<and> ck_raw_ticks k = map PyInt (av_raw_ticks s) \<and>
       ck_raw_scores k = map PyInt (av_raw_scores s) \<and> ck_seeds k = map PyInt (av_seeds s) \<and>
       ck_episode_ids k = map PyInt (av_episode_ids s) \<and>
       ck_episode_initializer_sha256 k = initializer_sha256 B \<and>
       ck_episode_labels k = map PyStr (av_episode_labels s) \<and>
       ck_seed_allocator k = sa_state_dict (av_seed_allocator s) \<and>
       length (ck_snapshots k) = vb_num_envs B \<and> None \<notin> set (ck_snapshots k) \<and>
       (\<exists>hs. ck_state_hashes k = map PyInt hs \<and> length hs = vb_num_envs B)))
   (\<lambda>_. books s) s"
proof (cases "av_poisoned s \<or> \<not> av_initialized s \<or> av_current s = None \<or> av_schema s = None \<or> vb_transform B \<noteq> None")
  case True
  then show ?thesis
    by (auto simp: take_checkpoint_def wp_simps split: option.split)
next
  case False
  then obtain cur schema where c: "av_current s = Some cur" "av_schema s = Some schema" by auto
  have v: "wp (validate_episodes B c' l) (\<lambda>_ t. books s t) (\<lambda>_. books s) u" if "books s u" for c' l u
    by (rule wp_kept [OF keeps_validate_episodes that])
  show ?thesis using False c
    apply (simp add: take_checkpoint_def wp_pbind wp_pget wp_pguard)
    apply (rule wp_mono [OF v [OF books_refl]])
     apply (rule wp_backend, assumption)
      apply (rule wp_backend, assumption)
       apply (rule wp_require)
        apply (auto simp: books_fields wp_simps)
    done
qed

lemma validate_episodes_wp: "books s u \<Longrightarrow> wp (validate_episodes B c l) (\<lambda>_. books s) (\<lambda>_. books s) u"
  by (rule wp_kept [OF keeps_validate_episodes]) auto

text \<open>An accepted restore puts the checkpoint's books in place.\<close>

definition restored :: "('w, 'o) backend \<Rightarrow> 'w adapter \<Rightarrow> adapter_checkpoint \<Rightarrow> encoded_batch \<Rightarrow> 'w adapter \<Rightarrow> bool" where
  "restored B s k b t \<longleftrightarrow> checkpoint_identity B (av_schema s) k = Inr () \<and>
     (\<exists>f. checkpoint_values B k = Inr f \<and> av_raw_ticks t = cf_ticks f \<and> av_raw_scores t = cf_scores f \<and>
       av_seeds t = cf_seeds f \<and> av_episode_ids t = cf_episode_ids f \<and> av_episode_labels t = cf_labels f) \<and>
     same_tensors b (ck_current k) \<and> av_current t = Some b \<and> av_initialized t \<and> \<not> av_poisoned t \<and>
     sa_load_state_dict (av_seed_allocator s) (ck_seed_allocator k) = Inr (av_seed_allocator t) \<and>
     av_mutation_generation t = av_mutation_generation s + 1 \<and> adapter_ok B t"

lemma restore_body_wp:
  assumes "books s0 s"
  shows "wp (restore_body B k f) (\<lambda>(b, rs) t. books s0 t \<and> fits s0 (vb_num_envs B) b \<and> length rs = vb_num_envs B \<and>
     (\<forall>r \<in> set rs. 0 < rd_gauge_max r) \<and> map rd_tick rs = cf_ticks f \<and> map rd_score rs = cf_scores f \<and>
     same_tensors b (ck_current k)) (\<lambda>_ _. True) s"
  unfolding restore_body_def Let_def wp_pbind
proof (rule wp_backend [OF assms], goal_cases)
  case (1 obs t)
  note b = 1
  show ?case
  proof (rule wp_require, rule wp_rmap, goal_cases)
    case (1 rs)
    then show ?case unfolding wp_pguard
      using b by (auto simp: wp_pguard wp_pbind wp_pret list_ex_iff not_le intro!: encode_wp [of s0] wp_backend [of s0])
  qed simp_all
qed simp

lemma ints_length: "canonical_ints vs = Inr ns \<Longrightarrow> length ns = length vs"
  by (simp add: canonical_ints_def rmap_length)

lemma values_lengths: "checkpoint_values B k = Inr f \<Longrightarrow> length (cf_episode_ids f) = length (ck_episode_ids k) \<and>
    length (cf_seeds f) = length (ck_seeds k) \<and> length (cf_labels f) = length (ck_episode_labels k)"
  by (auto simp: checkpoint_values_def rbind_Inr ints_length owned_labels_def rmap_length split: if_splits)

lemma identity_lengths: "checkpoint_identity B c k = Inr () \<Longrightarrow> length (ck_episode_ids k) = vb_num_envs B \<and>
    length (ck_seeds k) = vb_num_envs B \<and> length (ck_episode_labels k) = vb_num_envs B"
  by (auto simp: checkpoint_identity_def Let_def rbind_Inr split: if_splits)

lemma adopt_restore_fields [simp]:
  "av_initialized (adopt_restore a f b rs t)" "av_current (adopt_restore a f b rs t) = Some b"
  "av_poisoned (adopt_restore a f b rs t) = av_poisoned t" "av_episode_ids (adopt_restore a f b rs t) = cf_episode_ids f"
  "av_seed_allocator (adopt_restore a f b rs t) = a" "av_seeds (adopt_restore a f b rs t) = cf_seeds f"
  "av_episode_labels (adopt_restore a f b rs t) = cf_labels f"
  "av_mutation_generation (adopt_restore a f b rs t) = av_mutation_generation t + 1"
  "av_schema (adopt_restore a f b rs t) = av_schema t"
  "av_raw_ticks (adopt_restore a f b rs t) = cf_ticks f" "av_raw_scores (adopt_restore a f b rs t) = cf_scores f"
  "av_raw_gauges (adopt_restore a f b rs t) = map rd_gauge rs"
  "av_raw_gauge_maxes (adopt_restore a f b rs t) = map rd_gauge_max rs"
  by (simp_all add: adopt_restore_def)

lemma restore_adapter_wp:
  assumes ok: "adapter_ok B s"
  shows "wp (adapter_restore B k) (\<lambda>b t. \<not> av_poisoned s \<and> av_initialized s \<and> restored B s k b t)
     (\<lambda>_ t. books s t \<or> av_poisoned t) s"
proof (cases "av_poisoned s \<or> \<not> av_initialized s \<or> checkpoint_identity B (av_schema s) k \<noteq> Inr () \<or>
    (\<exists>e. checkpoint_values B k = Inl e)")
  case True
  then show ?thesis
    by (auto simp: adapter_restore_def wp_simps split: sum.split)
next
  case False
  then obtain f where f: "checkpoint_values B k = Inr f" by (metis sum.exhaust)
  obtain c where c: "av_schema s = Some c" using ok False by (auto simp: adapter_ok_def Let_def)
  have fin: "wp (plift (sa_load_state_dict (av_seed_allocator s) (ck_seed_allocator k)))
     (\<lambda>a. wp (pbind (pmod (adopt_restore a f b rs)) (\<lambda>_. pret b))
       (restored B s k) (\<lambda>_ t. books s t \<or> av_poisoned t))
     (\<lambda>_ t. books s t \<or> av_poisoned t) t"
    if t: "books s t" "fits s (vb_num_envs B) b" "length rs = vb_num_envs B" "\<forall>r \<in> set rs. 0 < rd_gauge_max r"
      "map rd_tick rs = cf_ticks f" "map rd_score rs = cf_scores f" "same_tensors b (ck_current k)" for b rs t
  proof (cases "sa_load_state_dict (av_seed_allocator s) (ck_seed_allocator k)")
    case (Inl e)
    then show ?thesis using t(1) by (simp add: wp_simps)
  next
    case (Inr a)
    have "allocator_ok a" using load_keeps_ok [OF _ Inr] ok by (simp add: adapter_ok_def)
    moreover have "length (cf_episode_ids f) = vb_num_envs B" "length (cf_seeds f) = vb_num_envs B"
      "length (cf_labels f) = vb_num_envs B"
      using values_lengths [OF f] identity_lengths [of B "av_schema s" k] False by simp_all
    moreover have "length (cf_ticks f) = vb_num_envs B" "length (cf_scores f) = vb_num_envs B"
      using t(3,5,6) by (metis length_map)+
    ultimately show ?thesis using t c False f Inr books_fields [OF t(1)]
      by (auto simp: wp_simps restored_def adapter_ok_def Let_def fits_def)
  qed
  have closed: "wp (closed (restore_body B k f)) (\<lambda>(b, rs) t. books s t \<and> fits s (vb_num_envs B) b \<and>
      length rs = vb_num_envs B \<and> (\<forall>r \<in> set rs. 0 < rd_gauge_max r) \<and> map rd_tick rs = cf_ticks f \<and>
      map rd_score rs = cf_scores f \<and> same_tensors b (ck_current k)) (\<lambda>_. av_poisoned) u" if "books s u" for u
    by (rule wp_shut [OF restore_body_wp [OF that]])
  show ?thesis using False f
    unfolding adapter_restore_def wp_pbind wp_pget wp_pguard
  proof (simp add: wp_plift, intro wp_mono [OF validate_episodes_wp [OF books_refl]], goal_cases)
    case (1 x u)
    show ?case
    proof (cases "ticks_disagree (eb_source_tick (ck_current k)) (cf_ticks f)")
      case (Inr d)
      show ?thesis
      proof (cases "d \<or> (\<exists>e. load_seeds (ck_seed_allocator k) (av_seed_allocator s) = Inl e)")
        case True
        then show ?thesis using 1 Inr by (auto simp: wp_simps books_fields split: sum.split)
      next
        case False
        then obtain z where z: "load_seeds (ck_seed_allocator k) (av_seed_allocator s) = Inr z" by (metis sum.exhaust)
        have u: "books s u" using 1 by simp
        show ?thesis using Inr False z 1(1)
          by (simp add: wp_plift wp_pget wp_pguard books_fields [OF u])
            (auto simp: wp_pbind wp_plift books_fields intro!: wp_mono [OF closed [OF u]] dest!: fin [unfolded wp_plift wp_pbind])
      qed
    qed (use 1 in simp)
  qed auto
qed

section \<open>Adapters driven by their clients\<close>

datatype adapter_op = OpReset "bool option" | OpStep "semantic_action list" | OpCheckpoint
  | OpRestore adapter_checkpoint

text \<open>The exception of a call, if it raises, and the adapter it leaves.\<close>

definition raised :: "('a res \<times> 's) \<Rightarrow> exn option \<times> 's" where
  "raised r = ((case fst r of Inl e \<Rightarrow> Some e | Inr _ \<Rightarrow> None), snd r)"

fun adapter_call :: "('w, 'o) backend \<Rightarrow> adapter_op \<Rightarrow> 'w adapter \<Rightarrow> exn option \<times> 'w adapter" where
  "adapter_call B (OpReset d) s = raised (adapter_reset B d s)"
| "adapter_call B (OpStep acts) s = raised (adapter_step B acts s)"
| "adapter_call B OpCheckpoint s = raised (take_checkpoint B s)"
| "adapter_call B (OpRestore k) s = raised (adapter_restore B k s)"

definition adapter_exec :: "('w, 'o) backend \<Rightarrow> 'w adapter \<Rightarrow> adapter_op \<Rightarrow> 'w adapter" where
  "adapter_exec B s x = snd (adapter_call B x s)"

lemma raised_wp: "wp m Q E s \<Longrightarrow> (case raised (m s) of (None, t) \<Rightarrow> \<exists>x. Q x t | (Some e, t) \<Rightarrow> E e t)"
  by (auto simp: wp_def raised_def split: prod.splits sum.splits)

lemma poisoned_call: "av_poisoned s \<Longrightarrow> \<exists>e. adapter_call B x s = (Some e, s)"
  by (cases x) (simp_all add: raised_def adapter_reset_def adapter_step_def take_checkpoint_def adapter_restore_def
      Let_def pbind_def pget_def pguard_def praise_def)

definition usable :: "('w, 'o) backend \<Rightarrow> 'w adapter \<Rightarrow> bool" where
  "usable B s \<longleftrightarrow> av_poisoned s \<or> adapter_ok B s"

lemma books_ok: "books s t \<Longrightarrow> adapter_ok B s \<Longrightarrow> adapter_ok B t"
  by (simp add: adapter_ok_def books_fields)

text \<open>One call from a well-formed adapter: what each outcome leaves.\<close>

lemma call_result:
  assumes ok: "adapter_ok B s"
  shows "case adapter_call B x s of
     (None, t) \<Rightarrow> adapter_ok B t \<and> av_poisoned t = av_poisoned s
   | (Some e, t) \<Rightarrow> books s t \<or> av_poisoned t"
proof (cases x)
  case (OpReset d)
  show ?thesis unfolding OpReset adapter_call.simps
    using raised_wp [OF reset_wp [OF ok, of d]] by (auto simp: fresh_adapter_def split: prod.splits option.splits)
next
  case (OpStep acts)
  show ?thesis unfolding OpStep adapter_call.simps
    using raised_wp [OF step_wp [OF ok, of acts]]
    by (auto simp: stepped_def failed_def split: prod.splits option.splits)
next
  case OpCheckpoint
  show ?thesis unfolding OpCheckpoint adapter_call.simps
    using raised_wp [OF checkpoint_wp [of B s]] ok
    by (auto simp: books_ok books_fields split: prod.splits option.splits)
next
  case (OpRestore k)
  show ?thesis unfolding OpRestore adapter_call.simps
    using raised_wp [OF restore_adapter_wp [OF ok, of k]]
    by (auto simp: restored_def split: prod.splits option.splits)
qed

interpretation vec: op_machine "adapter_exec B" "usable B" for B :: "('w, 'o) backend"
proof unfold_locales
  fix s x assume u: "usable B s"
  show "usable B (adapter_exec B s x)"
  proof (cases "av_poisoned s")
    case True
    then show ?thesis using poisoned_call [of s B x] by (auto simp: usable_def adapter_exec_def)
  next
    case False
    then show ?thesis using call_result [of B s x] u
      by (auto simp: usable_def adapter_exec_def books_ok split: prod.splits option.splits)
  qed
qed

lemma poisoned_exec: "av_poisoned s \<Longrightarrow> foldl (adapter_exec B) s xs = s"
proof (induction xs)
  case (Cons x xs)
  then show ?case using poisoned_call [of s B x] by (auto simp: adapter_exec_def)
qed simp

section \<open>Episode seeds\<close>

text \<open>The seeds of the episodes a call starts.\<close>

fun episodes_started :: "('w, 'o) backend \<Rightarrow> adapter_op \<Rightarrow> 'w adapter \<Rightarrow> int list" where
  "episodes_started B (OpReset d) s = (case adapter_reset B d s of (Inr _, t) \<Rightarrow> av_seeds t | _ \<Rightarrow> [])"
| "episodes_started B (OpStep acts) s =
     (case adapter_step B acts s of (Inr ts, t) \<Rightarrow> map ((!) (av_seeds t)) (done_lanes ts) | _ \<Rightarrow> [])"
| "episodes_started B _ s = []"

fun episode_seeds :: "('w, 'o) backend \<Rightarrow> adapter_op list \<Rightarrow> 'w adapter \<Rightarrow> int list" where
  "episode_seeds B [] s = []"
| "episode_seeds B (x # xs) s = episodes_started B x s @ episode_seeds B xs (adapter_exec B s x)"

fun is_restore :: "adapter_op \<Rightarrow> bool" where
  "is_restore (OpRestore _) = True" | "is_restore _ = False"

text \<open>A call takes a window of the schedule, or none.\<close>

definition takes :: "seed_allocator \<Rightarrow> int list \<Rightarrow> seed_allocator \<Rightarrow> bool" where
  "takes a xs b \<longleftrightarrow> (\<exists>n. xs = next_seeds a n \<and> b = advanced a n \<and> window_ok a n)"

lemma takes_none [simp]: "allocator_ok a \<Longrightarrow> takes a [] a"
  by (auto simp: takes_def next_seeds_def advanced_def window_ok_def allocator_ok_def intro!: exI [of _ 0])

lemma call_takes:
  assumes ok: "adapter_ok B s" and B: "vb_initializer B = None" and x: "\<not> is_restore x"
  shows "av_poisoned (adapter_exec B s x) \<and> episodes_started B x s = [] \<or>
     adapter_ok B (adapter_exec B s x) \<and> takes (av_seed_allocator s) (episodes_started B x s) (av_seed_allocator (adapter_exec B s x))"
proof -
  have a: "allocator_ok (av_seed_allocator s)" using ok by (simp add: adapter_ok_def)
  show ?thesis
  proof (cases x)
    case (OpReset d)
    obtain r t where r: "adapter_reset B d s = (r, t)" by fastforce
    show ?thesis
    proof (cases r)
      case (Inl e)
      then show ?thesis using wp_raiseD [OF reset_wp [OF ok, of d]] r a ok OpReset by (auto simp: adapter_exec_def raised_def)
    next
      case (Inr b)
      then show ?thesis using wp_resultD [OF reset_wp [OF ok, of d]] r B OpReset
        by (auto simp: adapter_exec_def raised_def takes_def fresh_adapter_def)
    qed
  next
    case (OpStep acts)
    obtain r t where r: "adapter_step B acts s = (r, t)" by fastforce
    show ?thesis
    proof (cases r)
      case (Inl e)
      then show ?thesis using wp_raiseD [OF step_wp [OF ok, of acts]] r a ok OpStep
        by (auto simp: adapter_exec_def raised_def failed_def books_fields books_ok)
    next
      case (Inr ts)
      from wp_resultD [OF step_wp [OF ok, of acts]] r Inr have "adapter_ok B t" "reseeds B s (done_lanes ts) t"
        by (auto simp: stepped_def)
      then show ?thesis using r Inr B OpStep a
        by (cases "done_lanes ts = []") (auto simp: adapter_exec_def raised_def reseeds_def, auto simp: takes_def)
    qed
  next
    case OpCheckpoint
    obtain r t where r: "take_checkpoint B s = (r, t)" by fastforce
    have "books s t" using checkpoint_wp [of B s] r by (auto simp: wp_def split: sum.splits)
    then show ?thesis using OpCheckpoint r a ok by (auto simp: adapter_exec_def raised_def books_fields books_ok)
  qed (use x in simp)
qed

lemma seeds_window:
  assumes "usable B s" "vb_initializer B = None" "\<forall>x \<in> set xs. \<not> is_restore x" "allocator_ok a" "\<not> av_poisoned s \<longrightarrow> a = av_seed_allocator s"
  shows "\<exists>n. episode_seeds B xs s = next_seeds a n \<and> window_ok a n"
  using assms
proof (induction xs arbitrary: s a)
  case Nil
  show ?case by (rule exI [of _ 0]) (use Nil in \<open>simp add: next_seeds_def window_ok_def allocator_ok_def\<close>)
next
  case (Cons x xs)
  let ?t = "adapter_exec B s x"
  have t: "usable B ?t" using vec.inv_step Cons.prems(1) .
  show ?case
  proof (cases "av_poisoned s")
    case True
    then have "?t = s" using poisoned_call [of s B x] by (auto simp: adapter_exec_def)
    moreover have "episodes_started B x s = []"
      using poisoned_call [of s B x] True
      by (cases x) (auto simp: raised_def split: prod.splits sum.splits)
    ultimately show ?thesis using Cons.IH [of s a] Cons.prems by simp
  next
    case False
    then have ok: "adapter_ok B s" "a = av_seed_allocator s" using Cons.prems by (auto simp: usable_def)
    from call_takes [OF ok(1) Cons.prems(2), of x] Cons.prems(3)
    consider "av_poisoned ?t" "episodes_started B x s = []"
      | n where "adapter_ok B ?t" "episodes_started B x s = next_seeds a n" "av_seed_allocator ?t = advanced a n" "window_ok a n"
      by (auto simp: takes_def ok(2))
    then show ?thesis
    proof cases
      case 1
      then show ?thesis using Cons.IH [of ?t a] Cons.prems t by simp
    next
      case 2
      from Cons.IH [of ?t "advanced a n"] Cons.prems t 2 ok_advanced
      obtain m where m: "episode_seeds B xs ?t = next_seeds (advanced a n) m" "window_ok (advanced a n) m" by auto
      have "next_seeds a n @ next_seeds (advanced a n) m = next_seeds a (n + m)"
        using upto_append [of "sa_cursor a" "sa_cursor a + int n" "sa_cursor a + int n + int m"]
        by (simp add: next_seeds_def advanced_def add.assoc flip: map_append)
      then show ?thesis using m 2 by (intro exI [of _ "n + m"]) (simp add: window_ok_def advanced_def)
    qed
  qed
qed

section \<open>Rollouts\<close>

text \<open>The transitions of consecutive steps, between two resets or restores.\<close>

inductive collects :: "('w, 'o) backend \<Rightarrow> 'w adapter \<Rightarrow> macro_transition list list \<Rightarrow> 'w adapter \<Rightarrow> bool"
  for B s where
  collects_start: "collects B s [] s"
| collects_step: "collects B s hist t \<Longrightarrow> adapter_step B acts t = (Inr ts, u) \<Longrightarrow> collects B s (hist @ [ts]) u"

text \<open>What a transition leaves for the next one of its lane.\<close>

definition leads :: "macro_transition \<Rightarrow> nat \<Rightarrow> 'w adapter \<Rightarrow> bool" where
  "leads x i t \<longleftrightarrow> batch_row (the (av_current t)) i = mt_next_policy_observation x \<and>
     (if mt_done x then av_episode_ids t ! i = mt_episode_id x + 1
      else av_episode_ids t ! i = mt_episode_id x \<and> av_seeds t ! i = mt_seed x \<and>
        av_episode_labels t ! i = mt_episode_label x \<and> av_raw_ticks t ! i = mt_end_tick x \<and>
        av_raw_gauges t ! i = mt_end_gauge x \<and> av_raw_gauge_maxes t ! i = mt_gauge_max x)"

text \<open>Two consecutive transitions of a lane.\<close>

definition follows :: "macro_transition \<Rightarrow> macro_transition \<Rightarrow> bool" where
  "follows x y \<longleftrightarrow> mt_lane_id y = mt_lane_id x \<and> mt_observation y = mt_next_policy_observation x \<and>
     (if mt_done x then mt_episode_id y = mt_episode_id x + 1
      else mt_episode_id y = mt_episode_id x \<and> mt_seed y = mt_seed x \<and> mt_episode_label y = mt_episode_label x \<and>
        mt_observation y = mt_transition_next_observation x \<and> mt_start_tick y = mt_end_tick x \<and>
        mt_start_gauge y = mt_end_gauge x \<and> mt_gauge_max y = mt_gauge_max x)"

lemma accounts_leads: "accounts B s cur vs ps i x \<Longrightarrow> moves B s i x t \<Longrightarrow> leads x i t"
  by (auto simp: accounts_def moves_def leads_def split: if_splits)

lemma step_result: "adapter_ok B s \<Longrightarrow> adapter_step B acts s = (Inr ts, t) \<Longrightarrow>
    \<exists>cur vs ps. av_current s = Some cur \<and> stepped B s cur vs ps ts t"
  using wp_resultD [OF step_wp [of B s acts], of ts t] by blast

definition last_leads :: "('w, 'o) backend \<Rightarrow> macro_transition list list \<Rightarrow> 'w adapter \<Rightarrow> bool" where
  "last_leads B hist t \<longleftrightarrow> (hist \<noteq> [] \<longrightarrow> (\<forall>i<vb_num_envs B. let x = last hist ! i in
     mt_lane_id x = i \<and> leads x i t \<and> (\<not> mt_done x \<longrightarrow> mt_next_policy_observation x = mt_transition_next_observation x)))"

definition chained :: "('w, 'o) backend \<Rightarrow> macro_transition list list \<Rightarrow> bool" where
  "chained B hist \<longleftrightarrow> (\<forall>k i. Suc k < length hist \<longrightarrow> i < vb_num_envs B \<longrightarrow> follows (hist ! k ! i) (hist ! Suc k ! i))"

lemma collects_invariant:
  assumes "collects B s hist t" "adapter_ok B s"
  shows "adapter_ok B t \<and> last_leads B hist t \<and> chained B hist"
  using assms
proof (induction rule: collects.induct)
  case collects_start
  then show ?case by (simp add: last_leads_def chained_def)
next
  case (collects_step hist t acts ts u)
  from collects_step.IH collects_step.prems have IH: "adapter_ok B t" "last_leads B hist t" "chained B hist" by auto
  from step_result [OF IH(1) collects_step.hyps(2)] obtain cur vs ps
    where c: "av_current t = Some cur" and st: "stepped B t cur vs ps ts u" by blast
  have lane: "accounts B t cur vs ps i (ts ! i)" "moves B t i (ts ! i) u" if "i < vb_num_envs B" for i
    using st that by (auto simp: stepped_def)
  have "last_leads B (hist @ [ts]) u"
    unfolding last_leads_def
  proof (clarsimp simp: Let_def, intro conjI impI)
    fix i assume i: "i < vb_num_envs B"
    show "leads (ts ! i) i u" by (rule accounts_leads [OF lane(1,2) [OF i]])
    show "mt_lane_id (ts ! i) = i" using lane(1) [OF i] by (simp add: accounts_def)
    show "\<not> mt_done (ts ! i) \<Longrightarrow> mt_next_policy_observation (ts ! i) = mt_transition_next_observation (ts ! i)"
      using lane(2) [OF i] by (simp add: moves_def)
  qed
  moreover have f: "follows (last hist ! i) (ts ! i)" if "hist \<noteq> []" "i < vb_num_envs B" for i
    using IH(2) lane(1) [OF that(2)] that c
    by (auto simp: last_leads_def Let_def leads_def follows_def accounts_def split: if_splits)
  have "follows (hist ! k ! i) (ts ! i)" if "length hist = Suc k" "i < vb_num_envs B" for k i
    using f [of i] that by (cases "hist = []") (auto simp: last_conv_nth)
  then have "chained B (hist @ [ts])" using IH(3)
    by (auto simp: chained_def nth_append less_Suc_eq)
  ultimately show ?case using st by (simp add: stepped_def)
qed

text \<open>Within an episode the scores and ticks of a lane are the sums over its transitions.\<close>

lemma collects_sums:
  assumes "collects B s hist t" "adapter_ok B s" "i < vb_num_envs B" "\<forall>ts \<in> set hist. \<not> mt_done (ts ! i)"
  shows "av_raw_scores t ! i = av_raw_scores s ! i + (\<Sum>ts\<leftarrow>hist. mt_raw_reward (ts ! i)) \<and>
    av_raw_ticks t ! i = av_raw_ticks s ! i + (\<Sum>ts\<leftarrow>hist. mt_elapsed_ticks (ts ! i)) \<and>
    av_episode_ids t ! i = av_episode_ids s ! i"
  using assms
proof (induction rule: collects.induct)
  case (collects_step hist t acts ts u)
  have ok: "adapter_ok B t" using collects_invariant [OF collects_step.hyps(1) collects_step.prems(1)] by simp
  from step_result [OF ok collects_step.hyps(2)] obtain cur vs ps where "stepped B t cur vs ps ts u" by blast
  then have "accounts B t cur vs ps i (ts ! i)" "moves B t i (ts ! i) u" using collects_step.prems(2) by (auto simp: stepped_def)
  then show ?case using collects_step.IH collects_step.prems
    by (auto simp: accounts_def moves_def)
qed simp

text \<open>The last transition of a stretch that ends the episode, if any does, ends at an observation the
  environment reported, whose score and tick are the sums over the stretch.\<close>

lemma collects_last:
  assumes "collects B s hist t" "adapter_ok B s" "i < vb_num_envs B" "hist \<noteq> []"
    and "\<forall>ts \<in> set (butlast hist). \<not> mt_done (ts ! i)" and "x = last hist ! i"
  shows "\<exists>u ps o' r. collects B s (butlast hist) u \<and> reported B (av_world u) ps i (mt_primitive_trace x) o'
      (mt_raw_reward x) (mt_terminated x) (mt_truncated x) \<and> read_obs o' = Inr r \<and> rd_tick r = mt_end_tick x \<and>
      rd_score r = av_raw_scores s ! i + (\<Sum>ts\<leftarrow>hist. mt_raw_reward (ts ! i)) \<and>
      rd_tick r = av_raw_ticks s ! i + (\<Sum>ts\<leftarrow>hist. mt_elapsed_ticks (ts ! i))"
  using assms(1)
proof (cases rule: collects.cases)
  case (collects_step h u acts ts)
  have h: "\<forall>ts \<in> set h. \<not> mt_done (ts ! i)" "butlast hist = h" "x = ts ! i" using assms(5,6) collects_step by simp_all
  have ok: "adapter_ok B u" using collects_invariant [OF collects_step(2) assms(2)] by simp
  note sums = collects_sums [OF collects_step(2) assms(2,3) h(1)]
  from step_result [OF ok collects_step(3)] obtain cur vs ps where "stepped B u cur vs ps ts t" by blast
  then have a: "accounts B u cur vs ps i x" using assms(3) h(3) by (auto simp: stepped_def)
  then obtain o' r where "reported B (av_world u) ps i (mt_primitive_trace x) o' (mt_raw_reward x) (mt_terminated x) (mt_truncated x)"
    "read_obs o' = Inr r" "rd_tick r = mt_end_tick x" "mt_raw_reward x = rd_score r - av_raw_scores u ! i"
    unfolding accounts_def reports_def by blast
  moreover have "mt_end_tick x = av_raw_ticks u ! i + mt_elapsed_ticks x" using a by (simp add: accounts_def)
  ultimately show ?thesis using collects_step(1,2) sums h(2,3)
    by (intro exI [of _ u] exI [of _ ps] exI [of _ o'] exI [of _ r]) simp
qed (use assms(4) in simp)

end
