(* ===== verification/Vector_Demo.thy ===== *)
theory Vector_Demo
  imports Vector_Runs Actions_Props
begin

text \<open>
  A small vector environment, executable, on which the properties of the adapter are exhibited.
\<close>

section \<open>A small vector environment\<close>

text \<open>Two lanes, each a tick counter; the score is five times the tick, an episode ends at tick 4,
  and a wait of 30 ticks makes the backend raise.  A snapshot is one byte.\<close>

definition demo_schema :: tensor_schema where
  "demo_schema = \<lparr>ts_version = ''demo'', ts_source = ''teacher_state'', ts_global_features = [''tick''],
     ts_body_features = [], ts_preprocessing = [], ts_capacity = 196\<rparr>"

definition demo_obs :: "int \<Rightarrow> unit raw_obs" where
  "demo_obs t = \<lparr>ro_tick = Inr t, ro_score = Inr (5 * t), ro_gauge = PyInt (7 - t), ro_gauge_max = PyInt 10, ro_rest = ()\<rparr>"

definition demo_tick :: "unit raw_obs \<Rightarrow> int" where
  "demo_tick o' = (case ro_tick o' of Inr t \<Rightarrow> t | Inl _ \<Rightarrow> 0)"

definition demo_info :: "backend_info option" where
  "demo_info = Some \<lparr>bi_seed = None, bi_events = [], bi_invalid_action = False, bi_config_hash = Inr 3\<rparr>"

definition demo_batch :: "int list \<Rightarrow> encoded_batch" where
  "demo_batch ts = \<lparr>eb_global_features = map (\<lambda>t. [Fin (of_int t)]) ts, eb_body_features = map (\<lambda>_. replicate 196 []) ts,
     eb_body_mask = map (\<lambda>_. replicate 196 False) ts, eb_source_tick = map word_of_int ts,
     eb_health_flags = map (\<lambda>_. 0) ts, eb_schema = demo_schema\<rparr>"

fun demo_ticks :: "primitive \<Rightarrow> int" where
  "demo_ticks (PrimWait n) = n" | "demo_ticks _ = 1"

definition demo_advance :: "nat list \<Rightarrow> primitive list \<Rightarrow> (int list, unit step_result) py" where
  "demo_advance lanes ps ws = (if list_ex (\<lambda>p. p = PrimWait 30) ps then (Inl (Exn NativeError ''worker died''), ws)
     else let ts = map (\<lambda>(i, p). ws ! i + demo_ticks p) (zip lanes ps) in
       (Inr (map demo_obs ts, map (\<lambda>p. Inr (5 * demo_ticks p)) ps, map (\<lambda>t. 4 \<le> t) ts, map (\<lambda>_. False) ts,
         map (\<lambda>_. demo_info) ts), assign_lanes lanes ts ws))"

text \<open>A client area of one pixel, which the shot hits.\<close>

definition demo_client :: action_spec where
  "demo_client = demo_action_spec\<lparr>as_client_width := PyInt 1, as_client_height := PyInt 1\<rparr>"

definition demo_vec :: "(int list, unit) backend" where
  "demo_vec = \<lparr>vb_num_envs = 2,
     vb_reset = (\<lambda>seeds ws. (Inr ([demo_obs 0, demo_obs 0], [demo_info, demo_info]), [0, 0])),
     vb_step = demo_advance [0, 1], vb_step_many = demo_advance,
     vb_reset_many = (\<lambda>lanes seeds ws. (Inr (map (\<lambda>_. demo_obs 0) lanes), assign_lanes lanes (map (\<lambda>_. 0) lanes) ws)),
     vb_clone_state = (\<lambda>ws. (Inr (map (\<lambda>w. [word_of_int w]) ws), ws)),
     vb_state_hash = (\<lambda>ws. (Inr ws, ws)),
     vb_restore_state = (\<lambda>ss ws. let ts = map (\<lambda>x. uint (hd (the x))) ss in (Inr (map demo_obs ts), ts)),
     vb_encode = (\<lambda>obs ws. (Inr (demo_batch (map demo_tick obs)), ws)),
     vb_lane_independent = False, vb_transform = None, vb_initializer = None,
     vb_action_spec = demo_client, vb_capture_events = True, vb_digest = (\<lambda>_. ''digest'')\<rparr>"

definition demo_seeds :: seed_allocator where
  "demo_seeds = \<lparr>sa_split = \<lparr>ss_name = ''toy'', ss_start = 16, ss_size = 8\<rparr>, sa_key = 1, sa_multiplier = 5,
     sa_offset = 3, sa_cursor = 0\<rparr>"

definition demo_fresh :: "int list adapter" where
  "demo_fresh = adapter_init demo_vec [4, 4] demo_seeds"

definition demo_started :: "int list adapter" where
  "demo_started = snd (adapter_reset demo_vec (Some False) demo_fresh)"

definition demo_acts :: "semantic_action list" where
  "demo_acts = [action_weak (PyInt 0) (PyInt 0), action_wait (PyInt 2)]"

definition demo_crash :: "semantic_action list" where
  "demo_crash = [action_weak (PyInt 0) (PyInt 0), action_wait (PyInt 30)]"

definition demo_shot :: valid_action where
  "demo_shot = \<lparr>va_kind = FIRE_WEAK, va_wait_ticks = 1, va_x_norm = Fin 0, va_y_norm = Fin 0\<rparr>"

definition demo_wait :: "int \<Rightarrow> valid_action" where
  "demo_wait n = \<lparr>va_kind = WAIT, va_wait_ticks = n, va_x_norm = Fin 0, va_y_norm = Fin 0\<rparr>"

lemma one_pixel: "int_to_float 1 = Inr (Fin 1)"
  by code_simp

lemma demo_shot_lowers:
  "validate_semantic demo_client (action_weak (PyInt 0) (PyInt 0)) = Inr demo_shot"
  "press demo_client (valid_as_action demo_shot) = Inr (PrimWeak 0 0)"
proof -
  have z: "int_to_float 0 = Inr (Fin 0)" by (simp add: int_to_float_def fl_round_def)
  have v: "validate_semantic demo_client (valid_as_action demo_shot) = Inr demo_shot"
    by (rule validate_again) (simp add: valid_ok_def demo_shot_def)
  show "validate_semantic demo_client (action_weak (PyInt 0) (PyInt 0)) = Inr demo_shot"
    by (simp add: validate_semantic_def action_weak_def demo_shot_def unit_float_def z num_to_float.simps)
  show "press demo_client (valid_as_action demo_shot) = Inr (PrimWeak 0 0)"
    unfolding press_def client_point_def v rbind_simps
    by (simp add: v quantize_def demo_client_def pixels_of_def one_pixel floor_float_def fl_round_def demo_shot_def)
qed

lemma demo_wait_lowers:
  assumes "n \<in> {2, 30}"
  shows "validate_semantic demo_client (action_wait (PyInt n)) = Inr (demo_wait n)"
    "press demo_client (valid_as_action (demo_wait n)) = Inr (PrimWait n)"
proof -
  show "validate_semantic demo_client (action_wait (PyInt n)) = Inr (demo_wait n)"
    by (subst validate_wait) (use assms in \<open>auto simp: demo_client_def demo_action_spec_def demo_wait_def\<close>)
  have "validate_semantic demo_client (valid_as_action (demo_wait n)) = Inr (demo_wait n)"
    by (rule validate_again) (use assms in \<open>auto simp: valid_ok_def demo_wait_def demo_client_def demo_action_spec_def\<close>)
  then show "press demo_client (valid_as_action (demo_wait n)) = Inr (PrimWait n)"
    by (simp add: press_def demo_wait_def)
qed

lemma demo_lowered:
  "lower_actions demo_client demo_acts = Inr ([demo_shot, demo_wait 2], [PrimWeak 0 0, PrimWait 2])"
  "lower_actions demo_client demo_crash = Inr ([demo_shot, demo_wait 30], [PrimWeak 0 0, PrimWait 30])"
  by (simp_all add: lower_actions_def demo_acts_def demo_crash_def demo_shot_lowers demo_wait_lowers)

lemma step_is_macro:
  assumes "\<not> av_poisoned s" "av_initialized s" "av_current s = Some cur" "\<not> pending B s"
    "length acts = vb_num_envs B" "lower_actions (vb_action_spec B) acts = Inr (vs, ps)"
  shows "adapter_step B acts s = macro_body B s cur vs ps s"
  using assms by (simp add: adapter_step_def current_observation_def pbind_def pget_def pguard_def pret_def plift_def)

end
