(* ===== verification/Vector_Props.thy ===== *)
theory Vector_Props
  imports Vector_Demo
begin

text \<open>
  The properties of \<open>MacroVectorAdapter\<close>: it stays well formed and fails closed, its steps account for
  every lane, its rollouts chain, its episodes never share a seed, and its checkpoints resume.
\<close>

section \<open>The adapter's contract\<close>

text \<open>C18: Whatever sequence of resets, steps, checkpoints and restores a client makes, with any actions and
  checkpoints and against any environment, encoder, transform and initializer, the adapter ends
  poisoned or well formed: a valid seed allocator and, once initialized, a valid observation batch
  with one row for each lane, one tick, score, gauge, positive gauge maximum and episode number for
  each lane, and, when every initialization an initializer returns has one seed and one label for
  each lane it was asked for (as without an initializer), one seed and one label for each lane.\<close>

theorem adapter_stays_well_formed:
  assumes "allocator_ok a"
  shows "av_poisoned (foldl (adapter_exec B) (adapter_init B w a) xs) \<or>
    adapter_ok B (foldl (adapter_exec B) (adapter_init B w a) xs)"
proof -
  have "usable B (adapter_init B w a)" using assms by (simp add: usable_def adapter_ok_def adapter_init_def Let_def)
  from vec.inv_run [OF this] show ?thesis by (simp add: usable_def)
qed

text \<open>C5: A call that raises leaves the adapter as it was, up to what the environment did, or
  poisoned.  A step that raises leaves everything as it was, the environment included, or poisons
  the adapter, with one exception that the code lets escape: the environment returned, for a
  release, a reward that \<open>int()\<close> does not accept, and then the environment has moved on and the
  adapter, not poisoned, has its books from before the step.  A reset that raises leaves everything
  as it was or poisons the adapter.  A poisoned adapter is inert: every later call raises and
  changes nothing.\<close>

theorem adapter_fails_closed:
  assumes "adapter_ok B s"
  shows "(adapter_step B acts s = (Inl e, t) \<longrightarrow>
      t = s \<or> av_poisoned t \<or> t = s\<lparr>av_world := av_world t\<rparr> \<and> unreadable_release B (av_world t)) \<and>
    (adapter_reset B d s = (Inl e, t) \<longrightarrow> t = s \<or> av_poisoned t) \<and>
    (adapter_call B x s = (Some e, t) \<longrightarrow> t = s\<lparr>av_world := av_world t\<rparr> \<or> av_poisoned t) \<and>
    (av_poisoned u \<longrightarrow> foldl (adapter_exec B) u xs = u \<and> (\<exists>e'. adapter_call B x u = (Some e', u)))"
proof (intro conjI impI)
  assume "adapter_step B acts s = (Inl e, t)"
  with wp_raiseD [OF step_wp [OF assms, of acts]]
  show "t = s \<or> av_poisoned t \<or> t = s\<lparr>av_world := av_world t\<rparr> \<and> unreadable_release B (av_world t)"
    by (auto simp: failed_def books_def)
next
  assume "adapter_reset B d s = (Inl e, t)"
  with wp_raiseD [OF reset_wp [OF assms, of d]] show "t = s \<or> av_poisoned t" by auto
next
  assume "adapter_call B x s = (Some e, t)"
  with call_result [OF assms, of x] show "t = s\<lparr>av_world := av_world t\<rparr> \<or> av_poisoned t" by (simp add: books_def)
next
  assume u: "av_poisoned u"
  show "foldl (adapter_exec B) u xs = u" by (rule poisoned_exec [OF u])
  show "\<exists>e'. adapter_call B x u = (Some e', u)" by (rule poisoned_call [OF u])
qed

text \<open>C6: A step that returns accounts for every lane, also for one whose episode ends with it: the
  transition names the lane's episode, seed, label and start; its reward, flags, end tick, end gauge
  and next observation are those the environment reported, of the release added to those of the press
  where the lane was released; the reward is the change of the lane's score; it advanced a positive
  number of ticks; a shot is a press and a release, unless the episode ended with the press; the
  bootstrap, trace and interruption flags follow; and the lane goes on from the transition's end, or
  from the first observation, seed, label and readings of the episode the environment or the
  initializer began, under the next number.\<close>

theorem steps_account_for_every_lane:
  assumes "adapter_ok B s" and "adapter_step B acts s = (Inr ts, t)" and "i < vb_num_envs B"
  shows "length ts = vb_num_envs B \<and> adapter_ok B t \<and> (\<exists>cur vs ps. av_current s = Some cur \<and>
    lower_actions (vb_action_spec B) acts = Inr (vs, ps) \<and> accounts B s cur vs ps i (ts ! i) \<and> moves B s i (ts ! i) t)"
proof -
  from wp_resultD [OF step_wp [OF assms(1)] assms(2)] obtain cur vs ps
    where "lower_actions (vb_action_spec B) acts = Inr (vs, ps)" "av_current s = Some cur" "stepped B s cur vs ps ts t"
    by blast
  then show ?thesis using assms(3) by (auto simp: stepped_def)
qed

text \<open>C12: Consecutive transitions of a lane chain: within an episode the next one starts from the
  observation, tick and gauge the last one ended with, in the same episode; after a finished episode
  it starts the next one.  Over any stretch of steps in which a lane's episode does not end, its
  score and tick have grown by exactly the sums of its rewards and elapsed ticks.  Where the episode
  may end with the last step of the stretch, the last transition ends at an observation the
  environment reported for that step, and the score and the tick of that observation are those
  before the stretch plus the same sums, the reward and the ticks of the last step included.\<close>

theorem rollouts_are_chained:
  assumes "adapter_ok B s" and "collects B s hist t" and "i < vb_num_envs B"
  shows "(Suc k < length hist \<longrightarrow> follows (hist ! k ! i) (hist ! Suc k ! i)) \<and>
    ((\<forall>ts \<in> set hist. \<not> mt_done (ts ! i)) \<longrightarrow>
       av_raw_scores t ! i = av_raw_scores s ! i + (\<Sum>ts\<leftarrow>hist. mt_raw_reward (ts ! i)) \<and>
       av_raw_ticks t ! i = av_raw_ticks s ! i + (\<Sum>ts\<leftarrow>hist. mt_elapsed_ticks (ts ! i)) \<and>
       av_episode_ids t ! i = av_episode_ids s ! i) \<and>
    (hist \<noteq> [] \<and> (\<forall>ts \<in> set (butlast hist). \<not> mt_done (ts ! i)) \<longrightarrow> (let x = last hist ! i in
       \<exists>u ps o' r. collects B s (butlast hist) u \<and> reported B (av_world u) ps i (mt_primitive_trace x) o'
         (mt_raw_reward x) (mt_terminated x) (mt_truncated x) \<and> read_obs o' = Inr r \<and> rd_tick r = mt_end_tick x \<and>
         rd_score r = av_raw_scores s ! i + (\<Sum>ts\<leftarrow>hist. mt_raw_reward (ts ! i)) \<and>
         rd_tick r = av_raw_ticks s ! i + (\<Sum>ts\<leftarrow>hist. mt_elapsed_ticks (ts ! i))))"
proof (intro conjI)
  show "Suc k < length hist \<longrightarrow> follows (hist ! k ! i) (hist ! Suc k ! i)"
    using collects_invariant [OF assms(2,1)] assms(3) by (simp add: chained_def)
qed (use collects_sums [OF assms(2,1,3)] collects_last [OF assms(2,1,3)] in \<open>simp_all add: Let_def\<close>)

text \<open>C14: Without an episode initializer no two episodes of a run share a seed: whatever resets, steps and
  checkpoints a client makes, returning or raising, but no restores (a restore puts an earlier seed
  schedule back), the seeds of the episodes they start are pairwise distinct and all lie in the
  allocator's split.  With an initializer the seeds are those of the recipes it restored.\<close>

theorem episode_seeds_never_repeat:
  assumes "allocator_ok a" and "vb_initializer B = None" and "\<forall>x \<in> set xs. \<not> is_restore x"
  shows "distinct (episode_seeds B xs (adapter_init B w a)) \<and>
    set (episode_seeds B xs (adapter_init B w a)) \<subseteq> split_seeds (sa_split a)"
proof -
  have "usable B (adapter_init B w a)" using assms(1) by (simp add: usable_def adapter_ok_def adapter_init_def Let_def)
  from seeds_window [OF this assms(2,3,1)] obtain n
    where n: "episode_seeds B xs (adapter_init B w a) = next_seeds a n" "window_ok a n"
    by (auto simp: adapter_init_def Let_def)
  have c: "0 \<le> sa_cursor a" "sa_cursor a + int n - 1 < ss_size (sa_split a)"
    using assms(1) n(2) by (auto simp: allocator_ok_def window_ok_def)
  show ?thesis unfolding n(1) next_seeds_def
    using affine.window_distinct [OF assms(1) c] affine.window_home [OF assms(1) c] by simp
qed

section \<open>Checkpoints\<close>

lemma canonical_self [simp]: "canonical_ints (map PyInt ns) = Inr ns"
  by (induction ns) (simp_all add: canonical_ints_def)

lemma labels_self [simp]: "owned_labels (map PyStr ls) = Inr ls"
  by (induction ls) (simp_all add: owned_labels_def)

text \<open>What is documented of an environment and an encoder that restore snapshots: the
  environment comes back with the observations of the snapshots, the encoder encodes them as
  before, and the state hashes agree.\<close>

definition restores_as :: "('w, 'o) backend \<Rightarrow> adapter_checkpoint \<Rightarrow> 'w adapter \<Rightarrow> encoded_batch \<Rightarrow> bool" where
  "restores_as B k u b \<longleftrightarrow> (\<exists>obs w1 w2 w3 rs hs. vb_restore_state B (ck_snapshots k) (av_world u) = (Inr obs, w1) \<and>
     length obs = vb_num_envs B \<and> rmap read_obs obs = Inr rs \<and> map (PyInt \<circ> rd_tick) rs = ck_raw_ticks k \<and>
     map (PyInt \<circ> rd_score) rs = ck_raw_scores k \<and> (\<forall>r \<in> set rs. 0 < rd_gauge_max r) \<and>
     vb_encode B obs w1 = (Inr b, w2) \<and> good_batch (vb_num_envs B) b \<and> eb_schema b = eb_schema (ck_current k) \<and>
     same_tensors b (ck_current k) \<and> vb_state_hash B w2 = (Inr hs, w3) \<and> map PyInt hs = ck_state_hashes k)"

lemma pbind_run: "m s = (Inr x, t) \<Longrightarrow> pbind m f s = f x t"
  by (simp add: pbind_def)

lemma load_own_state:
  assumes "seed_allocator_init name key (PyInt 0) = Inr a0" "0 \<le> c" "c \<le> ss_size (sa_split a0)"
  shows "sa_load_state_dict (a0\<lparr>sa_cursor := d\<rparr>) (sa_state_dict (a0\<lparr>sa_cursor := c\<rparr>)) = Inr (a0\<lparr>sa_cursor := c\<rparr>)"
  using assms by (simp add: sa_load_state_dict_def sa_state_dict_def Let_def)

lemma init_own:
  "seed_allocator_init name key (PyInt 0) = Inr a0 \<Longrightarrow>
     key = PyInt (sa_key a0) \<and> ss_name (sa_split a0) = name \<and> sa_cursor a0 = 0"
  using init_ok [of name key "PyInt 0" a0]
  by (auto simp: seed_allocator_init_def Let_def sa_load_state_dict_def split: option.splits if_splits)

lemmas run_simps = pbind_def plift_def pget_def pguard_def pret_def on_backend_def

lemma encode_runs:
  assumes "vb_transform B = None" "vb_encode B obs (av_world u) = (Inr b, w)" "good_batch (length obs) b"
    "length obs = length lanes" "av_schema u = Some (eb_schema b)"
  shows "encode_obs B obs lanes ph None u = (Inr b, u\<lparr>av_world := w\<rparr>)"
  using assms by (simp add: encode_obs_def Let_def run_simps good_batch_def)

lemma restore_body_runs:
  assumes "restores_as B k u b" "vb_transform B = None" "av_schema u = Some (eb_schema (ck_current k))"
    "ck_raw_ticks k = map PyInt (cf_ticks f)" "ck_raw_scores k = map PyInt (cf_scores f)"
    "ck_state_hashes k = map PyInt (cf_hashes f)"
  shows "\<exists>rs w. restore_body B k f u = (Inr (b, rs), u\<lparr>av_world := w\<rparr>) \<and> length rs = vb_num_envs B \<and>
    (\<forall>r \<in> set rs. 0 < rd_gauge_max r)"
proof -
  from assms(1) obtain obs w1 w2 w3 rs hs where e:
    "vb_restore_state B (ck_snapshots k) (av_world u) = (Inr obs, w1)" "length obs = vb_num_envs B"
    "rmap read_obs obs = Inr rs" "map (PyInt \<circ> rd_tick) rs = ck_raw_ticks k"
    "map (PyInt \<circ> rd_score) rs = ck_raw_scores k" "\<forall>r \<in> set rs. 0 < rd_gauge_max r"
    "vb_encode B obs w1 = (Inr b, w2)" "good_batch (vb_num_envs B) b" "eb_schema b = eb_schema (ck_current k)"
    "same_tensors b (ck_current k)" "vb_state_hash B w2 = (Inr hs, w3)" "map PyInt hs = ck_state_hashes k"
    unfolding restores_as_def by blast
  have inj: "map PyInt xs = map PyInt ys \<longleftrightarrow> xs = ys" for xs ys
    by (rule inj_map_eq_map) (simp add: inj_def)
  have eq: "map rd_tick rs = cf_ticks f" "map rd_score rs = cf_scores f" "hs = cf_hashes f"
    using e(4,5,12) assms(4-6) inj by (simp_all flip: map_map)
  have enc: "encode_obs B obs [0..<vb_num_envs B] ''restore'' None (u\<lparr>av_world := w1\<rparr>) = (Inr b, u\<lparr>av_world := w2\<rparr>)"
    using encode_runs [OF assms(2), of obs "u\<lparr>av_world := w1\<rparr>" b w2 "[0..<vb_num_envs B]"] e assms(3) by simp
  have "\<not> list_ex (\<lambda>r. rd_gauge_max r \<le> 0) rs" using e(6) by (auto simp: list_ex_iff)
  then have "restore_body B k f u = (Inr (b, rs), u\<lparr>av_world := w3\<rparr>)"
    using e eq enc by (simp add: restore_body_def Let_def require_lengths_def run_simps)
  then show ?thesis using e(3,2,6) rmap_length by fastforce
qed

lemma identity_of_checkpoint:
  assumes ok: "adapter_ok B s" and k: "take_checkpoint B s = (Inr k, s')"
    and B: "length (av_seeds s) = vb_num_envs B" "length (av_episode_labels s) = vb_num_envs B"
  shows "checkpoint_identity B (av_schema s) k = Inr ()"
    "\<exists>hs. checkpoint_values B k = Inr \<lparr>cf_ticks = av_raw_ticks s, cf_scores = av_raw_scores s, cf_seeds = av_seeds s,
       cf_episode_ids = av_episode_ids s, cf_hashes = hs, cf_labels = av_episode_labels s\<rparr> \<and>
       ck_state_hashes k = map PyInt hs"
proof -
  note c = wp_resultD [OF checkpoint_wp k]
  from c have b: "validate_batch (ck_current k) = Inr ()" "av_schema s = Some (eb_schema (ck_current k))"
    and l: "length (av_raw_ticks s) = vb_num_envs B" "length (av_raw_scores s) = vb_num_envs B"
      "length (av_episode_ids s) = vb_num_envs B"
    using ok by (auto simp: adapter_ok_def Let_def good_batch_def)
  show "checkpoint_identity B (av_schema s) k = Inr ()"
    using c b l B by (auto simp: checkpoint_identity_def Let_def)
  from c obtain hs where "ck_state_hashes k = map PyInt hs" by blast
  with c show "\<exists>hs. checkpoint_values B k = Inr \<lparr>cf_ticks = av_raw_ticks s, cf_scores = av_raw_scores s, cf_seeds = av_seeds s,
       cf_episode_ids = av_episode_ids s, cf_hashes = hs, cf_labels = av_episode_labels s\<rparr> \<and>
       ck_state_hashes k = map PyInt hs"
    by (auto simp: checkpoint_values_def list_ex_iff)
qed

text \<open>C17: A checkpoint resumes: a fresh adapter of the same kind, reset once, accepts a checkpoint of a
  well-formed adapter and then holds the checkpointed ticks, scores, seeds, episode numbers, labels,
  seed schedule and observation, so that the next episode seeds are the ones the first adapter would
  have used.  The checkpointed adapter has one seed and one label for each lane; the new one's
  initializer, where it has one, has no assignment pending and accepts the checkpointed labels as
  its active assignments; the environment and the encoder restore snapshots as documented, and the
  encoder's source ticks are the environment's ticks.\<close>

theorem adapter_checkpoints_resume:
  assumes s: "adapter_ok B s" "take_checkpoint B s = (Inr k, s')" "length (av_seeds s) = vb_num_envs B"
      "length (av_episode_labels s) = vb_num_envs B"
    and u: "adapter_ok B u" "av_initialized u" "\<not> av_poisoned u" "av_schema u = av_schema s"
    and seeds: "seed_allocator_init name key (PyInt 0) = Inr a0"
      "av_seed_allocator s = a0\<lparr>sa_cursor := c\<rparr>" "av_seed_allocator u = a0\<lparr>sa_cursor := d\<rparr>"
    and ticks: "map uint (eb_source_tick (ck_current k)) = av_raw_ticks s" "\<forall>t \<in> set (av_raw_ticks s). t < 2 ^ 63"
    and episodes: "validate_episodes B ''cannot restore with a pending episode assignment'' (av_episode_labels s) u = (Inr (), u1)"
    and env: "restores_as B k u1 b"
  shows "\<exists>t. adapter_restore B k u = (Inr b, t) \<and> adapter_ok B t \<and> av_current t = Some b \<and>
    same_tensors b (the (av_current s)) \<and> av_raw_ticks t = av_raw_ticks s \<and> av_raw_scores t = av_raw_scores s \<and>
    av_seeds t = av_seeds s \<and> av_episode_ids t = av_episode_ids s \<and> av_episode_labels t = av_episode_labels s \<and>
    av_seed_allocator t = av_seed_allocator s"
proof -
  note id = identity_of_checkpoint [OF s]
  from id(2) obtain f where f: "checkpoint_values B k = Inr f" "cf_ticks f = av_raw_ticks s" "cf_scores f = av_raw_scores s"
    "cf_seeds f = av_seeds s" "cf_episode_ids f = av_episode_ids s" "cf_labels f = av_episode_labels s"
    "ck_state_hashes k = map PyInt (cf_hashes f)" by fastforce
  note k = wp_resultD [OF checkpoint_wp s(2)]
  have tr: "vb_transform B = None" using s(2)
    by (cases "vb_transform B") (auto simp: take_checkpoint_def run_simps praise_def split: if_splits option.splits prod.splits)
  have sch: "av_schema s = Some (eb_schema (ck_current k))" using k s(1) by (auto simp: adapter_ok_def Let_def)
  have u1: "books u u1" by (rule wp_resultD [OF validate_episodes_wp [OF books_refl] episodes])
  have c: "0 \<le> c" "c \<le> ss_size (sa_split a0)" using s(1) seeds(2) by (simp_all add: adapter_ok_def allocator_ok_def)
  note own = load_own_state [OF seeds(1) c]
  have st: "ck_seed_allocator k = sa_state_dict (a0\<lparr>sa_cursor := c\<rparr>)" using k seeds(2) by auto
  have zero: "a0\<lparr>sa_cursor := 0\<rparr> = a0" using init_own [OF seeds(1)] by (cases a0) simp
  have fresh: "load_seeds (ck_seed_allocator k) (av_seed_allocator u) = Inr (av_seed_allocator u)"
    using own [of 0] st zero seeds init_own [OF seeds(1)] by (simp add: load_seeds_def fresh_allocator_def)
  obtain rs w where body: "restore_body B k f u1 = (Inr (b, rs), u1\<lparr>av_world := w\<rparr>)"
    using restore_body_runs [OF env tr, of f] u(4) sch f k books_fields(5) [OF u1] by auto
  have "\<forall>t \<in> set (av_raw_ticks s). 0 \<le> t" unfolding ticks(1) [symmetric] by auto
  then have d: "ticks_disagree (eb_source_tick (ck_current k)) (cf_ticks f) = Inr False"
    using ticks f(2) by (auto simp: ticks_disagree_def list_ex_iff not_le intro: less_le_trans [of _ "0 :: int"])
  have run: "adapter_restore B k u = (Inr b, adopt_restore (av_seed_allocator s) f b rs (u1\<lparr>av_world := w\<rparr>))"
    using u(2-4) id(1) f(1,6) episodes d fresh body own [of d] st seeds books_fields(1) [OF u1]
    by (simp add: adapter_restore_def run_simps closed_def pcatch_base_def pmod_def)
  from wp_resultD [OF restore_adapter_wp [OF u(1)] run] have "restored B u k b (adopt_restore (av_seed_allocator s) f b rs (u1\<lparr>av_world := w\<rparr>))" by simp
  then show ?thesis using run f k by (auto simp: restored_def)
qed

section \<open>Witnesses\<close>

definition demo_outcome :: "('a res \<times> 's) \<Rightarrow> 'a list \<times> 's" where
  "demo_outcome r = ((case fst r of Inr x \<Rightarrow> [x] | Inl _ \<Rightarrow> []), snd r)"

definition demo_macro :: "(int list, unit) backend \<Rightarrow> int list adapter \<Rightarrow> int \<Rightarrow> macro_transition list list \<times> int list adapter" where
  "demo_macro B s n = demo_outcome (macro_body B s (the (av_current s)) [demo_shot, demo_wait n]
     [PrimWeak 0 0, PrimWait n] s)"

lemma demo_returns: "demo_outcome r = ([x], t) \<Longrightarrow> r = (Inr x, t)"
  by (cases r; cases "fst r") (auto simp: demo_outcome_def)

lemma demo_raises: "demo_outcome r = ([], t) \<Longrightarrow> \<exists>e. r = (Inl e, t)"
  by (cases r; cases "fst r") (auto simp: demo_outcome_def)

lemma demo_vec_fields: "vb_initializer demo_vec = None" "vb_num_envs demo_vec = 2" "vb_action_spec demo_vec = demo_client"
  "pending demo_vec s = False"
  by (simp_all add: demo_vec_def pending_def)

lemma demo_act_lengths: "length demo_acts = 2" "length demo_crash = 2"
  by (simp_all add: demo_acts_def demo_crash_def)

lemma demo_allocator_ok: "allocator_ok demo_seeds"
  by (auto simp: demo_seeds_def allocator_ok_def split_ok_def intro: exI [of _ 3])

lemma demo_fresh_ok: "adapter_ok demo_vec demo_fresh"
  using demo_allocator_ok by (simp add: demo_fresh_def adapter_ok_def adapter_init_def Let_def)

text \<open>A reset, and two steps of a shot and a wait; both episodes end with the second.\<close>

definition demo_first :: "macro_transition list \<times> int list adapter" where
  "demo_first = (let (ts, t) = demo_macro demo_vec demo_started 2 in (hd ts, t))"

definition demo_second :: "macro_transition list \<times> int list adapter" where
  "demo_second = (let (ts, t) = demo_macro demo_vec (snd demo_first) 2 in (hd ts, t))"

lemma demo_vec_reset: "\<exists>b. adapter_reset demo_vec (Some False) demo_fresh = (Inr b, demo_started)"
proof -
  have "length (fst (demo_outcome (adapter_reset demo_vec (Some False) demo_fresh))) = 1" by code_simp
  then obtain b t where "demo_outcome (adapter_reset demo_vec (Some False) demo_fresh) = ([b], t)"
    by (cases "demo_outcome (adapter_reset demo_vec (Some False) demo_fresh)") (auto simp: length_Suc_conv)
  from demo_returns [OF this] show ?thesis by (auto simp: demo_started_def)
qed

lemma demo_started_ok: "adapter_ok demo_vec demo_started" "av_initialized demo_started" "\<not> av_poisoned demo_started"
  using demo_vec_reset wp_resultD [OF reset_wp [OF demo_fresh_ok]] by (auto simp: fresh_adapter_def)

lemma demo_step_macro:
  assumes "adapter_ok demo_vec s" "av_initialized s" "\<not> av_poisoned s" "length (fst (demo_macro demo_vec s 2)) = 1"
  shows "adapter_step demo_vec demo_acts s = (Inr (hd (fst (demo_macro demo_vec s 2))), snd (demo_macro demo_vec s 2))"
proof -
  obtain ts where "fst (demo_macro demo_vec s 2) = [ts]" using assms(4) by (auto simp: length_Suc_conv)
  then have m: "demo_macro demo_vec s 2 = ([ts], snd (demo_macro demo_vec s 2))" by (metis prod.collapse)
  obtain cur where c: "av_current s = Some cur" using assms(1,2) by (auto simp: adapter_ok_def Let_def)
  have "adapter_step demo_vec demo_acts s = macro_body demo_vec s cur [demo_shot, demo_wait 2] [PrimWeak 0 0, PrimWait 2] s"
    using assms(2,3) c by (intro step_is_macro) (simp_all add: demo_vec_fields demo_lowered demo_act_lengths)
  with demo_returns [OF m [unfolded demo_macro_def c option.sel]] show ?thesis
    unfolding demo_macro_def c option.sel by (metis fst_conv list.sel(1) m [unfolded demo_macro_def c option.sel])
qed

lemma demo_vec_steps:
  "adapter_step demo_vec demo_acts demo_started = (Inr (fst demo_first), snd demo_first)"
  "adapter_step demo_vec demo_acts (snd demo_first) = (Inr (fst demo_second), snd demo_second)"
proof -
  have l: "length (fst (demo_macro demo_vec demo_started 2)) = 1" by code_simp
  show one: "adapter_step demo_vec demo_acts demo_started = (Inr (fst demo_first), snd demo_first)"
    using demo_step_macro [OF demo_started_ok l] by (simp add: demo_first_def split: prod.split)
  from step_result [OF demo_started_ok(1) one] have ok: "adapter_ok demo_vec (snd demo_first)"
    "av_initialized (snd demo_first)" "\<not> av_poisoned (snd demo_first)"
    using demo_started_ok by (auto simp: stepped_def)
  have "length (fst (demo_macro demo_vec (snd demo_first) 2)) = 1" by code_simp
  from demo_step_macro [OF ok this]
  show "adapter_step demo_vec demo_acts (snd demo_first) = (Inr (fst demo_second), snd demo_second)"
    by (simp add: demo_second_def split: prod.split)
qed

lemma demo_first_values:
  "map (\<lambda>x. (mt_primitive_trace x, mt_raw_reward x, mt_done x)) (fst demo_first) =
     [([''press'', ''release''], 10, False), ([''wait''], 10, False)]"
  by code_simp

lemma demo_second_values: "done_lanes (fst demo_second) = [0, 1]" "av_seeds (snd demo_second) = [21, 18]"
  by code_simp+

lemma demo_scores: "av_raw_scores demo_started = [0, 0]" "av_seeds demo_started = [19, 16]" "done_lanes (fst demo_first) = []"
  by code_simp+

theorem adapter_stays_well_formed_witness:
  "adapter_ok demo_vec (foldl (adapter_exec demo_vec) demo_fresh [OpReset (Some False), OpStep demo_acts, OpStep demo_acts]) \<and>
   av_seeds (foldl (adapter_exec demo_vec) demo_fresh [OpReset (Some False), OpStep demo_acts, OpStep demo_acts]) = [21, 18]"
proof -
  obtain b where "adapter_reset demo_vec (Some False) demo_fresh = (Inr b, demo_started)" using demo_vec_reset by blast
  then have run: "foldl (adapter_exec demo_vec) demo_fresh [OpReset (Some False), OpStep demo_acts, OpStep demo_acts] = snd demo_second"
    by (simp add: adapter_exec_def raised_def demo_vec_steps)
  have "\<not> av_poisoned (snd demo_second)" by code_simp
  with run demo_second_values(2) show ?thesis
    using adapter_stays_well_formed [OF demo_allocator_ok, of demo_vec "[4, 4]"
      "[OpReset (Some False), OpStep demo_acts, OpStep demo_acts]"] unfolding demo_fresh_def [symmetric] by simp
qed

theorem adapter_fails_closed_witness:
  "\<exists>e t. adapter_step demo_vec demo_crash demo_started = (Inl e, t) \<and> av_poisoned t \<and>
     foldl (adapter_exec demo_vec) t [OpReset (Some False), OpStep demo_acts] = t"
proof -
  obtain cur where c: "av_current demo_started = Some cur" using demo_started_ok by (auto simp: adapter_ok_def Let_def)
  have "fst (demo_macro demo_vec demo_started 30) = []" by code_simp
  then have "demo_macro demo_vec demo_started 30 = ([], snd (demo_macro demo_vec demo_started 30))" by (metis prod.collapse)
  from demo_raises [OF this [unfolded demo_macro_def c option.sel]] obtain e
    where e: "macro_body demo_vec demo_started cur [demo_shot, demo_wait 30] [PrimWeak 0 0, PrimWait 30] demo_started =
      (Inl e, snd (demo_macro demo_vec demo_started 30))" unfolding demo_macro_def c option.sel by blast
  have "adapter_step demo_vec demo_crash demo_started =
      macro_body demo_vec demo_started cur [demo_shot, demo_wait 30] [PrimWeak 0 0, PrimWait 30] demo_started"
    using demo_started_ok c by (intro step_is_macro) (simp_all add: demo_vec_fields demo_lowered demo_act_lengths)
  with e have s: "adapter_step demo_vec demo_crash demo_started = (Inl e, snd (demo_macro demo_vec demo_started 30))" by simp
  have p: "av_poisoned (snd (demo_macro demo_vec demo_started 30))" by code_simp
  show ?thesis
    using adapter_fails_closed [OF demo_started_ok(1), of demo_crash e "snd (demo_macro demo_vec demo_started 30)"
      None OpCheckpoint "snd (demo_macro demo_vec demo_started 30)" "[OpReset (Some False), OpStep demo_acts]"] s p by blast
qed

lemma demo_ends: "map (\<lambda>x. (mt_raw_reward x, mt_done x)) (fst demo_second) = [(10, True), (10, True)]"
  by code_simp

theorem steps_account_for_every_lane_witness:
  "mt_primitive_trace (fst demo_first ! 0) = [''press'', ''release''] \<and>
   av_raw_scores (snd demo_first) ! 0 = av_raw_scores demo_started ! 0 + 10 \<and>
   (\<exists>ps. reports demo_vec (snd demo_first) ps 0 (fst demo_second ! 0)) \<and>
   mt_done (fst demo_second ! 0) \<and> mt_raw_reward (fst demo_second ! 0) = 10"
proof -
  have "mt_raw_reward (fst demo_first ! 0) = 10" "\<not> mt_done (fst demo_first ! 0)"
    "mt_primitive_trace (fst demo_first ! 0) = [''press'', ''release'']"
    using demo_first_values by auto
  moreover note one = steps_account_for_every_lane [OF demo_started_ok(1) demo_vec_steps(1), of 0]
  then have "moves demo_vec demo_started 0 (fst demo_first ! 0) (snd demo_first)" by (auto simp: demo_vec_fields)
  moreover have "\<exists>ps. reports demo_vec (snd demo_first) ps 0 (fst demo_second ! 0)"
    using steps_account_for_every_lane [OF _ demo_vec_steps(2), of 0] one by (auto simp: demo_vec_fields accounts_def)
  moreover have "mt_raw_reward (fst demo_second ! 0) = 10 \<and> mt_done (fst demo_second ! 0)" using demo_ends by auto
  ultimately show ?thesis by (simp add: moves_def)
qed

lemma demo_collects: "collects demo_vec demo_started [fst demo_first] (snd demo_first)"
  "collects demo_vec demo_started [fst demo_first, fst demo_second] (snd demo_second)"
  using collects_step [OF collects_start demo_vec_steps(1)]
    collects_step [OF collects_step [OF collects_start demo_vec_steps(1)] demo_vec_steps(2)] by simp_all

theorem rollouts_are_chained_witness:
  "follows (fst demo_first ! 1) (fst demo_second ! 1) \<and> av_raw_scores (snd demo_first) ! 1 = 10 \<and>
   mt_done (fst demo_second ! 1) \<and>
   (\<exists>(u :: int list adapter) ps o' r. reported demo_vec (av_world u) ps 1 [''wait''] o' 10 True False \<and> read_obs o' = Inr r \<and>
      rd_score r = 20 \<and> rd_tick r = 4)"
proof -
  have v: "mt_raw_reward (fst demo_first ! 1) = 10" "\<not> mt_done (fst demo_first ! 1)"
    "mt_raw_reward (fst demo_second ! 1) = 10" "mt_done (fst demo_second ! 1)"
    using demo_first_values demo_ends by auto
  have e: "mt_elapsed_ticks (fst demo_first ! 1) = 2" "mt_elapsed_ticks (fst demo_second ! 1) = 2"
    "mt_primitive_trace (fst demo_second ! 1) = [''wait'']" "mt_terminated (fst demo_second ! 1)"
    "\<not> mt_truncated (fst demo_second ! 1)" "av_raw_ticks demo_started ! 1 = 0"
    by code_simp+
  note two = rollouts_are_chained [OF demo_started_ok(1) demo_collects(2), of 1 0]
  have "\<exists>(u :: int list adapter) ps o' r. reported demo_vec (av_world u) ps 1 [''wait''] o' 10 True False \<and> read_obs o' = Inr r \<and>
      rd_score r = 20 \<and> rd_tick r = 4"
    using two v e demo_scores(1) by (simp add: demo_vec_fields Let_def) blast
  then show ?thesis
    using two rollouts_are_chained [OF demo_started_ok(1) demo_collects(1), of 1 0] demo_scores(1) v
    by (simp add: demo_vec_fields)
qed

theorem episode_seeds_never_repeat_witness:
  "episode_seeds demo_vec [OpReset (Some False), OpStep demo_acts, OpReset None, OpStep demo_acts] demo_fresh = [19, 16, 21, 18] \<and>
   distinct [19, 16, 21, 18 :: int]"
proof -
  obtain b where r: "adapter_reset demo_vec (Some False) demo_fresh = (Inr b, demo_started)" using demo_vec_reset by blast
  have none: "adapter_reset demo_vec None s = (Inl (Exn TypeError ''disposable reset flag must be boolean''), s)"
    if "\<not> av_poisoned s" for s
    using that by (simp add: adapter_reset_def Let_def pbind_def pget_def pguard_def pret_def praise_def)
  have "\<not> av_poisoned (snd demo_first)" by code_simp
  then have e: "episode_seeds demo_vec [OpReset (Some False), OpStep demo_acts, OpReset None, OpStep demo_acts] demo_fresh = [19, 16, 21, 18]"
    using r demo_second_values demo_scores by (simp add: adapter_exec_def raised_def demo_vec_steps none)
  show ?thesis
    using episode_seeds_never_repeat [OF demo_allocator_ok demo_vec_fields(1), of
      "[OpReset (Some False), OpStep demo_acts, OpReset None, OpStep demo_acts]" "[4, 4]"] e
    by (simp add: demo_fresh_def)
qed

text \<open>A second run, on the train split; its checkpoint is loaded by an adapter that was reset twice.\<close>

definition demo_train :: seed_allocator where
  "demo_train = (case seed_allocator_init ''train'' (PyInt 7) (PyInt 0) of Inr a \<Rightarrow> a | Inl _ \<Rightarrow> demo_seeds)"

lemma demo_train_init: "seed_allocator_init ''train'' (PyInt 7) (PyInt 0) = Inr demo_train"
proof -
  obtain a where "seed_allocator_init ''train'' (PyInt 7) (PyInt 0) = Inr a"
    by (simp add: seed_allocator_init_def SEED_SPLITS_V1_def sa_load_state_dict_def Let_def)
  then show ?thesis by (simp add: demo_train_def)
qed

definition demo_reset_of :: "int list adapter \<Rightarrow> encoded_batch list \<times> int list adapter" where
  "demo_reset_of s = demo_outcome (adapter_reset demo_vec (Some True) s)"

definition demo_source :: "int list adapter" where
  "demo_source = snd (demo_macro demo_vec (snd (demo_reset_of (adapter_init demo_vec [4, 4] demo_train))) 2)"

definition demo_target :: "int list adapter" where
  "demo_target = snd (demo_reset_of (snd (demo_reset_of (adapter_init demo_vec [9, 9] demo_train))))"

definition demo_saved :: "adapter_checkpoint list \<times> int list adapter" where
  "demo_saved = demo_outcome (take_checkpoint demo_vec demo_source)"

lemma demo_reset_ok:
  assumes "adapter_ok demo_vec s" "length (fst (demo_reset_of s)) = 1"
  shows "adapter_ok demo_vec (snd (demo_reset_of s)) \<and> av_initialized (snd (demo_reset_of s)) \<and> \<not> av_poisoned (snd (demo_reset_of s))"
proof -
  obtain b where "demo_reset_of s = ([b], snd (demo_reset_of s))"
    using assms(2) by (cases "demo_reset_of s") (auto simp: length_Suc_conv)
  from demo_returns [OF this [unfolded demo_reset_of_def]] wp_resultD [OF reset_wp [OF assms(1)]]
  show ?thesis by (fastforce simp: fresh_adapter_def demo_reset_of_def)
qed

lemma demo_train_ok: "adapter_ok demo_vec (adapter_init demo_vec w demo_train)"
  using init_ok [OF demo_train_init] by (simp add: adapter_ok_def adapter_init_def Let_def)

lemma demo_source_ok: "adapter_ok demo_vec demo_source"
proof -
  let ?s = "snd (demo_reset_of (adapter_init demo_vec [4, 4] demo_train))"
  have "length (fst (demo_reset_of (adapter_init demo_vec [4, 4] demo_train))) = 1" by code_simp
  from demo_reset_ok [OF demo_train_ok this] have s: "adapter_ok demo_vec ?s" "av_initialized ?s" "\<not> av_poisoned ?s" by auto
  have "length (fst (demo_macro demo_vec ?s 2)) = 1" by code_simp
  from step_result [OF s(1) demo_step_macro [OF s this]] show ?thesis by (auto simp: demo_source_def stepped_def)
qed

lemma demo_target_ok: "adapter_ok demo_vec demo_target" "av_initialized demo_target" "\<not> av_poisoned demo_target"
proof -
  have "length (fst (demo_reset_of (adapter_init demo_vec [9, 9] demo_train))) = 1" by code_simp
  note one = demo_reset_ok [OF demo_train_ok this]
  have "length (fst (demo_reset_of (snd (demo_reset_of (adapter_init demo_vec [9, 9] demo_train))))) = 1" by code_simp
  from demo_reset_ok [OF _ this] one
  show "adapter_ok demo_vec demo_target" "av_initialized demo_target" "\<not> av_poisoned demo_target"
    by (auto simp: demo_target_def)
qed

lemma demo_saved_runs: "take_checkpoint demo_vec demo_source = (Inr (hd (fst demo_saved)), snd demo_saved)"
proof -
  have "length (fst demo_saved) = 1" by code_simp
  then have "demo_outcome (take_checkpoint demo_vec demo_source) = ([hd (fst demo_saved)], snd demo_saved)"
    unfolding demo_saved_def by (cases "demo_outcome (take_checkpoint demo_vec demo_source)") (auto simp: length_Suc_conv)
  from demo_returns [OF this] show ?thesis .
qed

lemma demo_saved_values:
  "ck_snapshots (hd (fst demo_saved)) = [Some [2], Some [2]]" "av_raw_ticks demo_source = [2, 2]"
  "map uint (eb_source_tick (ck_current (hd (fst demo_saved)))) = [2, 2]"
  "ck_raw_ticks (hd (fst demo_saved)) = [PyInt 2, PyInt 2]" "ck_raw_scores (hd (fst demo_saved)) = [PyInt 10, PyInt 10]"
  "ck_state_hashes (hd (fst demo_saved)) = [PyInt 2, PyInt 2]"
  by code_simp+

lemma demo_books:
  "sa_cursor (av_seed_allocator demo_source) = 2" "sa_cursor (av_seed_allocator demo_target) = 4"
  "av_schema demo_source = Some demo_schema" "av_schema demo_target = Some demo_schema"
  by code_simp+

lemma demo_allocators:
  "av_seed_allocator demo_source = demo_train\<lparr>sa_cursor := 2\<rparr>" "av_seed_allocator demo_target = demo_train\<lparr>sa_cursor := 4\<rparr>"
  by code_simp+

lemma demo_saved_batch: "ck_current (hd (fst demo_saved)) = demo_batch [2, 2]"
  by code_simp

lemma demo_batch_good: "good_batch 2 (demo_batch [2, 2])" "same_tensors (demo_batch [2, 2]) (demo_batch [2, 2])"
  by (simp add: good_batch_def, code_simp) code_simp

lemma demo_restores: "restores_as demo_vec (hd (fst demo_saved)) demo_target (demo_batch [2, 2])"
proof -
  let ?r = "\<lparr>rd_tick = 2, rd_score = 10, rd_gauge = 5, rd_gauge_max = 10\<rparr>"
  have "vb_restore_state demo_vec [Some [2], Some [2]] (av_world demo_target) = (Inr [demo_obs 2, demo_obs 2], [2, 2])"
    by (simp add: demo_vec_def Let_def)
  moreover have "rmap read_obs [demo_obs 2, demo_obs 2] = Inr [?r, ?r]"
    by (simp add: read_obs_def demo_obs_def gauge_fields_def)
  moreover have "vb_encode demo_vec [demo_obs 2, demo_obs 2] [2, 2] = (Inr (demo_batch [2, 2]), [2, 2])"
    "vb_state_hash demo_vec [2, 2] = (Inr [2, 2], [2, 2])"
    by (simp_all add: demo_vec_def demo_tick_def demo_obs_def)
  moreover have "map (PyInt \<circ> rd_tick) [?r, ?r] = [PyInt 2, PyInt 2]" "map (PyInt \<circ> rd_score) [?r, ?r] = [PyInt 10, PyInt 10]"
    "\<forall>r \<in> set [?r, ?r]. 0 < rd_gauge_max r" "map PyInt [2, 2] = [PyInt 2, PyInt 2]" "length [demo_obs 2, demo_obs 2] = 2"
    by simp_all
  ultimately show ?thesis
    unfolding restores_as_def demo_saved_values demo_saved_batch demo_vec_fields using demo_batch_good
    by (intro exI [of _ "[demo_obs 2, demo_obs 2]"] exI [of _ "[2, 2] :: int list"] exI [of _ "[?r, ?r]"] conjI) simp_all
qed

lemma demo_counts: "length (av_seeds demo_source) = vb_num_envs demo_vec" "length (av_episode_labels demo_source) = vb_num_envs demo_vec"
  by code_simp+

lemma demo_no_episodes: "validate_episodes demo_vec c ls u = (Inr (), u)"
  by (simp add: validate_episodes_def demo_vec_fields pret_def)

theorem adapter_checkpoints_resume_witness:
  "\<exists>t. adapter_restore demo_vec (hd (fst demo_saved)) demo_target = (Inr (demo_batch [2, 2]), t) \<and>
     av_raw_ticks t = [2, 2] \<and> av_seed_allocator t = demo_train\<lparr>sa_cursor := 2\<rparr>"
  using adapter_checkpoints_resume [OF demo_source_ok demo_saved_runs demo_counts demo_target_ok _ demo_train_init
      demo_allocators _ _ demo_no_episodes demo_restores] demo_saved_values(2,3) demo_books(3,4) demo_allocators by auto

section \<open>An exception that escapes\<close>

text \<open>The merge of a release converts its reward outside the \<open>try\<close> block.  When that raises, the
  environment has stepped, the adapter is not poisoned, and its books are those from before the step.\<close>

definition demo_bad :: "(int list, unit) backend" where
  "demo_bad = demo_vec\<lparr>vb_step_many := (\<lambda>lanes ps ws. case demo_advance lanes ps ws of
     (Inr (obs, rewards, te, tr, infos), w) \<Rightarrow>
       (Inr (obs, map (\<lambda>_. Inl (Exn TypeError ''int() argument must be a real number'')) rewards, te, tr, infos), w)
   | (Inl e, w) \<Rightarrow> (Inl e, w))\<rparr>"

theorem release_rewards_escape:
  "\<exists>e t. adapter_step demo_bad demo_acts demo_started = (Inl e, t) \<and> exn_class e = TypeError \<and>
     \<not> av_poisoned t \<and> av_world demo_started = [0, 0] \<and> av_world t = [2, 2] \<and> av_raw_ticks t = [0, 0]"
proof -
  obtain cur where c: "av_current demo_started = Some cur" using demo_started_ok by (auto simp: adapter_ok_def Let_def)
  have f: "vb_num_envs demo_bad = 2" "vb_action_spec demo_bad = demo_client" "pending demo_bad demo_started = False"
    by (simp_all add: demo_bad_def demo_vec_def pending_def)
  have s: "adapter_step demo_bad demo_acts demo_started =
      macro_body demo_bad demo_started cur [demo_shot, demo_wait 2] [PrimWeak 0 0, PrimWait 2] demo_started"
    using demo_started_ok c by (intro step_is_macro) (simp_all add: f demo_lowered demo_act_lengths)
  have "(case macro_body demo_bad demo_started (the (av_current demo_started)) [demo_shot, demo_wait 2] [PrimWeak 0 0, PrimWait 2] demo_started of
     (Inl e, t) \<Rightarrow> exn_class e = TypeError \<and> \<not> av_poisoned t \<and> av_world demo_started = [0, 0] \<and> av_world t = [2, 2] \<and> av_raw_ticks t = [0, 0]
   | (Inr ts, t) \<Rightarrow> False)" by code_simp
  then show ?thesis unfolding s c option.sel by (auto split: prod.splits sum.splits)
qed

end
