(* ===== verification/Padded_Native.thy ===== *)
theory Padded_Native
  imports Padded_Lanes
begin

text \<open>
  The portable simulator as a machine: every call of \<open>NativeSimulator\<close> that reaches the handle, in the
  dictionary and in the padded form, and the batch step, in which it is one simulator among others.  Its
  generation rises exactly when the world that event views were made for ends.
\<close>

datatype ('c, 'o) native_op =
    NativeReset wire_num
  | NativeResetPadded wire_num
  | NativeConfigure "(config_key \<times> config_value) list option"
  | NativeStep wire_num wire_num wire_num wire_num
  | NativeStepPadded wire_num wire_num wire_num wire_num
  | NativeBatch "'c native_sim list" "'c native_sim list" "encoded_action list" "'o batch_buffers option" nat
  | NativeRestore "byte list"
  | NativeRestorePadded "byte list"
  | NativeEvents native_events
  | NativeObservation
  | NativeObservationPadded
  | NativeHash
  | NativeConfigHash
  | NativeConfig
  | NativeBuildInfo
  | NativeClone
  | NativeClose

text \<open>The simulator of a batch that follows \<open>before\<close>; a library answers for every handle it was given.\<close>

definition native_batched :: "('c, 'o) native_library \<Rightarrow> 'c native_sim list \<Rightarrow> 'c native_sim list
    \<Rightarrow> encoded_action list \<Rightarrow> 'o batch_buffers option \<Rightarrow> nat \<Rightarrow> 'c native_sim \<Rightarrow> 'c native_sim" where
  "native_batched L before after actions buffers workers s =
     (case step_padded_batch L (before @ s # after) actions buffers workers of
        (_, sims, _) \<Rightarrow> if length before < length sims then sims ! length before else s)"

definition native_do :: "('c, 'o) native_library \<Rightarrow> 'c native_sim \<Rightarrow> ('c, 'o) native_op \<Rightarrow> 'c native_sim" where
  "native_do L s op = (case op of
     NativeReset seed \<Rightarrow> snd (native_reset L seed s)
   | NativeResetPadded seed \<Rightarrow> snd (native_reset_padded L seed s)
   | NativeConfigure config \<Rightarrow> snd (native_configure L config s)
   | NativeStep kind x y wait \<Rightarrow> snd (native_step L kind x y wait s)
   | NativeStepPadded kind x y wait \<Rightarrow> snd (native_step_padded L kind x y wait s)
   | NativeBatch before after actions buffers workers \<Rightarrow> native_batched L before after actions buffers workers s
   | NativeRestore b \<Rightarrow> snd (native_restore_state L b s)
   | NativeRestorePadded b \<Rightarrow> snd (native_restore_padded L b s)
   | NativeEvents view \<Rightarrow> snd (read_padded_events L view s)
   | NativeObservation \<Rightarrow> snd (native_observation L s)
   | NativeObservationPadded \<Rightarrow> snd (observation_padded L s)
   | NativeHash \<Rightarrow> snd (native_state_hash L s)
   | NativeConfigHash \<Rightarrow> snd (native_config_hash L s)
   | NativeConfig \<Rightarrow> snd (native_config L s)
   | NativeBuildInfo \<Rightarrow> snd (native_build_info L s)
   | NativeClone \<Rightarrow> snd (native_clone_state L s)
   | NativeClose \<Rightarrow> snd (native_close s))"

text \<open>A simulator that is open, on a call that the library accepts.\<close>

definition accepted :: "'c native_sim \<Rightarrow> ('c \<Rightarrow> bool) \<Rightarrow> bool" where
  "accepted s f \<longleftrightarrow> (case ns_handle s of None \<Rightarrow> False | Some c \<Rightarrow> f c)"

text \<open>What the library answered to a batch: that it ran, and that it stepped the simulator at \<open>i\<close>.\<close>

definition batch_stepped :: "('c, 'o) native_library \<Rightarrow> 'c native_sim list \<Rightarrow> encoded_action list
    \<Rightarrow> 'o batch_buffers option \<Rightarrow> nat \<Rightarrow> nat \<Rightarrow> bool" where
  "batch_stepped L sims actions buffers workers i \<longleftrightarrow> list_all (\<lambda>s. ns_handle s \<noteq> None) sims \<and>
     (let used = (case buffers of Some b \<Rightarrow> if valid_buffers (length sims) b then b else fresh_buffers L (length sims)
                  | None \<Rightarrow> fresh_buffers L (length sims))
      in case nl_padded_step_batch L (map (\<lambda>s. the (ns_handle s)) sims) actions
             (bb_transitions used ! (1 - bb_slot used)) workers of
           (ok, statuses, _, handles) \<Rightarrow> ok \<and> i < length handles \<and> i < length statuses \<and> statuses ! i)"

text \<open>The calls that end the world a view was made for: a reset, a configuration, a step, alone or in a
  batch, or a restore, with arguments that pass the checks and that the library accepts, and the close of
  an open simulator.  A call that raises afterwards, on the text the library returns, has ended it too.\<close>

definition ends_world :: "('c, 'o) native_library \<Rightarrow> ('c, 'o) native_op \<Rightarrow> 'c native_sim \<Rightarrow> bool" where
  "ends_world L op s = (case op of
     NativeReset seed \<Rightarrow> (case bounded_integer seed ''seed'' UINT32 of Inl _ \<Rightarrow> False
       | Inr n \<Rightarrow> accepted s (\<lambda>c. fst (nl_reset L c n)))
   | NativeResetPadded seed \<Rightarrow> (case bounded_integer seed ''seed'' UINT32 of Inl _ \<Rightarrow> False
       | Inr n \<Rightarrow> accepted s (\<lambda>c. fst (nl_padded_reset L c n)))
   | NativeConfigure config \<Rightarrow> (case native_overrides config of Inl _ \<Rightarrow> False
       | Inr overrides \<Rightarrow> accepted s (\<lambda>c. fst (nl_configure L c overrides)))
   | NativeStep kind x y wait \<Rightarrow> (case native_action kind x y wait of Inl _ \<Rightarrow> False
       | Inr a \<Rightarrow> accepted s (\<lambda>c. fst (nl_step L c a)))
   | NativeStepPadded kind x y wait \<Rightarrow> (case native_action kind x y wait of Inl _ \<Rightarrow> False
       | Inr a \<Rightarrow> accepted s (\<lambda>c. fst (nl_padded_step L c a)))
   | NativeBatch before after actions buffers workers \<Rightarrow>
       batch_stepped L (before @ s # after) actions buffers workers (length before)
   | NativeRestore b \<Rightarrow> b \<noteq> [] \<and> accepted s (\<lambda>c. fst (nl_snapshot_restore L c b))
   | NativeRestorePadded b \<Rightarrow> b \<noteq> [] \<and> accepted s (\<lambda>c. fst (nl_snapshot_restore L c b))
   | NativeClose \<Rightarrow> ns_handle s \<noteq> None
   | _ \<Rightarrow> False)"

fun world_ended :: "('c, 'o) native_library \<Rightarrow> 'c native_sim \<Rightarrow> ('c, 'o) native_op list \<Rightarrow> bool" where
  "world_ended L s [] = False"
| "world_ended L s (op # ops) \<longleftrightarrow> ends_world L op s \<or> world_ended L (native_do L s op) ops"

section \<open>Generations\<close>

text \<open>What a computation does to the generation: \<open>steady\<close> leaves it.\<close>

definition steady :: "('c native_sim, 'a) py \<Rightarrow> bool" where
  "steady m \<longleftrightarrow> (\<forall>s. ns_generation (snd (m s)) = ns_generation s)"

lemma steady_pbind: "steady m \<Longrightarrow> (\<And>x. steady (k x)) \<Longrightarrow> steady (pbind m k)"
  by (auto simp: steady_def pbind_def split: sum.split prod.split) (metis snd_conv)+

lemma steady_basic: "steady (pret x)" "steady (praise e)" "steady (pguard b e)" "steady (pget f)" "steady (plift r)"
  "steady (pmod (\<lambda>s. s\<lparr>ns_handle := h\<rparr>))"
  by (auto simp: steady_def pret_def praise_def pguard_def pget_def plift_def pmod_def split: sum.split)

lemma steady_open: "steady native_open"
  unfolding native_open_def by (intro steady_pbind steady_basic) (simp add: steady_basic split: option.split)

lemma steady_call: "steady (native_call operation f)"
  unfolding native_call_def
  by (intro steady_pbind steady_open) (auto split: prod.split intro!: steady_pbind steady_basic)

lemma steady_query: "steady (native_query L operation f)"
  unfolding native_query_def native_json_def
  by (intro steady_pbind steady_open) (auto split: prod.split option.split intro!: steady_pbind steady_basic)

lemma advance_then:
  "(\<And>x. steady (m x)) \<Longrightarrow>
     ns_generation (snd (pbind (native_call operation f) (\<lambda>x. pbind native_advance (\<lambda>_. m x)) s)) =
       (if accepted s (\<lambda>c. fst (f c)) then Suc (ns_generation s) else ns_generation s)"
  by (auto simp: native_call_def native_open_def native_advance_def accepted_def steady_def pbind_def pget_def pret_def
      praise_def pmod_def pguard_def split: option.split prod.split)

lemma batch_statuses_generation:
  "length (snd (batch_statuses ss oks)) = length ss \<and> (i < length ss \<longrightarrow>
     ns_generation (snd (batch_statuses ss oks) ! i) =
       (if i < length oks \<and> oks ! i then Suc (ns_generation (ss ! i)) else ns_generation (ss ! i)))"
proof (induction ss oks arbitrary: i rule: batch_statuses.induct)
  case (1 s ss ok oks)
  then show ?case by (cases i) (auto split: prod.split)
qed auto

lemma batched_generation:
  "ns_generation (native_batched L before after actions buffers workers s) =
     (if batch_stepped L (before @ s # after) actions buffers workers (length before)
      then Suc (ns_generation s) else ns_generation s)"
proof (cases "list_all (\<lambda>s. ns_handle s \<noteq> None) (before @ s # after)")
  case False
  then have "list_ex (\<lambda>s. ns_handle s = None) (before @ s # after)" by (auto simp: list_ex_iff list_all_iff)
  with False show ?thesis by (simp add: native_batched_def step_padded_batch_def batch_stepped_def del: list_all_append list_ex_append)
next
  case True
  let ?sims = "before @ s # after"
  define used where "used = (case buffers of Some b \<Rightarrow> if valid_buffers (length ?sims) b then b
    else fresh_buffers L (length ?sims) | None \<Rightarrow> fresh_buffers L (length ?sims))"
  have used': "(if case buffers of None \<Rightarrow> False | Some b \<Rightarrow> valid_buffers (length ?sims) b then the buffers
      else fresh_buffers L (length ?sims)) = used"
    by (auto simp: used_def split: option.split)
  have open': "\<not> list_ex (\<lambda>s. ns_handle s = None) ?sims" using True by (auto simp: list_ex_iff list_all_iff)
  obtain ok statuses ts hs where a: "nl_padded_step_batch L (map (\<lambda>s. the (ns_handle s)) ?sims) actions
      (bb_transitions used ! (1 - bb_slot used)) workers = (ok, statuses, ts, hs)" by (metis prod_cases4)
  let ?stepped = "map (\<lambda>(s, c). s\<lparr>ns_handle := Some c\<rparr>) (zip ?sims hs)"
  have at: "ns_generation (?stepped ! length before) = ns_generation s" if "length before < length hs"
    using that by (simp add: nth_append)
  have sims: "fst (snd (step_padded_batch L ?sims actions buffers workers)) =
      (if ok then snd (batch_statuses ?stepped statuses) else ?stepped)"
    unfolding step_padded_batch_def if_not_P [OF open'] Let_def used' a by (auto split: prod.split option.split)
  have b: "batch_stepped L ?sims actions buffers workers (length before) \<longleftrightarrow>
      ok \<and> length before < length hs \<and> length before < length statuses \<and> statuses ! length before"
    unfolding batch_stepped_def Let_def used_def [symmetric] a using True by simp
  have l: "length ?stepped = min (length ?sims) (length hs)" by simp
  note g = batch_statuses_generation [of ?stepped statuses "length before"]
  have "native_batched L before after actions buffers workers s =
      (let sims = fst (snd (step_padded_batch L ?sims actions buffers workers))
       in if length before < length sims then sims ! length before else s)"
    by (auto simp: native_batched_def Let_def split: prod.split)
  then show ?thesis unfolding sims b Let_def using g l at by (auto simp del: length_map length_zip)
qed

lemma steady_after: "steady m \<Longrightarrow> ns_generation (snd (m s)) = ns_generation s"
  by (simp add: steady_def)

lemmas steady_reads = steady_after [OF steady_query] steady_after [OF steady_call]

text \<open>Calls that check their arguments first.\<close>

lemma checked_generation:
  "ns_generation (snd (pbind (plift r) k s)) = (case r of Inl _ \<Rightarrow> ns_generation s | Inr x \<Rightarrow> ns_generation (snd (k x s)))"
  by (auto simp: pbind_def plift_def split: sum.split)

lemma guarded_generation:
  "ns_generation (snd (pbind (pguard b e) k s)) = (if b then ns_generation s else ns_generation (snd (k () s)))"
  by (simp add: pbind_def pguard_def pret_def praise_def)

lemma fst_case: "fst (case x of (ok, c) \<Rightarrow> (ok, (), c)) = fst x"
  by (simp split: prod.split)

lemma steady_view: "steady (pbind (pget ns_generation) (\<lambda>g. pret (f g)))"
  by (intro steady_pbind steady_basic)

lemma native_do_generation:
  "ns_generation (native_do L s op) = (if ends_world L op s then Suc (ns_generation s) else ns_generation s)"
proof (cases op)
  case (NativeReset seed)
  then show ?thesis
    by (simp add: native_do_def ends_world_def native_reset_def native_do_call_def native_observation_def
        checked_generation advance_then [OF steady_query] fst_case split: sum.split)
next
  case (NativeResetPadded seed)
  then show ?thesis
    by (simp add: native_do_def ends_world_def native_reset_padded_def checked_generation
        advance_then [OF steady_basic(1)] split: sum.split)
next
  case (NativeConfigure config)
  then show ?thesis
    by (simp add: native_do_def ends_world_def native_configure_def native_do_call_def native_config_def
        checked_generation advance_then [OF steady_query] fst_case split: sum.split)
next
  case (NativeStep kind x y wait)
  then show ?thesis
    by (simp add: native_do_def ends_world_def native_step_def native_do_call_def
        checked_generation advance_then [OF steady_query] fst_case split: sum.split)
next
  case (NativeStepPadded kind x y wait)
  then show ?thesis
    by (simp add: native_do_def ends_world_def native_step_padded_def checked_generation
        advance_then [OF steady_view] split: sum.split)
next
  case (NativeBatch before after actions buffers workers)
  then show ?thesis by (simp add: native_do_def ends_world_def batched_generation)
next
  case (NativeRestore b)
  then show ?thesis
    by (simp add: native_do_def ends_world_def native_restore_state_def native_do_call_def native_observation_def
        guarded_generation advance_then [OF steady_query] fst_case)
next
  case (NativeRestorePadded b)
  then show ?thesis
    by (simp add: native_do_def ends_world_def native_restore_padded_def observation_padded_def
        guarded_generation advance_then [OF steady_call] fst_case)
next
  case (NativeEvents view)
  have "steady (read_padded_events L view)"
    unfolding read_padded_events_def by (auto split: prod.split intro!: steady_pbind steady_basic steady_call)
  with NativeEvents show ?thesis by (simp add: native_do_def ends_world_def steady_after)
next
  case NativeClone
  have "steady (native_clone_state L)"
    unfolding native_clone_state_def by (auto split: prod.split intro!: steady_pbind steady_basic steady_open)
  with NativeClone show ?thesis by (simp add: native_do_def ends_world_def steady_after)
next
  case NativeBuildInfo
  have "steady (native_build_info L)"
    unfolding native_build_info_def native_json_def by (auto intro!: steady_basic split: option.split)
  with NativeBuildInfo show ?thesis by (simp add: native_do_def ends_world_def steady_after)
next
  case NativeHash
  have "steady (native_state_hash L)"
    unfolding native_state_hash_def by (intro steady_pbind steady_basic steady_open)
  with NativeHash show ?thesis by (simp add: native_do_def ends_world_def steady_after)
next
  case NativeConfigHash
  have "steady (native_config_hash L)"
    unfolding native_config_hash_def by (intro steady_pbind steady_basic steady_open)
  with NativeConfigHash show ?thesis by (simp add: native_do_def ends_world_def steady_after)
next
  case NativeClose
  then show ?thesis
    by (auto simp: native_do_def ends_world_def native_close_def pbind_def pget_def pwhen_def pmod_def pret_def)
qed (simp_all add: native_do_def ends_world_def native_observation_def native_config_def observation_padded_def steady_reads)

interpretation native_machine: ranked_machine "native_do L" "\<lambda>_. True" ns_generation for L
  by unfold_locales (simp_all add: native_do_generation)

lemma world_ended_generation:
  "world_ended L s ops \<longleftrightarrow> ns_generation (foldl (native_do L) s ops) \<noteq> ns_generation s"
proof (induction ops arbitrary: s)
  case (Cons op ops)
  have "ns_generation (native_do L s op) \<le> ns_generation (foldl (native_do L) (native_do L s op) ops)"
    by (rule native_machine.rank_run) simp
  then show ?case using Cons native_do_generation [of L s op] by auto
qed simp

end
