(* ===== verification/Padded_Props.thy ===== *)
theory Padded_Props
  imports Padded_Demo Padded_Native
begin

text \<open>The properties of the padded vector environment and of the portable simulator.\<close>

section \<open>Steps of exact environments\<close>

lemma step_checks_keeps: "keeps I (step_checks actions)"
  unfolding step_checks_def pv_require_open_def pv_items_def by (intro keeps_intros)

lemma step_checks_reads: "step_checks actions s = (r, t) \<Longrightarrow> t = s"
  using keepsD [OF step_checks_keeps [of "\<lambda>t. t = s"]] by blast

text \<open>C7: one step of an exact environment gives every lane one exchange, whatever the sizes of the waves
  and the order in which \<open>poll\<close> reports the workers: each simulator, and each slot of the buffer being
  filled, is what that lane's request and response alone make of it, the step raises the failure of
  the lowest failing lane and otherwise returns every lane's transition, and the buffer that the
  previous step returned is left alone.\<close>

theorem exact_step_is_lanewise:
  assumes "polls_end W" "polling_works W" "exact_shape s" "step_checks actions s = (Inr encoded, u)"
  shows "\<exists>r t. pv_step W actions s = Some (r, t) \<and>
    t = s\<lparr>pv_lanes := pv_lanes t, pv_transition_buffers := pv_transition_buffers t,
      pv_transition_slot := 1 - pv_transition_slot s\<rparr> \<and>
    (\<forall>i < pv_num_envs s. pv_lanes t ! i = fst (snd (lane_exchange W encoded s i)) \<and>
       pv_transition_buffers t ! (1 - pv_transition_slot s) ! i = fst (snd (snd (lane_exchange W encoded s i)))) \<and>
    pv_transition_buffers t ! pv_transition_slot s = pv_transition_buffers s ! pv_transition_slot s \<and>
    (case r of
       Inl e \<Rightarrow> \<exists>i < pv_num_envs s. fst (lane_exchange W encoded s i) = Some e \<and>
         (\<forall>j < i. fst (lane_exchange W encoded s j) = None)
     | Inr out \<Rightarrow> (\<forall>i < pv_num_envs s. fst (lane_exchange W encoded s i) = None) \<and>
         out = padded_result t (map (\<lambda>i. (TransitionView (1 - pv_transition_slot s) i,
           ExactEvents (the (snd (snd (snd (lane_exchange W encoded s i))))))) [0 ..< pv_num_envs s]))"
proof -
  let ?n = "pv_num_envs s" and ?slot = "1 - pv_transition_slot s" and ?X = "lane_exchange W encoded s"
  let ?st = "(s\<lparr>pv_transition_slot := ?slot\<rparr>, \<lparr>ef_events = replicate ?n None, ef_failures = []\<rparr>)"
  have q: "True \<Longrightarrow> polling_works W" using assms(2) by simp
  from step_exact_steps [OF assms(1) q assms(3), where encoded = encoded] obtain r t f D
    where st: "step_exact W encoded s = Some (r, t)" and D: "D = {..<?n}"
      and l: "lane_steps True (exchange W encoded) ?slot ?n D ?st (t, f)"
      and r: "r = (if ef_failures f \<noteq> [] then Inl (first_failure (ef_failures f))
        else Inr (map (\<lambda>i. (TransitionView ?slot i, ExactEvents (the (ef_events f ! i)))) [0 ..< ?n]))"
    by blast
  note d = stepsD [OF l]
  have cell: "(pv_lanes t ! i, pv_transition_buffers t ! ?slot ! i, ef_events f ! i) = snd (?X i)" if "i < ?n" for i
    using d(3) [OF that] that by (simp add: cell_def lane_exchange_def D)
  have fail: "map_of (ef_failures f) i = fst (?X i)" if "i < ?n" for i
    using d(7) [of i] that by (simp add: fail_of_def cell_def lane_exchange_def D)
  have out: "map_of (ef_failures f) i = None" if "\<not> i < ?n" for i
    using d(5) [of i] that by (simp add: fail_of_def D)
  have rest: "t = s\<lparr>pv_lanes := pv_lanes t, pv_transition_buffers := pv_transition_buffers t, pv_transition_slot := ?slot\<rparr>"
    "pv_transition_buffers t ! pv_transition_slot s = pv_transition_buffers s ! pv_transition_slot s"
  proof -
    have e: "t\<lparr>pv_lanes := [], pv_transition_buffers := []\<rparr> =
        s\<lparr>pv_transition_slot := ?slot, pv_lanes := [], pv_transition_buffers := []\<rparr>"
      using d(2) by (simp add: same_rest_def)
    show "t = s\<lparr>pv_lanes := pv_lanes t, pv_transition_buffers := pv_transition_buffers t, pv_transition_slot := ?slot\<rparr>"
      using e by (cases s; cases t) simp
    have "pv_transition_slot s < 2" using assms(3) by (simp add: exact_shape_def)
    then have "pv_transition_slot s \<noteq> ?slot" by arith
    then show "pv_transition_buffers t ! pv_transition_slot s = pv_transition_buffers s ! pv_transition_slot s"
      using d(2) by (simp add: same_rest_def)
  qed
  have step: "pv_step W actions s = Some (rbind r (\<lambda>rs. Inr (padded_result t rs)), t)"
    using st assms(3,4) step_checks_reads [OF assms(4)] by (simp add: pv_step_def exact_shape_def)
  have c: "\<forall>i < ?n. pv_lanes t ! i = fst (snd (?X i)) \<and>
      pv_transition_buffers t ! ?slot ! i = fst (snd (snd (?X i))) \<and> ef_events f ! i = snd (snd (snd (?X i)))"
    using cell by (metis fst_conv snd_conv)
  show ?thesis
  proof (cases "ef_failures f = []")
    case True
    then have "fst (?X i) = None" if "i < ?n" for i using fail [OF that] by simp
    moreover have "r = Inr (map (\<lambda>i. (TransitionView ?slot i, ExactEvents (the (snd (snd (snd (?X i))))))) [0 ..< ?n])"
      using r True c by simp
    ultimately show ?thesis using step rest c by simp
  next
    case False
    from first_failure_lowest [OF this] obtain i where i: "map_of (ef_failures f) i = Some (first_failure (ef_failures f))"
      "\<forall>j < i. map_of (ef_failures f) j = None" by blast
    then have n: "i < ?n" using out [of i] by (cases "i < ?n") simp_all
    with i fail have "fst (?X i) = Some (first_failure (ef_failures f)) \<and> (\<forall>j < i. fst (?X j) = None)" by simp
    then show ?thesis using step rest c n r False by auto
  qed
qed

theorem exact_step_is_lanewise_witness:
  "\<exists>r t. pv_step demo_padded (Some demo_actions) demo_lanes = Some (r, t) \<and>
     pv_lanes t ! 0 = fst (snd (lane_exchange demo_padded (replicate 2 (2, 0, 0, 1)) demo_lanes 0))"
  using exact_step_is_lanewise [OF demo_polling(2,3) demo_shape(1) demo_checks] demo_shape(3) by force

text \<open>C10: however polling misbehaves (a poller that cannot be made, registrations and polls that raise,
  empty answers), a step of an exact environment whose lanes are idle ends, and leaves no request
  outstanding on any lane: each lane's log is as it was or has one action more.\<close>

theorem no_request_left_outstanding:
  assumes "polls_end W" "exact_shape s" "list_all idle_lane (pv_lanes s)"
  shows "\<exists>r t. pv_step W actions s = Some (r, t) \<and> length (pv_lanes t) = pv_num_envs s \<and>
    (\<forall>i < pv_num_envs s. settled_lane (pv_lanes s ! i) (pv_lanes t ! i))"
proof (cases "step_checks actions s")
  case (Pair c u)
  have u: "u = s" by (rule step_checks_reads [OF Pair])
  have n: "length (pv_lanes s) = pv_num_envs s" and x: "pv_exact s" using assms(2) by (simp_all add: exact_shape_def)
  have idle: "idle_lane (pv_lanes s ! i)" if "i < pv_num_envs s" for i
    using assms(3) n that by (simp add: list_all_length)
  show ?thesis
  proof (cases c)
    case (Inl e)
    then show ?thesis using Pair u n idle by (simp add: pv_step_def settled_lane_refl)
  next
    case (Inr encoded)
    have q: "False \<Longrightarrow> polling_works W" by simp
    let ?slot = "1 - pv_transition_slot s" and ?n = "pv_num_envs s"
    let ?st = "(s\<lparr>pv_transition_slot := ?slot\<rparr>, \<lparr>ef_events = replicate ?n None, ef_failures = []\<rparr>)"
    from step_exact_steps [OF assms(1) q assms(2), where encoded = encoded] obtain r t f D
      where st: "step_exact W encoded s = Some (r, t)"
        and l: "lane_steps False (exchange W encoded) ?slot ?n D ?st (t, f)" by blast
    note d = stepsD [OF l]
    have "settled_lane (pv_lanes s ! i) (pv_lanes t ! i)" if "i < ?n" for i
    proof (cases "i \<in> D")
      case True
      obtain r' k b v where e: "exchange W encoded i (cell ?slot ?st i) = (r', (k, b, v))" by (metis prod.exhaust)
      then have "settled_lane (pv_lanes s ! i) k"
        using exchange_settles [OF idle [OF that]] by (simp add: cell_def)
      then show ?thesis using d(3) [OF that] True e by (simp add: cell_def)
    next
      case False
      then show ?thesis using d(3) [OF that] settled_lane_refl [OF idle [OF that]] by (simp add: cell_def)
    qed
    moreover have "length (pv_lanes t) = ?n" using d(1) by (simp add: shaped_def)
    ultimately show ?thesis using st Pair Inr u x by (simp add: pv_step_def)
  qed
qed

text \<open>A world whose \<open>poll\<close> always raises.\<close>

theorem no_request_left_outstanding_witness:
  "\<exists>r t. pv_step (demo_padded\<lparr>pw_poll := \<lambda>ls fds. Inl (Exn OSError ''poll'')\<rparr>) (Some demo_actions) demo_lanes = Some (r, t) \<and>
     settled_lane (ExactLane demo_sim) (pv_lanes t ! 1)"
proof -
  have w: "polls_end (demo_padded\<lparr>pw_poll := \<lambda>ls fds. Inl (Exn OSError ''poll'')\<rparr>)" by (simp add: polls_end_def)
  have i: "list_all idle_lane (pv_lanes demo_lanes)"
    by (simp add: demo_lanes_def idle_lane_def demo_sim_def unbuilt_sim_def)
  have l: "pv_lanes demo_lanes ! 1 = ExactLane demo_sim" "1 < pv_num_envs demo_lanes" by (simp_all add: demo_lanes_def)
  from no_request_left_outstanding [OF w demo_shape(1) i, of "Some demo_actions"] l show ?thesis by metis
qed

section \<open>Subsets of lanes\<close>

text \<open>C13: a \<open>restore_many\<close> that raises has changed nothing, or it was rolled back: lanes that are not
  addressed are as they were, and unless the environment is poisoned every addressed lane holds the
  seed and the log it had before and no other field has changed.  It holds whatever order the pool
  runs the lanes in and whatever the workers answer, in both the restore and the rollback.\<close>

theorem subset_restore_is_transactional:
  assumes "fair_pool W" "\<forall>i. digest_32 (pw_sim W i)"
    and "length (pv_lanes s) = pv_num_envs s" "list_all sound_lane (pv_lanes s)"
    and "restore_many W indices snapshots s = (Inl e, t)"
  shows "t = s \<or> (\<exists>lanes. subset_indices (pv_num_envs s) indices = Inr lanes \<and> rolled_back lanes s t)"
  by (rule wp_raiseD [OF restore_many_wp [OF assms(1-4)] assms(5)])

theorem subset_restore_is_transactional_witness:
  "\<exists>e t. restore_many demo_padded (Some [PyInt 1]) (Some [Some []]) demo_lanes = (Inl e, t) \<and>
     (t = demo_lanes \<or> rolled_back [1] demo_lanes t)"
proof -
  have sound: "list_all sound_lane (pv_lanes demo_lanes)"
    using demo_sim_inv by (simp add: demo_lanes_def sound_lane_def demo_sim_def unbuilt_sim_def uint64_def)
  have i: "subset_indices (pv_num_envs demo_lanes) (Some [PyInt 1]) = Inr [1]"
    by (simp add: subset_indices_def demo_lanes_def)
  have c: "at_lanes (\<lambda>i. lane_clone (pw_sim demo_padded i) (pw_library demo_padded)) [1] demo_lanes = (Inr [demo_snapshot], demo_lanes)"
    by (simp add: at_lane_def demo_lanes_def lane_clone_def on_lane_def demo_padded_def demo_clone pbind_def pret_def)
  obtain x where p: "in_pool demo_padded (restore_jobs demo_padded [1] [[]]) demo_lanes = (Inl x, demo_lanes)"
    by (simp add: in_pool_def restore_jobs_def demo_padded_def demo_lanes_def run_job_def restore_one_def on_lane_def
        pbind_def demo_rejected)
  obtain e t where b: "(roll_back demo_padded [1] [demo_snapshot] [True] x ::
      ((nat, unit) padded_env, unit lane_obs list) py) demo_lanes = (Inl e, t)"
  proof (cases "in_pool demo_padded (restore_jobs demo_padded [1] [demo_snapshot]) demo_lanes")
    case (Pair q v)
    then show ?thesis using that by (cases q) (simp_all add: roll_back_def pbind_def pcatch_base_def pmod_def praise_def)
  qed
  have r: "restore_many demo_padded (Some [PyInt 1]) (Some [Some []]) demo_lanes = (Inl e, t)"
  proof -
    have f: "\<not> pv_poisoned demo_lanes" "pv_executor demo_lanes" "pv_has_reset demo_lanes ! 1" by (simp_all add: demo_lanes_def)
    show ?thesis
      using i c p b f by (simp add: restore_many_def pbind_def pget_def plift_def pguard_def pret_def pcatch_base_def
          pv_require_open_def del: at_lanes.simps)
  qed
  have w: "fair_pool demo_padded" "\<forall>i. digest_32 (pw_sim demo_padded i)"
    by (rule demo_polling(1)) (simp add: demo_padded_def)
  have n: "length (pv_lanes demo_lanes) = pv_num_envs demo_lanes" by (simp add: demo_lanes_def)
  from subset_restore_is_transactional [OF w n sound r] r i show ?thesis by auto
qed

text \<open>C21: \<open>step_many\<close> either refuses its arguments and changes nothing, or gives each addressed lane its own
  action once and touches no other lane and no other field, whatever order the pool runs the lanes in; it
  raises the failure of the first lane of the call that fails, and otherwise returns their transitions in
  the order of the call.\<close>

theorem subset_steps_are_lanewise:
  assumes "fair_pool W" "length (pv_lanes s) = pv_num_envs s" "step_many W indices actions s = (r, t)"
  shows "t = s \<and> (\<exists>e. r = Inl e) \<or>
    (\<exists>lanes parsed. lane_indices (pv_num_envs s) ''step'' indices = Inr lanes \<and>
       rmap parse_action actions = Inr parsed \<and> lanes_stepped W lanes parsed s t \<and> steps_gave W lanes parsed s r t)"
    (is "?P r t")
proof -
  have "wp (step_many W indices actions) (\<lambda>x. ?P (Inr x)) (\<lambda>e. ?P (Inl e)) s"
    by (rule step_many_wp [OF assms(1,2)]) (auto split: sum.split)
  with assms(3) show ?thesis by (cases r) (auto dest: wp_resultD wp_raiseD)
qed

theorem subset_steps_are_lanewise_witness:
  "\<exists>r t. step_many demo_padded [PyInt 1] [hd demo_actions] demo_lanes = (r, t) \<and>
     pv_lanes t ! 0 = ExactLane demo_sim"
proof -
  obtain r t where r: "step_many demo_padded [PyInt 1] [hd demo_actions] demo_lanes = (r, t)" by fastforce
  have n: "length (pv_lanes demo_lanes) = pv_num_envs demo_lanes" "pv_lanes demo_lanes ! 0 = ExactLane demo_sim"
    "pv_num_envs demo_lanes = 2" by (simp_all add: demo_lanes_def)
  have i: "lane_indices 2 ''step'' [PyInt 1] = Inr [1]" by (simp add: lane_indices_def)
  have "pv_lanes t ! 0 = ExactLane demo_sim"
  proof -
    have "map_of (zip [1 :: nat] parsed) 0 = None" for parsed :: "parsed_action list" by (cases parsed) simp_all
    then show ?thesis using subset_steps_are_lanewise [OF demo_polling(1) n(1) r] n i
      by (auto simp: lanes_stepped_def)
  qed
  with r show ?thesis by blast
qed

section \<open>Padded memory\<close>

text \<open>C28: what the packed memory of an exact lane shows through the \<open>ctypes\<close> views is what the typed decoder
  reads from the same response: after a validated response is copied into a transition buffer, the
  observation view is the decoded observation and the diagnostics are the response's own; and the
  decoded observation copied out for a reset or a restore is viewed unchanged.\<close>

theorem padded_views_are_typed:
  assumes v: "validate_raw_padded_transition p = Inr (e, h, g)" and m: "length mem = TRANSITION_BYTES"
    and d: "decode_exact_transition p mem = (t, g')"
  shows "length t = TRANSITION_BYTES \<and> g' = g \<and> decode_observation p 0 = Inr (observation_view t, e) \<and>
    diagnostics_view t = unpack_from TRANSITION p e \<and> h = diagnostics_view t ! 2 \<and>
    (\<exists>out. copy_exact_observation (observation_view t) blank_observation = Inr out \<and>
       length out = OBSERVATION_BYTES \<and> observation_view out = observation_view t)"
proof -
  note w = padded_transition_view [OF assms]
  have b: "length blank_observation = OBSERVATION_BYTES" by (simp add: blank_observation_def)
  from w have o': "decode_observation p 0 = Inr (observation_view t, e)" by blast
  from copied_observation_view [OF o', of blank_observation] b obtain out
    where "copy_exact_observation (observation_view t) blank_observation = Inr out"
      "length out = OBSERVATION_BYTES" "observation_view out = observation_view t" by auto
  with w show ?thesis by blast
qed

theorem padded_views_are_typed_witness:
  "observation_view (fst (decode_exact_transition demo_padded_bytes blank_transition)) = demo_observation"
proof -
  obtain t g where d: "decode_exact_transition demo_padded_bytes blank_transition = (t, g)" by fastforce
  have b: "length blank_transition = TRANSITION_BYTES" by (simp add: blank_transition_def)
  have o': "decode_observation demo_padded_bytes 0 = Inr (demo_observation, 112)"
    unfolding demo_padded_bytes_def by (rule demo_obs(1))
  from padded_views_are_typed [OF demo_validated b d] o' d show ?thesis by simp
qed

section \<open>Event views of the portable simulator\<close>

text \<open>C29: A lazy event view that a step of the portable simulator returned, if it was not read before, can be
  read exactly until the world it was made for ends.  After any calls on the simulator, in the dictionary
  or in the padded form and in batches, once one of them was a reset, a configuration, a step or a restore
  that the library accepted, or the close, reading the view raises and touches nothing, even if that call
  raised afterwards; before that it asks the library for the events of that very step, and keeps them.  A
  view that was read before gives what it read, whatever happened since.\<close>

theorem stale_events_are_refused:
  assumes "native_step_padded L kind x y wait s = (Inr (tr, view), t)"
  shows "native_event_values L (view, cache) (foldl (native_do L) t ops) = (case cache of
     Some xs \<Rightarrow> (Inr (xs, view, Some xs), foldl (native_do L) t ops)
   | None \<Rightarrow>
       if world_ended L t ops
       then (Inl (native_failed ''lazy padded events expired; materialize them before the next step or reset''),
         foldl (native_do L) t ops)
       else pbind (native_call ''padded events'' (\<lambda>c. nl_padded_events L c (nt_event_count tr)))
         (\<lambda>xs. pret (xs, view, Some xs)) (foldl (native_do L) t ops))"
proof -
  have "view = (nt_event_count tr, ns_generation t)"
    using assms by (auto simp: native_step_padded_def native_advance_def pbind_def pget_def pret_def pmod_def
        split: sum.splits prod.splits)
  then show ?thesis
    using world_ended_generation [of L t ops]
    by (auto simp: native_event_values_def read_padded_events_def pbind_def pget_def pguard_def praise_def pret_def
        split: option.split)
qed

theorem stale_events_are_refused_witness:
  "\<exists>tr view t. native_step_padded demo_native (NumInt 0) (NumFloat 0) (NumFloat 0) (NumInt 1)
       \<lparr>ns_handle = Some 4, ns_generation = 0, ns_library = 0\<rparr> = (Inr (tr, view), t) \<and>
     fst (native_event_values demo_native (view, None) (foldl (native_do demo_native) t [NativeHash])) =
       Inr ([], view, Some []) \<and>
     isl (fst (native_event_values demo_native (view, None)
       (foldl (native_do demo_native) t [NativeHash, NativeConfigure (Some [])]))) \<and>
     isl (fst (native_event_values demo_native (view, None) (foldl (native_do demo_native) t [NativeHash, NativeClose])))"
proof -
  let ?s = "\<lparr>ns_handle = Some 4, ns_generation = 0, ns_library = 0\<rparr>"
  let ?r = "native_step_padded demo_native (NumInt 0) (NumFloat 0) (NumFloat 0) (NumInt 1) ?s"
  obtain tr view t where r: "?r = (Inr (tr, view), t)" and h: "ns_handle t = Some 5"
    by (simp add: native_step_padded_def native_action_def bounded_integer_def native_call_def native_open_def
        native_advance_def pbind_def pget_def pret_def pmod_def pguard_def plift_def demo_native_def UINT32_def)
  note e = stale_events_are_refused [OF r, of None, simplified option.case]
  have hash: "native_do demo_native t NativeHash = t"
    by (simp add: native_do_def native_state_hash_def native_open_def pbind_def pget_def pret_def praise_def h)
  have ended: "world_ended demo_native t [NativeHash, NativeClose]" "\<not> world_ended demo_native t [NativeHash]"
    "world_ended demo_native t [NativeHash, NativeConfigure (Some [])]"
    using h hash by (simp_all add: ends_world_def native_overrides_def flatten_config_def accepted_def demo_native_def)
  have events: "native_call ''padded events'' (\<lambda>c. nl_padded_events demo_native c n) t = (Inr [], t\<lparr>ns_handle := Some 5\<rparr>)" for n
    by (simp add: native_call_def native_open_def pbind_def pget_def pret_def pmod_def pguard_def demo_native_def h)
  have after: "foldl (native_do demo_native) t [NativeHash] = t" by (simp add: hash)
  have "fst (native_event_values demo_native (view, None) (foldl (native_do demo_native) t [NativeHash])) = Inr ([], view, Some [])"
    using e [of "[NativeHash]"] ended(2) events by (simp add: after pbind_def pret_def del: world_ended.simps foldl.simps)
  moreover have "isl (fst (native_event_values demo_native (view, None)
       (foldl (native_do demo_native) t [NativeHash, NativeConfigure (Some [])])))"
    unfolding e using ended(3) by (simp del: world_ended.simps foldl.simps)
  moreover have "isl (fst (native_event_values demo_native (view, None)
       (foldl (native_do demo_native) t [NativeHash, NativeClose])))"
    unfolding e using ended(1) by (simp del: world_ended.simps foldl.simps)
  ultimately show ?thesis using r by blast
qed

end
