(* ===== verification/Spec2Isabelle.thy ===== *)
theory Spec2Isabelle
  imports Seeds Harness_Properties Exact_Sim_Props Tail_Props Actions_Props Curriculum_Padded
    Vector_Props Padded_Props
begin

text \<open>
  A verification development for irisu-rl: a reinforcement-learning stack for a falling-block
  game.  It models the parts of the Python code that decide what happens: which seeds are used, what
  is sent to the live game and when it is stopped, what is said to the exact simulator processes,
  which training phase an update belongs to, which episodes a curriculum starts and what promotes it,
  and how the answers of a batch of simulators become transitions of whole episodes.

  \<^bold>\<open>How the program is put together.\<close>  A trainer takes seeds from \<open>irisu_rl/seeds.py\<close>, drives
  simulators through \<open>irisu_env\<close> (each an exact worker process behind pipes), chooses semantic
  actions (\<open>irisu_rl/actions.py\<close>), plays them in all lanes at once through the macro vector adapter
  (\<open>irisu_rl/vector_adapter.py\<close>: press, release, autoreset with the next seeds), and is steered by a curriculum (\<open>irisu_rl/curriculum.py\<close>, with the
  reward schedules of \<open>irisu_rl/rewards.py\<close>) and at the end of a campaign by the score-only tail
  (\<open>irisu_rl/r3b_tail.py\<close>).  A separate harness (\<open>irisu_rl/original_game/harness.py\<close>) plays the
  original game through screen captures and injected clicks.

  \<^bold>\<open>Conventions.\<close>  \<open>Py_Prelude\<close> holds the vocabulary: a method is a computation \<open>('s, 'a) py\<close> from the
  object's state to a result, an exception or a value, and the state reached, which survives a raise;
  \<open>wp\<close> and \<open>keeps\<close> are its weakest preconditions and invariants.  Its locales \<open>op_machine\<close> and
  \<open>ranked_machine\<close> state what holds over call sequences, and are interpreted by the components.
  \<open>Py_Float\<close> has Python's numbers (floats are extended rationals without the sign of zero, rounded as
  IEEE doubles where the code computes) and the values an argument may have, \<open>Py_Double\<close> facts on
  doubles, \<open>Py_Json\<close> JSON values and the SHA-256 text test.

  \<^bold>\<open>Seeds.\<close>  \<open>Seeds\<close> models all of \<open>seeds.py\<close>: the split table, the allocator with reserve, commit and
  take, and its checkpoint.  Its properties: no seed is handed out twice, splits never overlap.

  \<^bold>\<open>Original-game harness.\<close>  \<open>Harness_Types\<close> has the dataclasses with their validation, \<open>Harness\<close> the
  provider calls, cleanup and abort, \<open>Harness_Ops\<close> the public operations open, renew, capture, fire,
  record and close; \<open>Harness_Safety\<close>, \<open>Harness_Books\<close> and \<open>Harness_Calls\<close> prove the invariants over the
  log of provider calls, the books and call sequences, \<open>Harness_Properties\<close> the properties.  The
  provider, geometry adapter, classifier, clock and digests answer from the whole call history, so
  that a theorem holds for every behaviour of theirs.

  \<^bold>\<open>Exact simulator.\<close>  \<open>Exact_Wire\<close> and \<open>Exact_Decode\<close> are the binary protocol of
  \<open>irisu_env/exact_ipc.py\<close>: packed requests, strict typed decoders and the strided raw validators, proved
  equivalent in \<open>Exact_Decode_Props\<close>.  \<open>Exact_Proc\<close> identifies the worker process through \<open>/proc\<close>,
  \<open>Exact_Stream\<close> and \<open>Exact_Client\<close> are framing and requests over pipes that answer from the call
  history; \<open>Exact_Client_Props\<close> shows that a session stays in step, that a request is answered by a
  serving worker and that it fails closed.  \<open>Exact_Simulator\<close> is the simulator object;
  \<open>Exact_Sim_Trans\<close>, \<open>Exact_Sim_Inv\<close> and \<open>Exact_Sim_Props\<close> relate its state hash, log and snapshots, on
  the example of \<open>Exact_Sim_Demo\<close>.

  \<^bold>\<open>Score-only tail.\<close>  \<open>Tail\<close> models \<open>r3b_tail.py\<close>; \<open>Tail_Props\<close> proves that the controller refines its
  life cycle, can always be checkpointed and restored, and lets only unshaped updates through.

  \<^bold>\<open>Semantic actions.\<close>  \<open>Actions\<close> models \<open>ActionSpec\<close>: validation, lowering to a pixel of the client
  area, encoding and the 21-byte form; \<open>Actions_Props\<close> its round trip and bounds.

  \<^bold>\<open>Curriculum.\<close>  \<open>Curriculum_Spec\<close> has the reward schedules, snapshot recipes, library, blob store,
  stages and curricula with every constructor's checks; \<open>Curriculum\<close> the coordinator with all its
  operations and checkpoints; \<open>Curriculum_Init\<close> the snapshot initializer that restores reserved
  episodes in an environment.  \<open>Curriculum_Inv\<close> states the invariant, \<open>Curriculum_Gates\<close> the abstract
  ladder of stages and phases with one lemma per operation, \<open>Curriculum_Runs\<close> the transition system,
  \<open>Curriculum_Evidence\<close> promotion, budgets and checkpoints, \<open>Curriculum_Draws\<close> weights, masks, splits,
  draws and reservations.  The invariant has a set \<open>L\<close> of lanes as its parameter: the lanes that
  \<open>activate_focus_for_new_episodes\<close> is called for only before they start an episode, and whose snapshots
  are then known to be of their stages; for \<open>L\<close> empty the runs are all calls.  \<open>Curriculum_Props\<close> and
  \<open>Curriculum_Init_Props\<close> hold the properties; \<open>Curriculum_Padded\<close> shows that \<open>PaddedVectorEnv\<close> meets the
  contract under which an initialization is a transaction.

  \<^bold>\<open>Padded vector environment.\<close>  \<open>Padded_Memory\<close> has the packed buffers of \<open>irisu_env/padded.py\<close> as
  bytes, with their writers and typed views, \<open>Padded_Lanes\<close> the lanes: the exact simulator, and
  \<open>NativeSimulator\<close> (\<open>native.py\<close>) over a C library that is a parameter.  \<open>Padded_Env\<close> is
  the environment's state, its construction and the action parsing of \<open>env.py\<close>, \<open>Padded_Ops\<close> its
  methods but the steps, \<open>Padded_Step\<close> the steps with their waves and the poll loop.  \<open>Padded_Facts\<close>
  shows that a pooled call does not depend on the order in which its lanes finish; \<open>Padded_Waves\<close> and
  \<open>Padded_Exchange\<close> that an exact step gives every lane one exchange, whatever the waves and the answers of
  \<open>poll\<close>; \<open>Padded_Results\<close> what an exchange leaves; \<open>Padded_Subsets\<close> what \<open>restore_many\<close> and \<open>step_many\<close> do to
  the lanes they name; \<open>Padded_Native\<close> runs of the portable simulator, all calls that reach its handle, and its
  generation.  \<open>Padded_Demo\<close>
  holds worlds for the witnesses, \<open>Padded_Props\<close> the properties.

  \<^bold>\<open>Macro vector adapter.\<close>  \<open>Vector_Backend\<close> has the schemas, the environment as a parameter that answers
  from its own state, and the computations of the adapter; \<open>Vector_Adapter\<close> all its operations: reset,
  step (press, release, transitions, autoreset), checkpoint, restore, close.  \<open>Vector_Lanes\<close> proves the
  facts on a lane's columns, \<open>Vector_Step\<close> what each part of a step does, \<open>Vector_Runs\<close> the invariant and
  the call sequences, \<open>Vector_Demo\<close> a concrete environment; \<open>Vector_Props\<close> holds the properties: a
  raising call poisons the adapter (but for a release reward that \<open>int()\<close> does not accept, which
  escapes), rewards and ticks of every lane add up, the last ones of an episode included, seeds never
  repeat without an initializer, checkpoints resume.

  \<^bold>\<open>Parameters and hypotheses.\<close>  Digests (SHA-256, BLAKE2b, canonical JSON), torch sums, the provider,
  the worker process, the operating system and the vector environment are arguments of the
  definitions.  Hypotheses on them are named: \<open>digests_ok\<close> and \<open>hash_ok\<close> (a digest is 64 hexadecimal
  digits), \<open>accepting\<close> (every stream of digests has a value below the rejection limit), \<open>env_contract\<close>
  (on a well-formed vector environment queries change nothing, and a restore that raises leaves what the
  lanes held or an environment that failed closed, as \<open>irisu_env/padded.py\<close> documents; proved for its model),
  \<open>fair_pool\<close> (an executor runs every job once), \<open>polls_end\<close> (\<open>poll\<close> reports registered descriptors only),
  \<open>polling_works\<close> (polling raises nothing, reports something, and descriptors differ between workers),
  \<open>digest_32\<close> (a SHA-256 value has 32 bytes), \<open>restores_as\<close> (the environment and the encoder restore the snapshots they gave), and for a serving worker that
  writes are accepted and reads return what it sent.

  \<^bold>\<open>Loops.\<close>  Reads and writes of a pipe recurse on the bytes left (measures).  The rejection sampling of
  the curriculum is a \<open>partial_function (option)\<close>: \<open>reservations_return\<close> shows when it returns.  So is the
  poll loop of a padded step, which ends under \<open>polls_end\<close>; the properties of a step include that it returns.

  \<^bold>\<open>Not modelled.\<close>  Locks (a method is one step), asynchronous interrupts, formatted values inside
  exception texts, the sign of zero, dictionary views (\<open>to_dict\<close>, and manifests
  that only feed a digest nobody compares), the iteration order of sets, tuples inside JSON values, the
  difference of \<open>True\<close> and \<open>1\<close> in a loaded checkpoint, forked branches of a worker and their keeper
  checks, worker leases, searching and reading files, and everything that mostly calls NumPy, torch or the
  C++ core; the list of components names the reason for each part.
\<close>

end
